(* ===== verification/Prelude.thy ===== *)
theory Prelude
  imports Main
begin

text \<open>Shared vocabulary of the development: the result monad in which the fallible Rust code
  is written (\<open>Err\<close> is \<open>Inl\<close>, \<open>Ok\<close> is \<open>Inr\<close>), the checked, saturating and narrowing integer
  operations of the Rust standard library on unsigned integers kept as natural numbers with
  their width written out, and the generic lemmas on floor and ceiling division that every
  pricing computation of the program uses.\<close>

named_theorems result_simps \<open>inversion of successful results\<close>
named_theorems width_intros \<open>facts that a value stays inside its machine width\<close>

section \<open>Results\<close>

fun ebind :: "'e + 'a \<Rightarrow> ('a \<Rightarrow> 'e + 'b) \<Rightarrow> 'e + 'b" where
  "ebind (Inl e) f = Inl e"
| "ebind (Inr x) f = f x"

definition ok_or :: "'a option \<Rightarrow> 'e \<Rightarrow> 'e + 'a" where
  "ok_or x e = (case x of None \<Rightarrow> Inl e | Some y \<Rightarrow> Inr y)"

definition require :: "bool \<Rightarrow> 'e \<Rightarrow> 'e + unit" where
  "require b e = (if b then Inr () else Inl e)"

definition is_ok :: "'e + 'a \<Rightarrow> bool" where
  "is_ok r = (case r of Inl _ \<Rightarrow> False | Inr _ \<Rightarrow> True)"

lemma ebind_Inr [result_simps]: "ebind m f = Inr y \<longleftrightarrow> (\<exists>x. m = Inr x \<and> f x = Inr y)"
  by (cases m) auto

text \<open>For evaluation: a continuation is left alone until its argument is a value.\<close>

lemma ebind_weak_cong: "x = y \<Longrightarrow> ebind x f = ebind y f"
  by simp

lemma ebind_InrE: "ebind m f = Inr y \<Longrightarrow> (\<And>x. m = Inr x \<Longrightarrow> f x = Inr y \<Longrightarrow> R) \<Longrightarrow> R"
  by (cases m) auto

lemma prod_case_InrE:
  "(case p of (a, b) \<Rightarrow> f a b) = Inr y \<Longrightarrow> (\<And>a b. p = (a, b) \<Longrightarrow> f a b = Inr y \<Longrightarrow> R) \<Longrightarrow> R"
  by (cases p) auto

lemmas result_elims = ebind_InrE prod_case_InrE

lemma ebind_Inl: "ebind m f = Inl e \<longleftrightarrow> m = Inl e \<or> (\<exists>x. m = Inr x \<and> f x = Inl e)"
  by (cases m) auto

lemma ok_or_simps [simp]: "ok_or (Some y) e = Inr y" "ok_or None e = Inl e"
  by (simp_all add: ok_or_def)

lemma ok_or_Inr [result_simps]: "ok_or x e = Inr y \<longleftrightarrow> x = Some y"
  by (cases x) auto

lemma ok_or_Inl: "ok_or x e = Inl d \<longleftrightarrow> x = None \<and> d = e"
  by (cases x) auto

lemma require_simps [simp]: "require True e = Inr ()" "require False e = Inl e"
  by (simp_all add: require_def)

lemma require_Inr [result_simps]: "require b e = Inr u \<longleftrightarrow> b"
  by (cases b) auto

lemma require_Inl: "require b e = Inl d \<longleftrightarrow> \<not> b \<and> d = e"
  by (cases b) auto

lemma if_Inr [result_simps]: "(if b then Inl e else r) = Inr y \<longleftrightarrow> \<not> b \<and> r = Inr y"
  by simp

lemma is_ok_iff: "is_ok r \<longleftrightarrow> (\<exists>y. r = Inr y)"
  by (cases r) (auto simp: is_ok_def)

section \<open>Machine integers\<close>

definition u16_lim :: nat where "u16_lim = 2 ^ 16"
definition u32_lim :: nat where "u32_lim = 2 ^ 32"
definition u64_lim :: nat where "u64_lim = 2 ^ 64"
definition u128_lim :: nat where "u128_lim = 2 ^ 128"
definition i64_lim :: int where "i64_lim = 2 ^ 63"

lemmas lim_defs = u16_lim_def u32_lim_def u64_lim_def u128_lim_def i64_lim_def

lemma lim_pos [simp]: "0 < u16_lim" "0 < u32_lim" "0 < u64_lim" "0 < u128_lim"
  by (simp_all add: lim_defs)

lemma lim_order: "u16_lim < u32_lim" "u32_lim < u64_lim" "u64_lim < u128_lim"
  by (simp_all add: lim_defs)

lemma lim_square: "u64_lim * u64_lim = u128_lim" "u32_lim * u32_lim = u64_lim"
  by (simp_all add: lim_defs)

lemma u64_in_u128 [width_intros]: "a < u64_lim \<Longrightarrow> a < u128_lim"
  using lim_order by linarith

lemma u64_prod_in_u128 [width_intros]: "a < u64_lim \<Longrightarrow> b < u64_lim \<Longrightarrow> a * b < u128_lim"
  using mult_strict_mono[of a u64_lim b u64_lim] by (simp add: lim_square)

text \<open>The checked, saturating and narrowing operations; \<open>lim\<close> is two to the width.\<close>

definition checked_add :: "nat \<Rightarrow> nat \<Rightarrow> nat \<Rightarrow> nat option" where
  "checked_add lim a b = (if a + b < lim then Some (a + b) else None)"

definition checked_sub :: "nat \<Rightarrow> nat \<Rightarrow> nat option" where
  "checked_sub a b = (if b \<le> a then Some (a - b) else None)"

definition checked_mul :: "nat \<Rightarrow> nat \<Rightarrow> nat \<Rightarrow> nat option" where
  "checked_mul lim a b = (if a * b < lim then Some (a * b) else None)"

definition saturating_add :: "nat \<Rightarrow> nat \<Rightarrow> nat \<Rightarrow> nat" where
  "saturating_add lim a b = min (a + b) (lim - 1)"

definition saturating_sub :: "nat \<Rightarrow> nat \<Rightarrow> nat" where
  "saturating_sub a b = (if b \<le> a then a - b else 0)"

definition saturating_mul :: "nat \<Rightarrow> nat \<Rightarrow> nat \<Rightarrow> nat" where
  "saturating_mul lim a b = min (a * b) (lim - 1)"

definition narrow :: "nat \<Rightarrow> nat \<Rightarrow> nat option" where
  "narrow lim a = (if a < lim then Some a else None)"

text \<open>\<open>i64::saturating_add\<close> and the cast \<open>i64 as u64\<close> of a value that may be negative.\<close>

definition i64_saturating_add :: "int \<Rightarrow> int \<Rightarrow> int" where
  "i64_saturating_add a b = max (- i64_lim) (min (a + b) (i64_lim - 1))"

definition i64_saturating_sub :: "int \<Rightarrow> int \<Rightarrow> int" where
  "i64_saturating_sub a b = max (- i64_lim) (min (a - b) (i64_lim - 1))"

definition i64_checked_sub :: "int \<Rightarrow> int \<Rightarrow> int option" where
  "i64_checked_sub a b = (if - i64_lim \<le> a - b \<and> a - b < i64_lim then Some (a - b) else None)"

definition i64_as_u64 :: "int \<Rightarrow> nat" where
  "i64_as_u64 a = nat (a mod 2 ^ 64)"

lemma checked_add_Some [result_simps]: "checked_add lim a b = Some c \<longleftrightarrow> c = a + b \<and> a + b < lim"
  by (auto simp: checked_add_def)

lemma checked_sub_Some [result_simps]: "checked_sub a b = Some c \<longleftrightarrow> b \<le> a \<and> c = a - b"
  by (auto simp: checked_sub_def)

lemma checked_mul_Some [result_simps]: "checked_mul lim a b = Some c \<longleftrightarrow> c = a * b \<and> a * b < lim"
  by (auto simp: checked_mul_def)

lemma narrow_Some [result_simps]: "narrow lim a = Some c \<longleftrightarrow> c = a \<and> a < lim"
  by (auto simp: narrow_def)

lemma i64_checked_sub_Some [result_simps]:
  "i64_checked_sub a b = Some c \<longleftrightarrow> c = a - b \<and> - i64_lim \<le> a - b \<and> a - b < i64_lim"
  by (auto simp: i64_checked_sub_def)

lemma checked_None:
  "checked_add lim a b = None \<longleftrightarrow> lim \<le> a + b"
  "checked_sub a b = None \<longleftrightarrow> a < b"
  "checked_mul lim a b = None \<longleftrightarrow> lim \<le> a * b"
  "narrow lim a = None \<longleftrightarrow> lim \<le> a"
  by (auto simp: checked_add_def checked_sub_def checked_mul_def narrow_def)

lemma saturating_sub_minus [simp]: "saturating_sub a b = a - b"
  by (simp add: saturating_sub_def)

lemma saturating_add_width [width_intros]: "0 < lim \<Longrightarrow> saturating_add lim a b < lim"
  by (simp add: saturating_add_def min_def) linarith

lemma saturating_add_exact: "a + b < lim \<Longrightarrow> saturating_add lim a b = a + b"
  by (cases lim) (simp_all add: saturating_add_def)

lemma saturating_add_le: "saturating_add lim a b \<le> a + b"
  by (simp add: saturating_add_def)

lemma i64_as_u64_nonneg: "0 \<le> a \<Longrightarrow> a < i64_lim \<Longrightarrow> i64_as_u64 a = nat a"
  by (simp add: i64_as_u64_def i64_lim_def)

section \<open>Floor and ceiling division\<close>

definition ceil_div :: "nat \<Rightarrow> nat \<Rightarrow> nat" where
  "ceil_div a b = a div b + (if a mod b = 0 then 0 else 1)"

lemma ceil_div_le_iff: "0 < b \<Longrightarrow> ceil_div a b \<le> k \<longleftrightarrow> a \<le> k * b"
proof -
  assume b: "0 < b"
  have eq: "a = a div b * b + a mod b" by simp
  have r: "a mod b < b" using b by simp
  show ?thesis
  proof (cases "a mod b = 0")
    case True
    then have "a = a div b * b" using eq by simp
    then show ?thesis using True b unfolding ceil_div_def
      by (metis add_0_right mult_le_cancel2)
  next
    case False
    have "a div b + 1 \<le> k \<longleftrightarrow> a div b < k" by auto
    also have "\<dots> \<longleftrightarrow> a < k * b" using b by (simp add: div_less_iff_less_mult)
    also have "\<dots> \<longleftrightarrow> a \<le> k * b"
      using False by (metis le_eq_less_or_eq mod_mult_self2_is_0)
    finally show ?thesis using False by (simp add: ceil_div_def)
  qed
qed

lemma ceil_div_upper: "0 < b \<Longrightarrow> a \<le> ceil_div a b * b"
  using ceil_div_le_iff[of b a "ceil_div a b"] by simp

lemma ceil_div_lower: "0 < b \<Longrightarrow> 0 < a \<Longrightarrow> (ceil_div a b - 1) * b < a"
  using ceil_div_le_iff[of b a "ceil_div a b - 1"]
  by (metis One_nat_def Suc_pred diff_le_self less_numeral_extra(3) linorder_not_less
      le_antisym n_not_Suc_n not_gr_zero ceil_div_upper mult_zero_left le_zero_eq)

lemma div_le_ceil_div: "a div b \<le> ceil_div a b"
  by (simp add: ceil_div_def)

lemma ceil_div_le_Suc_div: "ceil_div a b \<le> a div b + 1"
  by (simp add: ceil_div_def)

lemma ceil_div_mono: "a \<le> a' \<Longrightarrow> ceil_div a b \<le> ceil_div a' b"
proof (cases "b = 0")
  case False
  assume "a \<le> a'"
  also have "a' \<le> ceil_div a' b * b" using False by (simp add: ceil_div_upper)
  finally show ?thesis using False by (simp add: ceil_div_le_iff)
qed (simp add: ceil_div_def)

lemma floor_share_le: "0 < c \<Longrightarrow> b \<le> c \<Longrightarrow> a * b div c \<le> (a::nat)"
  by (metis div_le_mono div_mult_self_is_m mult_le_mono2)

lemma div_add_le: "a div c + b div c \<le> (a + b) div (c::nat)"
  by (metis div_add1_eq le_add1)

lemma floor_share_add: "a * x div c + a * y div c \<le> a * (x + y) div (c::nat)"
  using div_add_le[of "a * x" c "a * y"] by (simp add: algebra_simps)

text \<open>Rounding every piece down never gives out more than the whole.\<close>

lemma floor_share_sum: "(\<Sum>x\<leftarrow>xs. a * x div c) \<le> a * sum_list xs div (c::nat)"
proof (induction xs)
  case (Cons x xs)
  then show ?case using floor_share_add[of a x c "sum_list xs"] by simp
qed simp

lemma floor_slices_bound:
  assumes "\<forall>n \<in> set ns. c n = a * p n div t" "sum_list (map p ns) \<le> (t::nat)"
  shows "sum_list (map c ns) \<le> a"
proof -
  have "sum_list (map c ns) = (\<Sum>x\<leftarrow>map p ns. a * x div t)"
    using assms(1) by (simp add: comp_def cong: map_cong)
  also have "\<dots> \<le> a * sum_list (map p ns) div t" by (rule floor_share_sum)
  also have "\<dots> \<le> a * t div t" using assms(2) by (intro div_le_mono mult_le_mono) simp_all
  also have "\<dots> \<le> a" by simp
  finally show ?thesis .
qed

end
