(* ===== verification/Errors.thy ===== *)
theory Errors
  imports Prelude
begin

text \<open>The error values of the program (\<open>program/error.rs\<close>) with their stable numeric codes, the
  variants of \<open>ProgramError\<close> the program returns, and the two ways a run can stop outside of
  them: an external call that fails, and an abort of the Rust code on an invalid block index.\<close>

datatype (plugins only: code size) ydelta_error =
    InvalidMarketParameters
  | InvalidDepositAccounts
  | InvalidWithdrawAccounts
  | InvalidCancel
  | InvalidFreeList
  | AlreadyClaimedSeat
  | PostOnlyWouldCross
  | OrderAlreadyExpired
  | WrongIndexHintParams
  | Overflow
  | IncorrectAccount
  | InvalidMint
  | NoSeatClaimed
  | SeatHasOpenObligations
  | InsufficientWithdrawableBalance
  | RateBelowFloor
  | TermNotCompatible
  | CollateralInsufficient
  | Token2022UnsupportedExtension
  | OrderNotFound
  | OrderNotOwnedBySigner
  | InvalidArgument
  | MatchedLoanNotFound
  | SelfMatchForbidden
  | CollateralBelowMatchLTV
  | VaultWrongMint
  | SubVaultNotFound
  | VaultOrderTermExceedsSubVaultMax
  | VaultCuratorRequired
  | VaultAdminRequired
  | SubVaultOrderExists
  | VaultInsufficientIdleAtoms
  | SubVaultNotEmpty
  | SubVaultIdExists
  | SubVaultLtvOutOfRange
  | SubVaultTermInvalid
  | LoanNotMatured
  | LoanStillSolvent
  | LiquidatorPaymentInsufficient
  | LiquidationCollateralUnderflow
  | MarketAdminRequired
  | InvalidFeeConfig
  | PendingAdminMismatch
  | MarketPaused
  | GlobalPaused
  | ProtocolAdminRequired
  | OracleDegenerate
  | VaultPaused
  | MathDivisionByZero
  | MathOverflow
  | InsufficientEncumberedCollateral
  | SubVaultSunset
  | SubVaultNotSunset
  | FallbackLtvInsufficient

fun error_code :: "ydelta_error \<Rightarrow> nat" where
  "error_code InvalidMarketParameters = 0"
| "error_code InvalidDepositAccounts = 1"
| "error_code InvalidWithdrawAccounts = 2"
| "error_code InvalidCancel = 3"
| "error_code InvalidFreeList = 4"
| "error_code AlreadyClaimedSeat = 5"
| "error_code PostOnlyWouldCross = 6"
| "error_code OrderAlreadyExpired = 7"
| "error_code WrongIndexHintParams = 8"
| "error_code Overflow = 9"
| "error_code IncorrectAccount = 10"
| "error_code InvalidMint = 11"
| "error_code NoSeatClaimed = 12"
| "error_code SeatHasOpenObligations = 13"
| "error_code InsufficientWithdrawableBalance = 14"
| "error_code RateBelowFloor = 15"
| "error_code TermNotCompatible = 16"
| "error_code CollateralInsufficient = 17"
| "error_code Token2022UnsupportedExtension = 18"
| "error_code OrderNotFound = 19"
| "error_code OrderNotOwnedBySigner = 20"
| "error_code InvalidArgument = 21"
| "error_code MatchedLoanNotFound = 22"
| "error_code SelfMatchForbidden = 23"
| "error_code CollateralBelowMatchLTV = 24"
| "error_code VaultWrongMint = 25"
| "error_code SubVaultNotFound = 26"
| "error_code VaultOrderTermExceedsSubVaultMax = 28"
| "error_code VaultCuratorRequired = 29"
| "error_code VaultAdminRequired = 30"
| "error_code SubVaultOrderExists = 32"
| "error_code VaultInsufficientIdleAtoms = 33"
| "error_code SubVaultNotEmpty = 34"
| "error_code SubVaultIdExists = 36"
| "error_code SubVaultLtvOutOfRange = 37"
| "error_code SubVaultTermInvalid = 38"
| "error_code LoanNotMatured = 39"
| "error_code LoanStillSolvent = 40"
| "error_code LiquidatorPaymentInsufficient = 41"
| "error_code LiquidationCollateralUnderflow = 42"
| "error_code MarketAdminRequired = 43"
| "error_code InvalidFeeConfig = 44"
| "error_code PendingAdminMismatch = 45"
| "error_code MarketPaused = 46"
| "error_code GlobalPaused = 47"
| "error_code ProtocolAdminRequired = 48"
| "error_code OracleDegenerate = 49"
| "error_code VaultPaused = 50"
| "error_code MathDivisionByZero = 51"
| "error_code MathOverflow = 52"
| "error_code InsufficientEncumberedCollateral = 53"
| "error_code SubVaultSunset = 54"
| "error_code SubVaultNotSunset = 55"
| "error_code FallbackLtvInsufficient = 56"

text \<open>The errors of the external-protocol adapters (\<open>protocol/mod.rs\<close>); their codes start at 100.\<close>

datatype adapter_error =
    UnexpectedAtomDelta
  | InvalidIntegrationAccount
  | OracleStale
  | OracleSetupUnsupported
  | OracleMaxConfidenceExceeded
  | OracleAccountMismatch
  | OracleNonPositive

fun adapter_error_code :: "adapter_error \<Rightarrow> nat" where
  "adapter_error_code UnexpectedAtomDelta = 100"
| "adapter_error_code InvalidIntegrationAccount = 101"
| "adapter_error_code OracleStale = 102"
| "adapter_error_code OracleSetupUnsupported = 103"
| "adapter_error_code OracleMaxConfidenceExceeded = 104"
| "adapter_error_code OracleAccountMismatch = 105"
| "adapter_error_code OracleNonPositive = 106"

text \<open>\<open>Custom e\<close> stands for \<open>ProgramError::Custom(e as u32)\<close>; \<open>External n\<close> for the error value of a
  call into another program; \<open>Panic\<close> for an abort of the Rust code, such as a block index that
  does not hold a node of the type the code reads there.\<close>

datatype program_error =
    ArithmeticOverflow
  | InvalidAccountData
  | AccountDataTooSmall
  | IllegalOwner
  | InvalidInstructionData
  | IncorrectProgramId
  | NotEnoughAccountKeys
  | MissingRequiredSignature
  | Custom ydelta_error
  | Adapter adapter_error
  | External nat
  | Panic

type_synonym 'a res = "program_error + 'a"

text \<open>The derived \<open>TryFromPrimitive\<close>: reading a numeric code back.\<close>

definition error_of_code :: "nat \<Rightarrow> ydelta_error option" where
  "error_of_code n = map_of
     [(0, InvalidMarketParameters),
      (1, InvalidDepositAccounts),
      (2, InvalidWithdrawAccounts),
      (3, InvalidCancel),
      (4, InvalidFreeList),
      (5, AlreadyClaimedSeat),
      (6, PostOnlyWouldCross),
      (7, OrderAlreadyExpired),
      (8, WrongIndexHintParams),
      (9, Overflow),
      (10, IncorrectAccount),
      (11, InvalidMint),
      (12, NoSeatClaimed),
      (13, SeatHasOpenObligations),
      (14, InsufficientWithdrawableBalance),
      (15, RateBelowFloor),
      (16, TermNotCompatible),
      (17, CollateralInsufficient),
      (18, Token2022UnsupportedExtension),
      (19, OrderNotFound),
      (20, OrderNotOwnedBySigner),
      (21, InvalidArgument),
      (22, MatchedLoanNotFound),
      (23, SelfMatchForbidden),
      (24, CollateralBelowMatchLTV),
      (25, VaultWrongMint),
      (26, SubVaultNotFound),
      (28, VaultOrderTermExceedsSubVaultMax),
      (29, VaultCuratorRequired),
      (30, VaultAdminRequired),
      (32, SubVaultOrderExists),
      (33, VaultInsufficientIdleAtoms),
      (34, SubVaultNotEmpty),
      (36, SubVaultIdExists),
      (37, SubVaultLtvOutOfRange),
      (38, SubVaultTermInvalid),
      (39, LoanNotMatured),
      (40, LoanStillSolvent),
      (41, LiquidatorPaymentInsufficient),
      (42, LiquidationCollateralUnderflow),
      (43, MarketAdminRequired),
      (44, InvalidFeeConfig),
      (45, PendingAdminMismatch),
      (46, MarketPaused),
      (47, GlobalPaused),
      (48, ProtocolAdminRequired),
      (49, OracleDegenerate),
      (50, VaultPaused),
      (51, MathDivisionByZero),
      (52, MathOverflow),
      (53, InsufficientEncumberedCollateral),
      (54, SubVaultSunset),
      (55, SubVaultNotSunset),
      (56, FallbackLtvInsufficient)] n"

lemma error_of_code_code: "error_of_code (error_code e) = Some e"
  by (cases e) (simp_all add: error_of_code_def)

lemma error_code_inj: "inj error_code"
  by (rule injI) (metis error_of_code_code option.inject)

lemma adapter_codes_disjoint: "error_code e \<noteq> adapter_error_code a"
proof -
  have "error_code e < 100" by (cases e) simp_all
  moreover have "100 \<le> adapter_error_code a" by (cases a) simp_all
  ultimately show ?thesis by simp
qed

lemma error_code_u32: "error_code e < u32_lim"
  by (cases e) (simp_all add: u32_lim_def)

end
