(* ===== verification/Fp48.thy ===== *)
theory Fp48
  imports Errors
begin

text \<open>The 48-bit fixed-point arithmetic of \<open>math.rs\<close>. An \<open>Fp48\<close> is the raw 128-bit word, kept as a
  natural number; every operation writes out the width its Rust counterpart checks. The
  256-bit intermediate products of the source never overflow for 128-bit operands, which is
  part of what the lemmas show.\<close>

type_synonym fp48 = nat

definition SCALE_BITS :: nat where "SCALE_BITS = 48"
definition SCALE :: nat where "SCALE = 2 ^ 48"
definition u256_lim :: nat where "u256_lim = 2 ^ 256"

lemma SCALE_pos [simp]: "0 < SCALE"
  by (simp add: SCALE_def)

lemma u128_square: "u128_lim * u128_lim = u256_lim"
  by (simp add: u128_lim_def u256_lim_def)

definition u256_to_u128 :: "nat \<Rightarrow> nat res" where
  "u256_to_u128 x = (if x div 2 ^ 128 mod 2 ^ 64 \<noteq> 0 \<or> x div 2 ^ 192 mod 2 ^ 64 \<noteq> 0
     then Inl (Custom MathOverflow)
     else Inr (x mod 2 ^ 64 + (x div 2 ^ 64 mod 2 ^ 64) * 2 ^ 64))"

definition mul_scale :: "nat \<Rightarrow> nat \<Rightarrow> nat res" where
  "mul_scale a b =
     ebind (ok_or (checked_mul u256_lim a b) (Custom MathOverflow)) (\<lambda>prod.
     let shifted = prod div 2 ^ SCALE_BITS in
     u256_to_u128 shifted)"

definition div_scale :: "nat \<Rightarrow> nat \<Rightarrow> nat res" where
  "div_scale a b =
     (if b = 0 then Inl (Custom MathDivisionByZero)
      else let num = a * 2 ^ SCALE_BITS mod u256_lim; q = num div b in u256_to_u128 q)"

definition to_scaled :: "nat \<Rightarrow> nat res" where
  "to_scaled amount =
     (if amount div 2 ^ (128 - SCALE_BITS) \<noteq> 0 then Inl (Custom MathOverflow)
      else Inr (amount * 2 ^ SCALE_BITS))"

definition from_scaled_floor :: "nat \<Rightarrow> nat" where
  "from_scaled_floor scaled = scaled div 2 ^ SCALE_BITS"

definition from_scaled_ceil :: "nat \<Rightarrow> nat res" where
  "from_scaled_ceil scaled =
     (let truncated = scaled div 2 ^ SCALE_BITS in
      if scaled mod 2 ^ SCALE_BITS \<noteq> 0
      then ok_or (checked_add u128_lim truncated 1) (Custom MathOverflow)
      else Inr truncated)"

definition mul_div :: "nat \<Rightarrow> nat \<Rightarrow> nat \<Rightarrow> bool \<Rightarrow> nat res" where
  "mul_div a b c up =
     (if c = 0 then Inl (Custom MathDivisionByZero)
      else
        ebind (ok_or (checked_mul u256_lim a b) (Custom MathOverflow)) (\<lambda>prod.
        let q = prod div c; r = prod mod c in
        ebind (if up \<and> r \<noteq> 0 then ok_or (checked_add u256_lim q 1) (Custom MathOverflow)
               else Inr q) (\<lambda>result.
        u256_to_u128 result)))"

definition mul_div_u64 :: "nat \<Rightarrow> nat \<Rightarrow> nat \<Rightarrow> bool \<Rightarrow> nat res" where
  "mul_div_u64 a b c up =
     ebind (mul_div a b c up) (\<lambda>result.
     ok_or (narrow u64_lim result) (Custom MathOverflow))"

section \<open>Methods of the newtype\<close>

definition fp48_ZERO :: fp48 where "fp48_ZERO = 0"
definition fp48_ONE :: fp48 where "fp48_ONE = SCALE"

definition fp48_is_zero :: "fp48 \<Rightarrow> bool" where "fp48_is_zero x = (x = 0)"

definition from_atoms :: "nat \<Rightarrow> fp48" where
  "from_atoms atoms = atoms * 2 ^ SCALE_BITS mod u128_lim"

definition to_atoms_floor :: "fp48 \<Rightarrow> nat res" where
  "to_atoms_floor x = ok_or (narrow u64_lim (from_scaled_floor x)) (Custom MathOverflow)"

definition to_atoms_ceil :: "fp48 \<Rightarrow> nat res" where
  "to_atoms_ceil x =
     ebind (from_scaled_ceil x) (\<lambda>y. ok_or (narrow u64_lim y) (Custom MathOverflow))"

definition fp48_checked_mul :: "fp48 \<Rightarrow> fp48 \<Rightarrow> fp48 res" where
  "fp48_checked_mul x y = mul_scale x y"

definition fp48_checked_div :: "fp48 \<Rightarrow> fp48 \<Rightarrow> fp48 res" where
  "fp48_checked_div x y = div_scale x y"

definition fp48_checked_add :: "fp48 \<Rightarrow> fp48 \<Rightarrow> fp48 res" where
  "fp48_checked_add x y = ok_or (checked_add u128_lim x y) (Custom MathOverflow)"

definition fp48_checked_sub :: "fp48 \<Rightarrow> fp48 \<Rightarrow> fp48 res" where
  "fp48_checked_sub x y = ok_or (checked_sub x y) (Custom MathOverflow)"

definition fp48_checked_mul_u64 :: "fp48 \<Rightarrow> nat \<Rightarrow> fp48 res" where
  "fp48_checked_mul_u64 x k = ok_or (checked_mul u128_lim x k) (Custom MathOverflow)"

definition fp48_checked_div_u64 :: "fp48 \<Rightarrow> nat \<Rightarrow> fp48 res" where
  "fp48_checked_div_u64 x k =
     (if k = 0 then Inl (Custom MathDivisionByZero) else Inr (x div k))"

section \<open>Reference values\<close>

lemma limb_test:
  assumes "x < (2::nat) ^ 256"
  shows "x div 2 ^ 128 mod 2 ^ 64 \<noteq> 0 \<or> x div 2 ^ 192 mod 2 ^ 64 \<noteq> 0 \<longleftrightarrow> 2 ^ 128 \<le> x"
proof -
  have hi: "x div 2 ^ 192 = x div 2 ^ 128 div 2 ^ 64"
    by (simp add: div_mult2_eq[symmetric])
  have "x div 2 ^ 128 < 2 ^ 128" using assms by (simp add: div_less_iff_less_mult)
  then have small: "x div 2 ^ 192 < 2 ^ 64" unfolding hi by (simp add: div_less_iff_less_mult)
  have split: "x div 2 ^ 128 = x div 2 ^ 192 * 2 ^ 64 + x div 2 ^ 128 mod 2 ^ 64"
    unfolding hi by (simp only: div_mult_mod_eq)
  have "2 ^ 128 \<le> x \<longleftrightarrow> x div 2 ^ 128 \<noteq> 0" by (simp add: div_eq_0_iff not_less)
  also have "\<dots> \<longleftrightarrow> x div 2 ^ 192 \<noteq> 0 \<or> x div 2 ^ 128 mod 2 ^ 64 \<noteq> 0"
    by (subst split) simp
  finally show ?thesis using small by auto
qed

lemma u256_to_u128_eq:
  assumes "x < u256_lim"
  shows "u256_to_u128 x = (if x < u128_lim then Inr x else Inl (Custom MathOverflow))"
proof (cases "x < 2 ^ 128")
  case True
  then have "x div 2 ^ 64 < 2 ^ 64" by (simp add: div_less_iff_less_mult)
  then have "x mod 2 ^ 64 + (x div 2 ^ 64 mod 2 ^ 64) * 2 ^ 64 = x"
    by (metis add.commute div_mult_mod_eq mod_less)
  moreover have "\<not> (x div 2 ^ 128 mod 2 ^ 64 \<noteq> 0 \<or> x div 2 ^ 192 mod 2 ^ 64 \<noteq> 0)"
    using limb_test[of x] assms True unfolding u256_lim_def by linarith
  ultimately show ?thesis
    using True unfolding u256_to_u128_def u128_lim_def by (simp only: if_True if_False)
next
  case False
  then have "x div 2 ^ 128 mod 2 ^ 64 \<noteq> 0 \<or> x div 2 ^ 192 mod 2 ^ 64 \<noteq> 0"
    using limb_test[of x] assms unfolding u256_lim_def by linarith
  then show ?thesis
    using False unfolding u256_to_u128_def u128_lim_def by (simp only: if_True if_False)
qed

lemma u128_mul_in_u256: "a < u128_lim \<Longrightarrow> b < u128_lim \<Longrightarrow> a * b < u256_lim"
  using mult_strict_mono[of a u128_lim b u128_lim] by (simp add: u128_square)

lemma mul_div_eq:
  assumes "a < u128_lim" "b < u128_lim"
  shows "mul_div a b c up =
    (if c = 0 then Inl (Custom MathDivisionByZero)
     else let q = (if up then ceil_div (a * b) c else a * b div c) in
       if q < u128_lim then Inr q else Inl (Custom MathOverflow))"
proof (cases "c = 0")
  case False
  have p: "a * b < u256_lim" using assms by (rule u128_mul_in_u256)
  have q: "a * b div c < u256_lim" using p by (meson div_le_dividend le_less_trans)
  have sq: "a * b + 1 < u256_lim"
  proof -
    have "a * b \<le> (u128_lim - 1) * (u128_lim - 1)" using assms by (intro mult_le_mono) auto
    then show ?thesis by (simp add: u128_lim_def u256_lim_def)
  qed
  have q1: "a * b div c + 1 < u256_lim"
    using sq by (meson add_le_mono1 div_le_dividend le_less_trans)
  show ?thesis
    using False p q q1
    by (simp add: mul_div_def checked_mul_def checked_add_def ceil_div_def Let_def u256_to_u128_eq)
qed (simp add: mul_div_def)

lemma mul_div_floor_Inr [result_simps]:
  assumes "a < u128_lim" "b < u128_lim"
  shows "mul_div a b c False = Inr q \<longleftrightarrow> 0 < c \<and> q = a * b div c \<and> q < u128_lim"
  using assms by (auto simp: mul_div_eq Let_def)

lemma mul_div_ceil_Inr [result_simps]:
  assumes "a < u128_lim" "b < u128_lim"
  shows "mul_div a b c True = Inr q \<longleftrightarrow> 0 < c \<and> q = ceil_div (a * b) c \<and> q < u128_lim"
  using assms by (auto simp: mul_div_eq Let_def)

lemma mul_div_u64_floor_div:
  assumes "mul_div_u64 a b c False = Inr q"
  shows "q = a * b div c"
proof -
  have lt: "a * b < u256_lim" and q: "u256_to_u128 (a * b div c) = Inr q"
    using assms by (auto simp: mul_div_u64_def mul_div_def result_simps Let_def split: if_splits elim!: ebind_InrE)
  have "a * b div c < u256_lim" using lt by (meson div_le_dividend le_less_trans)
  then show ?thesis using q by (simp add: u256_to_u128_eq split: if_splits)
qed

lemma mul_div_u64_floor_le: "mul_div_u64 a b c False = Inr q \<Longrightarrow> q * c \<le> a * b"
  by (drule mul_div_u64_floor_div) (simp add: div_times_less_eq_dividend)

lemma mul_div_u64_floor_Inr [result_simps]:
  assumes "a < u64_lim" "b < u64_lim"
  shows "mul_div_u64 a b c False = Inr q \<longleftrightarrow> 0 < c \<and> q = a * b div c \<and> q < u64_lim"
  using assms lim_order
  by (auto simp: mul_div_u64_def result_simps u64_in_u128)

lemma mul_scale_eq:
  assumes "a < u128_lim" "b < u128_lim"
  shows "mul_scale a b =
    (if a * b div SCALE < u128_lim then Inr (a * b div SCALE) else Inl (Custom MathOverflow))"
proof -
  have p: "a * b < u256_lim" using assms by (rule u128_mul_in_u256)
  have "a * b div SCALE < u256_lim" using p by (meson div_le_dividend le_less_trans)
  then show ?thesis using p
    by (simp add: mul_scale_def checked_mul_def u256_to_u128_eq SCALE_BITS_def SCALE_def Let_def)
qed

lemma div_scale_eq:
  assumes "a < u128_lim"
  shows "div_scale a b =
    (if b = 0 then Inl (Custom MathDivisionByZero)
     else if a * SCALE div b < u128_lim then Inr (a * SCALE div b)
     else Inl (Custom MathOverflow))"
proof -
  have p: "a * SCALE < u256_lim"
    using assms by (simp add: u128_lim_def u256_lim_def SCALE_def)
  have "a * SCALE div b < u256_lim" using p by (meson div_le_dividend le_less_trans)
  then show ?thesis using p
    by (simp add: div_scale_def u256_to_u128_eq SCALE_BITS_def SCALE_def Let_def)
qed

lemma to_scaled_eq:
  "to_scaled a = (if a * SCALE < u128_lim then Inr (a * SCALE) else Inl (Custom MathOverflow))"
  by (simp add: to_scaled_def SCALE_BITS_def SCALE_def u128_lim_def div_eq_0_iff not_less)

lemma from_scaled_floor_eq: "from_scaled_floor x = x div SCALE"
  by (simp add: from_scaled_floor_def SCALE_BITS_def SCALE_def)

lemma from_scaled_ceil_eq:
  assumes "x < u128_lim"
  shows "from_scaled_ceil x = Inr (ceil_div x SCALE)"
proof -
  have "x div SCALE + 1 < u128_lim"
    using assms by (simp add: SCALE_def u128_lim_def)
  then show ?thesis
    unfolding from_scaled_ceil_def Let_def SCALE_BITS_def SCALE_def[symmetric]
    by (simp add: checked_add_def ceil_div_def)
qed

lemma from_atoms_eq: "a < u64_lim \<Longrightarrow> from_atoms a = a * SCALE"
  by (simp add: from_atoms_def SCALE_BITS_def SCALE_def u64_lim_def u128_lim_def)

end
