(* ===== verification/Free_List.thy ===== *)
theory Free_List
  imports Prelude
begin

text \<open>The block free list of \<open>lib/src/free_list.rs\<close>: a singly linked list threaded through the
  unused blocks of an account, with the head index in the account header. The memory is a
  function from block indices to nodes; the abstraction is the list of free indices, most
  recently freed first. A locale states what an allocator of blocks promises; the linked list
  is an interpretation of it, and so is the plain list of indices by which the account models
  of this development carry their free blocks.\<close>

type_synonym data_index = nat

definition NIL :: data_index where "NIL = 2 ^ 32 - 1"

definition END_INDEX :: data_index where "END_INDEX = 2 ^ 32 - 1"

definition MAX_FREE_LIST_SCAN :: nat where "MAX_FREE_LIST_SCAN = 2 ^ 20"

lemma END_NIL: "END_INDEX = NIL"
  by (simp add: END_INDEX_def NIL_def)

record 'a free_list_node =
  next_index :: data_index
  node_inner :: 'a

record 'a free_list =
  head_index :: data_index
  nodes :: "data_index \<Rightarrow> 'a free_list_node"

definition has_next :: "'a free_list_node \<Rightarrow> bool" where
  "has_next n = (next_index n \<noteq> NIL)"

text \<open>The walk of the double-free guard of debug builds: True when it meets \<open>index\<close>.\<close>

fun double_free_scan :: "nat \<Rightarrow> ('a, 'b) free_list_scheme \<Rightarrow> data_index \<Rightarrow> data_index \<Rightarrow> bool" where
  "double_free_scan 0 fl cursor index = False"
| "double_free_scan (Suc steps) fl cursor index =
     (if cursor = END_INDEX then False
      else if cursor = index then True
      else double_free_scan steps fl (next_index (nodes fl cursor)) index)"

definition free_list_add :: "'a \<Rightarrow> data_index \<Rightarrow> 'a free_list \<Rightarrow> 'a free_list" where
  "free_list_add zeroed index fl =
     fl\<lparr> nodes := (nodes fl)(index := \<lparr>next_index = head_index fl, node_inner = zeroed\<rparr>),
         head_index := index \<rparr>"

text \<open>The debug build: the assertion aborts (None) on a double free.\<close>

definition free_list_add_debug :: "'a \<Rightarrow> data_index \<Rightarrow> 'a free_list \<Rightarrow> 'a free_list option" where
  "free_list_add_debug zeroed index fl =
     (if double_free_scan MAX_FREE_LIST_SCAN fl (head_index fl) index then None
      else Some (free_list_add zeroed index fl))"

definition free_list_remove :: "'a free_list \<Rightarrow> data_index \<times> 'a free_list" where
  "free_list_remove fl =
     (if head_index fl = END_INDEX then (END_INDEX, fl)
      else let free_node_index = head_index fl; head = nodes fl free_node_index in
        (free_node_index,
         fl\<lparr> head_index := next_index head,
             nodes := (nodes fl)(free_node_index := head\<lparr>next_index := 0\<rparr>) \<rparr>))"

section \<open>The chain of free blocks\<close>

fun chain :: "(data_index \<Rightarrow> 'a free_list_node) \<Rightarrow> data_index \<Rightarrow> data_index list \<Rightarrow> bool" where
  "chain m h [] = (h = END_INDEX)"
| "chain m h (x # xs) = (h = x \<and> x \<noteq> END_INDEX \<and> chain m (next_index (m x)) xs)"

definition free_list_inv :: "'a free_list \<Rightarrow> data_index list \<Rightarrow> bool" where
  "free_list_inv fl xs = (chain (nodes fl) (head_index fl) xs \<and> distinct xs)"

lemma chain_unique: "chain m h xs \<Longrightarrow> chain m h ys \<Longrightarrow> xs = ys"
proof (induction xs arbitrary: h ys)
  case Nil then show ?case by (cases ys) auto
next
  case (Cons x xs) then show ?case by (cases ys) auto
qed

lemma chain_cong: "(\<And>x. x \<in> set xs \<Longrightarrow> next_index (m x) = next_index (m' x)) \<Longrightarrow>
    chain m h xs = chain m' h xs"
  by (induction xs arbitrary: h) auto

lemma chain_not_END: "chain m h xs \<Longrightarrow> END_INDEX \<notin> set xs"
  by (induction xs arbitrary: h) auto

lemma chain_upd [simp]: "i \<notin> set xs \<Longrightarrow> chain (m(i := n)) h xs = chain m h xs"
  by (rule chain_cong) auto

lemma chain_no_cycle: "chain m h xs \<Longrightarrow> distinct xs"
proof -
  have tail: "chain m h (as @ x # bs) \<Longrightarrow> chain m x (x # bs)" for h as x bs
    by (induction as arbitrary: h) auto
  show "chain m h xs \<Longrightarrow> distinct xs"
  proof (induction xs arbitrary: h)
    case (Cons x xs)
    have "x \<notin> set xs"
    proof
      assume "x \<in> set xs"
      then obtain as bs where xs: "xs = as @ x # bs" by (meson split_list)
      have "chain m x (x # bs)" using tail[of h "x # as" x bs] Cons.prems xs by simp
      moreover have "chain m x (x # as @ x # bs)" using Cons.prems xs by simp
      ultimately have "x # bs = x # as @ x # bs" by (rule chain_unique)
      then have "length bs = length (as @ x # bs)" by simp
      then show False by simp
    qed
    then show ?case using Cons by auto
  qed simp
qed

lemma free_list_inv_chain: "free_list_inv fl xs \<longleftrightarrow> chain (nodes fl) (head_index fl) xs"
  using chain_no_cycle by (auto simp: free_list_inv_def)

lemma free_list_add_inv:
  "free_list_inv fl xs \<Longrightarrow> i \<notin> set xs \<Longrightarrow> i \<noteq> END_INDEX \<Longrightarrow>
   free_list_inv (free_list_add z i fl) (i # xs)"
  by (simp add: free_list_inv_chain free_list_add_def)

lemma free_list_remove_Nil: "free_list_inv fl [] \<Longrightarrow> free_list_remove fl = (END_INDEX, fl)"
  by (simp add: free_list_inv_def free_list_remove_def)

lemma free_list_remove_Cons:
  "free_list_inv fl (x # xs) \<Longrightarrow>
   fst (free_list_remove fl) = x \<and> free_list_inv (snd (free_list_remove fl)) xs"
  by (auto simp: free_list_inv_def free_list_remove_def Let_def)

lemma double_free_scan_iff:
  "chain (nodes fl) h xs \<Longrightarrow> length xs \<le> n \<Longrightarrow> double_free_scan n fl h i \<longleftrightarrow> i \<in> set xs"
proof (induction n arbitrary: h xs)
  case (Suc n)
  show ?case
  proof (cases xs)
    case (Cons x ys)
    then show ?thesis using Suc.prems Suc.IH[of "next_index (nodes fl x)" ys] by auto
  qed (use Suc.prems in simp)
qed simp

section \<open>The allocator interface\<close>

text \<open>\<open>blocks\<close> reads the free indices off a state that satisfies \<open>ok\<close>; the two operations are a
  stack on them, and \<open>NIL\<close> signals exhaustion.\<close>

locale block_allocator =
  fixes blocks :: "'s \<Rightarrow> data_index list"
    and ok :: "'s \<Rightarrow> bool"
    and add :: "data_index \<Rightarrow> 's \<Rightarrow> 's"
    and remove :: "'s \<Rightarrow> data_index \<times> 's"
  assumes ok_distinct: "ok s \<Longrightarrow> distinct (blocks s)"
    and ok_nil: "ok s \<Longrightarrow> NIL \<notin> set (blocks s)"
    and add_ok: "ok s \<Longrightarrow> i \<notin> set (blocks s) \<Longrightarrow> i \<noteq> NIL \<Longrightarrow> ok (add i s)"
    and add_blocks: "ok s \<Longrightarrow> i \<notin> set (blocks s) \<Longrightarrow> i \<noteq> NIL \<Longrightarrow> blocks (add i s) = i # blocks s"
    and remove_empty: "ok s \<Longrightarrow> blocks s = [] \<Longrightarrow> remove s = (NIL, s)"
    and remove_ok: "ok s \<Longrightarrow> ok (snd (remove s))"
    and remove_blocks: "ok s \<Longrightarrow> blocks s = x # xs \<Longrightarrow> fst (remove s) = x \<and> blocks (snd (remove s)) = xs"
begin

lemma remove_NIL_iff: "ok s \<Longrightarrow> fst (remove s) = NIL \<longleftrightarrow> blocks s = []"
  using remove_empty remove_blocks ok_nil by (cases "blocks s") fastforce+

lemma removed_not_free: "ok s \<Longrightarrow> fst (remove s) \<notin> set (blocks (snd (remove s)))"
proof (cases "blocks s")
  case Nil
  assume "ok s"
  then show ?thesis using Nil remove_empty[of s] by simp
next
  case (Cons x xs)
  assume s: "ok s"
  then have "distinct (x # xs)" using ok_distinct Cons by metis
  then show ?thesis using remove_blocks[OF s Cons] by simp
qed

lemma removed_was_free:
  "ok s \<Longrightarrow> blocks s \<noteq> [] \<Longrightarrow> set (blocks s) = insert (fst (remove s)) (set (blocks (snd (remove s))))"
  using remove_blocks by (cases "blocks s") fastforce+

lemma add_remove: "ok s \<Longrightarrow> i \<notin> set (blocks s) \<Longrightarrow> i \<noteq> NIL \<Longrightarrow>
    fst (remove (add i s)) = i \<and> blocks (snd (remove (add i s))) = blocks s"
  using remove_blocks[OF add_ok add_blocks] by blast

text \<open>Two allocations in a row never hand out the same block.\<close>

lemma two_removes_differ:
  assumes "ok s" "length (blocks s) \<ge> 2"
  shows "fst (remove s) \<noteq> fst (remove (snd (remove s)))"
proof -
  obtain x y ys where b: "blocks s = x # y # ys" using assms(2)
    by (metis One_nat_def Suc_1 Suc_le_length_iff)
  have 1: "fst (remove s) = x" "blocks (snd (remove s)) = y # ys"
    using remove_blocks[OF assms(1) b] by auto
  have 2: "fst (remove (snd (remove s))) = y"
    using remove_blocks[OF remove_ok[OF assms(1)] 1(2)] by auto
  show ?thesis using ok_distinct[OF assms(1)] b 1 2 by auto
qed

end

definition chain_ok :: "'a free_list \<Rightarrow> bool" where
  "chain_ok fl = (\<exists>xs. free_list_inv fl xs)"

definition chain_blocks :: "'a free_list \<Rightarrow> data_index list" where
  "chain_blocks fl = (THE xs. free_list_inv fl xs)"

lemma chain_blocks_eq: "free_list_inv fl xs \<Longrightarrow> chain_blocks fl = xs"
  unfolding chain_blocks_def by (rule the_equality) (auto simp: free_list_inv_chain dest: chain_unique)

interpretation linked: block_allocator chain_blocks chain_ok "free_list_add z" free_list_remove for z
proof
  fix s :: "'a free_list" and i x xs
  show "chain_ok s \<Longrightarrow> distinct (chain_blocks s)"
    by (auto simp: chain_ok_def chain_blocks_eq free_list_inv_def)
  show "chain_ok s \<Longrightarrow> NIL \<notin> set (chain_blocks s)"
    using chain_not_END by (fastforce simp: chain_ok_def chain_blocks_eq free_list_inv_def END_NIL)
  show "chain_ok s \<Longrightarrow> i \<notin> set (chain_blocks s) \<Longrightarrow> i \<noteq> NIL \<Longrightarrow> chain_ok (free_list_add z i s)"
    using free_list_add_inv[of s _ i z] unfolding chain_ok_def END_NIL by (metis chain_blocks_eq)
  show "chain_ok s \<Longrightarrow> i \<notin> set (chain_blocks s) \<Longrightarrow> i \<noteq> NIL \<Longrightarrow>
      chain_blocks (free_list_add z i s) = i # chain_blocks s"
    using free_list_add_inv[of s _ i z] by (auto simp: chain_ok_def chain_blocks_eq END_NIL)
  show "chain_ok s \<Longrightarrow> chain_blocks s = [] \<Longrightarrow> free_list_remove s = (NIL, s)"
    by (auto simp: chain_ok_def chain_blocks_eq free_list_remove_Nil END_NIL)
  show "chain_ok s \<Longrightarrow> chain_ok (snd (free_list_remove s))"
    unfolding chain_ok_def
    by (metis free_list_remove_Nil free_list_remove_Cons list.exhaust snd_conv)
  show "chain_ok s \<Longrightarrow> chain_blocks s = x # xs \<Longrightarrow>
      fst (free_list_remove s) = x \<and> chain_blocks (snd (free_list_remove s)) = xs"
    using chain_blocks_eq free_list_remove_Cons unfolding chain_ok_def by metis
qed

text \<open>The free blocks as a plain stack of indices, the form in which the account models keep them.\<close>

definition stack_add :: "data_index \<Rightarrow> data_index list \<Rightarrow> data_index list" where
  "stack_add i xs = i # xs"

definition stack_remove :: "data_index list \<Rightarrow> data_index \<times> data_index list" where
  "stack_remove xs = (case xs of [] \<Rightarrow> (NIL, []) | x # r \<Rightarrow> (x, r))"

definition stack_ok :: "data_index list \<Rightarrow> bool" where
  "stack_ok xs = (distinct xs \<and> NIL \<notin> set xs)"

interpretation stack: block_allocator "\<lambda>xs. xs" stack_ok stack_add stack_remove
  by unfold_locales (auto simp: stack_ok_def stack_add_def stack_remove_def split: list.splits)

text \<open>The linked list simulates the stack.\<close>

lemma linked_simulates_stack:
  "chain_ok fl \<Longrightarrow> fst (free_list_remove fl) = fst (stack_remove (chain_blocks fl)) \<and>
     chain_blocks (snd (free_list_remove fl)) = snd (stack_remove (chain_blocks fl))"
  using linked.remove_blocks[of fl] linked.remove_empty[of fl]
  by (cases "chain_blocks fl") (auto simp: stack_remove_def)

end
