(* ===== verification/Hypertree.thy ===== *)
theory Hypertree
  imports Free_List "HOL-Library.Multiset"
begin

text \<open>The ordered containers of \<open>lib/src/hypertree.rs\<close>, as every account of the program uses them:
  nodes live in numbered blocks, are ordered by the payload's \<open>Ord\<close>, and are walked from the
  maximum downwards. The contract is a locale over an abstraction to the list of (index, value)
  pairs from the greatest to the least. The descending list itself is the model the accounts
  carry; a payload may be overwritten in place as long as its key stays. That the red-black tree of the program
  behaves like this list over any history is shown in the theories \<open>Rb_Tree\<close> to \<open>Rb_Refines\<close>.\<close>

datatype ordering = Less | Equal | Greater

definition cmp_nat :: "nat \<Rightarrow> nat \<Rightarrow> ordering" where
  "cmp_nat a b = (if a < b then Less else if a = b then Equal else Greater)"

fun then_cmp :: "ordering \<Rightarrow> ordering \<Rightarrow> ordering" where
  "then_cmp Equal o2 = o2"
| "then_cmp o1 o2 = o1"

lemma cmp_nat_simps [simp]:
  "cmp_nat a b = Less \<longleftrightarrow> a < b" "cmp_nat a b = Equal \<longleftrightarrow> a = b" "cmp_nat a b = Greater \<longleftrightarrow> b < a"
  by (auto simp: cmp_nat_def)

lemma then_cmp_iff:
  "then_cmp x y = Less \<longleftrightarrow> x = Less \<or> x = Equal \<and> y = Less"
  "then_cmp x y = Equal \<longleftrightarrow> x = Equal \<and> y = Equal"
  "then_cmp x y = Greater \<longleftrightarrow> x = Greater \<or> x = Equal \<and> y = Greater"
  by (cases x; simp)+

type_synonym 'v tree = "(data_index \<times> 'v) list"

section \<open>Operations on the descending list\<close>

fun tree_insert :: "('v \<Rightarrow> 'v \<Rightarrow> ordering) \<Rightarrow> data_index \<Rightarrow> 'v \<Rightarrow> 'v tree \<Rightarrow> 'v tree" where
  "tree_insert cmp i v [] = [(i, v)]"
| "tree_insert cmp i v ((j, w) # t) =
     (if cmp v w = Greater then (i, v) # (j, w) # t else (j, w) # tree_insert cmp i v t)"

definition tree_remove :: "data_index \<Rightarrow> 'v tree \<Rightarrow> 'v tree" where
  "tree_remove i t = filter (\<lambda>(j, w). j \<noteq> i) t"

definition tree_get :: "'v tree \<Rightarrow> data_index \<Rightarrow> 'v option" where
  "tree_get t i = map_of t i"

fun tree_lookup :: "('v \<Rightarrow> 'v \<Rightarrow> ordering) \<Rightarrow> 'v \<Rightarrow> 'v tree \<Rightarrow> data_index" where
  "tree_lookup cmp v [] = NIL"
| "tree_lookup cmp v ((j, w) # t) = (if cmp w v = Equal then j else tree_lookup cmp v t)"

definition tree_max :: "'v tree \<Rightarrow> data_index" where
  "tree_max t = (case t of [] \<Rightarrow> NIL | (i, v) # _ \<Rightarrow> i)"

fun tree_next_lower :: "'v tree \<Rightarrow> data_index \<Rightarrow> data_index" where
  "tree_next_lower [] i = NIL"
| "tree_next_lower ((j, w) # t) i = (if j = i then tree_max t else tree_next_lower t i)"

definition tree_update :: "data_index \<Rightarrow> ('v \<Rightarrow> 'v) \<Rightarrow> 'v tree \<Rightarrow> 'v tree" where
  "tree_update i f t = map (\<lambda>(j, w). (j, if j = i then f w else w)) t"

definition tree_indices :: "'v tree \<Rightarrow> data_index list" where
  "tree_indices t = map fst t"

definition tree_values :: "'v tree \<Rightarrow> 'v list" where
  "tree_values t = map snd t"

definition descending :: "('v \<Rightarrow> 'v \<Rightarrow> ordering) \<Rightarrow> 'v tree \<Rightarrow> bool" where
  "descending cmp t = sorted_wrt (\<lambda>a b. cmp (snd a) (snd b) \<noteq> Less) t"

definition tree_ok :: "('v \<Rightarrow> 'v \<Rightarrow> ordering) \<Rightarrow> 'v tree \<Rightarrow> bool" where
  "tree_ok cmp t = (distinct (map fst t) \<and> NIL \<notin> fst ` set t \<and> descending cmp t)"

section \<open>Total orders\<close>

definition total_cmp :: "('v \<Rightarrow> 'v \<Rightarrow> ordering) \<Rightarrow> bool" where
  "total_cmp cmp = ((\<forall>a. cmp a a = Equal) \<and>
     (\<forall>a b. cmp a b = Less \<longleftrightarrow> cmp b a = Greater) \<and>
     (\<forall>a b c. cmp a b \<noteq> Less \<longrightarrow> cmp b c \<noteq> Less \<longrightarrow> cmp a c \<noteq> Less))"

lemma total_cmp_refl: "total_cmp cmp \<Longrightarrow> cmp a a = Equal"
  by (simp add: total_cmp_def)

lemma total_cmp_flip: "total_cmp cmp \<Longrightarrow> cmp a b = Less \<longleftrightarrow> cmp b a = Greater"
  by (simp add: total_cmp_def)

lemma total_cmp_trans: "total_cmp cmp \<Longrightarrow> cmp a b \<noteq> Less \<Longrightarrow> cmp b c \<noteq> Less \<Longrightarrow> cmp a c \<noteq> Less"
  unfolding total_cmp_def by blast

section \<open>Laws\<close>

lemma tree_insert_set [simp]: "set (tree_insert cmp i v t) = insert (i, v) (set t)"
  by (induction cmp i v t rule: tree_insert.induct) auto

lemma tree_insert_length [simp]: "length (tree_insert cmp i v t) = Suc (length t)"
  by (induction t) auto

lemma mset_tree_insert [simp]: "mset (tree_insert cmp i v t) = add_mset (i, v) (mset t)"
  by (induction t) auto

lemma tree_insert_indices: "set (tree_indices (tree_insert cmp i v t)) = insert i (set (tree_indices t))"
  by (simp add: tree_indices_def)

lemma tree_insert_distinct:
  "distinct (map fst (tree_insert cmp i v t)) \<longleftrightarrow> distinct (map fst t) \<and> i \<notin> fst ` set t"
  by (induction t) (force split: if_splits)+

lemma tree_insert_descending:
  assumes c: "total_cmp cmp" and "descending cmp t"
  shows "descending cmp (tree_insert cmp i v t)"
  using assms(2) unfolding descending_def
proof (induction t)
  case (Cons jw t)
  obtain j w where jw: "jw = (j, w)" by force
  show ?case
  proof (cases "cmp v w = Greater")
    case True
    have "cmp v (snd b) \<noteq> Less" if "b \<in> set t" for b
      using total_cmp_trans[OF c, of v w "snd b"] True Cons.prems that jw by auto
    then show ?thesis using Cons.prems True jw by auto
  next
    case False
    then have "cmp w v \<noteq> Less" using total_cmp_flip[OF c] by auto
    then show ?thesis using Cons False jw by auto
  qed
qed simp

lemma tree_insert_ok:
  "total_cmp cmp \<Longrightarrow> tree_ok cmp t \<Longrightarrow> i \<notin> set (tree_indices t) \<Longrightarrow> i \<noteq> NIL \<Longrightarrow>
   tree_ok cmp (tree_insert cmp i v t)"
  by (auto simp: tree_ok_def tree_insert_distinct tree_insert_descending tree_indices_def)

lemma tree_remove_set: "set (tree_remove i t) = {p \<in> set t. fst p \<noteq> i}"
  by (auto simp: tree_remove_def)

lemma tree_remove_ok: "tree_ok cmp t \<Longrightarrow> tree_ok cmp (tree_remove i t)"
  by (auto simp: tree_ok_def tree_remove_def descending_def distinct_map sorted_wrt_filter
      intro: inj_on_subset)

lemma tree_remove_indices: "set (tree_indices (tree_remove i t)) = set (tree_indices t) - {i}"
  by (force simp: tree_indices_def tree_remove_def)

lemma tree_remove_absent: "i \<notin> set (tree_indices t) \<Longrightarrow> tree_remove i t = t"
  by (induction t) (auto simp: tree_remove_def tree_indices_def)

lemma tree_remove_insert: "tree_remove i (tree_insert cmp i v t) = tree_remove i t"
  by (induction t) (auto simp: tree_remove_def split: if_splits)

lemma tree_get_None: "tree_get t i = None \<longleftrightarrow> i \<notin> set (tree_indices t)"
  by (simp add: tree_get_def tree_indices_def map_of_eq_None_iff)

lemma tree_get_in: "tree_get t i = Some v \<Longrightarrow> (i, v) \<in> set t"
  by (simp add: tree_get_def map_of_SomeD)

lemma tree_get_iff: "distinct (map fst t) \<Longrightarrow> tree_get t i = Some v \<longleftrightarrow> (i, v) \<in> set t"
  by (simp add: tree_get_def)

lemma tree_get_insert:
  "i \<notin> set (tree_indices t) \<Longrightarrow> tree_get (tree_insert cmp i v t) j = (if j = i then Some v else tree_get t j)"
  by (induction t) (auto simp: tree_get_def tree_indices_def)

lemma tree_get_remove: "tree_get (tree_remove i t) j = (if j = i then None else tree_get t j)"
  by (induction t) (auto simp: tree_get_def tree_remove_def)

lemma tree_get_update: "tree_get (tree_update i f t) j = (if j = i then map_option f (tree_get t j) else tree_get t j)"
  by (induction t) (auto simp: tree_get_def tree_update_def)

lemma tree_update_indices [simp]: "tree_indices (tree_update i f t) = tree_indices t"
  by (induction t) (auto simp: tree_update_def tree_indices_def)

lemma tree_update_fst [simp]: "map fst (tree_update i f t) = map fst t"
  by (induction t) (auto simp: tree_update_def)

lemma tree_update_length [simp]: "length (tree_update i f t) = length t"
  by (simp add: tree_update_def)

lemma tree_update_absent: "i \<notin> set (tree_indices t) \<Longrightarrow> tree_update i f t = t"
  by (induction t) (auto simp: tree_update_def tree_indices_def)

lemma tree_update_ok:
  assumes key: "\<And>w u. cmp (f w) u = cmp w u" "\<And>w u. cmp u (f w) = cmp u w"
    and "tree_ok cmp t"
  shows "tree_ok cmp (tree_update i f t)"
proof -
  have "descending cmp (tree_update i f t)"
    using assms(3) unfolding tree_ok_def descending_def tree_update_def sorted_wrt_map
    by (auto elim!: sorted_wrt_mono_rel[rotated] simp: key split: if_splits)
  moreover have "fst ` set (tree_update i f t) = fst ` set t"
    by (metis list.set_map tree_update_fst)
  ultimately show ?thesis using assms(3) by (simp add: tree_ok_def)
qed

lemma tree_insert_distinct_map:
  "distinct (map g (tree_insert cmp i v t)) \<longleftrightarrow> distinct (map g t) \<and> g (i, v) \<notin> g ` set t"
  by (induction t) (force split: if_splits)+

text \<open>A node in place: the tree splits around it, and updating or removing it acts there.\<close>

lemma tree_split:
  assumes "distinct (map fst t)" "(i, w) \<in> set t"
  shows "\<exists>as bs. t = as @ (i, w) # bs \<and> i \<notin> fst ` set as \<and> i \<notin> fst ` set bs \<and>
    (\<forall>f. tree_update i f t = as @ (i, f w) # bs) \<and> tree_remove i t = as @ bs"
proof -
  obtain as bs where t: "t = as @ (i, w) # bs" using assms(2) by (meson split_list)
  then have n: "i \<notin> fst ` set as" "i \<notin> fst ` set bs" using assms(1) by auto
  then have "tree_update i f as = as" "tree_update i f bs = bs" "tree_remove i as = as" "tree_remove i bs = bs" for f
    by (auto simp: tree_indices_def intro: tree_update_absent tree_remove_absent)
  then have "tree_update i f t = as @ (i, f w) # bs" "tree_remove i t = as @ bs" for f
    using t by (simp_all add: tree_update_def tree_remove_def)
  then show ?thesis using t n by blast
qed

lemma tree_update_member:
  assumes "distinct (map fst t)" "(i, w) \<in> set t"
  shows "set (tree_update i (\<lambda>_. u) t) = insert (i, u) (set t - {(i, w)})"
proof -
  obtain as bs where s: "t = as @ (i, w) # bs" "i \<notin> fst ` set as" "i \<notin> fst ` set bs"
      "tree_update i (\<lambda>_. u) t = as @ (i, u) # bs"
    using tree_split[OF assms] by blast
  then have "(i, w) \<notin> set as" "(i, w) \<notin> set bs" by force+
  then show ?thesis using s by auto
qed

lemma tree_update_const_ok:
  assumes key: "\<And>x. cmp u x = cmp w x" "\<And>x. cmp x u = cmp x w" and t: "tree_ok cmp t" "(i, w) \<in> set t"
  shows "tree_ok cmp (tree_update i (\<lambda>_. u) t)"
proof -
  have "tree_update i (\<lambda>_. u) t = tree_update i (\<lambda>x. if x = w then u else x) t"
    using t eq_key_imp_eq_value[of t i] by (auto simp: tree_update_def tree_ok_def)
  then show ?thesis using tree_update_ok[of cmp "\<lambda>x. if x = w then u else x" t i] key t(1) by simp
qed

lemma tree_update_map:
  "distinct (map fst t) \<Longrightarrow> (i, w) \<in> set t \<Longrightarrow> g (i, u) = g (i, w) \<Longrightarrow>
   map g (tree_update i (\<lambda>_. u) t) = map g t"
  by (auto simp: tree_update_def dest: eq_key_imp_eq_value)

lemma tree_remove_distinct_map: "distinct (map g t) \<Longrightarrow> distinct (map g (tree_remove i t))"
  by (simp add: tree_remove_def distinct_map_filter)

lemma tree_remove_length:
  "distinct (map fst t) \<Longrightarrow> (i, w) \<in> set t \<Longrightarrow> length t = Suc (length (tree_remove i t))"
  using tree_split[of t i w] by force

text \<open>Totals over the values of a tree.\<close>

definition tree_sum :: "('v \<Rightarrow> nat) \<Rightarrow> 'v tree \<Rightarrow> nat" where
  "tree_sum f t = sum_list (map (\<lambda>p. f (snd p)) t)"

lemma tree_sum_Nil [simp]: "tree_sum f [] = 0"
  by (simp add: tree_sum_def)

lemma tree_sum_insert [simp]: "tree_sum f (tree_insert cmp i v t) = f v + tree_sum f t"
  by (induction t) (auto simp: tree_sum_def)

lemma tree_sum_update:
  assumes "distinct (map fst t)" "(i, w) \<in> set t"
  shows "tree_sum f (tree_update i (\<lambda>_. u) t) + f w = tree_sum f t + f u"
proof -
  obtain as bs where "t = as @ (i, w) # bs" "tree_update i (\<lambda>_. u) t = as @ (i, u) # bs" using tree_split[OF assms] by blast
  then show ?thesis by (simp add: tree_sum_def)
qed

lemma tree_sum_remove:
  assumes "distinct (map fst t)" "(i, w) \<in> set t"
  shows "tree_sum f (tree_remove i t) + f w = tree_sum f t"
proof -
  obtain as bs where "t = as @ (i, w) # bs" "tree_remove i t = as @ bs" using tree_split[OF assms] by blast
  then show ?thesis by (simp add: tree_sum_def)
qed

lemma tree_sum_member: "(i, w) \<in> set t \<Longrightarrow> f w \<le> tree_sum f t"
  by (induction t) (auto simp: tree_sum_def)

lemma tree_lookup_hit:
  "tree_lookup cmp v t \<noteq> NIL \<Longrightarrow> \<exists>w. (tree_lookup cmp v t, w) \<in> set t \<and> cmp w v = Equal"
  by (induction t) (auto split: if_splits)

lemma tree_lookup_NIL:
  "NIL \<notin> fst ` set t \<Longrightarrow> tree_lookup cmp v t = NIL \<longleftrightarrow> (\<forall>(j, w) \<in> set t. cmp w v \<noteq> Equal)"
  by (induction t) (auto split: if_splits)

lemma tree_max_NIL: "tree_ok cmp t \<Longrightarrow> tree_max t = NIL \<longleftrightarrow> t = []"
  by (cases t) (auto simp: tree_max_def tree_ok_def)

lemma tree_max_greatest:
  "total_cmp cmp \<Longrightarrow> tree_ok cmp t \<Longrightarrow> tree_get t (tree_max t) = Some v \<Longrightarrow> (j, w) \<in> set t \<Longrightarrow> cmp v w \<noteq> Less"
  by (cases t) (auto simp: tree_ok_def descending_def tree_max_def tree_get_def total_cmp_refl)

lemma tree_next_lower_eq:
  "distinct (map fst t) \<Longrightarrow> t = as @ (i, v) # bs \<Longrightarrow> tree_next_lower t i = tree_max bs"
  by (induction as arbitrary: t) auto

section \<open>The container interface\<close>

text \<open>\<open>repr\<close> lists the nodes of a container from the maximum downwards, \<open>inv\<close> is its invariant.\<close>

locale hypertree =
  fixes cmp :: "'v \<Rightarrow> 'v \<Rightarrow> ordering"
    and repr :: "'s \<Rightarrow> 'v tree"
    and inv :: "'s \<Rightarrow> bool"
    and insert_at :: "data_index \<Rightarrow> 'v \<Rightarrow> 's \<Rightarrow> 's"
    and remove_at :: "data_index \<Rightarrow> 's \<Rightarrow> 's"
    and max_index :: "'s \<Rightarrow> data_index"
    and next_lower :: "'s \<Rightarrow> data_index \<Rightarrow> data_index"
  assumes cmp_total: "total_cmp cmp"
    and inv_ok: "inv s \<Longrightarrow> tree_ok cmp (repr s)"
    and insert_inv: "inv s \<Longrightarrow> i \<notin> set (tree_indices (repr s)) \<Longrightarrow> i \<noteq> NIL \<Longrightarrow> inv (insert_at i v s)"
    and insert_repr: "inv s \<Longrightarrow> i \<notin> set (tree_indices (repr s)) \<Longrightarrow> i \<noteq> NIL \<Longrightarrow>
      repr (insert_at i v s) = tree_insert cmp i v (repr s)"
    and remove_inv: "inv s \<Longrightarrow> i \<in> set (tree_indices (repr s)) \<Longrightarrow> inv (remove_at i s)"
    and remove_repr: "inv s \<Longrightarrow> i \<in> set (tree_indices (repr s)) \<Longrightarrow> repr (remove_at i s) = tree_remove i (repr s)"
    and max_repr: "inv s \<Longrightarrow> max_index s = tree_max (repr s)"
    and next_repr: "inv s \<Longrightarrow> i \<in> set (tree_indices (repr s)) \<Longrightarrow> next_lower s i = tree_next_lower (repr s) i"
begin

text \<open>The maximum is a best element: nothing in the container is greater.\<close>

lemma max_is_best:
  assumes "inv s" "(max_index s, v) \<in> set (repr s)" "(j, w) \<in> set (repr s)"
  shows "cmp w v \<noteq> Greater"
proof -
  have ok: "tree_ok cmp (repr s)" using assms(1) by (rule inv_ok)
  then have "tree_get (repr s) (tree_max (repr s)) = Some v"
    using assms(1,2) max_repr by (simp add: tree_ok_def tree_get_iff)
  then show ?thesis
    using tree_max_greatest[OF cmp_total ok _ assms(3)] total_cmp_flip[OF cmp_total] by blast
qed

lemma insert_then_remove:
  assumes "inv s" "i \<notin> set (tree_indices (repr s))" "i \<noteq> NIL"
  shows "repr (remove_at i (insert_at i v s)) = repr s"
proof -
  have "repr (remove_at i (insert_at i v s)) = tree_remove i (tree_insert cmp i v (repr s))"
    using assms by (simp add: remove_repr insert_repr insert_inv tree_insert_indices)
  also have "\<dots> = tree_remove i (repr s)"
    by (rule tree_remove_insert)
  also have "\<dots> = repr s" using assms(2) by (rule tree_remove_absent)
  finally show ?thesis .
qed

text \<open>Walking down from a node reaches the next one of the descending list.\<close>

lemma walk_down:
  assumes "inv s" "repr s = as @ (i, v) # (j, w) # bs"
  shows "next_lower s i = j" "cmp v w \<noteq> Less"
proof -
  have ok: "tree_ok cmp (repr s)" using assms(1) by (rule inv_ok)
  then show "next_lower s i = j"
    using assms next_repr[of s i] tree_next_lower_eq[of "repr s" as i v "(j, w) # bs"]
    by (simp add: tree_ok_def tree_indices_def tree_max_def)
  show "cmp v w \<noteq> Less"
    using ok assms(2) by (simp add: tree_ok_def descending_def sorted_wrt_append)
qed

end

text \<open>The descending list satisfies the contract for every total order.\<close>

lemma list_hypertree:
  assumes "total_cmp cmp"
  shows "hypertree cmp (\<lambda>t. t) (tree_ok cmp) (tree_insert cmp) tree_remove tree_max tree_next_lower"
  using assms by unfold_locales (simp_all add: tree_insert_ok tree_remove_ok)

lemma total_cmp_nat: "total_cmp (\<lambda>a b. cmp_nat (f a) (f b))"
  by (auto simp: total_cmp_def cmp_nat_def split: if_splits)

lemma total_cmp_then:
  "total_cmp (\<lambda>a b. then_cmp (cmp_nat (f a) (f b)) (cmp_nat (g a) (g b)))"
  by (auto simp: total_cmp_def cmp_nat_def split: if_splits)

lemma total_cmp_then2:
  "total_cmp (\<lambda>a b. then_cmp (cmp_nat (f a) (f b)) (then_cmp (cmp_nat (g a) (g b)) (cmp_nat (h a) (h b))))"
  by (auto simp: total_cmp_def cmp_nat_def split: if_splits)

end
