(* ===== verification/Loan.thy ===== *)
theory Loan
  imports Fp48
begin

text \<open>The fixed-term loan account of \<open>state/loan.rs\<close>: its record, the simple-interest accrual
  with its path-independent fee split, the conservation check and the partial resolution used by
  repay, liquidate and settle. Public keys are natural numbers (the 32 bytes read as a number).\<close>

type_synonym pubkey = nat

definition default_pubkey :: pubkey where "default_pubkey = 0"

definition BPS_PER_UNIT :: nat where "BPS_PER_UNIT = 10000"
definition SECONDS_PER_YEAR :: nat where "SECONDS_PER_YEAR = 365 * 24 * 60 * 60"
definition LOAN_FIXED_DISCRIMINANT :: nat where "LOAN_FIXED_DISCRIMINANT = 0x7964656C74614C4E"
definition ACCOUNT_LAYOUT_VERSION :: nat where "ACCOUNT_LAYOUT_VERSION = 2"
definition OWNER_KIND_USER :: nat where "OWNER_KIND_USER = 0"
definition OWNER_KIND_SUB_VAULT :: nat where "OWNER_KIND_SUB_VAULT = 1"

datatype loan_state = Active | Repaid
datatype loan_type = Fixed | P2Pool

fun loan_state_u8 :: "loan_state \<Rightarrow> nat" where
  "loan_state_u8 Active = 0"
| "loan_state_u8 Repaid = 3"

definition loan_state_from_u8 :: "nat \<Rightarrow> loan_state res" where
  "loan_state_from_u8 v =
     (if v = 0 then Inr Active else if v = 3 then Inr Repaid else Inl InvalidAccountData)"

fun loan_type_u8 :: "loan_type \<Rightarrow> nat" where
  "loan_type_u8 Fixed = 0"
| "loan_type_u8 P2Pool = 1"

definition loan_type_from_u8 :: "nat \<Rightarrow> loan_type res" where
  "loan_type_from_u8 v =
     (if v = 0 then Inr Fixed else if v = 1 then Inr P2Pool else Inl InvalidAccountData)"

record loan_fixed =
  ln_discriminator :: nat
  ln_market :: pubkey
  ln_created_by :: pubkey
  ln_matched_loan_sequence :: nat
  ln_borrower_marginfi_borrow_shares :: nat
  ln_origination_ltv_bps :: nat
  ln_liquidation_ltv_bps :: nat
  ln_principal_debt_atoms :: nat
  ln_outstanding_debt_atoms :: nat
  ln_lender_claimable_atoms :: nat
  ln_collateral_atoms :: nat
  ln_accumulated_protocol_fee_atoms :: nat
  ln_accumulated_curator_fee_atoms :: nat
  ln_started_at_unix :: int
  ln_matures_at_unix :: int
  ln_last_accrued_unix :: int
  ln_lender_seat_index :: nat
  ln_borrower_seat_index :: nat
  ln_borrower_rate_bps :: nat
  ln_lender_rate_bps :: nat
  ln_state :: nat
  ln_loan_type :: nat
  ln_flags :: nat
  ln_version :: nat
  ln_bump :: nat
  ln_lender_kind :: nat
  ln_lender_sub_vault_id :: nat
  ln_curator_fee_bps_snapshot :: nat
  ln_lender_global_vault :: pubkey
  ln_principal_retired_atoms :: nat
  ln_cumulative_lender_gross_interest_atoms :: nat
  ln_lender_debt_share_price_snapshot_fp48 :: fp48
  ln_borrower_collateral_share_price_snapshot_fp48 :: fp48

section \<open>State tests\<close>

definition ln_verify_discriminant :: "loan_fixed \<Rightarrow> unit res" where
  "ln_verify_discriminant loan =
     require (ln_discriminator loan = LOAN_FIXED_DISCRIMINANT) InvalidAccountData"

definition ln_verify_version :: "loan_fixed \<Rightarrow> unit res" where
  "ln_verify_version loan = require (ln_version loan = ACCOUNT_LAYOUT_VERSION) InvalidAccountData"

definition ln_loan_state :: "loan_fixed \<Rightarrow> loan_state res" where
  "ln_loan_state loan = loan_state_from_u8 (ln_state loan)"

definition ln_loan_type_of :: "loan_fixed \<Rightarrow> loan_type res" where
  "ln_loan_type_of loan = loan_type_from_u8 (ln_loan_type loan)"

definition assert_state :: "loan_fixed \<Rightarrow> loan_state \<Rightarrow> unit res" where
  "assert_state loan expected =
     ebind (loan_state_from_u8 (ln_state loan)) (\<lambda>actual.
     require (actual = expected) (Custom InvalidArgument))"

definition is_active :: "loan_fixed \<Rightarrow> bool res" where
  "is_active loan = ebind (ln_loan_state loan) (\<lambda>s. Inr (s = Active))"

definition is_repaid :: "loan_fixed \<Rightarrow> bool res" where
  "is_repaid loan = ebind (ln_loan_state loan) (\<lambda>s. Inr (s = Repaid))"

section \<open>Construction\<close>

text \<open>The arguments of \<open>new_from_matched_loan_with_lender\<close>, in the order of the source.\<close>

definition new_from_matched_loan_with_lender ::
  "pubkey \<Rightarrow> nat \<Rightarrow> nat \<Rightarrow> pubkey \<Rightarrow> nat \<Rightarrow> nat \<Rightarrow> nat \<Rightarrow> nat \<Rightarrow> nat \<Rightarrow> nat \<Rightarrow> nat \<Rightarrow> nat \<Rightarrow> int \<Rightarrow>
   nat \<Rightarrow> loan_type \<Rightarrow> nat \<Rightarrow> nat \<Rightarrow> nat \<Rightarrow> pubkey \<Rightarrow> nat \<Rightarrow> fp48 \<Rightarrow> fp48 \<Rightarrow> loan_fixed" where
  "new_from_matched_loan_with_lender market sequence bump created_by lender_seat_index
     borrower_seat_index principal_atoms net_principal collateral_atoms borrower_rate_bps
     lender_rate_bps term_seconds matched_at_unix flags loan_type borrower_marginfi_borrow_shares
     lender_kind lender_sub_vault_id lender_global_vault curator_fee_bps_snapshot
     lender_debt_share_price_snapshot_fp48 borrower_collateral_share_price_snapshot_fp48 =
     (let started_at_unix = matched_at_unix;
          matures_at_unix = i64_saturating_add started_at_unix (int term_seconds)
      in \<lparr> ln_discriminator = LOAN_FIXED_DISCRIMINANT,
           ln_market = market,
           ln_created_by = created_by,
           ln_matched_loan_sequence = sequence,
           ln_borrower_marginfi_borrow_shares = borrower_marginfi_borrow_shares,
           ln_origination_ltv_bps = 0,
           ln_liquidation_ltv_bps = 0,
           ln_principal_debt_atoms = principal_atoms,
           ln_outstanding_debt_atoms = net_principal,
           ln_lender_claimable_atoms = net_principal,
           ln_collateral_atoms = collateral_atoms,
           ln_accumulated_protocol_fee_atoms = 0,
           ln_accumulated_curator_fee_atoms = 0,
           ln_started_at_unix = started_at_unix,
           ln_matures_at_unix = matures_at_unix,
           ln_last_accrued_unix = started_at_unix,
           ln_lender_seat_index = lender_seat_index,
           ln_borrower_seat_index = borrower_seat_index,
           ln_borrower_rate_bps = borrower_rate_bps,
           ln_lender_rate_bps = lender_rate_bps,
           ln_state = loan_state_u8 Active,
           ln_loan_type = loan_type_u8 loan_type,
           ln_flags = flags,
           ln_version = ACCOUNT_LAYOUT_VERSION,
           ln_bump = bump,
           ln_lender_kind = lender_kind,
           ln_lender_sub_vault_id = lender_sub_vault_id,
           ln_curator_fee_bps_snapshot = curator_fee_bps_snapshot,
           ln_lender_global_vault = lender_global_vault,
           ln_principal_retired_atoms = 0,
           ln_cumulative_lender_gross_interest_atoms = 0,
           ln_lender_debt_share_price_snapshot_fp48 = lender_debt_share_price_snapshot_fp48,
           ln_borrower_collateral_share_price_snapshot_fp48 =
             borrower_collateral_share_price_snapshot_fp48 \<rparr>)"

definition new_from_matched_loan ::
  "pubkey \<Rightarrow> nat \<Rightarrow> nat \<Rightarrow> pubkey \<Rightarrow> nat \<Rightarrow> nat \<Rightarrow> nat \<Rightarrow> nat \<Rightarrow> nat \<Rightarrow> nat \<Rightarrow> nat \<Rightarrow> nat \<Rightarrow> int \<Rightarrow>
   nat \<Rightarrow> loan_type \<Rightarrow> nat \<Rightarrow> fp48 \<Rightarrow> fp48 \<Rightarrow> loan_fixed" where
  "new_from_matched_loan market sequence bump created_by lender_seat_index
     borrower_seat_index principal_atoms net_principal collateral_atoms borrower_rate_bps
     lender_rate_bps term_seconds matched_at_unix flags loan_type borrower_marginfi_borrow_shares
     lender_debt_share_price_snapshot_fp48 borrower_collateral_share_price_snapshot_fp48 =
   new_from_matched_loan_with_lender market sequence bump created_by lender_seat_index
     borrower_seat_index principal_atoms net_principal collateral_atoms borrower_rate_bps
     lender_rate_bps term_seconds matched_at_unix flags loan_type borrower_marginfi_borrow_shares
     0 0 default_pubkey 0
     lender_debt_share_price_snapshot_fp48 borrower_collateral_share_price_snapshot_fp48"

section \<open>Accrual\<close>

definition checked_add_u64 :: "nat \<Rightarrow> nat \<Rightarrow> nat res" where
  "checked_add_u64 a b =
     ebind (ok_or (checked_add u128_lim a b) ArithmeticOverflow) (\<lambda>sum.
     if u64_lim - 1 < sum then Inl ArithmeticOverflow else Inr sum)"

definition cumulative_at :: "nat \<Rightarrow> nat \<Rightarrow> nat \<Rightarrow> nat \<Rightarrow> nat res" where
  "cumulative_at principal_u128 denom rate_bps elapsed =
     ebind (ok_or (checked_mul u128_lim rate_bps elapsed) (Custom MathOverflow)) (\<lambda>rate_times_elapsed.
     mul_div principal_u128 rate_times_elapsed denom False)"

definition cum_curator_fee :: "loan_fixed \<Rightarrow> nat \<Rightarrow> nat res" where
  "cum_curator_fee loan cum_lender_gross =
     (let curator_active = (ln_lender_kind loan = OWNER_KIND_SUB_VAULT \<and>
            0 < ln_curator_fee_bps_snapshot loan)
      in if \<not> curator_active then Inr 0
         else mul_div cum_lender_gross (ln_curator_fee_bps_snapshot loan) BPS_PER_UNIT False)"

definition total_elapsed :: "loan_fixed \<Rightarrow> int \<Rightarrow> nat option" where
  "total_elapsed loan now =
     (case i64_checked_sub now (ln_started_at_unix loan) of
        Some d \<Rightarrow> if 0 < d then Some (nat d) else None
      | None \<Rightarrow> None)"

definition prior_elapsed :: "loan_fixed \<Rightarrow> nat" where
  "prior_elapsed loan =
     (case i64_checked_sub (ln_last_accrued_unix loan) (ln_started_at_unix loan) of
        Some d \<Rightarrow> if 0 \<le> d then nat d else 0
      | None \<Rightarrow> 0)"

definition accrue_tail :: "loan_fixed \<Rightarrow> int \<Rightarrow> nat \<Rightarrow> nat \<Rightarrow> nat \<Rightarrow> nat \<Rightarrow> nat \<Rightarrow> loan_fixed res" where
  "accrue_tail loan now cum_lender_gross_now borrower_interest spread_interest curator_take lender_net =
     ebind (checked_add_u64 (ln_outstanding_debt_atoms loan) borrower_interest) (\<lambda>od.
     ebind (checked_add_u64 (ln_lender_claimable_atoms loan) lender_net) (\<lambda>lc.
     ebind (checked_add_u64 (ln_accumulated_curator_fee_atoms loan) curator_take) (\<lambda>cf.
     ebind (checked_add_u64 (ln_accumulated_protocol_fee_atoms loan) spread_interest) (\<lambda>pf.
     ebind (ok_or (narrow u64_lim cum_lender_gross_now) ArithmeticOverflow) (\<lambda>cg.
     Inr (loan\<lparr> ln_outstanding_debt_atoms := od,
                ln_lender_claimable_atoms := lc,
                ln_accumulated_curator_fee_atoms := cf,
                ln_accumulated_protocol_fee_atoms := pf,
                ln_cumulative_lender_gross_interest_atoms := cg,
                ln_last_accrued_unix := now \<rparr>))))))"

definition accrue_interest :: "loan_fixed \<Rightarrow> int \<Rightarrow> nat \<Rightarrow> loan_fixed res" where
  "accrue_interest loan now elapsed =
     ebind (ok_or (checked_mul u128_lim BPS_PER_UNIT SECONDS_PER_YEAR) ArithmeticOverflow) (\<lambda>denom.
     let prior = prior_elapsed loan; principal_u128 = ln_principal_debt_atoms loan in
     ebind (ok_or (checked_sub (ln_borrower_rate_bps loan) (ln_lender_rate_bps loan)) ArithmeticOverflow) (\<lambda>spread_bps.
     ebind (cumulative_at principal_u128 denom (ln_lender_rate_bps loan) elapsed) (\<lambda>cum_lender_gross_now.
     ebind (cumulative_at principal_u128 denom (ln_lender_rate_bps loan) prior) (\<lambda>cum_lender_gross_prior.
     ebind (cumulative_at principal_u128 denom spread_bps elapsed) (\<lambda>cum_spread_now.
     ebind (cumulative_at principal_u128 denom spread_bps prior) (\<lambda>cum_spread_prior.
     ebind (ok_or (checked_add u128_lim cum_lender_gross_now cum_spread_now) ArithmeticOverflow) (\<lambda>cum_borrower_now.
     ebind (ok_or (checked_add u128_lim cum_lender_gross_prior cum_spread_prior) ArithmeticOverflow) (\<lambda>cum_borrower_prior.
     ebind (ok_or (checked_sub cum_borrower_now cum_borrower_prior) ArithmeticOverflow) (\<lambda>borrower_interest.
     ebind (ok_or (checked_sub cum_spread_now cum_spread_prior) ArithmeticOverflow) (\<lambda>spread_interest.
     ebind (cum_curator_fee loan cum_lender_gross_now) (\<lambda>cum_curator_now.
     ebind (cum_curator_fee loan cum_lender_gross_prior) (\<lambda>cum_curator_prior.
     ebind (ok_or (checked_sub cum_curator_now cum_curator_prior) ArithmeticOverflow) (\<lambda>curator_take.
     ebind (ok_or (checked_sub cum_lender_gross_now cum_curator_now) ArithmeticOverflow) (\<lambda>cum_lender_net_now.
     ebind (ok_or (checked_sub cum_lender_gross_prior cum_curator_prior) ArithmeticOverflow) (\<lambda>cum_lender_net_prior.
     ebind (ok_or (checked_sub cum_lender_net_now cum_lender_net_prior) ArithmeticOverflow) (\<lambda>lender_net.
     accrue_tail loan now cum_lender_gross_now borrower_interest spread_interest curator_take lender_net))))))))))))))))"

definition accrue_loan :: "loan_fixed \<Rightarrow> int \<Rightarrow> loan_fixed res" where
  "accrue_loan loan now =
     (if now = ln_last_accrued_unix loan then Inr loan
      else
        ebind (require (ln_last_accrued_unix loan < now) (Custom InvalidArgument)) (\<lambda>_.
        if ln_outstanding_debt_atoms loan = 0 \<or> ln_state loan = loan_state_u8 Repaid
        then Inr (loan\<lparr>ln_last_accrued_unix := now\<rparr>)
        else if ln_loan_type loan = loan_type_u8 P2Pool
        then Inr (loan\<lparr>ln_last_accrued_unix := now\<rparr>)
        else (case total_elapsed loan now of
            None \<Rightarrow> Inr (loan\<lparr>ln_last_accrued_unix := now\<rparr>)
          | Some elapsed \<Rightarrow> accrue_interest loan now elapsed)))"

section \<open>Settlement of a part of the debt\<close>

definition principal_portion_of_settlement :: "loan_fixed \<Rightarrow> nat \<Rightarrow> nat res" where
  "principal_portion_of_settlement loan settlement_atoms =
     (let outstanding = ln_outstanding_debt_atoms loan in
      if outstanding = 0 then Inr 0
      else
        let principal_remaining =
              saturating_sub (ln_principal_debt_atoms loan) (ln_principal_retired_atoms loan) in
        if outstanding \<le> settlement_atoms then Inr (min principal_remaining (u64_lim - 1))
        else
          ebind (mul_div settlement_atoms principal_remaining outstanding False) (\<lambda>raw.
          Inr (min (min raw principal_remaining) (u64_lim - 1))))"

definition assert_loan_conservation :: "loan_fixed \<Rightarrow> unit res" where
  "assert_loan_conservation loan =
     ebind (ok_or (Option.bind (checked_add u64_lim (ln_lender_claimable_atoms loan)
                                  (ln_accumulated_protocol_fee_atoms loan))
              (\<lambda>x. checked_add u64_lim x (ln_accumulated_curator_fee_atoms loan)))
            ArithmeticOverflow) (\<lambda>claim_side.
     ebind (ok_or (checked_add u64_lim (ln_outstanding_debt_atoms loan) (ln_principal_retired_atoms loan))
            ArithmeticOverflow) (\<lambda>owed_side.
     require (claim_side = owed_side) (Custom InvalidArgument)))"

definition fee_already_retired :: "loan_fixed \<Rightarrow> nat \<Rightarrow> nat res" where
  "fee_already_retired loan fee =
     ebind (ok_or (Option.bind (checked_add u128_lim (ln_lender_claimable_atoms loan)
                                  (ln_accumulated_protocol_fee_atoms loan))
              (\<lambda>x. checked_add u128_lim x (ln_accumulated_curator_fee_atoms loan)))
            ArithmeticOverflow) (\<lambda>total_claim.
     if total_claim = 0 then Inr 0
     else
       ebind (ok_or (checked_mul u128_lim fee (ln_principal_retired_atoms loan)) ArithmeticOverflow) (\<lambda>numer.
       ok_or (narrow u64_lim (numer div total_claim)) ArithmeticOverflow))"

definition protocol_already_retired :: "loan_fixed \<Rightarrow> nat res" where
  "protocol_already_retired loan = fee_already_retired loan (ln_accumulated_protocol_fee_atoms loan)"

definition curator_already_retired :: "loan_fixed \<Rightarrow> nat res" where
  "curator_already_retired loan = fee_already_retired loan (ln_accumulated_curator_fee_atoms loan)"

definition slice_portion_of :: "nat \<Rightarrow> nat \<Rightarrow> nat \<Rightarrow> nat res" where
  "slice_portion_of outstanding repaid field =
     ebind (mul_div field repaid outstanding False) (\<lambda>result. Inr (result mod u64_lim))"

definition resolution_portions :: "loan_fixed \<Rightarrow> nat \<Rightarrow> (nat \<times> nat \<times> nat) res" where
  "resolution_portions loan repaid =
     (let outstanding_before = ln_outstanding_debt_atoms loan in
      ebind (if outstanding_before \<le> repaid then
               ebind (protocol_already_retired loan) (\<lambda>pr.
               ebind (curator_already_retired loan) (\<lambda>cr.
               Inr (saturating_sub (ln_accumulated_protocol_fee_atoms loan) pr,
                    saturating_sub (ln_accumulated_curator_fee_atoms loan) cr)))
             else
               ebind (slice_portion_of outstanding_before repaid (ln_accumulated_protocol_fee_atoms loan)) (\<lambda>p.
               ebind (slice_portion_of outstanding_before repaid (ln_accumulated_curator_fee_atoms loan)) (\<lambda>c.
               Inr (p, c)))) (\<lambda>(protocol_portion, curator_portion).
      ebind (ok_or (Option.bind (checked_sub repaid protocol_portion)
                      (\<lambda>x. checked_sub x curator_portion)) ArithmeticOverflow) (\<lambda>lender_portion.
      Inr (lender_portion, protocol_portion, curator_portion))))"

definition apply_partial_resolution :: "loan_fixed \<Rightarrow> nat \<Rightarrow> (loan_fixed \<times> nat \<times> nat \<times> nat) res" where
  "apply_partial_resolution loan repaid =
     (let outstanding_before = ln_outstanding_debt_atoms loan in
      ebind (require (0 < repaid) (Custom InvalidArgument)) (\<lambda>_.
      ebind (require (repaid \<le> outstanding_before) (Custom InvalidArgument)) (\<lambda>_.
      ebind (assert_loan_conservation loan) (\<lambda>_.
      ebind (resolution_portions loan repaid) (\<lambda>portions.
      ebind (ok_or (checked_sub (ln_outstanding_debt_atoms loan) repaid) ArithmeticOverflow) (\<lambda>od.
      ebind (ok_or (checked_add u64_lim (ln_principal_retired_atoms loan) repaid) ArithmeticOverflow) (\<lambda>pr.
      let loan' = loan\<lparr> ln_outstanding_debt_atoms := od, ln_principal_retired_atoms := pr \<rparr> in
      ebind (assert_loan_conservation loan') (\<lambda>_.
      Inr (loan', portions)))))))))"

section \<open>Well-formed loans\<close>

text \<open>The widths of the fields, and the facts every construction path establishes: the lender's
  rate does not exceed the borrower's, the curator fee is at most the whole interest, and the
  loan has not been accrued before it started.\<close>

definition loan_wf :: "loan_fixed \<Rightarrow> bool" where
  "loan_wf loan =
     (ln_principal_debt_atoms loan < u64_lim \<and> ln_outstanding_debt_atoms loan < u64_lim \<and>
      ln_lender_claimable_atoms loan < u64_lim \<and> ln_collateral_atoms loan < u64_lim \<and>
      ln_accumulated_protocol_fee_atoms loan < u64_lim \<and>
      ln_accumulated_curator_fee_atoms loan < u64_lim \<and>
      ln_principal_retired_atoms loan < u64_lim \<and>
      ln_cumulative_lender_gross_interest_atoms loan < u64_lim \<and>
      ln_borrower_rate_bps loan < u16_lim \<and> ln_lender_rate_bps loan \<le> ln_borrower_rate_bps loan \<and>
      ln_curator_fee_bps_snapshot loan \<le> BPS_PER_UNIT \<and>
      0 \<le> ln_started_at_unix loan \<and> ln_last_accrued_unix loan < i64_lim \<and>
      ln_started_at_unix loan \<le> ln_last_accrued_unix loan)"

definition conserved :: "loan_fixed \<Rightarrow> bool" where
  "conserved loan =
     (ln_lender_claimable_atoms loan + ln_accumulated_protocol_fee_atoms loan +
        ln_accumulated_curator_fee_atoms loan =
      ln_outstanding_debt_atoms loan + ln_principal_retired_atoms loan)"

definition interest_denom :: nat where "interest_denom = BPS_PER_UNIT * SECONDS_PER_YEAR"

definition cum_interest :: "loan_fixed \<Rightarrow> nat \<Rightarrow> nat \<Rightarrow> nat" where
  "cum_interest loan rate elapsed = ln_principal_debt_atoms loan * (rate * elapsed) div interest_denom"

definition spread_bps :: "loan_fixed \<Rightarrow> nat" where
  "spread_bps loan = ln_borrower_rate_bps loan - ln_lender_rate_bps loan"

definition curator_bps :: "loan_fixed \<Rightarrow> nat" where
  "curator_bps loan =
     (if ln_lender_kind loan = OWNER_KIND_SUB_VAULT then ln_curator_fee_bps_snapshot loan else 0)"

definition cum_curator :: "loan_fixed \<Rightarrow> nat \<Rightarrow> nat" where
  "cum_curator loan elapsed =
     cum_interest loan (ln_lender_rate_bps loan) elapsed * curator_bps loan div BPS_PER_UNIT"

lemma assert_loan_conservation_ok:
  "assert_loan_conservation loan = Inr () \<longleftrightarrow>
     conserved loan \<and> ln_outstanding_debt_atoms loan + ln_principal_retired_atoms loan < u64_lim"
  by (auto simp: assert_loan_conservation_def conserved_def result_simps bind_eq_Some_conv)

lemma interest_denom_value: "interest_denom = 315360000000"
  by (simp add: interest_denom_def BPS_PER_UNIT_def SECONDS_PER_YEAR_def)

lemma interest_denom_pos [simp]: "0 < interest_denom"
  by (simp add: interest_denom_value)

lemma cum_interest_mono: "e \<le> e' \<Longrightarrow> cum_interest loan r e \<le> cum_interest loan r e'"
  unfolding cum_interest_def by (intro div_le_mono mult_le_mono) auto

lemma capped_share_step:
  assumes "a \<le> b" "f \<le> d" "0 < (d::nat)"
  shows "b * f div d \<le> a * f div d + (b - a)"
proof -
  have "b * f = a * f + (b - a) * f" using assms(1) by (metis add_mult_distrib le_add_diff_inverse)
  also have "\<dots> \<le> a * f + (b - a) * d" using assms(2) by simp
  finally have "b * f div d \<le> (a * f + (b - a) * d) div d" by (rule div_le_mono)
  then show ?thesis using assms(3) by simp
qed

lemma cumulative_at_eq:
  assumes "ln_principal_debt_atoms loan < u64_lim" "r < u16_lim" "e < u64_lim"
  shows "cumulative_at (ln_principal_debt_atoms loan) interest_denom r e = Inr (cum_interest loan r e)"
proof -
  have "r * e < u16_lim * u64_lim" using assms by (simp add: mult_strict_mono)
  then have re: "r * e < 2 ^ 80" by (simp add: lim_defs)
  then have re2: "r * e < u128_lim" by (simp add: lim_defs)
  have "ln_principal_debt_atoms loan * (r * e) \<le> 2 ^ 64 * 2 ^ 80"
    using assms(1) re by (intro mult_le_mono) (auto simp: lim_defs)
  then have "cum_interest loan r e \<le> 2 ^ 64 * 2 ^ 80 div interest_denom"
    unfolding cum_interest_def by (rule div_le_mono)
  then have "cum_interest loan r e < u128_lim" by (simp add: lim_defs interest_denom_value)
  then show ?thesis using assms re2
    by (simp add: cumulative_at_def checked_mul_def mul_div_eq u64_in_u128 cum_interest_def)
qed

lemma cum_interest_bound:
  assumes "ln_principal_debt_atoms loan < u64_lim" "r < u16_lim" "e < u64_lim"
  shows "cum_interest loan r e < 2 ^ 110"
proof -
  have "r * e \<le> 2 ^ 16 * 2 ^ 64" using assms by (intro mult_le_mono) (auto simp: lim_defs)
  then have "ln_principal_debt_atoms loan * (r * e) \<le> 2 ^ 64 * (2 ^ 16 * 2 ^ 64)"
    using assms by (intro mult_le_mono) (auto simp: lim_defs)
  then have "cum_interest loan r e \<le> 2 ^ 64 * (2 ^ 16 * 2 ^ 64) div interest_denom"
    unfolding cum_interest_def by (rule div_le_mono)
  then show ?thesis by (simp add: interest_denom_value)
qed

lemma cum_curator_fee_eq:
  assumes "g < 2 ^ 110" "ln_curator_fee_bps_snapshot loan \<le> BPS_PER_UNIT"
  shows "cum_curator_fee loan g = Inr (g * curator_bps loan div BPS_PER_UNIT)"
proof -
  have 1: "g < u128_lim" "ln_curator_fee_bps_snapshot loan < u128_lim"
    using assms by (auto simp: lim_defs BPS_PER_UNIT_def)
  have "g * ln_curator_fee_bps_snapshot loan div BPS_PER_UNIT \<le> g"
    using assms(2) by (intro floor_share_le) (auto simp: BPS_PER_UNIT_def)
  then have 2: "g * ln_curator_fee_bps_snapshot loan div BPS_PER_UNIT < u128_lim"
    using 1 by linarith
  show ?thesis
    using 1 2 by (auto simp: cum_curator_fee_def curator_bps_def mul_div_eq BPS_PER_UNIT_def Let_def)
qed

lemma curator_bps_le: "loan_wf loan \<Longrightarrow> curator_bps loan \<le> BPS_PER_UNIT"
  by (simp add: loan_wf_def curator_bps_def)

section \<open>What one accrual adds\<close>

definition accrued :: "loan_fixed \<Rightarrow> nat \<Rightarrow> nat \<Rightarrow> int \<Rightarrow> loan_fixed" where
  "accrued loan e0 e now =
     (let lr = ln_lender_rate_bps loan; gross = cum_interest loan lr e - cum_interest loan lr e0;
          spread = cum_interest loan (spread_bps loan) e - cum_interest loan (spread_bps loan) e0;
          curator = cum_curator loan e - cum_curator loan e0
      in loan\<lparr> ln_outstanding_debt_atoms := ln_outstanding_debt_atoms loan + (gross + spread),
               ln_lender_claimable_atoms := ln_lender_claimable_atoms loan + (gross - curator),
               ln_accumulated_curator_fee_atoms := ln_accumulated_curator_fee_atoms loan + curator,
               ln_accumulated_protocol_fee_atoms := ln_accumulated_protocol_fee_atoms loan + spread,
               ln_cumulative_lender_gross_interest_atoms := cum_interest loan lr e,
               ln_last_accrued_unix := now \<rparr>)"

lemma checked_add_u64_Inr [result_simps]:
  "checked_add_u64 a b = Inr c \<longleftrightarrow> c = a + b \<and> a + b < u64_lim"
  using lim_order by (auto simp: checked_add_u64_def result_simps)

lemma accrue_tail_Inr:
  "accrue_tail loan now g b s c n = Inr loan' \<longleftrightarrow>
     ln_outstanding_debt_atoms loan + b < u64_lim \<and> ln_lender_claimable_atoms loan + n < u64_lim \<and>
     ln_accumulated_curator_fee_atoms loan + c < u64_lim \<and>
     ln_accumulated_protocol_fee_atoms loan + s < u64_lim \<and> g < u64_lim \<and>
     loan' = loan\<lparr> ln_outstanding_debt_atoms := ln_outstanding_debt_atoms loan + b,
               ln_lender_claimable_atoms := ln_lender_claimable_atoms loan + n,
               ln_accumulated_curator_fee_atoms := ln_accumulated_curator_fee_atoms loan + c,
               ln_accumulated_protocol_fee_atoms := ln_accumulated_protocol_fee_atoms loan + s,
               ln_cumulative_lender_gross_interest_atoms := g,
               ln_last_accrued_unix := now \<rparr>"
  by (auto simp: accrue_tail_def result_simps)

definition no_overflow :: "loan_fixed \<Rightarrow> bool" where
  "no_overflow loan =
     (ln_outstanding_debt_atoms loan < u64_lim \<and> ln_lender_claimable_atoms loan < u64_lim \<and>
      ln_accumulated_curator_fee_atoms loan < u64_lim \<and>
      ln_accumulated_protocol_fee_atoms loan < u64_lim \<and>
      ln_cumulative_lender_gross_interest_atoms loan < u64_lim)"

lemma cum_curator_mono: "e \<le> e' \<Longrightarrow> cum_curator loan e \<le> cum_curator loan e'"
  unfolding cum_curator_def by (intro div_le_mono mult_le_mono cum_interest_mono) auto

lemma cum_curator_le:
  "loan_wf loan \<Longrightarrow> cum_curator loan e \<le> cum_interest loan (ln_lender_rate_bps loan) e"
  unfolding cum_curator_def
  by (rule floor_share_le) (auto simp: BPS_PER_UNIT_def dest: curator_bps_le)

lemma cum_curator_step:
  assumes "loan_wf loan" "e \<le> e'"
  shows "cum_curator loan e' - cum_curator loan e \<le>
    cum_interest loan (ln_lender_rate_bps loan) e' - cum_interest loan (ln_lender_rate_bps loan) e"
proof -
  have "cum_curator loan e' \<le> cum_curator loan e +
      (cum_interest loan (ln_lender_rate_bps loan) e' - cum_interest loan (ln_lender_rate_bps loan) e)"
    unfolding cum_curator_def
    using curator_bps_le[OF assms(1)] cum_interest_mono[OF assms(2)]
    by (intro capped_share_step) (auto simp: BPS_PER_UNIT_def)
  then show ?thesis by linarith
qed

lemma prior_elapsed_eq:
  "loan_wf loan \<Longrightarrow> prior_elapsed loan = nat (ln_last_accrued_unix loan - ln_started_at_unix loan)"
  by (simp add: prior_elapsed_def i64_checked_sub_def loan_wf_def i64_lim_def)

lemma total_elapsed_eq:
  assumes "ln_started_at_unix loan < now" "now - ln_started_at_unix loan < i64_lim"
  shows "total_elapsed loan now = Some (nat (now - ln_started_at_unix loan))"
proof -
  have "- i64_lim \<le> now - ln_started_at_unix loan" using assms by (simp add: i64_lim_def)
  then show ?thesis using assms by (simp add: total_elapsed_def i64_checked_sub_def)
qed

lemma accrue_interest_eq:
  assumes wf: "loan_wf loan" and e: "prior_elapsed loan \<le> e" "e < u64_lim"
  defines "lr \<equiv> ln_lender_rate_bps loan" and "e0 \<equiv> prior_elapsed loan"
  shows "accrue_interest loan now e =
    accrue_tail loan now (cum_interest loan lr e)
      ((cum_interest loan lr e - cum_interest loan lr e0) +
       (cum_interest loan (spread_bps loan) e - cum_interest loan (spread_bps loan) e0))
      (cum_interest loan (spread_bps loan) e - cum_interest loan (spread_bps loan) e0)
      (cum_curator loan e - cum_curator loan e0)
      ((cum_interest loan lr e - cum_interest loan lr e0) - (cum_curator loan e - cum_curator loan e0))"
proof -
  have p: "ln_principal_debt_atoms loan < u64_lim" using wf by (simp add: loan_wf_def)
  have r: "lr < u16_lim" "spread_bps loan < u16_lim" "lr \<le> ln_borrower_rate_bps loan"
    using wf by (auto simp: loan_wf_def lr_def spread_bps_def)
  have e0: "e0 \<le> e" "e0 < u64_lim" using e by (auto simp: e0_def)
  have b: "cum_interest loan x y < 2 ^ 110" if "x = lr \<or> x = spread_bps loan" "y = e \<or> y = e0" for x y
    using cum_interest_bound[OF p] r e e0 that by blast
  have m: "cum_interest loan x e0 \<le> cum_interest loan x e" for x using e0 by (intro cum_interest_mono) auto
  have cm: "cum_curator loan e0 \<le> cum_curator loan e" using e0 by (intro cum_curator_mono) auto
  have cl: "cum_curator loan y \<le> cum_interest loan lr y" for y
    using cum_curator_le[OF wf] by (simp add: lr_def)
  have cs: "cum_curator loan e - cum_curator loan e0 \<le> cum_interest loan lr e - cum_interest loan lr e0"
    using cum_curator_step[OF wf e0(1)] by (simp add: lr_def)
  have denom: "checked_mul u128_lim BPS_PER_UNIT SECONDS_PER_YEAR = Some interest_denom"
    by (simp add: checked_mul_def interest_denom_def BPS_PER_UNIT_def SECONDS_PER_YEAR_def u128_lim_def)
  have cur: "cum_curator_fee loan (cum_interest loan lr y) = Inr (cum_curator loan y)" if "y = e \<or> y = e0" for y
    using cum_curator_fee_eq[of "cum_interest loan lr y" loan] b[of lr y] that wf
    by (simp add: cum_curator_def lr_def loan_wf_def)
  have add: "checked_add u128_lim (cum_interest loan lr y) (cum_interest loan (spread_bps loan) y) =
      Some (cum_interest loan lr y + cum_interest loan (spread_bps loan) y)" if "y = e \<or> y = e0" for y
    using b[of lr y] b[of "spread_bps loan" y] that by (auto simp: checked_add_def u128_lim_def)
  have sb: "ln_borrower_rate_bps loan - lr = spread_bps loan" by (simp add: spread_bps_def lr_def)
  have sum: "cum_interest loan lr e + cum_interest loan (spread_bps loan) e -
      (cum_interest loan lr e0 + cum_interest loan (spread_bps loan) e0) =
      (cum_interest loan lr e - cum_interest loan lr e0) +
      (cum_interest loan (spread_bps loan) e - cum_interest loan (spread_bps loan) e0)"
    using m[of lr] m[of "spread_bps loan"] by linarith
  have net: "cum_interest loan lr e - cum_curator loan e - (cum_interest loan lr e0 - cum_curator loan e0) =
      (cum_interest loan lr e - cum_interest loan lr e0) - (cum_curator loan e - cum_curator loan e0)"
    "cum_interest loan lr e0 - cum_curator loan e0 \<le> cum_interest loan lr e - cum_curator loan e"
    using m[of lr] cm cl[of e] cl[of e0] cs by linarith+
  have le: "cum_interest loan lr e0 + cum_interest loan (spread_bps loan) e0 \<le>
      cum_interest loan lr e + cum_interest loan (spread_bps loan) e"
    using m[of lr] m[of "spread_bps loan"] by linarith
  have at: "cumulative_at (ln_principal_debt_atoms loan) interest_denom lr y = Inr (cum_interest loan lr y)"
    "cumulative_at (ln_principal_debt_atoms loan) interest_denom (spread_bps loan) y =
     Inr (cum_interest loan (spread_bps loan) y)" if "y = e \<or> y = e0" for y
    using cumulative_at_eq[OF p] r e e0 that by auto
  have subs: "checked_sub (ln_borrower_rate_bps loan) lr = Some (spread_bps loan)"
    "checked_sub (cum_interest loan lr e + cum_interest loan (spread_bps loan) e)
      (cum_interest loan lr e0 + cum_interest loan (spread_bps loan) e0) =
     Some ((cum_interest loan lr e - cum_interest loan lr e0) +
      (cum_interest loan (spread_bps loan) e - cum_interest loan (spread_bps loan) e0))"
    "checked_sub (cum_interest loan (spread_bps loan) e) (cum_interest loan (spread_bps loan) e0) =
     Some (cum_interest loan (spread_bps loan) e - cum_interest loan (spread_bps loan) e0)"
    "checked_sub (cum_curator loan e) (cum_curator loan e0) = Some (cum_curator loan e - cum_curator loan e0)"
    "checked_sub (cum_interest loan lr e) (cum_curator loan e) =
     Some (cum_interest loan lr e - cum_curator loan e)"
    "checked_sub (cum_interest loan lr e0) (cum_curator loan e0) =
     Some (cum_interest loan lr e0 - cum_curator loan e0)"
    "checked_sub (cum_interest loan lr e - cum_curator loan e) (cum_interest loan lr e0 - cum_curator loan e0) =
     Some ((cum_interest loan lr e - cum_interest loan lr e0) - (cum_curator loan e - cum_curator loan e0))"
    unfolding result_simps using r(3) sb sum net le m cm cl by auto
  show ?thesis
    unfolding accrue_interest_def Let_def
    by (simp only: denom at[of e] at[of e0] add[of e] add[of e0] cur[of e] cur[of e0] subs
        lr_def[symmetric] e0_def[symmetric] ok_or_simps ebind.simps simp_thms)
qed

lemma accrue_interest_Inr:
  assumes wf: "loan_wf loan" and e: "prior_elapsed loan \<le> e" "e < u64_lim"
  shows "accrue_interest loan now e = Inr loan' \<longleftrightarrow>
    no_overflow loan' \<and> loan' = accrued loan (prior_elapsed loan) e now"
  unfolding accrue_interest_eq[OF assms] accrue_tail_Inr
  by (auto simp: accrued_def no_overflow_def Let_def)

section \<open>The ledger of a loan\<close>

text \<open>While debt is outstanding, every bucket is a function of the time of the last accrual.\<close>

definition ledger :: "nat \<Rightarrow> loan_fixed \<Rightarrow> bool" where
  "ledger net loan =
     (let e = prior_elapsed loan; lr = ln_lender_rate_bps loan in
      ln_lender_claimable_atoms loan + cum_curator loan e = net + cum_interest loan lr e \<and>
      ln_accumulated_protocol_fee_atoms loan = cum_interest loan (spread_bps loan) e \<and>
      ln_accumulated_curator_fee_atoms loan = cum_curator loan e \<and>
      ln_outstanding_debt_atoms loan + ln_principal_retired_atoms loan =
        net + cum_interest loan lr e + cum_interest loan (spread_bps loan) e)"

lemma ledger_conserved: "ledger net loan \<Longrightarrow> conserved loan"
  by (simp add: ledger_def conserved_def Let_def)

lemma accrued_simps:
  "cum_interest (accrued loan e0 e now) = cum_interest loan"
  "cum_curator (accrued loan e0 e now) = cum_curator loan"
  "spread_bps (accrued loan e0 e now) = spread_bps loan"
  "ln_started_at_unix (accrued loan e0 e now) = ln_started_at_unix loan"
  "ln_last_accrued_unix (accrued loan e0 e now) = now"
  "ln_lender_rate_bps (accrued loan e0 e now) = ln_lender_rate_bps loan"
  "ln_state (accrued loan e0 e now) = ln_state loan"
  "ln_loan_type (accrued loan e0 e now) = ln_loan_type loan"
  by (auto simp: accrued_def cum_interest_def cum_curator_def spread_bps_def curator_bps_def Let_def fun_eq_iff)

text \<open>The shape of every successful accrual.\<close>

lemma accrue_loan_cases:
  assumes wf: "loan_wf loan" and now: "now < i64_lim" and ok: "accrue_loan loan now = Inr loan'"
  obtains (idle) "loan' = loan\<lparr>ln_last_accrued_unix := now\<rparr>" "ln_last_accrued_unix loan \<le> now"
      "ln_last_accrued_unix loan < now \<Longrightarrow>
        ln_outstanding_debt_atoms loan = 0 \<or> ln_state loan = 3 \<or> ln_loan_type loan = 1"
  | (interest) "ln_last_accrued_unix loan < now" "ln_outstanding_debt_atoms loan > 0"
      "ln_state loan \<noteq> 3" "ln_loan_type loan \<noteq> 1"
      "loan' = accrued loan (prior_elapsed loan) (nat (now - ln_started_at_unix loan)) now"
      "no_overflow loan'" "prior_elapsed loan \<le> nat (now - ln_started_at_unix loan)"
proof (cases "now = ln_last_accrued_unix loan")
  case True
  then show ?thesis using ok idle by (simp add: accrue_loan_def)
next
  case False
  then have lt: "ln_last_accrued_unix loan < now"
    using ok by (auto simp: accrue_loan_def result_simps)
  show ?thesis
  proof (cases "ln_outstanding_debt_atoms loan = 0 \<or> ln_state loan = 3 \<or> ln_loan_type loan = 1")
    case True
    then have "loan' = loan\<lparr>ln_last_accrued_unix := now\<rparr>"
      using ok lt False by (auto simp: accrue_loan_def split: if_splits)
    then show ?thesis using idle lt True by simp
  next
    case active: False
    let ?e = "nat (now - ln_started_at_unix loan)"
    have st: "ln_started_at_unix loan < now" "now - ln_started_at_unix loan < i64_lim"
      using wf lt now by (auto simp: loan_wf_def)
    have e: "prior_elapsed loan \<le> ?e" "?e < u64_lim"
      using prior_elapsed_eq[OF wf] lt st by (auto simp: lim_defs)
    have "accrue_interest loan now ?e = Inr loan'"
      using ok False lt active total_elapsed_eq[OF st] by (simp add: accrue_loan_def)
    then show ?thesis using interest lt active accrue_interest_Inr[OF wf e] e(1) by auto
  qed
qed

lemma accrue_loan_wf:
  assumes "loan_wf loan" "now < i64_lim" "accrue_loan loan now = Inr loan'"
  shows "loan_wf loan'"
  using assms
proof (cases rule: accrue_loan_cases)
  case idle
  then show ?thesis using assms(1,2) by (auto simp: loan_wf_def)
next
  case interest
  then show ?thesis using assms(1,2) by (auto simp: loan_wf_def no_overflow_def accrued_def Let_def)
qed

lemma accrue_loan_conserved:
  assumes "loan_wf loan" "now < i64_lim" "accrue_loan loan now = Inr loan'" "conserved loan"
  shows "conserved loan'"
  using assms(1-3)
proof (cases rule: accrue_loan_cases)
  case idle
  then show ?thesis using assms(4) by (simp add: conserved_def)
next
  case interest
  obtain k g where k: "cum_curator loan (nat (now - ln_started_at_unix loan)) =
      cum_curator loan (prior_elapsed loan) + k"
    and g: "cum_interest loan (ln_lender_rate_bps loan) (nat (now - ln_started_at_unix loan)) =
      cum_interest loan (ln_lender_rate_bps loan) (prior_elapsed loan) + g"
    using cum_curator_mono[OF interest(7)] cum_interest_mono[OF interest(7)] le_Suc_ex by metis
  have "k \<le> g" using cum_curator_step[OF assms(1) interest(7)] k g by simp
  then show ?thesis using assms(4)
    unfolding interest(5) by (simp add: conserved_def accrued_def Let_def k g)
qed

lemma accrue_loan_ledger:
  assumes wf: "loan_wf loan" and now: "now < i64_lim" and ok: "accrue_loan loan now = Inr loan'"
    and inv: "ln_outstanding_debt_atoms loan > 0 \<Longrightarrow> ledger net loan"
    and kind: "ln_loan_type loan = 0" "ln_state loan = 3 \<Longrightarrow> ln_outstanding_debt_atoms loan = 0"
    and out: "ln_outstanding_debt_atoms loan' > 0"
  shows "ledger net loan'"
  using wf now ok
proof (cases rule: accrue_loan_cases)
  case idle
  then have "ln_outstanding_debt_atoms loan > 0" using out by simp
  then have "loan' = loan" "ledger net loan" using idle inv kind by force+
  then show ?thesis by simp
next
  case interest
  let ?e = "nat (now - ln_started_at_unix loan)"
  have l: "ledger net loan" using inv interest(2) .
  have pe: "prior_elapsed loan' = ?e"
    using prior_elapsed_eq[OF accrue_loan_wf[OF wf now ok]] by (simp add: interest(5) accrued_simps)
  have m: "cum_interest loan r (prior_elapsed loan) \<le> cum_interest loan r ?e" for r
    using interest(7) by (rule cum_interest_mono)
  have c: "cum_curator loan (prior_elapsed loan) \<le> cum_curator loan ?e"
    using interest(7) by (rule cum_curator_mono)
  obtain k g h where k: "cum_curator loan ?e = cum_curator loan (prior_elapsed loan) + k"
    and g: "cum_interest loan (ln_lender_rate_bps loan) ?e =
      cum_interest loan (ln_lender_rate_bps loan) (prior_elapsed loan) + g"
    and h: "cum_interest loan (spread_bps loan) ?e =
      cum_interest loan (spread_bps loan) (prior_elapsed loan) + h"
    using c m le_Suc_ex by metis
  have "k \<le> g" using cum_curator_step[OF wf interest(7)] k g by simp
  then show ?thesis
    using l unfolding ledger_def pe Let_def unfolding interest(5) accrued_simps
    by (simp add: accrued_def Let_def k g h)
qed

section \<open>Partial resolution\<close>

lemma apply_partial_resolution_Inr:
  "apply_partial_resolution loan repaid = Inr (loan', l, p, c) \<longleftrightarrow>
     0 < repaid \<and> repaid \<le> ln_outstanding_debt_atoms loan \<and> conserved loan \<and>
     ln_outstanding_debt_atoms loan + ln_principal_retired_atoms loan < u64_lim \<and>
     resolution_portions loan repaid = Inr (l, p, c) \<and>
     loan' = loan\<lparr> ln_outstanding_debt_atoms := ln_outstanding_debt_atoms loan - repaid,
                    ln_principal_retired_atoms := ln_principal_retired_atoms loan + repaid \<rparr>"
  by (auto simp: apply_partial_resolution_def result_simps assert_loan_conservation_ok Let_def conserved_def)

lemma resolution_portions_sum:
  "resolution_portions loan repaid = Inr (l, p, c) \<Longrightarrow> l + p + c = repaid"
  by (auto simp: resolution_portions_def Let_def result_simps bind_eq_Some_conv split: prod.splits)

lemma partial_slice_eq:
  assumes "f < u64_lim" "r < o'" "o' < u64_lim"
  shows "slice_portion_of o' r f = Inr (f * r div o')"
proof -
  have "f * r div o' \<le> f" using assms by (intro floor_share_le) auto
  then have "f * r div o' < u64_lim" using assms(1) by linarith
  then show ?thesis using assms lim_order
    by (simp add: slice_portion_of_def mul_div_eq u64_in_u128)
qed

lemma principal_portion_total:
  assumes "loan_wf loan" "settlement < u64_lim"
  shows "\<exists>p. principal_portion_of_settlement loan settlement = Inr p \<and>
    p \<le> ln_principal_debt_atoms loan - ln_principal_retired_atoms loan \<and>
    (0 < ln_outstanding_debt_atoms loan \<and> ln_outstanding_debt_atoms loan \<le> settlement \<longrightarrow>
      p = ln_principal_debt_atoms loan - ln_principal_retired_atoms loan)"
proof -
  let ?rem = "ln_principal_debt_atoms loan - ln_principal_retired_atoms loan"
  let ?o = "ln_outstanding_debt_atoms loan"
  have w: "?rem < u64_lim" "?o < u64_lim" using assms(1) by (auto simp: loan_wf_def)
  consider "?o = 0" | "0 < ?o" "?o \<le> settlement" | "settlement < ?o" by linarith
  then show ?thesis
  proof cases
    case 3
    then have "settlement * ?rem div ?o \<le> ?rem"
      using floor_share_le[of ?o settlement ?rem] by (simp add: mult.commute)
    then show ?thesis using 3 w assms(2) lim_order
      by (simp add: principal_portion_of_settlement_def mul_div_eq u64_in_u128 Let_def)
  qed (use w in \<open>simp_all add: principal_portion_of_settlement_def Let_def\<close>)
qed

section \<open>Life of a loan\<close>

definition fresh_fixed_loan :: "nat \<Rightarrow> loan_fixed \<Rightarrow> bool" where
  "fresh_fixed_loan net loan =
     (loan_wf loan \<and> ln_loan_type loan = 0 \<and> ln_state loan = 0 \<and> ln_outstanding_debt_atoms loan = net \<and>
      ln_lender_claimable_atoms loan = net \<and> ln_principal_retired_atoms loan = 0 \<and>
      ln_accumulated_protocol_fee_atoms loan = 0 \<and> ln_accumulated_curator_fee_atoms loan = 0 \<and>
      ln_last_accrued_unix loan = ln_started_at_unix loan)"

inductive loan_reach :: "loan_fixed \<Rightarrow> loan_fixed \<Rightarrow> bool" for loan0 where
  start: "loan_reach loan0 loan0"
| accrue: "loan_reach loan0 loan \<Longrightarrow> now < i64_lim \<Longrightarrow> accrue_loan loan now = Inr loan' \<Longrightarrow>
    loan_reach loan0 loan'"
| resolve: "loan_reach loan0 loan \<Longrightarrow> apply_partial_resolution loan repaid = Inr (loan', portions) \<Longrightarrow>
    loan_reach loan0 loan'"
| close: "loan_reach loan0 loan \<Longrightarrow> ln_outstanding_debt_atoms loan = 0 \<Longrightarrow>
    loan_reach loan0 (loan\<lparr>ln_state := loan_state_u8 Repaid\<rparr>)"

definition simple_interest :: "loan_fixed \<Rightarrow> nat" where
  "simple_interest loan = cum_interest loan (ln_borrower_rate_bps loan) (prior_elapsed loan)"

definition loan_inv :: "nat \<Rightarrow> loan_fixed \<Rightarrow> bool" where
  "loan_inv net loan =
     (loan_wf loan \<and> ln_loan_type loan = 0 \<and> (ln_state loan = 3 \<longrightarrow> ln_outstanding_debt_atoms loan = 0) \<and>
      conserved loan \<and> (0 < ln_outstanding_debt_atoms loan \<longrightarrow> ledger net loan) \<and>
      ln_outstanding_debt_atoms loan + ln_principal_retired_atoms loan \<le> net + simple_interest loan)"

lemma spread_floor_le:
  "loan_wf loan \<Longrightarrow>
   cum_interest loan (ln_lender_rate_bps loan) e + cum_interest loan (spread_bps loan) e \<le>
   cum_interest loan (ln_borrower_rate_bps loan) e"
  unfolding cum_interest_def
  using floor_share_add[of "ln_principal_debt_atoms loan" "ln_lender_rate_bps loan * e" interest_denom
      "spread_bps loan * e"]
  by (simp add: spread_bps_def loan_wf_def flip: add_mult_distrib)

lemma fresh_loan_inv: "fresh_fixed_loan net loan \<Longrightarrow> loan_inv net loan"
  by (auto simp: fresh_fixed_loan_def loan_inv_def conserved_def ledger_def prior_elapsed_eq
      cum_interest_def cum_curator_def Let_def)

lemma ledger_upper: "loan_wf loan \<Longrightarrow> ledger net loan \<Longrightarrow>
    ln_outstanding_debt_atoms loan + ln_principal_retired_atoms loan \<le> net + simple_interest loan"
  using spread_floor_le[of loan "prior_elapsed loan"] by (simp add: ledger_def simple_interest_def Let_def)

lemma accrue_loan_inv:
  assumes inv: "loan_inv net loan" and now: "now < i64_lim" and ok: "accrue_loan loan now = Inr loan'"
  shows "loan_inv net loan'"
proof -
  have wf: "loan_wf loan" "loan_wf loan'"
    using inv accrue_loan_wf[OF _ now ok] by (auto simp: loan_inv_def)
  have c: "conserved loan'" using inv accrue_loan_conserved[OF wf(1) now ok] by (simp add: loan_inv_def)
  have l: "0 < ln_outstanding_debt_atoms loan' \<longrightarrow> ledger net loan'"
    using inv accrue_loan_ledger[OF wf(1) now ok] by (auto simp: loan_inv_def)
  have kind: "ln_loan_type loan' = 0 \<and> (ln_state loan' = 3 \<longrightarrow> ln_outstanding_debt_atoms loan' = 0)"
    using wf(1) now ok by (cases rule: accrue_loan_cases) (use inv in \<open>auto simp: loan_inv_def accrued_simps\<close>)
  have b: "ln_outstanding_debt_atoms loan' + ln_principal_retired_atoms loan' \<le> net + simple_interest loan'"
    using wf(1) now ok
  proof (cases rule: accrue_loan_cases)
    case idle
    have "prior_elapsed loan \<le> prior_elapsed loan'"
      using prior_elapsed_eq[OF wf(1)] prior_elapsed_eq[OF wf(2)] idle(1,2) by simp
    then have "simple_interest loan \<le> simple_interest loan'"
      unfolding simple_interest_def idle(1) by (simp add: cum_interest_def div_le_mono)
    then show ?thesis using inv idle(1) by (simp add: loan_inv_def)
  next
    case interest
    have "0 < ln_outstanding_debt_atoms loan'" using interest(2,5) by (simp add: accrued_def Let_def)
    then show ?thesis using l ledger_upper[OF wf(2)] by blast
  qed
  show ?thesis using wf c l kind b by (simp add: loan_inv_def)
qed

lemma resolve_loan_inv:
  assumes "loan_inv net loan" "apply_partial_resolution loan repaid = Inr (loan', portions)"
  shows "loan_inv net loan'"
proof -
  obtain l p c where "portions = (l, p, c)" by (cases portions) auto
  then have r: "repaid \<le> ln_outstanding_debt_atoms loan"
    "ln_outstanding_debt_atoms loan + ln_principal_retired_atoms loan < u64_lim"
    "loan' = loan\<lparr> ln_outstanding_debt_atoms := ln_outstanding_debt_atoms loan - repaid,
                    ln_principal_retired_atoms := ln_principal_retired_atoms loan + repaid \<rparr>"
    using assms(2) by (auto simp: apply_partial_resolution_Inr)
  have same: "cum_interest loan' = cum_interest loan" "cum_curator loan' = cum_curator loan"
    "prior_elapsed loan' = prior_elapsed loan" "spread_bps loan' = spread_bps loan"
    "simple_interest loan' = simple_interest loan"
    by (simp_all add: r(3) cum_interest_def cum_curator_def curator_bps_def spread_bps_def prior_elapsed_def
        simple_interest_def fun_eq_iff)
  have inv: "loan_wf loan" "ln_loan_type loan = 0" "ln_state loan = 3 \<Longrightarrow> ln_outstanding_debt_atoms loan = 0"
    "conserved loan" "0 < ln_outstanding_debt_atoms loan \<Longrightarrow> ledger net loan"
    "ln_outstanding_debt_atoms loan + ln_principal_retired_atoms loan \<le> net + simple_interest loan"
    using assms(1) by (simp_all add: loan_inv_def)
  have "loan_wf loan'" using inv(1) r by (simp add: loan_wf_def)
  moreover have "conserved loan'" using inv(4) r by (simp add: conserved_def)
  moreover have "ledger net loan'" if "0 < ln_outstanding_debt_atoms loan'"
    using inv(5) r that unfolding ledger_def same Let_def by (simp add: r(3))
  moreover have "ln_outstanding_debt_atoms loan' + ln_principal_retired_atoms loan' \<le> net + simple_interest loan'"
    unfolding same using inv(6) r by simp
  moreover have "ln_loan_type loan' = 0" "ln_state loan' = 3 \<Longrightarrow> ln_outstanding_debt_atoms loan' = 0"
    using inv(2,3) r by auto
  ultimately show ?thesis unfolding loan_inv_def by blast
qed

lemma close_loan_inv:
  "loan_inv net loan \<Longrightarrow> ln_outstanding_debt_atoms loan = 0 \<Longrightarrow>
   loan_inv net (loan\<lparr>ln_state := loan_state_u8 Repaid\<rparr>)"
  by (auto simp: loan_inv_def loan_wf_def conserved_def simple_interest_def prior_elapsed_def cum_interest_def)

lemma loan_reach_inv: "loan_reach loan0 loan \<Longrightarrow> loan_inv net loan0 \<Longrightarrow> loan_inv net loan"
  by (induction rule: loan_reach.induct) (auto intro: accrue_loan_inv resolve_loan_inv close_loan_inv[simplified])

lemma loan_reach_frame:
  assumes "loan_reach loan0 loan" "loan_wf loan0"
  shows "loan_wf loan \<and> ln_principal_debt_atoms loan = ln_principal_debt_atoms loan0 \<and>
    ln_borrower_rate_bps loan = ln_borrower_rate_bps loan0 \<and>
    ln_started_at_unix loan = ln_started_at_unix loan0"
  using assms(1)
proof (induction rule: loan_reach.induct)
  case (accrue loan now loan')
  then show ?case using accrue_loan_wf[OF _ accrue(2,3)]
    by (auto elim!: accrue_loan_cases[rotated 2] simp: accrued_def Let_def)
next
  case (resolve loan repaid loan' portions)
  obtain l p c where "portions = (l, p, c)" by (cases portions) auto
  then show ?case using resolve by (auto simp: apply_partial_resolution_Inr loan_wf_def)
qed (use assms(2) in \<open>auto simp: loan_wf_def\<close>)

text \<open>A fixed loan, for the concrete instances: 1000 atoms of principal at 8 percent for the
  borrower and 6 percent for the lender, one year, sub-vault lender with a 10 percent fee.\<close>

definition example_loan :: loan_fixed where
  "example_loan = new_from_matched_loan_with_lender 1 0 255 7 0 160 1000 1000 2000 800 600 31536000
     1000 1 Fixed 0 OWNER_KIND_SUB_VAULT 3 9 1000 SCALE SCALE"

lemma example_loan_fresh: "fresh_fixed_loan 1000 example_loan"
  by (simp add: example_loan_def new_from_matched_loan_with_lender_def fresh_fixed_loan_def loan_wf_def
      lim_defs BPS_PER_UNIT_def OWNER_KIND_SUB_VAULT_def)

section \<open>Properties\<close>

lemmas loan_eval =
  accrue_loan_def total_elapsed_def prior_elapsed_def i64_checked_sub_def accrue_interest_def
  cumulative_at_def cum_curator_fee_def accrue_tail_def checked_add_u64_def mul_div_eq lim_defs
  checked_add_def checked_sub_def checked_mul_def narrow_def Let_def BPS_PER_UNIT_def
  SECONDS_PER_YEAR_def OWNER_KIND_SUB_VAULT_def OWNER_KIND_USER_def assert_loan_conservation_def
  apply_partial_resolution_def resolution_portions_def slice_portion_of_def
  protocol_already_retired_def curator_already_retired_def fee_already_retired_def
  principal_portion_of_settlement_def example_loan_def new_from_matched_loan_with_lender_def

text \<open>C6. Life-long conservation: from a freshly minted fixed loan, whatever accruals, partial
  resolutions and closings follow, the claims of lender, protocol and curator equal what is owed
  plus what was retired, and owed plus retired never exceeds the net principal plus the simple
  interest at the borrower's rate up to the last accrual.\<close>

theorem loan_books_balance:
  assumes "fresh_fixed_loan net loan0" "loan_reach loan0 loan"
  shows "ln_lender_claimable_atoms loan + ln_accumulated_protocol_fee_atoms loan +
      ln_accumulated_curator_fee_atoms loan =
      ln_outstanding_debt_atoms loan + ln_principal_retired_atoms loan \<and>
    ln_outstanding_debt_atoms loan + ln_principal_retired_atoms loan \<le>
      net + ln_principal_debt_atoms loan0 * (ln_borrower_rate_bps loan0 *
        nat (ln_last_accrued_unix loan - ln_started_at_unix loan0)) div (10000 * 31536000)"
proof -
  have inv: "loan_inv net loan" using loan_reach_inv[OF assms(2) fresh_loan_inv[OF assms(1)]] .
  have wf0: "loan_wf loan0" using assms(1) by (simp add: fresh_fixed_loan_def)
  note fr = loan_reach_frame[OF assms(2) wf0]
  show ?thesis
    using inv fr by (simp add: loan_inv_def conserved_def simple_interest_def cum_interest_def
        prior_elapsed_eq interest_denom_value)
qed

theorem loan_books_balance_witness:
  "\<exists>loan. accrue_loan example_loan 20000000 = Inr loan \<and> loan_reach example_loan loan \<and>
     ln_lender_claimable_atoms loan + ln_accumulated_protocol_fee_atoms loan +
       ln_accumulated_curator_fee_atoms loan = 1050"
proof -
  obtain loan where ok: "accrue_loan example_loan 20000000 = Inr loan"
    and o: "ln_outstanding_debt_atoms loan = 1050" "ln_principal_retired_atoms loan = 0"
    by (simp add: loan_eval)
  have r: "loan_reach example_loan loan"
    using loan_reach.accrue[OF loan_reach.start _ ok] by (simp add: lim_defs)
  show ?thesis using ok o r loan_books_balance[OF example_loan_fresh r] by simp
qed

lemma accrued_twice:
  assumes "e0 \<le> e1" "e1 \<le> e2" "loan_wf loan"
  shows "accrued (accrued loan e0 e1 t1) e1 e2 t2 = accrued loan e0 e2 t2"
proof -
  let ?lr = "ln_lender_rate_bps loan" and ?s = "spread_bps loan"
  obtain g1 g2 where g: "cum_interest loan ?lr e1 = cum_interest loan ?lr e0 + g1"
    "cum_interest loan ?lr e2 = cum_interest loan ?lr e0 + g1 + g2"
    using cum_interest_mono[OF assms(1)] cum_interest_mono[OF assms(2)] le_Suc_ex by metis
  obtain s1 s2 where s: "cum_interest loan ?s e1 = cum_interest loan ?s e0 + s1"
    "cum_interest loan ?s e2 = cum_interest loan ?s e0 + s1 + s2"
    using cum_interest_mono[OF assms(1)] cum_interest_mono[OF assms(2)] le_Suc_ex by metis
  obtain c1 c2 where c: "cum_curator loan e1 = cum_curator loan e0 + c1"
    "cum_curator loan e2 = cum_curator loan e0 + c1 + c2"
    using cum_curator_mono[OF assms(1)] cum_curator_mono[OF assms(2)] le_Suc_ex by metis
  have "c1 \<le> g1" "c2 \<le> g2"
    using cum_curator_step[OF assms(3,1)] cum_curator_step[OF assms(3,2)] by (simp_all add: g c)
  then show ?thesis
    unfolding accrued_def[of "accrued loan e0 e1 t1"] accrued_simps Let_def
    by (simp add: accrued_def Let_def g s c)
qed

text \<open>C10. Accrual is path independent: accruing a loan to \<open>t1\<close> and then to \<open>t2\<close> gives the very
  account that accruing it to \<open>t2\<close> at once gives, bucket for bucket, so nobody gains by cranking
  more often.\<close>

theorem accrue_path_independent:
  assumes "loan_wf loan" "t2 < i64_lim" "t1 \<le> t2"
    and "accrue_loan loan t1 = Inr loan1" "accrue_loan loan1 t2 = Inr loan2"
  shows "accrue_loan loan t2 = Inr loan2"
proof -
  have t1: "t1 < i64_lim" using assms(2,3) by simp
  have wf1: "loan_wf loan1" using accrue_loan_wf[OF assms(1) t1 assms(4)] .
  show ?thesis
    using assms(1) t1 assms(4)
  proof (cases rule: accrue_loan_cases)
    case idle
    show ?thesis
    proof (cases "ln_last_accrued_unix loan = t1")
      case True
      then have "loan1 = loan" using idle(1) by simp
      then show ?thesis using assms(5) by simp
    next
      case False
      then show ?thesis using idle assms(3,5)
        by (auto simp: accrue_loan_def result_simps split: if_splits)
    qed
  next
    case i1: interest
    show ?thesis
    proof (cases "t2 = t1")
      case True
      then show ?thesis using assms(4,5) i1(5) by (simp add: accrue_loan_def accrued_simps)
    next
      case False
      let ?e1 = "nat (t1 - ln_started_at_unix loan)" and ?e2 = "nat (t2 - ln_started_at_unix loan)"
      have out: "0 < ln_outstanding_debt_atoms loan1" using i1(2,5) by (simp add: accrued_def Let_def)
      have pe: "prior_elapsed loan1 = ?e1" using prior_elapsed_eq[OF wf1] i1(5) by (simp add: accrued_simps)
      obtain l2: "loan2 = accrued loan1 ?e1 ?e2 t2" "no_overflow loan2"
        using wf1 assms(2,5)
      proof (cases rule: accrue_loan_cases)
        case idle
        then show ?thesis using out i1 assms(3) False by (auto simp: accrued_simps)
      next
        case interest
        then show ?thesis using that pe i1(5) by (simp add: accrued_simps)
      qed
      have st: "ln_started_at_unix loan < t2" "t2 - ln_started_at_unix loan < i64_lim"
        using assms(1-3) i1(1) by (auto simp: loan_wf_def)
      have e: "prior_elapsed loan \<le> ?e2" "?e2 < u64_lim" "?e1 \<le> ?e2"
        using i1(7) st assms(3) by (auto simp: lim_defs)
      have "loan2 = accrued loan (prior_elapsed loan) ?e2 t2"
        unfolding l2(1) i1(5) using accrued_twice[OF i1(7) e(3) assms(1)] .
      then have "accrue_interest loan t2 ?e2 = Inr loan2"
        using accrue_interest_Inr[OF assms(1) e(1,2)] l2(2) by blast
      then show ?thesis
        using total_elapsed_eq[OF st] i1(1-4) assms(3) by (simp add: accrue_loan_def)
    qed
  qed
qed

theorem accrue_path_independent_witness:
  "\<exists>loan1 loan2. accrue_loan example_loan 9000000 = Inr loan1 \<and> accrue_loan loan1 20000000 = Inr loan2 \<and>
     accrue_loan example_loan 20000000 = Inr loan2"
proof -
  have wf: "loan_wf example_loan" using example_loan_fresh by (simp add: fresh_fixed_loan_def)
  obtain loan1 loan2 where "accrue_loan example_loan 9000000 = Inr loan1" "accrue_loan loan1 20000000 = Inr loan2"
    by (simp add: loan_eval)
  then show ?thesis using accrue_path_independent[OF wf, of 20000000 9000000 loan1 loan2]
    by (simp add: lim_defs)
qed

text \<open>C11. A partial resolution of \<open>repaid\<close> atoms splits exactly \<open>repaid\<close> between lender, protocol
  and curator, moves \<open>repaid\<close> from outstanding to retired, changes nothing else and keeps the
  books conserved; it only succeeds for a positive amount within the outstanding debt.\<close>

theorem partial_resolution_spec:
  assumes "apply_partial_resolution loan repaid = Inr (loan', l, p, c)"
  shows "l + p + c = repaid \<and> 0 < repaid \<and> repaid \<le> ln_outstanding_debt_atoms loan \<and>
    loan' = loan\<lparr> ln_outstanding_debt_atoms := ln_outstanding_debt_atoms loan - repaid,
                   ln_principal_retired_atoms := ln_principal_retired_atoms loan + repaid \<rparr> \<and>
    assert_loan_conservation loan = Inr () \<and> assert_loan_conservation loan' = Inr ()"
  using assms
  by (auto simp: apply_partial_resolution_Inr resolution_portions_sum assert_loan_conservation_ok conserved_def)

theorem partial_resolution_spec_witness:
  "\<exists>loan'. apply_partial_resolution example_loan 400 = Inr (loan', 400, 0, 0) \<and>
     ln_outstanding_debt_atoms loan' = 600 \<and> assert_loan_conservation loan' = Inr ()"
proof -
  obtain loan' where ok: "apply_partial_resolution example_loan 400 = Inr (loan', 400, 0, 0)"
    "ln_outstanding_debt_atoms loan' = 600"
    by (simp add: loan_eval)
  then show ?thesis using partial_resolution_spec[OF ok(1)] by blast
qed

text \<open>The fee slices of repeated partial resolutions are not cumulative: three resolutions that
  each retire half of what is left pay the protocol half of its accrued fee every time, so more
  than it ever accrued; the excess comes out of the lender's portion.\<close>

theorem halving_pays_fee_again:
  assumes "loan_wf loan0" "ln_outstanding_debt_atoms loan0 = 8 * k"
    and "apply_partial_resolution loan0 (4 * k) = Inr (loan1, l1, p1, c1)"
    and "apply_partial_resolution loan1 (2 * k) = Inr (loan2, l2, p2, c2)"
    and "apply_partial_resolution loan2 k = Inr (loan3, l3, p3, c3)"
  shows "p1 + p2 + p3 = 3 * (ln_accumulated_protocol_fee_atoms loan0 div 2)"
proof -
  let ?f = "ln_accumulated_protocol_fee_atoms loan0"
  have w: "?f < u64_lim" "ln_outstanding_debt_atoms loan0 < u64_lim"
    "ln_accumulated_curator_fee_atoms loan0 < u64_lim" using assms(1) by (auto simp: loan_wf_def)
  have half: "?f * r div (2 * r) = ?f div 2" if "0 < r" for r
    using that by (metis div_mult2_eq mult.commute nonzero_mult_div_cancel_left not_gr_zero)
  have k: "0 < k" using assms(3) by (simp add: apply_partial_resolution_Inr)
  have l1: "loan1 = loan0\<lparr> ln_outstanding_debt_atoms := 4 * k,
      ln_principal_retired_atoms := ln_principal_retired_atoms loan0 + 4 * k \<rparr>"
    using assms(2,3) by (simp add: apply_partial_resolution_Inr)
  have l2: "loan2 = loan1\<lparr> ln_outstanding_debt_atoms := 2 * k,
      ln_principal_retired_atoms := ln_principal_retired_atoms loan1 + 2 * k \<rparr>"
    using assms(4) l1 by (simp add: apply_partial_resolution_Inr)
  have "p1 = ?f * (4 * k) div (8 * k)"
    using assms(2,3) w k
    by (auto simp: apply_partial_resolution_Inr resolution_portions_def Let_def partial_slice_eq result_simps)
  moreover have "p2 = ?f * (2 * k) div (4 * k)"
    using assms(2,4) l1 w k
    by (auto simp: apply_partial_resolution_Inr resolution_portions_def Let_def partial_slice_eq result_simps)
  moreover have "p3 = ?f * k div (2 * k)"
    using assms(2,5) l1 l2 w k
    by (auto simp: apply_partial_resolution_Inr resolution_portions_def Let_def partial_slice_eq result_simps)
  ultimately show ?thesis using half[of "4 * k"] half[of "2 * k"] half[of k] k by simp
qed

definition example_old_loan :: loan_fixed where
  "example_old_loan = example_loan\<lparr> ln_outstanding_debt_atoms := 800, ln_lender_claimable_atoms := 690,
     ln_accumulated_protocol_fee_atoms := 100, ln_accumulated_curator_fee_atoms := 10 \<rparr>"

theorem halving_pays_fee_again_witness:
  "\<exists>loan1 l1 p1 c1 loan2 l2 p2 c2 loan3 l3 p3 c3.
     apply_partial_resolution example_old_loan (4 * 100) = Inr (loan1, l1, p1, c1) \<and>
     apply_partial_resolution loan1 (2 * 100) = Inr (loan2, l2, p2, c2) \<and>
     apply_partial_resolution loan2 100 = Inr (loan3, l3, p3, c3) \<and>
     p1 + p2 + p3 = 150 \<and> ln_accumulated_protocol_fee_atoms example_old_loan = 100"
proof -
  have wf: "loan_wf example_old_loan" "ln_outstanding_debt_atoms example_old_loan = 8 * 100"
    by (simp_all add: example_old_loan_def loan_wf_def loan_eval)
  obtain loan1 l1 p1 c1 loan2 l2 p2 c2 loan3 l3 p3 c3 where
    "apply_partial_resolution example_old_loan (4 * 100) = Inr (loan1, l1, p1, c1)"
    "apply_partial_resolution loan1 (2 * 100) = Inr (loan2, l2, p2, c2)"
    "apply_partial_resolution loan2 100 = Inr (loan3, l3, p3, c3)"
    by (simp add: example_old_loan_def loan_eval)
  then show ?thesis using halving_pays_fee_again[OF wf, of loan1 l1 p1 c1 loan2 l2 p2 c2 loan3 l3 p3 c3]
    by (auto simp: example_old_loan_def)
qed

text \<open>What a fee still owes after its pro-rata share was retired is at most its share of the rest of the claim, rounded
  up.\<close>

lemma fee_already_retired_Inr:
  assumes "loan_wf loan" "conserved loan" "ln_outstanding_debt_atoms loan + ln_principal_retired_atoms loan < u64_lim"
    and "0 < ln_outstanding_debt_atoms loan" "fee < u64_lim"
  shows "fee_already_retired loan fee =
    Inr (fee * ln_principal_retired_atoms loan div (ln_outstanding_debt_atoms loan + ln_principal_retired_atoms loan))"
proof -
  let ?r = "ln_principal_retired_atoms loan" and ?t = "ln_outstanding_debt_atoms loan + ln_principal_retired_atoms loan"
  have t: "ln_lender_claimable_atoms loan + ln_accumulated_protocol_fee_atoms loan + ln_accumulated_curator_fee_atoms loan = ?t"
    using assms(2) by (simp add: conserved_def)
  have "fee * ?r div ?t \<le> fee" using assms(4) by (intro floor_share_le) auto
  then have q: "fee * ?r div ?t < u64_lim" using assms(5) by simp
  have "?r < u64_lim" using assms(3) by simp
  then have "fee * ?r < u64_lim * u64_lim" using assms(5) by (intro mult_strict_mono) auto
  then have "fee * ?r < u128_lim" by (simp add: lim_defs)
  moreover have "?t < u128_lim" using assms(3) by (simp add: lim_defs)
  ultimately show ?thesis using t q assms(4)
    by (simp add: fee_already_retired_def checked_add_def checked_mul_def narrow_def)
qed

lemma owed_share_le:
  fixes f r o' :: nat
  assumes "0 < o'"
  shows "(f - f * r div (o' + r)) * (o' + r) < f * o' + (o' + r)"
proof -
  let ?t = "o' + r" and ?q = "f * r div (o' + r)"
  have "f * r mod ?t < ?t" using assms by simp
  then have "f * r < ?q * ?t + ?t" using div_mult_mod_eq[of "f * r" ?t] by linarith
  then have "f * ?t < ?q * ?t + (f * o' + ?t)" by (simp add: algebra_simps)
  then have "f * ?t - ?q * ?t < f * o' + ?t" using assms by linarith
  then show ?thesis by (simp only: diff_mult_distrib)
qed

lemma full_close_passes:
  assumes wf: "loan_wf loan" and ok: "assert_loan_conservation loan = Inr ()" and o: "0 < ln_outstanding_debt_atoms loan"
    and big: "ln_outstanding_debt_atoms loan + ln_principal_retired_atoms loan
      \<le> ln_lender_claimable_atoms loan * ln_outstanding_debt_atoms loan"
  shows "\<exists>loan' l p c. apply_partial_resolution loan (ln_outstanding_debt_atoms loan) = Inr (loan', l, p, c)"
proof -
  let ?o = "ln_outstanding_debt_atoms loan" and ?r = "ln_principal_retired_atoms loan"
  let ?p = "ln_accumulated_protocol_fee_atoms loan" and ?c = "ln_accumulated_curator_fee_atoms loan" and ?l = "ln_lender_claimable_atoms loan"
  let ?t = "?o + ?r" and ?dp = "?p - ?p * ?r div (?o + ?r)" and ?dc = "?c - ?c * ?r div (?o + ?r)"
  have k: "conserved loan" "?t < u64_lim" using ok by (simp_all add: assert_loan_conservation_ok)
  have sum: "?l + ?p + ?c = ?t" using k(1) by (simp add: conserved_def)
  have w: "?p < u64_lim" "?c < u64_lim" using wf by (auto simp: loan_wf_def)
  have "?dp * ?t + ?dc * ?t < ?p * ?o + ?t + (?c * ?o + ?t)"
    using owed_share_le[OF o, of ?p ?r] owed_share_le[OF o, of ?c ?r] by (rule add_strict_mono)
  moreover have "?p * ?o + ?c * ?o + ?l * ?o = ?t * ?o" unfolding sum[symmetric] by (simp add: algebra_simps)
  ultimately have "(?dp + ?dc) * ?t < ?t * ?o + ?t" using big by (simp only: add_mult_distrib)
  also have "\<dots> = (?o + 1) * ?t" by (simp add: algebra_simps)
  finally have le: "?dp + ?dc \<le> ?o" by (simp only: mult_less_cancel2) simp
  have "?dp \<le> ?o" "?dc \<le> ?o - ?dp" using le by simp_all
  then have "resolution_portions loan ?o = Inr (?o - ?dp - ?dc, ?dp, ?dc)"
    using fee_already_retired_Inr[OF wf k o w(1)] fee_already_retired_Inr[OF wf k o w(2)]
    by (simp add: resolution_portions_def protocol_already_retired_def curator_already_retired_def saturating_sub_minus checked_sub_def Let_def)
  then show ?thesis using k o by (auto simp: apply_partial_resolution_Inr)
qed

text \<open>C15. When a partial repayment within the debt is refused: exactly when the slices of the two accrued fees, taken
  in full although part of them may have been paid before, exceed the repaid atoms. So once the accrued protocol
  fee is at least twice what is still owed, no partial amount is accepted any more; the full close-out, which
  takes off the fees already paid, still is, as long as the lender's share of the rest of the debt is at least an
  atom.\<close>

theorem partial_resolution_stalls:
  assumes "loan_wf loan" "assert_loan_conservation loan = Inr ()"
    and "0 < repaid" "repaid < ln_outstanding_debt_atoms loan"
  shows "(apply_partial_resolution loan repaid = Inl ArithmeticOverflow \<longleftrightarrow>
      repaid < ln_accumulated_protocol_fee_atoms loan * repaid div ln_outstanding_debt_atoms loan +
        ln_accumulated_curator_fee_atoms loan * repaid div ln_outstanding_debt_atoms loan) \<and>
    (2 * ln_outstanding_debt_atoms loan \<le> ln_accumulated_protocol_fee_atoms loan \<longrightarrow>
      apply_partial_resolution loan repaid = Inl ArithmeticOverflow) \<and>
    (ln_outstanding_debt_atoms loan + ln_principal_retired_atoms loan \<le> ln_lender_claimable_atoms loan * ln_outstanding_debt_atoms loan \<longrightarrow>
      (\<exists>loan' l p c. apply_partial_resolution loan (ln_outstanding_debt_atoms loan) = Inr (loan', l, p, c)))"
proof (intro conjI impI)
  let ?o = "ln_outstanding_debt_atoms loan" and ?f = "ln_accumulated_protocol_fee_atoms loan" and ?c = "ln_accumulated_curator_fee_atoms loan"
  have w: "?o < u64_lim" "?f < u64_lim" "?c < u64_lim" using assms(1) by (auto simp: loan_wf_def)
  have k: "conserved loan" "?o + ln_principal_retired_atoms loan < u64_lim" using assms(2) by (simp_all add: assert_loan_conservation_ok)
  have after: "assert_loan_conservation (loan\<lparr>ln_outstanding_debt_atoms := ?o - repaid,
      ln_principal_retired_atoms := ln_principal_retired_atoms loan + repaid\<rparr>) = Inr ()"
    using k assms(4) by (simp add: assert_loan_conservation_ok conserved_def)
  show eq: "apply_partial_resolution loan repaid = Inl ArithmeticOverflow \<longleftrightarrow> repaid < ?f * repaid div ?o + ?c * repaid div ?o"
    using assms w k after
    by (auto simp: apply_partial_resolution_def resolution_portions_def partial_slice_eq Let_def checked_sub_def checked_add_def require_def)
  assume "2 * ?o \<le> ?f"
  then have "(2 * ?o) * repaid div ?o \<le> ?f * repaid div ?o" by (intro div_le_mono mult_le_mono1)
  then have "2 * repaid \<le> ?f * repaid div ?o" using assms(4) by simp
  then show "apply_partial_resolution loan repaid = Inl ArithmeticOverflow" using eq assms(3) by simp
next
  assume "ln_outstanding_debt_atoms loan + ln_principal_retired_atoms loan \<le> ln_lender_claimable_atoms loan * ln_outstanding_debt_atoms loan"
  then show "\<exists>loan' l p c. apply_partial_resolution loan (ln_outstanding_debt_atoms loan) = Inr (loan', l, p, c)"
    using full_close_passes[OF assms(1,2)] assms(4) by simp
qed

theorem partial_resolution_stalls_witness:
  "\<exists>loan1 l p c. apply_partial_resolution example_old_loan 770 = Inr (loan1, l, p, c) \<and>
     apply_partial_resolution loan1 10 = Inl ArithmeticOverflow \<and>
     (\<exists>loan2 l p c. apply_partial_resolution loan1 30 = Inr (loan2, l, p, c))"
proof -
  obtain loan1 l p c where r: "apply_partial_resolution example_old_loan 770 = Inr (loan1, l, p, c)"
    and l1: "loan1 = example_old_loan\<lparr> ln_outstanding_debt_atoms := 30, ln_principal_retired_atoms := 770 \<rparr>"
    by (simp add: example_old_loan_def loan_eval)
  have "loan_wf loan1" "assert_loan_conservation loan1 = Inr ()"
    by (simp_all add: l1 example_old_loan_def loan_wf_def loan_eval)
  then have "apply_partial_resolution loan1 10 = Inl ArithmeticOverflow \<and>
      (\<exists>loan2 l p c. apply_partial_resolution loan1 (ln_outstanding_debt_atoms loan1) = Inr (loan2, l, p, c))"
    using partial_resolution_stalls[of loan1 10] by (simp add: l1 example_old_loan_def loan_eval)
  then show ?thesis using r l1 by auto
qed

end
