(* ===== verification/Ltv.thy ===== *)
theory Ltv
  imports Loan
begin

text \<open>The loan-to-value arithmetic of \<open>state/ltv.rs\<close>: the collateral that backs a debt at given
  prices and weights, the origination gate, the liquidation gate and the maturity gate. Oracle
  prices, marginfi weights, share values and balances are external readings: they enter as
  arguments, as results where the reading can fail.\<close>

fun pow10_loop :: "nat \<Rightarrow> nat \<Rightarrow> nat res" where
  "pow10_loop 0 acc = Inr acc"
| "pow10_loop (Suc n) acc =
     ebind (ok_or (checked_mul u128_lim acc 10) ArithmeticOverflow) (pow10_loop n)"

definition pow10_u128 :: "nat \<Rightarrow> nat res" where
  "pow10_u128 ex = pow10_loop ex 1"

definition get_required_quote_collateral_to_back_debt ::
  "nat \<Rightarrow> fp48 \<Rightarrow> fp48 \<Rightarrow> fp48 \<Rightarrow> fp48 \<Rightarrow> nat \<Rightarrow> nat \<Rightarrow> nat res" where
  "get_required_quote_collateral_to_back_debt debt_atoms_traded debt_price coll_price liability_weight
     coll_weight debt_decimals coll_decimals =
     (if fp48_is_zero coll_price \<or> fp48_is_zero coll_weight \<or> fp48_is_zero debt_price \<or>
         fp48_is_zero liability_weight
      then Inr (u64_lim - 1)
      else
        ebind (fp48_checked_mul (from_atoms debt_atoms_traded) debt_price) (\<lambda>num1.
        ebind (fp48_checked_mul num1 liability_weight) (\<lambda>num2.
        ebind (fp48_checked_mul coll_price coll_weight) (\<lambda>denom.
        ebind (fp48_checked_div num2 denom) (\<lambda>quot.
        ebind (if debt_decimals \<le> coll_decimals then
                 ebind (pow10_u128 (coll_decimals - debt_decimals)) (\<lambda>factor. mul_div quot factor 1 False)
               else
                 ebind (pow10_u128 (debt_decimals - coll_decimals)) (\<lambda>factor. mul_div quot 1 factor False))
          (\<lambda>normalized.
        ebind (from_scaled_ceil normalized) (\<lambda>atoms.
        if u64_lim - 1 < atoms then Inr (u64_lim - 1) else Inr atoms)))))))"

definition required_collateral_at_ltv_cap ::
  "nat \<Rightarrow> fp48 \<Rightarrow> fp48 \<Rightarrow> nat \<Rightarrow> nat \<Rightarrow> nat \<Rightarrow> nat res" where
  "required_collateral_at_ltv_cap debt_atoms_traded debt_price coll_price ltv_cap_bps debt_decimals
     coll_decimals =
     ebind (to_scaled ltv_cap_bps) (\<lambda>scaled.
     let cap_weight = scaled div 10000 in
     get_required_quote_collateral_to_back_debt debt_atoms_traded debt_price coll_price fp48_ONE
       cap_weight debt_decimals coll_decimals)"

definition effective_origination_cap_bps :: "nat \<Rightarrow> nat \<Rightarrow> nat" where
  "effective_origination_cap_bps sub_vault_max_ltv_bps borrower_buffer_bps =
     saturating_sub sub_vault_max_ltv_bps borrower_buffer_bps"

text \<open>\<open>balance\<close> is the marginfi account's balance entry for the debt bank, if it has one.\<close>

definition read_borrower_liability_shares :: "nat option \<Rightarrow> nat res" where
  "read_borrower_liability_shares balance = (case balance of Some b \<Rightarrow> Inr b | None \<Rightarrow> Inr 0)"

definition liability_shares_to_atoms_ceil :: "fp48 \<Rightarrow> nat \<Rightarrow> nat res" where
  "liability_shares_to_atoms_ceil liability_share_value shares =
     ebind (mul_scale shares liability_share_value) (\<lambda>atoms_fp48.
     ebind (from_scaled_ceil atoms_fp48) (\<lambda>atoms.
     if u64_lim - 1 < atoms then Inl ArithmeticOverflow else Inr atoms))"

definition loan_live_outstanding_atoms :: "loan_fixed \<Rightarrow> nat option \<Rightarrow> fp48 \<Rightarrow> nat res" where
  "loan_live_outstanding_atoms loan balance liability_share_value =
     ebind (ln_loan_type_of loan) (\<lambda>ty. case ty of
         Fixed \<Rightarrow> Inr (ln_outstanding_debt_atoms loan)
       | P2Pool \<Rightarrow>
           ebind (read_borrower_liability_shares balance) (\<lambda>account_total.
           let this_loan_shares = min (ln_borrower_marginfi_borrow_shares loan) account_total in
           liability_shares_to_atoms_ceil liability_share_value this_loan_shares))"

text \<open>The external readings of the liquidation gate.\<close>

record ltv_readings =
  rd_debt_price :: "fp48 res"
  rd_collateral_price :: "fp48 res"
  rd_debt_liability_weight_maint :: "fp48 res"
  rd_collateral_asset_weight_maint :: "fp48 res"

definition assert_ltv_breach :: "loan_type \<Rightarrow> nat \<Rightarrow> nat \<Rightarrow> nat \<Rightarrow> ltv_readings \<Rightarrow> nat \<Rightarrow> nat \<Rightarrow> unit res" where
  "assert_ltv_breach ty stamped_liquidation_ltv_bps outstanding_atoms collateral_atoms rd debt_decimals
     coll_decimals =
     ebind (require (0 < outstanding_atoms) (Custom InvalidArgument)) (\<lambda>_.
     ebind (require (0 < collateral_atoms) (Custom LiquidationCollateralUnderflow)) (\<lambda>_.
     ebind (rd_debt_price rd) (\<lambda>debt_price.
     ebind (rd_collateral_price rd) (\<lambda>collateral_price.
     ebind (require (\<not> fp48_is_zero collateral_price \<and> \<not> fp48_is_zero debt_price)
              (Custom OracleDegenerate)) (\<lambda>_.
     ebind (case ty of
         Fixed \<Rightarrow>
           ebind (require (0 < stamped_liquidation_ltv_bps) (Custom InvalidArgument)) (\<lambda>_.
           required_collateral_at_ltv_cap outstanding_atoms debt_price collateral_price
             stamped_liquidation_ltv_bps debt_decimals coll_decimals)
       | P2Pool \<Rightarrow>
           ebind (rd_debt_liability_weight_maint rd) (\<lambda>liability_weight.
           ebind (rd_collateral_asset_weight_maint rd) (\<lambda>asset_weight.
           ebind (require (\<not> fp48_is_zero asset_weight \<and> \<not> fp48_is_zero liability_weight)
                    (Custom OracleDegenerate)) (\<lambda>_.
           get_required_quote_collateral_to_back_debt outstanding_atoms debt_price collateral_price
             liability_weight asset_weight debt_decimals coll_decimals)))) (\<lambda>required_collateral_atoms.
     require (collateral_atoms < required_collateral_atoms) (Custom LoanStillSolvent)))))))"

definition i64_checked_add :: "int \<Rightarrow> int \<Rightarrow> int option" where
  "i64_checked_add a b = (if - i64_lim \<le> a + b \<and> a + b < i64_lim then Some (a + b) else None)"

definition assert_past_grace_period :: "loan_fixed \<Rightarrow> nat \<Rightarrow> int \<Rightarrow> unit res" where
  "assert_past_grace_period loan grace_period_seconds now_unix_ts =
     ebind (ok_or (i64_checked_add (ln_matures_at_unix loan) (int grace_period_seconds))
              ArithmeticOverflow) (\<lambda>grace_end.
     require (grace_end < now_unix_ts) (Custom LoanNotMatured))"

section \<open>The read-only triggers\<close>

text \<open>\<open>process_check_ltv_liquidatable\<close> and \<open>process_check_maturity_liquidatable\<close>
  (\<open>program/processor/check_liquidatable.rs\<close>) on the loaded loan and the external readings.\<close>

definition check_ltv_liquidatable ::
  "loan_fixed \<Rightarrow> int \<Rightarrow> nat option \<Rightarrow> fp48 \<Rightarrow> ltv_readings \<Rightarrow> nat \<Rightarrow> nat \<Rightarrow> unit res" where
  "check_ltv_liquidatable loan now balance lsv rd debt_decimals coll_decimals =
     ebind (require (ln_state loan \<noteq> loan_state_u8 Repaid) (Custom InvalidArgument)) (\<lambda>_.
     ebind (accrue_loan loan now) (\<lambda>header.
     ebind (loan_live_outstanding_atoms header balance lsv) (\<lambda>outstanding.
     ebind (ln_loan_type_of header) (\<lambda>ty.
     assert_ltv_breach ty (ln_liquidation_ltv_bps header) outstanding (ln_collateral_atoms header) rd
       debt_decimals coll_decimals))))"

definition check_maturity_liquidatable :: "loan_fixed \<Rightarrow> int \<Rightarrow> nat option \<Rightarrow> fp48 \<Rightarrow> nat \<Rightarrow> unit res" where
  "check_maturity_liquidatable loan now balance lsv grace_period_seconds =
     ebind (require (ln_state loan \<noteq> loan_state_u8 Repaid) (Custom InvalidArgument)) (\<lambda>_.
     ebind (accrue_loan loan now) (\<lambda>header.
     ebind (assert_past_grace_period header grace_period_seconds now) (\<lambda>_.
     ebind (loan_live_outstanding_atoms header balance lsv) (\<lambda>outstanding.
     require (0 < outstanding) (Custom InvalidArgument)))))"

section \<open>Values\<close>

lemma pow10_loop_Inr: "0 < acc \<Longrightarrow> pow10_loop n acc = Inr f \<longleftrightarrow> f = acc * 10 ^ n \<and> (n = 0 \<or> acc * 10 ^ n < u128_lim)"
proof (induction n arbitrary: acc)
  case (Suc n)
  have "acc * 10 < u128_lim" if "acc * (10 * 10 ^ n) < u128_lim"
  proof -
    have "acc * 10 * 1 \<le> acc * 10 * 10 ^ n" by (intro mult_le_mono) auto
    moreover have "acc * 10 * 10 ^ n = acc * (10 * 10 ^ n)" by simp
    ultimately show ?thesis using that by linarith
  qed
  then show ?case using Suc by (auto simp: result_simps mult.assoc)
qed auto

lemma pow10_Inr [result_simps]: "pow10_u128 n = Inr f \<longleftrightarrow> f = 10 ^ n \<and> 10 ^ n < u128_lim"
  by (auto simp: pow10_u128_def pow10_loop_Inr u128_lim_def)

definition decimal_shift :: "nat \<Rightarrow> nat \<Rightarrow> nat \<Rightarrow> nat" where
  "decimal_shift dd cd q = (if dd \<le> cd then q * 10 ^ (cd - dd) else q div 10 ^ (dd - cd))"

definition shift_fits :: "nat \<Rightarrow> nat \<Rightarrow> nat \<Rightarrow> bool" where
  "shift_fits dd cd q =
     ((if dd \<le> cd then 10 ^ (cd - dd) < u128_lim else 10 ^ (dd - cd) < u128_lim) \<and> decimal_shift dd cd q < u128_lim)"

definition required_fp :: "nat \<Rightarrow> nat \<Rightarrow> nat \<Rightarrow> nat \<Rightarrow> nat \<Rightarrow> nat" where
  "required_fp d dp lw cp cw = (d * dp * lw div SCALE) * SCALE div (cp * cw div SCALE)"

lemma decimal_shift_mono: "q \<le> q' \<Longrightarrow> decimal_shift dd cd q \<le> decimal_shift dd cd q'"
  by (simp add: decimal_shift_def div_le_mono)

lemma required_Inr:
  assumes "d < u64_lim" "dp < u128_lim" "cp < u128_lim" "lw < u128_lim" "cw < u128_lim"
    and "0 < dp" "0 < cp" "0 < lw" "0 < cw"
  shows "get_required_quote_collateral_to_back_debt d dp cp lw cw dd cd = Inr r \<longleftrightarrow>
    d * dp < u128_lim \<and> d * dp * lw div SCALE < u128_lim \<and> 0 < cp * cw div SCALE \<and>
    cp * cw div SCALE < u128_lim \<and> required_fp d dp lw cp cw < u128_lim \<and>
    shift_fits dd cd (required_fp d dp lw cp cw) \<and>
    r = min (ceil_div (decimal_shift dd cd (required_fp d dp lw cp cw)) SCALE) (u64_lim - 1)"
    (is "?lhs = Inr r \<longleftrightarrow> ?rhs")
proof -
  have da: "from_atoms d * dp div SCALE = d * dp" "from_atoms d < u128_lim"
    using assms(1) by (auto simp: from_atoms_eq SCALE_def lim_defs)
  have num1: "fp48_checked_mul (from_atoms d) dp = Inr n1 \<longleftrightarrow> n1 = d * dp \<and> d * dp < u128_lim" for n1
    using assms(2) da by (auto simp: fp48_checked_mul_def mul_scale_eq)
  have num2: "fp48_checked_mul n1 lw = Inr n2 \<longleftrightarrow> n2 = n1 * lw div SCALE \<and> n2 < u128_lim" if "n1 < u128_lim" for n1 n2
    using assms(4) that by (auto simp: fp48_checked_mul_def mul_scale_eq)
  have den: "fp48_checked_mul cp cw = Inr n \<longleftrightarrow> n = cp * cw div SCALE \<and> n < u128_lim" for n
    using assms(3,5) by (auto simp: fp48_checked_mul_def mul_scale_eq)
  have dv: "fp48_checked_div n m = Inr q \<longleftrightarrow> 0 < m \<and> q = n * SCALE div m \<and> q < u128_lim" if "n < u128_lim" for n m q
    using that by (auto simp: fp48_checked_div_def div_scale_eq)
  have sh: "(if dd \<le> cd then ebind (pow10_u128 (cd - dd)) (\<lambda>factor. mul_div q factor 1 False)
      else ebind (pow10_u128 (dd - cd)) (\<lambda>factor. mul_div q 1 factor False)) = Inr n \<longleftrightarrow>
      shift_fits dd cd q \<and> n = decimal_shift dd cd q" if "q < u128_lim" for q n
    using that lim_pos(4) by (auto simp: result_simps shift_fits_def decimal_shift_def mul_div_eq Let_def u128_lim_def split: if_splits)
  have cap: "(if u64_lim - 1 < a then Inr (u64_lim - 1) else Inr a) = Inr (min a (u64_lim - 1))" for a
    by simp
  have last: "ebind (from_scaled_ceil n) (\<lambda>atoms. if u64_lim - 1 < atoms then Inr (u64_lim - 1) else Inr atoms) =
      Inr r \<longleftrightarrow> r = min (ceil_div n SCALE) (u64_lim - 1)" if "n < u128_lim" for n
    unfolding from_scaled_ceil_eq[OF that] ebind.simps cap by auto
  have nz: "(cp = 0 \<or> cw = 0 \<or> dp = 0 \<or> lw = 0) = False" using assms(6-9) by simp
  note unf = get_required_quote_collateral_to_back_debt_def fp48_is_zero_def nz if_False
  show ?thesis
  proof
    assume "?lhs = Inr r"
    then obtain n1 n2 n q m where s: "fp48_checked_mul (from_atoms d) dp = Inr n1" "fp48_checked_mul n1 lw = Inr n2"
      "fp48_checked_mul cp cw = Inr n" "fp48_checked_div n2 n = Inr q"
      and sm: "(if dd \<le> cd then ebind (pow10_u128 (cd - dd)) (\<lambda>factor. mul_div q factor 1 False)
        else ebind (pow10_u128 (dd - cd)) (\<lambda>factor. mul_div q 1 factor False)) = Inr m"
      and sr: "ebind (from_scaled_ceil m)
        (\<lambda>atoms. if u64_lim - 1 < atoms then Inr (u64_lim - 1) else Inr atoms) = Inr r"
      unfolding unf ebind_Inr[of "fp48_checked_mul _ _"] ebind_Inr[of "fp48_checked_div _ _"]
        ebind_Inr[of "if dd \<le> cd then _ else _"] by blast
    have 1: "n1 = d * dp" "d * dp < u128_lim" using s(1) num1 by auto
    have 2: "n2 = d * dp * lw div SCALE" "n2 < u128_lim" using s(2) num2 1 by auto
    have 3: "n = cp * cw div SCALE" "n < u128_lim" using s(3) den by auto
    have 4: "0 < n" "q = n2 * SCALE div n" "q < u128_lim" using s(4) dv[OF 2(2)] by auto
    have 5: "shift_fits dd cd q" "m = decimal_shift dd cd q" using sm sh[OF 4(3)] by auto
    have "m < u128_lim" using 5 by (simp add: shift_fits_def)
    then have "r = min (ceil_div m SCALE) (u64_lim - 1)" using sr last by simp
    then show ?rhs using 1 2 3 4 5 by (simp add: required_fp_def)
  next
    assume rhs: ?rhs
    let ?q = "required_fp d dp lw cp cw"
    have q: "fp48_checked_div (d * dp * lw div SCALE) (cp * cw div SCALE) = Inr ?q"
      using dv rhs by (simp add: required_fp_def)
    have n1: "fp48_checked_mul (from_atoms d) dp = Inr (d * dp)" using num1 rhs by simp
    have n2: "fp48_checked_mul (d * dp) lw = Inr (d * dp * lw div SCALE)" using num2 rhs by simp
    have n: "fp48_checked_mul cp cw = Inr (cp * cw div SCALE)" using den rhs by simp
    have m: "(if dd \<le> cd then ebind (pow10_u128 (cd - dd)) (\<lambda>factor. mul_div ?q factor 1 False)
        else ebind (pow10_u128 (dd - cd)) (\<lambda>factor. mul_div ?q 1 factor False)) = Inr (decimal_shift dd cd ?q)"
      using sh rhs by blast
    have l: "ebind (from_scaled_ceil (decimal_shift dd cd ?q))
        (\<lambda>atoms. if u64_lim - 1 < atoms then Inr (u64_lim - 1) else Inr atoms) = Inr r"
      using last rhs unfolding shift_fits_def by blast
    show "?lhs = Inr r" unfolding unf n1 n2 n q m ebind.simps l ..
  qed
qed

lemma required_fp_mono:
  assumes "d' \<le> d" "cw \<le> cw'" "0 < cp * cw div SCALE"
  shows "required_fp d' dp lw cp cw' \<le> required_fp d dp lw cp cw"
proof -
  have "d' * dp * lw div SCALE * SCALE \<le> d * dp * lw div SCALE * SCALE"
    using assms(1) by (intro mult_le_mono div_le_mono) auto
  moreover have "cp * cw div SCALE \<le> cp * cw' div SCALE" using assms(2) by (simp add: div_le_mono)
  ultimately show ?thesis unfolding required_fp_def
    using assms(3) by (meson div_le_mono div_le_mono2 le_trans)
qed

text \<open>More weight or less debt never needs more collateral, nor fails where the original passed.\<close>

lemma required_mono:
  assumes ok: "get_required_quote_collateral_to_back_debt d dp cp lw cw dd cd = Inr r"
    and w: "d < u64_lim" "dp < u128_lim" "cp < 2 ^ 120" "lw < u128_lim" "cw' < 2 ^ 52"
    and pos: "0 < dp" "0 < cp" "0 < lw" "0 < cw" and le: "d' \<le> d" "cw \<le> cw'"
  shows "\<exists>r'. get_required_quote_collateral_to_back_debt d' dp cp lw cw' dd cd = Inr r' \<and> r' \<le> r"
proof -
  have w': "d' < u64_lim" "cw < u128_lim" "cw' < u128_lim" "cp < u128_lim" "0 < cw'"
    using w le pos by (auto simp: lim_defs)
  note r = ok[unfolded required_Inr[OF w(1,2) w'(4) w(4) w'(2) pos]]
  have fp: "required_fp d' dp lw cp cw' \<le> required_fp d dp lw cp cw"
    using required_fp_mono[OF le] r by simp
  have "d' * dp * lw div SCALE \<le> d * dp * lw div SCALE" using le by (intro div_le_mono mult_le_mono) auto
  moreover have "d' * dp < u128_lim" using le r by (meson le_less_trans mult_le_mono1)
  moreover have "cp * cw div SCALE \<le> cp * cw' div SCALE" using le by (simp add: div_le_mono)
  moreover have "cp * cw' div SCALE < u128_lim"
  proof -
    have "cp * cw' \<le> 2 ^ 120 * 2 ^ 52" using w by (intro mult_le_mono) auto
    then have "cp * cw' div SCALE \<le> 2 ^ 120 * 2 ^ 52 div SCALE" by (rule div_le_mono)
    also have "\<dots> < u128_lim" unfolding SCALE_def lim_defs by simp
    finally show ?thesis .
  qed
  moreover note sh = decimal_shift_mono[OF fp, of dd cd]
  moreover have "shift_fits dd cd (required_fp d' dp lw cp cw')"
    using r sh unfolding shift_fits_def by linarith
  ultimately have "get_required_quote_collateral_to_back_debt d' dp cp lw cw' dd cd =
      Inr (min (ceil_div (decimal_shift dd cd (required_fp d' dp lw cp cw')) SCALE) (u64_lim - 1))"
    unfolding required_Inr[OF w'(1) w(2) w'(4) w(4) w'(3) pos(1-3) w'(5)] using r fp by auto
  moreover have "min (ceil_div (decimal_shift dd cd (required_fp d' dp lw cp cw')) SCALE) (u64_lim - 1) \<le> r"
    using r ceil_div_mono[OF sh, of SCALE] by auto
  ultimately show ?thesis by blast
qed

definition cap_weight :: "nat \<Rightarrow> nat" where
  "cap_weight bps = bps * SCALE div 10000"

lemma required_at_cap_eq:
  "bps < u16_lim \<Longrightarrow> required_collateral_at_ltv_cap d dp cp bps dd cd =
     get_required_quote_collateral_to_back_debt d dp cp SCALE (cap_weight bps) dd cd"
proof -
  assume "bps < u16_lim"
  then have "bps * SCALE < u128_lim" by (simp add: lim_defs SCALE_def)
  then show ?thesis
    by (simp add: required_collateral_at_ltv_cap_def to_scaled_eq cap_weight_def fp48_ONE_def)
qed

lemma cap_weight_mono: "a \<le> b \<Longrightarrow> cap_weight a \<le> cap_weight b"
  by (simp add: cap_weight_def div_le_mono)

lemma cap_weight_pos: "0 < bps \<Longrightarrow> 0 < cap_weight bps"
proof -
  assume "0 < bps"
  then have "10000 \<le> bps * SCALE" by (simp add: SCALE_def)
  then show ?thesis unfolding cap_weight_def by (simp add: div_greater_zero_iff)
qed

lemma cap_weight_bound: "bps < u16_lim \<Longrightarrow> cap_weight bps < 2 ^ 52"
  by (simp add: cap_weight_def SCALE_def lim_defs div_less_iff_less_mult)

lemma required_fails_closed:
  "dp = 0 \<or> cp = 0 \<or> cw = 0 \<Longrightarrow>
   get_required_quote_collateral_to_back_debt d dp cp lw cw dd cd = Inr (u64_lim - 1)"
  by (auto simp: get_required_quote_collateral_to_back_debt_def fp48_is_zero_def)

lemma zero_cap_fails_closed:
  "required_collateral_at_ltv_cap d dp cp 0 dd cd = Inr (u64_lim - 1)"
  by (simp add: required_at_cap_eq cap_weight_def required_fails_closed)

lemma effective_cap_le: "effective_origination_cap_bps m b \<le> m"
  by (simp add: effective_origination_cap_bps_def)

section \<open>Properties\<close>

text \<open>C9. No loan is born liquidatable: when the collateral passes the origination gate at the
  sub-vault cap reduced by the borrower's buffer, the liquidation gate at any stamped threshold
  that is not below the sub-vault cap rejects the loan as still solvent at the same prices, for
  the same debt or less.\<close>

theorem not_born_liquidatable:
  assumes gate: "required_collateral_at_ltv_cap debt dp cp (effective_origination_cap_bps max_ltv buffer) dd cd
      = Inr req" "req \<le> collateral"
    and w: "debt < u64_lim" "dp < u128_lim" "cp < 2 ^ 120" "liq < u16_lim"
    and pos: "0 < dp" "0 < cp" "buffer < max_ltv" and le: "max_ltv \<le> liq"
    and now: "0 < outstanding" "outstanding \<le> debt" "0 < collateral"
    and rd: "rd_debt_price rd = Inr dp" "rd_collateral_price rd = Inr cp"
  shows "assert_ltv_breach Fixed liq outstanding collateral rd dd cd = Inl (Custom LoanStillSolvent)"
proof -
  let ?cap = "effective_origination_cap_bps max_ltv buffer"
  have cap: "0 < ?cap" "?cap \<le> liq" "?cap < u16_lim"
    using pos le w(4) effective_cap_le[of max_ltv buffer] by (auto simp: effective_origination_cap_bps_def)
  have "\<exists>r'. get_required_quote_collateral_to_back_debt outstanding dp cp SCALE (cap_weight liq) dd cd = Inr r' \<and> r' \<le> req"
    using gate(1) cap w pos now(2) cap_weight_bound[OF w(4)]
    by (intro required_mono[of debt _ _ _ "cap_weight ?cap"])
       (auto simp: required_at_cap_eq cap_weight_mono cap_weight_pos SCALE_def lim_defs)
  then obtain r' where "required_collateral_at_ltv_cap outstanding dp cp liq dd cd = Inr r'" "r' \<le> req"
    using w(4) by (auto simp: required_at_cap_eq)
  then show ?thesis using now rd pos cap gate(2)
    by (simp add: assert_ltv_breach_def fp48_is_zero_def require_def)
qed

definition example_readings :: ltv_readings where
  "example_readings = \<lparr> rd_debt_price = Inr SCALE, rd_collateral_price = Inr (2 * SCALE),
     rd_debt_liability_weight_maint = Inr SCALE, rd_collateral_asset_weight_maint = Inr SCALE \<rparr>"

lemmas ltv_eval = required_collateral_at_ltv_cap_def to_scaled_eq get_required_quote_collateral_to_back_debt_def
  effective_origination_cap_bps_def fp48_is_zero_def fp48_ONE_def from_atoms_eq fp48_checked_mul_def mul_scale_eq
  fp48_checked_div_def div_scale_eq pow10_u128_def mul_div_eq from_scaled_ceil_eq ceil_div_def SCALE_def lim_defs
  Let_def

theorem not_born_liquidatable_witness:
  "required_collateral_at_ltv_cap 1000 SCALE (2 * SCALE) (effective_origination_cap_bps 8000 500) 6 6 = Inr 667 \<and>
   assert_ltv_breach Fixed 8200 1000 667 example_readings 6 6 = Inl (Custom LoanStillSolvent)"
proof -
  have "required_collateral_at_ltv_cap 1000 SCALE (2 * SCALE) (effective_origination_cap_bps 8000 500) 6 6 = Inr 667"
    by (simp add: ltv_eval)
  then show ?thesis
    using not_born_liquidatable[of 1000 SCALE "2 * SCALE" 8000 500 6 6 667 667 8200 1000 example_readings]
    by (simp add: example_readings_def SCALE_def lim_defs)
qed

text \<open>Undoing the change of decimals costs at most one unit of the finer scale.\<close>

lemma decimal_shift_bound:
  assumes "decimal_shift dd cd q \<le> n"
  shows "(q + 1) * 10 ^ cd \<le> (n + 10 ^ (cd - dd)) * 10 ^ dd"
proof (cases "dd \<le> cd")
  case True
  then have "q * 10 ^ (cd - dd) + 10 ^ (cd - dd) \<le> n + 10 ^ (cd - dd)" using assms by (simp add: decimal_shift_def)
  then have "(q + 1) * 10 ^ (cd - dd) * 10 ^ dd \<le> (n + 10 ^ (cd - dd)) * 10 ^ dd" by (intro mult_le_mono1) (simp add: algebra_simps)
  moreover have "(10 :: nat) ^ (cd - dd) * 10 ^ dd = 10 ^ cd" using True by (simp flip: power_add)
  ultimately show ?thesis by (simp only: mult.assoc)
next
  case False
  then have "q div 10 ^ (dd - cd) < n + 1" using assms by (simp add: decimal_shift_def)
  then have "q < (n + 1) * 10 ^ (dd - cd)" by (simp only: div_less_iff_less_mult zero_less_power zero_less_numeral)
  then have "(q + 1) * 10 ^ cd \<le> (n + 1) * 10 ^ (dd - cd) * 10 ^ cd" by (intro mult_le_mono1) simp
  moreover have e: "(10 :: nat) ^ (dd - cd) * 10 ^ cd = 10 ^ dd" using False by (simp flip: power_add)
  moreover have "(n + 1) * 10 ^ (dd - cd) * 10 ^ cd = (n + 1) * 10 ^ dd" by (simp only: mult.assoc e)
  moreover have "cd - dd = 0" using False by simp
  ultimately show ?thesis by simp
qed

text \<open>C13. What passing a cap means, for mints of any decimals: in a common unit, the value of the debt is at most the
  cap's share of the value of the collateral, up to one unit of the last fixed-point place of one atom of the
  finer mint.\<close>

theorem ltv_cap_sound:
  assumes "required_collateral_at_ltv_cap debt dp cp bps dd cd = Inr req"
    and w: "debt < u64_lim" "dp < u128_lim" "cp < u128_lim" "bps < u16_lim"
    and pos: "0 < dp" "0 < cp" "0 < bps"
    and coll: "req \<le> collateral" "collateral < u64_lim - 1"
  shows "debt * dp * SCALE * 10 ^ cd * 10000 < (collateral * SCALE + 10 ^ (cd - dd)) * 10 ^ dd * (cp * bps)"
proof -
  let ?w = "cap_weight bps" and ?q = "required_fp debt dp SCALE cp (cap_weight bps)"
  let ?den = "cp * ?w div SCALE" and ?C = "(collateral * SCALE + 10 ^ (cd - dd)) * 10 ^ dd"
  have cw: "?w < u128_lim" "0 < ?w" using cap_weight_bound[OF w(4)] cap_weight_pos[OF pos(3)] by (auto simp: lim_defs)
  have ok: "get_required_quote_collateral_to_back_debt debt dp cp SCALE ?w dd cd = Inr req"
    using assms(1) w(4) by (simp add: required_at_cap_eq)
  have S: "SCALE < u128_lim" by (simp add: SCALE_def lim_defs)
  have r: "0 < ?den" "req = min (ceil_div (decimal_shift dd cd ?q) SCALE) (u64_lim - 1)"
    using ok unfolding required_Inr[OF w(1-3) S cw(1) pos(1,2) SCALE_pos cw(2)] by blast+
  have "ceil_div (decimal_shift dd cd ?q) SCALE \<le> collateral" using r(2) coll by linarith
  then have "decimal_shift dd cd ?q \<le> collateral * SCALE" by (simp add: ceil_div_le_iff)
  note up = decimal_shift_bound[OF this]
  have "debt * dp * SCALE < (?q + 1) * ?den"
    unfolding div_less_iff_less_mult[OF r(1), symmetric] by (simp add: required_fp_def)
  then have "debt * dp * SCALE * 10 ^ cd < (?q + 1) * ?den * 10 ^ cd" by simp
  also have "\<dots> \<le> ?C * ?den" using mult_le_mono1[OF up, of ?den] by (simp only: ac_simps)
  finally have "debt * dp * SCALE * 10 ^ cd * 10000 < ?C * ?den * 10000" by simp
  also have "\<dots> = ?C * (?den * 10000)" by (simp only: mult.assoc)
  also have "\<dots> \<le> ?C * (cp * bps)"
  proof (rule mult_le_mono2)
    have "?den * SCALE \<le> cp * ?w" by (rule div_times_less_eq_dividend)
    then have "?den * SCALE * 10000 \<le> cp * (?w * 10000)" by (simp only: mult.assoc[symmetric] mult_le_mono1)
    also have "\<dots> \<le> cp * (bps * SCALE)"
      unfolding cap_weight_def by (intro mult_le_mono2 div_times_less_eq_dividend)
    finally have "(?den * 10000) * SCALE \<le> (cp * bps) * SCALE" by (simp only: ac_simps)
    then show "?den * 10000 \<le> cp * bps" by simp
  qed
  finally show ?thesis .
qed

theorem ltv_cap_sound_witness:
  "required_collateral_at_ltv_cap 1000000 SCALE (2 * SCALE) 7500 9 6 = Inr 667 \<and>
   1000000 * SCALE * SCALE * 10 ^ 6 * 10000 < (667 * SCALE + 10 ^ (6 - 9)) * 10 ^ 9 * (2 * SCALE * 7500)"
proof -
  have "pow10_loop 3 (Suc 0) = Inr 1000" using pow10_Inr[of 3 1000] by (simp add: pow10_u128_def lim_defs)
  then have r: "required_collateral_at_ltv_cap 1000000 SCALE (2 * SCALE) 7500 9 6 = Inr 667" by (simp add: ltv_eval)
  show ?thesis by (rule conjI[OF r ltv_cap_sound[OF r]]) (simp_all add: SCALE_def lim_defs)
qed

text \<open>C14. A degenerate reading never liquidates: whenever the liquidation gate accepts, both prices
  are non-zero, debt and collateral are positive and, for a fixed loan, a threshold is stamped.\<close>

theorem breach_needs_sound_readings:
  assumes "assert_ltv_breach ty liq outstanding collateral rd dd cd = Inr ()"
  shows "\<exists>dp cp. rd_debt_price rd = Inr dp \<and> rd_collateral_price rd = Inr cp \<and> 0 < dp \<and> 0 < cp \<and>
    0 < outstanding \<and> 0 < collateral \<and> (ty = Fixed \<longrightarrow> 0 < liq)"
  using assms
  by (cases ty) (auto simp: assert_ltv_breach_def result_simps fp48_is_zero_def)

theorem breach_needs_sound_readings_witness:
  "assert_ltv_breach Fixed 8200 1000 500 example_readings 6 6 = Inr () \<and> (0::nat) < 8200"
proof -
  have ok: "assert_ltv_breach Fixed 8200 1000 500 example_readings 6 6 = Inr ()"
    by (simp add: assert_ltv_breach_def example_readings_def require_def ltv_eval)
  then show ?thesis using breach_needs_sound_readings[OF ok] by auto
qed

end
