(* ===== verification/Sub_Vault.thy ===== *)
theory Sub_Vault
  imports Hypertree Loan
begin

text \<open>The global vault of \<open>state/vault.rs\<close>: its header, the sub-vaults with their accounting, the
  depositor seats and the references to resting asks, the two block allocators, and the accrual
  of a sub-vault. Tree roots and free-list heads of the header are represented by the trees and
  the free lists themselves.\<close>

definition SUB_VAULT_BLOCK_SIZE :: nat where "SUB_VAULT_BLOCK_SIZE = 512"
definition VAULT_NODE_BLOCK_SIZE :: nat where "VAULT_NODE_BLOCK_SIZE = 160"
definition MAX_CURATOR_FEE_BPS :: nat where "MAX_CURATOR_FEE_BPS = 2000"
definition MIN_LIQ_GAP_BPS :: nat where "MIN_LIQ_GAP_BPS = 200"
definition GLOBAL_VAULT_FIXED_DISCRIMINANT :: nat where
  "GLOBAL_VAULT_FIXED_DISCRIMINANT = 0x7964656C74615661"

record sub_vault =
  sv_sub_vault_id :: nat
  sv_is_sunset :: nat
  sv_kind :: nat
  sv_spread_bps :: nat
  sv_curator :: pubkey
  sv_max_ltv_bps :: nat
  sv_liquidation_ltv_bps :: nat
  sv_max_term_seconds :: nat
  sv_curator_fee_bps :: nat
  sv_open_orders_count :: nat
  sv_open_loans_count :: nat
  sv_total_shares :: nat
  sv_total_assets_atoms :: nat
  sv_total_principal_atoms :: nat
  sv_deployed_principal_atoms :: nat
  sv_encumbered_in_orders_atoms :: nat
  sv_total_weighted_rate_bps :: nat
  sv_accumulated_curator_fee_atoms :: nat
  sv_last_accrue_unix :: int
  sv_cumulative_supply_yield_index_scaled :: nat
  sv_cumulative_delta_yield_index_scaled :: nat
  sv_last_supply_share_value_fp48 :: fp48
  sv_pending_curator :: pubkey
  sv_total_weighted_net_rate_bps :: nat
  sv_pending_claim_atoms :: nat

definition sv_is_empty :: "sub_vault \<Rightarrow> bool" where
  "sv_is_empty s =
     (sv_total_shares s = 0 \<and> sv_total_assets_atoms s = 0 \<and> sv_total_principal_atoms s = 0 \<and>
      sv_deployed_principal_atoms s = 0 \<and> sv_encumbered_in_orders_atoms s = 0 \<and>
      sv_accumulated_curator_fee_atoms s = 0 \<and> sv_pending_claim_atoms s = 0 \<and>
      sv_open_orders_count s = 0 \<and> sv_open_loans_count s = 0)"

definition sv_new_empty :: "nat \<Rightarrow> pubkey \<Rightarrow> nat \<Rightarrow> nat \<Rightarrow> sub_vault" where
  "sv_new_empty sub_vault_id curator max_ltv_bps max_term_seconds =
     \<lparr> sv_sub_vault_id = sub_vault_id, sv_is_sunset = 0, sv_kind = 0, sv_spread_bps = 0,
       sv_curator = curator, sv_max_ltv_bps = max_ltv_bps, sv_liquidation_ltv_bps = 0,
       sv_max_term_seconds = max_term_seconds, sv_curator_fee_bps = 0, sv_open_orders_count = 0,
       sv_open_loans_count = 0, sv_total_shares = 0, sv_total_assets_atoms = 0,
       sv_total_principal_atoms = 0, sv_deployed_principal_atoms = 0,
       sv_encumbered_in_orders_atoms = 0, sv_total_weighted_rate_bps = 0,
       sv_accumulated_curator_fee_atoms = 0, sv_last_accrue_unix = 0,
       sv_cumulative_supply_yield_index_scaled = 0, sv_cumulative_delta_yield_index_scaled = 0,
       sv_last_supply_share_value_fp48 = fp48_ZERO, sv_pending_curator = default_pubkey,
       sv_total_weighted_net_rate_bps = 0, sv_pending_claim_atoms = 0 \<rparr>"

definition sub_vault_cmp :: "sub_vault \<Rightarrow> sub_vault \<Rightarrow> ordering" where
  "sub_vault_cmp a b = cmp_nat (sv_sub_vault_id a) (sv_sub_vault_id b)"

record depositor_seat =
  ds_owner :: pubkey
  ds_sub_vault_id :: nat
  ds_shares :: nat
  ds_snapshot_supply_yield_index_scaled :: nat
  ds_snapshot_delta_yield_index_scaled :: nat
  ds_last_updated_unix :: int

definition ds_probe :: "pubkey \<Rightarrow> nat \<Rightarrow> depositor_seat" where
  "ds_probe owner sub_vault_id =
     \<lparr> ds_owner = owner, ds_sub_vault_id = sub_vault_id, ds_shares = 0,
       ds_snapshot_supply_yield_index_scaled = 0, ds_snapshot_delta_yield_index_scaled = 0,
       ds_last_updated_unix = 0 \<rparr>"

definition depositor_seat_cmp :: "depositor_seat \<Rightarrow> depositor_seat \<Rightarrow> ordering" where
  "depositor_seat_cmp a b =
     then_cmp (cmp_nat (ds_owner a) (ds_owner b)) (cmp_nat (ds_sub_vault_id a) (ds_sub_vault_id b))"

record order_ref =
  or_market :: pubkey
  or_sub_vault_id :: nat
  or_side :: nat
  or_rate_bps :: nat
  or_term_seconds :: nat
  or_order_sequence_in_market :: nat
  or_placed_at_unix :: int

definition or_probe :: "pubkey \<Rightarrow> nat \<Rightarrow> order_ref" where
  "or_probe market sub_vault_id =
     \<lparr> or_market = market, or_sub_vault_id = sub_vault_id, or_side = 0, or_rate_bps = 0,
       or_term_seconds = 0, or_order_sequence_in_market = 0, or_placed_at_unix = 0 \<rparr>"

definition order_ref_cmp :: "order_ref \<Rightarrow> order_ref \<Rightarrow> ordering" where
  "order_ref_cmp a b =
     then_cmp (cmp_nat (or_market a) (or_market b)) (cmp_nat (or_sub_vault_id a) (or_sub_vault_id b))"

record global_vault =
  gv_discriminator :: nat
  gv_mint :: pubkey
  gv_global_vault_admin :: pubkey
  gv_integration_pool :: pubkey
  gv_integration_account :: pubkey
  gv_global_vault_signer :: pubkey
  gv_lending_pool :: pubkey
  gv_num_bytes_allocated :: nat
  gv_sub_vault_count :: nat
  gv_global_vault_signer_bump :: nat
  gv_version :: nat
  gv_claimed_seat_count :: nat
  gv_open_order_count :: nat
  gv_pending_global_vault_admin :: pubkey
  gv_is_paused :: nat
  gv_next_sub_vault_id :: nat
  gv_sub_vaults :: "sub_vault tree"
  gv_claimed_seats :: "depositor_seat tree"
  gv_market_orders :: "order_ref tree"
  gv_sub_vault_free_list :: "data_index list"
  gv_node_free_list :: "data_index list"

definition gv_new_empty :: "pubkey \<Rightarrow> pubkey \<Rightarrow> pubkey \<Rightarrow> pubkey \<Rightarrow> pubkey \<Rightarrow> nat \<Rightarrow> pubkey \<Rightarrow> global_vault" where
  "gv_new_empty mint global_vault_admin integration_pool integration_account global_vault_signer
     global_vault_signer_bump lending_pool =
     \<lparr> gv_discriminator = GLOBAL_VAULT_FIXED_DISCRIMINANT, gv_mint = mint,
       gv_global_vault_admin = global_vault_admin, gv_integration_pool = integration_pool,
       gv_integration_account = integration_account, gv_global_vault_signer = global_vault_signer,
       gv_lending_pool = lending_pool, gv_num_bytes_allocated = 0, gv_sub_vault_count = 0,
       gv_global_vault_signer_bump = global_vault_signer_bump, gv_version = ACCOUNT_LAYOUT_VERSION,
       gv_claimed_seat_count = 0, gv_open_order_count = 0,
       gv_pending_global_vault_admin = default_pubkey, gv_is_paused = 0, gv_next_sub_vault_id = 1,
       gv_sub_vaults = [], gv_claimed_seats = [], gv_market_orders = [],
       gv_sub_vault_free_list = [], gv_node_free_list = [] \<rparr>"

definition gv_paused :: "global_vault \<Rightarrow> bool" where
  "gv_paused v = (gv_is_paused v \<noteq> 0)"

definition has_free_sub_vault_block :: "global_vault \<Rightarrow> bool" where
  "has_free_sub_vault_block v = (gv_sub_vault_free_list v \<noteq> [])"

definition has_free_node_block :: "global_vault \<Rightarrow> bool" where
  "has_free_node_block v = (gv_node_free_list v \<noteq> [])"

section \<open>Accrual of a sub-vault\<close>

definition ACCRUE_INDEX_SCALE :: nat where "ACCRUE_INDEX_SCALE = 2 ^ 48"

definition restore_assets_principal_invariant :: "sub_vault \<Rightarrow> sub_vault" where
  "restore_assets_principal_invariant s =
     (if sv_total_assets_atoms s < sv_total_principal_atoms s
      then s\<lparr>sv_total_assets_atoms := sv_total_principal_atoms s\<rparr> else s)"

definition accrue_idle_delta :: "sub_vault \<Rightarrow> fp48 \<Rightarrow> int res" where
  "accrue_idle_delta s current_share_value =
     ebind (ok_or (checked_sub (sv_total_principal_atoms s) (sv_deployed_principal_atoms s)) ArithmeticOverflow) (\<lambda>i.
     ebind (ok_or (checked_sub i (sv_pending_claim_atoms s)) ArithmeticOverflow) (\<lambda>idle.
     if 0 < idle \<and> \<not> fp48_is_zero current_share_value then
       let snapshot = sv_last_supply_share_value_fp48 s in
       if fp48_is_zero snapshot then Inr 0
       else
         ebind (mul_div idle current_share_value snapshot False) (\<lambda>current_idle_value.
         if u64_lim - 1 < current_idle_value then Inl (Custom MathOverflow)
         else Inr (int current_idle_value - int idle))
     else Inr 0))"

definition accrue_assets :: "sub_vault \<Rightarrow> int \<Rightarrow> nat \<Rightarrow> sub_vault res" where
  "accrue_assets s idle_delta_atoms loan_yield_atoms =
     ebind (if 0 \<le> idle_delta_atoms then
              ebind (ok_or (narrow u64_lim (nat idle_delta_atoms)) (Custom MathOverflow)) (\<lambda>idle_gain.
              ebind (ok_or (checked_add u64_lim (sv_total_assets_atoms s) idle_gain) ArithmeticOverflow) (\<lambda>ta.
              ebind (ok_or (checked_add u64_lim (sv_total_principal_atoms s) idle_gain) ArithmeticOverflow) (\<lambda>tp.
              Inr (s\<lparr>sv_total_assets_atoms := ta, sv_total_principal_atoms := tp\<rparr>))))
            else
              ebind (ok_or (narrow u64_lim (nat (- idle_delta_atoms))) (Custom MathOverflow)) (\<lambda>idle_loss.
              Inr (s\<lparr>sv_total_assets_atoms := saturating_sub (sv_total_assets_atoms s) idle_loss,
                     sv_total_principal_atoms := saturating_sub (sv_total_principal_atoms s) idle_loss\<rparr>))) (\<lambda>s1.
     if u64_lim - 1 < loan_yield_atoms then Inl (Custom MathOverflow)
     else
       ebind (ok_or (checked_add u64_lim (sv_total_assets_atoms s1) loan_yield_atoms) ArithmeticOverflow) (\<lambda>ta.
       Inr (s1\<lparr>sv_total_assets_atoms := ta\<rparr>)))"

definition accrue_indices :: "sub_vault \<Rightarrow> int \<Rightarrow> nat \<Rightarrow> sub_vault res" where
  "accrue_indices s idle_delta_atoms loan_yield_atoms =
     (if 0 < sv_total_shares s then
        ebind (if 0 < idle_delta_atoms then
                 ebind (mul_div (nat idle_delta_atoms) ACCRUE_INDEX_SCALE (sv_total_shares s) False) (\<lambda>supply_growth.
                 ebind (ok_or (checked_add u128_lim (sv_cumulative_supply_yield_index_scaled s) supply_growth)
                          ArithmeticOverflow) (\<lambda>si.
                 Inr (s\<lparr>sv_cumulative_supply_yield_index_scaled := si\<rparr>)))
               else Inr s) (\<lambda>s1.
        ebind (mul_div loan_yield_atoms ACCRUE_INDEX_SCALE (sv_total_shares s1) False) (\<lambda>delta_growth.
        ebind (ok_or (checked_add u128_lim (sv_cumulative_delta_yield_index_scaled s1) delta_growth)
                 ArithmeticOverflow) (\<lambda>di.
        Inr (s1\<lparr>sv_cumulative_delta_yield_index_scaled := di\<rparr>))))
      else Inr s)"

definition accrue_sub_vault :: "sub_vault \<Rightarrow> int \<Rightarrow> fp48 \<Rightarrow> sub_vault res" where
  "accrue_sub_vault s now current_share_value =
     (if now \<le> sv_last_accrue_unix s then Inr s
      else if sv_total_principal_atoms s = 0 then
        Inr (let s1 = s\<lparr>sv_last_accrue_unix := now\<rparr> in
             if fp48_is_zero current_share_value then s1
             else s1\<lparr>sv_last_supply_share_value_fp48 := current_share_value\<rparr>)
      else
        ebind (case i64_checked_sub now (sv_last_accrue_unix s) of
                 Some d \<Rightarrow> if 0 \<le> d then Inr (nat d) else Inl ArithmeticOverflow
               | None \<Rightarrow> Inl ArithmeticOverflow) (\<lambda>elapsed.
        ebind (ok_or (checked_mul u128_lim BPS_PER_UNIT SECONDS_PER_YEAR) ArithmeticOverflow) (\<lambda>denom.
        ebind (accrue_idle_delta s current_share_value) (\<lambda>idle_delta_atoms.
        ebind (mul_div (sv_total_weighted_net_rate_bps s) elapsed denom False) (\<lambda>loan_yield_atoms.
        ebind (accrue_assets s idle_delta_atoms loan_yield_atoms) (\<lambda>s1.
        ebind (accrue_indices s1 idle_delta_atoms loan_yield_atoms) (\<lambda>s2.
        let s3 = s2\<lparr>sv_last_accrue_unix := now\<rparr>;
            s4 = (if fp48_is_zero current_share_value then s3
                  else s3\<lparr>sv_last_supply_share_value_fp48 := current_share_value\<rparr>)
        in Inr (restore_assets_principal_invariant s4))))))))"

section \<open>Blocks\<close>

definition get_free_sub_vault_address_on_vault_fixed :: "global_vault \<Rightarrow> data_index \<times> global_vault" where
  "get_free_sub_vault_address_on_vault_fixed v =
     (let (i, fl) = stack_remove (gv_sub_vault_free_list v) in (i, v\<lparr>gv_sub_vault_free_list := fl\<rparr>))"

definition release_sub_vault_address_on_vault_fixed :: "global_vault \<Rightarrow> data_index \<Rightarrow> global_vault" where
  "release_sub_vault_address_on_vault_fixed v index =
     v\<lparr>gv_sub_vault_free_list := stack_add index (gv_sub_vault_free_list v)\<rparr>"

definition get_free_node_address_on_vault_fixed :: "global_vault \<Rightarrow> data_index \<times> global_vault" where
  "get_free_node_address_on_vault_fixed v =
     (let (i, fl) = stack_remove (gv_node_free_list v) in (i, v\<lparr>gv_node_free_list := fl\<rparr>))"

definition release_node_address_on_vault_fixed :: "global_vault \<Rightarrow> data_index \<Rightarrow> global_vault" where
  "release_node_address_on_vault_fixed v index =
     v\<lparr>gv_node_free_list := stack_add index (gv_node_free_list v)\<rparr>"

definition vault_expand_sub_vault_block :: "global_vault \<Rightarrow> global_vault res" where
  "vault_expand_sub_vault_block v =
     ebind (ok_or (checked_add u32_lim (gv_num_bytes_allocated v) SUB_VAULT_BLOCK_SIZE) ArithmeticOverflow) (\<lambda>n.
     Inr (v\<lparr>gv_sub_vault_free_list := stack_add (gv_num_bytes_allocated v) (gv_sub_vault_free_list v),
            gv_num_bytes_allocated := n\<rparr>))"

definition vault_expand_node_block :: "global_vault \<Rightarrow> global_vault res" where
  "vault_expand_node_block v =
     ebind (ok_or (checked_add u32_lim (gv_num_bytes_allocated v) VAULT_NODE_BLOCK_SIZE) ArithmeticOverflow) (\<lambda>n.
     Inr (v\<lparr>gv_node_free_list := stack_add (gv_num_bytes_allocated v) (gv_node_free_list v),
            gv_num_bytes_allocated := n\<rparr>))"

section \<open>Nodes\<close>

definition sub_vault_index :: "global_vault \<Rightarrow> nat \<Rightarrow> data_index" where
  "sub_vault_index v sub_vault_id =
     tree_lookup sub_vault_cmp (sv_new_empty sub_vault_id default_pubkey 1 1) (gv_sub_vaults v)"

text \<open>Access to a node by index: an index that holds no node of the tree aborts.\<close>

definition get_sub_vault :: "global_vault \<Rightarrow> data_index \<Rightarrow> sub_vault res" where
  "get_sub_vault v index = ok_or (tree_get (gv_sub_vaults v) index) Panic"

definition set_sub_vault :: "global_vault \<Rightarrow> data_index \<Rightarrow> sub_vault \<Rightarrow> global_vault" where
  "set_sub_vault v index s = v\<lparr>gv_sub_vaults := tree_update index (\<lambda>_. s) (gv_sub_vaults v)\<rparr>"

definition upsert_sub_vault_depositor_seat :: "global_vault \<Rightarrow> pubkey \<Rightarrow> nat \<Rightarrow> (global_vault \<times> data_index) res" where
  "upsert_sub_vault_depositor_seat v owner sub_vault_id =
     (let probe = ds_probe owner sub_vault_id;
          existing_idx = tree_lookup depositor_seat_cmp probe (gv_claimed_seats v) in
      if existing_idx \<noteq> NIL then Inr (v, existing_idx)
      else
        let (order_index, v1) = get_free_node_address_on_vault_fixed v in
        ebind (require (order_index \<noteq> NIL) AccountDataTooSmall) (\<lambda>_.
        let v2 = v1\<lparr>gv_claimed_seats := tree_insert depositor_seat_cmp order_index probe (gv_claimed_seats v1)\<rparr> in
        ebind (ok_or (checked_add u32_lim (gv_claimed_seat_count v2) 1) ArithmeticOverflow) (\<lambda>n.
        Inr (v2\<lparr>gv_claimed_seat_count := n\<rparr>, order_index))))"

definition remove_sub_vault_depositor_seat :: "global_vault \<Rightarrow> pubkey \<Rightarrow> nat \<Rightarrow> (global_vault \<times> data_index) res" where
  "remove_sub_vault_depositor_seat v owner sub_vault_id =
     (let probe = ds_probe owner sub_vault_id;
          existing_idx = tree_lookup depositor_seat_cmp probe (gv_claimed_seats v) in
      if existing_idx = NIL then Inr (v, NIL)
      else
        let v1 = v\<lparr>gv_claimed_seats := tree_remove existing_idx (gv_claimed_seats v)\<rparr> in
        ebind (ok_or (checked_sub (gv_claimed_seat_count v1) 1) ArithmeticOverflow) (\<lambda>n.
        Inr (release_node_address_on_vault_fixed (v1\<lparr>gv_claimed_seat_count := n\<rparr>) existing_idx, existing_idx)))"

definition bump_sub_vault_order_count :: "global_vault \<Rightarrow> nat \<Rightarrow> int \<Rightarrow> global_vault res" where
  "bump_sub_vault_order_count v sub_vault_id delta =
     (let idx = sub_vault_index v sub_vault_id in
      ebind (require (idx \<noteq> NIL) (Custom SubVaultNotFound)) (\<lambda>_.
      ebind (get_sub_vault v idx) (\<lambda>s.
      ebind (if 0 \<le> delta
             then ok_or (checked_add u16_lim (sv_open_orders_count s) (nat delta mod u16_lim)) ArithmeticOverflow
             else ok_or (checked_sub (sv_open_orders_count s) (nat (- delta) mod u16_lim)) ArithmeticOverflow) (\<lambda>c.
      Inr (set_sub_vault v idx (s\<lparr>sv_open_orders_count := c\<rparr>))))))"

definition insert_sub_vault_order_ref ::
  "global_vault \<Rightarrow> pubkey \<Rightarrow> nat \<Rightarrow> nat \<Rightarrow> nat \<Rightarrow> nat \<Rightarrow> nat \<Rightarrow> int \<Rightarrow> (global_vault \<times> data_index) res" where
  "insert_sub_vault_order_ref v market sub_vault_id side rate_bps term_seconds
     order_sequence_in_market placed_at_unix =
     (let existing_idx = tree_lookup order_ref_cmp (or_probe market sub_vault_id) (gv_market_orders v) in
      ebind (require (existing_idx = NIL) (Custom SubVaultOrderExists)) (\<lambda>_.
      let (order_index, v1) = get_free_node_address_on_vault_fixed v in
      ebind (require (order_index \<noteq> NIL) AccountDataTooSmall) (\<lambda>_.
      let order = \<lparr> or_market = market, or_sub_vault_id = sub_vault_id, or_side = side,
                    or_rate_bps = rate_bps, or_term_seconds = term_seconds,
                    or_order_sequence_in_market = order_sequence_in_market,
                    or_placed_at_unix = placed_at_unix \<rparr>;
          v2 = v1\<lparr>gv_market_orders := tree_insert order_ref_cmp order_index order (gv_market_orders v1)\<rparr> in
      ebind (ok_or (checked_add u32_lim (gv_open_order_count v2) 1) ArithmeticOverflow) (\<lambda>n.
      ebind (bump_sub_vault_order_count (v2\<lparr>gv_open_order_count := n\<rparr>) sub_vault_id 1) (\<lambda>v3.
      Inr (v3, order_index))))))"

definition remove_sub_vault :: "global_vault \<Rightarrow> nat \<Rightarrow> (global_vault \<times> data_index) res" where
  "remove_sub_vault v sub_vault_id =
     (let idx = sub_vault_index v sub_vault_id in
      if idx = NIL then Inr (v, NIL)
      else
        ebind (get_sub_vault v idx) (\<lambda>s.
        ebind (require (sv_is_empty s) (Custom InvalidArgument)) (\<lambda>_.
        let v1 = v\<lparr>gv_sub_vaults := tree_remove idx (gv_sub_vaults v)\<rparr> in
        ebind (ok_or (checked_sub (gv_sub_vault_count v1) 1) ArithmeticOverflow) (\<lambda>n.
        Inr (release_sub_vault_address_on_vault_fixed (v1\<lparr>gv_sub_vault_count := n\<rparr>) idx, idx)))))"

definition remove_sub_vault_order_ref :: "global_vault \<Rightarrow> pubkey \<Rightarrow> nat \<Rightarrow> (global_vault \<times> data_index) res" where
  "remove_sub_vault_order_ref v market sub_vault_id =
     (let idx = tree_lookup order_ref_cmp (or_probe market sub_vault_id) (gv_market_orders v) in
      if idx = NIL then Inr (v, NIL)
      else
        let v1 = v\<lparr>gv_market_orders := tree_remove idx (gv_market_orders v)\<rparr> in
        ebind (ok_or (checked_sub (gv_open_order_count v1) 1) ArithmeticOverflow) (\<lambda>n.
        let v2 = release_node_address_on_vault_fixed (v1\<lparr>gv_open_order_count := n\<rparr>) idx in
        ebind (bump_sub_vault_order_count v2 sub_vault_id (- 1)) (\<lambda>v3.
        Inr (v3, idx))))"

section \<open>The orders of the three trees\<close>

lemma sub_vault_cmp_total: "total_cmp sub_vault_cmp"
  unfolding sub_vault_cmp_def by (rule total_cmp_nat)

lemma depositor_seat_cmp_total: "total_cmp depositor_seat_cmp"
  unfolding depositor_seat_cmp_def by (rule total_cmp_then)

lemma order_ref_cmp_total: "total_cmp order_ref_cmp"
  unfolding order_ref_cmp_def by (rule total_cmp_then)

interpretation sub_vaults: hypertree sub_vault_cmp "\<lambda>t. t" "tree_ok sub_vault_cmp"
  "tree_insert sub_vault_cmp" tree_remove tree_max tree_next_lower
  by (rule list_hypertree) (rule sub_vault_cmp_total)

interpretation depositor_seats: hypertree depositor_seat_cmp "\<lambda>t. t" "tree_ok depositor_seat_cmp"
  "tree_insert depositor_seat_cmp" tree_remove tree_max tree_next_lower
  by (rule list_hypertree) (rule depositor_seat_cmp_total)

interpretation order_refs: hypertree order_ref_cmp "\<lambda>t. t" "tree_ok order_ref_cmp"
  "tree_insert order_ref_cmp" tree_remove tree_max tree_next_lower
  by (rule list_hypertree) (rule order_ref_cmp_total)

lemma sub_vault_cmp_Equal: "sub_vault_cmp a b = Equal \<longleftrightarrow> sv_sub_vault_id a = sv_sub_vault_id b"
  by (simp add: sub_vault_cmp_def)

lemma order_ref_cmp_Equal: "order_ref_cmp a b = Equal \<longleftrightarrow>
    or_market a = or_market b \<and> or_sub_vault_id a = or_sub_vault_id b"
  by (simp add: order_ref_cmp_def then_cmp_iff)

lemma depositor_seat_cmp_Equal: "depositor_seat_cmp a b = Equal \<longleftrightarrow>
    ds_owner a = ds_owner b \<and> ds_sub_vault_id a = ds_sub_vault_id b"
  by (simp add: depositor_seat_cmp_def then_cmp_iff)

section \<open>Accrual\<close>

definition sv_wf :: "sub_vault \<Rightarrow> bool" where
  "sv_wf s =
     (sv_total_assets_atoms s < u64_lim \<and> sv_total_principal_atoms s < u64_lim \<and>
      sv_deployed_principal_atoms s < u64_lim \<and> sv_pending_claim_atoms s < u64_lim \<and>
      sv_total_weighted_net_rate_bps s < u128_lim \<and> sv_total_shares s < u128_lim \<and>
      sv_last_supply_share_value_fp48 s < u128_lim \<and> 0 \<le> sv_last_accrue_unix s \<and>
      sv_last_accrue_unix s < i64_lim)"

text \<open>The two accounting invariants: assets cover the principal, and the atoms out on loans or
  waiting to be claimed are part of the principal.\<close>

definition sv_sound :: "sub_vault \<Rightarrow> bool" where
  "sv_sound s =
     (sv_total_principal_atoms s \<le> sv_total_assets_atoms s \<and>
      sv_deployed_principal_atoms s + sv_pending_claim_atoms s \<le> sv_total_principal_atoms s)"

definition idle_atoms :: "sub_vault \<Rightarrow> nat" where
  "idle_atoms s = sv_total_principal_atoms s - sv_deployed_principal_atoms s - sv_pending_claim_atoms s"

definition loan_yield :: "sub_vault \<Rightarrow> int \<Rightarrow> nat" where
  "loan_yield s now =
     sv_total_weighted_net_rate_bps s * nat (now - sv_last_accrue_unix s) div (BPS_PER_UNIT * SECONDS_PER_YEAR)"

definition idle_change :: "sub_vault \<Rightarrow> fp48 \<Rightarrow> int" where
  "idle_change s cv =
     (if 0 < idle_atoms s \<and> cv \<noteq> 0 \<and> sv_last_supply_share_value_fp48 s \<noteq> 0
      then int (idle_atoms s * cv div sv_last_supply_share_value_fp48 s) - int (idle_atoms s) else 0)"

lemma accrue_idle_delta_Inr:
  assumes "sv_wf s" "cv < u128_lim" "accrue_idle_delta s cv = Inr d"
  shows "sv_deployed_principal_atoms s + sv_pending_claim_atoms s \<le> sv_total_principal_atoms s \<and>
    d = idle_change s cv \<and> - int (idle_atoms s) \<le> d \<and> d < int u64_lim"
proof -
  have i: "idle_atoms s < u128_lim" using assms(1) lim_order by (auto simp: idle_atoms_def sv_wf_def)
  show ?thesis
    using assms i lim_order
    by (auto simp: accrue_idle_delta_def result_simps idle_change_def idle_atoms_def sv_wf_def
        fp48_is_zero_def mul_div_eq Let_def split: if_splits)
qed

lemma accrue_assets_Inr:
  assumes "accrue_assets s d y = Inr s1" "sv_total_principal_atoms s \<le> sv_total_assets_atoms s"
    "- int (sv_total_principal_atoms s) \<le> d"
  shows "\<exists>ta tp. s1 = s\<lparr>sv_total_assets_atoms := ta, sv_total_principal_atoms := tp\<rparr> \<and>
    int ta = int (sv_total_assets_atoms s) + d + int y \<and>
    int tp = int (sv_total_principal_atoms s) + d \<and> ta < u64_lim \<and> tp \<le> ta"
proof (cases "0 \<le> d")
  case True
  then have "s1 = s\<lparr>sv_total_assets_atoms := sv_total_assets_atoms s + nat d + y,
      sv_total_principal_atoms := sv_total_principal_atoms s + nat d\<rparr>"
    "sv_total_assets_atoms s + nat d + y < u64_lim"
    using assms(1) by (auto simp: accrue_assets_def ebind_Inr ok_or_Inr checked_add_Some narrow_Some if_Inr)
  then show ?thesis using assms(2) True by force
next
  case False
  then have "s1 = s\<lparr>sv_total_assets_atoms := sv_total_assets_atoms s - nat (- d) + y,
      sv_total_principal_atoms := sv_total_principal_atoms s - nat (- d)\<rparr>"
    "sv_total_assets_atoms s - nat (- d) + y < u64_lim"
    using assms(1) by (auto simp: accrue_assets_def ebind_Inr ok_or_Inr checked_add_Some narrow_Some if_Inr)
  then show ?thesis using assms(2,3) False by force
qed

lemma accrue_indices_Inr:
  assumes "accrue_indices s d y = Inr s2"
  shows "\<exists>si di. s2 = s\<lparr>sv_cumulative_supply_yield_index_scaled := si,
      sv_cumulative_delta_yield_index_scaled := di\<rparr> \<and>
    sv_cumulative_supply_yield_index_scaled s \<le> si \<and> sv_cumulative_delta_yield_index_scaled s \<le> di"
proof (cases "0 < sv_total_shares s")
  case True
  obtain s1 where s1: "(if 0 < d then
        ebind (mul_div (nat d) ACCRUE_INDEX_SCALE (sv_total_shares s) False) (\<lambda>supply_growth.
        ebind (ok_or (checked_add u128_lim (sv_cumulative_supply_yield_index_scaled s) supply_growth)
                 ArithmeticOverflow) (\<lambda>si.
        Inr (s\<lparr>sv_cumulative_supply_yield_index_scaled := si\<rparr>))) else Inr s) = Inr s1"
    and s2: "ebind (mul_div y ACCRUE_INDEX_SCALE (sv_total_shares s1) False) (\<lambda>delta_growth.
        ebind (ok_or (checked_add u128_lim (sv_cumulative_delta_yield_index_scaled s1) delta_growth)
                 ArithmeticOverflow) (\<lambda>di.
        Inr (s1\<lparr>sv_cumulative_delta_yield_index_scaled := di\<rparr>))) = Inr s2"
    using assms True by (simp add: accrue_indices_def ebind_Inr) blast
  obtain g where g: "s1 = s\<lparr>sv_cumulative_supply_yield_index_scaled := g\<rparr>"
      "sv_cumulative_supply_yield_index_scaled s \<le> g"
    using s1 that[of "sv_cumulative_supply_yield_index_scaled s"]
    by (cases "0 < d") (auto simp: ebind_Inr ok_or_Inr checked_add_Some)
  obtain h where "s2 = s1\<lparr>sv_cumulative_delta_yield_index_scaled := h\<rparr>"
      "sv_cumulative_delta_yield_index_scaled s1 \<le> h"
    using s2 by (auto simp: ebind_Inr ok_or_Inr checked_add_Some)
  then show ?thesis using g by auto
next
  case False
  then have "s2 = s\<lparr>sv_cumulative_supply_yield_index_scaled := sv_cumulative_supply_yield_index_scaled s,
      sv_cumulative_delta_yield_index_scaled := sv_cumulative_delta_yield_index_scaled s\<rparr>"
    using assms by (simp add: accrue_indices_def)
  then show ?thesis by blast
qed

text \<open>The fields an accrual leaves alone.\<close>

definition sv_accrue_frame :: "sub_vault \<Rightarrow> sub_vault \<Rightarrow> bool" where
  "sv_accrue_frame s s' =
     (sv_total_shares s' = sv_total_shares s \<and>
      sv_deployed_principal_atoms s' = sv_deployed_principal_atoms s \<and>
      sv_pending_claim_atoms s' = sv_pending_claim_atoms s \<and>
      sv_encumbered_in_orders_atoms s' = sv_encumbered_in_orders_atoms s \<and>
      sv_total_weighted_rate_bps s' = sv_total_weighted_rate_bps s \<and>
      sv_total_weighted_net_rate_bps s' = sv_total_weighted_net_rate_bps s \<and>
      sv_accumulated_curator_fee_atoms s' = sv_accumulated_curator_fee_atoms s \<and>
      sv_sub_vault_id s' = sv_sub_vault_id s \<and> sv_open_orders_count s' = sv_open_orders_count s \<and>
      sv_open_loans_count s' = sv_open_loans_count s)"

lemma accrue_sub_vault_cases:
  assumes wf: "sv_wf s" and sound: "sv_sound s" and w: "now < i64_lim" "cv < u128_lim"
    and ok: "accrue_sub_vault s now cv = Inr s'"
  obtains (past) "now \<le> sv_last_accrue_unix s" "s' = s"
  | (no_principal) "sv_last_accrue_unix s < now" "sv_total_principal_atoms s = 0"
      "sv_accrue_frame s s'" "sv_total_assets_atoms s' = sv_total_assets_atoms s"
      "sv_total_principal_atoms s' = 0" "sv_last_accrue_unix s' = now"
      "sv_last_supply_share_value_fp48 s' < u128_lim"
  | (step) "sv_last_accrue_unix s < now" "0 < sv_total_principal_atoms s" "sv_accrue_frame s s'"
      "int (sv_total_assets_atoms s') = int (sv_total_assets_atoms s) + idle_change s cv + int (loan_yield s now)"
      "int (sv_total_principal_atoms s') = int (sv_total_principal_atoms s) + idle_change s cv"
      "- int (idle_atoms s) \<le> idle_change s cv" "sv_last_accrue_unix s' = now"
      "sv_total_assets_atoms s' < u64_lim" "sv_total_principal_atoms s' < u64_lim"
      "sv_last_supply_share_value_fp48 s' < u128_lim"
      "sv_cumulative_supply_yield_index_scaled s \<le> sv_cumulative_supply_yield_index_scaled s'"
      "sv_cumulative_delta_yield_index_scaled s \<le> sv_cumulative_delta_yield_index_scaled s'"
proof -
  consider "now \<le> sv_last_accrue_unix s" | "sv_last_accrue_unix s < now" "sv_total_principal_atoms s = 0"
    | "sv_last_accrue_unix s < now" "0 < sv_total_principal_atoms s" by linarith
  then show thesis
  proof cases
    case 1
    then have "s' = s" using ok by (simp add: accrue_sub_vault_def)
    then show ?thesis using past 1 by blast
  next
    case 2
    then have s': "s' = (if cv = 0 then s\<lparr>sv_last_accrue_unix := now\<rparr>
        else s\<lparr>sv_last_accrue_unix := now, sv_last_supply_share_value_fp48 := cv\<rparr>)"
      using ok by (simp add: accrue_sub_vault_def Let_def fp48_is_zero_def)
    show ?thesis
      by (rule no_principal) (use 2 s' w wf in \<open>simp_all add: sv_accrue_frame_def sv_wf_def\<close>)
  next
    case 3
    let ?e = "nat (now - sv_last_accrue_unix s)"
    have el: "i64_checked_sub now (sv_last_accrue_unix s) = Some (now - sv_last_accrue_unix s)"
      using wf w 3 by (auto simp: i64_checked_sub_def sv_wf_def i64_lim_def)
    have e: "?e < u128_lim" using wf w by (auto simp: sv_wf_def lim_defs)
    have den: "checked_mul u128_lim BPS_PER_UNIT SECONDS_PER_YEAR = Some (BPS_PER_UNIT * SECONDS_PER_YEAR)"
      by (simp add: checked_mul_def BPS_PER_UNIT_def SECONDS_PER_YEAR_def u128_lim_def)
    obtain d y s1 s2 where d: "accrue_idle_delta s cv = Inr d"
      and y: "mul_div (sv_total_weighted_net_rate_bps s) ?e (BPS_PER_UNIT * SECONDS_PER_YEAR) False = Inr y"
      and s1: "accrue_assets s d y = Inr s1" and s2: "accrue_indices s1 d y = Inr s2"
      and s': "s' = restore_assets_principal_invariant
        (if fp48_is_zero cv then s2\<lparr>sv_last_accrue_unix := now\<rparr>
         else s2\<lparr>sv_last_accrue_unix := now, sv_last_supply_share_value_fp48 := cv\<rparr>)"
      using ok 3 by (auto simp: accrue_sub_vault_def el den Let_def elim!: ebind_InrE)
    note D = accrue_idle_delta_Inr[OF wf w(2) d]
    have yv: "y = loan_yield s now"
      using y wf e by (simp add: result_simps sv_wf_def loan_yield_def)
    have dp: "- int (sv_total_principal_atoms s) \<le> d" using D by (auto simp: idle_atoms_def)
    have ge: "sv_total_principal_atoms s \<le> sv_total_assets_atoms s" using sound by (simp add: sv_sound_def)
    obtain ta tp where A: "s1 = s\<lparr>sv_total_assets_atoms := ta, sv_total_principal_atoms := tp\<rparr>"
      "int ta = int (sv_total_assets_atoms s) + d + int y"
      "int tp = int (sv_total_principal_atoms s) + d" "ta < u64_lim" "tp \<le> ta"
      using accrue_assets_Inr[OF s1 ge dp] by blast
    obtain si di where S2: "s2 = s1\<lparr>sv_cumulative_supply_yield_index_scaled := si,
        sv_cumulative_delta_yield_index_scaled := di\<rparr>"
      "sv_cumulative_supply_yield_index_scaled s1 \<le> si" "sv_cumulative_delta_yield_index_scaled s1 \<le> di"
      using accrue_indices_Inr[OF s2] by blast
    have S': "s' = (if cv = 0 then s2\<lparr>sv_last_accrue_unix := now\<rparr>
         else s2\<lparr>sv_last_accrue_unix := now, sv_last_supply_share_value_fp48 := cv\<rparr>)"
      using A(1,5) S2(1) s' by (simp add: restore_assets_principal_invariant_def fp48_is_zero_def)
    show ?thesis
    proof (rule step)
      show "sv_last_supply_share_value_fp48 s' < u128_lim"
        using A(1) S2(1) S' w wf by (simp add: sv_wf_def)
    qed (use 3 A D S2 S' yv in \<open>auto simp: sv_accrue_frame_def\<close>)
  qed
qed

lemma accrue_sub_vault_wf:
  assumes "sv_wf s" "sv_sound s" "now < i64_lim" "cv < u128_lim" "accrue_sub_vault s now cv = Inr s'"
  shows "sv_wf s' \<and> sv_sound s'"
  using assms
proof (cases rule: accrue_sub_vault_cases)
  case past
  then show ?thesis using assms by simp
next
  case no_principal
  then show ?thesis using assms by (auto simp: sv_wf_def sv_sound_def sv_accrue_frame_def)
next
  case step
  then show ?thesis using assms by (auto simp: sv_wf_def sv_sound_def sv_accrue_frame_def idle_atoms_def)
qed

section \<open>Well-formed vaults\<close>

definition vault_blocks :: "global_vault \<Rightarrow> data_index list" where
  "vault_blocks v =
     map fst (gv_sub_vaults v) @ gv_sub_vault_free_list v @ map fst (gv_claimed_seats v) @
     map fst (gv_market_orders v) @ gv_node_free_list v"

definition refs_of :: "order_ref tree \<Rightarrow> nat \<Rightarrow> nat" where
  "refs_of orders sub_vault_id = length (filter (\<lambda>p. or_sub_vault_id (snd p) = sub_vault_id) orders)"

text \<open>No block is used twice, keys are unique, and every sub-vault counts exactly the references to
  its resting asks.\<close>

definition vault_ok :: "global_vault \<Rightarrow> bool" where
  "vault_ok v =
     (descending sub_vault_cmp (gv_sub_vaults v) \<and> descending depositor_seat_cmp (gv_claimed_seats v) \<and>
      descending order_ref_cmp (gv_market_orders v) \<and> distinct (vault_blocks v) \<and>
      (\<forall>i \<in> set (vault_blocks v). i < gv_num_bytes_allocated v) \<and> gv_num_bytes_allocated v < u32_lim \<and>
      distinct (map (\<lambda>p. sv_sub_vault_id (snd p)) (gv_sub_vaults v)) \<and>
      distinct (map (\<lambda>p. (or_market (snd p), or_sub_vault_id (snd p))) (gv_market_orders v)) \<and>
      distinct (map (\<lambda>p. (ds_owner (snd p), ds_sub_vault_id (snd p))) (gv_claimed_seats v)) \<and>
      gv_open_order_count v = length (gv_market_orders v) \<and>
      gv_claimed_seat_count v = length (gv_claimed_seats v) \<and>
      gv_sub_vault_count v = length (gv_sub_vaults v) \<and>
      (\<forall>p \<in> set (gv_sub_vaults v).
         sv_open_orders_count (snd p) = refs_of (gv_market_orders v) (sv_sub_vault_id (snd p))))"

text \<open>Moving a block between a tree and its free list keeps the blocks distinct and in range.\<close>

lemma blocks_moved:
  assumes "vault_ok v" "mset (vault_blocks v') = mset (vault_blocks v)"
    "gv_num_bytes_allocated v' = gv_num_bytes_allocated v"
  shows "distinct (vault_blocks v') \<and> (\<forall>i \<in> set (vault_blocks v'). i < gv_num_bytes_allocated v')"
  using assms mset_eq_imp_distinct_iff[OF assms(2)] mset_eq_setD[OF assms(2)] by (simp add: vault_ok_def)

lemma vault_block_not_NIL: "vault_ok v \<Longrightarrow> NIL \<notin> set (vault_blocks v)"
  by (fastforce simp: vault_ok_def NIL_def u32_lim_def)

lemma vault_trees_ok:
  assumes "vault_ok v"
  shows "tree_ok sub_vault_cmp (gv_sub_vaults v)" "tree_ok depositor_seat_cmp (gv_claimed_seats v)"
    "tree_ok order_ref_cmp (gv_market_orders v)"
  using assms vault_block_not_NIL[OF assms]
  by (auto simp: vault_ok_def tree_ok_def vault_blocks_def)

lemma sub_vault_index_hit:
  assumes "vault_ok v" "sub_vault_index v k \<noteq> NIL"
  shows "\<exists>s. (sub_vault_index v k, s) \<in> set (gv_sub_vaults v) \<and> sv_sub_vault_id s = k \<and>
    get_sub_vault v (sub_vault_index v k) = Inr s"
proof -
  obtain s where s: "(sub_vault_index v k, s) \<in> set (gv_sub_vaults v)"
      "sub_vault_cmp s (sv_new_empty k default_pubkey 1 1) = Equal"
    using tree_lookup_hit assms(2) unfolding sub_vault_index_def by fastforce
  then have "tree_get (gv_sub_vaults v) (sub_vault_index v k) = Some s"
    using vault_trees_ok(1)[OF assms(1)] by (simp add: tree_ok_def tree_get_iff)
  then show ?thesis using s by (auto simp: sub_vault_cmp_Equal sv_new_empty_def get_sub_vault_def)
qed

lemma sub_vault_index_miss:
  "vault_ok v \<Longrightarrow> sub_vault_index v k = NIL \<longleftrightarrow> k \<notin> (\<lambda>p. sv_sub_vault_id (snd p)) ` set (gv_sub_vaults v)"
  using tree_lookup_NIL[of "gv_sub_vaults v" sub_vault_cmp "sv_new_empty k default_pubkey 1 1"]
    vault_trees_ok(1)[of v]
  by (force simp: sub_vault_index_def sub_vault_cmp_Equal sv_new_empty_def tree_ok_def)

lemma refs_of_insert [simp]:
  "refs_of (tree_insert cmp i r t) k = refs_of t k + (if or_sub_vault_id r = k then 1 else 0)"
  by (induction t) (auto simp: refs_of_def split: if_splits)

lemma refs_of_remove:
  assumes "distinct (map fst t)" "(i, r) \<in> set t"
  shows "refs_of t k = refs_of (tree_remove i t) k + (if or_sub_vault_id r = k then 1 else 0)"
proof -
  obtain as bs where "t = as @ (i, r) # bs" "tree_remove i t = as @ bs" using tree_split[OF assms] by blast
  then show ?thesis by (simp add: refs_of_def)
qed

lemma refs_of_pos: "(i, r) \<in> set t \<Longrightarrow> 0 < refs_of t (or_sub_vault_id r)"
  by (force simp: refs_of_def filter_empty_conv)

text \<open>Setting the order count of the one sub-vault with a given id.\<close>

lemma bump_Inr:
  assumes ok: "vault_ok v" and same: "gv_sub_vaults v1 = gv_sub_vaults v"
    and b: "bump_sub_vault_order_count v1 k d = Inr v'" and d: "- 1 \<le> d" "d \<le> 1"
  shows "\<exists>i s. (i, s) \<in> set (gv_sub_vaults v) \<and> sv_sub_vault_id s = k \<and>
    0 \<le> int (sv_open_orders_count s) + d \<and>
    v' = v1\<lparr>gv_sub_vaults := tree_update i
      (\<lambda>_. s\<lparr>sv_open_orders_count := nat (int (sv_open_orders_count s) + d)\<rparr>) (gv_sub_vaults v)\<rparr>"
proof -
  have ix: "sub_vault_index v1 k = sub_vault_index v k" "get_sub_vault v1 i = get_sub_vault v i" for i
    by (simp_all add: sub_vault_index_def get_sub_vault_def same)
  have nz: "sub_vault_index v k \<noteq> NIL"
    using b by (auto simp: bump_sub_vault_order_count_def ix Let_def require_Inr elim!: ebind_InrE)
  obtain s where s: "(sub_vault_index v k, s) \<in> set (gv_sub_vaults v)" "sv_sub_vault_id s = k"
    "get_sub_vault v (sub_vault_index v k) = Inr s"
    using sub_vault_index_hit[OF ok nz] by blast
  have "d = - 1 \<or> d = 0 \<or> d = 1" using d by linarith
  moreover have "(1::nat) mod u16_lim = 1" by (simp add: u16_lim_def)
  ultimately have "0 \<le> int (sv_open_orders_count s) + d \<and> v' = v1\<lparr>gv_sub_vaults := tree_update (sub_vault_index v k)
      (\<lambda>_. s\<lparr>sv_open_orders_count := nat (int (sv_open_orders_count s) + d)\<rparr>) (gv_sub_vaults v)\<rparr>"
    using b s(3)
    by (auto simp: bump_sub_vault_order_count_def ix same Let_def set_sub_vault_def ok_or_Inr checked_add_Some
        checked_sub_Some nat_diff_distrib nat_add_distrib elim!: ebind_InrE)
  then show ?thesis using s by auto
qed

lemma bump_keeps_vault_ok:
  assumes ok: "vault_ok v" and s: "(i, s) \<in> set (gv_sub_vaults v)"
    and blocks: "distinct (vault_blocks v1)" "\<forall>i \<in> set (vault_blocks v1). i < gv_num_bytes_allocated v1"
    and v1: "v1 = v\<lparr>gv_market_orders := os, gv_node_free_list := fl, gv_open_order_count := length os,
      gv_sub_vaults := tree_update i (\<lambda>_. s\<lparr>sv_open_orders_count := c\<rparr>) (gv_sub_vaults v)\<rparr>"
    and os: "descending order_ref_cmp os"
      "distinct (map (\<lambda>p. (or_market (snd p), or_sub_vault_id (snd p))) os)"
    and c: "c = refs_of os (sv_sub_vault_id s)"
    and other: "\<And>k. k \<noteq> sv_sub_vault_id s \<Longrightarrow> refs_of os k = refs_of (gv_market_orders v) k"
  shows "vault_ok v1"
proof -
  let ?s = "s\<lparr>sv_open_orders_count := c\<rparr>"
  let ?t = "tree_update i (\<lambda>_. ?s) (gv_sub_vaults v)"
  have t: "tree_ok sub_vault_cmp (gv_sub_vaults v)" using vault_trees_ok(1)[OF ok] .
  then have d: "distinct (map fst (gv_sub_vaults v))" by (simp add: tree_ok_def)
  have "tree_ok sub_vault_cmp ?t"
    by (rule tree_update_const_ok[OF _ _ t s]) (simp_all add: sub_vault_cmp_def)
  then have desc: "descending sub_vault_cmp ?t" by (simp add: tree_ok_def)
  have keys: "map (\<lambda>p. sv_sub_vault_id (snd p)) ?t = map (\<lambda>p. sv_sub_vault_id (snd p)) (gv_sub_vaults v)"
    by (rule tree_update_map[OF d s]) simp
  have uniq: "distinct (map (\<lambda>p. sv_sub_vault_id (snd p)) (gv_sub_vaults v))" using ok by (simp add: vault_ok_def)
  have counts: "sv_open_orders_count (snd p) = refs_of os (sv_sub_vault_id (snd p))" if "p \<in> set ?t" for p
  proof (cases "p = (i, ?s)")
    case True then show ?thesis using c by simp
  next
    case False
    then have p: "p \<in> set (gv_sub_vaults v)" "p \<noteq> (i, s)"
      using that tree_update_member[OF d s, of ?s] by auto
    then have "sv_sub_vault_id (snd p) \<noteq> sv_sub_vault_id s"
      using uniq s unfolding distinct_map inj_on_def by fastforce
    then show ?thesis using p ok other by (simp add: vault_ok_def)
  qed
  show ?thesis using ok blocks os desc keys uniq counts unfolding vault_ok_def v1 by simp
qed

lemma vault_ok_set_sub_vault:
  assumes ok: "vault_ok v" and s: "(i, s) \<in> set (gv_sub_vaults v)"
    and q: "sv_sub_vault_id q = sv_sub_vault_id s" "sv_open_orders_count q = sv_open_orders_count s"
  shows "vault_ok (set_sub_vault v i q)"
proof -
  let ?t = "tree_update i (\<lambda>_. q) (gv_sub_vaults v)"
  have t: "tree_ok sub_vault_cmp (gv_sub_vaults v)" using vault_trees_ok(1)[OF ok] .
  then have d: "distinct (map fst (gv_sub_vaults v))" by (simp add: tree_ok_def)
  have "tree_ok sub_vault_cmp ?t"
    by (rule tree_update_const_ok[OF _ _ t s]) (simp_all add: sub_vault_cmp_def q)
  then have desc: "descending sub_vault_cmp ?t" by (simp add: tree_ok_def)
  have keys: "map (\<lambda>p. sv_sub_vault_id (snd p)) ?t = map (\<lambda>p. sv_sub_vault_id (snd p)) (gv_sub_vaults v)"
    by (rule tree_update_map[OF d s]) (simp add: q)
  have uniq: "distinct (map (\<lambda>p. sv_sub_vault_id (snd p)) (gv_sub_vaults v))"
    and refs: "\<forall>p \<in> set (gv_sub_vaults v).
      sv_open_orders_count (snd p) = refs_of (gv_market_orders v) (sv_sub_vault_id (snd p))"
    using ok by (simp_all add: vault_ok_def)
  have counts: "\<forall>p \<in> set ?t. sv_open_orders_count (snd p) = refs_of (gv_market_orders v) (sv_sub_vault_id (snd p))"
    using refs s q by (force simp: tree_update_member[OF d s])
  have b: "vault_blocks (set_sub_vault v i q) = vault_blocks v" by (simp add: vault_blocks_def set_sub_vault_def)
  show ?thesis using ok desc keys uniq counts unfolding vault_ok_def b by (simp add: set_sub_vault_def)
qed

lemma insert_order_ref_ok:
  assumes ok: "vault_ok v" and ins: "insert_sub_vault_order_ref v m k side r ts sq at = Inr (v', i)"
  shows "vault_ok v' \<and> (\<exists>ref. (i, ref) \<in> set (gv_market_orders v') \<and> or_market ref = m \<and>
      or_sub_vault_id ref = k \<and> or_rate_bps ref = r \<and> or_order_sequence_in_market ref = sq) \<and>
    (\<forall>p \<in> set (gv_market_orders v). \<not> (or_market (snd p) = m \<and> or_sub_vault_id (snd p) = k))"
proof -
  let ?ref = "\<lparr> or_market = m, or_sub_vault_id = k, or_side = side, or_rate_bps = r, or_term_seconds = ts,
      or_order_sequence_in_market = sq, or_placed_at_unix = at \<rparr>"
  let ?os = "tree_insert order_ref_cmp i ?ref (gv_market_orders v)"
  obtain fl where fl: "gv_node_free_list v = i # fl" "i \<noteq> NIL"
    and miss: "tree_lookup order_ref_cmp (or_probe m k) (gv_market_orders v) = NIL"
    and b: "bump_sub_vault_order_count (v\<lparr>gv_node_free_list := fl, gv_market_orders := ?os,
      gv_open_order_count := gv_open_order_count v + 1\<rparr>) k 1 = Inr v'"
  proof (cases "gv_node_free_list v")
    case Nil
    then show ?thesis using ins
      by (simp add: insert_sub_vault_order_ref_def get_free_node_address_on_vault_fixed_def Let_def stack_remove_def ebind_Inr require_Inr)
  next
    case (Cons x fl)
    have "tree_lookup order_ref_cmp (or_probe m k) (gv_market_orders v) = NIL"
      using ins by (simp add: insert_sub_vault_order_ref_def ebind_Inr require_Inr)
    then show ?thesis using ins Cons that[of fl]
      by (auto simp: insert_sub_vault_order_ref_def get_free_node_address_on_vault_fixed_def Let_def
          stack_remove_def ebind_Inr require_Inr ok_or_Inr checked_add_Some)
  qed
  have new: "\<forall>p \<in> set (gv_market_orders v). \<not> (or_market (snd p) = m \<and> or_sub_vault_id (snd p) = k)"
    using miss tree_lookup_NIL[of "gv_market_orders v" order_ref_cmp "or_probe m k"] vault_trees_ok(3)[OF ok]
    by (auto simp: order_ref_cmp_Equal or_probe_def tree_ok_def)
  obtain j s where s: "(j, s) \<in> set (gv_sub_vaults v)" "sv_sub_vault_id s = k"
    and v': "v' = v\<lparr>gv_market_orders := ?os, gv_node_free_list := fl,
      gv_open_order_count := gv_open_order_count v + 1,
      gv_sub_vaults := tree_update j (\<lambda>_. s\<lparr>sv_open_orders_count := nat (int (sv_open_orders_count s) + 1)\<rparr>)
        (gv_sub_vaults v)\<rparr>"
    using bump_Inr[OF ok _ b] by (auto intro: global_vault.equality)
  have d: "distinct (vault_blocks v)" and lt: "\<forall>i \<in> set (vault_blocks v). i < gv_num_bytes_allocated v"
    using ok by (auto simp: vault_ok_def)
  have m: "mset (vault_blocks v') = mset (vault_blocks v)"
    unfolding v' by (simp add: vault_blocks_def fl)
  have "vault_ok v'"
  proof (rule bump_keeps_vault_ok[OF ok s(1)])
    show "v' = v\<lparr>gv_market_orders := ?os, gv_node_free_list := fl, gv_open_order_count := length ?os,
      gv_sub_vaults := tree_update j (\<lambda>_. s\<lparr>sv_open_orders_count := nat (int (sv_open_orders_count s) + 1)\<rparr>)
        (gv_sub_vaults v)\<rparr>"
      using v' ok by (simp add: vault_ok_def)
    show "distinct (vault_blocks v')" "\<forall>i \<in> set (vault_blocks v'). i < gv_num_bytes_allocated v'"
      using blocks_moved[OF ok m] v' by simp_all
    show "descending order_ref_cmp ?os"
      using ok by (simp add: vault_ok_def tree_insert_descending order_ref_cmp_total)
    show "distinct (map (\<lambda>p. (or_market (snd p), or_sub_vault_id (snd p))) ?os)"
      using ok new by (auto simp: tree_insert_distinct_map vault_ok_def)
  qed (use ok s in \<open>auto simp: vault_ok_def\<close>)
  moreover have "(i, ?ref) \<in> set (gv_market_orders v')" unfolding v' by simp
  ultimately show ?thesis using new by force
qed

lemma remove_order_ref_ok:
  assumes ok: "vault_ok v" and rem: "remove_sub_vault_order_ref v m k = Inr (v', i)"
  shows "vault_ok v' \<and>
    (\<forall>p \<in> set (gv_market_orders v'). \<not> (or_market (snd p) = m \<and> or_sub_vault_id (snd p) = k))"
proof (cases "tree_lookup order_ref_cmp (or_probe m k) (gv_market_orders v) = NIL")
  case True
  then have "v' = v" using rem by (simp add: remove_sub_vault_order_ref_def)
  then show ?thesis
    using ok True tree_lookup_NIL[of "gv_market_orders v" order_ref_cmp "or_probe m k"] vault_trees_ok(3)[OF ok]
    by (auto simp: order_ref_cmp_Equal or_probe_def tree_ok_def)
next
  case False
  let ?os = "tree_remove i (gv_market_orders v)"
  have i: "i = tree_lookup order_ref_cmp (or_probe m k) (gv_market_orders v)"
    and b: "bump_sub_vault_order_count (v\<lparr>gv_market_orders := ?os, gv_open_order_count := gv_open_order_count v - 1,
      gv_node_free_list := i # gv_node_free_list v\<rparr>) k (- 1) = Inr v'"
    using rem False
    by (auto simp: remove_sub_vault_order_ref_def release_node_address_on_vault_fixed_def stack_add_def Let_def
        ok_or_Inr checked_sub_Some elim!: ebind_InrE)
  have t: "tree_ok order_ref_cmp (gv_market_orders v)" using vault_trees_ok(3)[OF ok] .
  then have dm: "distinct (map fst (gv_market_orders v))" by (simp add: tree_ok_def)
  obtain r where r: "(i, r) \<in> set (gv_market_orders v)" "or_market r = m" "or_sub_vault_id r = k"
    using tree_lookup_hit[OF False] i by (auto simp: order_ref_cmp_Equal or_probe_def)
  obtain j s where s: "(j, s) \<in> set (gv_sub_vaults v)" "sv_sub_vault_id s = k"
    and v': "v' = v\<lparr>gv_market_orders := ?os, gv_node_free_list := i # gv_node_free_list v,
      gv_open_order_count := gv_open_order_count v - 1,
      gv_sub_vaults := tree_update j (\<lambda>_. s\<lparr>sv_open_orders_count := nat (int (sv_open_orders_count s) + - 1)\<rparr>)
        (gv_sub_vaults v)\<rparr>"
    using bump_Inr[OF ok _ b] by (auto intro: global_vault.equality)
  have d: "distinct (vault_blocks v)" and lt: "\<forall>i \<in> set (vault_blocks v). i < gv_num_bytes_allocated v"
    using ok by (auto simp: vault_ok_def)
  have refs: "refs_of (gv_market_orders v) x = refs_of ?os x + (if k = x then 1 else 0)" for x
    using refs_of_remove[OF dm r(1), of x] r(3) by simp
  obtain as bs where sp: "gv_market_orders v = as @ (i, r) # bs" "?os = as @ bs"
    using tree_split[OF dm r(1)] by blast
  have m: "mset (vault_blocks v') = mset (vault_blocks v)"
    unfolding v' by (simp add: vault_blocks_def sp(2)) (simp add: sp(1))
  have "vault_ok v'"
  proof (rule bump_keeps_vault_ok[OF ok s(1)])
    show "v' = v\<lparr>gv_market_orders := ?os, gv_node_free_list := i # gv_node_free_list v,
      gv_open_order_count := length ?os,
      gv_sub_vaults := tree_update j (\<lambda>_. s\<lparr>sv_open_orders_count := nat (int (sv_open_orders_count s) + - 1)\<rparr>)
        (gv_sub_vaults v)\<rparr>"
      using v' ok tree_remove_length[OF dm r(1)] by (simp add: vault_ok_def)
    show "distinct (vault_blocks v')" "\<forall>i \<in> set (vault_blocks v'). i < gv_num_bytes_allocated v'"
      using blocks_moved[OF ok m] v' by simp_all
    show "descending order_ref_cmp ?os" using tree_remove_ok[OF t] by (simp add: tree_ok_def)
    show "distinct (map (\<lambda>p. (or_market (snd p), or_sub_vault_id (snd p))) ?os)"
      using ok by (intro tree_remove_distinct_map) (simp add: vault_ok_def)
    show "nat (int (sv_open_orders_count s) + - 1) = refs_of ?os (sv_sub_vault_id s)"
      using ok s refs[of k] by (auto simp: vault_ok_def)
    show "refs_of ?os x = refs_of (gv_market_orders v) x" if "x \<noteq> sv_sub_vault_id s" for x
      using refs[of x] that s(2) by simp
  qed
  moreover have "\<forall>p \<in> set ?os. \<not> (or_market (snd p) = m \<and> or_sub_vault_id (snd p) = k)"
  proof (intro ballI notI)
    fix p assume p: "p \<in> set ?os" "or_market (snd p) = m \<and> or_sub_vault_id (snd p) = k"
    have "inj_on (\<lambda>p. (or_market (snd p), or_sub_vault_id (snd p))) (set (gv_market_orders v))"
      using ok by (simp add: vault_ok_def distinct_map)
    then have "p = (i, r)" by (rule inj_onD) (use p r in \<open>auto simp: tree_remove_set\<close>)
    then show False using p(1) by (simp add: tree_remove_set)
  qed
  ultimately show ?thesis using v' by simp
qed

lemma remove_sub_vault_ok:
  assumes ok: "vault_ok v" and rem: "remove_sub_vault v k = Inr (v', i)"
  shows "vault_ok v' \<and> k \<notin> (\<lambda>p. sv_sub_vault_id (snd p)) ` set (gv_sub_vaults v') \<and>
    gv_market_orders v' = gv_market_orders v \<and>
    (i \<noteq> NIL \<longrightarrow> (\<exists>s. (i, s) \<in> set (gv_sub_vaults v) \<and> sv_sub_vault_id s = k \<and> sv_is_empty s))"
proof (cases "sub_vault_index v k = NIL")
  case True
  then have "v' = v" "i = NIL" using rem by (auto simp: remove_sub_vault_def)
  then show ?thesis using ok True sub_vault_index_miss[OF ok] by simp
next
  case False
  obtain s where s: "(sub_vault_index v k, s) \<in> set (gv_sub_vaults v)" "sv_sub_vault_id s = k"
    "get_sub_vault v (sub_vault_index v k) = Inr s"
    using sub_vault_index_hit[OF ok False] by blast
  have r: "i = sub_vault_index v k" "sv_is_empty s"
    "v' = v\<lparr>gv_sub_vaults := tree_remove i (gv_sub_vaults v), gv_sub_vault_count := gv_sub_vault_count v - 1,
      gv_sub_vault_free_list := i # gv_sub_vault_free_list v\<rparr>"
    using rem False s(3)
    by (auto simp: remove_sub_vault_def release_sub_vault_address_on_vault_fixed_def stack_add_def Let_def
        require_Inr ok_or_Inr checked_sub_Some elim!: ebind_InrE)
  have t: "tree_ok sub_vault_cmp (gv_sub_vaults v)" using vault_trees_ok(1)[OF ok] .
  then have dm: "distinct (map fst (gv_sub_vaults v))" by (simp add: tree_ok_def)
  obtain as bs where sp: "gv_sub_vaults v = as @ (i, s) # bs" "tree_remove i (gv_sub_vaults v) = as @ bs"
    using tree_split[OF dm s(1)] r(1) by blast
  have v'_eq: "v' = v\<lparr>gv_sub_vaults := as @ bs, gv_sub_vault_count := gv_sub_vault_count v - 1,
      gv_sub_vault_free_list := i # gv_sub_vault_free_list v\<rparr>" using r(3) sp(2) by simp
  have "descending sub_vault_cmp (as @ bs)" using tree_remove_ok[OF t, of i] sp(2) by (simp add: tree_ok_def)
  moreover have "distinct (vault_blocks v') \<and> (\<forall>i \<in> set (vault_blocks v'). i < gv_num_bytes_allocated v')"
  proof (rule blocks_moved[OF ok])
    show "mset (vault_blocks v') = mset (vault_blocks v)"
      unfolding r(3) by (simp add: vault_blocks_def sp(2)) (simp add: sp(1))
  qed (simp add: r(3))
  ultimately have ok': "vault_ok v'" using ok unfolding vault_ok_def by (simp add: v'_eq sp(1))
  have "k \<notin> (\<lambda>p. sv_sub_vault_id (snd p)) ` set (as @ bs)"
    using ok s(2) unfolding vault_ok_def sp(1) by (simp add: image_Un)
  then have "k \<notin> (\<lambda>p. sv_sub_vault_id (snd p)) ` set (gv_sub_vaults v')" by (simp add: v'_eq)
  moreover have "gv_market_orders v' = gv_market_orders v" by (simp add: r(3))
  ultimately show ?thesis using ok' r(1,2) s(1,2) by blast
qed

lemma expand_blocks_ok:
  assumes ok: "vault_ok v" and n: "gv_num_bytes_allocated v < n" "n < u32_lim"
    and v': "mset (vault_blocks v') = add_mset (gv_num_bytes_allocated v) (mset (vault_blocks v))"
    and same: "gv_num_bytes_allocated v' = n" "gv_sub_vaults v' = gv_sub_vaults v"
      "gv_claimed_seats v' = gv_claimed_seats v" "gv_market_orders v' = gv_market_orders v"
      "gv_open_order_count v' = gv_open_order_count v" "gv_claimed_seat_count v' = gv_claimed_seat_count v"
      "gv_sub_vault_count v' = gv_sub_vault_count v"
  shows "vault_ok v'"
proof -
  have lt: "\<forall>i \<in> set (vault_blocks v). i < gv_num_bytes_allocated v" "distinct (vault_blocks v)"
    using ok by (simp_all add: vault_ok_def)
  have m: "mset (vault_blocks v') = mset (gv_num_bytes_allocated v # vault_blocks v)" using v' by simp
  have "distinct (vault_blocks v')" unfolding mset_eq_imp_distinct_iff[OF m] using lt by auto
  moreover have "\<forall>i \<in> set (vault_blocks v'). i < n"
    unfolding mset_eq_setD[OF m] using lt n by (auto intro: less_trans)
  ultimately show ?thesis using ok n same unfolding vault_ok_def by simp
qed

lemma expand_sub_vault_block_ok:
  assumes "vault_ok v" "vault_expand_sub_vault_block v = Inr v'"
  shows "vault_ok v' \<and> has_free_sub_vault_block v'"
proof -
  have "v' = v\<lparr>gv_sub_vault_free_list := gv_num_bytes_allocated v # gv_sub_vault_free_list v,
      gv_num_bytes_allocated := gv_num_bytes_allocated v + 512\<rparr>" "gv_num_bytes_allocated v + 512 < u32_lim"
    using assms(2)
    by (auto simp: vault_expand_sub_vault_block_def result_simps stack_add_def SUB_VAULT_BLOCK_SIZE_def)
  then show ?thesis
    using expand_blocks_ok[OF assms(1), of "gv_num_bytes_allocated v + 512" v']
    by (simp add: vault_blocks_def has_free_sub_vault_block_def)
qed

lemma expand_node_block_ok:
  assumes "vault_ok v" "vault_expand_node_block v = Inr v'"
  shows "vault_ok v' \<and> has_free_node_block v'"
proof -
  have "v' = v\<lparr>gv_node_free_list := gv_num_bytes_allocated v # gv_node_free_list v,
      gv_num_bytes_allocated := gv_num_bytes_allocated v + 160\<rparr>" "gv_num_bytes_allocated v + 160 < u32_lim"
    using assms(2)
    by (auto simp: vault_expand_node_block_def result_simps stack_add_def VAULT_NODE_BLOCK_SIZE_def)
  then show ?thesis
    using expand_blocks_ok[OF assms(1), of "gv_num_bytes_allocated v + 160" v']
    by (simp add: vault_blocks_def has_free_node_block_def)
qed

lemma upsert_seat_ok:
  assumes ok: "vault_ok v" and up: "upsert_sub_vault_depositor_seat v owner k = Inr (v', i)"
  shows "vault_ok v' \<and> (\<exists>seat. (i, seat) \<in> set (gv_claimed_seats v') \<and> ds_owner seat = owner \<and>
    ds_sub_vault_id seat = k) \<and> gv_sub_vaults v' = gv_sub_vaults v \<and> gv_market_orders v' = gv_market_orders v"
proof (cases "tree_lookup depositor_seat_cmp (ds_probe owner k) (gv_claimed_seats v) = NIL")
  case False
  then have "v' = v" "i = tree_lookup depositor_seat_cmp (ds_probe owner k) (gv_claimed_seats v)"
    using up by (auto simp: upsert_sub_vault_depositor_seat_def)
  then show ?thesis using ok tree_lookup_hit[OF False]
    by (auto simp: depositor_seat_cmp_Equal ds_probe_def)
next
  case True
  let ?t = "tree_insert depositor_seat_cmp i (ds_probe owner k) (gv_claimed_seats v)"
  obtain fl where fl: "gv_node_free_list v = i # fl"
    and v': "v' = v\<lparr>gv_node_free_list := fl, gv_claimed_seats := ?t,
      gv_claimed_seat_count := gv_claimed_seat_count v + 1\<rparr>"
  proof (cases "gv_node_free_list v")
    case Nil
    then show ?thesis using up True
      by (simp add: upsert_sub_vault_depositor_seat_def get_free_node_address_on_vault_fixed_def Let_def stack_remove_def)
  next
    case (Cons x fl)
    then show ?thesis using up True that[of fl]
      by (auto simp: upsert_sub_vault_depositor_seat_def get_free_node_address_on_vault_fixed_def Let_def
          stack_remove_def ebind_Inr require_Inr ok_or_Inr checked_add_Some)
  qed
  have new: "\<forall>p \<in> set (gv_claimed_seats v). \<not> (ds_owner (snd p) = owner \<and> ds_sub_vault_id (snd p) = k)"
    using True tree_lookup_NIL[of "gv_claimed_seats v" depositor_seat_cmp "ds_probe owner k"] vault_trees_ok(2)[OF ok]
    by (auto simp: depositor_seat_cmp_Equal ds_probe_def tree_ok_def)
  have "distinct (map (\<lambda>p. (ds_owner (snd p), ds_sub_vault_id (snd p))) ?t)"
    using ok new by (auto simp: tree_insert_distinct_map vault_ok_def ds_probe_def)
  moreover have "descending depositor_seat_cmp ?t"
    using ok by (simp add: vault_ok_def tree_insert_descending depositor_seat_cmp_total)
  moreover have "distinct (vault_blocks v') \<and> (\<forall>i \<in> set (vault_blocks v'). i < gv_num_bytes_allocated v')"
  proof (rule blocks_moved[OF ok])
    show "mset (vault_blocks v') = mset (vault_blocks v)"
      unfolding v' by (simp add: vault_blocks_def fl)
  qed (simp add: v')
  ultimately have "vault_ok v'" using ok v' by (simp add: vault_ok_def)
  then show ?thesis using v' by (auto simp: ds_probe_def)
qed

lemma remove_seat_ok:
  assumes ok: "vault_ok v" and rem: "remove_sub_vault_depositor_seat v owner k = Inr (v', i)"
  shows "vault_ok v'"
proof (cases "tree_lookup depositor_seat_cmp (ds_probe owner k) (gv_claimed_seats v) = NIL")
  case True
  then show ?thesis using ok rem by (simp add: remove_sub_vault_depositor_seat_def)
next
  case False
  have r: "i = tree_lookup depositor_seat_cmp (ds_probe owner k) (gv_claimed_seats v)"
    "v' = v\<lparr>gv_claimed_seats := tree_remove i (gv_claimed_seats v), gv_claimed_seat_count := gv_claimed_seat_count v - 1,
      gv_node_free_list := i # gv_node_free_list v\<rparr>"
    using rem False
    by (auto simp: remove_sub_vault_depositor_seat_def release_node_address_on_vault_fixed_def stack_add_def Let_def
        ok_or_Inr checked_sub_Some elim!: ebind_InrE)
  have t: "tree_ok depositor_seat_cmp (gv_claimed_seats v)" using vault_trees_ok(2)[OF ok] .
  then have dm: "distinct (map fst (gv_claimed_seats v))" by (simp add: tree_ok_def)
  obtain seat where "(i, seat) \<in> set (gv_claimed_seats v)" using tree_lookup_hit[OF False] r(1) by blast
  then obtain as bs where sp: "gv_claimed_seats v = as @ (i, seat) # bs" "tree_remove i (gv_claimed_seats v) = as @ bs"
    using tree_split[OF dm] by blast
  have v'_eq: "v' = v\<lparr>gv_claimed_seats := as @ bs, gv_claimed_seat_count := gv_claimed_seat_count v - 1,
      gv_node_free_list := i # gv_node_free_list v\<rparr>" using r(2) sp(2) by simp
  have "descending depositor_seat_cmp (as @ bs)" using tree_remove_ok[OF t, of i] sp(2) by (simp add: tree_ok_def)
  moreover have "distinct (vault_blocks v') \<and> (\<forall>i \<in> set (vault_blocks v'). i < gv_num_bytes_allocated v')"
  proof (rule blocks_moved[OF ok])
    show "mset (vault_blocks v') = mset (vault_blocks v)"
      unfolding r(2) by (simp add: vault_blocks_def sp(2)) (simp add: sp(1))
  qed (simp add: r(2))
  ultimately show ?thesis using ok unfolding vault_ok_def by (simp add: v'_eq sp(1))
qed

section \<open>Properties\<close>

text \<open>C8. Accrual keeps a sub-vault sound. A sound sub-vault stays sound and inside its widths; the
  principal moves exactly by the mark-to-market change of the idle atoms, which cannot lose more
  than the idle atoms; the assets move by that change plus the loan yield; shares and the atoms
  out on loans or waiting to be claimed do not move, and the yield indices never fall.\<close>

theorem accrual_keeps_sub_vault_sound:
  assumes "sv_wf s" "sv_sound s" "sv_last_accrue_unix s < now" "now < i64_lim" "cv < u128_lim"
    and "0 < sv_total_principal_atoms s" "accrue_sub_vault s now cv = Inr s'"
  shows "sv_wf s' \<and> sv_sound s' \<and>
    int (sv_total_principal_atoms s') = int (sv_total_principal_atoms s) + idle_change s cv \<and>
    int (sv_total_assets_atoms s') = int (sv_total_assets_atoms s) + idle_change s cv + int (loan_yield s now) \<and>
    - int (idle_atoms s) \<le> idle_change s cv \<and> sv_accrue_frame s s' \<and>
    sv_cumulative_supply_yield_index_scaled s \<le> sv_cumulative_supply_yield_index_scaled s' \<and>
    sv_cumulative_delta_yield_index_scaled s \<le> sv_cumulative_delta_yield_index_scaled s'"
  using assms(1,2,4,5,7)
proof (cases rule: accrue_sub_vault_cases)
  case step
  then show ?thesis using accrue_sub_vault_wf[OF assms(1,2,4,5,7)] by blast
qed (use assms in simp_all)

definition example_sub_vault :: sub_vault where
  "example_sub_vault = (sv_new_empty 1 5 8000 31536000)\<lparr> sv_total_shares := 1000, sv_total_assets_atoms := 1000,
     sv_total_principal_atoms := 1000, sv_deployed_principal_atoms := 400, sv_total_weighted_net_rate_bps := 400 * 600,
     sv_last_supply_share_value_fp48 := SCALE, sv_liquidation_ltv_bps := 8200, sv_curator_fee_bps := 1000 \<rparr>"

lemmas vault_eval = accrue_sub_vault_def accrue_idle_delta_def accrue_assets_def accrue_indices_def
  i64_checked_sub_def checked_add_def checked_sub_def checked_mul_def narrow_def mul_div_eq Let_def lim_defs
  BPS_PER_UNIT_def SECONDS_PER_YEAR_def fp48_is_zero_def fp48_ZERO_def ACCRUE_INDEX_SCALE_def SCALE_def
  restore_assets_principal_invariant_def example_sub_vault_def sv_new_empty_def

lemma example_sub_vault_sound: "sv_wf example_sub_vault" "sv_sound example_sub_vault"
  by (simp_all add: vault_eval sv_wf_def sv_sound_def)

theorem accrual_keeps_sub_vault_sound_witness:
  "\<exists>s'. accrue_sub_vault example_sub_vault 31536000 (SCALE + SCALE div 10) = Inr s' \<and>
     sv_total_principal_atoms s' = 1059 \<and> sv_total_assets_atoms s' = 1083 \<and> sv_sound s'"
proof -
  obtain s' where ok: "accrue_sub_vault example_sub_vault 31536000 (SCALE + SCALE div 10) = Inr s'"
    and v: "sv_total_principal_atoms s' = 1059" "sv_total_assets_atoms s' = 1083"
    by (simp add: vault_eval)
  have "sv_sound s'"
    using accrual_keeps_sub_vault_sound[OF example_sub_vault_sound, of 31536000 "SCALE + SCALE div 10" s'] ok
    by (simp add: example_sub_vault_def sv_new_empty_def SCALE_def lim_defs)
  then show ?thesis using ok v by blast
qed

text \<open>Over-deployment stops the accrual: when the atoms out on loans or waiting to be claimed
  exceed the principal, the accrual fails instead of valuing idle atoms that are not there.\<close>

lemma accrual_rejects_over_deployment:
  assumes "sv_wf s" "sv_last_accrue_unix s < now" "now < i64_lim" "0 < sv_total_principal_atoms s"
    and "sv_total_principal_atoms s < sv_deployed_principal_atoms s + sv_pending_claim_atoms s"
  shows "accrue_sub_vault s now cv = Inl ArithmeticOverflow"
proof -
  have "accrue_idle_delta s cv = Inl ArithmeticOverflow"
    using assms(5)
    by (cases "sv_deployed_principal_atoms s \<le> sv_total_principal_atoms s")
      (auto simp: accrue_idle_delta_def checked_sub_def)
  moreover have "i64_checked_sub now (sv_last_accrue_unix s) = Some (now - sv_last_accrue_unix s)"
    using assms by (auto simp: i64_checked_sub_def sv_wf_def i64_lim_def)
  ultimately show ?thesis using assms(2,4)
    by (simp add: accrue_sub_vault_def checked_mul_def BPS_PER_UNIT_def SECONDS_PER_YEAR_def u128_lim_def)
qed

lemma accrual_rejects_over_deployment_witness:
  "accrue_sub_vault (example_sub_vault\<lparr>sv_pending_claim_atoms := 700\<rparr>) 100 SCALE = Inl ArithmeticOverflow"
  by (rule accrual_rejects_over_deployment) (simp_all add: vault_eval sv_wf_def)

text \<open>The operations of a vault on its order references and sub-vaults, and the vaults they reach.\<close>

inductive vault_reach :: "global_vault \<Rightarrow> global_vault \<Rightarrow> bool" for v0 where
  start: "vault_reach v0 v0"
| insert_ref: "vault_reach v0 v \<Longrightarrow> insert_sub_vault_order_ref v m k side r ts sq at = Inr (v', i) \<Longrightarrow> vault_reach v0 v'"
| remove_ref: "vault_reach v0 v \<Longrightarrow> remove_sub_vault_order_ref v m k = Inr (v', i) \<Longrightarrow> vault_reach v0 v'"
| remove_sub_vault: "vault_reach v0 v \<Longrightarrow> remove_sub_vault v k = Inr (v', i) \<Longrightarrow> vault_reach v0 v'"
| upsert_seat: "vault_reach v0 v \<Longrightarrow> upsert_sub_vault_depositor_seat v w k = Inr (v', i) \<Longrightarrow> vault_reach v0 v'"
| remove_seat: "vault_reach v0 v \<Longrightarrow> remove_sub_vault_depositor_seat v w k = Inr (v', i) \<Longrightarrow> vault_reach v0 v'"
| expand_sub: "vault_reach v0 v \<Longrightarrow> vault_expand_sub_vault_block v = Inr v' \<Longrightarrow> vault_reach v0 v'"
| expand_node: "vault_reach v0 v \<Longrightarrow> vault_expand_node_block v = Inr v' \<Longrightarrow> vault_reach v0 v'"

lemma vault_reach_ok: "vault_reach v0 v \<Longrightarrow> vault_ok v0 \<Longrightarrow> vault_ok v"
  by (induction rule: vault_reach.induct)
    (blast dest: insert_order_ref_ok remove_order_ref_ok remove_sub_vault_ok upsert_seat_ok remove_seat_ok
      expand_sub_vault_block_ok expand_node_block_ok)+

text \<open>C7. A removed sub-vault leaves nothing behind: in any vault reached from a well-formed one, when
  \<open>remove_sub_vault\<close> removes a sub-vault, that sub-vault was empty, no reference to one of its
  resting asks is left on the vault, its id is no longer found, the references of all other sub-vaults are
  as they were and the vault stays well formed.\<close>

theorem removed_sub_vault_has_no_orders:
  assumes "vault_ok v0" "vault_reach v0 v" "remove_sub_vault v k = Inr (v', i)" "i \<noteq> NIL"
  shows "vault_ok v' \<and> gv_market_orders v' = gv_market_orders v \<and>
    refs_of (gv_market_orders v') k = 0 \<and> sub_vault_index v' k = NIL \<and>
    (\<exists>s. get_sub_vault v i = Inr s \<and> sv_sub_vault_id s = k \<and> sv_is_empty s)"
proof -
  have ok: "vault_ok v" using vault_reach_ok[OF assms(2,1)] .
  note r = remove_sub_vault_ok[OF ok assms(3)]
  obtain s where s: "(i, s) \<in> set (gv_sub_vaults v)" "sv_sub_vault_id s = k" "sv_is_empty s"
    using r assms(4) by blast
  have "refs_of (gv_market_orders v) k = sv_open_orders_count s" using ok s by (auto simp: vault_ok_def)
  moreover have "tree_get (gv_sub_vaults v) i = Some s"
    using vault_trees_ok(1)[OF ok] s(1) tree_get_iff[of "gv_sub_vaults v" i s] by (simp add: tree_ok_def)
  then have "get_sub_vault v i = Inr s" by (simp add: get_sub_vault_def)
  moreover have "sub_vault_index v' k = NIL" using r sub_vault_index_miss[of v' k] by blast
  moreover note \<open>get_sub_vault v i = Inr s\<close>
  ultimately show ?thesis using r s by (simp add: sv_is_empty_def)
qed

definition example_vault :: global_vault where
  "example_vault = (gv_new_empty 11 5 0 0 0 255 0)\<lparr> gv_num_bytes_allocated := 512 + 160, gv_sub_vault_count := 1,
     gv_next_sub_vault_id := 2, gv_sub_vaults := [(0, sv_new_empty 1 5 8000 31536000)], gv_node_free_list := [512] \<rparr>"

lemma example_vault_ok: "vault_ok example_vault"
  by (simp add: vault_ok_def example_vault_def gv_new_empty_def vault_blocks_def descending_def u32_lim_def
      sv_new_empty_def refs_of_def)

lemmas vault_node_eval = insert_sub_vault_order_ref_def get_free_node_address_on_vault_fixed_def stack_remove_def
  stack_add_def bump_sub_vault_order_count_def sub_vault_index_def sub_vault_cmp_def get_sub_vault_def tree_get_def
  set_sub_vault_def tree_update_def cmp_nat_def NIL_def u32_lim_def u16_lim_def checked_add_def checked_sub_def
  remove_sub_vault_order_ref_def order_ref_cmp_def or_probe_def release_node_address_on_vault_fixed_def
  tree_remove_def remove_sub_vault_def release_sub_vault_address_on_vault_fixed_def sv_is_empty_def require_def
  example_vault_def gv_new_empty_def sv_new_empty_def Let_def

theorem removed_sub_vault_has_no_orders_witness:
  "\<exists>v1 v2 v3. insert_sub_vault_order_ref example_vault 77 1 1 700 86400 0 50 = Inr (v1, 512) \<and>
     remove_sub_vault v1 1 = Inl (Custom InvalidArgument) \<and>
     remove_sub_vault_order_ref v1 77 1 = Inr (v2, 512) \<and> remove_sub_vault v2 1 = Inr (v3, 0) \<and>
     sub_vault_index v3 1 = NIL"
proof -
  obtain v1 where v1: "insert_sub_vault_order_ref example_vault 77 1 1 700 86400 0 50 = Inr (v1, 512)"
      "remove_sub_vault v1 1 = Inl (Custom InvalidArgument)" "\<exists>v2. remove_sub_vault_order_ref v1 77 1 = Inr (v2, 512) \<and>
        (\<exists>v3. remove_sub_vault v2 1 = Inr (v3, 0))"
    by (simp add: vault_node_eval)
  then obtain v2 v3 where v2: "remove_sub_vault_order_ref v1 77 1 = Inr (v2, 512)" "remove_sub_vault v2 1 = Inr (v3, 0)"
    by blast
  have "vault_reach example_vault v2"
    by (rule vault_reach.remove_ref[OF vault_reach.insert_ref[OF vault_reach.start v1(1)] v2(1)])
  then have "sub_vault_index v3 1 = NIL"
    using removed_sub_vault_has_no_orders[OF example_vault_ok _ v2(2)] by (simp add: NIL_def)
  then show ?thesis using v1 v2 by blast
qed

text \<open>C12. One resting ask per market and sub-vault: inserting a reference fails when one exists for
  the same market and sub-vault, and a successful insertion keeps the vault well formed.\<close>

theorem order_ref_unique:
  assumes "vault_ok v" "vault_reach v v1" "(j, ref) \<in> set (gv_market_orders v1)"
  shows "insert_sub_vault_order_ref v1 (or_market ref) (or_sub_vault_id ref) side r ts sq at =
    Inl (Custom SubVaultOrderExists)"
proof -
  have ok: "vault_ok v1" using vault_reach_ok[OF assms(2,1)] .
  have "tree_lookup order_ref_cmp (or_probe (or_market ref) (or_sub_vault_id ref)) (gv_market_orders v1) \<noteq> NIL"
    using tree_lookup_NIL[of "gv_market_orders v1"] vault_trees_ok(3)[OF ok] assms(3)
    by (auto simp: order_ref_cmp_Equal or_probe_def tree_ok_def)
  then show ?thesis by (simp add: insert_sub_vault_order_ref_def)
qed

theorem order_ref_unique_witness:
  "\<exists>v1. insert_sub_vault_order_ref example_vault 77 1 1 700 86400 0 50 = Inr (v1, 512) \<and>
     insert_sub_vault_order_ref v1 77 1 1 650 86400 1 60 = Inl (Custom SubVaultOrderExists)"
proof -
  obtain v1 where v1: "insert_sub_vault_order_ref example_vault 77 1 1 700 86400 0 50 = Inr (v1, 512)"
    by (simp add: vault_node_eval)
  obtain ref where "(512, ref) \<in> set (gv_market_orders v1)" "or_market ref = 77" "or_sub_vault_id ref = 1"
    using insert_order_ref_ok[OF example_vault_ok v1] by blast
  then show ?thesis
    using order_ref_unique[OF example_vault_ok vault_reach.insert_ref[OF vault_reach.start v1], of 512 ref] v1 by auto
qed

end
