(* ===== verification/Market_State.thy ===== *)
theory Market_State
  imports Hypertree Loan Ltv
begin

text \<open>The market account: header and node types (\<open>state/market.rs\<close>, \<open>state/claimed_seat.rs\<close>,
  \<open>state/resting_order.rs\<close>), the predicates of \<open>state/utils.rs\<close>, the block allocator, seat
  balances, encumbrance and the direct operations on seats and resting orders
  (\<open>state/market_helpers.rs\<close>). The roots, best indices and the free-list head of the header are
  represented by the trees and the free list. Log emission is not modelled.\<close>

definition MARKET_BLOCK_SIZE :: nat where "MARKET_BLOCK_SIZE = 160"
definition MARKET_FIXED_DISCRIMINANT :: nat where "MARKET_FIXED_DISCRIMINANT = 0x7964656C74614D4B"
definition MIN_PRINCIPAL_ATOMS :: nat where "MIN_PRINCIPAL_ATOMS = 1"
definition NO_EXPIRATION_LAST_VALID_UNIX_TS :: int where "NO_EXPIRATION_LAST_VALID_UNIX_TS = 0"
definition DEFAULT_GRACE_PERIOD_SECONDS :: nat where "DEFAULT_GRACE_PERIOD_SECONDS = 86400"
definition MATCHED_LOAN_FLAG_VAULT_LENDER :: nat where "MATCHED_LOAN_FLAG_VAULT_LENDER = 1"
definition MATCHED_LOAN_FLAG_VAULT_PRESETTLED :: nat where "MATCHED_LOAN_FLAG_VAULT_PRESETTLED = 8"
definition MARGINFI_ROUNDING_RESERVE_ATOMS :: nat where "MARGINFI_ROUNDING_RESERVE_ATOMS = 1"
definition RESIDUAL_MODE_P2POOL_FALLBACK :: nat where "RESIDUAL_MODE_P2POOL_FALLBACK = 0"
definition RESIDUAL_MODE_REST :: nat where "RESIDUAL_MODE_REST = 1"
definition RESIDUAL_MODE_DROP :: nat where "RESIDUAL_MODE_DROP = 2"

section \<open>Node types\<close>

record claimed_seat =
  cs_owner :: pubkey
  cs_debt_withdrawable_shares :: nat
  cs_debt_encumbered_shares :: nat
  cs_collateral_withdrawable_shares :: nat
  cs_collateral_encumbered_shares :: nat
  cs_open_borrow_count :: nat
  cs_open_lend_count :: nat
  cs_owner_kind :: nat
  cs_sub_vault_id :: nat

definition cs_new_empty :: "pubkey \<Rightarrow> nat \<Rightarrow> nat \<Rightarrow> claimed_seat" where
  "cs_new_empty owner owner_kind sub_vault_id =
     \<lparr> cs_owner = owner, cs_debt_withdrawable_shares = 0, cs_debt_encumbered_shares = 0,
       cs_collateral_withdrawable_shares = 0, cs_collateral_encumbered_shares = 0,
       cs_open_borrow_count = 0, cs_open_lend_count = 0, cs_owner_kind = owner_kind,
       cs_sub_vault_id = sub_vault_id \<rparr>"

definition claimed_seat_cmp :: "claimed_seat \<Rightarrow> claimed_seat \<Rightarrow> ordering" where
  "claimed_seat_cmp a b =
     then_cmp (cmp_nat (cs_owner_kind a) (cs_owner_kind b))
       (then_cmp (cmp_nat (cs_owner a) (cs_owner b)) (cmp_nat (cs_sub_vault_id a) (cs_sub_vault_id b)))"

definition claimed_seat_eq :: "claimed_seat \<Rightarrow> claimed_seat \<Rightarrow> bool" where
  "claimed_seat_eq a b =
     (cs_owner_kind a = cs_owner_kind b \<and> cs_owner a = cs_owner b \<and> cs_sub_vault_id a = cs_sub_vault_id b)"

datatype side = Bid | Ask
datatype order_type = Limit | ImmediateOrCancel | PostOnly

fun side_u8 :: "side \<Rightarrow> nat" where
  "side_u8 Bid = 0"
| "side_u8 Ask = 1"

fun order_type_u8 :: "order_type \<Rightarrow> nat" where
  "order_type_u8 Limit = 0"
| "order_type_u8 ImmediateOrCancel = 1"
| "order_type_u8 PostOnly = 2"

definition order_type_can_rest :: "order_type \<Rightarrow> bool" where
  "order_type_can_rest t = (t \<noteq> ImmediateOrCancel)"

definition order_type_can_take :: "order_type \<Rightarrow> bool" where
  "order_type_can_take t = (t \<noteq> PostOnly)"

record resting_order =
  ro_trader_seat_index :: data_index
  ro_sequence_number :: nat
  ro_principal_atoms :: nat
  ro_collateral_atoms :: nat
  ro_last_valid_unix_ts :: int
  ro_term_seconds :: nat
  ro_rate_bps :: nat
  ro_side :: nat
  ro_order_type :: nat
  ro_flags :: nat
  ro_share_price_snapshot :: fp48
  ro_ltv_buffer_bps :: nat

definition ro_new_primary ::
  "data_index \<Rightarrow> nat \<Rightarrow> side \<Rightarrow> order_type \<Rightarrow> nat \<Rightarrow> nat \<Rightarrow> nat \<Rightarrow> nat \<Rightarrow> int \<Rightarrow> nat \<Rightarrow> nat \<Rightarrow> fp48 \<Rightarrow> resting_order" where
  "ro_new_primary trader_seat_index sequence_number sd ot rate_bps term_seconds principal_atoms
     collateral_atoms last_valid_unix_ts flags ltv_buffer_bps share_price_snapshot_fp48 =
     \<lparr> ro_trader_seat_index = trader_seat_index, ro_sequence_number = sequence_number,
       ro_principal_atoms = principal_atoms, ro_collateral_atoms = collateral_atoms,
       ro_last_valid_unix_ts = last_valid_unix_ts, ro_term_seconds = term_seconds,
       ro_rate_bps = rate_bps, ro_side = side_u8 sd, ro_order_type = order_type_u8 ot,
       ro_flags = flags, ro_share_price_snapshot = share_price_snapshot_fp48,
       ro_ltv_buffer_bps = ltv_buffer_bps \<rparr>"

definition ro_is_expired :: "resting_order \<Rightarrow> int \<Rightarrow> bool" where
  "ro_is_expired o1 now_unix_ts =
     (ro_last_valid_unix_ts o1 \<noteq> NO_EXPIRATION_LAST_VALID_UNIX_TS \<and> ro_last_valid_unix_ts o1 < now_unix_ts)"

definition ro_reduce :: "resting_order \<Rightarrow> nat \<Rightarrow> resting_order res" where
  "ro_reduce o1 atoms =
     ebind (ok_or (checked_sub (ro_principal_atoms o1) atoms) ArithmeticOverflow) (\<lambda>p.
     Inr (o1\<lparr>ro_principal_atoms := p\<rparr>))"

definition ro_increase :: "resting_order \<Rightarrow> nat \<Rightarrow> resting_order res" where
  "ro_increase o1 atoms =
     ebind (ok_or (checked_add u64_lim (ro_principal_atoms o1) atoms) ArithmeticOverflow) (\<lambda>p.
     Inr (o1\<lparr>ro_principal_atoms := p\<rparr>))"

text \<open>The order of a bookside: the best order is the greatest on both sides.\<close>

definition resting_order_cmp :: "resting_order \<Rightarrow> resting_order \<Rightarrow> ordering" where
  "resting_order_cmp a b =
     then_cmp (if ro_side a = side_u8 Bid then cmp_nat (ro_rate_bps a) (ro_rate_bps b)
               else cmp_nat (ro_rate_bps b) (ro_rate_bps a))
       (cmp_nat (ro_sequence_number b) (ro_sequence_number a))"

definition resting_order_eq :: "resting_order \<Rightarrow> resting_order \<Rightarrow> bool" where
  "resting_order_eq a b = (ro_rate_bps a = ro_rate_bps b \<and> ro_sequence_number a = ro_sequence_number b)"

record matched_loan =
  ml_sequence :: nat
  ml_borrower_marginfi_borrow_shares :: nat
  ml_principal_atoms :: nat
  ml_origination_atoms :: nat
  ml_collateral_atoms :: nat
  ml_matched_at_unix :: int
  ml_lender_seat_index :: data_index
  ml_borrower_seat_index :: data_index
  ml_term_seconds :: nat
  ml_borrower_rate_bps :: nat
  ml_lender_rate_bps :: nat
  ml_loan_type :: nat
  ml_flags :: nat
  ml_curator_fee_bps_snapshot :: nat
  ml_origination_ltv_bps :: nat
  ml_liquidation_ltv_bps :: nat
  ml_lender_debt_share_price_snapshot_fp48 :: fp48
  ml_borrower_collateral_share_price_snapshot_fp48 :: fp48

definition matched_loan_cmp :: "matched_loan \<Rightarrow> matched_loan \<Rightarrow> ordering" where
  "matched_loan_cmp a b = cmp_nat (ml_sequence a) (ml_sequence b)"

section \<open>The market\<close>

record fee_config =
  fc_protocol_fee_bps_floor :: nat
  fc_origination_bps :: nat
  fc_curator_split_bps :: nat
  fc_liquidation_keeper_bps :: nat
  fc_liquidation_protocol_bps :: nat
  fc_grace_period_seconds :: nat

definition fee_config_default :: fee_config where
  "fee_config_default =
     \<lparr> fc_protocol_fee_bps_floor = 0, fc_origination_bps = 0, fc_curator_split_bps = 0,
       fc_liquidation_keeper_bps = 0, fc_liquidation_protocol_bps = 0,
       fc_grace_period_seconds = DEFAULT_GRACE_PERIOD_SECONDS \<rparr>"

record market =
  mk_discriminator :: nat
  mk_version :: nat
  mk_debt_mint_decimals :: nat
  mk_collateral_mint_decimals :: nat
  mk_debt_vault_bump :: nat
  mk_collateral_vault_bump :: nat
  mk_debt_mint :: pubkey
  mk_collateral_mint :: pubkey
  mk_debt_vault :: pubkey
  mk_collateral_vault :: pubkey
  mk_accumulated_protocol_fee_shares :: nat
  mk_order_sequence_number :: nat
  mk_matched_loan_sequence :: nat
  mk_num_bytes_allocated :: nat
  mk_position_count :: nat
  mk_fee_config :: fee_config
  mk_lender_integration_account :: pubkey
  mk_borrower_integration_account :: pubkey
  mk_debt_lending_pool :: pubkey
  mk_collateral_lending_pool :: pubkey
  mk_marginfi_group :: pubkey
  mk_market_signer :: pubkey
  mk_market_signer_bump :: nat
  mk_lender_integration_account_bump :: nat
  mk_borrower_integration_account_bump :: nat
  mk_admin :: pubkey
  mk_pending_admin :: pubkey
  mk_is_paused :: nat
  mk_bids :: "resting_order tree"
  mk_asks :: "resting_order tree"
  mk_claimed_seats :: "claimed_seat tree"
  mk_matched_loans :: "matched_loan tree"
  mk_free_list :: "data_index list"

text \<open>The derivation of the vault address is the runtime's: a parameter.\<close>

definition mk_new_empty ::
  "(pubkey \<Rightarrow> pubkey \<Rightarrow> pubkey \<times> nat) \<Rightarrow> pubkey \<Rightarrow> nat \<Rightarrow> pubkey \<Rightarrow> nat \<Rightarrow> pubkey \<Rightarrow> market" where
  "mk_new_empty get_vault_address debt_mint debt_decimals collateral_mint collateral_decimals market_key =
     (let (debt_vault, debt_vault_bump) = get_vault_address market_key debt_mint;
          (collateral_vault, collateral_vault_bump) = get_vault_address market_key collateral_mint in
      \<lparr> mk_discriminator = MARKET_FIXED_DISCRIMINANT, mk_version = ACCOUNT_LAYOUT_VERSION,
        mk_debt_mint_decimals = debt_decimals, mk_collateral_mint_decimals = collateral_decimals,
        mk_debt_vault_bump = debt_vault_bump, mk_collateral_vault_bump = collateral_vault_bump,
        mk_debt_mint = debt_mint, mk_collateral_mint = collateral_mint,
        mk_debt_vault = debt_vault, mk_collateral_vault = collateral_vault,
        mk_accumulated_protocol_fee_shares = 0, mk_order_sequence_number = 0,
        mk_matched_loan_sequence = 0, mk_num_bytes_allocated = 0, mk_position_count = 0,
        mk_fee_config = fee_config_default, mk_lender_integration_account = default_pubkey,
        mk_borrower_integration_account = default_pubkey, mk_debt_lending_pool = default_pubkey,
        mk_collateral_lending_pool = default_pubkey, mk_marginfi_group = default_pubkey,
        mk_market_signer = default_pubkey, mk_market_signer_bump = 0,
        mk_lender_integration_account_bump = 0, mk_borrower_integration_account_bump = 0,
        mk_admin = default_pubkey, mk_pending_admin = default_pubkey, mk_is_paused = 0,
        mk_bids = [], mk_asks = [], mk_claimed_seats = [], mk_matched_loans = [], mk_free_list = [] \<rparr>)"

definition mk_has_free_block :: "market \<Rightarrow> bool" where
  "mk_has_free_block m = (mk_free_list m \<noteq> [])"

definition mk_verify_discriminant :: "market \<Rightarrow> unit res" where
  "mk_verify_discriminant m = require (mk_discriminator m = MARKET_FIXED_DISCRIMINANT) InvalidAccountData"

definition mk_verify_version :: "market \<Rightarrow> unit res" where
  "mk_verify_version m = require (mk_version m = ACCOUNT_LAYOUT_VERSION) InvalidAccountData"

section \<open>Node access\<close>

text \<open>Reading a block that holds no node of the expected tree aborts in the model.\<close>

definition get_helper_seat :: "market \<Rightarrow> data_index \<Rightarrow> claimed_seat res" where
  "get_helper_seat m index = ok_or (tree_get (mk_claimed_seats m) index) Panic"

definition set_seat :: "market \<Rightarrow> data_index \<Rightarrow> claimed_seat \<Rightarrow> market" where
  "set_seat m index s = m\<lparr>mk_claimed_seats := tree_update index (\<lambda>_. s) (mk_claimed_seats m)\<rparr>"

definition get_helper_order :: "market \<Rightarrow> data_index \<Rightarrow> resting_order res" where
  "get_helper_order m index =
     (case tree_get (mk_asks m) index of
        Some o1 \<Rightarrow> Inr o1
      | None \<Rightarrow> ok_or (tree_get (mk_bids m) index) Panic)"

definition get_helper_matched_loan :: "market \<Rightarrow> data_index \<Rightarrow> matched_loan res" where
  "get_helper_matched_loan m index = ok_or (tree_get (mk_matched_loans m) index) Panic"

definition seat_lookup :: "market \<Rightarrow> pubkey \<Rightarrow> nat \<Rightarrow> nat \<Rightarrow> data_index" where
  "seat_lookup m owner owner_kind sub_vault_id =
     tree_lookup claimed_seat_cmp (cs_new_empty owner owner_kind sub_vault_id) (mk_claimed_seats m)"

definition verify_live_seat :: "market \<Rightarrow> data_index \<Rightarrow> nat \<Rightarrow> claimed_seat res" where
  "verify_live_seat m seat_index expected_owner_kind =
     ebind (require (seat_index \<noteq> NIL) (Custom IncorrectAccount)) (\<lambda>_.
     ebind (get_helper_seat m seat_index) (\<lambda>seat.
     let resolved = seat_lookup m (cs_owner seat) (cs_owner_kind seat) (cs_sub_vault_id seat) in
     ebind (require (resolved = seat_index) (Custom IncorrectAccount)) (\<lambda>_.
     ebind (require (cs_owner_kind seat = expected_owner_kind) (Custom IncorrectAccount)) (\<lambda>_.
     Inr seat))))"

definition assert_already_has_seat :: "data_index \<Rightarrow> unit res" where
  "assert_already_has_seat seat_index = require (seat_index \<noteq> NIL) (Custom NoSeatClaimed)"

definition assert_not_already_expired :: "int \<Rightarrow> int \<Rightarrow> unit res" where
  "assert_not_already_expired last_valid_unix_ts now =
     (if last_valid_unix_ts \<noteq> 0 \<and> last_valid_unix_ts < now then Inl (Custom OrderAlreadyExpired) else Inr ())"

definition assert_can_take :: "order_type \<Rightarrow> unit res" where
  "assert_can_take ot = require (ot \<noteq> PostOnly) (Custom PostOnlyWouldCross)"

definition get_seat_index_with_hint :: "market \<Rightarrow> pubkey \<Rightarrow> data_index option \<Rightarrow> data_index res" where
  "get_seat_index_with_hint m signer hint =
     ebind (case hint of
         None \<Rightarrow> Inr None
       | Some idx \<Rightarrow>
           if idx \<noteq> NIL then
             ebind (get_helper_seat m idx) (\<lambda>seat.
             if cs_owner seat = signer \<and> cs_owner_kind seat = OWNER_KIND_USER \<and> cs_sub_vault_id seat = 0
             then Inr (Some idx) else Inr None)
           else Inr None) (\<lambda>hit.
     case hit of
       Some idx \<Rightarrow> Inr idx
     | None \<Rightarrow>
         let idx = seat_lookup m signer OWNER_KIND_USER 0 in
         if idx = NIL then Inl (Custom NoSeatClaimed) else Inr idx)"

section \<open>Blocks\<close>

definition get_free_address_on_market_fixed :: "market \<Rightarrow> data_index \<times> market" where
  "get_free_address_on_market_fixed m =
     (let (i, fl) = stack_remove (mk_free_list m) in (i, m\<lparr>mk_free_list := fl\<rparr>))"

definition release_address_on_market_fixed :: "market \<Rightarrow> data_index \<Rightarrow> market" where
  "release_address_on_market_fixed m index = m\<lparr>mk_free_list := stack_add index (mk_free_list m)\<rparr>"

definition market_expand :: "market \<Rightarrow> market res" where
  "market_expand m =
     ebind (ok_or (checked_add u32_lim (mk_num_bytes_allocated m) MARKET_BLOCK_SIZE) ArithmeticOverflow) (\<lambda>n.
     Inr (m\<lparr>mk_free_list := stack_add (mk_num_bytes_allocated m) (mk_free_list m),
            mk_num_bytes_allocated := n\<rparr>))"

section \<open>Seat balances\<close>

datatype balance_axis = Debt | Collateral
datatype balance_bucket = Withdrawable | Encumbered
datatype balance_sign = Plus | Minus

fun seat_field :: "balance_axis \<Rightarrow> balance_bucket \<Rightarrow> claimed_seat \<Rightarrow> nat" where
  "seat_field Debt Withdrawable s = cs_debt_withdrawable_shares s"
| "seat_field Debt Encumbered s = cs_debt_encumbered_shares s"
| "seat_field Collateral Withdrawable s = cs_collateral_withdrawable_shares s"
| "seat_field Collateral Encumbered s = cs_collateral_encumbered_shares s"

fun set_seat_field :: "balance_axis \<Rightarrow> balance_bucket \<Rightarrow> nat \<Rightarrow> claimed_seat \<Rightarrow> claimed_seat" where
  "set_seat_field Debt Withdrawable v s = s\<lparr>cs_debt_withdrawable_shares := v\<rparr>"
| "set_seat_field Debt Encumbered v s = s\<lparr>cs_debt_encumbered_shares := v\<rparr>"
| "set_seat_field Collateral Withdrawable v s = s\<lparr>cs_collateral_withdrawable_shares := v\<rparr>"
| "set_seat_field Collateral Encumbered v s = s\<lparr>cs_collateral_encumbered_shares := v\<rparr>"

definition update_balance ::
  "claimed_seat \<Rightarrow> balance_axis \<Rightarrow> balance_bucket \<Rightarrow> balance_sign \<Rightarrow> nat \<Rightarrow> claimed_seat res" where
  "update_balance seat axis bucket sign atoms =
     ebind (case sign of
         Plus \<Rightarrow> ok_or (checked_add u128_lim (seat_field axis bucket seat) atoms) ArithmeticOverflow
       | Minus \<Rightarrow> ok_or (checked_sub (seat_field axis bucket seat) atoms)
                    (Custom InsufficientWithdrawableBalance)) (\<lambda>v.
     Inr (set_seat_field axis bucket v seat))"

definition atoms_to_shares_at_snapshot :: "nat \<Rightarrow> fp48 \<Rightarrow> nat res" where
  "atoms_to_shares_at_snapshot atoms snapshot =
     (if fp48_is_zero snapshot then Inl (Custom MathDivisionByZero)
      else fp48_checked_div (from_atoms atoms) snapshot)"

definition encumber_for_order :: "market \<Rightarrow> data_index \<Rightarrow> side \<Rightarrow> nat \<Rightarrow> nat \<Rightarrow> market res" where
  "encumber_for_order m seat_index sd principal_shares collateral_shares =
     ebind (get_helper_seat m seat_index) (\<lambda>seat.
     ebind (case sd of
         Bid \<Rightarrow>
           ebind (update_balance seat Collateral Withdrawable Minus collateral_shares) (\<lambda>s1.
           update_balance s1 Collateral Encumbered Plus collateral_shares)
       | Ask \<Rightarrow>
           ebind (update_balance seat Debt Withdrawable Minus principal_shares) (\<lambda>s1.
           ebind (update_balance s1 Debt Encumbered Plus principal_shares) (\<lambda>s2.
           ebind (ok_or (checked_add u32_lim (cs_open_lend_count s2) 1) ArithmeticOverflow) (\<lambda>c.
           Inr (s2\<lparr>cs_open_lend_count := c\<rparr>))))) (\<lambda>s'.
     Inr (set_seat m seat_index s')))"

definition unencumber_for_order :: "market \<Rightarrow> data_index \<Rightarrow> side \<Rightarrow> nat \<Rightarrow> nat \<Rightarrow> market res" where
  "unencumber_for_order m seat_index sd principal_shares collateral_shares =
     ebind (get_helper_seat m seat_index) (\<lambda>seat.
     ebind (case sd of
         Bid \<Rightarrow>
           ebind (update_balance seat Collateral Encumbered Minus collateral_shares) (\<lambda>s1.
           update_balance s1 Collateral Withdrawable Plus collateral_shares)
       | Ask \<Rightarrow>
           ebind (update_balance seat Debt Encumbered Minus principal_shares) (\<lambda>s1.
           ebind (update_balance s1 Debt Withdrawable Plus principal_shares) (\<lambda>s2.
           ebind (ok_or (checked_sub (cs_open_lend_count s2) 1) ArithmeticOverflow) (\<lambda>c.
           Inr (s2\<lparr>cs_open_lend_count := c\<rparr>))))) (\<lambda>s'.
     Inr (set_seat m seat_index s')))"

definition release_loan_collateral :: "market \<Rightarrow> data_index \<Rightarrow> nat \<Rightarrow> nat \<Rightarrow> market res" where
  "release_loan_collateral m seat_index total_collateral_shares returned_shares =
     ebind (get_helper_seat m seat_index) (\<lambda>seat.
     ebind (require (total_collateral_shares \<le> cs_collateral_encumbered_shares seat)
              (Custom InsufficientEncumberedCollateral)) (\<lambda>_.
     ebind (ok_or (checked_sub (cs_collateral_encumbered_shares seat) total_collateral_shares)
              ArithmeticOverflow) (\<lambda>e.
     let credit = min returned_shares total_collateral_shares in
     ebind (ok_or (checked_add u128_lim (cs_collateral_withdrawable_shares seat) credit)
              ArithmeticOverflow) (\<lambda>w.
     Inr (set_seat m seat_index (seat\<lparr>cs_collateral_encumbered_shares := e,
                                     cs_collateral_withdrawable_shares := w\<rparr>))))))"

section \<open>Seat and order operations\<close>

definition claim_seat_with_sub_vault :: "market \<Rightarrow> pubkey \<Rightarrow> nat \<Rightarrow> nat \<Rightarrow> market res" where
  "claim_seat_with_sub_vault m owner owner_kind sub_vault_id =
     (if seat_lookup m owner owner_kind sub_vault_id \<noteq> NIL then Inl (Custom AlreadyClaimedSeat)
      else
        let (free_addr, m1) = get_free_address_on_market_fixed m in
        ebind (require (free_addr \<noteq> NIL) AccountDataTooSmall) (\<lambda>_.
        let seat = cs_new_empty owner owner_kind sub_vault_id;
            m2 = m1\<lparr>mk_claimed_seats := tree_insert claimed_seat_cmp free_addr seat (mk_claimed_seats m1)\<rparr> in
        ebind (ok_or (checked_add u32_lim (mk_position_count m2) 1) ArithmeticOverflow) (\<lambda>n.
        Inr (m2\<lparr>mk_position_count := n\<rparr>))))"

definition claim_seat :: "market \<Rightarrow> pubkey \<Rightarrow> nat \<Rightarrow> market res" where
  "claim_seat m owner owner_kind = claim_seat_with_sub_vault m owner owner_kind 0"

definition deposit_to_seat :: "market \<Rightarrow> data_index \<Rightarrow> nat \<Rightarrow> bool \<Rightarrow> market res" where
  "deposit_to_seat m seat_index shares is_debt =
     ebind (get_helper_seat m seat_index) (\<lambda>seat.
     let axis = (if is_debt then Debt else Collateral) in
     ebind (update_balance seat axis Withdrawable Plus shares) (\<lambda>s'.
     Inr (set_seat m seat_index s')))"

definition withdraw_from_seat :: "market \<Rightarrow> data_index \<Rightarrow> nat \<Rightarrow> bool \<Rightarrow> market res" where
  "withdraw_from_seat m seat_index shares is_debt =
     ebind (get_helper_seat m seat_index) (\<lambda>seat.
     let axis = (if is_debt then Debt else Collateral) in
     ebind (update_balance seat axis Withdrawable Minus shares) (\<lambda>s'.
     Inr (set_seat m seat_index s')))"

definition withdrawable_shares_for_seat :: "market \<Rightarrow> data_index \<Rightarrow> bool \<Rightarrow> nat res" where
  "withdrawable_shares_for_seat m seat_index is_debt =
     ebind (get_helper_seat m seat_index) (\<lambda>seat.
     Inr (if is_debt then cs_debt_withdrawable_shares seat else cs_collateral_withdrawable_shares seat))"

definition rest_order :: "market \<Rightarrow> data_index \<Rightarrow> resting_order \<Rightarrow> market" where
  "rest_order m order_index order =
     (if ro_side order = side_u8 Ask
      then m\<lparr>mk_asks := tree_insert resting_order_cmp order_index order (mk_asks m)\<rparr>
      else m\<lparr>mk_bids := tree_insert resting_order_cmp order_index order (mk_bids m)\<rparr>)"

definition remove_order_from_tree_and_free :: "market \<Rightarrow> data_index \<Rightarrow> market res" where
  "remove_order_from_tree_and_free m order_index =
     ebind (get_helper_order m order_index) (\<lambda>order.
     let m1 = (if ro_side order = side_u8 Ask
               then m\<lparr>mk_asks := tree_remove order_index (mk_asks m)\<rparr>
               else m\<lparr>mk_bids := tree_remove order_index (mk_bids m)\<rparr>)
     in Inr (release_address_on_market_fixed m1 order_index))"

definition insert_matched_loan :: "market \<Rightarrow> data_index \<Rightarrow> matched_loan \<Rightarrow> market" where
  "insert_matched_loan m index node =
     m\<lparr>mk_matched_loans := tree_insert matched_loan_cmp index node (mk_matched_loans m)\<rparr>"

definition next_maker_index :: "market \<Rightarrow> data_index \<Rightarrow> data_index" where
  "next_maker_index m current = tree_next_lower (mk_asks m) current"

section \<open>The orders of the trees\<close>

text \<open>Bids and asks live in separate trees, and \<open>resting_order_cmp\<close> is a total order on each.\<close>

definition bid_cmp :: "resting_order \<Rightarrow> resting_order \<Rightarrow> ordering" where
  "bid_cmp a b = then_cmp (cmp_nat (ro_rate_bps a) (ro_rate_bps b))
     (cmp_nat (ro_sequence_number b) (ro_sequence_number a))"

definition ask_cmp :: "resting_order \<Rightarrow> resting_order \<Rightarrow> ordering" where
  "ask_cmp a b = then_cmp (cmp_nat (ro_rate_bps b) (ro_rate_bps a))
     (cmp_nat (ro_sequence_number b) (ro_sequence_number a))"

lemma resting_order_cmp_bid: "ro_side a = 0 \<Longrightarrow> resting_order_cmp a = bid_cmp a"
  by (simp add: resting_order_cmp_def bid_cmp_def fun_eq_iff)

lemma resting_order_cmp_ask: "ro_side a \<noteq> 0 \<Longrightarrow> resting_order_cmp a = ask_cmp a"
  by (simp add: resting_order_cmp_def ask_cmp_def fun_eq_iff)

lemma tree_insert_cmp_cong: "cmp v = cmp' v \<Longrightarrow> tree_insert cmp i v t = tree_insert cmp' i v t"
  by (induction t) auto

lemma bid_cmp_total: "total_cmp bid_cmp"
  unfolding bid_cmp_def by (auto simp: total_cmp_def cmp_nat_def split: if_splits)

lemma ask_cmp_total: "total_cmp ask_cmp"
  unfolding ask_cmp_def by (auto simp: total_cmp_def cmp_nat_def split: if_splits)

lemma claimed_seat_cmp_total: "total_cmp claimed_seat_cmp"
  unfolding claimed_seat_cmp_def by (rule total_cmp_then2)

lemma matched_loan_cmp_total: "total_cmp matched_loan_cmp"
  unfolding matched_loan_cmp_def by (rule total_cmp_nat)

interpretation bids: hypertree bid_cmp "\<lambda>t. t" "tree_ok bid_cmp" "tree_insert bid_cmp" tree_remove tree_max tree_next_lower
  by (rule list_hypertree) (rule bid_cmp_total)

interpretation asks: hypertree ask_cmp "\<lambda>t. t" "tree_ok ask_cmp" "tree_insert ask_cmp" tree_remove tree_max tree_next_lower
  by (rule list_hypertree) (rule ask_cmp_total)

interpretation seats: hypertree claimed_seat_cmp "\<lambda>t. t" "tree_ok claimed_seat_cmp" "tree_insert claimed_seat_cmp"
  tree_remove tree_max tree_next_lower
  by (rule list_hypertree) (rule claimed_seat_cmp_total)

interpretation loans: hypertree matched_loan_cmp "\<lambda>t. t" "tree_ok matched_loan_cmp" "tree_insert matched_loan_cmp"
  tree_remove tree_max tree_next_lower
  by (rule list_hypertree) (rule matched_loan_cmp_total)

lemma claimed_seat_cmp_Equal: "claimed_seat_cmp a b = Equal \<longleftrightarrow> claimed_seat_eq a b"
  by (auto simp: claimed_seat_cmp_def claimed_seat_eq_def then_cmp_iff)

lemma resting_order_cmp_Equal: "resting_order_cmp a b = Equal \<longleftrightarrow> resting_order_eq a b"
  by (auto simp: resting_order_cmp_def resting_order_eq_def then_cmp_iff)

section \<open>Well-formed markets\<close>

definition market_blocks :: "market \<Rightarrow> data_index list" where
  "market_blocks m =
     map fst (mk_bids m) @ map fst (mk_asks m) @ map fst (mk_claimed_seats m) @ map fst (mk_matched_loans m) @
     mk_free_list m"

definition seat_key :: "claimed_seat \<Rightarrow> nat \<times> pubkey \<times> nat" where
  "seat_key s = (cs_owner_kind s, cs_owner s, cs_sub_vault_id s)"

text \<open>No block is used twice; each tree is in order and holds its own side; seats have distinct
  identities; sequence numbers are below the counters that hand them out.\<close>

definition market_ok :: "market \<Rightarrow> bool" where
  "market_ok m =
     (distinct (market_blocks m) \<and> (\<forall>i \<in> set (market_blocks m). i < mk_num_bytes_allocated m) \<and>
      mk_num_bytes_allocated m < u32_lim \<and>
      descending bid_cmp (mk_bids m) \<and> descending ask_cmp (mk_asks m) \<and>
      descending claimed_seat_cmp (mk_claimed_seats m) \<and> descending matched_loan_cmp (mk_matched_loans m) \<and>
      (\<forall>p \<in> set (mk_bids m). ro_side (snd p) = 0) \<and> (\<forall>p \<in> set (mk_asks m). ro_side (snd p) = 1) \<and>
      distinct (map (\<lambda>p. seat_key (snd p)) (mk_claimed_seats m)) \<and>
      (\<forall>p \<in> set (mk_matched_loans m). ml_sequence (snd p) < mk_matched_loan_sequence m) \<and>
      distinct (map (\<lambda>p. ml_sequence (snd p)) (mk_matched_loans m)) \<and>
      (\<forall>p \<in> set (mk_bids m @ mk_asks m). ro_sequence_number (snd p) < mk_order_sequence_number m) \<and>
      distinct (map (\<lambda>p. ro_sequence_number (snd p)) (mk_bids m @ mk_asks m)))"

text \<open>Fields of a market outside its trees, its allocator and its counters.\<close>

definition market_config :: "market \<Rightarrow> nat \<times> nat \<times> fee_config \<times> nat \<times> nat" where
  "market_config m = (mk_debt_mint_decimals m, mk_collateral_mint_decimals m, mk_fee_config m,
     mk_accumulated_protocol_fee_shares m, mk_is_paused m)"

lemma market_block_not_NIL: "market_ok m \<Longrightarrow> NIL \<notin> set (market_blocks m)"
  by (fastforce simp: market_ok_def NIL_def u32_lim_def)

lemma market_trees_ok:
  assumes "market_ok m"
  shows "tree_ok bid_cmp (mk_bids m)" "tree_ok ask_cmp (mk_asks m)"
    "tree_ok claimed_seat_cmp (mk_claimed_seats m)" "tree_ok matched_loan_cmp (mk_matched_loans m)"
  using assms market_block_not_NIL[OF assms]
  by (simp_all add: market_ok_def tree_ok_def market_blocks_def)

lemma market_blocks_moved:
  assumes "market_ok m" "mset (market_blocks m') = mset (market_blocks m)"
    "mk_num_bytes_allocated m' = mk_num_bytes_allocated m"
  shows "distinct (market_blocks m') \<and> (\<forall>i \<in> set (market_blocks m'). i < mk_num_bytes_allocated m')"
  using assms mset_eq_imp_distinct_iff[OF assms(2)] mset_eq_setD[OF assms(2)] by (simp add: market_ok_def)

lemma get_helper_seat_Inr: "get_helper_seat m i = Inr s \<longleftrightarrow> tree_get (mk_claimed_seats m) i = Some s"
  by (simp add: get_helper_seat_def ok_or_Inr)

lemma seat_member: "market_ok m \<Longrightarrow> get_helper_seat m i = Inr s \<longleftrightarrow> (i, s) \<in> set (mk_claimed_seats m)"
  using market_trees_ok(3)[of m] by (simp add: get_helper_seat_Inr tree_ok_def tree_get_iff)

lemma set_seat_get: "get_helper_seat m i = Inr s \<Longrightarrow> get_helper_seat (set_seat m i s') j =
    (if j = i then Inr s' else get_helper_seat m j)"
  by (simp add: get_helper_seat_def set_seat_def tree_get_update ok_or_Inr split: option.splits)

lemma set_seat_fields [simp]:
  "mk_asks (set_seat m i s) = mk_asks m" "mk_bids (set_seat m i s) = mk_bids m"
  "mk_matched_loans (set_seat m i s) = mk_matched_loans m" "mk_free_list (set_seat m i s) = mk_free_list m"
  "mk_matched_loan_sequence (set_seat m i s) = mk_matched_loan_sequence m"
  "mk_order_sequence_number (set_seat m i s) = mk_order_sequence_number m"
  "market_config (set_seat m i s) = market_config m"
  "mk_num_bytes_allocated (set_seat m i s) = mk_num_bytes_allocated m"
  "map fst (mk_claimed_seats (set_seat m i s)) = map fst (mk_claimed_seats m)"
  by (simp_all add: set_seat_def market_config_def)

lemma set_seat_ok:
  assumes ok: "market_ok m" and s: "get_helper_seat m i = Inr s" "seat_key s' = seat_key s"
  shows "market_ok (set_seat m i s')"
proof -
  have t: "tree_ok claimed_seat_cmp (mk_claimed_seats m)" using market_trees_ok(3)[OF ok] .
  have mem: "(i, s) \<in> set (mk_claimed_seats m)" using s(1) seat_member[OF ok] by simp
  have key: "claimed_seat_cmp s' x = claimed_seat_cmp s x" "claimed_seat_cmp x s' = claimed_seat_cmp x s" for x
    using s(2) by (simp_all add: claimed_seat_cmp_def seat_key_def)
  have d: "descending claimed_seat_cmp (mk_claimed_seats (set_seat m i s'))"
    using tree_update_const_ok[of claimed_seat_cmp s' s, OF key t mem] by (simp add: tree_ok_def set_seat_def)
  have u: "map (\<lambda>p. seat_key (snd p)) (mk_claimed_seats (set_seat m i s')) = map (\<lambda>p. seat_key (snd p)) (mk_claimed_seats m)"
    using tree_update_map[OF _ mem, of "\<lambda>p. seat_key (snd p)" s'] t s(2) by (simp add: tree_ok_def set_seat_def)
  have b: "market_blocks (set_seat m i s') = market_blocks m" by (simp add: market_blocks_def)
  show ?thesis using ok unfolding market_ok_def b u by (simp add: d)
qed

lemma update_balance_Inr:
  "update_balance s ax bk sg n = Inr s' \<longleftrightarrow>
     (case sg of Plus \<Rightarrow> seat_field ax bk s + n < u128_lim \<and> s' = set_seat_field ax bk (seat_field ax bk s + n) s
      | Minus \<Rightarrow> n \<le> seat_field ax bk s \<and> s' = set_seat_field ax bk (seat_field ax bk s - n) s)"
  by (cases sg) (auto simp: update_balance_def result_simps)

lemma update_balance_key: "update_balance s ax bk sg n = Inr s' \<Longrightarrow> seat_key s' = seat_key s"
  by (cases ax; cases bk; cases sg) (auto simp: update_balance_Inr seat_key_def)

lemma alloc_block:
  assumes "get_free_address_on_market_fixed m = (i, m1)" "i \<noteq> NIL"
  shows "mk_free_list m = i # mk_free_list m1 \<and> m1 = m\<lparr>mk_free_list := mk_free_list m1\<rparr>"
  using assms
  by (cases "mk_free_list m") (auto simp: get_free_address_on_market_fixed_def stack_remove_def Let_def)

lemma market_expand_ok:
  assumes ok: "market_ok m" and e: "market_expand m = Inr m'"
  shows "market_ok m' \<and> mk_has_free_block m'"
proof -
  have m': "m' = m\<lparr>mk_free_list := mk_num_bytes_allocated m # mk_free_list m,
      mk_num_bytes_allocated := mk_num_bytes_allocated m + 160\<rparr>" "mk_num_bytes_allocated m + 160 < u32_lim"
    using e by (auto simp: market_expand_def result_simps stack_add_def MARKET_BLOCK_SIZE_def)
  have b: "\<forall>i \<in> set (market_blocks m). i < mk_num_bytes_allocated m" "distinct (market_blocks m)"
    using ok by (simp_all add: market_ok_def)
  have p: "mset (market_blocks m') = mset (mk_num_bytes_allocated m # market_blocks m)"
    by (simp add: m'(1) market_blocks_def)
  have "distinct (market_blocks m')" unfolding mset_eq_imp_distinct_iff[OF p] using b by auto
  moreover have "\<forall>i \<in> set (market_blocks m'). i < mk_num_bytes_allocated m + 160"
    unfolding mset_eq_setD[OF p] using b by (auto intro: less_trans)
  ultimately have "market_ok m'" using ok m'(2) unfolding market_ok_def by (simp add: m'(1))
  then show ?thesis by (simp add: m'(1) mk_has_free_block_def)
qed

end
