(* ===== verification/Matching.thy ===== *)
theory Matching
  imports Market_State Sub_Vault
begin

text \<open>The matching engine of \<open>state/market_helpers.rs\<close>: the walk of a borrower's bid over the resting
  asks, with its gates, the reservation on the lending sub-vault and the minted loan nodes. The
  vault account is passed as an option, as in the source. Each stage of the loop body is a
  definition; the loop follows the index chain of the ask tree with as much fuel as the tree has
  nodes, and is shown to be the structural walk over the asks from best to worst.\<close>

datatype residual_action = Drop | P2PoolBorrow | Rest

record match_args =
  ma_market_pubkey :: pubkey
  ma_taker_seat_index :: data_index
  ma_side :: side
  ma_rate_bps :: nat
  ma_term_seconds :: nat
  ma_principal_atoms :: nat
  ma_collateral_atoms :: nat
  ma_order_type :: order_type
  ma_now_unix_ts :: int
  ma_fee_floor_bps :: nat
  ma_taker_share_price_snapshot_fp48 :: fp48
  ma_debt_oracle_price_fp48 :: fp48
  ma_collateral_oracle_price_fp48 :: fp48
  ma_ask_floor_rate_bps :: nat
  ma_ltv_buffer_bps :: nat

record match_result =
  mr_remaining_principal :: nat
  mr_remaining_collateral :: nat
  mr_total_filled_principal :: nat
  mr_num_fills :: nat
  mr_residual_action :: residual_action

text \<open>The terms read from the lending sub-vault.\<close>

record maker_terms =
  mt_sub_vault_id :: nat
  mt_idle :: nat
  mt_max_ltv_bps :: nat
  mt_liquidation_ltv_bps :: nat
  mt_max_term_seconds :: nat
  mt_curator_fee_bps :: nat
  mt_curator :: pubkey

datatype 'a gate = Skip | Break | Go 'a

definition sub_vault_match_idle :: "sub_vault \<Rightarrow> nat" where
  "sub_vault_match_idle s =
     saturating_sub (saturating_sub (saturating_sub (sv_total_principal_atoms s) (sv_deployed_principal_atoms s))
       (sv_encumbered_in_orders_atoms s)) MARGINFI_ROUNDING_RESERVE_ATOMS"

definition read_maker_terms :: "global_vault \<Rightarrow> nat \<Rightarrow> maker_terms res" where
  "read_maker_terms v sub_vault_id =
     (let none = \<lparr> mt_sub_vault_id = sub_vault_id, mt_idle = 0, mt_max_ltv_bps = 0, mt_liquidation_ltv_bps = 0,
                   mt_max_term_seconds = 0, mt_curator_fee_bps = 0, mt_curator = default_pubkey \<rparr>;
          idx = sub_vault_index v sub_vault_id in
      if idx = NIL then Inr none
      else
        ebind (get_sub_vault v idx) (\<lambda>p.
        if sv_is_sunset p \<noteq> 0 then Inr none
        else Inr \<lparr> mt_sub_vault_id = sub_vault_id, mt_idle = sub_vault_match_idle p,
                   mt_max_ltv_bps = sv_max_ltv_bps p, mt_liquidation_ltv_bps = sv_liquidation_ltv_bps p,
                   mt_max_term_seconds = sv_max_term_seconds p,
                   mt_curator_fee_bps = sv_curator_fee_bps p, mt_curator = sv_curator p \<rparr>))"

section \<open>Gates\<close>

definition maker_price_gate :: "market \<Rightarrow> match_args \<Rightarrow> resting_order \<Rightarrow> unit gate res" where
  "maker_price_gate m args maker =
     (if ro_is_expired maker (ma_now_unix_ts args) then Inr Skip
      else if ro_rate_bps maker < ma_ask_floor_rate_bps args then
        ebind (get_helper_seat m (ro_trader_seat_index maker)) (\<lambda>_. Inr Skip)
      else if ro_trader_seat_index maker = ma_taker_seat_index args then Inr Skip
      else if ma_rate_bps args < ro_rate_bps maker then Inr Break
      else if ro_term_seconds maker < ma_term_seconds args then Inr Skip
      else if \<not> order_type_can_take (ma_order_type args) then
        ebind (assert_can_take (ma_order_type args)) (\<lambda>_. Inr (Go ()))
      else Inr (Go ()))"

definition maker_vault_gate :: "market \<Rightarrow> global_vault option \<Rightarrow> resting_order \<Rightarrow> maker_terms gate res" where
  "maker_vault_gate m vault maker =
     ebind (get_helper_seat m (ro_trader_seat_index maker)) (\<lambda>lender_seat.
     ebind (require (cs_owner_kind lender_seat = OWNER_KIND_SUB_VAULT) (Custom IncorrectAccount)) (\<lambda>_.
     case vault of
       None \<Rightarrow> Inr Skip
     | Some v \<Rightarrow>
         ebind (read_maker_terms v (cs_sub_vault_id lender_seat)) (\<lambda>t.
         if mt_idle t = 0 then Inr Skip
         else if 0 < mt_max_term_seconds t \<and> mt_max_term_seconds t < ro_term_seconds maker then Inr Skip
         else Inr (Go t))))"

record fill_terms =
  ft_principal :: nat
  ft_collateral :: nat
  ft_effective_cap_bps :: nat
  ft_terms :: maker_terms

definition maker_collateral_gate ::
  "market \<Rightarrow> match_args \<Rightarrow> nat \<Rightarrow> nat \<Rightarrow> maker_terms \<Rightarrow> fill_terms gate res" where
  "maker_collateral_gate m args remaining_principal remaining_collateral t =
     (let matched_principal = min remaining_principal (mt_idle t) in
      ebind (get_helper_seat m (ma_taker_seat_index args)) (\<lambda>taker.
      if mt_curator t = cs_owner taker then Inr Skip
      else
        ebind (if matched_principal = remaining_principal then Inr remaining_collateral
               else mul_div_u64 matched_principal (ma_collateral_atoms args) (ma_principal_atoms args) False)
          (\<lambda>matched_collateral_taker.
        let matched_collateral_maker = 0 in
        ebind (ok_or (checked_add u64_lim matched_collateral_taker matched_collateral_maker) ArithmeticOverflow)
          (\<lambda>total_collateral.
        let effective_cap = effective_origination_cap_bps (mt_max_ltv_bps t) (ma_ltv_buffer_bps args) in
        ebind (required_collateral_at_ltv_cap matched_principal (ma_debt_oracle_price_fp48 args)
                 (ma_collateral_oracle_price_fp48 args) effective_cap
                 (mk_debt_mint_decimals m) (mk_collateral_mint_decimals m)) (\<lambda>required.
        if total_collateral < required then Inr Skip
        else Inr (Go \<lparr> ft_principal = matched_principal, ft_collateral = total_collateral,
                       ft_effective_cap_bps = effective_cap, ft_terms = t \<rparr>))))))"

section \<open>Effects of a fill\<close>

definition reserve_on_sub_vault :: "global_vault \<Rightarrow> nat \<Rightarrow> nat \<Rightarrow> global_vault res" where
  "reserve_on_sub_vault v sub_vault_id matched_principal =
     (let idx = sub_vault_index v sub_vault_id in
      if idx = NIL then Inr v
      else
        ebind (get_sub_vault v idx) (\<lambda>p.
        ebind (ok_or (checked_add u64_lim (sv_encumbered_in_orders_atoms p) matched_principal)
                 ArithmeticOverflow) (\<lambda>e.
        ebind (ok_or (checked_add u32_lim (sv_open_loans_count p) 1) ArithmeticOverflow) (\<lambda>c.
        Inr (set_sub_vault v idx (p\<lparr>sv_encumbered_in_orders_atoms := e, sv_open_loans_count := c\<rparr>))))))"

definition floored_borrower_rate :: "nat \<Rightarrow> nat \<Rightarrow> nat \<Rightarrow> nat res" where
  "floored_borrower_rate bid_rate ask_rate fee_floor_bps =
     (let floored_lender_rate = ask_rate + fee_floor_bps in
      ebind (require (floored_lender_rate \<le> u16_lim - 1) (Custom InvalidArgument)) (\<lambda>_.
      Inr (max bid_rate floored_lender_rate)))"

definition alloc_matched_loan :: "market \<Rightarrow> matched_loan \<Rightarrow> market res" where
  "alloc_matched_loan m node =
     (let (node_index, m1) = get_free_address_on_market_fixed m in
      ebind (require (node_index \<noteq> NIL) AccountDataTooSmall) (\<lambda>_.
      let m2 = insert_matched_loan m1 node_index node in
      ebind (ok_or (checked_add u64_lim (mk_matched_loan_sequence m2) 1) ArithmeticOverflow) (\<lambda>s.
      Inr (m2\<lparr>mk_matched_loan_sequence := s\<rparr>))))"

definition mint_fill :: "market \<Rightarrow> match_args \<Rightarrow> resting_order \<Rightarrow> fill_terms \<Rightarrow> market res" where
  "mint_fill m args maker ft =
     ebind (floored_borrower_rate (ma_rate_bps args) (ro_rate_bps maker) (ma_fee_floor_bps args)) (\<lambda>borrower_rate.
     ebind (mul_div_u64 (ft_principal ft) (fc_origination_bps (mk_fee_config m)) BPS_PER_UNIT False)
       (\<lambda>origination_atoms.
     alloc_matched_loan m
       \<lparr> ml_sequence = mk_matched_loan_sequence m, ml_borrower_marginfi_borrow_shares = 0,
         ml_principal_atoms = ft_principal ft, ml_origination_atoms = origination_atoms,
         ml_collateral_atoms = ft_collateral ft, ml_matched_at_unix = ma_now_unix_ts args,
         ml_lender_seat_index = ro_trader_seat_index maker,
         ml_borrower_seat_index = ma_taker_seat_index args, ml_term_seconds = ma_term_seconds args,
         ml_borrower_rate_bps = borrower_rate, ml_lender_rate_bps = ro_rate_bps maker,
         ml_loan_type = 0, ml_flags = MATCHED_LOAN_FLAG_VAULT_LENDER,
         ml_curator_fee_bps_snapshot = mt_curator_fee_bps (ft_terms ft),
         ml_origination_ltv_bps = ft_effective_cap_bps ft,
         ml_liquidation_ltv_bps = mt_liquidation_ltv_bps (ft_terms ft),
         ml_lender_debt_share_price_snapshot_fp48 = ro_share_price_snapshot maker,
         ml_borrower_collateral_share_price_snapshot_fp48 = ma_taker_share_price_snapshot_fp48 args \<rparr>))"

definition bump_open_borrow :: "market \<Rightarrow> data_index \<Rightarrow> market res" where
  "bump_open_borrow m index =
     ebind (get_helper_seat m index) (\<lambda>seat.
     ebind (ok_or (checked_add u32_lim (cs_open_borrow_count seat) 1) ArithmeticOverflow) (\<lambda>c.
     Inr (set_seat m index (seat\<lparr>cs_open_borrow_count := c\<rparr>))))"

definition bump_open_lend :: "market \<Rightarrow> data_index \<Rightarrow> market res" where
  "bump_open_lend m index =
     ebind (get_helper_seat m index) (\<lambda>seat.
     ebind (ok_or (checked_add u32_lim (cs_open_lend_count seat) 1) ArithmeticOverflow) (\<lambda>c.
     Inr (set_seat m index (seat\<lparr>cs_open_lend_count := c\<rparr>))))"

definition apply_fill ::
  "market \<Rightarrow> global_vault option \<Rightarrow> match_args \<Rightarrow> resting_order \<Rightarrow> fill_terms \<Rightarrow> (market \<times> global_vault option) res" where
  "apply_fill m vault args maker ft =
     ebind (case vault of
         None \<Rightarrow> Inr None
       | Some v \<Rightarrow> ebind (reserve_on_sub_vault v (mt_sub_vault_id (ft_terms ft)) (ft_principal ft)) (\<lambda>v'.
                   Inr (Some v'))) (\<lambda>vault'.
     ebind (mint_fill m args maker ft) (\<lambda>m1.
     ebind (bump_open_borrow m1 (ma_taker_seat_index args)) (\<lambda>m2.
     ebind (bump_open_lend m2 (ro_trader_seat_index maker)) (\<lambda>m3.
     Inr (m3, vault')))))"

section \<open>The walk\<close>

record walk_state =
  ws_market :: market
  ws_vault :: "global_vault option"
  ws_remaining_principal :: nat
  ws_remaining_collateral :: nat
  ws_total_filled :: nat
  ws_num_fills :: nat

definition maker_gates :: "walk_state \<Rightarrow> match_args \<Rightarrow> resting_order \<Rightarrow> fill_terms gate res" where
  "maker_gates st args maker =
     ebind (maker_price_gate (ws_market st) args maker) (\<lambda>g1. case g1 of
         Skip \<Rightarrow> Inr Skip
       | Break \<Rightarrow> Inr Break
       | Go _ \<Rightarrow>
     ebind (maker_vault_gate (ws_market st) (ws_vault st) maker) (\<lambda>g2. case g2 of
         Skip \<Rightarrow> Inr Skip
       | Break \<Rightarrow> Inr Break
       | Go t \<Rightarrow>
     maker_collateral_gate (ws_market st) args (ws_remaining_principal st) (ws_remaining_collateral st) t))"

definition take_fill :: "walk_state \<Rightarrow> match_args \<Rightarrow> resting_order \<Rightarrow> fill_terms \<Rightarrow> walk_state res" where
  "take_fill st args maker ft =
     ebind (apply_fill (ws_market st) (ws_vault st) args maker ft) (\<lambda>(m, vault).
     ebind (ok_or (checked_sub (ws_remaining_principal st) (ft_principal ft)) ArithmeticOverflow) (\<lambda>rp.
     let rc = (case checked_sub (ws_remaining_collateral st) (ft_collateral ft) of Some c \<Rightarrow> c | None \<Rightarrow> 0) in
     ebind (ok_or (checked_add u64_lim (ws_total_filled st) (ft_principal ft)) ArithmeticOverflow) (\<lambda>tf.
     Inr \<lparr> ws_market = m, ws_vault = vault, ws_remaining_principal = rp, ws_remaining_collateral = rc,
           ws_total_filled = tf, ws_num_fills = saturating_add u32_lim (ws_num_fills st) 1 \<rparr>)))"

fun match_loop :: "nat \<Rightarrow> walk_state \<Rightarrow> match_args \<Rightarrow> data_index \<Rightarrow> walk_state res" where
  "match_loop 0 st args idx = Inl Panic"
| "match_loop (Suc fuel) st args idx =
     (if 0 < ws_remaining_principal st \<and> idx \<noteq> NIL then
        ebind (get_helper_order (ws_market st) idx) (\<lambda>maker.
        ebind (maker_gates st args maker) (\<lambda>g. case g of
            Skip \<Rightarrow> match_loop fuel st args (next_maker_index (ws_market st) idx)
          | Break \<Rightarrow> Inr st
          | Go ft \<Rightarrow>
              ebind (take_fill st args maker ft) (\<lambda>st'.
              match_loop fuel st' args (next_maker_index (ws_market st') idx))))
      else Inr st)"

definition match_order ::
  "market \<Rightarrow> match_args \<Rightarrow> global_vault option \<Rightarrow> (market \<times> global_vault option \<times> match_result) res" where
  "match_order m args vault =
     ebind (match_loop (length (mk_asks m) + 1)
              \<lparr> ws_market = m, ws_vault = vault, ws_remaining_principal = ma_principal_atoms args,
                ws_remaining_collateral = ma_collateral_atoms args, ws_total_filled = 0, ws_num_fills = 0 \<rparr>
              args (tree_max (mk_asks m))) (\<lambda>st.
     Inr (ws_market st, ws_vault st,
          \<lparr> mr_remaining_principal = ws_remaining_principal st,
            mr_remaining_collateral = ws_remaining_collateral st,
            mr_total_filled_principal = ws_total_filled st, mr_num_fills = ws_num_fills st,
            mr_residual_action = Drop \<rparr>))"

section \<open>Effects on the market\<close>

text \<open>A fill inserts its loan node and touches nothing else of the book.\<close>

lemma alloc_matched_loan_Inr:
  assumes "alloc_matched_loan m node = Inr m'"
  shows "\<exists>i fl. mk_free_list m = i # fl \<and> i \<noteq> NIL \<and> mk_matched_loan_sequence m + 1 < u64_lim \<and>
    m' = m\<lparr>mk_free_list := fl, mk_matched_loans := tree_insert matched_loan_cmp i node (mk_matched_loans m),
      mk_matched_loan_sequence := mk_matched_loan_sequence m + 1\<rparr>"
proof -
  obtain i m1 where a: "get_free_address_on_market_fixed m = (i, m1)" by fastforce
  have nz: "i \<noteq> NIL" and m': "m' = (insert_matched_loan m1 i node)\<lparr>mk_matched_loan_sequence := mk_matched_loan_sequence m1 + 1\<rparr>"
      "mk_matched_loan_sequence m1 + 1 < u64_lim"
    using assms by (auto simp: alloc_matched_loan_def a require_Inr ok_or_Inr checked_add_Some insert_matched_loan_def
        elim!: ebind_InrE)
  have fl: "mk_free_list m = i # mk_free_list m1" "m1 = m\<lparr>mk_free_list := mk_free_list m1\<rparr>"
    using alloc_block[OF a nz] by blast+
  obtain f where f: "m1 = m\<lparr>mk_free_list := f\<rparr>" using fl(2) by blast
  show ?thesis using fl(1) m' nz unfolding f by (auto simp: insert_matched_loan_def)
qed

lemma alloc_matched_loan_ok:
  assumes ok: "market_ok m" and a: "alloc_matched_loan m node = Inr m'"
    and sq: "ml_sequence node = mk_matched_loan_sequence m"
  shows "market_ok m' \<and> mset (tree_values (mk_matched_loans m')) = add_mset node (mset (tree_values (mk_matched_loans m)))"
proof -
  obtain i fl where fl: "mk_free_list m = i # fl"
    and m': "m' = m\<lparr>mk_free_list := fl, mk_matched_loans := tree_insert matched_loan_cmp i node (mk_matched_loans m),
      mk_matched_loan_sequence := mk_matched_loan_sequence m + 1\<rparr>"
    using alloc_matched_loan_Inr[OF a] by blast
  let ?t = "tree_insert matched_loan_cmp i node (mk_matched_loans m)"
  have lt: "\<forall>p \<in> set (mk_matched_loans m). ml_sequence (snd p) < mk_matched_loan_sequence m"
    and d: "distinct (map (\<lambda>p. ml_sequence (snd p)) (mk_matched_loans m))"
    and ds: "descending matched_loan_cmp (mk_matched_loans m)" using ok by (simp_all add: market_ok_def)
  have "distinct (market_blocks m') \<and> (\<forall>i \<in> set (market_blocks m'). i < mk_num_bytes_allocated m')"
  proof (rule market_blocks_moved[OF ok])
    show "mset (market_blocks m') = mset (market_blocks m)" by (simp add: m' market_blocks_def fl)
  qed (simp add: m')
  moreover have "distinct (map (\<lambda>p. ml_sequence (snd p)) ?t)"
    unfolding tree_insert_distinct_map using d lt sq by fastforce
  moreover have "\<forall>p \<in> set ?t. ml_sequence (snd p) < mk_matched_loan_sequence m + 1"
    using lt sq by (auto intro: less_SucI)
  moreover have "descending matched_loan_cmp ?t" by (rule tree_insert_descending[OF matched_loan_cmp_total ds])
  ultimately have "market_ok m'" using ok unfolding market_ok_def by (simp add: m')
  then show ?thesis by (simp add: m' tree_values_def)
qed

lemma bump_open_borrow_Inr:
  assumes "bump_open_borrow m i = Inr m'"
  shows "\<exists>s. get_helper_seat m i = Inr s \<and> cs_open_borrow_count s + 1 < u32_lim \<and>
    m' = set_seat m i (s\<lparr>cs_open_borrow_count := cs_open_borrow_count s + 1\<rparr>)"
  using assms by (auto simp: bump_open_borrow_def ok_or_Inr checked_add_Some elim!: ebind_InrE)

lemma bump_open_lend_Inr:
  assumes "bump_open_lend m i = Inr m'"
  shows "\<exists>s. get_helper_seat m i = Inr s \<and> cs_open_lend_count s + 1 < u32_lim \<and>
    m' = set_seat m i (s\<lparr>cs_open_lend_count := cs_open_lend_count s + 1\<rparr>)"
  using assms by (auto simp: bump_open_lend_def ok_or_Inr checked_add_Some elim!: ebind_InrE)

lemma bump_ok:
  "market_ok m \<Longrightarrow> bump_open_borrow m i = Inr m' \<Longrightarrow> market_ok m'"
  "market_ok m \<Longrightarrow> bump_open_lend m i = Inr m' \<Longrightarrow> market_ok m'"
  by (auto dest!: bump_open_borrow_Inr bump_open_lend_Inr intro!: set_seat_ok simp: seat_key_def)

text \<open>The identity of a seat and its collateral and debt balances, which no fill changes.\<close>

definition seat_core :: "claimed_seat \<Rightarrow> (nat \<times> pubkey \<times> nat) \<times> nat \<times> nat \<times> nat \<times> nat" where
  "seat_core s = (seat_key s, cs_debt_withdrawable_shares s, cs_debt_encumbered_shares s,
     cs_collateral_withdrawable_shares s, cs_collateral_encumbered_shares s)"

definition same_seats :: "market \<Rightarrow> market \<Rightarrow> bool" where
  "same_seats m m' =
     (\<forall>i. case tree_get (mk_claimed_seats m) i of
            None \<Rightarrow> tree_get (mk_claimed_seats m') i = None
          | Some s \<Rightarrow> (\<exists>s'. tree_get (mk_claimed_seats m') i = Some s' \<and> seat_core s' = seat_core s))"

lemma same_seats_refl [simp]: "same_seats m m"
  by (simp add: same_seats_def split: option.splits)

lemma same_seats_trans: "same_seats m m1 \<Longrightarrow> same_seats m1 m2 \<Longrightarrow> same_seats m m2"
  unfolding same_seats_def by (force split: option.splits)

lemma same_seats_cong: "mk_claimed_seats m' = mk_claimed_seats m \<Longrightarrow> same_seats m m'"
  by (simp add: same_seats_def split: option.splits)

lemma same_seats_set_seat:
  "get_helper_seat m i = Inr s \<Longrightarrow> seat_core s' = seat_core s \<Longrightarrow> same_seats m (set_seat m i s')"
  by (auto simp: same_seats_def set_seat_def tree_get_update get_helper_seat_Inr split: option.splits)

lemma same_seats_get:
  "same_seats m m' \<Longrightarrow> get_helper_seat m i = Inr s \<Longrightarrow> \<exists>s'. get_helper_seat m' i = Inr s' \<and> seat_core s' = seat_core s"
  by (force simp: same_seats_def get_helper_seat_Inr split: option.splits)

lemma same_seats_back:
  "same_seats m m' \<Longrightarrow> get_helper_seat m' i = Inr s' \<Longrightarrow> \<exists>s. get_helper_seat m i = Inr s \<and> seat_core s' = seat_core s"
  by (force simp: same_seats_def get_helper_seat_Inr split: option.splits)

text \<open>What stays fixed while a bid walks the asks.\<close>

definition book_frame :: "market \<Rightarrow> market \<Rightarrow> bool" where
  "book_frame m m' =
     (mk_asks m' = mk_asks m \<and> mk_bids m' = mk_bids m \<and> market_config m' = market_config m \<and>
      mk_order_sequence_number m' = mk_order_sequence_number m \<and> same_seats m m')"

lemma book_frame_refl [simp]: "book_frame m m"
  by (simp add: book_frame_def)

lemma book_frame_trans: "book_frame m m1 \<Longrightarrow> book_frame m1 m2 \<Longrightarrow> book_frame m m2"
  unfolding book_frame_def using same_seats_trans by auto

lemma bump_frame:
  "bump_open_borrow m i = Inr m' \<Longrightarrow> book_frame m m' \<and> mk_matched_loans m' = mk_matched_loans m"
  "bump_open_lend m i = Inr m' \<Longrightarrow> book_frame m m' \<and> mk_matched_loans m' = mk_matched_loans m"
  by (auto dest!: bump_open_borrow_Inr bump_open_lend_Inr simp: book_frame_def
      intro!: same_seats_set_seat simp: seat_core_def seat_key_def)

lemma alloc_frame:
  assumes "alloc_matched_loan m node = Inr m'"
  shows "book_frame m m'"
  using alloc_matched_loan_Inr[OF assms]
  by (auto simp: book_frame_def market_config_def intro: same_seats_cong)

text \<open>The node a fill mints.\<close>

definition fill_node :: "market \<Rightarrow> match_args \<Rightarrow> resting_order \<Rightarrow> fill_terms \<Rightarrow> matched_loan \<Rightarrow> bool" where
  "fill_node m args maker ft n =
     (ml_sequence n = mk_matched_loan_sequence m \<and> ml_principal_atoms n = ft_principal ft \<and>
      ml_collateral_atoms n = ft_collateral ft \<and> ml_term_seconds n = ma_term_seconds args \<and>
      ml_lender_seat_index n = ro_trader_seat_index maker \<and>
      ml_borrower_seat_index n = ma_taker_seat_index args \<and>
      ml_lender_rate_bps n = ro_rate_bps maker \<and>
      ml_borrower_rate_bps n = max (ma_rate_bps args) (ro_rate_bps maker + ma_fee_floor_bps args) \<and>
      ml_borrower_rate_bps n < u16_lim + ma_rate_bps args \<and>
      ml_loan_type n = 0 \<and> ml_flags n = MATCHED_LOAN_FLAG_VAULT_LENDER \<and>
      ml_origination_ltv_bps n = ft_effective_cap_bps ft \<and>
      ml_liquidation_ltv_bps n = mt_liquidation_ltv_bps (ft_terms ft) \<and>
      ml_curator_fee_bps_snapshot n = mt_curator_fee_bps (ft_terms ft) \<and>
      ml_borrower_collateral_share_price_snapshot_fp48 n = ma_taker_share_price_snapshot_fp48 args \<and>
      mul_div_u64 (ft_principal ft) (fc_origination_bps (mk_fee_config m)) BPS_PER_UNIT False =
        Inr (ml_origination_atoms n))"

lemma mint_fill_ok:
  assumes ok: "market_ok m" and mf: "mint_fill m args maker ft = Inr m'"
  shows "market_ok m' \<and> book_frame m m' \<and>
    (\<exists>n. fill_node m args maker ft n \<and>
      mset (tree_values (mk_matched_loans m')) = add_mset n (mset (tree_values (mk_matched_loans m))))"
proof -
  obtain br oa n where br: "floored_borrower_rate (ma_rate_bps args) (ro_rate_bps maker) (ma_fee_floor_bps args) = Inr br"
    and oa: "mul_div_u64 (ft_principal ft) (fc_origination_bps (mk_fee_config m)) BPS_PER_UNIT False = Inr oa"
    and al: "alloc_matched_loan m n = Inr m'"
    and n: "n = \<lparr> ml_sequence = mk_matched_loan_sequence m, ml_borrower_marginfi_borrow_shares = 0,
         ml_principal_atoms = ft_principal ft, ml_origination_atoms = oa,
         ml_collateral_atoms = ft_collateral ft, ml_matched_at_unix = ma_now_unix_ts args,
         ml_lender_seat_index = ro_trader_seat_index maker,
         ml_borrower_seat_index = ma_taker_seat_index args, ml_term_seconds = ma_term_seconds args,
         ml_borrower_rate_bps = br, ml_lender_rate_bps = ro_rate_bps maker,
         ml_loan_type = 0, ml_flags = MATCHED_LOAN_FLAG_VAULT_LENDER,
         ml_curator_fee_bps_snapshot = mt_curator_fee_bps (ft_terms ft),
         ml_origination_ltv_bps = ft_effective_cap_bps ft,
         ml_liquidation_ltv_bps = mt_liquidation_ltv_bps (ft_terms ft),
         ml_lender_debt_share_price_snapshot_fp48 = ro_share_price_snapshot maker,
         ml_borrower_collateral_share_price_snapshot_fp48 = ma_taker_share_price_snapshot_fp48 args \<rparr>"
    using mf unfolding mint_fill_def by (elim ebind_InrE) blast
  have b: "br = max (ma_rate_bps args) (ro_rate_bps maker + ma_fee_floor_bps args)"
    "ro_rate_bps maker + ma_fee_floor_bps args \<le> u16_lim - 1"
    using br by (auto simp: floored_borrower_rate_def require_Inr Let_def elim!: ebind_InrE)
  have "fill_node m args maker ft n"
    using b oa by (auto simp: fill_node_def n u16_lim_def max_def)
  moreover have "ml_sequence n = mk_matched_loan_sequence m" by (simp add: n)
  ultimately show ?thesis using alloc_matched_loan_ok[OF ok al] alloc_frame[OF al] by blast
qed

lemma apply_fill_ok:
  assumes ok: "market_ok m" and af: "apply_fill m vault args maker ft = Inr (m', vault')"
  shows "market_ok m' \<and> book_frame m m' \<and>
    (\<exists>n. fill_node m args maker ft n \<and>
      mset (tree_values (mk_matched_loans m')) = add_mset n (mset (tree_values (mk_matched_loans m)))) \<and>
    (case vault of None \<Rightarrow> vault' = None
     | Some v \<Rightarrow> \<exists>v'. reserve_on_sub_vault v (mt_sub_vault_id (ft_terms ft)) (ft_principal ft) = Inr v' \<and> vault' = Some v')"
proof -
  obtain m1 m2 where m1: "mint_fill m args maker ft = Inr m1" and m2: "bump_open_borrow m1 (ma_taker_seat_index args) = Inr m2"
    and m3: "bump_open_lend m2 (ro_trader_seat_index maker) = Inr m'"
    and v: "(case vault of None \<Rightarrow> Inr None
       | Some v \<Rightarrow> ebind (reserve_on_sub_vault v (mt_sub_vault_id (ft_terms ft)) (ft_principal ft)) (\<lambda>v'.
                   Inr (Some v'))) = Inr vault'"
    using af unfolding apply_fill_def by (elim ebind_InrE) auto
  note a = mint_fill_ok[OF ok m1]
  have ok2: "market_ok m2" using a bump_ok(1)[OF _ m2] by blast
  have "market_ok m'" using bump_ok(2)[OF ok2 m3] .
  moreover have "book_frame m m'" using a bump_frame(1)[OF m2] bump_frame(2)[OF m3] book_frame_trans by meson
  moreover have "mk_matched_loans m' = mk_matched_loans m1" using bump_frame(1)[OF m2] bump_frame(2)[OF m3] by simp
  moreover have "case vault of None \<Rightarrow> vault' = None
     | Some v \<Rightarrow> \<exists>v'. reserve_on_sub_vault v (mt_sub_vault_id (ft_terms ft)) (ft_principal ft) = Inr v' \<and> vault' = Some v'"
    using v by (auto split: option.splits elim!: ebind_InrE)
  ultimately show ?thesis using a by simp
qed

section \<open>The walk over the asks from best to worst\<close>

fun match_walk :: "walk_state \<Rightarrow> match_args \<Rightarrow> resting_order tree \<Rightarrow> walk_state res" where
  "match_walk st args [] = Inr st"
| "match_walk st args ((i, maker) # rest) =
     (if 0 < ws_remaining_principal st then
        ebind (maker_gates st args maker) (\<lambda>g. case g of
            Skip \<Rightarrow> match_walk st args rest
          | Break \<Rightarrow> Inr st
          | Go ft \<Rightarrow> ebind (take_fill st args maker ft) (\<lambda>st'. match_walk st' args rest))
      else Inr st)"

lemma take_fill_Inr:
  assumes "take_fill st args maker ft = Inr st'"
  shows "\<exists>m vault. apply_fill (ws_market st) (ws_vault st) args maker ft = Inr (m, vault) \<and>
    ft_principal ft \<le> ws_remaining_principal st \<and> ws_total_filled st + ft_principal ft < u64_lim \<and>
    st' = \<lparr> ws_market = m, ws_vault = vault, ws_remaining_principal = ws_remaining_principal st - ft_principal ft,
      ws_remaining_collateral = ws_remaining_collateral st - ft_collateral ft,
      ws_total_filled = ws_total_filled st + ft_principal ft,
      ws_num_fills = saturating_add u32_lim (ws_num_fills st) 1 \<rparr>"
proof -
  obtain mv where mv: "apply_fill (ws_market st) (ws_vault st) args maker ft = Inr mv"
    using assms unfolding take_fill_def by (elim ebind_InrE)
  obtain m vault where "mv = (m, vault)" by force
  moreover have "(case checked_sub a b of None \<Rightarrow> 0 | Some c \<Rightarrow> c) = a - b" for a b
    by (simp add: checked_sub_def)
  ultimately show ?thesis
    using assms mv by (auto simp: take_fill_def Let_def ok_or_Inr checked_sub_Some checked_add_Some elim!: ebind_InrE)
qed

lemma take_fill_frame:
  "market_ok (ws_market st) \<Longrightarrow> take_fill st args maker ft = Inr st' \<Longrightarrow>
   market_ok (ws_market st') \<and> book_frame (ws_market st) (ws_market st')"
  using take_fill_Inr apply_fill_ok by fastforce

text \<open>The index loop is the structural walk, and its fuel is never exhausted.\<close>

lemma match_loop_walk:
  assumes "market_ok (ws_market st)" "mk_asks (ws_market st) = as @ bs" "length bs < fuel"
  shows "match_loop fuel st args (tree_max bs) = match_walk st args bs"
  using assms
proof (induction bs arbitrary: as st fuel)
  case Nil
  then show ?case by (cases fuel) (auto simp: tree_max_def)
next
  case (Cons p rest)
  obtain i maker where p: "p = (i, maker)" by force
  obtain f where f: "fuel = Suc f" using Cons.prems(3) by (cases fuel) auto
  have t: "tree_ok ask_cmp (mk_asks (ws_market st))" using market_trees_ok(2)[OF Cons.prems(1)] .
  then have d: "distinct (map fst (mk_asks (ws_market st)))" "i \<noteq> NIL"
    using Cons.prems(2) p by (auto simp: tree_ok_def)
  have get: "get_helper_order (ws_market st) i = Inr maker"
    using tree_get_iff[OF d(1), of i maker] Cons.prems(2) p by (simp add: get_helper_order_def)
  have nx: "next_maker_index m' i = tree_max rest" if "mk_asks m' = mk_asks (ws_market st)" for m'
    using tree_next_lower_eq[OF d(1), of as i maker rest] Cons.prems(2) p that by (simp add: next_maker_index_def)
  have IH: "match_loop f st' args (tree_max rest) = match_walk st' args rest"
    if "market_ok (ws_market st')" "mk_asks (ws_market st') = mk_asks (ws_market st)" for st'
    by (rule Cons.IH[of st' "as @ [p]"]) (use that Cons.prems f in simp_all)
  have go: "ebind (take_fill st args maker ft) (\<lambda>st'. match_loop f st' args (next_maker_index (ws_market st') i)) =
      ebind (take_fill st args maker ft) (\<lambda>st'. match_walk st' args rest)" for ft
  proof (cases "take_fill st args maker ft")
    case (Inr st')
    then have "market_ok (ws_market st')" "mk_asks (ws_market st') = mk_asks (ws_market st)"
      using take_fill_frame[OF Cons.prems(1)] by (auto simp: book_frame_def)
    then show ?thesis using Inr IH nx by simp
  qed simp
  have body: "(\<lambda>g. case g of Skip \<Rightarrow> match_loop f st args (next_maker_index (ws_market st) i) | Break \<Rightarrow> Inr st
      | Go ft \<Rightarrow> ebind (take_fill st args maker ft) (\<lambda>st'. match_loop f st' args (next_maker_index (ws_market st') i))) =
    (\<lambda>g. case g of Skip \<Rightarrow> match_walk st args rest | Break \<Rightarrow> Inr st
      | Go ft \<Rightarrow> ebind (take_fill st args maker ft) (\<lambda>st'. match_walk st' args rest))"
    using IH[OF Cons.prems(1)] nx go by (auto simp: fun_eq_iff split: gate.splits)
  show ?case by (simp add: f p tree_max_def get d(2) body)
qed

definition match_start :: "market \<Rightarrow> match_args \<Rightarrow> global_vault option \<Rightarrow> walk_state" where
  "match_start m args vault =
     \<lparr> ws_market = m, ws_vault = vault, ws_remaining_principal = ma_principal_atoms args,
       ws_remaining_collateral = ma_collateral_atoms args, ws_total_filled = 0, ws_num_fills = 0 \<rparr>"

lemma match_order_walk:
  assumes "market_ok m"
  shows "match_order m args vault =
    ebind (match_walk (match_start m args vault) args (mk_asks m)) (\<lambda>st.
     Inr (ws_market st, ws_vault st,
          \<lparr> mr_remaining_principal = ws_remaining_principal st,
            mr_remaining_collateral = ws_remaining_collateral st,
            mr_total_filled_principal = ws_total_filled st, mr_num_fills = ws_num_fills st,
            mr_residual_action = Drop \<rparr>))"
  using match_loop_walk[of "match_start m args vault" "[]" "mk_asks m" "length (mk_asks m) + 1" args] assms
  by (simp add: match_order_def match_start_def)

text \<open>An invariant of the fills is an invariant of the walk.\<close>

lemma match_walk_invariant:
  assumes "match_walk st args asks = Inr st'" "P st"
    and "\<And>s i maker ft s'. (i, maker) \<in> set asks \<Longrightarrow> P s \<Longrightarrow> 0 < ws_remaining_principal s \<Longrightarrow>
      maker_gates s args maker = Inr (Go ft) \<Longrightarrow> take_fill s args maker ft = Inr s' \<Longrightarrow> P s'"
  shows "P st'"
  using assms
proof (induction st args asks rule: match_walk.induct)
  case (2 st args i maker rest)
  note w = "2.prems"(1) and P = "2.prems"(2) and step = "2.prems"(3)
  show ?case
  proof (cases "0 < ws_remaining_principal st")
    case True
    then obtain g where g: "maker_gates st args maker = Inr g"
      using w by (auto elim!: ebind_InrE)
    show ?thesis
    proof (cases g)
      case Skip
      then have "match_walk st args rest = Inr st'" using w g True by simp
      then show ?thesis by (rule "2.IH"(1)[OF True _ P]) (rule step[OF list.set_intros(2)], assumption+)
    next
      case Break
      then show ?thesis using w P g True by simp
    next
      case (Go ft)
      then obtain s1 where s1: "take_fill st args maker ft = Inr s1" "match_walk s1 args rest = Inr st'"
        using w g True by (auto elim!: ebind_InrE)
      have "P s1" by (rule step[of i maker st ft s1]) (use P g Go s1(1) True in simp_all)
      then show ?thesis by (rule "2.IH"(2)[OF True s1(2)]) (rule step[OF list.set_intros(2)], assumption+)
    qed
  next
    case False
    then show ?thesis using w P by simp
  qed
qed simp

section \<open>What a passing gate guarantees\<close>

lemma maker_gates_Go:
  assumes "maker_gates st args maker = Inr (Go ft)"
  shows "\<exists>lender taker v t req. get_helper_seat (ws_market st) (ro_trader_seat_index maker) = Inr lender \<and>
      get_helper_seat (ws_market st) (ma_taker_seat_index args) = Inr taker \<and> ws_vault st = Some v \<and>
      read_maker_terms v (cs_sub_vault_id lender) = Inr t \<and> ft_terms ft = t \<and>
      \<not> ro_is_expired maker (ma_now_unix_ts args) \<and> ma_ask_floor_rate_bps args \<le> ro_rate_bps maker \<and>
      ro_trader_seat_index maker \<noteq> ma_taker_seat_index args \<and> ro_rate_bps maker \<le> ma_rate_bps args \<and>
      ma_term_seconds args \<le> ro_term_seconds maker \<and> ma_order_type args \<noteq> PostOnly \<and>
      cs_owner_kind lender = OWNER_KIND_SUB_VAULT \<and> 0 < mt_idle t \<and>
      (0 < mt_max_term_seconds t \<longrightarrow> ro_term_seconds maker \<le> mt_max_term_seconds t) \<and>
      mt_curator t \<noteq> cs_owner taker \<and>
      ft_principal ft = min (ws_remaining_principal st) (mt_idle t) \<and>
      (if ft_principal ft = ws_remaining_principal st then ft_collateral ft = ws_remaining_collateral st
       else mul_div_u64 (ft_principal ft) (ma_collateral_atoms args) (ma_principal_atoms args) False =
         Inr (ft_collateral ft)) \<and>
      ft_effective_cap_bps ft = effective_origination_cap_bps (mt_max_ltv_bps t) (ma_ltv_buffer_bps args) \<and>
      required_collateral_at_ltv_cap (ft_principal ft) (ma_debt_oracle_price_fp48 args)
        (ma_collateral_oracle_price_fp48 args) (ft_effective_cap_bps ft)
        (mk_debt_mint_decimals (ws_market st)) (mk_collateral_mint_decimals (ws_market st)) = Inr req \<and>
      req \<le> ft_collateral ft"
proof -
  obtain g1 where g1: "maker_price_gate (ws_market st) args maker = Inr g1"
    using assms unfolding maker_gates_def by (elim ebind_InrE)
  have go1: "g1 = Go ()" using assms g1 by (cases g1) (auto simp: maker_gates_def)
  obtain g2 where g2: "maker_vault_gate (ws_market st) (ws_vault st) maker = Inr g2"
    using assms g1 go1 by (auto simp: maker_gates_def elim!: ebind_InrE)
  obtain t where go2: "g2 = Go t" using assms g1 go1 g2 by (cases g2) (auto simp: maker_gates_def)
  have g3: "maker_collateral_gate (ws_market st) args (ws_remaining_principal st) (ws_remaining_collateral st) t = Inr (Go ft)"
    using assms g1 go1 g2 go2 by (simp add: maker_gates_def)
  have a: "\<not> ro_is_expired maker (ma_now_unix_ts args)" "ma_ask_floor_rate_bps args \<le> ro_rate_bps maker"
    "ro_trader_seat_index maker \<noteq> ma_taker_seat_index args" "ro_rate_bps maker \<le> ma_rate_bps args"
    "ma_term_seconds args \<le> ro_term_seconds maker" "ma_order_type args \<noteq> PostOnly"
    using g1 go1
    by (auto simp: maker_price_gate_def order_type_can_take_def assert_can_take_def split: if_splits elim!: ebind_InrE)
  obtain lender v where b: "get_helper_seat (ws_market st) (ro_trader_seat_index maker) = Inr lender"
    "cs_owner_kind lender = OWNER_KIND_SUB_VAULT" "ws_vault st = Some v"
    "read_maker_terms v (cs_sub_vault_id lender) = Inr t" "0 < mt_idle t"
    "0 < mt_max_term_seconds t \<longrightarrow> ro_term_seconds maker \<le> mt_max_term_seconds t"
    using g2 go2
    by (auto simp: maker_vault_gate_def require_Inr split: if_splits option.splits elim!: ebind_InrE)
  obtain taker where taker: "get_helper_seat (ws_market st) (ma_taker_seat_index args) = Inr taker"
    using g3 unfolding maker_collateral_gate_def Let_def by (elim ebind_InrE)
  have cur: "mt_curator t \<noteq> cs_owner taker" using g3 taker by (auto simp: maker_collateral_gate_def Let_def)
  define p where "p = min (ws_remaining_principal st) (mt_idle t)"
  define cap where "cap = effective_origination_cap_bps (mt_max_ltv_bps t) (ma_ltv_buffer_bps args)"
  obtain c where c: "(if p = ws_remaining_principal st then Inr (ws_remaining_collateral st)
       else mul_div_u64 p (ma_collateral_atoms args) (ma_principal_atoms args) False) = Inr c"
    using g3 taker cur unfolding maker_collateral_gate_def Let_def p_def by (auto elim!: ebind_InrE)
  have lt: "c < u64_lim"
    using g3 taker cur c unfolding maker_collateral_gate_def Let_def p_def[symmetric]
    by (auto simp: ok_or_Inr checked_add_Some elim!: ebind_InrE)
  obtain req where req: "required_collateral_at_ltv_cap p (ma_debt_oracle_price_fp48 args)
        (ma_collateral_oracle_price_fp48 args) cap
        (mk_debt_mint_decimals (ws_market st)) (mk_collateral_mint_decimals (ws_market st)) = Inr req"
    using g3 taker cur c lt unfolding maker_collateral_gate_def Let_def p_def[symmetric] cap_def[symmetric]
    by (auto simp: checked_add_def elim!: ebind_InrE)
  have d: "req \<le> c" "ft = \<lparr> ft_principal = p, ft_collateral = c, ft_effective_cap_bps = cap, ft_terms = t \<rparr>"
    using g3 taker cur c lt req unfolding maker_collateral_gate_def Let_def p_def[symmetric] cap_def[symmetric]
    by (auto simp: checked_add_def ok_or_def split: if_splits)
  have e: "if p = ws_remaining_principal st then c = ws_remaining_collateral st
       else mul_div_u64 p (ma_collateral_atoms args) (ma_principal_atoms args) False = Inr c"
    using c by (auto split: if_splits)
  have f: "ft_terms ft = t" "ft_principal ft = p" "ft_collateral ft = c" "ft_effective_cap_bps ft = cap"
    by (simp_all add: d(2))
  show ?thesis
    unfolding f
    using a b taker cur req d(1) e p_def cap_def refl by (intro exI conjI)
qed

end
