(* ===== verification/Fills.thy ===== *)
theory Fills
  imports Matching "HOL-Library.Sublist"
begin

text \<open>What a successful matching run has done. The walk of \<open>match_order\<close> takes a subsequence of the
  asks; each taken ask mints one loan node and draws on the idle atoms of its sub-vault. The
  lemmas of this theory follow the walk with an invariant over the asks taken so far, and the
  properties read it off at the end: what is minted, at which rates, against which collateral,
  and what every sub-vault has left.\<close>

lemma subseq_subset: "subseq xs ys \<Longrightarrow> set xs \<subseteq> set ys"
  by (induction rule: list_emb.induct) auto

lemma subseq_sorted_wrt: "subseq xs ys \<Longrightarrow> sorted_wrt P ys \<Longrightarrow> sorted_wrt P xs"
  by (induction rule: list_emb.induct) (auto dest: subseq_subset)

section \<open>The asks taken by a walk\<close>

lemma match_walk_taken:
  assumes "match_walk st args asks = Inr st'" "Q pre st"
    and "\<And>d s i maker ft s'. (i, maker) \<in> set asks \<Longrightarrow> Q d s \<Longrightarrow> 0 < ws_remaining_principal s \<Longrightarrow>
      maker_gates s args maker = Inr (Go ft) \<Longrightarrow> take_fill s args maker ft = Inr s' \<Longrightarrow> Q (d @ [maker]) s'"
  shows "\<exists>taken. Q (pre @ taken) st' \<and> subseq taken (map snd asks)"
  using assms
proof (induction st args asks arbitrary: pre rule: match_walk.induct)
  case (1 st args)
  then show ?case by (intro exI[of _ "[]"]) simp
next
  case (2 st args i maker rest)
  note w = "2.prems"(1) and Q = "2.prems"(2) and step = "2.prems"(3)
  have stop: "\<exists>taken. Q (pre @ taken) st' \<and> subseq taken (map snd ((i, maker) # rest))" if "st' = st"
    using Q that by (intro exI[of _ "[]"]) simp
  show ?case
  proof (cases "0 < ws_remaining_principal st")
    case True
    then obtain g where g: "maker_gates st args maker = Inr g" using w by (auto elim!: ebind_InrE)
    show ?thesis
    proof (cases g)
      case Skip
      then have "match_walk st args rest = Inr st'" using w g True by simp
      then have "\<exists>taken. Q (pre @ taken) st' \<and> subseq taken (map snd rest)"
        by (rule "2.IH"(1)[OF True _ Q]) (rule step[OF list.set_intros(2)], assumption+)
      then show ?thesis by auto
    next
      case Break
      then show ?thesis using w g True stop by simp
    next
      case (Go ft)
      then obtain s1 where s1: "take_fill st args maker ft = Inr s1" "match_walk s1 args rest = Inr st'"
        using w g True by (auto elim!: ebind_InrE)
      have "Q (pre @ [maker]) s1" by (rule step[of i maker pre st ft s1]) (use Q g Go s1(1) True in simp_all)
      then have "\<exists>taken. Q ((pre @ [maker]) @ taken) st' \<and> subseq taken (map snd rest)"
        by (rule "2.IH"(2)[OF True s1(2)]) (rule step[OF list.set_intros(2)], assumption+)
      then obtain taken where "Q ((pre @ [maker]) @ taken) st'" "subseq taken (map snd rest)" by blast
      then show ?thesis by (intro exI[of _ "maker # taken"]) simp
    qed
  next
    case False
    then show ?thesis using w stop by simp
  qed
qed

section \<open>Reservations on the vault\<close>

text \<open>A sub-vault after some fills: only its encumbrance and its loan count grow, and when anything
  was drawn it is open and what is deployed or encumbered leaves the rounding reserve.\<close>

definition drawn :: "sub_vault \<Rightarrow> sub_vault \<Rightarrow> bool" where
  "drawn p q =
     (\<exists>a k. q = p\<lparr>sv_encumbered_in_orders_atoms := sv_encumbered_in_orders_atoms p + a,
                  sv_open_loans_count := sv_open_loans_count p + k\<rparr> \<and>
        (a = 0 \<or> sv_is_sunset p = 0 \<and>
           sv_deployed_principal_atoms p + (sv_encumbered_in_orders_atoms p + a) + MARGINFI_ROUNDING_RESERVE_ATOMS
             \<le> sv_total_principal_atoms p))"

definition drawn_vault :: "global_vault \<Rightarrow> global_vault \<Rightarrow> bool" where
  "drawn_vault v v' =
     (v' = v\<lparr>gv_sub_vaults := gv_sub_vaults v'\<rparr> \<and>
      list_all2 (\<lambda>p q. fst q = fst p \<and> drawn (snd p) (snd q)) (gv_sub_vaults v) (gv_sub_vaults v'))"

definition total_encumbered :: "global_vault \<Rightarrow> nat" where
  "total_encumbered v = sum_list (map (\<lambda>p. sv_encumbered_in_orders_atoms (snd p)) (gv_sub_vaults v))"

definition total_open_loans :: "global_vault \<Rightarrow> nat" where
  "total_open_loans v = sum_list (map (\<lambda>p. sv_open_loans_count (snd p)) (gv_sub_vaults v))"

lemma drawn_refl [simp]: "drawn p p"
  unfolding drawn_def by (intro exI[of _ 0]) simp

lemma drawn_trans:
  assumes "drawn p q" "drawn q r"
  shows "drawn p r"
proof -
  obtain a k where q: "q = p\<lparr>sv_encumbered_in_orders_atoms := sv_encumbered_in_orders_atoms p + a,
                  sv_open_loans_count := sv_open_loans_count p + k\<rparr>"
    and a: "a = 0 \<or> sv_is_sunset p = 0 \<and>
           sv_deployed_principal_atoms p + (sv_encumbered_in_orders_atoms p + a) + MARGINFI_ROUNDING_RESERVE_ATOMS
             \<le> sv_total_principal_atoms p"
    using assms(1) unfolding drawn_def by blast
  obtain b l where r: "r = q\<lparr>sv_encumbered_in_orders_atoms := sv_encumbered_in_orders_atoms q + b,
                  sv_open_loans_count := sv_open_loans_count q + l\<rparr>"
    and b: "b = 0 \<or> sv_is_sunset q = 0 \<and>
           sv_deployed_principal_atoms q + (sv_encumbered_in_orders_atoms q + b) + MARGINFI_ROUNDING_RESERVE_ATOMS
             \<le> sv_total_principal_atoms q"
    using assms(2) unfolding drawn_def by blast
  have "r = p\<lparr>sv_encumbered_in_orders_atoms := sv_encumbered_in_orders_atoms p + (a + b),
      sv_open_loans_count := sv_open_loans_count p + (k + l)\<rparr>"
    unfolding r q by simp
  moreover have "b = 0 \<or> sv_is_sunset p = 0 \<and>
      sv_deployed_principal_atoms p + (sv_encumbered_in_orders_atoms p + a + b) + MARGINFI_ROUNDING_RESERVE_ATOMS
        \<le> sv_total_principal_atoms p"
    using b unfolding q by simp
  then have "a + b = 0 \<or> sv_is_sunset p = 0 \<and>
      sv_deployed_principal_atoms p + (sv_encumbered_in_orders_atoms p + (a + b)) + MARGINFI_ROUNDING_RESERVE_ATOMS
        \<le> sv_total_principal_atoms p"
    using a by (cases "b = 0") (simp_all add: add.assoc)
  ultimately show ?thesis unfolding drawn_def by blast
qed

lemma drawn_vault_refl [simp]: "drawn_vault v v"
  by (simp add: drawn_vault_def list_all2_refl)

lemma drawn_vault_trans:
  assumes "drawn_vault u v" "drawn_vault v w"
  shows "drawn_vault u w"
proof -
  have "list_all2 (\<lambda>p q. fst q = fst p \<and> drawn (snd p) (snd q)) (gv_sub_vaults u) (gv_sub_vaults w)"
    by (rule list_all2_trans[of "\<lambda>p q. fst q = fst p \<and> drawn (snd p) (snd q)"
          "\<lambda>p q. fst q = fst p \<and> drawn (snd p) (snd q)" _ _ "gv_sub_vaults v"])
      (use assms drawn_trans in \<open>auto simp: drawn_vault_def\<close>)
  moreover have "w = u\<lparr>gv_sub_vaults := gv_sub_vaults w\<rparr>"
  proof -
    have a: "v = u\<lparr>gv_sub_vaults := gv_sub_vaults v\<rparr>" "w = v\<lparr>gv_sub_vaults := gv_sub_vaults w\<rparr>"
      using assms by (simp_all add: drawn_vault_def)
    have "w = (u\<lparr>gv_sub_vaults := gv_sub_vaults v\<rparr>)\<lparr>gv_sub_vaults := gv_sub_vaults w\<rparr>"
      using a by metis
    then show ?thesis by simp
  qed
  ultimately show ?thesis by (simp add: drawn_vault_def)
qed

text \<open>The match idle is the headroom of the sub-vault.\<close>

lemma match_idle_bound:
  "a \<le> sub_vault_match_idle s \<Longrightarrow> 0 < a \<Longrightarrow>
   sv_deployed_principal_atoms s + (sv_encumbered_in_orders_atoms s + a) + MARGINFI_ROUNDING_RESERVE_ATOMS
     \<le> sv_total_principal_atoms s"
  by (simp add: sub_vault_match_idle_def saturating_sub_def)

lemma reserve_draws:
  assumes ok: "vault_ok v" and t: "read_maker_terms v k = Inr t" and a: "0 < a" "a \<le> mt_idle t"
    and r: "reserve_on_sub_vault v k a = Inr v'"
  shows "vault_ok v' \<and> drawn_vault v v' \<and> total_encumbered v' = total_encumbered v + a \<and>
    total_open_loans v' = total_open_loans v + 1"
proof -
  let ?i = "sub_vault_index v k"
  have nz: "?i \<noteq> NIL" using t a by (auto simp: read_maker_terms_def Let_def)
  obtain s where s: "(?i, s) \<in> set (gv_sub_vaults v)" "get_sub_vault v ?i = Inr s"
    using sub_vault_index_hit[OF ok nz] by blast
  have idle: "sv_is_sunset s = 0" "mt_idle t = sub_vault_match_idle s"
    using t a nz s(2) by (auto simp: read_maker_terms_def Let_def split: if_splits)
  define q where "q = s\<lparr>sv_encumbered_in_orders_atoms := sv_encumbered_in_orders_atoms s + a,
      sv_open_loans_count := sv_open_loans_count s + 1\<rparr>"
  have v': "v' = set_sub_vault v ?i q"
    using r nz s(2) by (auto simp: reserve_on_sub_vault_def Let_def q_def ok_or_Inr checked_add_Some elim!: ebind_InrE)
  have d: "distinct (map fst (gv_sub_vaults v))" using vault_trees_ok(1)[OF ok] by (simp add: tree_ok_def)
  obtain as bs where sp: "gv_sub_vaults v = as @ (?i, s) # bs"
      "tree_update ?i (\<lambda>_. q) (gv_sub_vaults v) = as @ (?i, q) # bs"
    using tree_split[OF d s(1)] by blast
  have up: "gv_sub_vaults v' = as @ (?i, q) # bs" by (simp add: v' set_sub_vault_def sp(2))
  have hd: "v' = v\<lparr>gv_sub_vaults := gv_sub_vaults v'\<rparr>" by (simp add: v' set_sub_vault_def)
  have "drawn s q"
    unfolding drawn_def by (intro exI[of _ a] exI[of _ 1]) (use match_idle_bound idle a in \<open>simp add: q_def\<close>)
  then have "drawn_vault v v'"
    
    using hd unfolding drawn_vault_def up sp(1) by (auto intro!: list_all2_appendI list_all2_refl)
  moreover have "total_encumbered v' = total_encumbered v + a" "total_open_loans v' = total_open_loans v + 1"
    by (simp_all add: total_encumbered_def total_open_loans_def up sp(1) q_def)
  moreover have "vault_ok v'"
    unfolding v' by (rule vault_ok_set_sub_vault[OF ok s(1)]) (simp_all add: q_def)
  ultimately show ?thesis by blast
qed

section \<open>The loan minted for an ask\<close>

definition minted_from :: "market \<Rightarrow> global_vault \<Rightarrow> match_args \<Rightarrow> resting_order \<Rightarrow> matched_loan \<Rightarrow> bool" where
  "minted_from m v args ask n =
     (\<not> ro_is_expired ask (ma_now_unix_ts args) \<and> ma_order_type args \<noteq> PostOnly \<and>
      ml_lender_seat_index n = ro_trader_seat_index ask \<and> ml_borrower_seat_index n = ma_taker_seat_index args \<and>
      ro_trader_seat_index ask \<noteq> ma_taker_seat_index args \<and>
      ml_borrower_collateral_share_price_snapshot_fp48 n = ma_taker_share_price_snapshot_fp48 args \<and>
      ml_lender_rate_bps n = ro_rate_bps ask \<and>
      ma_ask_floor_rate_bps args \<le> ro_rate_bps ask \<and> ro_rate_bps ask \<le> ma_rate_bps args \<and>
      ml_borrower_rate_bps n = max (ma_rate_bps args) (ro_rate_bps ask + ma_fee_floor_bps args) \<and>
      ml_term_seconds n = ma_term_seconds args \<and> ma_term_seconds args \<le> ro_term_seconds ask \<and>
      0 < ml_principal_atoms n \<and>
      mul_div_u64 (ml_principal_atoms n) (fc_origination_bps (mk_fee_config m)) BPS_PER_UNIT False =
        Inr (ml_origination_atoms n) \<and>
      (\<exists>lender taker s. get_helper_seat m (ro_trader_seat_index ask) = Inr lender \<and>
         get_helper_seat m (ma_taker_seat_index args) = Inr taker \<and> s \<in> set (tree_values (gv_sub_vaults v)) \<and>
         cs_owner_kind lender = OWNER_KIND_SUB_VAULT \<and> sv_sub_vault_id s = cs_sub_vault_id lender \<and>
         sv_is_sunset s = 0 \<and> sv_curator s \<noteq> cs_owner taker \<and>
         (0 < sv_max_term_seconds s \<longrightarrow> ro_term_seconds ask \<le> sv_max_term_seconds s) \<and>
         ml_origination_ltv_bps n = effective_origination_cap_bps (sv_max_ltv_bps s) (ma_ltv_buffer_bps args) \<and>
         ml_liquidation_ltv_bps n = sv_liquidation_ltv_bps s \<and>
         ml_curator_fee_bps_snapshot n = sv_curator_fee_bps s) \<and>
      (\<exists>req. required_collateral_at_ltv_cap (ml_principal_atoms n) (ma_debt_oracle_price_fp48 args)
         (ma_collateral_oracle_price_fp48 args) (ml_origination_ltv_bps n) (mk_debt_mint_decimals m)
         (mk_collateral_mint_decimals m) = Inr req \<and> req \<le> ml_collateral_atoms n))"

lemma drawn_vault_back:
  assumes "drawn_vault v v'" "q \<in> set (tree_values (gv_sub_vaults v'))"
  shows "\<exists>p \<in> set (tree_values (gv_sub_vaults v)). drawn p q"
proof -
  obtain j where j: "j < length (gv_sub_vaults v')" "q = snd (gv_sub_vaults v' ! j)"
    using assms(2) by (auto simp: tree_values_def in_set_conv_nth)
  then show ?thesis
    using assms(1) by (intro bexI[of _ "snd (gv_sub_vaults v ! j)"]) (auto simp: drawn_vault_def list_all2_conv_all_nth tree_values_def)
qed

lemma drawn_static:
  assumes "drawn p q"
  shows "sv_sub_vault_id q = sv_sub_vault_id p" "sv_is_sunset q = sv_is_sunset p" "sv_curator q = sv_curator p"
    "sv_max_term_seconds q = sv_max_term_seconds p" "sv_max_ltv_bps q = sv_max_ltv_bps p"
    "sv_liquidation_ltv_bps q = sv_liquidation_ltv_bps p" "sv_curator_fee_bps q = sv_curator_fee_bps p"
    "sv_total_principal_atoms q = sv_total_principal_atoms p" "sv_deployed_principal_atoms q = sv_deployed_principal_atoms p"
  using assms by (auto simp: drawn_def)

lemma read_maker_terms_open:
  assumes ok: "vault_ok v" and t: "read_maker_terms v k = Inr t" "0 < mt_idle t"
  shows "mt_sub_vault_id t = k \<and> (\<exists>s \<in> set (tree_values (gv_sub_vaults v)). sv_sub_vault_id s = k \<and> sv_is_sunset s = 0 \<and>
    mt_idle t = sub_vault_match_idle s \<and> mt_max_ltv_bps t = sv_max_ltv_bps s \<and>
    mt_liquidation_ltv_bps t = sv_liquidation_ltv_bps s \<and> mt_max_term_seconds t = sv_max_term_seconds s \<and>
    mt_curator_fee_bps t = sv_curator_fee_bps s \<and> mt_curator t = sv_curator s)"
proof -
  let ?i = "sub_vault_index v k"
  have nz: "?i \<noteq> NIL" using t by (auto simp: read_maker_terms_def Let_def)
  obtain s where s: "(?i, s) \<in> set (gv_sub_vaults v)" "sv_sub_vault_id s = k" "get_sub_vault v ?i = Inr s"
    using sub_vault_index_hit[OF ok nz] by blast
  have "s \<in> set (tree_values (gv_sub_vaults v))" using s(1) by (force simp: tree_values_def)
  then show ?thesis
    using t nz s by (auto simp: read_maker_terms_def Let_def split: if_splits)
qed

lemma book_frame_decimals:
  "book_frame m m' \<Longrightarrow> mk_debt_mint_decimals m' = mk_debt_mint_decimals m \<and>
    mk_collateral_mint_decimals m' = mk_collateral_mint_decimals m \<and> mk_fee_config m' = mk_fee_config m"
  by (simp add: book_frame_def market_config_def)

lemma seat_core_identity:
  "seat_core s' = seat_core s \<Longrightarrow> cs_owner s' = cs_owner s \<and> cs_owner_kind s' = cs_owner_kind s \<and>
    cs_sub_vault_id s' = cs_sub_vault_id s"
  by (simp add: seat_core_def seat_key_def)

lemma minted_from_fill:
  assumes frame: "book_frame m0 (ws_market st)" and v: "ws_vault st = Some v" "vault_ok v" "drawn_vault v0 v"
    and g: "maker_gates st args maker = Inr (Go ft)" and rem: "0 < ws_remaining_principal st"
    and n: "fill_node (ws_market st) args maker ft n"
  shows "minted_from m0 v0 args maker n"
proof -
  obtain lender taker t req where
    seats: "get_helper_seat (ws_market st) (ro_trader_seat_index maker) = Inr lender"
      "get_helper_seat (ws_market st) (ma_taker_seat_index args) = Inr taker"
    and t: "read_maker_terms v (cs_sub_vault_id lender) = Inr t" "ft_terms ft = t"
    and gate: "\<not> ro_is_expired maker (ma_now_unix_ts args)" "ma_ask_floor_rate_bps args \<le> ro_rate_bps maker"
      "ro_trader_seat_index maker \<noteq> ma_taker_seat_index args" "ro_rate_bps maker \<le> ma_rate_bps args"
      "ma_term_seconds args \<le> ro_term_seconds maker" "ma_order_type args \<noteq> PostOnly"
      "cs_owner_kind lender = OWNER_KIND_SUB_VAULT" "0 < mt_idle t"
      "0 < mt_max_term_seconds t \<longrightarrow> ro_term_seconds maker \<le> mt_max_term_seconds t"
      "mt_curator t \<noteq> cs_owner taker"
    and ft: "ft_principal ft = min (ws_remaining_principal st) (mt_idle t)"
      "ft_effective_cap_bps ft = effective_origination_cap_bps (mt_max_ltv_bps t) (ma_ltv_buffer_bps args)"
    and req: "required_collateral_at_ltv_cap (ft_principal ft) (ma_debt_oracle_price_fp48 args)
        (ma_collateral_oracle_price_fp48 args) (ft_effective_cap_bps ft)
        (mk_debt_mint_decimals (ws_market st)) (mk_collateral_mint_decimals (ws_market st)) = Inr req"
      "req \<le> ft_collateral ft"
    using maker_gates_Go[OF g] v(1) by (elim exE conjE) simp
  obtain l0 k0 where l0: "get_helper_seat m0 (ro_trader_seat_index maker) = Inr l0" "seat_core lender = seat_core l0"
    and k0: "get_helper_seat m0 (ma_taker_seat_index args) = Inr k0" "seat_core taker = seat_core k0"
    using same_seats_back seats frame unfolding book_frame_def by meson
  obtain s1 where s1: "s1 \<in> set (tree_values (gv_sub_vaults v))" "sv_sub_vault_id s1 = cs_sub_vault_id lender"
      "sv_is_sunset s1 = 0" "mt_max_ltv_bps t = sv_max_ltv_bps s1" "mt_liquidation_ltv_bps t = sv_liquidation_ltv_bps s1"
      "mt_max_term_seconds t = sv_max_term_seconds s1" "mt_curator_fee_bps t = sv_curator_fee_bps s1"
      "mt_curator t = sv_curator s1"
    using read_maker_terms_open[OF v(2) t(1) gate(8)] by blast
  obtain s where s: "s \<in> set (tree_values (gv_sub_vaults v0))" "drawn s s1"
    using drawn_vault_back[OF v(3) s1(1)] by blast
  note st = drawn_static[OF s(2)] and ids = seat_core_identity[OF l0(2)] seat_core_identity[OF k0(2)]
  note dec = book_frame_decimals[OF frame]
  have a: "\<exists>lender taker s. get_helper_seat m0 (ro_trader_seat_index maker) = Inr lender \<and>
         get_helper_seat m0 (ma_taker_seat_index args) = Inr taker \<and> s \<in> set (tree_values (gv_sub_vaults v0)) \<and>
         cs_owner_kind lender = OWNER_KIND_SUB_VAULT \<and> sv_sub_vault_id s = cs_sub_vault_id lender \<and>
         sv_is_sunset s = 0 \<and> sv_curator s \<noteq> cs_owner taker \<and>
         (0 < sv_max_term_seconds s \<longrightarrow> ro_term_seconds maker \<le> sv_max_term_seconds s) \<and>
         ml_origination_ltv_bps n = effective_origination_cap_bps (sv_max_ltv_bps s) (ma_ltv_buffer_bps args) \<and>
         ml_liquidation_ltv_bps n = sv_liquidation_ltv_bps s \<and>
         ml_curator_fee_bps_snapshot n = sv_curator_fee_bps s"
    by (intro exI[of _ l0] exI[of _ k0] exI[of _ s])
      (use l0(1) k0(1) s(1) s1 st ids gate ft(2) t(2) n in \<open>simp add: fill_node_def\<close>)
  have b: "\<exists>req. required_collateral_at_ltv_cap (ml_principal_atoms n) (ma_debt_oracle_price_fp48 args)
         (ma_collateral_oracle_price_fp48 args) (ml_origination_ltv_bps n) (mk_debt_mint_decimals m0)
         (mk_collateral_mint_decimals m0) = Inr req \<and> req \<le> ml_collateral_atoms n"
    using req dec n by (auto simp: fill_node_def)
  show ?thesis
    unfolding minted_from_def using a b gate ft(1) rem n dec by (simp add: fill_node_def)
qed

section \<open>The books of a walk\<close>

definition walk_books ::
  "market \<Rightarrow> global_vault \<Rightarrow> match_args \<Rightarrow> resting_order list \<Rightarrow> matched_loan list \<Rightarrow> walk_state \<Rightarrow> bool" where
  "walk_books m0 v0 args taken new st =
     (list_all2 (minted_from m0 v0 args) taken new \<and>
      mset (tree_values (mk_matched_loans (ws_market st))) = mset (tree_values (mk_matched_loans m0)) + mset new \<and>
      map ml_sequence new = [mk_matched_loan_sequence m0..<mk_matched_loan_sequence (ws_market st)] \<and>
      mk_matched_loan_sequence (ws_market st) = mk_matched_loan_sequence m0 + length new \<and>
      sum_list (map ml_principal_atoms new) = ws_total_filled st \<and>
      ws_total_filled st + ws_remaining_principal st = ma_principal_atoms args \<and>
      sum_list (map ml_collateral_atoms new) + ws_remaining_collateral st = ma_collateral_atoms args \<and>
      (0 < ws_remaining_principal st \<longrightarrow>
         sum_list (map ml_collateral_atoms new) * ma_principal_atoms args \<le> ws_total_filled st * ma_collateral_atoms args) \<and>
      (ws_remaining_principal st = 0 \<longrightarrow> 0 < ma_principal_atoms args \<longrightarrow> ws_remaining_collateral st = 0) \<and>
      ws_num_fills st = min (length new) (u32_lim - 1))"

definition walk_vault :: "global_vault \<Rightarrow> nat \<Rightarrow> walk_state \<Rightarrow> bool" where
  "walk_vault v0 fills st =
     (\<exists>v. ws_vault st = Some v \<and> vault_ok v \<and> drawn_vault v0 v \<and>
        total_encumbered v = total_encumbered v0 + ws_total_filled st \<and>
        total_open_loans v = total_open_loans v0 + fills)"

definition walk_rel :: "market \<Rightarrow> global_vault \<Rightarrow> match_args \<Rightarrow> resting_order list \<Rightarrow> walk_state \<Rightarrow> bool" where
  "walk_rel m0 v0 args taken st =
     (market_ok (ws_market st) \<and> book_frame m0 (ws_market st) \<and> walk_vault v0 (length taken) st \<and>
      (\<exists>new. walk_books m0 v0 args taken new st))"

text \<open>The collateral a fill takes: all of the rest for the last atoms of principal, else the floor of
  the proportional share, which what is left always covers.\<close>

lemma fill_collateral:
  fixes p :: nat
  assumes used: "used * P \<le> filled * C" "used + rc = C" "filled + rp = P"
    and p: "0 < p" "p \<le> rp"
    and c: "if p = rp then c = rc else mul_div_u64 p C P False = Inr c"
  shows "used + c + (rc - c) = C \<and> (0 < rp - p \<longrightarrow> (used + c) * P \<le> (filled + p) * C) \<and>
    (rp - p = 0 \<longrightarrow> rc - c = 0)"
proof (cases "p = rp")
  case True
  then show ?thesis using used c by simp
next
  case False
  then have c: "c * P \<le> p * C"
    using c False mul_div_u64_floor_le by simp
  have le: "(used + c) * P \<le> (filled + p) * C" using used(1) c by (simp add: add_mult_distrib)
  also have "\<dots> \<le> P * C" using used p by (intro mult_right_mono) auto
  finally have "used + c \<le> C" using p used(3) by (simp add: mult.commute)
  then show ?thesis using used le False p by auto
qed

lemma mint_sequence:
  assumes "mint_fill m args maker ft = Inr m'"
  shows "mk_matched_loan_sequence m' = mk_matched_loan_sequence m + 1"
  using assms by (auto simp: mint_fill_def elim!: ebind_InrE dest!: alloc_matched_loan_Inr)

lemma apply_fill_sequence:
  assumes "apply_fill m vault args maker ft = Inr (m', vault')"
  shows "mk_matched_loan_sequence m' = mk_matched_loan_sequence m + 1"
proof -
  obtain m1 m2 where "mint_fill m args maker ft = Inr m1" "bump_open_borrow m1 (ma_taker_seat_index args) = Inr m2"
    "bump_open_lend m2 (ro_trader_seat_index maker) = Inr m'"
    using assms unfolding apply_fill_def by (elim ebind_InrE) auto
  then show ?thesis by (auto dest!: mint_sequence bump_open_borrow_Inr bump_open_lend_Inr)
qed

lemma walk_rel_step:
  assumes rel: "walk_rel m0 v0 args taken st" and rem: "0 < ws_remaining_principal st"
    and g: "maker_gates st args maker = Inr (Go ft)" and f: "take_fill st args maker ft = Inr st'"
  shows "walk_rel m0 v0 args (taken @ [maker]) st'"
proof -
  obtain v new where ok: "market_ok (ws_market st)" "book_frame m0 (ws_market st)"
    and v: "ws_vault st = Some v" "vault_ok v" "drawn_vault v0 v"
      "total_encumbered v = total_encumbered v0 + ws_total_filled st"
      "total_open_loans v = total_open_loans v0 + length taken"
    and b: "walk_books m0 v0 args taken new st"
    using rel unfolding walk_rel_def walk_vault_def by blast
  obtain m vault where a: "apply_fill (ws_market st) (Some v) args maker ft = Inr (m, vault)"
    and st': "st' = \<lparr> ws_market = m, ws_vault = vault, ws_remaining_principal = ws_remaining_principal st - ft_principal ft,
      ws_remaining_collateral = ws_remaining_collateral st - ft_collateral ft,
      ws_total_filled = ws_total_filled st + ft_principal ft,
      ws_num_fills = saturating_add u32_lim (ws_num_fills st) 1 \<rparr>"
    using take_fill_Inr[OF f] v(1) by auto
  obtain n v' where m: "market_ok m" "book_frame (ws_market st) m" and n: "fill_node (ws_market st) args maker ft n"
    and ins: "mset (tree_values (mk_matched_loans m)) = add_mset n (mset (tree_values (mk_matched_loans (ws_market st))))"
    and v': "vault = Some v'" "reserve_on_sub_vault v (mt_sub_vault_id (ft_terms ft)) (ft_principal ft) = Inr v'"
    using apply_fill_ok[OF ok(1) a] by auto
  obtain lender :: claimed_seat and u t where u: "ws_vault st = Some u"
    and t': "read_maker_terms u (cs_sub_vault_id lender) = Inr t" "ft_terms ft = t" "0 < mt_idle t"
    and p: "ft_principal ft = min (ws_remaining_principal st) (mt_idle t)"
    and c: "if ft_principal ft = ws_remaining_principal st then ft_collateral ft = ws_remaining_collateral st
       else mul_div_u64 (ft_principal ft) (ma_collateral_atoms args) (ma_principal_atoms args) False = Inr (ft_collateral ft)"
    using maker_gates_Go[OF g] by (elim exE conjE) (rule that, assumption+)
  have t: "read_maker_terms v (cs_sub_vault_id lender) = Inr t" "ft_terms ft = t" "0 < mt_idle t"
    using t' u v(1) by simp_all
  have pos: "0 < ft_principal ft" "ft_principal ft \<le> ws_remaining_principal st" "ft_principal ft \<le> mt_idle t"
    using p rem t(3) by simp_all
  have id: "mt_sub_vault_id t = cs_sub_vault_id lender" using read_maker_terms_open[OF v(2) t(1,3)] by blast
  have res: "vault_ok v'" "drawn_vault v v'" "total_encumbered v' = total_encumbered v + ft_principal ft"
    "total_open_loans v' = total_open_loans v + 1"
    using reserve_draws[OF v(2) t(1) pos(1,3)] v'(2) t(2) id by simp_all
  have "walk_vault v0 (length (taken @ [maker])) st'"
    unfolding walk_vault_def using res v v'(1) drawn_vault_trans[OF v(3) res(2)] by (simp add: st')
  moreover have "walk_books m0 v0 args (taken @ [maker]) (new @ [n]) st'"
  proof -
    have mf: "minted_from m0 v0 args maker n" by (rule minted_from_fill[OF ok(2) v(1-3) g rem n])
    have nd: "ml_principal_atoms n = ft_principal ft" "ml_collateral_atoms n = ft_collateral ft"
      "ml_sequence n = mk_matched_loan_sequence (ws_market st)" using n by (simp_all add: fill_node_def)
    have sq: "mk_matched_loan_sequence m = mk_matched_loan_sequence (ws_market st) + 1"
      using apply_fill_sequence[OF a] .
    note B = b[unfolded walk_books_def]
    have le: "mk_matched_loan_sequence m0 \<le> mk_matched_loan_sequence (ws_market st)" using B by simp
    have col: "sum_list (map ml_collateral_atoms new) + ft_collateral ft + (ws_remaining_collateral st - ft_collateral ft) =
        ma_collateral_atoms args \<and>
      (0 < ws_remaining_principal st - ft_principal ft \<longrightarrow>
        (sum_list (map ml_collateral_atoms new) + ft_collateral ft) * ma_principal_atoms args
          \<le> (ws_total_filled st + ft_principal ft) * ma_collateral_atoms args) \<and>
      (ws_remaining_principal st - ft_principal ft = 0 \<longrightarrow> ws_remaining_collateral st - ft_collateral ft = 0)"
      by (rule fill_collateral[OF _ _ _ pos(1,2) c]) (use B rem in simp_all)
    show ?thesis
      unfolding walk_books_def
    proof (intro conjI)
      show "list_all2 (minted_from m0 v0 args) (taken @ [maker]) (new @ [n])" using B mf by (simp add: list_all2_appendI)
      show "mset (tree_values (mk_matched_loans (ws_market st'))) = mset (tree_values (mk_matched_loans m0)) + mset (new @ [n])"
        using B ins by (simp add: st')
      show "map ml_sequence (new @ [n]) = [mk_matched_loan_sequence m0..<mk_matched_loan_sequence (ws_market st')]"
        using B nd(3) sq le by (simp add: st')
      show "ws_num_fills st' = min (length (new @ [n])) (u32_lim - 1)"
        using B by (simp add: st' saturating_add_def min_def u32_lim_def)
    qed (use B col nd pos sq in \<open>simp_all add: st'\<close>)
  qed
  ultimately show ?thesis
    unfolding walk_rel_def using m book_frame_trans[OF ok(2) m(2)] by (auto simp: st')
qed

lemma walk_rel_start:
  "market_ok m \<Longrightarrow> vault_ok v \<Longrightarrow> walk_rel m v args [] (match_start m args (Some v))"
  unfolding walk_rel_def walk_vault_def walk_books_def match_start_def
  by (intro conjI exI[of _ "[]"] exI[of _ v]) (simp_all add: u32_lim_def)

text \<open>What a successful run of \<open>match_order\<close> amounts to.\<close>

lemma match_order_summary:
  assumes "market_ok m" "vault_ok v" "match_order m args (Some v) = Inr (m', vault', r)"
  shows "\<exists>st taken. walk_rel m v args taken st \<and> subseq taken (map snd (mk_asks m)) \<and>
    m' = ws_market st \<and> vault' = ws_vault st \<and> mr_remaining_principal r = ws_remaining_principal st \<and>
    mr_remaining_collateral r = ws_remaining_collateral st \<and> mr_total_filled_principal r = ws_total_filled st \<and>
    mr_num_fills r = ws_num_fills st"
proof -
  obtain st where st: "match_walk (match_start m args (Some v)) args (mk_asks m) = Inr st"
    and r: "(m', vault', r) = (ws_market st, ws_vault st, \<lparr> mr_remaining_principal = ws_remaining_principal st,
            mr_remaining_collateral = ws_remaining_collateral st,
            mr_total_filled_principal = ws_total_filled st, mr_num_fills = ws_num_fills st,
            mr_residual_action = Drop \<rparr>)"
    using assms(3) unfolding match_order_walk[OF assms(1)] by (elim ebind_InrE) simp
  have "\<exists>taken. walk_rel m v args ([] @ taken) st \<and> subseq taken (map snd (mk_asks m))"
    by (rule match_walk_taken[where Q = "walk_rel m v args", OF st walk_rel_start[OF assms(1,2)]])
      (rule walk_rel_step, assumption+)
  then show ?thesis using r by auto
qed

lemma asks_sorted_by_rate:
  assumes "market_ok m"
  shows "sorted (map ro_rate_bps (map snd (mk_asks m)))"
proof -
  have "sorted_wrt (\<lambda>a b. ask_cmp (snd a) (snd b) \<noteq> Less) (mk_asks m)"
    using assms by (simp add: market_ok_def descending_def)
  then have "sorted_wrt (\<lambda>a b. ro_rate_bps (snd a) \<le> ro_rate_bps (snd b)) (mk_asks m)"
    by (rule sorted_wrt_mono_rel[rotated]) (auto simp: ask_cmp_def then_cmp_iff cmp_nat_def split: if_splits)
  then show ?thesis by (simp add: sorted_wrt_map)
qed

lemma walk_books_loans:
  assumes "walk_books m0 v0 args taken new st"
  shows "set (tree_values (mk_matched_loans (ws_market st))) = set (tree_values (mk_matched_loans m0)) \<union> set new"
proof -
  have "mset (tree_values (mk_matched_loans (ws_market st))) = mset (tree_values (mk_matched_loans m0) @ new)"
    using assms by (simp add: walk_books_def)
  then show ?thesis by (metis mset_eq_setD set_append)
qed

text \<open>Without a vault account nothing is filled.\<close>

lemma match_order_no_vault:
  assumes "market_ok m" "match_order m args None = Inr (m', vault', r)"
  shows "m' = m \<and> vault' = None \<and> mr_remaining_principal r = ma_principal_atoms args \<and>
    mr_remaining_collateral r = ma_collateral_atoms args \<and> mr_total_filled_principal r = 0 \<and> mr_num_fills r = 0"
proof -
  obtain st where st: "match_walk (match_start m args None) args (mk_asks m) = Inr st"
    and r: "(m', vault', r) = (ws_market st, ws_vault st, \<lparr> mr_remaining_principal = ws_remaining_principal st,
            mr_remaining_collateral = ws_remaining_collateral st,
            mr_total_filled_principal = ws_total_filled st, mr_num_fills = ws_num_fills st,
            mr_residual_action = Drop \<rparr>)"
    using assms(2) unfolding match_order_walk[OF assms(1)] by (elim ebind_InrE) simp
  have no: "maker_gates s args maker \<noteq> Inr (Go ft)" if "s = match_start m args None" for s maker ft
    using maker_gates_Go[of s args maker ft] that by (auto simp: match_start_def)
  have "st = match_start m args None"
    by (rule match_walk_invariant[where P = "\<lambda>s. s = match_start m args None", OF st refl]) (use no in blast)
  then show ?thesis using r by (simp add: match_start_def)
qed

section \<open>A concrete market\<close>

text \<open>Two sub-vaults with 1000 and 5000 idle atoms quote 5\<open>%\<close> and 7\<open>%\<close>; a borrower bids 8\<open>%\<close> for 3000 atoms.\<close>


definition two_vaults :: global_vault where
  "two_vaults = (gv_new_empty 11 5 0 0 0 255 0)\<lparr> gv_num_bytes_allocated := 1024, gv_sub_vault_count := 2,
     gv_next_sub_vault_id := 3,
     gv_sub_vaults :=
       [(512, (sv_new_empty 2 5 8000 31536000)\<lparr>sv_total_principal_atoms := 5001\<rparr>),
        (0, (sv_new_empty 1 6 7500 31536000)\<lparr>sv_total_principal_atoms := 1001\<rparr>)] \<rparr>"

definition two_asks :: market where
  "two_asks = (mk_new_empty (\<lambda>k m. (m, 255)) 1 6 2 6 3)\<lparr> mk_num_bytes_allocated := 1120,
     mk_order_sequence_number := 2, mk_matched_loan_sequence := 4,
     mk_asks :=
       [(480, ro_new_primary 160 0 Ask Limit 500 31536000 0 0 0 0 0 SCALE),
        (640, ro_new_primary 320 1 Ask Limit 700 31536000 0 0 0 0 0 SCALE)],
     mk_claimed_seats :=
       [(320, cs_new_empty 9 1 2), (160, cs_new_empty 9 1 1), (0, cs_new_empty 7 0 0)],
     mk_free_list := [800, 960] \<rparr>"

definition borrow_3000 :: match_args where
  "borrow_3000 = \<lparr> ma_market_pubkey = 3, ma_taker_seat_index = 0, ma_side = Bid, ma_rate_bps = 800,
     ma_term_seconds = 86400, ma_principal_atoms = 3000, ma_collateral_atoms = 6000, ma_order_type = Limit,
     ma_now_unix_ts = 1000, ma_fee_floor_bps = 50, ma_taker_share_price_snapshot_fp48 = SCALE,
     ma_debt_oracle_price_fp48 = SCALE, ma_collateral_oracle_price_fp48 = SCALE, ma_ask_floor_rate_bps = 300,
     ma_ltv_buffer_bps = 100 \<rparr>"

lemmas example_defs = two_vaults_def two_asks_def borrow_3000_def gv_new_empty_def sv_new_empty_def mk_new_empty_def
  ro_new_primary_def cs_new_empty_def Let_def

lemma two_vaults_ok: "vault_ok two_vaults"
  by (simp add: vault_ok_def example_defs vault_blocks_def descending_def u32_lim_def sub_vault_cmp_def
      cmp_nat_def refs_of_def)

lemma two_asks_ok: "market_ok two_asks"
  by (simp add: market_ok_def example_defs market_blocks_def descending_def u32_lim_def ask_cmp_def
      cmp_nat_def claimed_seat_cmp_def seat_key_def)

lemmas match_eval = maker_gates_def maker_price_gate_def
  maker_vault_gate_def read_maker_terms_def maker_collateral_gate_def take_fill_def apply_fill_def
  reserve_on_sub_vault_def mint_fill_def floored_borrower_rate_def alloc_matched_loan_def bump_open_borrow_def
  bump_open_lend_def ro_is_expired_def NO_EXPIRATION_LAST_VALID_UNIX_TS_def get_helper_seat_def tree_get_def
  sub_vault_index_def sub_vault_cmp_def cmp_nat_def get_sub_vault_def NIL_def sub_vault_match_idle_def
  saturating_sub_def MARGINFI_ROUNDING_RESERVE_ATOMS_def set_sub_vault_def tree_update_def
  get_free_address_on_market_fixed_def stack_remove_def insert_matched_loan_def set_seat_def
  order_type_can_take_def require_def checked_add_def checked_sub_def OWNER_KIND_SUB_VAULT_def
  effective_origination_cap_bps_def saturating_add_def mul_div_u64_def mul_div_def u256_to_u128_def
  checked_mul_def u256_lim_def narrow_def fee_config_default_def BPS_PER_UNIT_def matched_loan_cmp_def
  required_collateral_at_ltv_cap_def ltv_eval lim_defs

lemma two_ask_run:
  "\<exists>m' v' r. match_order two_asks borrow_3000 (Some two_vaults) = Inr (m', Some v', r) \<and>
     mr_total_filled_principal r = 3000 \<and> mr_remaining_principal r = 0 \<and> mr_num_fills r = 2 \<and>
     map (\<lambda>n. (ml_sequence n, ml_principal_atoms n, ml_collateral_atoms n, ml_lender_rate_bps n))
       (tree_values (mk_matched_loans m')) = [(5, 2000, 4000, 700), (4, 1000, 2000, 500)] \<and>
     map (\<lambda>s. (sv_sub_vault_id s, sv_encumbered_in_orders_atoms s)) (tree_values (gv_sub_vaults v')) = [(2, 2000), (1, 1000)]"
  unfolding match_order_walk[OF two_asks_ok] match_start_def
  by (simp add: match_eval example_defs tree_values_def)

lemma two_ask_loans:
  "\<exists>m' v' r n1 n2 q. match_order two_asks borrow_3000 (Some two_vaults) = Inr (m', Some v', r) \<and>
     mr_total_filled_principal r = 3000 \<and>
     n1 \<in> set (tree_values (mk_matched_loans m')) \<and> ml_sequence n1 = 4 \<and> ml_principal_atoms n1 = 1000 \<and>
     n2 \<in> set (tree_values (mk_matched_loans m')) \<and> ml_sequence n2 = 5 \<and>
     q \<in> set (tree_values (gv_sub_vaults v')) \<and> sv_encumbered_in_orders_atoms q = 1000"
proof -
  obtain m' v' r where run: "match_order two_asks borrow_3000 (Some two_vaults) = Inr (m', Some v', r)"
    "mr_total_filled_principal r = 3000"
    and l: "map (\<lambda>n. (ml_sequence n, ml_principal_atoms n, ml_collateral_atoms n, ml_lender_rate_bps n))
       (tree_values (mk_matched_loans m')) = [(5, 2000, 4000, 700), (4, 1000, 2000, 500)]"
    and q: "map (\<lambda>s. (sv_sub_vault_id s, sv_encumbered_in_orders_atoms s)) (tree_values (gv_sub_vaults v')) =
      [(2, 2000), (1, 1000)]"
    using two_ask_run by (elim exE conjE) (rule that)
  obtain n2 n1 where "tree_values (mk_matched_loans m') = [n2, n1]" "ml_sequence n1 = 4"
      "ml_principal_atoms n1 = 1000" "ml_sequence n2 = 5"
    using l by (auto simp: map_eq_Cons_conv)
  moreover obtain q2 q1 where "tree_values (gv_sub_vaults v') = [q2, q1]" "sv_encumbered_in_orders_atoms q1 = 1000"
    using q by (auto simp: map_eq_Cons_conv)
  ultimately show ?thesis
    using run by (intro exI[of _ m'] exI[of _ v'] exI[of _ r] exI[of _ n1] exI[of _ n2] exI[of _ q1]) simp
qed

section \<open>Properties\<close>

text \<open>C2. A matching run keeps the books: on a well-formed market and vault, the principal filled and
  the principal left add up to the bid, the collateral of the minted loans and the collateral left
  add up to the bid's collateral (and no collateral is left once the principal is filled), each
  minted loan is new and has the next sequence number, the encumbrance over all sub-vaults grows
  by exactly the principal filled and their loan count by the number of minted loans, and both
  accounts stay well formed, with every seat balance and every resting order untouched.\<close>

theorem match_order_keeps_books:
  assumes "market_ok m" "vault_ok v" "match_order m args (Some v) = Inr (m', vault', r)"
  shows "\<exists>new v'. vault' = Some v' \<and> market_ok m' \<and> vault_ok v' \<and> book_frame m m' \<and>
    mset (tree_values (mk_matched_loans m')) = mset (tree_values (mk_matched_loans m)) + mset new \<and>
    map ml_sequence new = [mk_matched_loan_sequence m..<mk_matched_loan_sequence m'] \<and>
    sum_list (map ml_principal_atoms new) = mr_total_filled_principal r \<and>
    mr_total_filled_principal r + mr_remaining_principal r = ma_principal_atoms args \<and>
    sum_list (map ml_collateral_atoms new) + mr_remaining_collateral r = ma_collateral_atoms args \<and>
    (mr_remaining_principal r = 0 \<longrightarrow> 0 < ma_principal_atoms args \<longrightarrow> mr_remaining_collateral r = 0) \<and>
    mr_num_fills r = min (length new) (u32_lim - 1) \<and>
    total_encumbered v' = total_encumbered v + mr_total_filled_principal r \<and>
    total_open_loans v' = total_open_loans v + length new"
proof -
  obtain st taken where s: "walk_rel m v args taken st" "m' = ws_market st" "vault' = ws_vault st"
    "mr_remaining_principal r = ws_remaining_principal st" "mr_remaining_collateral r = ws_remaining_collateral st"
    "mr_total_filled_principal r = ws_total_filled st" "mr_num_fills r = ws_num_fills st"
    using match_order_summary[OF assms] by blast
  then obtain new v' where b: "walk_books m v args taken new st" and w: "market_ok m'" "book_frame m m'"
      "vault' = Some v'" "vault_ok v'" "total_encumbered v' = total_encumbered v + ws_total_filled st"
      "total_open_loans v' = total_open_loans v + length taken"
    unfolding walk_rel_def walk_vault_def by auto
  have "length new = length taken" using b by (auto simp: walk_books_def dest: list_all2_lengthD)
  then show ?thesis using b w s by (intro exI[of _ new] exI[of _ v']) (simp add: walk_books_def)
qed

theorem match_order_keeps_books_witness:
  "\<exists>m' v' r. match_order two_asks borrow_3000 (Some two_vaults) = Inr (m', Some v', r) \<and>
     total_encumbered v' = total_encumbered two_vaults + 3000 \<and> market_ok m' \<and> vault_ok v'"
proof -
  obtain m' v' r where run: "match_order two_asks borrow_3000 (Some two_vaults) = Inr (m', Some v', r)"
    "mr_total_filled_principal r = 3000"
    using two_ask_run by (elim exE conjE) (rule that)
  then show ?thesis using match_order_keeps_books[OF two_asks_ok two_vaults_ok run(1)] by auto
qed

text \<open>C3. Every loan a matching run mints passed every gate at the ask it comes from: the ask is on the
  book, live and at or above the fill-time floor, the lender rate is the ask's and within the bid,
  the borrower pays at least the lender rate plus the protocol floor, the lender is an open
  sub-vault that the borrower does not curate and whose term limit holds, the loan carries that
  sub-vault's liquidation threshold and curator fee, and its collateral covers its principal at
  the sub-vault's cap less the borrower's buffer.\<close>

theorem match_order_loans_pass_gates:
  assumes "market_ok m" "vault_ok v" "match_order m args (Some v) = Inr (m', vault', r)"
    and "n \<in> set (tree_values (mk_matched_loans m'))" "n \<notin> set (tree_values (mk_matched_loans m))"
  shows "\<exists>ask \<in> set (tree_values (mk_asks m)). minted_from m v args ask n"
proof -
  obtain st taken where s: "walk_rel m v args taken st" "m' = ws_market st" "subseq taken (map snd (mk_asks m))"
    using match_order_summary[OF assms(1-3)] by blast
  then obtain new where b: "walk_books m v args taken new st" unfolding walk_rel_def by blast
  have "n \<in> set new" using walk_books_loans[OF b] assms(4,5) s(2) by blast
  then obtain ask where "ask \<in> set taken" "minted_from m v args ask n"
    using b unfolding walk_books_def by (metis list_all2_conv_all_nth in_set_conv_nth)
  moreover have "set taken \<subseteq> set (tree_values (mk_asks m))" using subseq_subset[OF s(3)] by (simp add: tree_values_def)
  ultimately show ?thesis by blast
qed

theorem match_order_loans_pass_gates_witness:
  "\<exists>m' v' r n ask. match_order two_asks borrow_3000 (Some two_vaults) = Inr (m', Some v', r) \<and>
     n \<in> set (tree_values (mk_matched_loans m')) \<and> ask \<in> set (tree_values (mk_asks two_asks)) \<and>
     minted_from two_asks two_vaults borrow_3000 ask n \<and> ml_principal_atoms n = 1000"
proof -
  obtain m' v' r n where run: "match_order two_asks borrow_3000 (Some two_vaults) = Inr (m', Some v', r)"
    and n: "n \<in> set (tree_values (mk_matched_loans m'))" "ml_principal_atoms n = 1000"
    using two_ask_loans by (elim exE conjE) (rule that)
  have "tree_values (mk_matched_loans two_asks) = []" by (simp add: example_defs tree_values_def)
  then show ?thesis using match_order_loans_pass_gates[OF two_asks_ok two_vaults_ok run n(1)] run n by auto
qed

text \<open>C4. A matching run never lends a sub-vault out of its principal: afterwards every sub-vault is the
  one before with some encumbrance added, and when anything was added the sub-vault was open and
  its deployed and encumbered atoms together leave the rounding reserve.\<close>

theorem match_order_never_overcommits:
  assumes "market_ok m" "vault_ok v" "match_order m args (Some v) = Inr (m', Some v', r)"
    and "q \<in> set (tree_values (gv_sub_vaults v'))"
  shows "\<exists>p \<in> set (tree_values (gv_sub_vaults v)). sv_sub_vault_id q = sv_sub_vault_id p \<and>
    (q = p \<or> sv_encumbered_in_orders_atoms p \<le> sv_encumbered_in_orders_atoms q \<and>
       (sv_encumbered_in_orders_atoms p < sv_encumbered_in_orders_atoms q \<longrightarrow> sv_is_sunset p = 0 \<and>
       sv_deployed_principal_atoms q + sv_encumbered_in_orders_atoms q + MARGINFI_ROUNDING_RESERVE_ATOMS
         \<le> sv_total_principal_atoms q))"
proof -
  obtain st taken where s: "walk_rel m v args taken st" "Some v' = ws_vault st"
    using match_order_summary[OF assms(1-3)] by blast
  then have "drawn_vault v v'" unfolding walk_rel_def walk_vault_def by auto
  then obtain p where p: "p \<in> set (tree_values (gv_sub_vaults v))" "drawn p q"
    using drawn_vault_back assms(4) by blast
  then show ?thesis by (intro bexI[of _ p]) (auto simp: drawn_def)
qed

theorem match_order_never_overcommits_witness:
  "\<exists>m' v' r q. match_order two_asks borrow_3000 (Some two_vaults) = Inr (m', Some v', r) \<and>
     q \<in> set (tree_values (gv_sub_vaults v')) \<and> sv_encumbered_in_orders_atoms q = 1000 \<and>
     sv_deployed_principal_atoms q + sv_encumbered_in_orders_atoms q + MARGINFI_ROUNDING_RESERVE_ATOMS
       \<le> sv_total_principal_atoms q"
proof -
  obtain m' v' r q where run: "match_order two_asks borrow_3000 (Some two_vaults) = Inr (m', Some v', r)"
    and q: "q \<in> set (tree_values (gv_sub_vaults v'))" "sv_encumbered_in_orders_atoms q = 1000"
    using two_ask_loans by (elim exE conjE) (rule that)
  have "\<forall>p \<in> set (tree_values (gv_sub_vaults two_vaults)). sv_encumbered_in_orders_atoms p = 0"
    by (simp add: example_defs tree_values_def)
  then have "sv_deployed_principal_atoms q + sv_encumbered_in_orders_atoms q + MARGINFI_ROUNDING_RESERVE_ATOMS
       \<le> sv_total_principal_atoms q"
    using match_order_never_overcommits[OF two_asks_ok two_vaults_ok run q(1)] q(2) by force
  then show ?thesis using run q by blast
qed

text \<open>C5. Best price first: the loans of a run, in the order of their sequence numbers, come from asks
  taken in book order, so their lender rates never fall.\<close>

theorem match_order_best_rate_first:
  assumes "market_ok m" "vault_ok v" "match_order m args (Some v) = Inr (m', vault', r)"
    and "n1 \<in> set (tree_values (mk_matched_loans m'))" "n2 \<in> set (tree_values (mk_matched_loans m'))"
    and "mk_matched_loan_sequence m \<le> ml_sequence n1" "ml_sequence n1 \<le> ml_sequence n2"
  shows "ml_lender_rate_bps n1 \<le> ml_lender_rate_bps n2"
proof -
  obtain st taken where s: "walk_rel m v args taken st" "m' = ws_market st" "subseq taken (map snd (mk_asks m))"
    using match_order_summary[OF assms(1-3)] by blast
  then obtain new where b: "walk_books m v args taken new st" unfolding walk_rel_def by blast
  have sq: "map ml_sequence new = [mk_matched_loan_sequence m..<mk_matched_loan_sequence m']"
    and all: "list_all2 (minted_from m v args) taken new" using b s(2) by (simp_all add: walk_books_def)
  have fresh: "n \<in> set new" if "n \<in> set (tree_values (mk_matched_loans m'))" "mk_matched_loan_sequence m \<le> ml_sequence n" for n
  proof -
    have "n \<notin> set (tree_values (mk_matched_loans m))"
      using assms(1) that(2) by (force simp: market_ok_def tree_values_def)
    then show ?thesis using walk_books_loans[OF b] that(1) s(2) by blast
  qed
  obtain i j where i: "i < length new" "n1 = new ! i" and j: "j < length new" "n2 = new ! j"
    using fresh[OF assms(4,6)] fresh[OF assms(5)] assms(6,7) by (metis in_set_conv_nth le_trans)
  have at: "ml_sequence (new ! k) = mk_matched_loan_sequence m + k" if "k < length new" for k
  proof -
    have "ml_sequence (new ! k) = map ml_sequence new ! k" using that by simp
    also have "\<dots> = mk_matched_loan_sequence m + k" unfolding sq using that arg_cong[OF sq, of length] by (simp add: nth_upt)
    finally show ?thesis .
  qed
  have "i \<le> j" using assms(7) at i j by simp
  have "sorted (map ro_rate_bps taken)"
    by (rule subseq_sorted_wrt[OF subseq_map[OF s(3)] asks_sorted_by_rate[OF assms(1)]])
  moreover have "length taken = length new" using all by (rule list_all2_lengthD)
  ultimately have "ro_rate_bps (taken ! i) \<le> ro_rate_bps (taken ! j)"
    using \<open>i \<le> j\<close> i(1) j(1) sorted_nth_mono[of "map ro_rate_bps taken" i j] by simp
  moreover have "ml_lender_rate_bps (new ! k) = ro_rate_bps (taken ! k)" if "k < length new" for k
    using all that by (auto simp: list_all2_conv_all_nth minted_from_def)
  ultimately show ?thesis using i j by simp
qed

theorem match_order_best_rate_first_witness:
  "\<exists>m' v' r n1 n2. match_order two_asks borrow_3000 (Some two_vaults) = Inr (m', Some v', r) \<and>
     n1 \<in> set (tree_values (mk_matched_loans m')) \<and> n2 \<in> set (tree_values (mk_matched_loans m')) \<and>
     ml_sequence n1 = 4 \<and> ml_sequence n2 = 5 \<and> ml_lender_rate_bps n1 \<le> ml_lender_rate_bps n2"
proof -
  obtain m' v' r n1 n2 where run: "match_order two_asks borrow_3000 (Some two_vaults) = Inr (m', Some v', r)"
    and n: "n1 \<in> set (tree_values (mk_matched_loans m'))" "n2 \<in> set (tree_values (mk_matched_loans m'))"
      "ml_sequence n1 = 4" "ml_sequence n2 = 5"
    using two_ask_loans by (elim exE conjE) (rule that)
  have "mk_matched_loan_sequence two_asks = 4" by (simp add: example_defs)
  then have "ml_lender_rate_bps n1 \<le> ml_lender_rate_bps n2"
    by (intro match_order_best_rate_first[OF two_asks_ok two_vaults_ok run n(1,2)]) (simp_all add: n)
  then show ?thesis using run n by blast
qed

end
