(* ===== verification/Orders.thy ===== *)
theory Orders
  imports Fills
begin

text \<open>The order operations of \<open>state/market_helpers.rs\<close> around the matching engine: placing a
  borrower's bid (encumbrance, matching, residual), resting a sub-vault's ask, finding an order by
  sequence number, cancelling and repricing. The logs an operation emits are left out.\<close>

record place_order_args =
  po_market_pubkey :: pubkey
  po_taker_seat_index :: data_index
  po_side :: side
  po_order_type :: order_type
  po_rate_bps :: nat
  po_term_seconds :: nat
  po_principal_atoms :: nat
  po_collateral_atoms :: nat
  po_residual_mode :: nat
  po_last_valid_unix_ts :: int
  po_now_unix_ts :: int
  po_share_price_snapshot_fp48 :: fp48
  po_debt_oracle_price_fp48 :: fp48
  po_collateral_oracle_price_fp48 :: fp48
  po_debt_liability_weight_init_fp48 :: fp48
  po_collateral_asset_weight_init_fp48 :: fp48
  po_ask_floor_rate_bps :: nat
  po_ltv_buffer_bps :: nat

record rest_vault_ask_args =
  rv_market_pubkey :: pubkey
  rv_maker_seat_index :: data_index
  rv_rate_bps :: nat
  rv_term_seconds :: nat
  rv_flags :: nat
  rv_now_unix_ts :: int

record place_order_result =
  pr_sequence :: nat
  pr_match_result :: match_result
  pr_p2pool_loan_index :: data_index
  pr_p2pool_loan_sequence :: nat
  pr_rested :: bool

section \<open>Placing a bid\<close>

definition bid_match_args :: "market \<Rightarrow> place_order_args \<Rightarrow> match_args" where
  "bid_match_args m args =
     \<lparr> ma_market_pubkey = po_market_pubkey args, ma_taker_seat_index = po_taker_seat_index args, ma_side = Bid,
       ma_rate_bps = po_rate_bps args, ma_term_seconds = po_term_seconds args,
       ma_principal_atoms = po_principal_atoms args, ma_collateral_atoms = po_collateral_atoms args,
       ma_order_type = ImmediateOrCancel, ma_now_unix_ts = po_now_unix_ts args,
       ma_fee_floor_bps = fc_protocol_fee_bps_floor (mk_fee_config m),
       ma_taker_share_price_snapshot_fp48 = po_share_price_snapshot_fp48 args,
       ma_debt_oracle_price_fp48 = po_debt_oracle_price_fp48 args,
       ma_collateral_oracle_price_fp48 = po_collateral_oracle_price_fp48 args,
       ma_ask_floor_rate_bps = po_ask_floor_rate_bps args, ma_ltv_buffer_bps = po_ltv_buffer_bps args \<rparr>"

definition residual_action_for :: "nat \<Rightarrow> nat \<Rightarrow> residual_action" where
  "residual_action_for remaining_principal residual_mode =
     (if remaining_principal = 0 then Drop
      else if residual_mode = RESIDUAL_MODE_REST then Rest
      else if residual_mode = RESIDUAL_MODE_DROP then Drop
      else P2PoolBorrow)"

text \<open>The marginfi backstop for the residual: a variable-rate loan node with no lender seat.\<close>

definition open_p2pool_residual ::
  "market \<Rightarrow> place_order_args \<Rightarrow> match_result \<Rightarrow> (market \<times> data_index \<times> nat) res" where
  "open_p2pool_residual m args mr =
     ebind (get_required_quote_collateral_to_back_debt (mr_remaining_principal mr)
              (po_debt_oracle_price_fp48 args) (po_collateral_oracle_price_fp48 args)
              (po_debt_liability_weight_init_fp48 args) (po_collateral_asset_weight_init_fp48 args)
              (mk_debt_mint_decimals m) (mk_collateral_mint_decimals m)) (\<lambda>required_collateral.
     ebind (require (required_collateral \<le> mr_remaining_collateral mr) (Custom FallbackLtvInsufficient)) (\<lambda>_.
     ebind (bump_open_borrow m (po_taker_seat_index args)) (\<lambda>m1.
     ebind (mul_div_u64 (mr_remaining_principal mr) (fc_origination_bps (mk_fee_config m1)) BPS_PER_UNIT False)
       (\<lambda>origination_atoms.
     let sequence = mk_matched_loan_sequence m1;
         node_index = fst (get_free_address_on_market_fixed m1) in
     ebind (alloc_matched_loan m1
       \<lparr> ml_sequence = sequence, ml_borrower_marginfi_borrow_shares = 0,
         ml_principal_atoms = mr_remaining_principal mr, ml_origination_atoms = origination_atoms,
         ml_collateral_atoms = mr_remaining_collateral mr, ml_matched_at_unix = po_now_unix_ts args,
         ml_lender_seat_index = NIL, ml_borrower_seat_index = po_taker_seat_index args,
         ml_term_seconds = po_term_seconds args, ml_borrower_rate_bps = po_rate_bps args,
         ml_lender_rate_bps = po_rate_bps args, ml_loan_type = 1, ml_flags = 0,
         ml_curator_fee_bps_snapshot = 0, ml_origination_ltv_bps = 0, ml_liquidation_ltv_bps = 0,
         ml_lender_debt_share_price_snapshot_fp48 = 0,
         ml_borrower_collateral_share_price_snapshot_fp48 = po_share_price_snapshot_fp48 args \<rparr>) (\<lambda>m2.
     Inr (m2, node_index, sequence))))))"

definition rest_bid_residual :: "market \<Rightarrow> place_order_args \<Rightarrow> nat \<Rightarrow> match_result \<Rightarrow> market res" where
  "rest_bid_residual m args seq mr =
     (let (order_index, m1) = get_free_address_on_market_fixed m in
      ebind (require (order_index \<noteq> NIL) AccountDataTooSmall) (\<lambda>_.
      let resting = ro_new_primary (po_taker_seat_index args) seq Bid Limit (po_rate_bps args)
            (po_term_seconds args) (mr_remaining_principal mr) (mr_remaining_collateral mr)
            (po_last_valid_unix_ts args) 0 (po_ltv_buffer_bps args) (po_share_price_snapshot_fp48 args) in
      Inr (rest_order m1 order_index resting)))"

definition drop_bid_residual :: "market \<Rightarrow> place_order_args \<Rightarrow> match_result \<Rightarrow> market res" where
  "drop_bid_residual m args mr =
     ebind (atoms_to_shares_at_snapshot (mr_remaining_principal mr) (po_share_price_snapshot_fp48 args)) (\<lambda>ps.
     ebind (atoms_to_shares_at_snapshot (mr_remaining_collateral mr) (po_share_price_snapshot_fp48 args)) (\<lambda>cs.
     unencumber_for_order m (po_taker_seat_index args) Bid ps cs))"

definition settle_residual ::
  "market \<Rightarrow> place_order_args \<Rightarrow> nat \<Rightarrow> match_result \<Rightarrow> (market \<times> data_index \<times> nat \<times> bool) res" where
  "settle_residual m args seq mr =
     (if mr_remaining_principal mr = 0 then Inr (m, NIL, 0, False)
      else case mr_residual_action mr of
        P2PoolBorrow \<Rightarrow> ebind (open_p2pool_residual m args mr) (\<lambda>(m1, i, s). Inr (m1, i, s, False))
      | Rest \<Rightarrow> ebind (rest_bid_residual m args seq mr) (\<lambda>m1. Inr (m1, NIL, 0, True))
      | Drop \<Rightarrow> ebind (drop_bid_residual m args mr) (\<lambda>m1. Inr (m1, NIL, 0, False)))"

definition match_borrower_bid ::
  "market \<Rightarrow> place_order_args \<Rightarrow> global_vault option \<Rightarrow> (market \<times> global_vault option \<times> place_order_result) res" where
  "match_borrower_bid m args vault =
     ebind (require (MIN_PRINCIPAL_ATOMS \<le> po_principal_atoms args) (Custom CollateralInsufficient)) (\<lambda>_.
     ebind (require (0 < po_term_seconds args) (Custom TermNotCompatible)) (\<lambda>_.
     ebind (require (0 < po_collateral_atoms args) (Custom CollateralInsufficient)) (\<lambda>_.
     let snapshot = po_share_price_snapshot_fp48 args in
     ebind (atoms_to_shares_at_snapshot (po_principal_atoms args) snapshot) (\<lambda>principal_shares.
     ebind (atoms_to_shares_at_snapshot (po_collateral_atoms args) snapshot) (\<lambda>collateral_shares.
     ebind (encumber_for_order m (po_taker_seat_index args) Bid principal_shares collateral_shares) (\<lambda>m1.
     let seq = mk_order_sequence_number m1 in
     ebind (ok_or (checked_add u64_lim seq 1) ArithmeticOverflow) (\<lambda>next_seq.
     let m2 = m1\<lparr>mk_order_sequence_number := next_seq\<rparr> in
     ebind (match_order m2 (bid_match_args m2 args) vault) (\<lambda>(m3, vault', mr0).
     let mr = mr0\<lparr>mr_residual_action := residual_action_for (mr_remaining_principal mr0) (po_residual_mode args)\<rparr> in
     ebind (settle_residual m3 args seq mr) (\<lambda>(m4, p2pool_loan_index, p2pool_loan_sequence, rested).
     Inr (m4, vault',
          \<lparr> pr_sequence = seq, pr_match_result = mr, pr_p2pool_loan_index = p2pool_loan_index,
            pr_p2pool_loan_sequence = p2pool_loan_sequence, pr_rested = rested \<rparr>))))))))))"

section \<open>Resting an ask\<close>

definition rest_vault_ask :: "market \<Rightarrow> rest_vault_ask_args \<Rightarrow> (market \<times> nat) res" where
  "rest_vault_ask m args =
     ebind (require (0 < rv_term_seconds args) (Custom TermNotCompatible)) (\<lambda>_.
     ebind (bump_open_lend m (rv_maker_seat_index args)) (\<lambda>m1.
     let seq = mk_order_sequence_number m1 in
     ebind (ok_or (checked_add u64_lim seq 1) ArithmeticOverflow) (\<lambda>next_seq.
     let m2 = m1\<lparr>mk_order_sequence_number := next_seq\<rparr>;
         (order_index, m3) = get_free_address_on_market_fixed m2 in
     ebind (require (order_index \<noteq> NIL) AccountDataTooSmall) (\<lambda>_.
     let resting = ro_new_primary (rv_maker_seat_index args) seq Ask PostOnly (rv_rate_bps args)
           (rv_term_seconds args) (u64_lim - 1) 0 NO_EXPIRATION_LAST_VALID_UNIX_TS (rv_flags args) 0 fp48_ZERO in
     Inr (rest_order m3 order_index resting, seq)))))"

section \<open>Finding, cancelling and repricing an order\<close>

definition owns_order :: "data_index \<Rightarrow> nat \<Rightarrow> data_index \<times> resting_order \<Rightarrow> bool" where
  "owns_order trader_seat_index sequence p =
     (ro_trader_seat_index (snd p) = trader_seat_index \<and> ro_sequence_number (snd p) = sequence)"

definition lookup_order_by_seq :: "market \<Rightarrow> data_index \<Rightarrow> nat \<Rightarrow> data_index option \<Rightarrow> data_index res" where
  "lookup_order_by_seq m trader_seat_index sequence hint =
     (let scan = (case List.find (owns_order trader_seat_index sequence) (mk_asks m @ mk_bids m) of
            Some p \<Rightarrow> Inr (fst p)
          | None \<Rightarrow> Inl (Custom OrderNotFound)) in
      case hint of
        Some idx \<Rightarrow>
          if idx \<noteq> NIL then
            ebind (get_helper_order m idx) (\<lambda>order.
            if owns_order trader_seat_index sequence (idx, order) then Inr idx
            else Inl (Custom WrongIndexHintParams))
          else scan
      | None \<Rightarrow> scan)"

definition drop_open_lend :: "market \<Rightarrow> data_index \<Rightarrow> market res" where
  "drop_open_lend m index =
     ebind (get_helper_seat m index) (\<lambda>seat.
     ebind (ok_or (checked_sub (cs_open_lend_count seat) 1) ArithmeticOverflow) (\<lambda>c.
     Inr (set_seat m index (seat\<lparr>cs_open_lend_count := c\<rparr>))))"

definition cancel_order_by_index :: "market \<Rightarrow> data_index \<Rightarrow> data_index \<Rightarrow> market res" where
  "cancel_order_by_index m signer_seat_index order_index =
     ebind (get_helper_order m order_index) (\<lambda>order.
     ebind (require (ro_trader_seat_index order = signer_seat_index) (Custom OrderNotOwnedBySigner)) (\<lambda>_.
     ebind (get_helper_seat m (ro_trader_seat_index order)) (\<lambda>seat.
     if cs_owner_kind seat = OWNER_KIND_SUB_VAULT then
       ebind (drop_open_lend m (ro_trader_seat_index order)) (\<lambda>m1.
       remove_order_from_tree_and_free m1 order_index)
     else
       let snapshot = ro_share_price_snapshot order;
           sd = (if ro_side order = side_u8 Bid then Bid else Ask) in
       ebind (atoms_to_shares_at_snapshot (ro_principal_atoms order) snapshot) (\<lambda>ps.
       ebind (atoms_to_shares_at_snapshot (ro_collateral_atoms order) snapshot) (\<lambda>cs.
       ebind (unencumber_for_order m (ro_trader_seat_index order) sd ps cs) (\<lambda>m1.
       remove_order_from_tree_and_free m1 order_index))))))"

definition update_user_bid ::
  "market \<Rightarrow> data_index \<Rightarrow> data_index \<Rightarrow> nat \<Rightarrow> nat \<Rightarrow> int \<Rightarrow> nat \<Rightarrow> int \<Rightarrow> (market \<times> nat) res" where
  "update_user_bid m signer_seat_index order_index new_rate_bps new_term_seconds new_last_valid_unix_ts
     new_ltv_buffer_bps now_unix_ts =
     ebind (get_helper_order m order_index) (\<lambda>order.
     ebind (require (ro_trader_seat_index order = signer_seat_index) (Custom OrderNotOwnedBySigner)) (\<lambda>_.
     ebind (require (ro_side order = side_u8 Bid) (Custom IncorrectAccount)) (\<lambda>_.
     ebind (require (0 < new_term_seconds) (Custom TermNotCompatible)) (\<lambda>_.
     ebind (require (new_last_valid_unix_ts = NO_EXPIRATION_LAST_VALID_UNIX_TS \<or> now_unix_ts < new_last_valid_unix_ts)
              (Custom InvalidArgument)) (\<lambda>_.
     let m1 = m\<lparr>mk_bids := tree_remove order_index (mk_bids m)\<rparr>;
         seq = mk_order_sequence_number m1 in
     ebind (ok_or (checked_add u64_lim seq 1) ArithmeticOverflow) (\<lambda>next_seq.
     let m2 = m1\<lparr>mk_order_sequence_number := next_seq\<rparr>;
         updated = ro_new_primary (ro_trader_seat_index order) seq Bid Limit new_rate_bps new_term_seconds
           (ro_principal_atoms order) (ro_collateral_atoms order) new_last_valid_unix_ts (ro_flags order)
           new_ltv_buffer_bps (ro_share_price_snapshot order) in
     Inr (rest_order m2 order_index updated, seq)))))))"

section \<open>Well-formedness\<close>

lemma get_helper_order_cases:
  assumes ok: "market_ok m" and g: "get_helper_order m i = Inr o1"
  shows "((i, o1) \<in> set (mk_asks m) \<and> ro_side o1 = 1 \<or> (i, o1) \<in> set (mk_bids m) \<and> ro_side o1 = 0) \<and>
    ro_sequence_number o1 < mk_order_sequence_number m"
proof -
  have "(i, o1) \<in> set (mk_asks m) \<or> (i, o1) \<in> set (mk_bids m)"
    using g by (auto simp: get_helper_order_def ok_or_Inr dest: tree_get_in split: option.splits)
  moreover have "\<forall>p \<in> set (mk_bids m). ro_side (snd p) = 0" "\<forall>p \<in> set (mk_asks m). ro_side (snd p) = 1"
    "\<forall>p \<in> set (mk_bids m @ mk_asks m). ro_sequence_number (snd p) < mk_order_sequence_number m"
    using ok by (simp_all add: market_ok_def)
  ultimately show ?thesis by force
qed

lemma bump_order_sequence_ok:
  assumes ok: "market_ok m" and n: "mk_order_sequence_number m \<le> n"
  shows "market_ok (m\<lparr>mk_order_sequence_number := n\<rparr>)"
proof -
  have "\<forall>p \<in> set (mk_bids m @ mk_asks m). ro_sequence_number (snd p) < mk_order_sequence_number m"
    using ok by (simp add: market_ok_def)
  then have "\<forall>p \<in> set (mk_bids m @ mk_asks m). ro_sequence_number (snd p) < n" using n by (meson less_le_trans)
  then show ?thesis using ok unfolding market_ok_def market_blocks_def by simp
qed

text \<open>Taking a block and resting an order on it.\<close>

lemma rest_fresh_order_ok:
  assumes ok: "market_ok m" and a: "get_free_address_on_market_fixed m = (i, m1)" "i \<noteq> NIL"
    and o1: "ro_side o1 = 0 \<or> ro_side o1 = 1" "ro_sequence_number o1 < mk_order_sequence_number m"
      "ro_sequence_number o1 \<notin> (\<lambda>p. ro_sequence_number (snd p)) ` set (mk_bids m @ mk_asks m)"
  shows "market_ok (rest_order m1 i o1)"
proof -
  obtain fl where fl: "mk_free_list m = i # fl" "m1 = m\<lparr>mk_free_list := fl\<rparr>"
    using alloc_block[OF a] by metis
  let ?m = "rest_order m1 i o1"
  have bl: "distinct (market_blocks ?m) \<and> (\<forall>j \<in> set (market_blocks ?m). j < mk_num_bytes_allocated ?m)"
    by (rule market_blocks_moved[OF ok]) (simp_all add: rest_order_def market_blocks_def fl)
  have sq: "distinct (map (\<lambda>p. ro_sequence_number (snd p)) (mk_bids m @ mk_asks m))"
    and lt: "\<forall>p \<in> set (mk_bids m @ mk_asks m). ro_sequence_number (snd p) < mk_order_sequence_number m"
    and ds: "descending bid_cmp (mk_bids m)" "descending ask_cmp (mk_asks m)"
    and sd: "\<forall>p \<in> set (mk_bids m). ro_side (snd p) = 0" "\<forall>p \<in> set (mk_asks m). ro_side (snd p) = 1"
    using ok by (simp_all add: market_ok_def)
  show ?thesis
  proof (cases "ro_side o1 = 1")
    case True
    then have e: "?m = m\<lparr>mk_free_list := fl, mk_asks := tree_insert ask_cmp i o1 (mk_asks m)\<rparr>"
      by (simp add: rest_order_def fl(2) tree_insert_cmp_cong[OF resting_order_cmp_ask])
    have "distinct (map (\<lambda>p. ro_sequence_number (snd p)) (mk_bids ?m @ mk_asks ?m))"
      using sq o1(3) by (auto simp: e tree_insert_distinct_map)
    moreover have "descending ask_cmp (mk_asks ?m)" by (simp add: e tree_insert_descending ask_cmp_total ds)
    ultimately show ?thesis using ok bl lt sd o1(2) True unfolding market_ok_def by (simp add: e)
  next
    case False
    then have z: "ro_side o1 = 0" using o1(1) by simp
    then have e: "?m = m\<lparr>mk_free_list := fl, mk_bids := tree_insert bid_cmp i o1 (mk_bids m)\<rparr>"
      by (simp add: rest_order_def fl(2) tree_insert_cmp_cong[OF resting_order_cmp_bid])
    have "distinct (map (\<lambda>p. ro_sequence_number (snd p)) (mk_bids ?m @ mk_asks ?m))"
      using sq o1(3) by (auto simp: e tree_insert_distinct_map)
    moreover have "descending bid_cmp (mk_bids ?m)" by (simp add: e tree_insert_descending bid_cmp_total ds)
    ultimately show ?thesis using ok bl lt sd o1(2) z unfolding market_ok_def by (simp add: e)
  qed
qed

lemma remove_order_Inr:
  assumes ok: "market_ok m" and r: "remove_order_from_tree_and_free m i = Inr m'"
  shows "\<exists>o1. get_helper_order m i = Inr o1 \<and>
    ((i, o1) \<in> set (mk_asks m) \<and> ro_side o1 = 1 \<and>
       m' = m\<lparr>mk_asks := tree_remove i (mk_asks m), mk_free_list := i # mk_free_list m\<rparr> \<or>
     (i, o1) \<in> set (mk_bids m) \<and> ro_side o1 = 0 \<and>
       m' = m\<lparr>mk_bids := tree_remove i (mk_bids m), mk_free_list := i # mk_free_list m\<rparr>)"
proof -
  obtain o1 where o1: "get_helper_order m i = Inr o1"
    using r unfolding remove_order_from_tree_and_free_def by (elim ebind_InrE)
  show ?thesis
    using get_helper_order_cases[OF ok o1] o1 r
    by (auto simp: remove_order_from_tree_and_free_def release_address_on_market_fixed_def stack_add_def)
qed

lemma remove_order_ok:
  assumes ok: "market_ok m" and r: "remove_order_from_tree_and_free m i = Inr m'"
  shows "market_ok m'"
proof -
  have t: "tree_ok ask_cmp (mk_asks m)" "tree_ok bid_cmp (mk_bids m)" using market_trees_ok[OF ok] by blast+
  then have d: "distinct (map fst (mk_asks m))" "distinct (map fst (mk_bids m))" by (simp_all add: tree_ok_def)
  have sq: "distinct (map (\<lambda>p. ro_sequence_number (snd p)) (mk_bids m @ mk_asks m))"
    using ok by (simp add: market_ok_def)
  obtain o1 where c: "(i, o1) \<in> set (mk_asks m) \<and>
       m' = m\<lparr>mk_asks := tree_remove i (mk_asks m), mk_free_list := i # mk_free_list m\<rparr> \<or>
     (i, o1) \<in> set (mk_bids m) \<and>
       m' = m\<lparr>mk_bids := tree_remove i (mk_bids m), mk_free_list := i # mk_free_list m\<rparr>"
    using remove_order_Inr[OF ok r] by blast
  then show ?thesis
  proof (elim disjE conjE)
    assume a: "(i, o1) \<in> set (mk_asks m)"
      and e: "m' = m\<lparr>mk_asks := tree_remove i (mk_asks m), mk_free_list := i # mk_free_list m\<rparr>"
    obtain as bs where sp: "mk_asks m = as @ (i, o1) # bs" "tree_remove i (mk_asks m) = as @ bs"
      using tree_split[OF d(1) a] by blast
    have mm: "mset (map fst (mk_asks m)) = add_mset i (mset (map fst (tree_remove i (mk_asks m))))"
      unfolding sp(2) by (simp add: sp(1))
    have "distinct (market_blocks m') \<and> (\<forall>j \<in> set (market_blocks m'). j < mk_num_bytes_allocated m')"
      by (rule market_blocks_moved[OF ok]) (use mm in \<open>simp_all add: e market_blocks_def\<close>)
    moreover have "descending ask_cmp (tree_remove i (mk_asks m))"
      using tree_remove_ok[OF t(1)] by (simp add: tree_ok_def)
    moreover have "\<forall>p \<in> set (tree_remove i (mk_asks m)). ro_side (snd p) = 1"
      "\<forall>p \<in> set (mk_bids m @ tree_remove i (mk_asks m)). ro_sequence_number (snd p) < mk_order_sequence_number m"
      using ok by (simp_all add: market_ok_def tree_remove_set ball_Un)
    moreover have "distinct (map (\<lambda>p. ro_sequence_number (snd p)) (mk_bids m @ tree_remove i (mk_asks m)))"
      using sq unfolding sp(2) by (auto simp: sp(1))
    ultimately show ?thesis using ok unfolding market_ok_def by (simp add: e)
  next
    assume a: "(i, o1) \<in> set (mk_bids m)"
      and e: "m' = m\<lparr>mk_bids := tree_remove i (mk_bids m), mk_free_list := i # mk_free_list m\<rparr>"
    obtain as bs where sp: "mk_bids m = as @ (i, o1) # bs" "tree_remove i (mk_bids m) = as @ bs"
      using tree_split[OF d(2) a] by blast
    have mm: "mset (map fst (mk_bids m)) = add_mset i (mset (map fst (tree_remove i (mk_bids m))))"
      unfolding sp(2) by (simp add: sp(1))
    have "distinct (market_blocks m') \<and> (\<forall>j \<in> set (market_blocks m'). j < mk_num_bytes_allocated m')"
      by (rule market_blocks_moved[OF ok]) (use mm in \<open>simp_all add: e market_blocks_def\<close>)
    moreover have "descending bid_cmp (tree_remove i (mk_bids m))"
      using tree_remove_ok[OF t(2)] by (simp add: tree_ok_def)
    moreover have "\<forall>p \<in> set (tree_remove i (mk_bids m)). ro_side (snd p) = 0"
      "\<forall>p \<in> set (tree_remove i (mk_bids m) @ mk_asks m). ro_sequence_number (snd p) < mk_order_sequence_number m"
      using ok by (simp_all add: market_ok_def tree_remove_set ball_Un)
    moreover have "distinct (map (\<lambda>p. ro_sequence_number (snd p)) (tree_remove i (mk_bids m) @ mk_asks m))"
      using sq unfolding sp(2) by (auto simp: sp(1))
    ultimately show ?thesis using ok unfolding market_ok_def by (simp add: e)
  qed
qed

text \<open>Locking and releasing the collateral of a bid, on the seat.\<close>

lemma encumber_bid_Inr:
  assumes "encumber_for_order m i Bid ps cs = Inr m'"
  shows "\<exists>s. get_helper_seat m i = Inr s \<and> cs \<le> cs_collateral_withdrawable_shares s \<and>
    cs_collateral_encumbered_shares s + cs < u128_lim \<and>
    m' = set_seat m i (s\<lparr>cs_collateral_withdrawable_shares := cs_collateral_withdrawable_shares s - cs,
      cs_collateral_encumbered_shares := cs_collateral_encumbered_shares s + cs\<rparr>)"
  using assms by (auto simp: encumber_for_order_def update_balance_Inr elim!: ebind_InrE)

lemma unencumber_bid_Inr:
  assumes "unencumber_for_order m i Bid ps cs = Inr m'"
  shows "\<exists>s. get_helper_seat m i = Inr s \<and> cs \<le> cs_collateral_encumbered_shares s \<and>
    cs_collateral_withdrawable_shares s + cs < u128_lim \<and>
    m' = set_seat m i (s\<lparr>cs_collateral_encumbered_shares := cs_collateral_encumbered_shares s - cs,
      cs_collateral_withdrawable_shares := cs_collateral_withdrawable_shares s + cs\<rparr>)"
  using assms by (auto simp: unencumber_for_order_def update_balance_Inr elim!: ebind_InrE)

lemma unencumber_Inr_seat:
  assumes "unencumber_for_order m i sd ps cs = Inr m'"
  shows "\<exists>s s'. get_helper_seat m i = Inr s \<and> seat_key s' = seat_key s \<and> m' = set_seat m i s' \<and>
    (sd = Ask \<longrightarrow> cs_collateral_encumbered_shares s' = cs_collateral_encumbered_shares s)"
proof -
  obtain s s' where s: "get_helper_seat m i = Inr s" "m' = set_seat m i s'"
    and c: "(case sd of
         Bid \<Rightarrow>
           ebind (update_balance s Collateral Encumbered Minus cs) (\<lambda>s1.
           update_balance s1 Collateral Withdrawable Plus cs)
       | Ask \<Rightarrow>
           ebind (update_balance s Debt Encumbered Minus ps) (\<lambda>s1.
           ebind (update_balance s1 Debt Withdrawable Plus ps) (\<lambda>s2.
           ebind (ok_or (checked_sub (cs_open_lend_count s2) 1) ArithmeticOverflow) (\<lambda>c.
           Inr (s2\<lparr>cs_open_lend_count := c\<rparr>))))) = Inr s'"
    using assms unfolding unencumber_for_order_def
    by (elim ebind_InrE) (rule that, assumption, drule Inr_inject, erule sym, assumption)
  have "seat_key s' = seat_key s \<and>
      (sd = Ask \<longrightarrow> cs_collateral_encumbered_shares s' = cs_collateral_encumbered_shares s)"
    using c by (cases sd) (auto simp: seat_key_def update_balance_Inr ok_or_Inr elim!: ebind_InrE)
  then show ?thesis using s by blast
qed

lemma encumber_bid_ok: "market_ok m \<Longrightarrow> encumber_for_order m i Bid ps cs = Inr m' \<Longrightarrow> market_ok m'"
  by (auto dest!: encumber_bid_Inr intro!: set_seat_ok simp: seat_key_def)

lemma unencumber_ok: "market_ok m \<Longrightarrow> unencumber_for_order m i sd ps cs = Inr m' \<Longrightarrow> market_ok m'"
  using unencumber_Inr_seat set_seat_ok by blast

lemma drop_open_lend_Inr:
  assumes "drop_open_lend m i = Inr m'"
  shows "\<exists>s. get_helper_seat m i = Inr s \<and> 1 \<le> cs_open_lend_count s \<and>
    m' = set_seat m i (s\<lparr>cs_open_lend_count := cs_open_lend_count s - 1\<rparr>)"
  using assms by (auto simp: drop_open_lend_def ok_or_Inr checked_sub_Some elim!: ebind_InrE)

lemma drop_open_lend_ok: "market_ok m \<Longrightarrow> drop_open_lend m i = Inr m' \<Longrightarrow> market_ok m'"
  by (auto dest!: drop_open_lend_Inr intro!: set_seat_ok simp: seat_key_def)

lemma cancel_order_ok:
  assumes "market_ok m" "cancel_order_by_index m seat i = Inr m'"
  shows "market_ok m'"
  using assms unfolding cancel_order_by_index_def Let_def
  by (elim ebind_InrE) (auto split: if_splits elim!: ebind_InrE intro: remove_order_ok drop_open_lend_ok unencumber_ok)

lemma rest_vault_ask_ok:
  assumes ok: "market_ok m" and r: "rest_vault_ask m args = Inr (m', seq)"
  shows "market_ok m' \<and> seq = mk_order_sequence_number m"
proof -
  obtain m1 i m3 where m1: "bump_open_lend m (rv_maker_seat_index args) = Inr m1"
    and fr: "get_free_address_on_market_fixed (m1\<lparr>mk_order_sequence_number := mk_order_sequence_number m1 + 1\<rparr>) = (i, m3)"
      "i \<noteq> NIL"
    and m': "m' = rest_order m3 i (ro_new_primary (rv_maker_seat_index args) (mk_order_sequence_number m1) Ask PostOnly
           (rv_rate_bps args) (rv_term_seconds args) (u64_lim - 1) 0 NO_EXPIRATION_LAST_VALID_UNIX_TS (rv_flags args) 0
           fp48_ZERO)" "seq = mk_order_sequence_number m1"
    using r unfolding rest_vault_ask_def
    by (auto simp: ok_or_Inr checked_add_Some require_Inr Let_def split: prod.splits elim!: ebind_InrE)
  have ok1: "market_ok m1" using bump_ok(2)[OF ok m1] .
  have lt: "\<forall>p \<in> set (mk_bids m1 @ mk_asks m1). ro_sequence_number (snd p) < mk_order_sequence_number m1"
    using ok1 by (simp add: market_ok_def)
  have "market_ok m'"
    unfolding m'(1)
    by (rule rest_fresh_order_ok[OF bump_order_sequence_ok[OF ok1] fr]) (use lt in \<open>force simp: ro_new_primary_def ball_Un\<close>)+
  moreover have "mk_order_sequence_number m1 = mk_order_sequence_number m"
    using bump_frame(2)[OF m1] by (simp add: book_frame_def)
  ultimately show ?thesis using m'(2) by simp
qed

text \<open>Repricing a bid: the old order leaves the bids and its block rests the new one.\<close>

lemma update_user_bid_Inr:
  assumes ok: "market_ok m" and u: "update_user_bid m seat i rate term exp buf now = Inr (m', seq)"
  shows "\<exists>o1. (i, o1) \<in> set (mk_bids m) \<and> ro_trader_seat_index o1 = seat \<and> seq = mk_order_sequence_number m \<and>
    mk_order_sequence_number m + 1 < u64_lim \<and>
    m' = m\<lparr>mk_order_sequence_number := mk_order_sequence_number m + 1,
      mk_bids := tree_insert bid_cmp i (ro_new_primary seat seq Bid Limit rate term (ro_principal_atoms o1)
        (ro_collateral_atoms o1) exp (ro_flags o1) buf (ro_share_price_snapshot o1)) (tree_remove i (mk_bids m))\<rparr>"
proof -
  obtain o1 where o1: "get_helper_order m i = Inr o1"
    using u unfolding update_user_bid_def by (elim ebind_InrE)
  then have sd: "ro_trader_seat_index o1 = seat" "ro_side o1 = 0"
    using u by (auto simp: update_user_bid_def require_Inr elim!: ebind_InrE)
  then have mem: "(i, o1) \<in> set (mk_bids m)" using get_helper_order_cases[OF ok o1] by auto
  let ?n = "ro_new_primary seat (mk_order_sequence_number m) Bid Limit rate term (ro_principal_atoms o1)
        (ro_collateral_atoms o1) exp (ro_flags o1) buf (ro_share_price_snapshot o1)"
  have "rest_order m2 i ?n = m2\<lparr>mk_bids := tree_insert bid_cmp i ?n (mk_bids m2)\<rparr>" for m2
    by (simp add: rest_order_def ro_new_primary_def tree_insert_cmp_cong[OF resting_order_cmp_bid])
  then show ?thesis
    using u o1 sd mem
    by (auto simp: update_user_bid_def require_Inr ok_or_Inr checked_add_Some Let_def elim!: ebind_InrE)
qed

lemma update_user_bid_ok:
  assumes ok: "market_ok m" and u: "update_user_bid m seat i rate term exp buf now = Inr (m', seq)"
  shows "market_ok m'"
proof -
  obtain o1 where mem: "(i, o1) \<in> set (mk_bids m)" and sq: "seq = mk_order_sequence_number m"
    and upd: "m' = m\<lparr>mk_order_sequence_number := mk_order_sequence_number m + 1,
      mk_bids := tree_insert bid_cmp i (ro_new_primary seat seq Bid Limit rate term (ro_principal_atoms o1)
        (ro_collateral_atoms o1) exp (ro_flags o1) buf (ro_share_price_snapshot o1)) (tree_remove i (mk_bids m))\<rparr>"
    using update_user_bid_Inr[OF ok u] by blast
  define n where "n = ro_new_primary seat seq Bid Limit rate term (ro_principal_atoms o1)
        (ro_collateral_atoms o1) exp (ro_flags o1) buf (ro_share_price_snapshot o1)"
  have n: "ro_side n = 0" "ro_sequence_number n = mk_order_sequence_number m"
    by (simp_all add: n_def ro_new_primary_def sq)
  note m' = upd[folded n_def]
  have t: "tree_ok bid_cmp (mk_bids m)" using market_trees_ok[OF ok] by blast
  then have d: "distinct (map fst (mk_bids m))" by (simp add: tree_ok_def)
  let ?t = "tree_remove i (mk_bids m)"
  obtain as bs where sp: "mk_bids m = as @ (i, o1) # bs" "?t = as @ bs" using tree_split[OF d mem] by blast
  have mm: "mset (map fst (mk_bids m)) = add_mset i (mset (map fst ?t))"
    unfolding sp(2) by (simp add: sp(1))
  have "distinct (market_blocks m') \<and> (\<forall>j \<in> set (market_blocks m'). j < mk_num_bytes_allocated m')"
    by (rule market_blocks_moved[OF ok]) (use mm in \<open>simp_all add: m' market_blocks_def\<close>)
  moreover have "descending bid_cmp (tree_insert bid_cmp i n ?t)"
    using tree_remove_ok[OF t] by (simp add: tree_ok_def tree_insert_descending bid_cmp_total)
  moreover have lt: "\<forall>p \<in> set ?t. ro_sequence_number (snd p) < mk_order_sequence_number m"
      "\<forall>p \<in> set (mk_asks m). ro_sequence_number (snd p) < mk_order_sequence_number m"
    and sd: "\<forall>p \<in> set ?t. ro_side (snd p) = 0"
    using ok by (simp_all add: market_ok_def tree_remove_set ball_Un)
  moreover have "distinct (map (\<lambda>p. ro_sequence_number (snd p)) (?t @ mk_asks m))"
  proof -
    have "distinct (map (\<lambda>p. ro_sequence_number (snd p)) (mk_bids m @ mk_asks m))" using ok by (simp add: market_ok_def)
    then show ?thesis unfolding sp(2) by (auto simp: sp(1))
  qed
  then have "distinct (map (\<lambda>p. ro_sequence_number (snd p)) (tree_insert bid_cmp i n ?t @ mk_asks m))"
    using lt n(2) by (fastforce simp: tree_insert_distinct_map)
  ultimately show ?thesis using ok n unfolding market_ok_def by (simp add: m' ball_Un less_Suc_eq)
qed

end
