(* ===== verification/Resting_Bids.thy ===== *)
theory Resting_Bids
  imports Orders
begin

text \<open>The ask-side take path of \<open>state/market_helpers.rs\<close>, \<open>match_resting_bids\<close>: a sub-vault's ask walks the
  resting bids from the best rate down, prunes expired bids, and fills the others while the
  sub-vault has idle atoms. The successor of a bid is read before the bid is changed, as in the
  source, so the walk over the index chain is the structural walk over the bids it started with.\<close>

record match_resting_bids_args =
  rb_market_pubkey :: pubkey
  rb_ask_seat_index :: data_index
  rb_ask_sub_vault_id :: nat
  rb_ask_rate_bps :: nat
  rb_ask_term_seconds :: nat
  rb_ask_curator_fee_bps :: nat
  rb_sub_vault_max_ltv_bps :: nat
  rb_sub_vault_liquidation_ltv_bps :: nat
  rb_ask_curator :: pubkey
  rb_fee_floor_bps :: nat
  rb_origination_bps :: nat
  rb_now_unix_ts :: int
  rb_lender_debt_share_price_snapshot_fp48 :: fp48
  rb_debt_oracle_price_fp48 :: fp48
  rb_collateral_oracle_price_fp48 :: fp48
  rb_debt_mint_decimals :: nat
  rb_collateral_mint_decimals :: nat
  rb_max_fills :: nat

record match_resting_bids_result =
  rr_total_filled_principal :: nat
  rr_num_fills :: nat
  rr_num_pruned :: nat

record bids_state =
  bs_market :: market
  bs_vault :: global_vault
  bs_result :: match_resting_bids_result

text \<open>Releasing an expired bid's collateral at its own snapshot and freeing its block.\<close>

definition prune_bid :: "market \<Rightarrow> data_index \<Rightarrow> resting_order \<Rightarrow> market res" where
  "prune_bid m index bid =
     ebind (atoms_to_shares_at_snapshot (ro_principal_atoms bid) (ro_share_price_snapshot bid)) (\<lambda>ps.
     ebind (atoms_to_shares_at_snapshot (ro_collateral_atoms bid) (ro_share_price_snapshot bid)) (\<lambda>cs.
     ebind (unencumber_for_order m (ro_trader_seat_index bid) Bid ps cs) (\<lambda>m1.
     remove_order_from_tree_and_free m1 index)))"

record bid_fill =
  bf_fill :: nat
  bf_collateral :: nat

definition bid_gates ::
  "market \<Rightarrow> global_vault \<Rightarrow> match_resting_bids_args \<Rightarrow> resting_order \<Rightarrow> bid_fill gate res" where
  "bid_gates m v args bid =
     (if ro_trader_seat_index bid = rb_ask_seat_index args then Inr Skip
      else
        ebind (get_helper_seat m (ro_trader_seat_index bid)) (\<lambda>bidder.
        if cs_owner bidder = rb_ask_curator args then Inr Skip
        else if ro_rate_bps bid < rb_ask_rate_bps args then Inr Break
        else if rb_ask_term_seconds args < ro_term_seconds bid then Inr Skip
        else
          ebind (read_maker_terms v (rb_ask_sub_vault_id args)) (\<lambda>t.
          if mt_idle t = 0 then Inr Break
          else
            let fill = min (ro_principal_atoms bid) (mt_idle t) in
            ebind (if fill = ro_principal_atoms bid then Inr (ro_collateral_atoms bid)
                   else mul_div_u64 (ro_collateral_atoms bid) fill (ro_principal_atoms bid) False)
              (\<lambda>consumed_collateral.
            ebind (required_collateral_at_ltv_cap fill (rb_debt_oracle_price_fp48 args)
                     (rb_collateral_oracle_price_fp48 args)
                     (effective_origination_cap_bps (rb_sub_vault_max_ltv_bps args) (ro_ltv_buffer_bps bid))
                     (rb_debt_mint_decimals args) (rb_collateral_mint_decimals args)) (\<lambda>required.
            if consumed_collateral < required then Inr Skip
            else Inr (Go \<lparr> bf_fill = fill, bf_collateral = consumed_collateral \<rparr>))))))"

definition mint_bid_fill ::
  "market \<Rightarrow> match_resting_bids_args \<Rightarrow> resting_order \<Rightarrow> bid_fill \<Rightarrow> market res" where
  "mint_bid_fill m args bid bf =
     ebind (floored_borrower_rate (ro_rate_bps bid) (rb_ask_rate_bps args) (rb_fee_floor_bps args)) (\<lambda>borrower_rate.
     ebind (mul_div_u64 (bf_fill bf) (rb_origination_bps args) BPS_PER_UNIT False) (\<lambda>origination_atoms.
     alloc_matched_loan m
       \<lparr> ml_sequence = mk_matched_loan_sequence m, ml_borrower_marginfi_borrow_shares = 0,
         ml_principal_atoms = bf_fill bf, ml_origination_atoms = origination_atoms,
         ml_collateral_atoms = bf_collateral bf, ml_matched_at_unix = rb_now_unix_ts args,
         ml_lender_seat_index = rb_ask_seat_index args, ml_borrower_seat_index = ro_trader_seat_index bid,
         ml_term_seconds = ro_term_seconds bid, ml_borrower_rate_bps = borrower_rate,
         ml_lender_rate_bps = rb_ask_rate_bps args, ml_loan_type = 0,
         ml_flags = MATCHED_LOAN_FLAG_VAULT_LENDER,
         ml_curator_fee_bps_snapshot = rb_ask_curator_fee_bps args,
         ml_origination_ltv_bps = effective_origination_cap_bps (rb_sub_vault_max_ltv_bps args) (ro_ltv_buffer_bps bid),
         ml_liquidation_ltv_bps = rb_sub_vault_liquidation_ltv_bps args,
         ml_lender_debt_share_price_snapshot_fp48 = rb_lender_debt_share_price_snapshot_fp48 args,
         ml_borrower_collateral_share_price_snapshot_fp48 = ro_share_price_snapshot bid \<rparr>))"

definition set_bid :: "market \<Rightarrow> data_index \<Rightarrow> resting_order \<Rightarrow> market" where
  "set_bid m index o1 = m\<lparr>mk_bids := tree_update index (\<lambda>_. o1) (mk_bids m)\<rparr>"

definition shrink_bid :: "market \<Rightarrow> data_index \<Rightarrow> bid_fill \<Rightarrow> market res" where
  "shrink_bid m index bf =
     ebind (get_helper_order m index) (\<lambda>order.
     ebind (ro_reduce order (bf_fill bf)) (\<lambda>o1.
     ebind (ok_or (checked_sub (ro_collateral_atoms o1) (bf_collateral bf)) ArithmeticOverflow) (\<lambda>c.
     Inr (set_bid m index (o1\<lparr>ro_collateral_atoms := c\<rparr>)))))"

definition take_bid ::
  "bids_state \<Rightarrow> match_resting_bids_args \<Rightarrow> data_index \<Rightarrow> resting_order \<Rightarrow> bid_fill \<Rightarrow> bids_state res" where
  "take_bid st args index bid bf =
     ebind (reserve_on_sub_vault (bs_vault st) (rb_ask_sub_vault_id args) (bf_fill bf)) (\<lambda>v.
     ebind (mint_bid_fill (bs_market st) args bid bf) (\<lambda>m1.
     ebind (bump_open_borrow m1 (ro_trader_seat_index bid)) (\<lambda>m2.
     ebind (bump_open_lend m2 (rb_ask_seat_index args)) (\<lambda>m3.
     ebind (if bf_fill bf = ro_principal_atoms bid then remove_order_from_tree_and_free m3 index
            else shrink_bid m3 index bf) (\<lambda>m4.
     let r = bs_result st in
     ebind (ok_or (checked_add u64_lim (rr_total_filled_principal r) (bf_fill bf)) ArithmeticOverflow) (\<lambda>tf.
     Inr \<lparr> bs_market = m4, bs_vault = v,
           bs_result = r\<lparr>rr_total_filled_principal := tf, rr_num_fills := saturating_add u32_lim (rr_num_fills r) 1\<rparr> \<rparr>))))))"

text \<open>One bid of the walk: pruned, skipped, filled, or the end of the scan (\<open>None\<close>).\<close>

definition visit_bid ::
  "bids_state \<Rightarrow> match_resting_bids_args \<Rightarrow> data_index \<Rightarrow> resting_order \<Rightarrow> bids_state option res" where
  "visit_bid st args index bid =
     (if ro_is_expired bid (rb_now_unix_ts args) then
        ebind (prune_bid (bs_market st) index bid) (\<lambda>m1.
        let r = bs_result st in
        Inr (Some (st\<lparr>bs_market := m1,
                      bs_result := r\<lparr>rr_num_pruned := saturating_add u32_lim (rr_num_pruned r) 1\<rparr>\<rparr>)))
      else
        ebind (bid_gates (bs_market st) (bs_vault st) args bid) (\<lambda>g. case g of
            Skip \<Rightarrow> Inr (Some st)
          | Break \<Rightarrow> Inr None
          | Go bf \<Rightarrow> ebind (take_bid st args index bid bf) (\<lambda>st'. Inr (Some st'))))"

fun bids_loop :: "nat \<Rightarrow> bids_state \<Rightarrow> match_resting_bids_args \<Rightarrow> data_index \<Rightarrow> bids_state res" where
  "bids_loop 0 st args idx = Inl Panic"
| "bids_loop (Suc fuel) st args idx =
     (if idx \<noteq> NIL \<and> rr_num_fills (bs_result st) < rb_max_fills args then
        ebind (get_helper_order (bs_market st) idx) (\<lambda>bid.
        let next = tree_next_lower (mk_bids (bs_market st)) idx in
        ebind (visit_bid st args idx bid) (\<lambda>r. case r of
            None \<Rightarrow> Inr st
          | Some st' \<Rightarrow> bids_loop fuel st' args next))
      else Inr st)"

definition match_resting_bids ::
  "market \<Rightarrow> match_resting_bids_args \<Rightarrow> global_vault \<Rightarrow> (market \<times> global_vault \<times> match_resting_bids_result) res" where
  "match_resting_bids m args vault =
     ebind (bids_loop (length (mk_bids m) + 1)
              \<lparr> bs_market = m, bs_vault = vault,
                bs_result = \<lparr> rr_total_filled_principal = 0, rr_num_fills = 0, rr_num_pruned = 0 \<rparr> \<rparr>
              args (tree_max (mk_bids m))) (\<lambda>st.
     Inr (bs_market st, bs_vault st, bs_result st))"

definition count_resting_bids :: "market \<Rightarrow> nat" where
  "count_resting_bids m = length (mk_bids m)"

section \<open>Effects\<close>

text \<open>Every step of the walk leaves the bids after the visited one alone.\<close>

lemma set_bid_ok:
  assumes ok: "market_ok m" and b: "(i, o1) \<in> set (mk_bids m)"
    and k: "ro_rate_bps o2 = ro_rate_bps o1" "ro_sequence_number o2 = ro_sequence_number o1" "ro_side o2 = ro_side o1"
  shows "market_ok (set_bid m i o2)"
proof -
  have t: "tree_ok bid_cmp (mk_bids m)" using market_trees_ok[OF ok] by blast
  then have d: "distinct (map fst (mk_bids m))" by (simp add: tree_ok_def)
  let ?t = "tree_update i (\<lambda>_. o2) (mk_bids m)"
  have "tree_ok bid_cmp ?t" by (rule tree_update_const_ok[OF _ _ t b]) (simp_all add: bid_cmp_def k)
  then have ds: "descending bid_cmp ?t" by (simp add: tree_ok_def)
  have sq: "map (\<lambda>p. ro_sequence_number (snd p)) ?t = map (\<lambda>p. ro_sequence_number (snd p)) (mk_bids m)"
    by (rule tree_update_map[OF d b]) (simp add: k)
  have "\<forall>p \<in> set (mk_bids m). ro_side (snd p) = 0 \<and> ro_sequence_number (snd p) < mk_order_sequence_number m"
    using ok by (simp add: market_ok_def ball_Un)
  then have a: "\<forall>p \<in> set ?t. ro_side (snd p) = 0 \<and> ro_sequence_number (snd p) < mk_order_sequence_number m"
    using b k by (force simp: tree_update_member[OF d b])
  have bl: "market_blocks (set_bid m i o2) = market_blocks m" by (simp add: market_blocks_def set_bid_def)
  have dd: "distinct (map (\<lambda>p. ro_sequence_number (snd p)) (?t @ mk_asks m))"
    using ok unfolding map_append sq by (simp add: market_ok_def)
  show ?thesis
    using ok ds a dd unfolding market_ok_def bl by (simp add: set_bid_def ball_Un)
qed

lemma shrink_bid_Inr:
  assumes "shrink_bid m i bf = Inr m'"
  shows "\<exists>o1. get_helper_order m i = Inr o1 \<and> bf_fill bf \<le> ro_principal_atoms o1 \<and>
    bf_collateral bf \<le> ro_collateral_atoms o1 \<and>
    m' = set_bid m i (o1\<lparr>ro_principal_atoms := ro_principal_atoms o1 - bf_fill bf,
      ro_collateral_atoms := ro_collateral_atoms o1 - bf_collateral bf\<rparr>)"
  using assms by (auto simp: shrink_bid_def ro_reduce_def ok_or_Inr checked_sub_Some elim!: ebind_InrE)

lemma mint_bid_fill_Inr:
  assumes "mint_bid_fill m args bid bf = Inr m'"
  shows "\<exists>n. alloc_matched_loan m n = Inr m' \<and> ml_sequence n = mk_matched_loan_sequence m \<and>
    ml_principal_atoms n = bf_fill bf \<and> ml_collateral_atoms n = bf_collateral bf \<and>
    ml_borrower_seat_index n = ro_trader_seat_index bid \<and> ml_lender_seat_index n = rb_ask_seat_index args \<and>
    ml_borrower_collateral_share_price_snapshot_fp48 n = ro_share_price_snapshot bid \<and>
    ml_lender_rate_bps n = rb_ask_rate_bps args \<and> ml_term_seconds n = ro_term_seconds bid \<and>
    ml_borrower_rate_bps n = max (ro_rate_bps bid) (rb_ask_rate_bps args + rb_fee_floor_bps args) \<and>
    ml_loan_type n = 0 \<and> ml_liquidation_ltv_bps n = rb_sub_vault_liquidation_ltv_bps args \<and>
    ml_origination_ltv_bps n = effective_origination_cap_bps (rb_sub_vault_max_ltv_bps args) (ro_ltv_buffer_bps bid)"
proof -
  obtain br oa where br: "floored_borrower_rate (ro_rate_bps bid) (rb_ask_rate_bps args) (rb_fee_floor_bps args) = Inr br"
    and oa: "mul_div_u64 (bf_fill bf) (rb_origination_bps args) BPS_PER_UNIT False = Inr oa"
    using assms unfolding mint_bid_fill_def by (elim ebind_InrE) blast
  have "br = max (ro_rate_bps bid) (rb_ask_rate_bps args + rb_fee_floor_bps args)"
    using br by (auto simp: floored_borrower_rate_def require_Inr Let_def elim!: ebind_InrE)
  then show ?thesis using assms br oa by (auto simp: mint_bid_fill_def)
qed

end
