(* ===== verification/Refinance.thy ===== *)
theory Refinance
  imports Orders
begin

text \<open>The refinance walk of \<open>state/market_helpers.rs\<close>, \<open>match_p2pool_residual_against_asks\<close>: an open
  variable-rate loan crosses resting sub-vault asks, each cross minting a pre-settled fixed loan
  that carries a proportional slice of the loan's collateral.\<close>

record refinance_args =
  rf_market_pubkey :: pubkey
  rf_borrower_seat_index :: data_index
  rf_principal_cap_atoms :: nat
  rf_loan_collateral_atoms :: nat
  rf_borrower_collateral_share_price_snapshot_fp48 :: fp48
  rf_term_remaining_seconds :: nat
  rf_max_acceptable_rate_bps :: nat
  rf_fee_floor_bps :: nat
  rf_now_unix_ts :: int
  rf_debt_oracle_price_fp48 :: fp48
  rf_collateral_oracle_price_fp48 :: fp48
  rf_debt_mint_decimals :: nat
  rf_collateral_mint_decimals :: nat
  rf_ask_floor_rate_bps :: nat
  rf_ltv_buffer_bps :: nat

record refinance_cross =
  rx_lender_sub_vault_id :: nat
  rx_lender_rate_bps :: nat
  rx_filled_principal_atoms :: nat

record refinance_result =
  rx_total_filled_principal_atoms :: nat
  rx_total_filled_collateral_atoms :: nat
  rx_num_fills :: nat
  rx_crosses :: "refinance_cross list"

record refinance_state =
  rs_market :: market
  rs_vault :: "global_vault option"
  rs_remaining_principal :: nat
  rs_result :: refinance_result

definition refinance_price_gate :: "market \<Rightarrow> refinance_args \<Rightarrow> resting_order \<Rightarrow> unit gate res" where
  "refinance_price_gate m args maker =
     (if ro_is_expired maker (rf_now_unix_ts args) then Inr Skip
      else if ro_rate_bps maker < rf_ask_floor_rate_bps args then
        ebind (get_helper_seat m (ro_trader_seat_index maker)) (\<lambda>_. Inr Skip)
      else if ro_trader_seat_index maker = rf_borrower_seat_index args then Inr Skip
      else if rf_max_acceptable_rate_bps args < ro_rate_bps maker then Inr Break
      else if ro_term_seconds maker < rf_term_remaining_seconds args then Inr Skip
      else Inr (Go ()))"

definition refinance_vault_gate ::
  "refinance_state \<Rightarrow> refinance_args \<Rightarrow> resting_order \<Rightarrow> (claimed_seat \<times> maker_terms \<times> nat) gate res" where
  "refinance_vault_gate st args maker =
     ebind (get_helper_seat (rs_market st) (ro_trader_seat_index maker)) (\<lambda>lender_seat.
     ebind (require (cs_owner_kind lender_seat = OWNER_KIND_SUB_VAULT) (Custom IncorrectAccount)) (\<lambda>_.
     case rs_vault st of
       None \<Rightarrow> Inr Skip
     | Some v \<Rightarrow>
         ebind (read_maker_terms v (cs_sub_vault_id lender_seat)) (\<lambda>t.
         if mt_idle t = 0 then Inr Skip
         else
           let matched_principal = min (rs_remaining_principal st) (mt_idle t) in
           ebind (get_helper_seat (rs_market st) (rf_borrower_seat_index args)) (\<lambda>borrower.
           if mt_curator t = cs_owner borrower then Inr Skip
           else
             ebind (mul_div_u64 (rf_loan_collateral_atoms args) matched_principal (rf_principal_cap_atoms args) False)
               (\<lambda>matched_collateral_for_gate.
             ebind (required_collateral_at_ltv_cap matched_principal (rf_debt_oracle_price_fp48 args)
                      (rf_collateral_oracle_price_fp48 args)
                      (effective_origination_cap_bps (mt_max_ltv_bps t) (rf_ltv_buffer_bps args))
                      (rf_debt_mint_decimals args) (rf_collateral_mint_decimals args)) (\<lambda>required.
             if matched_collateral_for_gate < required then Inr Skip
             else Inr (Go (lender_seat, t, matched_principal))))))))"

definition refinance_mint ::
  "market \<Rightarrow> refinance_args \<Rightarrow> resting_order \<Rightarrow> maker_terms \<Rightarrow> nat \<Rightarrow> nat \<Rightarrow> market res" where
  "refinance_mint m args maker t matched_principal matched_collateral =
     ebind (floored_borrower_rate (rf_max_acceptable_rate_bps args) (ro_rate_bps maker) (rf_fee_floor_bps args))
       (\<lambda>borrower_rate.
     alloc_matched_loan m
       \<lparr> ml_sequence = mk_matched_loan_sequence m, ml_borrower_marginfi_borrow_shares = 0,
         ml_principal_atoms = matched_principal, ml_origination_atoms = 0,
         ml_collateral_atoms = matched_collateral, ml_matched_at_unix = rf_now_unix_ts args,
         ml_lender_seat_index = ro_trader_seat_index maker, ml_borrower_seat_index = rf_borrower_seat_index args,
         ml_term_seconds = rf_term_remaining_seconds args, ml_borrower_rate_bps = borrower_rate,
         ml_lender_rate_bps = ro_rate_bps maker, ml_loan_type = 0,
         ml_flags = MATCHED_LOAN_FLAG_VAULT_PRESETTLED + MATCHED_LOAN_FLAG_VAULT_LENDER,
         ml_curator_fee_bps_snapshot = mt_curator_fee_bps t,
         ml_origination_ltv_bps = effective_origination_cap_bps (mt_max_ltv_bps t) (rf_ltv_buffer_bps args),
         ml_liquidation_ltv_bps = mt_liquidation_ltv_bps t,
         ml_lender_debt_share_price_snapshot_fp48 = ro_share_price_snapshot maker,
         ml_borrower_collateral_share_price_snapshot_fp48 = rf_borrower_collateral_share_price_snapshot_fp48 args \<rparr>)"

definition refinance_cross_ask ::
  "refinance_state \<Rightarrow> refinance_args \<Rightarrow> resting_order \<Rightarrow> claimed_seat \<Rightarrow> maker_terms \<Rightarrow> nat \<Rightarrow> refinance_state res" where
  "refinance_cross_ask st args maker lender_seat t matched_principal =
     ebind (case rs_vault st of
         None \<Rightarrow> Inr None
       | Some v \<Rightarrow> ebind (reserve_on_sub_vault v (cs_sub_vault_id lender_seat) matched_principal) (\<lambda>v'. Inr (Some v')))
       (\<lambda>vault'.
     ebind (mul_div_u64 (rf_loan_collateral_atoms args) matched_principal (rf_principal_cap_atoms args) False)
       (\<lambda>matched_collateral.
     ebind (refinance_mint (rs_market st) args maker t matched_principal matched_collateral) (\<lambda>m1.
     ebind (bump_open_lend m1 (ro_trader_seat_index maker)) (\<lambda>m2.
     let r = rs_result st;
         cross = \<lparr> rx_lender_sub_vault_id = cs_sub_vault_id lender_seat, rx_lender_rate_bps = ro_rate_bps maker,
                   rx_filled_principal_atoms = matched_principal \<rparr> in
     ebind (ok_or (checked_sub (rs_remaining_principal st) matched_principal) ArithmeticOverflow) (\<lambda>rp.
     ebind (ok_or (checked_add u64_lim (rx_total_filled_principal_atoms r) matched_principal) ArithmeticOverflow) (\<lambda>tp.
     ebind (ok_or (checked_add u64_lim (rx_total_filled_collateral_atoms r) matched_collateral) ArithmeticOverflow) (\<lambda>tc.
     Inr \<lparr> rs_market = m2, rs_vault = vault', rs_remaining_principal = rp,
           rs_result = \<lparr> rx_total_filled_principal_atoms = tp, rx_total_filled_collateral_atoms = tc,
                         rx_num_fills = saturating_add u32_lim (rx_num_fills r) 1,
                         rx_crosses = rx_crosses r @ [cross] \<rparr> \<rparr>)))))))"

definition refinance_step :: "refinance_state \<Rightarrow> refinance_args \<Rightarrow> resting_order \<Rightarrow> refinance_state gate res" where
  "refinance_step st args maker =
     ebind (refinance_price_gate (rs_market st) args maker) (\<lambda>g1. case g1 of
         Skip \<Rightarrow> Inr Skip
       | Break \<Rightarrow> Inr Break
       | Go _ \<Rightarrow>
     ebind (refinance_vault_gate st args maker) (\<lambda>g2. case g2 of
         Skip \<Rightarrow> Inr Skip
       | Break \<Rightarrow> Inr Break
       | Go (lender_seat, t, p) \<Rightarrow>
           ebind (refinance_cross_ask st args maker lender_seat t p) (\<lambda>st'. Inr (Go st'))))"

fun refinance_loop :: "nat \<Rightarrow> refinance_state \<Rightarrow> refinance_args \<Rightarrow> data_index \<Rightarrow> refinance_state res" where
  "refinance_loop 0 st args idx = Inl Panic"
| "refinance_loop (Suc fuel) st args idx =
     (if 0 < rs_remaining_principal st \<and> idx \<noteq> NIL then
        ebind (get_helper_order (rs_market st) idx) (\<lambda>maker.
        ebind (refinance_step st args maker) (\<lambda>g. case g of
            Skip \<Rightarrow> refinance_loop fuel st args (next_maker_index (rs_market st) idx)
          | Break \<Rightarrow> Inr st
          | Go st' \<Rightarrow> refinance_loop fuel st' args (next_maker_index (rs_market st') idx)))
      else Inr st)"

definition match_p2pool_residual_against_asks ::
  "market \<Rightarrow> refinance_args \<Rightarrow> global_vault option \<Rightarrow> (market \<times> global_vault option \<times> refinance_result) res" where
  "match_p2pool_residual_against_asks m args vault =
     ebind (refinance_loop (length (mk_asks m) + 1)
              \<lparr> rs_market = m, rs_vault = vault, rs_remaining_principal = rf_principal_cap_atoms args,
                rs_result = \<lparr> rx_total_filled_principal_atoms = 0, rx_total_filled_collateral_atoms = 0,
                              rx_num_fills = 0, rx_crosses = [] \<rparr> \<rparr>
              args (tree_max (mk_asks m))) (\<lambda>st.
     Inr (rs_market st, rs_vault st, rs_result st))"

section \<open>The walk\<close>

fun refinance_walk :: "refinance_state \<Rightarrow> refinance_args \<Rightarrow> resting_order tree \<Rightarrow> refinance_state res" where
  "refinance_walk st args [] = Inr st"
| "refinance_walk st args ((i, maker) # rest) =
     (if 0 < rs_remaining_principal st then
        ebind (refinance_step st args maker) (\<lambda>g. case g of
            Skip \<Rightarrow> refinance_walk st args rest
          | Break \<Rightarrow> Inr st
          | Go st' \<Rightarrow> refinance_walk st' args rest)
      else Inr st)"

text \<open>What one cross does.\<close>

definition cross_node :: "market \<Rightarrow> refinance_args \<Rightarrow> resting_order \<Rightarrow> nat \<Rightarrow> matched_loan \<Rightarrow> bool" where
  "cross_node m args maker p n =
     (ml_sequence n = mk_matched_loan_sequence m \<and> ml_principal_atoms n = p \<and>
      ml_lender_seat_index n = ro_trader_seat_index maker \<and> ml_borrower_seat_index n = rf_borrower_seat_index args \<and>
      ml_lender_rate_bps n = ro_rate_bps maker \<and> ml_term_seconds n = rf_term_remaining_seconds args \<and>
      ml_borrower_rate_bps n = max (rf_max_acceptable_rate_bps args) (ro_rate_bps maker + rf_fee_floor_bps args) \<and>
      ml_borrower_collateral_share_price_snapshot_fp48 n = rf_borrower_collateral_share_price_snapshot_fp48 args \<and>
      ml_loan_type n = 0 \<and> ml_collateral_atoms n * rf_principal_cap_atoms args \<le> rf_loan_collateral_atoms args * p \<and>
      (\<exists>req. required_collateral_at_ltv_cap p (rf_debt_oracle_price_fp48 args) (rf_collateral_oracle_price_fp48 args)
         (ml_origination_ltv_bps n) (rf_debt_mint_decimals args) (rf_collateral_mint_decimals args) = Inr req \<and>
         req \<le> ml_collateral_atoms n))"

lemma refinance_price_gate_Go:
  assumes "refinance_price_gate m args maker = Inr (Go u)"
  shows "\<not> ro_is_expired maker (rf_now_unix_ts args) \<and> rf_ask_floor_rate_bps args \<le> ro_rate_bps maker \<and>
    ro_trader_seat_index maker \<noteq> rf_borrower_seat_index args \<and> ro_rate_bps maker \<le> rf_max_acceptable_rate_bps args \<and>
    rf_term_remaining_seconds args \<le> ro_term_seconds maker"
  using assms unfolding refinance_price_gate_def by (auto simp: not_less split: if_splits elim!: ebind_InrE)

lemma refinance_vault_gate_Go:
  assumes "refinance_vault_gate st args maker = Inr (Go (lender_seat, t, p))"
  shows "\<exists>v borrower c req. get_helper_seat (rs_market st) (ro_trader_seat_index maker) = Inr lender_seat \<and>
    cs_owner_kind lender_seat = OWNER_KIND_SUB_VAULT \<and> rs_vault st = Some v \<and>
    read_maker_terms v (cs_sub_vault_id lender_seat) = Inr t \<and> 0 < mt_idle t \<and>
    p = min (rs_remaining_principal st) (mt_idle t) \<and>
    get_helper_seat (rs_market st) (rf_borrower_seat_index args) = Inr borrower \<and> mt_curator t \<noteq> cs_owner borrower \<and>
    mul_div_u64 (rf_loan_collateral_atoms args) p (rf_principal_cap_atoms args) False = Inr c \<and>
    required_collateral_at_ltv_cap p (rf_debt_oracle_price_fp48 args) (rf_collateral_oracle_price_fp48 args)
      (effective_origination_cap_bps (mt_max_ltv_bps t) (rf_ltv_buffer_bps args))
      (rf_debt_mint_decimals args) (rf_collateral_mint_decimals args) = Inr req \<and> req \<le> c"
  using assms unfolding refinance_vault_gate_def Let_def
  by (auto simp: require_Inr not_less split: if_splits option.splits elim!: ebind_InrE)

lemma refinance_cross_Inr:
  assumes ok: "market_ok (rs_market st)" and v: "rs_vault st = Some v"
    and r: "refinance_cross_ask st args maker lender_seat t p = Inr st'"
  shows "\<exists>n v' c. market_ok (rs_market st') \<and> book_frame (rs_market st) (rs_market st') \<and>
    mset (tree_values (mk_matched_loans (rs_market st'))) = add_mset n (mset (tree_values (mk_matched_loans (rs_market st)))) \<and>
    mk_matched_loan_sequence (rs_market st') = mk_matched_loan_sequence (rs_market st) + 1 \<and>
    mul_div_u64 (rf_loan_collateral_atoms args) p (rf_principal_cap_atoms args) False = Inr c \<and>
    ml_sequence n = mk_matched_loan_sequence (rs_market st) \<and> ml_principal_atoms n = p \<and> ml_collateral_atoms n = c \<and>
    ml_lender_seat_index n = ro_trader_seat_index maker \<and> ml_borrower_seat_index n = rf_borrower_seat_index args \<and>
    ml_lender_rate_bps n = ro_rate_bps maker \<and> ml_term_seconds n = rf_term_remaining_seconds args \<and>
    ml_borrower_rate_bps n = max (rf_max_acceptable_rate_bps args) (ro_rate_bps maker + rf_fee_floor_bps args) \<and>
    ml_borrower_collateral_share_price_snapshot_fp48 n = rf_borrower_collateral_share_price_snapshot_fp48 args \<and>
    ml_flags n = MATCHED_LOAN_FLAG_VAULT_PRESETTLED + MATCHED_LOAN_FLAG_VAULT_LENDER \<and>
    ml_origination_ltv_bps n = effective_origination_cap_bps (mt_max_ltv_bps t) (rf_ltv_buffer_bps args) \<and>
    ml_liquidation_ltv_bps n = mt_liquidation_ltv_bps t \<and> ml_loan_type n = 0 \<and> ml_origination_atoms n = 0 \<and>
    rs_vault st' = Some v' \<and> reserve_on_sub_vault v (cs_sub_vault_id lender_seat) p = Inr v' \<and>
    p \<le> rs_remaining_principal st \<and> rs_remaining_principal st' = rs_remaining_principal st - p \<and>
    rx_total_filled_principal_atoms (rs_result st') = rx_total_filled_principal_atoms (rs_result st) + p \<and>
    rx_total_filled_collateral_atoms (rs_result st') = rx_total_filled_collateral_atoms (rs_result st) + c \<and>
    rx_crosses (rs_result st') = rx_crosses (rs_result st) @
      [\<lparr> rx_lender_sub_vault_id = cs_sub_vault_id lender_seat, rx_lender_rate_bps = ro_rate_bps maker,
         rx_filled_principal_atoms = p \<rparr>]"
proof -
  let ?m = "rs_market st"
  obtain v' c m1 m2 where rv: "reserve_on_sub_vault v (cs_sub_vault_id lender_seat) p = Inr v'"
    and c: "mul_div_u64 (rf_loan_collateral_atoms args) p (rf_principal_cap_atoms args) False = Inr c"
    and m1: "refinance_mint ?m args maker t p c = Inr m1" and m2: "bump_open_lend m1 (ro_trader_seat_index maker) = Inr m2"
    and st': "rs_market st' = m2" "rs_vault st' = Some v'" "p \<le> rs_remaining_principal st"
      "rs_remaining_principal st' = rs_remaining_principal st - p"
      "rx_total_filled_principal_atoms (rs_result st') = rx_total_filled_principal_atoms (rs_result st) + p"
      "rx_total_filled_collateral_atoms (rs_result st') = rx_total_filled_collateral_atoms (rs_result st) + c"
      "rx_crosses (rs_result st') = rx_crosses (rs_result st) @
      [\<lparr> rx_lender_sub_vault_id = cs_sub_vault_id lender_seat, rx_lender_rate_bps = ro_rate_bps maker,
         rx_filled_principal_atoms = p \<rparr>]"
    using r v unfolding refinance_cross_ask_def Let_def
    by (auto simp: ok_or_Inr checked_sub_Some checked_add_Some elim!: ebind_InrE)
  obtain br where br: "floored_borrower_rate (rf_max_acceptable_rate_bps args) (ro_rate_bps maker) (rf_fee_floor_bps args) = Inr br"
    using m1 unfolding refinance_mint_def by (elim ebind_InrE)
  have brv: "br = max (rf_max_acceptable_rate_bps args) (ro_rate_bps maker + rf_fee_floor_bps args)"
    using br by (auto simp: floored_borrower_rate_def require_Inr Let_def elim!: ebind_InrE)
  define n where "n = \<lparr> ml_sequence = mk_matched_loan_sequence ?m, ml_borrower_marginfi_borrow_shares = 0,
         ml_principal_atoms = p, ml_origination_atoms = 0,
         ml_collateral_atoms = c, ml_matched_at_unix = rf_now_unix_ts args,
         ml_lender_seat_index = ro_trader_seat_index maker, ml_borrower_seat_index = rf_borrower_seat_index args,
         ml_term_seconds = rf_term_remaining_seconds args, ml_borrower_rate_bps = br,
         ml_lender_rate_bps = ro_rate_bps maker, ml_loan_type = 0,
         ml_flags = MATCHED_LOAN_FLAG_VAULT_PRESETTLED + MATCHED_LOAN_FLAG_VAULT_LENDER,
         ml_curator_fee_bps_snapshot = mt_curator_fee_bps t,
         ml_origination_ltv_bps = effective_origination_cap_bps (mt_max_ltv_bps t) (rf_ltv_buffer_bps args),
         ml_liquidation_ltv_bps = mt_liquidation_ltv_bps t,
         ml_lender_debt_share_price_snapshot_fp48 = ro_share_price_snapshot maker,
         ml_borrower_collateral_share_price_snapshot_fp48 = rf_borrower_collateral_share_price_snapshot_fp48 args \<rparr>"
  have al: "alloc_matched_loan ?m n = Inr m1" using m1 br by (simp add: refinance_mint_def n_def)
  have A: "market_ok m1" "mset (tree_values (mk_matched_loans m1)) = add_mset n (mset (tree_values (mk_matched_loans ?m)))"
    using alloc_matched_loan_ok[OF ok al] by (simp_all add: n_def)
  have sq: "mk_matched_loan_sequence m1 = mk_matched_loan_sequence ?m + 1" using alloc_matched_loan_Inr[OF al] by auto
  have sq2: "mk_matched_loan_sequence m2 = mk_matched_loan_sequence m1" using bump_open_lend_Inr[OF m2] by auto
  have B: "market_ok m2" "book_frame ?m m2" "mk_matched_loans m2 = mk_matched_loans m1"
    using bump_ok(2)[OF A(1) m2] bump_frame(2)[OF m2] alloc_frame[OF al] book_frame_trans by blast+
  show ?thesis
    by (intro exI[of _ n] exI[of _ v'] exI[of _ c]) (use A B c rv st' sq sq2 brv in \<open>simp add: n_def\<close>)
qed

text \<open>The index loop is the structural walk over the asks.\<close>

lemma refinance_step_Go:
  assumes "refinance_step st args maker = Inr (Go st')"
  obtains lender_seat t p u where "refinance_price_gate (rs_market st) args maker = Inr (Go u)"
    "refinance_vault_gate st args maker = Inr (Go (lender_seat, t, p))"
    "refinance_cross_ask st args maker lender_seat t p = Inr st'"
  using assms unfolding refinance_step_def
  by (auto split: gate.splits prod.splits elim!: ebind_InrE)

lemma refinance_step_frame:
  assumes "market_ok (rs_market st)" "refinance_step st args maker = Inr (Go st')"
  shows "market_ok (rs_market st') \<and> book_frame (rs_market st) (rs_market st')"
  using assms(2)
proof (cases rule: refinance_step_Go)
  case (1 lender_seat t p u)
  obtain v where "rs_vault st = Some v" using refinance_vault_gate_Go[OF 1(2)] by blast
  then show ?thesis using refinance_cross_Inr[OF assms(1) _ 1(3)] by blast
qed

lemma refinance_loop_walk:
  assumes "market_ok (rs_market st)" "mk_asks (rs_market st) = as @ bs" "length bs < fuel"
  shows "refinance_loop fuel st args (tree_max bs) = refinance_walk st args bs"
  using assms
proof (induction bs arbitrary: as st fuel)
  case Nil
  then show ?case by (cases fuel) (auto simp: tree_max_def)
next
  case (Cons q rest)
  obtain i maker where q: "q = (i, maker)" by force
  obtain f where f: "fuel = Suc f" using Cons.prems(3) by (cases fuel) auto
  have t: "tree_ok ask_cmp (mk_asks (rs_market st))" using market_trees_ok(2)[OF Cons.prems(1)] .
  then have d: "distinct (map fst (mk_asks (rs_market st)))" "i \<noteq> NIL"
    using Cons.prems(2) q by (auto simp: tree_ok_def)
  have get: "get_helper_order (rs_market st) i = Inr maker"
    using tree_get_iff[OF d(1), of i maker] Cons.prems(2) q by (simp add: get_helper_order_def)
  have nx: "next_maker_index m' i = tree_max rest" if "mk_asks m' = mk_asks (rs_market st)" for m'
    using tree_next_lower_eq[OF d(1), of as i maker rest] Cons.prems(2) q that by (simp add: next_maker_index_def)
  have IH: "refinance_loop f st' args (tree_max rest) = refinance_walk st' args rest"
    if "market_ok (rs_market st')" "mk_asks (rs_market st') = mk_asks (rs_market st)" for st'
    by (rule Cons.IH[of st' "as @ [q]"]) (use that Cons.prems f in simp_all)
  show ?case
  proof (cases "refinance_step st args maker")
    case (Inr g)
    show ?thesis
    proof (cases g)
      case (Go st')
      then have "market_ok (rs_market st')" "mk_asks (rs_market st') = mk_asks (rs_market st)"
        using refinance_step_frame[OF Cons.prems(1)] Inr by (auto simp: book_frame_def)
      then show ?thesis using IH nx Go Inr by (simp add: f q tree_max_def get d(2))
    qed (use IH[OF Cons.prems(1)] nx Inr in \<open>simp_all add: f q tree_max_def get d(2)\<close>)
  qed (simp add: f q tree_max_def get d(2))
qed

section \<open>What a refinance run leaves\<close>

definition cross_of :: "market \<Rightarrow> refinance_args \<Rightarrow> resting_order \<Rightarrow> matched_loan \<Rightarrow> bool" where
  "cross_of m args ask n =
     (\<not> ro_is_expired ask (rf_now_unix_ts args) \<and> rf_ask_floor_rate_bps args \<le> ro_rate_bps ask \<and>
      ro_rate_bps ask \<le> rf_max_acceptable_rate_bps args \<and> rf_term_remaining_seconds args \<le> ro_term_seconds ask \<and>
      (\<exists>lender. get_helper_seat m (ro_trader_seat_index ask) = Inr lender \<and> cs_owner_kind lender = OWNER_KIND_SUB_VAULT) \<and>
      ml_lender_seat_index n = ro_trader_seat_index ask \<and> ml_borrower_seat_index n = rf_borrower_seat_index args \<and>
      ml_lender_seat_index n \<noteq> ml_borrower_seat_index n \<and> 0 < ml_principal_atoms n \<and>
      ml_lender_rate_bps n = ro_rate_bps ask \<and> ml_term_seconds n = rf_term_remaining_seconds args \<and>
      ml_borrower_rate_bps n = max (rf_max_acceptable_rate_bps args) (ro_rate_bps ask + rf_fee_floor_bps args) \<and>
      ml_borrower_collateral_share_price_snapshot_fp48 n = rf_borrower_collateral_share_price_snapshot_fp48 args \<and>
      ml_collateral_atoms n = rf_loan_collateral_atoms args * ml_principal_atoms n div rf_principal_cap_atoms args \<and>
      (\<exists>req. required_collateral_at_ltv_cap (ml_principal_atoms n) (rf_debt_oracle_price_fp48 args)
         (rf_collateral_oracle_price_fp48 args) (ml_origination_ltv_bps n)
         (rf_debt_mint_decimals args) (rf_collateral_mint_decimals args) = Inr req \<and> req \<le> ml_collateral_atoms n))"

definition crossed :: "market \<Rightarrow> global_vault \<Rightarrow> refinance_args \<Rightarrow> matched_loan list \<Rightarrow> refinance_state \<Rightarrow> bool" where
  "crossed m v args new st =
     (market_ok (rs_market st) \<and> book_frame m (rs_market st) \<and>
      (\<exists>v'. rs_vault st = Some v' \<and> vault_ok v' \<and> drawn_vault v v' \<and>
         total_encumbered v' = total_encumbered v + sum_list (map ml_principal_atoms new) \<and>
         total_open_loans v' = total_open_loans v + length new) \<and>
      mset (tree_values (mk_matched_loans (rs_market st))) = mset (tree_values (mk_matched_loans m)) + mset new \<and>
      rs_remaining_principal st + sum_list (map ml_principal_atoms new) = rf_principal_cap_atoms args \<and>
      rx_total_filled_principal_atoms (rs_result st) = sum_list (map ml_principal_atoms new) \<and>
      rx_total_filled_collateral_atoms (rs_result st) = sum_list (map ml_collateral_atoms new) \<and>
      map rx_filled_principal_atoms (rx_crosses (rs_result st)) = map ml_principal_atoms new \<and>
      map rx_lender_rate_bps (rx_crosses (rs_result st)) = map ml_lender_rate_bps new \<and>
      (\<forall>n \<in> set new. \<exists>ask \<in> set (tree_values (mk_asks m)). cross_of m args ask n))"


lemma crossed_step:
  assumes w: "crossed m v args new st" and ask: "ask \<in> set (tree_values (mk_asks m))"
    and rem: "0 < rs_remaining_principal st" and r: "refinance_step st args ask = Inr (Go st')"
  shows "\<exists>n. crossed m v args (new @ [n]) st'"
  using r
proof (cases rule: refinance_step_Go)
  case (1 lender t p u)
  have ok: "market_ok (rs_market st)" and fr: "book_frame m (rs_market st)" using w by (simp_all add: crossed_def)
  obtain v0 where v0: "rs_vault st = Some v0" "vault_ok v0" "drawn_vault v v0"
      "total_encumbered v0 = total_encumbered v + sum_list (map ml_principal_atoms new)"
      "total_open_loans v0 = total_open_loans v + length new"
    using w by (auto simp: crossed_def)
  note price = refinance_price_gate_Go[OF 1(1)]
  have g: "get_helper_seat (rs_market st) (ro_trader_seat_index ask) = Inr lender" "cs_owner_kind lender = OWNER_KIND_SUB_VAULT"
      "read_maker_terms v0 (cs_sub_vault_id lender) = Inr t" "0 < mt_idle t" "p = min (rs_remaining_principal st) (mt_idle t)"
    and req: "\<exists>c req. mul_div_u64 (rf_loan_collateral_atoms args) p (rf_principal_cap_atoms args) False = Inr c \<and>
      required_collateral_at_ltv_cap p (rf_debt_oracle_price_fp48 args) (rf_collateral_oracle_price_fp48 args)
      (effective_origination_cap_bps (mt_max_ltv_bps t) (rf_ltv_buffer_bps args))
      (rf_debt_mint_decimals args) (rf_collateral_mint_decimals args) = Inr req \<and> req \<le> c"
    using refinance_vault_gate_Go[OF 1(2)] v0(1) by auto
  obtain n :: matched_loan and v1 :: global_vault and c where n: "market_ok (rs_market st')" "book_frame (rs_market st) (rs_market st')"
      "mset (tree_values (mk_matched_loans (rs_market st'))) = add_mset n (mset (tree_values (mk_matched_loans (rs_market st))))"
    and c: "mul_div_u64 (rf_loan_collateral_atoms args) p (rf_principal_cap_atoms args) False = Inr c"
      "ml_principal_atoms n = p" "ml_collateral_atoms n = c"
    and nf: "ml_lender_seat_index n = ro_trader_seat_index ask" "ml_borrower_seat_index n = rf_borrower_seat_index args"
      "ml_lender_rate_bps n = ro_rate_bps ask" "ml_term_seconds n = rf_term_remaining_seconds args"
      "ml_borrower_rate_bps n = max (rf_max_acceptable_rate_bps args) (ro_rate_bps ask + rf_fee_floor_bps args)"
      "ml_borrower_collateral_share_price_snapshot_fp48 n = rf_borrower_collateral_share_price_snapshot_fp48 args"
      "ml_origination_ltv_bps n = effective_origination_cap_bps (mt_max_ltv_bps t) (rf_ltv_buffer_bps args)"
    and v1: "rs_vault st' = Some v1" "reserve_on_sub_vault v0 (cs_sub_vault_id lender) p = Inr v1"
    and q: "p \<le> rs_remaining_principal st" "rs_remaining_principal st' = rs_remaining_principal st - p"
      "rx_total_filled_principal_atoms (rs_result st') = rx_total_filled_principal_atoms (rs_result st) + p"
      "rx_total_filled_collateral_atoms (rs_result st') = rx_total_filled_collateral_atoms (rs_result st) + c"
      "rx_crosses (rs_result st') = rx_crosses (rs_result st) @
        [\<lparr> rx_lender_sub_vault_id = cs_sub_vault_id lender, rx_lender_rate_bps = ro_rate_bps ask,
           rx_filled_principal_atoms = p \<rparr>]"
    using refinance_cross_Inr[OF ok v0(1) 1(3)] by (elim exE conjE) (rule that, assumption+)
  have p: "0 < p" "p \<le> mt_idle t" using g rem by simp_all
  note d = reserve_draws[OF v0(2) g(3) p v1(2)]
  obtain lender0 where l0: "get_helper_seat m (ro_trader_seat_index ask) = Inr lender0" "seat_core lender = seat_core lender0"
    using same_seats_back[of m "rs_market st"] fr g(1) by (auto simp: book_frame_def)
  then have "cs_owner_kind lender0 = OWNER_KIND_SUB_VAULT" using g(2) by (simp add: seat_core_def seat_key_def)
  moreover have "ml_collateral_atoms n = rf_loan_collateral_atoms args * ml_principal_atoms n div rf_principal_cap_atoms args"
    using mul_div_u64_floor_div[OF c(1)] c by simp
  moreover have "\<exists>req. required_collateral_at_ltv_cap (ml_principal_atoms n) (rf_debt_oracle_price_fp48 args)
         (rf_collateral_oracle_price_fp48 args) (ml_origination_ltv_bps n)
         (rf_debt_mint_decimals args) (rf_collateral_mint_decimals args) = Inr req \<and> req \<le> ml_collateral_atoms n"
    using req c nf(7) by auto
  ultimately have "cross_of m args ask n"
    unfolding cross_of_def using price nf p c(2) l0(1) by simp
  moreover have "drawn_vault v v1" using d drawn_vault_trans[OF v0(3)] by blast
  moreover have "book_frame m (rs_market st')" using book_frame_trans[OF fr n(2)] .
  ultimately have "crossed m v args (new @ [n]) st'"
    using w n(1,3) c(2,3) nf(3) v1(1) d v0(4,5) q ask unfolding crossed_def by auto
  then show ?thesis ..
qed

lemma crossed_walk:
  assumes "crossed m v args new st" "\<forall>p \<in> set bs. snd p \<in> set (tree_values (mk_asks m))"
    "refinance_walk st args bs = Inr st'"
  shows "\<exists>new'. crossed m v args new' st'"
  using assms
proof (induction bs arbitrary: st new)
  case (Cons q rest)
  obtain i ask where q: "q = (i, ask)" by force
  show ?case
  proof (cases "0 < rs_remaining_principal st")
    case True
    then obtain g where g: "refinance_step st args ask = Inr g"
      and k: "(case g of Skip \<Rightarrow> refinance_walk st args rest | Break \<Rightarrow> Inr st | Go st1 \<Rightarrow> refinance_walk st1 args rest) = Inr st'"
      using Cons.prems(3) q by (auto elim!: ebind_InrE)
    show ?thesis
    proof (cases g)
      case Skip
      then show ?thesis using Cons.IH[OF Cons.prems(1)] Cons.prems(2) k by simp
    next
      case Break
      then show ?thesis using Cons.prems(1) k by auto
    next
      case (Go st1)
      obtain n where "crossed m v args (new @ [n]) st1"
        using crossed_step[OF Cons.prems(1) _ True, of ask st1] g Go Cons.prems(2) q by auto
      then show ?thesis using Cons.IH Cons.prems(2) k Go by auto
    qed
  qed (use Cons.prems q in auto)
qed auto

lemma refinance_summary:
  assumes ok: "market_ok m" and vok: "vault_ok v"
    and r: "match_p2pool_residual_against_asks m args (Some v) = Inr (m', vault', r)"
  shows "\<exists>new st. crossed m v args new st \<and> m' = rs_market st \<and> vault' = rs_vault st \<and> r = rs_result st"
proof -
  let ?st = "\<lparr> rs_market = m, rs_vault = Some v, rs_remaining_principal = rf_principal_cap_atoms args,
      rs_result = \<lparr> rx_total_filled_principal_atoms = 0, rx_total_filled_collateral_atoms = 0,
                    rx_num_fills = 0, rx_crosses = [] \<rparr> \<rparr>"
  obtain st where st: "refinance_walk ?st args (mk_asks m) = Inr st" and e: "m' = rs_market st" "vault' = rs_vault st" "r = rs_result st"
    using r refinance_loop_walk[of ?st "[]" "mk_asks m" "length (mk_asks m) + 1" args] ok
    unfolding match_p2pool_residual_against_asks_def by (auto elim!: ebind_InrE)
  have "crossed m v args [] ?st" using ok vok by (simp add: crossed_def)
  moreover have "\<forall>p \<in> set (mk_asks m). snd p \<in> set (tree_values (mk_asks m))" by (simp add: tree_values_def)
  ultimately show ?thesis using crossed_walk[of m v args "[]" ?st "mk_asks m" st] st e by auto
qed

text \<open>Proportional slices never exceed the loan's collateral.\<close>

lemma crossed_collateral:
  assumes "crossed m v args new st"
  shows "sum_list (map ml_collateral_atoms new) \<le> rf_loan_collateral_atoms args"
proof (rule floor_slices_bound)
  show "\<forall>n \<in> set new. ml_collateral_atoms n = rf_loan_collateral_atoms args * ml_principal_atoms n div rf_principal_cap_atoms args"
    using assms unfolding crossed_def cross_of_def by blast
  show "sum_list (map ml_principal_atoms new) \<le> rf_principal_cap_atoms args" using assms unfolding crossed_def by linarith
qed

end
