(* ===== verification/Bid_Walk.thy ===== *)
theory Bid_Walk
  imports Resting_Bids
begin

text \<open>The walk of \<open>match_resting_bids\<close>: a loop over the index chain of the bids that removes and
  shrinks the nodes it visits is the structural walk over the bids it started with, so its fuel
  never runs out and no bid is visited twice. What the walk leaves behind: a well-formed market,
  one new loan per fill, and a vault that drew exactly the filled principal.\<close>

fun bids_walk :: "bids_state \<Rightarrow> match_resting_bids_args \<Rightarrow> resting_order tree \<Rightarrow> bids_state res" where
  "bids_walk st args [] = Inr st"
| "bids_walk st args ((i, bid) # rest) =
     (if rr_num_fills (bs_result st) < rb_max_fills args then
        ebind (visit_bid st args i bid) (\<lambda>r. case r of
            None \<Rightarrow> Inr st
          | Some st' \<Rightarrow> bids_walk st' args rest)
      else Inr st)"

section \<open>One visit\<close>

text \<open>What stays when a bid is visited: the other side of the book, the counters, the seats but for their
  balances.\<close>

definition bid_frame :: "market \<Rightarrow> market \<Rightarrow> bool" where
  "bid_frame m m' =
     (mk_asks m' = mk_asks m \<and> market_config m' = market_config m \<and>
      mk_order_sequence_number m' = mk_order_sequence_number m)"

lemma bid_frame_trans: "bid_frame m m1 \<Longrightarrow> bid_frame m1 m2 \<Longrightarrow> bid_frame m m2"
  by (simp add: bid_frame_def)

lemma bid_at:
  assumes ok: "market_ok m" and b: "mk_bids m = pre @ (i, bid) # rest"
  shows "get_helper_order m i = Inr bid" "tree_remove i (mk_bids m) = pre @ rest"
    "tree_update i f (mk_bids m) = pre @ (i, f bid) # rest" "tree_next_lower (mk_bids m) i = tree_max rest" "i \<noteq> NIL"
    "ro_side bid = 0"
proof -
  have t: "tree_ok bid_cmp (mk_bids m)" using market_trees_ok(1)[OF ok] .
  then have d: "distinct (map fst (mk_bids m))" by (simp add: tree_ok_def)
  have mem: "(i, bid) \<in> set (mk_bids m)" using b by simp
  have n: "i \<notin> fst ` set pre" "i \<notin> fst ` set rest" using d b by auto
  have "i \<in> fst ` set (mk_bids m)" using mem by force
  then have "i \<notin> fst ` set (mk_asks m)" using ok by (auto simp: market_ok_def market_blocks_def)
  then have "tree_get (mk_asks m) i = None" by (simp add: tree_get_None tree_indices_def)
  then show "get_helper_order m i = Inr bid"
    using tree_get_iff[OF d, of i bid] mem by (simp add: get_helper_order_def ok_or_Inr)
  have "tree_update i f pre = pre" "tree_update i f rest = rest" "tree_remove i pre = pre" "tree_remove i rest = rest"
    using n by (auto simp: tree_indices_def intro: tree_update_absent tree_remove_absent)
  then show "tree_remove i (mk_bids m) = pre @ rest" "tree_update i f (mk_bids m) = pre @ (i, f bid) # rest"
    by (simp_all add: b tree_remove_def tree_update_def)
  show "tree_next_lower (mk_bids m) i = tree_max rest" using tree_next_lower_eq[OF d b] .
  show "i \<noteq> NIL" using t b by (auto simp: tree_ok_def)
  show "ro_side bid = 0" using ok b by (simp add: market_ok_def)
qed

lemma prune_bid_step:
  assumes ok: "market_ok m" and b: "mk_bids m = pre @ (i, bid) # rest" and p: "prune_bid m i bid = Inr m'"
  shows "market_ok m' \<and> mk_bids m' = pre @ rest \<and> mk_matched_loans m' = mk_matched_loans m \<and> bid_frame m m'"
proof -
  obtain ps cs m1 where u: "unencumber_for_order m (ro_trader_seat_index bid) Bid ps cs = Inr m1"
    and r: "remove_order_from_tree_and_free m1 i = Inr m'"
    using p unfolding prune_bid_def by (elim ebind_InrE)
  obtain s where m1: "m1 = set_seat m (ro_trader_seat_index bid) s" using unencumber_Inr_seat[OF u] by blast
  have ok1: "market_ok m1" using unencumber_ok[OF ok u] .
  have b1: "mk_bids m1 = pre @ (i, bid) # rest" by (simp add: m1 b)
  have "m' = m1\<lparr>mk_bids := tree_remove i (mk_bids m1), mk_free_list := i # mk_free_list m1\<rparr>"
    using r bid_at(1,6)[OF ok1 b1]
    by (simp add: remove_order_from_tree_and_free_def release_address_on_market_fixed_def stack_add_def)
  then show ?thesis
    using remove_order_ok[OF ok1 r] bid_at(2)[OF ok1 b1] by (simp add: m1 bid_frame_def market_config_def)
      (simp add: set_seat_def)
qed

definition shrunk :: "resting_order \<Rightarrow> bid_fill \<Rightarrow> resting_order" where
  "shrunk bid bf = bid\<lparr>ro_principal_atoms := ro_principal_atoms bid - bf_fill bf,
      ro_collateral_atoms := ro_collateral_atoms bid - bf_collateral bf\<rparr>"

text \<open>The loan a bid is filled with.\<close>

definition bid_loan :: "match_resting_bids_args \<Rightarrow> resting_order \<Rightarrow> bid_fill \<Rightarrow> matched_loan \<Rightarrow> bool" where
  "bid_loan args bid bf n =
     (ml_principal_atoms n = bf_fill bf \<and> ml_collateral_atoms n = bf_collateral bf \<and>
      ml_borrower_seat_index n = ro_trader_seat_index bid \<and> ml_lender_seat_index n = rb_ask_seat_index args \<and>
      ml_borrower_collateral_share_price_snapshot_fp48 n = ro_share_price_snapshot bid \<and>
      ml_lender_rate_bps n = rb_ask_rate_bps args \<and> ml_term_seconds n = ro_term_seconds bid \<and>
      ml_borrower_rate_bps n = max (ro_rate_bps bid) (rb_ask_rate_bps args + rb_fee_floor_bps args) \<and>
      ml_loan_type n = 0 \<and> ml_liquidation_ltv_bps n = rb_sub_vault_liquidation_ltv_bps args \<and>
      ml_origination_ltv_bps n = effective_origination_cap_bps (rb_sub_vault_max_ltv_bps args) (ro_ltv_buffer_bps bid))"

lemma take_bid_step:
  assumes ok: "market_ok (bs_market st)" and b: "mk_bids (bs_market st) = pre @ (i, bid) # rest"
    and t: "take_bid st args i bid bf = Inr st'" and c: "bf_fill bf = ro_principal_atoms bid \<longrightarrow> bf_collateral bf = ro_collateral_atoms bid"
  shows "market_ok (bs_market st') \<and> bid_frame (bs_market st) (bs_market st') \<and>
    same_seats (bs_market st) (bs_market st') \<and>
    mk_bids (bs_market st') = pre @ (if bf_fill bf = ro_principal_atoms bid then [] else [(i, shrunk bid bf)]) @ rest \<and>
    bf_fill bf \<le> ro_principal_atoms bid \<and> bf_collateral bf \<le> ro_collateral_atoms bid \<and>
    (\<exists>n. bid_loan args bid bf n \<and>
       mset (tree_values (mk_matched_loans (bs_market st'))) = add_mset n (mset (tree_values (mk_matched_loans (bs_market st))))) \<and>
    reserve_on_sub_vault (bs_vault st) (rb_ask_sub_vault_id args) (bf_fill bf) = Inr (bs_vault st') \<and>
    rr_total_filled_principal (bs_result st') = rr_total_filled_principal (bs_result st) + bf_fill bf"
proof -
  let ?m = "bs_market st" and ?full = "bf_fill bf = ro_principal_atoms bid"
  obtain v m1 m2 m3 m4 where v: "reserve_on_sub_vault (bs_vault st) (rb_ask_sub_vault_id args) (bf_fill bf) = Inr v"
    and m1: "mint_bid_fill ?m args bid bf = Inr m1"
    and m2: "bump_open_borrow m1 (ro_trader_seat_index bid) = Inr m2"
    and m3: "bump_open_lend m2 (rb_ask_seat_index args) = Inr m3"
    and m4: "(if ?full then remove_order_from_tree_and_free m3 i else shrink_bid m3 i bf) = Inr m4"
    and st': "bs_market st' = m4" "bs_vault st' = v"
      "rr_total_filled_principal (bs_result st') = rr_total_filled_principal (bs_result st) + bf_fill bf"
    using t unfolding take_bid_def Let_def
    by (elim ebind_InrE) (auto simp: ok_or_Inr checked_add_Some)
  obtain n where n: "bid_loan args bid bf n" and al: "alloc_matched_loan ?m n = Inr m1"
    and sq: "ml_sequence n = mk_matched_loan_sequence ?m"
    using mint_bid_fill_Inr[OF m1] by (auto simp: bid_loan_def)
  note A = alloc_matched_loan_ok[OF ok al sq]
  have ok3: "market_ok m3" using A bump_ok m2 m3 by blast
  have f: "book_frame ?m m3" "mk_matched_loans m3 = mk_matched_loans m1"
    using alloc_frame[OF al] bump_frame(1)[OF m2] bump_frame(2)[OF m3] book_frame_trans by metis+
  then have b3: "mk_bids m3 = pre @ (i, bid) # rest" using b by (simp add: book_frame_def)
  have fr: "bid_frame ?m m3" "same_seats ?m m3" using f(1) by (simp_all add: book_frame_def bid_frame_def)
  have "market_ok m4 \<and> bid_frame m3 m4 \<and> mk_claimed_seats m4 = mk_claimed_seats m3 \<and> mk_matched_loans m4 = mk_matched_loans m3 \<and>
    mk_bids m4 = pre @ (if ?full then [] else [(i, shrunk bid bf)]) @ rest \<and>
    bf_fill bf \<le> ro_principal_atoms bid \<and> bf_collateral bf \<le> ro_collateral_atoms bid"
  proof (cases ?full)
    case True
    then have r: "remove_order_from_tree_and_free m3 i = Inr m4" using m4 by simp
    then have "m4 = m3\<lparr>mk_bids := tree_remove i (mk_bids m3), mk_free_list := i # mk_free_list m3\<rparr>"
      using bid_at(1,6)[OF ok3 b3]
      by (simp add: remove_order_from_tree_and_free_def release_address_on_market_fixed_def stack_add_def)
    then show ?thesis
      using remove_order_ok[OF ok3 r] bid_at(2)[OF ok3 b3] True c by (simp add: bid_frame_def market_config_def)
  next
    case False
    then have s: "shrink_bid m3 i bf = Inr m4" using m4 by simp
    have e: "m4 = set_bid m3 i (shrunk bid bf)" and le: "bf_fill bf \<le> ro_principal_atoms bid"
        "bf_collateral bf \<le> ro_collateral_atoms bid"
      using shrink_bid_Inr[OF s] bid_at(1)[OF ok3 b3] by (auto simp: shrunk_def)
    have "market_ok m4"
      unfolding e by (rule set_bid_ok[OF ok3, of i bid]) (simp_all add: b3 shrunk_def)
    moreover have "mk_bids m4 = pre @ (i, shrunk bid bf) # rest"
      using bid_at(3)[OF ok3 b3, of "\<lambda>_. shrunk bid bf"] by (simp add: e set_bid_def)
    ultimately show ?thesis using le False by (simp add: e set_bid_def bid_frame_def market_config_def)
  qed
  then show ?thesis using fr n A f(2) v st' bid_frame_trans same_seats_trans same_seats_cong by metis
qed

lemma bid_gates_Go:
  assumes "bid_gates m v args bid = Inr (Go bf)"
  shows "ro_trader_seat_index bid \<noteq> rb_ask_seat_index args \<and> rb_ask_rate_bps args \<le> ro_rate_bps bid \<and>
    ro_term_seconds bid \<le> rb_ask_term_seconds args \<and>
    (\<exists>bidder. get_helper_seat m (ro_trader_seat_index bid) = Inr bidder \<and> cs_owner bidder \<noteq> rb_ask_curator args) \<and>
    (\<exists>t. read_maker_terms v (rb_ask_sub_vault_id args) = Inr t \<and> 0 < mt_idle t \<and>
       bf_fill bf = min (ro_principal_atoms bid) (mt_idle t)) \<and>
    (if bf_fill bf = ro_principal_atoms bid then bf_collateral bf = ro_collateral_atoms bid
     else mul_div_u64 (ro_collateral_atoms bid) (bf_fill bf) (ro_principal_atoms bid) False = Inr (bf_collateral bf)) \<and>
    (\<exists>req. required_collateral_at_ltv_cap (bf_fill bf) (rb_debt_oracle_price_fp48 args) (rb_collateral_oracle_price_fp48 args)
       (effective_origination_cap_bps (rb_sub_vault_max_ltv_bps args) (ro_ltv_buffer_bps bid))
       (rb_debt_mint_decimals args) (rb_collateral_mint_decimals args) = Inr req \<and> req \<le> bf_collateral bf)"
  using assms unfolding bid_gates_def Let_def
  by (auto simp: not_less split: if_splits elim!: ebind_InrE)

lemma visit_bid_cases:
  assumes "visit_bid st args i bid = Inr (Some st')"
  obtains (prune) m1 where "ro_is_expired bid (rb_now_unix_ts args)" "prune_bid (bs_market st) i bid = Inr m1"
      "bs_market st' = m1" "bs_vault st' = bs_vault st"
      "rr_total_filled_principal (bs_result st') = rr_total_filled_principal (bs_result st)"
  | (skip) "st' = st"
  | (fill) bf where "\<not> ro_is_expired bid (rb_now_unix_ts args)" "bid_gates (bs_market st) (bs_vault st) args bid = Inr (Go bf)"
      "take_bid st args i bid bf = Inr st'"
  using assms unfolding visit_bid_def Let_def by (auto split: if_splits gate.splits elim!: ebind_InrE)

lemma visit_bid_keeps:
  assumes ok: "market_ok (bs_market st)" and b: "mk_bids (bs_market st) = pre @ (i, bid) # rest"
    and r: "visit_bid st args i bid = Inr (Some st')"
  shows "market_ok (bs_market st') \<and> (\<exists>pre'. mk_bids (bs_market st') = pre' @ rest)"
  using r
proof (cases rule: visit_bid_cases)
  case (prune m1)
  then show ?thesis using prune_bid_step[OF ok b] by blast
next
  case skip
  then show ?thesis using ok b by (metis append.assoc append_Cons append_Nil)
next
  case (fill bf)
  have "bf_fill bf = ro_principal_atoms bid \<longrightarrow> bf_collateral bf = ro_collateral_atoms bid"
    using bid_gates_Go[OF fill(2)] by simp
  from take_bid_step[OF ok b fill(3) this] show ?thesis by (metis append.assoc)
qed

section \<open>The loop is the walk\<close>

lemma bids_loop_walk:
  assumes "market_ok (bs_market st)" "mk_bids (bs_market st) = pre @ bs" "length bs < fuel"
  shows "bids_loop fuel st args (tree_max bs) = bids_walk st args bs"
  using assms
proof (induction bs arbitrary: pre st fuel)
  case Nil
  then show ?case by (cases fuel) (auto simp: tree_max_def)
next
  case (Cons p rest)
  obtain i bid where p: "p = (i, bid)" by force
  obtain f where f: "fuel = Suc f" using Cons.prems(3) by (cases fuel) auto
  have b: "mk_bids (bs_market st) = pre @ (i, bid) # rest" using Cons.prems(2) p by simp
  note at = bid_at[OF Cons.prems(1) b]
  have "bids_loop f st' args (tree_max rest) = bids_walk st' args rest"
    if v: "visit_bid st args i bid = Inr (Some st')" for st'
  proof -
    obtain pre' where "market_ok (bs_market st')" "mk_bids (bs_market st') = pre' @ rest"
      using visit_bid_keeps[OF Cons.prems(1) b v] by blast
    then show ?thesis using Cons.IH Cons.prems(3) f by simp
  qed
  then show ?case
    by (cases "visit_bid st args i bid") (auto simp: f p tree_max_def at split: option.splits)
qed

section \<open>What the walk leaves\<close>

definition bids_sane :: "market \<Rightarrow> bool" where
  "bids_sane m = (\<forall>o1 \<in> set (tree_values (mk_bids m)). 0 < ro_principal_atoms o1 \<and> ro_collateral_atoms o1 < u64_lim)"

definition same_owners :: "market \<Rightarrow> market \<Rightarrow> bool" where
  "same_owners m m' =
     (\<forall>i. map_option seat_key (tree_get (mk_claimed_seats m') i) = map_option seat_key (tree_get (mk_claimed_seats m) i))"

lemma same_owners_refl [simp]: "same_owners m m"
  by (simp add: same_owners_def)

lemma same_owners_trans: "same_owners m m1 \<Longrightarrow> same_owners m1 m2 \<Longrightarrow> same_owners m m2"
  by (simp add: same_owners_def)

lemma same_owners_set_seat:
  "get_helper_seat m i = Inr s \<Longrightarrow> seat_key s' = seat_key s \<Longrightarrow> same_owners m (set_seat m i s')"
  by (simp add: same_owners_def set_seat_def tree_get_update get_helper_seat_Inr)

lemma same_seats_owners:
  assumes "same_seats m m'"
  shows "same_owners m m'"
  unfolding same_owners_def
proof
  fix i
  show "map_option seat_key (tree_get (mk_claimed_seats m') i) = map_option seat_key (tree_get (mk_claimed_seats m) i)"
    using spec[OF assms[unfolded same_seats_def], of i] by (auto simp: seat_core_def split: option.splits)
qed

lemma same_owners_get:
  "same_owners m m' \<Longrightarrow> get_helper_seat m' i = Inr s' \<Longrightarrow> \<exists>s. get_helper_seat m i = Inr s \<and> seat_key s = seat_key s'"
  unfolding same_owners_def get_helper_seat_Inr
  by (drule spec[of _ i]) (cases "tree_get (mk_claimed_seats m) i"; simp)

text \<open>A loan minted for a resting bid: between the bid's seat and the asking sub-vault, at the ask's rate, within
  the bid's size and collateral, and collateralised to the sub-vault's cap at the prices of the run.\<close>

definition loan_of_bid :: "market \<Rightarrow> match_resting_bids_args \<Rightarrow> resting_order \<Rightarrow> matched_loan \<Rightarrow> bool" where
  "loan_of_bid m args bid n =
     (\<not> ro_is_expired bid (rb_now_unix_ts args) \<and> ro_trader_seat_index bid \<noteq> rb_ask_seat_index args \<and>
      (\<exists>bidder. get_helper_seat m (ro_trader_seat_index bid) = Inr bidder \<and> cs_owner bidder \<noteq> rb_ask_curator args) \<and>
      rb_ask_rate_bps args \<le> ro_rate_bps bid \<and> ro_term_seconds bid \<le> rb_ask_term_seconds args \<and>
      0 < ml_principal_atoms n \<and> ml_principal_atoms n \<le> ro_principal_atoms bid \<and>
      ml_collateral_atoms n \<le> ro_collateral_atoms bid \<and>
      (\<exists>bf. bid_loan args bid bf n) \<and>
      (\<exists>req. required_collateral_at_ltv_cap (ml_principal_atoms n) (rb_debt_oracle_price_fp48 args)
         (rb_collateral_oracle_price_fp48 args) (ml_origination_ltv_bps n)
         (rb_debt_mint_decimals args) (rb_collateral_mint_decimals args) = Inr req \<and> req \<le> ml_collateral_atoms n))"

definition taken_bids :: "market \<Rightarrow> global_vault \<Rightarrow> match_resting_bids_args \<Rightarrow> matched_loan list \<Rightarrow> bids_state \<Rightarrow> bool" where
  "taken_bids m v args new st =
     (market_ok (bs_market st) \<and> vault_ok (bs_vault st) \<and> bid_frame m (bs_market st) \<and> same_owners m (bs_market st) \<and>
      drawn_vault v (bs_vault st) \<and>
      mset (tree_values (mk_matched_loans (bs_market st))) = mset (tree_values (mk_matched_loans m)) + mset new \<and>
      rr_total_filled_principal (bs_result st) = sum_list (map ml_principal_atoms new) \<and>
      total_encumbered (bs_vault st) = total_encumbered v + sum_list (map ml_principal_atoms new) \<and>
      total_open_loans (bs_vault st) = total_open_loans v + length new \<and>
      (\<forall>n \<in> set new. \<exists>bid \<in> set (tree_values (mk_bids m)). loan_of_bid m args bid n))"

lemma prune_bid_owners:
  assumes "prune_bid m i bid = Inr m'"
  shows "same_owners m m'"
proof -
  obtain ps cs m1 where u: "unencumber_for_order m (ro_trader_seat_index bid) Bid ps cs = Inr m1"
    and r: "remove_order_from_tree_and_free m1 i = Inr m'"
    using assms unfolding prune_bid_def by (elim ebind_InrE)
  have "same_owners m m1" using unencumber_Inr_seat[OF u] same_owners_set_seat by blast
  moreover have "mk_claimed_seats m' = mk_claimed_seats m1"
    using r by (auto simp: remove_order_from_tree_and_free_def release_address_on_market_fixed_def Let_def elim!: ebind_InrE)
  ultimately show ?thesis by (simp add: same_owners_def)
qed

lemma taken_bids_visit:
  assumes w: "taken_bids m v args new st" and b: "mk_bids (bs_market st) = pre @ (i, bid) # rest"
    and mem: "bid \<in> set (tree_values (mk_bids m))" and pos: "0 < ro_principal_atoms bid"
    and r: "visit_bid st args i bid = Inr (Some st')"
  shows "\<exists>new'. taken_bids m v args new' st'"
  using r
proof (cases rule: visit_bid_cases)
  case (prune m1)
  have ok: "market_ok (bs_market st)" using w by (simp add: taken_bids_def)
  have "taken_bids m v args new st'"
    using w prune prune_bid_step[OF ok b prune(2)] bid_frame_trans same_owners_trans[OF _ prune_bid_owners[OF prune(2)]]
    unfolding taken_bids_def by auto
  then show ?thesis by blast
next
  case skip
  then show ?thesis using w by blast
next
  case (fill bf)
  have ok: "market_ok (bs_market st)" and vok: "vault_ok (bs_vault st)" and so: "same_owners m (bs_market st)"
    using w by (simp_all add: taken_bids_def)
  note g = bid_gates_Go[OF fill(2)]
  obtain t where t: "read_maker_terms (bs_vault st) (rb_ask_sub_vault_id args) = Inr t" "0 < mt_idle t"
      "bf_fill bf = min (ro_principal_atoms bid) (mt_idle t)" using g by blast
  have c: "bf_fill bf = ro_principal_atoms bid \<longrightarrow> bf_collateral bf = ro_collateral_atoms bid" using g by simp
  note s = take_bid_step[OF ok b fill(3) c]
  obtain n where n: "bid_loan args bid bf n"
      "mset (tree_values (mk_matched_loans (bs_market st'))) = add_mset n (mset (tree_values (mk_matched_loans (bs_market st))))"
    using s by blast
  have rv: "reserve_on_sub_vault (bs_vault st) (rb_ask_sub_vault_id args) (bf_fill bf) = Inr (bs_vault st')" using s by blast
  note d = reserve_draws[OF vok t(1) _ _ rv]
  have p: "0 < bf_fill bf" "bf_fill bf \<le> mt_idle t" using t pos by simp_all
  obtain bidder' where bd: "get_helper_seat (bs_market st) (ro_trader_seat_index bid) = Inr bidder'"
      "cs_owner bidder' \<noteq> rb_ask_curator args" using g by blast
  then obtain bidder where "get_helper_seat m (ro_trader_seat_index bid) = Inr bidder" "seat_key bidder = seat_key bidder'"
    using same_owners_get[OF so] by blast
  then have bd': "\<exists>bidder. get_helper_seat m (ro_trader_seat_index bid) = Inr bidder \<and> cs_owner bidder \<noteq> rb_ask_curator args"
    using bd by (auto simp: seat_key_def)
  have nf: "ml_principal_atoms n = bf_fill bf" "ml_collateral_atoms n = bf_collateral bf"
     "ml_origination_ltv_bps n = effective_origination_cap_bps (rb_sub_vault_max_ltv_bps args) (ro_ltv_buffer_bps bid)"
    using n(1) by (simp_all add: bid_loan_def)
  have "loan_of_bid m args bid n"
    unfolding loan_of_bid_def nf using g fill(1) bd' p s n(1) by blast
  then have "\<forall>n' \<in> set (n # new). \<exists>bid \<in> set (tree_values (mk_bids m)). loan_of_bid m args bid n'"
    using w mem by (auto simp: taken_bids_def)
  moreover have "drawn_vault v (bs_vault st')" using d[OF p] w drawn_vault_trans by (auto simp: taken_bids_def)
  moreover have "bid_frame m (bs_market st')" "same_owners m (bs_market st')"
    using s w bid_frame_trans same_owners_trans same_seats_owners by (metis taken_bids_def)+
  ultimately have "taken_bids m v args (n # new) st'"
    using w s d[OF p] n(2) nf unfolding taken_bids_def by simp
  then show ?thesis by blast
qed

lemma taken_bids_walk:
  assumes "taken_bids m v args new st" "mk_bids (bs_market st) = pre @ bs"
    "\<forall>p \<in> set bs. snd p \<in> set (tree_values (mk_bids m)) \<and> 0 < ro_principal_atoms (snd p)"
    "bids_walk st args bs = Inr st'"
  shows "\<exists>new'. taken_bids m v args new' st'"
  using assms
proof (induction bs arbitrary: pre st new)
  case (Cons p rest)
  obtain i bid where p: "p = (i, bid)" by force
  show ?case
  proof (cases "rr_num_fills (bs_result st) < rb_max_fills args")
    case True
    then obtain r where v: "visit_bid st args i bid = Inr r"
      and k: "(case r of None \<Rightarrow> Inr st | Some st1 \<Rightarrow> bids_walk st1 args rest) = Inr st'"
      using Cons.prems(4) p by (auto elim!: ebind_InrE)
    show ?thesis
    proof (cases r)
      case None
      then show ?thesis using k Cons.prems(1) by auto
    next
      case (Some st1)
      have ok: "market_ok (bs_market st)" using Cons.prems(1) by (simp add: taken_bids_def)
      have b: "mk_bids (bs_market st) = pre @ (i, bid) # rest" using Cons.prems(2) p by simp
      obtain pre' where pre': "mk_bids (bs_market st1) = pre' @ rest"
        using visit_bid_keeps[OF ok b] v Some by blast
      obtain new1 where "taken_bids m v args new1 st1"
        using taken_bids_visit[OF Cons.prems(1) b] v Some Cons.prems(3) p by auto
      then show ?thesis using Cons.IH[OF _ pre'] Cons.prems(3) k Some by auto
    qed
  qed (use Cons.prems p in auto)
qed auto


lemma match_resting_bids_walk:
  assumes "market_ok m"
  shows "match_resting_bids m args v =
    ebind (bids_walk \<lparr> bs_market = m, bs_vault = v,
        bs_result = \<lparr> rr_total_filled_principal = 0, rr_num_fills = 0, rr_num_pruned = 0 \<rparr> \<rparr> args (mk_bids m)) (\<lambda>st.
      Inr (bs_market st, bs_vault st, bs_result st))"
  unfolding match_resting_bids_def
  by (subst bids_loop_walk[where pre = "[]"]) (use assms in simp_all)

lemma match_resting_bids_taken:
  assumes ok: "market_ok m" and vok: "vault_ok v" and sane: "bids_sane m"
    and r: "match_resting_bids m args v = Inr (m', v', r)"
  shows "\<exists>new st. taken_bids m v args new st \<and> m' = bs_market st \<and> v' = bs_vault st \<and> r = bs_result st"
proof -
  let ?st = "\<lparr> bs_market = m, bs_vault = v,
        bs_result = \<lparr> rr_total_filled_principal = 0, rr_num_fills = 0, rr_num_pruned = 0 \<rparr> \<rparr>"
  obtain st where st: "bids_walk ?st args (mk_bids m) = Inr st" and e: "m' = bs_market st" "v' = bs_vault st" "r = bs_result st"
    using r unfolding match_resting_bids_walk[OF ok] by (elim ebind_InrE) auto
  have "taken_bids m v args [] ?st" using ok vok by (simp add: taken_bids_def bid_frame_def)
  moreover have "\<forall>p \<in> set (mk_bids m). snd p \<in> set (tree_values (mk_bids m)) \<and> 0 < ro_principal_atoms (snd p)"
    using sane by (auto simp: bids_sane_def tree_values_def)
  ultimately show ?thesis using taken_bids_walk[of m v args "[]" ?st "[]" "mk_bids m" st] st e by auto
qed

section \<open>A concrete run\<close>

text \<open>Sub-vault 2 asks 5\<open>%\<close> against an expired bid at 9\<open>%\<close> and a live bid at 8\<open>%\<close>.\<close>

definition two_bids :: market where
  "two_bids = two_asks\<lparr> mk_order_sequence_number := 4,
     mk_bids :=
       [(800, (ro_new_primary 0 2 Bid Limit 900 86400 2000 4000 0 0 0 SCALE)\<lparr>ro_last_valid_unix_ts := 5\<rparr>),
        (960, ro_new_primary 0 3 Bid Limit 800 86400 3000 6000 0 0 100 SCALE)],
     mk_claimed_seats :=
       [(320, cs_new_empty 9 1 2), (160, cs_new_empty 9 1 1),
        (0, (cs_new_empty 7 0 0)\<lparr>cs_collateral_encumbered_shares := 10000 * SCALE\<rparr>)],
     mk_num_bytes_allocated := 1440, mk_free_list := [1120, 1280] \<rparr>"

definition ask_5000 :: match_resting_bids_args where
  "ask_5000 = \<lparr> rb_market_pubkey = 3, rb_ask_seat_index = 320, rb_ask_sub_vault_id = 2, rb_ask_rate_bps = 500,
     rb_ask_term_seconds = 31536000, rb_ask_curator_fee_bps = 0, rb_sub_vault_max_ltv_bps = 7500,
     rb_sub_vault_liquidation_ltv_bps = 8000, rb_ask_curator = 5, rb_fee_floor_bps = 50, rb_origination_bps = 0,
     rb_now_unix_ts = 1000, rb_lender_debt_share_price_snapshot_fp48 = SCALE, rb_debt_oracle_price_fp48 = SCALE,
     rb_collateral_oracle_price_fp48 = SCALE, rb_debt_mint_decimals = 6, rb_collateral_mint_decimals = 6,
     rb_max_fills = 8 \<rparr>"

lemma two_bids_ok: "market_ok two_bids"
  by (simp add: two_bids_def market_ok_def example_defs market_blocks_def descending_def u32_lim_def ask_cmp_def
      bid_cmp_def cmp_nat_def claimed_seat_cmp_def seat_key_def)

lemma two_bids_sane: "bids_sane two_bids"
  by (simp add: two_bids_def bids_sane_def example_defs tree_values_def u64_lim_def)

lemma two_bids_run:
  "\<exists>m' v' r. match_resting_bids two_bids ask_5000 two_vaults = Inr (m', v', r) \<and>
     rr_total_filled_principal r = 3000 \<and> rr_num_pruned r = 1 \<and> rr_num_fills r = 1 \<and> mk_bids m' = [] \<and>
     map (\<lambda>n. (ml_sequence n, ml_principal_atoms n, ml_collateral_atoms n, ml_lender_rate_bps n))
       (tree_values (mk_matched_loans m')) = [(4, 3000, 6000, 500)] \<and>
     map (\<lambda>s. (sv_sub_vault_id s, sv_encumbered_in_orders_atoms s)) (tree_values (gv_sub_vaults v')) = [(2, 3000), (1, 0)]"
  unfolding match_resting_bids_walk[OF two_bids_ok]
  by (simp add: match_eval example_defs tree_values_def two_bids_def ask_5000_def visit_bid_def prune_bid_def
      bid_gates_def take_bid_def mint_bid_fill_def atoms_to_shares_at_snapshot_def unencumber_for_order_def
      update_balance_def remove_order_from_tree_and_free_def get_helper_order_def tree_remove_def
      release_address_on_market_fixed_def stack_add_def cong: ebind_weak_cong)

section \<open>Properties\<close>

text \<open>C16. Taking resting bids keeps the books: on a well-formed market and vault, with no empty bid on the book,
  the principal reported as filled is the principal of the minted loans, the encumbrance over all
  sub-vaults grows by exactly that and their loan count by the number of minted loans, the asks,
  the configuration and the seats' identities stay, and market and vault stay well formed.\<close>

theorem match_resting_bids_keeps_books:
  assumes "market_ok m" "vault_ok v" "bids_sane m" "match_resting_bids m args v = Inr (m', v', r)"
  shows "\<exists>new. market_ok m' \<and> vault_ok v' \<and> drawn_vault v v' \<and> mk_asks m' = mk_asks m \<and>
    market_config m' = market_config m \<and> same_owners m m' \<and>
    mset (tree_values (mk_matched_loans m')) = mset (tree_values (mk_matched_loans m)) + mset new \<and>
    sum_list (map ml_principal_atoms new) = rr_total_filled_principal r \<and>
    total_encumbered v' = total_encumbered v + rr_total_filled_principal r \<and>
    total_open_loans v' = total_open_loans v + length new"
proof -
  obtain new st where "taken_bids m v args new st" "m' = bs_market st" "v' = bs_vault st" "r = bs_result st"
    using match_resting_bids_taken[OF assms] by blast
  then show ?thesis by (intro exI[of _ new]) (simp add: taken_bids_def bid_frame_def)
qed

theorem match_resting_bids_keeps_books_witness:
  "\<exists>m' v' r. match_resting_bids two_bids ask_5000 two_vaults = Inr (m', v', r) \<and>
     total_encumbered v' = total_encumbered two_vaults + 3000 \<and> market_ok m' \<and> vault_ok v'"
proof -
  obtain m' v' r where run: "match_resting_bids two_bids ask_5000 two_vaults = Inr (m', v', r)"
    "rr_total_filled_principal r = 3000"
    using two_bids_run by (elim exE conjE) (rule that)
  then show ?thesis
    using match_resting_bids_keeps_books[OF two_bids_ok two_vaults_ok two_bids_sane run(1)] by auto
qed

text \<open>C17. Every loan minted for a resting bid passed the take path's gates at a bid of the book: the bid had not
  expired, it is not the sub-vault's own and its owner is not the sub-vault's curator, it pays at
  least the ask's rate for a term the ask allows, the loan lies within the bid's principal and
  collateral, the lender earns the ask's rate while the borrower pays the bid's or the ask's plus
  the protocol floor, and the collateral covers the loan at the sub-vault's cap less the bid's buffer.\<close>

theorem match_resting_bids_loans_pass_gates:
  assumes "market_ok m" "vault_ok v" "bids_sane m" "match_resting_bids m args v = Inr (m', v', r)"
    and "n \<in> set (tree_values (mk_matched_loans m'))" "n \<notin> set (tree_values (mk_matched_loans m))"
  shows "\<exists>bid \<in> set (tree_values (mk_bids m)). loan_of_bid m args bid n"
proof -
  obtain new st where w: "taken_bids m v args new st" "m' = bs_market st"
    using match_resting_bids_taken[OF assms(1-4)] by blast
  then have "mset (tree_values (mk_matched_loans m')) = mset (tree_values (mk_matched_loans m)) + mset new"
    by (simp add: taken_bids_def)
  then have "n \<in> set new" using assms(5,6) by (metis mset_append mset_eq_setD set_append Un_iff)
  then show ?thesis using w by (auto simp: taken_bids_def)
qed

theorem match_resting_bids_loans_pass_gates_witness:
  "\<exists>m' v' r n bid. match_resting_bids two_bids ask_5000 two_vaults = Inr (m', v', r) \<and>
     n \<in> set (tree_values (mk_matched_loans m')) \<and> bid \<in> set (tree_values (mk_bids two_bids)) \<and>
     loan_of_bid two_bids ask_5000 bid n \<and> ml_principal_atoms n = 3000"
proof -
  obtain m' v' r where run: "match_resting_bids two_bids ask_5000 two_vaults = Inr (m', v', r)"
    and l: "map (\<lambda>n. (ml_sequence n, ml_principal_atoms n, ml_collateral_atoms n, ml_lender_rate_bps n))
       (tree_values (mk_matched_loans m')) = [(4, 3000, 6000, 500)]"
    using two_bids_run by (elim exE conjE) (rule that)
  obtain n where n: "n \<in> set (tree_values (mk_matched_loans m'))" "ml_principal_atoms n = 3000"
    using l by (auto simp: map_eq_Cons_conv)
  have "tree_values (mk_matched_loans two_bids) = []" by (simp add: two_bids_def example_defs tree_values_def)
  then show ?thesis
    using match_resting_bids_loans_pass_gates[OF two_bids_ok two_vaults_ok two_bids_sane run n(1)] run n by auto
qed

text \<open>C18. The take path's loop ends: over a well-formed market, following the index chain from the best bid with any
  fuel beyond the number of bids gives what the structural walk over the bids gives, although the
  loop frees and shrinks the nodes it stands on.\<close>

theorem bids_loop_terminates:
  assumes "market_ok (bs_market st)" "length (mk_bids (bs_market st)) < fuel"
  shows "bids_loop fuel st args (tree_max (mk_bids (bs_market st))) = bids_walk st args (mk_bids (bs_market st))"
  using bids_loop_walk[of st "[]" "mk_bids (bs_market st)" fuel args] assms by simp

theorem bids_loop_terminates_witness:
  "\<exists>st'. bids_loop 3 \<lparr> bs_market = two_bids, bs_vault = two_vaults,
      bs_result = \<lparr> rr_total_filled_principal = 0, rr_num_fills = 0, rr_num_pruned = 0 \<rparr> \<rparr> ask_5000 800 = Inr st' \<and>
    mk_bids (bs_market st') = []"
proof -
  let ?st = "\<lparr> bs_market = two_bids, bs_vault = two_vaults,
      bs_result = \<lparr> rr_total_filled_principal = 0, rr_num_fills = 0, rr_num_pruned = 0 \<rparr> \<rparr>"
  have "bids_loop 3 ?st ask_5000 (tree_max (mk_bids (bs_market ?st))) = bids_walk ?st ask_5000 (mk_bids (bs_market ?st))"
    by (rule bids_loop_terminates) (simp_all add: two_bids_ok, simp add: two_bids_def)
  moreover have "tree_max (mk_bids two_bids) = 800" by (simp add: two_bids_def tree_max_def)
  moreover obtain m' v' r where "match_resting_bids two_bids ask_5000 two_vaults = Inr (m', v', r)" "mk_bids m' = []"
    using two_bids_run by (elim exE conjE) (rule that)
  ultimately show ?thesis
    unfolding match_resting_bids_walk[OF two_bids_ok] by (auto elim!: ebind_InrE)
qed

end
