(* ===== verification/Backing.thy ===== *)
theory Backing
  imports Bid_Walk Refinance
begin

text \<open>Collateral backing of a market. A bid locks collateral shares on its seat when it is placed, and
  the lock moves with the collateral: to the loans the bid is matched into, to the bid that rests,
  back to the seat when the rest is dropped or the bid is cancelled or pruned. This theory states
  the invariant that every seat holds at least the shares its resting bids, its queued loans and
  its promoted loans are entitled to, and proves that every market operation keeps it.\<close>

section \<open>Shares of an amount at a snapshot\<close>

definition locked_shares :: "nat \<Rightarrow> fp48 \<Rightarrow> nat" where
  "locked_shares atoms snapshot = atoms * SCALE * SCALE div snapshot"

lemma atoms_to_shares_locked:
  assumes "a < u64_lim" "atoms_to_shares_at_snapshot a s = Inr sh"
  shows "sh = locked_shares a s \<and> 0 < s"
proof -
  have s: "0 < s" using assms(2) by (auto simp: atoms_to_shares_at_snapshot_def fp48_is_zero_def split: if_splits)
  have "a * SCALE < u128_lim" using assms(1) by (simp add: SCALE_def u64_lim_def u128_lim_def)
  then show ?thesis
    using assms s
    by (auto simp: atoms_to_shares_at_snapshot_def fp48_is_zero_def from_atoms_eq fp48_checked_div_def div_scale_eq
        locked_shares_def split: if_splits)
qed

lemma locked_shares_0 [simp]: "locked_shares 0 s = 0"
  by (simp add: locked_shares_def)

lemma locked_shares_add: "locked_shares a s + locked_shares b s \<le> locked_shares (a + b) s"
  unfolding locked_shares_def using div_add_le by (simp add: add_mult_distrib)

lemma locked_shares_mono: "a \<le> b \<Longrightarrow> locked_shares a s \<le> locked_shares b s"
  unfolding locked_shares_def by (intro div_le_mono mult_le_mono) simp_all

lemma locked_shares_sum: "sum_list (map (\<lambda>x. locked_shares (f x) s) xs) \<le> locked_shares (sum_list (map f xs)) s"
proof (induction xs)
  case (Cons x xs)
  then show ?case using locked_shares_add[of "f x" s "sum_list (map f xs)"] by simp
qed simp

section \<open>Pledges\<close>

definition bid_pledge :: "data_index \<Rightarrow> resting_order \<Rightarrow> nat" where
  "bid_pledge i o1 =
     (if ro_trader_seat_index o1 = i then locked_shares (ro_collateral_atoms o1) (ro_share_price_snapshot o1) else 0)"

definition loan_pledge :: "data_index \<Rightarrow> matched_loan \<Rightarrow> nat" where
  "loan_pledge i n =
     (if ml_borrower_seat_index n = i
      then locked_shares (ml_collateral_atoms n) (ml_borrower_collateral_share_price_snapshot_fp48 n) else 0)"

definition bids_pledged :: "market \<Rightarrow> data_index \<Rightarrow> nat" where
  "bids_pledged m i = sum_mset (image_mset (bid_pledge i) (mset (tree_values (mk_bids m))))"

definition loans_pledged :: "market \<Rightarrow> data_index \<Rightarrow> nat" where
  "loans_pledged m i = sum_mset (image_mset (loan_pledge i) (mset (tree_values (mk_matched_loans m))))"

definition encumbered_of :: "market \<Rightarrow> data_index \<Rightarrow> nat" where
  "encumbered_of m i = (case tree_get (mk_claimed_seats m) i of Some s \<Rightarrow> cs_collateral_encumbered_shares s | None \<Rightarrow> 0)"

text \<open>The argument \<open>ext\<close> gives, per seat, the shares owed to loans that left the market for their own
  accounts.\<close>

definition backed :: "(data_index \<Rightarrow> nat) \<Rightarrow> market \<Rightarrow> bool" where
  "backed ext m =
     (bids_sane m \<and>
      (\<forall>i. bids_pledged m i + loans_pledged m i + ext i \<le> encumbered_of m i))"

lemma encumbered_of_get: "get_helper_seat m i = Inr s \<Longrightarrow> encumbered_of m i = cs_collateral_encumbered_shares s"
  by (simp add: encumbered_of_def get_helper_seat_Inr)

lemma encumbered_of_set_seat:
  "get_helper_seat m i = Inr s \<Longrightarrow> encumbered_of (set_seat m i s') j =
    (if j = i then cs_collateral_encumbered_shares s' else encumbered_of m j)"
  by (simp add: encumbered_of_def set_seat_def tree_get_update get_helper_seat_Inr)

lemma pledged_set_seat [simp]:
  "bids_pledged (set_seat m i s) = bids_pledged m" "loans_pledged (set_seat m i s) = loans_pledged m"
  by (simp_all add: bids_pledged_def loans_pledged_def fun_eq_iff)

lemma same_seats_encumbered: "same_seats m m' \<Longrightarrow> encumbered_of m' i = encumbered_of m i"
  unfolding same_seats_def by (drule spec[of _ i]) (auto simp: encumbered_of_def seat_core_def split: option.splits)

lemma backed_cong:
  assumes "backed ext m" "mset (tree_values (mk_bids m')) = mset (tree_values (mk_bids m))"
    "mset (tree_values (mk_matched_loans m')) = mset (tree_values (mk_matched_loans m))" "\<And>i. encumbered_of m' i = encumbered_of m i"
  shows "backed ext m'"
proof -
  have "set (tree_values (mk_bids m')) = set (tree_values (mk_bids m))" using assms(2) by (rule mset_eq_setD)
  then have "bids_sane m'" using assms(1) by (simp add: backed_def bids_sane_def)
  then show ?thesis using assms by (simp add: backed_def bids_pledged_def loans_pledged_def)
qed

text \<open>The new loans of a walk take over what was set aside for them.\<close>

lemma backed_minted:
  assumes b: "backed ext m" and f: "book_frame m m'"
    and l: "mset (tree_values (mk_matched_loans m')) = mset (tree_values (mk_matched_loans m)) + mset new"
    and ext: "\<And>i. ext' i + sum_list (map (loan_pledge i) new) \<le> ext i"
  shows "backed ext' m'"
proof -
  have "bids_pledged m' i = bids_pledged m i" for i using f by (simp add: bids_pledged_def book_frame_def)
  moreover have "loans_pledged m' i = loans_pledged m i + sum_list (map (loan_pledge i) new)" for i
    using sum_mset_sum_list[of "map (loan_pledge i) new"] by (simp add: loans_pledged_def l)
  moreover have "encumbered_of m' i = encumbered_of m i" for i
    using f same_seats_encumbered by (simp add: book_frame_def)
  moreover have "bids_pledged m i + loans_pledged m i + ext i \<le> encumbered_of m i" for i using b by (simp add: backed_def)
  ultimately have "bids_pledged m' i + loans_pledged m' i + ext' i \<le> encumbered_of m' i" for i
    using ext[of i] le_trans[of _ "bids_pledged m i + loans_pledged m i + ext i" "encumbered_of m i"] by simp
  then show ?thesis using b f by (simp add: backed_def bids_sane_def book_frame_def)
qed

definition owed :: "data_index \<Rightarrow> nat \<Rightarrow> data_index \<Rightarrow> nat" where
  "owed seat sh i = (if i = seat then sh else 0)"

lemma backed_mono: "backed ext m \<Longrightarrow> (\<And>i. ext' i \<le> ext i) \<Longrightarrow> backed ext' m"
  unfolding backed_def by (meson add_le_mono le_refl le_trans)

lemma backed_encumber:
  assumes b: "backed ext m" and e: "encumber_for_order m i Bid ps cs = Inr m'"
  shows "backed (\<lambda>j. ext j + owed i cs j) m'"
proof -
  obtain s where s: "get_helper_seat m i = Inr s"
    and m': "m' = set_seat m i (s\<lparr>cs_collateral_withdrawable_shares := cs_collateral_withdrawable_shares s - cs,
      cs_collateral_encumbered_shares := cs_collateral_encumbered_shares s + cs\<rparr>)"
    using encumber_bid_Inr[OF e] by blast
  have "encumbered_of m' j = encumbered_of m j + owed i cs j" for j
    using encumbered_of_get[OF s] by (simp add: m' encumbered_of_set_seat[OF s] owed_def)
  then show ?thesis using b by (simp add: backed_def bids_sane_def m' add.assoc[symmetric])
qed

lemma backed_unencumber:
  assumes b: "backed (\<lambda>j. ext j + owed i cs j) m" and e: "unencumber_for_order m i Bid ps cs = Inr m'"
  shows "backed ext m'"
proof -
  obtain s where s: "get_helper_seat m i = Inr s"
    and m': "m' = set_seat m i (s\<lparr>cs_collateral_encumbered_shares := cs_collateral_encumbered_shares s - cs,
      cs_collateral_withdrawable_shares := cs_collateral_withdrawable_shares s + cs\<rparr>)"
    using unencumber_bid_Inr[OF e] by blast
  have le: "bids_pledged m j + loans_pledged m j + (ext j + owed i cs j) \<le> encumbered_of m j" for j
    using b by (simp add: backed_def)
  have "bids_pledged m j + loans_pledged m j + ext j \<le> encumbered_of m' j" for j
    using le[of j] encumbered_of_get[OF s] by (simp add: m' encumbered_of_set_seat[OF s] owed_def split: if_splits)
  then show ?thesis using b by (simp add: backed_def bids_sane_def m')
qed

section \<open>Placing a bid\<close>

lemma owed_sum:
  assumes "list_all (\<lambda>n. ml_borrower_seat_index n = seat \<and> ml_borrower_collateral_share_price_snapshot_fp48 n = s) new"
  shows "sum_list (map (loan_pledge i) new) \<le> owed seat (locked_shares (sum_list (map ml_collateral_atoms new)) s) i"
proof -
  have "sum_list (map (loan_pledge i) new) =
      (if i = seat then sum_list (map (\<lambda>n. locked_shares (ml_collateral_atoms n) s) new) else 0)"
    using assms by (induction new) (auto simp: loan_pledge_def)
  then show ?thesis using locked_shares_sum[of ml_collateral_atoms s new] by (simp add: owed_def)
qed

text \<open>A matching run turns the bid's lock into the locks of its loans and the lock of the residual.\<close>

lemma backed_match_order:
  assumes ok: "market_ok m" and v: "\<And>v. vault = Some v \<Longrightarrow> vault_ok v"
    and b: "backed (\<lambda>j. ext j + owed (ma_taker_seat_index args)
      (locked_shares (ma_collateral_atoms args) (ma_taker_share_price_snapshot_fp48 args)) j) m"
    and r: "match_order m args vault = Inr (m', vault', r)"
  shows "market_ok m' \<and> (\<forall>v'. vault' = Some v' \<longrightarrow> vault_ok v') \<and> book_frame m m' \<and>
    mr_remaining_collateral r \<le> ma_collateral_atoms args \<and>
    (mr_remaining_principal r = 0 \<longrightarrow> 0 < ma_principal_atoms args \<longrightarrow> mr_remaining_collateral r = 0) \<and>
    backed (\<lambda>j. ext j + owed (ma_taker_seat_index args)
      (locked_shares (mr_remaining_collateral r) (ma_taker_share_price_snapshot_fp48 args)) j) m'"
proof (cases vault)
  case None
  then show ?thesis using match_order_no_vault[OF ok, of args m' vault' r] r ok b by simp
next
  case (Some v0)
  let ?s = "ma_taker_share_price_snapshot_fp48 args" and ?i = "ma_taker_seat_index args"
  obtain st taken where rel: "walk_rel m v0 args taken st" and e: "m' = ws_market st" "vault' = ws_vault st"
    "mr_remaining_principal r = ws_remaining_principal st" "mr_remaining_collateral r = ws_remaining_collateral st"
    using match_order_summary[OF ok v[OF Some], of args m' vault' r] r Some by blast
  then obtain new where bk: "walk_books m v0 args taken new st"
    and fr: "market_ok m'" "book_frame m m'" "\<forall>v'. vault' = Some v' \<longrightarrow> vault_ok v'"
    unfolding walk_rel_def walk_vault_def by auto
  have all: "list_all (\<lambda>n. ml_borrower_seat_index n = ?i \<and> ml_borrower_collateral_share_price_snapshot_fp48 n = ?s) new"
    using bk by (auto simp: walk_books_def list_all_iff list_all2_conv_all_nth minted_from_def in_set_conv_nth)
  have c: "sum_list (map ml_collateral_atoms new) + mr_remaining_collateral r = ma_collateral_atoms args"
    using bk e by (simp add: walk_books_def)
  have "backed (\<lambda>j. ext j + owed ?i (locked_shares (mr_remaining_collateral r) ?s) j) m'"
  proof (rule backed_minted[OF b fr(2)])
    show "mset (tree_values (mk_matched_loans m')) = mset (tree_values (mk_matched_loans m)) + mset new"
      using bk e by (simp add: walk_books_def)
    show "ext j + owed ?i (locked_shares (mr_remaining_collateral r) ?s) j + sum_list (map (loan_pledge j) new)
        \<le> ext j + owed ?i (locked_shares (ma_collateral_atoms args) ?s) j" for j
      using owed_sum[OF all, of j] locked_shares_add[of "sum_list (map ml_collateral_atoms new)" ?s "mr_remaining_collateral r"] c
      by (simp add: owed_def split: if_splits)
  qed
  then show ?thesis using fr c bk e by (auto simp: walk_books_def)
qed

text \<open>The residual: a queued variable-rate loan, a resting bid, or a release.\<close>

lemma backed_open_p2pool:
  assumes ok: "market_ok m" and s: "po_share_price_snapshot_fp48 args = s"
    and b: "backed (\<lambda>j. ext j + owed (po_taker_seat_index args) (locked_shares (mr_remaining_collateral mr) s) j) m"
    and o1: "open_p2pool_residual m args mr = Inr (m', i, sq)"
  shows "market_ok m' \<and> backed ext m'"
proof -
  obtain m1 n where m1: "bump_open_borrow m (po_taker_seat_index args) = Inr m1"
    and al: "alloc_matched_loan m1 n = Inr m'"
    and n: "ml_sequence n = mk_matched_loan_sequence m1" "ml_borrower_seat_index n = po_taker_seat_index args"
      "ml_collateral_atoms n = mr_remaining_collateral mr" "ml_borrower_collateral_share_price_snapshot_fp48 n = s"
    using o1 s unfolding open_p2pool_residual_def Let_def by (elim ebind_InrE) (auto split: prod.splits)
  have ok1: "market_ok m1" using bump_ok(1)[OF ok m1] .
  note f = bump_frame(1)[OF m1]
  have "market_ok m'" and l: "mset (tree_values (mk_matched_loans m')) = mset (tree_values (mk_matched_loans m)) + mset [n]"
    using alloc_matched_loan_ok[OF ok1 al n(1)] f by simp_all
  moreover have "backed ext m'"
    by (rule backed_minted[OF b book_frame_trans[OF conjunct1[OF f] alloc_frame[OF al]] l])
      (simp add: loan_pledge_def owed_def n)
  ultimately show ?thesis by blast
qed

lemma backed_rest_bid:
  assumes b: "backed (\<lambda>j. ext j + owed (ro_trader_seat_index o1)
      (locked_shares (ro_collateral_atoms o1) (ro_share_price_snapshot o1)) j) m"
    and a: "get_free_address_on_market_fixed m = (i, m1)" "i \<noteq> NIL"
    and o1: "ro_side o1 = 0" "ro_collateral_atoms o1 < u64_lim" "0 < ro_principal_atoms o1"
  shows "backed ext (rest_order m1 i o1)"
proof -
  obtain fl where m1: "m1 = m\<lparr>mk_free_list := fl\<rparr>" using alloc_block[OF a] by metis
  have e: "rest_order m1 i o1 = m\<lparr>mk_free_list := fl, mk_bids := tree_insert resting_order_cmp i o1 (mk_bids m)\<rparr>"
    using o1(1) by (simp add: rest_order_def m1)
  have A: "bids_pledged (rest_order m1 i o1) j = bids_pledged m j + owed (ro_trader_seat_index o1)
      (locked_shares (ro_collateral_atoms o1) (ro_share_price_snapshot o1)) j" for j
    by (simp add: bids_pledged_def e tree_values_def bid_pledge_def owed_def)
  have B: "loans_pledged (rest_order m1 i o1) = loans_pledged m" "encumbered_of (rest_order m1 i o1) = encumbered_of m"
    by (simp_all add: loans_pledged_def encumbered_of_def e fun_eq_iff)
  have C: "bids_pledged m j + loans_pledged m j + (ext j + owed (ro_trader_seat_index o1)
      (locked_shares (ro_collateral_atoms o1) (ro_share_price_snapshot o1)) j) \<le> encumbered_of m j" for j
    using b by (simp add: backed_def)
  have "bids_pledged (rest_order m1 i o1) j + loans_pledged (rest_order m1 i o1) j + ext j
      \<le> encumbered_of (rest_order m1 i o1) j" for j
    unfolding B A using C[of j] by linarith
  then show ?thesis using b o1(2,3) by (auto simp: backed_def bids_sane_def tree_values_def e)
qed

lemma backed_settle_residual:
  assumes ok: "market_ok m" and s: "po_share_price_snapshot_fp48 args = s"
    and b: "backed (\<lambda>j. ext j + owed (po_taker_seat_index args) (locked_shares (mr_remaining_collateral mr) s) j) m"
    and c: "mr_remaining_collateral mr < u64_lim"
    and sq: "seq < mk_order_sequence_number m"
      "seq \<notin> (\<lambda>p. ro_sequence_number (snd p)) ` set (mk_bids m @ mk_asks m)"
    and r: "settle_residual m args seq mr = Inr (m', i, ls, rested)"
  shows "market_ok m' \<and> backed ext m'"
proof (cases "mr_remaining_principal mr = 0")
  case True
  then have "m' = m" using r by (simp add: settle_residual_def)
  then show ?thesis using ok backed_mono[OF b, of ext] by simp
next
  case False
  show ?thesis
  proof (cases "mr_residual_action mr")
    case P2PoolBorrow
    then have "\<exists>i ls. open_p2pool_residual m args mr = Inr (m', i, ls)"
      using r False by (auto simp: settle_residual_def elim!: ebind_InrE)
    then show ?thesis using backed_open_p2pool[OF ok s b] by blast
  next
    case Rest
    then have "rest_bid_residual m args seq mr = Inr m'" using r False by (auto simp: settle_residual_def elim!: ebind_InrE)
    then obtain k m1 where a: "get_free_address_on_market_fixed m = (k, m1)" "k \<noteq> NIL"
      and e: "m' = rest_order m1 k (ro_new_primary (po_taker_seat_index args) seq Bid Limit (po_rate_bps args)
            (po_term_seconds args) (mr_remaining_principal mr) (mr_remaining_collateral mr)
            (po_last_valid_unix_ts args) 0 (po_ltv_buffer_bps args) (po_share_price_snapshot_fp48 args))"
      by (auto simp: rest_bid_residual_def require_Inr Let_def split: prod.splits elim!: ebind_InrE)
    have "backed ext m'"
      unfolding e by (rule backed_rest_bid[OF _ a]) (use b c s False in \<open>simp_all add: ro_new_primary_def\<close>)
    moreover have "market_ok m'"
      unfolding e by (rule rest_fresh_order_ok[OF ok a]) (use sq in \<open>simp_all add: ro_new_primary_def\<close>)
    ultimately show ?thesis by blast
  next
    case Drop
    then obtain ps cs where sh: "atoms_to_shares_at_snapshot (mr_remaining_collateral mr) s = Inr cs"
      and u: "unencumber_for_order m (po_taker_seat_index args) Bid ps cs = Inr m'"
      using r False s by (auto simp: settle_residual_def drop_bid_residual_def elim!: ebind_InrE)
    have "cs = locked_shares (mr_remaining_collateral mr) s" using atoms_to_shares_locked[OF c sh] by simp
    then show ?thesis using backed_unencumber[OF _ u] unencumber_ok[OF ok u] b by simp
  qed
qed

lemma backed_match_borrower_bid:
  assumes ok: "market_ok m" and v: "\<And>v. vault = Some v \<Longrightarrow> vault_ok v" and b: "backed ext m"
    and c: "po_collateral_atoms args < u64_lim"
    and r: "match_borrower_bid m args vault = Inr (m', vault', r)"
  shows "market_ok m' \<and> (\<forall>v'. vault' = Some v' \<longrightarrow> vault_ok v') \<and> backed ext m'"
proof -
  let ?s = "po_share_price_snapshot_fp48 args" and ?i = "po_taker_seat_index args"
  obtain ps cs m1 m3 mr0 i ls rested where p: "MIN_PRINCIPAL_ATOMS \<le> po_principal_atoms args"
    and cs: "atoms_to_shares_at_snapshot (po_collateral_atoms args) ?s = Inr cs"
    and e: "encumber_for_order m ?i Bid ps cs = Inr m1"
    and mo: "match_order (m1\<lparr>mk_order_sequence_number := mk_order_sequence_number m1 + 1\<rparr>)
        (bid_match_args (m1\<lparr>mk_order_sequence_number := mk_order_sequence_number m1 + 1\<rparr>) args) vault = Inr (m3, vault', mr0)"
    and st0: "settle_residual m3 args (mk_order_sequence_number m1)
        (mr0\<lparr>mr_residual_action := residual_action_for (mr_remaining_principal mr0) (po_residual_mode args)\<rparr>)
        = Inr (m', i, ls, rested)"
    using r unfolding match_borrower_bid_def Let_def
    by (auto simp: require_Inr ok_or_Inr checked_add_Some split: prod.splits elim!: ebind_InrE)
  define mr where "mr = mr0\<lparr>mr_residual_action := residual_action_for (mr_remaining_principal mr0) (po_residual_mode args)\<rparr>"
  have mr: "mr_remaining_principal mr = mr_remaining_principal mr0" "mr_remaining_collateral mr = mr_remaining_collateral mr0"
    by (simp_all add: mr_def)
  have st: "settle_residual m3 args (mk_order_sequence_number m1) mr = Inr (m', i, ls, rested)"
    using st0 by (simp add: mr_def)
  have sh: "cs = locked_shares (po_collateral_atoms args) ?s" using atoms_to_shares_locked[OF c cs] by simp
  have ok1: "market_ok m1" using encumber_bid_ok[OF ok e] .
  let ?m2 = "m1\<lparr>mk_order_sequence_number := mk_order_sequence_number m1 + 1\<rparr>"
  have ok2: "market_ok ?m2" by (rule bump_order_sequence_ok[OF ok1]) simp
  have "backed (\<lambda>j. ext j + owed ?i cs j) m1" by (rule backed_encumber[OF b e])
  then have "backed (\<lambda>j. ext j + owed ?i cs j) ?m2"
    by (rule backed_cong) (simp_all add: encumbered_of_def)
  then have b2: "backed (\<lambda>j. ext j + owed (ma_taker_seat_index (bid_match_args ?m2 args))
      (locked_shares (ma_collateral_atoms (bid_match_args ?m2 args))
        (ma_taker_share_price_snapshot_fp48 (bid_match_args ?m2 args))) j) ?m2"
    by (simp add: bid_match_args_def sh)
  note mo' = backed_match_order[OF ok2 v b2 mo]
  have fr: "mk_asks m3 = mk_asks m1" "mk_bids m3 = mk_bids m1"
      "mk_order_sequence_number m3 = mk_order_sequence_number m1 + 1"
    using mo' by (simp_all add: book_frame_def)
  have lt: "\<forall>p \<in> set (mk_bids m1 @ mk_asks m1). ro_sequence_number (snd p) < mk_order_sequence_number m1"
    using ok1 by (simp add: market_ok_def)
  have "market_ok m' \<and> backed ext m'"
  proof (rule backed_settle_residual[OF _ refl _ _ _ _ st])
    show "market_ok m3" using mo' by blast
    show "backed (\<lambda>j. ext j + owed ?i (locked_shares (mr_remaining_collateral mr) ?s) j) m3"
      using mo' by (simp add: bid_match_args_def mr)
    show "mr_remaining_collateral mr < u64_lim" using mo' c by (simp add: bid_match_args_def mr)
    show "mk_order_sequence_number m1 < mk_order_sequence_number m3" using fr by simp
    show "mk_order_sequence_number m1 \<notin> (\<lambda>p. ro_sequence_number (snd p)) ` set (mk_bids m3 @ mk_asks m3)"
      using lt fr by force
  qed
  then show ?thesis using mo' by blast
qed

section \<open>Cancelling, repricing and resting\<close>

lemma backed_set_seat:
  assumes b: "backed ext m" and s: "get_helper_seat m i = Inr s"
    and e: "ext' i + cs_collateral_encumbered_shares s \<le> ext i + cs_collateral_encumbered_shares s'"
      "\<And>j. j \<noteq> i \<Longrightarrow> ext' j \<le> ext j"
  shows "backed ext' (set_seat m i s')"
proof -
  have le: "bids_pledged m j + loans_pledged m j + ext j \<le> encumbered_of m j" for j using b by (simp add: backed_def)
  have "bids_pledged m j + loans_pledged m j + ext' j \<le> encumbered_of (set_seat m i s') j" for j
    using le[of j] e(1) e(2)[of j] encumbered_of_get[OF s] encumbered_of_set_seat[OF s, of s' j] by (cases "j = i") simp_all
  then show ?thesis using b by (simp add: backed_def bids_sane_def)
qed

text \<open>A bid that leaves the market gives its lock back, or leaves it on the seat as unpledged.\<close>

lemma backed_bid_bound:
  "backed ext m \<Longrightarrow> (i, o1) \<in> set (mk_bids m) \<Longrightarrow> ro_collateral_atoms o1 < u64_lim \<and> 0 < ro_principal_atoms o1"
  by (force simp: backed_def bids_sane_def tree_values_def)

lemma backed_removed_bid:
  assumes b: "backed (\<lambda>j. ext j - bid_pledge j o1) m" and le: "\<And>j. bid_pledge j o1 \<le> ext j"
    and m: "mk_bids m = as @ (i, o1) # bs" and m': "mk_bids m' = as @ bs"
    and l: "mk_matched_loans m' = mk_matched_loans m" and s: "mk_claimed_seats m' = mk_claimed_seats m"
  shows "backed ext m'"
proof -
  have A: "bids_pledged m j = bids_pledged m' j + bid_pledge j o1" for j
    by (simp add: bids_pledged_def m m' tree_values_def)
  have B: "bids_pledged m j + loans_pledged m j + (ext j - bid_pledge j o1) \<le> encumbered_of m j" for j
    using b by (simp add: backed_def)
  have "\<And>j. bids_pledged m' j + loans_pledged m j + ext j \<le> encumbered_of m j"
  proof -
    fix j
    have "bids_pledged m' j + bid_pledge j o1 + loans_pledged m j + (ext j - bid_pledge j o1) \<le> encumbered_of m j"
      using A B by metis
    then show "bids_pledged m' j + loans_pledged m j + ext j \<le> encumbered_of m j" using le[of j] by linarith
  qed
  moreover have "loans_pledged m' = loans_pledged m" "encumbered_of m' = encumbered_of m"
    by (simp_all add: fun_eq_iff loans_pledged_def encumbered_of_def l s)
  moreover have "bids_sane m'"
    using b by (simp add: backed_def bids_sane_def tree_values_def m m' ball_Un)
  ultimately show ?thesis by (simp add: backed_def)
qed

lemma bid_pledge_owed:
  "bid_pledge j o1 = owed (ro_trader_seat_index o1) (locked_shares (ro_collateral_atoms o1) (ro_share_price_snapshot o1)) j"
  by (auto simp: bid_pledge_def owed_def)

text \<open>Removing the bid moves its pledge to the outside.\<close>

lemma backed_remove_bid:
  assumes ok: "market_ok m" and b: "backed ext m" and mem: "(i, o1) \<in> set (mk_bids m)"
    and m': "mk_bids m' = tree_remove i (mk_bids m)" "mk_matched_loans m' = mk_matched_loans m"
      "mk_claimed_seats m' = mk_claimed_seats m"
  shows "backed (\<lambda>j. ext j + bid_pledge j o1) m'"
proof -
  have "distinct (map fst (mk_bids m))" using market_trees_ok(1)[OF ok] by (simp add: tree_ok_def)
  from tree_split[OF this mem] obtain as bs
    where sp: "mk_bids m = as @ (i, o1) # bs" "tree_remove i (mk_bids m) = as @ bs" by blast
  show ?thesis
    by (rule backed_removed_bid[OF _ _ sp(1)]) (use b sp(2) m' in simp_all)
qed

lemma backed_remove_ask:
  assumes "backed ext m" "mk_bids m' = mk_bids m" "mk_matched_loans m' = mk_matched_loans m"
    "mk_claimed_seats m' = mk_claimed_seats m"
  shows "backed ext m'"
  using assms by (simp add: backed_def bids_sane_def bids_pledged_def loans_pledged_def encumbered_of_def)

text \<open>Releasing first and removing after, the order of the source.\<close>

lemma backed_release_bid:
  assumes ok: "market_ok m" and b: "backed ext m" and mem: "(i, o1) \<in> set (mk_bids m)"
    and sh: "atoms_to_shares_at_snapshot (ro_collateral_atoms o1) (ro_share_price_snapshot o1) = Inr cs"
    and u: "unencumber_for_order m (ro_trader_seat_index o1) Bid ps cs = Inr m1"
    and m': "mk_bids m' = tree_remove i (mk_bids m1)" "mk_matched_loans m' = mk_matched_loans m1"
      "mk_claimed_seats m' = mk_claimed_seats m1"
  shows "backed ext m'"
proof -
  have cs: "cs = locked_shares (ro_collateral_atoms o1) (ro_share_price_snapshot o1)"
    using atoms_to_shares_locked[OF _ sh] backed_bid_bound[OF b mem] by simp
  obtain s where s: "get_helper_seat m (ro_trader_seat_index o1) = Inr s"
    and m1: "m1 = set_seat m (ro_trader_seat_index o1)
      (s\<lparr>cs_collateral_encumbered_shares := cs_collateral_encumbered_shares s - cs,
         cs_collateral_withdrawable_shares := cs_collateral_withdrawable_shares s + cs\<rparr>)"
    using unencumber_bid_Inr[OF u] by blast
  let ?r = "m\<lparr>mk_bids := tree_remove i (mk_bids m)\<rparr>"
  have le: "cs \<le> cs_collateral_encumbered_shares s" using unencumber_bid_Inr[OF u] s by auto
  have "backed (\<lambda>j. ext j + owed (ro_trader_seat_index o1) cs j) ?r"
    using backed_remove_bid[OF ok b mem, of ?r] by (simp add: bid_pledge_owed cs)
  then have "backed ext (set_seat ?r (ro_trader_seat_index o1)
      (s\<lparr>cs_collateral_encumbered_shares := cs_collateral_encumbered_shares s - cs,
         cs_collateral_withdrawable_shares := cs_collateral_withdrawable_shares s + cs\<rparr>))"
    by (rule backed_set_seat[where s = s]) (use s le in \<open>simp_all add: owed_def get_helper_seat_def\<close>)
  then show ?thesis by (rule backed_remove_ask) (use m' in \<open>simp_all add: m1 set_seat_def\<close>)
qed

lemma backed_cancel:
  assumes ok: "market_ok m" and b: "backed ext m" and r: "cancel_order_by_index m seat i = Inr m'"
  shows "backed ext m'"
proof -
  obtain o1 s where o1: "get_helper_order m i = Inr o1" and s: "get_helper_seat m (ro_trader_seat_index o1) = Inr s"
    using r unfolding cancel_order_by_index_def by (elim ebind_InrE) blast
  show ?thesis
  proof (cases "cs_owner_kind s = OWNER_KIND_SUB_VAULT")
    case True
    then obtain m1 where m1: "drop_open_lend m (ro_trader_seat_index o1) = Inr m1"
      and rm: "remove_order_from_tree_and_free m1 i = Inr m'"
      using r o1 s by (auto simp: cancel_order_by_index_def elim!: ebind_InrE)
    obtain s' where m1e: "m1 = set_seat m (ro_trader_seat_index o1) s'"
      and se: "cs_collateral_encumbered_shares s' = cs_collateral_encumbered_shares s"
      using drop_open_lend_Inr[OF m1] s by auto
    have ok1: "market_ok m1" by (rule drop_open_lend_ok[OF ok m1])
    have b1: "backed ext m1"
      by (rule backed_cong[OF b]) (use s se in \<open>simp_all add: m1e encumbered_of_set_seat[OF s] encumbered_of_get\<close>)
    from remove_order_Inr[OF ok1 rm] obtain o2 where
      "(i, o2) \<in> set (mk_asks m1) \<and> m' = m1\<lparr>mk_asks := tree_remove i (mk_asks m1), mk_free_list := i # mk_free_list m1\<rparr> \<or>
       (i, o2) \<in> set (mk_bids m1) \<and> m' = m1\<lparr>mk_bids := tree_remove i (mk_bids m1), mk_free_list := i # mk_free_list m1\<rparr>"
      by blast
    then show ?thesis
    proof (elim disjE conjE)
      assume "m' = m1\<lparr>mk_asks := tree_remove i (mk_asks m1), mk_free_list := i # mk_free_list m1\<rparr>"
      then show ?thesis using backed_remove_ask[OF b1] by simp
    next
      assume "(i, o2) \<in> set (mk_bids m1)"
        and e: "m' = m1\<lparr>mk_bids := tree_remove i (mk_bids m1), mk_free_list := i # mk_free_list m1\<rparr>"
      then have "backed (\<lambda>j. ext j + bid_pledge j o2) m'" by (intro backed_remove_bid[OF ok1 b1]) simp_all
      then show ?thesis by (rule backed_mono) simp
    qed
  next
    case False
    define sd where "sd = (if ro_side o1 = side_u8 Bid then Bid else Ask)"
    obtain ps cs m1 where cs: "atoms_to_shares_at_snapshot (ro_collateral_atoms o1) (ro_share_price_snapshot o1) = Inr cs"
      and u: "unencumber_for_order m (ro_trader_seat_index o1) sd ps cs = Inr m1"
      and rm: "remove_order_from_tree_and_free m1 i = Inr m'"
      using r o1 s False by (auto simp: cancel_order_by_index_def Let_def sd_def elim!: ebind_InrE)
    have ok1: "market_ok m1" by (rule unencumber_ok[OF ok u])
    obtain s1 where m1e: "m1 = set_seat m (ro_trader_seat_index o1) s1"
      and se: "sd = Ask \<longrightarrow> cs_collateral_encumbered_shares s1 = cs_collateral_encumbered_shares s"
      using unencumber_Inr_seat[OF u] s by auto
    have o1': "get_helper_order m1 i = Inr o1" using o1 by (cases "tree_get (mk_asks m) i") (simp_all add: m1e get_helper_order_def)
    from get_helper_order_cases[OF ok o1] show ?thesis
    proof (elim conjE disjE)
      assume a: "(i, o1) \<in> set (mk_asks m)" "ro_side o1 = 1"
      have "cs_collateral_encumbered_shares s1 = cs_collateral_encumbered_shares s"
        using se a(2) by (simp add: sd_def)
      then have b1: "backed ext m1"
        by (intro backed_cong[OF b]) (use s in \<open>simp_all add: m1e encumbered_of_set_seat[OF s] encumbered_of_get\<close>)
      show ?thesis
        by (rule backed_remove_ask[OF b1])
          (use rm a o1' in \<open>auto simp: remove_order_from_tree_and_free_def release_address_on_market_fixed_def\<close>)
    next
      assume a: "(i, o1) \<in> set (mk_bids m)" "ro_side o1 = 0"
      then have "sd = Bid" by (simp add: sd_def)
      then show ?thesis
        using backed_release_bid[OF ok b a(1) cs u[unfolded \<open>sd = Bid\<close>]] rm a o1'
        by (auto simp: remove_order_from_tree_and_free_def release_address_on_market_fixed_def)
    qed
  qed
qed

lemma backed_update_bid:
  assumes ok: "market_ok m" and b: "backed ext m"
    and u: "update_user_bid m seat i rate term exp buf now = Inr (m', seq)"
  shows "backed ext m'"
proof -
  obtain o1 where mem: "(i, o1) \<in> set (mk_bids m)" and s: "ro_trader_seat_index o1 = seat"
    and m': "m' = m\<lparr>mk_order_sequence_number := mk_order_sequence_number m + 1,
      mk_bids := tree_insert bid_cmp i (ro_new_primary seat seq Bid Limit rate term (ro_principal_atoms o1)
        (ro_collateral_atoms o1) exp (ro_flags o1) buf (ro_share_price_snapshot o1)) (tree_remove i (mk_bids m))\<rparr>"
    using update_user_bid_Inr[OF ok u] by blast
  let ?r = "m\<lparr>mk_bids := tree_remove i (mk_bids m)\<rparr>"
  have r: "backed (\<lambda>j. ext j + bid_pledge j o1) ?r" by (rule backed_remove_bid[OF ok b mem]) simp_all
  then have le: "bids_pledged ?r j + loans_pledged ?r j + (ext j + bid_pledge j o1) \<le> encumbered_of ?r j" for j
    by (simp add: backed_def)
  have "bids_pledged m' j = bids_pledged ?r j + bid_pledge j o1" "loans_pledged m' j = loans_pledged ?r j"
    "encumbered_of m' j = encumbered_of ?r j" for j
    by (simp_all add: bids_pledged_def loans_pledged_def encumbered_of_def m' tree_values_def ro_new_primary_def
        bid_pledge_def s)
  then have "bids_pledged m' j + loans_pledged m' j + ext j \<le> encumbered_of m' j" for j using le[of j] by simp
  then show ?thesis using r backed_bid_bound[OF b mem] by (simp add: backed_def bids_sane_def tree_values_def m' ro_new_primary_def)
qed

lemma backed_rest_vault_ask:
  assumes b: "backed ext m" and r: "rest_vault_ask m args = Inr (m', seq)"
  shows "backed ext m'"
proof -
  obtain m1 i m3 where m1: "bump_open_lend m (rv_maker_seat_index args) = Inr m1"
    and fr: "get_free_address_on_market_fixed (m1\<lparr>mk_order_sequence_number := mk_order_sequence_number m1 + 1\<rparr>) = (i, m3)"
      "i \<noteq> NIL"
    and m': "m' = rest_order m3 i (ro_new_primary (rv_maker_seat_index args) (mk_order_sequence_number m1) Ask PostOnly
           (rv_rate_bps args) (rv_term_seconds args) (u64_lim - 1) 0 NO_EXPIRATION_LAST_VALID_UNIX_TS (rv_flags args) 0
           fp48_ZERO)"
    using r unfolding rest_vault_ask_def
    by (auto simp: ok_or_Inr checked_add_Some require_Inr Let_def split: prod.splits elim!: ebind_InrE)
  have f: "book_frame m m1" "mk_matched_loans m1 = mk_matched_loans m" using bump_frame(2)[OF m1] by simp_all
  have "backed ext m1" using b f same_seats_encumbered by (intro backed_cong[OF b]) (simp_all add: book_frame_def)
  moreover obtain fl where "m3 = m1\<lparr>mk_order_sequence_number := mk_order_sequence_number m1 + 1, mk_free_list := fl\<rparr>"
    using alloc_block[OF fr] by metis
  then have "mk_bids m' = mk_bids m1" "mk_matched_loans m' = mk_matched_loans m1" "mk_claimed_seats m' = mk_claimed_seats m1"
    by (simp_all add: m' rest_order_def ro_new_primary_def)
  ultimately show ?thesis by (rule backed_remove_ask)
qed

section \<open>Taking resting bids\<close>

lemma backed_prune:
  assumes ok: "market_ok m" and b: "backed ext m" and m: "mk_bids m = pre @ (i, bid) # rest"
    and p: "prune_bid m i bid = Inr m'"
  shows "backed ext m'"
proof -
  obtain ps cs m1 where cs: "atoms_to_shares_at_snapshot (ro_collateral_atoms bid) (ro_share_price_snapshot bid) = Inr cs"
    and u: "unencumber_for_order m (ro_trader_seat_index bid) Bid ps cs = Inr m1"
    and r: "remove_order_from_tree_and_free m1 i = Inr m'"
    using p unfolding prune_bid_def by (elim ebind_InrE)
  obtain s where m1: "m1 = set_seat m (ro_trader_seat_index bid) s" using unencumber_Inr_seat[OF u] by blast
  have "get_helper_order m1 i = Inr bid" "ro_side bid = 0"
    using bid_at(1,6)[OF unencumber_ok[OF ok u], of pre i bid rest] by (simp_all add: m1 m)
  then have m': "m' = m1\<lparr>mk_bids := tree_remove i (mk_bids m1), mk_free_list := stack_add i (mk_free_list m1)\<rparr>"
    using r by (auto simp: remove_order_from_tree_and_free_def release_address_on_market_fixed_def)
  show ?thesis by (rule backed_release_bid[OF ok b _ cs u]) (simp_all add: m m')
qed

text \<open>A fill moves part of the bid's pledge to the new loan.\<close>

lemma backed_take_bid:
  assumes ok: "market_ok (bs_market st)" and b: "backed ext (bs_market st)"
    and m: "mk_bids (bs_market st) = pre @ (i, bid) # rest"
    and t: "take_bid st args i bid bf = Inr st'" and c: "bf_fill bf = ro_principal_atoms bid \<longrightarrow> bf_collateral bf = ro_collateral_atoms bid"
  shows "backed ext (bs_market st')"
proof -
  let ?m = "bs_market st" and ?m' = "bs_market st'" and ?full = "bf_fill bf = ro_principal_atoms bid"
  note s = take_bid_step[OF ok m t c]
  obtain n where n: "bid_loan args bid bf n"
      "mset (tree_values (mk_matched_loans ?m')) = add_mset n (mset (tree_values (mk_matched_loans ?m)))"
    using s by blast
  have bids: "mk_bids ?m' = pre @ (if ?full then [] else [(i, shrunk bid bf)]) @ rest"
    and le: "bf_fill bf \<le> ro_principal_atoms bid" "bf_collateral bf \<le> ro_collateral_atoms bid"
    and se: "same_seats ?m ?m'" using s by blast+
  have lp: "loans_pledged ?m' j = loans_pledged ?m j + loan_pledge j n" for j
    by (simp add: loans_pledged_def n(2))
  let ?s = "ro_share_price_snapshot bid"
  have pl: "loan_pledge j n = owed (ro_trader_seat_index bid) (locked_shares (bf_collateral bf) ?s) j" for j
    using n(1) by (auto simp: loan_pledge_def owed_def bid_loan_def)
  define rest_pledge where "rest_pledge j = (if ?full then 0 else bid_pledge j (shrunk bid bf))" for j
  define others where "others j = sum_mset (image_mset (bid_pledge j) (mset (tree_values (pre @ rest))))" for j
  have at: "bids_pledged ?m j = others j + bid_pledge j bid" "bids_pledged ?m' j = others j + rest_pledge j" for j
    by (simp_all add: bids_pledged_def m bids tree_values_def others_def rest_pledge_def)
  have split: "loan_pledge j n + rest_pledge j \<le> bid_pledge j bid" for j
    using le c locked_shares_add[of "bf_collateral bf" ?s "ro_collateral_atoms bid - bf_collateral bf"]
    by (auto simp: pl bid_pledge_owed owed_def shrunk_def rest_pledge_def)
  have "bids_pledged ?m' j + loans_pledged ?m' j + ext j \<le> bids_pledged ?m j + loans_pledged ?m j + ext j" for j
    using at[of j] split[of j] lp[of j] by linarith
  moreover have "bids_pledged ?m j + loans_pledged ?m j + ext j \<le> encumbered_of ?m' j" for j
    using b same_seats_encumbered[OF se] by (simp add: backed_def)
  ultimately have "bids_pledged ?m' j + loans_pledged ?m' j + ext j \<le> encumbered_of ?m' j" for j
    using le_trans by blast
  moreover have "bids_sane ?m'"
    using b le by (auto simp: backed_def bids_sane_def tree_values_def m bids shrunk_def)
  ultimately show ?thesis by (simp add: backed_def)
qed

lemma backed_bids_walk:
  assumes "market_ok (bs_market st)" "backed ext (bs_market st)" "mk_bids (bs_market st) = pre @ bs"
    "bids_walk st args bs = Inr st'"
  shows "backed ext (bs_market st')"
  using assms
proof (induction bs arbitrary: pre st)
  case (Cons p rest)
  obtain i bid where p: "p = (i, bid)" by force
  have b: "mk_bids (bs_market st) = pre @ (i, bid) # rest" using Cons.prems(3) p by simp
  show ?case
  proof (cases "rr_num_fills (bs_result st) < rb_max_fills args")
    case True
    then obtain r where v: "visit_bid st args i bid = Inr r"
      and k: "(case r of None \<Rightarrow> Inr st | Some st1 \<Rightarrow> bids_walk st1 args rest) = Inr st'"
      using Cons.prems(4) p by (auto elim!: ebind_InrE)
    show ?thesis
    proof (cases r)
      case None
      then show ?thesis using k Cons.prems(2) by simp
    next
      case (Some st1)
      have v1: "visit_bid st args i bid = Inr (Some st1)" using v Some by simp
      obtain pre' where keep: "market_ok (bs_market st1)" "mk_bids (bs_market st1) = pre' @ rest"
        using visit_bid_keeps[OF Cons.prems(1) b v1] by blast
      have "backed ext (bs_market st1)"
        using v1
      proof (cases rule: visit_bid_cases)
        case (prune m1)
        then show ?thesis using backed_prune[OF Cons.prems(1,2) b] by simp
      next
        case (fill bf)
        have "bf_fill bf = ro_principal_atoms bid \<longrightarrow> bf_collateral bf = ro_collateral_atoms bid"
          using bid_gates_Go[OF fill(2)] by simp
        then show ?thesis using backed_take_bid[OF Cons.prems(1,2) b fill(3)] by blast
      qed (use Cons.prems(2) in simp)
      then show ?thesis using Cons.IH[OF keep(1) _ keep(2)] k Some by simp
    qed
  qed (use Cons.prems p in auto)
qed auto

lemma backed_match_resting_bids:
  assumes ok: "market_ok m" and vok: "vault_ok v" and b: "backed ext m"
    and r: "match_resting_bids m args v = Inr (m', v', r)"
  shows "market_ok m' \<and> vault_ok v' \<and> backed ext m'"
proof -
  obtain new st where t: "taken_bids m v args new st" "m' = bs_market st" "v' = bs_vault st"
    using match_resting_bids_taken[OF ok vok _ r] b by (auto simp: backed_def)
  let ?st = "\<lparr> bs_market = m, bs_vault = v,
        bs_result = \<lparr> rr_total_filled_principal = 0, rr_num_fills = 0, rr_num_pruned = 0 \<rparr> \<rparr>"
  obtain st1 where w: "bids_walk ?st args (mk_bids m) = Inr st1" "bs_market st1 = m'"
    using r unfolding match_resting_bids_walk[OF ok] by (elim ebind_InrE) auto
  have "backed ext m'"
    using backed_bids_walk[of ?st ext "[]" "mk_bids m" args st1] ok b w by simp
  then show ?thesis using t by (simp add: taken_bids_def)
qed

section \<open>Refinancing and releasing\<close>

text \<open>A refinance hands slices of the loan's collateral to the new loans.\<close>

lemma backed_refinance:
  assumes ok: "market_ok m" and vok: "vault_ok v"
    and b: "backed (\<lambda>j. ext j + owed (rf_borrower_seat_index args)
      (locked_shares (rf_loan_collateral_atoms args) (rf_borrower_collateral_share_price_snapshot_fp48 args)) j) m"
    and r: "match_p2pool_residual_against_asks m args (Some v) = Inr (m', vault', r)"
  shows "market_ok m' \<and> (\<exists>v'. vault' = Some v' \<and> vault_ok v') \<and>
    rx_total_filled_collateral_atoms r \<le> rf_loan_collateral_atoms args \<and>
    backed (\<lambda>j. ext j + owed (rf_borrower_seat_index args)
      (locked_shares (rf_loan_collateral_atoms args - rx_total_filled_collateral_atoms r)
        (rf_borrower_collateral_share_price_snapshot_fp48 args)) j) m'"
proof -
  let ?i = "rf_borrower_seat_index args" and ?s = "rf_borrower_collateral_share_price_snapshot_fp48 args"
  obtain new st where w: "crossed m v args new st" and e: "m' = rs_market st" "vault' = rs_vault st" "r = rs_result st"
    using refinance_summary[OF ok vok r] by blast
  have all: "list_all (\<lambda>n. ml_borrower_seat_index n = ?i \<and> ml_borrower_collateral_share_price_snapshot_fp48 n = ?s) new"
    using w unfolding crossed_def cross_of_def list_all_iff by blast
  have le: "sum_list (map ml_collateral_atoms new) \<le> rf_loan_collateral_atoms args" by (rule crossed_collateral[OF w])
  have t: "rx_total_filled_collateral_atoms r = sum_list (map ml_collateral_atoms new)" using w e by (simp add: crossed_def)
  have "backed (\<lambda>j. ext j + owed ?i (locked_shares (rf_loan_collateral_atoms args - rx_total_filled_collateral_atoms r) ?s) j) m'"
  proof (rule backed_minted[OF b])
    show "book_frame m m'" "mset (tree_values (mk_matched_loans m')) = mset (tree_values (mk_matched_loans m)) + mset new"
      using w e by (simp_all add: crossed_def)
    show "ext j + owed ?i (locked_shares (rf_loan_collateral_atoms args - rx_total_filled_collateral_atoms r) ?s) j +
        sum_list (map (loan_pledge j) new) \<le> ext j + owed ?i (locked_shares (rf_loan_collateral_atoms args) ?s) j" for j
      using owed_sum[OF all, of j] le t
        locked_shares_add[of "sum_list (map ml_collateral_atoms new)" ?s "rf_loan_collateral_atoms args - sum_list (map ml_collateral_atoms new)"]
      by (simp add: owed_def split: if_splits)
  qed
  then show ?thesis using w e le t by (auto simp: crossed_def)
qed

lemma release_loan_collateral_Inr:
  assumes "release_loan_collateral m i tot returned = Inr m'"
  shows "\<exists>s. get_helper_seat m i = Inr s \<and> tot \<le> cs_collateral_encumbered_shares s \<and>
    cs_collateral_withdrawable_shares s + min returned tot < u128_lim \<and>
    m' = set_seat m i (s\<lparr>cs_collateral_encumbered_shares := cs_collateral_encumbered_shares s - tot,
      cs_collateral_withdrawable_shares := cs_collateral_withdrawable_shares s + min returned tot\<rparr>)"
  using assms by (auto simp: release_loan_collateral_def require_Inr ok_or_Inr checked_sub_Some checked_add_Some Let_def
      elim!: ebind_InrE)

lemma backed_release_loan:
  assumes ok: "market_ok m" and b: "backed (\<lambda>j. ext j + owed i tot j) m"
    and r: "release_loan_collateral m i tot returned = Inr m'"
  shows "market_ok m' \<and> backed ext m'"
proof -
  obtain s where s: "get_helper_seat m i = Inr s" "tot \<le> cs_collateral_encumbered_shares s"
    and m': "m' = set_seat m i (s\<lparr>cs_collateral_encumbered_shares := cs_collateral_encumbered_shares s - tot,
      cs_collateral_withdrawable_shares := cs_collateral_withdrawable_shares s + min returned tot\<rparr>)"
    using release_loan_collateral_Inr[OF r] by blast
  have "market_ok m'" unfolding m' by (rule set_seat_ok[OF ok s(1)]) (simp add: seat_key_def)
  moreover have "backed ext m'"
    unfolding m' by (rule backed_set_seat[OF b s(1)]) (use s(2) in \<open>simp_all add: owed_def\<close>)
  ultimately show ?thesis ..
qed

text \<open>The lock of a loan is there when the loan ends.\<close>

lemma backed_release_enough:
  assumes b: "backed (\<lambda>j. ext j + owed i tot j) m" and s: "get_helper_seat m i = Inr s"
  shows "tot \<le> cs_collateral_encumbered_shares s"
proof -
  have "bids_pledged m i + loans_pledged m i + (ext i + owed i tot i) \<le> encumbered_of m i"
    using b by (simp add: backed_def)
  then show ?thesis using encumbered_of_get[OF s] by (simp add: owed_def)
qed

end
