(* ===== verification/Marginfi.thy ===== *)
theory Marginfi
  imports Ltv
begin

text \<open>The adapter to the marginfi lending program (\<open>protocol/marginfi.rs\<close>). The accounts of marginfi and
  of the token program are data the adapter reads; what a call into either program does to them is a
  parameter of the model, the record \<open>programs\<close>. The share arithmetic and the checks before and after
  each call are the adapter's own. A field of marginfi's account is held as the signed 128-bit pattern
  the code decodes from it.\<close>

section \<open>Accounts of the other programs\<close>

record bank =
  bk_owner :: pubkey
  bk_layout_ok :: bool
  bk_asset_share_value :: int
  bk_liability_share_value :: int
  bk_asset_weight_init :: int
  bk_liability_weight_init :: int
  bk_asset_weight_maint :: int
  bk_liability_weight_maint :: int

record balance =
  bl_asset_shares :: int
  bl_liability_shares :: int

record marginfi_account =
  mf_layout_ok :: bool
  mf_balances :: "pubkey \<rightharpoonup> balance"

record token_account =
  tk_readable :: bool
  tk_amount :: nat

record pool =
  pl_banks :: "pubkey \<Rightarrow> bank"
  pl_accounts :: "pubkey \<Rightarrow> marginfi_account"
  pl_tokens :: "pubkey \<Rightarrow> token_account"

text \<open>Account, bank and token account of a call, the amount, and for the calls that have it the flag that
  closes the whole position.\<close>

record programs =
  pg_marginfi :: pubkey
  pg_deposit :: "pubkey \<Rightarrow> pubkey \<Rightarrow> pubkey \<Rightarrow> nat \<Rightarrow> pool \<Rightarrow> pool res"
  pg_withdraw :: "pubkey \<Rightarrow> pubkey \<Rightarrow> pubkey \<Rightarrow> nat \<Rightarrow> bool \<Rightarrow> pool \<Rightarrow> pool res"
  pg_borrow :: "pubkey \<Rightarrow> pubkey \<Rightarrow> pubkey \<Rightarrow> nat \<Rightarrow> pool \<Rightarrow> pool res"
  pg_repay :: "pubkey \<Rightarrow> pubkey \<Rightarrow> pubkey \<Rightarrow> nat \<Rightarrow> bool \<Rightarrow> pool \<Rightarrow> pool res"
  pg_transfer :: "pubkey \<Rightarrow> pubkey \<Rightarrow> nat \<Rightarrow> pool \<Rightarrow> pool res"

section \<open>Readings\<close>

definition i128_lim :: int where "i128_lim = 2 ^ 127"

definition wrapped_i80f48_to_u128 :: "int \<Rightarrow> nat res" where
  "wrapped_i80f48_to_u128 bits = (if bits < 0 then Inl (Adapter InvalidIntegrationAccount) else Inr (nat bits))"

text \<open>The cast \<open>u128 as i128\<close> keeps the bits.\<close>

definition u128_to_wrapped_i80f48 :: "nat \<Rightarrow> int" where
  "u128_to_wrapped_i80f48 scaled = (if int scaled < i128_lim then int scaled else int scaled - 2 * i128_lim)"

definition borrow_bank :: "pool \<Rightarrow> pubkey \<Rightarrow> bank res" where
  "borrow_bank p b =
     (if bk_layout_ok (pl_banks p b) then Inr (pl_banks p b) else Inl (Adapter InvalidIntegrationAccount))"

definition assert_marginfi_owned :: "programs \<Rightarrow> pool \<Rightarrow> pubkey \<Rightarrow> unit res" where
  "assert_marginfi_owned pg p b = require (bk_owner (pl_banks p b) = pg_marginfi pg) (Adapter InvalidIntegrationAccount)"

definition borrow_marginfi_account :: "pool \<Rightarrow> pubkey \<Rightarrow> marginfi_account res" where
  "borrow_marginfi_account p a =
     (if mf_layout_ok (pl_accounts p a) then Inr (pl_accounts p a) else Inl (Adapter InvalidIntegrationAccount))"

definition read_asset_shares_u128 :: "pool \<Rightarrow> pubkey \<Rightarrow> pubkey \<Rightarrow> nat res" where
  "read_asset_shares_u128 p a bank_pk =
     ebind (borrow_marginfi_account p a) (\<lambda>mfi.
     case mf_balances mfi bank_pk of
       Some b \<Rightarrow> wrapped_i80f48_to_u128 (bl_asset_shares b)
     | None \<Rightarrow> Inr 0)"

definition read_liability_shares_u128 :: "pool \<Rightarrow> pubkey \<Rightarrow> pubkey \<Rightarrow> nat res" where
  "read_liability_shares_u128 p a bank_pk =
     ebind (borrow_marginfi_account p a) (\<lambda>mfi.
     case mf_balances mfi bank_pk of
       Some b \<Rightarrow> wrapped_i80f48_to_u128 (bl_liability_shares b)
     | None \<Rightarrow> Inr 0)"

definition token_balance_of :: "pool \<Rightarrow> pubkey \<Rightarrow> nat res" where
  "token_balance_of p t =
     (if tk_readable (pl_tokens p t) then Inr (tk_amount (pl_tokens p t)) else Inl (Adapter InvalidIntegrationAccount))"

section \<open>Calls\<close>

text \<open>The accounts of a call are a list in the adapter's positional layout.\<close>

definition DEPOSIT_EXPLICIT_ACCOUNTS :: nat where "DEPOSIT_EXPLICIT_ACCOUNTS = 7"
definition WITHDRAW_EXPLICIT_ACCOUNTS :: nat where "WITHDRAW_EXPLICIT_ACCOUNTS = 8"
definition BORROW_EXPLICIT_ACCOUNTS :: nat where "BORROW_EXPLICIT_ACCOUNTS = 8"
definition REPAY_EXPLICIT_ACCOUNTS :: nat where "REPAY_EXPLICIT_ACCOUNTS = 7"

definition check_accounts :: "programs \<Rightarrow> pubkey list \<Rightarrow> nat \<Rightarrow> unit res" where
  "check_accounts pg accounts explicit =
     (if length accounts < explicit + 1 then Inl (Adapter InvalidIntegrationAccount)
      else if accounts ! explicit \<noteq> pg_marginfi pg then Inl (Adapter InvalidIntegrationAccount)
      else Inr ())"

definition adapter_deposit :: "programs \<Rightarrow> pubkey list \<Rightarrow> nat \<Rightarrow> pool \<Rightarrow> (pool \<times> nat) res" where
  "adapter_deposit pg accounts amount_atoms p =
     ebind (check_accounts pg accounts DEPOSIT_EXPLICIT_ACCOUNTS) (\<lambda>_.
     let marginfi_account = accounts ! 1; bank_pk = accounts ! 3; signer_token_account = accounts ! 4 in
     ebind (borrow_bank p bank_pk) (\<lambda>_.
     ebind (read_asset_shares_u128 p marginfi_account bank_pk) (\<lambda>pre_shares.
     ebind (pg_deposit pg marginfi_account bank_pk signer_token_account amount_atoms p) (\<lambda>p'.
     ebind (read_asset_shares_u128 p' marginfi_account bank_pk) (\<lambda>post_shares.
     Inr (p', saturating_sub post_shares pre_shares))))))"

definition adapter_withdraw :: "programs \<Rightarrow> pubkey list \<Rightarrow> nat \<Rightarrow> pool \<Rightarrow> (pool \<times> nat \<times> nat) res" where
  "adapter_withdraw pg accounts shares p =
     ebind (check_accounts pg accounts WITHDRAW_EXPLICIT_ACCOUNTS) (\<lambda>_.
     let marginfi_account = accounts ! 1; bank_pk = accounts ! 3; destination = accounts ! 4 in
     ebind (borrow_bank p bank_pk) (\<lambda>bank_view.
     ebind (wrapped_i80f48_to_u128 (bk_asset_share_value bank_view)) (\<lambda>asv.
     ebind (mul_scale shares asv) (\<lambda>atoms.
     let expected_atoms = from_scaled_floor atoms in
     if u64_lim - 1 < expected_atoms then Inl ArithmeticOverflow
     else
       ebind (token_balance_of p destination) (\<lambda>pre_destination.
       ebind (read_asset_shares_u128 p marginfi_account bank_pk) (\<lambda>pre_asset_shares.
       ebind (pg_withdraw pg marginfi_account bank_pk destination expected_atoms False p) (\<lambda>p'.
       ebind (token_balance_of p' destination) (\<lambda>post_destination.
       let actual_atoms = saturating_sub post_destination pre_destination in
       if 1 < \<bar>int actual_atoms - int expected_atoms\<bar> then Inl (Adapter UnexpectedAtomDelta)
       else
         ebind (read_asset_shares_u128 p' marginfi_account bank_pk) (\<lambda>post_asset_shares.
         Inr (p', actual_atoms, saturating_sub pre_asset_shares post_asset_shares))))))))))"

definition adapter_borrow :: "programs \<Rightarrow> pubkey list \<Rightarrow> nat \<Rightarrow> pool \<Rightarrow> (pool \<times> nat) res" where
  "adapter_borrow pg accounts amount_atoms p =
     ebind (check_accounts pg accounts BORROW_EXPLICIT_ACCOUNTS) (\<lambda>_.
     let marginfi_account = accounts ! 1; bank_pk = accounts ! 3; destination = accounts ! 4 in
     ebind (borrow_bank p bank_pk) (\<lambda>_.
     ebind (read_liability_shares_u128 p marginfi_account bank_pk) (\<lambda>pre_liability.
     ebind (pg_borrow pg marginfi_account bank_pk destination amount_atoms p) (\<lambda>p'.
     ebind (read_liability_shares_u128 p' marginfi_account bank_pk) (\<lambda>post_liability.
     Inr (p', saturating_sub post_liability pre_liability))))))"

definition adapter_repay :: "programs \<Rightarrow> pubkey list \<Rightarrow> nat \<Rightarrow> pool \<Rightarrow> (pool \<times> nat) res" where
  "adapter_repay pg accounts shares p =
     ebind (check_accounts pg accounts REPAY_EXPLICIT_ACCOUNTS) (\<lambda>_.
     let marginfi_account = accounts ! 1; bank_pk = accounts ! 3; signer_token_account = accounts ! 4 in
     ebind (borrow_bank p bank_pk) (\<lambda>bank_view.
     ebind (wrapped_i80f48_to_u128 (bk_liability_share_value bank_view)) (\<lambda>lsv.
     ebind (mul_scale shares lsv) (\<lambda>atoms.
     ebind (from_scaled_ceil atoms) (\<lambda>expected_atoms.
     if u64_lim - 1 < expected_atoms then Inl ArithmeticOverflow
     else
       ebind (token_balance_of p signer_token_account) (\<lambda>pre_signer.
       ebind (pg_repay pg marginfi_account bank_pk signer_token_account expected_atoms False p) (\<lambda>p'.
       ebind (token_balance_of p' signer_token_account) (\<lambda>post_signer.
       let actual_atoms = saturating_sub pre_signer post_signer in
       if 1 < \<bar>int actual_atoms - int expected_atoms\<bar> then Inl (Adapter UnexpectedAtomDelta)
       else Inr (p', actual_atoms)))))))))"

definition repay_atoms_inner :: "programs \<Rightarrow> pubkey list \<Rightarrow> nat \<Rightarrow> bool \<Rightarrow> pool \<Rightarrow> (pool \<times> nat) res" where
  "repay_atoms_inner pg accounts amount_atoms repay_all p =
     ebind (check_accounts pg accounts REPAY_EXPLICIT_ACCOUNTS) (\<lambda>_.
     let marginfi_account = accounts ! 1; bank_pk = accounts ! 3; signer_token_account = accounts ! 4 in
     ebind (read_liability_shares_u128 p marginfi_account bank_pk) (\<lambda>pre_liability.
     ebind (pg_repay pg marginfi_account bank_pk signer_token_account amount_atoms repay_all p) (\<lambda>p'.
     ebind (read_liability_shares_u128 p' marginfi_account bank_pk) (\<lambda>post_liability.
     ebind (ok_or (checked_sub pre_liability post_liability) (Adapter InvalidIntegrationAccount)) (\<lambda>burned.
     Inr (p', burned))))))"

definition adapter_repay_atoms :: "programs \<Rightarrow> pubkey list \<Rightarrow> nat \<Rightarrow> pool \<Rightarrow> (pool \<times> nat) res" where
  "adapter_repay_atoms pg accounts amount_atoms p = repay_atoms_inner pg accounts amount_atoms False p"

definition adapter_repay_atoms_full :: "programs \<Rightarrow> pubkey list \<Rightarrow> nat \<Rightarrow> pool \<Rightarrow> (pool \<times> nat) res" where
  "adapter_repay_atoms_full pg accounts amount_atoms p = repay_atoms_inner pg accounts amount_atoms True p"

definition adapter_withdraw_atoms_full :: "programs \<Rightarrow> pubkey list \<Rightarrow> nat \<Rightarrow> pool \<Rightarrow> (pool \<times> nat) res" where
  "adapter_withdraw_atoms_full pg accounts amount_cap p =
     ebind (check_accounts pg accounts WITHDRAW_EXPLICIT_ACCOUNTS) (\<lambda>_.
     let marginfi_account = accounts ! 1; bank_pk = accounts ! 3; destination = accounts ! 4 in
     ebind (token_balance_of p destination) (\<lambda>pre_destination.
     ebind (pg_withdraw pg marginfi_account bank_pk destination amount_cap True p) (\<lambda>p'.
     ebind (token_balance_of p' destination) (\<lambda>post_destination.
     Inr (p', saturating_sub post_destination pre_destination)))))"

section \<open>Shares and atoms\<close>

definition bank_asset_share_value :: "pool \<Rightarrow> pubkey \<Rightarrow> nat res" where
  "bank_asset_share_value p b = ebind (borrow_bank p b) (\<lambda>bank_view. wrapped_i80f48_to_u128 (bk_asset_share_value bank_view))"

definition bank_liability_share_value :: "pool \<Rightarrow> pubkey \<Rightarrow> nat res" where
  "bank_liability_share_value p b =
     ebind (borrow_bank p b) (\<lambda>bank_view. wrapped_i80f48_to_u128 (bk_liability_share_value bank_view))"

definition shares_to_amount :: "programs \<Rightarrow> pool \<Rightarrow> pubkey \<Rightarrow> nat \<Rightarrow> nat res" where
  "shares_to_amount pg p b shares =
     ebind (assert_marginfi_owned pg p b) (\<lambda>_.
     ebind (bank_asset_share_value p b) (\<lambda>asv.
     ebind (mul_scale shares asv) (\<lambda>atoms_fp48.
     let atoms = from_scaled_floor atoms_fp48 in
     if u64_lim - 1 < atoms then Inl ArithmeticOverflow else Inr atoms)))"

definition amount_to_asset_shares :: "programs \<Rightarrow> pool \<Rightarrow> pubkey \<Rightarrow> nat \<Rightarrow> nat res" where
  "amount_to_asset_shares pg p b amount_atoms =
     ebind (assert_marginfi_owned pg p b) (\<lambda>_.
     ebind (bank_asset_share_value p b) (\<lambda>asv.
     ebind (to_scaled amount_atoms) (\<lambda>amount_fp48. div_scale amount_fp48 asv)))"

definition amount_to_liability_shares :: "programs \<Rightarrow> pool \<Rightarrow> pubkey \<Rightarrow> nat \<Rightarrow> nat res" where
  "amount_to_liability_shares pg p b amount_atoms =
     ebind (assert_marginfi_owned pg p b) (\<lambda>_.
     ebind (bank_liability_share_value p b) (\<lambda>lsv.
     ebind (to_scaled amount_atoms) (\<lambda>amount_fp48. div_scale amount_fp48 lsv)))"

definition amount_to_asset_shares_ceil :: "pool \<Rightarrow> pubkey \<Rightarrow> nat \<Rightarrow> nat res" where
  "amount_to_asset_shares_ceil p b amount_atoms =
     ebind (bank_asset_share_value p b) (\<lambda>asv.
     ebind (to_scaled amount_atoms) (\<lambda>amount_fp48.
     ebind (div_scale amount_fp48 asv) (\<lambda>shares_floor.
     ebind (mul_scale shares_floor asv) (\<lambda>rt.
     let atoms_back = from_scaled_floor rt in
     if atoms_back < amount_atoms then ok_or (checked_add u128_lim shares_floor 1) ArithmeticOverflow
     else Inr shares_floor))))"

definition liability_shares_to_atoms_floor :: "pool \<Rightarrow> pubkey \<Rightarrow> nat \<Rightarrow> nat res" where
  "liability_shares_to_atoms_floor p b shares =
     ebind (bank_liability_share_value p b) (\<lambda>lsv.
     ebind (mul_scale shares lsv) (\<lambda>atoms_fp48.
     ok_or (narrow u64_lim (from_scaled_floor atoms_fp48)) ArithmeticOverflow))"

definition liability_shares_to_atoms_ceil_at_lsv :: "nat \<Rightarrow> nat \<Rightarrow> nat res" where
  "liability_shares_to_atoms_ceil_at_lsv shares_fp48 lsv_fp48 =
     ebind (mul_scale shares_fp48 lsv_fp48) (\<lambda>atoms_fp48.
     ebind (from_scaled_ceil atoms_fp48) (\<lambda>atoms.
     ok_or (narrow u64_lim atoms) ArithmeticOverflow))"

definition init_weight :: "programs \<Rightarrow> pool \<Rightarrow> pubkey \<Rightarrow> (nat \<times> nat) res" where
  "init_weight pg p b =
     ebind (assert_marginfi_owned pg p b) (\<lambda>_.
     ebind (borrow_bank p b) (\<lambda>cfg.
     ebind (wrapped_i80f48_to_u128 (bk_asset_weight_init cfg)) (\<lambda>aw.
     ebind (wrapped_i80f48_to_u128 (bk_liability_weight_init cfg)) (\<lambda>lw.
     Inr (aw, lw)))))"

definition maint_weight :: "programs \<Rightarrow> pool \<Rightarrow> pubkey \<Rightarrow> (nat \<times> nat) res" where
  "maint_weight pg p b =
     ebind (assert_marginfi_owned pg p b) (\<lambda>_.
     ebind (borrow_bank p b) (\<lambda>cfg.
     ebind (wrapped_i80f48_to_u128 (bk_asset_weight_maint cfg)) (\<lambda>aw.
     ebind (wrapped_i80f48_to_u128 (bk_liability_weight_maint cfg)) (\<lambda>lw.
     Inr (aw, lw)))))"

section \<open>Properties\<close>

lemma bank_asset_share_value_Inr:
  "bank_asset_share_value p b = Inr asv \<Longrightarrow> asv = nat (bk_asset_share_value (pl_banks p b))"
  by (auto simp: bank_asset_share_value_def borrow_bank_def wrapped_i80f48_to_u128_def split: if_splits)

lemma to_scaled_Inr: "to_scaled a = Inr x \<Longrightarrow> x = a * SCALE \<and> x < u128_lim"
  by (auto simp: to_scaled_def SCALE_BITS_def SCALE_def u128_lim_def div_eq_0_iff split: if_splits)

lemma mul_scale_Inr:
  assumes "mul_scale a b = Inr q"
  shows "q = a * b div SCALE"
proof -
  have "a * b < u256_lim" and q: "u256_to_u128 (a * b div SCALE) = Inr q"
    using assms by (auto simp: mul_scale_def ok_or_Inr checked_mul_Some SCALE_BITS_def SCALE_def Let_def elim!: ebind_InrE)
  then have "a * b div SCALE < u256_lim" by (meson div_le_dividend le_less_trans)
  then show ?thesis using q by (simp add: u256_to_u128_eq split: if_splits)
qed

lemma div_scale_Inr:
  assumes "div_scale a b = Inr q" "a < u128_lim"
  shows "0 < b \<and> q = a * SCALE div b"
  using assms by (auto simp: div_scale_eq split: if_splits)

lemma mul_div_floor_div: "mul_div a b c False = Inr q \<Longrightarrow> q = a * b div c \<and> 0 < c"
proof -
  assume m: "mul_div a b c False = Inr q"
  have lt: "a * b < u256_lim" and q: "u256_to_u128 (a * b div c) = Inr q" and c: "0 < c"
    using m by (auto simp: mul_div_def ok_or_Inr checked_mul_Some Let_def split: if_splits elim!: ebind_InrE)
  have "a * b div c < u256_lim" using lt by (meson div_le_dividend le_less_trans)
  then show ?thesis using q c by (simp add: u256_to_u128_eq split: if_splits)
qed

lemma bank_asv_width: "bank_asset_share_value p b = Inr asv \<Longrightarrow> bk_asset_share_value (pl_banks p b) < i128_lim \<Longrightarrow> asv < u128_lim"
  using bank_asset_share_value_Inr[of p b asv] by (auto simp: i128_lim_def u128_lim_def nat_less_iff)

text \<open>One share more than the rounded-down count is worth the amount.\<close>

lemma one_more_share_covers:
  assumes "0 < (asv::nat)"
  shows "a \<le> (a * SCALE * SCALE div asv + 1) * asv div SCALE div SCALE"
proof -
  have "a * SCALE * SCALE < (a * SCALE * SCALE div asv + 1) * asv"
    using dividend_less_div_times[OF assms, of "a * SCALE * SCALE"] by (simp add: algebra_simps)
  then have "a * (SCALE * SCALE) \<le> (a * SCALE * SCALE div asv + 1) * asv" by (simp add: mult.assoc)
  then have "a \<le> (a * SCALE * SCALE div asv + 1) * asv div (SCALE * SCALE)"
    by (simp add: less_eq_div_iff_mult_less_eq)
  then show ?thesis by (simp add: div_mult2_eq)
qed

text \<open>C29. Converting atoms to asset shares brackets the amount: the rounded-down share count is never worth more
  than the amount, the rounded-up count is always worth at least it, and the two differ by at most one share.\<close>

theorem asset_shares_bracket:
  assumes "amount_to_asset_shares pg p b a = Inr lo" "amount_to_asset_shares_ceil p b a = Inr hi"
    and "shares_to_amount pg p b lo = Inr worth_lo" "shares_to_amount pg p b hi = Inr worth_hi"
  shows "worth_lo \<le> a \<and> a \<le> worth_hi \<and> lo \<le> hi \<and> hi \<le> lo + 1"
proof -
  obtain asv fp where asv: "bank_asset_share_value p b = Inr asv" and fp: "to_scaled a = Inr fp" and lo: "div_scale fp asv = Inr lo"
    using assms(1) unfolding amount_to_asset_shares_def by (elim ebind_InrE)
  have fpe: "fp = a * SCALE" "fp < u128_lim" using to_scaled_Inr[OF fp] by simp_all
  have loe: "lo = a * SCALE * SCALE div asv" and pos: "0 < asv" using div_scale_Inr[OF lo fpe(2)] fpe(1) by simp_all
  obtain rt where rt: "mul_scale lo asv = Inr rt"
    and hi: "(if from_scaled_floor rt < a then ok_or (checked_add u128_lim lo 1) ArithmeticOverflow else Inr lo) = Inr hi"
    using assms(2) asv fp lo unfolding amount_to_asset_shares_ceil_def by (auto simp: Let_def elim!: ebind_InrE)
  have worth: "w = x * asv div SCALE div SCALE" if "shares_to_amount pg p b x = Inr w" for x w
    using that asv by (auto simp: shares_to_amount_def from_scaled_floor_eq Let_def dest!: mul_scale_Inr
        split: if_splits elim!: ebind_InrE)
  have "lo * asv \<le> a * SCALE * SCALE" unfolding loe by (rule div_times_less_eq_dividend)
  then have "lo * asv div (SCALE * SCALE) \<le> a * (SCALE * SCALE) div (SCALE * SCALE)"
    by (intro div_le_mono) (simp add: mult.assoc)
  then have l: "worth_lo \<le> a" using worth[OF assms(3)] SCALE_pos by (simp add: div_mult2_eq)
  have h: "hi = (if from_scaled_floor rt < a then lo + 1 else lo)"
    using hi by (auto simp: ok_or_Inr checked_add_Some split: if_splits)
  have "a \<le> worth_hi"
  proof (cases "from_scaled_floor rt < a")
    case True
    then have "hi = a * SCALE * SCALE div asv + 1" using h loe by simp
    then show ?thesis using worth[OF assms(4)] one_more_share_covers[OF pos, of a] by simp
  next
    case False
    then have "hi = lo" using h by simp
    moreover have "from_scaled_floor rt = lo * asv div SCALE div SCALE"
      using mul_scale_Inr[OF rt] by (simp add: from_scaled_floor_eq)
    ultimately show ?thesis using worth[OF assms(4)] False by simp
  qed
  then show ?thesis using l h by simp
qed

text \<open>The wrapping of a share value round-trips: any value of less than 127 bits comes back from marginfi's
  signed pattern, and any value above is refused rather than read as something else.\<close>

theorem wrapped_i80f48_round_trip:
  assumes "scaled < u128_lim"
  shows "wrapped_i80f48_to_u128 (u128_to_wrapped_i80f48 scaled) =
    (if int scaled < i128_lim then Inr scaled else Inl (Adapter InvalidIntegrationAccount))"
  using assms by (auto simp: wrapped_i80f48_to_u128_def u128_to_wrapped_i80f48_def i128_lim_def u128_lim_def)

theorem wrapped_i80f48_round_trip_witness:
  "wrapped_i80f48_to_u128 (u128_to_wrapped_i80f48 SCALE) = Inr SCALE"
  using wrapped_i80f48_round_trip[of SCALE] by (simp add: SCALE_def i128_lim_def u128_lim_def)

text \<open>A pool with one bank at a share value of three halves.\<close>

definition example_bank :: bank where
  "example_bank = \<lparr> bk_owner = 99, bk_layout_ok = True, bk_asset_share_value = 3 * 2 ^ 47,
     bk_liability_share_value = 2 * 2 ^ 48, bk_asset_weight_init = 2 ^ 47, bk_liability_weight_init = 2 ^ 48,
     bk_asset_weight_maint = 2 ^ 48, bk_liability_weight_maint = 2 ^ 48 \<rparr>"

definition example_pool :: pool where
  "example_pool = \<lparr> pl_banks = (\<lambda>_. example_bank),
     pl_accounts = (\<lambda>_. \<lparr> mf_layout_ok = True, mf_balances = (\<lambda>_. Some \<lparr> bl_asset_shares = 2 ^ 60, bl_liability_shares = 0 \<rparr>) \<rparr>),
     pl_tokens = (\<lambda>_. \<lparr> tk_readable = True, tk_amount = 5000 \<rparr>) \<rparr>"

definition inert_programs :: programs where
  "inert_programs = \<lparr> pg_marginfi = 99, pg_deposit = (\<lambda>_ _ _ _ p. Inr p), pg_withdraw = (\<lambda>_ _ _ _ _ p. Inr p),
     pg_borrow = (\<lambda>_ _ _ _ p. Inr p), pg_repay = (\<lambda>_ _ _ _ _ p. Inr p), pg_transfer = (\<lambda>_ _ _ p. Inr p) \<rparr>"

lemmas pool_eval = example_bank_def example_pool_def inert_programs_def assert_marginfi_owned_def
  bank_asset_share_value_def borrow_bank_def wrapped_i80f48_to_u128_def to_scaled_eq div_scale_eq mul_scale_eq
  from_scaled_floor_eq lim_defs SCALE_def require_def checked_add_def

theorem asset_shares_bracket_witness:
  "amount_to_asset_shares inert_programs example_pool 1 100 = Inr 18764998447377066 \<and>
   amount_to_asset_shares_ceil example_pool 1 100 = Inr 18764998447377067 \<and> (99::nat) \<le> 100 \<and> (100::nat) \<le> 100"
proof -
  have "amount_to_asset_shares inert_programs example_pool 1 100 = Inr 18764998447377066"
    "amount_to_asset_shares_ceil example_pool 1 100 = Inr 18764998447377067"
    "shares_to_amount inert_programs example_pool 1 18764998447377066 = Inr 99"
    "shares_to_amount inert_programs example_pool 1 18764998447377067 = Inr 100"
    by (simp_all add: amount_to_asset_shares_def amount_to_asset_shares_ceil_def shares_to_amount_def pool_eval Let_def)
  then show ?thesis using asset_shares_bracket[of inert_programs example_pool 1 100] by blast
qed

end
