(* ===== verification/Oracles.thy ===== *)
theory Oracles
  imports Marginfi "HOL-Library.Word"
begin

text \<open>The price of an asset (\<open>protocol/oracles.rs\<close>): which accounts a bank's oracle setup asks for, the decoding of Pyth
  and Switchboard messages and of the mint and stake accounts of a liquid-staking token, the checks of age and
  confidence, and the scaling of the price. Accounts are a key, an owner and their bytes; a key is
  the number its 32 bytes spell. The ids of the programs and the decoding of a stake account, which the
  Solana SDK does, are parameters.\<close>

section \<open>Bytes\<close>

type_synonym bytes = "8 word list"

primrec le_nat :: "bytes \<Rightarrow> nat" where
  "le_nat [] = 0"
| "le_nat (b # bs) = unat b + 256 * le_nat bs"

definition le_int :: "bytes \<Rightarrow> int" where
  "le_int bs = (let n = le_nat bs; w = 8 * length bs in if 2 * n < 2 ^ w then int n else int n - 2 ^ w)"

definition bytes_at :: "nat \<Rightarrow> nat \<Rightarrow> bytes \<Rightarrow> bytes" where
  "bytes_at off n data = take n (drop off data)"

section \<open>The bank's oracle configuration\<close>

record account_view =
  av_key :: pubkey
  av_owner :: pubkey
  av_data :: bytes

record program_ids =
  pi_marginfi :: pubkey
  pi_pyth_push :: pubkey
  pi_switchboard :: pubkey
  pi_spl_token :: pubkey
  pi_spl_token_2022 :: pubkey
  pi_stake :: pubkey

datatype oracle_setup =
    OracleNone | PythLegacy | SwitchboardV2 | PythPushOracle | SwitchboardPull | StakedWithPythPush | KaminoPythPush
  | KaminoSwitchboardPull | OracleFixed | DriftPythPull | DriftSwitchboardPull | SolendPythPull | SolendSwitchboardPull
  | FixedKamino | FixedDrift | JuplendPythPull | JuplendSwitchboardPull | FixedJuplend

definition oracle_setup_from_u8 :: "nat \<Rightarrow> oracle_setup option" where
  "oracle_setup_from_u8 v =
     (let setups = [OracleNone, PythLegacy, SwitchboardV2, PythPushOracle, SwitchboardPull, StakedWithPythPush, KaminoPythPush,
        KaminoSwitchboardPull, OracleFixed, DriftPythPull, DriftSwitchboardPull, SolendPythPull, SolendSwitchboardPull,
        FixedKamino, FixedDrift, JuplendPythPull, JuplendSwitchboardPull, FixedJuplend]
      in if v < length setups then Some (setups ! v) else None)"

definition BANK_ACCOUNT_SIZE :: nat where "BANK_ACCOUNT_SIZE = 8 + 1856"
definition BANK_CONFIG_BODY_OFFSET :: nat where "BANK_CONFIG_BODY_OFFSET = 288"
definition BANK_CONFIG_SIZE :: nat where "BANK_CONFIG_SIZE = 544"

definition BANK_DISCRIMINATOR :: bytes where
  "BANK_DISCRIMINATOR = [142, 49, 166, 242, 50, 66, 97, 188]"

text \<open>The view of a bank's configuration: its bytes.\<close>

definition bank_config_view :: "bytes \<Rightarrow> bytes res" where
  "bank_config_view data =
     ebind (require (length data = BANK_ACCOUNT_SIZE) (Adapter InvalidIntegrationAccount)) (\<lambda>_.
     ebind (require (take 8 data = BANK_DISCRIMINATOR) (Adapter InvalidIntegrationAccount)) (\<lambda>_.
     Inr (bytes_at (8 + BANK_CONFIG_BODY_OFFSET) BANK_CONFIG_SIZE data)))"

definition cfg_oracle_setup :: "bytes \<Rightarrow> oracle_setup option" where
  "cfg_oracle_setup raw = oracle_setup_from_u8 (unat (raw ! 313))"

definition cfg_oracle_key :: "bytes \<Rightarrow> nat \<Rightarrow> pubkey" where
  "cfg_oracle_key raw idx = le_nat (bytes_at (314 + idx * 32) 32 raw)"

definition cfg_oracle_max_age :: "bytes \<Rightarrow> nat" where
  "cfg_oracle_max_age raw = le_nat (bytes_at 504 2 raw)"

definition cfg_oracle_max_confidence :: "bytes \<Rightarrow> nat" where
  "cfg_oracle_max_confidence raw = le_nat (bytes_at 508 4 raw)"

definition expected_oracle_account_count :: "oracle_setup \<Rightarrow> nat option" where
  "expected_oracle_account_count setup =
     (case setup of
        PythPushOracle \<Rightarrow> Some 1
      | SwitchboardPull \<Rightarrow> Some 1
      | StakedWithPythPush \<Rightarrow> Some 3
      | _ \<Rightarrow> None)"

section \<open>Age and confidence\<close>

definition DEFAULT_ORACLE_MAX_AGE_SECS :: int where "DEFAULT_ORACLE_MAX_AGE_SECS = 300"
definition MAX_FUTURE_SKEW_SECS :: int where "MAX_FUTURE_SKEW_SECS = 900"

definition oracle_timestamp_acceptable :: "int \<Rightarrow> int \<Rightarrow> bool" where
  "oracle_timestamp_acceptable age effective_max_age = (- MAX_FUTURE_SKEW_SECS \<le> age \<and> age < effective_max_age)"

definition CONF_INTERVAL_MULTIPLE_BPS :: nat where "CONF_INTERVAL_MULTIPLE_BPS = 21200"
definition STD_DEV_MULTIPLE_BPS :: nat where "STD_DEV_MULTIPLE_BPS = 19600"
definition BPS_DIVISOR :: nat where "BPS_DIVISOR = 10000"
definition DEFAULT_MAX_CONF_PCT_BPS :: nat where "DEFAULT_MAX_CONF_PCT_BPS = 1000"
definition U32_MAX_AS_U128 :: nat where "U32_MAX_AS_U128 = 4294967295"

definition check_confidence_interval :: "nat \<Rightarrow> nat \<Rightarrow> nat \<Rightarrow> nat \<Rightarrow> unit res" where
  "check_confidence_interval price_fp48 conf_fp48 multiplier_bps oracle_max_confidence =
     (if conf_fp48 = 0 then Inr ()
      else
        ebind (mul_div conf_fp48 multiplier_bps BPS_DIVISOR False) (\<lambda>inflated_conf.
        ebind (if 0 < oracle_max_confidence
               then mul_div price_fp48 oracle_max_confidence U32_MAX_AS_U128 False
               else mul_div price_fp48 DEFAULT_MAX_CONF_PCT_BPS BPS_DIVISOR False) (\<lambda>max_conf_fp48.
        require (inflated_conf \<le> max_conf_fp48) (Adapter OracleMaxConfidenceExceeded))))"

definition scale_to_fp48 :: "nat \<Rightarrow> int \<Rightarrow> nat res" where
  "scale_to_fp48 v exponent =
     (if 0 \<le> exponent then
        ebind (pow10_u128 (nat exponent)) (\<lambda>factor.
        ebind (mul_div v factor 1 False) (\<lambda>scaled_value.
        to_scaled scaled_value))
      else
        ebind (pow10_u128 (nat (- exponent))) (\<lambda>denom.
        ebind (mul_div v SCALE denom False) (\<lambda>scaled.
        ebind (require (scaled \<noteq> 0) (Adapter OracleNonPositive)) (\<lambda>_.
        Inr scaled))))"

section \<open>The messages\<close>

text \<open>Price, confidence, exponent and publication time of a Pyth message, after its verification tag.\<close>

definition PYTH_VERIFICATION_LEVEL_OFFSET :: nat where "PYTH_VERIFICATION_LEVEL_OFFSET = 8 + 32"
definition PYTH_PRICE_OFFSET :: nat where "PYTH_PRICE_OFFSET = 8 + 33 + 32"

definition pyth_fields :: "bytes \<Rightarrow> int \<times> nat \<times> int \<times> int" where
  "pyth_fields data =
     (let conf_offset = PYTH_PRICE_OFFSET + 8; exponent_offset = conf_offset + 8; publish_time_offset = exponent_offset + 4 in
      (le_int (bytes_at PYTH_PRICE_OFFSET 8 data), le_nat (bytes_at conf_offset 8 data),
       le_int (bytes_at exponent_offset 4 data), le_int (bytes_at publish_time_offset 8 data)))"

definition decode_pyth_push :: "bytes \<Rightarrow> nat \<Rightarrow> (nat \<times> int) res" where
  "decode_pyth_push data oracle_max_confidence =
     ebind (require (PYTH_VERIFICATION_LEVEL_OFFSET + 1 \<le> length data) (Adapter InvalidIntegrationAccount)) (\<lambda>_.
     ebind (require (unat (data ! PYTH_VERIFICATION_LEVEL_OFFSET) = 1) (Adapter OracleSetupUnsupported)) (\<lambda>_.
     ebind (require (PYTH_PRICE_OFFSET + 8 + 8 + 4 + 8 \<le> length data) (Adapter InvalidIntegrationAccount)) (\<lambda>_.
     let (price, conf, exponent, publish_time) = pyth_fields data in
     ebind (require (0 < price) (Adapter OracleNonPositive)) (\<lambda>_.
     ebind (require (conf \<noteq> 0) (Adapter OracleMaxConfidenceExceeded)) (\<lambda>_.
     ebind (require (- 12 \<le> exponent \<and> exponent \<le> 2) (Adapter OracleSetupUnsupported)) (\<lambda>_.
     ebind (scale_to_fp48 (nat price) exponent) (\<lambda>price_fp48.
     ebind (scale_to_fp48 conf exponent) (\<lambda>conf_fp48.
     ebind (check_confidence_interval price_fp48 conf_fp48 CONF_INTERVAL_MULTIPLE_BPS oracle_max_confidence) (\<lambda>_.
     Inr (price_fp48, publish_time))))))))))"

definition SWB_MIN_SAMPLE_SIZE_OFFSET :: nat where "SWB_MIN_SAMPLE_SIZE_OFFSET = 8 + 2207"
definition SWB_LAST_UPDATE_TS_OFFSET :: nat where "SWB_LAST_UPDATE_TS_OFFSET = 8 + 2208"
definition SWB_RESULT_VALUE_OFFSET :: nat where "SWB_RESULT_VALUE_OFFSET = 8 + 2256"
definition SWB_RESULT_STD_DEV_OFFSET :: nat where "SWB_RESULT_STD_DEV_OFFSET = 8 + 2272"
definition SWB_RESULT_NUM_SAMPLES_OFFSET :: nat where "SWB_RESULT_NUM_SAMPLES_OFFSET = 8 + 2352"
definition SWB_PRECISION :: nat where "SWB_PRECISION = 18"

text \<open>Value, standard deviation and time of a Switchboard result.\<close>

definition swb_fields :: "bytes \<Rightarrow> int \<times> int \<times> int" where
  "swb_fields data =
     (le_int (bytes_at SWB_RESULT_VALUE_OFFSET 16 data), le_int (bytes_at SWB_RESULT_STD_DEV_OFFSET 16 data),
      le_int (bytes_at SWB_LAST_UPDATE_TS_OFFSET 8 data))"

definition decode_switchboard_pull :: "bytes \<Rightarrow> nat \<Rightarrow> (nat \<times> int) res" where
  "decode_switchboard_pull data oracle_max_confidence =
     ebind (require (SWB_RESULT_NUM_SAMPLES_OFFSET + 1 \<le> length data) (Adapter InvalidIntegrationAccount)) (\<lambda>_.
     let min_sample_size = unat (data ! SWB_MIN_SAMPLE_SIZE_OFFSET); num_samples = unat (data ! SWB_RESULT_NUM_SAMPLES_OFFSET) in
     ebind (require (min_sample_size \<le> num_samples \<and> 0 < num_samples) (Adapter OracleSetupUnsupported)) (\<lambda>_.
     let (result_value, std_dev, last_update_ts) = swb_fields data in
     ebind (require (0 < result_value) (Adapter OracleNonPositive)) (\<lambda>_.
     ebind (pow10_u128 SWB_PRECISION) (\<lambda>denom.
     ebind (mul_div (nat result_value) SCALE denom False) (\<lambda>price_fp48.
     ebind (if 0 < std_dev then mul_div (nat std_dev) SCALE denom False else Inr 0) (\<lambda>std_dev_fp48.
     ebind (check_confidence_interval price_fp48 std_dev_fp48 STD_DEV_MULTIPLE_BPS oracle_max_confidence) (\<lambda>_.
     Inr (price_fp48, last_update_ts))))))))"

section \<open>The price of a liquid-staking token\<close>

definition SOL_DECIMALS :: nat where "SOL_DECIMALS = 9"
definition LAMPORTS_PER_SOL :: nat where "LAMPORTS_PER_SOL = 1000000000"

definition read_spl_mint_supply_and_decimals :: "bytes \<Rightarrow> (nat \<times> nat) res" where
  "read_spl_mint_supply_and_decimals data =
     ebind (require (44 + 1 \<le> length data) (Adapter InvalidIntegrationAccount)) (\<lambda>_.
     Inr (le_nat (bytes_at 36 8 data), unat (data ! 44)))"

datatype stake_state = Stake nat | NotDelegated

definition read_stake_state_v2_delegated_lamports :: "(bytes \<Rightarrow> stake_state option) \<Rightarrow> bytes \<Rightarrow> nat res" where
  "read_stake_state_v2_delegated_lamports decode_stake data =
     ebind (ok_or (decode_stake data) (Adapter InvalidIntegrationAccount)) (\<lambda>state.
     case state of Stake lamports \<Rightarrow> Inr lamports | NotDelegated \<Rightarrow> Inl (Adapter OracleSetupUnsupported))"

definition staked_price ::
  "program_ids \<Rightarrow> (bytes \<Rightarrow> stake_state option) \<Rightarrow> bytes \<Rightarrow> account_view \<Rightarrow> account_view \<Rightarrow> bytes \<Rightarrow> (nat \<times> int) res" where
  "staked_price ids decode_stake raw lst_mint stake_account oracle_data =
     ebind (require (av_key lst_mint = cfg_oracle_key raw 1) (Custom IncorrectAccount)) (\<lambda>_.
     ebind (require (av_key stake_account = cfg_oracle_key raw 2) (Custom IncorrectAccount)) (\<lambda>_.
     ebind (require (av_owner lst_mint = pi_spl_token ids \<or> av_owner lst_mint = pi_spl_token_2022 ids) (Custom IncorrectAccount)) (\<lambda>_.
     ebind (require (av_owner stake_account = pi_stake ids) (Custom IncorrectAccount)) (\<lambda>_.
     ebind (read_spl_mint_supply_and_decimals (av_data lst_mint)) (\<lambda>(lst_supply, lst_decimals).
     ebind (require (0 < lst_supply) (Adapter OracleSetupUnsupported)) (\<lambda>_.
     ebind (require (lst_decimals = SOL_DECIMALS) (Adapter OracleSetupUnsupported)) (\<lambda>_.
     ebind (read_stake_state_v2_delegated_lamports decode_stake (av_data stake_account)) (\<lambda>sol_pool_balance.
     ebind (ok_or (checked_sub sol_pool_balance LAMPORTS_PER_SOL) (Adapter OracleSetupUnsupported)) (\<lambda>sol_pool_adjusted.
     ebind (require (0 < sol_pool_adjusted) (Adapter OracleSetupUnsupported)) (\<lambda>_.
     ebind (decode_pyth_push oracle_data (cfg_oracle_max_confidence raw)) (\<lambda>(raw_pyth_fp48, ts).
     ebind (mul_div raw_pyth_fp48 sol_pool_adjusted lst_supply False) (\<lambda>adjusted_fp48.
     ebind (require (0 < adjusted_fp48) (Adapter OracleNonPositive)) (\<lambda>_.
     Inr (adjusted_fp48, ts))))))))))))))"

section \<open>The price of a bank\<close>

definition setup_price ::
  "program_ids \<Rightarrow> (bytes \<Rightarrow> stake_state option) \<Rightarrow> oracle_setup \<Rightarrow> bytes \<Rightarrow> account_view list \<Rightarrow> (nat \<times> int) res" where
  "setup_price ids decode_stake setup raw oracle_accounts =
     (let oracle_data = av_data (oracle_accounts ! 0) in
      case setup of
        PythPushOracle \<Rightarrow> decode_pyth_push oracle_data (cfg_oracle_max_confidence raw)
      | SwitchboardPull \<Rightarrow> decode_switchboard_pull oracle_data (cfg_oracle_max_confidence raw)
      | StakedWithPythPush \<Rightarrow> staked_price ids decode_stake raw (oracle_accounts ! 1) (oracle_accounts ! 2) oracle_data
      | _ \<Rightarrow> Inl (Adapter OracleSetupUnsupported))"

definition read_oracle_price ::
  "program_ids \<Rightarrow> (bytes \<Rightarrow> stake_state option) \<Rightarrow> int \<Rightarrow> account_view list \<Rightarrow> nat res" where
  "read_oracle_price ids decode_stake now accounts =
     (case accounts of
        [] \<Rightarrow> Inl (Adapter InvalidIntegrationAccount)
      | bank # oracle_accounts \<Rightarrow>
          ebind (require (av_owner bank = pi_marginfi ids) (Adapter InvalidIntegrationAccount)) (\<lambda>_.
          ebind (bank_config_view (av_data bank)) (\<lambda>raw.
          ebind (ok_or (cfg_oracle_setup raw) (Adapter OracleSetupUnsupported)) (\<lambda>setup.
          ebind (ok_or (expected_oracle_account_count setup) (Adapter OracleSetupUnsupported)) (\<lambda>expected.
          ebind (require (length oracle_accounts = expected) (Adapter OracleSetupUnsupported)) (\<lambda>_.
          let primary = oracle_accounts ! 0 in
          ebind (require (av_key primary = cfg_oracle_key raw 0) (Adapter OracleAccountMismatch)) (\<lambda>_.
          ebind (if setup = PythPushOracle \<or> setup = StakedWithPythPush then Inr (pi_pyth_push ids)
                 else if setup = SwitchboardPull then Inr (pi_switchboard ids)
                 else Inl (Adapter OracleSetupUnsupported)) (\<lambda>expected_owner.
          ebind (require (av_owner primary = expected_owner) (Adapter OracleAccountMismatch)) (\<lambda>_.
          ebind (setup_price ids decode_stake setup raw oracle_accounts) (\<lambda>(price_fp48, publish_time).
          let max_age = int (cfg_oracle_max_age raw);
              effective_max_age = (if max_age = 0 then DEFAULT_ORACLE_MAX_AGE_SECS else max_age) in
          ebind (ok_or (i64_checked_sub now publish_time) Panic) (\<lambda>age.
          ebind (require (oracle_timestamp_acceptable age effective_max_age) (Adapter OracleStale)) (\<lambda>_.
          Inr price_fp48))))))))))))"

section \<open>What an accepted message says\<close>

lemma le_nat_less: "le_nat bs < 256 ^ length bs"
proof (induction bs)
  case (Cons b bs)
  have "unat b < 256" using unsigned_less[of b] by simp
  then show ?case using Cons by simp
qed simp

lemma bytes_at_length: "length (bytes_at off n data) \<le> n"
  by (simp add: bytes_at_def)

lemma le_nat_at_less: "le_nat (bytes_at off n data) < 256 ^ n"
proof -
  have "(256::nat) ^ length (bytes_at off n data) \<le> 256 ^ n" by (rule power_increasing) (simp_all add: bytes_at_length)
  then show ?thesis using le_nat_less[of "bytes_at off n data"] by linarith
qed

lemma le_int_nat: "nat (le_int bs) \<le> le_nat bs"
  by (simp add: le_int_def Let_def nat_le_iff)

text \<open>The feed's number \<open>v\<close>, scaled: \<open>x\<close> is its value rounded down to a multiple of the last place.\<close>

definition scaled_down :: "nat \<Rightarrow> nat \<Rightarrow> nat \<Rightarrow> nat \<Rightarrow> bool" where
  "scaled_down v num den x = (x * den \<le> v * num * SCALE \<and> v * num * SCALE < (x + 1) * den)"

lemma scaled_downI: "0 < den \<Longrightarrow> x = v * num * SCALE div den \<Longrightarrow> scaled_down v num den x"
  using div_times_less_eq_dividend[of "v * num * SCALE" den] dividend_less_div_times[of den "v * num * SCALE"]
  by (simp add: scaled_down_def)

lemma scale_to_fp48_Inr:
  assumes "scale_to_fp48 v e = Inr x" "v < u64_lim" "0 < v" "- 12 \<le> e" "e \<le> 2"
  shows "scaled_down v (10 ^ nat e) (10 ^ nat (- e)) x \<and> 0 < x \<and> x < u128_lim"
proof (cases "0 \<le> e")
  case True
  have v: "v < u128_lim" using assms(2) lim_order by simp
  obtain f y where f: "f = 10 ^ nat e" "f < u128_lim" and y: "mul_div v f 1 False = Inr y" and x: "to_scaled y = Inr x"
    using assms(1) True by (auto simp: scale_to_fp48_def pow10_Inr elim!: ebind_InrE)
  have "y = v * f" using y v f(2) by (simp add: mul_div_floor_Inr)
  then have "x = v * 10 ^ nat e * SCALE" "x < u128_lim" using x f(1) by (auto simp: to_scaled_eq split: if_splits)
  then show ?thesis using True assms(3) SCALE_pos by (simp add: scaled_down_def)
next
  case False
  have v: "v < u128_lim" "SCALE < u128_lim" using assms(2) lim_order by (simp_all add: SCALE_def u128_lim_def)
  obtain d y where d: "d = 10 ^ nat (- e)" and y: "mul_div v SCALE d False = Inr y" and x: "x = y" "y \<noteq> 0"
    using assms(1) False by (auto simp: scale_to_fp48_def pow10_Inr require_Inr elim!: ebind_InrE)
  have "y = v * SCALE div d" "y < u128_lim" using y v by (simp_all add: mul_div_floor_Inr)
  then show ?thesis using scaled_downI[of d x v 1] False x d by simp
qed

text \<open>The bank's bound on the confidence interval as a fraction of the price, ten per cent when none is set, and the
  bound in the units of the feed: the interval, widened by the multiplier, exceeds the fraction of the price by at
  most the rounding of the scaled values.\<close>

definition conf_num :: "nat \<Rightarrow> nat" where "conf_num mc = (if 0 < mc then mc else 1000)"
definition conf_den :: "nat \<Rightarrow> nat" where "conf_den mc = (if 0 < mc then 4294967295 else 10000)"

definition confident :: "nat \<Rightarrow> nat \<Rightarrow> nat \<Rightarrow> nat \<Rightarrow> nat \<Rightarrow> bool" where
  "confident multiplier den mc p c =
     (multiplier * c * conf_den mc < 10000 * p * conf_num mc + ((10000 + multiplier) * den div SCALE + 1) * conf_den mc)"

lemma check_confidence_Inr:
  assumes "check_confidence_interval p c k mc = Inr u" "p < u128_lim" "c < u128_lim" "k < u128_lim" "mc < u32_lim"
  shows "c * k div 10000 \<le> p * conf_num mc div conf_den mc"
proof (cases "c = 0")
  case False
  have w: "mc < u128_lim" "(1000::nat) < u128_lim" using assms(5) lim_order by (simp_all add: u128_lim_def)
  then show ?thesis using False assms
    by (auto simp: check_confidence_interval_def mul_div_floor_Inr require_Inr conf_num_def conf_den_def BPS_DIVISOR_def
        U32_MAX_AS_U128_def DEFAULT_MAX_CONF_PCT_BPS_def elim!: ebind_InrE split: if_splits)
qed simp

lemma confident_units:
  assumes x: "scaled_down p num den xp" "scaled_down c num den xc" and n: "0 < num"
    and le: "xc * k div 10000 \<le> xp * conf_num mc div conf_den mc"
  shows "confident k den mc p c"
proof -
  let ?N = "conf_num mc" and ?M = "conf_den mc" and ?S = "num * SCALE"
  have M: "0 < ?M" by (simp add: conf_den_def)
  have S: "0 < ?S" using n SCALE_pos by simp
  have "xc * k < (xc * k div 10000 + 1) * 10000" using dividend_less_div_times[of 10000 "xc * k"] by simp
  also have "\<dots> \<le> (xp * ?N div ?M + 1) * 10000" using le by simp
  finally have "xc * k * ?M < (xp * ?N div ?M + 1) * 10000 * ?M" using M by simp
  also have "\<dots> = (xp * ?N div ?M * ?M + ?M) * 10000" by (simp add: algebra_simps)
  also have "\<dots> \<le> (xp * ?N + ?M) * 10000" using div_times_less_eq_dividend[of "xp * ?N" ?M] by simp
  finally have a: "xc * k * ?M \<le> (xp * ?N + ?M) * 10000" by simp
  have "k * c * ?M * ?S = k * ?M * (c * num * SCALE)" by (simp only: ac_simps)
  also have "\<dots> \<le> k * ?M * ((xc + 1) * den)" using x(2) by (intro mult_le_mono2) (simp add: scaled_down_def)
  also have "\<dots> = den * (xc * k * ?M) + den * k * ?M" by (simp add: algebra_simps)
  also have "\<dots> \<le> den * ((xp * ?N + ?M) * 10000) + den * k * ?M" using a by simp
  also have "\<dots> = 10000 * ?N * (xp * den) + (10000 + k) * den * ?M" by (simp add: algebra_simps)
  also have "\<dots> \<le> 10000 * ?N * (p * num * SCALE) + (10000 + k) * den * ?M" using x(1) by (simp add: scaled_down_def)
  also have "\<dots> < 10000 * ?N * (p * num * SCALE) + (((10000 + k) * den div SCALE + 1) * SCALE) * ?M"
  proof -
    have "(10000 + k) * den < ((10000 + k) * den div SCALE + 1) * SCALE"
      using dividend_less_div_times[OF SCALE_pos, of "(10000 + k) * den"] by simp
    then show ?thesis using M by simp
  qed
  also have "\<dots> \<le> 10000 * ?N * (p * num * SCALE) + (((10000 + k) * den div SCALE + 1) * ?S) * ?M"
    using n by (intro add_left_mono mult_le_mono1 mult_le_mono2) simp
  also have "\<dots> = (10000 * p * ?N + ((10000 + k) * den div SCALE + 1) * ?M) * ?S" by (simp add: algebra_simps)
  finally show ?thesis using S by (simp add: confident_def)
qed

text \<open>A Pyth message is accepted as \<open>x\<close> at time \<open>t\<close>.\<close>

definition pyth_quote :: "bytes \<Rightarrow> nat \<Rightarrow> nat \<Rightarrow> int \<Rightarrow> bool" where
  "pyth_quote data mc x t =
     (\<exists>p c e. pyth_fields data = (p, c, e, t) \<and> unat (data ! 40) = 1 \<and> 0 < p \<and> 0 < c \<and> - 12 \<le> e \<and> e \<le> 2 \<and> 0 < x \<and>
        scaled_down (nat p) (10 ^ nat e) (10 ^ nat (- e)) x \<and> confident 21200 (10 ^ nat (- e)) mc (nat p) c)"

text \<open>A Switchboard result is accepted as \<open>x\<close> at time \<open>t\<close>.\<close>

definition switchboard_quote :: "bytes \<Rightarrow> nat \<Rightarrow> nat \<Rightarrow> int \<Rightarrow> bool" where
  "switchboard_quote data mc x t =
     (\<exists>p c. swb_fields data = (p, c, t) \<and> unat (data ! 2215) \<le> unat (data ! 2360) \<and> 0 < unat (data ! 2360) \<and> 0 < p \<and>
        scaled_down (nat p) 1 (10 ^ 18) x \<and> (0 < c \<longrightarrow> confident 19600 (10 ^ 18) mc (nat p) (nat c)))"

lemma field_width:
  assumes "pyth_fields data = (p, c, e, t)"
  shows "nat p < u64_lim \<and> c < u64_lim"
  using assms le_nat_at_less[of 73 8 data] le_nat_at_less[of 81 8 data] le_int_nat[of "bytes_at 73 8 data"]
  by (auto simp: pyth_fields_def PYTH_PRICE_OFFSET_def u64_lim_def Let_def)

lemma decode_pyth_Inr:
  assumes "decode_pyth_push data mc = Inr (x, t)" "mc < u32_lim"
  shows "pyth_quote data mc x t \<and> x < u128_lim"
proof -
  obtain p c e where f: "pyth_fields data = (p, c, e, t)" by (cases "pyth_fields data") (use assms(1) in \<open>auto simp: decode_pyth_push_def Let_def elim!: ebind_InrE\<close>)
  obtain y u where g: "unat (data ! 40) = 1" "0 < p" "0 < c" "- 12 \<le> e" "e \<le> 2" and x: "scale_to_fp48 (nat p) e = Inr x"
    and y: "scale_to_fp48 c e = Inr y" and k: "check_confidence_interval x y 21200 mc = Inr u"
    using assms(1) f by (auto simp: decode_pyth_push_def Let_def require_Inr PYTH_VERIFICATION_LEVEL_OFFSET_def CONF_INTERVAL_MULTIPLE_BPS_def elim!: ebind_InrE)
  note w = field_width[OF f]
  have X: "scaled_down (nat p) (10 ^ nat e) (10 ^ nat (- e)) x \<and> 0 < x \<and> x < u128_lim"
    by (rule scale_to_fp48_Inr[OF x]) (use w g in simp_all)
  have Y: "scaled_down c (10 ^ nat e) (10 ^ nat (- e)) y \<and> 0 < y \<and> y < u128_lim"
    by (rule scale_to_fp48_Inr[OF y]) (use w g in simp_all)
  have le: "y * 21200 div 10000 \<le> x * conf_num mc div conf_den mc"
    by (rule check_confidence_Inr[OF k]) (use X Y assms(2) in \<open>simp_all add: u128_lim_def\<close>)
  have "confident 21200 (10 ^ nat (- e)) mc (nat p) c"
    by (rule confident_units[OF conjunct1[OF X] conjunct1[OF Y] _ le]) simp
  then show ?thesis using f g X by (auto simp: pyth_quote_def)
qed

lemma decode_switchboard_Inr:
  assumes "decode_switchboard_pull data mc = Inr (x, t)" "mc < u32_lim"
  shows "switchboard_quote data mc x t \<and> x < u128_lim"
proof -
  obtain p c where f: "swb_fields data = (p, c, t)" by (cases "swb_fields data") (use assms(1) in \<open>auto simp: decode_switchboard_pull_def Let_def elim!: ebind_InrE\<close>)
  have wp: "nat p < u128_lim" "nat c < u128_lim"
    using f le_nat_at_less[of 2264 16 data] le_int_nat[of "bytes_at 2264 16 data"] le_nat_at_less[of 2280 16 data] le_int_nat[of "bytes_at 2280 16 data"]
    by (auto simp: swb_fields_def SWB_RESULT_VALUE_OFFSET_def SWB_RESULT_STD_DEV_OFFSET_def u128_lim_def)
  have S: "SCALE < u128_lim" by (simp add: SCALE_def u128_lim_def)
  obtain d y u where g: "unat (data ! 2215) \<le> unat (data ! 2360)" "0 < unat (data ! 2360)" "0 < p" and d: "d = 10 ^ 18"
    and x: "mul_div (nat p) SCALE d False = Inr x" and y: "(if 0 < c then mul_div (nat c) SCALE d False else Inr 0) = Inr y"
    and k: "check_confidence_interval x y 19600 mc = Inr u"
    using assms(1) f unfolding decode_switchboard_pull_def Let_def SWB_PRECISION_def STD_DEV_MULTIPLE_BPS_def
      SWB_MIN_SAMPLE_SIZE_OFFSET_def SWB_RESULT_NUM_SAMPLES_OFFSET_def
    by (elim ebind_InrE) (simp add: require_Inr pow10_Inr, elim ebind_InrE, simp add: require_Inr pow10_Inr)
  have X: "scaled_down (nat p) 1 (10 ^ 18) x" "x < u128_lim"
    using x wp S d by (auto simp: mul_div_floor_Inr intro!: scaled_downI)
  have "confident 19600 (10 ^ 18) mc (nat p) (nat c)" if "0 < c"
  proof -
    have Y: "scaled_down (nat c) 1 (10 ^ 18) y" "y < u128_lim"
      using y that wp S d by (auto simp: mul_div_floor_Inr intro!: scaled_downI)
    have le: "y * 19600 div 10000 \<le> x * conf_num mc div conf_den mc"
      by (rule check_confidence_Inr[OF k]) (use X Y assms(2) in \<open>simp_all add: u128_lim_def\<close>)
    show ?thesis by (rule confident_units[OF X(1) Y(1) _ le]) simp
  qed
  then show ?thesis using f g X by (auto simp: switchboard_quote_def)
qed

text \<open>A liquid-staking token's price: the quote of the staked token times the pool's delegated stake beyond the first
  unit, over the supply of the token.\<close>

definition staked_quote ::
  "program_ids \<Rightarrow> (bytes \<Rightarrow> stake_state option) \<Rightarrow> bytes \<Rightarrow> account_view \<Rightarrow> account_view \<Rightarrow> bytes \<Rightarrow> nat \<Rightarrow> int \<Rightarrow> bool" where
  "staked_quote ids decode_stake raw mint stake data x t =
   (\<exists>q lamports. pyth_quote data (cfg_oracle_max_confidence raw) q t \<and> av_key mint = cfg_oracle_key raw 1 \<and>
    av_key stake = cfg_oracle_key raw 2 \<and> av_owner mint \<in> {pi_spl_token ids, pi_spl_token_2022 ids} \<and> av_owner stake = pi_stake ids \<and>
    decode_stake (av_data stake) = Some (Stake lamports) \<and> 10 ^ 9 < lamports \<and> 0 < le_nat (bytes_at 36 8 (av_data mint)) \<and>
    unat (av_data mint ! 44) = 9 \<and> 0 < x \<and>
    (lamports < u128_lim \<longrightarrow> x = q * (lamports - 10 ^ 9) div le_nat (bytes_at 36 8 (av_data mint))))"

lemma staked_price_Inr:
  assumes "staked_price ids decode_stake raw mint stake data = Inr (x, t)" "cfg_oracle_max_confidence raw < u32_lim"
  shows "staked_quote ids decode_stake raw mint stake data x t"
proof -
  let ?sup = "le_nat (bytes_at 36 8 (av_data mint))"
  obtain q lamports where g: "av_key mint = cfg_oracle_key raw 1" "av_key stake = cfg_oracle_key raw 2"
      "av_owner mint \<in> {pi_spl_token ids, pi_spl_token_2022 ids}" "av_owner stake = pi_stake ids"
      "decode_stake (av_data stake) = Some (Stake lamports)" "10 ^ 9 < lamports" "0 < ?sup" "unat (av_data mint ! 44) = 9" "0 < x"
    and q: "decode_pyth_push data (cfg_oracle_max_confidence raw) = Inr (q, t)" and m: "mul_div q (lamports - 10 ^ 9) ?sup False = Inr x"
    using assms(1) unfolding staked_price_def read_spl_mint_supply_and_decimals_def read_stake_state_v2_delegated_lamports_def
    by (elim result_elims)
      (auto simp: require_Inr ok_or_Inr checked_sub_Some SOL_DECIMALS_def LAMPORTS_PER_SOL_def split: stake_state.splits elim!: ebind_InrE)
  note Q = decode_pyth_Inr[OF q assms(2)]
  have "x = q * (lamports - 10 ^ 9) div ?sup" if "lamports < u128_lim" using m Q that by (simp add: mul_div_floor_Inr)
  then show ?thesis using g Q unfolding staked_quote_def by blast
qed

text \<open>C30. A price that is read can be used: it comes from the bank's own feed, is fresh, and the feed is confident
  enough. The bank is an account of the lending program with its layout; exactly the accounts its setup asks
  for are given; the first is the configured feed, owned by the program that publishes feeds of that kind; and it
  was published less than the bank's age limit ago, five minutes when none is set, and at most fifteen minutes ahead.
  For a Pyth feed the message is fully verified, price and confidence are positive and the price is
  the message's, scaled and rounded down, and never zero; for a Switchboard feed enough oracles answered. The interval
  of confidence, widened by the margin for its kind, is at most the bank's part of the price, ten per cent when none
  is set, up to the rounding of the scale. The price of a liquid-staking token is its feed's price times
  the pool's stake per token, read from the configured mint and stake account, and never zero.\<close>

theorem accepted_price_is_sound:
  assumes r: "read_oracle_price ids decode_stake now accounts = Inr x"
  shows "\<exists>bank feed rest raw t. accounts = bank # feed # rest \<and> av_owner bank = pi_marginfi ids \<and> length (av_data bank) = 1864 \<and>
    take 8 (av_data bank) = BANK_DISCRIMINATOR \<and> raw = bytes_at 296 544 (av_data bank) \<and> av_key feed = cfg_oracle_key raw 0 \<and>
    t \<le> now + 900 \<and> now < t + (if cfg_oracle_max_age raw = 0 then 300 else int (cfg_oracle_max_age raw)) \<and>
    (case cfg_oracle_setup raw of
       Some PythPushOracle \<Rightarrow> rest = [] \<and> av_owner feed = pi_pyth_push ids \<and>
         pyth_quote (av_data feed) (cfg_oracle_max_confidence raw) x t
     | Some SwitchboardPull \<Rightarrow> rest = [] \<and> av_owner feed = pi_switchboard ids \<and>
         switchboard_quote (av_data feed) (cfg_oracle_max_confidence raw) x t
     | Some StakedWithPythPush \<Rightarrow> av_owner feed = pi_pyth_push ids \<and>
         (\<exists>mint stake. rest = [mint, stake] \<and> staked_quote ids decode_stake raw mint stake (av_data feed) x t)
     | _ \<Rightarrow> False)"
proof -
  obtain bank accs where acc: "accounts = bank # accs" using r by (cases accounts) (simp_all add: read_oracle_price_def)
  obtain raw su n own t age where b: "av_owner bank = pi_marginfi ids" "bank_config_view (av_data bank) = Inr raw"
    and st: "cfg_oracle_setup raw = Some su" "expected_oracle_account_count su = Some n" "length accs = n"
    and k: "av_key (accs ! 0) = cfg_oracle_key raw 0"
    and ow: "(if su = PythPushOracle \<or> su = StakedWithPythPush then Inr (pi_pyth_push ids)
                 else if su = SwitchboardPull then Inr (pi_switchboard ids)
                 else Inl (Adapter OracleSetupUnsupported)) = (Inr own :: pubkey res)" "av_owner (accs ! 0) = own"
    and pr: "setup_price ids decode_stake su raw accs = Inr (x, t)"
    and a: "i64_checked_sub now t = Some age"
      "oracle_timestamp_acceptable age (if int (cfg_oracle_max_age raw) = 0 then DEFAULT_ORACLE_MAX_AGE_SECS else int (cfg_oracle_max_age raw))"
    using r unfolding read_oracle_price_def acc Let_def
    by (simp only: list.case) (elim result_elims, simp only: require_Inr ok_or_Inr sum.inject prod.inject)
  have raw: "length (av_data bank) = 1864" "take 8 (av_data bank) = BANK_DISCRIMINATOR" "raw = bytes_at 296 544 (av_data bank)"
    using b(2) by (auto simp: bank_config_view_def require_Inr BANK_ACCOUNT_SIZE_def BANK_CONFIG_BODY_OFFSET_def BANK_CONFIG_SIZE_def elim!: ebind_InrE)
  have t: "t \<le> now + 900" "now < t + (if cfg_oracle_max_age raw = 0 then 300 else int (cfg_oracle_max_age raw))"
    using a by (auto simp: i64_checked_sub_def oracle_timestamp_acceptable_def DEFAULT_ORACLE_MAX_AGE_SECS_def MAX_FUTURE_SKEW_SECS_def split: if_splits)
  have mc: "cfg_oracle_max_confidence raw < u32_lim"
    using le_nat_at_less[of 508 4 raw] by (simp add: cfg_oracle_max_confidence_def u32_lim_def)
  show ?thesis
  proof (cases su)
    case PythPushOracle
    then obtain feed where f: "accs = [feed]" using st by (auto simp: expected_oracle_account_count_def length_Suc_conv)
    have "pyth_quote (av_data feed) (cfg_oracle_max_confidence raw) x t"
      using decode_pyth_Inr[OF _ mc] pr f PythPushOracle by (simp add: setup_price_def)
    then show ?thesis using acc f b(1) raw k t st(1) ow PythPushOracle by auto
  next
    case SwitchboardPull
    then obtain feed where f: "accs = [feed]" using st by (auto simp: expected_oracle_account_count_def length_Suc_conv)
    have "switchboard_quote (av_data feed) (cfg_oracle_max_confidence raw) x t"
      using decode_switchboard_Inr[OF _ mc] pr f SwitchboardPull by (simp add: setup_price_def)
    then show ?thesis using acc f b(1) raw k t st(1) ow SwitchboardPull by auto
  next
    case StakedWithPythPush
    then obtain feed mint stake where f: "accs = [feed, mint, stake]"
      using st by (auto simp: expected_oracle_account_count_def length_Suc_conv numeral_3_eq_3)
    then have "staked_price ids decode_stake raw mint stake (av_data feed) = Inr (x, t)"
      using pr StakedWithPythPush by (simp add: setup_price_def numeral_2_eq_2)
    then show ?thesis using staked_price_Inr[OF _ mc] acc f b(1) raw k t st(1) ow StakedWithPythPush by auto
  qed (use pr in \<open>simp_all add: setup_price_def\<close>)
qed

text \<open>A bank with a Pyth feed, and a message that says 1.00000000 with a confidence of 0.00000050.\<close>

definition sample_ids :: program_ids where
  "sample_ids = \<lparr> pi_marginfi = 99, pi_pyth_push = 98, pi_switchboard = 97, pi_spl_token = 96, pi_spl_token_2022 = 95, pi_stake = 94 \<rparr>"

definition sample_pyth_bank :: account_view where
  "sample_pyth_bank = \<lparr> av_key = 1, av_owner = 99,
     av_data = BANK_DISCRIMINATOR @ replicate 601 0 @ [3, 7] @ replicate 1253 0 \<rparr>"

definition sample_feed :: account_view where
  "sample_feed = \<lparr> av_key = 7, av_owner = 98,
     av_data = replicate 40 0 @ [1] @ replicate 32 0 @ [0, 225, 245, 5, 0, 0, 0, 0, 50, 0, 0, 0, 0, 0, 0, 0, 248, 255, 255, 255,
       0, 241, 83, 101, 0, 0, 0, 0] @ replicate 33 0 \<rparr>"

lemma sample_fields: "pyth_fields (av_data sample_feed) = (100000000, 50, - 8, 1700000000)"
  by (simp add: pyth_fields_def sample_feed_def PYTH_PRICE_OFFSET_def bytes_at_def le_int_def)

lemma sample_decoded: "decode_pyth_push (av_data sample_feed) 0 = Inr (SCALE, 1700000000)"
proof -
  have l: "length (av_data sample_feed) = 134" "unat (av_data sample_feed ! 40) = 1" by (simp_all add: sample_feed_def nth_append)
  have p: "pow10_u128 8 = Inr 100000000" by (simp add: pow10_Inr u128_lim_def)
  show ?thesis
    by (simp add: decode_pyth_push_def sample_fields l PYTH_VERIFICATION_LEVEL_OFFSET_def PYTH_PRICE_OFFSET_def scale_to_fp48_def p
        mul_div_eq SCALE_def u128_lim_def Let_def check_confidence_interval_def CONF_INTERVAL_MULTIPLE_BPS_def BPS_DIVISOR_def
        DEFAULT_MAX_CONF_PCT_BPS_def)
qed

definition sample_raw :: bytes where
  "sample_raw = replicate 313 0 @ [3, 7] @ replicate 229 0"

lemma sample_bank_view: "bank_config_view (av_data sample_pyth_bank) = Inr sample_raw"
  by (simp add: sample_raw_def bank_config_view_def sample_pyth_bank_def BANK_DISCRIMINATOR_def BANK_ACCOUNT_SIZE_def BANK_CONFIG_BODY_OFFSET_def
      BANK_CONFIG_SIZE_def bytes_at_def)

lemma sample_config:
  "cfg_oracle_setup sample_raw = Some PythPushOracle" "cfg_oracle_key sample_raw 0 = 7" "cfg_oracle_max_age sample_raw = 0"
  "cfg_oracle_max_confidence sample_raw = 0"
proof -
  have z: "le_nat (replicate n 0) = 0" for n by (induction n) simp_all
  show "cfg_oracle_setup sample_raw = Some PythPushOracle" "cfg_oracle_key sample_raw 0 = 7" "cfg_oracle_max_age sample_raw = 0"
    "cfg_oracle_max_confidence sample_raw = 0"
    by (simp_all add: sample_raw_def cfg_oracle_setup_def oracle_setup_from_u8_def Let_def nth_append cfg_oracle_key_def cfg_oracle_max_age_def
        cfg_oracle_max_confidence_def bytes_at_def z)
qed

lemma sample_price: "read_oracle_price sample_ids (\<lambda>b. None) 1700000100 [sample_pyth_bank, sample_feed] = Inr SCALE"
proof -
  have k: "av_owner sample_pyth_bank = 99" "av_key sample_feed = 7" "av_owner sample_feed = 98"
    by (simp_all add: sample_pyth_bank_def sample_feed_def)
  show ?thesis
    by (simp add: read_oracle_price_def sample_bank_view sample_config k sample_ids_def expected_oracle_account_count_def setup_price_def sample_decoded
        i64_checked_sub_def i64_lim_def oracle_timestamp_acceptable_def MAX_FUTURE_SKEW_SECS_def DEFAULT_ORACLE_MAX_AGE_SECS_def)
qed

lemma accepted_price_is_sound_witness:
  "\<exists>t. t \<le> 1700001000 \<and> 1700000100 < t + 300 \<and> pyth_quote (av_data sample_feed) 0 SCALE t"
proof -
  let ?raw = "bytes_at 296 544 (av_data sample_pyth_bank)"
  have raw: "?raw = sample_raw"
    using sample_bank_view by (simp add: bank_config_view_def BANK_CONFIG_BODY_OFFSET_def BANK_CONFIG_SIZE_def ebind_Inr)
  show ?thesis
    using accepted_price_is_sound[OF sample_price]
  proof (elim exE conjE)
    fix bank feed rest raw t
    assume a: "[sample_pyth_bank, sample_feed] = bank # feed # rest" "raw = bytes_at 296 544 (av_data bank)"
      and t: "t \<le> 1700000100 + 900" "1700000100 < t + (if cfg_oracle_max_age raw = 0 then 300 else int (cfg_oracle_max_age raw))"
      and c: "case cfg_oracle_setup raw of
         Some PythPushOracle \<Rightarrow> rest = [] \<and> av_owner feed = pi_pyth_push sample_ids \<and> pyth_quote (av_data feed) (cfg_oracle_max_confidence raw) SCALE t
       | Some SwitchboardPull \<Rightarrow> rest = [] \<and> av_owner feed = pi_switchboard sample_ids \<and>
           switchboard_quote (av_data feed) (cfg_oracle_max_confidence raw) SCALE t
       | Some StakedWithPythPush \<Rightarrow> av_owner feed = pi_pyth_push sample_ids \<and>
           (\<exists>mint stake. rest = [mint, stake] \<and> staked_quote sample_ids (\<lambda>b. None) raw mint stake (av_data feed) SCALE t)
       | _ \<Rightarrow> False"
    have "raw = sample_raw" "feed = sample_feed" using a raw by simp_all
    then show ?thesis using t c by (intro exI[of _ t]) (simp add: sample_config)
  qed
qed

text \<open>A Switchboard value is tested for being positive before it is scaled, and the scaling rounds down: a value below
  3553 of its 18-decimal units is accepted as a price of zero. The users of a price refuse zero.\<close>

lemma dust_reads_as_zero:
  assumes "swb_fields data = (p, c, t)" "0 < p" "p \<le> 3552" "c \<le> 0" "2361 \<le> length data"
    and "unat (data ! 2215) \<le> unat (data ! 2360)" "0 < unat (data ! 2360)"
  shows "decode_switchboard_pull data mc = Inr (0, t)"
proof -
  have d: "pow10_u128 18 = Inr (10 ^ 18)" by (simp add: pow10_Inr u128_lim_def)
  have p: "nat p \<le> 3552" "nat p < u128_lim" using assms(3) by (simp_all add: u128_lim_def)
  have "nat p * SCALE \<le> 3552 * SCALE" using p by simp
  then have "nat p * SCALE div 10 ^ 18 = 0" by (simp add: SCALE_def)
  then have "mul_div (nat p) SCALE (10 ^ 18) False = Inr 0" using p by (simp add: mul_div_eq SCALE_def u128_lim_def Let_def)
  then show ?thesis using assms d
    by (simp add: decode_switchboard_pull_def Let_def SWB_PRECISION_def SWB_MIN_SAMPLE_SIZE_OFFSET_def SWB_RESULT_NUM_SAMPLES_OFFSET_def
        check_confidence_interval_def)
qed

end
