(* ===== verification/Rate_Calc.thy ===== *)
theory Rate_Calc
  imports Marginfi
begin

text \<open>The replica of marginfi's accrual in \<open>protocol/marginfi_rate_calc.rs\<close>: the interest-rate curves, the
  lending and borrowing rates at the current utilisation, and the projected share values. The fields the
  code decodes from the raw bank and group accounts are the fields of two records; a negative signed
  pattern in one of them is refused where the code reads it.\<close>

definition MARGINFI_SECONDS_PER_YEAR :: nat where "MARGINFI_SECONDS_PER_YEAR = 31557600"
definition INTEREST_CURVE_LEGACY :: nat where "INTEREST_CURVE_LEGACY = 0"
definition INTEREST_CURVE_SEVEN_POINT :: nat where "INTEREST_CURVE_SEVEN_POINT = 1"

record raw_rate_bank =
  rw_owner :: pubkey
  rw_last_update :: int
  rw_asset_share_value :: int
  rw_liability_share_value :: int
  rw_total_asset_shares :: int
  rw_total_liability_shares :: int
  rw_optimal_utilization_rate :: int
  rw_plateau_interest_rate :: int
  rw_max_interest_rate :: int
  rw_insurance_fee_fixed_apr :: int
  rw_insurance_ir_fee :: int
  rw_protocol_fixed_fee_apr :: int
  rw_protocol_ir_fee :: int
  rw_zero_util_rate :: nat
  rw_hundred_util_rate :: nat
  rw_points :: "(nat \<times> nat) list"
  rw_curve_type :: nat

record raw_group =
  rg_owner :: pubkey
  rg_fees_enabled :: bool
  rg_program_fee_fixed :: int
  rg_program_fee_rate :: int

record interest_rate_config =
  ic_optimal_utilization_rate_fp48 :: nat
  ic_plateau_interest_rate_fp48 :: nat
  ic_max_interest_rate_fp48 :: nat
  ic_insurance_fee_fixed_apr_fp48 :: nat
  ic_insurance_ir_fee_fp48 :: nat
  ic_protocol_fixed_fee_apr_fp48 :: nat
  ic_protocol_ir_fee_fp48 :: nat
  ic_zero_util_rate_milli_u32 :: nat
  ic_hundred_util_rate_milli_u32 :: nat
  ic_points :: "(nat \<times> nat) list"
  ic_curve_type :: nat

record group_program_fees =
  gf_enabled :: bool
  gf_program_fee_fixed_fp48 :: nat
  gf_program_fee_rate_fp48 :: nat

section \<open>Reading the accounts\<close>

definition read_wrapped_i80f48_fp48 :: "int \<Rightarrow> nat res" where
  "read_wrapped_i80f48_fp48 bits = (if bits < 0 then Inl (Adapter InvalidIntegrationAccount) else Inr (nat bits))"

definition rate_bank_owned :: "pubkey \<Rightarrow> raw_rate_bank \<Rightarrow> unit res" where
  "rate_bank_owned marginfi b = require (rw_owner b = marginfi) (Adapter InvalidIntegrationAccount)"

definition read_bank_last_update :: "pubkey \<Rightarrow> raw_rate_bank \<Rightarrow> int res" where
  "read_bank_last_update marginfi b = ebind (rate_bank_owned marginfi b) (\<lambda>_. Inr (rw_last_update b))"

definition read_rate_bank_asset_share_value_fp48 :: "pubkey \<Rightarrow> raw_rate_bank \<Rightarrow> nat res" where
  "read_rate_bank_asset_share_value_fp48 marginfi b =
     ebind (rate_bank_owned marginfi b) (\<lambda>_. read_wrapped_i80f48_fp48 (rw_asset_share_value b))"

definition read_bank_liability_share_value_fp48 :: "pubkey \<Rightarrow> raw_rate_bank \<Rightarrow> nat res" where
  "read_bank_liability_share_value_fp48 marginfi b =
     ebind (rate_bank_owned marginfi b) (\<lambda>_. read_wrapped_i80f48_fp48 (rw_liability_share_value b))"

definition read_bank_total_asset_shares_fp48 :: "pubkey \<Rightarrow> raw_rate_bank \<Rightarrow> nat res" where
  "read_bank_total_asset_shares_fp48 marginfi b =
     ebind (rate_bank_owned marginfi b) (\<lambda>_. read_wrapped_i80f48_fp48 (rw_total_asset_shares b))"

definition read_bank_total_liability_shares_fp48 :: "pubkey \<Rightarrow> raw_rate_bank \<Rightarrow> nat res" where
  "read_bank_total_liability_shares_fp48 marginfi b =
     ebind (rate_bank_owned marginfi b) (\<lambda>_. read_wrapped_i80f48_fp48 (rw_total_liability_shares b))"

definition read_bank_interest_rate_config :: "pubkey \<Rightarrow> raw_rate_bank \<Rightarrow> interest_rate_config res" where
  "read_bank_interest_rate_config marginfi b =
     ebind (rate_bank_owned marginfi b) (\<lambda>_.
     ebind (read_wrapped_i80f48_fp48 (rw_optimal_utilization_rate b)) (\<lambda>optimal.
     ebind (read_wrapped_i80f48_fp48 (rw_plateau_interest_rate b)) (\<lambda>plateau.
     ebind (read_wrapped_i80f48_fp48 (rw_max_interest_rate b)) (\<lambda>max_rate.
     ebind (read_wrapped_i80f48_fp48 (rw_insurance_fee_fixed_apr b)) (\<lambda>ins_fixed.
     ebind (read_wrapped_i80f48_fp48 (rw_insurance_ir_fee b)) (\<lambda>ins_ir.
     ebind (read_wrapped_i80f48_fp48 (rw_protocol_fixed_fee_apr b)) (\<lambda>prot_fixed.
     ebind (read_wrapped_i80f48_fp48 (rw_protocol_ir_fee b)) (\<lambda>prot_ir.
     Inr \<lparr> ic_optimal_utilization_rate_fp48 = optimal, ic_plateau_interest_rate_fp48 = plateau,
           ic_max_interest_rate_fp48 = max_rate, ic_insurance_fee_fixed_apr_fp48 = ins_fixed,
           ic_insurance_ir_fee_fp48 = ins_ir, ic_protocol_fixed_fee_apr_fp48 = prot_fixed,
           ic_protocol_ir_fee_fp48 = prot_ir, ic_zero_util_rate_milli_u32 = rw_zero_util_rate b,
           ic_hundred_util_rate_milli_u32 = rw_hundred_util_rate b, ic_points = rw_points b,
           ic_curve_type = rw_curve_type b \<rparr>))))))))"

definition read_group_program_fees :: "pubkey \<Rightarrow> raw_group \<Rightarrow> group_program_fees res" where
  "read_group_program_fees marginfi g =
     ebind (require (rg_owner g = marginfi) (Adapter InvalidIntegrationAccount)) (\<lambda>_.
     ebind (read_wrapped_i80f48_fp48 (rg_program_fee_fixed g)) (\<lambda>fixed_fee.
     ebind (read_wrapped_i80f48_fp48 (rg_program_fee_rate g)) (\<lambda>rate_fee.
     Inr \<lparr> gf_enabled = rg_fees_enabled g, gf_program_fee_fixed_fp48 = fixed_fee, gf_program_fee_rate_fp48 = rate_fee \<rparr>)))"

section \<open>The curves\<close>

definition rate_milli_u32_to_fp48 :: "nat \<Rightarrow> nat res" where
  "rate_milli_u32_to_fp48 rate = mul_div rate (10 * SCALE) (u32_lim - 1) False"

definition util_centi_u32_to_fp48 :: "nat \<Rightarrow> nat res" where
  "util_centi_u32_to_fp48 util = mul_div util SCALE (u32_lim - 1) False"

definition lerp_fp48 :: "nat \<Rightarrow> nat \<Rightarrow> nat \<Rightarrow> nat \<Rightarrow> nat \<Rightarrow> nat res" where
  "lerp_fp48 start_x start_y end_x end_y target_x =
     (if end_x \<le> start_x then Inl (Custom InvalidArgument)
      else if target_x < start_x \<or> end_x < target_x then Inl (Custom InvalidArgument)
      else if end_y < start_y then Inl (Custom InvalidArgument)
      else
        let delta_x = end_x - start_x; offset = target_x - start_x in
        ebind (div_scale offset delta_x) (\<lambda>proportion_fp48.
        let delta_y = end_y - start_y in
        ebind (mul_scale delta_y proportion_fp48) (\<lambda>scaled_delta.
        Inr (saturating_add u128_lim start_y scaled_delta))))"

definition interest_rate_curve_legacy :: "nat \<Rightarrow> interest_rate_config \<Rightarrow> nat res" where
  "interest_rate_curve_legacy ur_fp48 cfg =
     (let optimal_ur = ic_optimal_utilization_rate_fp48 cfg; plateau_ir = ic_plateau_interest_rate_fp48 cfg;
          max_ir = ic_max_interest_rate_fp48 cfg in
      if optimal_ur = 0 then Inl (Custom InvalidArgument)
      else if ur_fp48 \<le> optimal_ur then
        ebind (div_scale ur_fp48 optimal_ur) (\<lambda>prop_fp48. mul_scale prop_fp48 plateau_ir)
      else
        let numer = ur_fp48 - optimal_ur; denom = saturating_sub SCALE optimal_ur in
        if denom = 0 then Inl (Custom InvalidArgument)
        else
          ebind (div_scale numer denom) (\<lambda>prop_fp48.
          let spread = saturating_sub max_ir plateau_ir in
          ebind (mul_scale prop_fp48 spread) (\<lambda>scaled.
          Inr (saturating_add u128_lim plateau_ir scaled))))"

fun seven_point_segments :: "nat \<Rightarrow> nat \<Rightarrow> nat \<Rightarrow> nat \<Rightarrow> (nat \<times> nat) list \<Rightarrow> nat res" where
  "seven_point_segments ur_fp48 hundred_rate prev_util_fp48 prev_rate_fp48 [] =
     lerp_fp48 prev_util_fp48 prev_rate_fp48 SCALE hundred_rate ur_fp48"
| "seven_point_segments ur_fp48 hundred_rate prev_util_fp48 prev_rate_fp48 ((point_util, point_rate) # points) =
     (if point_util = 0 then seven_point_segments ur_fp48 hundred_rate prev_util_fp48 prev_rate_fp48 points
      else
        ebind (util_centi_u32_to_fp48 point_util) (\<lambda>point_util_fp48.
        ebind (rate_milli_u32_to_fp48 point_rate) (\<lambda>point_rate_fp48.
        ebind (require (prev_util_fp48 < point_util_fp48) (Custom InvalidArgument)) (\<lambda>_.
        if ur_fp48 \<le> point_util_fp48
        then lerp_fp48 prev_util_fp48 prev_rate_fp48 point_util_fp48 point_rate_fp48 ur_fp48
        else seven_point_segments ur_fp48 hundred_rate point_util_fp48 point_rate_fp48 points))))"

definition interest_rate_curve_seven_point :: "nat \<Rightarrow> interest_rate_config \<Rightarrow> nat res" where
  "interest_rate_curve_seven_point ur_fp48 cfg =
     ebind (rate_milli_u32_to_fp48 (ic_zero_util_rate_milli_u32 cfg)) (\<lambda>zero_rate.
     ebind (rate_milli_u32_to_fp48 (ic_hundred_util_rate_milli_u32 cfg)) (\<lambda>hundred_rate.
     seven_point_segments (min ur_fp48 SCALE) hundred_rate 0 zero_rate (ic_points cfg)))"

definition base_rate_apr :: "nat \<Rightarrow> interest_rate_config \<Rightarrow> nat res" where
  "base_rate_apr utilization_fp48 cfg =
     (if ic_curve_type cfg = INTEREST_CURVE_LEGACY then interest_rate_curve_legacy utilization_fp48 cfg
      else if ic_curve_type cfg = INTEREST_CURVE_SEVEN_POINT then interest_rate_curve_seven_point utilization_fp48 cfg
      else Inl (Adapter InvalidIntegrationAccount))"

definition calc_interest_rate_fp48 ::
  "nat \<Rightarrow> interest_rate_config \<Rightarrow> group_program_fees \<Rightarrow> (nat \<times> nat) res" where
  "calc_interest_rate_fp48 utilization_fp48 cfg program_fees =
     (let (program_rate_fee, program_fixed_fee) =
            (if gf_enabled program_fees
             then (gf_program_fee_rate_fp48 program_fees, gf_program_fee_fixed_fp48 program_fees) else (0, 0));
          fee_ir_fp48 = saturating_add u128_lim
            (saturating_add u128_lim (ic_insurance_ir_fee_fp48 cfg) (ic_protocol_ir_fee_fp48 cfg)) program_rate_fee;
          fee_fixed_fp48 = saturating_add u128_lim
            (saturating_add u128_lim (ic_insurance_fee_fixed_apr_fp48 cfg) (ic_protocol_fixed_fee_apr_fp48 cfg))
            program_fixed_fee in
      ebind (base_rate_apr utilization_fp48 cfg) (\<lambda>base_rate_apr_fp48.
      ebind (mul_scale base_rate_apr_fp48 utilization_fp48) (\<lambda>lending_rate_apr_fp48.
      ebind (mul_scale base_rate_apr_fp48 (saturating_add u128_lim SCALE fee_ir_fp48)) (\<lambda>b.
      Inr (lending_rate_apr_fp48, saturating_add u128_lim b fee_fixed_fp48)))))"

definition calc_accrued_share_value_fp48 :: "nat \<Rightarrow> nat \<Rightarrow> nat \<Rightarrow> nat res" where
  "calc_accrued_share_value_fp48 apr_fp48 dt share_value_fp48 =
     (if dt = 0 \<or> apr_fp48 = 0 \<or> share_value_fp48 = 0 then Inr share_value_fp48
      else
        ebind (mul_div apr_fp48 dt MARGINFI_SECONDS_PER_YEAR False) (\<lambda>period_rate_fp48.
        ebind (mul_scale share_value_fp48 period_rate_fp48) (\<lambda>accrued_fp48.
        Inr (saturating_add u128_lim share_value_fp48 accrued_fp48))))"

section \<open>Projections\<close>

text \<open>The difference of two timestamps is computed in 64 bits: it aborts on overflow.\<close>

definition seconds_since :: "int \<Rightarrow> int \<Rightarrow> nat res" where
  "seconds_since now last_update =
     ebind (ok_or (i64_checked_sub now last_update) Panic) (\<lambda>d. Inr (nat (max d 0)))"

definition calc_projected_liability_share_value_fp48 :: "pubkey \<Rightarrow> raw_rate_bank \<Rightarrow> raw_group \<Rightarrow> int \<Rightarrow> nat res" where
  "calc_projected_liability_share_value_fp48 marginfi b g now_unix =
     ebind (read_bank_last_update marginfi b) (\<lambda>last_update.
     ebind (seconds_since now_unix last_update) (\<lambda>dt.
     ebind (read_bank_liability_share_value_fp48 marginfi b) (\<lambda>lsv_fp48.
     if dt = 0 then Inr lsv_fp48
     else
       ebind (read_bank_total_asset_shares_fp48 marginfi b) (\<lambda>total_asset_shares_fp48.
       ebind (read_bank_total_liability_shares_fp48 marginfi b) (\<lambda>total_liability_shares_fp48.
       ebind (read_rate_bank_asset_share_value_fp48 marginfi b) (\<lambda>asv_fp48.
       ebind (mul_scale total_asset_shares_fp48 asv_fp48) (\<lambda>total_assets_fp48.
       ebind (mul_scale total_liability_shares_fp48 lsv_fp48) (\<lambda>total_liabilities_fp48.
       if total_assets_fp48 = 0 \<or> total_liabilities_fp48 = 0 then Inr lsv_fp48
       else
         ebind (div_scale total_liabilities_fp48 total_assets_fp48) (\<lambda>utilization_fp48.
         ebind (read_bank_interest_rate_config marginfi b) (\<lambda>cfg.
         ebind (read_group_program_fees marginfi g) (\<lambda>program_fees.
         ebind (calc_interest_rate_fp48 utilization_fp48 cfg program_fees) (\<lambda>(lending_apr_fp48, borrowing_apr_fp48).
         calc_accrued_share_value_fp48 borrowing_apr_fp48 dt lsv_fp48))))))))))))"

definition calc_projected_asset_share_value_fp48 :: "pubkey \<Rightarrow> raw_rate_bank \<Rightarrow> raw_group \<Rightarrow> int \<Rightarrow> nat res" where
  "calc_projected_asset_share_value_fp48 marginfi b g now_unix =
     ebind (read_bank_last_update marginfi b) (\<lambda>last_update.
     ebind (seconds_since now_unix last_update) (\<lambda>dt.
     ebind (read_rate_bank_asset_share_value_fp48 marginfi b) (\<lambda>asv_fp48.
     if dt = 0 then Inr asv_fp48
     else
       ebind (read_bank_total_asset_shares_fp48 marginfi b) (\<lambda>total_asset_shares_fp48.
       ebind (read_bank_total_liability_shares_fp48 marginfi b) (\<lambda>total_liability_shares_fp48.
       ebind (read_bank_liability_share_value_fp48 marginfi b) (\<lambda>lsv_fp48.
       ebind (mul_scale total_asset_shares_fp48 asv_fp48) (\<lambda>total_assets_fp48.
       ebind (mul_scale total_liability_shares_fp48 lsv_fp48) (\<lambda>total_liabilities_fp48.
       if total_assets_fp48 = 0 \<or> total_liabilities_fp48 = 0 then Inr asv_fp48
       else
         ebind (div_scale total_liabilities_fp48 total_assets_fp48) (\<lambda>utilization_fp48.
         ebind (read_bank_interest_rate_config marginfi b) (\<lambda>cfg.
         ebind (read_group_program_fees marginfi g) (\<lambda>program_fees.
         ebind (calc_interest_rate_fp48 utilization_fp48 cfg program_fees) (\<lambda>(lending_apr_fp48, borrowing_apr_fp48).
         calc_accrued_share_value_fp48 lending_apr_fp48 dt asv_fp48))))))))))))"

definition current_lending_apr_bps_ceil :: "pubkey \<Rightarrow> raw_rate_bank \<Rightarrow> raw_group \<Rightarrow> nat res" where
  "current_lending_apr_bps_ceil marginfi b g =
     ebind (read_rate_bank_asset_share_value_fp48 marginfi b) (\<lambda>asv_fp48.
     ebind (read_bank_liability_share_value_fp48 marginfi b) (\<lambda>lsv_fp48.
     ebind (read_bank_total_asset_shares_fp48 marginfi b) (\<lambda>total_asset_shares_fp48.
     ebind (read_bank_total_liability_shares_fp48 marginfi b) (\<lambda>total_liability_shares_fp48.
     ebind (mul_scale total_asset_shares_fp48 asv_fp48) (\<lambda>total_assets_fp48.
     ebind (mul_scale total_liability_shares_fp48 lsv_fp48) (\<lambda>total_liabilities_fp48.
     if total_assets_fp48 = 0 \<or> total_liabilities_fp48 = 0 then Inr 0
     else
       ebind (div_scale total_liabilities_fp48 total_assets_fp48) (\<lambda>utilization_fp48.
       ebind (read_bank_interest_rate_config marginfi b) (\<lambda>cfg.
       ebind (read_group_program_fees marginfi g) (\<lambda>program_fees.
       ebind (calc_interest_rate_fp48 utilization_fp48 cfg program_fees) (\<lambda>(lending_apr_fp48, borrowing_apr_fp48).
       ebind (ok_or (checked_mul u128_lim lending_apr_fp48 10000) (Custom MathOverflow)) (\<lambda>bps_fp48.
       ebind (from_scaled_ceil bps_fp48) (\<lambda>bps.
       ok_or (narrow u16_lim bps) (Custom MathOverflow)))))))))))))"

definition get_projected_liability_atoms_ceil ::
  "pubkey \<Rightarrow> raw_rate_bank \<Rightarrow> raw_group \<Rightarrow> nat \<Rightarrow> int \<Rightarrow> nat res" where
  "get_projected_liability_atoms_ceil marginfi b g shares_fp48 now_unix =
     (if shares_fp48 = 0 then Inr 0
      else
        ebind (calc_projected_liability_share_value_fp48 marginfi b g now_unix) (\<lambda>new_lsv_fp48.
        liability_shares_to_atoms_ceil_at_lsv shares_fp48 new_lsv_fp48))"

section \<open>Bounds\<close>

lemma saturating_add_ge: "a < lim \<Longrightarrow> a \<le> saturating_add lim a b"
  by (simp add: saturating_add_def)

lemma lerp_bounds:
  assumes "lerp_fp48 x0 y0 x1 y1 x = Inr y" "y1 < u128_lim" "x1 < u128_lim"
  shows "y0 \<le> y \<and> y \<le> y1"
proof -
  have g: "x0 < x1" "x0 \<le> x" "x \<le> x1" "y0 \<le> y1"
    using assms(1) by (auto simp: lerp_fp48_def split: if_splits)
  obtain pr sd where pr: "div_scale (x - x0) (x1 - x0) = Inr pr" and sd: "mul_scale (y1 - y0) pr = Inr sd"
    and y: "y = saturating_add u128_lim y0 sd"
    using assms(1) g by (auto simp: lerp_fp48_def Let_def elim!: ebind_InrE)
  have "pr = (x - x0) * SCALE div (x1 - x0)" using div_scale_Inr[OF pr] assms(3) g by auto
  also have "\<dots> \<le> (x1 - x0) * SCALE div (x1 - x0)" using g by (intro div_le_mono mult_le_mono) simp_all
  finally have "pr \<le> SCALE" using g by simp
  then have "(y1 - y0) * pr div SCALE \<le> (y1 - y0) * SCALE div SCALE" by (intro div_le_mono mult_le_mono) simp_all
  then have "sd \<le> y1 - y0" using mul_scale_Inr[OF sd] SCALE_pos by simp
  then show ?thesis using y g assms(2) by (simp add: saturating_add_def)
qed

section \<open>What a projection computes\<close>

text \<open>The rates of a bank at a base rate: suppliers earn the part the utilisation gives of it, debtors pay it with the
  rate fees on top and the fixed fees added.\<close>

definition rate_fees :: "interest_rate_config \<Rightarrow> group_program_fees \<Rightarrow> nat" where
  "rate_fees cfg fees = ic_insurance_ir_fee_fp48 cfg + ic_protocol_ir_fee_fp48 cfg +
     (if gf_enabled fees then gf_program_fee_rate_fp48 fees else 0)"

definition fixed_fees :: "interest_rate_config \<Rightarrow> group_program_fees \<Rightarrow> nat" where
  "fixed_fees cfg fees = ic_insurance_fee_fixed_apr_fp48 cfg + ic_protocol_fixed_fee_apr_fp48 cfg +
     (if gf_enabled fees then gf_program_fee_fixed_fp48 fees else 0)"

lemma saturating_add_nested: "saturating_add lim (saturating_add lim a b) c = min (a + b + c) (lim - 1)"
  by (simp add: saturating_add_def)

lemma calc_interest_rate_Inr:
  assumes "calc_interest_rate_fp48 u cfg fees = Inr (lend, borrow)"
  shows "\<exists>base. base_rate_apr u cfg = Inr base \<and> lend = base * u div SCALE \<and>
    borrow = min (base * min (SCALE + rate_fees cfg fees) (u128_lim - 1) div SCALE + fixed_fees cfg fees) (u128_lim - 1)"
proof -
  let ?r = "if gf_enabled fees then gf_program_fee_rate_fp48 fees else 0" and ?f = "if gf_enabled fees then gf_program_fee_fixed_fp48 fees else 0"
  let ?rf = "saturating_add u128_lim (saturating_add u128_lim (ic_insurance_ir_fee_fp48 cfg) (ic_protocol_ir_fee_fp48 cfg)) ?r"
  let ?ff = "saturating_add u128_lim (saturating_add u128_lim (ic_insurance_fee_fixed_apr_fp48 cfg) (ic_protocol_fixed_fee_apr_fp48 cfg)) ?f"
  obtain base b where s: "base_rate_apr u cfg = Inr base" "mul_scale base u = Inr lend"
      "mul_scale base (saturating_add u128_lim SCALE ?rf) = Inr b" "borrow = saturating_add u128_lim b ?ff"
    using assms unfolding calc_interest_rate_fp48_def Let_def by (cases "gf_enabled fees") (auto elim!: ebind_InrE)
  have "saturating_add u128_lim SCALE ?rf = min (SCALE + rate_fees cfg fees) (u128_lim - 1)"
    unfolding saturating_add_nested by (simp add: saturating_add_def rate_fees_def)
  moreover have "saturating_add u128_lim b ?ff = min (b + fixed_fees cfg fees) (u128_lim - 1)"
    unfolding saturating_add_nested by (simp add: saturating_add_def fixed_fees_def)
  ultimately show ?thesis using s mul_scale_Inr[OF s(2)] mul_scale_Inr[OF s(3)] by simp
qed

lemma calc_accrued_Inr:
  assumes "calc_accrued_share_value_fp48 apr dt sv = Inr sv'" "sv < u128_lim"
  shows "sv' = min (sv + sv * (apr * dt div MARGINFI_SECONDS_PER_YEAR) div SCALE) (u128_lim - 1)"
proof (cases "dt = 0 \<or> apr = 0 \<or> sv = 0")
  case True
  then show ?thesis using assms by (auto simp: calc_accrued_share_value_fp48_def)
next
  case False
  then obtain q r where s: "mul_div apr dt MARGINFI_SECONDS_PER_YEAR False = Inr q" "mul_scale sv q = Inr r"
      "sv' = saturating_add u128_lim sv r"
    using assms(1) by (auto simp: calc_accrued_share_value_fp48_def elim!: ebind_InrE)
  then show ?thesis using mul_div_floor_div[OF s(1)] mul_scale_Inr[OF s(2)] by (simp add: saturating_add_def)
qed

definition total_at :: "int \<Rightarrow> int \<Rightarrow> nat" where
  "total_at shares share_value = nat shares * nat share_value div SCALE"

lemma read_wrapped_Inr: "read_wrapped_i80f48_fp48 bits = Inr n \<longleftrightarrow> 0 \<le> bits \<and> n = nat bits"
  by (auto simp: read_wrapped_i80f48_fp48_def)

lemmas bank_reads = read_bank_last_update_def read_bank_liability_share_value_fp48_def read_rate_bank_asset_share_value_fp48_def
  read_bank_total_asset_shares_fp48_def read_bank_total_liability_shares_fp48_def read_wrapped_Inr

lemma i128_nat_width: "x < i128_lim \<Longrightarrow> nat x < u128_lim"
  by (auto simp: i128_lim_def u128_lim_def nat_less_iff)

lemma seconds_since_Inr: "seconds_since now at = Inr dt \<longleftrightarrow> - i64_lim \<le> now - at \<and> now - at < i64_lim \<and> dt = nat (now - at)"
  by (auto simp: seconds_since_def i64_checked_sub_def max_def elim!: ebind_InrE)

lemma mul_scale_width: "mul_scale a b = Inr q \<Longrightarrow> q < u128_lim"
proof -
  assume m: "mul_scale a b = Inr q"
  have "a * b < u256_lim" and q: "u256_to_u128 (a * b div SCALE) = Inr q"
    using m by (auto simp: mul_scale_def ok_or_Inr checked_mul_Some SCALE_BITS_def SCALE_def Let_def elim!: ebind_InrE)
  then have "a * b div SCALE < u256_lim" by (meson div_le_dividend le_less_trans)
  then show "q < u128_lim" using q by (simp add: u256_to_u128_eq split: if_splits)
qed

text \<open>The checks a projection passes.\<close>

lemma projected_liability_Inr:
  assumes "calc_projected_liability_share_value_fp48 mf b g now = Inr lsv'"
  shows "let lsv = nat (rw_liability_share_value b); ta = total_at (rw_total_asset_shares b) (rw_asset_share_value b);
      tl = total_at (rw_total_liability_shares b) (rw_liability_share_value b); dt = nat (now - rw_last_update b)
    in if dt = 0 \<or> ta = 0 \<or> tl = 0 then lsv' = lsv
      else \<exists>cfg fees lend borrow. read_bank_interest_rate_config mf b = Inr cfg \<and> read_group_program_fees mf g = Inr fees \<and>
        calc_interest_rate_fp48 (tl * SCALE div ta) cfg fees = Inr (lend, borrow) \<and>
        calc_accrued_share_value_fp48 borrow dt lsv = Inr lsv'"
proof -
  let ?lsv = "nat (rw_liability_share_value b)" and ?asv = "nat (rw_asset_share_value b)" and ?dt = "nat (now - rw_last_update b)"
  let ?sa = "nat (rw_total_asset_shares b)" and ?sl = "nat (rw_total_liability_shares b)"
  show ?thesis
  proof (cases "?dt = 0")
    case True
    then show ?thesis using assms
      by (auto simp: calc_projected_liability_share_value_fp48_def bank_reads seconds_since_Inr elim!: ebind_InrE)
  next
    case False
    then obtain ta tl where m: "mul_scale ?sa ?asv = Inr ta" "mul_scale ?sl ?lsv = Inr tl"
      and r: "(if ta = 0 \<or> tl = 0 then Inr ?lsv
       else
         ebind (div_scale tl ta) (\<lambda>utilization_fp48.
         ebind (read_bank_interest_rate_config mf b) (\<lambda>cfg.
         ebind (read_group_program_fees mf g) (\<lambda>program_fees.
         ebind (calc_interest_rate_fp48 utilization_fp48 cfg program_fees) (\<lambda>(lending_apr_fp48, borrowing_apr_fp48).
         calc_accrued_share_value_fp48 borrowing_apr_fp48 ?dt ?lsv))))) = Inr lsv'"
      using assms unfolding calc_projected_liability_share_value_fp48_def
      by (elim ebind_InrE) (auto simp: bank_reads seconds_since_Inr max_def elim!: ebind_InrE)
    have t: "ta = total_at (rw_total_asset_shares b) (rw_asset_share_value b)" "tl = total_at (rw_total_liability_shares b) (rw_liability_share_value b)"
      using mul_scale_Inr[OF m(1)] mul_scale_Inr[OF m(2)] by (simp_all add: total_at_def)
    have "tl < u128_lim" using m(2) mul_scale_width by blast
    then have u: "u = tl * SCALE div ta" if "div_scale tl ta = Inr u" for u using div_scale_Inr[OF that] by simp
    show ?thesis using r False u unfolding t[symmetric] Let_def
      by (auto split: if_splits elim!: ebind_InrE)
  qed
qed

lemma projected_asset_Inr:
  assumes "calc_projected_asset_share_value_fp48 mf b g now = Inr asv'"
  shows "let asv = nat (rw_asset_share_value b); ta = total_at (rw_total_asset_shares b) (rw_asset_share_value b);
      tl = total_at (rw_total_liability_shares b) (rw_liability_share_value b); dt = nat (now - rw_last_update b)
    in if dt = 0 \<or> ta = 0 \<or> tl = 0 then asv' = asv
      else \<exists>cfg fees lend borrow. read_bank_interest_rate_config mf b = Inr cfg \<and> read_group_program_fees mf g = Inr fees \<and>
        calc_interest_rate_fp48 (tl * SCALE div ta) cfg fees = Inr (lend, borrow) \<and>
        calc_accrued_share_value_fp48 lend dt asv = Inr asv'"
proof -
  let ?lsv = "nat (rw_liability_share_value b)" and ?asv = "nat (rw_asset_share_value b)" and ?dt = "nat (now - rw_last_update b)"
  let ?sa = "nat (rw_total_asset_shares b)" and ?sl = "nat (rw_total_liability_shares b)"
  show ?thesis
  proof (cases "?dt = 0")
    case True
    then show ?thesis using assms
      by (auto simp: calc_projected_asset_share_value_fp48_def bank_reads seconds_since_Inr elim!: ebind_InrE)
  next
    case False
    then obtain ta tl where m: "mul_scale ?sa ?asv = Inr ta" "mul_scale ?sl ?lsv = Inr tl"
      and r: "(if ta = 0 \<or> tl = 0 then Inr ?asv
       else
         ebind (div_scale tl ta) (\<lambda>utilization_fp48.
         ebind (read_bank_interest_rate_config mf b) (\<lambda>cfg.
         ebind (read_group_program_fees mf g) (\<lambda>program_fees.
         ebind (calc_interest_rate_fp48 utilization_fp48 cfg program_fees) (\<lambda>(lending_apr_fp48, borrowing_apr_fp48).
         calc_accrued_share_value_fp48 lending_apr_fp48 ?dt ?asv))))) = Inr asv'"
      using assms unfolding calc_projected_asset_share_value_fp48_def
      by (elim ebind_InrE) (auto simp: bank_reads seconds_since_Inr max_def elim!: ebind_InrE)
    have t: "ta = total_at (rw_total_asset_shares b) (rw_asset_share_value b)" "tl = total_at (rw_total_liability_shares b) (rw_liability_share_value b)"
      using mul_scale_Inr[OF m(1)] mul_scale_Inr[OF m(2)] by (simp_all add: total_at_def)
    have "tl < u128_lim" using m(2) mul_scale_width by blast
    then have u: "u = tl * SCALE div ta" if "div_scale tl ta = Inr u" for u using div_scale_Inr[OF that] by simp
    show ?thesis using r False u unfolding t[symmetric] Let_def
      by (auto split: if_splits elim!: ebind_InrE)
  qed
qed

text \<open>Suppliers together gain at most the base rate on the debt.\<close>

lemma supplier_gain_covered:
  fixes sa asv ta tl base lend dt Y S :: nat
  assumes ta: "ta = sa * asv div S" and lend: "lend = base * (tl * S div ta) div S" and p: "0 < ta" "0 < S" "0 < Y"
  shows "sa * (asv * (lend * dt div Y) div S) * Y * ta \<le> (ta + 1) * (base * tl * dt)"
proof -
  let ?u = "tl * S div ta" and ?q = "lend * dt div Y"
  have a: "asv * ?q div S * S \<le> asv * ?q" by (rule div_times_less_eq_dividend)
  have b: "?q * Y \<le> lend * dt" by (rule div_times_less_eq_dividend)
  have c: "lend * S \<le> base * ?u" unfolding lend by (rule div_times_less_eq_dividend)
  have d: "?u * ta \<le> tl * S" by (rule div_times_less_eq_dividend)
  have e: "sa * asv \<le> (ta + 1) * S"
  proof -
    have "sa * asv < (ta + 1) * S" unfolding div_less_iff_less_mult[OF p(2), symmetric] by (simp add: ta)
    then show ?thesis by simp
  qed
  have "sa * (asv * ?q div S) * Y * ta * (S * S) = sa * (asv * ?q div S * S) * Y * ta * S" by (simp only: ac_simps)
  also have "\<dots> \<le> sa * (asv * ?q) * Y * ta * S" by (rule mult_le_mono1[OF mult_le_mono1[OF mult_le_mono1[OF mult_le_mono2[OF a]]]])
  also have "\<dots> = sa * asv * (?q * Y) * ta * S" by (simp only: ac_simps)
  also have "\<dots> \<le> sa * asv * (lend * dt) * ta * S" by (rule mult_le_mono1[OF mult_le_mono1[OF mult_le_mono2[OF b]]])
  also have "\<dots> = sa * asv * (lend * S) * dt * ta" by (simp only: ac_simps)
  also have "\<dots> \<le> sa * asv * (base * ?u) * dt * ta" by (rule mult_le_mono1[OF mult_le_mono1[OF mult_le_mono2[OF c]]])
  also have "\<dots> = sa * asv * base * (?u * ta) * dt" by (simp only: ac_simps)
  also have "\<dots> \<le> (ta + 1) * S * base * (tl * S) * dt" by (rule mult_le_mono1[OF mult_le_mono[OF mult_le_mono1[OF e] d]])
  also have "\<dots> = (ta + 1) * (base * tl * dt) * (S * S)" by (simp only: ac_simps)
  finally show ?thesis using p by simp
qed

text \<open>C31. What the projections of a bank to a later time compute, and that they do not create value. With assets and
  liabilities from the shares and share values, utilisation \<open>u\<close> their quotient and \<open>base\<close> the curve's rate at \<open>u\<close>,
  the liability share value grows by \<open>base\<close> with all fees on top, the asset share value by \<open>base * u\<close>, each for
  the seconds since the last update as a part of marginfi's year and rounded down; without elapsed time, assets
  or debt neither moves. So debtors pay at least the base rate, and all suppliers together gain at most
  the base rate on the whole debt over that time, up to one unit in the total of the assets.\<close>

theorem projected_interest_is_covered:
  assumes L: "calc_projected_liability_share_value_fp48 mf b g now = Inr lsv'"
    and A: "calc_projected_asset_share_value_fp48 mf b g now = Inr asv'"
    and w: "rw_asset_share_value b < i128_lim" "rw_liability_share_value b < i128_lim"
  shows "let asv = nat (rw_asset_share_value b); lsv = nat (rw_liability_share_value b);
      ta = total_at (rw_total_asset_shares b) (rw_asset_share_value b);
      tl = total_at (rw_total_liability_shares b) (rw_liability_share_value b);
      dt = nat (now - rw_last_update b); year = 31557600
    in if dt = 0 \<or> ta = 0 \<or> tl = 0 then lsv' = lsv \<and> asv' = asv
      else \<exists>cfg fees base lend borrow. read_bank_interest_rate_config mf b = Inr cfg \<and> read_group_program_fees mf g = Inr fees \<and>
        base_rate_apr (tl * SCALE div ta) cfg = Inr base \<and> lend = base * (tl * SCALE div ta) div SCALE \<and>
        borrow = min (base * min (SCALE + rate_fees cfg fees) (u128_lim - 1) div SCALE + fixed_fees cfg fees) (u128_lim - 1) \<and>
        (base < u128_lim \<longrightarrow> base \<le> borrow) \<and>
        lsv' = min (lsv + lsv * (borrow * dt div year) div SCALE) (u128_lim - 1) \<and>
        asv' = min (asv + asv * (lend * dt div year) div SCALE) (u128_lim - 1) \<and>
        nat (rw_total_asset_shares b) * (asv' - asv) * year * ta \<le> (ta + 1) * (base * tl * dt)"
proof -
  let ?asv = "nat (rw_asset_share_value b)" and ?lsv = "nat (rw_liability_share_value b)"
  let ?ta = "total_at (rw_total_asset_shares b) (rw_asset_share_value b)"
  let ?tl = "total_at (rw_total_liability_shares b) (rw_liability_share_value b)" and ?dt = "nat (now - rw_last_update b)"
  have width: "?asv < u128_lim" "?lsv < u128_lim" using w i128_nat_width by simp_all
  note lia = projected_liability_Inr[OF L] and ast = projected_asset_Inr[OF A]
  show ?thesis
  proof (cases "?dt = 0 \<or> ?ta = 0 \<or> ?tl = 0")
    case True
    then show ?thesis using lia ast by (auto simp: Let_def)
  next
    case False
    then obtain cfg fees lend borrow where c: "read_bank_interest_rate_config mf b = Inr cfg" "read_group_program_fees mf g = Inr fees"
        "calc_interest_rate_fp48 (?tl * SCALE div ?ta) cfg fees = Inr (lend, borrow)"
        "calc_accrued_share_value_fp48 borrow ?dt ?lsv = Inr lsv'" "calc_accrued_share_value_fp48 lend ?dt ?asv = Inr asv'"
      using lia ast by auto
    obtain base where r: "base_rate_apr (?tl * SCALE div ?ta) cfg = Inr base" "lend = base * (?tl * SCALE div ?ta) div SCALE"
        "borrow = min (base * min (SCALE + rate_fees cfg fees) (u128_lim - 1) div SCALE + fixed_fees cfg fees) (u128_lim - 1)"
      using calc_interest_rate_Inr[OF c(3)] by blast
    note grow = calc_accrued_Inr[OF c(4) width(2), unfolded MARGINFI_SECONDS_PER_YEAR_def]
      calc_accrued_Inr[OF c(5) width(1), unfolded MARGINFI_SECONDS_PER_YEAR_def]
    have "base * SCALE div SCALE \<le> base * min (SCALE + rate_fees cfg fees) (u128_lim - 1) div SCALE"
      by (intro div_le_mono mult_le_mono) (simp_all add: SCALE_def u128_lim_def)
    then have le: "base < u128_lim \<longrightarrow> base \<le> borrow" using r(3) SCALE_pos by auto
    have "asv' \<le> ?asv + ?asv * (lend * ?dt div 31557600) div SCALE" unfolding grow(2) by (rule min.cobounded1)
    then have "asv' - ?asv \<le> ?asv * (lend * ?dt div 31557600) div SCALE" by linarith
    then have "nat (rw_total_asset_shares b) * (asv' - ?asv) * 31557600 * ?ta \<le>
        nat (rw_total_asset_shares b) * (?asv * (lend * ?dt div 31557600) div SCALE) * 31557600 * ?ta"
      by (intro mult_le_mono order.refl)
    also have "\<dots> \<le> (?ta + 1) * (base * ?tl * ?dt)"
      using False by (intro supplier_gain_covered[OF _ r(2)]) (simp_all add: total_at_def)
    finally show ?thesis using False c(1,2) r grow le unfolding Let_def by (simp only: if_False) blast
  qed
qed


text \<open>A bank at half utilisation with a kink at four fifths, 10\<open>%\<close> at the kink.\<close>

definition example_rate_bank :: raw_rate_bank where
  "example_rate_bank = \<lparr> rw_owner = 99, rw_last_update = 1000, rw_asset_share_value = 2 ^ 48,
     rw_liability_share_value = 2 ^ 48, rw_total_asset_shares = 2 ^ 68, rw_total_liability_shares = 2 ^ 67,
     rw_optimal_utilization_rate = 2 ^ 47 + 2 ^ 46, rw_plateau_interest_rate = 2 ^ 45, rw_max_interest_rate = 2 ^ 48,
     rw_insurance_fee_fixed_apr = 0, rw_insurance_ir_fee = 0, rw_protocol_fixed_fee_apr = 0, rw_protocol_ir_fee = 0,
     rw_zero_util_rate = 0, rw_hundred_util_rate = 0, rw_points = [], rw_curve_type = 0 \<rparr>"

definition example_group :: raw_group where
  "example_group = \<lparr> rg_owner = 99, rg_fees_enabled = False, rg_program_fee_fixed = 0, rg_program_fee_rate = 0 \<rparr>"

lemmas rate_eval = example_rate_bank_def example_group_def read_bank_last_update_def rate_bank_owned_def require_def
  seconds_since_def i64_checked_sub_def i64_lim_def read_bank_liability_share_value_fp48_def read_wrapped_i80f48_fp48_def
  read_bank_total_asset_shares_fp48_def read_bank_total_liability_shares_fp48_def
  read_rate_bank_asset_share_value_fp48_def mul_scale_eq div_scale_eq lim_defs SCALE_def read_bank_interest_rate_config_def
  read_group_program_fees_def calc_interest_rate_fp48_def base_rate_apr_def interest_rate_curve_legacy_def
  INTEREST_CURVE_LEGACY_def saturating_add_def calc_accrued_share_value_fp48_def mul_div_eq MARGINFI_SECONDS_PER_YEAR_def

theorem projected_interest_is_covered_witness:
  "\<exists>lsv' asv'. calc_projected_liability_share_value_fp48 99 example_rate_bank example_group 31558600 = Inr lsv' \<and>
     calc_projected_asset_share_value_fp48 99 example_rate_bank example_group 31558600 = Inr asv' \<and> 2 ^ 48 \<le> lsv'"
proof -
  have "\<exists>sv. calc_projected_liability_share_value_fp48 99 example_rate_bank example_group 31558600 = Inr sv"
    "\<exists>sv. calc_projected_asset_share_value_fp48 99 example_rate_bank example_group 31558600 = Inr sv"
    by (simp_all add: calc_projected_liability_share_value_fp48_def calc_projected_asset_share_value_fp48_def rate_eval Let_def
        cong: ebind_weak_cong)
  then obtain l a where r: "calc_projected_liability_share_value_fp48 99 example_rate_bank example_group 31558600 = Inr l"
      "calc_projected_asset_share_value_fp48 99 example_rate_bank example_group 31558600 = Inr a" by blast
  have "rw_asset_share_value example_rate_bank < i128_lim" "rw_liability_share_value example_rate_bank < i128_lim"
    by (simp_all add: example_rate_bank_def i128_lim_def)
  note t = projected_interest_is_covered[OF r this]
  have "l = nat (rw_liability_share_value example_rate_bank) \<or>
      (\<exists>y. l = min (nat (rw_liability_share_value example_rate_bank) + y) (u128_lim - 1))"
    using t unfolding Let_def by (split if_split_asm) blast+
  then have "2 ^ 48 \<le> l" by (auto simp: example_rate_bank_def u128_lim_def)
  then show ?thesis using r by (auto simp: example_rate_bank_def)
qed

text \<open>The two-segment curve stays in its bounds: up to the optimal utilisation the rate is at most the plateau
  rate, beyond it (and up to full utilisation) it lies between the plateau rate and the larger of the
  plateau and the maximal rate.\<close>

theorem legacy_curve_bounds:
  assumes "interest_rate_curve_legacy ur cfg = Inr r" "ur \<le> SCALE"
    and "ic_plateau_interest_rate_fp48 cfg < u128_lim" "ic_max_interest_rate_fp48 cfg < u128_lim"
  shows "(if ur \<le> ic_optimal_utilization_rate_fp48 cfg then r \<le> ic_plateau_interest_rate_fp48 cfg
     else ic_plateau_interest_rate_fp48 cfg \<le> r \<and>
       r \<le> max (ic_plateau_interest_rate_fp48 cfg) (ic_max_interest_rate_fp48 cfg))"
proof -
  let ?o = "ic_optimal_utilization_rate_fp48 cfg" and ?p = "ic_plateau_interest_rate_fp48 cfg"
  have ur: "ur < u128_lim" using assms(2) by (simp add: SCALE_def u128_lim_def)
  have part: "x * s div SCALE \<le> s" if "x \<le> SCALE" for x s
  proof -
    have "x * s div SCALE \<le> SCALE * s div SCALE" using that by (intro div_le_mono mult_le_mono) simp_all
    then show ?thesis using SCALE_pos by simp
  qed
  have frac: "a * SCALE div b \<le> SCALE" if "a \<le> b" for a b :: nat
  proof -
    have "a * SCALE div b \<le> b * SCALE div b" using that by (intro div_le_mono mult_le_mono) simp_all
    then show ?thesis by (cases "b = 0") simp_all
  qed
  show ?thesis
  proof (cases "ur \<le> ?o")
    case True
    obtain pr where pr: "div_scale ur ?o = Inr pr" "mul_scale pr ?p = Inr r"
      using assms(1) True unfolding interest_rate_curve_legacy_def by (auto simp: Let_def split: if_splits elim!: ebind_InrE)
    have "pr \<le> SCALE" using div_scale_Inr[OF pr(1) ur] frac[OF True] by simp
    then show ?thesis using mul_scale_Inr[OF pr(2)] part True by simp
  next
    case False
    obtain pr sc where pr: "div_scale (ur - ?o) (saturating_sub SCALE ?o) = Inr pr"
      and sc: "mul_scale pr (saturating_sub (ic_max_interest_rate_fp48 cfg) ?p) = Inr sc"
      and r: "r = saturating_add u128_lim ?p sc"
      using assms(1) False unfolding interest_rate_curve_legacy_def by (auto simp: Let_def split: if_splits elim!: ebind_InrE)
    have w: "ur - ?o < u128_lim" using ur by simp
    have "pr = (ur - ?o) * SCALE div (SCALE - ?o)" using div_scale_Inr[OF pr w] by simp
    also have "\<dots> \<le> SCALE" using assms(2) by (intro frac) simp
    finally have "pr \<le> SCALE" .
    then have "sc \<le> ic_max_interest_rate_fp48 cfg - ?p" using mul_scale_Inr[OF sc] part by simp
    then show ?thesis using False r assms(3,4) by (simp add: saturating_add_def)
  qed
qed

definition example_curve :: interest_rate_config where
  "example_curve = \<lparr> ic_optimal_utilization_rate_fp48 = 2 ^ 47, ic_plateau_interest_rate_fp48 = 2 ^ 45,
     ic_max_interest_rate_fp48 = 2 ^ 48, ic_insurance_fee_fixed_apr_fp48 = 0, ic_insurance_ir_fee_fp48 = 0,
     ic_protocol_fixed_fee_apr_fp48 = 0, ic_protocol_ir_fee_fp48 = 0, ic_zero_util_rate_milli_u32 = 0,
     ic_hundred_util_rate_milli_u32 = 0, ic_points = [], ic_curve_type = 0 \<rparr>"

theorem legacy_curve_bounds_witness:
  "\<exists>r. interest_rate_curve_legacy (2 ^ 47 + 2 ^ 46) example_curve = Inr r \<and> 2 ^ 45 \<le> r \<and> r \<le> 2 ^ 48"
proof -
  have "\<exists>r. interest_rate_curve_legacy (2 ^ 47 + 2 ^ 46) example_curve = Inr r"
    by (simp add: example_curve_def rate_eval Let_def cong: ebind_weak_cong)
  then obtain r where r: "interest_rate_curve_legacy (2 ^ 47 + 2 ^ 46) example_curve = Inr r" ..
  show ?thesis
    using legacy_curve_bounds[OF r] r by (simp add: example_curve_def SCALE_def u128_lim_def)
qed

end
