(* ===== verification/User_Account.thy ===== *)
theory User_Account
  imports Market_State
begin

text \<open>The per-user account of \<open>state/user_account.rs\<close>: vault positions, market positions, open loans and open
  orders, four ordered trees over the blocks of one free list, with a counter per tree; and the copy
  of a seat into the owner's market position (\<open>processor/shared.rs\<close>). The trees and the free list
  stand for the roots and the list head of the header.\<close>

definition USER_ACCOUNT_BLOCK_SIZE :: nat where "USER_ACCOUNT_BLOCK_SIZE = 160"
definition USER_ACCOUNT_FIXED_DISCRIMINANT :: nat where "USER_ACCOUNT_FIXED_DISCRIMINANT = 0x7964656C74615553"

record vault_position =
  vp_vault :: pubkey
  vp_sub_vault_id :: nat
  vp_shares :: nat
  vp_snapshot_supply_yield_index_scaled :: nat
  vp_snapshot_delta_yield_index_scaled :: nat
  vp_last_updated_unix :: int

definition vault_position_cmp :: "vault_position \<Rightarrow> vault_position \<Rightarrow> ordering" where
  "vault_position_cmp a b =
     then_cmp (cmp_nat (vp_vault a) (vp_vault b)) (cmp_nat (vp_sub_vault_id a) (vp_sub_vault_id b))"

definition vp_new_empty :: "pubkey \<Rightarrow> nat \<Rightarrow> vault_position" where
  "vp_new_empty vault sub_vault_id =
     \<lparr> vp_vault = vault, vp_sub_vault_id = sub_vault_id, vp_shares = 0, vp_snapshot_supply_yield_index_scaled = 0,
       vp_snapshot_delta_yield_index_scaled = 0, vp_last_updated_unix = 0 \<rparr>"

record market_position =
  mp_market :: pubkey
  mp_seat_index_in_market :: data_index
  mp_debt_withdrawable_shares :: nat
  mp_debt_encumbered_shares :: nat
  mp_collateral_withdrawable_shares :: nat
  mp_collateral_encumbered_shares :: nat

definition market_position_cmp :: "market_position \<Rightarrow> market_position \<Rightarrow> ordering" where
  "market_position_cmp a b = cmp_nat (mp_market a) (mp_market b)"

definition mp_new_empty :: "pubkey \<Rightarrow> data_index \<Rightarrow> market_position" where
  "mp_new_empty market seat_index_in_market =
     \<lparr> mp_market = market, mp_seat_index_in_market = seat_index_in_market, mp_debt_withdrawable_shares = 0,
       mp_debt_encumbered_shares = 0, mp_collateral_withdrawable_shares = 0, mp_collateral_encumbered_shares = 0 \<rparr>"

definition sync_from_seat :: "claimed_seat \<Rightarrow> market_position \<Rightarrow> market_position" where
  "sync_from_seat seat p =
     p\<lparr> mp_debt_withdrawable_shares := cs_debt_withdrawable_shares seat,
        mp_debt_encumbered_shares := cs_debt_encumbered_shares seat,
        mp_collateral_withdrawable_shares := cs_collateral_withdrawable_shares seat,
        mp_collateral_encumbered_shares := cs_collateral_encumbered_shares seat \<rparr>"

record user_loan_ref =
  ul_loan :: pubkey
  ul_market :: pubkey
  ul_principal_atoms :: nat
  ul_started_at_unix :: int
  ul_matures_at_unix :: int
  ul_rate_bps :: nat
  ul_role :: nat
  ul_counterparty_kind :: nat
  ul_counterparty_sub_vault_id :: nat

definition user_loan_ref_cmp :: "user_loan_ref \<Rightarrow> user_loan_ref \<Rightarrow> ordering" where
  "user_loan_ref_cmp a b = cmp_nat (ul_loan a) (ul_loan b)"

definition ul_probe :: "pubkey \<Rightarrow> user_loan_ref" where
  "ul_probe loan_pda =
     \<lparr> ul_loan = loan_pda, ul_market = default_pubkey, ul_principal_atoms = 0, ul_started_at_unix = 0,
       ul_matures_at_unix = 0, ul_rate_bps = 0, ul_role = 0, ul_counterparty_kind = 0, ul_counterparty_sub_vault_id = 0 \<rparr>"

datatype loan_role = Borrower | Lender

fun loan_role_u8 :: "loan_role \<Rightarrow> nat" where
  "loan_role_u8 Borrower = 0"
| "loan_role_u8 Lender = 1"

datatype counterparty_kind = UserWallet | GlobalVault

fun counterparty_kind_u8 :: "counterparty_kind \<Rightarrow> nat" where
  "counterparty_kind_u8 UserWallet = 0"
| "counterparty_kind_u8 GlobalVault = 1"

record user_order_ref =
  uo_market :: pubkey
  uo_order_sequence :: nat
  uo_principal_atoms :: nat
  uo_placed_at_unix :: int
  uo_term_seconds :: nat
  uo_rate_bps :: nat
  uo_side :: nat

definition user_order_ref_cmp :: "user_order_ref \<Rightarrow> user_order_ref \<Rightarrow> ordering" where
  "user_order_ref_cmp a b =
     then_cmp (cmp_nat (uo_market a) (uo_market b)) (cmp_nat (uo_order_sequence a) (uo_order_sequence b))"

definition uo_probe :: "pubkey \<Rightarrow> nat \<Rightarrow> user_order_ref" where
  "uo_probe market order_sequence =
     \<lparr> uo_market = market, uo_order_sequence = order_sequence, uo_principal_atoms = 0, uo_placed_at_unix = 0,
       uo_term_seconds = 0, uo_rate_bps = 0, uo_side = 0 \<rparr>"

record user_account =
  ua_discriminator :: nat
  ua_owner :: pubkey
  ua_num_bytes_allocated :: nat
  ua_vault_position_count :: nat
  ua_market_position_count :: nat
  ua_open_loan_count :: nat
  ua_bump :: nat
  ua_version :: nat
  ua_user_order_count :: nat
  ua_vault_positions :: "vault_position tree"
  ua_market_positions :: "market_position tree"
  ua_open_loans :: "user_loan_ref tree"
  ua_open_orders :: "user_order_ref tree"
  ua_free_list :: "data_index list"

definition ua_new_empty :: "pubkey \<Rightarrow> nat \<Rightarrow> user_account" where
  "ua_new_empty owner bump =
     \<lparr> ua_discriminator = USER_ACCOUNT_FIXED_DISCRIMINANT, ua_owner = owner, ua_num_bytes_allocated = 0,
       ua_vault_position_count = 0, ua_market_position_count = 0, ua_open_loan_count = 0, ua_bump = bump,
       ua_version = ACCOUNT_LAYOUT_VERSION, ua_user_order_count = 0, ua_vault_positions = [],
       ua_market_positions = [], ua_open_loans = [], ua_open_orders = [], ua_free_list = [] \<rparr>"

definition ua_has_free_block :: "user_account \<Rightarrow> bool" where
  "ua_has_free_block u = (ua_free_list u \<noteq> [])"

definition ua_verify_discriminant :: "user_account \<Rightarrow> unit res" where
  "ua_verify_discriminant u = require (ua_discriminator u = USER_ACCOUNT_FIXED_DISCRIMINANT) InvalidAccountData"

definition ua_verify_version :: "user_account \<Rightarrow> unit res" where
  "ua_verify_version u = require (ua_version u = ACCOUNT_LAYOUT_VERSION) InvalidAccountData"

section \<open>Blocks\<close>

definition get_free_address_on_user_account_fixed :: "user_account \<Rightarrow> data_index \<times> user_account" where
  "get_free_address_on_user_account_fixed u =
     (let (i, fl) = stack_remove (ua_free_list u) in (i, u\<lparr>ua_free_list := fl\<rparr>))"

definition release_address_on_user_account_fixed :: "user_account \<Rightarrow> data_index \<Rightarrow> user_account" where
  "release_address_on_user_account_fixed u index = u\<lparr>ua_free_list := stack_add index (ua_free_list u)\<rparr>"

definition user_account_expand :: "user_account \<Rightarrow> user_account res" where
  "user_account_expand u =
     ebind (ok_or (checked_add u32_lim (ua_num_bytes_allocated u) USER_ACCOUNT_BLOCK_SIZE) ArithmeticOverflow) (\<lambda>n.
     Inr (u\<lparr>ua_free_list := stack_add (ua_num_bytes_allocated u) (ua_free_list u), ua_num_bytes_allocated := n\<rparr>))"

section \<open>Positions, loans and orders\<close>

definition upsert_market_position :: "user_account \<Rightarrow> pubkey \<Rightarrow> data_index \<Rightarrow> (user_account \<times> data_index) res" where
  "upsert_market_position u market seat_index_in_market =
     (let probe = mp_new_empty market seat_index_in_market;
          existing_idx = tree_lookup market_position_cmp probe (ua_market_positions u) in
      if existing_idx \<noteq> NIL then Inr (u, existing_idx)
      else
        let (order_index, u1) = get_free_address_on_user_account_fixed u in
        ebind (require (order_index \<noteq> NIL) AccountDataTooSmall) (\<lambda>_.
        let u2 = u1\<lparr>ua_market_positions := tree_insert market_position_cmp order_index probe (ua_market_positions u1)\<rparr> in
        ebind (ok_or (checked_add u16_lim (ua_market_position_count u2) 1) ArithmeticOverflow) (\<lambda>n.
        Inr (u2\<lparr>ua_market_position_count := n\<rparr>, order_index))))"

definition upsert_vault_position :: "user_account \<Rightarrow> pubkey \<Rightarrow> nat \<Rightarrow> (user_account \<times> data_index) res" where
  "upsert_vault_position u vault sub_vault_id =
     (let probe = vp_new_empty vault sub_vault_id;
          existing_idx = tree_lookup vault_position_cmp probe (ua_vault_positions u) in
      if existing_idx \<noteq> NIL then Inr (u, existing_idx)
      else
        let (order_index, u1) = get_free_address_on_user_account_fixed u in
        ebind (require (order_index \<noteq> NIL) AccountDataTooSmall) (\<lambda>_.
        let u2 = u1\<lparr>ua_vault_positions := tree_insert vault_position_cmp order_index probe (ua_vault_positions u1)\<rparr> in
        ebind (ok_or (checked_add u16_lim (ua_vault_position_count u2) 1) ArithmeticOverflow) (\<lambda>n.
        Inr (u2\<lparr>ua_vault_position_count := n\<rparr>, order_index))))"

definition remove_vault_position :: "user_account \<Rightarrow> pubkey \<Rightarrow> nat \<Rightarrow> (user_account \<times> data_index) res" where
  "remove_vault_position u vault sub_vault_id =
     (let idx = tree_lookup vault_position_cmp (vp_new_empty vault sub_vault_id) (ua_vault_positions u) in
      if idx = NIL then Inr (u, NIL)
      else
        let u1 = u\<lparr>ua_vault_positions := tree_remove idx (ua_vault_positions u)\<rparr> in
        ebind (ok_or (checked_sub (ua_vault_position_count u1) 1) ArithmeticOverflow) (\<lambda>n.
        Inr (release_address_on_user_account_fixed (u1\<lparr>ua_vault_position_count := n\<rparr>) idx, idx)))"

definition insert_open_loan ::
  "user_account \<Rightarrow> pubkey \<Rightarrow> pubkey \<Rightarrow> loan_role \<Rightarrow> counterparty_kind \<Rightarrow> nat \<Rightarrow> nat \<Rightarrow> nat \<Rightarrow> int \<Rightarrow> int \<Rightarrow>
   (user_account \<times> data_index) res" where
  "insert_open_loan u loan_pda market role ck counterparty_sub_vault_id principal_atoms rate_bps started_at_unix
     matures_at_unix =
     (let existing_idx = tree_lookup user_loan_ref_cmp (ul_probe loan_pda) (ua_open_loans u) in
      if existing_idx \<noteq> NIL then Inr (u, existing_idx)
      else
        let (order_index, u1) = get_free_address_on_user_account_fixed u in
        ebind (require (order_index \<noteq> NIL) AccountDataTooSmall) (\<lambda>_.
        let new_ref = \<lparr> ul_loan = loan_pda, ul_market = market, ul_principal_atoms = principal_atoms,
              ul_started_at_unix = started_at_unix, ul_matures_at_unix = matures_at_unix, ul_rate_bps = rate_bps,
              ul_role = loan_role_u8 role, ul_counterparty_kind = counterparty_kind_u8 ck,
              ul_counterparty_sub_vault_id = counterparty_sub_vault_id \<rparr>;
            u2 = u1\<lparr>ua_open_loans := tree_insert user_loan_ref_cmp order_index new_ref (ua_open_loans u1)\<rparr> in
        ebind (ok_or (checked_add u32_lim (ua_open_loan_count u2) 1) ArithmeticOverflow) (\<lambda>n.
        Inr (u2\<lparr>ua_open_loan_count := n\<rparr>, order_index))))"

definition remove_open_loan :: "user_account \<Rightarrow> pubkey \<Rightarrow> (user_account \<times> data_index) res" where
  "remove_open_loan u loan_pda =
     (let idx = tree_lookup user_loan_ref_cmp (ul_probe loan_pda) (ua_open_loans u) in
      if idx = NIL then Inr (u, NIL)
      else
        let u1 = u\<lparr>ua_open_loans := tree_remove idx (ua_open_loans u)\<rparr> in
        ebind (ok_or (checked_sub (ua_open_loan_count u1) 1) ArithmeticOverflow) (\<lambda>n.
        Inr (release_address_on_user_account_fixed (u1\<lparr>ua_open_loan_count := n\<rparr>) idx, idx)))"

definition insert_user_order ::
  "user_account \<Rightarrow> pubkey \<Rightarrow> nat \<Rightarrow> nat \<Rightarrow> nat \<Rightarrow> nat \<Rightarrow> nat \<Rightarrow> int \<Rightarrow> (user_account \<times> data_index) res" where
  "insert_user_order u market order_sequence sd rate_bps term_seconds principal_atoms placed_at_unix =
     (let existing_idx = tree_lookup user_order_ref_cmp (uo_probe market order_sequence) (ua_open_orders u) in
      if existing_idx \<noteq> NIL then Inr (u, existing_idx)
      else
        let (order_index, u1) = get_free_address_on_user_account_fixed u in
        ebind (require (order_index \<noteq> NIL) AccountDataTooSmall) (\<lambda>_.
        let new_ref = \<lparr> uo_market = market, uo_order_sequence = order_sequence, uo_principal_atoms = principal_atoms,
              uo_placed_at_unix = placed_at_unix, uo_term_seconds = term_seconds, uo_rate_bps = rate_bps, uo_side = sd \<rparr>;
            u2 = u1\<lparr>ua_open_orders := tree_insert user_order_ref_cmp order_index new_ref (ua_open_orders u1)\<rparr> in
        ebind (ok_or (checked_add u32_lim (ua_user_order_count u2) 1) ArithmeticOverflow) (\<lambda>n.
        Inr (u2\<lparr>ua_user_order_count := n\<rparr>, order_index))))"

definition remove_user_order :: "user_account \<Rightarrow> pubkey \<Rightarrow> nat \<Rightarrow> (user_account \<times> data_index) res" where
  "remove_user_order u market order_sequence =
     (let idx = tree_lookup user_order_ref_cmp (uo_probe market order_sequence) (ua_open_orders u) in
      if idx = NIL then Inr (u, NIL)
      else
        let u1 = u\<lparr>ua_open_orders := tree_remove idx (ua_open_orders u)\<rparr> in
        ebind (ok_or (checked_sub (ua_user_order_count u1) 1) ArithmeticOverflow) (\<lambda>n.
        Inr (release_address_on_user_account_fixed (u1\<lparr>ua_user_order_count := n\<rparr>) idx, idx)))"

definition get_market_position :: "user_account \<Rightarrow> data_index \<Rightarrow> market_position res" where
  "get_market_position u index = ok_or (tree_get (ua_market_positions u) index) Panic"

definition write_market_position_from_seat :: "user_account \<Rightarrow> data_index \<Rightarrow> claimed_seat \<Rightarrow> user_account res" where
  "write_market_position_from_seat u index seat =
     ebind (get_market_position u index) (\<lambda>_.
     Inr (u\<lparr>ua_market_positions := tree_update index (sync_from_seat seat) (ua_market_positions u)\<rparr>))"

definition sync_signer_market_position :: "market \<Rightarrow> pubkey \<Rightarrow> user_account \<Rightarrow> pubkey \<Rightarrow> user_account res" where
  "sync_signer_market_position m market_key u signer =
     (let idx = seat_lookup m signer OWNER_KIND_USER 0 in
      if idx = NIL then Inr u
      else
        ebind (get_helper_seat m idx) (\<lambda>seat_snapshot.
        ebind (upsert_market_position u market_key idx) (\<lambda>(u1, mp_idx).
        write_market_position_from_seat u1 mp_idx seat_snapshot)))"

section \<open>One shape for all\<close>

text \<open>Every insertion and removal above is one operation on a tree, the free list and a counter.\<close>

definition node_insert ::
  "('v \<Rightarrow> 'v \<Rightarrow> ordering) \<Rightarrow> nat \<Rightarrow> 'v \<Rightarrow> 'v \<Rightarrow> 'v tree \<times> data_index list \<times> nat \<Rightarrow>
   (('v tree \<times> data_index list \<times> nat) \<times> data_index) res" where
  "node_insert cmp lim probe v s =
     (let (t, fl, c) = s; i = tree_lookup cmp probe t in
      if i \<noteq> NIL then Inr (s, i)
      else
        let (j, fl') = stack_remove fl in
        ebind (require (j \<noteq> NIL) AccountDataTooSmall) (\<lambda>_.
        ebind (ok_or (checked_add lim c 1) ArithmeticOverflow) (\<lambda>n.
        Inr ((tree_insert cmp j v t, fl', n), j))))"

definition node_remove ::
  "('v \<Rightarrow> 'v \<Rightarrow> ordering) \<Rightarrow> 'v \<Rightarrow> 'v tree \<times> data_index list \<times> nat \<Rightarrow>
   (('v tree \<times> data_index list \<times> nat) \<times> data_index) res" where
  "node_remove cmp probe s =
     (let (t, fl, c) = s; i = tree_lookup cmp probe t in
      if i = NIL then Inr (s, NIL)
      else
        ebind (ok_or (checked_sub c 1) ArithmeticOverflow) (\<lambda>n.
        Inr ((tree_remove i t, stack_add i fl, n), i)))"

lemma upsert_market_position_node:
  "upsert_market_position u market seat =
     ebind (node_insert market_position_cmp u16_lim (mp_new_empty market seat) (mp_new_empty market seat)
       (ua_market_positions u, ua_free_list u, ua_market_position_count u)) (\<lambda>((t, fl, c), i).
     Inr (u\<lparr>ua_market_positions := t, ua_free_list := fl, ua_market_position_count := c\<rparr>, i))"
  by (cases "stack_remove (ua_free_list u)")
    (simp add: upsert_market_position_def node_insert_def get_free_address_on_user_account_fixed_def Let_def require_def checked_add_def)

lemma upsert_vault_position_node:
  "upsert_vault_position u vault k =
     ebind (node_insert vault_position_cmp u16_lim (vp_new_empty vault k) (vp_new_empty vault k)
       (ua_vault_positions u, ua_free_list u, ua_vault_position_count u)) (\<lambda>((t, fl, c), i).
     Inr (u\<lparr>ua_vault_positions := t, ua_free_list := fl, ua_vault_position_count := c\<rparr>, i))"
  by (cases "stack_remove (ua_free_list u)")
    (simp add: upsert_vault_position_def node_insert_def get_free_address_on_user_account_fixed_def Let_def require_def checked_add_def)

lemma insert_open_loan_node:
  "insert_open_loan u loan_pda market role ck k p r t0 t1 =
     ebind (node_insert user_loan_ref_cmp u32_lim (ul_probe loan_pda)
       \<lparr> ul_loan = loan_pda, ul_market = market, ul_principal_atoms = p, ul_started_at_unix = t0,
         ul_matures_at_unix = t1, ul_rate_bps = r, ul_role = loan_role_u8 role,
         ul_counterparty_kind = counterparty_kind_u8 ck, ul_counterparty_sub_vault_id = k \<rparr>
       (ua_open_loans u, ua_free_list u, ua_open_loan_count u)) (\<lambda>((t, fl, c), i).
     Inr (u\<lparr>ua_open_loans := t, ua_free_list := fl, ua_open_loan_count := c\<rparr>, i))"
  by (cases "stack_remove (ua_free_list u)")
    (simp add: insert_open_loan_def node_insert_def get_free_address_on_user_account_fixed_def Let_def require_def checked_add_def)

lemma insert_user_order_node:
  "insert_user_order u market sq sd r ts p t0 =
     ebind (node_insert user_order_ref_cmp u32_lim (uo_probe market sq)
       \<lparr> uo_market = market, uo_order_sequence = sq, uo_principal_atoms = p, uo_placed_at_unix = t0,
         uo_term_seconds = ts, uo_rate_bps = r, uo_side = sd \<rparr>
       (ua_open_orders u, ua_free_list u, ua_user_order_count u)) (\<lambda>((t, fl, c), i).
     Inr (u\<lparr>ua_open_orders := t, ua_free_list := fl, ua_user_order_count := c\<rparr>, i))"
  by (cases "stack_remove (ua_free_list u)")
    (simp add: insert_user_order_def node_insert_def get_free_address_on_user_account_fixed_def Let_def require_def checked_add_def)

lemma remove_vault_position_node:
  "remove_vault_position u vault k =
     ebind (node_remove vault_position_cmp (vp_new_empty vault k)
       (ua_vault_positions u, ua_free_list u, ua_vault_position_count u)) (\<lambda>((t, fl, c), i).
     Inr (u\<lparr>ua_vault_positions := t, ua_free_list := fl, ua_vault_position_count := c\<rparr>, i))"
  by (simp add: remove_vault_position_def node_remove_def release_address_on_user_account_fixed_def Let_def
      checked_sub_def)

lemma remove_open_loan_node:
  "remove_open_loan u loan_pda =
     ebind (node_remove user_loan_ref_cmp (ul_probe loan_pda)
       (ua_open_loans u, ua_free_list u, ua_open_loan_count u)) (\<lambda>((t, fl, c), i).
     Inr (u\<lparr>ua_open_loans := t, ua_free_list := fl, ua_open_loan_count := c\<rparr>, i))"
  by (simp add: remove_open_loan_def node_remove_def release_address_on_user_account_fixed_def Let_def
      checked_sub_def)

lemma remove_user_order_node:
  "remove_user_order u market sq =
     ebind (node_remove user_order_ref_cmp (uo_probe market sq)
       (ua_open_orders u, ua_free_list u, ua_user_order_count u)) (\<lambda>((t, fl, c), i).
     Inr (u\<lparr>ua_open_orders := t, ua_free_list := fl, ua_user_order_count := c\<rparr>, i))"
  by (simp add: remove_user_order_def node_remove_def release_address_on_user_account_fixed_def Let_def
      checked_sub_def)

section \<open>The operation\<close>

text \<open>A key occurs once: the nodes are strictly descending.\<close>

definition keyed :: "('v \<Rightarrow> 'v \<Rightarrow> ordering) \<Rightarrow> 'v tree \<Rightarrow> bool" where
  "keyed cmp t = sorted_wrt (\<lambda>a b. cmp (snd a) (snd b) = Greater) t"

definition node_ok :: "('v \<Rightarrow> 'v \<Rightarrow> ordering) \<Rightarrow> 'v tree \<times> data_index list \<times> nat \<Rightarrow> bool" where
  "node_ok cmp s = (let (t, fl, c) = s in keyed cmp t \<and> c = length t \<and> distinct (map fst t @ fl) \<and>
     NIL \<notin> set (map fst t @ fl))"

lemma total_cmp_mixed:
  assumes c: "total_cmp cmp" and "cmp a b = Greater" "cmp b d = Greater"
  shows "cmp a d = Greater"
proof -
  have l: "cmp d b = Less" "cmp b a = Less" using assms total_cmp_flip[OF c] by auto
  have "cmp a d \<noteq> Less" using total_cmp_trans[OF c, of a b d] assms(2,3) by auto
  moreover have "cmp a d \<noteq> Equal"
  proof
    assume "cmp a d = Equal"
    then have "cmp d a \<noteq> Less" using total_cmp_flip[OF c, of d a] by auto
    then have "cmp d b \<noteq> Less" using total_cmp_trans[OF c, of d a b] assms(2) by auto
    then show False using l by simp
  qed
  ultimately show ?thesis by (cases "cmp a d") auto
qed

lemma keyed_insert:
  assumes c: "total_cmp cmp" and "keyed cmp t" "\<forall>(j, w) \<in> set t. cmp w v \<noteq> Equal"
  shows "keyed cmp (tree_insert cmp i v t)"
  using assms(2,3) unfolding keyed_def
proof (induction t)
  case (Cons jw t)
  obtain j w where jw: "jw = (j, w)" by force
  show ?case
  proof (cases "cmp v w = Greater")
    case True
    then show ?thesis using Cons.prems jw total_cmp_mixed[OF c True] by auto
  next
    case False
    have "cmp w v \<noteq> Less" "cmp w v \<noteq> Equal" using False total_cmp_flip[OF c, of w v] Cons.prems(2) jw by auto
    then have "cmp w v = Greater" by (cases "cmp w v") auto
    then show ?thesis using False Cons jw by auto
  qed
qed simp

lemma keyed_remove: "keyed cmp t \<Longrightarrow> keyed cmp (tree_remove i t)"
  by (simp add: keyed_def tree_remove_def sorted_wrt_filter)

lemma keyed_lookup:
  assumes "total_cmp cmp" "keyed cmp t" "(i, w) \<in> set t" "cmp w v = Equal"
  shows "tree_lookup cmp v t = i"
  using assms(2-4)
proof (induction t)
  case (Cons jw t)
  obtain j u where jw: "jw = (j, u)" by force
  show ?case
  proof (cases "(i, w) = jw")
    case False
    then have m: "(i, w) \<in> set t" using Cons.prems by auto
    then have "cmp u w = Greater" using Cons.prems(1) jw by (auto simp: keyed_def)
    then have "cmp u v \<noteq> Equal"
      using total_cmp_trans[OF assms(1), of w v u] total_cmp_flip[OF assms(1)] Cons.prems(3)
      by (metis ordering.distinct(1,3,5))
    then show ?thesis using Cons m jw by (auto simp: keyed_def)
  qed (use Cons.prems jw in auto)
qed simp

lemma node_insert_ok:
  assumes c: "total_cmp cmp" and ok: "node_ok cmp (t, fl, n)" and p: "cmp v probe = Equal" "\<And>w. cmp w probe = Equal \<longleftrightarrow> cmp w v = Equal"
    and r: "node_insert cmp lim probe v (t, fl, n) = Inr ((t', fl', n'), i)"
  shows "node_ok cmp (t', fl', n') \<and> mset (map fst t' @ fl') = mset (map fst t @ fl) \<and> tree_lookup cmp probe t' = i \<and> i \<noteq> NIL"
proof (cases "tree_lookup cmp probe t = NIL")
  case False
  then show ?thesis using ok r by (auto simp: node_insert_def)
next
  case True
  have nil: "NIL \<notin> fst ` set t" using ok by (auto simp: node_ok_def)
  obtain fl0 where fl: "fl = i # fl0" and e: "t' = tree_insert cmp i v t" "fl' = fl0" "n' = n + 1" and i: "i \<noteq> NIL"
    using r True by (cases fl) (auto simp: node_insert_def stack_remove_def require_Inr ok_or_Inr checked_add_Some Let_def elim!: ebind_InrE)
  have "\<forall>(j, w) \<in> set t. cmp w v \<noteq> Equal" using True tree_lookup_NIL[OF nil] p(2) by auto
  then have k: "keyed cmp t'" using keyed_insert[OF c] ok e by (simp add: node_ok_def)
  have m: "mset (map fst t' @ fl') = mset (map fst t @ fl)" by (simp add: e fl)
  have "distinct (map fst t' @ fl')" "NIL \<notin> set (map fst t' @ fl')"
    using ok mset_eq_imp_distinct_iff[OF m] mset_eq_setD[OF m] by (simp_all only: node_ok_def) auto
  moreover have "tree_lookup cmp probe t' = i" by (rule keyed_lookup[OF c k, of i v]) (simp_all add: e p)
  ultimately show ?thesis using k m e i ok by (simp add: node_ok_def)
qed

lemma node_remove_ok:
  assumes ok: "node_ok cmp (t, fl, n)" and r: "node_remove cmp probe (t, fl, n) = Inr ((t', fl', n'), i)"
  shows "node_ok cmp (t', fl', n') \<and> mset (map fst t' @ fl') = mset (map fst t @ fl)"
proof (cases "tree_lookup cmp probe t = NIL")
  case True
  then show ?thesis using ok r by (auto simp: node_remove_def)
next
  case False
  obtain w where w: "(i, w) \<in> set t" and i: "i = tree_lookup cmp probe t" 
    using tree_lookup_hit[OF False] r False by (auto simp: node_remove_def Let_def elim!: ebind_InrE)
  have e: "t' = tree_remove i t" "fl' = i # fl" "n' = n - 1"
    using r False i by (auto simp: node_remove_def Let_def stack_add_def ok_or_Inr checked_sub_Some elim!: ebind_InrE)
  have d: "distinct (map fst t)" using ok by (simp add: node_ok_def)
  obtain as bs where sp: "t = as @ (i, w) # bs" "tree_remove i t = as @ bs" using tree_split[OF d w] by blast
  have m: "mset (map fst t' @ fl') = mset (map fst t @ fl)" unfolding e sp(2) by (simp add: sp(1))
  have "distinct (map fst t' @ fl')" "NIL \<notin> set (map fst t' @ fl')"
    using ok mset_eq_imp_distinct_iff[OF m] mset_eq_setD[OF m] by (simp_all only: node_ok_def) auto
  moreover have "length t' = n - 1" using ok e sp by (simp add: node_ok_def)
  moreover have "keyed cmp t'" using keyed_remove ok e by (auto simp: node_ok_def)
  ultimately show ?thesis using m e by (simp add: node_ok_def)
qed

text \<open>Removing what was just inserted restores tree, free list and counter.\<close>

lemma node_insert_remove:
  assumes c: "total_cmp cmp" and ok: "node_ok cmp (t, fl, n)" and p: "cmp v probe = Equal" "\<And>w. cmp w probe = Equal \<longleftrightarrow> cmp w v = Equal"
    and new: "tree_lookup cmp probe t = NIL" and r: "node_insert cmp lim probe v (t, fl, n) = Inr (s', i)"
  shows "node_remove cmp probe s' = Inr ((t, fl, n), i)"
proof -
  obtain t' fl' n' where s': "s' = (t', fl', n')" by (cases s') auto
  note I = node_insert_ok[OF c ok p r[unfolded s']]
  obtain fl0 where fl: "fl = i # fl0" and e: "t' = tree_insert cmp i v t" "fl' = fl0" "n' = n + 1"
    using r new s' by (cases fl) (auto simp: node_insert_def stack_remove_def require_Inr ok_or_Inr checked_add_Some Let_def elim!: ebind_InrE)
  have "i \<notin> set (tree_indices t)" using ok fl by (auto simp: node_ok_def tree_indices_def)
  then have "tree_remove i t' = t" by (simp add: e tree_remove_insert tree_remove_absent)
  then show ?thesis using I by (simp add: node_remove_def s' e(2,3) fl checked_sub_def stack_add_def Let_def)
qed

lemma user_cmp_total:
  "total_cmp vault_position_cmp" "total_cmp market_position_cmp" "total_cmp user_loan_ref_cmp" "total_cmp user_order_ref_cmp"
  unfolding vault_position_cmp_def market_position_cmp_def user_loan_ref_cmp_def user_order_ref_cmp_def
  by (rule total_cmp_then total_cmp_nat)+

interpretation vault_positions: hypertree vault_position_cmp "\<lambda>t. t" "tree_ok vault_position_cmp"
  "tree_insert vault_position_cmp" tree_remove tree_max tree_next_lower
  by (rule list_hypertree) (rule user_cmp_total)

interpretation market_positions: hypertree market_position_cmp "\<lambda>t. t" "tree_ok market_position_cmp"
  "tree_insert market_position_cmp" tree_remove tree_max tree_next_lower
  by (rule list_hypertree) (rule user_cmp_total)

section \<open>Well-formed user accounts\<close>

definition user_blocks :: "user_account \<Rightarrow> data_index list" where
  "user_blocks u = map fst (ua_vault_positions u) @ map fst (ua_market_positions u) @ map fst (ua_open_loans u) @
     map fst (ua_open_orders u) @ ua_free_list u"

definition user_ok :: "user_account \<Rightarrow> bool" where
  "user_ok u =
     (distinct (user_blocks u) \<and> (\<forall>i \<in> set (user_blocks u). i < ua_num_bytes_allocated u) \<and>
      ua_num_bytes_allocated u < u32_lim \<and>
      keyed vault_position_cmp (ua_vault_positions u) \<and> keyed market_position_cmp (ua_market_positions u) \<and>
      keyed user_loan_ref_cmp (ua_open_loans u) \<and> keyed user_order_ref_cmp (ua_open_orders u) \<and>
      ua_vault_position_count u = length (ua_vault_positions u) \<and>
      ua_market_position_count u = length (ua_market_positions u) \<and>
      ua_open_loan_count u = length (ua_open_loans u) \<and> ua_user_order_count u = length (ua_open_orders u))"

lemma user_block_not_NIL: "user_ok u \<Longrightarrow> NIL \<notin> set (user_blocks u)"
  by (fastforce simp: user_ok_def NIL_def u32_lim_def)

lemma user_nodes_ok:
  assumes "user_ok u"
  shows "node_ok vault_position_cmp (ua_vault_positions u, ua_free_list u, ua_vault_position_count u)"
    "node_ok market_position_cmp (ua_market_positions u, ua_free_list u, ua_market_position_count u)"
    "node_ok user_loan_ref_cmp (ua_open_loans u, ua_free_list u, ua_open_loan_count u)"
    "node_ok user_order_ref_cmp (ua_open_orders u, ua_free_list u, ua_user_order_count u)"
  using assms user_block_not_NIL[OF assms]
  by (simp_all add: user_ok_def node_ok_def user_blocks_def disjoint_iff)

lemma user_blocks_moved:
  assumes "user_ok u" "mset (user_blocks u') = mset (user_blocks u)" "ua_num_bytes_allocated u' = ua_num_bytes_allocated u"
  shows "distinct (user_blocks u') \<and> (\<forall>i \<in> set (user_blocks u'). i < ua_num_bytes_allocated u')"
  using assms mset_eq_imp_distinct_iff[OF assms(2)] mset_eq_setD[OF assms(2)] by (simp add: user_ok_def)

lemma user_blocks_mset:
  "mset (user_blocks u) = mset (map fst (ua_vault_positions u) @ ua_free_list u) +
     (mset (map fst (ua_market_positions u)) + mset (map fst (ua_open_loans u)) + mset (map fst (ua_open_orders u)))"
  "mset (user_blocks u) = mset (map fst (ua_market_positions u) @ ua_free_list u) +
     (mset (map fst (ua_vault_positions u)) + mset (map fst (ua_open_loans u)) + mset (map fst (ua_open_orders u)))"
  "mset (user_blocks u) = mset (map fst (ua_open_loans u) @ ua_free_list u) +
     (mset (map fst (ua_vault_positions u)) + mset (map fst (ua_market_positions u)) + mset (map fst (ua_open_orders u)))"
  "mset (user_blocks u) = mset (map fst (ua_open_orders u) @ ua_free_list u) +
     (mset (map fst (ua_vault_positions u)) + mset (map fst (ua_market_positions u)) + mset (map fst (ua_open_loans u)))"
  by (simp_all add: user_blocks_def ac_simps)

lemma user_ok_parts:
  assumes ok: "user_ok u"
  shows "node_ok vault_position_cmp (vt, fl, n) \<Longrightarrow> mset (map fst vt @ fl) = mset (map fst (ua_vault_positions u) @ ua_free_list u) \<Longrightarrow>
      user_ok (u\<lparr>ua_vault_positions := vt, ua_free_list := fl, ua_vault_position_count := n\<rparr>)"
    "node_ok market_position_cmp (mt, fl, n) \<Longrightarrow> mset (map fst mt @ fl) = mset (map fst (ua_market_positions u) @ ua_free_list u) \<Longrightarrow>
      user_ok (u\<lparr>ua_market_positions := mt, ua_free_list := fl, ua_market_position_count := n\<rparr>)"
    "node_ok user_loan_ref_cmp (lt, fl, n) \<Longrightarrow> mset (map fst lt @ fl) = mset (map fst (ua_open_loans u) @ ua_free_list u) \<Longrightarrow>
      user_ok (u\<lparr>ua_open_loans := lt, ua_free_list := fl, ua_open_loan_count := n\<rparr>)"
    "node_ok user_order_ref_cmp (ot, fl, n) \<Longrightarrow> mset (map fst ot @ fl) = mset (map fst (ua_open_orders u) @ ua_free_list u) \<Longrightarrow>
      user_ok (u\<lparr>ua_open_orders := ot, ua_free_list := fl, ua_user_order_count := n\<rparr>)"
proof -
  have all: "user_ok u'"
    if "mset (user_blocks u') = mset (user_blocks u)" "ua_num_bytes_allocated u' = ua_num_bytes_allocated u"
      "keyed vault_position_cmp (ua_vault_positions u')" "keyed market_position_cmp (ua_market_positions u')"
      "keyed user_loan_ref_cmp (ua_open_loans u')" "keyed user_order_ref_cmp (ua_open_orders u')"
      "ua_vault_position_count u' = length (ua_vault_positions u')" "ua_market_position_count u' = length (ua_market_positions u')"
      "ua_open_loan_count u' = length (ua_open_loans u')" "ua_user_order_count u' = length (ua_open_orders u')" for u'
    using user_blocks_moved[OF ok that(1,2)] that ok by (simp add: user_ok_def)
  note o = ok[unfolded user_ok_def]
  show "node_ok vault_position_cmp (vt, fl, n) \<Longrightarrow> mset (map fst vt @ fl) = mset (map fst (ua_vault_positions u) @ ua_free_list u) \<Longrightarrow>
      user_ok (u\<lparr>ua_vault_positions := vt, ua_free_list := fl, ua_vault_position_count := n\<rparr>)"
    by (rule all) (use o in \<open>simp_all only: user_blocks_mset(1)\<close>, simp_all add: node_ok_def)
  show "node_ok market_position_cmp (mt, fl, n) \<Longrightarrow> mset (map fst mt @ fl) = mset (map fst (ua_market_positions u) @ ua_free_list u) \<Longrightarrow>
      user_ok (u\<lparr>ua_market_positions := mt, ua_free_list := fl, ua_market_position_count := n\<rparr>)"
    by (rule all) (use o in \<open>simp_all only: user_blocks_mset(2)\<close>, simp_all add: node_ok_def)
  show "node_ok user_loan_ref_cmp (lt, fl, n) \<Longrightarrow> mset (map fst lt @ fl) = mset (map fst (ua_open_loans u) @ ua_free_list u) \<Longrightarrow>
      user_ok (u\<lparr>ua_open_loans := lt, ua_free_list := fl, ua_open_loan_count := n\<rparr>)"
    by (rule all) (use o in \<open>simp_all only: user_blocks_mset(3)\<close>, simp_all add: node_ok_def)
  show "node_ok user_order_ref_cmp (ot, fl, n) \<Longrightarrow> mset (map fst ot @ fl) = mset (map fst (ua_open_orders u) @ ua_free_list u) \<Longrightarrow>
      user_ok (u\<lparr>ua_open_orders := ot, ua_free_list := fl, ua_user_order_count := n\<rparr>)"
    by (rule all) (use o in \<open>simp_all only: user_blocks_mset(4)\<close>, simp_all add: node_ok_def)
qed

lemmas user_node_laws = vault_position_cmp_def vp_new_empty_def market_position_cmp_def mp_new_empty_def
  user_loan_ref_cmp_def ul_probe_def user_order_ref_cmp_def uo_probe_def then_cmp_iff

lemma user_inserts_ok:
  assumes ok: "user_ok u"
  shows "upsert_market_position u mk seat = Inr (u', i) \<Longrightarrow> user_ok u'"
    "upsert_vault_position u vault k = Inr (u', i) \<Longrightarrow> user_ok u'"
    "insert_open_loan u lp mk role ck k p r t0 t1 = Inr (u', i) \<Longrightarrow> user_ok u'"
    "insert_user_order u mk sq sd r ts p pt = Inr (u', i) \<Longrightarrow> user_ok u'"
  unfolding upsert_market_position_node upsert_vault_position_node insert_open_loan_node insert_user_order_node
  by (elim ebind_InrE; clarsimp;
      (drule node_insert_ok[OF user_cmp_total(1) user_nodes_ok(1)[OF ok], rotated 2]
        | drule node_insert_ok[OF user_cmp_total(2) user_nodes_ok(2)[OF ok], rotated 2]
        | drule node_insert_ok[OF user_cmp_total(3) user_nodes_ok(3)[OF ok], rotated 2]
        | drule node_insert_ok[OF user_cmp_total(4) user_nodes_ok(4)[OF ok], rotated 2]);
      simp add: user_ok_parts[OF ok] user_node_laws)+

lemma user_removes_ok:
  assumes ok: "user_ok u"
  shows "remove_vault_position u vault k = Inr (u', i) \<Longrightarrow> user_ok u'"
    "remove_open_loan u lp = Inr (u', i) \<Longrightarrow> user_ok u'"
    "remove_user_order u mk sq = Inr (u', i) \<Longrightarrow> user_ok u'"
  unfolding remove_vault_position_node remove_open_loan_node remove_user_order_node
  by (elim ebind_InrE; clarsimp;
      (drule node_remove_ok[OF user_nodes_ok(1)[OF ok]] | drule node_remove_ok[OF user_nodes_ok(3)[OF ok]]
        | drule node_remove_ok[OF user_nodes_ok(4)[OF ok]]); simp add: user_ok_parts[OF ok])+

lemma user_expand_ok:
  assumes ok: "user_ok u" and e: "user_account_expand u = Inr u'"
  shows "user_ok u' \<and> ua_has_free_block u'"
proof -
  have u': "u' = u\<lparr>ua_free_list := ua_num_bytes_allocated u # ua_free_list u,
      ua_num_bytes_allocated := ua_num_bytes_allocated u + 160\<rparr>" "ua_num_bytes_allocated u + 160 < u32_lim"
    using e by (auto simp: user_account_expand_def result_simps stack_add_def USER_ACCOUNT_BLOCK_SIZE_def)
  have b: "\<forall>i \<in> set (user_blocks u). i < ua_num_bytes_allocated u" "distinct (user_blocks u)"
    using ok by (simp_all add: user_ok_def)
  have p: "mset (user_blocks u') = mset (ua_num_bytes_allocated u # user_blocks u)"
    by (simp add: u'(1) user_blocks_def)
  have "distinct (user_blocks u')" unfolding mset_eq_imp_distinct_iff[OF p] using b by auto
  moreover have "\<forall>i \<in> set (user_blocks u'). i < ua_num_bytes_allocated u + 160"
    unfolding mset_eq_setD[OF p] using b by (auto intro: less_trans)
  ultimately have "user_ok u'" using ok u'(2) unfolding user_ok_def by (simp add: u'(1))
  then show ?thesis by (simp add: u'(1) ua_has_free_block_def)
qed

section \<open>Reachable accounts\<close>

lemma sync_from_seat_key: "market_position_cmp (sync_from_seat seat p) q = market_position_cmp p q"
  "market_position_cmp q (sync_from_seat seat p) = market_position_cmp q p"
  by (simp_all add: market_position_cmp_def sync_from_seat_def)

lemma keyed_update:
  assumes "\<And>w q. cmp (f w) q = cmp w q" "\<And>w q. cmp q (f w) = cmp q w" "keyed cmp t"
  shows "keyed cmp (tree_update i f t)"
  using assms(3) unfolding keyed_def tree_update_def sorted_wrt_map
  by (elim sorted_wrt_mono_rel[rotated]) (auto simp: assms(1,2))

lemma user_write_ok:
  assumes "user_ok u" "write_market_position_from_seat u index seat = Inr u'"
  shows "user_ok u'"
proof -
  have u': "u' = u\<lparr>ua_market_positions := tree_update index (sync_from_seat seat) (ua_market_positions u)\<rparr>"
    using assms(2) by (auto simp: write_market_position_from_seat_def elim!: ebind_InrE)
  have "keyed market_position_cmp (tree_update index (sync_from_seat seat) (ua_market_positions u))"
    using assms(1) by (intro keyed_update) (simp_all add: sync_from_seat_key user_ok_def)
  then show ?thesis using assms(1) by (simp add: u' user_ok_def user_blocks_def)
qed

lemma user_sync_ok:
  assumes "user_ok u" "sync_signer_market_position m mk u signer = Inr u'"
  shows "user_ok u'"
  using assms unfolding sync_signer_market_position_def Let_def
  by (auto split: if_splits elim!: ebind_InrE intro: user_write_ok[OF user_inserts_ok(1)])

lemma user_new_ok: "user_ok (ua_new_empty owner bump)"
  by (simp add: ua_new_empty_def user_ok_def user_blocks_def keyed_def u32_lim_def)

inductive user_step :: "user_account \<Rightarrow> user_account \<Rightarrow> bool" where
  Expand: "user_account_expand u = Inr u' \<Longrightarrow> user_step u u'"
| Upsert_market: "upsert_market_position u mk seat = Inr (u', i) \<Longrightarrow> user_step u u'"
| Upsert_vault: "upsert_vault_position u vault k = Inr (u', i) \<Longrightarrow> user_step u u'"
| Remove_vault: "remove_vault_position u vault k = Inr (u', i) \<Longrightarrow> user_step u u'"
| Insert_loan: "insert_open_loan u lp mk role ck k p r t0 t1 = Inr (u', i) \<Longrightarrow> user_step u u'"
| Remove_loan: "remove_open_loan u lp = Inr (u', i) \<Longrightarrow> user_step u u'"
| Insert_order: "insert_user_order u mk sq sd r ts p t0 = Inr (u', i) \<Longrightarrow> user_step u u'"
| Remove_order: "remove_user_order u mk sq = Inr (u', i) \<Longrightarrow> user_step u u'"
| Sync: "sync_signer_market_position m mk u signer = Inr u' \<Longrightarrow> user_step u u'"

inductive_cases user_stepE: "user_step u u'"

inductive user_reach :: "pubkey \<Rightarrow> nat \<Rightarrow> user_account \<Rightarrow> bool" for owner bump where
  New: "user_reach owner bump (ua_new_empty owner bump)"
| Step: "user_reach owner bump u \<Longrightarrow> user_step u u' \<Longrightarrow> user_reach owner bump u'"

lemma user_step_ok: "user_step u u' \<Longrightarrow> user_ok u \<Longrightarrow> user_ok u'"
  by (erule user_stepE) (auto dest: user_expand_ok user_inserts_ok user_removes_ok user_sync_ok)

text \<open>C19. Every reachable user account is well formed: after any sequence of expansions, upserts,
  insertions, removals and seat syncs, the four trees and the free list occupy different blocks
  inside the allocated bytes, no key occurs twice in a tree, and each of the four counters is
  the number of nodes of its tree.\<close>

theorem user_account_counters:
  assumes "user_reach owner bump u"
  shows "distinct (user_blocks u) \<and> (\<forall>i \<in> set (user_blocks u). i < ua_num_bytes_allocated u) \<and>
    ua_num_bytes_allocated u < u32_lim \<and>
    keyed vault_position_cmp (ua_vault_positions u) \<and> keyed market_position_cmp (ua_market_positions u) \<and>
    keyed user_loan_ref_cmp (ua_open_loans u) \<and> keyed user_order_ref_cmp (ua_open_orders u) \<and>
    ua_vault_position_count u = length (ua_vault_positions u) \<and>
    ua_market_position_count u = length (ua_market_positions u) \<and>
    ua_open_loan_count u = length (ua_open_loans u) \<and> ua_user_order_count u = length (ua_open_orders u)"
proof -
  have "user_ok u" using assms by induction (auto simp: user_new_ok intro: user_step_ok)
  then show ?thesis by (simp add: user_ok_def)
qed

definition user_one_order :: user_account where
  "user_one_order = (ua_new_empty 7 1)\<lparr>ua_num_bytes_allocated := 160, ua_user_order_count := 1,
     ua_open_orders := [(0, \<lparr> uo_market = 3, uo_order_sequence = 5, uo_principal_atoms = 100, uo_placed_at_unix = 9,
       uo_term_seconds = 60, uo_rate_bps = 400, uo_side = 0 \<rparr>)]\<rparr>"

lemma user_one_order_steps:
  "user_account_expand (ua_new_empty 7 1) = Inr ((ua_new_empty 7 1)\<lparr>ua_num_bytes_allocated := 160, ua_free_list := [0]\<rparr>)"
  "insert_user_order ((ua_new_empty 7 1)\<lparr>ua_num_bytes_allocated := 160, ua_free_list := [0]\<rparr>) 3 5 0 400 60 100 9 =
     Inr (user_one_order, 0)"
  by (simp_all add: user_account_expand_def insert_user_order_def user_one_order_def ua_new_empty_def stack_add_def
      USER_ACCOUNT_BLOCK_SIZE_def checked_add_def u32_lim_def NIL_def get_free_address_on_user_account_fixed_def
      stack_remove_def)

lemma user_account_counters_witness:
  "ua_user_order_count user_one_order = length (ua_open_orders user_one_order) \<and> length (ua_open_orders user_one_order) = 1"
  using user_account_counters[OF user_reach.Step[OF user_reach.Step[OF user_reach.New Expand[OF user_one_order_steps(1)]]
      Insert_order[OF user_one_order_steps(2)]]]
  by (simp add: user_one_order_def)

text \<open>C20. Placing and cancelling leaves no trace on the account: when an order is new to a well-formed
  user account, recording it and then removing it gives back the very account (the trees, the
  free list in its order and the counters), and returns the same block.\<close>

theorem user_order_round_trip:
  assumes "user_ok u" "tree_lookup user_order_ref_cmp (uo_probe mk sq) (ua_open_orders u) = NIL"
    and "insert_user_order u mk sq sd r ts p t0 = Inr (u', i)"
  shows "remove_user_order u' mk sq = Inr (u, i)"
proof -
  define v where "v = \<lparr> uo_market = mk, uo_order_sequence = sq, uo_principal_atoms = p, uo_placed_at_unix = t0,
         uo_term_seconds = ts, uo_rate_bps = r, uo_side = sd \<rparr>"
  obtain t fl c where n: "node_insert user_order_ref_cmp u32_lim (uo_probe mk sq) v
      (ua_open_orders u, ua_free_list u, ua_user_order_count u) = Inr ((t, fl, c), i)"
    and u': "u' = u\<lparr>ua_open_orders := t, ua_free_list := fl, ua_user_order_count := c\<rparr>"
    using assms(3) unfolding insert_user_order_node v_def[symmetric] by (elim ebind_InrE) auto
  have "node_remove user_order_ref_cmp (uo_probe mk sq) (t, fl, c) =
      Inr ((ua_open_orders u, ua_free_list u, ua_user_order_count u), i)"
    by (rule node_insert_remove[OF user_cmp_total(4) user_nodes_ok(4)[OF assms(1)] _ _ assms(2) n])
      (simp_all add: user_node_laws v_def)
  then show ?thesis by (simp add: remove_user_order_node u')
qed

lemma user_order_round_trip_witness:
  "remove_user_order user_one_order 3 5 = Inr ((ua_new_empty 7 1)\<lparr>ua_num_bytes_allocated := 160, ua_free_list := [0]\<rparr>, 0)"
  by (rule user_order_round_trip[OF conjunct1[OF user_expand_ok[OF user_new_ok user_one_order_steps(1)]] _
        user_one_order_steps(2)])
    (simp add: ua_new_empty_def)

text \<open>C21. A sync mirrors the seat: when the signer has a seat in the market, a successful sync leaves in the
  signer's account a position for that market whose four balances are those of the seat, and
  the account stays well formed.\<close>

theorem sync_mirrors_seat:
  assumes "user_ok u" "sync_signer_market_position m mk u signer = Inr u'"
    and "seat_lookup m signer OWNER_KIND_USER 0 = idx" "idx \<noteq> NIL" "tree_get (mk_claimed_seats m) idx = Some seat"
  shows "\<exists>p i. tree_get (ua_market_positions u') i = Some p \<and> i \<noteq> NIL \<and> mp_market p = mk \<and>
    mp_debt_withdrawable_shares p = cs_debt_withdrawable_shares seat \<and>
    mp_debt_encumbered_shares p = cs_debt_encumbered_shares seat \<and>
    mp_collateral_withdrawable_shares p = cs_collateral_withdrawable_shares seat \<and>
    mp_collateral_encumbered_shares p = cs_collateral_encumbered_shares seat \<and> user_ok u'"
proof -
  obtain u1 i where up: "upsert_market_position u mk idx = Inr (u1, i)"
    and w: "write_market_position_from_seat u1 i seat = Inr u'"
    using assms(2-5) by (auto simp: sync_signer_market_position_def get_helper_seat_def elim!: ebind_InrE)
  define v where "v = mp_new_empty mk idx"
  obtain t fl c where n: "node_insert market_position_cmp u16_lim v v
      (ua_market_positions u, ua_free_list u, ua_market_position_count u) = Inr ((t, fl, c), i)"
    and u1: "u1 = u\<lparr>ua_market_positions := t, ua_free_list := fl, ua_market_position_count := c\<rparr>"
    using up unfolding upsert_market_position_node v_def[symmetric] by (elim ebind_InrE) auto
  have i: "tree_lookup market_position_cmp v t = i" "i \<noteq> NIL"
    and ok: "node_ok market_position_cmp (t, fl, c)"
    using node_insert_ok[OF user_cmp_total(2) user_nodes_ok(2)[OF assms(1)] _ _ n]
    by (simp_all add: total_cmp_refl[OF user_cmp_total(2)])
  obtain p where p: "(i, p) \<in> set t" "market_position_cmp p v = Equal" using tree_lookup_hit[of market_position_cmp v t] i by auto
  then have g: "tree_get t i = Some p" using ok by (simp add: tree_get_iff node_ok_def)
  have "tree_get (ua_market_positions u') i = Some (sync_from_seat seat p)"
    using w g u1 by (auto simp: write_market_position_from_seat_def get_market_position_def tree_get_update elim!: ebind_InrE)
  moreover have "mp_market p = mk" using p(2) by (simp add: v_def market_position_cmp_def mp_new_empty_def)
  ultimately show ?thesis using i user_sync_ok[OF assms(1,2)]
    by (intro exI[of _ "sync_from_seat seat p"] exI[of _ i]) (simp add: sync_from_seat_def)
qed

definition one_seat_market :: market where
  "one_seat_market = (mk_new_empty (\<lambda>k m. (m, 255)) 1 6 2 6 3)\<lparr> mk_num_bytes_allocated := 160,
     mk_claimed_seats := [(0, (cs_new_empty 7 0 0)\<lparr>cs_debt_withdrawable_shares := 5\<rparr>)] \<rparr>"

lemma sync_mirrors_seat_witness:
  "\<exists>u' p i. sync_signer_market_position one_seat_market 3
       ((ua_new_empty 7 1)\<lparr>ua_num_bytes_allocated := 160, ua_free_list := [0]\<rparr>) 7 = Inr u' \<and>
     tree_get (ua_market_positions u') i = Some p \<and> mp_debt_withdrawable_shares p = 5"
proof -
  let ?u = "(ua_new_empty 7 1)\<lparr>ua_num_bytes_allocated := 160, ua_free_list := [0]\<rparr>"
  note e = one_seat_market_def seat_lookup_def mk_new_empty_def cs_new_empty_def claimed_seat_cmp_def
    OWNER_KIND_USER_def NIL_def cmp_nat_def
  have l: "seat_lookup one_seat_market 7 OWNER_KIND_USER 0 = 0" and z: "(0::nat) \<noteq> NIL"
    and g: "tree_get (mk_claimed_seats one_seat_market) 0 = Some ((cs_new_empty 7 0 0)\<lparr>cs_debt_withdrawable_shares := 5\<rparr>)"
    by (simp_all add: e tree_get_def)
  obtain u' where u': "sync_signer_market_position one_seat_market 3 ?u 7 = Inr u'"
    by (simp add: sync_signer_market_position_def l z get_helper_seat_def g[unfolded tree_get_def] upsert_market_position_def ua_new_empty_def
        get_free_address_on_user_account_fixed_def stack_remove_def checked_add_def u16_lim_def
        write_market_position_from_seat_def get_market_position_def tree_get_def)
  show ?thesis
    using sync_mirrors_seat[OF conjunct1[OF user_expand_ok[OF user_new_ok user_one_order_steps(1)]] u' l z g] u'
    by (auto simp: cs_new_empty_def)
qed

end
