(* ===== verification/Loan_Books.thy ===== *)
theory Loan_Books
  imports Matching Marginfi
begin

text \<open>The lender's books over the life of a loan: what the promotion of a matched loan
  (\<open>process_matched_loan.rs\<close>), the close of a fixed loan (\<open>repay.rs\<close>, and the same steps in
  \<open>settle_matured_loan.rs\<close> and \<open>liquidate_loan.rs\<close>) and the sweep of repaid atoms
  (\<open>claim_repayment_for_sub_vault.rs\<close>) do to the lending sub-vault. The invariant of this theory ties the
  counters of a sub-vault to the loans it has reserved and deployed, so that closing a loan can
  always take back what deploying it added.\<close>

definition u128_as_i128 :: "nat \<Rightarrow> int" where
  "u128_as_i128 a = (if a < 2 ^ 127 then int a else int a - 2 ^ 128)"

definition i128_as_u64 :: "int \<Rightarrow> nat" where
  "i128_as_u64 a = nat (a mod 2 ^ 64)"

definition read_bank_asset_share_value_fp48 :: "pool \<Rightarrow> pubkey \<Rightarrow> fp48 res" where
  "read_bank_asset_share_value_fp48 p b =
     (if bk_layout_ok (pl_banks p b) then wrapped_i80f48_to_u128 (bk_asset_share_value (pl_banks p b))
      else Inl (Custom IncorrectAccount))"

definition weighted_delta_of :: "nat \<Rightarrow> nat \<Rightarrow> nat res" where
  "weighted_delta_of principal_atoms rate_bps = ok_or (checked_mul u128_lim principal_atoms rate_bps) (Custom MathOverflow)"

definition net_weighted_delta_of :: "nat \<Rightarrow> nat \<Rightarrow> nat res" where
  "net_weighted_delta_of weighted_delta curator_fee_bps =
     ebind (ok_or (checked_sub BPS_PER_UNIT curator_fee_bps) Panic) (\<lambda>n.
     mul_div weighted_delta n BPS_PER_UNIT False)"

text \<open>The sub-vault side of a promotion; \<open>surplus\<close> is what the withdrawal took beyond the principal.\<close>

definition deploy_on_sub_vault ::
  "sub_vault \<Rightarrow> int \<Rightarrow> fp48 \<Rightarrow> nat \<Rightarrow> nat \<Rightarrow> nat \<Rightarrow> nat \<Rightarrow> sub_vault res" where
  "deploy_on_sub_vault s now share_value principal_atoms lender_rate_bps curator_fee_bps surplus_atoms =
     ebind (accrue_sub_vault s now share_value) (\<lambda>s.
     ebind (ok_or (checked_add u64_lim (sv_deployed_principal_atoms s) principal_atoms) ArithmeticOverflow) (\<lambda>d.
     ebind (weighted_delta_of principal_atoms lender_rate_bps) (\<lambda>weighted_delta.
     ebind (ok_or (checked_add u128_lim (sv_total_weighted_rate_bps s) weighted_delta) ArithmeticOverflow) (\<lambda>w.
     ebind (net_weighted_delta_of weighted_delta curator_fee_bps) (\<lambda>net_weighted_delta.
     ebind (ok_or (checked_add u128_lim (sv_total_weighted_net_rate_bps s) net_weighted_delta) ArithmeticOverflow) (\<lambda>nw.
     ebind (ok_or (checked_sub (sv_encumbered_in_orders_atoms s) principal_atoms) ArithmeticOverflow) (\<lambda>e.
     let s1 = s\<lparr>sv_deployed_principal_atoms := d, sv_total_weighted_rate_bps := w,
                sv_total_weighted_net_rate_bps := nw, sv_encumbered_in_orders_atoms := e\<rparr> in
     if 0 < surplus_atoms then
       ebind (ok_or (checked_sub (sv_total_principal_atoms s1) surplus_atoms) ArithmeticOverflow) (\<lambda>tp.
       ebind (ok_or (checked_sub (sv_total_assets_atoms s1) surplus_atoms) ArithmeticOverflow) (\<lambda>ta.
       Inr (restore_assets_principal_invariant (s1\<lparr>sv_total_principal_atoms := tp, sv_total_assets_atoms := ta\<rparr>))))
     else Inr s1)))))))"

text \<open>The reconciliation of the estimated against the realized income of a closed loan.\<close>

definition realize_on_sub_vault :: "sub_vault \<Rightarrow> nat \<Rightarrow> nat \<Rightarrow> nat \<Rightarrow> sub_vault res" where
  "realize_on_sub_vault s loan_principal loan_lender_claimable estimated_accrued_atoms =
     (let realized_net = int loan_lender_claimable - int loan_principal in
      ebind (if 0 \<le> realized_net then
               ebind (ok_or (checked_add u64_lim (sv_total_principal_atoms s) (nat realized_net)) ArithmeticOverflow) (\<lambda>tp.
               Inr (s\<lparr>sv_total_principal_atoms := tp\<rparr>))
             else Inr (s\<lparr>sv_total_principal_atoms := saturating_sub (sv_total_principal_atoms s) (nat (- realized_net))\<rparr>)) (\<lambda>s1.
      let assets_delta = realized_net - u128_as_i128 estimated_accrued_atoms in
      if 2 ^ 127 \<le> \<bar>assets_delta\<bar> then Inl Panic
      else
        ebind (if 0 \<le> assets_delta then
                 ebind (ok_or (checked_add u64_lim (sv_total_assets_atoms s1) (i128_as_u64 assets_delta)) ArithmeticOverflow) (\<lambda>ta.
                 Inr (s1\<lparr>sv_total_assets_atoms := ta\<rparr>))
               else Inr (s1\<lparr>sv_total_assets_atoms := saturating_sub (sv_total_assets_atoms s1) (i128_as_u64 (- assets_delta))\<rparr>)) (\<lambda>s2.
        Inr (restore_assets_principal_invariant s2))))"

text \<open>The sub-vault side of the close of a fixed loan.\<close>

definition retire_on_sub_vault :: "sub_vault \<Rightarrow> int \<Rightarrow> fp48 \<Rightarrow> loan_fixed \<Rightarrow> sub_vault res" where
  "retire_on_sub_vault s now share_value loan =
     ebind (accrue_sub_vault s now share_value) (\<lambda>s.
     ebind (weighted_delta_of (ln_principal_debt_atoms loan) (ln_lender_rate_bps loan)) (\<lambda>weighted_delta.
     ebind (ok_or (checked_sub (sv_total_weighted_rate_bps s) weighted_delta) ArithmeticOverflow) (\<lambda>w.
     ebind (net_weighted_delta_of weighted_delta (ln_curator_fee_bps_snapshot loan)) (\<lambda>net_weighted_delta.
     ebind (ok_or (checked_sub (sv_total_weighted_net_rate_bps s) net_weighted_delta) ArithmeticOverflow) (\<lambda>nw.
     ebind (ok_or (checked_sub (sv_deployed_principal_atoms s) (ln_principal_debt_atoms loan)) ArithmeticOverflow) (\<lambda>d.
     ebind (ok_or (checked_sub (sv_open_loans_count s) 1) ArithmeticOverflow) (\<lambda>c.
     let loan_lifetime = nat (max 0 (i64_saturating_sub now (ln_started_at_unix loan))) in
     ebind (ok_or (checked_mul u128_lim BPS_PER_UNIT SECONDS_PER_YEAR) (Custom MathOverflow)) (\<lambda>yield_denom.
     ebind (mul_div net_weighted_delta loan_lifetime yield_denom False) (\<lambda>estimated_accrued_atoms.
     ebind (realize_on_sub_vault
              (s\<lparr>sv_total_weighted_rate_bps := w, sv_total_weighted_net_rate_bps := nw,
                 sv_deployed_principal_atoms := d, sv_open_loans_count := c\<rparr>)
              (ln_principal_debt_atoms loan) (ln_lender_claimable_atoms loan) estimated_accrued_atoms) (\<lambda>s1.
     ebind (ok_or (checked_add u64_lim (sv_pending_claim_atoms s1) (ln_lender_claimable_atoms loan)) ArithmeticOverflow) (\<lambda>pc.
     let s2 = s1\<lparr>sv_pending_claim_atoms := pc\<rparr> in
     if 0 < ln_accumulated_curator_fee_atoms loan then
       ebind (ok_or (checked_add u64_lim (sv_accumulated_curator_fee_atoms s2) (ln_accumulated_curator_fee_atoms loan))
                ArithmeticOverflow) (\<lambda>cf.
       Inr (s2\<lparr>sv_accumulated_curator_fee_atoms := cf\<rparr>))
     else Inr s2)))))))))))"

definition sweep_on_sub_vault :: "sub_vault \<Rightarrow> nat \<Rightarrow> sub_vault" where
  "sweep_on_sub_vault s actual_atoms =
     s\<lparr>sv_pending_claim_atoms := saturating_sub (sv_pending_claim_atoms s) actual_atoms\<rparr>"

section \<open>On the vault\<close>

definition on_sub_vault :: "global_vault \<Rightarrow> nat \<Rightarrow> (sub_vault \<Rightarrow> sub_vault res) \<Rightarrow> global_vault res" where
  "on_sub_vault v sub_vault_id f =
     (let idx = sub_vault_index v sub_vault_id in
      ebind (require (idx \<noteq> NIL) (Custom SubVaultNotFound)) (\<lambda>_.
      ebind (get_sub_vault v idx) (\<lambda>s.
      ebind (f s) (\<lambda>s'.
      Inr (set_sub_vault v idx s')))))"

section \<open>What each step does\<close>

lemma restore_frame: "sv_accrue_frame s (restore_assets_principal_invariant s)"
  by (simp add: restore_assets_principal_invariant_def sv_accrue_frame_def)

lemma sv_accrue_frame_refl [simp]: "sv_accrue_frame s s"
  by (simp add: sv_accrue_frame_def)

lemma sv_accrue_frame_trans: "sv_accrue_frame a b \<Longrightarrow> sv_accrue_frame b c \<Longrightarrow> sv_accrue_frame a c"
  by (simp add: sv_accrue_frame_def)

lemma accrue_assets_frame: "accrue_assets s d y = Inr s' \<Longrightarrow> sv_accrue_frame s s'"
  by (auto simp: accrue_assets_def sv_accrue_frame_def split: if_splits elim!: ebind_InrE)

lemma accrue_indices_frame: "accrue_indices s d y = Inr s' \<Longrightarrow> sv_accrue_frame s s'"
  by (auto simp: accrue_indices_def sv_accrue_frame_def split: if_splits elim!: ebind_InrE)

lemma stamp_frame:
  "sv_accrue_frame a (restore_assets_principal_invariant
     (if b then a\<lparr>sv_last_accrue_unix := n\<rparr> else a\<lparr>sv_last_accrue_unix := n, sv_last_supply_share_value_fp48 := c\<rparr>))"
  by (cases b) (simp_all add: sv_accrue_frame_def restore_assets_principal_invariant_def)

lemma accrue_frame:
  assumes r: "accrue_sub_vault s now cv = Inr s'"
  shows "sv_accrue_frame s s'"
proof -
  consider "now \<le> sv_last_accrue_unix s" | "sv_last_accrue_unix s < now" "sv_total_principal_atoms s = 0"
    | "sv_last_accrue_unix s < now" "sv_total_principal_atoms s \<noteq> 0" by linarith
  then show ?thesis
  proof cases
    case 1
    then show ?thesis using r by (simp add: accrue_sub_vault_def)
  next
    case 2
    then show ?thesis using r by (cases "fp48_is_zero cv") (auto simp: accrue_sub_vault_def sv_accrue_frame_def)
  next
    case 3
    then obtain d y s1 s2 where "accrue_assets s d y = Inr s1" "accrue_indices s1 d y = Inr s2"
      and s': "s' = restore_assets_principal_invariant (if fp48_is_zero cv then s2\<lparr>sv_last_accrue_unix := now\<rparr>
        else s2\<lparr>sv_last_accrue_unix := now, sv_last_supply_share_value_fp48 := cv\<rparr>)"
      using r by (simp add: accrue_sub_vault_def Let_def) (elim ebind_InrE; simp)
    then have "sv_accrue_frame s s2" using accrue_assets_frame accrue_indices_frame sv_accrue_frame_trans by blast
    then show ?thesis unfolding s' using stamp_frame sv_accrue_frame_trans by blast
  qed
qed

text \<open>Fields of a sub-vault the lender's books are about.\<close>

type_synonym lent = "nat \<times> nat \<times> nat"

definition lent_weight :: "lent \<Rightarrow> nat" where
  "lent_weight l = (let (p, r, c) = l in p * r)"

definition lent_net_weight :: "lent \<Rightarrow> nat" where
  "lent_net_weight l = (let (p, r, c) = l in p * r * (BPS_PER_UNIT - c) div BPS_PER_UNIT)"

definition lent_of :: "loan_fixed \<Rightarrow> lent" where
  "lent_of loan = (ln_principal_debt_atoms loan, ln_lender_rate_bps loan, ln_curator_fee_bps_snapshot loan)"

definition lent_ok :: "lent \<Rightarrow> bool" where
  "lent_ok l = (let (p, r, c) = l in p < u64_lim \<and> r < u16_lim \<and> c \<le> BPS_PER_UNIT)"

definition books :: "nat multiset \<Rightarrow> lent multiset \<Rightarrow> sub_vault \<Rightarrow> bool" where
  "books reserved deployed s =
     (sv_encumbered_in_orders_atoms s = sum_mset reserved \<and>
      sv_deployed_principal_atoms s = sum_mset (image_mset fst deployed) \<and>
      sv_total_weighted_rate_bps s = sum_mset (image_mset lent_weight deployed) \<and>
      sv_total_weighted_net_rate_bps s = sum_mset (image_mset lent_net_weight deployed) \<and>
      sv_open_loans_count s = size reserved + size deployed \<and>
      (\<forall>l \<in># deployed. lent_ok l))"

lemma books_frame: "books rs ds s \<Longrightarrow> sv_accrue_frame s s' \<Longrightarrow> books rs ds s'"
  by (simp add: books_def sv_accrue_frame_def)

lemma weighted_delta_Inr: "lent_ok (p, r, c) \<Longrightarrow> weighted_delta_of p r = Inr (lent_weight (p, r, c))"
proof -
  assume "lent_ok (p, r, c)"
  then have "p < u64_lim" "r < u64_lim" using lim_order by (auto simp: lent_ok_def)
  then show ?thesis using u64_prod_in_u128 by (simp add: weighted_delta_of_def lent_weight_def checked_mul_def)
qed

lemma net_weighted_delta_Inr:
  assumes "lent_ok (p, r, c)"
  shows "net_weighted_delta_of (lent_weight (p, r, c)) c = Inr (lent_net_weight (p, r, c)) \<and> lent_net_weight (p, r, c) < u128_lim"
proof -
  have "p < u64_lim" "r < u64_lim" "c \<le> BPS_PER_UNIT" using assms lim_order by (auto simp: lent_ok_def)
  then have w: "p * r < u128_lim" "c \<le> BPS_PER_UNIT" using u64_prod_in_u128 by auto
  have b: "BPS_PER_UNIT - c < u128_lim" "0 < BPS_PER_UNIT" by (simp_all add: BPS_PER_UNIT_def u128_lim_def)
  have "p * r * (BPS_PER_UNIT - c) div BPS_PER_UNIT \<le> p * r" by (rule floor_share_le) (simp_all add: b)
  then have "p * r * (BPS_PER_UNIT - c) div BPS_PER_UNIT < u128_lim" using w by linarith
  then show ?thesis using w b
    by (simp add: net_weighted_delta_of_def lent_weight_def lent_net_weight_def checked_sub_def mul_div_floor_Inr)
qed

lemma restore_fields [simp]:
  "sv_total_principal_atoms (restore_assets_principal_invariant s) = sv_total_principal_atoms s"
  "sv_deployed_principal_atoms (restore_assets_principal_invariant s) = sv_deployed_principal_atoms s"
  "sv_encumbered_in_orders_atoms (restore_assets_principal_invariant s) = sv_encumbered_in_orders_atoms s"
  "sv_total_weighted_rate_bps (restore_assets_principal_invariant s) = sv_total_weighted_rate_bps s"
  "sv_total_weighted_net_rate_bps (restore_assets_principal_invariant s) = sv_total_weighted_net_rate_bps s"
  "sv_open_loans_count (restore_assets_principal_invariant s) = sv_open_loans_count s"
  "sv_pending_claim_atoms (restore_assets_principal_invariant s) = sv_pending_claim_atoms s"
  "sv_accumulated_curator_fee_atoms (restore_assets_principal_invariant s) = sv_accumulated_curator_fee_atoms s"
  "sv_total_principal_atoms s \<le> sv_total_assets_atoms (restore_assets_principal_invariant s)"
  by (simp_all add: restore_assets_principal_invariant_def)

lemma deploy_Inr:
  assumes "deploy_on_sub_vault s now cv p r c sur = Inr s'"
  obtains s1 w nw where "accrue_sub_vault s now cv = Inr s1" "weighted_delta_of p r = Inr w"
    "net_weighted_delta_of w c = Inr nw" "p \<le> sv_encumbered_in_orders_atoms s1" "sur \<le> sv_total_principal_atoms s1"
    "sv_deployed_principal_atoms s' = sv_deployed_principal_atoms s1 + p"
    "sv_total_weighted_rate_bps s' = sv_total_weighted_rate_bps s1 + w"
    "sv_total_weighted_net_rate_bps s' = sv_total_weighted_net_rate_bps s1 + nw"
    "sv_encumbered_in_orders_atoms s' = sv_encumbered_in_orders_atoms s1 - p"
    "sv_total_principal_atoms s' = sv_total_principal_atoms s1 - sur"
    "sv_open_loans_count s' = sv_open_loans_count s1" "sv_pending_claim_atoms s' = sv_pending_claim_atoms s1"
    "sv_total_principal_atoms s1 \<le> sv_total_assets_atoms s1 \<longrightarrow> sv_total_principal_atoms s' \<le> sv_total_assets_atoms s'"
proof -
  obtain s1 w nw ta where a: "accrue_sub_vault s now cv = Inr s1"
    and b: "weighted_delta_of p r = Inr w" "net_weighted_delta_of w c = Inr nw" "p \<le> sv_encumbered_in_orders_atoms s1"
      "sur \<le> sv_total_principal_atoms s1"
    and s': "s' = (let t = s1\<lparr>sv_deployed_principal_atoms := sv_deployed_principal_atoms s1 + p,
        sv_total_weighted_rate_bps := sv_total_weighted_rate_bps s1 + w,
        sv_total_weighted_net_rate_bps := sv_total_weighted_net_rate_bps s1 + nw,
        sv_encumbered_in_orders_atoms := sv_encumbered_in_orders_atoms s1 - p\<rparr> in
      if 0 < sur then restore_assets_principal_invariant
        (t\<lparr>sv_total_principal_atoms := sv_total_principal_atoms s1 - sur, sv_total_assets_atoms := ta\<rparr>) else t)"
  proof (cases "0 < sur")
    case True
    then show thesis using assms that
      by (auto simp: deploy_on_sub_vault_def Let_def ok_or_Inr checked_add_Some checked_sub_Some elim!: ebind_InrE)
  next
    case False
    then show thesis using assms that
      by (auto simp: deploy_on_sub_vault_def Let_def ok_or_Inr checked_add_Some checked_sub_Some elim!: ebind_InrE)
  qed
  show thesis
    by (rule that[OF a b]) (auto simp: s' Let_def restore_assets_principal_invariant_def)
qed

text \<open>The realized income moves the principal by what the lender got beyond what it lent.\<close>

lemma realize_Inr:
  assumes "realize_on_sub_vault s p cl est = Inr s'"
  shows "sv_total_principal_atoms s' = sv_total_principal_atoms s + cl - p \<and>
    sv_total_principal_atoms s' \<le> sv_total_assets_atoms s' \<and> sv_pending_claim_atoms s' = sv_pending_claim_atoms s \<and>
    sv_accrue_frame s s'"
proof -
  let ?tp = "sv_total_principal_atoms s + cl - p"
  let ?s1 = "s\<lparr>sv_total_principal_atoms := ?tp\<rparr>"
  have n: "sv_total_principal_atoms s + nat (int cl - int p) = ?tp" if "p \<le> cl"
    using that by (simp add: nat_diff_distrib')
  have m: "sv_total_principal_atoms s - nat (int p - int cl) = ?tp" if "\<not> p \<le> cl"
    using that by (simp add: nat_diff_distrib')
  obtain ta where "s' = restore_assets_principal_invariant (?s1\<lparr>sv_total_assets_atoms := ta\<rparr>)"
    using assms
    by (cases "p \<le> cl") (auto simp: realize_on_sub_vault_def Let_def ok_or_Inr checked_add_Some n m
        split: if_splits elim!: ebind_InrE)
  then show ?thesis using restore_fields(9)[of "?s1\<lparr>sv_total_assets_atoms := ta\<rparr>"]
    by (simp add: sv_accrue_frame_def restore_assets_principal_invariant_def)
qed

lemma retire_Inr:
  assumes "retire_on_sub_vault s now cv loan = Inr s'"
  obtains s1 w nw where "accrue_sub_vault s now cv = Inr s1"
    "weighted_delta_of (ln_principal_debt_atoms loan) (ln_lender_rate_bps loan) = Inr w"
    "net_weighted_delta_of w (ln_curator_fee_bps_snapshot loan) = Inr nw"
    "w \<le> sv_total_weighted_rate_bps s1" "nw \<le> sv_total_weighted_net_rate_bps s1"
    "ln_principal_debt_atoms loan \<le> sv_deployed_principal_atoms s1" "0 < sv_open_loans_count s1"
    "sv_encumbered_in_orders_atoms s' = sv_encumbered_in_orders_atoms s1"
    "sv_deployed_principal_atoms s' = sv_deployed_principal_atoms s1 - ln_principal_debt_atoms loan"
    "sv_total_weighted_rate_bps s' = sv_total_weighted_rate_bps s1 - w"
    "sv_total_weighted_net_rate_bps s' = sv_total_weighted_net_rate_bps s1 - nw"
    "sv_open_loans_count s' = sv_open_loans_count s1 - 1"
    "sv_pending_claim_atoms s' = sv_pending_claim_atoms s1 + ln_lender_claimable_atoms loan"
    "sv_total_principal_atoms s' = sv_total_principal_atoms s1 + ln_lender_claimable_atoms loan - ln_principal_debt_atoms loan"
    "sv_total_principal_atoms s' \<le> sv_total_assets_atoms s'"
    "sv_accumulated_curator_fee_atoms s' = sv_accumulated_curator_fee_atoms s1 + ln_accumulated_curator_fee_atoms loan"
proof -
  let ?t = "\<lambda>s1 w nw. s1\<lparr>sv_total_weighted_rate_bps := sv_total_weighted_rate_bps s1 - w,
      sv_total_weighted_net_rate_bps := sv_total_weighted_net_rate_bps s1 - nw,
      sv_deployed_principal_atoms := sv_deployed_principal_atoms s1 - ln_principal_debt_atoms loan,
      sv_open_loans_count := sv_open_loans_count s1 - 1\<rparr>"
  obtain s1 w nw est s2 where b: "accrue_sub_vault s now cv = Inr s1"
    "weighted_delta_of (ln_principal_debt_atoms loan) (ln_lender_rate_bps loan) = Inr w"
    "net_weighted_delta_of w (ln_curator_fee_bps_snapshot loan) = Inr nw"
    "w \<le> sv_total_weighted_rate_bps s1" "nw \<le> sv_total_weighted_net_rate_bps s1"
    "ln_principal_debt_atoms loan \<le> sv_deployed_principal_atoms s1" "0 < sv_open_loans_count s1"
    and z: "realize_on_sub_vault (?t s1 w nw) (ln_principal_debt_atoms loan) (ln_lender_claimable_atoms loan) est = Inr s2"
    and s': "s' = s2\<lparr>sv_pending_claim_atoms := sv_pending_claim_atoms s2 + ln_lender_claimable_atoms loan,
      sv_accumulated_curator_fee_atoms := sv_accumulated_curator_fee_atoms s2 + ln_accumulated_curator_fee_atoms loan\<rparr>"
  proof (cases "0 < ln_accumulated_curator_fee_atoms loan")
    case True
    then show thesis using assms that
      by (auto simp: retire_on_sub_vault_def Let_def ok_or_Inr checked_add_Some checked_sub_Some elim!: ebind_InrE)
  next
    case False
    then show thesis using assms that
      by (auto simp: retire_on_sub_vault_def Let_def ok_or_Inr checked_add_Some checked_sub_Some elim!: ebind_InrE)
  qed
  show thesis
    by (rule that[OF b]) (use realize_Inr[OF z] in \<open>simp_all add: s' sv_accrue_frame_def\<close>)
qed

section \<open>The books balance\<close>

lemma books_deploy:
  assumes b: "books rs ds s" and p: "p \<in># rs" and l: "lent_ok (p, r, c)"
    and d: "deploy_on_sub_vault s now cv p r c sur = Inr s'"
  shows "books (rs - {#p#}) (add_mset (p, r, c) ds) s'"
proof -
  obtain s1 w nw where a: "accrue_sub_vault s now cv = Inr s1" and w: "weighted_delta_of p r = Inr w"
    and nw: "net_weighted_delta_of w c = Inr nw"
    and s': "sv_deployed_principal_atoms s' = sv_deployed_principal_atoms s1 + p"
      "sv_total_weighted_rate_bps s' = sv_total_weighted_rate_bps s1 + w"
      "sv_total_weighted_net_rate_bps s' = sv_total_weighted_net_rate_bps s1 + nw"
      "sv_encumbered_in_orders_atoms s' = sv_encumbered_in_orders_atoms s1 - p"
      "sv_open_loans_count s' = sv_open_loans_count s1"
    using deploy_Inr[OF d] by metis
  have b1: "books rs ds s1" by (rule books_frame[OF b accrue_frame[OF a]])
  have w': "w = lent_weight (p, r, c)" using w weighted_delta_Inr[OF l] by simp
  have nw': "nw = lent_net_weight (p, r, c)" using nw net_weighted_delta_Inr[OF l] by (simp add: w')
  obtain rs' where rs: "rs = add_mset p rs'" using p by (meson mset_add)
  show ?thesis using b1 l by (simp add: books_def s' w' nw' rs)
qed

lemma books_retire:
  assumes b: "books rs ds s" and m: "lent_of loan \<in># ds" and d: "retire_on_sub_vault s now cv loan = Inr s'"
  shows "books rs (ds - {#lent_of loan#}) s'"
proof -
  obtain p r c where lo: "lent_of loan = (p, r, c)" and prc: "p = ln_principal_debt_atoms loan" "r = ln_lender_rate_bps loan"
      "c = ln_curator_fee_bps_snapshot loan" by (simp add: lent_of_def)
  have l: "lent_ok (p, r, c)" using b m lo by (auto simp: books_def)
  obtain s1 w nw where a: "accrue_sub_vault s now cv = Inr s1" and w: "weighted_delta_of p r = Inr w"
    and nw: "net_weighted_delta_of w c = Inr nw"
    and s': "sv_encumbered_in_orders_atoms s' = sv_encumbered_in_orders_atoms s1"
      "sv_deployed_principal_atoms s' = sv_deployed_principal_atoms s1 - p"
      "sv_total_weighted_rate_bps s' = sv_total_weighted_rate_bps s1 - w"
      "sv_total_weighted_net_rate_bps s' = sv_total_weighted_net_rate_bps s1 - nw"
      "sv_open_loans_count s' = sv_open_loans_count s1 - 1"
    using retire_Inr[OF d] unfolding prc by metis
  have b1: "books rs ds s1" by (rule books_frame[OF b accrue_frame[OF a]])
  have w': "w = lent_weight (p, r, c)" using w weighted_delta_Inr[OF l] by simp
  have nw': "nw = lent_net_weight (p, r, c)" using nw net_weighted_delta_Inr[OF l] by (simp add: w')
  obtain ds' where ds: "ds = add_mset (p, r, c) ds'" using m lo by (metis mset_add)
  show ?thesis using b1 by (simp add: books_def s' w' nw' ds lo)
qed

lemma books_sweep: "books rs ds s \<Longrightarrow> books rs ds (sweep_on_sub_vault s a)"
  by (simp add: books_def sweep_on_sub_vault_def)

lemma books_new: "books {#} {#} (sv_new_empty k cur a b)"
  by (simp add: books_def sv_new_empty_def)

lemma sum_in_le: "l \<in># ds \<Longrightarrow> f l \<le> sum_mset (image_mset f ds)" for f :: "lent \<Rightarrow> nat"
  by (metis image_mset_add_mset mset_add le_add1 sum_mset.add_mset)

lemma books_lent_bounds:
  assumes "books rs ds s" "l \<in># ds"
  shows "fst l \<le> sv_deployed_principal_atoms s" "lent_weight l \<le> sv_total_weighted_rate_bps s"
    "lent_net_weight l \<le> sv_total_weighted_net_rate_bps s" "0 < sv_open_loans_count s"
  using assms sum_in_le[OF assms(2)] by (auto simp: books_def size_eq_Suc_imp_elem intro: gr0I)

section \<open>Closing a loan\<close>

lemma estimate_bound:
  assumes "lent_ok l" "0 \<le> t" "t < i64_lim"
  shows "\<exists>est. mul_div (lent_net_weight l) (nat t) (BPS_PER_UNIT * SECONDS_PER_YEAR) False = Inr est \<and> est < 2 ^ 126"
proof -
  obtain p r c where l: "l = (p, r, c)" by (cases l)
  have "p * r < 2 ^ 80" using assms(1) mult_strict_mono[of p "2 ^ 64" r "2 ^ 16"] by (simp add: l lent_ok_def lim_defs)
  moreover have "lent_net_weight l \<le> p * r" unfolding l lent_net_weight_def
    by (simp add: floor_share_le BPS_PER_UNIT_def)
  ultimately have n: "lent_net_weight l < 2 ^ 80" by linarith
  have t: "nat t < 2 ^ 63" using assms(2,3) by (simp add: i64_lim_def nat_less_iff)
  have "lent_net_weight l * nat t < 2 ^ 80 * 2 ^ 63" using mult_strict_mono[OF n t] by simp
  then have "lent_net_weight l * nat t div (BPS_PER_UNIT * SECONDS_PER_YEAR) < 2 ^ 126"
    unfolding BPS_PER_UNIT_def SECONDS_PER_YEAR_def by (simp add: less_mult_imp_div_less)
  then show ?thesis using n t
    by (simp add: mul_div_floor_Inr u128_lim_def BPS_PER_UNIT_def SECONDS_PER_YEAR_def)
qed

lemma realize_succeeds:
  assumes w: "p < u64_lim" "cl < u64_lim" "est < 2 ^ 126"
    and room: "sv_total_principal_atoms s + cl < u64_lim" "sv_total_assets_atoms s + cl < u64_lim"
  shows "\<exists>s'. realize_on_sub_vault s p cl est = Inr s'"
proof -
  let ?net = "int cl - int p" let ?d = "?net - int est"
  have e: "u128_as_i128 est = int est" using w(3) by (simp add: u128_as_i128_def)
  have b: "\<not> 2 ^ 127 \<le> \<bar>?d\<bar>" using w by (auto simp: u64_lim_def)
  have a: "i128_as_u64 ?d \<le> cl" if "0 \<le> ?d"
    using that w(2) by (simp add: i128_as_u64_def u64_lim_def)
  show ?thesis
  proof (cases "0 \<le> ?net")
    case True
    then have tp: "sv_total_principal_atoms s + nat ?net < u64_lim" using room(1) by linarith
    show ?thesis
    proof (cases "0 \<le> ?d")
      case True2: True
      have "sv_total_assets_atoms s + i128_as_u64 ?d < u64_lim" using a[OF True2] room(2) by linarith
      then show ?thesis using True True2 tp b by (simp add: realize_on_sub_vault_def e checked_add_def Let_def)
    next
      case False
      then show ?thesis using True tp b by (simp add: realize_on_sub_vault_def e checked_add_def Let_def)
    qed
  next
    case False
    then show ?thesis using b by (simp add: realize_on_sub_vault_def e Let_def)
  qed
qed

lemma retire_succeeds:
  assumes bk: "books rs ds s" and m: "lent_of loan \<in># ds" and a: "accrue_sub_vault s now cv = Inr s1"
    and w: "ln_lender_claimable_atoms loan < u64_lim" "- i64_lim \<le> now" "now < i64_lim"
    and room: "sv_total_principal_atoms s1 + ln_lender_claimable_atoms loan < u64_lim"
      "sv_total_assets_atoms s1 + ln_lender_claimable_atoms loan < u64_lim"
      "sv_pending_claim_atoms s1 + ln_lender_claimable_atoms loan < u64_lim"
      "sv_accumulated_curator_fee_atoms s1 + ln_accumulated_curator_fee_atoms loan < u64_lim"
  shows "\<exists>s'. retire_on_sub_vault s now cv loan = Inr s'"
proof -
  let ?p = "ln_principal_debt_atoms loan" let ?r = "ln_lender_rate_bps loan" let ?c = "ln_curator_fee_bps_snapshot loan"
  have b1: "books rs ds s1" by (rule books_frame[OF bk accrue_frame[OF a]])
  have l: "lent_ok (?p, ?r, ?c)" using bk m by (auto simp: books_def lent_of_def)
  note B = books_lent_bounds[OF b1 m, unfolded lent_of_def]
  let ?t = "max 0 (i64_saturating_sub now (ln_started_at_unix loan))"
  have t: "0 \<le> ?t" "?t < i64_lim" by (simp_all add: i64_saturating_sub_def i64_lim_def)
  obtain est where est: "mul_div (lent_net_weight (?p, ?r, ?c)) (nat ?t) (BPS_PER_UNIT * SECONDS_PER_YEAR) False = Inr est"
    "est < 2 ^ 126" using estimate_bound[OF l t] by blast
  have y: "checked_mul u128_lim BPS_PER_UNIT SECONDS_PER_YEAR = Some (BPS_PER_UNIT * SECONDS_PER_YEAR)"
    by (simp add: checked_mul_def BPS_PER_UNIT_def SECONDS_PER_YEAR_def u128_lim_def)
  let ?s = "s1\<lparr>sv_total_weighted_rate_bps := sv_total_weighted_rate_bps s1 - lent_weight (?p, ?r, ?c),
      sv_total_weighted_net_rate_bps := sv_total_weighted_net_rate_bps s1 - lent_net_weight (?p, ?r, ?c),
      sv_deployed_principal_atoms := sv_deployed_principal_atoms s1 - ?p, sv_open_loans_count := sv_open_loans_count s1 - 1\<rparr>"
  obtain s2 where s2: "realize_on_sub_vault ?s ?p (ln_lender_claimable_atoms loan) est = Inr s2"
    using realize_succeeds[of ?p "ln_lender_claimable_atoms loan" est ?s] l w(1) est(2) room by (auto simp: lent_ok_def)
  then have f: "sv_pending_claim_atoms s2 = sv_pending_claim_atoms s1"
    "sv_accumulated_curator_fee_atoms s2 = sv_accumulated_curator_fee_atoms s1"
    using realize_Inr[OF s2] by (simp_all add: sv_accrue_frame_def)
  show ?thesis
    using a B net_weighted_delta_Inr[OF l] room f
    by (simp add: retire_on_sub_vault_def weighted_delta_Inr[OF l] checked_sub_def y Let_def est s2 checked_add_def
        del: One_nat_def)
qed

inductive lender_reach :: "nat multiset \<Rightarrow> lent multiset \<Rightarrow> sub_vault \<Rightarrow> bool" where
  New: "lender_reach {#} {#} (sv_new_empty k cur a b)"
| Other: "lender_reach rs ds s \<Longrightarrow> sv_encumbered_in_orders_atoms s' = sv_encumbered_in_orders_atoms s \<Longrightarrow>
    sv_deployed_principal_atoms s' = sv_deployed_principal_atoms s \<Longrightarrow>
    sv_total_weighted_rate_bps s' = sv_total_weighted_rate_bps s \<Longrightarrow>
    sv_total_weighted_net_rate_bps s' = sv_total_weighted_net_rate_bps s \<Longrightarrow>
    sv_open_loans_count s' = sv_open_loans_count s \<Longrightarrow> lender_reach rs ds s'"
| Accrue: "lender_reach rs ds s \<Longrightarrow> accrue_sub_vault s now cv = Inr s' \<Longrightarrow> lender_reach rs ds s'"
| Reserve: "lender_reach rs ds s \<Longrightarrow> s' = s\<lparr>sv_encumbered_in_orders_atoms := sv_encumbered_in_orders_atoms s + p,
    sv_open_loans_count := sv_open_loans_count s + 1\<rparr> \<Longrightarrow> lender_reach (add_mset p rs) ds s'"
| Deploy: "lender_reach rs ds s \<Longrightarrow> p \<in># rs \<Longrightarrow> lent_ok (p, r, c) \<Longrightarrow>
    deploy_on_sub_vault s now cv p r c sur = Inr s' \<Longrightarrow> lender_reach (rs - {#p#}) (add_mset (p, r, c) ds) s'"
| Retire: "lender_reach rs ds s \<Longrightarrow> lent_of loan \<in># ds \<Longrightarrow> retire_on_sub_vault s now cv loan = Inr s' \<Longrightarrow>
    lender_reach rs (ds - {#lent_of loan#}) s'"
| Sweep: "lender_reach rs ds s \<Longrightarrow> lender_reach rs ds (sweep_on_sub_vault s a)"

lemma lender_reach_books: "lender_reach rs ds s \<Longrightarrow> books rs ds s"
proof (induction rule: lender_reach.induct)
  case (Other rs ds s s')
  then show ?case by (simp add: books_def)
next
  case (Reserve rs ds s s' p)
  then show ?case by (simp add: books_def)
qed (auto intro: books_new books_frame[OF _ accrue_frame] books_deploy books_retire books_sweep)

text \<open>C23. Closing an outstanding loan never underflows: for a sub-vault reached from a new one by accruals,
  reservations, deployments, closes, sweeps and operations that leave the five loan counters
  alone, the close of any loan it has deployed takes back exactly what the deployment added. When
  the accrual of the sub-vault succeeds and the credited amounts fit their widths, the close
  succeeds, the principal leaves the deployed total, the claimable atoms enter the pending ones
  and the sub-vault stays reachable with one loan less.\<close>

theorem close_never_underflows:
  assumes r: "lender_reach rs ds s" and m: "lent_of loan \<in># ds" and a: "accrue_sub_vault s now cv = Inr s1"
    and w: "ln_lender_claimable_atoms loan < u64_lim" "- i64_lim \<le> now" "now < i64_lim"
    and room: "sv_total_principal_atoms s1 + ln_lender_claimable_atoms loan < u64_lim"
      "sv_total_assets_atoms s1 + ln_lender_claimable_atoms loan < u64_lim"
      "sv_pending_claim_atoms s1 + ln_lender_claimable_atoms loan < u64_lim"
      "sv_accumulated_curator_fee_atoms s1 + ln_accumulated_curator_fee_atoms loan < u64_lim"
  shows "\<exists>s'. retire_on_sub_vault s now cv loan = Inr s' \<and>
    sv_deployed_principal_atoms s' + ln_principal_debt_atoms loan = sv_deployed_principal_atoms s \<and>
    sv_pending_claim_atoms s' = sv_pending_claim_atoms s + ln_lender_claimable_atoms loan \<and>
    lender_reach rs (ds - {#lent_of loan#}) s'"
proof -
  obtain s' where s': "retire_on_sub_vault s now cv loan = Inr s'"
    using retire_succeeds[OF lender_reach_books[OF r] m a w room] by blast
  have f: "sv_accrue_frame s s1" by (rule accrue_frame[OF a])
  show ?thesis
    by (rule retire_Inr[OF s']) (use s' a f lender_reach.Retire[OF r m s'] in \<open>auto simp: sv_accrue_frame_def\<close>)
qed

text \<open>A loan of 1000 atoms at five per cent from a sub-vault of 1001 atoms.\<close>

definition thousand_loan :: loan_fixed where
  "thousand_loan = new_from_matched_loan_with_lender 1 0 255 7 160 0 1000 1000 5000 600 500 31536000 10 0 Fixed 0 1 1 9 0 SCALE SCALE"

definition thousand_lender :: sub_vault where
  "thousand_lender = (sv_new_empty 1 9 7000 8000)\<lparr>sv_total_principal_atoms := 1001, sv_total_assets_atoms := 1001,
     sv_total_shares := 1001, sv_encumbered_in_orders_atoms := 1000, sv_open_loans_count := 1\<rparr>"

lemmas thousand_eval = thousand_loan_def thousand_lender_def new_from_matched_loan_with_lender_def sv_new_empty_def
  deploy_on_sub_vault_def retire_on_sub_vault_def realize_on_sub_vault_def sweep_on_sub_vault_def
  weighted_delta_of_def net_weighted_delta_of_def vault_eval mul_div_eq u128_as_i128_def i128_as_u64_def
  i64_saturating_sub_def i64_saturating_add_def

lemma thousand_lender_reach: "lender_reach {#1000#} {#} thousand_lender"
proof -
  have "lender_reach {#} {#} (thousand_lender\<lparr>sv_encumbered_in_orders_atoms := 0, sv_open_loans_count := 0\<rparr>)"
    by (rule lender_reach.Other[OF lender_reach.New[of 1 9 7000 8000]]) (simp_all add: thousand_lender_def sv_new_empty_def)
  then show ?thesis by (rule lender_reach.Reserve) (simp add: thousand_lender_def)
qed

lemma thousand_deployed:
  "\<exists>s. deploy_on_sub_vault thousand_lender 10 SCALE 1000 500 0 0 = Inr s \<and> sv_total_principal_atoms s = 1001 \<and>
     sv_total_assets_atoms s = 1001 \<and> sv_pending_claim_atoms s = 0 \<and> sv_accumulated_curator_fee_atoms s = 0 \<and>
     sv_last_accrue_unix s = 10"
  by (simp add: thousand_eval)

lemma thousand_retires:
  "\<exists>s1. ebind (deploy_on_sub_vault thousand_lender 10 SCALE 1000 500 0 0) (\<lambda>s. retire_on_sub_vault s 10 SCALE thousand_loan) = Inr s1"
  by (simp add: thousand_eval cong: ebind_weak_cong)

lemma close_never_underflows_witness:
  "\<exists>s s'. deploy_on_sub_vault thousand_lender 10 SCALE 1000 500 0 0 = Inr s \<and>
     retire_on_sub_vault s 10 SCALE thousand_loan = Inr s' \<and> sv_pending_claim_atoms s' = 1000"
proof -
  obtain s where d: "deploy_on_sub_vault thousand_lender 10 SCALE 1000 500 0 0 = Inr s"
    and f: "sv_total_principal_atoms s = 1001" "sv_total_assets_atoms s = 1001" "sv_pending_claim_atoms s = 0"
      "sv_accumulated_curator_fee_atoms s = 0" "sv_last_accrue_unix s = 10"
    using thousand_deployed by blast
  have r: "lender_reach ({#1000#} - {#1000#}) (add_mset (1000, 500, 0) {#}) s"
    by (rule lender_reach.Deploy[OF thousand_lender_reach _ _ d]) (simp_all add: lent_ok_def lim_defs)
  have t: "lent_of thousand_loan = (1000, 500, 0)" "ln_lender_claimable_atoms thousand_loan = 1000"
    "ln_accumulated_curator_fee_atoms thousand_loan = 0"
    by (simp_all add: thousand_loan_def lent_of_def new_from_matched_loan_with_lender_def)
  have a: "accrue_sub_vault s 10 SCALE = Inr s" by (simp add: accrue_sub_vault_def f)
  have "\<exists>s'. retire_on_sub_vault s 10 SCALE thousand_loan = Inr s' \<and>
    sv_deployed_principal_atoms s' + ln_principal_debt_atoms thousand_loan = sv_deployed_principal_atoms s \<and>
    sv_pending_claim_atoms s' = sv_pending_claim_atoms s + ln_lender_claimable_atoms thousand_loan \<and>
    lender_reach ({#1000#} - {#1000#}) (add_mset (1000, 500, 0) {#} - {#lent_of thousand_loan#}) s'"
    by (rule close_never_underflows[OF r _ a]) (simp_all add: t f lim_defs)
  then show ?thesis using d f t by auto
qed

text \<open>C24. Atoms swept before the close are still pending after the loan's last sweep: when part of the lender's
  claim, paid by partial repayments, was swept while the sub-vault had nothing pending, the close
  still adds the whole claim, and sweeping the rest of it leaves the early part pending although
  nothing of this loan is left to sweep.\<close>

theorem early_sweep_leaves_phantom_claim:
  assumes "sv_pending_claim_atoms s = 0" "early \<le> ln_lender_claimable_atoms loan"
    and "retire_on_sub_vault (sweep_on_sub_vault s early) now cv loan = Inr s1"
  shows "sv_pending_claim_atoms (sweep_on_sub_vault s1 (ln_lender_claimable_atoms loan - early)) = early"
proof (rule retire_Inr[OF assms(3)])
  fix s0
  assume "accrue_sub_vault (sweep_on_sub_vault s early) now cv = Inr s0"
    and "sv_pending_claim_atoms s1 = sv_pending_claim_atoms s0 + ln_lender_claimable_atoms loan"
  then have "sv_pending_claim_atoms s1 = ln_lender_claimable_atoms loan"
    using accrue_frame assms(1) by (fastforce simp: sv_accrue_frame_def sweep_on_sub_vault_def)
  then show ?thesis using assms(2) by (simp add: sweep_on_sub_vault_def)
qed

lemma early_sweep_leaves_phantom_claim_witness:
  "\<exists>s s1. deploy_on_sub_vault thousand_lender 10 SCALE 1000 500 0 0 = Inr s \<and>
     retire_on_sub_vault (sweep_on_sub_vault s 600) 10 SCALE thousand_loan = Inr s1 \<and>
     sv_pending_claim_atoms (sweep_on_sub_vault s1 400) = 600"
proof -
  obtain s where d: "deploy_on_sub_vault thousand_lender 10 SCALE 1000 500 0 0 = Inr s"
    and p: "sv_pending_claim_atoms s = 0" and sw: "sweep_on_sub_vault s 600 = s"
    using thousand_deployed by (auto simp: sweep_on_sub_vault_def)
  obtain s1 where r: "retire_on_sub_vault s 10 SCALE thousand_loan = Inr s1"
    using thousand_retires d by auto
  have "ln_lender_claimable_atoms thousand_loan = 1000"
    by (simp add: thousand_loan_def new_from_matched_loan_with_lender_def)
  then show ?thesis
    using early_sweep_leaves_phantom_claim[OF p, of 600 thousand_loan 10 SCALE s1] d r by (auto simp: sw)
qed

end
