(* ===== verification/Guards.thy ===== *)
theory Guards
  imports Market_State Sub_Vault
begin

text \<open>The protocol-wide configuration account of \<open>state/global_config.rs\<close> and the guards every
  instruction passes before it touches state (\<open>validation/loaders.rs\<close>): the three pause switches and the
  match of a vault's bank and mint with the market's.\<close>

definition GLOBAL_CONFIG_DISCRIMINANT :: nat where "GLOBAL_CONFIG_DISCRIMINANT = 0x7964656C74614763"

record global_config =
  gc_discriminator :: nat
  gc_protocol_admin :: pubkey
  gc_pending_protocol_admin :: pubkey
  gc_is_paused :: nat

definition gc_new_empty :: "pubkey \<Rightarrow> global_config" where
  "gc_new_empty protocol_admin =
     \<lparr> gc_discriminator = GLOBAL_CONFIG_DISCRIMINANT, gc_protocol_admin = protocol_admin,
       gc_pending_protocol_admin = default_pubkey, gc_is_paused = 0 \<rparr>"

definition gc_verify_discriminant :: "global_config \<Rightarrow> unit res" where
  "gc_verify_discriminant gc = require (gc_discriminator gc = GLOBAL_CONFIG_DISCRIMINANT) InvalidAccountData"

definition require_market_not_paused :: "market \<Rightarrow> unit res" where
  "require_market_not_paused m = require (mk_is_paused m = 0) (Custom MarketPaused)"

definition require_vault_not_paused :: "global_vault \<Rightarrow> unit res" where
  "require_vault_not_paused v = require (gv_is_paused v = 0) (Custom VaultPaused)"

definition require_global_not_paused :: "global_config \<Rightarrow> unit res" where
  "require_global_not_paused gc = require (gc_is_paused gc = 0) (Custom GlobalPaused)"

definition require_vault_mint_matches_market :: "global_vault \<Rightarrow> market \<Rightarrow> unit res" where
  "require_vault_mint_matches_market v m =
     ebind (require (gv_lending_pool v = mk_debt_lending_pool m) (Custom VaultWrongMint)) (\<lambda>_.
     require (gv_mint v = mk_debt_mint m) (Custom VaultWrongMint))"

end
