(* ===== verification/Market_Steps.thy ===== *)
theory Market_Steps
  imports Backing
begin

text \<open>The operations of \<open>state/market_helpers.rs\<close> that touch one seat or the allocator, and the departure of
  a matched loan from the queue: each keeps the market well formed and its collateral backed.\<close>

lemma set_seat_keeps:
  assumes "market_ok m" "backed ext m" "get_helper_seat m i = Inr s" "seat_key s' = seat_key s"
    and "cs_collateral_encumbered_shares s' = cs_collateral_encumbered_shares s"
  shows "market_ok (set_seat m i s') \<and> backed ext (set_seat m i s')"
  using set_seat_ok[OF assms(1,3,4)] backed_set_seat[OF assms(2,3)] assms(5) by simp

lemma update_withdrawable_keeps:
  assumes "market_ok m" "backed ext m" "get_helper_seat m i = Inr s"
    and "update_balance s ax Withdrawable sg n = Inr s'"
  shows "market_ok (set_seat m i s') \<and> backed ext (set_seat m i s')"
  by (rule set_seat_keeps[OF assms(1-3)])
    (use assms(4) in \<open>cases ax; cases sg; auto simp: update_balance_Inr seat_key_def\<close>)+

lemma deposit_keeps:
  assumes "market_ok m" "backed ext m" "deposit_to_seat m i n is_debt = Inr m'"
  shows "market_ok m' \<and> backed ext m'"
  using assms update_withdrawable_keeps[OF assms(1,2)] by (auto simp: deposit_to_seat_def Let_def elim!: ebind_InrE)

lemma withdraw_keeps:
  assumes "market_ok m" "backed ext m" "withdraw_from_seat m i n is_debt = Inr m'"
  shows "market_ok m' \<and> backed ext m'"
  using assms update_withdrawable_keeps[OF assms(1,2)] by (auto simp: withdraw_from_seat_def Let_def elim!: ebind_InrE)

lemma expand_keeps:
  assumes "market_ok m" "backed ext m" "market_expand m = Inr m'"
  shows "market_ok m' \<and> backed ext m'"
proof -
  have "mk_bids m' = mk_bids m" "mk_matched_loans m' = mk_matched_loans m" "mk_claimed_seats m' = mk_claimed_seats m"
    using assms(3) by (auto simp: market_expand_def elim!: ebind_InrE)
  then show ?thesis using market_expand_ok[OF assms(1,3)] backed_remove_ask[OF assms(2)] by blast
qed

lemma claim_seat_keeps:
  assumes ok: "market_ok m" and b: "backed ext m" and c: "claim_seat_with_sub_vault m owner k sv = Inr m'"
  shows "market_ok m' \<and> backed ext m'"
proof -
  let ?s = "cs_new_empty owner k sv"
  obtain i m1 where a: "get_free_address_on_market_fixed m = (i, m1)" by fastforce
  have miss: "seat_lookup m owner k sv = NIL" and i: "i \<noteq> NIL"
    and m': "m' = m1\<lparr>mk_claimed_seats := tree_insert claimed_seat_cmp i ?s (mk_claimed_seats m1),
        mk_position_count := mk_position_count m1 + 1\<rparr>"
    using c a by (auto simp: claim_seat_with_sub_vault_def Let_def ok_or_Inr checked_add_Some require_Inr split: if_splits elim!: ebind_InrE)
  note al = conjunct1[OF alloc_block[OF a i]]
  have m1: "mk_claimed_seats m1 = mk_claimed_seats m" "mk_bids m1 = mk_bids m" "mk_asks m1 = mk_asks m"
    "mk_matched_loans m1 = mk_matched_loans m" "mk_num_bytes_allocated m1 = mk_num_bytes_allocated m"
    "mk_matched_loan_sequence m1 = mk_matched_loan_sequence m" "mk_order_sequence_number m1 = mk_order_sequence_number m"
    using a by (auto simp: get_free_address_on_market_fixed_def Let_def split: prod.splits)
  have fresh: "i \<notin> fst ` set (mk_claimed_seats m)"
    using ok al by (auto simp: market_ok_def market_blocks_def)
  have nil: "NIL \<notin> fst ` set (mk_claimed_seats m)" using market_trees_ok(3)[OF ok] by (simp add: tree_ok_def)
  have "\<forall>(j, w) \<in> set (mk_claimed_seats m). claimed_seat_cmp w ?s \<noteq> Equal"
    using miss tree_lookup_NIL[OF nil, of claimed_seat_cmp ?s] by (simp add: seat_lookup_def)
  then have key: "seat_key (snd p) \<noteq> seat_key ?s" if "p \<in> set (mk_claimed_seats m)" for p
    using bspec[OF _ that, of "\<lambda>(j, w). claimed_seat_cmp w ?s \<noteq> Equal"]
    by (cases p) (simp add: claimed_seat_cmp_Equal claimed_seat_eq_def seat_key_def)
  have p: "mset (market_blocks m') = mset (market_blocks m)"
    by (simp add: m' market_blocks_def m1 al)
  have d: "descending claimed_seat_cmp (mk_claimed_seats m')"
    using tree_insert_descending[OF claimed_seat_cmp_total] market_trees_ok(3)[OF ok] by (simp add: m' m1 tree_ok_def)
  have u: "distinct (map (\<lambda>p. seat_key (snd p)) (mk_claimed_seats m'))"
  proof -
    have "mset (map (\<lambda>p. seat_key (snd p)) (mk_claimed_seats m')) =
        mset (seat_key ?s # map (\<lambda>p. seat_key (snd p)) (mk_claimed_seats m))"
      by (simp add: m' m1)
    moreover have "seat_key ?s \<notin> (\<lambda>p. seat_key (snd p)) ` set (mk_claimed_seats m)"
      using key by (metis (no_types, lifting) imageE)
    then have "distinct (seat_key ?s # map (\<lambda>p. seat_key (snd p)) (mk_claimed_seats m))"
      using ok by (simp add: market_ok_def)
    ultimately show ?thesis by (metis mset_eq_imp_distinct_iff)
  qed
  have "market_ok m'"
    using market_blocks_moved[OF ok p] ok d u unfolding market_ok_def by (simp add: m' m1)
  moreover have "encumbered_of m' j = encumbered_of m j" for j
    using fresh tree_get_None[of "mk_claimed_seats m" i]
    by (cases "j = i") (simp_all add: encumbered_of_def m' m1 tree_get_insert tree_indices_def cs_new_empty_def)
  then have "backed ext m'" using backed_cong[OF b, of m'] by (simp add: m' m1)
  ultimately show ?thesis ..
qed

text \<open>A loan that leaves the queue takes its pledge along.\<close>

lemma dequeue_keeps:
  assumes ok: "market_ok m" and b: "backed ext m" and mem: "(i, n) \<in> set (mk_matched_loans m)"
    and m': "m' = release_address_on_market_fixed (m\<lparr>mk_accumulated_protocol_fee_shares := fee,
      mk_matched_loans := tree_remove i (mk_matched_loans m)\<rparr>) i"
  shows "market_ok m' \<and> backed (\<lambda>j. ext j + loan_pledge j n) m'"
proof -
  have dt: "distinct (map fst (mk_matched_loans m))" using market_trees_ok(4)[OF ok] by (simp add: tree_ok_def)
  obtain as bs where sp: "mk_matched_loans m = as @ (i, n) # bs" "tree_remove i (mk_matched_loans m) = as @ bs"
    using tree_split[OF dt mem] by blast
  have t: "mk_matched_loans m' = as @ bs"
    by (simp add: m' release_address_on_market_fixed_def sp(2))
  have f: "mk_bids m' = mk_bids m" "mk_asks m' = mk_asks m"
    "mk_claimed_seats m' = mk_claimed_seats m" "mk_free_list m' = i # mk_free_list m"
    "mk_num_bytes_allocated m' = mk_num_bytes_allocated m" "mk_order_sequence_number m' = mk_order_sequence_number m"
    "mk_matched_loan_sequence m' = mk_matched_loan_sequence m"
    by (simp_all add: m' release_address_on_market_fixed_def stack_add_def)
  have p: "mset (market_blocks m') = mset (market_blocks m)" by (simp add: market_blocks_def f t sp(1))
  have "tree_ok matched_loan_cmp (as @ bs)" using tree_remove_ok[OF market_trees_ok(4)[OF ok], of i] by (simp add: sp(2))
  then have "descending matched_loan_cmp (as @ bs)" by (simp add: tree_ok_def)
  then have "market_ok m'" using market_blocks_moved[OF ok p] ok unfolding market_ok_def by (auto simp: f t sp(1))
  moreover have "loans_pledged m j = loans_pledged m' j + loan_pledge j n" for j
    by (simp add: loans_pledged_def t sp(1) tree_values_def)
  then have "backed (\<lambda>j. ext j + loan_pledge j n) m'"
    using b by (simp add: backed_def bids_sane_def bids_pledged_def encumbered_of_def f ac_simps)
  ultimately show ?thesis ..
qed

lemma loan_pledge_owed:
  "loan_pledge j n = owed (ml_borrower_seat_index n) (locked_shares (ml_collateral_atoms n) (ml_borrower_collateral_share_price_snapshot_fp48 n)) j"
  by (auto simp: loan_pledge_def owed_def)

end
