(* ===== verification/Sample_Pool.thy ===== *)
theory Sample_Pool
  imports Rate_Calc
begin

text \<open>A concrete pair of external programs for the examples: a lending program whose deposits and debts are
  booked one to one at share value one, and a token program that moves balances. The properties of
  the development hold for any external programs; the examples run on these.\<close>

definition token_in :: "pubkey \<Rightarrow> nat \<Rightarrow> pool \<Rightarrow> pool" where
  "token_in t n p = p\<lparr>pl_tokens := (pl_tokens p)(t := (pl_tokens p t)\<lparr>tk_amount := tk_amount (pl_tokens p t) + n\<rparr>)\<rparr>"

definition token_out :: "pubkey \<Rightarrow> nat \<Rightarrow> pool \<Rightarrow> pool res" where
  "token_out t n p =
     (if tk_amount (pl_tokens p t) < n then Inl (External 1)
      else Inr (p\<lparr>pl_tokens := (pl_tokens p)(t := (pl_tokens p t)\<lparr>tk_amount := tk_amount (pl_tokens p t) - n\<rparr>)\<rparr>))"

definition balance_at :: "pool \<Rightarrow> pubkey \<Rightarrow> pubkey \<Rightarrow> balance" where
  "balance_at p a b =
     (case mf_balances (pl_accounts p a) b of Some l \<Rightarrow> l | None \<Rightarrow> \<lparr> bl_asset_shares = 0, bl_liability_shares = 0 \<rparr>)"

definition set_balance :: "pubkey \<Rightarrow> pubkey \<Rightarrow> balance \<Rightarrow> pool \<Rightarrow> pool" where
  "set_balance a b l p =
     p\<lparr>pl_accounts := (pl_accounts p)(a := (pl_accounts p a)\<lparr>mf_balances := (mf_balances (pl_accounts p a))(b \<mapsto> l)\<rparr>)\<rparr>"

definition add_assets :: "pubkey \<Rightarrow> pubkey \<Rightarrow> int \<Rightarrow> pool \<Rightarrow> pool" where
  "add_assets a b n p = set_balance a b ((balance_at p a b)\<lparr>bl_asset_shares := bl_asset_shares (balance_at p a b) + n * int SCALE\<rparr>) p"

definition add_debt :: "pubkey \<Rightarrow> pubkey \<Rightarrow> int \<Rightarrow> pool \<Rightarrow> pool" where
  "add_debt a b n p = set_balance a b ((balance_at p a b)\<lparr>bl_liability_shares := bl_liability_shares (balance_at p a b) + n * int SCALE\<rparr>) p"

definition sample_programs :: programs where
  "sample_programs = \<lparr> pg_marginfi = 99,
     pg_deposit = (\<lambda>a b t n p. ebind (token_out t n p) (\<lambda>p1. Inr (add_assets a b (int n) p1))),
     pg_withdraw = (\<lambda>a b t n whole p.
       let owned = nat (bl_asset_shares (balance_at p a b) div int SCALE); k = (if whole then owned else n) in
       if owned < k then Inl (External 2) else Inr (token_in t k (add_assets a b (- int k) p))),
     pg_borrow = (\<lambda>a b t n p. Inr (token_in t n (add_debt a b (int n) p))),
     pg_repay = (\<lambda>a b t n whole p.
       let debt = nat (bl_liability_shares (balance_at p a b) div int SCALE); k = (if whole then debt else n) in
       if debt < k then Inl (External 3)
       else ebind (token_out t k p) (\<lambda>p1. Inr (add_debt a b (- int k) p1))),
     pg_transfer = (\<lambda>from dest n p. ebind (token_out from n p) (\<lambda>p1. Inr (token_in dest n p1))) \<rparr>"

definition sample_bank :: bank where
  "sample_bank = \<lparr> bk_owner = 99, bk_layout_ok = True, bk_asset_share_value = 2 ^ 48,
     bk_liability_share_value = 2 ^ 48, bk_asset_weight_init = 2 ^ 47, bk_liability_weight_init = 2 ^ 48,
     bk_asset_weight_maint = 2 ^ 48, bk_liability_weight_maint = 2 ^ 48 \<rparr>"

text \<open>Every account holds deposits worth 5000 atoms and no debt, every token account 5000 atoms.\<close>

definition sample_pool :: pool where
  "sample_pool = \<lparr> pl_banks = (\<lambda>_. sample_bank),
     pl_accounts = (\<lambda>_. \<lparr> mf_layout_ok = True,
       mf_balances = (\<lambda>_. Some \<lparr> bl_asset_shares = 5000 * 2 ^ 48, bl_liability_shares = 0 \<rparr>) \<rparr>),
     pl_tokens = (\<lambda>_. \<lparr> tk_readable = True, tk_amount = 5000 \<rparr>) \<rparr>"

lemmas sample_eval = sample_bank_def sample_pool_def sample_programs_def token_in_def token_out_def balance_at_def set_balance_def add_assets_def add_debt_def

end
