(* ===== verification/Promotion.thy ===== *)
theory Promotion
  imports Market_Steps Loan_Books Guards Sample_Pool
begin

text \<open>The promotion of a queued match into a loan account (\<open>processor/process_matched_loan.rs\<close> with the
  part of its loader in \<open>validation/loaders.rs\<close> that reads state). Anyone may crank it. For a fixed loan
  of a sub-vault the principal moves from the vault's marginfi account to the market's, and the
  borrower's seat is credited; a pre-settled loan (from a refinance) and a variable-rate loan only
  leave the queue. The keys of the accounts are fields of a context; their address checks are not
  part of the model. A loan slot is \<open>None\<close> while its account does not exist.\<close>

unbundle bit_operations_syntax

record settle_accounts =
  vs_group :: pubkey
  vs_integration_account :: pubkey
  vs_vault_signer :: pubkey
  vs_staging :: pubkey
  vs_liquidity_vault_authority :: pubkey
  vs_liquidity_vault :: pubkey
  vs_token_program :: pubkey
  vs_marginfi_program :: pubkey
  vs_oracle :: pubkey
  vs_market_debt_vault :: pubkey
  vs_lender_integration_account :: pubkey
  vs_market_signer :: pubkey

record promotion_context =
  pc_payer :: pubkey
  pc_market_key :: pubkey
  pc_loan_bump :: nat
  pc_debt_bank :: pubkey
  pc_settle :: settle_accounts

definition ml_probe :: "nat \<Rightarrow> matched_loan" where
  "ml_probe sq =
     \<lparr> ml_sequence = sq, ml_borrower_marginfi_borrow_shares = 0, ml_principal_atoms = 0, ml_origination_atoms = 0,
       ml_collateral_atoms = 0, ml_matched_at_unix = 0, ml_lender_seat_index = 0, ml_borrower_seat_index = 0,
       ml_term_seconds = 0, ml_borrower_rate_bps = 0, ml_lender_rate_bps = 0, ml_loan_type = 0, ml_flags = 0,
       ml_curator_fee_bps_snapshot = 0, ml_origination_ltv_bps = 0, ml_liquidation_ltv_bps = 0,
       ml_lender_debt_share_price_snapshot_fp48 = 0, ml_borrower_collateral_share_price_snapshot_fp48 = 0 \<rparr>"

definition load_queue_node :: "market \<Rightarrow> nat \<Rightarrow> (matched_loan \<times> data_index) res" where
  "load_queue_node m sq =
     (let idx = tree_lookup matched_loan_cmp (ml_probe sq) (mk_matched_loans m) in
      ebind (require (idx \<noteq> NIL) (Custom MatchedLoanNotFound)) (\<lambda>_.
      ebind (get_helper_matched_loan m idx) (\<lambda>node.
      Inr (node, idx))))"

definition is_presettled :: "matched_loan \<Rightarrow> bool" where
  "is_presettled node = (ml_flags node AND MATCHED_LOAN_FLAG_VAULT_PRESETTLED \<noteq> 0)"

definition is_vault_lender :: "matched_loan \<Rightarrow> bool" where
  "is_vault_lender node = (ml_flags node AND MATCHED_LOAN_FLAG_VAULT_LENDER \<noteq> 0)"

text \<open>Whether the settlement accounts are loaded.\<close>

definition settles_from_vault :: "market \<Rightarrow> matched_loan \<Rightarrow> bool res" where
  "settles_from_vault m node =
     (if ml_lender_seat_index node = NIL \<or> is_presettled node then Inr False
      else ebind (get_helper_seat m (ml_lender_seat_index node)) (\<lambda>seat.
        Inr (cs_owner_kind seat = OWNER_KIND_SUB_VAULT)))"

definition net_principal_of :: "matched_loan \<Rightarrow> nat res" where
  "net_principal_of node =
     ebind (ok_or (checked_sub (ml_principal_atoms node) (ml_origination_atoms node)) (Custom InvalidArgument)) (\<lambda>net.
     ebind (require (0 < net) (Custom InvalidArgument)) (\<lambda>_. Inr net))"

text \<open>Kind, sub-vault and vault of the lender.\<close>

definition lender_identity :: "market \<Rightarrow> matched_loan \<Rightarrow> (nat \<times> nat \<times> pubkey) res" where
  "lender_identity m node =
     ebind (verify_live_seat m (ml_borrower_seat_index node) OWNER_KIND_USER) (\<lambda>_.
     if ml_lender_seat_index node = NIL then
       ebind (require (\<not> is_vault_lender node) (Custom IncorrectAccount)) (\<lambda>_.
       Inr (0, 0, default_pubkey))
     else
       ebind (require (is_vault_lender node) (Custom IncorrectAccount)) (\<lambda>_.
       ebind (verify_live_seat m (ml_lender_seat_index node) OWNER_KIND_SUB_VAULT) (\<lambda>seat.
       Inr (OWNER_KIND_SUB_VAULT, cs_sub_vault_id seat, cs_owner seat))))"

definition promoted_loan ::
  "promotion_context \<Rightarrow> int \<Rightarrow> matched_loan \<Rightarrow> nat \<Rightarrow> loan_type \<Rightarrow> nat \<times> nat \<times> pubkey \<Rightarrow> loan_fixed" where
  "promoted_loan ctx now node net_principal lt lender =
     (let (lender_kind, lender_sub_vault_id, lender_global_vault) = lender;
          curator_fee_bps_snapshot = (if lender_kind = OWNER_KIND_SUB_VAULT then ml_curator_fee_bps_snapshot node else 0);
          loan_started_at_unix = (if is_presettled node then ml_matched_at_unix node else now) in
      (new_from_matched_loan_with_lender (pc_market_key ctx) (ml_sequence node) (pc_loan_bump ctx) (pc_payer ctx)
         (ml_lender_seat_index node) (ml_borrower_seat_index node) (ml_principal_atoms node) net_principal
         (ml_collateral_atoms node) (ml_borrower_rate_bps node) (ml_lender_rate_bps node) (ml_term_seconds node)
         loan_started_at_unix (ml_flags node) lt (ml_borrower_marginfi_borrow_shares node)
         lender_kind lender_sub_vault_id lender_global_vault curator_fee_bps_snapshot
         (ml_lender_debt_share_price_snapshot_fp48 node) (ml_borrower_collateral_share_price_snapshot_fp48 node))
      \<lparr>ln_origination_ltv_bps := ml_origination_ltv_bps node, ln_liquidation_ltv_bps := ml_liquidation_ltv_bps node\<rparr>)"

section \<open>Settlement with the vault\<close>

definition vault_withdraw_accounts :: "settle_accounts \<Rightarrow> pubkey \<Rightarrow> pubkey list" where
  "vault_withdraw_accounts s bank =
     [vs_group s, vs_integration_account s, vs_vault_signer s, bank, vs_staging s, vs_liquidity_vault_authority s,
      vs_liquidity_vault s, vs_token_program s, vs_marginfi_program s, bank, vs_oracle s]"

definition market_deposit_accounts :: "settle_accounts \<Rightarrow> pubkey \<Rightarrow> pubkey list" where
  "market_deposit_accounts s bank =
     [vs_group s, vs_lender_integration_account s, vs_market_signer s, bank, vs_market_debt_vault s,
      vs_liquidity_vault s, vs_token_program s, vs_marginfi_program s]"

definition vault_withdraw :: "programs \<Rightarrow> settle_accounts \<Rightarrow> pubkey \<Rightarrow> nat \<Rightarrow> pool \<Rightarrow> (pool \<times> nat) res" where
  "vault_withdraw pg s bank principal_atoms p =
     ebind (ok_or (checked_add u64_lim principal_atoms 1) ArithmeticOverflow) (\<lambda>withdraw_cover_atoms.
     ebind (read_asset_shares_u128 p (vs_integration_account s) bank) (\<lambda>mfi_asset_shares_pre.
     ebind (shares_to_amount pg p bank mfi_asset_shares_pre) (\<lambda>mfi_atoms_pre.
     ebind (require (principal_atoms \<le> mfi_atoms_pre) (Custom InvalidArgument)) (\<lambda>_.
     ebind (if mfi_atoms_pre \<le> withdraw_cover_atoms
            then adapter_withdraw_atoms_full pg (vault_withdraw_accounts s bank) mfi_atoms_pre p
            else
              ebind (amount_to_asset_shares_ceil p bank withdraw_cover_atoms) (\<lambda>expected_shares.
              ebind (adapter_withdraw pg (vault_withdraw_accounts s bank) expected_shares p) (\<lambda>(p1, atoms, burned).
              Inr (p1, atoms)))) (\<lambda>(p1, actual_atoms).
     ebind (require (principal_atoms \<le> actual_atoms) ArithmeticOverflow) (\<lambda>_.
     Inr (p1, actual_atoms)))))))"

definition do_vault_settle ::
  "programs \<Rightarrow> settle_accounts \<Rightarrow> pubkey \<Rightarrow> nat \<Rightarrow> nat \<Rightarrow> nat \<Rightarrow> nat \<Rightarrow> int \<Rightarrow> global_vault \<Rightarrow> pool \<Rightarrow>
   (global_vault \<times> pool) res" where
  "do_vault_settle pg s bank principal_atoms lender_rate_bps curator_fee_bps sub_vault_id now v p =
     (if principal_atoms = 0 then Inr (v, p)
      else
        ebind (vault_withdraw pg s bank principal_atoms p) (\<lambda>(p1, actual_atoms).
        let surplus_atoms = saturating_sub actual_atoms principal_atoms in
        ebind (pg_transfer pg (vs_staging s) (vs_market_debt_vault s) principal_atoms p1) (\<lambda>p2.
        ebind (adapter_deposit pg (market_deposit_accounts s bank) principal_atoms p2) (\<lambda>(p3, credited).
        let idx = sub_vault_index v sub_vault_id in
        ebind (require (idx \<noteq> NIL) (Custom SubVaultNotFound)) (\<lambda>_.
        ebind (get_sub_vault v idx) (\<lambda>sv.
        ebind (read_bank_asset_share_value_fp48 p3 bank) (\<lambda>share_value_fp48.
        ebind (deploy_on_sub_vault sv now share_value_fp48 principal_atoms lender_rate_bps curator_fee_bps surplus_atoms) (\<lambda>sv'.
        Inr (set_sub_vault v idx sv', p3)))))))))"

section \<open>The instruction\<close>

definition leave_queue :: "market \<Rightarrow> matched_loan \<Rightarrow> data_index \<Rightarrow> loan_type \<Rightarrow> nat \<Rightarrow> nat \<Rightarrow> market res" where
  "leave_queue m node node_index lt credited_shares origination_shares =
     ebind (if lt = Fixed \<and> 0 < credited_shares
            then deposit_to_seat m (ml_borrower_seat_index node) credited_shares True else Inr m) (\<lambda>m1.
     ebind (ok_or (checked_add u128_lim (mk_accumulated_protocol_fee_shares m1) origination_shares) ArithmeticOverflow) (\<lambda>fee.
     let m2 = m1\<lparr>mk_accumulated_protocol_fee_shares := fee,
                 mk_matched_loans := tree_remove node_index (mk_matched_loans m1)\<rparr> in
     Inr (release_address_on_market_fixed m2 node_index)))"

definition process_primary_promotion ::
  "programs \<Rightarrow> promotion_context \<Rightarrow> int \<Rightarrow> matched_loan \<Rightarrow> data_index \<Rightarrow> bool \<Rightarrow> market \<Rightarrow> global_vault option \<Rightarrow> pool \<Rightarrow>
   (market \<times> global_vault option \<times> loan_fixed \<times> pool) res" where
  "process_primary_promotion pg ctx now node node_index vault_settle m v p =
     ebind (loan_type_from_u8 (ml_loan_type node)) (\<lambda>lt.
     let presettled = is_presettled node; bank = pc_debt_bank ctx in
     ebind (net_principal_of node) (\<lambda>net_principal.
     ebind (lender_identity m node) (\<lambda>lender.
     let loan = promoted_loan ctx now node net_principal lt lender;
         (lender_kind, lender_sub_vault_id, _) = lender in
     ebind (if lt = Fixed \<and> \<not> presettled then amount_to_asset_shares pg p bank net_principal else Inr 0) (\<lambda>credited_shares.
     ebind (if lt = P2Pool then Inr 0
            else if 0 < ml_origination_atoms node then amount_to_asset_shares pg p bank (ml_origination_atoms node)
            else Inr 0) (\<lambda>origination_shares.
     ebind (if lender_kind = OWNER_KIND_SUB_VAULT \<and> lt = Fixed \<and> \<not> presettled then
              ebind (require vault_settle (Custom IncorrectAccount)) (\<lambda>_.
              ebind (ok_or v (Custom IncorrectAccount)) (\<lambda>v0.
              ebind (do_vault_settle pg (pc_settle ctx) bank (ml_principal_atoms node) (ml_lender_rate_bps node)
                       (ln_curator_fee_bps_snapshot loan) lender_sub_vault_id now v0 p) (\<lambda>(v1, p1).
              Inr (Some v1, p1))))
            else Inr (v, p)) (\<lambda>(v1, p1).
     ebind (leave_queue m node node_index lt credited_shares origination_shares) (\<lambda>m1.
     Inr (m1, v1, loan, p1))))))))"

definition process_matched_loan ::
  "programs \<Rightarrow> promotion_context \<Rightarrow> global_config \<Rightarrow> int \<Rightarrow> nat \<Rightarrow> market \<Rightarrow> global_vault option \<Rightarrow> loan_fixed option \<Rightarrow> pool \<Rightarrow>
   (market \<times> global_vault option \<times> loan_fixed \<times> pool) res" where
  "process_matched_loan pg ctx gc now sq m v slot p =
     ebind (require_global_not_paused gc) (\<lambda>_.
     ebind (require_market_not_paused m) (\<lambda>_.
     ebind (load_queue_node m sq) (\<lambda>(node, node_index).
     ebind (require (slot = None) InvalidAccountData) (\<lambda>_.
     ebind (settles_from_vault m node) (\<lambda>vault_settle.
     ebind (if vault_settle then ebind (ok_or v NotEnoughAccountKeys) require_vault_not_paused else Inr ()) (\<lambda>_.
     process_primary_promotion pg ctx now node node_index vault_settle m v p))))))"

section \<open>What a promotion does\<close>

lemma load_queue_node_Inr:
  assumes ok: "market_ok m" and l: "load_queue_node m sq = Inr (node, i)"
  shows "(i, node) \<in> set (mk_matched_loans m) \<and> ml_sequence node = sq"
proof -
  have t: "tree_get (mk_matched_loans m) i = Some node" and i: "i = tree_lookup matched_loan_cmp (ml_probe sq) (mk_matched_loans m)"
    "i \<noteq> NIL"
    using l by (auto simp: load_queue_node_def get_helper_matched_loan_def ok_or_Inr require_Inr Let_def elim!: ebind_InrE)
  have mem: "(i, node) \<in> set (mk_matched_loans m)" using tree_get_in[OF t] .
  obtain w where w: "(i, w) \<in> set (mk_matched_loans m)" "matched_loan_cmp w (ml_probe sq) = Equal"
    using tree_lookup_hit[of matched_loan_cmp "ml_probe sq" "mk_matched_loans m"] i by auto
  have "distinct (map fst (mk_matched_loans m))" using market_trees_ok(4)[OF ok] by (simp add: tree_ok_def)
  then have "w = node" using mem w(1) by (metis eq_key_imp_eq_value)
  then show ?thesis using w mem by (simp add: matched_loan_cmp_def ml_probe_def)
qed

lemma load_queue_node_missing:
  assumes "\<forall>p \<in> set (mk_matched_loans m). ml_sequence (snd p) \<noteq> sq" "NIL \<notin> fst ` set (mk_matched_loans m)"
  shows "load_queue_node m sq = Inl (Custom MatchedLoanNotFound)"
proof -
  have "tree_lookup matched_loan_cmp (ml_probe sq) (mk_matched_loans m) = NIL"
    using assms tree_lookup_NIL[OF assms(2), of matched_loan_cmp "ml_probe sq"]
    by (auto simp: matched_loan_cmp_def ml_probe_def)
  then show ?thesis by (simp add: load_queue_node_def)
qed

lemma leave_queue_Inr:
  assumes "leave_queue m node i lt cr os = Inr m'"
  obtains m1 where "m1 = m \<or> deposit_to_seat m (ml_borrower_seat_index node) cr True = Inr m1"
    "m' = release_address_on_market_fixed (m1\<lparr>mk_accumulated_protocol_fee_shares := mk_accumulated_protocol_fee_shares m1 + os,
      mk_matched_loans := tree_remove i (mk_matched_loans m1)\<rparr>) i"
proof -
  obtain m1 where "(if lt = Fixed \<and> 0 < cr then deposit_to_seat m (ml_borrower_seat_index node) cr True else Inr m) = Inr m1"
    and m': "m' = release_address_on_market_fixed (m1\<lparr>mk_accumulated_protocol_fee_shares := mk_accumulated_protocol_fee_shares m1 + os,
      mk_matched_loans := tree_remove i (mk_matched_loans m1)\<rparr>) i"
    using assms unfolding leave_queue_def Let_def by (elim ebind_InrE) (simp add: ok_or_Inr checked_add_Some)
  then have "m1 = m \<or> deposit_to_seat m (ml_borrower_seat_index node) cr True = Inr m1" by (simp split: if_splits)
  then show thesis using m' by (rule that)
qed

lemma deposit_loans: "deposit_to_seat m j n d = Inr m' \<Longrightarrow> mk_matched_loans m' = mk_matched_loans m"
  by (auto simp: deposit_to_seat_def Let_def elim!: ebind_InrE)

lemma leave_queue_keeps:
  assumes ok: "market_ok m" and b: "backed ext m" and mem: "(i, node) \<in> set (mk_matched_loans m)"
    and l: "leave_queue m node i lt cr os = Inr m'"
  shows "market_ok m' \<and> backed (\<lambda>j. ext j + loan_pledge j node) m' \<and>
    mk_matched_loans m' = tree_remove i (mk_matched_loans m)"
proof -
  obtain m1 where m1: "m1 = m \<or> deposit_to_seat m (ml_borrower_seat_index node) cr True = Inr m1"
    and m': "m' = release_address_on_market_fixed (m1\<lparr>mk_accumulated_protocol_fee_shares := mk_accumulated_protocol_fee_shares m1 + os,
      mk_matched_loans := tree_remove i (mk_matched_loans m1)\<rparr>) i"
    using leave_queue_Inr[OF l] by blast
  have k: "market_ok m1 \<and> backed ext m1" using m1 ok b deposit_keeps[OF ok b] by auto
  have l1: "mk_matched_loans m1 = mk_matched_loans m" using m1 deposit_loans by auto
  have mem1: "(i, node) \<in> set (mk_matched_loans m1)" using mem by (simp add: l1)
  have "mk_matched_loans m' = tree_remove i (mk_matched_loans m)"
    by (simp add: m' l1 release_address_on_market_fixed_def)
  then show ?thesis using dequeue_keeps[OF conjunct1[OF k] conjunct2[OF k] mem1 m'] by blast
qed

lemma promotion_Inr:
  assumes "process_matched_loan pg ctx gc now sq m v slot p = Inr (m', v', loan, p')"
  obtains node i lt net lender cr os where "load_queue_node m sq = Inr (node, i)" "slot = None"
    "loan_type_from_u8 (ml_loan_type node) = Inr lt" "net_principal_of node = Inr net"
    "lender_identity m node = Inr lender" "loan = promoted_loan ctx now node net lt lender"
    "leave_queue m node i lt cr os = Inr m'" "mk_is_paused m = 0" "gc_is_paused gc = 0"
proof -
  obtain node i vs where a: "load_queue_node m sq = Inr (node, i)" "slot = None" "mk_is_paused m = 0" "gc_is_paused gc = 0"
    and p: "process_primary_promotion pg ctx now node i vs m v p = Inr (m', v', loan, p')"
    using assms unfolding process_matched_loan_def require_global_not_paused_def require_market_not_paused_def
    by (elim ebind_InrE) (auto simp: require_Inr elim!: ebind_InrE)
  obtain lt net lender cr os where "loan_type_from_u8 (ml_loan_type node) = Inr lt" "net_principal_of node = Inr net"
    "lender_identity m node = Inr lender" "loan = promoted_loan ctx now node net lt lender" "leave_queue m node i lt cr os = Inr m'"
    using p unfolding process_primary_promotion_def Let_def by (elim ebind_InrE) (auto split: prod.splits elim!: ebind_InrE)
  then show thesis using a that by blast
qed

text \<open>The fields of the new account.\<close>

lemma promoted_loan_fields:
  assumes "net_principal_of node = Inr net"
  shows "ln_principal_debt_atoms (promoted_loan ctx now node net lt lender) = ml_principal_atoms node"
    "ln_outstanding_debt_atoms (promoted_loan ctx now node net lt lender) + ml_origination_atoms node = ml_principal_atoms node"
    "ln_lender_claimable_atoms (promoted_loan ctx now node net lt lender) = ln_outstanding_debt_atoms (promoted_loan ctx now node net lt lender)"
    "0 < ln_outstanding_debt_atoms (promoted_loan ctx now node net lt lender)"
    "ln_borrower_seat_index (promoted_loan ctx now node net lt lender) = ml_borrower_seat_index node"
    "ln_collateral_atoms (promoted_loan ctx now node net lt lender) = ml_collateral_atoms node"
    "ln_borrower_collateral_share_price_snapshot_fp48 (promoted_loan ctx now node net lt lender) = ml_borrower_collateral_share_price_snapshot_fp48 node"
    "ln_liquidation_ltv_bps (promoted_loan ctx now node net lt lender) = ml_liquidation_ltv_bps node"
    "ln_state (promoted_loan ctx now node net lt lender) = loan_state_u8 Active"
    "ln_matched_loan_sequence (promoted_loan ctx now node net lt lender) = ml_sequence node"
    "ln_lender_rate_bps (promoted_loan ctx now node net lt lender) = ml_lender_rate_bps node"
    "ln_borrower_rate_bps (promoted_loan ctx now node net lt lender) = ml_borrower_rate_bps node"
proof -
  have net: "net + ml_origination_atoms node = ml_principal_atoms node" "0 < net"
    using assms by (auto simp: net_principal_of_def ok_or_Inr checked_sub_Some require_Inr elim!: ebind_InrE)
  obtain k sv g where l: "lender = (k, sv, g)" by (cases lender)
  note e = promoted_loan_def new_from_matched_loan_with_lender_def l Let_def
  show "ln_principal_debt_atoms (promoted_loan ctx now node net lt lender) = ml_principal_atoms node" by (simp add: e)
  show "ln_outstanding_debt_atoms (promoted_loan ctx now node net lt lender) + ml_origination_atoms node = ml_principal_atoms node" by (simp add: e net)
  show "ln_lender_claimable_atoms (promoted_loan ctx now node net lt lender) = ln_outstanding_debt_atoms (promoted_loan ctx now node net lt lender)" by (simp add: e)
  show "0 < ln_outstanding_debt_atoms (promoted_loan ctx now node net lt lender)" by (simp add: e net)
  show "ln_borrower_seat_index (promoted_loan ctx now node net lt lender) = ml_borrower_seat_index node" by (simp add: e)
  show "ln_collateral_atoms (promoted_loan ctx now node net lt lender) = ml_collateral_atoms node" by (simp add: e)
  show "ln_borrower_collateral_share_price_snapshot_fp48 (promoted_loan ctx now node net lt lender) = ml_borrower_collateral_share_price_snapshot_fp48 node" by (simp add: e)
  show "ln_liquidation_ltv_bps (promoted_loan ctx now node net lt lender) = ml_liquidation_ltv_bps node" by (simp add: e)
  show "ln_state (promoted_loan ctx now node net lt lender) = loan_state_u8 Active" by (simp add: e)
  show "ln_matched_loan_sequence (promoted_loan ctx now node net lt lender) = ml_sequence node" by (simp add: e)
  show "ln_lender_rate_bps (promoted_loan ctx now node net lt lender) = ml_lender_rate_bps node" by (simp add: e)
  show "ln_borrower_rate_bps (promoted_loan ctx now node net lt lender) = ml_borrower_rate_bps node" by (simp add: e)
qed

text \<open>The second promotion of a sequence number finds nothing.\<close>

lemma sequence_left_queue:
  assumes ok: "market_ok m" and mem: "(i, node) \<in> set (mk_matched_loans m)" and s: "ml_sequence node = sq"
    and t: "mk_matched_loans m' = tree_remove i (mk_matched_loans m)"
  shows "\<forall>p \<in> set (mk_matched_loans m'). ml_sequence (snd p) \<noteq> sq"
proof -
  have dt: "distinct (map fst (mk_matched_loans m))" using market_trees_ok(4)[OF ok] by (simp add: tree_ok_def)
  obtain as bs where sp: "mk_matched_loans m = as @ (i, node) # bs" "tree_remove i (mk_matched_loans m) = as @ bs"
    using tree_split[OF dt mem] by blast
  have "distinct (map (\<lambda>p. ml_sequence (snd p)) (as @ (i, node) # bs))" using ok by (simp add: market_ok_def sp(1))
  then have "sq \<notin> (\<lambda>p. ml_sequence (snd p)) ` set (as @ bs)" using s by auto
  then show ?thesis unfolding t sp(2) by blast
qed

lemma leave_queue_paused: "leave_queue m node i lt cr os = Inr m' \<Longrightarrow> mk_is_paused m' = mk_is_paused m"
  by (erule leave_queue_Inr) (auto simp: release_address_on_market_fixed_def deposit_to_seat_def set_seat_def Let_def elim!: ebind_InrE)

text \<open>C22. Promoting a queued match of a well-formed market whose collateral locks are backed opens the loan the
  match agreed on: the new account carries the node's seats, collateral, rates and liquidation
  threshold, its debt is the principal net of the origination fee and its books start balanced. The
  node leaves the queue, so a second promotion of the same sequence number is refused whatever slot
  and time it comes with; the market stays well formed and the lock of the node's collateral is now
  the lock the open loan has to release.\<close>

theorem promotion_opens_matched_loan:
  assumes ok: "market_ok m" and b: "backed ext m"
    and r: "process_matched_loan pg ctx gc now sq m v slot p = Inr (m', v', loan, p')"
  shows "(\<exists>node. node \<in> set (tree_values (mk_matched_loans m)) \<and> ml_sequence node = sq \<and>
    ln_principal_debt_atoms loan = ml_principal_atoms node \<and>
    ln_outstanding_debt_atoms loan + ml_origination_atoms node = ml_principal_atoms node \<and>
    ln_lender_claimable_atoms loan = ln_outstanding_debt_atoms loan \<and> 0 < ln_outstanding_debt_atoms loan \<and>
    ln_borrower_seat_index loan = ml_borrower_seat_index node \<and> ln_collateral_atoms loan = ml_collateral_atoms node \<and>
    ln_lender_rate_bps loan = ml_lender_rate_bps node \<and> ln_borrower_rate_bps loan = ml_borrower_rate_bps node \<and>
    ln_liquidation_ltv_bps loan = ml_liquidation_ltv_bps node \<and> ln_state loan = loan_state_u8 Active) \<and>
    process_matched_loan pg ctx gc now2 sq m' v2 slot2 p2 = Inl (Custom MatchedLoanNotFound) \<and> market_ok m' \<and>
    backed (\<lambda>j. ext j + owed (ln_borrower_seat_index loan)
      (locked_shares (ln_collateral_atoms loan) (ln_borrower_collateral_share_price_snapshot_fp48 loan)) j) m'"
proof -
  obtain node i lt net lender cr os where l: "load_queue_node m sq = Inr (node, i)"
    and net: "net_principal_of node = Inr net" and loan: "loan = promoted_loan ctx now node net lt lender"
    and q: "leave_queue m node i lt cr os = Inr m'" and np: "mk_is_paused m = 0" "gc_is_paused gc = 0"
    using promotion_Inr[OF r] by metis
  have mem: "(i, node) \<in> set (mk_matched_loans m)" "ml_sequence node = sq" using load_queue_node_Inr[OF ok l] by simp_all
  note f = promoted_loan_fields[OF net, of ctx now lt lender, folded loan]
  note k = leave_queue_keeps[OF ok b mem(1) q]
  have opened: "\<exists>node. node \<in> set (tree_values (mk_matched_loans m)) \<and> ml_sequence node = sq \<and>
    ln_principal_debt_atoms loan = ml_principal_atoms node \<and>
    ln_outstanding_debt_atoms loan + ml_origination_atoms node = ml_principal_atoms node \<and>
    ln_lender_claimable_atoms loan = ln_outstanding_debt_atoms loan \<and> 0 < ln_outstanding_debt_atoms loan \<and>
    ln_borrower_seat_index loan = ml_borrower_seat_index node \<and> ln_collateral_atoms loan = ml_collateral_atoms node \<and>
    ln_lender_rate_bps loan = ml_lender_rate_bps node \<and> ln_borrower_rate_bps loan = ml_borrower_rate_bps node \<and>
    ln_liquidation_ltv_bps loan = ml_liquidation_ltv_bps node \<and> ln_state loan = loan_state_u8 Active"
    using mem f by (intro exI[of _ node]) (force simp: tree_values_def)
  have "NIL \<notin> fst ` set (mk_matched_loans m')" using market_trees_ok(4)[OF conjunct1[OF k]] by (simp add: tree_ok_def)
  then have "load_queue_node m' sq = Inl (Custom MatchedLoanNotFound)"
    using load_queue_node_missing sequence_left_queue[OF ok mem, of m'] k by blast
  then have "process_matched_loan pg ctx gc now2 sq m' v2 slot2 p2 = Inl (Custom MatchedLoanNotFound)"
    using np leave_queue_paused[OF q]
    by (simp add: process_matched_loan_def require_global_not_paused_def require_market_not_paused_def)
  moreover have "market_ok m' \<and>
    backed (\<lambda>j. ext j + owed (ln_borrower_seat_index loan)
      (locked_shares (ln_collateral_atoms loan) (ln_borrower_collateral_share_price_snapshot_fp48 loan)) j) m'"
    using k by (simp add: loan_pledge_owed f)
  ultimately show ?thesis using opened by blast
qed

text \<open>A match of 1000 atoms from sub-vault 1, with its promotion.\<close>

definition queued_node :: matched_loan where
  "queued_node = \<lparr> ml_sequence = 3, ml_borrower_marginfi_borrow_shares = 0, ml_principal_atoms = 1000, ml_origination_atoms = 5,
     ml_collateral_atoms = 667, ml_matched_at_unix = 1000, ml_lender_seat_index = 160, ml_borrower_seat_index = 0,
     ml_term_seconds = 86400, ml_borrower_rate_bps = 550, ml_lender_rate_bps = 500, ml_loan_type = 0, ml_flags = 1,
     ml_curator_fee_bps_snapshot = 0, ml_origination_ltv_bps = 7500, ml_liquidation_ltv_bps = 8000,
     ml_lender_debt_share_price_snapshot_fp48 = SCALE, ml_borrower_collateral_share_price_snapshot_fp48 = SCALE \<rparr>"

definition queued_market :: market where
  "queued_market = two_asks\<lparr>mk_matched_loans := [(800, queued_node)], mk_free_list := [960],
     mk_claimed_seats := [(320, cs_new_empty 9 1 2), (160, (cs_new_empty 9 1 1)\<lparr>cs_open_lend_count := 1\<rparr>),
       (0, (cs_new_empty 7 0 0)\<lparr>cs_collateral_encumbered_shares := 667 * SCALE, cs_open_borrow_count := 1\<rparr>)]\<rparr>"

definition queued_vaults :: global_vault where
  "queued_vaults = two_vaults\<lparr>gv_sub_vaults :=
     [(512, (sv_new_empty 2 5 8000 31536000)\<lparr>sv_total_principal_atoms := 5001\<rparr>),
      (0, (sv_new_empty 1 6 7500 31536000)\<lparr>sv_total_principal_atoms := 1001, sv_total_assets_atoms := 1001,
         sv_encumbered_in_orders_atoms := 1000, sv_open_loans_count := 1\<rparr>)]\<rparr>"

definition queued_context :: promotion_context where
  "queued_context = \<lparr> pc_payer = 7, pc_market_key = 3, pc_loan_bump = 255, pc_debt_bank = 1,
     pc_settle = \<lparr> vs_group = 10, vs_integration_account = 20, vs_vault_signer = 12, vs_staging = 21,
       vs_liquidity_vault_authority = 14, vs_liquidity_vault = 15, vs_token_program = 16, vs_marginfi_program = 99,
       vs_oracle = 18, vs_market_debt_vault = 22, vs_lender_integration_account = 23, vs_market_signer = 25 \<rparr> \<rparr>"

lemmas promotion_eval = process_matched_loan_def process_primary_promotion_def load_queue_node_def settles_from_vault_def
  net_principal_of_def lender_identity_def promoted_loan_def do_vault_settle_def vault_withdraw_def leave_queue_def
  vault_withdraw_accounts_def market_deposit_accounts_def adapter_withdraw_def adapter_deposit_def check_accounts_def
  WITHDRAW_EXPLICIT_ACCOUNTS_def DEPOSIT_EXPLICIT_ACCOUNTS_def read_asset_shares_u128_def shares_to_amount_def
  amount_to_asset_shares_ceil_def amount_to_asset_shares_def token_balance_of_def

lemma queued_market_ok: "market_ok queued_market"
  by (simp add: market_ok_def queued_market_def queued_node_def example_defs market_blocks_def descending_def u32_lim_def ask_cmp_def
      cmp_nat_def claimed_seat_cmp_def seat_key_def)

lemma queued_market_backed: "backed (\<lambda>_. 0) queued_market"
  by (simp add: backed_def bids_sane_def bids_pledged_def loans_pledged_def encumbered_of_def loan_pledge_def
      locked_shares_def queued_market_def queued_node_def example_defs tree_values_def tree_get_def SCALE_def)

lemma queued_withdraw:
  "vault_withdraw sample_programs (pc_settle queued_context) 1 1000 sample_pool = Inr (token_in 21 1001 (add_assets 20 1 (- 1001) sample_pool), 1001)"
  by (simp add: promotion_eval sample_eval queued_context_def wrapped_i80f48_to_u128_def bank_asset_share_value_def
      borrow_bank_def assert_marginfi_owned_def borrow_marginfi_account_def mul_scale_eq div_scale_eq to_scaled_eq from_scaled_floor_eq lim_defs
      SCALE_def checked_add_def require_def Let_def ok_or_def cong: ebind_weak_cong)

lemma queued_settle:
  "\<exists>v' p'. do_vault_settle sample_programs (pc_settle queued_context) 1 1000 500 0 1 2000 queued_vaults sample_pool = Inr (v', p') \<and>
     gv_is_paused v' = 0"
  unfolding do_vault_settle_def queued_withdraw
  by (simp add: promotion_eval sample_eval queued_context_def wrapped_i80f48_to_u128_def bank_asset_share_value_def
      borrow_bank_def assert_marginfi_owned_def borrow_marginfi_account_def mul_scale_eq div_scale_eq to_scaled_eq from_scaled_floor_eq lim_defs
      SCALE_def checked_add_def require_def Let_def ok_or_def queued_vaults_def example_defs sub_vault_index_def sub_vault_cmp_def cmp_nat_def
      get_sub_vault_def tree_get_def NIL_def read_bank_asset_share_value_fp48_def thousand_eval set_sub_vault_def tree_update_def
      cong: ebind_weak_cong)

lemma queued_steps:
  "load_queue_node queued_market 3 = Inr (queued_node, 800)"
  "settles_from_vault queued_market queued_node = Inr True"
  "loan_type_from_u8 (ml_loan_type queued_node) = Inr Fixed" "\<not> is_presettled queued_node"
  "net_principal_of queued_node = Inr 995" "lender_identity queued_market queued_node = Inr (1, 1, 9)"
  "amount_to_asset_shares sample_programs sample_pool 1 995 = Inr (995 * SCALE)"
  "amount_to_asset_shares sample_programs sample_pool 1 5 = Inr (5 * SCALE)"
  by (simp_all add: load_queue_node_def loan_type_from_u8_def queued_market_def example_defs ml_probe_def queued_node_def matched_loan_cmp_def cmp_nat_def
      get_helper_matched_loan_def tree_get_def NIL_def require_def settles_from_vault_def is_presettled_def is_vault_lender_def
      MATCHED_LOAN_FLAG_VAULT_PRESETTLED_def MATCHED_LOAN_FLAG_VAULT_LENDER_def get_helper_seat_def OWNER_KIND_SUB_VAULT_def OWNER_KIND_USER_def
      net_principal_of_def checked_sub_def lender_identity_def verify_live_seat_def seat_lookup_def claimed_seat_cmp_def
      amount_to_asset_shares_def sample_eval assert_marginfi_owned_def bank_asset_share_value_def borrow_bank_def
      wrapped_i80f48_to_u128_def to_scaled_eq div_scale_eq lim_defs SCALE_def)

lemma queued_leaves: "\<exists>m'. leave_queue queued_market queued_node 800 Fixed (995 * SCALE) (5 * SCALE) = Inr m'"
  by (simp add: leave_queue_def queued_market_def queued_node_def example_defs deposit_to_seat_def get_helper_seat_def
      tree_get_def NIL_def update_balance_def checked_add_def lim_defs SCALE_def set_seat_def tree_update_def)

lemma queued_run:
  "\<exists>m' v' loan p'. process_matched_loan sample_programs queued_context (gc_new_empty 1) 2000 3 queued_market
     (Some queued_vaults) None sample_pool = Inr (m', v', loan, p')"
proof -
  obtain v' p' where d: "do_vault_settle sample_programs (pc_settle queued_context) 1 1000 500 0 1 2000 queued_vaults sample_pool = Inr (v', p')"
    using queued_settle by blast
  obtain m' where l: "leave_queue queued_market queued_node 800 Fixed (995 * SCALE) (5 * SCALE) = Inr m'" using queued_leaves by blast
  have n: "ml_principal_atoms queued_node = 1000" "ml_origination_atoms queued_node = 5" "ml_lender_rate_bps queued_node = 500"
    "ml_curator_fee_bps_snapshot queued_node = 0" by (simp_all add: queued_node_def)
  have c: "pc_debt_bank queued_context = 1" by (simp add: queued_context_def)
  have f: "ln_curator_fee_bps_snapshot (promoted_loan queued_context 2000 queued_node 995 Fixed (1, 1, 9)) = 0"
    by (simp add: promoted_loan_def new_from_matched_loan_with_lender_def n Let_def)
  have "process_primary_promotion sample_programs queued_context 2000 queued_node 800 True queued_market (Some queued_vaults) sample_pool =
      Inr (m', Some v', promoted_loan queued_context 2000 queued_node 995 Fixed (1, 1, 9), p')"
    by (simp add: process_primary_promotion_def queued_steps n c f d[unfolded One_nat_def] d l[unfolded One_nat_def] l Let_def OWNER_KIND_SUB_VAULT_def
        del: One_nat_def cong: ebind_weak_cong)
  moreover have "mk_is_paused queued_market = 0" "gv_is_paused queued_vaults = 0"
    by (simp_all add: queued_market_def queued_vaults_def example_defs)
  ultimately show ?thesis
    by (simp add: process_matched_loan_def queued_steps require_global_not_paused_def require_market_not_paused_def
        require_vault_not_paused_def gc_new_empty_def del: One_nat_def cong: ebind_weak_cong)
qed

lemma promotion_opens_matched_loan_witness:
  "\<exists>m' v' loan p'. process_matched_loan sample_programs queued_context (gc_new_empty 1) 2000 3 queued_market
     (Some queued_vaults) None sample_pool = Inr (m', v', loan, p') \<and> ln_outstanding_debt_atoms loan = 995 \<and> market_ok m'"
proof -
  obtain m' v' loan p' where r: "process_matched_loan sample_programs queued_context (gc_new_empty 1) 2000 3 queued_market
     (Some queued_vaults) None sample_pool = Inr (m', v', loan, p')" using queued_run by blast
  note t = promotion_opens_matched_loan[OF queued_market_ok queued_market_backed r]
  have "tree_values (mk_matched_loans queued_market) = [queued_node]" by (simp add: queued_market_def tree_values_def)
  then have "ln_outstanding_debt_atoms loan + 5 = 1000" using t by (auto simp: queued_node_def)
  then show ?thesis using r t by auto
qed

end
