(* ===== verification/Loan_Closing.thy ===== *)
theory Loan_Closing
  imports Market_Steps Loan_Books Guards Sample_Pool User_Account
begin

text \<open>The steps the instructions that end a loan share (\<open>repay.rs\<close>, \<open>liquidate_loan.rs\<close>,
  \<open>settle_matured_loan.rs\<close>, \<open>convert_p2pool_to_fixed.rs\<close>): reading a borrower's live debt from its
  marginfi account, giving collateral back, retiring the counters of the two seats, crediting the
  lender's seat, and retiring the loan on the lending sub-vault. Each is proved to keep the market
  well formed and the collateral of every other loan and bid locked.\<close>

section \<open>Live debt\<close>

definition pool_liability_shares :: "pool \<Rightarrow> pubkey \<Rightarrow> pubkey \<Rightarrow> nat res" where
  "pool_liability_shares p borrower_account debt_bank =
     (if mf_layout_ok (pl_accounts p borrower_account) then
        (case mf_balances (pl_accounts p borrower_account) debt_bank of
           Some b \<Rightarrow> wrapped_i80f48_to_u128 (bl_liability_shares b)
         | None \<Rightarrow> Inr 0)
      else Inl (Custom IncorrectAccount))"

definition pool_liability_atoms_ceil :: "pool \<Rightarrow> pubkey \<Rightarrow> nat \<Rightarrow> nat res" where
  "pool_liability_atoms_ceil p debt_bank shares =
     (if bk_layout_ok (pl_banks p debt_bank) then
        ebind (wrapped_i80f48_to_u128 (bk_liability_share_value (pl_banks p debt_bank))) (\<lambda>lsv.
        liability_shares_to_atoms_ceil lsv shares)
      else Inl (Custom IncorrectAccount))"

definition pool_live_outstanding :: "loan_fixed \<Rightarrow> pool \<Rightarrow> pubkey \<Rightarrow> pubkey \<Rightarrow> nat res" where
  "pool_live_outstanding loan p borrower_account debt_bank =
     ebind (ln_loan_type_of loan) (\<lambda>lt. case lt of
         Fixed \<Rightarrow> Inr (ln_outstanding_debt_atoms loan)
       | P2Pool \<Rightarrow>
           ebind (pool_liability_shares p borrower_account debt_bank) (\<lambda>account_total.
           pool_liability_atoms_ceil p debt_bank (min (ln_borrower_marginfi_borrow_shares loan) account_total)))"

section \<open>The borrower's seat\<close>

definition return_collateral :: "market \<Rightarrow> data_index \<Rightarrow> nat \<Rightarrow> fp48 \<Rightarrow> market res" where
  "return_collateral m borrower_seat_index collateral_atoms collateral_snapshot_fp48 =
     (if 0 < collateral_atoms then
        ebind (atoms_to_shares_at_snapshot collateral_atoms collateral_snapshot_fp48) (\<lambda>collateral_shares.
        release_loan_collateral m borrower_seat_index collateral_shares collateral_shares)
      else Inr m)"

definition retire_borrow :: "market \<Rightarrow> data_index \<Rightarrow> market res" where
  "retire_borrow m borrower_seat_index =
     ebind (get_helper_seat m borrower_seat_index) (\<lambda>seat.
     Inr (set_seat m borrower_seat_index (seat\<lparr>cs_open_borrow_count := saturating_sub (cs_open_borrow_count seat) 1\<rparr>)))"

section \<open>The lender's side\<close>

definition credit_lender :: "market \<Rightarrow> data_index \<Rightarrow> nat \<Rightarrow> nat \<Rightarrow> bool \<Rightarrow> market res" where
  "credit_lender m lender_seat_index protocol_fee_shares lender_claim_shares did_full_repay =
     ebind (if 0 < protocol_fee_shares then
              ebind (ok_or (checked_add u128_lim (mk_accumulated_protocol_fee_shares m) protocol_fee_shares) ArithmeticOverflow) (\<lambda>f.
              Inr (m\<lparr>mk_accumulated_protocol_fee_shares := f\<rparr>))
            else Inr m) (\<lambda>m.
     ebind (require (lender_seat_index \<noteq> NIL) (Custom InvalidArgument)) (\<lambda>_.
     ebind (get_helper_seat m lender_seat_index) (\<lambda>seat.
     ebind (if 0 < lender_claim_shares then
              ebind (ok_or (checked_add u128_lim (cs_debt_withdrawable_shares seat) lender_claim_shares) ArithmeticOverflow) (\<lambda>w.
              Inr (seat\<lparr>cs_debt_withdrawable_shares := w\<rparr>))
            else Inr seat) (\<lambda>seat.
     ebind (if did_full_repay then
              ebind (ok_or (checked_sub (cs_open_lend_count seat) 1) ArithmeticOverflow) (\<lambda>c.
              Inr (seat\<lparr>cs_open_lend_count := c\<rparr>))
            else Inr seat) (\<lambda>seat.
     Inr (set_seat m lender_seat_index seat))))))"

definition retire_on_vault :: "global_vault option \<Rightarrow> pool \<Rightarrow> pubkey \<Rightarrow> int \<Rightarrow> loan_fixed \<Rightarrow> global_vault res" where
  "retire_on_vault v p debt_bank now loan =
     ebind (ok_or v (Custom IncorrectAccount)) (\<lambda>v.
     on_sub_vault v (ln_lender_sub_vault_id loan) (\<lambda>s.
       ebind (read_bank_asset_share_value_fp48 p debt_bank) (\<lambda>share_value_fp48.
       retire_on_sub_vault s now share_value_fp48 loan)))"

definition drop_open_loan_ref :: "user_account \<Rightarrow> pubkey \<Rightarrow> user_account res" where
  "drop_open_loan_ref u loan_key = ebind (remove_open_loan u loan_key) (\<lambda>(u', idx). Inr u')"

section \<open>What they keep\<close>

definition loan_lock :: "loan_fixed \<Rightarrow> data_index \<Rightarrow> nat" where
  "loan_lock loan = owed (ln_borrower_seat_index loan)
     (locked_shares (ln_collateral_atoms loan) (ln_borrower_collateral_share_price_snapshot_fp48 loan))"

definition slot_lock :: "loan_fixed option \<Rightarrow> data_index \<Rightarrow> nat" where
  "slot_lock slot j = (case slot of None \<Rightarrow> 0 | Some loan \<Rightarrow> loan_lock loan j)"

lemma slot_lock_simps [simp]: "slot_lock None j = 0" "slot_lock (Some loan) j = loan_lock loan j"
  by (simp_all add: slot_lock_def)

lemma loan_lock_zero: "ln_collateral_atoms loan = 0 \<Longrightarrow> loan_lock loan j = 0"
  by (simp add: loan_lock_def owed_def locked_shares_def)

lemma retire_borrow_keeps:
  assumes "market_ok m" "backed ext m" "retire_borrow m i = Inr m'"
  shows "market_ok m' \<and> backed ext m'"
proof -
  obtain s where s: "get_helper_seat m i = Inr s"
    and m': "m' = set_seat m i (s\<lparr>cs_open_borrow_count := cs_open_borrow_count s - 1\<rparr>)"
    using assms(3) unfolding retire_borrow_def by (elim ebind_InrE) simp
  show ?thesis unfolding m' by (rule set_seat_keeps[OF assms(1,2) s]) (simp_all add: seat_key_def)
qed

lemma return_collateral_keeps:
  assumes ok: "market_ok m" and b: "backed (\<lambda>j. ext j + owed i (locked_shares a s) j) m"
    and a: "a < u64_lim" and r: "return_collateral m i a s = Inr m'"
  shows "market_ok m' \<and> backed ext m'"
proof (cases "0 < a")
  case True
  then obtain sh where sh: "atoms_to_shares_at_snapshot a s = Inr sh" and rl: "release_loan_collateral m i sh sh = Inr m'"
    using r by (auto simp: return_collateral_def elim!: ebind_InrE)
  have "sh = locked_shares a s" using atoms_to_shares_locked[OF a sh] by simp
  then show ?thesis using backed_release_loan[OF ok _ rl] b by simp
next
  case False
  then have "m' = m" using r by (simp add: return_collateral_def)
  then show ?thesis using ok backed_mono[OF b, of ext] by simp
qed

text \<open>Giving back the collateral of an open loan cannot fail for want of a lock.\<close>

lemma return_collateral_never_short:
  assumes b: "backed (\<lambda>j. ext j + owed i (locked_shares a s) j) m" and a: "a < u64_lim"
  shows "return_collateral m i a s \<noteq> Inl (Custom InsufficientEncumberedCollateral)"
proof
  assume f: "return_collateral m i a s = Inl (Custom InsufficientEncumberedCollateral)"
  then have "0 < a" by (simp add: return_collateral_def split: if_splits)
  then have "atoms_to_shares_at_snapshot a s = Inl (Custom InsufficientEncumberedCollateral) \<or>
      (\<exists>sh. atoms_to_shares_at_snapshot a s = Inr sh \<and>
         release_loan_collateral m i sh sh = Inl (Custom InsufficientEncumberedCollateral))"
    using f by (simp add: return_collateral_def ebind_Inl)
  moreover have "atoms_to_shares_at_snapshot a s \<noteq> Inl (Custom InsufficientEncumberedCollateral)"
    using a by (auto simp: atoms_to_shares_at_snapshot_def fp48_checked_div_def from_atoms_eq div_scale_eq lim_defs SCALE_def)
  ultimately obtain sh where sh: "atoms_to_shares_at_snapshot a s = Inr sh"
    and rl: "release_loan_collateral m i sh sh = Inl (Custom InsufficientEncumberedCollateral)" by blast
  have e: "sh = locked_shares a s" using atoms_to_shares_locked[OF a sh] by simp
  have "sh \<le> cs_collateral_encumbered_shares seat" if "get_helper_seat m i = Inr seat" for seat
    using backed_release_enough[OF b that] e by simp
  then show False using rl
    by (auto simp: release_loan_collateral_def ebind_Inl require_Inl ok_or_Inl Let_def get_helper_seat_def)
qed

section \<open>What accrual and resolution leave alone\<close>

definition same_terms :: "loan_fixed \<Rightarrow> loan_fixed \<Rightarrow> bool" where
  "same_terms a b =
     (ln_loan_type a = ln_loan_type b \<and> ln_collateral_atoms a = ln_collateral_atoms b \<and>
      ln_borrower_seat_index a = ln_borrower_seat_index b \<and> ln_lender_seat_index a = ln_lender_seat_index b \<and>
      ln_borrower_collateral_share_price_snapshot_fp48 a = ln_borrower_collateral_share_price_snapshot_fp48 b \<and>
      ln_lender_sub_vault_id a = ln_lender_sub_vault_id b \<and> lent_of a = lent_of b)"

lemma same_terms_refl [simp]: "same_terms a a"
  by (simp add: same_terms_def)

lemma same_terms_lock: "same_terms a b \<Longrightarrow> loan_lock a = loan_lock b"
  by (simp add: same_terms_def loan_lock_def)

lemma accrue_tail_terms: "accrue_tail loan now a b c d e = Inr loan' \<Longrightarrow> same_terms loan loan'"
  by (auto simp: accrue_tail_def same_terms_def lent_of_def elim!: ebind_InrE)

lemma accrue_interest_terms: "accrue_interest loan now e = Inr loan' \<Longrightarrow> same_terms loan loan'"
  unfolding accrue_interest_def Let_def by (elim ebind_InrE) (rule accrue_tail_terms)

lemma accrue_loan_terms:
  assumes "accrue_loan loan now = Inr loan'"
  shows "same_terms loan loan'"
proof -
  have t: "same_terms loan (loan\<lparr>ln_last_accrued_unix := now\<rparr>)" by (simp add: same_terms_def lent_of_def)
  show ?thesis
    using assms t accrue_interest_terms
    by (auto simp: accrue_loan_def require_Inr split: if_splits option.splits elim!: ebind_InrE)
qed

lemma resolution_terms:
  assumes "apply_partial_resolution loan a = Inr (loan', r)"
  shows "same_terms loan loan' \<and> 0 < a \<and> ln_outstanding_debt_atoms loan = ln_outstanding_debt_atoms loan' + a"
proof -
  obtain l p c where r: "r = (l, p, c)" by (cases r)
  show ?thesis using assms unfolding r apply_partial_resolution_Inr by (simp add: same_terms_def lent_of_def)
qed

section \<open>What moves\<close>

text \<open>Withdrawable and encumbered collateral of a seat.\<close>

definition seat_collateral :: "market \<Rightarrow> data_index \<Rightarrow> (nat \<times> nat) option" where
  "seat_collateral m i =
     map_option (\<lambda>s. (cs_collateral_withdrawable_shares s, cs_collateral_encumbered_shares s)) (tree_get (mk_claimed_seats m) i)"

lemma seat_collateral_set:
  assumes "get_helper_seat m i = Inr s"
  shows "seat_collateral (set_seat m i s') j =
    (if j = i then Some (cs_collateral_withdrawable_shares s', cs_collateral_encumbered_shares s') else seat_collateral m j)"
  using assms by (simp add: seat_collateral_def set_seat_def tree_get_update get_helper_seat_Inr)

lemma seat_collateral_get:
  "get_helper_seat m i = Inr s \<Longrightarrow>
    seat_collateral m i = Some (cs_collateral_withdrawable_shares s, cs_collateral_encumbered_shares s)"
  by (simp add: seat_collateral_def get_helper_seat_Inr)

lemma retire_borrow_collateral:
  assumes "retire_borrow m i = Inr m'"
  shows "seat_collateral m' j = seat_collateral m j"
proof -
  obtain s where s: "get_helper_seat m i = Inr s"
    and m': "m' = set_seat m i (s\<lparr>cs_open_borrow_count := cs_open_borrow_count s - 1\<rparr>)"
    using assms unfolding retire_borrow_def by (elim ebind_InrE) simp
  show ?thesis by (simp add: m' seat_collateral_set[OF s] seat_collateral_get[OF s])
qed

lemma return_collateral_moves:
  assumes a: "a < u64_lim" and r: "return_collateral m i a s = Inr m'" and e: "seat_collateral m' i \<noteq> None"
  shows "\<exists>w e. seat_collateral m i = Some (w, e) \<and> locked_shares a s \<le> e \<and>
    seat_collateral m' i = Some (w + locked_shares a s, e - locked_shares a s)"
proof (cases "0 < a")
  case True
  obtain sh where sh: "atoms_to_shares_at_snapshot a s = Inr sh" and rl: "release_loan_collateral m i sh sh = Inr m'"
    using r True by (auto simp: return_collateral_def elim!: ebind_InrE)
  have l: "sh = locked_shares a s" using atoms_to_shares_locked[OF a sh] by simp
  obtain t where t: "get_helper_seat m i = Inr t" "sh \<le> cs_collateral_encumbered_shares t"
    and m': "m' = set_seat m i (t\<lparr>cs_collateral_encumbered_shares := cs_collateral_encumbered_shares t - sh,
      cs_collateral_withdrawable_shares := cs_collateral_withdrawable_shares t + sh\<rparr>)"
    using release_loan_collateral_Inr[OF rl] by auto
  show ?thesis using t(2) by (simp add: m' seat_collateral_set[OF t(1)] seat_collateral_get[OF t(1)] l)
next
  case False
  then show ?thesis using r e by (auto simp: return_collateral_def)
qed

lemma retire_borrow_seat: "retire_borrow m i = Inr m' \<Longrightarrow> seat_collateral m i \<noteq> None"
  by (auto simp: retire_borrow_def seat_collateral_def get_helper_seat_Inr elim!: ebind_InrE)

lemma credit_lender_Inr:
  assumes "credit_lender m i fee claim full = Inr m'"
  obtains m1 s s' where "get_helper_seat m1 i = Inr s" "m' = set_seat m1 i s'" "mk_claimed_seats m1 = mk_claimed_seats m"
    "m1 = m \<or> m1 = m\<lparr>mk_accumulated_protocol_fee_shares := mk_accumulated_protocol_fee_shares m + fee\<rparr>"
    "s' = s\<lparr>cs_debt_withdrawable_shares := cs_debt_withdrawable_shares s + claim,
       cs_open_lend_count := cs_open_lend_count s - (if full then 1 else 0)\<rparr>"
proof -
  define m1 where "m1 = (if 0 < fee then m\<lparr>mk_accumulated_protocol_fee_shares := mk_accumulated_protocol_fee_shares m + fee\<rparr> else m)"
  obtain s w where s: "get_helper_seat m1 i = Inr s" and w: "w = (if 0 < claim then s\<lparr>cs_debt_withdrawable_shares :=
      cs_debt_withdrawable_shares s + claim\<rparr> else s)"
    and m': "m' = set_seat m1 i (if full then w\<lparr>cs_open_lend_count := cs_open_lend_count w - 1\<rparr> else w)"
    using assms unfolding credit_lender_def m1_def
    by (cases "0 < fee"; cases "0 < claim"; cases full)
      (auto simp: ok_or_Inr checked_add_Some checked_sub_Some require_Inr elim!: ebind_InrE)
  have m'': "m' = set_seat m1 i (s\<lparr>cs_debt_withdrawable_shares := cs_debt_withdrawable_shares s + claim,
       cs_open_lend_count := cs_open_lend_count s - (if full then 1 else 0)\<rparr>)"
    by (cases "0 < claim"; cases full) (simp_all add: m' w)
  have "m1 = m \<or> m1 = m\<lparr>mk_accumulated_protocol_fee_shares := mk_accumulated_protocol_fee_shares m + fee\<rparr>"
    "mk_claimed_seats m1 = mk_claimed_seats m" by (simp_all add: m1_def)
  then show thesis using that[OF s m''] by blast
qed

lemma credit_lender_keeps:
  assumes ok: "market_ok m" and b: "backed ext m" and c: "credit_lender m i fee claim full = Inr m'"
  shows "market_ok m' \<and> backed ext m'"
  using c
proof (rule credit_lender_Inr)
  fix m1 s s' assume s: "get_helper_seat m1 i = Inr s" and m': "m' = set_seat m1 i s'"
    and m1: "m1 = m \<or> m1 = m\<lparr>mk_accumulated_protocol_fee_shares := mk_accumulated_protocol_fee_shares m + fee\<rparr>"
    and s': "s' = s\<lparr>cs_debt_withdrawable_shares := cs_debt_withdrawable_shares s + claim,
       cs_open_lend_count := cs_open_lend_count s - (if full then 1 else 0)\<rparr>"
  let ?m = "m\<lparr>mk_accumulated_protocol_fee_shares := mk_accumulated_protocol_fee_shares m + fee\<rparr>"
  have f: "market_ok ?m" using ok by (simp add: market_ok_def market_blocks_def)
  have g: "backed ext ?m" by (rule backed_cong[OF b]) (simp_all add: encumbered_of_def)
  have k: "market_ok m1 \<and> backed ext m1" using m1
  proof
    assume "m1 = m"
    then show ?thesis using ok b by simp
  next
    assume "m1 = ?m"
    then show ?thesis using f g by simp
  qed
  show ?thesis unfolding m' by (rule set_seat_keeps[OF conjunct1[OF k] conjunct2[OF k] s]) (simp_all add: s' seat_key_def)
qed

lemma credit_lender_collateral:
  assumes "credit_lender m i fee claim full = Inr m'"
  shows "seat_collateral m' j = seat_collateral m j"
  using assms
proof (rule credit_lender_Inr)
  fix m1 s s' assume s: "get_helper_seat m1 i = Inr s" and m': "m' = set_seat m1 i s'" and m1: "mk_claimed_seats m1 = mk_claimed_seats m"
    and s': "s' = s\<lparr>cs_debt_withdrawable_shares := cs_debt_withdrawable_shares s + claim,
       cs_open_lend_count := cs_open_lend_count s - (if full then 1 else 0)\<rparr>"
  have "seat_collateral m1 j = seat_collateral m j" by (simp add: seat_collateral_def m1)
  then show ?thesis using seat_collateral_get[OF s] by (cases "j = i") (simp_all add: m' seat_collateral_set[OF s] s')
qed

text \<open>The sub-vault of the lender is one loan lighter.\<close>

lemma retire_on_vault_Inr:
  assumes "retire_on_vault v p b now loan = Inr v1"
  obtains v0 sv sv' cv where "v = Some v0" "get_sub_vault v0 (sub_vault_index v0 (ln_lender_sub_vault_id loan)) = Inr sv"
    "retire_on_sub_vault sv now cv loan = Inr sv'" "v1 = set_sub_vault v0 (sub_vault_index v0 (ln_lender_sub_vault_id loan)) sv'"
  using assms by (auto simp: retire_on_vault_def on_sub_vault_def Let_def ok_or_Inr elim!: ebind_InrE)

lemma retire_counts:
  assumes "retire_on_sub_vault s now cv loan = Inr s'"
  shows "sv_deployed_principal_atoms s' + ln_principal_debt_atoms loan = sv_deployed_principal_atoms s \<and>
    sv_open_loans_count s' + 1 = sv_open_loans_count s \<and>
    sv_pending_claim_atoms s' = sv_pending_claim_atoms s + ln_lender_claimable_atoms loan"
  using assms
proof (rule retire_Inr)
  fix s1
  assume a: "accrue_sub_vault s now cv = Inr s1" "ln_principal_debt_atoms loan \<le> sv_deployed_principal_atoms s1"
    "0 < sv_open_loans_count s1" "sv_deployed_principal_atoms s' = sv_deployed_principal_atoms s1 - ln_principal_debt_atoms loan"
    "sv_open_loans_count s' = sv_open_loans_count s1 - 1"
    "sv_pending_claim_atoms s' = sv_pending_claim_atoms s1 + ln_lender_claimable_atoms loan"
  then show ?thesis using accrue_frame[OF a(1)] by (simp add: sv_accrue_frame_def)
qed

section \<open>An open loan\<close>

text \<open>The loan of 1000 atoms of \<open>Loan_Books\<close> against 5000 atoms of collateral, with its market, its vault and
  its borrower's account.\<close>

definition closing_market :: market where
  "closing_market = two_asks\<lparr>
     mk_claimed_seats := [(320, cs_new_empty 9 1 2), (160, (cs_new_empty 9 1 1)\<lparr>cs_open_lend_count := 1\<rparr>),
       (0, (cs_new_empty 7 0 0)\<lparr>cs_collateral_encumbered_shares := 5000 * SCALE, cs_open_borrow_count := 1\<rparr>)]\<rparr>"

definition closing_vaults :: global_vault where
  "closing_vaults = two_vaults\<lparr>gv_sub_vaults :=
     [(512, (sv_new_empty 2 5 8000 31536000)\<lparr>sv_total_principal_atoms := 5001\<rparr>),
      (0, (sv_new_empty 1 6 7500 31536000)\<lparr>sv_total_principal_atoms := 1001, sv_total_assets_atoms := 1001,
         sv_deployed_principal_atoms := 1000, sv_total_weighted_rate_bps := 500000,
         sv_total_weighted_net_rate_bps := 500000, sv_open_loans_count := 1, sv_last_accrue_unix := 10\<rparr>)]\<rparr>"

definition closing_user :: user_account where
  "closing_user = (ua_new_empty 7 1)\<lparr>ua_num_bytes_allocated := 160, ua_free_list := [0]\<rparr>"

lemma closing_market_ok: "market_ok closing_market"
  by (simp add: market_ok_def closing_market_def example_defs market_blocks_def descending_def u32_lim_def ask_cmp_def
      cmp_nat_def claimed_seat_cmp_def seat_key_def)

lemma closing_market_backed: "backed (\<lambda>j. 0 + loan_lock thousand_loan j) closing_market"
  by (simp add: backed_def bids_sane_def bids_pledged_def loans_pledged_def encumbered_of_def loan_lock_def owed_def
      thousand_loan_def new_from_matched_loan_with_lender_def
      locked_shares_def closing_market_def example_defs tree_values_def tree_get_def SCALE_def)

lemma closing_retires:
  "\<exists>v'. retire_on_vault (Some closing_vaults) q b 10 thousand_loan = Inr v'"
  if "pl_banks q b = sample_bank"
  using that
  by (simp add: retire_on_vault_def on_sub_vault_def closing_vaults_def example_defs sub_vault_index_def sub_vault_cmp_def
      cmp_nat_def get_sub_vault_def tree_get_def NIL_def read_bank_asset_share_value_fp48_def sample_bank_def
      wrapped_i80f48_to_u128_def thousand_eval cong: ebind_weak_cong)

end
