(* ===== verification/Repayment.thy ===== *)
theory Repayment
  imports Loan_Closing
begin

text \<open>Repayment by the borrower (\<open>processor/repay.rs\<close>) of a fixed or of a variable-rate loan, in part or in
  full; a full repayment is where a loan is closed, its collateral given back, the seats' counters
  retired and the lending sub-vault settled. The readings \<open>rb\<close> and \<open>rg\<close> are the debt bank and the
  marginfi group before the instruction's calls.\<close>

record repay_params =
  rq_repay_atoms :: nat
  rq_full_repay :: bool

record repay_context =
  rp_payer :: pubkey
  rp_market_key :: pubkey
  rp_loan_key :: pubkey
  rp_borrower_token :: pubkey
  rp_vault :: pubkey
  rp_group :: pubkey
  rp_lender_account :: pubkey
  rp_borrower_account :: pubkey
  rp_market_signer :: pubkey
  rp_debt_bank :: pubkey
  rp_liquidity_vault :: pubkey
  rp_token_program :: pubkey
  rp_marginfi_program :: pubkey

type_synonym repay_outcome = "market \<times> global_vault option \<times> loan_fixed option \<times> user_account \<times> pool"

definition ACCRUE_SAFETY_ATOMS :: nat where "ACCRUE_SAFETY_ATOMS = 1"

definition marginfi_accounts :: "repay_context \<Rightarrow> pubkey \<Rightarrow> pubkey list" where
  "marginfi_accounts ctx account =
     [rp_group ctx, account, rp_market_signer ctx, rp_debt_bank ctx, rp_vault ctx, rp_liquidity_vault ctx,
      rp_token_program ctx, rp_marginfi_program ctx]"

text \<open>What is repaid: everything, or the requested part of the debt \<open>live\<close>.\<close>

definition sized_repay :: "repay_params \<Rightarrow> nat \<Rightarrow> nat res" where
  "sized_repay params live =
     (if rq_full_repay params then Inr live
      else
        ebind (require (0 < rq_repay_atoms params) (Custom InvalidArgument)) (\<lambda>_.
        ebind (require (rq_repay_atoms params \<le> live) (Custom InvalidArgument)) (\<lambda>_.
        Inr (rq_repay_atoms params))))"

section \<open>Variable-rate loans\<close>

record p2pool_sizing =
  pz_account_shares_pre :: nat
  pz_this_loan_shares :: nat
  pz_use_repay_all :: bool
  pz_funded_atoms :: nat

definition size_p2pool_repay ::
  "programs \<Rightarrow> repay_context \<Rightarrow> raw_rate_bank \<Rightarrow> raw_group \<Rightarrow> repay_params \<Rightarrow> int \<Rightarrow> loan_fixed \<Rightarrow> pool \<Rightarrow> p2pool_sizing res" where
  "size_p2pool_repay pg ctx rb rg params now loan p =
     (let loan_shares = ln_borrower_marginfi_borrow_shares loan in
      ebind (require (0 < loan_shares) (Custom InvalidArgument)) (\<lambda>_.
      ebind (pool_liability_shares p (rp_borrower_account ctx) (rp_debt_bank ctx)) (\<lambda>account_shares_pre.
      ebind (require (0 < account_shares_pre) (Custom InvalidArgument)) (\<lambda>_.
      let this_loan_shares = min loan_shares account_shares_pre;
          this_loan_is_account = (this_loan_shares = account_shares_pre) in
      ebind (calc_projected_liability_share_value_fp48 (pg_marginfi pg) rb rg now) (\<lambda>predicted_lsv_fp48.
      ebind (liability_shares_to_atoms_ceil_at_lsv this_loan_shares predicted_lsv_fp48) (\<lambda>loan_live_atoms.
      ebind (require (0 < loan_live_atoms) (Custom InvalidArgument)) (\<lambda>_.
      ebind (sized_repay params loan_live_atoms) (\<lambda>repay_atoms.
      let use_repay_all = (rq_full_repay params \<and> this_loan_is_account) in
      ebind (if use_repay_all then ok_or (checked_add u64_lim repay_atoms ACCRUE_SAFETY_ATOMS) ArithmeticOverflow
             else Inr repay_atoms) (\<lambda>funded_atoms.
      Inr \<lparr> pz_account_shares_pre = account_shares_pre, pz_this_loan_shares = this_loan_shares,
            pz_use_repay_all = use_repay_all, pz_funded_atoms = funded_atoms \<rparr>)))))))))"

definition pay_p2pool :: "programs \<Rightarrow> repay_context \<Rightarrow> p2pool_sizing \<Rightarrow> pool \<Rightarrow> pool res" where
  "pay_p2pool pg ctx z p =
     ebind (pg_transfer pg (rp_borrower_token ctx) (rp_vault ctx) (pz_funded_atoms z) p) (\<lambda>p1.
     ebind (if pz_use_repay_all z
            then adapter_repay_atoms_full pg (marginfi_accounts ctx (rp_borrower_account ctx)) (pz_funded_atoms z) p1
            else adapter_repay_atoms pg (marginfi_accounts ctx (rp_borrower_account ctx)) (pz_funded_atoms z) p1) (\<lambda>(p2, shares_burned).
     Inr p2))"

text \<open>The loan after the payment, and whether it counts as repaid in full.\<close>

definition book_p2pool_repay :: "repay_context \<Rightarrow> p2pool_sizing \<Rightarrow> int \<Rightarrow> loan_fixed \<Rightarrow> pool \<Rightarrow> (loan_fixed \<times> bool) res" where
  "book_p2pool_repay ctx z now loan p =
     ebind (pool_liability_shares p (rp_borrower_account ctx) (rp_debt_bank ctx)) (\<lambda>account_shares_post.
     let burned = saturating_sub (pz_account_shares_pre z) account_shares_post;
         loan_shares_post = saturating_sub (pz_this_loan_shares z) burned in
     ebind (liability_shares_to_atoms_floor p (rp_debt_bank ctx) loan_shares_post) (\<lambda>loan_shares_post_atoms_floor.
     let did_full_repay = (loan_shares_post_atoms_floor \<le> 1);
         loan_remaining_shares = (if did_full_repay then 0 else loan_shares_post) in
     ebind (if did_full_repay then Inr 0
            else pool_liability_atoms_ceil p (rp_debt_bank ctx) loan_remaining_shares) (\<lambda>post_repay_outstanding_atoms.
     let loan' = loan\<lparr>ln_outstanding_debt_atoms := post_repay_outstanding_atoms,
                      ln_borrower_marginfi_borrow_shares := loan_remaining_shares, ln_last_accrued_unix := now\<rparr> in
     Inr (if did_full_repay then loan'\<lparr>ln_state := loan_state_u8 Repaid\<rparr> else loan', did_full_repay))))"

definition repay_p2pool ::
  "programs \<Rightarrow> repay_context \<Rightarrow> raw_rate_bank \<Rightarrow> raw_group \<Rightarrow> repay_params \<Rightarrow> int \<Rightarrow> market \<Rightarrow> global_vault option \<Rightarrow>
   loan_fixed \<Rightarrow> user_account \<Rightarrow> pool \<Rightarrow> repay_outcome res" where
  "repay_p2pool pg ctx rb rg params now m v loan u p =
     ebind (size_p2pool_repay pg ctx rb rg params now loan p) (\<lambda>z.
     ebind (pay_p2pool pg ctx z p) (\<lambda>p1.
     ebind (book_p2pool_repay ctx z now loan p1) (\<lambda>(loan', did_full_repay).
     ebind (sync_signer_market_position m (rp_market_key ctx) u (rp_payer ctx)) (\<lambda>u1.
     if did_full_repay then
       ebind (return_collateral m (ln_borrower_seat_index loan) (ln_collateral_atoms loan)
                (ln_borrower_collateral_share_price_snapshot_fp48 loan)) (\<lambda>m1.
       ebind (retire_borrow m1 (ln_borrower_seat_index loan)) (\<lambda>m2.
       ebind (drop_open_loan_ref u1 (rp_loan_key ctx)) (\<lambda>u2.
       Inr (m2, v, None, u2, p1))))
     else Inr (m, v, Some loan', u1, p1)))))"

section \<open>Fixed loans\<close>

definition repay_fixed ::
  "programs \<Rightarrow> repay_context \<Rightarrow> repay_params \<Rightarrow> int \<Rightarrow> market \<Rightarrow> global_vault option \<Rightarrow>
   loan_fixed \<Rightarrow> user_account \<Rightarrow> pool \<Rightarrow> repay_outcome res" where
  "repay_fixed pg ctx params now m v loan u p =
     ebind (sized_repay params (ln_outstanding_debt_atoms loan)) (\<lambda>repay_atoms.
     ebind (pg_transfer pg (rp_borrower_token ctx) (rp_vault ctx) repay_atoms p) (\<lambda>p1.
     ebind (adapter_deposit pg (marginfi_accounts ctx (rp_lender_account ctx)) repay_atoms p1) (\<lambda>(p2, credited_shares).
     ebind (apply_partial_resolution loan repay_atoms) (\<lambda>(loan1, portions).
     let did_full_repay = (ln_outstanding_debt_atoms loan1 = 0);
         loan2 = (if did_full_repay then loan1\<lparr>ln_state := loan_state_u8 Repaid\<rparr> else loan1) in
     ebind (if did_full_repay \<and> 0 < ln_accumulated_protocol_fee_atoms loan
            then amount_to_asset_shares pg p2 (rp_debt_bank ctx) (ln_accumulated_protocol_fee_atoms loan)
            else Inr 0) (\<lambda>protocol_fee_shares.
     let lender_claim_shares = saturating_sub credited_shares protocol_fee_shares in
     ebind (credit_lender m (ln_lender_seat_index loan) protocol_fee_shares lender_claim_shares did_full_repay) (\<lambda>m1.
     ebind (if did_full_repay then
              ebind (return_collateral m1 (ln_borrower_seat_index loan) (ln_collateral_atoms loan)
                       (ln_borrower_collateral_share_price_snapshot_fp48 loan)) (\<lambda>m2.
              retire_borrow m2 (ln_borrower_seat_index loan))
            else Inr m1) (\<lambda>m2.
     ebind (if did_full_repay then ebind (retire_on_vault v p2 (rp_debt_bank ctx) now loan) (\<lambda>v'. Inr (Some v')) else Inr v) (\<lambda>v1.
     ebind (sync_signer_market_position m2 (rp_market_key ctx) u (rp_payer ctx)) (\<lambda>u1.
     if did_full_repay then
       ebind (drop_open_loan_ref u1 (rp_loan_key ctx)) (\<lambda>u2. Inr (m2, v1, None, u2, p2))
     else Inr (m2, v1, Some loan2, u1, p2))))))))))"

section \<open>The instruction\<close>

definition process_repay ::
  "programs \<Rightarrow> repay_context \<Rightarrow> global_config \<Rightarrow> raw_rate_bank \<Rightarrow> raw_group \<Rightarrow> repay_params \<Rightarrow> int \<Rightarrow> market \<Rightarrow>
   global_vault option \<Rightarrow> loan_fixed \<Rightarrow> user_account \<Rightarrow> pool \<Rightarrow> repay_outcome res" where
  "process_repay pg ctx gc rb rg params now m v loan u p =
     ebind (require_global_not_paused gc) (\<lambda>_.
     ebind (require_market_not_paused m) (\<lambda>_.
     ebind (ln_loan_type_of loan) (\<lambda>lt.
     ebind (if lt = Fixed then ebind (ok_or v NotEnoughAccountKeys) require_vault_not_paused else Inr ()) (\<lambda>_.
     ebind (require (ln_state loan \<noteq> loan_state_u8 Repaid) (Custom InvalidArgument)) (\<lambda>_.
     ebind (accrue_loan loan now) (\<lambda>header.
     ebind (get_helper_seat m (ln_borrower_seat_index header)) (\<lambda>seat.
     ebind (require (cs_owner seat = rp_payer ctx) (Custom OrderNotOwnedBySigner)) (\<lambda>_.
     if lt = P2Pool then repay_p2pool pg ctx rb rg params now m v header u p
     else repay_fixed pg ctx params now m v header u p))))))))"

section \<open>What a repayment keeps\<close>

lemma repay_p2pool_keeps:
  assumes ok: "market_ok m" and b: "backed (\<lambda>j. ext j + loan_lock loan j) m" and c: "ln_collateral_atoms loan < u64_lim"
    and r: "repay_p2pool pg ctx rb rg params now m v loan u p = Inr (m', v', slot', u', p')"
  shows "market_ok m' \<and> backed (\<lambda>j. ext j + slot_lock slot' j) m'"
proof -
  obtain z p1 loan' full u1 where bk: "book_p2pool_repay ctx z now loan p1 = Inr (loan', full)"
    and k: "(if full then
       ebind (return_collateral m (ln_borrower_seat_index loan) (ln_collateral_atoms loan)
                (ln_borrower_collateral_share_price_snapshot_fp48 loan)) (\<lambda>m1.
       ebind (retire_borrow m1 (ln_borrower_seat_index loan)) (\<lambda>m2.
       ebind (drop_open_loan_ref u1 (rp_loan_key ctx)) (\<lambda>u2.
       Inr (m2, v, None, u2, p1))))
     else Inr (m, v, Some loan', u1, p1)) = Inr (m', v', slot', u', p')"
    using r unfolding repay_p2pool_def by (elim ebind_InrE) (simp split: prod.splits, elim ebind_InrE, simp)
  show ?thesis
  proof (cases full)
    case True
    then obtain m1 where m1: "return_collateral m (ln_borrower_seat_index loan) (ln_collateral_atoms loan)
        (ln_borrower_collateral_share_price_snapshot_fp48 loan) = Inr m1"
      and m2: "retire_borrow m1 (ln_borrower_seat_index loan) = Inr m'" and s: "slot' = None"
      using k by (auto elim!: ebind_InrE)
    have "market_ok m1 \<and> backed ext m1" by (rule return_collateral_keeps[OF ok b[unfolded loan_lock_def] c m1])
    then have "market_ok m' \<and> backed ext m'" using retire_borrow_keeps m2 by blast
    then show ?thesis using s by simp
  next
    case False
    then have "m' = m" "slot' = Some loan'" using k by simp_all
    moreover have "loan_lock loan' = loan_lock loan"
      using bk by (auto simp: book_p2pool_repay_def loan_lock_def Let_def elim!: ebind_InrE)
    ultimately show ?thesis using ok b by simp
  qed
qed

lemma repay_fixed_Inr:
  assumes "repay_fixed pg ctx params now m v loan u p = Inr (m', v', slot', u', p')"
  obtains a p1 p2 cr loan1 portions fee m1 where "sized_repay params (ln_outstanding_debt_atoms loan) = Inr a"
    "pg_transfer pg (rp_borrower_token ctx) (rp_vault ctx) a p = Inr p1"
    "adapter_deposit pg (marginfi_accounts ctx (rp_lender_account ctx)) a p1 = Inr (p2, cr)"
    "apply_partial_resolution loan a = Inr (loan1, portions)"
    "credit_lender m (ln_lender_seat_index loan) fee (cr - fee) (ln_outstanding_debt_atoms loan1 = 0) = Inr m1"
    "ln_outstanding_debt_atoms loan1 = 0 \<and> slot' = None \<and> (\<exists>m2 v1. return_collateral m1 (ln_borrower_seat_index loan) (ln_collateral_atoms loan)
       (ln_borrower_collateral_share_price_snapshot_fp48 loan) = Inr m2 \<and> retire_borrow m2 (ln_borrower_seat_index loan) = Inr m' \<and>
       retire_on_vault v p2 (rp_debt_bank ctx) now loan = Inr v1 \<and> v' = Some v1) \<or>
     0 < ln_outstanding_debt_atoms loan1 \<and> slot' = Some loan1 \<and> m' = m1 \<and> v' = v"
proof -
  obtain a p1 p2 cr loan1 portions fee m1 m2 v1 u1 where x: "sized_repay params (ln_outstanding_debt_atoms loan) = Inr a"
    "pg_transfer pg (rp_borrower_token ctx) (rp_vault ctx) a p = Inr p1"
    "adapter_deposit pg (marginfi_accounts ctx (rp_lender_account ctx)) a p1 = Inr (p2, cr)"
    "apply_partial_resolution loan a = Inr (loan1, portions)"
    "credit_lender m (ln_lender_seat_index loan) fee (cr - fee) (ln_outstanding_debt_atoms loan1 = 0) = Inr m1"
    and y: "(if ln_outstanding_debt_atoms loan1 = 0 then
              ebind (return_collateral m1 (ln_borrower_seat_index loan) (ln_collateral_atoms loan)
                       (ln_borrower_collateral_share_price_snapshot_fp48 loan)) (\<lambda>m2.
              retire_borrow m2 (ln_borrower_seat_index loan))
            else Inr m1) = Inr m2"
      "(if ln_outstanding_debt_atoms loan1 = 0 then ebind (retire_on_vault v p2 (rp_debt_bank ctx) now loan) (\<lambda>v'. Inr (Some v')) else Inr v) = Inr v1"
      "(if ln_outstanding_debt_atoms loan1 = 0 then
       ebind (drop_open_loan_ref u1 (rp_loan_key ctx)) (\<lambda>u2. Inr (m2, v1, None, u2, p2))
     else Inr (m2, v1, Some (if ln_outstanding_debt_atoms loan1 = 0 then loan1\<lparr>ln_state := loan_state_u8 Repaid\<rparr> else loan1), u1, p2))
       = Inr (m', v', slot', u', p')"
    using assms unfolding repay_fixed_def Let_def saturating_sub_minus
    by (elim ebind_InrE) (simp only: split_paired_all prod.case, elim ebind_InrE, simp only: split_paired_all prod.case, elim ebind_InrE, rule that; assumption)
  show thesis
    by (rule that[OF x]) (cases "ln_outstanding_debt_atoms loan1 = 0"; use y in \<open>auto elim!: ebind_InrE\<close>)
qed

lemma repay_fixed_keeps:
  assumes ok: "market_ok m" and b: "backed (\<lambda>j. ext j + loan_lock loan j) m" and c: "ln_collateral_atoms loan < u64_lim"
    and r: "repay_fixed pg ctx params now m v loan u p = Inr (m', v', slot', u', p')"
  shows "market_ok m' \<and> backed (\<lambda>j. ext j + slot_lock slot' j) m'"
proof -
  obtain a loan1 portions cl fee m1 v1 p2 where res: "apply_partial_resolution loan a = Inr (loan1, portions)"
    and cr: "credit_lender m (ln_lender_seat_index loan) fee cl (ln_outstanding_debt_atoms loan1 = 0) = Inr m1"
    and cs: "ln_outstanding_debt_atoms loan1 = 0 \<and> slot' = None \<and> (\<exists>m2 v1. return_collateral m1 (ln_borrower_seat_index loan) (ln_collateral_atoms loan)
       (ln_borrower_collateral_share_price_snapshot_fp48 loan) = Inr m2 \<and> retire_borrow m2 (ln_borrower_seat_index loan) = Inr m' \<and>
       retire_on_vault v p2 (rp_debt_bank ctx) now loan = Inr v1 \<and> v' = Some v1) \<or>
     0 < ln_outstanding_debt_atoms loan1 \<and> slot' = Some loan1 \<and> m' = m1 \<and> v' = v"
    using repay_fixed_Inr[OF r] by metis
  have k: "market_ok m1" "backed (\<lambda>j. ext j + loan_lock loan j) m1" using credit_lender_keeps[OF ok b cr] by blast+
  from cs show ?thesis
  proof (elim disjE conjE exE)
    fix m2 v2 assume s: "slot' = None" and m2: "return_collateral m1 (ln_borrower_seat_index loan) (ln_collateral_atoms loan)
       (ln_borrower_collateral_share_price_snapshot_fp48 loan) = Inr m2" "retire_borrow m2 (ln_borrower_seat_index loan) = Inr m'"
    have "market_ok m2 \<and> backed ext m2" by (rule return_collateral_keeps[OF k(1) k(2)[unfolded loan_lock_def] c m2(1)])
    then have "market_ok m' \<and> backed ext m'" using retire_borrow_keeps m2(2) by blast
    then show ?thesis using s by simp
  next
    assume "slot' = Some loan1" "m' = m1"
    moreover have "loan_lock loan1 = loan_lock loan" using resolution_terms[OF res] same_terms_lock by metis
    ultimately show ?thesis using k by simp
  qed
qed

lemma process_repay_Inr:
  assumes "process_repay pg ctx gc rb rg params now m v loan u p = Inr (m', v', slot', u', p')"
  obtains header seat where "accrue_loan loan now = Inr header" "get_helper_seat m (ln_borrower_seat_index header) = Inr seat"
    "cs_owner seat = rp_payer ctx" "ln_state loan \<noteq> loan_state_u8 Repaid"
    "ln_loan_type_of loan = Inr P2Pool \<and> repay_p2pool pg ctx rb rg params now m v header u p = Inr (m', v', slot', u', p') \<or>
     ln_loan_type_of loan = Inr Fixed \<and> repay_fixed pg ctx params now m v header u p = Inr (m', v', slot', u', p')"
proof -
  obtain lt header seat where x: "ln_loan_type_of loan = Inr lt" "accrue_loan loan now = Inr header"
    "get_helper_seat m (ln_borrower_seat_index header) = Inr seat"
    "cs_owner seat = rp_payer ctx" "ln_state loan \<noteq> loan_state_u8 Repaid"
    and y: "(if lt = P2Pool then repay_p2pool pg ctx rb rg params now m v header u p
     else repay_fixed pg ctx params now m v header u p) = Inr (m', v', slot', u', p')"
    using assms unfolding process_repay_def by (elim ebind_InrE) (simp add: require_Inr)
  show thesis by (rule that[OF x(2-5)]) (use x(1) y in \<open>cases lt; simp\<close>)
qed

lemma process_repay_keeps:
  assumes ok: "market_ok m" and b: "backed (\<lambda>j. ext j + loan_lock loan j) m" and c: "ln_collateral_atoms loan < u64_lim"
    and r: "process_repay pg ctx gc rb rg params now m v loan u p = Inr (m', v', slot', u', p')"
  shows "market_ok m' \<and> backed (\<lambda>j. ext j + slot_lock slot' j) m'"
proof -
  obtain header where h: "accrue_loan loan now = Inr header"
    and cs: "ln_loan_type_of loan = Inr P2Pool \<and> repay_p2pool pg ctx rb rg params now m v header u p = Inr (m', v', slot', u', p') \<or>
     ln_loan_type_of loan = Inr Fixed \<and> repay_fixed pg ctx params now m v header u p = Inr (m', v', slot', u', p')"
    using process_repay_Inr[OF r] by metis
  have t: "same_terms loan header" by (rule accrue_loan_terms[OF h])
  have c': "ln_collateral_atoms header < u64_lim" using c t by (simp add: same_terms_def)
  have b': "backed (\<lambda>j. ext j + loan_lock header j) m" using b same_terms_lock[OF t] by simp
  from cs show ?thesis by (elim disjE conjE) (rule repay_p2pool_keeps[OF ok b' c'] repay_fixed_keeps[OF ok b' c'], assumption)+
qed

section \<open>A full repayment\<close>

lemma sized_full: "sized_repay params live = Inr a \<Longrightarrow> rq_full_repay params \<Longrightarrow> a = live"
  by (simp add: sized_repay_def)

lemma repay_fixed_full:
  assumes full: "rq_full_repay params" and c: "ln_collateral_atoms loan < u64_lim"
    and r: "repay_fixed pg ctx params now m v loan u p = Inr (m', v', slot', u', p')"
  shows "slot' = None \<and> (\<exists>p1. pg_transfer pg (rp_borrower_token ctx) (rp_vault ctx) (ln_outstanding_debt_atoms loan) p = Inr p1) \<and>
    (let lock = locked_shares (ln_collateral_atoms loan) (ln_borrower_collateral_share_price_snapshot_fp48 loan) in
     \<exists>w e. seat_collateral m (ln_borrower_seat_index loan) = Some (w, e) \<and> lock \<le> e \<and>
       seat_collateral m' (ln_borrower_seat_index loan) = Some (w + lock, e - lock)) \<and>
    (\<exists>v0 v1 sv sv'. v = Some v0 \<and> v' = Some v1 \<and>
       get_sub_vault v0 (sub_vault_index v0 (ln_lender_sub_vault_id loan)) = Inr sv \<and>
       v1 = set_sub_vault v0 (sub_vault_index v0 (ln_lender_sub_vault_id loan)) sv' \<and>
       sv_deployed_principal_atoms sv' + ln_principal_debt_atoms loan = sv_deployed_principal_atoms sv \<and>
       sv_open_loans_count sv' + 1 = sv_open_loans_count sv \<and>
       sv_pending_claim_atoms sv' = sv_pending_claim_atoms sv + ln_lender_claimable_atoms loan)"
proof -
  obtain a p1 p2 cr loan1 portions fee m1 where x: "sized_repay params (ln_outstanding_debt_atoms loan) = Inr a"
    "pg_transfer pg (rp_borrower_token ctx) (rp_vault ctx) a p = Inr p1"
    "apply_partial_resolution loan a = Inr (loan1, portions)"
    "credit_lender m (ln_lender_seat_index loan) fee (cr - fee) (ln_outstanding_debt_atoms loan1 = 0) = Inr m1"
    and cs: "ln_outstanding_debt_atoms loan1 = 0 \<and> slot' = None \<and> (\<exists>m2 v1. return_collateral m1 (ln_borrower_seat_index loan) (ln_collateral_atoms loan)
       (ln_borrower_collateral_share_price_snapshot_fp48 loan) = Inr m2 \<and> retire_borrow m2 (ln_borrower_seat_index loan) = Inr m' \<and>
       retire_on_vault v p2 (rp_debt_bank ctx) now loan = Inr v1 \<and> v' = Some v1) \<or>
     0 < ln_outstanding_debt_atoms loan1 \<and> slot' = Some loan1 \<and> m' = m1 \<and> v' = v"
    using repay_fixed_Inr[OF r] by metis
  have a: "a = ln_outstanding_debt_atoms loan" by (rule sized_full[OF x(1) full])
  then have z: "ln_outstanding_debt_atoms loan1 = 0" using resolution_terms[OF x(3)] by simp
  then obtain m2 v1 where s: "slot' = None" "v' = Some v1" and m2: "return_collateral m1 (ln_borrower_seat_index loan) (ln_collateral_atoms loan)
       (ln_borrower_collateral_share_price_snapshot_fp48 loan) = Inr m2" "retire_borrow m2 (ln_borrower_seat_index loan) = Inr m'"
    and v1: "retire_on_vault v p2 (rp_debt_bank ctx) now loan = Inr v1" using cs by auto
  have seats: "let lock = locked_shares (ln_collateral_atoms loan) (ln_borrower_collateral_share_price_snapshot_fp48 loan) in
     \<exists>w e. seat_collateral m (ln_borrower_seat_index loan) = Some (w, e) \<and> lock \<le> e \<and>
       seat_collateral m' (ln_borrower_seat_index loan) = Some (w + lock, e - lock)"
    using return_collateral_moves[OF c m2(1) retire_borrow_seat[OF m2(2)]]
    by (simp add: Let_def credit_lender_collateral[OF x(4)] retire_borrow_collateral[OF m2(2)])
  obtain v0 sv sv' cv where "v = Some v0" "get_sub_vault v0 (sub_vault_index v0 (ln_lender_sub_vault_id loan)) = Inr sv"
    "retire_on_sub_vault sv now cv loan = Inr sv'" "v1 = set_sub_vault v0 (sub_vault_index v0 (ln_lender_sub_vault_id loan)) sv'"
    by (rule retire_on_vault_Inr[OF v1])
  then have "\<exists>v0 v1 sv sv'. v = Some v0 \<and> v' = Some v1 \<and>
       get_sub_vault v0 (sub_vault_index v0 (ln_lender_sub_vault_id loan)) = Inr sv \<and>
       v1 = set_sub_vault v0 (sub_vault_index v0 (ln_lender_sub_vault_id loan)) sv' \<and>
       sv_deployed_principal_atoms sv' + ln_principal_debt_atoms loan = sv_deployed_principal_atoms sv \<and>
       sv_open_loans_count sv' + 1 = sv_open_loans_count sv \<and>
       sv_pending_claim_atoms sv' = sv_pending_claim_atoms sv + ln_lender_claimable_atoms loan"
    using retire_counts s(2) by blast
  then show ?thesis using s(1) x(2) a seats by blast
qed

text \<open>C26. A successful full repayment of a fixed loan settles it on both sides: the borrower pays exactly the debt
  accrued to now, the loan account is closed, the collateral lock of the loan leaves the encumbered
  balance of the borrower's seat and arrives, to the share, in the withdrawable balance, and on the
  lending sub-vault the principal leaves the deployed atoms, one open loan is retired and the
  lender's claim becomes pending. Of a well-formed market whose locks are backed, the market that
  remains is well formed and the locks of all other loans and bids are still backed.\<close>

theorem full_repayment_settles_loan:
  assumes ok: "market_ok m" and b: "backed (\<lambda>j. ext j + loan_lock loan j) m"
    and c: "ln_collateral_atoms loan < u64_lim" and full: "rq_full_repay params" and f: "ln_loan_type_of loan = Inr Fixed"
    and r: "process_repay pg ctx gc rb rg params now m v loan u p = Inr (m', v', slot', u', p')"
  shows "\<exists>header w e v0 v1 sv sv'. accrue_loan loan now = Inr header \<and> slot' = None \<and>
    is_ok (pg_transfer pg (rp_borrower_token ctx) (rp_vault ctx) (ln_outstanding_debt_atoms header) p) \<and>
    seat_collateral m (ln_borrower_seat_index loan) = Some (w, e) \<and>
    locked_shares (ln_collateral_atoms loan) (ln_borrower_collateral_share_price_snapshot_fp48 loan) \<le> e \<and>
    seat_collateral m' (ln_borrower_seat_index loan) =
      Some (w + locked_shares (ln_collateral_atoms loan) (ln_borrower_collateral_share_price_snapshot_fp48 loan),
            e - locked_shares (ln_collateral_atoms loan) (ln_borrower_collateral_share_price_snapshot_fp48 loan)) \<and>
    v = Some v0 \<and> v' = Some v1 \<and>
    get_sub_vault v0 (sub_vault_index v0 (ln_lender_sub_vault_id loan)) = Inr sv \<and>
    v1 = set_sub_vault v0 (sub_vault_index v0 (ln_lender_sub_vault_id loan)) sv' \<and>
    sv_deployed_principal_atoms sv' + ln_principal_debt_atoms loan = sv_deployed_principal_atoms sv \<and>
    sv_open_loans_count sv' + 1 = sv_open_loans_count sv \<and>
    sv_pending_claim_atoms sv' = sv_pending_claim_atoms sv + ln_lender_claimable_atoms header \<and>
    market_ok m' \<and> backed ext m'"
proof -
  obtain header where h: "accrue_loan loan now = Inr header"
    and rf: "repay_fixed pg ctx params now m v header u p = Inr (m', v', slot', u', p')"
    by (rule process_repay_Inr[OF r]) (use f in auto)
  have t: "same_terms loan header" by (rule accrue_loan_terms[OF h])
  then have e: "ln_collateral_atoms header = ln_collateral_atoms loan" "ln_borrower_seat_index header = ln_borrower_seat_index loan"
    "ln_borrower_collateral_share_price_snapshot_fp48 header = ln_borrower_collateral_share_price_snapshot_fp48 loan"
    "ln_lender_sub_vault_id header = ln_lender_sub_vault_id loan" "ln_principal_debt_atoms header = ln_principal_debt_atoms loan"
    by (simp_all add: same_terms_def lent_of_def)
  note s = repay_fixed_full[OF full _ rf, unfolded e Let_def, OF c]
  have "slot' = None" using s by blast
  then have k: "market_ok m' \<and> backed ext m'" using process_repay_keeps[OF ok b c r] by simp
  show ?thesis using s h k by (auto simp: is_ok_iff)
qed

text \<open>The loan of 1000 atoms repaid at once.\<close>

definition closing_context :: repay_context where
  "closing_context = \<lparr> rp_payer = 7, rp_market_key = 3, rp_loan_key = 50, rp_borrower_token = 30, rp_vault = 22,
     rp_group = 10, rp_lender_account = 23, rp_borrower_account = 24, rp_market_signer = 25, rp_debt_bank = 1,
     rp_liquidity_vault = 15, rp_token_program = 16, rp_marginfi_program = 99 \<rparr>"

definition repay_all_params :: repay_params where
  "repay_all_params = \<lparr> rq_repay_atoms = 0, rq_full_repay = True \<rparr>"

lemma closing_deposit:
  "\<exists>p1 p2. pg_transfer sample_programs 30 22 1000 sample_pool = Inr p1 \<and>
     adapter_deposit sample_programs (marginfi_accounts closing_context 23) 1000 p1 = Inr (p2, 1000 * SCALE) \<and>
     pl_banks p2 1 = sample_bank"
  by (simp add: sample_eval adapter_deposit_def marginfi_accounts_def closing_context_def check_accounts_def
      DEPOSIT_EXPLICIT_ACCOUNTS_def borrow_bank_def read_asset_shares_u128_def borrow_marginfi_account_def
      wrapped_i80f48_to_u128_def SCALE_def cong: ebind_weak_cong)

lemma closing_resolution:
  "\<exists>l1 r. apply_partial_resolution thousand_loan 1000 = Inr (l1, r) \<and> ln_outstanding_debt_atoms l1 = 0"
  by (simp add: thousand_loan_def loan_eval cong: ebind_weak_cong)

lemma closing_market_steps:
  "\<exists>m1 m2 m3. credit_lender closing_market 160 0 (1000 * SCALE) True = Inr m1 \<and>
     return_collateral m1 0 5000 SCALE = Inr m2 \<and> retire_borrow m2 0 = Inr m3 \<and>
     (\<exists>u1 u2. sync_signer_market_position m3 3 closing_user 7 = Inr u1 \<and> drop_open_loan_ref u1 50 = Inr u2)"
  by (simp add: credit_lender_def closing_market_def example_defs NIL_def get_helper_seat_def tree_get_def checked_add_def checked_sub_def
      lim_defs SCALE_def set_seat_def tree_update_def return_collateral_def atoms_to_shares_at_snapshot_def fp48_is_zero_def
      fp48_checked_div_def from_atoms_eq div_scale_eq release_loan_collateral_def retire_borrow_def sync_signer_market_position_def
      seat_lookup_def claimed_seat_cmp_def cmp_nat_def OWNER_KIND_USER_def upsert_market_position_def closing_user_def ua_new_empty_def
      get_free_address_on_user_account_fixed_def stack_remove_def write_market_position_from_seat_def get_market_position_def
      drop_open_loan_ref_def remove_open_loan_def cong: ebind_weak_cong)

lemma closing_run:
  "\<exists>m' v' u' p'. process_repay sample_programs closing_context (gc_new_empty 1) rb rg repay_all_params 10 closing_market
     (Some closing_vaults) thousand_loan closing_user sample_pool = Inr (m', v', None, u', p')"
proof -
  obtain p1 p2 where d: "pg_transfer sample_programs 30 22 1000 sample_pool = Inr p1"
     "adapter_deposit sample_programs (marginfi_accounts closing_context 23) 1000 p1 = Inr (p2, 1000 * SCALE)"
     and bk: "pl_banks p2 1 = sample_bank" using closing_deposit by blast
  obtain l1 res where res: "apply_partial_resolution thousand_loan 1000 = Inr (l1, res)" "ln_outstanding_debt_atoms l1 = 0"
    using closing_resolution by blast
  obtain m1 m2 m3 u1 u2 where m: "credit_lender closing_market 160 0 (1000 * SCALE) True = Inr m1"
     "return_collateral m1 0 5000 SCALE = Inr m2" "retire_borrow m2 0 = Inr m3"
     "sync_signer_market_position m3 3 closing_user 7 = Inr u1" "drop_open_loan_ref u1 50 = Inr u2"
    using closing_market_steps by blast
  obtain v1 where v: "retire_on_vault (Some closing_vaults) p2 1 10 thousand_loan = Inr v1"
    using closing_retires[where q = p2 and b = 1] bk by blast
  have t: "ln_outstanding_debt_atoms thousand_loan = 1000" "ln_accumulated_protocol_fee_atoms thousand_loan = 0"
    "ln_lender_seat_index thousand_loan = 160" "ln_borrower_seat_index thousand_loan = 0" "ln_collateral_atoms thousand_loan = 5000"
    "ln_borrower_collateral_share_price_snapshot_fp48 thousand_loan = SCALE" "ln_loan_type_of thousand_loan = Inr Fixed"
    "ln_state thousand_loan \<noteq> 3" "accrue_loan thousand_loan 10 = Inr thousand_loan"
    by (simp_all add: thousand_loan_def new_from_matched_loan_with_lender_def ln_loan_type_of_def loan_type_from_u8_def accrue_loan_def)
  have c: "rp_borrower_token closing_context = 30" "rp_vault closing_context = 22" "rp_lender_account closing_context = 23"
    "rp_debt_bank closing_context = 1" "rp_market_key closing_context = 3" "rp_payer closing_context = 7" "rp_loan_key closing_context = 50"
    by (simp_all add: closing_context_def)
  have f: "repay_fixed sample_programs closing_context repay_all_params 10 closing_market (Some closing_vaults) thousand_loan
      closing_user sample_pool = Inr (m3, Some v1, None, u2, p2)"
    by (simp add: repay_fixed_def sized_repay_def repay_all_params_def t c d[unfolded One_nat_def] res m v[unfolded One_nat_def] v Let_def
        del: One_nat_def cong: ebind_weak_cong)
  have g: "mk_is_paused closing_market = 0" "gv_is_paused closing_vaults = 0"
    "\<exists>s. get_helper_seat closing_market 0 = Inr s \<and> cs_owner s = 7"
    by (simp_all add: closing_market_def closing_vaults_def example_defs get_helper_seat_def tree_get_def)
  then obtain s where s: "get_helper_seat closing_market 0 = Inr s" "cs_owner s = 7" by blast
  show ?thesis
    by (simp add: process_repay_def t c f s g require_global_not_paused_def require_market_not_paused_def
        require_vault_not_paused_def gc_new_empty_def del: One_nat_def cong: ebind_weak_cong)
qed

lemma full_repayment_settles_loan_witness:
  "\<exists>m' v' u' p' w e. process_repay sample_programs closing_context (gc_new_empty 1) example_rate_bank example_group
       repay_all_params 10 closing_market (Some closing_vaults) thousand_loan closing_user sample_pool = Inr (m', v', None, u', p') \<and>
     seat_collateral m' 0 = Some (w, e) \<and> w = 5000 * SCALE \<and> market_ok m'"
proof -
  obtain m' v' u' p' where r: "process_repay sample_programs closing_context (gc_new_empty 1) example_rate_bank example_group
       repay_all_params 10 closing_market (Some closing_vaults) thousand_loan closing_user sample_pool = Inr (m', v', None, u', p')"
    using closing_run by blast
  have t: "ln_collateral_atoms thousand_loan = 5000" "ln_borrower_seat_index thousand_loan = 0" "ln_loan_type_of thousand_loan = Inr Fixed"
     "ln_borrower_collateral_share_price_snapshot_fp48 thousand_loan = SCALE"
    by (simp_all add: thousand_loan_def new_from_matched_loan_with_lender_def ln_loan_type_of_def loan_type_from_u8_def)
  have l: "locked_shares 5000 SCALE = 5000 * SCALE" by (simp add: locked_shares_def SCALE_def)
  have z: "seat_collateral closing_market 0 = Some (0, 5000 * SCALE)"
    by (simp add: seat_collateral_def closing_market_def example_defs tree_get_def)
  have n: "ln_collateral_atoms thousand_loan < u64_lim" "rq_full_repay repay_all_params"
    by (simp_all add: t repay_all_params_def lim_defs)
  have "seat_collateral m' 0 = Some (5000 * SCALE, 0) \<and> market_ok m'"
    using full_repayment_settles_loan[OF closing_market_ok closing_market_backed n t(3) r] by (auto simp: t l z)
  then show ?thesis using r by blast
qed

end
