(* ===== verification/Administration.thy ===== *)
theory Administration
  imports Loan_Books Guards
begin

text \<open>Creation and administration: sub-vaults (\<open>processor/create_sub_vault.rs\<close>, \<open>update_sub_vault.rs\<close>,
  \<open>sunset_sub_vault.rs\<close>, \<open>resume_sub_vault.rs\<close>, \<open>remove_sub_vault.rs\<close>), the fee configuration of a market
  (\<open>fee_config_helpers.rs\<close>, \<open>set_fee_config.rs\<close>), the creation of a market and of a vault
  (\<open>create_market.rs\<close>, \<open>create_vault.rs\<close>), the pause switches and the two-step transfers of control
  (\<open>admin_transfer.rs\<close>, \<open>global_config_admin.rs\<close>, \<open>set_market_pause.rs\<close>, \<open>set_vault_pause.rs\<close>). Every operation takes
  the key of the signer. What the runtime and the lending program do to create accounts is a parameter
  \<open>setup\<close>, the outcome of those calls.\<close>

section \<open>Risk parameters of a sub-vault\<close>

definition validate_sub_vault_risk_params :: "nat \<Rightarrow> nat \<Rightarrow> nat \<Rightarrow> unit res" where
  "validate_sub_vault_risk_params max_ltv_bps liquidation_ltv_bps max_term_seconds =
     ebind (require (0 < max_ltv_bps \<and> max_ltv_bps < 10000) (Custom SubVaultLtvOutOfRange)) (\<lambda>_.
     ebind (require (liquidation_ltv_bps \<le> 10000) (Custom SubVaultLtvOutOfRange)) (\<lambda>_.
     ebind (require (saturating_add u16_lim max_ltv_bps MIN_LIQ_GAP_BPS \<le> liquidation_ltv_bps) (Custom SubVaultLtvOutOfRange)) (\<lambda>_.
     require (0 < max_term_seconds) (Custom SubVaultTermInvalid))))"

record create_pool_params =
  cp_curator :: pubkey
  cp_spread_bps :: nat
  cp_max_ltv_bps :: nat
  cp_liquidation_ltv_bps :: nat
  cp_max_term_seconds :: nat
  cp_curator_fee_bps :: nat

record create_private_params =
  cv_spread_bps :: nat
  cv_max_ltv_bps :: nat
  cv_liquidation_ltv_bps :: nat
  cv_max_term_seconds :: nat

definition SUB_VAULT_KIND_POOL :: nat where "SUB_VAULT_KIND_POOL = 0"
definition SUB_VAULT_KIND_PRIVATE :: nat where "SUB_VAULT_KIND_PRIVATE = 1"

definition append_sub_vault ::
  "global_vault \<Rightarrow> nat \<Rightarrow> pubkey \<Rightarrow> nat \<Rightarrow> nat \<Rightarrow> nat \<Rightarrow> nat \<Rightarrow> nat \<Rightarrow> global_vault res" where
  "append_sub_vault v kind curator spread max_ltv_bps liquidation_ltv_bps max_term_seconds curator_fee_bps =
     ebind (if has_free_sub_vault_block v then Inr v else vault_expand_sub_vault_block v) (\<lambda>v1.
     let assigned_sub_vault_id = gv_next_sub_vault_id v1 in
     ebind (ok_or (checked_add u16_lim (gv_next_sub_vault_id v1) 1) (Custom SubVaultIdExists)) (\<lambda>n.
     let (order_index, v2) = get_free_sub_vault_address_on_vault_fixed (v1\<lparr>gv_next_sub_vault_id := n\<rparr>) in
     ebind (require (order_index \<noteq> NIL) AccountDataTooSmall) (\<lambda>_.
     let s = (sv_new_empty assigned_sub_vault_id curator max_ltv_bps max_term_seconds)\<lparr>sv_kind := kind,
               sv_spread_bps := spread, sv_liquidation_ltv_bps := liquidation_ltv_bps,
               sv_curator_fee_bps := curator_fee_bps\<rparr>;
         v3 = v2\<lparr>gv_sub_vaults := tree_insert sub_vault_cmp order_index s (gv_sub_vaults v2)\<rparr> in
     ebind (ok_or (checked_add u16_lim (gv_sub_vault_count v3) 1) ArithmeticOverflow) (\<lambda>c.
     Inr (v3\<lparr>gv_sub_vault_count := c\<rparr>)))))"

definition process_create_pool_sub_vault ::
  "global_config \<Rightarrow> pubkey \<Rightarrow> create_pool_params \<Rightarrow> global_vault \<Rightarrow> global_vault res" where
  "process_create_pool_sub_vault gc payer params v =
     ebind (require_global_not_paused gc) (\<lambda>_.
     ebind (require_vault_not_paused v) (\<lambda>_.
     ebind (require (payer = gc_protocol_admin gc) (Custom ProtocolAdminRequired)) (\<lambda>_.
     ebind (validate_sub_vault_risk_params (cp_max_ltv_bps params) (cp_liquidation_ltv_bps params) (cp_max_term_seconds params)) (\<lambda>_.
     ebind (require (cp_curator_fee_bps params \<le> MAX_CURATOR_FEE_BPS) (Custom InvalidArgument)) (\<lambda>_.
     ebind (require (cp_curator params \<noteq> default_pubkey) (Custom InvalidArgument)) (\<lambda>_.
     append_sub_vault v SUB_VAULT_KIND_POOL (cp_curator params) (cp_spread_bps params) (cp_max_ltv_bps params)
       (cp_liquidation_ltv_bps params) (cp_max_term_seconds params) (cp_curator_fee_bps params)))))))"

definition process_create_private_sub_vault ::
  "global_config \<Rightarrow> pubkey \<Rightarrow> create_private_params \<Rightarrow> global_vault \<Rightarrow> global_vault res" where
  "process_create_private_sub_vault gc payer params v =
     ebind (require_global_not_paused gc) (\<lambda>_.
     ebind (require_vault_not_paused v) (\<lambda>_.
     ebind (validate_sub_vault_risk_params (cv_max_ltv_bps params) (cv_liquidation_ltv_bps params) (cv_max_term_seconds params)) (\<lambda>_.
     append_sub_vault v SUB_VAULT_KIND_PRIVATE payer (cv_spread_bps params) (cv_max_ltv_bps params)
       (cv_liquidation_ltv_bps params) (cv_max_term_seconds params) 0)))"

record update_sub_vault_params =
  up_sub_vault_id :: nat
  up_new_max_ltv_bps :: "nat option"
  up_new_liquidation_ltv_bps :: "nat option"
  up_new_max_term_seconds :: "nat option"
  up_new_spread_bps :: "nat option"

definition unwrap_or :: "'a option \<Rightarrow> 'a \<Rightarrow> 'a" where
  "unwrap_or x d = (case x of None \<Rightarrow> d | Some y \<Rightarrow> y)"

definition update_on_sub_vault :: "pubkey \<Rightarrow> update_sub_vault_params \<Rightarrow> sub_vault \<Rightarrow> sub_vault res" where
  "update_on_sub_vault payer params s =
     ebind (require (sv_curator s = payer) (Custom VaultCuratorRequired)) (\<lambda>_.
     ebind (require (sv_is_sunset s = 0) (Custom SubVaultSunset)) (\<lambda>_.
     let next_max_ltv = unwrap_or (up_new_max_ltv_bps params) (sv_max_ltv_bps s);
         next_liq_ltv = unwrap_or (up_new_liquidation_ltv_bps params) (sv_liquidation_ltv_bps s);
         next_term = unwrap_or (up_new_max_term_seconds params) (sv_max_term_seconds s) in
     ebind (validate_sub_vault_risk_params next_max_ltv next_liq_ltv next_term) (\<lambda>_.
     Inr (s\<lparr>sv_max_ltv_bps := next_max_ltv, sv_liquidation_ltv_bps := next_liq_ltv, sv_max_term_seconds := next_term,
            sv_spread_bps := unwrap_or (up_new_spread_bps params) (sv_spread_bps s)\<rparr>))))"

definition process_update_sub_vault ::
  "global_config \<Rightarrow> pubkey \<Rightarrow> update_sub_vault_params \<Rightarrow> global_vault \<Rightarrow> global_vault res" where
  "process_update_sub_vault gc payer params v =
     ebind (require_global_not_paused gc) (\<lambda>_.
     ebind (require_vault_not_paused v) (\<lambda>_.
     on_sub_vault v (up_sub_vault_id params) (update_on_sub_vault payer params)))"

section \<open>The end of a sub-vault\<close>

definition process_sunset_sub_vault :: "pubkey \<Rightarrow> nat \<Rightarrow> global_vault \<Rightarrow> global_vault res" where
  "process_sunset_sub_vault payer sub_vault_id v =
     ebind (require (payer = gv_global_vault_admin v) (Custom VaultAdminRequired)) (\<lambda>_.
     on_sub_vault v sub_vault_id (\<lambda>s. Inr (s\<lparr>sv_is_sunset := 1\<rparr>)))"

definition process_resume_sub_vault :: "pubkey \<Rightarrow> nat \<Rightarrow> global_vault \<Rightarrow> global_vault res" where
  "process_resume_sub_vault payer sub_vault_id v =
     ebind (require (payer = gv_global_vault_admin v) (Custom VaultAdminRequired)) (\<lambda>_.
     on_sub_vault v sub_vault_id (\<lambda>s. Inr (s\<lparr>sv_is_sunset := 0\<rparr>)))"

definition process_remove_sub_vault :: "global_config \<Rightarrow> pubkey \<Rightarrow> nat \<Rightarrow> global_vault \<Rightarrow> global_vault res" where
  "process_remove_sub_vault gc payer sub_vault_id v =
     ebind (require_global_not_paused gc) (\<lambda>_.
     ebind (require_vault_not_paused v) (\<lambda>_.
     ebind (require (payer = gv_global_vault_admin v) (Custom VaultAdminRequired)) (\<lambda>_.
     let idx = sub_vault_index v sub_vault_id in
     ebind (require (idx \<noteq> NIL) (Custom SubVaultNotFound)) (\<lambda>_.
     ebind (get_sub_vault v idx) (\<lambda>s.
     ebind (require (sv_is_sunset s \<noteq> 0) (Custom SubVaultNotSunset)) (\<lambda>_.
     ebind (remove_sub_vault v sub_vault_id) (\<lambda>(v', freed).
     ebind (require (freed \<noteq> NIL) (Custom SubVaultNotFound)) (\<lambda>_.
     Inr v'))))))))"

section \<open>Transfers of control\<close>

definition process_transfer_market_admin :: "pubkey \<Rightarrow> pubkey \<Rightarrow> market \<Rightarrow> market res" where
  "process_transfer_market_admin payer new_admin m =
     ebind (require (mk_admin m = payer) (Custom MarketAdminRequired)) (\<lambda>_.
     Inr (m\<lparr>mk_pending_admin := new_admin\<rparr>))"

definition process_accept_market_admin :: "pubkey \<Rightarrow> market \<Rightarrow> market res" where
  "process_accept_market_admin payer m =
     ebind (require (mk_pending_admin m = payer) (Custom PendingAdminMismatch)) (\<lambda>_.
     ebind (require (mk_pending_admin m \<noteq> default_pubkey) (Custom PendingAdminMismatch)) (\<lambda>_.
     Inr (m\<lparr>mk_admin := mk_pending_admin m, mk_pending_admin := default_pubkey\<rparr>)))"

definition process_transfer_global_vault_admin :: "pubkey \<Rightarrow> pubkey \<Rightarrow> global_vault \<Rightarrow> global_vault res" where
  "process_transfer_global_vault_admin payer new_admin v =
     ebind (require (gv_global_vault_admin v = payer) (Custom VaultAdminRequired)) (\<lambda>_.
     Inr (v\<lparr>gv_pending_global_vault_admin := new_admin\<rparr>))"

definition process_accept_global_vault_admin :: "pubkey \<Rightarrow> global_vault \<Rightarrow> global_vault res" where
  "process_accept_global_vault_admin payer v =
     ebind (require (gv_pending_global_vault_admin v = payer) (Custom PendingAdminMismatch)) (\<lambda>_.
     ebind (require (gv_pending_global_vault_admin v \<noteq> default_pubkey) (Custom PendingAdminMismatch)) (\<lambda>_.
     Inr (v\<lparr>gv_global_vault_admin := gv_pending_global_vault_admin v, gv_pending_global_vault_admin := default_pubkey\<rparr>)))"

definition transfer_curator_on :: "pubkey \<Rightarrow> pubkey \<Rightarrow> sub_vault \<Rightarrow> sub_vault res" where
  "transfer_curator_on payer new_curator s =
     ebind (require (sv_curator s = payer) (Custom VaultCuratorRequired)) (\<lambda>_.
     Inr (s\<lparr>sv_pending_curator := new_curator\<rparr>))"

definition accept_curator_on :: "pubkey \<Rightarrow> sub_vault \<Rightarrow> sub_vault res" where
  "accept_curator_on payer s =
     ebind (require (sv_pending_curator s = payer) (Custom PendingAdminMismatch)) (\<lambda>_.
     ebind (require (sv_pending_curator s \<noteq> default_pubkey) (Custom PendingAdminMismatch)) (\<lambda>_.
     Inr (s\<lparr>sv_curator := sv_pending_curator s, sv_pending_curator := default_pubkey\<rparr>)))"

definition process_transfer_curator :: "pubkey \<Rightarrow> nat \<Rightarrow> pubkey \<Rightarrow> global_vault \<Rightarrow> global_vault res" where
  "process_transfer_curator payer sub_vault_id new_curator v = on_sub_vault v sub_vault_id (transfer_curator_on payer new_curator)"

definition process_accept_curator :: "pubkey \<Rightarrow> nat \<Rightarrow> global_vault \<Rightarrow> global_vault res" where
  "process_accept_curator payer sub_vault_id v = on_sub_vault v sub_vault_id (accept_curator_on payer)"

definition process_transfer_protocol_admin :: "pubkey \<Rightarrow> pubkey \<Rightarrow> global_config \<Rightarrow> global_config res" where
  "process_transfer_protocol_admin payer new_admin gc =
     ebind (require (gc_protocol_admin gc = payer) (Custom ProtocolAdminRequired)) (\<lambda>_.
     Inr (gc\<lparr>gc_pending_protocol_admin := new_admin\<rparr>))"

definition process_accept_protocol_admin :: "pubkey \<Rightarrow> global_config \<Rightarrow> global_config res" where
  "process_accept_protocol_admin payer gc =
     ebind (require (gc_pending_protocol_admin gc = payer) (Custom PendingAdminMismatch)) (\<lambda>_.
     ebind (require (gc_pending_protocol_admin gc \<noteq> default_pubkey) (Custom PendingAdminMismatch)) (\<lambda>_.
     Inr (gc\<lparr>gc_protocol_admin := gc_pending_protocol_admin gc, gc_pending_protocol_admin := default_pubkey\<rparr>)))"

section \<open>Pause switches\<close>

definition process_set_market_pause :: "pubkey \<Rightarrow> nat \<Rightarrow> market \<Rightarrow> market res" where
  "process_set_market_pause payer paused m =
     ebind (require (mk_admin m = payer) (Custom MarketAdminRequired)) (\<lambda>_.
     Inr (m\<lparr>mk_is_paused := (if paused \<noteq> 0 then 1 else 0)\<rparr>))"

definition process_set_vault_pause :: "pubkey \<Rightarrow> nat \<Rightarrow> global_vault \<Rightarrow> global_vault res" where
  "process_set_vault_pause payer paused v =
     ebind (require (gv_global_vault_admin v = payer) (Custom VaultAdminRequired)) (\<lambda>_.
     Inr (v\<lparr>gv_is_paused := (if paused \<noteq> 0 then 1 else 0)\<rparr>))"

definition process_set_global_pause :: "pubkey \<Rightarrow> nat \<Rightarrow> global_config \<Rightarrow> global_config res" where
  "process_set_global_pause payer paused gc =
     ebind (require (gc_protocol_admin gc = payer) (Custom ProtocolAdminRequired)) (\<lambda>_.
     Inr (gc\<lparr>gc_is_paused := (if paused \<noteq> 0 then 1 else 0)\<rparr>))"

text \<open>The one-shot creation of the configuration: \<open>slot\<close> is the account, absent while it holds no data. The signer
  must be the upgrade authority recorded in the program's data account, read from its bytes.\<close>

definition pubkey_from_bytes :: "nat list \<Rightarrow> pubkey" where
  "pubkey_from_bytes bytes = foldl (\<lambda>a b. 256 * a + b) 0 bytes"

definition read_upgrade_authority :: "nat list \<Rightarrow> pubkey res" where
  "read_upgrade_authority data =
     ebind (require (45 \<le> length data) (Custom IncorrectAccount)) (\<lambda>_.
     let tag = data ! 0 + 256 * data ! 1 + 65536 * data ! 2 + 16777216 * data ! 3 in
     ebind (require (tag = 3) (Custom IncorrectAccount)) (\<lambda>_.
     ebind (require (data ! 12 = 1) (Custom ProtocolAdminRequired)) (\<lambda>_.
     Inr (pubkey_from_bytes (take 32 (drop 13 data))))))"

definition process_create_global_config :: "unit res \<Rightarrow> nat list \<Rightarrow> pubkey \<Rightarrow> global_config option \<Rightarrow> global_config res" where
  "process_create_global_config setup program_data payer slot =
     ebind (read_upgrade_authority program_data) (\<lambda>upgrade_authority.
     ebind (require (payer = upgrade_authority) (Custom ProtocolAdminRequired)) (\<lambda>_.
     ebind (require (slot = None) (Custom InvalidArgument)) (\<lambda>_.
     ebind setup (\<lambda>_. Inr (gc_new_empty payer)))))"

section \<open>Fee configuration\<close>

definition MAX_GRACE_PERIOD_SECONDS :: nat where "MAX_GRACE_PERIOD_SECONDS = 90 * 86400"
definition MAX_LIQUIDATION_KEEPER_BPS :: nat where "MAX_LIQUIDATION_KEEPER_BPS = 5000"

record fee_config_overrides =
  fo_protocol_fee_bps_floor :: "nat option"
  fo_origination_bps :: "nat option"
  fo_curator_split_bps :: "nat option"
  fo_liquidation_keeper_bps :: "nat option"
  fo_liquidation_protocol_bps :: "nat option"
  fo_grace_period_seconds :: "nat option"

definition check_cap :: "nat \<Rightarrow> nat option \<Rightarrow> unit res" where
  "check_cap cap value = (case value of None \<Rightarrow> Inr () | Some v \<Rightarrow> require (v \<le> cap) (Custom InvalidFeeConfig))"

definition validate_fee_config_overrides :: "fee_config_overrides \<Rightarrow> unit res" where
  "validate_fee_config_overrides params =
     ebind (check_cap 10000 (fo_protocol_fee_bps_floor params)) (\<lambda>_.
     ebind (check_cap 10000 (fo_origination_bps params)) (\<lambda>_.
     ebind (check_cap 10000 (fo_curator_split_bps params)) (\<lambda>_.
     ebind (check_cap 10000 (fo_liquidation_keeper_bps params)) (\<lambda>_.
     ebind (check_cap 10000 (fo_liquidation_protocol_bps params)) (\<lambda>_.
     ebind (check_cap MAX_LIQUIDATION_KEEPER_BPS (fo_liquidation_keeper_bps params)) (\<lambda>_.
     check_cap MAX_GRACE_PERIOD_SECONDS (fo_grace_period_seconds params)))))))"

definition apply_fee_config_overrides :: "fee_config \<Rightarrow> fee_config_overrides \<Rightarrow> fee_config" where
  "apply_fee_config_overrides fc params =
     fc\<lparr>fc_protocol_fee_bps_floor := unwrap_or (fo_protocol_fee_bps_floor params) (fc_protocol_fee_bps_floor fc),
        fc_origination_bps := unwrap_or (fo_origination_bps params) (fc_origination_bps fc),
        fc_curator_split_bps := unwrap_or (fo_curator_split_bps params) (fc_curator_split_bps fc),
        fc_liquidation_keeper_bps := unwrap_or (fo_liquidation_keeper_bps params) (fc_liquidation_keeper_bps fc),
        fc_liquidation_protocol_bps := unwrap_or (fo_liquidation_protocol_bps params) (fc_liquidation_protocol_bps fc),
        fc_grace_period_seconds := unwrap_or (fo_grace_period_seconds params) (fc_grace_period_seconds fc)\<rparr>"

definition process_set_fee_config :: "global_config \<Rightarrow> pubkey \<Rightarrow> fee_config_overrides \<Rightarrow> market \<Rightarrow> market res" where
  "process_set_fee_config gc payer params m =
     ebind (require_global_not_paused gc) (\<lambda>_.
     ebind (require (payer = mk_admin m) (Custom MarketAdminRequired)) (\<lambda>_.
     ebind (validate_fee_config_overrides params) (\<lambda>_.
     Inr (m\<lparr>mk_fee_config := apply_fee_config_overrides (mk_fee_config m) params\<rparr>))))"

section \<open>Creation of a market and of a vault\<close>

datatype mint_extension =
    MetadataPointer | MintCloseAuthority | TransferFeeConfig | TransferFeeAmount | TransferHook | TransferHookAccount
  | ConfidentialTransferMint | ConfidentialTransferAccount | PermanentDelegate | OtherExtension nat

text \<open>A mint: its key, its decimals, and for a mint of the second token program its extensions.\<close>

record mint_account =
  mn_key :: pubkey
  mn_decimals :: nat
  mn_extensions :: "mint_extension list option"

fun check_extensions :: "mint_extension list \<Rightarrow> unit res" where
  "check_extensions [] = Inr ()"
| "check_extensions (e # es) =
     (if e = MetadataPointer then check_extensions es else Inl (Custom Token2022UnsupportedExtension))"

definition assert_supported_mint_extensions :: "mint_account \<Rightarrow> unit res" where
  "assert_supported_mint_extensions mint = (case mn_extensions mint of None \<Rightarrow> Inr () | Some es \<Rightarrow> check_extensions es)"

record create_market_context =
  mc_payer :: pubkey
  mc_market_key :: pubkey
  mc_debt_mint :: mint_account
  mc_collateral_mint :: mint_account
  mc_group :: pubkey
  mc_debt_bank :: pubkey
  mc_collateral_bank :: pubkey
  mc_lender_account :: pubkey
  mc_lender_account_bump :: nat
  mc_borrower_account :: pubkey
  mc_borrower_account_bump :: nat
  mc_market_signer :: pubkey
  mc_market_signer_bump :: nat

definition process_create_market ::
  "(pubkey \<Rightarrow> pubkey \<Rightarrow> pubkey \<times> nat) \<Rightarrow> unit res \<Rightarrow> global_config \<Rightarrow> create_market_context \<Rightarrow> fee_config_overrides \<Rightarrow> market res" where
  "process_create_market get_vault_address setup gc ctx params =
     ebind (validate_fee_config_overrides params) (\<lambda>_.
     ebind (require_global_not_paused gc) (\<lambda>_.
     ebind (require (mc_payer ctx = gc_protocol_admin gc) (Custom ProtocolAdminRequired)) (\<lambda>_.
     ebind (require (mn_key (mc_debt_mint ctx) \<noteq> mn_key (mc_collateral_mint ctx)) (Custom InvalidMarketParameters)) (\<lambda>_.
     ebind (assert_supported_mint_extensions (mc_debt_mint ctx)) (\<lambda>_.
     ebind (assert_supported_mint_extensions (mc_collateral_mint ctx)) (\<lambda>_.
     ebind setup (\<lambda>_.
     let header = mk_new_empty get_vault_address (mn_key (mc_debt_mint ctx)) (mn_decimals (mc_debt_mint ctx))
                    (mn_key (mc_collateral_mint ctx)) (mn_decimals (mc_collateral_mint ctx)) (mc_market_key ctx) in
     market_expand (header\<lparr>mk_admin := mc_payer ctx,
       mk_lender_integration_account := mc_lender_account ctx, mk_lender_integration_account_bump := mc_lender_account_bump ctx,
       mk_borrower_integration_account := mc_borrower_account ctx, mk_borrower_integration_account_bump := mc_borrower_account_bump ctx,
       mk_debt_lending_pool := mc_debt_bank ctx, mk_collateral_lending_pool := mc_collateral_bank ctx,
       mk_marginfi_group := mc_group ctx, mk_market_signer := mc_market_signer ctx, mk_market_signer_bump := mc_market_signer_bump ctx,
       mk_fee_config := apply_fee_config_overrides (mk_fee_config header) params\<rparr>))))))))"

record create_vault_context =
  ct_payer :: pubkey
  ct_mint :: mint_account
  ct_group :: pubkey
  ct_integration_account :: pubkey
  ct_signer :: pubkey
  ct_signer_bump :: nat
  ct_lending_pool :: pubkey

definition process_create_vault :: "unit res \<Rightarrow> global_config \<Rightarrow> create_vault_context \<Rightarrow> global_vault res" where
  "process_create_vault setup gc ctx =
     ebind (require_global_not_paused gc) (\<lambda>_.
     ebind (assert_supported_mint_extensions (ct_mint ctx)) (\<lambda>_.
     ebind setup (\<lambda>_.
     Inr (gv_new_empty (mn_key (ct_mint ctx)) (ct_payer ctx) (ct_group ctx) (ct_integration_account ctx) (ct_signer ctx)
            (ct_signer_bump ctx) (ct_lending_pool ctx)))))"

section \<open>Who holds control\<close>

text \<open>Control over a market, a vault, a sub-vault or the protocol moves in two steps: the holder nominates, the
  nominee accepts. A step that fails leaves the state as it was.\<close>

datatype handoff_step = Nominate pubkey pubkey | Accept pubkey

definition attempt :: "('s \<Rightarrow> 's res) \<Rightarrow> 's \<Rightarrow> 's" where
  "attempt f s = (case f s of Inl e \<Rightarrow> s | Inr s' \<Rightarrow> s')"

fun handoff_step_on :: "(pubkey \<Rightarrow> pubkey \<Rightarrow> 's \<Rightarrow> 's res) \<Rightarrow> (pubkey \<Rightarrow> 's \<Rightarrow> 's res) \<Rightarrow> handoff_step \<Rightarrow> 's \<Rightarrow> 's" where
  "handoff_step_on nominate accept (Nominate p n) s = attempt (nominate p n) s"
| "handoff_step_on nominate accept (Accept p) s = attempt (accept p) s"

definition handoff_run :: "(pubkey \<Rightarrow> pubkey \<Rightarrow> 's \<Rightarrow> 's res) \<Rightarrow> (pubkey \<Rightarrow> 's \<Rightarrow> 's res) \<Rightarrow> handoff_step list \<Rightarrow> 's \<Rightarrow> 's" where
  "handoff_run nominate accept steps s = fold (handoff_step_on nominate accept) steps s"

text \<open>In a run, control passes from \<open>h\<close> to another key only at an acceptance that this key signs, and only if the
  last nomination \<open>h\<close> signed, while it held control up to then, was of this key.\<close>

definition moves_by_handover ::
  "('s \<Rightarrow> pubkey) \<Rightarrow> (pubkey \<Rightarrow> pubkey \<Rightarrow> 's \<Rightarrow> 's res) \<Rightarrow> (pubkey \<Rightarrow> 's \<Rightarrow> 's res) \<Rightarrow> handoff_step list \<Rightarrow> 's \<Rightarrow> bool" where
  "moves_by_handover holder nominate accept steps s =
     (let at = (\<lambda>i. holder (handoff_run nominate accept (take i steps) s)) in
      \<forall>i < length steps. at (Suc i) \<noteq> at i \<longrightarrow> steps ! i = Accept (at (Suc i)) \<and>
        (\<exists>j < i. steps ! j = Nominate (at i) (at (Suc i)) \<and> (\<forall>k. j \<le> k \<and> k \<le> i \<longrightarrow> at k = at i) \<and>
           (\<forall>k n. j < k \<and> k < i \<longrightarrow> steps ! k \<noteq> Nominate (at i) n)))"

locale handoff =
  fixes holder pending :: "'s \<Rightarrow> pubkey"
    and nominate :: "pubkey \<Rightarrow> pubkey \<Rightarrow> 's \<Rightarrow> 's res"
    and accept :: "pubkey \<Rightarrow> 's \<Rightarrow> 's res"
  assumes nominate_law: "nominate p n s = Inr s' \<Longrightarrow> holder s = p \<and> holder s' = p \<and> pending s' = n"
    and nominate_open: "\<exists>s'. nominate (holder s) n s = Inr s'"
    and accept_law: "accept p s = Inr s' \<Longrightarrow> pending s = p \<and> p \<noteq> default_pubkey \<and> holder s' = p \<and> pending s' = default_pubkey"
    and accept_open: "pending s \<noteq> default_pubkey \<Longrightarrow> \<exists>s'. accept (pending s) s = Inr s'"
begin

lemma step_cases:
  "handoff_step_on nominate accept st s = s \<or>
   (\<exists>n. st = Nominate (holder s) n \<and> holder (handoff_step_on nominate accept st s) = holder s \<and>
      pending (handoff_step_on nominate accept st s) = n) \<or>
   (st = Accept (pending s) \<and> pending s \<noteq> default_pubkey \<and> holder (handoff_step_on nominate accept st s) = pending s \<and>
      pending (handoff_step_on nominate accept st s) = default_pubkey)"
  by (cases st) (auto simp: attempt_def split: sum.splits dest!: nominate_law accept_law)

lemma run_keeps_holder:
  assumes "pending s = default_pubkey" "\<forall>n. Nominate (holder s) n \<notin> set steps"
  shows "handoff_run nominate accept steps s = s"
  using assms unfolding handoff_run_def
proof (induction steps arbitrary: s)
  case (Cons st steps)
  have "handoff_step_on nominate accept st s = s" using step_cases[of st s] Cons.prems by fastforce
  then show ?case using Cons by simp
qed simp

lemma nominate_step:
  "holder (handoff_step_on nominate accept (Nominate (holder s) n) s) = holder s \<and>
   pending (handoff_step_on nominate accept (Nominate (holder s) n) s) = n"
  using nominate_open[of s n] by (auto simp: attempt_def dest: nominate_law)

text \<open>A pending key was nominated by the holder, who has nominated nobody since and held control all along.\<close>

lemma pending_traced:
  fixes steps and s
  defines "st \<equiv> \<lambda>i. handoff_run nominate accept (take i steps) s"
  assumes "pending s = default_pubkey" "i \<le> length steps"
  shows "pending (st i) = default_pubkey \<or>
    (\<exists>j < i. steps ! j = Nominate (holder (st i)) (pending (st i)) \<and> (\<forall>k. j \<le> k \<and> k \<le> i \<longrightarrow> holder (st k) = holder (st i)) \<and>
      (\<forall>k n. j < k \<and> k < i \<longrightarrow> steps ! k \<noteq> Nominate (holder (st i)) n))"
  using assms(3)
proof (induction i)
  case 0
  then show ?case using assms(2) by (simp add: st_def handoff_run_def)
next
  case (Suc i)
  have run: "st (Suc i) = handoff_step_on nominate accept (steps ! i) (st i)"
    using Suc.prems by (simp add: st_def handoff_run_def take_Suc_conv_app_nth)
  show ?case
  proof (cases "\<exists>n. steps ! i = Nominate (holder (st i)) n")
    case True
    then obtain n where n: "steps ! i = Nominate (holder (st i)) n" ..
    then have h: "holder (st (Suc i)) = holder (st i)" "pending (st (Suc i)) = n" using nominate_step[of "st i" n] run by simp_all
    have a: "steps ! i = Nominate (holder (st (Suc i))) (pending (st (Suc i)))" using n h by simp
    have b: "holder (st k) = holder (st (Suc i))" if "i \<le> k \<and> k \<le> Suc i" for k
    proof -
      have "k = i \<or> k = Suc i" using that by linarith
      then show ?thesis by (rule disjE) (simp_all add: h(1))
    qed
    have c: "steps ! k \<noteq> Nominate (holder (st (Suc i))) m" if "i < k \<and> k < Suc i" for k m using that by linarith
    show ?thesis using a b c by (intro disjI2 exI[of _ i]) blast
  next
    case False
    then consider "st (Suc i) = st i" | "pending (st (Suc i)) = default_pubkey"
      using step_cases[of "steps ! i" "st i"] run by fastforce
    then show ?thesis
    proof cases
      case 1
      show ?thesis
      proof (cases "pending (st i) = default_pubkey")
        case True
        then show ?thesis using 1 by simp
      next
        case pend: False
        then obtain j where j: "j < i" "steps ! j = Nominate (holder (st i)) (pending (st i))"
            "\<forall>k. j \<le> k \<and> k \<le> i \<longrightarrow> holder (st k) = holder (st i)"
            "\<forall>k n. j < k \<and> k < i \<longrightarrow> steps ! k \<noteq> Nominate (holder (st i)) n"
          using Suc.IH[OF Suc_leD[OF Suc.prems]] by blast
        have "holder (st k) = holder (st (Suc i))" if "j \<le> k" "k \<le> Suc i" for k
        proof (cases "k = Suc i")
          case kept: False
          then have "k \<le> i" using that(2) by linarith
          then have "holder (st k) = holder (st i)" using j(3) that(1) by blast
          then show ?thesis using 1 by simp
        qed simp
        moreover have "steps ! k \<noteq> Nominate (holder (st (Suc i))) n" if "j < k" "k < Suc i" for k n
        proof (cases "k = i")
          case kept: False
          then have "k < i" using that(2) by linarith
          then have "steps ! k \<noteq> Nominate (holder (st i)) n" using j(4) that(1) by blast
          then show ?thesis using 1 by simp
        qed (use False 1 in simp)
        moreover have "j < Suc i" "steps ! j = Nominate (holder (st (Suc i))) (pending (st (Suc i)))" using j(1,2) 1 by simp_all
        ultimately show ?thesis by blast
      qed
    qed simp
  qed
qed

lemma run_moves_by_handover:
  assumes "pending s = default_pubkey"
  shows "moves_by_handover holder nominate accept steps s"
proof -
  let ?st = "\<lambda>i. handoff_run nominate accept (take i steps) s"
  have "steps ! i = Accept (holder (?st (Suc i))) \<and>
      (\<exists>j < i. steps ! j = Nominate (holder (?st i)) (holder (?st (Suc i))) \<and> (\<forall>k. j \<le> k \<and> k \<le> i \<longrightarrow> holder (?st k) = holder (?st i)) \<and>
        (\<forall>k n. j < k \<and> k < i \<longrightarrow> steps ! k \<noteq> Nominate (holder (?st i)) n))"
    if i: "i < length steps" and mv: "holder (?st (Suc i)) \<noteq> holder (?st i)" for i
  proof -
    have "?st (Suc i) = handoff_step_on nominate accept (steps ! i) (?st i)"
      using i by (simp add: handoff_run_def take_Suc_conv_app_nth)
    then have a: "steps ! i = Accept (pending (?st i))" "pending (?st i) \<noteq> default_pubkey" "holder (?st (Suc i)) = pending (?st i)"
      using step_cases[of "steps ! i" "?st i"] mv by auto
    then show ?thesis using pending_traced[OF assms, of i steps] i by auto
  qed
  then show ?thesis by (simp add: moves_by_handover_def)
qed

lemma handover_goes_through:
  assumes "n \<noteq> default_pubkey"
  shows "holder (handoff_run nominate accept [Nominate (holder s) n, Accept n] s) = n"
proof -
  let ?s = "handoff_step_on nominate accept (Nominate (holder s) n) s"
  have p: "pending ?s = n" using nominate_step by simp
  then obtain s' where "accept n ?s = Inr s'" using accept_open[of ?s] assms by auto
  then show ?thesis using accept_law[of n ?s s'] by (simp add: handoff_run_def attempt_def)
qed

end

interpretation market_control: handoff mk_admin mk_pending_admin process_transfer_market_admin process_accept_market_admin
  by unfold_locales (auto simp: process_transfer_market_admin_def process_accept_market_admin_def require_Inr elim!: ebind_InrE)

interpretation vault_control: handoff gv_global_vault_admin gv_pending_global_vault_admin process_transfer_global_vault_admin
  process_accept_global_vault_admin
  by unfold_locales (auto simp: process_transfer_global_vault_admin_def process_accept_global_vault_admin_def require_Inr elim!: ebind_InrE)

interpretation curator_control: handoff sv_curator sv_pending_curator transfer_curator_on accept_curator_on
  by unfold_locales (auto simp: transfer_curator_on_def accept_curator_on_def require_Inr elim!: ebind_InrE)

interpretation protocol_control: handoff gc_protocol_admin gc_pending_protocol_admin process_transfer_protocol_admin
  process_accept_protocol_admin
  by unfold_locales (auto simp: process_transfer_protocol_admin_def process_accept_protocol_admin_def require_Inr elim!: ebind_InrE)

text \<open>C32. Control moves by a handover in two steps, and in no other way. For a market, a vault, a sub-vault and the
  protocol alike: from a state where nobody is nominated, in any sequence of transfer and accept instructions, signed
  by whomever and whether they succeed or fail, the holder changes only at an acceptance signed by the key
  that gets control, after the holder, in control from then on, signed a nomination of that very key and none
  since. Without such a nomination nothing changes at all, and a nomination by the holder followed by the nominee's
  acceptance always goes through.\<close>

theorem control_needs_holder:
  assumes "mk_pending_admin m = default_pubkey" "gv_pending_global_vault_admin v = default_pubkey"
    and "sv_pending_curator s = default_pubkey" "gc_pending_protocol_admin gc = default_pubkey"
  shows "moves_by_handover mk_admin process_transfer_market_admin process_accept_market_admin steps m \<and>
    moves_by_handover gv_global_vault_admin process_transfer_global_vault_admin process_accept_global_vault_admin steps v \<and>
    moves_by_handover sv_curator transfer_curator_on accept_curator_on steps s \<and>
    moves_by_handover gc_protocol_admin process_transfer_protocol_admin process_accept_protocol_admin steps gc \<and>
    ((\<forall>n. Nominate (mk_admin m) n \<notin> set steps) \<longrightarrow>
       handoff_run process_transfer_market_admin process_accept_market_admin steps m = m) \<and>
    ((\<forall>n. Nominate (gv_global_vault_admin v) n \<notin> set steps) \<longrightarrow>
       handoff_run process_transfer_global_vault_admin process_accept_global_vault_admin steps v = v) \<and>
    ((\<forall>n. Nominate (sv_curator s) n \<notin> set steps) \<longrightarrow> handoff_run transfer_curator_on accept_curator_on steps s = s) \<and>
    ((\<forall>n. Nominate (gc_protocol_admin gc) n \<notin> set steps) \<longrightarrow>
       handoff_run process_transfer_protocol_admin process_accept_protocol_admin steps gc = gc) \<and>
    (\<forall>n. n \<noteq> default_pubkey \<longrightarrow>
       mk_admin (handoff_run process_transfer_market_admin process_accept_market_admin [Nominate (mk_admin m) n, Accept n] m) = n \<and>
       gv_global_vault_admin (handoff_run process_transfer_global_vault_admin process_accept_global_vault_admin
         [Nominate (gv_global_vault_admin v) n, Accept n] v) = n \<and>
       sv_curator (handoff_run transfer_curator_on accept_curator_on [Nominate (sv_curator s) n, Accept n] s) = n \<and>
       gc_protocol_admin (handoff_run process_transfer_protocol_admin process_accept_protocol_admin
         [Nominate (gc_protocol_admin gc) n, Accept n] gc) = n)"
  using assms
  by (simp add: market_control.run_keeps_holder vault_control.run_keeps_holder curator_control.run_keeps_holder
      protocol_control.run_keeps_holder market_control.run_moves_by_handover vault_control.run_moves_by_handover
      curator_control.run_moves_by_handover protocol_control.run_moves_by_handover market_control.handover_goes_through
      vault_control.handover_goes_through curator_control.handover_goes_through protocol_control.handover_goes_through)

text \<open>Key 9 signs a transfer to itself and accepts: nothing moves; the same two steps signed by the holder, key 1, do.\<close>

lemma control_needs_holder_witness:
  "handoff_run transfer_curator_on accept_curator_on [Nominate 9 9, Accept 9] (sv_new_empty 1 1 7000 8000) = sv_new_empty 1 1 7000 8000 \<and>
   sv_curator (handoff_run transfer_curator_on accept_curator_on [Nominate 1 9, Accept 9] (sv_new_empty 1 1 7000 8000)) = 9"
proof -
  let ?v = "gv_new_empty 1 1 1 1 1 1 1" and ?m = "(mk_new_empty (\<lambda>a b. (0, 0)) 1 6 2 6 3)\<lparr>mk_admin := 1\<rparr>"
  have f: "mk_pending_admin ?m = default_pubkey" "gv_pending_global_vault_admin ?v = default_pubkey"
    "sv_pending_curator (sv_new_empty 1 1 7000 8000) = default_pubkey" "gc_pending_protocol_admin (gc_new_empty 1) = default_pubkey"
    "sv_curator (sv_new_empty 1 1 7000 8000) = 1"
    by (simp_all add: mk_new_empty_def gv_new_empty_def sv_new_empty_def gc_new_empty_def)
  note t = control_needs_holder[OF f(1-4), of "[Nominate 9 9, Accept 9]"]
  have "handoff_run transfer_curator_on accept_curator_on [Nominate 9 9, Accept 9] (sv_new_empty 1 1 7000 8000) = sv_new_empty 1 1 7000 8000"
    using t f(5) by simp
  moreover have "(9 :: nat) \<noteq> default_pubkey" by (simp add: default_pubkey_def)
  then have "sv_curator (handoff_run transfer_curator_on accept_curator_on [Nominate 1 9, Accept 9] (sv_new_empty 1 1 7000 8000)) = 9"
    using t f(5) by metis
  ultimately show ?thesis ..
qed

section \<open>Bounds of the parameters\<close>

definition fee_config_ok :: "fee_config \<Rightarrow> bool" where
  "fee_config_ok fc =
     (fc_protocol_fee_bps_floor fc \<le> 10000 \<and> fc_origination_bps fc \<le> 10000 \<and> fc_curator_split_bps fc \<le> 10000 \<and>
      fc_liquidation_keeper_bps fc \<le> MAX_LIQUIDATION_KEEPER_BPS \<and> fc_liquidation_protocol_bps fc \<le> 10000 \<and>
      fc_grace_period_seconds fc \<le> MAX_GRACE_PERIOD_SECONDS)"

lemma check_cap_Inr: "check_cap cap x = Inr u \<longleftrightarrow> (\<forall>v. x = Some v \<longrightarrow> v \<le> cap)"
  by (cases x) (auto simp: check_cap_def require_Inr)

lemma unwrap_or_le: "(\<forall>v. x = Some v \<longrightarrow> v \<le> cap) \<Longrightarrow> d \<le> cap \<Longrightarrow> unwrap_or x d \<le> (cap :: nat)"
  by (cases x) (auto simp: unwrap_or_def)

lemma overrides_keep_bounds:
  assumes "fee_config_ok fc" "validate_fee_config_overrides params = Inr u"
  shows "fee_config_ok (apply_fee_config_overrides fc params)"
  using assms unfolding validate_fee_config_overrides_def fee_config_ok_def apply_fee_config_overrides_def
  by (elim ebind_InrE) (simp add: check_cap_Inr unwrap_or_le)

lemma fee_config_default_ok: "fee_config_ok fee_config_default"
  by (simp add: fee_config_ok_def fee_config_default_def DEFAULT_GRACE_PERIOD_SECONDS_def MAX_GRACE_PERIOD_SECONDS_def)

definition risk_ok :: "sub_vault \<Rightarrow> bool" where
  "risk_ok s =
     (0 < sv_max_ltv_bps s \<and> sv_max_ltv_bps s < 10000 \<and> sv_max_ltv_bps s + MIN_LIQ_GAP_BPS \<le> sv_liquidation_ltv_bps s \<and>
      sv_liquidation_ltv_bps s \<le> 10000 \<and> 0 < sv_max_term_seconds s \<and> sv_curator_fee_bps s \<le> MAX_CURATOR_FEE_BPS)"

lemma validate_risk_Inr:
  "validate_sub_vault_risk_params a l t = Inr u \<longleftrightarrow> 0 < a \<and> a < 10000 \<and> a + MIN_LIQ_GAP_BPS \<le> l \<and> l \<le> 10000 \<and> 0 < t"
  by (auto simp: validate_sub_vault_risk_params_def ebind_Inr require_Inr MIN_LIQ_GAP_BPS_def u16_lim_def saturating_add_def)

lemma update_keeps_risk:
  assumes "update_on_sub_vault payer params s = Inr s'" "risk_ok s"
  shows "risk_ok s' \<and> sv_sub_vault_id s' = sv_sub_vault_id s \<and> sv_open_orders_count s' = sv_open_orders_count s \<and>
    sv_total_shares s' = sv_total_shares s"
  using assms by (auto simp: update_on_sub_vault_def Let_def validate_risk_Inr risk_ok_def elim!: ebind_InrE)

end
