(* ===== verification/Liquidation.thy ===== *)
theory Liquidation
  imports Loan_Closing Administration
begin

text \<open>Liquidation of an unhealthy loan (\<open>processor/liquidate_loan.rs\<close>) and settlement of a matured one
  (\<open>processor/settle_matured_loan.rs\<close>). Anyone may run either: the keeper pays debt atoms in and receives
  collateral. The two share their account context, the sizing of the payment, the attribution of
  a variable-rate repayment and the close-out of a fixed loan. The prices the oracles report are
  parameters; a keeper's token balance is read from its token account.\<close>

definition MIN_PARTIAL_REPAY_FLOOR_ATOMS :: nat where "MIN_PARTIAL_REPAY_FLOOR_ATOMS = 1000"

record keeper_context =
  kc_payer :: pubkey
  kc_market_key :: pubkey
  kc_loan_key :: pubkey
  kc_debt_token :: pubkey
  kc_collateral_token :: pubkey
  kc_debt_vault :: pubkey
  kc_collateral_vault :: pubkey
  kc_market_signer :: pubkey
  kc_lender_account :: pubkey
  kc_borrower_account :: pubkey
  kc_debt_bank :: pubkey
  kc_collateral_bank :: pubkey
  kc_debt_liquidity_vault :: pubkey
  kc_collateral_liquidity_vault :: pubkey
  kc_collateral_lva :: pubkey
  kc_debt_oracles :: "pubkey list"
  kc_collateral_oracles :: "pubkey list"
  kc_token_program :: pubkey
  kc_group :: pubkey
  kc_marginfi_program :: pubkey

type_synonym keeper_outcome = "market \<times> global_vault option \<times> loan_fixed option \<times> pool"

definition keeper_debt_accounts :: "keeper_context \<Rightarrow> pubkey \<Rightarrow> pubkey list" where
  "keeper_debt_accounts ctx account =
     [kc_group ctx, account, kc_market_signer ctx, kc_debt_bank ctx, kc_debt_vault ctx, kc_debt_liquidity_vault ctx,
      kc_token_program ctx, kc_marginfi_program ctx]"

definition keeper_withdraw_accounts :: "keeper_context \<Rightarrow> loan_type \<Rightarrow> pubkey list" where
  "keeper_withdraw_accounts ctx lt =
     [kc_group ctx, kc_borrower_account ctx, kc_market_signer ctx, kc_collateral_bank ctx, kc_collateral_vault ctx,
      kc_collateral_lva ctx, kc_collateral_liquidity_vault ctx, kc_token_program ctx, kc_marginfi_program ctx,
      kc_collateral_bank ctx] @ kc_collateral_oracles ctx @
      (if lt = P2Pool then kc_debt_bank ctx # kc_debt_oracles ctx else [])"

definition keeper_readings :: "programs \<Rightarrow> keeper_context \<Rightarrow> fp48 res \<Rightarrow> fp48 res \<Rightarrow> pool \<Rightarrow> ltv_readings" where
  "keeper_readings pg ctx debt_price collateral_price p =
     \<lparr> rd_debt_price = debt_price, rd_collateral_price = collateral_price,
       rd_debt_liability_weight_maint = ebind (maint_weight pg p (kc_debt_bank ctx)) (\<lambda>(aw, lw). Inr lw),
       rd_collateral_asset_weight_maint = ebind (maint_weight pg p (kc_collateral_bank ctx)) (\<lambda>(aw, lw). Inr aw) \<rparr>"

text \<open>What the keeper repays of the live debt, and whether that is all of it.\<close>

definition size_keeper_repay :: "nat \<Rightarrow> nat \<Rightarrow> (nat \<times> bool) res" where
  "size_keeper_repay repay_atoms_max outstanding_live_atoms =
     (let actual_repay_atoms = (if repay_atoms_max = 0 then outstanding_live_atoms
                                else min repay_atoms_max outstanding_live_atoms) in
      ebind (require (0 < actual_repay_atoms) (Custom InvalidArgument)) (\<lambda>_.
      let is_full_repay = (actual_repay_atoms = outstanding_live_atoms) in
      ebind (if is_full_repay then Inr ()
             else
               ebind (require (MIN_PARTIAL_REPAY_FLOOR_ATOMS \<le> outstanding_live_atoms) (Custom InvalidArgument)) (\<lambda>_.
               let min_partial_repay = max (outstanding_live_atoms div 100) MIN_PARTIAL_REPAY_FLOOR_ATOMS in
               require (min_partial_repay \<le> actual_repay_atoms) (Custom InvalidArgument))) (\<lambda>_.
      Inr (actual_repay_atoms, is_full_repay))))"

record collateral_split =
  sp_liquidator_seizes_atoms :: nat
  sp_surplus_atoms :: nat
  sp_bad_debt_gap_atoms :: nat
  sp_bonus_atoms :: nat

definition compute_collateral_split :: "nat \<Rightarrow> nat \<Rightarrow> nat \<Rightarrow> collateral_split res" where
  "compute_collateral_split debt_value_in_collateral_atoms collateral_atoms bonus_bps =
     ebind (require (bonus_bps \<le> MAX_LIQUIDATION_KEEPER_BPS) (Custom InvalidArgument)) (\<lambda>_.
     ebind (mul_div_u64 debt_value_in_collateral_atoms bonus_bps 10000 False) (\<lambda>bonus_atoms.
     let total_seize_target = saturating_add u64_lim debt_value_in_collateral_atoms bonus_atoms;
         liquidator_seizes_atoms = min collateral_atoms total_seize_target;
         bad_debt_gap_atoms = saturating_sub total_seize_target collateral_atoms;
         surplus_atoms = saturating_sub collateral_atoms liquidator_seizes_atoms in
     Inr \<lparr> sp_liquidator_seizes_atoms = liquidator_seizes_atoms, sp_surplus_atoms = surplus_atoms,
           sp_bad_debt_gap_atoms = bad_debt_gap_atoms, sp_bonus_atoms = bonus_atoms \<rparr>))"

section \<open>The debt side\<close>

text \<open>What a repayment left of the debt: shares credited on the lender's side for a fixed loan, and the
  loan's remaining shares and atoms for a variable-rate one.\<close>

record debt_result =
  dr_credited_shares :: nat
  dr_post_loan_shares :: nat
  dr_did_full_repay :: bool
  dr_post_outstanding_atoms :: nat

definition liquidation_repay ::
  "programs \<Rightarrow> keeper_context \<Rightarrow> loan_type \<Rightarrow> nat \<Rightarrow> nat \<Rightarrow> nat \<Rightarrow> bool \<Rightarrow> pool \<Rightarrow> (pool \<times> nat) res" where
  "liquidation_repay pg ctx lt pre_loan_shares pre_account_shares actual_repay_atoms is_full_repay p =
     (case lt of
        Fixed \<Rightarrow> adapter_deposit pg (keeper_debt_accounts ctx (kc_lender_account ctx)) actual_repay_atoms p
      | P2Pool \<Rightarrow>
          let this_loan_is_account = (pre_loan_shares = pre_account_shares);
              use_marginfi_repay_all = (is_full_repay \<and> this_loan_is_account) in
          ebind (if use_marginfi_repay_all
                 then adapter_repay_atoms_full pg (keeper_debt_accounts ctx (kc_borrower_account ctx)) actual_repay_atoms p
                 else adapter_repay_atoms pg (keeper_debt_accounts ctx (kc_borrower_account ctx)) actual_repay_atoms p) (\<lambda>(p1, burned).
          Inr (p1, 0)))"

text \<open>The settlement stages more than the debt for a full close and returns what marginfi did not pull.\<close>

definition settlement_repay ::
  "programs \<Rightarrow> keeper_context \<Rightarrow> loan_type \<Rightarrow> nat \<Rightarrow> nat \<Rightarrow> nat \<Rightarrow> nat \<Rightarrow> nat \<Rightarrow> bool \<Rightarrow> pool \<Rightarrow> (pool \<times> nat) res" where
  "settlement_repay pg ctx lt pre_loan_shares pre_account_shares debt_vault_pre_stage actual_repay_atoms staged_atoms
     is_full_repay p =
     (case lt of
        Fixed \<Rightarrow> adapter_deposit pg (keeper_debt_accounts ctx (kc_lender_account ctx)) actual_repay_atoms p
      | P2Pool \<Rightarrow>
          let this_loan_is_account = (pre_loan_shares = pre_account_shares);
              use_marginfi_repay_all = (is_full_repay \<and> this_loan_is_account) in
          ebind (if use_marginfi_repay_all
                 then adapter_repay_atoms_full pg (keeper_debt_accounts ctx (kc_borrower_account ctx)) staged_atoms p
                 else adapter_repay_atoms pg (keeper_debt_accounts ctx (kc_borrower_account ctx)) actual_repay_atoms p) (\<lambda>(p1, burned).
          let vault_now = tk_amount (pl_tokens p1 (kc_debt_vault ctx));
              vault_remainder = saturating_sub vault_now debt_vault_pre_stage in
          ebind (if 0 < vault_remainder
                 then pg_transfer pg (kc_debt_vault ctx) (kc_debt_token ctx) vault_remainder p1
                 else Inr p1) (\<lambda>p2.
          Inr (p2, 0))))"

definition keeper_shares_before :: "keeper_context \<Rightarrow> loan_type \<Rightarrow> loan_fixed \<Rightarrow> pool \<Rightarrow> (nat \<times> nat) res" where
  "keeper_shares_before ctx lt loan p =
     (if lt = P2Pool then
        ebind (pool_liability_shares p (kc_borrower_account ctx) (kc_debt_bank ctx)) (\<lambda>pre_account.
        Inr (ln_borrower_marginfi_borrow_shares loan, pre_account))
      else Inr (0, 0))"

definition keeper_debt_result ::
  "keeper_context \<Rightarrow> loan_type \<Rightarrow> nat \<Rightarrow> nat \<Rightarrow> nat \<Rightarrow> bool \<Rightarrow> pool \<Rightarrow> debt_result res" where
  "keeper_debt_result ctx lt pre_loan_shares pre_account_shares credited is_full_repay p =
     (if lt = P2Pool then
        ebind (pool_liability_shares p (kc_borrower_account ctx) (kc_debt_bank ctx)) (\<lambda>post_account_shares.
        let burned = saturating_sub pre_account_shares post_account_shares;
            post_loan_shares = saturating_sub pre_loan_shares burned in
        ebind (liability_shares_to_atoms_floor p (kc_debt_bank ctx) post_loan_shares) (\<lambda>post_atoms_floor.
        let did_full = (post_atoms_floor \<le> 1) in
        ebind (if did_full then Inr 0 else pool_liability_atoms_ceil p (kc_debt_bank ctx) post_loan_shares) (\<lambda>post_atoms.
        Inr \<lparr> dr_credited_shares = credited, dr_post_loan_shares = post_loan_shares, dr_did_full_repay = did_full,
              dr_post_outstanding_atoms = post_atoms \<rparr>)))
      else Inr \<lparr> dr_credited_shares = credited, dr_post_loan_shares = 0, dr_did_full_repay = is_full_repay,
                 dr_post_outstanding_atoms = 0 \<rparr>)"

section \<open>The collateral side\<close>

text \<open>Withdrawal of the seized collateral into the market's vault, and on to the keeper.\<close>

definition keeper_withdraw :: "programs \<Rightarrow> keeper_context \<Rightarrow> loan_type \<Rightarrow> nat \<Rightarrow> pool \<Rightarrow> (pool \<times> nat) res" where
  "keeper_withdraw pg ctx lt seized_atoms p =
     ebind (amount_to_asset_shares pg p (kc_collateral_bank ctx) seized_atoms) (\<lambda>shares.
     ebind (adapter_withdraw pg (keeper_withdraw_accounts ctx lt) shares p) (\<lambda>(p1, withdrawn_atoms, shares_burned).
     ebind (pg_transfer pg (kc_collateral_vault ctx) (kc_collateral_token ctx) withdrawn_atoms p1) (\<lambda>p2.
     Inr (p2, withdrawn_atoms))))"

definition liquidated_seat :: "market \<Rightarrow> data_index \<Rightarrow> nat \<Rightarrow> fp48 \<Rightarrow> nat \<Rightarrow> bool \<Rightarrow> market res" where
  "liquidated_seat m borrower_seat_index collateral_atoms collateral_snapshot_fp48 withdrawn_atoms did_full_repay =
     (let surplus_atoms_actual = (if did_full_repay then saturating_sub collateral_atoms withdrawn_atoms else 0) in
      ebind (if 0 < surplus_atoms_actual then atoms_to_shares_at_snapshot surplus_atoms_actual collateral_snapshot_fp48
             else Inr 0) (\<lambda>surplus_shares.
      ebind (get_helper_seat m borrower_seat_index) (\<lambda>seat.
      ebind (if did_full_repay then atoms_to_shares_at_snapshot collateral_atoms collateral_snapshot_fp48
             else atoms_to_shares_at_snapshot withdrawn_atoms collateral_snapshot_fp48) (\<lambda>release_shares.
      let seat1 = seat\<lparr>cs_collateral_encumbered_shares := saturating_sub (cs_collateral_encumbered_shares seat) release_shares\<rparr> in
      ebind (if 0 < surplus_shares then
               ebind (ok_or (checked_add u128_lim (cs_collateral_withdrawable_shares seat1) surplus_shares) ArithmeticOverflow) (\<lambda>w.
               Inr (seat1\<lparr>cs_collateral_withdrawable_shares := w\<rparr>))
             else Inr seat1) (\<lambda>seat2.
      Inr (set_seat m borrower_seat_index
             (if did_full_repay then seat2\<lparr>cs_open_borrow_count := saturating_sub (cs_open_borrow_count seat2) 1\<rparr>
              else seat2)))))))"

definition settled_seat :: "market \<Rightarrow> data_index \<Rightarrow> fp48 \<Rightarrow> nat \<Rightarrow> bool \<Rightarrow> market res" where
  "settled_seat m borrower_seat_index collateral_snapshot_fp48 withdrawn_atoms did_full_repay =
     (if 0 < withdrawn_atoms then
        ebind (atoms_to_shares_at_snapshot withdrawn_atoms collateral_snapshot_fp48) (\<lambda>collateral_shares_at_snapshot.
        ebind (get_helper_seat m borrower_seat_index) (\<lambda>seat.
        let seat1 = seat\<lparr>cs_collateral_encumbered_shares :=
                           saturating_sub (cs_collateral_encumbered_shares seat) collateral_shares_at_snapshot\<rparr> in
        Inr (set_seat m borrower_seat_index
               (if did_full_repay then seat1\<lparr>cs_open_borrow_count := saturating_sub (cs_open_borrow_count seat1) 1\<rparr>
                else seat1))))
      else Inr m)"

section \<open>The loan body\<close>

definition liquidation_protocol_cut :: "loan_type \<Rightarrow> nat \<Rightarrow> nat \<Rightarrow> nat res" where
  "liquidation_protocol_cut lt liquidation_protocol_bps actual_repay_atoms =
     (if lt = Fixed \<and> 0 < liquidation_protocol_bps
      then mul_div_u64 actual_repay_atoms liquidation_protocol_bps 10000 False else Inr 0)"

text \<open>Moving the protocol's cut of the payment from the lender's claim to the protocol's.\<close>

definition charge_protocol_cut :: "loan_fixed \<Rightarrow> nat \<Rightarrow> loan_fixed res" where
  "charge_protocol_cut loan liquidation_protocol_atoms =
     (if 0 < liquidation_protocol_atoms then
        let fee = min liquidation_protocol_atoms (ln_lender_claimable_atoms loan) in
        ebind (ok_or (checked_sub (ln_lender_claimable_atoms loan) fee) ArithmeticOverflow) (\<lambda>lc.
        ebind (ok_or (checked_add u64_lim (ln_accumulated_protocol_fee_atoms loan) fee) ArithmeticOverflow) (\<lambda>pf.
        Inr (loan\<lparr>ln_lender_claimable_atoms := lc, ln_accumulated_protocol_fee_atoms := pf\<rparr>)))
      else Inr loan)"

text \<open>When the collateral did not cover the target, the curator's fee goes back to the lender.\<close>

definition claw_back_curator_fee :: "loan_fixed \<Rightarrow> nat \<Rightarrow> loan_fixed res" where
  "claw_back_curator_fee loan bad_debt_gap_atoms =
     (if 0 < bad_debt_gap_atoms \<and> 0 < ln_accumulated_curator_fee_atoms loan then
        let clawback = ln_accumulated_curator_fee_atoms loan in
        ebind (ok_or (checked_add u64_lim (ln_lender_claimable_atoms loan) clawback) ArithmeticOverflow) (\<lambda>lc.
        Inr (loan\<lparr>ln_accumulated_curator_fee_atoms := 0, ln_lender_claimable_atoms := lc\<rparr>))
      else Inr loan)"

definition p2pool_body :: "loan_fixed \<Rightarrow> debt_result \<Rightarrow> nat \<Rightarrow> nat \<Rightarrow> loan_fixed" where
  "p2pool_body loan dr collateral_atoms withdrawn_atoms =
     (let loan1 = loan\<lparr>ln_borrower_marginfi_borrow_shares := dr_post_loan_shares dr\<rparr> in
      if dr_did_full_repay dr
      then loan1\<lparr>ln_outstanding_debt_atoms := 0, ln_collateral_atoms := 0, ln_state := loan_state_u8 Repaid\<rparr>
      else loan1\<lparr>ln_outstanding_debt_atoms := dr_post_outstanding_atoms dr,
                 ln_collateral_atoms := saturating_sub collateral_atoms withdrawn_atoms\<rparr>)"

definition close_body :: "loan_fixed \<Rightarrow> bool \<Rightarrow> nat \<Rightarrow> nat \<Rightarrow> loan_fixed" where
  "close_body loan did_full_repay collateral_atoms withdrawn_atoms =
     (if did_full_repay then loan\<lparr>ln_collateral_atoms := 0, ln_state := loan_state_u8 Repaid\<rparr>
      else loan\<lparr>ln_collateral_atoms := saturating_sub collateral_atoms withdrawn_atoms\<rparr>)"

definition liquidated_body ::
  "loan_type \<Rightarrow> loan_fixed \<Rightarrow> debt_result \<Rightarrow> nat \<Rightarrow> nat \<Rightarrow> nat \<Rightarrow> nat \<Rightarrow> nat \<Rightarrow> loan_fixed res" where
  "liquidated_body lt loan dr actual_repay_atoms collateral_atoms withdrawn_atoms liquidation_protocol_atoms bad_debt_gap_atoms =
     (if lt = P2Pool then Inr (p2pool_body loan dr collateral_atoms withdrawn_atoms)
      else
        ebind (apply_partial_resolution loan actual_repay_atoms) (\<lambda>(loan1, portions).
        ebind (charge_protocol_cut loan1 liquidation_protocol_atoms) (\<lambda>loan2.
        ebind (claw_back_curator_fee loan2 bad_debt_gap_atoms) (\<lambda>loan3.
        let loan4 = close_body loan3 (dr_did_full_repay dr) collateral_atoms withdrawn_atoms in
        ebind (assert_loan_conservation loan4) (\<lambda>_. Inr loan4)))))"

definition settled_body :: "loan_type \<Rightarrow> loan_fixed \<Rightarrow> debt_result \<Rightarrow> nat \<Rightarrow> nat \<Rightarrow> nat \<Rightarrow> nat \<Rightarrow> loan_fixed res" where
  "settled_body lt loan dr actual_repay_atoms collateral_atoms withdrawn_atoms liquidation_protocol_atoms =
     (if lt = P2Pool then Inr (p2pool_body loan dr collateral_atoms withdrawn_atoms)
      else
        ebind (apply_partial_resolution loan actual_repay_atoms) (\<lambda>(loan1, portions).
        ebind (charge_protocol_cut loan1 liquidation_protocol_atoms) (\<lambda>loan2.
        let loan3 = close_body loan2 (dr_did_full_repay dr) collateral_atoms withdrawn_atoms in
        ebind (assert_loan_conservation loan3) (\<lambda>_. Inr loan3))))"

text \<open>The lender's side of a fixed loan, on the loan as it stands after the payment.\<close>

definition keeper_close_out ::
  "programs \<Rightarrow> keeper_context \<Rightarrow> loan_type \<Rightarrow> int \<Rightarrow> debt_result \<Rightarrow> loan_fixed \<Rightarrow> market \<Rightarrow> global_vault option \<Rightarrow> pool \<Rightarrow>
   (market \<times> global_vault option) res" where
  "keeper_close_out pg ctx lt now dr loan m v p =
     (if lt = Fixed \<and> 0 < dr_credited_shares dr then
        ebind (if dr_did_full_repay dr \<and> 0 < ln_accumulated_protocol_fee_atoms loan
               then amount_to_asset_shares pg p (kc_debt_bank ctx) (ln_accumulated_protocol_fee_atoms loan)
               else Inr 0) (\<lambda>protocol_fee_shares.
        let lender_claim_shares = saturating_sub (dr_credited_shares dr) protocol_fee_shares in
        ebind (credit_lender m (ln_lender_seat_index loan) protocol_fee_shares lender_claim_shares (dr_did_full_repay dr)) (\<lambda>m1.
        ebind (if dr_did_full_repay dr
               then ebind (retire_on_vault v p (kc_debt_bank ctx) now loan) (\<lambda>v'. Inr (Some v'))
               else Inr v) (\<lambda>v1.
        Inr (m1, v1))))
      else Inr (m, v))"

section \<open>The instructions\<close>

text \<open>The state checks of the shared loader.\<close>

definition keeper_guards :: "global_config \<Rightarrow> market \<Rightarrow> global_vault option \<Rightarrow> loan_fixed \<Rightarrow> unit res" where
  "keeper_guards gc m v loan =
     ebind (require_global_not_paused gc) (\<lambda>_.
     ebind (require_market_not_paused m) (\<lambda>_.
     ebind (ln_loan_type_of loan) (\<lambda>lt.
     if lt = Fixed then
       ebind (require (0 < ln_outstanding_debt_atoms loan) (Custom InvalidArgument)) (\<lambda>_.
       ebind (ok_or v NotEnoughAccountKeys) require_vault_not_paused)
     else Inr ())))"

text \<open>What is to be repaid and seized, once the loan is found unhealthy.\<close>

definition liquidation_plan ::
  "programs \<Rightarrow> keeper_context \<Rightarrow> fp48 res \<Rightarrow> fp48 res \<Rightarrow> nat \<Rightarrow> int \<Rightarrow> market \<Rightarrow> loan_fixed \<Rightarrow> pool \<Rightarrow>
   (loan_fixed \<times> loan_type \<times> nat \<times> bool \<times> collateral_split) res" where
  "liquidation_plan pg ctx debt_price collateral_price repay_atoms_max now m loan p =
     (let debt_decimals = mk_debt_mint_decimals m; collateral_decimals = mk_collateral_mint_decimals m in
     ebind (require (ln_state loan \<noteq> loan_state_u8 Repaid) (Custom InvalidArgument)) (\<lambda>_.
     ebind (accrue_loan loan now) (\<lambda>loan.
     ebind (ln_loan_type_of loan) (\<lambda>lt.
     ebind (pool_live_outstanding loan p (kc_borrower_account ctx) (kc_debt_bank ctx)) (\<lambda>outstanding_live_atoms.
     ebind (assert_ltv_breach lt (ln_liquidation_ltv_bps loan) outstanding_live_atoms (ln_collateral_atoms loan)
              (keeper_readings pg ctx debt_price collateral_price p) debt_decimals collateral_decimals) (\<lambda>_.
     ebind debt_price (\<lambda>debt_price_fp48.
     ebind collateral_price (\<lambda>collateral_price_fp48.
     ebind (size_keeper_repay repay_atoms_max outstanding_live_atoms) (\<lambda>(actual_repay_atoms, is_full_repay).
     ebind (get_required_quote_collateral_to_back_debt actual_repay_atoms debt_price_fp48 collateral_price_fp48
              fp48_ONE fp48_ONE debt_decimals collateral_decimals) (\<lambda>repay_value_in_collateral_atoms.
     ebind (compute_collateral_split repay_value_in_collateral_atoms (ln_collateral_atoms loan)
              (fc_liquidation_keeper_bps (mk_fee_config m))) (\<lambda>split.
     Inr (loan, lt, actual_repay_atoms, is_full_repay, split))))))))))))"

text \<open>The keeper's payment, the debt it leaves, and the collateral paid out.\<close>

definition liquidation_flow ::
  "programs \<Rightarrow> keeper_context \<Rightarrow> loan_type \<Rightarrow> nat \<Rightarrow> bool \<Rightarrow> nat \<Rightarrow> loan_fixed \<Rightarrow> pool \<Rightarrow> (pool \<times> debt_result \<times> nat) res" where
  "liquidation_flow pg ctx lt actual_repay_atoms is_full_repay seizes_atoms loan p =
     ebind (require (actual_repay_atoms \<le> tk_amount (pl_tokens p (kc_debt_token ctx))) (Custom LiquidatorPaymentInsufficient)) (\<lambda>_.
     ebind (pg_transfer pg (kc_debt_token ctx) (kc_debt_vault ctx) actual_repay_atoms p) (\<lambda>p1.
     ebind (keeper_shares_before ctx lt loan p1) (\<lambda>(pre_loan_shares, pre_account_shares).
     ebind (liquidation_repay pg ctx lt pre_loan_shares pre_account_shares actual_repay_atoms is_full_repay p1) (\<lambda>(p2, credited).
     ebind (keeper_debt_result ctx lt pre_loan_shares pre_account_shares credited is_full_repay p2) (\<lambda>dr.
     ebind (keeper_withdraw pg ctx lt seizes_atoms p2) (\<lambda>(p3, withdrawn_atoms).
     Inr (p3, dr, withdrawn_atoms)))))))"

definition liquidation_booking ::
  "programs \<Rightarrow> keeper_context \<Rightarrow> loan_type \<Rightarrow> nat \<Rightarrow> collateral_split \<Rightarrow> debt_result \<Rightarrow> nat \<Rightarrow> int \<Rightarrow> market \<Rightarrow>
   global_vault option \<Rightarrow> loan_fixed \<Rightarrow> pool \<Rightarrow> (market \<times> global_vault option \<times> loan_fixed) res" where
  "liquidation_booking pg ctx lt actual_repay_atoms split dr withdrawn_atoms now m v loan p =
     ebind (liquidated_seat m (ln_borrower_seat_index loan) (ln_collateral_atoms loan)
              (ln_borrower_collateral_share_price_snapshot_fp48 loan) withdrawn_atoms (dr_did_full_repay dr)) (\<lambda>m1.
     ebind (liquidation_protocol_cut lt (fc_liquidation_protocol_bps (mk_fee_config m)) actual_repay_atoms) (\<lambda>liquidation_protocol_atoms.
     ebind (liquidated_body lt loan dr actual_repay_atoms (ln_collateral_atoms loan) withdrawn_atoms liquidation_protocol_atoms
              (sp_bad_debt_gap_atoms split)) (\<lambda>loan1.
     ebind (keeper_close_out pg ctx lt now dr loan1 m1 v p) (\<lambda>(m2, v1).
     Inr (m2, v1, loan1)))))"

definition process_liquidate_loan ::
  "programs \<Rightarrow> keeper_context \<Rightarrow> global_config \<Rightarrow> fp48 res \<Rightarrow> fp48 res \<Rightarrow> nat \<Rightarrow> int \<Rightarrow> market \<Rightarrow> global_vault option \<Rightarrow>
   loan_fixed \<Rightarrow> pool \<Rightarrow> keeper_outcome res" where
  "process_liquidate_loan pg ctx gc debt_price collateral_price repay_atoms_max now m v loan p =
     ebind (keeper_guards gc m v loan) (\<lambda>_.
     ebind (liquidation_plan pg ctx debt_price collateral_price repay_atoms_max now m loan p) (\<lambda>(header, lt, actual_repay_atoms, is_full_repay, split).
     ebind (liquidation_flow pg ctx lt actual_repay_atoms is_full_repay (sp_liquidator_seizes_atoms split) header p) (\<lambda>(p3, dr, withdrawn_atoms).
     ebind (liquidation_booking pg ctx lt actual_repay_atoms split dr withdrawn_atoms now m v header p3) (\<lambda>(m2, v1, loan1).
     Inr (m2, v1, if dr_did_full_repay dr then None else Some loan1, p3)))))"

text \<open>The collateral a settlement takes: all of it, or the repaid fraction.\<close>

definition settlement_seizes :: "nat \<Rightarrow> nat \<Rightarrow> nat \<Rightarrow> bool \<Rightarrow> nat res" where
  "settlement_seizes collateral_atoms actual_repay_atoms outstanding_live_atoms is_full_repay =
     (if is_full_repay then Inr collateral_atoms
      else mul_div_u64 collateral_atoms actual_repay_atoms outstanding_live_atoms False)"

definition staged_atoms :: "loan_type \<Rightarrow> nat \<Rightarrow> bool \<Rightarrow> nat" where
  "staged_atoms lt actual_repay_atoms is_full_repay =
     (if lt = P2Pool \<and> is_full_repay
      then saturating_add u64_lim (saturating_add u64_lim actual_repay_atoms (actual_repay_atoms div 50)) 64
      else actual_repay_atoms)"

text \<open>What is to be repaid and seized, once the loan is past its grace period.\<close>

definition settlement_plan ::
  "keeper_context \<Rightarrow> nat \<Rightarrow> int \<Rightarrow> market \<Rightarrow> loan_fixed \<Rightarrow> pool \<Rightarrow> (loan_fixed \<times> loan_type \<times> nat \<times> bool \<times> nat) res" where
  "settlement_plan ctx repay_atoms_max now m loan p =
     ebind (require (ln_state loan \<noteq> loan_state_u8 Repaid) (Custom InvalidArgument)) (\<lambda>_.
     ebind (accrue_loan loan now) (\<lambda>loan.
     ebind (ln_loan_type_of loan) (\<lambda>lt.
     ebind (assert_past_grace_period loan (fc_grace_period_seconds (mk_fee_config m)) now) (\<lambda>_.
     ebind (pool_live_outstanding loan p (kc_borrower_account ctx) (kc_debt_bank ctx)) (\<lambda>outstanding_live_atoms.
     ebind (require (0 < outstanding_live_atoms) (Custom InvalidArgument)) (\<lambda>_.
     ebind (size_keeper_repay repay_atoms_max outstanding_live_atoms) (\<lambda>(actual_repay_atoms, is_full_repay).
     ebind (settlement_seizes (ln_collateral_atoms loan) actual_repay_atoms outstanding_live_atoms is_full_repay) (\<lambda>seized_collateral_atoms.
     Inr (loan, lt, actual_repay_atoms, is_full_repay, seized_collateral_atoms)))))))))"

definition settlement_flow ::
  "programs \<Rightarrow> keeper_context \<Rightarrow> loan_type \<Rightarrow> nat \<Rightarrow> bool \<Rightarrow> nat \<Rightarrow> loan_fixed \<Rightarrow> pool \<Rightarrow> (pool \<times> debt_result \<times> nat) res" where
  "settlement_flow pg ctx lt actual_repay_atoms is_full_repay seized_collateral_atoms loan p =
     (let staged = staged_atoms lt actual_repay_atoms is_full_repay in
     ebind (require (staged \<le> tk_amount (pl_tokens p (kc_debt_token ctx))) (Custom LiquidatorPaymentInsufficient)) (\<lambda>_.
     let debt_vault_pre_stage = tk_amount (pl_tokens p (kc_debt_vault ctx)) in
     ebind (pg_transfer pg (kc_debt_token ctx) (kc_debt_vault ctx) staged p) (\<lambda>p1.
     ebind (keeper_shares_before ctx lt loan p1) (\<lambda>(pre_loan_shares, pre_account_shares).
     ebind (settlement_repay pg ctx lt pre_loan_shares pre_account_shares debt_vault_pre_stage actual_repay_atoms staged
              is_full_repay p1) (\<lambda>(p2, credited).
     ebind (keeper_debt_result ctx lt pre_loan_shares pre_account_shares credited is_full_repay p2) (\<lambda>dr.
     ebind (if 0 < seized_collateral_atoms then keeper_withdraw pg ctx lt seized_collateral_atoms p2 else Inr (p2, 0)) (\<lambda>(p3, withdrawn_atoms).
     Inr (p3, dr, withdrawn_atoms))))))))"

definition settlement_booking ::
  "programs \<Rightarrow> keeper_context \<Rightarrow> loan_type \<Rightarrow> nat \<Rightarrow> debt_result \<Rightarrow> nat \<Rightarrow> int \<Rightarrow> market \<Rightarrow>
   global_vault option \<Rightarrow> loan_fixed \<Rightarrow> pool \<Rightarrow> (market \<times> global_vault option \<times> loan_fixed) res" where
  "settlement_booking pg ctx lt actual_repay_atoms dr withdrawn_atoms now m v loan p =
     ebind (settled_seat m (ln_borrower_seat_index loan) (ln_borrower_collateral_share_price_snapshot_fp48 loan)
              withdrawn_atoms (dr_did_full_repay dr)) (\<lambda>m1.
     ebind (liquidation_protocol_cut lt (fc_liquidation_protocol_bps (mk_fee_config m)) actual_repay_atoms) (\<lambda>liquidation_protocol_atoms.
     ebind (settled_body lt loan dr actual_repay_atoms (ln_collateral_atoms loan) withdrawn_atoms liquidation_protocol_atoms) (\<lambda>loan1.
     ebind (keeper_close_out pg ctx lt now dr loan1 m1 v p) (\<lambda>(m2, v1).
     Inr (m2, v1, loan1)))))"

definition process_settle_matured_loan ::
  "programs \<Rightarrow> keeper_context \<Rightarrow> global_config \<Rightarrow> nat \<Rightarrow> int \<Rightarrow> market \<Rightarrow> global_vault option \<Rightarrow>
   loan_fixed \<Rightarrow> pool \<Rightarrow> keeper_outcome res" where
  "process_settle_matured_loan pg ctx gc repay_atoms_max now m v loan p =
     ebind (keeper_guards gc m v loan) (\<lambda>_.
     ebind (settlement_plan ctx repay_atoms_max now m loan p) (\<lambda>(header, lt, actual_repay_atoms, is_full_repay, seized).
     ebind (settlement_flow pg ctx lt actual_repay_atoms is_full_repay seized header p) (\<lambda>(p3, dr, withdrawn_atoms).
     ebind (settlement_booking pg ctx lt actual_repay_atoms dr withdrawn_atoms now m v header p3) (\<lambda>(m2, v1, loan1).
     Inr (m2, v1, if dr_did_full_repay dr then None else Some loan1, p3)))))"

section \<open>What a withdrawal delivers\<close>

text \<open>The lending program pays out at most the amount of the call: its withdraw transfers exactly that amount.\<close>

definition withdraws_at_most :: "programs \<Rightarrow> bool" where
  "withdraws_at_most pg =
     (\<forall>a b t n p p'. pg_withdraw pg a b t n False p = Inr p' \<longrightarrow>
        tk_amount (pl_tokens p' t) \<le> tk_amount (pl_tokens p t) + n)"

lemma floor_shares_worth:
  assumes s: "amount_to_asset_shares pg p b n = Inr sh" and v: "bank_asset_share_value p b = Inr asv"
  shows "sh * asv div SCALE div SCALE \<le> n"
proof -
  obtain fp where fp: "to_scaled n = Inr fp" and d: "div_scale fp asv = Inr sh"
    using s v unfolding amount_to_asset_shares_def by (elim ebind_InrE) simp
  have e: "fp = n * SCALE" "fp < u128_lim" using to_scaled_Inr[OF fp] by simp_all
  have "sh = n * SCALE * SCALE div asv" using div_scale_Inr[OF d e(2)] e(1) by simp
  then have "sh * asv \<le> n * SCALE * SCALE" using div_times_less_eq_dividend by simp
  then have "sh * asv div SCALE div SCALE \<le> n * SCALE * SCALE div SCALE div SCALE"
    by (intro div_le_mono)
  then show ?thesis using SCALE_pos by simp
qed

lemma adapter_withdraw_Inr:
  assumes w: "withdraws_at_most pg" and a: "adapter_withdraw pg accounts sh p = Inr (p', atoms, burned)"
  shows "\<exists>asv. bank_asset_share_value p (accounts ! 3) = Inr asv \<and> atoms \<le> sh * asv div SCALE div SCALE"
proof -
  let ?t = "accounts ! 4"
  obtain bk asv raw pre post where bk: "borrow_bank p (accounts ! 3) = Inr bk" and asv: "wrapped_i80f48_to_u128 (bk_asset_share_value bk) = Inr asv"
    and raw: "mul_scale sh asv = Inr raw" and pre: "token_balance_of p ?t = Inr pre"
    and call: "pg_withdraw pg (accounts ! 1) (accounts ! 3) ?t (from_scaled_floor raw) False p = Inr p'"
    and post: "token_balance_of p' ?t = Inr post" and atoms: "atoms = post - pre"
    using a unfolding adapter_withdraw_def Let_def
    by (elim ebind_InrE) (simp split: if_splits, elim ebind_InrE, simp split: if_splits, elim ebind_InrE, simp)
  have t: "pre = tk_amount (pl_tokens p ?t)" "post = tk_amount (pl_tokens p' ?t)"
    using pre post by (simp_all add: token_balance_of_def split: if_splits)
  have "post \<le> pre + from_scaled_floor raw" using w call unfolding withdraws_at_most_def t by blast
  moreover have "from_scaled_floor raw = sh * asv div SCALE div SCALE"
    using mul_scale_Inr[OF raw] by (simp add: from_scaled_floor_eq)
  ultimately have "atoms \<le> sh * asv div SCALE div SCALE" using atoms by simp
  moreover have "bank_asset_share_value p (accounts ! 3) = Inr asv" using bk asv by (simp add: bank_asset_share_value_def)
  ultimately show ?thesis by blast
qed

lemma keeper_withdraw_bound:
  assumes w: "withdraws_at_most pg" and k: "keeper_withdraw pg ctx lt n p = Inr (p', atoms)"
  shows "atoms \<le> n"
proof -
  obtain sh p1 burned where sh: "amount_to_asset_shares pg p (kc_collateral_bank ctx) n = Inr sh"
    and a: "adapter_withdraw pg (keeper_withdraw_accounts ctx lt) sh p = Inr (p1, atoms, burned)"
    using k unfolding keeper_withdraw_def by (elim ebind_InrE) (simp split: prod.splits, elim ebind_InrE, simp)
  have "keeper_withdraw_accounts ctx lt ! 3 = kc_collateral_bank ctx" by (simp add: keeper_withdraw_accounts_def)
  then obtain asv where "bank_asset_share_value p (kc_collateral_bank ctx) = Inr asv" "atoms \<le> sh * asv div SCALE div SCALE"
    using adapter_withdraw_Inr[OF w a] by auto
  then show ?thesis using floor_shares_worth[OF sh] le_trans by blast
qed

section \<open>Locks\<close>

lemma locked_shares_rest: "w \<le> c \<Longrightarrow> locked_shares (c - w) s + locked_shares w s \<le> locked_shares c s"
  using locked_shares_add[of "c - w" s w] by simp

text \<open>Taking a part of a lock leaves the rest locked.\<close>

lemma take_from_lock:
  assumes ok: "market_ok m" and b: "backed (\<lambda>j. ext j + owed i L j) m" and s: "get_helper_seat m i = Inr seat"
    and k: "seat_key seat' = seat_key seat"
    and e: "cs_collateral_encumbered_shares seat' = cs_collateral_encumbered_shares seat - t" and le: "t + L' \<le> L"
  shows "market_ok (set_seat m i seat') \<and> backed (\<lambda>j. ext j + owed i L' j) (set_seat m i seat')"
proof -
  have "market_ok (set_seat m i seat')" by (rule set_seat_ok[OF ok s k])
  moreover have "backed (\<lambda>j. ext j + owed i L' j) (set_seat m i seat')"
    by (rule backed_set_seat[OF b s]) (use backed_release_enough[OF b s] le e in \<open>auto simp: owed_def\<close>)
  ultimately show ?thesis ..
qed

lemma liquidated_seat_keeps:
  assumes ok: "market_ok m" and b: "backed (\<lambda>j. ext j + owed i (locked_shares c sn) j) m"
    and w: "w \<le> c" "c < u64_lim" and r: "liquidated_seat m i c sn w full = Inr m'"
  shows "market_ok m' \<and> backed (\<lambda>j. ext j + owed i (if full then 0 else locked_shares (c - w) sn) j) m'"
proof -
  obtain seat rel q seat' where s: "get_helper_seat m i = Inr seat"
    and rel: "atoms_to_shares_at_snapshot (if full then c else w) sn = Inr rel"
    and seat': "seat' = seat\<lparr>cs_collateral_encumbered_shares := cs_collateral_encumbered_shares seat - rel,
        cs_collateral_withdrawable_shares := q, cs_open_borrow_count := (if full then cs_open_borrow_count seat - 1 else cs_open_borrow_count seat)\<rparr>"
    and m': "m' = set_seat m i seat'"
  proof -
    obtain sur seat rel s2 where x: "get_helper_seat m i = Inr seat"
        "(if full then atoms_to_shares_at_snapshot c sn else atoms_to_shares_at_snapshot w sn) = Inr rel"
      and y: "(let seat1 = seat\<lparr>cs_collateral_encumbered_shares := cs_collateral_encumbered_shares seat - rel\<rparr> in
         if 0 < sur then
               ebind (ok_or (checked_add u128_lim (cs_collateral_withdrawable_shares seat1) sur) ArithmeticOverflow) (\<lambda>w.
               Inr (seat1\<lparr>cs_collateral_withdrawable_shares := w\<rparr>))
             else Inr seat1) = Inr s2"
      and z: "m' = set_seat m i (if full then s2\<lparr>cs_open_borrow_count := cs_open_borrow_count s2 - 1\<rparr> else s2)"
      using r unfolding liquidated_seat_def Let_def saturating_sub_minus by (elim ebind_InrE) simp
    have "\<exists>q. s2 = seat\<lparr>cs_collateral_encumbered_shares := cs_collateral_encumbered_shares seat - rel, cs_collateral_withdrawable_shares := q\<rparr>"
    proof (cases "0 < sur")
      case True
      then show ?thesis using y by (auto simp: Let_def elim!: ebind_InrE)
    next
      case False
      then have "s2 = seat\<lparr>cs_collateral_encumbered_shares := cs_collateral_encumbered_shares seat - rel\<rparr>"
        using y by (simp add: Let_def)
      then show ?thesis by (intro exI[of _ "cs_collateral_withdrawable_shares seat"]) simp
    qed
    then obtain q where q: "s2 = seat\<lparr>cs_collateral_encumbered_shares := cs_collateral_encumbered_shares seat - rel, cs_collateral_withdrawable_shares := q\<rparr>"
      by blast
    show thesis by (rule that[OF x(1) _ refl, of rel q]) (use x(2) z q in \<open>cases full; simp\<close>)+
  qed
  have a: "(if full then c else w) < u64_lim" using w by auto
  have l: "rel = locked_shares (if full then c else w) sn" using atoms_to_shares_locked[OF a rel] by simp
  show ?thesis unfolding m'
    by (rule take_from_lock[OF ok b s, where t = rel]) (use locked_shares_rest[OF w(1), of sn] in \<open>auto simp: seat' seat_key_def l\<close>)
qed

lemma settled_seat_keeps:
  assumes ok: "market_ok m" and b: "backed (\<lambda>j. ext j + owed i (locked_shares c sn) j) m"
    and w: "w \<le> c" "c < u64_lim" and r: "settled_seat m i sn w full = Inr m'"
  shows "market_ok m' \<and> backed (\<lambda>j. ext j + owed i (locked_shares (c - w) sn) j) m'"
proof (cases "0 < w")
  case True
  then obtain rel seat where rel: "atoms_to_shares_at_snapshot w sn = Inr rel" and s: "get_helper_seat m i = Inr seat"
    and m': "m' = set_seat m i (let s1 = seat\<lparr>cs_collateral_encumbered_shares := cs_collateral_encumbered_shares seat - rel\<rparr> in
      if full then s1\<lparr>cs_open_borrow_count := cs_open_borrow_count s1 - 1\<rparr> else s1)"
    using r unfolding settled_seat_def Let_def saturating_sub_minus by simp (elim ebind_InrE, simp)
  have l: "rel = locked_shares w sn" using atoms_to_shares_locked[OF _ rel] w by simp
  show ?thesis unfolding m'
    by (rule take_from_lock[OF ok b s, where t = rel])
      (use locked_shares_rest[OF w(1), of sn] in \<open>auto simp: seat_key_def l Let_def\<close>)
next
  case False
  then have "m' = m" using r by (simp add: settled_seat_def)
  then show ?thesis using ok b False by simp
qed

section \<open>The loan that is left\<close>

lemma close_body_lock:
  "same_terms loan loan1 \<Longrightarrow> loan_lock (close_body loan1 False c w) =
    owed (ln_borrower_seat_index loan) (locked_shares (c - w) (ln_borrower_collateral_share_price_snapshot_fp48 loan))"
  by (simp add: close_body_def loan_lock_def same_terms_def)

lemma charge_terms: "charge_protocol_cut loan a = Inr loan' \<Longrightarrow> same_terms loan loan'"
  by (auto simp: charge_protocol_cut_def Let_def same_terms_def lent_of_def split: if_splits elim!: ebind_InrE)

lemma claw_back_terms: "claw_back_curator_fee loan a = Inr loan' \<Longrightarrow> same_terms loan loan'"
  by (auto simp: claw_back_curator_fee_def Let_def same_terms_def lent_of_def split: if_splits elim!: ebind_InrE)

lemma same_terms_trans: "same_terms a b \<Longrightarrow> same_terms b c \<Longrightarrow> same_terms a c"
  by (simp add: same_terms_def)

lemma p2pool_body_lock:
  "\<not> dr_did_full_repay dr \<Longrightarrow> loan_lock (p2pool_body loan dr c w) =
    owed (ln_borrower_seat_index loan) (locked_shares (c - w) (ln_borrower_collateral_share_price_snapshot_fp48 loan))"
  by (simp add: p2pool_body_def loan_lock_def Let_def)

lemma liquidated_body_lock:
  assumes "liquidated_body lt loan dr a c w pa gap = Inr loan'" "\<not> dr_did_full_repay dr"
  shows "loan_lock loan' = owed (ln_borrower_seat_index loan) (locked_shares (c - w) (ln_borrower_collateral_share_price_snapshot_fp48 loan))"
proof (cases "lt = P2Pool")
  case True
  then have "loan' = p2pool_body loan dr c w" using assms by (simp add: liquidated_body_def)
  then show ?thesis by (simp add: p2pool_body_lock[OF assms(2)])
next
  case False
  then obtain l1 r l2 l3 where x: "apply_partial_resolution loan a = Inr (l1, r)" "charge_protocol_cut l1 pa = Inr l2"
    "claw_back_curator_fee l2 gap = Inr l3" and l': "loan' = close_body l3 False c w"
    using assms unfolding liquidated_body_def Let_def by simp (elim ebind_InrE, simp split: prod.splits, elim ebind_InrE, simp)
  have "same_terms loan l2" by (rule same_terms_trans[OF conjunct1[OF resolution_terms[OF x(1)]] charge_terms[OF x(2)]])
  then have "same_terms loan l3" by (rule same_terms_trans[OF _ claw_back_terms[OF x(3)]])
  then show ?thesis unfolding l' by (rule close_body_lock)
qed

lemma settled_body_lock:
  assumes "settled_body lt loan dr a c w pa = Inr loan'" "\<not> dr_did_full_repay dr"
  shows "loan_lock loan' = owed (ln_borrower_seat_index loan) (locked_shares (c - w) (ln_borrower_collateral_share_price_snapshot_fp48 loan))"
proof (cases "lt = P2Pool")
  case True
  then have "loan' = p2pool_body loan dr c w" using assms by (simp add: settled_body_def)
  then show ?thesis by (simp add: p2pool_body_lock[OF assms(2)])
next
  case False
  then obtain l1 r l2 where x: "apply_partial_resolution loan a = Inr (l1, r)" "charge_protocol_cut l1 pa = Inr l2"
    and l': "loan' = close_body l2 False c w"
    using assms unfolding settled_body_def Let_def by simp (elim ebind_InrE, simp split: prod.splits, elim ebind_InrE, simp)
  have "same_terms loan l2" by (rule same_terms_trans[OF conjunct1[OF resolution_terms[OF x(1)]] charge_terms[OF x(2)]])
  then show ?thesis unfolding l' by (rule close_body_lock)
qed

lemma keeper_close_out_keeps:
  assumes ok: "market_ok m" and b: "backed ext m" and k: "keeper_close_out pg ctx lt now dr loan m v p = Inr (m', v')"
  shows "market_ok m' \<and> backed ext m'"
proof (cases "lt = Fixed \<and> 0 < dr_credited_shares dr")
  case True
  then obtain fee claim where "credit_lender m (ln_lender_seat_index loan) fee claim (dr_did_full_repay dr) = Inr m'"
    using k unfolding keeper_close_out_def Let_def by simp (elim ebind_InrE, simp)
  then show ?thesis by (rule credit_lender_keeps[OF ok b])
next
  case False
  then have "m' = m" using k unfolding keeper_close_out_def by (simp only: if_False split: if_splits) simp
  then show ?thesis using ok b by simp
qed

section \<open>What the instructions keep\<close>

lemma liquidation_plan_Inr:
  assumes "liquidation_plan pg ctx dp cp rmax now m loan p = Inr (header, lt, a, full, split)"
  obtains live dpv cpv val where
    "accrue_loan loan now = Inr header" "ln_loan_type_of header = Inr lt" "ln_state loan \<noteq> loan_state_u8 Repaid"
    "pool_live_outstanding header p (kc_borrower_account ctx) (kc_debt_bank ctx) = Inr live"
    "assert_ltv_breach lt (ln_liquidation_ltv_bps header) live (ln_collateral_atoms header) (keeper_readings pg ctx dp cp p)
       (mk_debt_mint_decimals m) (mk_collateral_mint_decimals m) = Inr ()"
    "dp = Inr dpv" "cp = Inr cpv" "size_keeper_repay rmax live = Inr (a, full)"
    "get_required_quote_collateral_to_back_debt a dpv cpv fp48_ONE fp48_ONE (mk_debt_mint_decimals m) (mk_collateral_mint_decimals m) = Inr val"
    "compute_collateral_split val (ln_collateral_atoms header) (fc_liquidation_keeper_bps (mk_fee_config m)) = Inr split"
  using assms unfolding liquidation_plan_def Let_def
  by (elim ebind_InrE) (simp only: require_Inr split_paired_all prod.case, elim ebind_InrE, simp)

lemma debt_result_full:
  "keeper_debt_result ctx lt a b cr full p = Inr dr \<Longrightarrow> lt = Fixed \<Longrightarrow> dr_did_full_repay dr = full \<and> dr_credited_shares dr = cr"
  by (auto simp: keeper_debt_result_def)

lemma liquidation_flow_Inr:
  assumes "liquidation_flow pg ctx lt a full n loan p = Inr (p', dr, w)"
  shows "is_ok (pg_transfer pg (kc_debt_token ctx) (kc_debt_vault ctx) a p) \<and> (\<exists>p2. keeper_withdraw pg ctx lt n p2 = Inr (p', w)) \<and>
    (lt = Fixed \<longrightarrow> dr_did_full_repay dr = full)"
  using assms unfolding liquidation_flow_def
  by (elim result_elims) (auto simp: is_ok_iff dest: debt_result_full)

lemma liquidation_booking_keeps:
  assumes ok: "market_ok m" and b: "backed (\<lambda>j. ext j + loan_lock loan j) m"
    and w: "w \<le> ln_collateral_atoms loan" "ln_collateral_atoms loan < u64_lim"
    and r: "liquidation_booking pg ctx lt a split dr w now m v loan p = Inr (m', v', loan')"
  shows "market_ok m' \<and> backed (\<lambda>j. ext j + slot_lock (if dr_did_full_repay dr then None else Some loan') j) m'"
proof -
  let ?i = "ln_borrower_seat_index loan" and ?sn = "ln_borrower_collateral_share_price_snapshot_fp48 loan"
  obtain m1 pa where m1: "liquidated_seat m ?i (ln_collateral_atoms loan) ?sn w (dr_did_full_repay dr) = Inr m1"
    and body: "liquidated_body lt loan dr a (ln_collateral_atoms loan) w pa (sp_bad_debt_gap_atoms split) = Inr loan'"
    and cl: "keeper_close_out pg ctx lt now dr loan' m1 v p = Inr (m', v')"
    using r unfolding liquidation_booking_def by (elim ebind_InrE) (simp only: split_paired_all prod.case, simp)
  note k = liquidated_seat_keeps[OF ok b[unfolded loan_lock_def] w m1]
  show ?thesis
  proof (cases "dr_did_full_repay dr")
    case True
    then have "market_ok m1" "backed ext m1" using k backed_mono[of _ m1 ext] by auto
    then show ?thesis using keeper_close_out_keeps[OF _ _ cl] True by simp
  next
    case False
    then have "market_ok m1" "backed (\<lambda>j. ext j + loan_lock loan' j) m1"
      using k liquidated_body_lock[OF body False] by simp_all
    then show ?thesis using keeper_close_out_keeps[OF _ _ cl] False by simp
  qed
qed

lemma process_liquidate_loan_Inr:
  assumes "process_liquidate_loan pg ctx gc dp cp rmax now m v loan p = Inr (m', v', slot', p')"
  obtains header lt a full split dr w loan1 where "keeper_guards gc m v loan = Inr ()"
    "liquidation_plan pg ctx dp cp rmax now m loan p = Inr (header, lt, a, full, split)"
    "liquidation_flow pg ctx lt a full (sp_liquidator_seizes_atoms split) header p = Inr (p', dr, w)"
    "liquidation_booking pg ctx lt a split dr w now m v header p' = Inr (m', v', loan1)"
    "slot' = (if dr_did_full_repay dr then None else Some loan1)"
proof -
  obtain header lt a full split dr w p3 m2 v1 loan1 u where x: "keeper_guards gc m v loan = Inr u"
    "liquidation_plan pg ctx dp cp rmax now m loan p = Inr (header, lt, a, full, split)"
    "liquidation_flow pg ctx lt a full (sp_liquidator_seizes_atoms split) header p = Inr (p3, dr, w)"
    "liquidation_booking pg ctx lt a split dr w now m v header p3 = Inr (m2, v1, loan1)"
    and y: "Inr (m2, v1, if dr_did_full_repay dr then None else Some loan1, p3) = (Inr (m', v', slot', p') :: keeper_outcome res)"
    using assms unfolding process_liquidate_loan_def
    by (elim result_elims) (hypsubst, rule that, assumption+)
  show thesis by (rule that[of header lt a full split dr w loan1]) (use x y in simp_all)
qed

lemma split_bounds:
  assumes "compute_collateral_split val c bps = Inr split"
  shows "sp_liquidator_seizes_atoms split \<le> c \<and> bps \<le> MAX_LIQUIDATION_KEEPER_BPS \<and>
    sp_liquidator_seizes_atoms split \<le> val + val * bps div 10000 \<and>
    sp_liquidator_seizes_atoms split + sp_surplus_atoms split = c"
proof -
  obtain bonus where b: "mul_div_u64 val bps 10000 False = Inr bonus" and bps: "bps \<le> MAX_LIQUIDATION_KEEPER_BPS"
    and s: "sp_liquidator_seizes_atoms split = min c (saturating_add u64_lim val bonus)"
      "sp_surplus_atoms split = c - min c (saturating_add u64_lim val bonus)"
    using assms unfolding compute_collateral_split_def Let_def by (elim result_elims) (auto simp: require_Inr)
  have "bonus = val * bps div 10000"
    by (rule mul_div_u64_floor_div[OF b])
  then show ?thesis using bps s saturating_add_le[of u64_lim val bonus] by (simp add: min_def)
qed

lemma sized_bounds:
  assumes "size_keeper_repay rmax live = Inr (a, full)"
  shows "0 < a \<and> a \<le> live \<and> (full \<longleftrightarrow> a = live) \<and> (a < live \<longrightarrow> 1000 \<le> a \<and> live div 100 \<le> a)"
  using assms by (auto simp: size_keeper_repay_def Let_def require_Inr MIN_PARTIAL_REPAY_FLOOR_ATOMS_def
      split: if_splits elim!: ebind_InrE)

lemma process_liquidate_loan_keeps:
  assumes wd: "withdraws_at_most pg" and ok: "market_ok m" and b: "backed (\<lambda>j. ext j + loan_lock loan j) m"
    and c: "ln_collateral_atoms loan < u64_lim"
    and r: "process_liquidate_loan pg ctx gc dp cp rmax now m v loan p = Inr (m', v', slot', p')"
  shows "market_ok m' \<and> backed (\<lambda>j. ext j + slot_lock slot' j) m'"
proof -
  obtain header lt a full split dr w loan1 where
    pl: "liquidation_plan pg ctx dp cp rmax now m loan p = Inr (header, lt, a, full, split)"
    and fl: "liquidation_flow pg ctx lt a full (sp_liquidator_seizes_atoms split) header p = Inr (p', dr, w)"
    and bk: "liquidation_booking pg ctx lt a split dr w now m v header p' = Inr (m', v', loan1)"
    and s: "slot' = (if dr_did_full_repay dr then None else Some loan1)"
    by (rule process_liquidate_loan_Inr[OF r])
  obtain val where h: "accrue_loan loan now = Inr header"
    and sp: "compute_collateral_split val (ln_collateral_atoms header) (fc_liquidation_keeper_bps (mk_fee_config m)) = Inr split"
    by (rule liquidation_plan_Inr[OF pl])
  have t: "same_terms loan header" by (rule accrue_loan_terms[OF h])
  then have c': "ln_collateral_atoms header < u64_lim" using c by (simp add: same_terms_def)
  have b': "backed (\<lambda>j. ext j + loan_lock header j) m" using b same_terms_lock[OF t] by simp
  obtain p2 where "keeper_withdraw pg ctx lt (sp_liquidator_seizes_atoms split) p2 = Inr (p', w)"
    using liquidation_flow_Inr[OF fl] by blast
  then have "w \<le> sp_liquidator_seizes_atoms split" by (rule keeper_withdraw_bound[OF wd])
  then have "w \<le> ln_collateral_atoms header" using split_bounds[OF sp] by linarith
  then show ?thesis unfolding s by (rule liquidation_booking_keeps[OF ok b' _ c' bk])
qed

lemma settlement_plan_Inr:
  assumes "settlement_plan ctx rmax now m loan p = Inr (header, lt, a, full, seized)"
  obtains live where
    "accrue_loan loan now = Inr header" "ln_loan_type_of header = Inr lt" "ln_state loan \<noteq> loan_state_u8 Repaid"
    "assert_past_grace_period header (fc_grace_period_seconds (mk_fee_config m)) now = Inr ()"
    "pool_live_outstanding header p (kc_borrower_account ctx) (kc_debt_bank ctx) = Inr live"
    "size_keeper_repay rmax live = Inr (a, full)" "settlement_seizes (ln_collateral_atoms header) a live full = Inr seized"
  using assms unfolding settlement_plan_def
  by (elim result_elims) (simp add: require_Inr)

lemma settlement_flow_Inr:
  assumes "settlement_flow pg ctx lt a full n loan p = Inr (p', dr, w)"
  shows "is_ok (pg_transfer pg (kc_debt_token ctx) (kc_debt_vault ctx) (staged_atoms lt a full) p) \<and>
    (w = 0 \<or> (\<exists>p2. keeper_withdraw pg ctx lt n p2 = Inr (p', w))) \<and> (lt = Fixed \<longrightarrow> dr_did_full_repay dr = full)"
proof -
  obtain p1 p2 p3 a1 a2 cr where "pg_transfer pg (kc_debt_token ctx) (kc_debt_vault ctx) (staged_atoms lt a full) p = Inr p1"
    "keeper_debt_result ctx lt a1 a2 cr full p2 = Inr dr"
    "(if 0 < n then keeper_withdraw pg ctx lt n p2 else Inr (p2, 0)) = Inr (p', w)"
    using assms unfolding settlement_flow_def Let_def by (elim result_elims) (hypsubst, simp)
  then show ?thesis using debt_result_full by (auto simp: is_ok_iff split: if_splits)
qed

lemma settlement_booking_keeps:
  assumes ok: "market_ok m" and b: "backed (\<lambda>j. ext j + loan_lock loan j) m"
    and w: "w \<le> ln_collateral_atoms loan" "ln_collateral_atoms loan < u64_lim"
    and r: "settlement_booking pg ctx lt a dr w now m v loan p = Inr (m', v', loan')"
  shows "market_ok m' \<and> backed (\<lambda>j. ext j + slot_lock (if dr_did_full_repay dr then None else Some loan') j) m'"
proof -
  let ?i = "ln_borrower_seat_index loan" and ?sn = "ln_borrower_collateral_share_price_snapshot_fp48 loan"
  obtain m1 pa where m1: "settled_seat m ?i ?sn w (dr_did_full_repay dr) = Inr m1"
    and body: "settled_body lt loan dr a (ln_collateral_atoms loan) w pa = Inr loan'"
    and cl: "keeper_close_out pg ctx lt now dr loan' m1 v p = Inr (m', v')"
    using r unfolding settlement_booking_def by (elim result_elims) (hypsubst, simp)
  note k = settled_seat_keeps[OF ok b[unfolded loan_lock_def] w m1]
  show ?thesis
  proof (cases "dr_did_full_repay dr")
    case True
    then have "market_ok m1" "backed ext m1" using k backed_mono[of _ m1 ext] by auto
    then show ?thesis using keeper_close_out_keeps[OF _ _ cl] True by simp
  next
    case False
    then have "market_ok m1" "backed (\<lambda>j. ext j + loan_lock loan' j) m1"
      using k settled_body_lock[OF body False] by simp_all
    then show ?thesis using keeper_close_out_keeps[OF _ _ cl] False by simp
  qed
qed

lemma process_settle_matured_loan_Inr:
  assumes "process_settle_matured_loan pg ctx gc rmax now m v loan p = Inr (m', v', slot', p')"
  obtains header lt a full seized dr w loan1 where "keeper_guards gc m v loan = Inr ()"
    "settlement_plan ctx rmax now m loan p = Inr (header, lt, a, full, seized)"
    "settlement_flow pg ctx lt a full seized header p = Inr (p', dr, w)"
    "settlement_booking pg ctx lt a dr w now m v header p' = Inr (m', v', loan1)"
    "slot' = (if dr_did_full_repay dr then None else Some loan1)"
proof -
  obtain header lt a full seized dr w p3 m2 v1 loan1 u where x: "keeper_guards gc m v loan = Inr u"
    "settlement_plan ctx rmax now m loan p = Inr (header, lt, a, full, seized)"
    "settlement_flow pg ctx lt a full seized header p = Inr (p3, dr, w)"
    "settlement_booking pg ctx lt a dr w now m v header p3 = Inr (m2, v1, loan1)"
    and y: "Inr (m2, v1, if dr_did_full_repay dr then None else Some loan1, p3) = (Inr (m', v', slot', p') :: keeper_outcome res)"
    using assms unfolding process_settle_matured_loan_def
    by (elim result_elims) (hypsubst, rule that, assumption+)
  show thesis by (rule that[of header lt a full seized dr w loan1]) (use x y in simp_all)
qed

lemma settlement_seizes_bounds:
  assumes "settlement_seizes c a live full = Inr s" "a \<le> live" "full \<longleftrightarrow> a = live"
  shows "s \<le> c \<and> s * live \<le> c * a"
proof (cases full)
  case True
  then show ?thesis using assms by (simp add: settlement_seizes_def)
next
  case False
  then have m: "mul_div_u64 c a live False = Inr s" using assms by (simp add: settlement_seizes_def)
  have "s = c * a div live" by (rule mul_div_u64_floor_div[OF m])
  moreover have "0 < live" using False assms by (cases live) auto
  ultimately show ?thesis using mul_div_u64_floor_le[OF m] floor_share_le[of live a c] assms(2) by simp
qed

lemma settlement_withdraws:
  assumes wd: "withdraws_at_most pg" and fl: "settlement_flow pg ctx lt a full n loan p = Inr (p', dr, w)"
  shows "w \<le> n"
  using settlement_flow_Inr[OF fl] keeper_withdraw_bound[OF wd] by blast

lemma process_settle_matured_loan_keeps:
  assumes wd: "withdraws_at_most pg" and ok: "market_ok m" and b: "backed (\<lambda>j. ext j + loan_lock loan j) m"
    and c: "ln_collateral_atoms loan < u64_lim"
    and r: "process_settle_matured_loan pg ctx gc rmax now m v loan p = Inr (m', v', slot', p')"
  shows "market_ok m' \<and> backed (\<lambda>j. ext j + slot_lock slot' j) m'"
proof -
  obtain header lt a full seized dr w loan1 where
    pl: "settlement_plan ctx rmax now m loan p = Inr (header, lt, a, full, seized)"
    and fl: "settlement_flow pg ctx lt a full seized header p = Inr (p', dr, w)"
    and bk: "settlement_booking pg ctx lt a dr w now m v header p' = Inr (m', v', loan1)"
    and s: "slot' = (if dr_did_full_repay dr then None else Some loan1)"
    by (rule process_settle_matured_loan_Inr[OF r])
  obtain live where h: "accrue_loan loan now = Inr header" and z: "size_keeper_repay rmax live = Inr (a, full)"
    and se: "settlement_seizes (ln_collateral_atoms header) a live full = Inr seized"
    by (rule settlement_plan_Inr[OF pl])
  have t: "same_terms loan header" by (rule accrue_loan_terms[OF h])
  then have c': "ln_collateral_atoms header < u64_lim" using c by (simp add: same_terms_def)
  have b': "backed (\<lambda>j. ext j + loan_lock header j) m" using b same_terms_lock[OF t] by simp
  have "w \<le> ln_collateral_atoms header"
    using settlement_withdraws[OF wd fl] settlement_seizes_bounds[OF se] sized_bounds[OF z] by linarith
  then show ?thesis unfolding s by (rule settlement_booking_keeps[OF ok b' _ c' bk])
qed

section \<open>A keeper\<close>

definition keeper_example :: keeper_context where
  "keeper_example = \<lparr> kc_payer = 8, kc_market_key = 3, kc_loan_key = 50, kc_debt_token = 40, kc_collateral_token = 41,
     kc_debt_vault = 22, kc_collateral_vault = 42, kc_market_signer = 25, kc_lender_account = 23, kc_borrower_account = 24,
     kc_debt_bank = 1, kc_collateral_bank = 2, kc_debt_liquidity_vault = 15, kc_collateral_liquidity_vault = 43,
     kc_collateral_lva = 44, kc_debt_oracles = [18], kc_collateral_oracles = [19], kc_token_program = 16, kc_group = 10,
     kc_marginfi_program = 99 \<rparr>"

text \<open>The loan of 1000 atoms, liquidatable above 80 per cent and past its maturity.\<close>

definition distressed_loan :: loan_fixed where
  "distressed_loan = thousand_loan\<lparr>ln_liquidation_ltv_bps := 8000, ln_matures_at_unix := - 90000\<rparr>"

lemma distressed_fields:
  "ln_outstanding_debt_atoms distressed_loan = 1000" "ln_collateral_atoms distressed_loan = 5000"
  "ln_borrower_seat_index distressed_loan = 0" "ln_borrower_collateral_share_price_snapshot_fp48 distressed_loan = SCALE"
  "ln_loan_type_of distressed_loan = Inr Fixed" "ln_state distressed_loan = 0" "ln_liquidation_ltv_bps distressed_loan = 8000"
  "accrue_loan distressed_loan 10 = Inr distressed_loan" "ln_matures_at_unix distressed_loan = - 90000"
  "loan_lock distressed_loan = loan_lock thousand_loan"
  by (simp_all add: distressed_loan_def thousand_loan_def new_from_matched_loan_with_lender_def ln_loan_type_of_def
      loan_type_from_u8_def accrue_loan_def loan_lock_def)

lemma sample_withdraws: "withdraws_at_most sample_programs"
proof -
  have "tk_amount (pl_tokens p' t) \<le> tk_amount (pl_tokens p t) + n"
    if "pg_withdraw sample_programs a b t n False p = Inr p'" for a b t n p p'
    using that by (auto simp: sample_programs_def token_in_def add_assets_def set_balance_def Let_def split: if_splits)
  then show ?thesis unfolding withdraws_at_most_def by blast
qed

lemma keeper_example_flow:
  "\<exists>p'. liquidation_flow sample_programs keeper_example Fixed 1000 True 5000 distressed_loan sample_pool =
     Inr (p', \<lparr> dr_credited_shares = 1000 * SCALE, dr_post_loan_shares = 0, dr_did_full_repay = True, dr_post_outstanding_atoms = 0 \<rparr>, 5000) \<and>
     pl_banks p' 1 = sample_bank"
  by (simp add: liquidation_flow_def keeper_shares_before_def liquidation_repay_def keeper_debt_result_def keeper_withdraw_def
      keeper_debt_accounts_def keeper_withdraw_accounts_def keeper_example_def sample_eval adapter_deposit_def adapter_withdraw_def
      check_accounts_def DEPOSIT_EXPLICIT_ACCOUNTS_def WITHDRAW_EXPLICIT_ACCOUNTS_def borrow_bank_def read_asset_shares_u128_def
      borrow_marginfi_account_def wrapped_i80f48_to_u128_def amount_to_asset_shares_def assert_marginfi_owned_def require_def
      bank_asset_share_value_def to_scaled_eq div_scale_eq mul_scale_eq from_scaled_floor_eq token_balance_of_def lim_defs
      SCALE_def Let_def cong: ebind_weak_cong)

lemma keeper_example_settlement_flow:
  "\<exists>p'. settlement_flow sample_programs keeper_example Fixed 1000 True 5000 distressed_loan sample_pool =
     Inr (p', \<lparr> dr_credited_shares = 1000 * SCALE, dr_post_loan_shares = 0, dr_did_full_repay = True, dr_post_outstanding_atoms = 0 \<rparr>, 5000) \<and>
     pl_banks p' 1 = sample_bank"
  by (simp add: settlement_flow_def settlement_repay_def staged_atoms_def keeper_shares_before_def liquidation_repay_def keeper_debt_result_def keeper_withdraw_def
      keeper_debt_accounts_def keeper_withdraw_accounts_def keeper_example_def sample_eval adapter_deposit_def adapter_withdraw_def
      check_accounts_def DEPOSIT_EXPLICIT_ACCOUNTS_def WITHDRAW_EXPLICIT_ACCOUNTS_def borrow_bank_def read_asset_shares_u128_def
      borrow_marginfi_account_def wrapped_i80f48_to_u128_def amount_to_asset_shares_def assert_marginfi_owned_def require_def
      bank_asset_share_value_def to_scaled_eq div_scale_eq mul_scale_eq from_scaled_floor_eq token_balance_of_def lim_defs
      SCALE_def Let_def cong: ebind_weak_cong)

lemma keeper_example_plan:
  "liquidation_plan sample_programs keeper_example (Inr (6 * SCALE)) (Inr SCALE) 0 10 closing_market distressed_loan sample_pool =
     Inr (distressed_loan, Fixed, 1000, True, \<lparr> sp_liquidator_seizes_atoms = 5000, sp_surplus_atoms = 0,
       sp_bad_debt_gap_atoms = 1000, sp_bonus_atoms = 0 \<rparr>)"
  by (simp add: liquidation_plan_def distressed_fields pool_live_outstanding_def assert_ltv_breach_def keeper_readings_def
      size_keeper_repay_def compute_collateral_split_def MAX_LIQUIDATION_KEEPER_BPS_def closing_market_def example_defs fee_config_default_def
      mul_div_u64_floor_Inr mul_div_u64_def mul_div_eq narrow_def saturating_add_def ltv_eval cong: ebind_weak_cong)

lemma keeper_example_settlement_plan:
  "settlement_plan keeper_example 0 10 closing_market distressed_loan sample_pool = Inr (distressed_loan, Fixed, 1000, True, 5000)"
  by (simp add: settlement_plan_def distressed_fields pool_live_outstanding_def assert_past_grace_period_def
      size_keeper_repay_def settlement_seizes_def closing_market_def example_defs fee_config_default_def
      DEFAULT_GRACE_PERIOD_SECONDS_def i64_checked_add_def i64_lim_def cong: ebind_weak_cong)

definition closed_out :: loan_fixed where
  "closed_out = distressed_loan\<lparr>ln_outstanding_debt_atoms := 0, ln_collateral_atoms := 0, ln_state := 3,
     ln_principal_retired_atoms := 1000\<rparr>"

abbreviation paid_in_full :: debt_result where
  "paid_in_full \<equiv> \<lparr> dr_credited_shares = 1000 * SCALE, dr_post_loan_shares = 0, dr_did_full_repay = True, dr_post_outstanding_atoms = 0 \<rparr>"

lemmas body_eval = closed_out_def distressed_loan_def thousand_loan_def charge_protocol_cut_def claw_back_curator_fee_def
  close_body_def loan_eval

lemma keeper_example_bodies:
  "liquidated_body Fixed distressed_loan paid_in_full 1000 5000 5000 0 1000 = Inr closed_out"
  "settled_body Fixed distressed_loan paid_in_full 1000 5000 5000 0 = Inr closed_out"
  by (simp_all add: liquidated_body_def settled_body_def body_eval cong: ebind_weak_cong)

lemma keeper_example_seats:
  "\<exists>m1 m2. liquidated_seat closing_market 0 5000 SCALE 5000 True = Inr m1 \<and> credit_lender m1 160 0 (1000 * SCALE) True = Inr m2"
  "\<exists>m1 m2. settled_seat closing_market 0 SCALE 5000 True = Inr m1 \<and> credit_lender m1 160 0 (1000 * SCALE) True = Inr m2"
  by (simp_all add: liquidated_seat_def settled_seat_def credit_lender_def closing_market_def example_defs NIL_def get_helper_seat_def
      tree_get_def checked_add_def checked_sub_def lim_defs SCALE_def set_seat_def tree_update_def atoms_to_shares_at_snapshot_def
      fp48_is_zero_def fp48_checked_div_def from_atoms_eq div_scale_eq saturating_sub_def cong: ebind_weak_cong)

lemma keeper_example_retires: "\<exists>v'. retire_on_vault (Some closing_vaults) q b 10 closed_out = Inr v'" if "pl_banks q b = sample_bank"
  using that
  by (simp add: retire_on_vault_def on_sub_vault_def closing_vaults_def example_defs sub_vault_index_def sub_vault_cmp_def
      cmp_nat_def get_sub_vault_def tree_get_def NIL_def read_bank_asset_share_value_fp48_def sample_bank_def
      wrapped_i80f48_to_u128_def closed_out_def distressed_loan_def thousand_eval cong: ebind_weak_cong)

lemma keeper_example_close_out:
  assumes "pl_banks q 1 = sample_bank" "credit_lender m1 160 0 (1000 * SCALE) True = Inr m2"
  shows "\<exists>v'. keeper_close_out sample_programs keeper_example Fixed 10 paid_in_full closed_out m1 (Some closing_vaults) q = Inr (m2, v')"
proof -
  have "ln_accumulated_protocol_fee_atoms closed_out = 0" "ln_lender_seat_index closed_out = 160" "kc_debt_bank keeper_example = 1"
    by (simp_all add: closed_out_def distressed_loan_def thousand_loan_def new_from_matched_loan_with_lender_def keeper_example_def)
  then show ?thesis using assms keeper_example_retires[OF assms(1)]
    by (auto simp add: keeper_close_out_def saturating_sub_def SCALE_pos)
qed

lemma keeper_example_guards: "keeper_guards (gc_new_empty 1) closing_market (Some closing_vaults) distressed_loan = Inr ()"
  by (simp add: keeper_guards_def distressed_fields require_global_not_paused_def require_market_not_paused_def
      require_vault_not_paused_def gc_new_empty_def closing_market_def closing_vaults_def example_defs)

lemma keeper_example_cut: "liquidation_protocol_cut Fixed (fc_liquidation_protocol_bps (mk_fee_config closing_market)) 1000 = Inr 0"
  by (simp add: liquidation_protocol_cut_def closing_market_def example_defs fee_config_default_def)

lemma keeper_example_bookings:
  assumes q: "pl_banks q 1 = sample_bank"
  shows "\<exists>m' v'. liquidation_booking sample_programs keeper_example Fixed 1000 \<lparr> sp_liquidator_seizes_atoms = 5000,
       sp_surplus_atoms = 0, sp_bad_debt_gap_atoms = 1000, sp_bonus_atoms = 0 \<rparr> paid_in_full 5000 10 closing_market
       (Some closing_vaults) distressed_loan q = Inr (m', v', closed_out)"
    and "\<exists>m' v'. settlement_booking sample_programs keeper_example Fixed 1000 paid_in_full 5000 10 closing_market
       (Some closing_vaults) distressed_loan q = Inr (m', v', closed_out)"
proof -
  obtain m1 m2 where m: "liquidated_seat closing_market 0 5000 SCALE 5000 True = Inr m1" "credit_lender m1 160 0 (1000 * SCALE) True = Inr m2"
    using keeper_example_seats(1) by blast
  obtain v' where "keeper_close_out sample_programs keeper_example Fixed 10 paid_in_full closed_out m1 (Some closing_vaults) q = Inr (m2, v')"
    using keeper_example_close_out[OF q m(2)] by blast
  with m show "\<exists>m' v'. liquidation_booking sample_programs keeper_example Fixed 1000 \<lparr> sp_liquidator_seizes_atoms = 5000,
       sp_surplus_atoms = 0, sp_bad_debt_gap_atoms = 1000, sp_bonus_atoms = 0 \<rparr> paid_in_full 5000 10 closing_market
       (Some closing_vaults) distressed_loan q = Inr (m', v', closed_out)"
    by (simp add: liquidation_booking_def distressed_fields keeper_example_cut keeper_example_bodies)
next
  obtain m1 m2 where m: "settled_seat closing_market 0 SCALE 5000 True = Inr m1" "credit_lender m1 160 0 (1000 * SCALE) True = Inr m2"
    using keeper_example_seats(2) by blast
  obtain v' where "keeper_close_out sample_programs keeper_example Fixed 10 paid_in_full closed_out m1 (Some closing_vaults) q = Inr (m2, v')"
    using keeper_example_close_out[OF q m(2)] by blast
  with m show "\<exists>m' v'. settlement_booking sample_programs keeper_example Fixed 1000 paid_in_full 5000 10 closing_market
       (Some closing_vaults) distressed_loan q = Inr (m', v', closed_out)"
    by (simp add: settlement_booking_def distressed_fields keeper_example_cut keeper_example_bodies)
qed

lemma keeper_example_liquidation:
  "\<exists>m' v' p'. process_liquidate_loan sample_programs keeper_example (gc_new_empty 1) (Inr (6 * SCALE)) (Inr SCALE) 0 10
     closing_market (Some closing_vaults) distressed_loan sample_pool = Inr (m', v', None, p')"
proof -
  obtain p3 where f: "liquidation_flow sample_programs keeper_example Fixed 1000 True 5000 distressed_loan sample_pool =
     Inr (p3, paid_in_full, 5000)" and q: "pl_banks p3 1 = sample_bank"
    using keeper_example_flow by blast
  show ?thesis using keeper_example_bookings(1)[OF q] f
    by (auto simp: process_liquidate_loan_def keeper_example_guards keeper_example_plan simp del: One_nat_def)
qed

lemma keeper_example_settlement:
  "\<exists>m' v' p'. process_settle_matured_loan sample_programs keeper_example (gc_new_empty 1) 0 10
     closing_market (Some closing_vaults) distressed_loan sample_pool = Inr (m', v', None, p')"
proof -
  obtain p3 where f: "settlement_flow sample_programs keeper_example Fixed 1000 True 5000 distressed_loan sample_pool =
     Inr (p3, paid_in_full, 5000)" and q: "pl_banks p3 1 = sample_bank"
    using keeper_example_settlement_flow by blast
  show ?thesis using keeper_example_bookings(2)[OF q] f
    by (auto simp: process_settle_matured_loan_def keeper_example_guards keeper_example_settlement_plan simp del: One_nat_def)
qed

section \<open>What a keeper may do\<close>

lemma accrue_loan_maturity: "accrue_loan loan now = Inr header \<Longrightarrow> ln_matures_at_unix header = ln_matures_at_unix loan"
  by (auto simp: accrue_loan_def accrue_interest_def accrue_tail_def Let_def split: if_splits option.splits elim!: ebind_InrE)

lemma keeper_withdraw_pays:
  "keeper_withdraw pg ctx lt n p = Inr (p', w) \<Longrightarrow>
    \<exists>q. pg_transfer pg (kc_collateral_vault ctx) (kc_collateral_token ctx) w q = Inr p'"
  unfolding keeper_withdraw_def by (elim result_elims) blast

text \<open>The loan a payment leaves holds the collateral that was not taken.\<close>

lemma body_collateral:
  assumes "\<not> dr_did_full_repay dr"
  shows "liquidated_body lt loan dr a c w pa gap = Inr loan' \<Longrightarrow> ln_collateral_atoms loan' = c - w"
    and "settled_body lt loan dr a c w pa = Inr loan' \<Longrightarrow> ln_collateral_atoms loan' = c - w"
  using assms
  by (auto simp: liquidated_body_def settled_body_def p2pool_body_def close_body_def Let_def split: if_splits prod.splits elim!: ebind_InrE)

lemma booking_collateral:
  assumes "\<not> dr_did_full_repay dr"
  shows "liquidation_booking pg ctx lt a split dr w now m v loan p = Inr (m', v', loan') \<Longrightarrow>
      ln_collateral_atoms loan' = ln_collateral_atoms loan - w"
    and "settlement_booking pg ctx lt a dr w now m v loan p = Inr (m', v', loan') \<Longrightarrow>
      ln_collateral_atoms loan' = ln_collateral_atoms loan - w"
proof -
  assume "liquidation_booking pg ctx lt a split dr w now m v loan p = Inr (m', v', loan')"
  then obtain pa gap where "liquidated_body lt loan dr a (ln_collateral_atoms loan) w pa gap = Inr loan'"
    unfolding liquidation_booking_def by (elim result_elims) (hypsubst, simp)
  then show "ln_collateral_atoms loan' = ln_collateral_atoms loan - w" by (rule body_collateral(1)[OF assms])
next
  assume "settlement_booking pg ctx lt a dr w now m v loan p = Inr (m', v', loan')"
  then obtain pa where "settled_body lt loan dr a (ln_collateral_atoms loan) w pa = Inr loan'"
    unfolding settlement_booking_def by (elim result_elims) (hypsubst, simp)
  then show "ln_collateral_atoms loan' = ln_collateral_atoms loan - w" by (rule body_collateral(2)[OF assms])
qed

text \<open>What a payment leaves of the debt. A fixed loan owes exactly that much less, and is gone when nothing is left. A
  variable-rate loan owes its pool shares less those the payment burned between the pool states \<open>p1\<close> and \<open>p2\<close>, and is
  gone when they are worth at most one atom.\<close>

definition debt_after ::
  "keeper_context \<Rightarrow> loan_fixed \<Rightarrow> nat \<Rightarrow> nat \<Rightarrow> pool \<Rightarrow> pool \<Rightarrow> loan_fixed option \<Rightarrow> bool" where
  "debt_after ctx loan live paid p1 p2 slot =
     (case ln_loan_type_of loan of
        Inr Fixed \<Rightarrow> (case slot of None \<Rightarrow> paid = live | Some loan' \<Rightarrow> paid < live \<and> ln_outstanding_debt_atoms loan' + paid = live)
      | Inr P2Pool \<Rightarrow>
          (case (pool_liability_shares p1 (kc_borrower_account ctx) (kc_debt_bank ctx),
                 pool_liability_shares p2 (kc_borrower_account ctx) (kc_debt_bank ctx)) of
             (Inr before, Inr after) \<Rightarrow>
               let left = ln_borrower_marginfi_borrow_shares loan - (before - after) in
               (case liability_shares_to_atoms_floor p2 (kc_debt_bank ctx) left of
                  Inl e \<Rightarrow> False
                | Inr rest \<Rightarrow>
                    (case slot of None \<Rightarrow> rest \<le> 1
                     | Some loan' \<Rightarrow> 1 < rest \<and> ln_borrower_marginfi_borrow_shares loan' = left \<and>
                         pool_liability_atoms_ceil p2 (kc_debt_bank ctx) left = Inr (ln_outstanding_debt_atoms loan')))
           | _ \<Rightarrow> False)
      | Inl e \<Rightarrow> False)"

text \<open>The pool shares of the loan and of the borrower account, as the repayment reads them.\<close>

definition pays_debt ::
  "(nat \<Rightarrow> nat \<Rightarrow> pool \<Rightarrow> (pool \<times> nat) res) \<Rightarrow> keeper_context \<Rightarrow> loan_fixed \<Rightarrow> pool \<Rightarrow> pool \<Rightarrow> bool" where
  "pays_debt repay ctx loan p1 p2 =
     (case ebind (ln_loan_type_of loan) (\<lambda>lt. ebind (keeper_shares_before ctx lt loan p1) (\<lambda>(l, acc). repay l acc p1)) of
        Inl e \<Rightarrow> False | Inr (p', credited) \<Rightarrow> p' = p2)"

lemma body_debt:
  assumes "\<not> dr_did_full_repay dr"
  shows "liquidated_body lt loan dr a c w pa gap = Inr loan' \<or> settled_body lt loan dr a c w pa = Inr loan' \<Longrightarrow>
    (if lt = P2Pool then ln_borrower_marginfi_borrow_shares loan' = dr_post_loan_shares dr \<and>
       ln_outstanding_debt_atoms loan' = dr_post_outstanding_atoms dr
     else ln_outstanding_debt_atoms loan' + a = ln_outstanding_debt_atoms loan)"
  using assms
  by (auto simp: liquidated_body_def settled_body_def p2pool_body_def close_body_def charge_protocol_cut_def
      claw_back_curator_fee_def Let_def split: if_splits prod.splits elim!: ebind_InrE dest!: resolution_terms)

lemma booking_body:
  "liquidation_booking pg ctx lt a split dr w now m v loan p = Inr (m', v', loan') \<Longrightarrow>
    \<exists>pa gap. liquidated_body lt loan dr a (ln_collateral_atoms loan) w pa gap = Inr loan'"
  "settlement_booking pg ctx lt a dr w now m v loan p = Inr (m', v', loan') \<Longrightarrow>
    \<exists>pa. settled_body lt loan dr a (ln_collateral_atoms loan) w pa = Inr loan'"
  unfolding liquidation_booking_def settlement_booking_def by (elim result_elims, hypsubst, simp, blast)+

lemma debt_result_after:
  assumes lt: "ln_loan_type_of loan = Inr lt" and live: "pool_live_outstanding loan p (kc_borrower_account ctx) (kc_debt_bank ctx) = Inr live"
    and kb: "keeper_shares_before ctx lt loan p1 = Inr (l0, s0)" and dr: "keeper_debt_result ctx lt l0 s0 cr full p2 = Inr dr"
    and sz: "full \<longleftrightarrow> a = live" "a \<le> live"
    and body: "liquidated_body lt loan dr a c w pa gap = Inr loan1 \<or> settled_body lt loan dr a c w pa = Inr loan1"
  shows "debt_after ctx loan live a p1 p2 (if dr_did_full_repay dr then None else Some loan1)"
proof (cases lt)
  case Fixed
  then have "live = ln_outstanding_debt_atoms loan" "dr_did_full_repay dr = full"
    using live lt debt_result_full[OF dr] by (simp_all add: pool_live_outstanding_def)
  then show ?thesis using Fixed lt sz body_debt[OF _ body] by (auto simp: debt_after_def)
next
  case P2Pool
  obtain s2 left rest where s: "pool_liability_shares p1 (kc_borrower_account ctx) (kc_debt_bank ctx) = Inr s0"
      "pool_liability_shares p2 (kc_borrower_account ctx) (kc_debt_bank ctx) = Inr s2" "l0 = ln_borrower_marginfi_borrow_shares loan"
    and rest: "left = l0 - (s0 - s2)" "liability_shares_to_atoms_floor p2 (kc_debt_bank ctx) left = Inr rest"
    and f: "dr_did_full_repay dr = (rest \<le> 1)" "dr_post_loan_shares dr = left"
    and o: "1 < rest \<Longrightarrow> pool_liability_atoms_ceil p2 (kc_debt_bank ctx) left = Inr (dr_post_outstanding_atoms dr)"
    using kb dr P2Pool unfolding keeper_shares_before_def keeper_debt_result_def
    by (auto simp: Let_def saturating_sub_def elim!: ebind_InrE split: if_splits)
  show ?thesis
    using P2Pool lt s rest f o body_debt[OF _ body] by (simp add: debt_after_def Let_def)
qed

lemma liquidation_flow_steps:
  assumes "liquidation_flow pg ctx lt a full n loan p = Inr (p', dr, w)"
  obtains p1 l0 s0 p2 cr where "pg_transfer pg (kc_debt_token ctx) (kc_debt_vault ctx) a p = Inr p1"
    "keeper_shares_before ctx lt loan p1 = Inr (l0, s0)" "liquidation_repay pg ctx lt l0 s0 a full p1 = Inr (p2, cr)"
    "keeper_debt_result ctx lt l0 s0 cr full p2 = Inr dr" "keeper_withdraw pg ctx lt n p2 = Inr (p', w)"
  using assms unfolding liquidation_flow_def by (elim result_elims) (hypsubst, simp)

lemma settlement_flow_steps:
  assumes "settlement_flow pg ctx lt a full n loan p = Inr (p', dr, w)"
  obtains p1 l0 s0 p2 cr where
    "pg_transfer pg (kc_debt_token ctx) (kc_debt_vault ctx) (staged_atoms lt a full) p = Inr p1"
    "keeper_shares_before ctx lt loan p1 = Inr (l0, s0)"
    "settlement_repay pg ctx lt l0 s0 (tk_amount (pl_tokens p (kc_debt_vault ctx))) a (staged_atoms lt a full) full p1 = Inr (p2, cr)"
    "keeper_debt_result ctx lt l0 s0 cr full p2 = Inr dr"
    "(if 0 < n then keeper_withdraw pg ctx lt n p2 else Inr (p2, 0)) = Inr (p', w)"
  using assms unfolding settlement_flow_def Let_def by (elim result_elims) (hypsubst, simp)

text \<open>The collateral that backs a loan's live debt in health: what its liquidation ratio asks for at the oracle prices,
  or for a variable-rate loan what the maintenance weights of the two banks ask for.\<close>

definition healthy_collateral ::
  "programs \<Rightarrow> keeper_context \<Rightarrow> market \<Rightarrow> loan_fixed \<Rightarrow> nat \<Rightarrow> fp48 \<Rightarrow> fp48 \<Rightarrow> pool \<Rightarrow> nat res" where
  "healthy_collateral pg ctx m loan live debt_price collateral_price p =
     ebind (ln_loan_type_of loan) (\<lambda>lt. case lt of
         Fixed \<Rightarrow> required_collateral_at_ltv_cap live debt_price collateral_price (ln_liquidation_ltv_bps loan)
                    (mk_debt_mint_decimals m) (mk_collateral_mint_decimals m)
       | P2Pool \<Rightarrow>
           ebind (maint_weight pg p (kc_debt_bank ctx)) (\<lambda>(_, liability_weight).
           ebind (maint_weight pg p (kc_collateral_bank ctx)) (\<lambda>(asset_weight, _).
           get_required_quote_collateral_to_back_debt live debt_price collateral_price liability_weight asset_weight
             (mk_debt_mint_decimals m) (mk_collateral_mint_decimals m))))"

lemma breach_unhealthy:
  assumes "ln_loan_type_of header = Inr lt"
    and "assert_ltv_breach lt (ln_liquidation_ltv_bps header) live (ln_collateral_atoms header) (keeper_readings pg ctx (Inr dpv) (Inr cpv) p)
       (mk_debt_mint_decimals m) (mk_collateral_mint_decimals m) = Inr ()"
  shows "\<exists>req. healthy_collateral pg ctx m header live dpv cpv p = Inr req \<and> ln_collateral_atoms header < req"
  using assms
  by (cases lt) (auto simp: assert_ltv_breach_def healthy_collateral_def keeper_readings_def require_Inr split: prod.splits elim!: ebind_InrE)

text \<open>C27. A successful liquidation, of a fixed or of a variable-rate loan, was of an unhealthy loan: the collateral it held
  was below what its live debt, with interest, needs: for a fixed loan at its liquidation ratio, for a
  variable-rate one at the maintenance weights of the banks. The payment is the one the keeper's limit gives, all
  of the debt or at least one per cent and 1000 atoms; it is transferred from the keeper, repaid into the lending
  pool, and the debt falls by it. In collateral the keeper is paid at most what the loan held and
  at most the value of the payment at the oracle prices plus the keeper's bonus, itself at most half; a
  loan that stays open holds the rest. The market stays well formed, and the locks of every other loan and
  bid, and of what is left of this loan, stay backed by the seats' encumbered collateral.\<close>

theorem liquidation_only_unhealthy_and_bounded:
  assumes wd: "withdraws_at_most pg" and ok: "market_ok m" and b: "backed (\<lambda>j. ext j + loan_lock loan j) m"
    and c: "ln_collateral_atoms loan < u64_lim"
    and r: "process_liquidate_loan pg ctx gc dp cp rmax now m v loan p = Inr (m', v', slot', p')"
  shows "\<exists>header lt live dpv cpv req a p1 p2 val w q. accrue_loan loan now = Inr header \<and> ln_loan_type_of header = Inr lt \<and>
    pool_live_outstanding header p (kc_borrower_account ctx) (kc_debt_bank ctx) = Inr live \<and> dp = Inr dpv \<and> cp = Inr cpv \<and>
    healthy_collateral pg ctx m header live dpv cpv p = Inr req \<and> ln_collateral_atoms loan < req \<and>
    size_keeper_repay rmax live = Inr (a, a = live) \<and> 0 < a \<and> a \<le> live \<and> (a = live \<or> 1000 \<le> a \<and> live div 100 \<le> a) \<and>
    pg_transfer pg (kc_debt_token ctx) (kc_debt_vault ctx) a p = Inr p1 \<and>
    pays_debt (\<lambda>l acc. liquidation_repay pg ctx lt l acc a (a = live)) ctx header p1 p2 \<and>
    debt_after ctx header live a p1 p2 slot' \<and>
    pg_transfer pg (kc_collateral_vault ctx) (kc_collateral_token ctx) w q = Inr p' \<and>
    get_required_quote_collateral_to_back_debt a dpv cpv fp48_ONE fp48_ONE (mk_debt_mint_decimals m) (mk_collateral_mint_decimals m) = Inr val \<and>
    w \<le> ln_collateral_atoms loan \<and> w \<le> val + val * fc_liquidation_keeper_bps (mk_fee_config m) div 10000 \<and>
    fc_liquidation_keeper_bps (mk_fee_config m) \<le> 5000 \<and>
    (case slot' of None \<Rightarrow> True | Some loan' \<Rightarrow> ln_collateral_atoms loan' = ln_collateral_atoms loan - w) \<and>
    market_ok m' \<and> backed (\<lambda>j. ext j + slot_lock slot' j) m'"
proof -
  obtain header lt a full split dr w loan1 where
    pl: "liquidation_plan pg ctx dp cp rmax now m loan p = Inr (header, lt, a, full, split)"
    and fl: "liquidation_flow pg ctx lt a full (sp_liquidator_seizes_atoms split) header p = Inr (p', dr, w)"
    and bk: "liquidation_booking pg ctx lt a split dr w now m v header p' = Inr (m', v', loan1)"
    and s: "slot' = (if dr_did_full_repay dr then None else Some loan1)"
    by (rule process_liquidate_loan_Inr[OF r])
  obtain live dpv cpv val where h: "accrue_loan loan now = Inr header" "ln_loan_type_of header = Inr lt"
    and live: "pool_live_outstanding header p (kc_borrower_account ctx) (kc_debt_bank ctx) = Inr live"
    and br: "assert_ltv_breach lt (ln_liquidation_ltv_bps header) live (ln_collateral_atoms header) (keeper_readings pg ctx dp cp p)
       (mk_debt_mint_decimals m) (mk_collateral_mint_decimals m) = Inr ()"
    and pr: "dp = Inr dpv" "cp = Inr cpv" and sz: "size_keeper_repay rmax live = Inr (a, full)"
    and val: "get_required_quote_collateral_to_back_debt a dpv cpv fp48_ONE fp48_ONE (mk_debt_mint_decimals m) (mk_collateral_mint_decimals m) = Inr val"
    and sp: "compute_collateral_split val (ln_collateral_atoms header) (fc_liquidation_keeper_bps (mk_fee_config m)) = Inr split"
    by (rule liquidation_plan_Inr[OF pl])
  have e: "ln_collateral_atoms header = ln_collateral_atoms loan" using accrue_loan_terms[OF h(1)] by (simp add: same_terms_def)
  obtain req where req: "healthy_collateral pg ctx m header live dpv cpv p = Inr req" "ln_collateral_atoms loan < req"
    using breach_unhealthy[OF h(2) br[unfolded pr]] e by auto
  note sb = sized_bounds[OF sz] and cs = split_bounds[OF sp]
  have full: "full = (a = live)" using sb by simp
  obtain p1 l0 s0 p2 cr where tr: "pg_transfer pg (kc_debt_token ctx) (kc_debt_vault ctx) a p = Inr p1"
    and kb: "keeper_shares_before ctx lt header p1 = Inr (l0, s0)" and rp: "liquidation_repay pg ctx lt l0 s0 a full p1 = Inr (p2, cr)"
    and kd: "keeper_debt_result ctx lt l0 s0 cr full p2 = Inr dr" and kw: "keeper_withdraw pg ctx lt (sp_liquidator_seizes_atoms split) p2 = Inr (p', w)"
    by (rule liquidation_flow_steps[OF fl])
  have pays: "pays_debt (\<lambda>l acc. liquidation_repay pg ctx lt l acc a (a = live)) ctx header p1 p2"
    using kb rp by (simp add: pays_debt_def h(2) full)
  have left: "debt_after ctx header live a p1 p2 slot'"
    using debt_result_after[OF h(2) live kb kd] sb booking_body(1)[OF bk] unfolding s by blast
  obtain q where q: "pg_transfer pg (kc_collateral_vault ctx) (kc_collateral_token ctx) w q = Inr p'"
    using keeper_withdraw_pays[OF kw] by blast
  have sl: "case slot' of None \<Rightarrow> True | Some loan' \<Rightarrow> ln_collateral_atoms loan' = ln_collateral_atoms loan - w"
    using s booking_collateral(1)[OF _ bk] e by simp
  have k: "market_ok m' \<and> backed (\<lambda>j. ext j + slot_lock slot' j) m'" by (rule process_liquidate_loan_keeps[OF wd ok b c r])
  have wb: "w \<le> ln_collateral_atoms loan" "w \<le> val + val * fc_liquidation_keeper_bps (mk_fee_config m) div 10000"
    "fc_liquidation_keeper_bps (mk_fee_config m) \<le> 5000"
    using keeper_withdraw_bound[OF wd kw] cs e by (simp_all add: MAX_LIQUIDATION_KEEPER_BPS_def)
  have ab: "0 < a" "a \<le> live" "a = live \<or> 1000 \<le> a \<and> live div 100 \<le> a" using sb by auto
  show ?thesis
    by (intro exI conjI) (fact h live pr req sz[unfolded full] ab tr pays left q val wb sl k[THEN conjunct1] k[THEN conjunct2])+
qed

lemma liquidation_only_unhealthy_and_bounded_witness:
  "\<exists>m' v' p'. process_liquidate_loan sample_programs keeper_example (gc_new_empty 1) (Inr (6 * SCALE)) (Inr SCALE) 0 10
     closing_market (Some closing_vaults) distressed_loan sample_pool = Inr (m', v', None, p') \<and> market_ok m' \<and> backed (\<lambda>j. 0) m'"
proof -
  obtain m' v' p' where r: "process_liquidate_loan sample_programs keeper_example (gc_new_empty 1) (Inr (6 * SCALE)) (Inr SCALE) 0 10
     closing_market (Some closing_vaults) distressed_loan sample_pool = Inr (m', v', None, p')"
    using keeper_example_liquidation by blast
  have b: "backed (\<lambda>j. 0 + loan_lock distressed_loan j) closing_market" using closing_market_backed by (simp add: distressed_fields)
  have "ln_collateral_atoms distressed_loan < u64_lim" by (simp add: distressed_fields lim_defs)
  then have "market_ok m' \<and> backed (\<lambda>j. 0) m'"
    using liquidation_only_unhealthy_and_bounded[OF sample_withdraws closing_market_ok b _ r] by auto
  then show ?thesis using r by blast
qed

text \<open>C28. A loan is settled by a keeper only after its maturity and the market's grace period, and pro rata. The payment is the
  one the keeper's limit gives for the live debt; it is transferred from the keeper (for a full close of a
  variable-rate loan with the staging margin, the rest of which the repayment returns) and repaid into the lending
  pool, and the debt falls by it. The collateral the keeper is then paid, as a share of what the loan holds, is at
  most the share of the live debt paid, so a partial settlement takes no more of the collateral than
  of the debt. A loan that stays open holds the rest, and the market stays well formed with the locks of every
  other loan and bid, and of what is left of this loan, backed.\<close>

theorem settlement_only_past_grace_and_pro_rata:
  assumes wd: "withdraws_at_most pg" and ok: "market_ok m" and b: "backed (\<lambda>j. ext j + loan_lock loan j) m"
    and c: "ln_collateral_atoms loan < u64_lim"
    and r: "process_settle_matured_loan pg ctx gc rmax now m v loan p = Inr (m', v', slot', p')"
  shows "\<exists>header lt live a p1 p2 w. accrue_loan loan now = Inr header \<and> ln_loan_type_of header = Inr lt \<and>
    pool_live_outstanding header p (kc_borrower_account ctx) (kc_debt_bank ctx) = Inr live \<and>
    ln_matures_at_unix loan + int (fc_grace_period_seconds (mk_fee_config m)) < now \<and>
    size_keeper_repay rmax live = Inr (a, a = live) \<and> 0 < a \<and> a \<le> live \<and> (a = live \<or> 1000 \<le> a \<and> live div 100 \<le> a) \<and>
    pg_transfer pg (kc_debt_token ctx) (kc_debt_vault ctx) (staged_atoms lt a (a = live)) p = Inr p1 \<and>
    pays_debt (\<lambda>l acc. settlement_repay pg ctx lt l acc (tk_amount (pl_tokens p (kc_debt_vault ctx))) a
      (staged_atoms lt a (a = live)) (a = live)) ctx header p1 p2 \<and>
    debt_after ctx header live a p1 p2 slot' \<and>
    w \<le> ln_collateral_atoms loan \<and> w * live \<le> ln_collateral_atoms loan * a \<and>
    (if w = 0 then p' = p2 \<or> (\<exists>q. pg_transfer pg (kc_collateral_vault ctx) (kc_collateral_token ctx) 0 q = Inr p')
     else \<exists>q. pg_transfer pg (kc_collateral_vault ctx) (kc_collateral_token ctx) w q = Inr p') \<and>
    (case slot' of None \<Rightarrow> True | Some loan' \<Rightarrow> ln_collateral_atoms loan' = ln_collateral_atoms loan - w) \<and>
    market_ok m' \<and> backed (\<lambda>j. ext j + slot_lock slot' j) m'"
proof -
  obtain header lt a full seized dr w loan1 where
    pl: "settlement_plan ctx rmax now m loan p = Inr (header, lt, a, full, seized)"
    and fl: "settlement_flow pg ctx lt a full seized header p = Inr (p', dr, w)"
    and bk: "settlement_booking pg ctx lt a dr w now m v header p' = Inr (m', v', loan1)"
    and s: "slot' = (if dr_did_full_repay dr then None else Some loan1)"
    by (rule process_settle_matured_loan_Inr[OF r])
  obtain live where h: "accrue_loan loan now = Inr header" "ln_loan_type_of header = Inr lt"
    and past: "assert_past_grace_period header (fc_grace_period_seconds (mk_fee_config m)) now = Inr ()"
    and live: "pool_live_outstanding header p (kc_borrower_account ctx) (kc_debt_bank ctx) = Inr live"
    and z: "size_keeper_repay rmax live = Inr (a, full)"
    and se: "settlement_seizes (ln_collateral_atoms header) a live full = Inr seized"
    by (rule settlement_plan_Inr[OF pl])
  have e: "ln_collateral_atoms header = ln_collateral_atoms loan" "ln_matures_at_unix header = ln_matures_at_unix loan"
    using accrue_loan_terms[OF h(1)] accrue_loan_maturity[OF h(1)] by (simp_all add: same_terms_def)
  have g: "ln_matures_at_unix loan + int (fc_grace_period_seconds (mk_fee_config m)) < now"
    using past by (auto simp: assert_past_grace_period_def i64_checked_add_def require_Inr e split: if_splits elim!: ebind_InrE)
  note sb = sized_bounds[OF z]
  have full: "full = (a = live)" using sb by simp
  obtain p1 l0 s0 p2 cr where tr: "pg_transfer pg (kc_debt_token ctx) (kc_debt_vault ctx) (staged_atoms lt a full) p = Inr p1"
    and kb: "keeper_shares_before ctx lt header p1 = Inr (l0, s0)"
    and rp: "settlement_repay pg ctx lt l0 s0 (tk_amount (pl_tokens p (kc_debt_vault ctx))) a (staged_atoms lt a full) full p1 = Inr (p2, cr)"
    and kd: "keeper_debt_result ctx lt l0 s0 cr full p2 = Inr dr"
    and kw: "(if 0 < seized then keeper_withdraw pg ctx lt seized p2 else Inr (p2, 0)) = Inr (p', w)"
    by (rule settlement_flow_steps[OF fl])
  have pays: "pays_debt (\<lambda>l acc. settlement_repay pg ctx lt l acc (tk_amount (pl_tokens p (kc_debt_vault ctx))) a
      (staged_atoms lt a (a = live)) (a = live)) ctx header p1 p2"
    using kb rp by (simp add: pays_debt_def h(2) full)
  have left: "debt_after ctx header live a p1 p2 slot'"
    using debt_result_after[OF h(2) live kb kd] sb booking_body(2)[OF bk] unfolding s by blast
  have sz: "seized \<le> ln_collateral_atoms loan" "seized * live \<le> ln_collateral_atoms loan * a"
    using settlement_seizes_bounds[OF se] sb e by simp_all
  have w: "w \<le> seized" by (rule settlement_withdraws[OF wd fl])
  have wb: "w \<le> ln_collateral_atoms loan" "w * live \<le> ln_collateral_atoms loan * a"
    using w sz mult_le_mono1[OF w, of live] by linarith+
  have q: "if w = 0 then p' = p2 \<or> (\<exists>q. pg_transfer pg (kc_collateral_vault ctx) (kc_collateral_token ctx) 0 q = Inr p')
     else \<exists>q. pg_transfer pg (kc_collateral_vault ctx) (kc_collateral_token ctx) w q = Inr p'"
    using kw by (auto split: if_splits dest: keeper_withdraw_pays)
  have sl: "case slot' of None \<Rightarrow> True | Some loan' \<Rightarrow> ln_collateral_atoms loan' = ln_collateral_atoms loan - w"
    using s booking_collateral(2)[OF _ bk] e by simp
  have k: "market_ok m' \<and> backed (\<lambda>j. ext j + slot_lock slot' j) m'" by (rule process_settle_matured_loan_keeps[OF wd ok b c r])
  have ab: "0 < a" "a \<le> live" "a = live \<or> 1000 \<le> a \<and> live div 100 \<le> a" using sb by auto
  show ?thesis by (intro exI conjI) (fact h live g z[unfolded full] ab tr[unfolded full] pays left wb q sl k[THEN conjunct1] k[THEN conjunct2])+
qed

lemma settlement_only_past_grace_and_pro_rata_witness:
  "\<exists>m' v' p'. process_settle_matured_loan sample_programs keeper_example (gc_new_empty 1) 0 10
     closing_market (Some closing_vaults) distressed_loan sample_pool = Inr (m', v', None, p') \<and> market_ok m' \<and> backed (\<lambda>j. 0) m' \<and>
     - 90000 + int (fc_grace_period_seconds (mk_fee_config closing_market)) < 10"
proof -
  obtain m' v' p' where r: "process_settle_matured_loan sample_programs keeper_example (gc_new_empty 1) 0 10
     closing_market (Some closing_vaults) distressed_loan sample_pool = Inr (m', v', None, p')"
    using keeper_example_settlement by blast
  have b: "backed (\<lambda>j. 0 + loan_lock distressed_loan j) closing_market" using closing_market_backed by (simp add: distressed_fields)
  have c: "ln_collateral_atoms distressed_loan < u64_lim" by (simp add: distressed_fields lim_defs)
  note k = settlement_only_past_grace_and_pro_rata[OF sample_withdraws closing_market_ok b c r]
  have "market_ok m' \<and> backed (\<lambda>j. 0) m' \<and> - 90000 + int (fc_grace_period_seconds (mk_fee_config closing_market)) < 10"
    using k by (auto simp: distressed_fields)
  then show ?thesis using r by blast
qed

end
