(* ===== verification/Vault_Funds.thy ===== *)
theory Vault_Funds
  imports Administration Sample_Pool User_Account
begin

text \<open>Deposits into and withdrawals from a sub-vault, and the curator's fee claim
  (\<open>processor/global_vault_deposit.rs\<close>, \<open>processor/global_vault_withdraw.rs\<close>,
  \<open>processor/claim_curator_fee.rs\<close>). A deposit is priced at the assets of the sub-vault, a withdrawal pays the
  principal share of the burned shares; both are rounded down. The depositor's shares are kept in a seat of the
  vault and mirrored in a position of the depositor's own account.\<close>

record vault_context =
  vc_payer :: pubkey
  vc_user_bump :: nat
  vc_vault_key :: pubkey
  vc_signer :: pubkey
  vc_staging :: pubkey
  vc_depositor_token :: pubkey
  vc_token_program :: pubkey
  vc_group :: pubkey
  vc_integration_account :: pubkey
  vc_lending_pool :: pubkey
  vc_oracle :: pubkey
  vc_liquidity_vault :: pubkey
  vc_liquidity_vault_authority :: pubkey
  vc_marginfi_program :: pubkey

definition vault_deposit_accounts :: "vault_context \<Rightarrow> pubkey list" where
  "vault_deposit_accounts ctx =
     [vc_group ctx, vc_integration_account ctx, vc_signer ctx, vc_lending_pool ctx, vc_staging ctx,
      vc_liquidity_vault ctx, vc_token_program ctx, vc_marginfi_program ctx]"

definition vault_payout_accounts :: "vault_context \<Rightarrow> pubkey list" where
  "vault_payout_accounts ctx =
     [vc_group ctx, vc_integration_account ctx, vc_signer ctx, vc_lending_pool ctx, vc_staging ctx,
      vc_liquidity_vault_authority ctx, vc_liquidity_vault ctx, vc_token_program ctx, vc_marginfi_program ctx,
      vc_lending_pool ctx, vc_oracle ctx]"

text \<open>The signer's account is created on first use and always enters an instruction with a free block.\<close>

definition ensure_user_account_for_signer :: "pubkey \<Rightarrow> nat \<Rightarrow> user_account option \<Rightarrow> user_account res" where
  "ensure_user_account_for_signer owner bump slot =
     (let u = (case slot of None \<Rightarrow> ua_new_empty owner bump | Some u \<Rightarrow> u) in
      if ua_has_free_block u then Inr u else user_account_expand u)"

section \<open>Depositor seats and positions\<close>

definition get_depositor_seat :: "global_vault \<Rightarrow> data_index \<Rightarrow> depositor_seat res" where
  "get_depositor_seat v index = ok_or (tree_get (gv_claimed_seats v) index) Panic"

definition set_depositor_seat :: "global_vault \<Rightarrow> data_index \<Rightarrow> depositor_seat \<Rightarrow> global_vault" where
  "set_depositor_seat v index d = v\<lparr>gv_claimed_seats := tree_update index (\<lambda>_. d) (gv_claimed_seats v)\<rparr>"

definition depositor_seat_index :: "global_vault \<Rightarrow> pubkey \<Rightarrow> nat \<Rightarrow> data_index" where
  "depositor_seat_index v owner sub_vault_id =
     tree_lookup depositor_seat_cmp (ds_probe owner sub_vault_id) (gv_claimed_seats v)"

definition get_vault_position :: "user_account \<Rightarrow> data_index \<Rightarrow> vault_position res" where
  "get_vault_position u index = ok_or (tree_get (ua_vault_positions u) index) Panic"

definition set_vault_position :: "user_account \<Rightarrow> data_index \<Rightarrow> vault_position \<Rightarrow> user_account" where
  "set_vault_position u index q = u\<lparr>ua_vault_positions := tree_update index (\<lambda>_. q) (ua_vault_positions u)\<rparr>"

definition vault_position_index :: "user_account \<Rightarrow> pubkey \<Rightarrow> nat \<Rightarrow> data_index" where
  "vault_position_index u vault sub_vault_id =
     tree_lookup vault_position_cmp (vp_new_empty vault sub_vault_id) (ua_vault_positions u)"

section \<open>Deposit\<close>

definition mint_shares :: "sub_vault \<Rightarrow> nat \<Rightarrow> (sub_vault \<times> nat) res" where
  "mint_shares s credited_atoms =
     ebind (if sv_total_shares s = 0 then Inr (s\<lparr>sv_total_assets_atoms := 0\<rparr>, credited_atoms)
            else
              ebind (require (sv_total_assets_atoms s \<noteq> 0) (Custom InvalidArgument)) (\<lambda>_.
              ebind (mul_div credited_atoms (sv_total_shares s) (sv_total_assets_atoms s) False) (\<lambda>shares.
              Inr (s, shares)))) (\<lambda>(s1, shares).
     ebind (require (0 < shares) (Custom InvalidArgument)) (\<lambda>_.
     ebind (ok_or (checked_add u128_lim (sv_total_shares s1) shares) ArithmeticOverflow) (\<lambda>ts.
     ebind (ok_or (checked_add u64_lim (sv_total_principal_atoms s1) credited_atoms) ArithmeticOverflow) (\<lambda>tp.
     ebind (ok_or (checked_add u64_lim (sv_total_assets_atoms s1) credited_atoms) ArithmeticOverflow) (\<lambda>ta.
     Inr (s1\<lparr>sv_total_shares := ts, sv_total_principal_atoms := tp, sv_total_assets_atoms := ta\<rparr>, shares))))))"

definition may_use_sub_vault :: "sub_vault \<Rightarrow> pubkey \<Rightarrow> bool" where
  "may_use_sub_vault s payer = (sv_kind s \<noteq> SUB_VAULT_KIND_PRIVATE \<or> sv_curator s = payer)"

definition deposit_on_sub_vault :: "sub_vault \<Rightarrow> pubkey \<Rightarrow> int \<Rightarrow> fp48 res \<Rightarrow> nat \<Rightarrow> (sub_vault \<times> nat) res" where
  "deposit_on_sub_vault s payer now reading credited_atoms =
     ebind (require (may_use_sub_vault s payer) (Custom VaultCuratorRequired)) (\<lambda>_.
     ebind (require (sv_is_sunset s = 0) (Custom SubVaultSunset)) (\<lambda>_.
     ebind reading (\<lambda>share_value.
     ebind (accrue_sub_vault s now share_value) (\<lambda>s1.
     mint_shares s1 credited_atoms))))"

definition credit_depositor :: "global_vault \<Rightarrow> pubkey \<Rightarrow> nat \<Rightarrow> nat \<Rightarrow> sub_vault \<Rightarrow> int \<Rightarrow> global_vault res" where
  "credit_depositor v payer sub_vault_id shares s now =
     ebind (upsert_sub_vault_depositor_seat v payer sub_vault_id) (\<lambda>(v1, seat_idx).
     ebind (get_depositor_seat v1 seat_idx) (\<lambda>seat.
     ebind (ok_or (checked_add u128_lim (ds_shares seat) shares) ArithmeticOverflow) (\<lambda>n.
     Inr (set_depositor_seat v1 seat_idx (seat\<lparr>ds_shares := n,
            ds_snapshot_supply_yield_index_scaled := sv_cumulative_supply_yield_index_scaled s,
            ds_snapshot_delta_yield_index_scaled := sv_cumulative_delta_yield_index_scaled s,
            ds_last_updated_unix := now\<rparr>)))))"

definition credit_position :: "user_account \<Rightarrow> pubkey \<Rightarrow> nat \<Rightarrow> nat \<Rightarrow> int \<Rightarrow> user_account res" where
  "credit_position u vault_key sub_vault_id shares now =
     ebind (upsert_vault_position u vault_key sub_vault_id) (\<lambda>(u1, pos_idx).
     ebind (get_vault_position u1 pos_idx) (\<lambda>pos.
     ebind (ok_or (checked_add u128_lim (vp_shares pos) shares) ArithmeticOverflow) (\<lambda>n.
     Inr (set_vault_position u1 pos_idx (pos\<lparr>vp_shares := n, vp_last_updated_unix := now\<rparr>)))))"

text \<open>The bookkeeping of a deposit of acknowledged atoms on the vault; it returns the shares minted.\<close>

definition book_deposit :: "global_vault \<Rightarrow> pubkey \<Rightarrow> nat \<Rightarrow> int \<Rightarrow> pool \<Rightarrow> pubkey \<Rightarrow> nat \<Rightarrow> (global_vault \<times> nat) res" where
  "book_deposit v payer sub_vault_id now p bank credited_atoms =
     ebind (if has_free_node_block v then Inr v else vault_expand_node_block v) (\<lambda>v1.
     let idx = sub_vault_index v1 sub_vault_id in
     ebind (require (idx \<noteq> NIL) (Custom SubVaultNotFound)) (\<lambda>_.
     ebind (get_sub_vault v1 idx) (\<lambda>s.
     ebind (deposit_on_sub_vault s payer now (read_bank_asset_share_value_fp48 p bank) credited_atoms) (\<lambda>(s', shares).
     ebind (credit_depositor (set_sub_vault v1 idx s') payer sub_vault_id shares s' now) (\<lambda>v2.
     Inr (v2, shares))))))"

definition process_global_vault_deposit ::
  "programs \<Rightarrow> vault_context \<Rightarrow> global_config \<Rightarrow> nat \<Rightarrow> nat \<Rightarrow> int \<Rightarrow> global_vault \<Rightarrow> user_account option \<Rightarrow> pool \<Rightarrow>
   (global_vault \<times> user_account \<times> pool) res" where
  "process_global_vault_deposit pg ctx gc amount_atoms sub_vault_id now v slot p =
     ebind (require (0 < amount_atoms) (Custom InvalidArgument)) (\<lambda>_.
     ebind (require_global_not_paused gc) (\<lambda>_.
     ebind (require_vault_not_paused v) (\<lambda>_.
     ebind (ensure_user_account_for_signer (vc_payer ctx) (vc_user_bump ctx) slot) (\<lambda>u.
     let staging_before_atoms = tk_amount (pl_tokens p (vc_staging ctx)) in
     ebind (pg_transfer pg (vc_depositor_token ctx) (vc_staging ctx) amount_atoms p) (\<lambda>p1.
     ebind (ok_or (checked_sub (tk_amount (pl_tokens p1 (vc_staging ctx))) staging_before_atoms) ArithmeticOverflow) (\<lambda>received_atoms.
     ebind (require (0 < received_atoms) (Custom InvalidArgument)) (\<lambda>_.
     ebind (adapter_deposit pg (vault_deposit_accounts ctx) received_atoms p1) (\<lambda>(p2, credited_shares).
     ebind (shares_to_amount pg p2 (vc_lending_pool ctx) credited_shares) (\<lambda>credited_atoms.
     ebind (require (0 < credited_atoms) (Custom InvalidArgument)) (\<lambda>_.
     ebind (book_deposit v (vc_payer ctx) sub_vault_id now p2 (vc_lending_pool ctx) credited_atoms) (\<lambda>(v', shares_minted).
     ebind (credit_position u (vc_vault_key ctx) sub_vault_id shares_minted now) (\<lambda>u'.
     Inr (v', u', p2)))))))))))))"

section \<open>Withdrawal\<close>

text \<open>The principal share of the burned shares, and the checks that it can be paid now.\<close>

definition burn_shares :: "sub_vault \<Rightarrow> nat \<Rightarrow> nat \<Rightarrow> (sub_vault \<times> nat) res" where
  "burn_shares s shares_to_burn mfi_atoms =
     ebind (mul_div shares_to_burn (sv_total_principal_atoms s) (sv_total_shares s) False) (\<lambda>share.
     ebind (ok_or (narrow u64_lim share) (Custom MathOverflow)) (\<lambda>principal_decrement.
     ebind (require (0 < principal_decrement \<or> sv_total_assets_atoms s = 0) (Custom InvalidArgument)) (\<lambda>_.
     let burns_last_share = (sv_total_shares s = shares_to_burn);
         atoms_out = (if burns_last_share then min principal_decrement mfi_atoms else principal_decrement);
         sub_vault_idle = saturating_sub (saturating_sub (sv_total_principal_atoms s) (sv_deployed_principal_atoms s))
                            (sv_encumbered_in_orders_atoms s) in
     ebind (require (atoms_out \<le> sub_vault_idle) (Custom VaultInsufficientIdleAtoms)) (\<lambda>_.
     ebind (require (atoms_out \<le> mfi_atoms) (Custom VaultInsufficientIdleAtoms)) (\<lambda>_.
     ebind (if burns_last_share
            then require (sv_deployed_principal_atoms s = 0 \<and> sv_encumbered_in_orders_atoms s = 0) (Custom VaultInsufficientIdleAtoms)
            else Inr ()) (\<lambda>_.
     ebind (ok_or (checked_sub (sv_total_shares s) shares_to_burn) ArithmeticOverflow) (\<lambda>ts.
     ebind (ok_or (checked_sub (sv_total_assets_atoms s) atoms_out) ArithmeticOverflow) (\<lambda>ta.
     ebind (ok_or (checked_sub (sv_total_principal_atoms s) atoms_out) ArithmeticOverflow) (\<lambda>tp.
     Inr (s\<lparr>sv_total_shares := ts, sv_total_assets_atoms := ta, sv_total_principal_atoms := tp\<rparr>, atoms_out))))))))))"

text \<open>The bookkeeping of a burn on the vault: the shares left and the atoms to pay.\<close>

definition book_burn ::
  "programs \<Rightarrow> vault_context \<Rightarrow> nat \<Rightarrow> nat \<Rightarrow> int \<Rightarrow> global_vault \<Rightarrow> pool \<Rightarrow> (global_vault \<times> nat \<times> nat) res" where
  "book_burn pg ctx shares_to_burn sub_vault_id now v p =
     (let idx = sub_vault_index v sub_vault_id in
      ebind (require (idx \<noteq> NIL) (Custom SubVaultNotFound)) (\<lambda>_.
      ebind (read_asset_shares_u128 p (vc_integration_account ctx) (vc_lending_pool ctx)) (\<lambda>mfi_asset_shares.
      ebind (shares_to_amount pg p (vc_lending_pool ctx) mfi_asset_shares) (\<lambda>mfi_atoms.
      ebind (get_sub_vault v idx) (\<lambda>s.
      ebind (require (may_use_sub_vault s (vc_payer ctx)) (Custom VaultCuratorRequired)) (\<lambda>_.
      ebind (read_bank_asset_share_value_fp48 p (vc_lending_pool ctx)) (\<lambda>share_value.
      ebind (accrue_sub_vault s now share_value) (\<lambda>s1.
      ebind (burn_shares s1 shares_to_burn mfi_atoms) (\<lambda>(s2, atoms_out).
      Inr (set_sub_vault v idx s2, sv_total_shares s2, atoms_out))))))))))"

text \<open>The payout: what came back from the lending program, up to the atoms owed; the rest is returned to it.\<close>

definition pull_payout :: "programs \<Rightarrow> vault_context \<Rightarrow> nat \<Rightarrow> pool \<Rightarrow> (pool \<times> nat \<times> nat) res" where
  "pull_payout pg ctx atoms_out p =
     ebind (amount_to_asset_shares pg p (vc_lending_pool ctx) atoms_out) (\<lambda>expected_shares.
     ebind (adapter_withdraw pg (vault_payout_accounts ctx) expected_shares p) (\<lambda>(p1, actual_atoms, shares_burned).
     let payout = min actual_atoms atoms_out in
     Inr (p1, payout, saturating_sub actual_atoms payout)))"

definition return_surplus :: "programs \<Rightarrow> vault_context \<Rightarrow> nat \<Rightarrow> pool \<Rightarrow> pool res" where
  "return_surplus pg ctx surplus_atoms p =
     (if 0 < surplus_atoms
      then ebind (adapter_deposit pg (vault_deposit_accounts ctx) surplus_atoms p) (\<lambda>(p1, credited_shares). Inr p1)
      else Inr p)"

definition clear_drained_sub_vault :: "global_vault \<Rightarrow> nat \<Rightarrow> global_vault res" where
  "clear_drained_sub_vault v sub_vault_id =
     (let idx = sub_vault_index v sub_vault_id in
      if idx = NIL then Inr v
      else ebind (get_sub_vault v idx) (\<lambda>s.
        Inr (set_sub_vault v idx (s\<lparr>sv_total_assets_atoms := 0, sv_total_principal_atoms := 0\<rparr>))))"

definition debit_depositor :: "global_vault \<Rightarrow> pubkey \<Rightarrow> nat \<Rightarrow> nat \<Rightarrow> int \<Rightarrow> (global_vault \<times> bool) res" where
  "debit_depositor v payer sub_vault_id shares_to_burn now =
     (let seat_idx = depositor_seat_index v payer sub_vault_id in
      ebind (require (seat_idx \<noteq> NIL) (Custom InvalidArgument)) (\<lambda>_.
      ebind (get_depositor_seat v seat_idx) (\<lambda>seat.
      ebind (ok_or (checked_sub (ds_shares seat) shares_to_burn) ArithmeticOverflow) (\<lambda>n.
      let v1 = set_depositor_seat v seat_idx (seat\<lparr>ds_shares := n, ds_last_updated_unix := now\<rparr>) in
      if n = 0 then ebind (remove_sub_vault_depositor_seat v1 payer sub_vault_id) (\<lambda>(v2, freed). Inr (v2, True))
      else Inr (v1, False)))))"

definition debit_position :: "user_account \<Rightarrow> data_index \<Rightarrow> pubkey \<Rightarrow> nat \<Rightarrow> nat \<Rightarrow> bool \<Rightarrow> int \<Rightarrow> user_account res" where
  "debit_position u position_idx vault_key sub_vault_id shares_to_burn seat_zeroed now =
     (if position_idx = NIL then Inr u
      else
        ebind (get_vault_position u position_idx) (\<lambda>pos.
        ebind (ok_or (checked_sub (vp_shares pos) shares_to_burn) ArithmeticOverflow) (\<lambda>n.
        let u1 = set_vault_position u position_idx (pos\<lparr>vp_shares := n, vp_last_updated_unix := now\<rparr>) in
        if seat_zeroed then ebind (remove_vault_position u1 vault_key sub_vault_id) (\<lambda>(u2, freed). Inr u2)
        else Inr u1)))"

definition process_global_vault_withdraw ::
  "programs \<Rightarrow> vault_context \<Rightarrow> global_config \<Rightarrow> nat \<Rightarrow> nat \<Rightarrow> int \<Rightarrow> global_vault \<Rightarrow> user_account option \<Rightarrow> pool \<Rightarrow>
   (global_vault \<times> user_account \<times> pool) res" where
  "process_global_vault_withdraw pg ctx gc shares_to_burn sub_vault_id now v slot p =
     ebind (require (0 < shares_to_burn) (Custom InvalidArgument)) (\<lambda>_.
     ebind (require_global_not_paused gc) (\<lambda>_.
     ebind (require_vault_not_paused v) (\<lambda>_.
     ebind (ensure_user_account_for_signer (vc_payer ctx) (vc_user_bump ctx) slot) (\<lambda>u.
     let seat_idx = depositor_seat_index v (vc_payer ctx) sub_vault_id in
     ebind (require (seat_idx \<noteq> NIL) (Custom InvalidArgument)) (\<lambda>_.
     ebind (get_depositor_seat v seat_idx) (\<lambda>seat.
     ebind (require (shares_to_burn \<le> ds_shares seat) (Custom InvalidArgument)) (\<lambda>_.
     let position_idx = vault_position_index u (vc_vault_key ctx) sub_vault_id in
     ebind (book_burn pg ctx shares_to_burn sub_vault_id now v p) (\<lambda>(v1, new_total_shares, atoms_out).
     ebind (if 0 < atoms_out then pull_payout pg ctx atoms_out p else Inr (p, 0, 0)) (\<lambda>(p1, payout_atoms, surplus_atoms).
     ebind (if new_total_shares = 0 then clear_drained_sub_vault v1 sub_vault_id else Inr v1) (\<lambda>v2.
     ebind (if 0 < payout_atoms then pg_transfer pg (vc_staging ctx) (vc_depositor_token ctx) payout_atoms p1
            else Inr p1) (\<lambda>p2.
     ebind (return_surplus pg ctx surplus_atoms p2) (\<lambda>p3.
     ebind (debit_depositor v2 (vc_payer ctx) sub_vault_id shares_to_burn now) (\<lambda>(v3, seat_zeroed).
     ebind (debit_position u position_idx (vc_vault_key ctx) sub_vault_id shares_to_burn seat_zeroed now) (\<lambda>u'.
     Inr (v3, u', p3)))))))))))))))"

section \<open>The curator's fee\<close>

definition process_claim_curator_fee ::
  "programs \<Rightarrow> vault_context \<Rightarrow> global_config \<Rightarrow> nat \<Rightarrow> global_vault \<Rightarrow> pool \<Rightarrow> (global_vault \<times> pool) res" where
  "process_claim_curator_fee pg ctx gc sub_vault_id v p =
     ebind (require_global_not_paused gc) (\<lambda>_.
     ebind (require_vault_not_paused v) (\<lambda>_.
     let idx = sub_vault_index v sub_vault_id in
     ebind (require (idx \<noteq> NIL) (Custom SubVaultNotFound)) (\<lambda>_.
     ebind (get_sub_vault v idx) (\<lambda>s.
     ebind (require (vc_payer ctx = sv_curator s) (Custom VaultCuratorRequired)) (\<lambda>_.
     let fee_atoms = sv_accumulated_curator_fee_atoms s in
     if fee_atoms = 0 then Inr (v, p)
     else
       ebind (pull_payout pg ctx fee_atoms p) (\<lambda>(p1, payout_atoms, surplus_atoms).
       ebind (pg_transfer pg (vc_staging ctx) (vc_depositor_token ctx) payout_atoms p1) (\<lambda>p2.
       ebind (return_surplus pg ctx surplus_atoms p2) (\<lambda>p3.
       Inr (set_sub_vault v idx (s\<lparr>sv_accumulated_curator_fee_atoms :=
              saturating_sub (sv_accumulated_curator_fee_atoms s) payout_atoms\<rparr>), p3)))))))))"

end
