(* ===== verification/Vault_Books.thy ===== *)
theory Vault_Books
  imports Vault_Funds
begin

text \<open>The books of a vault over its whole life: whatever instructions run, the shares issued by a sub-vault are the
  shares its depositors hold, its risk parameters stay inside their bounds, and its id was assigned once.\<close>

section \<open>Depositors' shares\<close>

definition shares_where :: "(pubkey \<Rightarrow> nat \<Rightarrow> bool) \<Rightarrow> global_vault \<Rightarrow> nat" where
  "shares_where P v = tree_sum (\<lambda>d. if P (ds_owner d) (ds_sub_vault_id d) then ds_shares d else 0) (gv_claimed_seats v)"

abbreviation seat_shares :: "global_vault \<Rightarrow> nat \<Rightarrow> nat" where
  "seat_shares v k \<equiv> shares_where (\<lambda>w j. j = k) v"

abbreviation holding :: "global_vault \<Rightarrow> pubkey \<Rightarrow> nat \<Rightarrow> nat" where
  "holding v w k \<equiv> shares_where (\<lambda>w' j. w' = w \<and> j = k) v"

definition issued_shares :: "global_vault \<Rightarrow> nat \<Rightarrow> nat" where
  "issued_shares v k = tree_sum (\<lambda>s. if sv_sub_vault_id s = k then sv_total_shares s else 0) (gv_sub_vaults v)"

lemma shares_where_cong: "gv_claimed_seats v' = gv_claimed_seats v \<Longrightarrow> shares_where P v' = shares_where P v"
  by (simp add: shares_where_def)

lemma vault_seats_distinct: "vault_ok v \<Longrightarrow> distinct (map fst (gv_claimed_seats v))"
  using vault_trees_ok(2) by (simp add: tree_ok_def)

lemma vault_subs_distinct: "vault_ok v \<Longrightarrow> distinct (map fst (gv_sub_vaults v))"
  using vault_trees_ok(1) by (simp add: tree_ok_def)

lemma get_depositor_seat_Inr: "vault_ok v \<Longrightarrow> get_depositor_seat v i = Inr d \<longleftrightarrow> (i, d) \<in> set (gv_claimed_seats v)"
  by (simp add: get_depositor_seat_def ok_or_Inr tree_get_iff vault_seats_distinct)

lemma get_sub_vault_Inr: "vault_ok v \<Longrightarrow> get_sub_vault v i = Inr s \<longleftrightarrow> (i, s) \<in> set (gv_sub_vaults v)"
  by (simp add: get_sub_vault_def ok_or_Inr tree_get_iff vault_subs_distinct)

lemma seat_of_owner:
  assumes "vault_ok v" "(i, d) \<in> set (gv_claimed_seats v)" "(j, e) \<in> set (gv_claimed_seats v)"
    "ds_owner d = ds_owner e" "ds_sub_vault_id d = ds_sub_vault_id e"
  shows "d = e"
proof -
  have "inj_on (\<lambda>p. (ds_owner (snd p), ds_sub_vault_id (snd p))) (set (gv_claimed_seats v))"
    using assms(1) by (simp add: vault_ok_def distinct_map)
  then have "(i, d) = (j, e)" by (rule inj_onD) (use assms in simp_all)
  then show ?thesis by simp
qed

lemma set_depositor_seat_ok:
  assumes ok: "vault_ok v" and d: "(i, d) \<in> set (gv_claimed_seats v)"
    and q: "ds_owner q = ds_owner d" "ds_sub_vault_id q = ds_sub_vault_id d"
  shows "vault_ok (set_depositor_seat v i q)"
proof -
  let ?t = "tree_update i (\<lambda>_. q) (gv_claimed_seats v)"
  have t: "tree_ok depositor_seat_cmp (gv_claimed_seats v)" using vault_trees_ok(2)[OF ok] .
  have "tree_ok depositor_seat_cmp ?t"
    by (rule tree_update_const_ok[OF _ _ t d]) (simp_all add: depositor_seat_cmp_def q)
  then have desc: "descending depositor_seat_cmp ?t" by (simp add: tree_ok_def)
  have keys: "map (\<lambda>p. (ds_owner (snd p), ds_sub_vault_id (snd p))) ?t = map (\<lambda>p. (ds_owner (snd p), ds_sub_vault_id (snd p))) (gv_claimed_seats v)"
    by (rule tree_update_map[OF vault_seats_distinct[OF ok] d]) (simp add: q)
  have b: "vault_blocks (set_depositor_seat v i q) = vault_blocks v" by (simp add: vault_blocks_def set_depositor_seat_def)
  show ?thesis using ok desc keys unfolding vault_ok_def b by (simp add: set_depositor_seat_def)
qed

lemma shares_set_seat:
  assumes ok: "vault_ok v" and d: "(i, d) \<in> set (gv_claimed_seats v)"
    and q: "ds_owner q = ds_owner d" "ds_sub_vault_id q = ds_sub_vault_id d"
  shows "shares_where P (set_depositor_seat v i q) + (if P (ds_owner d) (ds_sub_vault_id d) then ds_shares d else 0) =
    shares_where P v + (if P (ds_owner d) (ds_sub_vault_id d) then ds_shares q else 0)"
  using tree_sum_update[OF vault_seats_distinct[OF ok] d, of "\<lambda>d. if P (ds_owner d) (ds_sub_vault_id d) then ds_shares d else 0" q]
  by (simp add: shares_where_def set_depositor_seat_def q)

text \<open>A new seat holds nothing.\<close>

lemma upsert_seat_shares:
  assumes "upsert_sub_vault_depositor_seat v w k = Inr (v', i)"
  shows "shares_where P v' = shares_where P v \<and> gv_next_sub_vault_id v' = gv_next_sub_vault_id v"
  using assms
  by (auto simp: upsert_sub_vault_depositor_seat_def get_free_node_address_on_vault_fixed_def Let_def shares_where_def ds_probe_def
      split: if_splits prod.splits elim!: ebind_InrE)

lemma credit_depositor_shares:
  assumes ok: "vault_ok v" and c: "credit_depositor v w k sh s now = Inr v'"
  shows "vault_ok v' \<and> shares_where P v' = shares_where P v + (if P w k then sh else 0) \<and>
    gv_sub_vaults v' = gv_sub_vaults v \<and> gv_market_orders v' = gv_market_orders v \<and> gv_next_sub_vault_id v' = gv_next_sub_vault_id v"
proof -
  obtain v1 i d where up: "upsert_sub_vault_depositor_seat v w k = Inr (v1, i)" and d: "get_depositor_seat v1 i = Inr d"
    and v': "v' = set_depositor_seat v1 i (d\<lparr>ds_shares := ds_shares d + sh,
      ds_snapshot_supply_yield_index_scaled := sv_cumulative_supply_yield_index_scaled s,
      ds_snapshot_delta_yield_index_scaled := sv_cumulative_delta_yield_index_scaled s, ds_last_updated_unix := now\<rparr>)"
    using c unfolding credit_depositor_def by (elim result_elims) (simp add: ok_or_Inr checked_add_Some)
  note u = upsert_seat_ok[OF ok up] and n = upsert_seat_shares[OF up, of P]
  have m: "(i, d) \<in> set (gv_claimed_seats v1)" using d u get_depositor_seat_Inr by blast
  obtain d' where "(i, d') \<in> set (gv_claimed_seats v1)" "ds_owner d' = w" "ds_sub_vault_id d' = k" using u by blast
  then have k: "ds_owner d = w" "ds_sub_vault_id d = k" using m u vault_seats_distinct eq_key_imp_eq_value by metis+
  obtain q where v'q: "v' = set_depositor_seat v1 i q" and q: "ds_owner q = ds_owner d" "ds_sub_vault_id q = ds_sub_vault_id d"
    "ds_shares q = ds_shares d + sh" using v' by auto
  have "vault_ok v'" unfolding v'q by (rule set_depositor_seat_ok[OF _ m q(1,2)]) (use u in blast)
  moreover have "shares_where P v' = shares_where P v1 + (if P w k then sh else 0)"
    using shares_set_seat[OF _ m q(1,2), of P] u unfolding v'q by (auto simp: k q(3))
  ultimately show ?thesis using u n by (simp add: v'q set_depositor_seat_def)
qed

lemma depositor_seat_hit:
  assumes ok: "vault_ok v" and nz: "depositor_seat_index v w k \<noteq> NIL"
  shows "\<exists>d. (depositor_seat_index v w k, d) \<in> set (gv_claimed_seats v) \<and> ds_owner d = w \<and> ds_sub_vault_id d = k"
  using tree_lookup_hit[of depositor_seat_cmp "ds_probe w k" "gv_claimed_seats v"] nz
  by (auto simp: depositor_seat_index_def depositor_seat_cmp_Equal ds_probe_def)

lemma remove_seat_shares:
  assumes ok: "vault_ok v" and r: "remove_sub_vault_depositor_seat v w k = Inr (v', i)"
    and z: "\<forall>d. (depositor_seat_index v w k, d) \<in> set (gv_claimed_seats v) \<longrightarrow> ds_shares d = 0"
  shows "shares_where P v' = shares_where P v \<and> gv_sub_vaults v' = gv_sub_vaults v \<and>
    gv_next_sub_vault_id v' = gv_next_sub_vault_id v \<and> gv_market_orders v' = gv_market_orders v"
proof (cases "depositor_seat_index v w k = NIL")
  case True
  then show ?thesis using r by (simp add: remove_sub_vault_depositor_seat_def depositor_seat_index_def)
next
  case False
  obtain d where d: "(depositor_seat_index v w k, d) \<in> set (gv_claimed_seats v)" using depositor_seat_hit[OF ok False] by blast
  have "shares_where P v' = tree_sum (\<lambda>d. if P (ds_owner d) (ds_sub_vault_id d) then ds_shares d else 0)
      (tree_remove (depositor_seat_index v w k) (gv_claimed_seats v)) \<and> gv_sub_vaults v' = gv_sub_vaults v \<and>
    gv_next_sub_vault_id v' = gv_next_sub_vault_id v \<and> gv_market_orders v' = gv_market_orders v"
    using r False
    by (auto simp: remove_sub_vault_depositor_seat_def depositor_seat_index_def release_node_address_on_vault_fixed_def Let_def
        shares_where_def elim!: ebind_InrE)
  then show ?thesis
    using tree_sum_remove[OF vault_seats_distinct[OF ok] d, of "\<lambda>d. if P (ds_owner d) (ds_sub_vault_id d) then ds_shares d else 0"] z d
    by (auto simp: shares_where_def split: if_splits)
qed

lemma debit_depositor_shares:
  assumes ok: "vault_ok v" and c: "debit_depositor v w k sh now = Inr (v', z)"
  shows "vault_ok v' \<and> shares_where P v' + (if P w k then sh else 0) = shares_where P v \<and>
    gv_sub_vaults v' = gv_sub_vaults v \<and> gv_market_orders v' = gv_market_orders v \<and> gv_next_sub_vault_id v' = gv_next_sub_vault_id v"
proof -
  let ?i = "depositor_seat_index v w k"
  obtain d where nz: "?i \<noteq> NIL" and d: "get_depositor_seat v ?i = Inr d" and le: "sh \<le> ds_shares d"
    and v': "let v1 = set_depositor_seat v ?i (d\<lparr>ds_shares := ds_shares d - sh, ds_last_updated_unix := now\<rparr>) in
       (if ds_shares d = sh then \<exists>f. remove_sub_vault_depositor_seat v1 w k = Inr (v', f) else v' = v1)"
    using c unfolding debit_depositor_def Let_def
    by (elim ebind_InrE) (auto simp: ok_or_Inr checked_sub_Some require_Inr split: if_splits elim!: ebind_InrE)
  let ?q = "d\<lparr>ds_shares := ds_shares d - sh, ds_last_updated_unix := now\<rparr>"
  let ?v = "set_depositor_seat v ?i ?q"
  have m: "(?i, d) \<in> set (gv_claimed_seats v)" using d ok by (simp add: get_depositor_seat_Inr)
  have k: "ds_owner d = w" "ds_sub_vault_id d = k"
    using depositor_seat_hit[OF ok nz] m vault_seats_distinct[OF ok] eq_key_imp_eq_value by metis+
  have ok1: "vault_ok ?v" by (rule set_depositor_seat_ok[OF ok m]) simp_all
  have s1: "shares_where P ?v + (if P w k then sh else 0) = shares_where P v"
    using shares_set_seat[OF ok m, of ?q P] le by (auto simp: k split: if_splits)
  show ?thesis
  proof (cases "ds_shares d = sh")
    case False
    then have "v' = ?v" using v' by (simp add: Let_def)
    then show ?thesis using ok1 s1 by (simp add: set_depositor_seat_def)
  next
    case True
    then obtain f where r: "remove_sub_vault_depositor_seat ?v w k = Inr (v', f)" using v' by (auto simp: Let_def)
    have "\<forall>e. (depositor_seat_index ?v w k, e) \<in> set (gv_claimed_seats ?v) \<longrightarrow> ds_shares e = 0"
    proof (intro allI impI)
      fix e assume e: "(depositor_seat_index ?v w k, e) \<in> set (gv_claimed_seats ?v)"
      have "depositor_seat_index ?v w k \<noteq> NIL" using e ok1 vault_block_not_NIL[OF ok1] by (force simp: vault_blocks_def)
      then have ke: "ds_owner e = w" "ds_sub_vault_id e = k"
        using depositor_seat_hit[OF ok1] e vault_seats_distinct[OF ok1] eq_key_imp_eq_value by metis+
      have q: "(?i, ?q) \<in> set (gv_claimed_seats ?v)"
        using tree_update_member[OF vault_seats_distinct[OF ok] m, of ?q] by (simp add: set_depositor_seat_def)
      have "e = ?q" by (rule seat_of_owner[OF ok1 e q]) (simp_all add: k ke)
      then show "ds_shares e = 0" using True by simp
    qed
    note rs = remove_seat_shares[OF ok1 r this, of P]
    then show ?thesis using remove_seat_ok[OF ok1 r] s1 by (simp add: set_depositor_seat_def)
  qed
qed

section \<open>Minting and burning\<close>

lemma mint_shares_Inr:
  assumes "mint_shares s c = Inr (s', sh)"
  shows "0 < sh \<and> sv_total_shares s' = sv_total_shares s + sh \<and> sv_total_principal_atoms s' = sv_total_principal_atoms s + c \<and>
    (if sv_total_shares s = 0 then sh = c \<and> sv_total_assets_atoms s' = c
     else 0 < sv_total_assets_atoms s \<and> sh = c * sv_total_shares s div sv_total_assets_atoms s \<and>
       sv_total_assets_atoms s' = sv_total_assets_atoms s + c) \<and>
    s' = s\<lparr>sv_total_shares := sv_total_shares s', sv_total_principal_atoms := sv_total_principal_atoms s',
           sv_total_assets_atoms := sv_total_assets_atoms s'\<rparr>"
proof (cases "sv_total_shares s = 0")
  case True
  then show ?thesis using assms
    by (auto simp: mint_shares_def require_Inr ok_or_Inr checked_add_Some elim!: ebind_InrE)
next
  case False
  then show ?thesis using assms
    by (auto simp: mint_shares_def require_Inr ok_or_Inr checked_add_Some mul_div_floor_div elim!: ebind_InrE)
qed

lemma burn_shares_Inr:
  assumes "burn_shares s sh mfi = Inr (s', out)"
  shows "0 < sv_total_shares s \<and> sh \<le> sv_total_shares s \<and> sv_total_shares s' = sv_total_shares s - sh \<and>
    out \<le> sh * sv_total_principal_atoms s div sv_total_shares s \<and> out \<le> mfi \<and>
    (sh < sv_total_shares s \<longrightarrow> out = sh * sv_total_principal_atoms s div sv_total_shares s) \<and>
    (0 < out \<longrightarrow> out + sv_deployed_principal_atoms s + sv_encumbered_in_orders_atoms s \<le> sv_total_principal_atoms s) \<and>
    out \<le> sv_total_assets_atoms s \<and> sv_total_assets_atoms s' = sv_total_assets_atoms s - out \<and>
    out \<le> sv_total_principal_atoms s \<and> sv_total_principal_atoms s' = sv_total_principal_atoms s - out \<and>
    (sh = sv_total_shares s \<longrightarrow> sv_deployed_principal_atoms s = 0 \<and> sv_encumbered_in_orders_atoms s = 0) \<and>
    s' = s\<lparr>sv_total_shares := sv_total_shares s', sv_total_principal_atoms := sv_total_principal_atoms s',
           sv_total_assets_atoms := sv_total_assets_atoms s'\<rparr>"
proof -
  obtain d where d: "mul_div sh (sv_total_principal_atoms s) (sv_total_shares s) False = Inr d"
    and out: "out = (if sv_total_shares s = sh then min d mfi else d)" "out \<le> mfi"
      "out \<le> sv_total_principal_atoms s - sv_deployed_principal_atoms s - sv_encumbered_in_orders_atoms s"
    and last: "sv_total_shares s = sh \<longrightarrow> sv_deployed_principal_atoms s = 0 \<and> sv_encumbered_in_orders_atoms s = 0"
    and le: "sh \<le> sv_total_shares s" "out \<le> sv_total_assets_atoms s" "out \<le> sv_total_principal_atoms s"
    and s': "s' = s\<lparr>sv_total_shares := sv_total_shares s - sh, sv_total_assets_atoms := sv_total_assets_atoms s - out,
      sv_total_principal_atoms := sv_total_principal_atoms s - out\<rparr>"
    using assms unfolding burn_shares_def Let_def saturating_sub_minus
    by (elim ebind_InrE) (auto simp: require_Inr ok_or_Inr checked_sub_Some narrow_Some split: if_splits)
  have "d = sh * sv_total_principal_atoms s div sv_total_shares s" "0 < sv_total_shares s" using mul_div_floor_div[OF d] by simp_all
  then show ?thesis using out last le by (auto simp: s')
qed

section \<open>What the other operations leave alone\<close>

definition sv_static :: "sub_vault \<Rightarrow> nat list" where
  "sv_static s =
     [sv_sub_vault_id s, sv_is_sunset s, sv_kind s, sv_curator s, sv_max_ltv_bps s, sv_liquidation_ltv_bps s,
      sv_max_term_seconds s, sv_curator_fee_bps s, sv_open_orders_count s, sv_total_shares s]"

lemma restore_static [simp]: "sv_static (restore_assets_principal_invariant s) = sv_static s"
  by (simp add: restore_assets_principal_invariant_def sv_static_def)

lemma accrue_assets_static: "accrue_assets s d y = Inr s' \<Longrightarrow> sv_static s' = sv_static s"
  unfolding accrue_assets_def by (auto simp: sv_static_def split: if_splits elim!: ebind_InrE)

lemma accrue_indices_static: "accrue_indices s d y = Inr s' \<Longrightarrow> sv_static s' = sv_static s"
  unfolding accrue_indices_def by (auto simp: sv_static_def split: if_splits elim!: ebind_InrE)

lemma accrue_static: "accrue_sub_vault s now cv = Inr s' \<Longrightarrow> sv_static s' = sv_static s"
  unfolding accrue_sub_vault_def Let_def
  by (auto simp: sv_static_def[of "s\<lparr>sv_last_accrue_unix := now\<rparr>"] split: if_splits elim!: ebind_InrE
      dest!: accrue_assets_static accrue_indices_static) (simp_all add: sv_static_def)

lemma mint_static: "mint_shares s c = Inr (s', sh) \<Longrightarrow> sv_static s' = sv_static (s\<lparr>sv_total_shares := sv_total_shares s + sh\<rparr>)"
proof -
  assume m: "mint_shares s c = Inr (s', sh)"
  obtain a b where "s' = s\<lparr>sv_total_shares := sv_total_shares s + sh, sv_total_principal_atoms := a, sv_total_assets_atoms := b\<rparr>"
    using mint_shares_Inr[OF m] by metis
  then show ?thesis by (simp add: sv_static_def)
qed

lemma burn_static: "burn_shares s sh mfi = Inr (s', out) \<Longrightarrow> sv_static s' = sv_static (s\<lparr>sv_total_shares := sv_total_shares s - sh\<rparr>)"
proof -
  assume m: "burn_shares s sh mfi = Inr (s', out)"
  obtain a b where "s' = s\<lparr>sv_total_shares := sv_total_shares s - sh, sv_total_principal_atoms := a, sv_total_assets_atoms := b\<rparr>"
    using burn_shares_Inr[OF m] by metis
  then show ?thesis by (simp add: sv_static_def)
qed

lemma deploy_static: "deploy_on_sub_vault s now cv p r c sur = Inr s' \<Longrightarrow> sv_static s' = sv_static s"
  unfolding deploy_on_sub_vault_def Let_def
  by (elim ebind_InrE) (drule accrue_static, auto simp: sv_static_def restore_assets_principal_invariant_def split: if_splits elim!: ebind_InrE)

lemma realize_static: "realize_on_sub_vault s p c e = Inr s' \<Longrightarrow> sv_static s' = sv_static s"
  unfolding realize_on_sub_vault_def Let_def
  by (auto simp: sv_static_def restore_assets_principal_invariant_def split: if_splits elim!: ebind_InrE)

lemma retire_static: "retire_on_sub_vault s now cv loan = Inr s' \<Longrightarrow> sv_static s' = sv_static s"
  unfolding retire_on_sub_vault_def Let_def
  by (elim ebind_InrE) (drule accrue_static, drule realize_static, auto simp: sv_static_def split: if_splits elim!: ebind_InrE)

lemma sweep_static: "sv_static (sweep_on_sub_vault s a) = sv_static s"
  by (simp add: sv_static_def sweep_on_sub_vault_def)

end
