(* ===== verification/Vault_History.thy ===== *)
theory Vault_History
  imports Vault_Books Matching
begin

text \<open>The life of a vault: every instruction that writes to it, in any order and with any outcome of the token and
  lending programs. \<open>vault_inv\<close> states what they all keep.\<close>

section \<open>The invariant, up to an imbalance of the shares\<close>

definition vault_inv_off :: "(nat \<Rightarrow> int) \<Rightarrow> global_vault \<Rightarrow> bool" where
  "vault_inv_off e v =
     (vault_ok v \<and> (\<forall>k. int (seat_shares v k) = int (issued_shares v k) + e k) \<and>
      (\<forall>p \<in> set (gv_sub_vaults v). risk_ok (snd p) \<and> sv_sub_vault_id (snd p) < gv_next_sub_vault_id v) \<and>
      (\<forall>p \<in> set (gv_market_orders v). or_sub_vault_id (snd p) < gv_next_sub_vault_id v))"

definition vault_inv :: "global_vault \<Rightarrow> bool" where
  "vault_inv v = vault_inv_off (\<lambda>_. 0) v"

lemma inv_frame:
  assumes "vault_inv_off e v" "vault_ok v'" "gv_claimed_seats v' = gv_claimed_seats v" "gv_sub_vaults v' = gv_sub_vaults v"
    "gv_market_orders v' = gv_market_orders v" "gv_next_sub_vault_id v' = gv_next_sub_vault_id v"
  shows "vault_inv_off e v'"
  using assms by (simp add: vault_inv_off_def shares_where_def issued_shares_def)

lemma tree_update_all:
  assumes "distinct (map fst t)" "(i, w) \<in> set t" "\<forall>p \<in> set t. P (snd p)" "P u"
  shows "\<forall>p \<in> set (tree_update i (\<lambda>_. u) t). P (snd p)"
  using tree_update_member[OF assms(1,2), of u] assms(3,4) by auto

lemma issued_set:
  assumes ok: "vault_ok v" and s: "(i, s) \<in> set (gv_sub_vaults v)" and q: "sv_sub_vault_id q = sv_sub_vault_id s"
  shows "issued_shares (set_sub_vault v i q) k + (if sv_sub_vault_id s = k then sv_total_shares s else 0) =
    issued_shares v k + (if sv_sub_vault_id s = k then sv_total_shares q else 0)"
  using tree_sum_update[OF vault_subs_distinct[OF ok] s, of "\<lambda>s. if sv_sub_vault_id s = k then sv_total_shares s else 0" q]
  by (simp add: issued_shares_def set_sub_vault_def q)

text \<open>Writing a sub-vault back moves the imbalance by the change of its shares.\<close>

lemma inv_set:
  assumes inv: "vault_inv_off e v" and s: "(i, s) \<in> set (gv_sub_vaults v)"
    and q: "sv_sub_vault_id q = sv_sub_vault_id s" "sv_open_orders_count q = sv_open_orders_count s" "risk_ok s \<Longrightarrow> risk_ok q"
  shows "vault_inv_off (\<lambda>k. e k + (if k = sv_sub_vault_id s then int (sv_total_shares s) - int (sv_total_shares q) else 0))
    (set_sub_vault v i q)"
proof -
  have ok: "vault_ok v" using inv by (simp add: vault_inv_off_def)
  have seats: "seat_shares (set_sub_vault v i q) k = seat_shares v k" for k
    by (rule shares_where_cong) (simp add: set_sub_vault_def)
  have "int (seat_shares v k) = int (issued_shares v k) + e k" for k using inv by (simp add: vault_inv_off_def)
  then have bal: "int (seat_shares (set_sub_vault v i q) k) = int (issued_shares (set_sub_vault v i q) k) +
      (e k + (if k = sv_sub_vault_id s then int (sv_total_shares s) - int (sv_total_shares q) else 0))" for k
    using issued_set[OF ok s q(1), of k] by (fastforce simp: seats split: if_splits)
  have "\<forall>p \<in> set (gv_sub_vaults (set_sub_vault v i q)). risk_ok (snd p) \<and>
      sv_sub_vault_id (snd p) < gv_next_sub_vault_id v"
    unfolding set_sub_vault_def
    by (simp, rule tree_update_all[OF vault_subs_distinct[OF ok] s]) (use inv s q in \<open>auto simp: vault_inv_off_def\<close>)
  moreover have "gv_market_orders (set_sub_vault v i q) = gv_market_orders v" by (simp add: set_sub_vault_def)
  ultimately show ?thesis using inv bal vault_ok_set_sub_vault[OF ok s q(1,2)] by (simp add: vault_inv_off_def set_sub_vault_def)
qed

definition keeps :: "sub_vault \<Rightarrow> sub_vault \<Rightarrow> bool" where
  "keeps s q = (sv_sub_vault_id q = sv_sub_vault_id s \<and> sv_open_orders_count q = sv_open_orders_count s \<and>
     sv_total_shares q = sv_total_shares s \<and> (risk_ok s \<longrightarrow> risk_ok q))"

lemma static_keeps: "sv_static q = sv_static s \<Longrightarrow> keeps s q"
  by (simp add: sv_static_def keeps_def risk_ok_def)

lemma inv_keeps:
  assumes "vault_inv_off e v" "(i, s) \<in> set (gv_sub_vaults v)" "keeps s q"
  shows "vault_inv_off e (set_sub_vault v i q)"
  using inv_set[OF assms(1,2), of q] assms(3) by (simp add: keeps_def cong: if_cong)

lemma inv_on_sub_vault:
  assumes inv: "vault_inv_off e v" and on: "on_sub_vault v k f = Inr v'" and f: "\<And>s q. f s = Inr q \<Longrightarrow> keeps s q"
  shows "vault_inv_off e v'"
proof -
  obtain i s q where s: "get_sub_vault v i = Inr s" and q: "f s = Inr q" "v' = set_sub_vault v i q"
    using on unfolding on_sub_vault_def Let_def by (auto elim!: ebind_InrE)
  have "(i, s) \<in> set (gv_sub_vaults v)" using s inv by (simp add: get_sub_vault_Inr vault_inv_off_def)
  then show ?thesis using inv_keeps[OF inv _ f[OF q(1)]] q(2) by simp
qed

lemma inv_credit:
  assumes inv: "vault_inv_off e v" and c: "credit_depositor v w k sh s now = Inr v'"
  shows "vault_inv_off (\<lambda>j. e j + (if j = k then int sh else 0)) v'"
proof -
  have ok: "vault_ok v" using inv by (simp add: vault_inv_off_def)
  note r = credit_depositor_shares[OF ok c]
  have "issued_shares v' j = issued_shares v j" for j using r[of "\<lambda>_ _. True"] by (simp add: issued_shares_def)
  moreover have "seat_shares v' j = seat_shares v j + (if j = k then sh else 0)" for j using r[of "\<lambda>w i. i = j"] by auto
  ultimately show ?thesis using r[of "\<lambda>_ _. True"] inv unfolding vault_inv_off_def by simp
qed

lemma inv_debit:
  assumes inv: "vault_inv_off e v" and c: "debit_depositor v w k sh now = Inr (v', z)"
  shows "vault_inv_off (\<lambda>j. e j - (if j = k then int sh else 0)) v'"
proof -
  have ok: "vault_ok v" using inv by (simp add: vault_inv_off_def)
  note r = debit_depositor_shares[OF ok c]
  have "issued_shares v' j = issued_shares v j" for j using r[of "\<lambda>_ _. True"] by (simp add: issued_shares_def)
  moreover have "seat_shares v' j + (if j = k then sh else 0) = seat_shares v j" for j using r[of "\<lambda>w i. i = j"] by auto
  then have that: "int (seat_shares v' j + (if j = k then sh else 0)) = int (seat_shares v j)" for j by simp
  have "int (seat_shares v' j) = int (seat_shares v j) - (if j = k then int sh else 0)" for j
    using that[of j] by (cases "j = k") simp_all
  ultimately show ?thesis using r[of "\<lambda>_ _. True"] inv unfolding vault_inv_off_def by simp
qed

section \<open>Deposits and withdrawals\<close>

lemma static_fields:
  "sv_static q = sv_static s \<Longrightarrow> sv_sub_vault_id q = sv_sub_vault_id s \<and> sv_open_orders_count q = sv_open_orders_count s \<and>
     sv_total_shares q = sv_total_shares s \<and> (risk_ok s \<longrightarrow> risk_ok q)"
  by (simp add: sv_static_def risk_ok_def)

lemma sub_vault_at:
  assumes "vault_ok v" "sub_vault_index v k \<noteq> NIL" "get_sub_vault v (sub_vault_index v k) = Inr s"
  shows "(sub_vault_index v k, s) \<in> set (gv_sub_vaults v) \<and> sv_sub_vault_id s = k"
  using sub_vault_index_hit[OF assms(1,2)] assms(3) by force

lemma book_deposit_inv:
  assumes inv: "vault_inv v" and b: "book_deposit v w k now p bank c = Inr (v', sh)"
  shows "vault_inv v'"
proof -
  obtain v1 s cv s1 s' where v1: "(if has_free_node_block v then Inr v else vault_expand_node_block v) = Inr v1"
    and nz: "sub_vault_index v1 k \<noteq> NIL" and s: "get_sub_vault v1 (sub_vault_index v1 k) = Inr s"
    and m: "accrue_sub_vault s now cv = Inr s1" "mint_shares s1 c = Inr (s', sh)"
    and cr: "credit_depositor (set_sub_vault v1 (sub_vault_index v1 k) s') w k sh s' now = Inr v'"
    using b unfolding book_deposit_def deposit_on_sub_vault_def Let_def
    by (elim ebind_InrE) (auto simp: require_Inr elim!: ebind_InrE)
  have i1: "vault_inv_off (\<lambda>_. 0) v1"
  proof (cases "has_free_node_block v")
    case True then show ?thesis using v1 inv by (simp add: vault_inv_def)
  next
    case False
    then have e: "vault_expand_node_block v = Inr v1" using v1 by simp
    have "vault_ok v" using inv by (simp add: vault_inv_def vault_inv_off_def)
    then have "vault_ok v1" using expand_node_block_ok e by blast
    moreover have "gv_claimed_seats v1 = gv_claimed_seats v" "gv_sub_vaults v1 = gv_sub_vaults v"
      "gv_market_orders v1 = gv_market_orders v" "gv_next_sub_vault_id v1 = gv_next_sub_vault_id v"
      using e by (auto simp: vault_expand_node_block_def elim!: ebind_InrE)
    ultimately show ?thesis using inv_frame inv unfolding vault_inv_def by blast
  qed
  have ok1: "vault_ok v1" using i1 by (simp add: vault_inv_off_def)
  note at = sub_vault_at[OF ok1 nz s]
  have st: "sv_static s' = sv_static (s1\<lparr>sv_total_shares := sv_total_shares s1 + sh\<rparr>)" using mint_static[OF m(2)] .
  note acc = static_fields[OF accrue_static[OF m(1)]]
  note mint = static_fields[OF st]
  have i2: "vault_inv_off (\<lambda>j. 0 + (if j = sv_sub_vault_id s then int (sv_total_shares s) - int (sv_total_shares s') else 0))
      (set_sub_vault v1 (sub_vault_index v1 k) s')"
    by (rule inv_set[OF i1]) (use at acc mint in \<open>auto simp: risk_ok_def\<close>)
  have d: "int (sv_total_shares s) - int (sv_total_shares s') = - int sh" using acc mint by simp
  show ?thesis using inv_credit[OF i2 cr] at unfolding vault_inv_def d
    by (simp add: if_distrib cong: if_cong)
qed

lemma book_burn_inv:
  assumes inv: "vault_inv v" and b: "book_burn pg ctx sh k now v p = Inr (v', ts, out)"
  shows "vault_inv_off (\<lambda>j. if j = k then int sh else 0) v'"
proof -
  obtain s cv s1 s2 mfi where nz: "sub_vault_index v k \<noteq> NIL" and s: "get_sub_vault v (sub_vault_index v k) = Inr s"
    and m: "accrue_sub_vault s now cv = Inr s1" "burn_shares s1 sh mfi = Inr (s2, out)"
    and v': "v' = set_sub_vault v (sub_vault_index v k) s2"
    using b unfolding book_burn_def Let_def by (elim ebind_InrE) (auto simp: require_Inr elim!: ebind_InrE)
  have ok: "vault_ok v" using inv by (simp add: vault_inv_def vault_inv_off_def)
  note at = sub_vault_at[OF ok nz s]
  note acc = static_fields[OF accrue_static[OF m(1)]]
  note burn = static_fields[OF burn_static[OF m(2)]] burn_shares_Inr[OF m(2)]
  have "vault_inv_off (\<lambda>j. 0 + (if j = sv_sub_vault_id s then int (sv_total_shares s) - int (sv_total_shares s2) else 0)) v'"
    unfolding v' by (rule inv_set) (use inv at acc burn in \<open>auto simp: vault_inv_def risk_ok_def\<close>)
  moreover have "int (sv_total_shares s) - int (sv_total_shares s2) = int sh" using acc burn by (simp add: of_nat_diff)
  ultimately show ?thesis using at by (simp cong: if_cong)
qed

lemma clear_inv:
  assumes inv: "vault_inv_off e v" and c: "clear_drained_sub_vault v k = Inr v'"
  shows "vault_inv_off e v'"
proof (cases "sub_vault_index v k = NIL")
  case True then show ?thesis using c inv by (simp add: clear_drained_sub_vault_def)
next
  case False
  then obtain s where s: "get_sub_vault v (sub_vault_index v k) = Inr s"
    and v': "v' = set_sub_vault v (sub_vault_index v k) (s\<lparr>sv_total_assets_atoms := 0, sv_total_principal_atoms := 0\<rparr>)"
    using c by (auto simp: clear_drained_sub_vault_def Let_def elim!: ebind_InrE)
  have "(sub_vault_index v k, s) \<in> set (gv_sub_vaults v)" using s inv by (simp add: get_sub_vault_Inr vault_inv_off_def)
  then show ?thesis unfolding v' by (rule inv_keeps[OF inv]) (simp add: keeps_def risk_ok_def)
qed

lemma deposit_inv:
  assumes "vault_inv v" "process_global_vault_deposit pg ctx gc a k now v slot p = Inr (v', u', p')"
  shows "vault_inv v'"
  using assms unfolding process_global_vault_deposit_def Let_def
  by (auto elim!: ebind_InrE intro: book_deposit_inv)

lemma withdraw_inv:
  assumes inv: "vault_inv v" and w: "process_global_vault_withdraw pg ctx gc sh k now v slot p = Inr (v', u', p')"
  shows "vault_inv v'"
proof -
  obtain v1 ts out v2 z where b: "book_burn pg ctx sh k now v p = Inr (v1, ts, out)"
    and c: "(if ts = 0 then clear_drained_sub_vault v1 k else Inr v1) = Inr v2"
    and d: "debit_depositor v2 (vc_payer ctx) k sh now = Inr (v', z)"
    using w unfolding process_global_vault_withdraw_def Let_def by (auto elim!: ebind_InrE)
  note i1 = book_burn_inv[OF inv b]
  have "vault_inv_off (\<lambda>j. if j = k then int sh else 0) v2" using c i1 clear_inv[OF i1] by (simp split: if_splits)
  then show ?thesis using inv_debit[OF _ d] by (fastforce simp: vault_inv_def cong: if_cong)
qed

lemma claim_fee_inv:
  assumes inv: "vault_inv v" and c: "process_claim_curator_fee pg ctx gc k v p = Inr (v', p')"
  shows "vault_inv v'"
proof -
  have "v' = v \<or> (\<exists>i s n. get_sub_vault v i = Inr s \<and> v' = set_sub_vault v i (s\<lparr>sv_accumulated_curator_fee_atoms := n\<rparr>))"
    using c unfolding process_claim_curator_fee_def Let_def by (auto split: if_splits elim!: ebind_InrE) blast+
  then show ?thesis
  proof
    assume "\<exists>i s n. get_sub_vault v i = Inr s \<and> v' = set_sub_vault v i (s\<lparr>sv_accumulated_curator_fee_atoms := n\<rparr>)"
    then obtain i s n where s: "get_sub_vault v i = Inr s" and v': "v' = set_sub_vault v i (s\<lparr>sv_accumulated_curator_fee_atoms := n\<rparr>)"
      by blast
    have m: "(i, s) \<in> set (gv_sub_vaults v)" using s inv by (simp add: get_sub_vault_Inr vault_inv_off_def vault_inv_def)
    show ?thesis using inv_keeps[OF inv[unfolded vault_inv_def] m] unfolding v' vault_inv_def by (simp add: keeps_def risk_ok_def)
  qed (use inv in simp)
qed

section \<open>New and removed sub-vaults\<close>

text \<open>A new sub-vault has an id above every id assigned before, so no order reference names it.\<close>

lemma insert_sub_vault_ok:
  assumes ok: "vault_ok v" and fl: "gv_sub_vault_free_list v = i # fl"
    and new: "\<forall>p \<in> set (gv_sub_vaults v). sv_sub_vault_id (snd p) \<noteq> sv_sub_vault_id s"
      "refs_of (gv_market_orders v) (sv_sub_vault_id s) = 0" "sv_open_orders_count s = 0"
  shows "vault_ok (v\<lparr>gv_next_sub_vault_id := n, gv_sub_vault_free_list := fl,
    gv_sub_vaults := tree_insert sub_vault_cmp i s (gv_sub_vaults v), gv_sub_vault_count := gv_sub_vault_count v + 1\<rparr>)"
    (is "vault_ok ?v")
proof -
  have "descending sub_vault_cmp (gv_sub_vaults ?v)"
    using ok by (simp add: vault_ok_def tree_insert_descending sub_vault_cmp_total)
  moreover have "distinct (map (\<lambda>p. sv_sub_vault_id (snd p)) (gv_sub_vaults ?v))"
    using ok new by (auto simp: tree_insert_distinct_map vault_ok_def)
  moreover have "distinct (vault_blocks ?v) \<and> (\<forall>i \<in> set (vault_blocks ?v). i < gv_num_bytes_allocated ?v)"
  proof (rule blocks_moved[OF ok])
    show "mset (vault_blocks ?v) = mset (vault_blocks v)" by (simp add: vault_blocks_def fl)
  qed simp
  moreover have "\<forall>p \<in> set (gv_sub_vaults ?v). sv_open_orders_count (snd p) = refs_of (gv_market_orders ?v) (sv_sub_vault_id (snd p))"
    using ok new by (auto simp: vault_ok_def)
  ultimately show ?thesis using ok by (simp add: vault_ok_def)
qed

lemma append_inv:
  assumes inv: "vault_inv v" and a: "append_sub_vault v kind w sp l q t f = Inr v'"
    and risk: "0 < l" "l < 10000" "l + MIN_LIQ_GAP_BPS \<le> q" "q \<le> 10000" "0 < t" "f \<le> MAX_CURATOR_FEE_BPS"
  shows "vault_inv v'"
proof -
  obtain v1 i fl s where v1: "(if has_free_sub_vault_block v then Inr v else vault_expand_sub_vault_block v) = Inr v1"
    and fl: "gv_sub_vault_free_list v1 = i # fl"
    and s: "s = (sv_new_empty (gv_next_sub_vault_id v1) w l t)\<lparr>sv_kind := kind, sv_spread_bps := sp, sv_liquidation_ltv_bps := q,
       sv_curator_fee_bps := f\<rparr>"
    and v': "v' = v1\<lparr>gv_next_sub_vault_id := gv_next_sub_vault_id v1 + 1, gv_sub_vault_free_list := fl,
      gv_sub_vaults := tree_insert sub_vault_cmp i s (gv_sub_vaults v1), gv_sub_vault_count := gv_sub_vault_count v1 + 1\<rparr>"
    using a unfolding append_sub_vault_def Let_def get_free_sub_vault_address_on_vault_fixed_def stack_remove_def
    by (elim ebind_InrE) (simp split: list.splits prod.splits, elim ebind_InrE, auto simp: ok_or_Inr checked_add_Some require_Inr)
  have i1: "vault_inv v1"
  proof (cases "has_free_sub_vault_block v")
    case True then show ?thesis using v1 inv by simp
  next
    case False
    then have e: "vault_expand_sub_vault_block v = Inr v1" using v1 by simp
    have "vault_ok v1" using expand_sub_vault_block_ok e inv by (auto simp: vault_inv_def vault_inv_off_def)
    moreover have "gv_claimed_seats v1 = gv_claimed_seats v" "gv_sub_vaults v1 = gv_sub_vaults v"
      "gv_market_orders v1 = gv_market_orders v" "gv_next_sub_vault_id v1 = gv_next_sub_vault_id v"
      using e by (auto simp: vault_expand_sub_vault_block_def elim!: ebind_InrE)
    ultimately show ?thesis using inv_frame inv unfolding vault_inv_def by blast
  qed
  let ?n = "gv_next_sub_vault_id v1"
  have ids: "sv_sub_vault_id s = ?n" "sv_open_orders_count s = 0" "sv_total_shares s = 0" "risk_ok s"
    using risk by (simp_all add: s sv_new_empty_def risk_ok_def)
  have "refs_of (gv_market_orders v1) ?n = 0"
    using i1 by (fastforce simp: refs_of_def vault_inv_def vault_inv_off_def filter_empty_conv)
  moreover have "\<forall>p \<in> set (gv_sub_vaults v1). sv_sub_vault_id (snd p) \<noteq> ?n"
    using i1 by (fastforce simp: vault_inv_def vault_inv_off_def)
  ultimately have "vault_ok v'"
    unfolding v' by (intro insert_sub_vault_ok) (use i1 fl ids in \<open>auto simp: vault_inv_def vault_inv_off_def\<close>)
  moreover have "issued_shares v' k = issued_shares v1 k" "seat_shares v' k = seat_shares v1 k" for k
    by (simp_all add: v' issued_shares_def shares_where_def ids)
  ultimately show ?thesis using i1 ids by (auto simp: vault_inv_def vault_inv_off_def v' less_Suc_eq)
qed

lemma remove_inv:
  assumes inv: "vault_inv v" and r: "remove_sub_vault v k = Inr (v', i)"
  shows "vault_inv v'"
proof (cases "sub_vault_index v k = NIL")
  case True then show ?thesis using r inv by (simp add: remove_sub_vault_def)
next
  case False
  have ok: "vault_ok v" using inv by (simp add: vault_inv_def vault_inv_off_def)
  obtain s where s: "get_sub_vault v (sub_vault_index v k) = Inr s" and e: "sv_is_empty s" and i: "i = sub_vault_index v k"
    and v': "gv_sub_vaults v' = tree_remove i (gv_sub_vaults v)" "gv_claimed_seats v' = gv_claimed_seats v"
      "gv_market_orders v' = gv_market_orders v" "gv_next_sub_vault_id v' = gv_next_sub_vault_id v"
    using r False unfolding remove_sub_vault_def Let_def release_sub_vault_address_on_vault_fixed_def
    by (auto simp: require_Inr elim!: ebind_InrE)
  note at = sub_vault_at[OF ok False s]
  have "issued_shares v' j = issued_shares v j" for j
    using tree_sum_remove[OF vault_subs_distinct[OF ok] conjunct1[OF at], of "\<lambda>s. if sv_sub_vault_id s = j then sv_total_shares s else 0"] e
    by (simp add: issued_shares_def v' i sv_is_empty_def cong: if_cong)
  moreover have "seat_shares v' j = seat_shares v j" for j by (simp add: shares_where_def v')
  moreover have "set (gv_sub_vaults v') \<subseteq> set (gv_sub_vaults v)" by (auto simp: v' tree_remove_def)
  ultimately show ?thesis using inv remove_sub_vault_ok[OF ok r] v' by (auto simp: vault_inv_def vault_inv_off_def)
qed

section \<open>Order references\<close>

lemma bump_written:
  assumes "bump_sub_vault_order_count v k d = Inr v'"
  shows "\<exists>i s c. get_sub_vault v i = Inr s \<and> i = sub_vault_index v k \<and> i \<noteq> NIL \<and>
    v' = set_sub_vault v i (s\<lparr>sv_open_orders_count := c\<rparr>)"
  using assms unfolding bump_sub_vault_order_count_def Let_def by (elim ebind_InrE) (auto simp: require_Inr)

lemma bump_inv:
  assumes inv: "vault_inv v" and same: "gv_sub_vaults v1 = gv_sub_vaults v" "gv_claimed_seats v1 = gv_claimed_seats v"
      "gv_next_sub_vault_id v1 = gv_next_sub_vault_id v"
    and refs: "\<forall>p \<in> set (gv_market_orders v1). or_sub_vault_id (snd p) < gv_next_sub_vault_id v \<or> or_sub_vault_id (snd p) = k"
    and b: "bump_sub_vault_order_count v1 k d = Inr v'" and ok': "vault_ok v'"
  shows "vault_inv v'"
proof -
  have ok: "vault_ok v" using inv by (simp add: vault_inv_def vault_inv_off_def)
  obtain s c where s: "get_sub_vault v (sub_vault_index v k) = Inr s" and nz: "sub_vault_index v k \<noteq> NIL"
    and v': "v' = set_sub_vault v1 (sub_vault_index v k) (s\<lparr>sv_open_orders_count := c\<rparr>)"
    using bump_written[OF b] by (auto simp: sub_vault_index_def get_sub_vault_def same)
  let ?q = "s\<lparr>sv_open_orders_count := c\<rparr>"
  note at = sub_vault_at[OF ok nz s]
  have "issued_shares v' j = issued_shares (set_sub_vault v (sub_vault_index v k) ?q) j" for j
    by (simp add: v' issued_shares_def set_sub_vault_def same)
  then have iss: "issued_shares v' j = issued_shares v j" for j
    using issued_set[OF ok conjunct1[OF at], of ?q j] by (simp split: if_splits)
  have k: "k < gv_next_sub_vault_id v" "risk_ok ?q \<longleftrightarrow> risk_ok s"
    using inv at by (fastforce simp: vault_inv_def vault_inv_off_def risk_ok_def)+
  have "\<forall>p \<in> set (gv_sub_vaults v'). risk_ok (snd p) \<and> sv_sub_vault_id (snd p) < gv_next_sub_vault_id v"
    unfolding v' set_sub_vault_def same
    by (simp, rule tree_update_all[OF vault_subs_distinct[OF ok] conjunct1[OF at]])
      (use inv at k in \<open>auto simp: vault_inv_def vault_inv_off_def\<close>)
  moreover have "seat_shares v' j = seat_shares v j" for j by (simp add: v' set_sub_vault_def shares_where_def same)
  moreover have "gv_next_sub_vault_id v' = gv_next_sub_vault_id v" "gv_market_orders v' = gv_market_orders v1"
    by (simp_all add: v' set_sub_vault_def same)
  ultimately show ?thesis using ok' iss inv refs k by (auto simp: vault_inv_def vault_inv_off_def)
qed

lemma insert_ref_inv:
  assumes inv: "vault_inv v" and r: "insert_sub_vault_order_ref v m k side rate ts sq at = Inr (v', i)"
  shows "vault_inv v'"
proof -
  have ok': "vault_ok v'" using insert_order_ref_ok[OF _ r] inv by (simp add: vault_inv_def vault_inv_off_def)
  obtain v1 ref where same: "gv_sub_vaults v1 = gv_sub_vaults v" "gv_claimed_seats v1 = gv_claimed_seats v"
      "gv_next_sub_vault_id v1 = gv_next_sub_vault_id v" "gv_market_orders v1 = tree_insert order_ref_cmp i ref (gv_market_orders v)"
      "or_sub_vault_id ref = k" and b: "bump_sub_vault_order_count v1 k 1 = Inr v'"
    using r unfolding insert_sub_vault_order_ref_def Let_def get_free_node_address_on_vault_fixed_def
    by (elim ebind_InrE) (simp split: prod.splits, elim ebind_InrE, clarsimp, rule that[rotated -1], assumption, (simp; fail)+)
  show ?thesis by (rule bump_inv[OF inv same(1-3) _ b ok']) (use inv same in \<open>auto simp: vault_inv_def vault_inv_off_def\<close>)
qed

lemma remove_ref_inv:
  assumes inv: "vault_inv v" and r: "remove_sub_vault_order_ref v m k = Inr (v', i)"
  shows "vault_inv v'"
proof (cases "tree_lookup order_ref_cmp (or_probe m k) (gv_market_orders v) = NIL")
  case True then show ?thesis using r inv by (simp add: remove_sub_vault_order_ref_def)
next
  case False
  have ok': "vault_ok v'" using remove_order_ref_ok[OF _ r] inv by (simp add: vault_inv_def vault_inv_off_def)
  obtain v1 where same: "gv_sub_vaults v1 = gv_sub_vaults v" "gv_claimed_seats v1 = gv_claimed_seats v"
      "gv_next_sub_vault_id v1 = gv_next_sub_vault_id v" "gv_market_orders v1 = tree_remove i (gv_market_orders v)"
      and b: "bump_sub_vault_order_count v1 k (- 1) = Inr v'"
    using r False unfolding remove_sub_vault_order_ref_def Let_def release_node_address_on_vault_fixed_def
    by (simp only: if_False) (elim ebind_InrE, clarsimp, rule that[rotated -1], assumption, simp_all)
  show ?thesis by (rule bump_inv[OF inv same(1-3) _ b ok']) (use inv same in \<open>auto simp: vault_inv_def vault_inv_off_def tree_remove_def\<close>)
qed

section \<open>Histories\<close>

lemma accept_keeps:
  "transfer_curator_on w n s = Inr q \<Longrightarrow> keeps s q" "accept_curator_on w s = Inr q \<Longrightarrow> keeps s q"
  "update_on_sub_vault w params s = Inr q \<Longrightarrow> keeps s q" "Inr (s\<lparr>sv_is_sunset := b\<rparr>) = (Inr q :: sub_vault res) \<Longrightarrow> keeps s q"
  "Inr (sweep_on_sub_vault s a) = (Inr q :: sub_vault res) \<Longrightarrow> keeps s q"
  by (auto simp: transfer_curator_on_def accept_curator_on_def update_on_sub_vault_def Let_def validate_risk_Inr keeps_def
      risk_ok_def sweep_on_sub_vault_def elim!: ebind_InrE)

lemma reserve_inv:
  assumes inv: "vault_inv v" and r: "reserve_on_sub_vault v k a = Inr v'"
  shows "vault_inv v'"
proof (cases "sub_vault_index v k = NIL")
  case True then show ?thesis using r inv by (simp add: reserve_on_sub_vault_def)
next
  case False
  obtain s e c where s: "get_sub_vault v (sub_vault_index v k) = Inr s"
    and v': "v' = set_sub_vault v (sub_vault_index v k) (s\<lparr>sv_encumbered_in_orders_atoms := e, sv_open_loans_count := c\<rparr>)"
    using r False unfolding reserve_on_sub_vault_def Let_def by (simp only: if_False) (elim ebind_InrE, blast)
  have "(sub_vault_index v k, s) \<in> set (gv_sub_vaults v)"
    using s inv by (simp add: get_sub_vault_Inr vault_inv_off_def vault_inv_def)
  then show ?thesis unfolding v' vault_inv_def
    by (rule inv_keeps[OF inv[unfolded vault_inv_def]]) (simp add: keeps_def risk_ok_def)
qed

inductive vault_history :: "create_vault_context \<Rightarrow> global_vault \<Rightarrow> bool" for ct where
  create: "process_create_vault out gc ct = Inr v \<Longrightarrow> vault_history ct v"
| create_pool: "vault_history ct v \<Longrightarrow> process_create_pool_sub_vault gc w pool_params v = Inr v' \<Longrightarrow> vault_history ct v'"
| create_private: "vault_history ct v \<Longrightarrow> process_create_private_sub_vault gc w private_params v = Inr v' \<Longrightarrow> vault_history ct v'"
| update: "vault_history ct v \<Longrightarrow> process_update_sub_vault gc w params v = Inr v' \<Longrightarrow> vault_history ct v'"
| sunset: "vault_history ct v \<Longrightarrow> process_sunset_sub_vault w k v = Inr v' \<Longrightarrow> vault_history ct v'"
| resume: "vault_history ct v \<Longrightarrow> process_resume_sub_vault w k v = Inr v' \<Longrightarrow> vault_history ct v'"
| remove: "vault_history ct v \<Longrightarrow> process_remove_sub_vault gc w k v = Inr v' \<Longrightarrow> vault_history ct v'"
| nominate_curator: "vault_history ct v \<Longrightarrow> process_transfer_curator w k n v = Inr v' \<Longrightarrow> vault_history ct v'"
| accept_curator: "vault_history ct v \<Longrightarrow> process_accept_curator w k v = Inr v' \<Longrightarrow> vault_history ct v'"
| nominate_admin: "vault_history ct v \<Longrightarrow> process_transfer_global_vault_admin w n v = Inr v' \<Longrightarrow> vault_history ct v'"
| accept_admin: "vault_history ct v \<Longrightarrow> process_accept_global_vault_admin w v = Inr v' \<Longrightarrow> vault_history ct v'"
| pause: "vault_history ct v \<Longrightarrow> process_set_vault_pause w b v = Inr v' \<Longrightarrow> vault_history ct v'"
| deposit: "vault_history ct v \<Longrightarrow> process_global_vault_deposit pg ctx gc a k now v slot p = Inr (v', u, p') \<Longrightarrow> vault_history ct v'"
| withdraw: "vault_history ct v \<Longrightarrow> process_global_vault_withdraw pg ctx gc a k now v slot p = Inr (v', u, p') \<Longrightarrow> vault_history ct v'"
| claim_fee: "vault_history ct v \<Longrightarrow> process_claim_curator_fee pg ctx gc k v p = Inr (v', p') \<Longrightarrow> vault_history ct v'"
| rest_ask: "vault_history ct v \<Longrightarrow> insert_sub_vault_order_ref v m k side rate term sq at = Inr (v', i) \<Longrightarrow> vault_history ct v'"
| drop_ask: "vault_history ct v \<Longrightarrow> remove_sub_vault_order_ref v m k = Inr (v', i) \<Longrightarrow> vault_history ct v'"
| reserve: "vault_history ct v \<Longrightarrow> reserve_on_sub_vault v k a = Inr v' \<Longrightarrow> vault_history ct v'"
| deploy: "vault_history ct v \<Longrightarrow> on_sub_vault v k (\<lambda>s. deploy_on_sub_vault s now cv a rate fee extra) = Inr v' \<Longrightarrow> vault_history ct v'"
| retire: "vault_history ct v \<Longrightarrow> on_sub_vault v k (\<lambda>s. retire_on_sub_vault s now cv loan) = Inr v' \<Longrightarrow> vault_history ct v'"
| sweep: "vault_history ct v \<Longrightarrow> on_sub_vault v k (\<lambda>s. Inr (sweep_on_sub_vault s a)) = Inr v' \<Longrightarrow> vault_history ct v'"

lemma new_vault_inv: "vault_inv (gv_new_empty a b c d e f g)"
  by (simp add: vault_inv_def vault_inv_off_def vault_ok_def gv_new_empty_def vault_blocks_def issued_shares_def shares_where_def u32_lim_def
      descending_def)

lemma control_inv:
  "vault_inv (v\<lparr>gv_pending_global_vault_admin := b\<rparr>) = vault_inv v" "vault_inv (v\<lparr>gv_global_vault_admin := a\<rparr>) = vault_inv v"
  "vault_inv (v\<lparr>gv_is_paused := c\<rparr>) = vault_inv v"
  "vault_inv (v\<lparr>gv_global_vault_admin := a, gv_pending_global_vault_admin := b\<rparr>) = vault_inv v"
  by (simp_all add: vault_inv_def vault_inv_off_def vault_ok_def vault_blocks_def shares_where_def issued_shares_def)

lemma vault_history_inv: "vault_history ct v \<Longrightarrow> vault_inv v"
proof (induction rule: vault_history.induct)
  case (create out gc v)
  then show ?case by (auto simp: process_create_vault_def new_vault_inv elim!: ebind_InrE)
next
  case (create_pool v gc w pp v')
  then show ?case unfolding process_create_pool_sub_vault_def
    by (elim ebind_InrE) (rule append_inv, assumption+, auto simp: validate_risk_Inr require_Inr)
next
  case (create_private v gc w pp v')
  then show ?case unfolding process_create_private_sub_vault_def
    by (elim ebind_InrE) (rule append_inv, assumption+, auto simp: validate_risk_Inr require_Inr)
next
  case (update v gc w params v')
  then show ?case unfolding process_update_sub_vault_def vault_inv_def
    by (elim ebind_InrE) (erule inv_on_sub_vault, assumption, rule accept_keeps)
next
  case (sunset v w k v')
  then show ?case unfolding process_sunset_sub_vault_def vault_inv_def
    by (elim ebind_InrE) (erule inv_on_sub_vault, assumption, rule accept_keeps)
next
  case (resume v w k v')
  then show ?case unfolding process_resume_sub_vault_def vault_inv_def
    by (elim ebind_InrE) (erule inv_on_sub_vault, assumption, rule accept_keeps)
next
  case (remove v gc w k v')
  then obtain i where "remove_sub_vault v k = Inr (v', i)"
    unfolding process_remove_sub_vault_def Let_def by (elim ebind_InrE) (simp split: prod.splits, elim ebind_InrE, auto)
  then show ?case using remove remove_inv by blast
next
  case (nominate_curator v w k n v')
  then show ?case unfolding process_transfer_curator_def vault_inv_def
    by - (erule inv_on_sub_vault, assumption, rule accept_keeps)
next
  case (accept_curator v w k v')
  then show ?case unfolding process_accept_curator_def vault_inv_def
    by - (erule inv_on_sub_vault, assumption, rule accept_keeps)
next
  case (nominate_admin v w n v')
  then show ?case unfolding process_transfer_global_vault_admin_def
    by (elim ebind_InrE) (simp only: sum.inject, hypsubst, simp only: control_inv)
next
  case (accept_admin v w v')
  then show ?case unfolding process_accept_global_vault_admin_def
    by (elim ebind_InrE) (simp only: sum.inject, hypsubst, simp only: control_inv)
next
  case (pause v w b v')
  then show ?case unfolding process_set_vault_pause_def
    by (elim ebind_InrE) (simp only: sum.inject, hypsubst, simp only: control_inv)
next
  case (deploy v k now cv a rate fee extra v')
  then show ?case unfolding vault_inv_def by - (erule inv_on_sub_vault, assumption, erule static_keeps[OF deploy_static])
next
  case (retire v k now cv loan v')
  then show ?case unfolding vault_inv_def by - (erule inv_on_sub_vault, assumption, erule static_keeps[OF retire_static])
next
  case (sweep v k a v')
  then show ?case unfolding vault_inv_def by - (erule inv_on_sub_vault, assumption, rule accept_keeps)
qed (blast intro: deposit_inv withdraw_inv claim_fee_inv insert_ref_inv remove_ref_inv reserve_inv)+

lemma tree_sum_absent: "\<forall>p \<in> set t. f (snd p) \<noteq> k \<Longrightarrow> tree_sum (\<lambda>q. if f q = k then g q else 0) t = 0"
  by (induction t) (simp_all add: tree_sum_def)

lemma tree_sum_single:
  "distinct (map (\<lambda>p. f (snd p)) t) \<Longrightarrow> (i, s) \<in> set t \<Longrightarrow> tree_sum (\<lambda>q. if f q = f s then g q else 0) t = g s"
proof (induction t)
  case (Cons p t)
  show ?case
  proof (cases "p = (i, s)")
    case True
    then have "\<forall>p \<in> set t. f (snd p) \<noteq> f s" using Cons.prems(1) by force
    then show ?thesis using tree_sum_absent[of t f "f s" g] True by (simp add: tree_sum_def)
  next
    case False
    then have "f (snd p) \<noteq> f s" "(i, s) \<in> set t" using Cons.prems by force+
    then show ?thesis using Cons by (simp add: tree_sum_def)
  qed
qed simp

lemma issued_of:
  "vault_ok v \<Longrightarrow> (i, s) \<in> set (gv_sub_vaults v) \<Longrightarrow> issued_shares v (sv_sub_vault_id s) = sv_total_shares s"
  unfolding issued_shares_def by (rule tree_sum_single) (simp_all add: vault_ok_def)

text \<open>C33. A vault's books over its whole life. However the instructions that write to a vault follow each other, from
  the instruction that creates it on: every sub-vault has issued exactly the shares its depositors' seats hold, so a
  single depositor never holds more than the sub-vault issued; its id is unique and was assigned before; its origination cap
  lies below its liquidation trigger by the required gap, its term is positive and its curator's fee is capped;
  and no shares are left in a sub-vault that was removed.\<close>

theorem vault_books_balance:
  assumes "vault_history ct v"
  shows "vault_ok v \<and>
    (\<forall>i s. (i, s) \<in> set (gv_sub_vaults v) \<longrightarrow>
       seat_shares v (sv_sub_vault_id s) = sv_total_shares s \<and> holding v w (sv_sub_vault_id s) \<le> sv_total_shares s \<and>
       sv_sub_vault_id s < gv_next_sub_vault_id v \<and> risk_ok s) \<and>
    (\<forall>k. sub_vault_index v k = NIL \<longrightarrow> seat_shares v k = 0)"
proof -
  have inv: "vault_inv v" by (rule vault_history_inv[OF assms])
  then have ok: "vault_ok v" and bal: "seat_shares v k = issued_shares v k" for k by (simp_all add: vault_inv_def vault_inv_off_def)
  have "holding v w k \<le> seat_shares v k" for k
    unfolding shares_where_def tree_sum_def by (rule sum_list_mono) auto
  moreover have "sv_sub_vault_id s < gv_next_sub_vault_id v \<and> risk_ok s" if "(i, s) \<in> set (gv_sub_vaults v)" for i s
    using inv that by (auto simp: vault_inv_def vault_inv_off_def)
  ultimately have "\<forall>i s. (i, s) \<in> set (gv_sub_vaults v) \<longrightarrow> seat_shares v (sv_sub_vault_id s) = sv_total_shares s \<and>
      holding v w (sv_sub_vault_id s) \<le> sv_total_shares s \<and> sv_sub_vault_id s < gv_next_sub_vault_id v \<and> risk_ok s"
    by (metis bal issued_of[OF ok])
  moreover have "seat_shares v k = 0" if "sub_vault_index v k = NIL" for k
  proof -
    have "\<forall>p \<in> set (gv_sub_vaults v). sv_sub_vault_id (snd p) \<noteq> k" using that sub_vault_index_miss[OF ok] by auto
    then show ?thesis using tree_sum_absent[of "gv_sub_vaults v" sv_sub_vault_id k sv_total_shares] bal[of k] by (simp add: issued_shares_def)
  qed
  ultimately show ?thesis using ok by blast
qed

section \<open>A first deposit\<close>

definition sample_creation :: create_vault_context where
  "sample_creation = \<lparr> ct_payer = 5, ct_mint = \<lparr> mn_key = 11, mn_decimals = 6, mn_extensions = None \<rparr>, ct_group = 10,
     ct_integration_account = 23, ct_signer = 25, ct_signer_bump = 255, ct_lending_pool = 1 \<rparr>"

definition sample_private :: create_private_params where
  "sample_private = \<lparr> cv_spread_bps = 200, cv_max_ltv_bps = 7000, cv_liquidation_ltv_bps = 8000, cv_max_term_seconds = 86400 \<rparr>"

definition sample_vault_context :: vault_context where
  "sample_vault_context = \<lparr> vc_payer = 7, vc_user_bump = 255, vc_vault_key = 20, vc_signer = 25, vc_staging = 22,
     vc_depositor_token = 30, vc_token_program = 16, vc_group = 10, vc_integration_account = 23, vc_lending_pool = 1,
     vc_oracle = 12, vc_liquidity_vault = 15, vc_liquidity_vault_authority = 14, vc_marginfi_program = 99 \<rparr>"

definition opened_vault :: global_vault where
  "opened_vault = (gv_new_empty 11 5 10 23 25 255 1)\<lparr> gv_num_bytes_allocated := 512, gv_sub_vault_count := 1, gv_next_sub_vault_id := 2,
     gv_sub_vaults := [(0, (sv_new_empty 1 7 7000 86400)\<lparr>sv_kind := 1, sv_spread_bps := 200, sv_liquidation_ltv_bps := 8000\<rparr>)] \<rparr>"

lemma opened_vault_history: "vault_history sample_creation opened_vault"
proof -
  have "process_create_vault (Inr ()) (gc_new_empty 1) sample_creation = Inr (gv_new_empty 11 5 10 23 25 255 1)"
    by (simp add: process_create_vault_def sample_creation_def require_global_not_paused_def gc_new_empty_def
        assert_supported_mint_extensions_def require_def)
  moreover have "process_create_private_sub_vault (gc_new_empty 1) 7 sample_private (gv_new_empty 11 5 10 23 25 255 1) = Inr opened_vault"
    by (simp add: process_create_private_sub_vault_def sample_private_def require_global_not_paused_def gc_new_empty_def
        require_vault_not_paused_def validate_sub_vault_risk_params_def MIN_LIQ_GAP_BPS_def SUB_VAULT_KIND_PRIVATE_def saturating_add_def
        append_sub_vault_def has_free_sub_vault_block_def vault_expand_sub_vault_block_def SUB_VAULT_BLOCK_SIZE_def
        get_free_sub_vault_address_on_vault_fixed_def opened_vault_def stack_add_def stack_remove_def gv_new_empty_def
        sv_new_empty_def checked_add_def lim_defs NIL_def require_def cong: ebind_weak_cong)
  ultimately show ?thesis using vault_history.create vault_history.create_private by blast
qed

lemma first_deposit_flow:
  "\<exists>p1 p2. pg_transfer sample_programs 30 22 1000 sample_pool = Inr p1 \<and> tk_amount (pl_tokens p1 22) = 6000 \<and>
     adapter_deposit sample_programs (vault_deposit_accounts sample_vault_context) 1000 p1 = Inr (p2, 1000 * SCALE) \<and>
     pl_banks p2 1 = sample_bank"
  by (simp add: sample_eval adapter_deposit_def vault_deposit_accounts_def sample_vault_context_def check_accounts_def
      DEPOSIT_EXPLICIT_ACCOUNTS_def borrow_bank_def read_asset_shares_u128_def borrow_marginfi_account_def
      wrapped_i80f48_to_u128_def SCALE_def cong: ebind_weak_cong)

lemma sample_share_value: "pl_banks p 1 = sample_bank \<Longrightarrow> read_bank_asset_share_value_fp48 p 1 = Inr SCALE"
  by (simp add: read_bank_asset_share_value_fp48_def sample_bank_def SCALE_def wrapped_i80f48_to_u128_def)

lemma sample_shares_to_amount: "pl_banks p 1 = sample_bank \<Longrightarrow> shares_to_amount sample_programs p 1 (1000 * SCALE) = Inr 1000"
  by (simp add: shares_to_amount_def bank_asset_share_value_def borrow_bank_def assert_marginfi_owned_def sample_programs_def sample_bank_def
      SCALE_def wrapped_i80f48_to_u128_def require_def mul_scale_eq from_scaled_floor_eq lim_defs)

definition deposited_vault :: global_vault where
  "deposited_vault = opened_vault\<lparr> gv_num_bytes_allocated := 672,
     gv_sub_vaults := [(0, (sv_new_empty 1 7 7000 86400)\<lparr>sv_kind := 1, sv_spread_bps := 200, sv_liquidation_ltv_bps := 8000,
       sv_last_accrue_unix := 10, sv_last_supply_share_value_fp48 := SCALE, sv_total_shares := 1000,
       sv_total_principal_atoms := 1000, sv_total_assets_atoms := 1000\<rparr>)],
     gv_claimed_seats := [(512, (ds_probe 7 1)\<lparr>ds_shares := 1000, ds_last_updated_unix := 10\<rparr>)], gv_claimed_seat_count := 1 \<rparr>"

lemma sample_deposit_books:
  assumes "read_bank_asset_share_value_fp48 p 1 = Inr SCALE"
  shows "book_deposit opened_vault 7 1 10 p 1 1000 = Inr (deposited_vault, 1000)"
  using assms
  by (simp add: book_deposit_def opened_vault_def has_free_node_block_def vault_expand_node_block_def VAULT_NODE_BLOCK_SIZE_def
      deposit_on_sub_vault_def may_use_sub_vault_def SUB_VAULT_KIND_PRIVATE_def mint_shares_def credit_depositor_def
      upsert_sub_vault_depositor_seat_def ds_probe_def get_depositor_seat_def set_depositor_seat_def vault_eval vault_node_eval
      deposited_vault_def SCALE_def lim_defs cong: ebind_weak_cong)

lemma first_position:
  "\<exists>u u'. ensure_user_account_for_signer 7 255 None = Inr u \<and> credit_position u 20 1 1000 10 = Inr u'"
  by (simp add: ensure_user_account_for_signer_def ua_new_empty_def ua_has_free_block_def user_account_expand_def
      USER_ACCOUNT_BLOCK_SIZE_def credit_position_def upsert_vault_position_def get_free_address_on_user_account_fixed_def
      get_vault_position_def set_vault_position_def vp_new_empty_def tree_get_def tree_update_def stack_add_def stack_remove_def NIL_def
      checked_add_def lim_defs require_def Let_def cong: ebind_weak_cong)

lemma first_deposit_run:
  "\<exists>u p. process_global_vault_deposit sample_programs sample_vault_context (gc_new_empty 1) 1000 1 10 opened_vault None sample_pool =
     Inr (deposited_vault, u, p)"
proof -
  obtain p1 p2 where f: "pg_transfer sample_programs 30 22 1000 sample_pool = Inr p1" "tk_amount (pl_tokens p1 22) = 6000"
     "adapter_deposit sample_programs (vault_deposit_accounts sample_vault_context) 1000 p1 = Inr (p2, 1000 * SCALE)"
     and bk: "pl_banks p2 1 = sample_bank" using first_deposit_flow by blast
  have v: "book_deposit opened_vault 7 1 10 p2 1 1000 = Inr (deposited_vault, 1000)"
    by (rule sample_deposit_books[OF sample_share_value[OF bk]])
  obtain u u' where u: "ensure_user_account_for_signer 7 255 None = Inr u" "credit_position u 20 1 1000 10 = Inr u'"
    using first_position by blast
  have c: "vc_payer sample_vault_context = 7" "vc_user_bump sample_vault_context = 255" "vc_staging sample_vault_context = 22"
    "vc_depositor_token sample_vault_context = 30" "vc_lending_pool sample_vault_context = 1" "vc_vault_key sample_vault_context = 20"
    "tk_amount (pl_tokens sample_pool 22) = 5000"
    by (simp_all add: sample_vault_context_def sample_pool_def)
  have g: "require_global_not_paused (gc_new_empty 1) = Inr ()" "require_vault_not_paused opened_vault = Inr ()"
    by (simp_all add: require_global_not_paused_def gc_new_empty_def require_vault_not_paused_def opened_vault_def gv_new_empty_def require_def)
  have "process_global_vault_deposit sample_programs sample_vault_context (gc_new_empty 1) 1000 1 10 opened_vault None sample_pool =
      Inr (deposited_vault, u', p2)"
    by (simp add: process_global_vault_deposit_def c g f u v sample_shares_to_amount[OF bk] Let_def checked_sub_def require_def
        del: One_nat_def cong: ebind_weak_cong)
  then show ?thesis by blast
qed

lemma deposited_vault_history: "vault_history sample_creation deposited_vault"
  using first_deposit_run vault_history.deposit[OF opened_vault_history] by blast

lemma vault_books_balance_witness:
  "seat_shares deposited_vault 1 = 1000 \<and> seat_shares deposited_vault 2 = 0"
proof -
  have b: "vault_ok deposited_vault \<and> (\<forall>i s. (i, s) \<in> set (gv_sub_vaults deposited_vault) \<longrightarrow>
       seat_shares deposited_vault (sv_sub_vault_id s) = sv_total_shares s \<and>
       holding deposited_vault 7 (sv_sub_vault_id s) \<le> sv_total_shares s \<and>
       sv_sub_vault_id s < gv_next_sub_vault_id deposited_vault \<and> risk_ok s) \<and>
    (\<forall>k. sub_vault_index deposited_vault k = NIL \<longrightarrow> seat_shares deposited_vault k = 0)"
    by (rule vault_books_balance[OF deposited_vault_history])
  have "sub_vault_index deposited_vault 2 = NIL"
    by (simp add: deposited_vault_def vault_node_eval)
  moreover have "seat_shares deposited_vault 1 = 1000"
    using conjunct1[OF conjunct2[OF b]] by (simp add: deposited_vault_def sv_new_empty_def)
  ultimately show ?thesis using b by blast
qed

end
