(* ===== verification/Vault_Value.thy ===== *)
theory Vault_Value
  imports Vault_History
begin

text \<open>What a deposit buys and what a withdrawal pays: deposits never lower the value of a share, withdrawals never pay
  more than the burned shares' part of the principal, and a deposit taken back at once yields no profit. It also
  shows where the value of a sub-vault gets stuck: atoms that are only claims can be withdrawn or lent, and a
  private sub-vault can change its curator under its shares.\<close>

section \<open>Deposits\<close>

lemma holding_frame: "gv_claimed_seats v' = gv_claimed_seats v \<Longrightarrow> holding v' w k = holding v w k"
  by (rule shares_where_cong)

lemma set_then_get:
  assumes ok: "vault_ok v" and m: "(i, s) \<in> set (gv_sub_vaults v)" and k: "sv_sub_vault_id q = k"
    and subs: "gv_sub_vaults v' = gv_sub_vaults (set_sub_vault v i q)" and ok': "vault_ok v'"
  shows "get_sub_vault v' (sub_vault_index v' k) = Inr q"
proof -
  have mem: "(i, q) \<in> set (gv_sub_vaults v')"
    using tree_update_member[OF vault_subs_distinct[OF ok] m, of q] by (simp add: subs set_sub_vault_def)
  have nz': "sub_vault_index v' k \<noteq> NIL" using sub_vault_index_miss[OF ok', of k] mem k by force
  obtain r where r: "(sub_vault_index v' k, r) \<in> set (gv_sub_vaults v')" "sv_sub_vault_id r = k"
      "get_sub_vault v' (sub_vault_index v' k) = Inr r" using sub_vault_index_hit[OF ok' nz'] by blast
  have "inj_on (\<lambda>p. sv_sub_vault_id (snd p)) (set (gv_sub_vaults v'))" using ok' by (simp add: vault_ok_def distinct_map)
  then have "(sub_vault_index v' k, r) = (i, q)" by (rule inj_onD) (use r mem k in simp_all)
  then show ?thesis using r by simp
qed

lemma book_deposit_effect:
  assumes inv: "vault_inv v" and b: "book_deposit v w k now p bank c = Inr (v', sh)"
  shows "\<exists>s s1 s' cv. get_sub_vault v (sub_vault_index v k) = Inr s \<and> read_bank_asset_share_value_fp48 p bank = Inr cv \<and>
    may_use_sub_vault s w \<and> sv_is_sunset s = 0 \<and> accrue_sub_vault s now cv = Inr s1 \<and> mint_shares s1 c = Inr (s', sh) \<and>
    sv_sub_vault_id s = k \<and> get_sub_vault v' (sub_vault_index v' k) = Inr s' \<and>
    (\<forall>w' j. holding v' w' j = holding v w' j + (if w' = w \<and> j = k then sh else 0))"
proof -
  obtain v1 s cv s1 s' where v1: "(if has_free_node_block v then Inr v else vault_expand_node_block v) = Inr v1"
    and nz: "sub_vault_index v1 k \<noteq> NIL" and s: "get_sub_vault v1 (sub_vault_index v1 k) = Inr s"
    and g: "may_use_sub_vault s w" "sv_is_sunset s = 0" "read_bank_asset_share_value_fp48 p bank = Inr cv"
    and m: "accrue_sub_vault s now cv = Inr s1" "mint_shares s1 c = Inr (s', sh)"
    and cr: "credit_depositor (set_sub_vault v1 (sub_vault_index v1 k) s') w k sh s' now = Inr v'"
    using b unfolding book_deposit_def deposit_on_sub_vault_def Let_def
    by (elim ebind_InrE) (auto simp: require_Inr elim!: ebind_InrE)
  have ok: "vault_ok v" using inv by (simp add: vault_inv_def vault_inv_off_def)
  have v1f: "vault_ok v1 \<and> gv_claimed_seats v1 = gv_claimed_seats v \<and> gv_sub_vaults v1 = gv_sub_vaults v"
  proof (cases "has_free_node_block v")
    case True then show ?thesis using v1 ok by simp
  next
    case False
    then have e: "vault_expand_node_block v = Inr v1" using v1 by simp
    show ?thesis using expand_node_block_ok[OF ok e] e by (auto simp: vault_expand_node_block_def elim!: ebind_InrE)
  qed
  note at = sub_vault_at[OF conjunct1[OF v1f] nz s]
  have st: "sv_sub_vault_id s' = sv_sub_vault_id s" "sv_open_orders_count s' = sv_open_orders_count s"
    using static_fields[OF accrue_static[OF m(1)]] static_fields[OF mint_static[OF m(2)]] by simp_all
  have ok2: "vault_ok (set_sub_vault v1 (sub_vault_index v1 k) s')"
    using v1f vault_ok_set_sub_vault[of v1 "sub_vault_index v1 k" s s'] at st by blast
  note r = credit_depositor_shares[OF ok2 cr]
  have hold: "holding v' w' j = holding v w' j + (if w' = w \<and> j = k then sh else 0)" for w' j
    using r[of "\<lambda>x i. x = w' \<and> i = j"] holding_frame[of "set_sub_vault v1 (sub_vault_index v1 k) s'" v w' j] v1f
    by (auto simp: set_sub_vault_def)
  have subs: "gv_sub_vaults v' = gv_sub_vaults (set_sub_vault v1 (sub_vault_index v1 k) s')" and ok': "vault_ok v'"
    using r[of "\<lambda>_ _. True"] by simp_all
  have "get_sub_vault v' (sub_vault_index v' k) = Inr s'"
    by (rule set_then_get[OF conjunct1[OF v1f] conjunct1[OF at] _ subs ok']) (use at st in simp_all)
  moreover have "get_sub_vault v (sub_vault_index v k) = Inr s" using s v1f by (simp add: get_sub_vault_def sub_vault_index_def)
  ultimately show ?thesis using g m at hold by blast
qed

text \<open>Rounding down against the depositor: the price of a share does not fall.\<close>

lemma mint_keeps_price:
  assumes "mint_shares s c = Inr (s', sh)" "0 < sv_total_shares s"
  shows "sv_total_assets_atoms s * sv_total_shares s' \<le> sv_total_assets_atoms s' * sv_total_shares s"
proof -
  have "sh * sv_total_assets_atoms s \<le> c * sv_total_shares s"
    using mint_shares_Inr[OF assms(1)] assms(2) by simp
  then show ?thesis using mint_shares_Inr[OF assms(1)] assms(2) by (simp add: algebra_simps)
qed

text \<open>The calls and the bookkeeping of a deposit.\<close>

lemma vault_deposit_Inr:
  assumes "process_global_vault_deposit pg ctx gc a k now v slot p = Inr (v', u', p')"
  obtains p1 received cs c sh where "pg_transfer pg (vc_depositor_token ctx) (vc_staging ctx) a p = Inr p1"
    "tk_amount (pl_tokens p1 (vc_staging ctx)) = tk_amount (pl_tokens p (vc_staging ctx)) + received" "0 < received"
    "adapter_deposit pg (vault_deposit_accounts ctx) received p1 = Inr (p', cs)"
    "shares_to_amount pg p' (vc_lending_pool ctx) cs = Inr c" "0 < c"
    "book_deposit v (vc_payer ctx) k now p' (vc_lending_pool ctx) c = Inr (v', sh)"
  using assms unfolding process_global_vault_deposit_def Let_def
  by (elim result_elims) (hypsubst, rule that, auto simp: require_Inr ok_or_Inr checked_sub_Some)

lemma mint_shares_exact:
  assumes "mint_shares s c = Inr (s', sh)"
  shows "0 < sh" "sh = (if sv_total_shares s = 0 then c else c * sv_total_shares s div sv_total_assets_atoms s)"
    "s' = s\<lparr>sv_total_shares := sv_total_shares s + sh, sv_total_principal_atoms := sv_total_principal_atoms s + c,
      sv_total_assets_atoms := (if sv_total_shares s = 0 then c else sv_total_assets_atoms s + c)\<rparr>"
  using mint_shares_Inr[OF assms] by (auto split: if_splits)

text \<open>C34. A deposit buys shares at their price. On any vault its life can reach, a deposit that succeeds was made on an
  open sub-vault, by its owner if the sub-vault is private. The depositor pays the amount into the staging account,
  what arrives there goes into the lending program, and the credited atoms are the worth of the shares the vault's
  account gained by that. After accrual at the bank's share value the sub-vault gains exactly these atoms and
  mints exactly their worth in shares, rounded down and at least one: as many as atoms when there are no shares,
  else their part of the assets. The value of the shares there were does not fall, the depositor holds exactly the
  minted shares more, and no other holding in any sub-vault changes.\<close>

theorem deposit_buys_at_price:
  assumes "vault_history ct v"
    and "process_global_vault_deposit pg ctx gc a k now v slot p = Inr (v', u', p')"
  shows "\<exists>p1 received pre post credited cv s s1 s' shares.
    pg_transfer pg (vc_depositor_token ctx) (vc_staging ctx) a p = Inr p1 \<and>
    tk_amount (pl_tokens p1 (vc_staging ctx)) = tk_amount (pl_tokens p (vc_staging ctx)) + received \<and> 0 < received \<and>
    pg_deposit pg (vc_integration_account ctx) (vc_lending_pool ctx) (vc_staging ctx) received p1 = Inr p' \<and>
    read_asset_shares_u128 p1 (vc_integration_account ctx) (vc_lending_pool ctx) = Inr pre \<and>
    read_asset_shares_u128 p' (vc_integration_account ctx) (vc_lending_pool ctx) = Inr post \<and>
    shares_to_amount pg p' (vc_lending_pool ctx) (post - pre) = Inr credited \<and> 0 < credited \<and>
    read_bank_asset_share_value_fp48 p' (vc_lending_pool ctx) = Inr cv \<and>
    get_sub_vault v (sub_vault_index v k) = Inr s \<and> accrue_sub_vault s now cv = Inr s1 \<and>
    get_sub_vault v' (sub_vault_index v' k) = Inr s' \<and> sv_is_sunset s = 0 \<and>
    (sv_kind s = SUB_VAULT_KIND_PRIVATE \<longrightarrow> vc_payer ctx = sv_curator s) \<and>
    shares = (if sv_total_shares s1 = 0 then credited else credited * sv_total_shares s1 div sv_total_assets_atoms s1) \<and> 0 < shares \<and>
    s' = s1\<lparr>sv_total_shares := sv_total_shares s1 + shares, sv_total_principal_atoms := sv_total_principal_atoms s1 + credited,
      sv_total_assets_atoms := (if sv_total_shares s1 = 0 then credited else sv_total_assets_atoms s1 + credited)\<rparr> \<and>
    (0 < sv_total_shares s1 \<longrightarrow>
       sv_total_assets_atoms s1 * sv_total_shares s' \<le> sv_total_assets_atoms s' * sv_total_shares s1) \<and>
    (\<forall>w j. holding v' w j = holding v w j + (if w = vc_payer ctx \<and> j = k then shares else 0))"
proof -
  obtain p1 received cs c sh where t: "pg_transfer pg (vc_depositor_token ctx) (vc_staging ctx) a p = Inr p1"
      "tk_amount (pl_tokens p1 (vc_staging ctx)) = tk_amount (pl_tokens p (vc_staging ctx)) + received" "0 < received"
    and ad: "adapter_deposit pg (vault_deposit_accounts ctx) received p1 = Inr (p', cs)"
    and c: "shares_to_amount pg p' (vc_lending_pool ctx) cs = Inr c" "0 < c"
    and b: "book_deposit v (vc_payer ctx) k now p' (vc_lending_pool ctx) c = Inr (v', sh)"
    by (rule vault_deposit_Inr[OF assms(2)])
  obtain pre post where m: "pg_deposit pg (vc_integration_account ctx) (vc_lending_pool ctx) (vc_staging ctx) received p1 = Inr p'"
      "read_asset_shares_u128 p1 (vc_integration_account ctx) (vc_lending_pool ctx) = Inr pre"
      "read_asset_shares_u128 p' (vc_integration_account ctx) (vc_lending_pool ctx) = Inr post" "cs = post - pre"
    using ad unfolding adapter_deposit_def vault_deposit_accounts_def Let_def saturating_sub_minus by (elim ebind_InrE) simp
  obtain s s1 s' cv where e: "read_bank_asset_share_value_fp48 p' (vc_lending_pool ctx) = Inr cv"
      "get_sub_vault v (sub_vault_index v k) = Inr s" "may_use_sub_vault s (vc_payer ctx)"
      "sv_is_sunset s = 0" "accrue_sub_vault s now cv = Inr s1" "get_sub_vault v' (sub_vault_index v' k) = Inr s'"
      "\<forall>w j. holding v' w j = holding v w j + (if w = vc_payer ctx \<and> j = k then sh else 0)"
    and mi: "mint_shares s1 c = Inr (s', sh)"
    using book_deposit_effect[OF vault_history_inv[OF assms(1)] b] by blast
  have ex: "0 < sh" "sh = (if sv_total_shares s1 = 0 then c else c * sv_total_shares s1 div sv_total_assets_atoms s1)"
    "s' = s1\<lparr>sv_total_shares := sv_total_shares s1 + sh, sv_total_principal_atoms := sv_total_principal_atoms s1 + c,
      sv_total_assets_atoms := (if sv_total_shares s1 = 0 then c else sv_total_assets_atoms s1 + c)\<rparr>"
    by (rule mint_shares_exact[OF mi])+
  have own: "sv_kind s = SUB_VAULT_KIND_PRIVATE \<longrightarrow> vc_payer ctx = sv_curator s" using e(3) by (auto simp: may_use_sub_vault_def)
  have price: "0 < sv_total_shares s1 \<longrightarrow> sv_total_assets_atoms s1 * sv_total_shares s' \<le> sv_total_assets_atoms s' * sv_total_shares s1"
    using mint_keeps_price[OF mi] by blast
  note worth = c(1)[unfolded m(4)]
  show ?thesis
    by (rule exI[of _ p1], rule exI[of _ received], rule exI[of _ pre], rule exI[of _ post], rule exI[of _ c], rule exI[of _ cv],
        rule exI[of _ s], rule exI[of _ s1], rule exI[of _ s'], rule exI[of _ sh]) (intro conjI; fact)
qed

section \<open>A deposit taken back\<close>

lemma accrue_last:
  "accrue_sub_vault s now cv = Inr s1 \<Longrightarrow> now \<le> sv_last_accrue_unix s1"
  unfolding accrue_sub_vault_def Let_def restore_assets_principal_invariant_def
  by (auto split: if_splits elim!: ebind_InrE)

lemma mint_then_burn:
  assumes m: "mint_shares s c = Inr (s', sh)" and b: "burn_shares s' sh mfi = Inr (s2, out)"
    and le: "sv_total_principal_atoms s \<le> sv_total_assets_atoms s" "sv_total_shares s = 0 \<longrightarrow> sv_total_principal_atoms s = 0"
  shows "out \<le> c"
proof -
  note r = mint_shares_Inr[OF m] and q = burn_shares_Inr[OF b]
  have "sh * (sv_total_principal_atoms s + c) \<le> c * (sv_total_shares s + sh)"
  proof (cases "sv_total_shares s = 0")
    case True then show ?thesis using r le by simp
  next
    case False
    have "sh * sv_total_principal_atoms s \<le> sh * sv_total_assets_atoms s" using le by simp
    also have "\<dots> \<le> c * sv_total_shares s" using r False by simp
    finally show ?thesis by (simp add: algebra_simps)
  qed
  then have "sh * sv_total_principal_atoms s' div sv_total_shares s' \<le> c * sv_total_shares s' div sv_total_shares s'"
    using r by (intro div_le_mono) simp
  also have "\<dots> = c" using r by simp
  finally show ?thesis using q by simp
qed

text \<open>C36. No profit from a round trip. When a deposit of \<open>c\<close> acknowledged atoms into a sound sub-vault is followed, in the
  same second, by the burn of exactly the shares it minted, the burn pays at most \<open>c\<close> atoms: neither rounding nor
  the choice of the amount lets a depositor take value from the others.\<close>

theorem deposit_round_trip_no_profit:
  assumes "vault_history ct v" "get_sub_vault v (sub_vault_index v k) = Inr s" "sv_wf s" "sv_sound s"
    and "sv_total_shares s = 0 \<longrightarrow> sv_total_principal_atoms s = 0" "now < i64_lim"
    and "read_bank_asset_share_value_fp48 p bank = Inr cv" "cv < u128_lim"
    and "book_deposit v w k now p bank c = Inr (v1, shares)"
    and "book_burn pg ctx shares k now v1 q = Inr (v2, left, out)"
  shows "out \<le> c"
proof -
  obtain s1 s' where a: "accrue_sub_vault s now cv = Inr s1" and m: "mint_shares s1 c = Inr (s', shares)"
    and g: "get_sub_vault v1 (sub_vault_index v1 k) = Inr s'"
    using book_deposit_effect[OF vault_history_inv[OF assms(1)] assms(9)] assms(2,7) by auto
  obtain cv2 mfi s2 t where b: "accrue_sub_vault s' now cv2 = Inr t" "burn_shares t shares mfi = Inr (s2, out)"
    using assms(10) unfolding book_burn_def Let_def by (elim ebind_InrE) (auto simp: g elim!: ebind_InrE)
  obtain a b d where "s' = s1\<lparr>sv_total_shares := a, sv_total_principal_atoms := b, sv_total_assets_atoms := d\<rparr>"
    using mint_shares_Inr[OF m] by blast
  then have "sv_last_accrue_unix s' = sv_last_accrue_unix s1" by simp
  then have t: "t = s'" using b(1) accrue_last[OF a] by (simp add: accrue_sub_vault_def)
  have "sv_sound s1" using accrue_sub_vault_wf[OF assms(3,4,6,8) a] by blast
  moreover have "sv_total_shares s1 = 0 \<longrightarrow> sv_total_principal_atoms s1 = 0"
    using assms(3,4,6,8) a by (cases rule: accrue_sub_vault_cases) (use assms(5) in \<open>auto simp: sv_accrue_frame_def\<close>)
  ultimately show ?thesis using mint_then_burn[OF m] b(2) unfolding t by (auto simp: sv_sound_def)
qed

section \<open>Withdrawals\<close>

lemma found_not_NIL: "vault_ok v \<Longrightarrow> get_sub_vault v i = Inr s \<Longrightarrow> i \<noteq> NIL"
  using vault_trees_ok(1)[of v] by (force simp: get_sub_vault_Inr tree_ok_def)

text \<open>Writing one sub-vault of a vault.\<close>

lemma write_sub_vault:
  assumes ok: "vault_ok v" and s: "get_sub_vault v (sub_vault_index v k) = Inr s"
    and q: "sv_sub_vault_id q = sv_sub_vault_id s" "sv_open_orders_count q = sv_open_orders_count s"
    and v': "v' = set_sub_vault v (sub_vault_index v k) q"
  shows "vault_ok v' \<and> get_sub_vault v' (sub_vault_index v' k) = Inr q \<and> gv_claimed_seats v' = gv_claimed_seats v \<and>
    sv_sub_vault_id s = k"
proof -
  note at = sub_vault_at[OF ok found_not_NIL[OF ok s] s]
  have ok': "vault_ok v'" unfolding v' by (rule vault_ok_set_sub_vault[OF ok conjunct1[OF at] q])
  moreover have "get_sub_vault v' (sub_vault_index v' k) = Inr q"
    by (rule set_then_get[OF ok conjunct1[OF at] _ _ ok']) (use q at v' in simp_all)
  ultimately show ?thesis using at by (simp add: v' set_sub_vault_def)
qed

text \<open>The worth of the vault's account at the lending program, and the payment of \<open>out\<close> atoms: they are withdrawn
  from the program, what came back is paid to the depositor up to \<open>out\<close>, and a surplus is deposited again.\<close>

definition vault_atoms :: "programs \<Rightarrow> vault_context \<Rightarrow> pool \<Rightarrow> nat \<Rightarrow> bool" where
  "vault_atoms pg ctx p mfi = (\<exists>sh. read_asset_shares_u128 p (vc_integration_account ctx) (vc_lending_pool ctx) = Inr sh \<and>
     shares_to_amount pg p (vc_lending_pool ctx) sh = Inr mfi)"

definition pays_out :: "programs \<Rightarrow> vault_context \<Rightarrow> nat \<Rightarrow> pool \<Rightarrow> pool \<Rightarrow> bool" where
  "pays_out pg ctx out p p' =
     (if out = 0 then p' = p
      else \<exists>sh p1 actual burned p2. amount_to_asset_shares pg p (vc_lending_pool ctx) out = Inr sh \<and>
        adapter_withdraw pg (vault_payout_accounts ctx) sh p = Inr (p1, actual, burned) \<and>
        (if actual = 0 then p2 = p1
         else pg_transfer pg (vc_staging ctx) (vc_depositor_token ctx) (min actual out) p1 = Inr p2) \<and>
        return_surplus pg ctx (actual - out) p2 = Inr p')"

lemma pays_outI:
  assumes "(if 0 < out then pull_payout pg ctx out p else Inr (p, 0, 0)) = Inr (p1, pay, rest)"
    and "(if 0 < pay then pg_transfer pg (vc_staging ctx) (vc_depositor_token ctx) pay p1 else Inr p1) = Inr p2"
    and "return_surplus pg ctx rest p2 = Inr p'"
  shows "pays_out pg ctx out p p'"
proof (cases "out = 0")
  case True
  then show ?thesis using assms by (auto simp: pays_out_def return_surplus_def)
next
  case False
  then obtain sh actual burned where sh: "amount_to_asset_shares pg p (vc_lending_pool ctx) out = Inr sh"
      "adapter_withdraw pg (vault_payout_accounts ctx) sh p = Inr (p1, actual, burned)"
    and e: "pay = min actual out" "rest = actual - min actual out"
    using assms(1) by (auto simp: pull_payout_def Let_def saturating_sub_minus elim!: ebind_InrE)
  have "rest = actual - out" using e by simp
  moreover have "if actual = 0 then p2 = p1
      else pg_transfer pg (vc_staging ctx) (vc_depositor_token ctx) (min actual out) p1 = Inr p2"
    using assms(2) False e by (auto split: if_splits)
  ultimately show ?thesis using sh assms(3) False unfolding pays_out_def if_not_P[OF False] by blast
qed

lemma withdraw_effect:
  assumes inv: "vault_inv v" and w: "process_global_vault_withdraw pg ctx gc sh k now v slot p = Inr (v', u', p')"
  shows "\<exists>s s1 s2 s' cv mfi out. get_sub_vault v (sub_vault_index v k) = Inr s \<and> may_use_sub_vault s (vc_payer ctx) \<and>
    accrue_sub_vault s now cv = Inr s1 \<and> burn_shares s1 sh mfi = Inr (s2, out) \<and>
    vault_atoms pg ctx p mfi \<and> read_bank_asset_share_value_fp48 p (vc_lending_pool ctx) = Inr cv \<and> pays_out pg ctx out p p' \<and>
    s' = (if sv_total_shares s2 = 0 then s2\<lparr>sv_total_assets_atoms := 0, sv_total_principal_atoms := 0\<rparr> else s2) \<and>
    get_sub_vault v' (sub_vault_index v' k) = Inr s' \<and>
    (\<forall>w' j. holding v' w' j + (if w' = vc_payer ctx \<and> j = k then sh else 0) = holding v w' j)"
proof -
  obtain v1 ts out v2 z p1 pay rest p2 where b: "book_burn pg ctx sh k now v p = Inr (v1, ts, out)"
    and c: "(if ts = 0 then clear_drained_sub_vault v1 k else Inr v1) = Inr v2"
    and d: "debit_depositor v2 (vc_payer ctx) k sh now = Inr (v', z)"
    and py: "(if 0 < out then pull_payout pg ctx out p else Inr (p, 0, 0)) = Inr (p1, pay, rest)"
      "(if 0 < pay then pg_transfer pg (vc_staging ctx) (vc_depositor_token ctx) pay p1 else Inr p1) = Inr p2"
      "return_surplus pg ctx rest p2 = Inr p'"
    using w unfolding process_global_vault_withdraw_def Let_def by (elim result_elims) (hypsubst, rule that, assumption, assumption, simp, simp_all)
  note paid = pays_outI[OF py]
  obtain s cv s1 s2 mfi where nz: "sub_vault_index v k \<noteq> NIL" and s: "get_sub_vault v (sub_vault_index v k) = Inr s"
    and g: "may_use_sub_vault s (vc_payer ctx)"
    and m: "accrue_sub_vault s now cv = Inr s1" "burn_shares s1 sh mfi = Inr (s2, out)"
    and v1: "v1 = set_sub_vault v (sub_vault_index v k) s2" and ts: "ts = sv_total_shares s2"
    and mf: "vault_atoms pg ctx p mfi" "read_bank_asset_share_value_fp48 p (vc_lending_pool ctx) = Inr cv"
    using b unfolding book_burn_def Let_def vault_atoms_def by (elim ebind_InrE) (auto simp: require_Inr elim!: ebind_InrE)
  have ok: "vault_ok v" using inv by (simp add: vault_inv_def vault_inv_off_def)
  have st: "sv_sub_vault_id s2 = sv_sub_vault_id s" "sv_open_orders_count s2 = sv_open_orders_count s"
    using static_fields[OF accrue_static[OF m(1)]] static_fields[OF burn_static[OF m(2)]] by simp_all
  note w1 = write_sub_vault[OF ok s st v1]
  define s' where "s' = (if sv_total_shares s2 = 0 then s2\<lparr>sv_total_assets_atoms := 0, sv_total_principal_atoms := 0\<rparr> else s2)"
  have w2: "vault_ok v2 \<and> get_sub_vault v2 (sub_vault_index v2 k) = Inr s' \<and> gv_claimed_seats v2 = gv_claimed_seats v"
  proof (cases "sv_total_shares s2 = 0")
    case False
    then show ?thesis using c w1 by (simp add: ts s'_def)
  next
    case True
    have "v2 = set_sub_vault v1 (sub_vault_index v1 k) s'"
      using c w1 True found_not_NIL[of v1] by (auto simp: ts s'_def clear_drained_sub_vault_def Let_def)
    then show ?thesis using write_sub_vault[of v1 k s2 s' v2] w1 True by (simp add: s'_def)
  qed
  note r = debit_depositor_shares[OF conjunct1[OF w2] d]
  have "get_sub_vault v' (sub_vault_index v' k) = Inr s'"
    using w2 r[of "\<lambda>_ _. True"] by (simp add: get_sub_vault_def sub_vault_index_def)
  moreover have "holding v' w' j + (if w' = vc_payer ctx \<and> j = k then sh else 0) = holding v w' j" for w' j
    using r[of "\<lambda>x i. x = w' \<and> i = j"] holding_frame[of v2 v w' j] w2 by auto
  ultimately show ?thesis using s g m s'_def mf paid by blast
qed

lemma principal_per_share: "out * S \<le> sh * P \<Longrightarrow> P * (S - sh) \<le> (P - out) * (S :: nat)"
  by (simp add: diff_mult_distrib diff_mult_distrib2 mult.commute diff_le_mono2)

lemma burn_shares_pays:
  assumes "burn_shares s sh mfi = Inr (s', out)"
  shows "out = (if sh = sv_total_shares s then min (sv_total_principal_atoms s) mfi
    else sh * sv_total_principal_atoms s div sv_total_shares s)"
proof -
  obtain d where d: "mul_div sh (sv_total_principal_atoms s) (sv_total_shares s) False = Inr d"
    and out: "out = (if sv_total_shares s = sh then min d mfi else d)"
    using assms unfolding burn_shares_def Let_def
    by (elim ebind_InrE) (auto simp: ok_or_Inr narrow_Some split: if_splits)
  have "d = sh * sv_total_principal_atoms s div sv_total_shares s" "0 < sv_total_shares s" using mul_div_floor_div[OF d] by simp_all
  then show ?thesis using out by auto
qed

text \<open>C35. A withdrawal pays the burned shares' part of the principal, no more and no less. On any vault its life can
  reach, a withdrawal that succeeds burns only shares its signer holds (the owner of a private sub-vault only).
  After accrual at the bank's share value, the atoms paid are the principal times the burned part of the shares,
  rounded down - for the last shares at most what the vault's account at the lending program is worth; they fit
  into that worth, and none of them is lent out or reserved for a matched loan. Exactly these atoms leave the
  books, are withdrawn from the lending program and paid to the depositor as far as they come back, and a surplus
  goes back. The principal per remaining share does not fall, nothing is left on the books of a drained
  sub-vault, and no other holding changes.\<close>

theorem withdrawal_pays_its_part:
  assumes "vault_history ct v"
    and "process_global_vault_withdraw pg ctx gc shares k now v slot p = Inr (v', u', p')"
  shows "\<exists>s s1 s' cv mfi out. get_sub_vault v (sub_vault_index v k) = Inr s \<and>
    read_bank_asset_share_value_fp48 p (vc_lending_pool ctx) = Inr cv \<and> accrue_sub_vault s now cv = Inr s1 \<and>
    get_sub_vault v' (sub_vault_index v' k) = Inr s' \<and> vault_atoms pg ctx p mfi \<and>
    (sv_kind s = SUB_VAULT_KIND_PRIVATE \<longrightarrow> vc_payer ctx = sv_curator s) \<and>
    shares \<le> holding v (vc_payer ctx) k \<and> sv_total_shares s' + shares = sv_total_shares s1 \<and>
    out = (if shares = sv_total_shares s1 then min (sv_total_principal_atoms s1) mfi
           else shares * sv_total_principal_atoms s1 div sv_total_shares s1) \<and>
    out \<le> mfi \<and> (0 < out \<longrightarrow> out + sv_deployed_principal_atoms s1 + sv_encumbered_in_orders_atoms s1 \<le> sv_total_principal_atoms s1) \<and>
    (if shares = sv_total_shares s1
     then sv_deployed_principal_atoms s1 = 0 \<and> sv_encumbered_in_orders_atoms s1 = 0 \<and>
       sv_total_principal_atoms s' = 0 \<and> sv_total_assets_atoms s' = 0
     else sv_total_principal_atoms s' = sv_total_principal_atoms s1 - out \<and> sv_total_assets_atoms s' = sv_total_assets_atoms s1 - out \<and>
       sv_total_principal_atoms s1 * sv_total_shares s' \<le> sv_total_principal_atoms s' * sv_total_shares s1) \<and>
    pays_out pg ctx out p p' \<and>
    (\<forall>w j. holding v' w j + (if w = vc_payer ctx \<and> j = k then shares else 0) = holding v w j)"
proof -
  obtain s s1 s2 s' cv mfi out where e: "get_sub_vault v (sub_vault_index v k) = Inr s" "may_use_sub_vault s (vc_payer ctx)"
      "accrue_sub_vault s now cv = Inr s1" "get_sub_vault v' (sub_vault_index v' k) = Inr s'"
      "vault_atoms pg ctx p mfi" "read_bank_asset_share_value_fp48 p (vc_lending_pool ctx) = Inr cv" "pays_out pg ctx out p p'"
    and b: "burn_shares s1 shares mfi = Inr (s2, out)"
    and s': "s' = (if sv_total_shares s2 = 0 then s2\<lparr>sv_total_assets_atoms := 0, sv_total_principal_atoms := 0\<rparr> else s2)"
    and hold: "\<forall>w j. holding v' w j + (if w = vc_payer ctx \<and> j = k then shares else 0) = holding v w j"
    using withdraw_effect[OF vault_history_inv[OF assms(1)] assms(2)] by blast
  note r = burn_shares_Inr[OF b]
  have out: "out = (if shares = sv_total_shares s1 then min (sv_total_principal_atoms s1) mfi
      else shares * sv_total_principal_atoms s1 div sv_total_shares s1)" by (rule burn_shares_pays[OF b])
  have le: "out * sv_total_shares s1 \<le> shares * sv_total_principal_atoms s1"
    using r by (meson div_times_less_eq_dividend le_trans mult_le_mono1)
  have books: "if shares = sv_total_shares s1
     then sv_deployed_principal_atoms s1 = 0 \<and> sv_encumbered_in_orders_atoms s1 = 0 \<and>
       sv_total_principal_atoms s' = 0 \<and> sv_total_assets_atoms s' = 0
     else sv_total_principal_atoms s' = sv_total_principal_atoms s1 - out \<and> sv_total_assets_atoms s' = sv_total_assets_atoms s1 - out \<and>
       sv_total_principal_atoms s1 * sv_total_shares s' \<le> sv_total_principal_atoms s' * sv_total_shares s1"
  proof (cases "shares = sv_total_shares s1")
    case True
    then show ?thesis using r by (simp add: s')
  next
    case False
    then have "sv_total_shares s' = sv_total_shares s1 - shares" "sv_total_principal_atoms s' = sv_total_principal_atoms s1 - out"
      "sv_total_assets_atoms s' = sv_total_assets_atoms s1 - out" using r by (simp_all add: s')
    then show ?thesis using principal_per_share[OF le] False by simp
  qed
  have held: "shares \<le> holding v (vc_payer ctx) k" using hold[rule_format, of "vc_payer ctx" k] by simp
  have "sv_total_shares s' = sv_total_shares s1 - shares" using conjunct1[OF conjunct2[OF conjunct2[OF r]]] by (simp add: s')
  then have total: "sv_total_shares s' + shares = sv_total_shares s1" using r by simp
  have priv: "sv_kind s = SUB_VAULT_KIND_PRIVATE \<longrightarrow> vc_payer ctx = sv_curator s" using e(2) by (auto simp: may_use_sub_vault_def)
  have idle: "out \<le> mfi" "0 < out \<longrightarrow> out + sv_deployed_principal_atoms s1 + sv_encumbered_in_orders_atoms s1 \<le> sv_total_principal_atoms s1"
    using r by blast+
  show ?thesis
    by (rule exI[of _ s], rule exI[of _ s1], rule exI[of _ s'], rule exI[of _ cv], rule exI[of _ mfi], rule exI[of _ out])
      (intro conjI; fact)
qed

section \<open>A deposit and a partial withdrawal\<close>

lemma sample_readings:
  "read_asset_shares_u128 sample_pool 23 1 = Inr (5000 * SCALE)" "read_bank_asset_share_value_fp48 sample_pool 1 = Inr SCALE"
  "shares_to_amount sample_programs sample_pool 1 (5000 * SCALE) = Inr 5000"
  by (simp_all add: sample_eval read_asset_shares_u128_def borrow_marginfi_account_def wrapped_i80f48_to_u128_def SCALE_def
      read_bank_asset_share_value_fp48_def shares_to_amount_def bank_asset_share_value_def borrow_bank_def assert_marginfi_owned_def
      mul_scale_eq from_scaled_floor_eq lim_defs require_def cong: ebind_weak_cong)

lemma sample_burn:
  "n = 1000 \<or> n = 400 \<Longrightarrow> \<exists>s. book_burn sample_programs sample_vault_context n 1 10 deposited_vault sample_pool =
     Inr (set_sub_vault deposited_vault 0 s, 1000 - n, n)"
  by (elim disjE) (simp_all add: book_burn_def sample_vault_context_def sample_readings[unfolded One_nat_def SCALE_def, simplified]
      deposited_vault_def opened_vault_def may_use_sub_vault_def burn_shares_def mul_div_def vault_eval vault_node_eval
      saturating_sub_def narrow_def SCALE_def lim_defs u256_lim_def u256_to_u128_eq Let_def cong: ebind_weak_cong)

lemma deposit_buys_at_price_witness:
  "\<exists>shares. 0 < shares \<and> holding deposited_vault 7 1 = holding opened_vault 7 1 + shares \<and>
     holding deposited_vault 9 1 = holding opened_vault 9 1"
proof -
  obtain u p where r: "process_global_vault_deposit sample_programs sample_vault_context (gc_new_empty 1) 1000 1 10 opened_vault None
      sample_pool = Inr (deposited_vault, u, p)" using first_deposit_run by blast
  obtain shares where "0 < shares" and h: "\<forall>w j. holding deposited_vault w j =
      holding opened_vault w j + (if w = vc_payer sample_vault_context \<and> j = 1 then shares else 0)"
    using deposit_buys_at_price[OF opened_vault_history r] by (elim exE conjE) (rule that)
  then show ?thesis using h[rule_format, of 7 1] h[rule_format, of 9 1] by (simp add: sample_vault_context_def)
qed

lemma deposit_round_trip_no_profit_witness:
  "\<exists>v s. book_deposit opened_vault 7 1 10 sample_pool 1 1000 = Inr (v, 1000) \<and>
     book_burn sample_programs sample_vault_context 1000 1 10 v sample_pool = Inr (s, 0, 1000) \<and> (1000 :: nat) \<le> 1000"
proof -
  have d: "book_deposit opened_vault 7 1 10 sample_pool 1 1000 = Inr (deposited_vault, 1000)"
    by (rule sample_deposit_books[OF sample_readings(2)])
  obtain s where b: "book_burn sample_programs sample_vault_context 1000 1 10 deposited_vault sample_pool =
      Inr (set_sub_vault deposited_vault 0 s, 1000 - 1000, 1000)"
    using sample_burn[of 1000] by blast
  obtain q where q: "get_sub_vault opened_vault (sub_vault_index opened_vault 1) = Inr q" "sv_wf q" "sv_sound q"
      "sv_total_shares q = 0 \<longrightarrow> sv_total_principal_atoms q = 0"
    by (simp add: opened_vault_def vault_node_eval sv_wf_def sv_sound_def lim_defs fp48_ZERO_def)
  have "(1000 :: nat) \<le> 1000"
    by (rule deposit_round_trip_no_profit[OF opened_vault_history q _ sample_readings(2) _ d b]) (simp_all add: lim_defs SCALE_def)
  then show ?thesis using d b by auto
qed

text \<open>Of the 1000 shares 400 are burned: 400 atoms are paid, 600 shares and 600 atoms stay.\<close>

lemma sample_payout:
  "\<exists>p1 p2. pull_payout sample_programs sample_vault_context 400 sample_pool = Inr (p1, 400, 0) \<and>
     pg_transfer sample_programs 22 30 400 p1 = Inr p2"
proof -
  have s: "amount_to_asset_shares sample_programs sample_pool 1 400 = Inr (400 * SCALE)"
    by (simp add: amount_to_asset_shares_def bank_asset_share_value_def borrow_bank_def assert_marginfi_owned_def sample_eval
        wrapped_i80f48_to_u128_def SCALE_def to_scaled_eq div_scale_eq lim_defs require_def cong: ebind_weak_cong)
  have w: "\<exists>p1 n. adapter_withdraw sample_programs (vault_payout_accounts sample_vault_context) (400 * SCALE) sample_pool = Inr (p1, 400, n) \<and>
      tk_amount (pl_tokens p1 22) = 5400"
    by (simp add: adapter_withdraw_def vault_payout_accounts_def sample_vault_context_def check_accounts_def
        WITHDRAW_EXPLICIT_ACCOUNTS_def borrow_bank_def read_asset_shares_u128_def borrow_marginfi_account_def
        wrapped_i80f48_to_u128_def sample_eval SCALE_def mul_scale_eq from_scaled_floor_eq lim_defs token_balance_of_def
        saturating_sub_def cong: ebind_weak_cong)
  obtain p1 n where p1: "adapter_withdraw sample_programs (vault_payout_accounts sample_vault_context) (400 * SCALE) sample_pool = Inr (p1, 400, n)"
    "tk_amount (pl_tokens p1 22) = 5400" using w by blast
  have "pull_payout sample_programs sample_vault_context 400 sample_pool = Inr (p1, 400, 0)"
    using s p1(1) by (simp add: pull_payout_def sample_vault_context_def saturating_sub_def)
  moreover have "\<exists>p2. pg_transfer sample_programs 22 30 400 p1 = Inr p2" using p1(2) by (simp add: sample_programs_def token_out_def)
  ultimately show ?thesis by blast
qed

lemma sample_debit:
  "\<exists>v. debit_depositor (set_sub_vault deposited_vault 0 s) 7 1 400 10 = Inr (v, False)"
  by (simp add: debit_depositor_def depositor_seat_index_def get_depositor_seat_def deposited_vault_def opened_vault_def vault_node_eval
      depositor_seat_cmp_def ds_probe_def checked_sub_def cong: ebind_weak_cong)

lemma sample_withdrawal:
  "\<exists>v u p. process_global_vault_withdraw sample_programs sample_vault_context (gc_new_empty 1) 400 1 10 deposited_vault None sample_pool =
     Inr (v, u, p)"
proof -
  obtain p1 p2 where f: "pull_payout sample_programs sample_vault_context 400 sample_pool = Inr (p1, 400, 0)"
    "pg_transfer sample_programs 22 30 400 p1 = Inr p2" using sample_payout by blast
  obtain s where b: "book_burn sample_programs sample_vault_context 400 1 10 deposited_vault sample_pool =
      Inr (set_sub_vault deposited_vault 0 s, 600, 400)"
    using sample_burn[of 400] by auto
  obtain v where d: "debit_depositor (set_sub_vault deposited_vault 0 s) 7 1 400 10 = Inr (v, False)" using sample_debit by blast
  obtain u where u: "ensure_user_account_for_signer 7 255 None = Inr u" "vault_position_index u 20 1 = NIL"
    by (simp add: ensure_user_account_for_signer_def ua_new_empty_def ua_has_free_block_def user_account_expand_def
        USER_ACCOUNT_BLOCK_SIZE_def vault_position_index_def checked_add_def lim_defs Let_def cong: ebind_weak_cong)
  obtain q where q: "depositor_seat_index deposited_vault 7 1 \<noteq> NIL"
      "get_depositor_seat deposited_vault (depositor_seat_index deposited_vault 7 1) = Inr q" "ds_shares q = 1000"
    by (simp add: depositor_seat_index_def get_depositor_seat_def deposited_vault_def vault_node_eval
        depositor_seat_cmp_def ds_probe_def cong: ebind_weak_cong)
  have c: "vc_payer sample_vault_context = 7" "vc_user_bump sample_vault_context = 255" "vc_staging sample_vault_context = 22"
    "vc_depositor_token sample_vault_context = 30" "vc_vault_key sample_vault_context = 20"
    by (simp_all add: sample_vault_context_def)
  have g: "require_global_not_paused (gc_new_empty 1) = Inr ()" "require_vault_not_paused deposited_vault = Inr ()"
    by (simp_all add: require_global_not_paused_def gc_new_empty_def require_vault_not_paused_def deposited_vault_def opened_vault_def
        gv_new_empty_def require_def)
  show ?thesis
    by (simp add: process_global_vault_withdraw_def c g f u q b d return_surplus_def debit_position_def Let_def require_def
        del: One_nat_def cong: ebind_weak_cong)
qed

lemma withdrawal_pays_its_part_witness:
  "\<exists>v u p. process_global_vault_withdraw sample_programs sample_vault_context (gc_new_empty 1) 400 1 10 deposited_vault None sample_pool =
     Inr (v, u, p) \<and> holding v 7 1 + 400 = holding deposited_vault 7 1"
proof -
  obtain v u p where r: "process_global_vault_withdraw sample_programs sample_vault_context (gc_new_empty 1) 400 1 10 deposited_vault
      None sample_pool = Inr (v, u, p)" using sample_withdrawal by blast
  have h: "\<forall>w j. holding v w j + (if w = vc_payer sample_vault_context \<and> j = 1 then 400 else 0) = holding deposited_vault w j"
    using withdrawal_pays_its_part[OF deposited_vault_history r] by (elim exE conjE)
  have "holding v 7 1 + 400 = holding deposited_vault 7 1"
    using h[rule_format, of 7 1] by (simp add: sample_vault_context_def)
  then show ?thesis using r by blast
qed

section \<open>Two ways to lose access\<close>

text \<open>What a withdrawal takes of the atoms that are only claims.\<close>

definition claim_shortfall :: "sub_vault \<Rightarrow> nat \<Rightarrow> nat" where
  "claim_shortfall s out = sv_deployed_principal_atoms s + sv_pending_claim_atoms s + out - sv_total_principal_atoms s"

lemma mul_div_not_overflow: "mul_div a b c up \<noteq> Inl ArithmeticOverflow"
proof -
  have "ebind x f \<noteq> Inl e" if "x \<noteq> Inl e" "\<And>v. f v \<noteq> Inl e" for x e and f :: "nat \<Rightarrow> nat res"
    using that by (cases x) auto
  note ne = this
  show ?thesis by (auto simp: mul_div_def u256_to_u128_def ok_or_def Let_def split: option.splits if_splits intro!: ne)
qed

lemma idle_delta_not_overflow:
  assumes "sv_deployed_principal_atoms s + sv_pending_claim_atoms s \<le> sv_total_principal_atoms s"
  shows "accrue_idle_delta s cv \<noteq> Inl ArithmeticOverflow"
proof -
  have "ebind (mul_div a cv b False) (\<lambda>v. if u64_lim - 1 < v then Inl (Custom MathOverflow) else Inr (int v - int a)) \<noteq> Inl ArithmeticOverflow"
    for a b using mul_div_not_overflow[of a cv b False] by (cases "mul_div a cv b False") auto
  moreover have "sv_pending_claim_atoms s \<le> sv_total_principal_atoms s - sv_deployed_principal_atoms s" using assms by linarith
  ultimately show ?thesis using assms by (simp add: accrue_idle_delta_def checked_sub_def Let_def)
qed

text \<open>Without the accrual of its lender nothing is deposited, lent or closed.\<close>

lemma refused_accrual_blocks:
  assumes "accrue_sub_vault x now cv = Inl e"
  shows "\<not> is_ok (deposit_on_sub_vault x w now (Inr cv) c) \<and> \<not> is_ok (deploy_on_sub_vault x now cv amount rate fee extra) \<and>
    \<not> is_ok (retire_on_sub_vault x now cv loan)"
  using assms by (simp add: deposit_on_sub_vault_def deploy_on_sub_vault_def retire_on_sub_vault_def is_ok_def require_def)



text \<open>What the matching engine offers of a sub-vault, reserved and deployed: the principal is as it was and
  the deployed total has grown.\<close>

lemma reserve_then_deploy:
  assumes ok: "vault_ok v" and s: "get_sub_vault v (sub_vault_index v k) = Inr s"
    and r: "reserve_on_sub_vault v k n = Inr v1"
    and d: "on_sub_vault v1 k (\<lambda>s. deploy_on_sub_vault s now cv n rate fee 0) = Inr v2" and t: "now \<le> sv_last_accrue_unix s"
  shows "\<exists>s2. get_sub_vault v2 (sub_vault_index v2 k) = Inr s2 \<and> sv_deployed_principal_atoms s2 = sv_deployed_principal_atoms s + n \<and>
    sv_pending_claim_atoms s2 = sv_pending_claim_atoms s \<and> sv_total_principal_atoms s2 = sv_total_principal_atoms s \<and>
    sv_last_accrue_unix s2 = sv_last_accrue_unix s \<and> (sv_wf s \<longrightarrow> sv_wf s2)"
proof -
  have i: "sub_vault_index v k \<noteq> NIL" by (rule found_not_NIL[OF ok s])
  define q where "q = s\<lparr>sv_encumbered_in_orders_atoms := sv_encumbered_in_orders_atoms s + n, sv_open_loans_count := sv_open_loans_count s + 1\<rparr>"
  have v1: "v1 = set_sub_vault v (sub_vault_index v k) q"
    using r s i by (auto simp: reserve_on_sub_vault_def Let_def q_def checked_add_Some ok_or_Inr elim!: ebind_InrE)
  note w1 = write_sub_vault[OF ok s _ _ v1]
  have q1: "vault_ok v1" "get_sub_vault v1 (sub_vault_index v1 k) = Inr q" using w1 by (simp_all add: q_def)
  obtain s2 where s2: "deploy_on_sub_vault q now cv n rate fee 0 = Inr s2" and v2: "v2 = set_sub_vault v1 (sub_vault_index v1 k) s2"
    using d q1(2) by (auto simp: on_sub_vault_def Let_def elim!: ebind_InrE)
  have "accrue_sub_vault q now cv = Inr q" using t by (simp add: q_def accrue_sub_vault_def)
  then have e: "sv_deployed_principal_atoms s2 = sv_deployed_principal_atoms s + n \<and> sv_deployed_principal_atoms s2 < u64_lim \<and>
      sv_total_weighted_net_rate_bps s2 < u128_lim \<and> sv_pending_claim_atoms s2 = sv_pending_claim_atoms s \<and>
      sv_total_principal_atoms s2 = sv_total_principal_atoms s \<and> sv_last_accrue_unix s2 = sv_last_accrue_unix s \<and>
      sv_total_assets_atoms s2 = sv_total_assets_atoms s \<and> sv_total_shares s2 = sv_total_shares s \<and>
      sv_last_supply_share_value_fp48 s2 = sv_last_supply_share_value_fp48 s \<and>
      sv_sub_vault_id s2 = sv_sub_vault_id q \<and> sv_open_orders_count s2 = sv_open_orders_count q"
    using s2 by (auto simp: deploy_on_sub_vault_def Let_def q_def checked_add_Some ok_or_Inr elim!: ebind_InrE)
  then have "get_sub_vault v2 (sub_vault_index v2 k) = Inr s2" using write_sub_vault[OF q1 _ _ v2] by simp
  then show ?thesis using e by (simp add: sv_wf_def)
qed

text \<open>C25. The matching engine can lend atoms that are only claims. It offers the principal of a sub-vault less what is
  deployed, reserved and the rounding reserve; the pending claims are not subtracted. When it matches and deploys
  more than what is left beside the pending claims, the accrual of the sub-vault is refused from the
  next second on, and with it every deposit, promotion and close of an open loan, the one just lent included, until
  the missing atoms have been swept in. Claims that an early sweep left behind have nothing to be swept from, so with
  them the refusal lasts.\<close>

theorem matching_lends_pending_claims:
  assumes ok: "vault_ok v" and s: "get_sub_vault v (sub_vault_index v k) = Inr s" "sv_wf s"
    and t: "read_maker_terms v k = Inr t" "0 < n" "n \<le> mt_idle t"
    and r: "reserve_on_sub_vault v k n = Inr v1"
    and d: "on_sub_vault v1 k (\<lambda>s. deploy_on_sub_vault s now cv n rate fee 0) = Inr v2" "now \<le> sv_last_accrue_unix s"
    and short: "sv_total_principal_atoms s < sv_deployed_principal_atoms s + sv_pending_claim_atoms s + n"
    and l: "sv_last_accrue_unix s < later" "later < i64_lim"
  shows "\<exists>s2. get_sub_vault v2 (sub_vault_index v2 k) = Inr s2 \<and> sv_pending_claim_atoms s2 = sv_pending_claim_atoms s \<and>
    0 < claim_shortfall s n \<and> claim_shortfall s n \<le> sv_pending_claim_atoms s \<and>
    (\<forall>swept cv2 w c amount rate fee extra loan. swept < claim_shortfall s n \<longrightarrow>
      accrue_sub_vault (sweep_on_sub_vault s2 swept) later cv2 = Inl ArithmeticOverflow \<and>
      \<not> is_ok (deposit_on_sub_vault (sweep_on_sub_vault s2 swept) w later (Inr cv2) c) \<and>
      \<not> is_ok (deploy_on_sub_vault (sweep_on_sub_vault s2 swept) later cv2 amount rate fee extra) \<and>
      \<not> is_ok (retire_on_sub_vault (sweep_on_sub_vault s2 swept) later cv2 loan)) \<and>
    (\<forall>swept cv2. claim_shortfall s n \<le> swept \<longrightarrow> accrue_idle_delta (sweep_on_sub_vault s2 swept) cv2 \<noteq> Inl ArithmeticOverflow)"
proof -
  obtain s2 where s2: "get_sub_vault v2 (sub_vault_index v2 k) = Inr s2" "sv_deployed_principal_atoms s2 = sv_deployed_principal_atoms s + n"
    "sv_pending_claim_atoms s2 = sv_pending_claim_atoms s" "sv_total_principal_atoms s2 = sv_total_principal_atoms s"
    "sv_last_accrue_unix s2 = sv_last_accrue_unix s" "sv_wf s2"
    using reserve_then_deploy[OF ok s(1) r d] s(2) by blast
  have offer: "sv_deployed_principal_atoms s + n \<le> sv_total_principal_atoms s" "0 < sv_total_principal_atoms s"
    using t s(1) by (auto simp: read_maker_terms_def sub_vault_match_idle_def saturating_sub_minus Let_def split: if_splits)
  have frozen: "accrue_sub_vault (sweep_on_sub_vault s2 swept) later cv2 = Inl ArithmeticOverflow" if "swept < claim_shortfall s n" for swept cv2
    by (rule accrual_rejects_over_deployment)
      (use s2 l offer that in \<open>auto simp: sv_wf_def sweep_on_sub_vault_def saturating_sub_minus claim_shortfall_def\<close>)
  have open_again: "accrue_idle_delta (sweep_on_sub_vault s2 swept) cv2 \<noteq> Inl ArithmeticOverflow" if "claim_shortfall s n \<le> swept" for swept cv2
    by (rule idle_delta_not_overflow) (use s2 offer that in \<open>auto simp: sweep_on_sub_vault_def saturating_sub_minus claim_shortfall_def\<close>)
  have "0 < claim_shortfall s n \<and> claim_shortfall s n \<le> sv_pending_claim_atoms s"
    using short offer unfolding claim_shortfall_def by linarith
  then show ?thesis using s2(1,3) frozen open_again refused_accrual_blocks by blast
qed

text \<open>A sub-vault of 1001 atoms lends 1000, gets them back, 600 of them swept before the close and the rest after it, and
  is offered in full again: the second loan of 1000 can be neither accrued nor closed.\<close>

definition lent_out :: global_vault where
  "lent_out = example_vault\<lparr>gv_sub_vaults := [(0, (sv_new_empty 1 5 8000 31536000)\<lparr>sv_total_principal_atoms := 1001,
     sv_total_assets_atoms := 1001, sv_total_shares := 1001, sv_last_accrue_unix := 10, sv_last_supply_share_value_fp48 := SCALE\<rparr>)]\<rparr>"

definition lent_and_returned :: "global_vault res" where
  "lent_and_returned =
     ebind (reserve_on_sub_vault lent_out 1 1000) (\<lambda>v1.
     ebind (on_sub_vault v1 1 (\<lambda>s. deploy_on_sub_vault s 10 SCALE 1000 500 0 0)) (\<lambda>v2.
     ebind (on_sub_vault v2 1 (\<lambda>s. Inr (sweep_on_sub_vault s 600))) (\<lambda>v3.
     ebind (on_sub_vault v3 1 (\<lambda>s. retire_on_sub_vault s 10 SCALE thousand_loan)) (\<lambda>v4.
     on_sub_vault v4 1 (\<lambda>s. Inr (sweep_on_sub_vault s 400))))))"

lemmas lent_eval = lent_out_def example_vault_def gv_new_empty_def reserve_on_sub_vault_def on_sub_vault_def sub_vault_index_def
  sub_vault_cmp_def cmp_nat_def get_sub_vault_def set_sub_vault_def tree_get_def tree_update_def NIL_def thousand_eval

lemma returned_vault:
  "lent_and_returned = Inr (lent_out\<lparr>gv_sub_vaults := [(0, (sv_new_empty 1 5 8000 31536000)\<lparr>sv_total_principal_atoms := 1001,
     sv_total_assets_atoms := 1001, sv_total_shares := 1001, sv_last_accrue_unix := 10, sv_last_supply_share_value_fp48 := SCALE,
     sv_pending_claim_atoms := 600\<rparr>)]\<rparr>)"
  by (simp add: lent_and_returned_def lent_eval cong: ebind_weak_cong)

lemma matching_lends_pending_claims_witness:
  "\<exists>v v1 v2 s2. lent_and_returned = Inr v \<and> reserve_on_sub_vault v 1 1000 = Inr v1 \<and>
     on_sub_vault v1 1 (\<lambda>s. deploy_on_sub_vault s 10 SCALE 1000 500 0 0) = Inr v2 \<and>
     get_sub_vault v2 (sub_vault_index v2 1) = Inr s2 \<and> accrue_sub_vault s2 40 SCALE = Inl ArithmeticOverflow \<and>
     \<not> is_ok (retire_on_sub_vault s2 40 SCALE thousand_loan)"
proof -
  let ?s = "(sv_new_empty 1 5 8000 31536000)\<lparr>sv_total_principal_atoms := 1001, sv_total_assets_atoms := 1001, sv_total_shares := 1001,
     sv_last_accrue_unix := 10, sv_last_supply_share_value_fp48 := SCALE, sv_pending_claim_atoms := 600\<rparr>"
  let ?v = "lent_out\<lparr>gv_sub_vaults := [(0, ?s)]\<rparr>"
  have ok: "vault_ok ?v"
    by (simp add: vault_ok_def lent_out_def example_vault_def gv_new_empty_def vault_blocks_def descending_def u32_lim_def sv_new_empty_def refs_of_def)
  have g: "get_sub_vault ?v (sub_vault_index ?v 1) = Inr ?s" "sv_wf ?s" by (simp_all add: lent_eval sv_wf_def)
  obtain t where t: "read_maker_terms ?v 1 = Inr t" "mt_idle t = 1000"
    using g(1) by (simp add: read_maker_terms_def Let_def lent_eval sub_vault_match_idle_def MARGINFI_ROUNDING_RESERVE_ATOMS_def saturating_sub_def)
  obtain v1 where r: "reserve_on_sub_vault ?v 1 1000 = Inr v1" by (simp add: lent_eval cong: ebind_weak_cong)
  obtain v2 where d: "on_sub_vault v1 1 (\<lambda>s. deploy_on_sub_vault s 10 SCALE 1000 500 0 0) = Inr v2"
    using r by (auto simp add: lent_eval cong: ebind_weak_cong)
  obtain s2 where s2: "get_sub_vault v2 (sub_vault_index v2 1) = Inr s2"
    and f: "\<forall>swept cv2 loan. swept < claim_shortfall ?s 1000 \<longrightarrow>
      accrue_sub_vault (sweep_on_sub_vault s2 swept) 40 cv2 = Inl ArithmeticOverflow \<and>
      \<not> is_ok (retire_on_sub_vault (sweep_on_sub_vault s2 swept) 40 cv2 loan)"
    using matching_lends_pending_claims[OF ok g t(1) _ _ r d, of 40] t(2) by (auto simp: lim_defs sv_new_empty_def)
  have "sweep_on_sub_vault s2 0 = s2" by (simp add: sweep_on_sub_vault_def saturating_sub_def)
  moreover have "0 < claim_shortfall ?s 1000" by (simp add: claim_shortfall_def sv_new_empty_def)
  ultimately have "accrue_sub_vault s2 40 SCALE = Inl ArithmeticOverflow \<and> \<not> is_ok (retire_on_sub_vault s2 40 SCALE thousand_loan)"
    using f by metis
  then show ?thesis using returned_vault r d s2 by blast
qed

text \<open>C38. A handover locks a private sub-vault. Its shares belong to the depositor, its exit to the curator: once the
  curatorship of a private sub-vault has moved, the old owner, who holds the shares, is refused as no longer the
  curator, and the new curator, who holds none, is refused for lack of a seat; no withdrawal of either succeeds,
  whatever the other accounts and the outcome of the calls.\<close>

theorem private_handover_locks_shares:
  assumes "vault_history ct v" "get_sub_vault v (sub_vault_index v k) = Inr s" "sv_kind s = SUB_VAULT_KIND_PRIVATE"
    and "process_transfer_curator (sv_curator s) k n v = Inr v1" "process_accept_curator n k v1 = Inr v2"
    and "n \<noteq> sv_curator s" "depositor_seat_index v n k = NIL" "vc_payer ctx = sv_curator s \<or> vc_payer ctx = n"
  shows "\<not> is_ok (process_global_vault_withdraw pg ctx gc shares k now v2 slot p) \<and>
    holding v2 (sv_curator s) k = holding v (sv_curator s) k"
proof -
  have ok: "vault_ok v" using vault_history_inv[OF assms(1)] by (simp add: vault_inv_def vault_inv_off_def)
  have v1: "v1 = set_sub_vault v (sub_vault_index v k) (s\<lparr>sv_pending_curator := n\<rparr>)"
    using assms(2,4) by (auto simp: process_transfer_curator_def on_sub_vault_def transfer_curator_on_def Let_def elim!: ebind_InrE)
  note w1 = write_sub_vault[OF ok assms(2) _ _ v1]
  have v2: "v2 = set_sub_vault v1 (sub_vault_index v1 k) (s\<lparr>sv_curator := n, sv_pending_curator := default_pubkey\<rparr>)"
    using assms(5) w1 by (auto simp: process_accept_curator_def on_sub_vault_def accept_curator_on_def Let_def elim!: ebind_InrE)
  have w2: "get_sub_vault v2 (sub_vault_index v2 k) = Inr (s\<lparr>sv_curator := n, sv_pending_curator := default_pubkey\<rparr>)"
    "gv_claimed_seats v2 = gv_claimed_seats v"
    using write_sub_vault[of v1 k "s\<lparr>sv_pending_curator := n\<rparr>" _ v2, OF _ _ _ _ v2] w1 by simp_all
  have "\<not> is_ok (process_global_vault_withdraw pg ctx gc shares k now v2 slot p)"
  proof (rule ccontr)
    assume "\<not> ?thesis"
    then obtain r where r: "process_global_vault_withdraw pg ctx gc shares k now v2 slot p = Inr r"
      by (auto simp: is_ok_def split: sum.splits)
    obtain b where "book_burn pg ctx shares k now v2 p = Inr b" "depositor_seat_index v2 (vc_payer ctx) k \<noteq> NIL"
      using r unfolding process_global_vault_withdraw_def Let_def by (auto simp: require_Inr elim!: ebind_InrE)
    then have "vc_payer ctx = n" "depositor_seat_index v2 n k \<noteq> NIL"
      using assms(3,6,8) w2(1) unfolding book_burn_def Let_def
      by (auto simp: may_use_sub_vault_def require_Inr elim!: ebind_InrE)
    then show False using assms(7) w2(2) by (simp add: depositor_seat_index_def)
  qed
  then show ?thesis using holding_frame[OF w2(2)] by simp
qed

lemma sample_handover:
  "\<exists>v1 v2. process_transfer_curator 7 1 9 deposited_vault = Inr v1 \<and> process_accept_curator 9 1 v1 = Inr v2"
  by (simp add: process_transfer_curator_def process_accept_curator_def on_sub_vault_def transfer_curator_on_def accept_curator_on_def
      deposited_vault_def vault_node_eval default_pubkey_def cong: ebind_weak_cong)

lemma private_handover_locks_shares_witness:
  "\<exists>v1 v2. process_transfer_curator 7 1 9 deposited_vault = Inr v1 \<and> process_accept_curator 9 1 v1 = Inr v2 \<and>
     \<not> is_ok (process_global_vault_withdraw sample_programs sample_vault_context (gc_new_empty 1) 400 1 10 v2 None sample_pool)"
proof -
  obtain v1 v2 where h: "process_transfer_curator 7 1 9 deposited_vault = Inr v1" "process_accept_curator 9 1 v1 = Inr v2"
    using sample_handover by blast
  obtain s where s: "get_sub_vault deposited_vault (sub_vault_index deposited_vault 1) = Inr s" "sv_kind s = SUB_VAULT_KIND_PRIVATE"
      "sv_curator s = 7"
    by (simp add: deposited_vault_def vault_node_eval SUB_VAULT_KIND_PRIVATE_def)
  have i: "depositor_seat_index deposited_vault 9 1 = NIL"
    by (simp add: depositor_seat_index_def deposited_vault_def vault_node_eval depositor_seat_cmp_def ds_probe_def)
  have "\<not> is_ok (process_global_vault_withdraw sample_programs sample_vault_context (gc_new_empty 1) 400 1 10 v2 None sample_pool) \<and>
      holding v2 (sv_curator s) 1 = holding deposited_vault (sv_curator s) 1"
    by (rule private_handover_locks_shares[OF deposited_vault_history s(1,2) _ h(2) _ i])
      (use h s in \<open>simp_all add: sample_vault_context_def\<close>)
  then show ?thesis using h by blast
qed

end
