(* ===== verification/Order_Instructions.thy ===== *)
theory Order_Instructions
  imports Vault_Funds Resting_Bids Orders Rate_Calc
begin

text \<open>The instructions on market seats and orders: claiming a seat, depositing and withdrawing
  (\<open>processor/claim_seat.rs\<close>, \<open>deposit.rs\<close>, \<open>withdraw.rs\<close>, \<open>sync_market_position.rs\<close>), the borrower's orders
  (\<open>place_order.rs\<close>, \<open>cancel_order.rs\<close>, \<open>update_order.rs\<close>), the sub-vault's asks
  (\<open>place_order_for_sub_vault.rs\<close>, \<open>cancel_order_for_sub_vault.rs\<close>, \<open>update_order_for_sub_vault.rs\<close>,
  \<open>admin_cancel_sub_vault_order.rs\<close>) and the permissionless crank (\<open>match_crank.rs\<close>), with the block allocation of
  \<open>shared.rs\<close>. Oracle prices and the outcome of calls to other programs are parameters; instruction bytes, logs,
  rent and the address checks of the loaders are left out.\<close>

section \<open>Blocks\<close>

definition expand_market_if_needed :: "market \<Rightarrow> market res" where
  "expand_market_if_needed m = (if mk_free_list m \<noteq> [] then Inr m else market_expand m)"

definition count_resting_asks :: "market \<Rightarrow> nat" where
  "count_resting_asks m = length (mk_asks m)"

definition count_market_free_blocks :: "market \<Rightarrow> nat" where
  "count_market_free_blocks m = length (mk_free_list m)"

lemma ebind_strong_cong [fundef_cong]:
  "x = y \<Longrightarrow> (\<And>v. y = Inr v \<Longrightarrow> f v = g v) \<Longrightarrow> ebind x f = ebind y g"
  by (cases y) auto

lemma market_expand_adds: "market_expand m = Inr m1 \<Longrightarrow> count_market_free_blocks m1 = count_market_free_blocks m + 1"
  by (auto simp: market_expand_def count_market_free_blocks_def stack_add_def elim!: ebind_InrE)

text \<open>The loop ends: every round adds one block to the free list.\<close>

function expand_market_to_free_blocks :: "market \<Rightarrow> nat \<Rightarrow> market res" where
  "expand_market_to_free_blocks m min_free_blocks =
     (if min_free_blocks \<le> count_market_free_blocks m then Inr m
      else ebind (market_expand m) (\<lambda>m1. expand_market_to_free_blocks m1 min_free_blocks))"
  by pat_completeness auto
termination
  by (relation "measure (\<lambda>(m, n). n - count_market_free_blocks m)") (auto dest: market_expand_adds)

declare expand_market_to_free_blocks.simps [simp del]

section \<open>Seats\<close>

definition process_claim_seat ::
  "global_config \<Rightarrow> pubkey \<Rightarrow> nat \<Rightarrow> pubkey \<Rightarrow> market \<Rightarrow> user_account option \<Rightarrow> (market \<times> user_account) res" where
  "process_claim_seat gc payer user_bump market_key m slot =
     ebind (require_global_not_paused gc) (\<lambda>_.
     ebind (require_market_not_paused m) (\<lambda>_.
     ebind (ensure_user_account_for_signer payer user_bump slot) (\<lambda>u.
     ebind (expand_market_if_needed m) (\<lambda>m1.
     ebind (claim_seat m1 payer OWNER_KIND_USER) (\<lambda>m2.
     let seat_index_in_market = seat_lookup m2 payer OWNER_KIND_USER 0 in
     ebind (upsert_market_position u market_key seat_index_in_market) (\<lambda>(u', idx).
     Inr (m2, u')))))))"

definition process_sync_market_position ::
  "global_config \<Rightarrow> pubkey \<Rightarrow> market \<Rightarrow> user_account option \<Rightarrow> pubkey \<Rightarrow> user_account res" where
  "process_sync_market_position gc market_key m slot owner =
     ebind (require_global_not_paused gc) (\<lambda>_.
     ebind (ok_or slot (Custom IncorrectAccount)) (\<lambda>u.
     sync_signer_market_position m market_key u owner))"

record seat_context =
  sc_payer :: pubkey
  sc_user_bump :: nat
  sc_market_key :: pubkey
  sc_trader_token :: pubkey
  sc_vault :: pubkey
  sc_is_debt :: bool
  sc_group :: pubkey
  sc_marginfi_account :: pubkey
  sc_bank :: pubkey
  sc_liquidity_vault :: pubkey
  sc_liquidity_vault_authority :: pubkey
  sc_debt_bank :: pubkey
  sc_collateral_bank :: pubkey
  sc_debt_oracles :: "pubkey list"
  sc_collateral_oracles :: "pubkey list"
  sc_market_signer :: pubkey
  sc_token_program :: pubkey
  sc_marginfi_program :: pubkey

definition seat_deposit_accounts :: "seat_context \<Rightarrow> pubkey list" where
  "seat_deposit_accounts ctx =
     [sc_group ctx, sc_marginfi_account ctx, sc_market_signer ctx, sc_bank ctx, sc_vault ctx, sc_liquidity_vault ctx,
      sc_token_program ctx, sc_marginfi_program ctx]"

definition process_deposit ::
  "programs \<Rightarrow> seat_context \<Rightarrow> global_config \<Rightarrow> nat \<Rightarrow> data_index option \<Rightarrow> market \<Rightarrow> user_account option \<Rightarrow> pool \<Rightarrow>
   (market \<times> user_account \<times> pool) res" where
  "process_deposit pg ctx gc amount_atoms trader_index_hint m slot p =
     ebind (require (0 < amount_atoms) (Custom InvalidDepositAccounts)) (\<lambda>_.
     ebind (require_global_not_paused gc) (\<lambda>_.
     ebind (require_market_not_paused m) (\<lambda>_.
     ebind (ensure_user_account_for_signer (sc_payer ctx) (sc_user_bump ctx) slot) (\<lambda>u.
     ebind (require (\<not> sc_is_debt ctx) (Custom InvalidDepositAccounts)) (\<lambda>_.
     let vault_before_atoms = tk_amount (pl_tokens p (sc_vault ctx)) in
     ebind (pg_transfer pg (sc_trader_token ctx) (sc_vault ctx) amount_atoms p) (\<lambda>p1.
     ebind (ok_or (checked_sub (tk_amount (pl_tokens p1 (sc_vault ctx))) vault_before_atoms) ArithmeticOverflow) (\<lambda>received_atoms.
     ebind (require (0 < received_atoms) (Custom InvalidDepositAccounts)) (\<lambda>_.
     ebind (adapter_deposit pg (seat_deposit_accounts ctx) received_atoms p1) (\<lambda>(p2, credited_shares).
     ebind (get_seat_index_with_hint m (sc_payer ctx) trader_index_hint) (\<lambda>seat_index.
     ebind (deposit_to_seat m seat_index credited_shares (sc_is_debt ctx)) (\<lambda>m1.
     ebind (sync_signer_market_position m1 (sc_market_key ctx) u (sc_payer ctx)) (\<lambda>u'.
     Inr (m1, u', p2)))))))))))))"

text \<open>The bank and oracle accounts marginfi wants, in the order of the active balances of the market's account; that
  order is marginfi's, so the list of active banks is an argument.\<close>

fun build_active_bank_oracle_pairs :: "seat_context \<Rightarrow> pubkey list \<Rightarrow> pubkey list res" where
  "build_active_bank_oracle_pairs ctx [] = Inr []"
| "build_active_bank_oracle_pairs ctx (b # bs) =
     (if b = sc_debt_bank ctx then
        ebind (build_active_bank_oracle_pairs ctx bs) (\<lambda>pairs. Inr (sc_debt_bank ctx # sc_debt_oracles ctx @ pairs))
      else if b = sc_collateral_bank ctx then
        ebind (build_active_bank_oracle_pairs ctx bs) (\<lambda>pairs. Inr (sc_collateral_bank ctx # sc_collateral_oracles ctx @ pairs))
      else Inl (Custom IncorrectAccount))"

definition seat_withdraw_accounts :: "seat_context \<Rightarrow> pubkey list \<Rightarrow> pubkey list" where
  "seat_withdraw_accounts ctx active_pairs =
     [sc_group ctx, sc_marginfi_account ctx, sc_market_signer ctx, sc_bank ctx, sc_vault ctx,
      sc_liquidity_vault_authority ctx, sc_liquidity_vault ctx, sc_token_program ctx, sc_marginfi_program ctx] @ active_pairs"

text \<open>How many shares the seat gives up and how many are asked of marginfi.\<close>

definition size_withdrawal ::
  "programs \<Rightarrow> seat_context \<Rightarrow> nat \<Rightarrow> bool \<Rightarrow> nat \<Rightarrow> pool \<Rightarrow> (nat \<times> nat) res" where
  "size_withdrawal pg ctx amount_atoms withdraw_all seat_withdrawable_shares p =
     ebind (if withdraw_all then Inr seat_withdrawable_shares
            else
              ebind (amount_to_asset_shares pg p (sc_bank ctx) amount_atoms) (\<lambda>req.
              ebind (require (req \<le> seat_withdrawable_shares) (Custom InsufficientWithdrawableBalance)) (\<lambda>_.
              Inr req))) (\<lambda>raw_expected_shares.
     ebind (read_asset_shares_u128 p (sc_marginfi_account ctx) (sc_bank ctx)) (\<lambda>marginfi_asset_shares.
     let expected_shares = min raw_expected_shares marginfi_asset_shares in
     ebind (require (0 < expected_shares) (Custom InsufficientWithdrawableBalance)) (\<lambda>_.
     Inr (expected_shares, if withdraw_all then seat_withdrawable_shares else expected_shares))))"

definition process_withdraw ::
  "programs \<Rightarrow> seat_context \<Rightarrow> global_config \<Rightarrow> nat \<Rightarrow> data_index option \<Rightarrow> bool \<Rightarrow> pubkey list \<Rightarrow> market \<Rightarrow>
   user_account option \<Rightarrow> pool \<Rightarrow> (market \<times> user_account \<times> pool) res" where
  "process_withdraw pg ctx gc amount_atoms trader_index_hint withdraw_all active_banks m slot p =
     ebind (require (withdraw_all \<or> 0 < amount_atoms) (Custom InvalidWithdrawAccounts)) (\<lambda>_.
     ebind (require_global_not_paused gc) (\<lambda>_.
     ebind (require_market_not_paused m) (\<lambda>_.
     ebind (ensure_user_account_for_signer (sc_payer ctx) (sc_user_bump ctx) slot) (\<lambda>u.
     ebind (get_seat_index_with_hint m (sc_payer ctx) trader_index_hint) (\<lambda>seat_index.
     ebind (withdrawable_shares_for_seat m seat_index (sc_is_debt ctx)) (\<lambda>seat_withdrawable_shares.
     ebind (size_withdrawal pg ctx amount_atoms withdraw_all seat_withdrawable_shares p) (\<lambda>(expected_shares, seat_burn_shares).
     ebind (shares_to_amount pg p (sc_bank ctx) expected_shares) (\<lambda>expected_atoms.
     ebind (withdraw_from_seat m seat_index seat_burn_shares (sc_is_debt ctx)) (\<lambda>m1.
     ebind (build_active_bank_oracle_pairs ctx active_banks) (\<lambda>active_pairs.
     ebind (adapter_withdraw pg (seat_withdraw_accounts ctx active_pairs) expected_shares p) (\<lambda>(p1, actual_atoms, shares_burned).
     ebind (pg_transfer pg (sc_vault ctx) (sc_trader_token ctx) (min actual_atoms expected_atoms) p1) (\<lambda>p2.
     ebind (sync_signer_market_position m1 (sc_market_key ctx) u (sc_payer ctx)) (\<lambda>u'.
     Inr (m1, u', p2))))))))))))))"

section \<open>The borrower's orders\<close>

record order_context =
  oc_payer :: pubkey
  oc_user_bump :: nat
  oc_market_key :: pubkey
  oc_borrower_account :: pubkey
  oc_lender_account :: pubkey
  oc_market_debt_vault :: pubkey
  oc_debt_bank :: pubkey
  oc_collateral_bank :: pubkey

record place_order_params =
  pp_seat_index_hint :: "data_index option"
  pp_residual_mode :: nat
  pp_last_valid_unix_ts :: int
  pp_rate_bps :: nat
  pp_term_seconds :: nat
  pp_principal_atoms :: nat
  pp_collateral_atoms :: nat
  pp_ltv_buffer_bps :: nat

definition read_debt_bank_liability_shares :: "pool \<Rightarrow> pubkey \<Rightarrow> pubkey \<Rightarrow> nat res" where
  "read_debt_bank_liability_shares p marginfi_account debt_bank =
     (if mf_layout_ok (pl_accounts p marginfi_account) then
        (case mf_balances (pl_accounts p marginfi_account) debt_bank of
           Some b \<Rightarrow> wrapped_i80f48_to_u128 (bl_liability_shares b)
         | None \<Rightarrow> Inr 0)
      else Inl (Custom IncorrectAccount))"

definition read_debt_bank_asset_shares :: "pool \<Rightarrow> pubkey \<Rightarrow> pubkey \<Rightarrow> nat res" where
  "read_debt_bank_asset_shares p marginfi_account debt_bank =
     (if mf_layout_ok (pl_accounts p marginfi_account) then
        (case mf_balances (pl_accounts p marginfi_account) debt_bank of
           Some b \<Rightarrow> wrapped_i80f48_to_u128 (bl_asset_shares b)
         | None \<Rightarrow> Inr 0)
      else Inl (Custom IncorrectAccount))"

text \<open>The readings an order is matched on: bank data, the oracle prices and the live lending rate.\<close>

definition order_args_of ::
  "programs \<Rightarrow> order_context \<Rightarrow> fp48 res \<Rightarrow> fp48 res \<Rightarrow> raw_rate_bank \<Rightarrow> raw_group \<Rightarrow> place_order_params \<Rightarrow> int \<Rightarrow> pool \<Rightarrow>
   (data_index \<Rightarrow> place_order_args) res" where
  "order_args_of pg ctx debt_price collateral_price rb rg params now p =
     ebind (read_bank_asset_share_value_fp48 p (oc_collateral_bank ctx)) (\<lambda>snapshot_fp48.
     ebind debt_price (\<lambda>debt_oracle_price_fp48.
     ebind collateral_price (\<lambda>collateral_oracle_price_fp48.
     ebind (init_weight pg p (oc_debt_bank ctx)) (\<lambda>(debt_asset_init, debt_liability_weight_init).
     ebind (init_weight pg p (oc_collateral_bank ctx)) (\<lambda>(collateral_asset_weight_init, coll_liab_init).
     ebind (current_lending_apr_bps_ceil (pg_marginfi pg) rb rg) (\<lambda>ask_floor_rate_bps.
     ebind (require (pp_ltv_buffer_bps params \<le> 10000) (Custom InvalidArgument)) (\<lambda>_.
     Inr (\<lambda>seat_index.
       \<lparr> po_market_pubkey = oc_market_key ctx, po_taker_seat_index = seat_index, po_side = Bid,
         po_order_type = ImmediateOrCancel, po_rate_bps = pp_rate_bps params, po_term_seconds = pp_term_seconds params,
         po_principal_atoms = pp_principal_atoms params, po_collateral_atoms = pp_collateral_atoms params,
         po_residual_mode = pp_residual_mode params, po_last_valid_unix_ts = pp_last_valid_unix_ts params,
         po_now_unix_ts = now, po_share_price_snapshot_fp48 = snapshot_fp48,
         po_debt_oracle_price_fp48 = debt_oracle_price_fp48, po_collateral_oracle_price_fp48 = collateral_oracle_price_fp48,
         po_debt_liability_weight_init_fp48 = debt_liability_weight_init,
         po_collateral_asset_weight_init_fp48 = collateral_asset_weight_init,
         po_ask_floor_rate_bps = ask_floor_rate_bps, po_ltv_buffer_bps = pp_ltv_buffer_bps params \<rparr>))))))))"

text \<open>The variable-rate tail: the residual is borrowed from marginfi, deposited on the lender account and credited to
  the borrower's seat as debt tokens; the queue node records the liability shares it opened.\<close>

definition borrow_p2pool_tail ::
  "programs \<Rightarrow> order_context \<Rightarrow> data_index option \<Rightarrow> data_index \<Rightarrow> nat \<Rightarrow> nat \<Rightarrow> market \<Rightarrow> pool \<Rightarrow> (market \<times> pool) res" where
  "borrow_p2pool_tail pg ctx seat_index_hint p2pool_loan_index amount pre_borrow_liability_shares m p =
     ebind (pg_borrow pg (oc_borrower_account ctx) (oc_debt_bank ctx) (oc_market_debt_vault ctx) amount p) (\<lambda>p1.
     ebind (read_debt_bank_liability_shares p1 (oc_borrower_account ctx) (oc_debt_bank ctx)) (\<lambda>post_borrow_liability_shares.
     ebind (ok_or (checked_sub post_borrow_liability_shares pre_borrow_liability_shares) (Custom IncorrectAccount)) (\<lambda>opened.
     ebind (read_debt_bank_asset_shares p1 (oc_lender_account ctx) (oc_debt_bank ctx)) (\<lambda>pre_deposit_shares.
     ebind (pg_deposit pg (oc_lender_account ctx) (oc_debt_bank ctx) (oc_market_debt_vault ctx) amount p1) (\<lambda>p2.
     ebind (read_debt_bank_asset_shares p2 (oc_lender_account ctx) (oc_debt_bank ctx)) (\<lambda>post_deposit_shares.
     ebind (ok_or (checked_sub post_deposit_shares pre_deposit_shares) (Custom IncorrectAccount)) (\<lambda>credited.
     ebind (if 0 < credited then
              ebind (get_seat_index_with_hint m (oc_payer ctx) seat_index_hint) (\<lambda>borrower_seat_index.
              deposit_to_seat m borrower_seat_index credited True)
            else Inr m) (\<lambda>m1.
     ebind (get_helper_matched_loan m1 p2pool_loan_index) (\<lambda>node.
     Inr (m1\<lparr>mk_matched_loans := tree_update p2pool_loan_index
            (\<lambda>_. node\<lparr>ml_borrower_marginfi_borrow_shares := opened\<rparr>) (mk_matched_loans m1)\<rparr>, p2))))))))))"

definition record_rested_bid ::
  "order_context \<Rightarrow> place_order_params \<Rightarrow> int \<Rightarrow> place_order_result \<Rightarrow> user_account \<Rightarrow> user_account res" where
  "record_rested_bid ctx params now result u =
     ebind (if ua_has_free_block u then Inr u else user_account_expand u) (\<lambda>u1.
     ebind (insert_user_order u1 (oc_market_key ctx) (pr_sequence result) (side_u8 Bid) (pp_rate_bps params)
              (pp_term_seconds params) (mr_remaining_principal (pr_match_result result)) now) (\<lambda>(u2, idx).
     Inr u2))"

definition process_place_order ::
  "programs \<Rightarrow> order_context \<Rightarrow> global_config \<Rightarrow> fp48 res \<Rightarrow> fp48 res \<Rightarrow> raw_rate_bank \<Rightarrow> raw_group \<Rightarrow> place_order_params \<Rightarrow> int \<Rightarrow>
   market \<Rightarrow> global_vault option \<Rightarrow> user_account option \<Rightarrow> pool \<Rightarrow> (market \<times> global_vault option \<times> user_account \<times> pool) res" where
  "process_place_order pg ctx gc debt_price collateral_price rb rg params now m vault slot p =
     ebind (require_global_not_paused gc) (\<lambda>_.
     ebind (require_market_not_paused m) (\<lambda>_.
     ebind (ensure_user_account_for_signer (oc_payer ctx) (oc_user_bump ctx) slot) (\<lambda>u.
     ebind (case vault of None \<Rightarrow> Inr () | Some v \<Rightarrow> require_vault_not_paused v) (\<lambda>_.
     ebind (expand_market_if_needed m) (\<lambda>m1.
     ebind (order_args_of pg ctx debt_price collateral_price rb rg params now p) (\<lambda>args.
     ebind (read_debt_bank_liability_shares p (oc_borrower_account ctx) (oc_debt_bank ctx)) (\<lambda>pre_borrow_liability_shares.
     ebind (expand_market_to_free_blocks m1 (count_resting_asks m1 + 1)) (\<lambda>m2.
     ebind (get_seat_index_with_hint m2 (oc_payer ctx) (pp_seat_index_hint params)) (\<lambda>seat_index.
     ebind (match_borrower_bid m2 (args seat_index) vault) (\<lambda>(m3, vault', result).
     let residual = mr_remaining_principal (pr_match_result result) in
     ebind (if pr_p2pool_loan_index result \<noteq> NIL \<and> 0 < residual
            then borrow_p2pool_tail pg ctx (pp_seat_index_hint params) (pr_p2pool_loan_index result) residual
                   pre_borrow_liability_shares m3 p
            else Inr (m3, p)) (\<lambda>(m4, p1).
     ebind (if pr_rested result then record_rested_bid ctx params now result u else Inr u) (\<lambda>u1.
     ebind (sync_signer_market_position m4 (oc_market_key ctx) u1 (oc_payer ctx)) (\<lambda>u2.
     Inr (m4, vault', u2, p1))))))))))))))"

definition find_user_bid :: "market \<Rightarrow> pubkey \<Rightarrow> data_index option \<Rightarrow> nat \<Rightarrow> (data_index \<times> data_index \<times> resting_order) res" where
  "find_user_bid m payer seat_index_hint order_sequence =
     ebind (get_seat_index_with_hint m payer seat_index_hint) (\<lambda>seat_index.
     ebind (lookup_order_by_seq m seat_index order_sequence None) (\<lambda>order_index.
     ebind (get_helper_order m order_index) (\<lambda>order.
     ebind (require (ro_side order = side_u8 Bid) (Custom IncorrectAccount)) (\<lambda>_.
     Inr (seat_index, order_index, order)))))"

definition process_cancel_order ::
  "global_config \<Rightarrow> pubkey \<Rightarrow> pubkey \<Rightarrow> nat \<Rightarrow> data_index option \<Rightarrow> market \<Rightarrow> user_account \<Rightarrow> (market \<times> user_account) res" where
  "process_cancel_order gc payer market_key order_sequence seat_index_hint m u =
     ebind (require_global_not_paused gc) (\<lambda>_.
     ebind (require_market_not_paused m) (\<lambda>_.
     ebind (find_user_bid m payer seat_index_hint order_sequence) (\<lambda>(seat_index, order_index, order).
     ebind (cancel_order_by_index m seat_index order_index) (\<lambda>m1.
     ebind (remove_user_order u market_key order_sequence) (\<lambda>(u1, freed).
     ebind (sync_signer_market_position m1 market_key u1 payer) (\<lambda>u2.
     Inr (m1, u2)))))))"

record update_order_params =
  uq_order_sequence :: nat
  uq_seat_index_hint :: "data_index option"
  uq_new_rate_bps :: nat
  uq_new_term_seconds :: nat
  uq_new_last_valid_unix_ts :: int
  uq_new_ltv_buffer_bps :: nat

definition process_update_order ::
  "global_config \<Rightarrow> pubkey \<Rightarrow> pubkey \<Rightarrow> update_order_params \<Rightarrow> int \<Rightarrow> market \<Rightarrow> user_account \<Rightarrow> (market \<times> user_account) res" where
  "process_update_order gc payer market_key params now m u =
     ebind (require (uq_new_ltv_buffer_bps params \<le> 10000) (Custom InvalidArgument)) (\<lambda>_.
     ebind (require_global_not_paused gc) (\<lambda>_.
     ebind (require_market_not_paused m) (\<lambda>_.
     ebind (find_user_bid m payer (uq_seat_index_hint params) (uq_order_sequence params)) (\<lambda>(seat_index, order_index, order).
     ebind (update_user_bid m seat_index order_index (uq_new_rate_bps params) (uq_new_term_seconds params)
              (uq_new_last_valid_unix_ts params) (uq_new_ltv_buffer_bps params) now) (\<lambda>(m1, new_sequence).
     ebind (remove_user_order u market_key (uq_order_sequence params)) (\<lambda>(u1, freed).
     ebind (insert_user_order u1 market_key new_sequence (side_u8 Bid) (uq_new_rate_bps params) (uq_new_term_seconds params)
              (ro_principal_atoms order) now) (\<lambda>(u2, idx).
     ebind (sync_signer_market_position m1 market_key u2 payer) (\<lambda>u3.
     Inr (m1, u3)))))))))"

section \<open>The asks of a sub-vault\<close>

record ask_context =
  ak_curator :: pubkey
  ak_vault_key :: pubkey
  ak_market_key :: pubkey
  ak_debt_bank :: pubkey

definition find_sub_vault :: "global_vault \<Rightarrow> nat \<Rightarrow> sub_vault res" where
  "find_sub_vault v sub_vault_id =
     (let idx = sub_vault_index v sub_vault_id in
      ebind (require (idx \<noteq> NIL) (Custom SubVaultNotFound)) (\<lambda>_. get_sub_vault v idx))"

definition order_ref_sequence :: "global_vault \<Rightarrow> pubkey \<Rightarrow> nat \<Rightarrow> nat res" where
  "order_ref_sequence v market_key sub_vault_id =
     (let order_idx = tree_lookup order_ref_cmp (or_probe market_key sub_vault_id) (gv_market_orders v) in
      ebind (require (order_idx \<noteq> NIL) (Custom InvalidArgument)) (\<lambda>_.
      ebind (ok_or (tree_get (gv_market_orders v) order_idx) Panic) (\<lambda>r. Inr (or_order_sequence_in_market r))))"

definition quoted_rate :: "programs \<Rightarrow> raw_rate_bank \<Rightarrow> raw_group \<Rightarrow> sub_vault \<Rightarrow> nat res" where
  "quoted_rate pg rb rg s =
     ebind (current_lending_apr_bps_ceil (pg_marginfi pg) rb rg) (\<lambda>bank_apr_bps.
     ok_or (checked_add u16_lim bank_apr_bps (sv_spread_bps s)) (Custom MathOverflow))"

text \<open>The pass over the resting bids with one ask of the sub-vault whose policy is \<open>s\<close>.\<close>

definition take_resting_bids ::
  "ask_context \<Rightarrow> fp48 res \<Rightarrow> fp48 res \<Rightarrow> data_index \<Rightarrow> nat \<Rightarrow> nat \<Rightarrow> nat \<Rightarrow> sub_vault \<Rightarrow> int \<Rightarrow> nat \<Rightarrow> pool \<Rightarrow>
   market \<Rightarrow> global_vault \<Rightarrow> (market \<times> global_vault \<times> match_resting_bids_result) res" where
  "take_resting_bids ctx debt_price collateral_price ask_seat_index ask_sub_vault_id ask_rate_bps ask_term_seconds s now max_fills p m v =
     (let bids_count = count_resting_bids m in
      if bids_count = 0 then Inr (m, v, \<lparr> rr_total_filled_principal = 0, rr_num_fills = 0, rr_num_pruned = 0 \<rparr>)
      else
        ebind (expand_market_to_free_blocks m bids_count) (\<lambda>m1.
        ebind debt_price (\<lambda>debt_oracle_price_fp48.
        ebind collateral_price (\<lambda>collateral_oracle_price_fp48.
        ebind (read_bank_asset_share_value_fp48 p (ak_debt_bank ctx)) (\<lambda>lender_debt_snapshot_fp48.
        match_resting_bids m1
          \<lparr> rb_market_pubkey = ak_market_key ctx, rb_ask_seat_index = ask_seat_index, rb_ask_sub_vault_id = ask_sub_vault_id,
            rb_ask_rate_bps = ask_rate_bps, rb_ask_term_seconds = ask_term_seconds,
            rb_ask_curator_fee_bps = sv_curator_fee_bps s, rb_sub_vault_max_ltv_bps = sv_max_ltv_bps s,
            rb_sub_vault_liquidation_ltv_bps = sv_liquidation_ltv_bps s, rb_ask_curator = sv_curator s,
            rb_fee_floor_bps = fc_protocol_fee_bps_floor (mk_fee_config m), rb_origination_bps = fc_origination_bps (mk_fee_config m),
            rb_now_unix_ts = now, rb_lender_debt_share_price_snapshot_fp48 = lender_debt_snapshot_fp48,
            rb_debt_oracle_price_fp48 = debt_oracle_price_fp48, rb_collateral_oracle_price_fp48 = collateral_oracle_price_fp48,
            rb_debt_mint_decimals = mk_debt_mint_decimals m, rb_collateral_mint_decimals = mk_collateral_mint_decimals m,
            rb_max_fills = max_fills \<rparr> v)))))"

definition ask_guards :: "global_config \<Rightarrow> global_vault \<Rightarrow> market \<Rightarrow> unit res" where
  "ask_guards gc v m =
     ebind (require_global_not_paused gc) (\<lambda>_.
     ebind (require_vault_not_paused v) (\<lambda>_.
     ebind (require_market_not_paused m) (\<lambda>_.
     require_vault_mint_matches_market v m)))"

text \<open>The sub-vault's seat on the market, claimed with its first ask.\<close>

definition seat_for_ask :: "ask_context \<Rightarrow> nat \<Rightarrow> market \<Rightarrow> (market \<times> data_index) res" where
  "seat_for_ask ctx sub_vault_id m =
     (let idx = seat_lookup m (ak_vault_key ctx) OWNER_KIND_SUB_VAULT sub_vault_id;
          seat_exists = (idx \<noteq> NIL) in
      ebind (expand_market_to_free_blocks m (if seat_exists then 1 else 2)) (\<lambda>m1.
      if seat_exists then Inr (m1, seat_lookup m1 (ak_vault_key ctx) OWNER_KIND_SUB_VAULT sub_vault_id)
      else
        ebind (claim_seat_with_sub_vault m1 (ak_vault_key ctx) OWNER_KIND_SUB_VAULT sub_vault_id) (\<lambda>m2.
        let seat_idx = seat_lookup m2 (ak_vault_key ctx) OWNER_KIND_SUB_VAULT sub_vault_id in
        ebind (require (seat_idx \<noteq> NIL) (Custom IncorrectAccount)) (\<lambda>_. Inr (m2, seat_idx)))))"

definition ask_args :: "ask_context \<Rightarrow> data_index \<Rightarrow> nat \<Rightarrow> nat \<Rightarrow> nat \<Rightarrow> int \<Rightarrow> rest_vault_ask_args" where
  "ask_args ctx seat_index rate_bps term_seconds flags now =
     \<lparr> rv_market_pubkey = ak_market_key ctx, rv_maker_seat_index = seat_index, rv_rate_bps = rate_bps,
       rv_term_seconds = term_seconds, rv_flags = flags, rv_now_unix_ts = now \<rparr>"

definition process_place_order_for_sub_vault ::
  "programs \<Rightarrow> ask_context \<Rightarrow> global_config \<Rightarrow> fp48 res \<Rightarrow> fp48 res \<Rightarrow> raw_rate_bank \<Rightarrow> raw_group \<Rightarrow> nat \<Rightarrow> nat \<Rightarrow> int \<Rightarrow>
   pool \<Rightarrow> market \<Rightarrow> global_vault \<Rightarrow> (market \<times> global_vault) res" where
  "process_place_order_for_sub_vault pg ctx gc debt_price collateral_price rb rg sub_vault_id flags now p m v =
     ebind (ask_guards gc v m) (\<lambda>_.
     ebind (find_sub_vault v sub_vault_id) (\<lambda>s.
     ebind (require (sv_is_sunset s = 0) (Custom SubVaultSunset)) (\<lambda>_.
     ebind (require (ak_curator ctx = sv_curator s) (Custom VaultCuratorRequired)) (\<lambda>_.
     ebind (quoted_rate pg rb rg s) (\<lambda>rate_bps.
     ebind (seat_for_ask ctx sub_vault_id m) (\<lambda>(m1, seat_index).
     ebind (rest_vault_ask m1 (ask_args ctx seat_index rate_bps (sv_max_term_seconds s) flags now)) (\<lambda>(m2, order_sequence).
     let seat_idx = seat_lookup m2 (ak_vault_key ctx) OWNER_KIND_SUB_VAULT sub_vault_id in
     ebind (take_resting_bids ctx debt_price collateral_price seat_idx sub_vault_id rate_bps (sv_max_term_seconds s) s now
              (u32_lim - 1) p m2 v) (\<lambda>(m3, v1, taken).
     ebind (if has_free_node_block v1 then Inr v1 else vault_expand_node_block v1) (\<lambda>v2.
     ebind (insert_sub_vault_order_ref v2 (ak_market_key ctx) sub_vault_id (side_u8 Ask) rate_bps (sv_max_term_seconds s)
              order_sequence now) (\<lambda>(v3, idx).
     Inr (m3, v3)))))))))))"

text \<open>Taking the ask off the market and its reference off the vault.\<close>

definition withdraw_ask :: "ask_context \<Rightarrow> nat \<Rightarrow> nat \<Rightarrow> market \<Rightarrow> global_vault \<Rightarrow> (market \<times> global_vault) res" where
  "withdraw_ask ctx sub_vault_id order_sequence m v =
     (let idx = seat_lookup m (ak_vault_key ctx) OWNER_KIND_SUB_VAULT sub_vault_id in
      ebind (require (idx \<noteq> NIL) (Custom IncorrectAccount)) (\<lambda>_.
      ebind (lookup_order_by_seq m idx order_sequence None) (\<lambda>order_index_in_market.
      ebind (cancel_order_by_index m idx order_index_in_market) (\<lambda>m1.
      ebind (remove_sub_vault_order_ref v (ak_market_key ctx) sub_vault_id) (\<lambda>(v1, removed_idx).
      ebind (require (removed_idx \<noteq> NIL) (Custom InvalidArgument)) (\<lambda>_.
      Inr (m1, v1)))))))"

definition process_cancel_order_for_sub_vault ::
  "ask_context \<Rightarrow> global_config \<Rightarrow> nat \<Rightarrow> market \<Rightarrow> global_vault \<Rightarrow> (market \<times> global_vault) res" where
  "process_cancel_order_for_sub_vault ctx gc sub_vault_id m v =
     ebind (ask_guards gc v m) (\<lambda>_.
     ebind (find_sub_vault v sub_vault_id) (\<lambda>s.
     ebind (require (ak_curator ctx = sv_curator s) (Custom VaultCuratorRequired)) (\<lambda>_.
     ebind (order_ref_sequence v (ak_market_key ctx) sub_vault_id) (\<lambda>order_sequence.
     withdraw_ask ctx sub_vault_id order_sequence m v))))"

text \<open>The vault's admin may do the same for a sunset sub-vault, even while the protocol is paused.\<close>

definition process_admin_cancel_sub_vault_order ::
  "pubkey \<Rightarrow> ask_context \<Rightarrow> nat \<Rightarrow> market \<Rightarrow> global_vault \<Rightarrow> (market \<times> global_vault) res" where
  "process_admin_cancel_sub_vault_order payer ctx sub_vault_id m v =
     ebind (require (payer = gv_global_vault_admin v) (Custom VaultAdminRequired)) (\<lambda>_.
     ebind (require_vault_mint_matches_market v m) (\<lambda>_.
     ebind (find_sub_vault v sub_vault_id) (\<lambda>s.
     ebind (require (sv_is_sunset s \<noteq> 0) (Custom SubVaultNotSunset)) (\<lambda>_.
     ebind (order_ref_sequence v (ak_market_key ctx) sub_vault_id) (\<lambda>order_sequence.
     withdraw_ask ctx sub_vault_id order_sequence m v)))))"

definition process_update_order_for_sub_vault ::
  "programs \<Rightarrow> ask_context \<Rightarrow> global_config \<Rightarrow> fp48 res \<Rightarrow> fp48 res \<Rightarrow> raw_rate_bank \<Rightarrow> raw_group \<Rightarrow> nat \<Rightarrow> nat \<Rightarrow> int \<Rightarrow>
   pool \<Rightarrow> market \<Rightarrow> global_vault \<Rightarrow> (market \<times> global_vault) res" where
  "process_update_order_for_sub_vault pg ctx gc debt_price collateral_price rb rg sub_vault_id new_flags now p m v =
     ebind (ask_guards gc v m) (\<lambda>_.
     ebind (find_sub_vault v sub_vault_id) (\<lambda>s.
     ebind (require (sv_is_sunset s = 0) (Custom SubVaultSunset)) (\<lambda>_.
     ebind (require (ak_curator ctx = sv_curator s) (Custom VaultCuratorRequired)) (\<lambda>_.
     ebind (order_ref_sequence v (ak_market_key ctx) sub_vault_id) (\<lambda>old_order_sequence.
     ebind (quoted_rate pg rb rg s) (\<lambda>new_rate_bps.
     let seat_idx = seat_lookup m (ak_vault_key ctx) OWNER_KIND_SUB_VAULT sub_vault_id in
     ebind (require (seat_idx \<noteq> NIL) (Custom IncorrectAccount)) (\<lambda>_.
     ebind (expand_market_if_needed m) (\<lambda>m1.
     ebind (lookup_order_by_seq m1 seat_idx old_order_sequence None) (\<lambda>order_index_in_market.
     ebind (cancel_order_by_index m1 seat_idx order_index_in_market) (\<lambda>m2.
     ebind (rest_vault_ask m2 (ask_args ctx seat_idx new_rate_bps (sv_max_term_seconds s) new_flags now)) (\<lambda>(m3, new_order_sequence).
     ebind (remove_sub_vault_order_ref v (ak_market_key ctx) sub_vault_id) (\<lambda>(v1, removed_idx).
     ebind (if has_free_node_block v1 then Inr v1 else vault_expand_node_block v1) (\<lambda>v2.
     ebind (insert_sub_vault_order_ref v2 (ak_market_key ctx) sub_vault_id (side_u8 Ask) new_rate_bps (sv_max_term_seconds s)
              new_order_sequence now) (\<lambda>(v3, idx).
     ebind (take_resting_bids ctx debt_price collateral_price seat_idx sub_vault_id new_rate_bps (sv_max_term_seconds s) s now
              (u32_lim - 1) p m3 v3) (\<lambda>(m4, v4, taken).
     Inr (m4, v4))))))))))))))))"

section \<open>The crank\<close>

record ask_snapshot =
  as_seat_index :: data_index
  as_sub_vault_id :: nat
  as_rate_bps :: nat
  as_term_seconds :: nat

fun snapshot_asks :: "market \<Rightarrow> resting_order list \<Rightarrow> ask_snapshot list res" where
  "snapshot_asks m [] = Inr []"
| "snapshot_asks m (o1 # os) =
     ebind (get_helper_seat m (ro_trader_seat_index o1)) (\<lambda>seat.
     ebind (snapshot_asks m os) (\<lambda>rest.
     Inr (\<lparr> as_seat_index = ro_trader_seat_index o1, as_sub_vault_id = cs_sub_vault_id seat,
            as_rate_bps = ro_rate_bps o1, as_term_seconds = ro_term_seconds o1 \<rparr> # rest)))"

fun crank_asks ::
  "ask_context \<Rightarrow> fp48 res \<Rightarrow> fp48 res \<Rightarrow> nat \<Rightarrow> int \<Rightarrow> pool \<Rightarrow> ask_snapshot list \<Rightarrow> nat \<Rightarrow> nat \<Rightarrow> market \<Rightarrow> global_vault \<Rightarrow>
   (market \<times> global_vault \<times> nat) res" where
  "crank_asks ctx debt_price collateral_price floor_bps now p [] budget total_fills m v = Inr (m, v, total_fills)"
| "crank_asks ctx debt_price collateral_price floor_bps now p (ask # asks) budget total_fills m v =
     (if budget = 0 then Inr (m, v, total_fills)
      else if as_rate_bps ask < floor_bps then
        crank_asks ctx debt_price collateral_price floor_bps now p asks budget total_fills m v
      else
        let idx = sub_vault_index v (as_sub_vault_id ask) in
        if idx = NIL then crank_asks ctx debt_price collateral_price floor_bps now p asks budget total_fills m v
        else
          ebind (get_sub_vault v idx) (\<lambda>s.
          ebind (take_resting_bids ctx debt_price collateral_price (as_seat_index ask) (as_sub_vault_id ask) (as_rate_bps ask)
                   (as_term_seconds ask) s now budget p m v) (\<lambda>(m1, v1, taken).
          crank_asks ctx debt_price collateral_price floor_bps now p asks (saturating_sub budget (rr_num_fills taken))
            (saturating_add u32_lim total_fills (rr_num_fills taken)) m1 v1)))"

definition process_match_crank ::
  "programs \<Rightarrow> ask_context \<Rightarrow> global_config \<Rightarrow> fp48 res \<Rightarrow> fp48 res \<Rightarrow> raw_rate_bank \<Rightarrow> raw_group \<Rightarrow> nat \<Rightarrow> int \<Rightarrow>
   pool \<Rightarrow> market \<Rightarrow> global_vault \<Rightarrow> (market \<times> global_vault \<times> nat) res" where
  "process_match_crank pg ctx gc debt_price collateral_price rb rg max_fills now p m v =
     ebind (ask_guards gc v m) (\<lambda>_.
     ebind (current_lending_apr_bps_ceil (pg_marginfi pg) rb rg) (\<lambda>floor_bps.
     ebind (snapshot_asks m (tree_values (mk_asks m))) (\<lambda>asks.
     crank_asks ctx debt_price collateral_price floor_bps now p asks (max max_fills 1) 0 m v)))"

end
