(* ===== verification/Claims.thy ===== *)
theory Claims
  imports Loan_Closing
begin

text \<open>The two sweeps of the market's lender account: the claim of a sub-vault's repayments
  (\<open>processor/claim_repayment_for_sub_vault.rs\<close>), open to anyone, and the claim of the protocol's fees
  (\<open>processor/protocol_fee_claim.rs\<close>), open to the protocol's admin. The token and lending programs are
  parameters; program addresses, mints, rent and logs are left out.\<close>

record sweep_context =
  sw_payer :: pubkey
  sw_group :: pubkey
  sw_lender_account :: pubkey
  sw_market_signer :: pubkey
  sw_debt_bank :: pubkey
  sw_market_debt_vault :: pubkey
  sw_liquidity_vault_authority :: pubkey
  sw_liquidity_vault :: pubkey
  sw_token_program :: pubkey
  sw_marginfi_program :: pubkey
  sw_oracles :: "pubkey list"
  sw_vault_key :: pubkey
  sw_vault_signer :: pubkey
  sw_staging :: pubkey
  sw_integration_account :: pubkey
  sw_admin_debt_token :: pubkey

definition lender_withdraw_accounts :: "sweep_context \<Rightarrow> pubkey list" where
  "lender_withdraw_accounts ctx =
     [sw_group ctx, sw_lender_account ctx, sw_market_signer ctx, sw_debt_bank ctx, sw_market_debt_vault ctx,
      sw_liquidity_vault_authority ctx, sw_liquidity_vault ctx, sw_token_program ctx, sw_marginfi_program ctx,
      sw_debt_bank ctx] @ sw_oracles ctx"

definition lender_deposit_accounts :: "sweep_context \<Rightarrow> pubkey list" where
  "lender_deposit_accounts ctx =
     [sw_group ctx, sw_lender_account ctx, sw_market_signer ctx, sw_debt_bank ctx, sw_market_debt_vault ctx,
      sw_liquidity_vault ctx, sw_token_program ctx, sw_marginfi_program ctx]"

definition staging_deposit_accounts :: "sweep_context \<Rightarrow> pubkey list" where
  "staging_deposit_accounts ctx =
     [sw_group ctx, sw_integration_account ctx, sw_vault_signer ctx, sw_debt_bank ctx, sw_staging ctx,
      sw_liquidity_vault ctx, sw_token_program ctx, sw_marginfi_program ctx]"

section \<open>Claim of a sub-vault's repayments\<close>

definition claim_guards :: "global_config \<Rightarrow> market \<Rightarrow> global_vault \<Rightarrow> unit res" where
  "claim_guards gc m v =
     ebind (require_global_not_paused gc) (\<lambda>_.
     ebind (require_market_not_paused m) (\<lambda>_.
     ebind (require_vault_not_paused v) (\<lambda>_.
     ebind (require (gv_mint v = mk_debt_mint m) (Custom VaultWrongMint)) (\<lambda>_.
     ebind (require (gv_lending_pool v = mk_debt_lending_pool m) (Custom IncorrectAccount)) (\<lambda>_.
     require (gv_integration_pool v = mk_marginfi_group m) (Custom IncorrectAccount))))))"

text \<open>What is left on the seat: nothing when the shares were worth no atom and none was burned.\<close>

definition shares_left :: "nat \<Rightarrow> nat \<Rightarrow> nat \<Rightarrow> nat" where
  "shares_left pending actual_atoms actual_shares_burned =
     (if actual_atoms = 0 \<and> actual_shares_burned = 0 then 0 else saturating_sub pending actual_shares_burned)"

definition process_claim_repayment_for_sub_vault ::
  "programs \<Rightarrow> sweep_context \<Rightarrow> global_config \<Rightarrow> nat \<Rightarrow> market \<Rightarrow> global_vault \<Rightarrow> pool \<Rightarrow> (market \<times> global_vault \<times> pool) res" where
  "process_claim_repayment_for_sub_vault pg ctx gc sub_vault_id m v p =
     ebind (claim_guards gc m v) (\<lambda>_.
     let idx = seat_lookup m (sw_vault_key ctx) OWNER_KIND_SUB_VAULT sub_vault_id in
     ebind (require (idx \<noteq> NIL) (Custom IncorrectAccount)) (\<lambda>_.
     ebind (get_helper_seat m idx) (\<lambda>seat.
     let pending_shares = cs_debt_withdrawable_shares seat in
     if pending_shares = 0 then Inr (m, v, p)
     else
       ebind (adapter_withdraw pg (lender_withdraw_accounts ctx) pending_shares p) (\<lambda>(p1, actual_atoms, actual_shares_burned).
       let m1 = set_seat m idx (seat\<lparr>cs_debt_withdrawable_shares :=
                  shares_left pending_shares actual_atoms actual_shares_burned\<rparr>) in
       if actual_atoms = 0 then Inr (m1, v, p1)
       else
         ebind (pg_transfer pg (sw_market_debt_vault ctx) (sw_staging ctx) actual_atoms p1) (\<lambda>p2.
         ebind (adapter_deposit pg (staging_deposit_accounts ctx) actual_atoms p2) (\<lambda>(p3, credited_shares).
         ebind (on_sub_vault v sub_vault_id (\<lambda>s. Inr (sweep_on_sub_vault s actual_atoms))) (\<lambda>v1.
         Inr (m1, v1, p3))))))))"

section \<open>Claim of the protocol's fees\<close>

definition process_protocol_fee_claim ::
  "programs \<Rightarrow> sweep_context \<Rightarrow> global_config \<Rightarrow> market \<Rightarrow> pool \<Rightarrow> (market \<times> pool) res" where
  "process_protocol_fee_claim pg ctx gc m p =
     ebind (require_global_not_paused gc) (\<lambda>_.
     ebind (require_market_not_paused m) (\<lambda>_.
     ebind (require (sw_payer ctx = gc_protocol_admin gc) (Custom ProtocolAdminRequired)) (\<lambda>_.
     let fee_shares = mk_accumulated_protocol_fee_shares m;
         m1 = m\<lparr>mk_accumulated_protocol_fee_shares := 0\<rparr> in
     if fee_shares = 0 then Inr (m1, p)
     else
       ebind (shares_to_amount pg p (sw_debt_bank ctx) fee_shares) (\<lambda>fee_atoms.
       ebind (adapter_withdraw pg (lender_withdraw_accounts ctx) fee_shares p) (\<lambda>(p1, actual_atoms, actual_shares_burned).
       let payout_atoms = min actual_atoms fee_atoms;
           surplus_atoms = saturating_sub actual_atoms payout_atoms in
       ebind (pg_transfer pg (sw_market_debt_vault ctx) (sw_admin_debt_token ctx) payout_atoms p1) (\<lambda>p2.
       if 0 < surplus_atoms then
         ebind (adapter_deposit pg (lender_deposit_accounts ctx) surplus_atoms p2) (\<lambda>(p3, returned_shares). Inr (m1, p3))
       else Inr (m1, p2)))))))"

end
