(* ===== verification/Conversion.thy ===== *)
theory Conversion
  imports Refinance Repayment Order_Instructions
begin

text \<open>The refinance of a variable-rate loan into fixed loans of sub-vaults
  (\<open>processor/convert_p2pool_to_fixed.rs\<close>): the debt is sized on marginfi's projected rate, crossed in full
  against the resting asks, paid off out of the vault's marginfi account, and the crossed sub-vaults deploy what
  the crosses reserved. Oracle prices and the lending and token programs are parameters; program addresses, mints,
  rent and the log are left out.\<close>

record convert_params =
  cv_max_acceptable_rate_bps :: nat
  cv_ltv_buffer_bps :: nat

record convert_context =
  cx_payer :: pubkey
  cx_market_key :: pubkey
  cx_group :: pubkey
  cx_borrower_account :: pubkey
  cx_integration_account :: pubkey
  cx_vault_signer :: pubkey
  cx_market_signer :: pubkey
  cx_debt_bank :: pubkey
  cx_collateral_bank :: pubkey
  cx_market_debt_vault :: pubkey
  cx_liquidity_vault_authority :: pubkey
  cx_liquidity_vault :: pubkey
  cx_token_program :: pubkey
  cx_marginfi_program :: pubkey
  cx_debt_oracles :: "pubkey list"

definition convert_withdraw_accounts :: "convert_context \<Rightarrow> pubkey list" where
  "convert_withdraw_accounts ctx =
     [cx_group ctx, cx_integration_account ctx, cx_vault_signer ctx, cx_debt_bank ctx, cx_market_debt_vault ctx,
      cx_liquidity_vault_authority ctx, cx_liquidity_vault ctx, cx_token_program ctx, cx_marginfi_program ctx,
      cx_debt_bank ctx] @ cx_debt_oracles ctx"

definition convert_repay_accounts :: "convert_context \<Rightarrow> pubkey list" where
  "convert_repay_accounts ctx =
     [cx_group ctx, cx_borrower_account ctx, cx_market_signer ctx, cx_debt_bank ctx, cx_market_debt_vault ctx,
      cx_liquidity_vault ctx, cx_token_program ctx, cx_marginfi_program ctx]"

definition convert_guards :: "global_config \<Rightarrow> convert_context \<Rightarrow> market \<Rightarrow> global_vault \<Rightarrow> loan_fixed \<Rightarrow> unit res" where
  "convert_guards gc ctx m v loan =
     ebind (require_global_not_paused gc) (\<lambda>_.
     ebind (require_market_not_paused m) (\<lambda>_.
     ebind (require (ln_market loan = cx_market_key ctx) (Custom IncorrectAccount)) (\<lambda>_.
     ebind (require (ln_loan_type loan = loan_type_u8 P2Pool) (Custom InvalidArgument)) (\<lambda>_.
     ebind (require (ln_state loan = loan_state_u8 Active) (Custom InvalidArgument)) (\<lambda>_.
     ebind (require_vault_not_paused v) (\<lambda>_.
     require (gv_lending_pool v = mk_debt_lending_pool m) (Custom IncorrectAccount)))))))"

text \<open>What the loan owes now: its shares, capped by the account's, at the projected share value.\<close>

record convert_sizing =
  cz_account_shares :: nat
  cz_loan_shares :: nat
  cz_live_atoms :: nat
  cz_term_remaining :: nat

definition size_conversion ::
  "programs \<Rightarrow> convert_context \<Rightarrow> raw_rate_bank \<Rightarrow> raw_group \<Rightarrow> int \<Rightarrow> market \<Rightarrow> loan_fixed \<Rightarrow> pool \<Rightarrow> convert_sizing res" where
  "size_conversion pg ctx rb rg now m loan p =
     ebind (require (0 < ln_collateral_atoms loan) (Custom InvalidArgument)) (\<lambda>_.
     ebind (get_helper_seat m (ln_borrower_seat_index loan)) (\<lambda>seat.
     ebind (require (cs_owner seat = cx_payer ctx) (Custom OrderNotOwnedBySigner)) (\<lambda>_.
     ebind (require (now < ln_matures_at_unix loan) (Custom TermNotCompatible)) (\<lambda>_.
     ebind (ok_or (i64_checked_sub (ln_matures_at_unix loan) now) Panic) (\<lambda>remaining.
     let term_remaining_seconds = (case narrow u32_lim (nat (max 0 remaining)) of Some t \<Rightarrow> t | None \<Rightarrow> u32_lim - 1) in
     ebind (pool_liability_shares p (cx_borrower_account ctx) (cx_debt_bank ctx)) (\<lambda>pre_account_shares.
     let this_loan_shares = min (ln_borrower_marginfi_borrow_shares loan) pre_account_shares in
     ebind (calc_projected_liability_share_value_fp48 (pg_marginfi pg) rb rg now) (\<lambda>predicted_lsv_fp48.
     ebind (liability_shares_to_atoms_ceil_at_lsv this_loan_shares predicted_lsv_fp48) (\<lambda>live_outstanding_atoms.
     ebind (require (0 < live_outstanding_atoms) (Custom InvalidArgument)) (\<lambda>_.
     Inr \<lparr> cz_account_shares = pre_account_shares, cz_loan_shares = this_loan_shares,
           cz_live_atoms = live_outstanding_atoms, cz_term_remaining = term_remaining_seconds \<rparr>)))))))))"

text \<open>The loan must be healthy by marginfi's initial weights; the readings are those the walk is run on.\<close>

definition conversion_args ::
  "programs \<Rightarrow> convert_context \<Rightarrow> fp48 res \<Rightarrow> fp48 res \<Rightarrow> convert_params \<Rightarrow> nat \<Rightarrow> int \<Rightarrow> market \<Rightarrow> loan_fixed \<Rightarrow> convert_sizing \<Rightarrow>
   pool \<Rightarrow> refinance_args res" where
  "conversion_args pg ctx debt_price collateral_price params ask_floor_rate_bps now m loan z p =
     ebind debt_price (\<lambda>debt_oracle_price_fp48.
     ebind collateral_price (\<lambda>collateral_oracle_price_fp48.
     ebind (init_weight pg p (cx_debt_bank ctx)) (\<lambda>(debt_asset_init, debt_liability_weight_init).
     ebind (init_weight pg p (cx_collateral_bank ctx)) (\<lambda>(collateral_asset_weight_init, coll_liab_init).
     ebind (get_required_quote_collateral_to_back_debt (cz_live_atoms z) debt_oracle_price_fp48 collateral_oracle_price_fp48
              debt_liability_weight_init collateral_asset_weight_init (mk_debt_mint_decimals m) (mk_collateral_mint_decimals m)) (\<lambda>required_collateral.
     ebind (require (required_collateral \<le> ln_collateral_atoms loan) (Custom CollateralBelowMatchLTV)) (\<lambda>_.
     Inr \<lparr> rf_market_pubkey = cx_market_key ctx, rf_borrower_seat_index = ln_borrower_seat_index loan,
           rf_principal_cap_atoms = cz_live_atoms z, rf_loan_collateral_atoms = ln_collateral_atoms loan,
           rf_borrower_collateral_share_price_snapshot_fp48 = ln_borrower_collateral_share_price_snapshot_fp48 loan,
           rf_term_remaining_seconds = cz_term_remaining z, rf_max_acceptable_rate_bps = cv_max_acceptable_rate_bps params,
           rf_fee_floor_bps = fc_protocol_fee_bps_floor (mk_fee_config m), rf_now_unix_ts = now,
           rf_debt_oracle_price_fp48 = debt_oracle_price_fp48, rf_collateral_oracle_price_fp48 = collateral_oracle_price_fp48,
           rf_debt_mint_decimals = mk_debt_mint_decimals m, rf_collateral_mint_decimals = mk_collateral_mint_decimals m,
           rf_ask_floor_rate_bps = ask_floor_rate_bps, rf_ltv_buffer_bps = cv_ltv_buffer_bps params \<rparr>))))))"

section \<open>The payment\<close>

text \<open>The vault pays the live debt, an atom more when the loan is the whole account, and marginfi takes it.\<close>

definition pay_conversion :: "programs \<Rightarrow> convert_context \<Rightarrow> convert_sizing \<Rightarrow> pool \<Rightarrow> pool res" where
  "pay_conversion pg ctx z p =
     (let this_loan_is_account = (cz_loan_shares z = cz_account_shares z) in
      ebind (if this_loan_is_account then ok_or (checked_add u64_lim (cz_live_atoms z) ACCRUE_SAFETY_ATOMS) ArithmeticOverflow
             else Inr (cz_live_atoms z)) (\<lambda>atoms_to_fund.
      ebind (amount_to_asset_shares_ceil p (cx_debt_bank ctx) atoms_to_fund) (\<lambda>withdraw_shares.
      ebind (adapter_withdraw pg (convert_withdraw_accounts ctx) withdraw_shares p) (\<lambda>(p1, funded_atoms, vault_shares_burned).
      ebind (require (cz_live_atoms z \<le> funded_atoms) (Custom InvalidArgument)) (\<lambda>_.
      ebind (if this_loan_is_account then adapter_repay_atoms_full pg (convert_repay_accounts ctx) atoms_to_fund p1
             else adapter_repay_atoms pg (convert_repay_accounts ctx) (cz_live_atoms z) p1) (\<lambda>(p2, shares_burned).
      Inr p2))))))"

text \<open>What is left of the loan's own shares, and whether it counts as nothing.\<close>

definition conversion_residue :: "convert_context \<Rightarrow> convert_sizing \<Rightarrow> pool \<Rightarrow> (nat \<times> bool) res" where
  "conversion_residue ctx z p =
     ebind (pool_liability_shares p (cx_borrower_account ctx) (cx_debt_bank ctx)) (\<lambda>post_account_shares.
     let burned = saturating_sub (cz_account_shares z) post_account_shares;
         post_loan_shares = saturating_sub (cz_loan_shares z) burned in
     ebind (liability_shares_to_atoms_floor p (cx_debt_bank ctx) post_loan_shares) (\<lambda>post_loan_atoms_floor.
     Inr (post_loan_shares, post_loan_atoms_floor \<le> 1)))"

section \<open>The books\<close>

definition add_borrows :: "market \<Rightarrow> data_index \<Rightarrow> nat \<Rightarrow> market res" where
  "add_borrows m borrower_seat_index num_fills =
     ebind (get_helper_seat m borrower_seat_index) (\<lambda>seat.
     ebind (ok_or (checked_add u32_lim (cs_open_borrow_count seat) num_fills) ArithmeticOverflow) (\<lambda>c.
     Inr (set_seat m borrower_seat_index (seat\<lparr>cs_open_borrow_count := c\<rparr>))))"

text \<open>A full conversion retires the old loan and releases the collateral the new loans do not carry.\<close>

definition close_converted :: "market \<Rightarrow> loan_fixed \<Rightarrow> nat \<Rightarrow> market res" where
  "close_converted m loan total_filled_collateral =
     ebind (retire_borrow m (ln_borrower_seat_index loan)) (\<lambda>m1.
     return_collateral m1 (ln_borrower_seat_index loan)
       (saturating_sub (ln_collateral_atoms loan) total_filled_collateral)
       (ln_borrower_collateral_share_price_snapshot_fp48 loan))"

definition residual_loan ::
  "convert_context \<Rightarrow> loan_fixed \<Rightarrow> refinance_result \<Rightarrow> nat \<Rightarrow> int \<Rightarrow> pool \<Rightarrow> loan_fixed res" where
  "residual_loan ctx loan r post_loan_shares now p =
     ebind (pool_liability_atoms_ceil p (cx_debt_bank ctx) post_loan_shares) (\<lambda>post_repay_outstanding_atoms.
     ebind (ok_or (checked_sub (ln_collateral_atoms loan) (rx_total_filled_collateral_atoms r)) ArithmeticOverflow) (\<lambda>c.
     Inr (loan\<lparr>ln_principal_debt_atoms := saturating_sub (ln_principal_debt_atoms loan) (rx_total_filled_principal_atoms r),
               ln_outstanding_debt_atoms := post_repay_outstanding_atoms, ln_collateral_atoms := c,
               ln_borrower_marginfi_borrow_shares := post_loan_shares, ln_last_accrued_unix := now,
               ln_state := loan_state_u8 Active\<rparr>)))"

text \<open>Each crossed sub-vault deploys what the walk reserved on it, at its own curator fee.\<close>

definition deploy_cross :: "int \<Rightarrow> fp48 \<Rightarrow> refinance_cross \<Rightarrow> sub_vault \<Rightarrow> sub_vault res" where
  "deploy_cross now share_value cross s =
     deploy_on_sub_vault s now share_value (rx_filled_principal_atoms cross) (rx_lender_rate_bps cross) (sv_curator_fee_bps s) 0"

fun deploy_crosses :: "int \<Rightarrow> fp48 \<Rightarrow> refinance_cross list \<Rightarrow> global_vault \<Rightarrow> global_vault res" where
  "deploy_crosses now share_value [] v = Inr v"
| "deploy_crosses now share_value (cross # rest) v =
     ebind (on_sub_vault v (rx_lender_sub_vault_id cross) (deploy_cross now share_value cross)) (\<lambda>v1.
     deploy_crosses now share_value rest v1)"

section \<open>The instruction\<close>

definition process_convert_p2pool_to_fixed ::
  "programs \<Rightarrow> convert_context \<Rightarrow> global_config \<Rightarrow> fp48 res \<Rightarrow> fp48 res \<Rightarrow> raw_rate_bank \<Rightarrow> raw_group \<Rightarrow> convert_params \<Rightarrow> int \<Rightarrow>
   market \<Rightarrow> global_vault \<Rightarrow> loan_fixed \<Rightarrow> pool \<Rightarrow> (market \<times> global_vault \<times> loan_fixed option \<times> pool) res" where
  "process_convert_p2pool_to_fixed pg ctx gc debt_price collateral_price rb rg params now m v loan p =
     ebind (require (cv_ltv_buffer_bps params \<le> 10000) (Custom InvalidArgument)) (\<lambda>_.
     ebind (convert_guards gc ctx m v loan) (\<lambda>_.
     ebind (current_lending_apr_bps_ceil (pg_marginfi pg) rb rg) (\<lambda>ask_floor_rate_bps.
     ebind (size_conversion pg ctx rb rg now m loan p) (\<lambda>z.
     ebind (conversion_args pg ctx debt_price collateral_price params ask_floor_rate_bps now m loan z p) (\<lambda>args.
     ebind (expand_market_to_free_blocks m (count_resting_asks m + 1)) (\<lambda>m1.
     ebind (match_p2pool_residual_against_asks m1 args (Some v)) (\<lambda>(m2, vault, r).
     ebind (require (0 < rx_total_filled_principal_atoms r) (Custom InvalidArgument)) (\<lambda>_.
     ebind (require (rx_total_filled_principal_atoms r = cz_live_atoms z) (Custom InvalidArgument)) (\<lambda>_.
     ebind (pay_conversion pg ctx z p) (\<lambda>p1.
     ebind (conversion_residue ctx z p1) (\<lambda>(post_loan_shares, did_full_conversion).
     ebind (add_borrows m2 (ln_borrower_seat_index loan) (rx_num_fills r)) (\<lambda>m3.
     ebind (if did_full_conversion
            then ebind (close_converted m3 loan (rx_total_filled_collateral_atoms r)) (\<lambda>m4. Inr (m4, None))
            else ebind (residual_loan ctx loan r post_loan_shares now p1) (\<lambda>loan'. Inr (m3, Some loan'))) (\<lambda>(m4, slot).
     ebind (read_bank_asset_share_value_fp48 p1 (cx_debt_bank ctx)) (\<lambda>share_value_fp48.
     ebind (ok_or vault Panic) (\<lambda>v1.
     ebind (deploy_crosses now share_value_fp48 (rx_crosses r) v1) (\<lambda>v2.
     Inr (m4, v2, slot, p1)))))))))))))))))"

end
