(* ===== verification/Queue_Widths.thy ===== *)
theory Queue_Widths
  imports Order_Instructions Liquidation Promotion Claims Conversion
begin

text \<open>The machine widths of the queue of matched loans: the collateral of every queued loan fits its 64 bits, and
  every instruction that writes to the queue keeps it so.\<close>

section \<open>The widths of the queue\<close>

definition queue_wide :: "market \<Rightarrow> bool" where
  "queue_wide m = (\<forall>n \<in> set (tree_values (mk_matched_loans m)). ml_collateral_atoms n < u64_lim)"

lemma queue_wide_same: "queue_wide m \<Longrightarrow> mk_matched_loans m' = mk_matched_loans m \<Longrightarrow> queue_wide m'"
  by (simp add: queue_wide_def)

lemma queue_wide_minted:
  assumes "queue_wide m" "mset (tree_values (mk_matched_loans m')) = mset (tree_values (mk_matched_loans m)) + mset new"
    "\<And>n. n \<in> set new \<Longrightarrow> ml_collateral_atoms n < u64_lim"
  shows "queue_wide m'"
proof -
  have "set (tree_values (mk_matched_loans m')) = set (tree_values (mk_matched_loans m)) \<union> set new"
    using arg_cong[OF assms(2), of set_mset] by simp
  then show ?thesis using assms(1,3) by (auto simp: queue_wide_def)
qed

lemma member_le_sum: "n \<in> set ns \<Longrightarrow> f n \<le> sum_list (map f ns)" for f :: "'a \<Rightarrow> nat"
  by (induction ns) auto

lemma match_order_wide:
  assumes ok: "market_ok m" and v: "\<And>v. vault = Some v \<Longrightarrow> vault_ok v" and w: "queue_wide m"
    and c: "ma_collateral_atoms args < u64_lim" and r: "match_order m args vault = Inr (m', vault', r)"
  shows "queue_wide m'"
proof (cases vault)
  case None
  then show ?thesis using match_order_no_vault[OF ok, of args m' vault' r] r w by simp
next
  case (Some v0)
  obtain st taken where rel: "walk_rel m v0 args taken st" and e: "m' = ws_market st"
    using match_order_summary[OF ok v[OF Some], of args m' vault' r] r Some by blast
  then obtain new where bk: "walk_books m v0 args taken new st" unfolding walk_rel_def by auto
  have c': "sum_list (map ml_collateral_atoms new) < u64_lim" using bk c by (simp add: walk_books_def)
  show ?thesis
  proof (rule queue_wide_minted[OF w])
    show "mset (tree_values (mk_matched_loans m')) = mset (tree_values (mk_matched_loans m)) + mset new"
      using bk e by (simp add: walk_books_def)
  qed (use c' member_le_sum[of _ new ml_collateral_atoms] le_less_trans in blast)
qed

lemma alloc_wide:
  assumes "queue_wide m" "alloc_matched_loan m n = Inr m'" "ml_collateral_atoms n < u64_lim"
  shows "queue_wide m'"
proof -
  obtain i fl where "mk_matched_loans m' = tree_insert matched_loan_cmp i n (mk_matched_loans m)"
    using assms(2) by (auto simp: alloc_matched_loan_def insert_matched_loan_def get_free_address_on_market_fixed_def Let_def
        ok_or_Inr split: prod.splits elim!: ebind_InrE)
  then have "mset (tree_values (mk_matched_loans m')) = mset (tree_values (mk_matched_loans m)) + mset [n]"
    by (simp add: tree_values_def)
  then show ?thesis by (rule queue_wide_minted[OF assms(1)]) (use assms(3) in simp)
qed

text \<open>Operations that leave the queue alone.\<close>

lemma set_seat_queue [simp]: "mk_matched_loans (set_seat m i s) = mk_matched_loans m"
  by (simp add: set_seat_def)

lemma encumber_queue: "encumber_for_order m i sd ps cs = Inr m' \<Longrightarrow> mk_matched_loans m' = mk_matched_loans m"
  by (auto simp: encumber_for_order_def Let_def split: side.splits elim!: ebind_InrE)

lemma unencumber_queue: "unencumber_for_order m i sd ps cs = Inr m' \<Longrightarrow> mk_matched_loans m' = mk_matched_loans m"
  by (auto simp: unencumber_for_order_def Let_def split: side.splits elim!: ebind_InrE)

lemma free_address_queue: "get_free_address_on_market_fixed m = (i, m1) \<Longrightarrow> mk_matched_loans m1 = mk_matched_loans m"
  by (auto simp: get_free_address_on_market_fixed_def Let_def split: prod.splits)

lemma rest_order_queue [simp]: "mk_matched_loans (rest_order m i o1) = mk_matched_loans m"
  by (simp add: rest_order_def)

lemma deposit_queue: "deposit_to_seat m i n d = Inr m' \<Longrightarrow> mk_matched_loans m' = mk_matched_loans m"
  by (auto simp: deposit_to_seat_def Let_def elim!: ebind_InrE)

lemma withdraw_queue: "withdraw_from_seat m i n d = Inr m' \<Longrightarrow> mk_matched_loans m' = mk_matched_loans m"
  by (auto simp: withdraw_from_seat_def Let_def elim!: ebind_InrE)

lemma expand_queue: "market_expand m = Inr m' \<Longrightarrow> mk_matched_loans m' = mk_matched_loans m"
  by (auto simp: market_expand_def elim!: ebind_InrE)

lemma claim_queue: "claim_seat_with_sub_vault m owner k sv = Inr m' \<Longrightarrow> mk_matched_loans m' = mk_matched_loans m"
  by (auto simp: claim_seat_with_sub_vault_def Let_def dest!: free_address_queue split: if_splits prod.splits elim!: ebind_InrE)

lemma remove_order_queue: "remove_order_from_tree_and_free m i = Inr m' \<Longrightarrow> mk_matched_loans m' = mk_matched_loans m"
  by (auto simp: remove_order_from_tree_and_free_def release_address_on_market_fixed_def Let_def elim!: ebind_InrE)

lemma bump_borrow_queue: "bump_open_borrow m i = Inr m' \<Longrightarrow> mk_matched_loans m' = mk_matched_loans m"
  by (auto simp: bump_open_borrow_def Let_def elim!: ebind_InrE)

lemma bump_lend_queue: "bump_open_lend m i = Inr m' \<Longrightarrow> mk_matched_loans m' = mk_matched_loans m"
  by (auto simp: bump_open_lend_def Let_def elim!: ebind_InrE)

lemma drop_lend_queue: "drop_open_lend m i = Inr m' \<Longrightarrow> mk_matched_loans m' = mk_matched_loans m"
  by (auto simp: drop_open_lend_def Let_def elim!: ebind_InrE)

lemma cancel_queue: "cancel_order_by_index m s i = Inr m' \<Longrightarrow> mk_matched_loans m' = mk_matched_loans m"
  by (auto simp: cancel_order_by_index_def Let_def dest!: drop_lend_queue unencumber_queue remove_order_queue split: if_splits elim!: ebind_InrE)

lemma update_bid_queue:
  "market_ok m \<Longrightarrow> update_user_bid m s i rate tm ts buf now = Inr (m', sq) \<Longrightarrow> mk_matched_loans m' = mk_matched_loans m"
  using update_user_bid_Inr[of m s i rate tm ts buf now m' sq] by fastforce

lemma rest_ask_queue: "rest_vault_ask m args = Inr (m', sq) \<Longrightarrow> mk_matched_loans m' = mk_matched_loans m"
  by (auto simp: rest_vault_ask_def Let_def dest!: bump_lend_queue free_address_queue split: prod.splits elim!: ebind_InrE)

lemma prune_queue: "prune_bid m i bid = Inr m' \<Longrightarrow> mk_matched_loans m' = mk_matched_loans m"
  by (auto simp: prune_bid_def Let_def dest!: unencumber_queue remove_order_queue elim!: ebind_InrE)

lemma open_p2pool_wide:
  assumes "queue_wide m" "mr_remaining_collateral mr < u64_lim" "open_p2pool_residual m args mr = Inr (m', i, sq)"
  shows "queue_wide m'"
proof -
  obtain m1 n where m1: "bump_open_borrow m (po_taker_seat_index args) = Inr m1" and al: "alloc_matched_loan m1 n = Inr m'"
    and n: "ml_collateral_atoms n = mr_remaining_collateral mr"
    using assms(3) unfolding open_p2pool_residual_def Let_def by (elim ebind_InrE) (auto split: prod.splits)
  have "queue_wide m1" by (rule queue_wide_same[OF assms(1) bump_borrow_queue[OF m1]])
  then show ?thesis using alloc_wide[OF _ al] n assms(2) by simp
qed

lemma settle_residual_wide:
  assumes "queue_wide m" "mr_remaining_collateral mr < u64_lim" "settle_residual m args sq mr = Inr (m', i, ls, rested)"
  shows "queue_wide m'"
  using assms open_p2pool_wide[OF assms(1,2)]
  by (auto simp: settle_residual_def rest_bid_residual_def drop_bid_residual_def Let_def
      dest!: free_address_queue unencumber_queue intro: queue_wide_same[OF assms(1)]
      split: if_splits residual_action.splits prod.splits elim!: ebind_InrE)

lemma match_borrower_bid_wide:
  assumes ok: "market_ok m" and v: "\<And>v. vault = Some v \<Longrightarrow> vault_ok v" and w: "queue_wide m" and c: "po_collateral_atoms args < u64_lim"
    and b: "backed ext m" and r: "match_borrower_bid m args vault = Inr (m', vault', r)"
  shows "queue_wide m'"
proof -
  obtain ps cs m1 m3 mr0 i ls rested where e: "encumber_for_order m (po_taker_seat_index args) Bid ps cs = Inr m1"
    and sh: "atoms_to_shares_at_snapshot (po_collateral_atoms args) (po_share_price_snapshot_fp48 args) = Inr cs"
    and mo: "match_order (m1\<lparr>mk_order_sequence_number := mk_order_sequence_number m1 + 1\<rparr>)
        (bid_match_args (m1\<lparr>mk_order_sequence_number := mk_order_sequence_number m1 + 1\<rparr>) args) vault = Inr (m3, vault', mr0)"
    and st: "settle_residual m3 args (mk_order_sequence_number m1)
        (mr0\<lparr>mr_residual_action := residual_action_for (mr_remaining_principal mr0) (po_residual_mode args)\<rparr>)
        = Inr (m', i, ls, rested)"
    using r unfolding match_borrower_bid_def Let_def
    by (auto simp: require_Inr ok_or_Inr checked_add_Some split: prod.splits elim!: ebind_InrE)
  let ?m2 = "m1\<lparr>mk_order_sequence_number := mk_order_sequence_number m1 + 1\<rparr>"
  have ok2: "market_ok ?m2" by (rule bump_order_sequence_ok[OF encumber_bid_ok[OF ok e]]) simp
  have w2: "queue_wide ?m2" by (rule queue_wide_same[OF w]) (simp add: encumber_queue[OF e])
  have w3: "queue_wide m3" by (rule match_order_wide[OF ok2 v w2 _ mo]) (use c in \<open>simp_all add: bid_match_args_def\<close>)
  have "backed (\<lambda>j. ext j + owed (po_taker_seat_index args) cs j) m1" by (rule backed_encumber[OF b e])
  then have "backed (\<lambda>j. ext j + owed (po_taker_seat_index args) cs j) ?m2" by (rule backed_cong) (simp_all add: encumbered_of_def)
  moreover have "cs = locked_shares (po_collateral_atoms args) (po_share_price_snapshot_fp48 args)"
    using atoms_to_shares_locked[OF c sh] by simp
  ultimately have "mr_remaining_collateral mr0 \<le> po_collateral_atoms args"
    using backed_match_order[OF ok2 v _ mo, of ext] by (simp add: bid_match_args_def)
  then show ?thesis using settle_residual_wide[OF w3 _ st] c by simp
qed

lemma match_resting_bids_wide:
  assumes ok: "market_ok m" and vok: "vault_ok v" and b: "backed ext m" and w: "queue_wide m"
    and r: "match_resting_bids m args v = Inr (m', v', r)"
  shows "queue_wide m'"
proof -
  obtain new st where t: "taken_bids m v args new st" "m' = bs_market st"
    using match_resting_bids_taken[OF ok vok _ r] b by (auto simp: backed_def)
  have "ml_collateral_atoms n < u64_lim" if n: "n \<in> set new" for n
  proof -
    obtain bid where bid: "bid \<in> set (tree_values (mk_bids m))" "loan_of_bid m args bid n"
      using t(1) n unfolding taken_bids_def by blast
    moreover have "ro_collateral_atoms bid < u64_lim" using bid(1) b by (simp add: backed_def bids_sane_def)
    ultimately show ?thesis by (auto simp: loan_of_bid_def)
  qed
  then show ?thesis by (rule queue_wide_minted[OF w, of m' new, rotated]) (use t in \<open>simp_all add: taken_bids_def\<close>)
qed

lemma refinance_wide:
  assumes ok: "market_ok m" and vok: "vault_ok v" and w: "queue_wide m" and c: "rf_loan_collateral_atoms args < u64_lim"
    and r: "match_p2pool_residual_against_asks m args (Some v) = Inr (m', vault', r)"
  shows "queue_wide m'"
proof -
  obtain new st where x: "crossed m v args new st" and e: "m' = rs_market st"
    using refinance_summary[OF ok vok r] by blast
  have "sum_list (map ml_collateral_atoms new) < u64_lim" using crossed_collateral[OF x] c by simp
  then have "ml_collateral_atoms n < u64_lim" if "n \<in> set new" for n
    using member_le_sum[OF that, of ml_collateral_atoms] by simp
  then show ?thesis by (rule queue_wide_minted[OF w, of m' new, rotated]) (use x e in \<open>simp_all add: crossed_def\<close>)
qed

end
