(* ===== verification/Rb_Tree.thy ===== *)
theory Rb_Tree
  imports Hypertree "HOL-Library.Monad_Syntax"
begin

text \<open>The red-black tree of \<open>lib/src/red_black_tree.rs\<close>, on the memory it lives in: nodes in numbered blocks
  that name their children and their parent by index. An operation is None where the code panics (a node read
  outside the data) or where one of its loops never ends on corrupted pointers; that neither happens on a
  well-formed tree is part of what is proved. The payload's order and equality are parameters.\<close>

datatype rb_color = Black | Red

record 'v rb_node =
  rb_left :: data_index
  rb_right :: data_index
  rb_parent :: data_index
  rb_color :: rb_color
  rb_payload_type :: nat
  rb_value :: 'v

text \<open>The view \<open>RedBlackTree\<close> of an account: root and maximum of the header, and the data, of which a block that
  lies outside is None.\<close>

record 'v rb_tree =
  rb_root :: data_index
  rb_max :: data_index
  rb_data :: "data_index \<Rightarrow> 'v rb_node option"

section \<open>Reading\<close>

definition get_left_index :: "'v rb_tree \<Rightarrow> data_index \<Rightarrow> data_index option" where
  "get_left_index s index = (if index = NIL then Some NIL else map_option rb_left (rb_data s index))"

definition get_right_index :: "'v rb_tree \<Rightarrow> data_index \<Rightarrow> data_index option" where
  "get_right_index s index = (if index = NIL then Some NIL else map_option rb_right (rb_data s index))"

definition get_parent_index :: "'v rb_tree \<Rightarrow> data_index \<Rightarrow> data_index option" where
  "get_parent_index s index = (if index = NIL then Some NIL else map_option rb_parent (rb_data s index))"

definition get_color :: "'v rb_tree \<Rightarrow> data_index \<Rightarrow> rb_color option" where
  "get_color s index = (if index = NIL then Some Black else map_option rb_color (rb_data s index))"

definition is_left_child :: "'v rb_tree \<Rightarrow> data_index \<Rightarrow> bool option" where
  "is_left_child s index =
     (if index = rb_root s then Some False
      else do { parent_index \<leftarrow> get_parent_index s index;
                left \<leftarrow> get_left_index s parent_index;
                Some (left = index) })"

definition is_right_child :: "'v rb_tree \<Rightarrow> data_index \<Rightarrow> bool option" where
  "is_right_child s index =
     (if index = rb_root s then Some False
      else do { parent_index \<leftarrow> get_parent_index s index;
                right \<leftarrow> get_right_index s parent_index;
                Some (right = index) })"

definition get_child_index :: "'v rb_tree \<Rightarrow> data_index \<Rightarrow> data_index option" where
  "get_child_index s index =
     do { left_child_index \<leftarrow> get_left_index s index;
          if left_child_index \<noteq> NIL then Some left_child_index else get_right_index s index }"

definition is_internal :: "'v rb_tree \<Rightarrow> data_index \<Rightarrow> bool option" where
  "is_internal s index =
     do { right \<leftarrow> get_right_index s index;
          if right = NIL then Some False
          else do { left \<leftarrow> get_left_index s index; Some (left \<noteq> NIL) } }"

definition get_sibling_index :: "'v rb_tree \<Rightarrow> data_index \<Rightarrow> data_index \<Rightarrow> data_index option" where
  "get_sibling_index s index parent_index =
     do { parent_left_child_index \<leftarrow> get_left_index s parent_index;
          if parent_left_child_index = index then get_right_index s parent_index
          else Some parent_left_child_index }"

section \<open>Writing\<close>

definition write_node :: "'v rb_tree \<Rightarrow> data_index \<Rightarrow> ('v rb_node \<Rightarrow> 'v rb_node) \<Rightarrow> 'v rb_tree option" where
  "write_node s index f = map_option (\<lambda>n. s\<lparr>rb_data := (rb_data s)(index \<mapsto> f n)\<rparr>) (rb_data s index)"

definition set_color :: "'v rb_tree \<Rightarrow> data_index \<Rightarrow> rb_color \<Rightarrow> 'v rb_tree option" where
  "set_color s index color = (if index = NIL then Some s else write_node s index (\<lambda>n. n\<lparr>rb_color := color\<rparr>))"

definition set_parent_index :: "'v rb_tree \<Rightarrow> data_index \<Rightarrow> data_index \<Rightarrow> 'v rb_tree option" where
  "set_parent_index s index p = (if index = NIL then Some s else write_node s index (\<lambda>n. n\<lparr>rb_parent := p\<rparr>))"

definition set_left_index :: "'v rb_tree \<Rightarrow> data_index \<Rightarrow> data_index \<Rightarrow> 'v rb_tree option" where
  "set_left_index s index l = (if index = NIL then Some s else write_node s index (\<lambda>n. n\<lparr>rb_left := l\<rparr>))"

definition set_right_index :: "'v rb_tree \<Rightarrow> data_index \<Rightarrow> data_index \<Rightarrow> 'v rb_tree option" where
  "set_right_index s index r = (if index = NIL then Some s else write_node s index (\<lambda>n. n\<lparr>rb_right := r\<rparr>))"

definition set_root_if :: "'v rb_tree \<Rightarrow> data_index \<Rightarrow> data_index \<Rightarrow> 'v rb_tree" where
  "set_root_if s old new = (if rb_root s = old then s\<lparr>rb_root := new\<rparr> else s)"

text \<open>The great-grandparent's child pointers after a rotation of \<open>index\<close> below \<open>p_index\<close>.\<close>

definition relink_child :: "'v rb_tree \<Rightarrow> data_index \<Rightarrow> data_index \<Rightarrow> data_index \<Rightarrow> 'v rb_tree option" where
  "relink_child s gg_index index p_index =
     (if gg_index = NIL then Some s
      else do { left \<leftarrow> get_left_index s gg_index;
                s1 \<leftarrow> (if left = index then set_left_index s gg_index p_index else Some s);
                right \<leftarrow> get_right_index s1 gg_index;
                if right = index then set_right_index s1 gg_index p_index else Some s1 })"

definition rotate_left :: "'v rb_tree \<Rightarrow> data_index \<Rightarrow> 'v rb_tree option" where
  "rotate_left s g_index =
     do { p_index \<leftarrow> get_right_index s g_index;
          y_index \<leftarrow> get_left_index s p_index;
          gg_index \<leftarrow> get_parent_index s g_index;
          s1 \<leftarrow> write_node s p_index (\<lambda>n. n\<lparr>rb_parent := gg_index, rb_left := g_index\<rparr>);
          s2 \<leftarrow> set_parent_index s1 y_index g_index;
          s3 \<leftarrow> write_node s2 g_index (\<lambda>n. n\<lparr>rb_parent := p_index, rb_right := y_index\<rparr>);
          s4 \<leftarrow> relink_child s3 gg_index g_index p_index;
          Some (set_root_if s4 g_index p_index) }"

definition rotate_right :: "'v rb_tree \<Rightarrow> data_index \<Rightarrow> 'v rb_tree option" where
  "rotate_right s g_index =
     do { p_index \<leftarrow> get_left_index s g_index;
          y_index \<leftarrow> get_right_index s p_index;
          gg_index \<leftarrow> get_parent_index s g_index;
          s1 \<leftarrow> write_node s p_index (\<lambda>n. n\<lparr>rb_parent := gg_index, rb_right := g_index\<rparr>);
          s2 \<leftarrow> set_parent_index s1 y_index g_index;
          s3 \<leftarrow> write_node s2 g_index (\<lambda>n. n\<lparr>rb_parent := p_index, rb_left := y_index\<rparr>);
          s4 \<leftarrow> relink_child s3 gg_index g_index p_index;
          Some (set_root_if s4 g_index p_index) }"

definition swap_node_with_successor :: "'v rb_tree \<Rightarrow> data_index \<Rightarrow> data_index \<Rightarrow> 'v rb_tree option" where
  "swap_node_with_successor s index_0 index_1 =
     do { parent_0 \<leftarrow> get_parent_index s index_0;
          parent_1 \<leftarrow> get_parent_index s index_1;
          left_0 \<leftarrow> get_left_index s index_0;
          left_1 \<leftarrow> get_left_index s index_1;
          right_0 \<leftarrow> get_right_index s index_0;
          right_1 \<leftarrow> get_right_index s index_1;
          is_left_0 \<leftarrow> is_left_child s index_0;
          is_left_1 \<leftarrow> is_left_child s index_1;
          s \<leftarrow> (if is_left_0 then set_left_index s parent_0 index_1 else set_right_index s parent_0 index_1);
          s \<leftarrow> (if is_left_1 then set_left_index s parent_1 index_0 else set_right_index s parent_1 index_0);
          s \<leftarrow> set_left_index s index_0 left_1;
          s \<leftarrow> set_right_index s index_0 right_1;
          s \<leftarrow> set_parent_index s index_0 parent_1;
          s \<leftarrow> set_left_index s index_1 left_0;
          s \<leftarrow> set_right_index s index_1 right_0;
          s \<leftarrow> set_parent_index s index_1 parent_0;
          s \<leftarrow> set_parent_index s left_0 index_1;
          s \<leftarrow> set_parent_index s left_1 index_0;
          s \<leftarrow> set_parent_index s right_0 index_1;
          s \<leftarrow> set_parent_index s right_1 index_0;
          s \<leftarrow> (if parent_1 = index_0
               then do { s \<leftarrow> set_parent_index s index_0 index_1;
                         s \<leftarrow> set_parent_index s index_1 parent_0;
                         set_right_index s index_1 index_0 }
               else Some s);
          s \<leftarrow> Some (set_root_if s index_0 index_1);
          index_0_color \<leftarrow> get_color s index_0;
          index_1_color \<leftarrow> get_color s index_1;
          s \<leftarrow> set_color s index_0 index_1_color;
          set_color s index_1 index_0_color }"

text \<open>Takes a node with at most one child out of the middle.\<close>

definition update_parent_child :: "'v rb_tree \<Rightarrow> data_index \<Rightarrow> 'v rb_tree option" where
  "update_parent_child s index =
     do { parent_index \<leftarrow> get_parent_index s index;
          child_index \<leftarrow> get_child_index s index;
          s1 \<leftarrow> set_parent_index s child_index parent_index;
          is_left \<leftarrow> is_left_child s1 index;
          s2 \<leftarrow> (if is_left then set_left_index s1 parent_index child_index
                else set_right_index s1 parent_index child_index);
          Some (set_root_if s2 index child_index) }"

section \<open>Walking\<close>

partial_function (option) lookup_loop ::
  "('v \<Rightarrow> 'v \<Rightarrow> ordering) \<Rightarrow> ('v \<Rightarrow> 'v \<Rightarrow> bool) \<Rightarrow> 'v rb_tree \<Rightarrow> 'v \<Rightarrow> data_index list \<Rightarrow> data_index option" where
  "lookup_loop cmp eqv s value stack =
     (case stack of
        [] \<Rightarrow> Some NIL
      | current_index # rest \<Rightarrow>
          if current_index = NIL then lookup_loop cmp eqv s value rest
          else do { node \<leftarrow> rb_data s current_index;
                    left \<leftarrow> get_left_index s current_index;
                    right \<leftarrow> get_right_index s current_index;
                    (case cmp (rb_value node) value of
                       Equal \<Rightarrow> if eqv (rb_value node) value then Some current_index
                                else lookup_loop cmp eqv s value (right # left # rest)
                     | Greater \<Rightarrow> lookup_loop cmp eqv s value (left # rest)
                     | Less \<Rightarrow> lookup_loop cmp eqv s value (right # rest)) })"

definition rb_lookup_index :: "('v \<Rightarrow> 'v \<Rightarrow> ordering) \<Rightarrow> ('v \<Rightarrow> 'v \<Rightarrow> bool) \<Rightarrow> 'v rb_tree \<Rightarrow> 'v \<Rightarrow> data_index option" where
  "rb_lookup_index cmp eqv s value =
     (if rb_root s = NIL then Some NIL else lookup_loop cmp eqv s value [rb_root s])"

partial_function (option) rightmost :: "'v rb_tree \<Rightarrow> data_index \<Rightarrow> data_index option" where
  "rightmost s current_index =
     do { right_index \<leftarrow> get_right_index s current_index;
          if right_index = NIL then Some current_index else rightmost s right_index }"

partial_function (option) leftmost :: "'v rb_tree \<Rightarrow> data_index \<Rightarrow> data_index option" where
  "leftmost s current_index =
     do { left_index \<leftarrow> get_left_index s current_index;
          if left_index = NIL then Some current_index else leftmost s left_index }"

definition lookup_max_index :: "'v rb_tree \<Rightarrow> data_index option" where
  "lookup_max_index s = (if rb_root s = NIL then Some NIL else rightmost s (rb_root s))"

partial_function (option) climb_left :: "'v rb_tree \<Rightarrow> data_index \<Rightarrow> data_index option" where
  "climb_left s current_index =
     do { is_left \<leftarrow> is_left_child s current_index;
          parent \<leftarrow> get_parent_index s current_index;
          if is_left then climb_left s parent else Some parent }"

definition get_next_lower_index :: "'v rb_tree \<Rightarrow> data_index \<Rightarrow> data_index option" where
  "get_next_lower_index s index =
     (if index = NIL then Some NIL
      else do { left \<leftarrow> get_left_index s index;
                if left \<noteq> NIL then rightmost s left else climb_left s index })"

definition get_next_higher_index :: "'v rb_tree \<Rightarrow> data_index \<Rightarrow> data_index option" where
  "get_next_higher_index s index = do { right \<leftarrow> get_right_index s index; leftmost s right }"

text \<open>What the iterator yields from a node on, and from the maximum: the descending list of the tree.\<close>

partial_function (option) iter_from :: "'v rb_tree \<Rightarrow> data_index \<Rightarrow> (data_index \<times> 'v) list option" where
  "iter_from s index =
     do { next_index \<leftarrow> get_next_lower_index s index;
          if index = NIL then Some []
          else do { node \<leftarrow> rb_data s index;
                    rest \<leftarrow> iter_from s next_index;
                    Some ((index, rb_value node) # rest) } }"

definition rb_iter :: "'v rb_tree \<Rightarrow> (data_index \<times> 'v) list option" where
  "rb_iter s = do { index \<leftarrow> (if rb_max s = NIL then lookup_max_index s else Some (rb_max s)); iter_from s index }"

section \<open>Insertion\<close>

definition fresh_node :: "rb_color \<Rightarrow> 'v \<Rightarrow> 'v rb_node" where
  "fresh_node color value = \<lparr> rb_left = NIL, rb_right = NIL, rb_parent = NIL, rb_color = color,
                              rb_payload_type = 0, rb_value = value \<rparr>"

text \<open>The walk down to the node below which the new one goes; equal keys go left.\<close>

partial_function (option) descend ::
  "('v \<Rightarrow> 'v \<Rightarrow> ordering) \<Rightarrow> 'v rb_tree \<Rightarrow> 'v rb_node \<Rightarrow> data_index \<Rightarrow> data_index option" where
  "descend cmp s node_to_insert current_parent_index =
     do { current_parent \<leftarrow> rb_data s current_parent_index;
          if rb_left current_parent = NIL \<and> rb_right current_parent = NIL then Some current_parent_index
          else (case cmp (rb_value node_to_insert) (rb_value current_parent) of
                  Greater \<Rightarrow> if rb_right current_parent \<noteq> NIL then descend cmp s node_to_insert (rb_right current_parent)
                             else Some current_parent_index
                | Less \<Rightarrow> if rb_left current_parent \<noteq> NIL then descend cmp s node_to_insert (rb_left current_parent)
                          else Some current_parent_index
                | Equal \<Rightarrow> if rb_left current_parent \<noteq> NIL then descend cmp s node_to_insert (rb_left current_parent)
                           else Some current_parent_index) }"

definition insert_node_no_fix ::
  "('v \<Rightarrow> 'v \<Rightarrow> ordering) \<Rightarrow> 'v rb_tree \<Rightarrow> 'v rb_node \<Rightarrow> data_index \<Rightarrow> 'v rb_tree option" where
  "insert_node_no_fix cmp s node_to_insert new_node_index =
     do { current_parent_index \<leftarrow> descend cmp s node_to_insert (rb_root s);
          current_parent \<leftarrow> rb_data s current_parent_index;
          s1 \<leftarrow> (if cmp (rb_value current_parent) (rb_value node_to_insert) = Less
                then set_right_index s current_parent_index new_node_index
                else set_left_index s current_parent_index new_node_index);
          write_node s1 new_node_index (\<lambda>_. node_to_insert\<lparr>rb_parent := current_parent_index\<rparr>) }"

text \<open>One step of the repair: the tree and the node to repair next, or NIL.\<close>

definition insert_fix :: "'v rb_tree \<Rightarrow> data_index \<Rightarrow> ('v rb_tree \<times> data_index) option" where
  "insert_fix s index_to_fix =
     (if rb_root s = index_to_fix then do { s \<leftarrow> set_color s index_to_fix Black; Some (s, NIL) }
      else do {
        parent_index \<leftarrow> get_parent_index s index_to_fix;
        parent_color \<leftarrow> get_color s parent_index;
        if parent_color = Black then Some (s, NIL)
        else do {
          grandparent_index \<leftarrow> get_parent_index s parent_index;
          grandparent_left \<leftarrow> get_left_index s grandparent_index;
          uncle_index \<leftarrow> (if grandparent_left = parent_index then get_right_index s grandparent_index
                          else get_left_index s grandparent_index);
          uncle_color \<leftarrow> get_color s uncle_index;
          if uncle_color = Red then do {
            s \<leftarrow> set_color s parent_index Black;
            s \<leftarrow> set_color s uncle_index Black;
            s \<leftarrow> set_color s grandparent_index Red;
            Some (s, grandparent_index) }
          else do {
            grandparent_color \<leftarrow> get_color s grandparent_index;
            parent_is_left \<leftarrow> is_left_child s parent_index;
            current_is_left \<leftarrow> is_left_child s index_to_fix;
            if grandparent_index = NIL \<and> parent_color = Red
            then do { s \<leftarrow> set_color s parent_index Black; Some (s, NIL) }
            else do {
              index_to_fix_color \<leftarrow> get_color s index_to_fix;
              s \<leftarrow> (if parent_is_left \<and> current_is_left then do {
                     s \<leftarrow> rotate_right s grandparent_index;
                     s \<leftarrow> set_color s grandparent_index parent_color;
                     set_color s parent_index grandparent_color }
                   else if parent_is_left \<and> \<not> current_is_left then do {
                     s \<leftarrow> rotate_left s parent_index;
                     s \<leftarrow> rotate_right s grandparent_index;
                     s \<leftarrow> set_color s index_to_fix grandparent_color;
                     set_color s grandparent_index index_to_fix_color }
                   else if \<not> parent_is_left \<and> \<not> current_is_left then do {
                     s \<leftarrow> rotate_left s grandparent_index;
                     s \<leftarrow> set_color s grandparent_index parent_color;
                     set_color s parent_index grandparent_color }
                   else do {
                     s \<leftarrow> rotate_right s parent_index;
                     s \<leftarrow> rotate_left s grandparent_index;
                     s \<leftarrow> set_color s index_to_fix grandparent_color;
                     set_color s grandparent_index index_to_fix_color });
              Some (s, NIL) } } } })"

partial_function (option) insert_fix_loop :: "'v rb_tree \<Rightarrow> data_index \<Rightarrow> 'v rb_tree option" where
  "insert_fix_loop s node_to_fix =
     do { (s', next_to_fix) \<leftarrow> insert_fix s node_to_fix;
          if next_to_fix = NIL then Some s' else insert_fix_loop s' next_to_fix }"

definition rb_insert :: "('v \<Rightarrow> 'v \<Rightarrow> ordering) \<Rightarrow> 'v rb_tree \<Rightarrow> data_index \<Rightarrow> 'v \<Rightarrow> 'v rb_tree option" where
  "rb_insert cmp s index value =
     (if rb_root s = NIL
      then write_node (s\<lparr>rb_root := index, rb_max := index\<rparr>) index (\<lambda>_. fresh_node Black value)
      else do {
        s1 \<leftarrow> (if rb_max s \<noteq> NIL
              then do { max_node \<leftarrow> rb_data s (rb_max s);
                        Some (if cmp (rb_value max_node) value = Less then s\<lparr>rb_max := index\<rparr> else s) }
              else Some s);
        s2 \<leftarrow> insert_node_no_fix cmp s1 (fresh_node Red value) index;
        insert_fix_loop s2 index })"

section \<open>Removal\<close>

text \<open>The case of a black sibling with a red child; the node that lacks a black stays where it is.\<close>

definition remove_fix_red_nephew ::
  "'v rb_tree \<Rightarrow> data_index \<Rightarrow> rb_color \<Rightarrow> data_index \<Rightarrow> rb_color \<Rightarrow> 'v rb_tree option" where
  "remove_fix_red_nephew s parent_index parent_color sibling_index sibling_color =
     do { sibling_left_child_index \<leftarrow> get_left_index s sibling_index;
          sibling_right_child_index \<leftarrow> get_right_index s sibling_index;
          left_color \<leftarrow> get_color s sibling_left_child_index;
          right_color \<leftarrow> get_color s sibling_right_child_index;
          sibling_is_left \<leftarrow> is_left_child s sibling_index;
          sibling_is_right \<leftarrow> is_right_child s sibling_index;
          if left_color = Red \<and> sibling_is_left then do {
            s \<leftarrow> set_color s sibling_left_child_index Black;
            s \<leftarrow> set_color s parent_index sibling_color;
            s \<leftarrow> set_color s sibling_index parent_color;
            rotate_right s parent_index }
          else if right_color = Red \<and> sibling_is_left then do {
            s \<leftarrow> set_color s sibling_right_child_index parent_color;
            s \<leftarrow> set_color s parent_index Black;
            s \<leftarrow> set_color s sibling_index Black;
            s \<leftarrow> rotate_left s sibling_index;
            rotate_right s parent_index }
          else if right_color = Red \<and> sibling_is_right then do {
            s \<leftarrow> set_color s sibling_right_child_index Black;
            s \<leftarrow> set_color s parent_index sibling_color;
            s \<leftarrow> set_color s sibling_index parent_color;
            rotate_left s parent_index }
          else if left_color = Red \<and> sibling_is_right then do {
            s \<leftarrow> set_color s sibling_left_child_index parent_color;
            s \<leftarrow> set_color s parent_index Black;
            s \<leftarrow> set_color s sibling_index Black;
            s \<leftarrow> rotate_right s sibling_index;
            rotate_left s parent_index }
          else Some s }"

definition remove_fix ::
  "'v rb_tree \<Rightarrow> data_index \<Rightarrow> data_index \<Rightarrow> ('v rb_tree \<times> data_index \<times> data_index) option" where
  "remove_fix s current_index parent_index =
     (if rb_root s = current_index then Some (s, NIL, NIL)
      else do {
        sibling_index \<leftarrow> get_sibling_index s current_index parent_index;
        sibling_color \<leftarrow> get_color s sibling_index;
        parent_color \<leftarrow> get_color s parent_index;
        sibling_left \<leftarrow> get_left_index s sibling_index;
        sibling_right \<leftarrow> get_right_index s sibling_index;
        left_color \<leftarrow> get_color s sibling_left;
        right_color \<leftarrow> get_color s sibling_right;
        if sibling_color = Black \<and> (left_color = Red \<or> right_color = Red) then do {
          s \<leftarrow> remove_fix_red_nephew s parent_index parent_color sibling_index sibling_color;
          Some (s, NIL, NIL) }
        else if sibling_color = Black then do {
          s \<leftarrow> set_color s sibling_index Red;
          if parent_color = Black then do {
            grandparent_index \<leftarrow> get_parent_index s parent_index;
            Some (s, parent_index, grandparent_index) }
          else do { s \<leftarrow> set_color s parent_index Black; Some (s, NIL, NIL) } }
        else do {
          sibling_is_left \<leftarrow> is_left_child s sibling_index;
          sibling_is_right \<leftarrow> is_right_child s sibling_index;
          if sibling_is_left then do {
            s \<leftarrow> rotate_right s parent_index;
            s \<leftarrow> set_color s parent_index Red;
            s \<leftarrow> set_color s sibling_index Black;
            Some (s, current_index, parent_index) }
          else if sibling_is_right then do {
            s \<leftarrow> rotate_left s parent_index;
            s \<leftarrow> set_color s parent_index Red;
            s \<leftarrow> set_color s sibling_index Black;
            Some (s, current_index, parent_index) }
          else Some (s, NIL, NIL) } })"

partial_function (option) remove_fix_loop :: "'v rb_tree \<Rightarrow> data_index \<Rightarrow> data_index \<Rightarrow> 'v rb_tree option" where
  "remove_fix_loop s current_index parent_index =
     do { (s', current', parent') \<leftarrow> remove_fix s current_index parent_index;
          if current' = NIL \<and> parent' = NIL then Some s' else remove_fix_loop s' current' parent' }"

text \<open>The removal of a node with at most one child.\<close>

definition remove_outer :: "'v rb_tree \<Rightarrow> data_index \<Rightarrow> 'v rb_tree option" where
  "remove_outer s index =
     do { to_delete_color \<leftarrow> get_color s index;
          left \<leftarrow> get_left_index s index;
          right \<leftarrow> get_right_index s index;
          left_color \<leftarrow> get_color s left;
          right_color \<leftarrow> get_color s right;
          child_index \<leftarrow> get_child_index s index;
          if left_color = Red \<or> right_color = Red \<or> to_delete_color = Red then do {
            s \<leftarrow> update_parent_child s index;
            set_color s child_index Black }
          else do {
            parent_index \<leftarrow> get_parent_index s index;
            s \<leftarrow> update_parent_child s index;
            remove_fix_loop s child_index parent_index } }"

definition rb_remove_by_index :: "'v rb_tree \<Rightarrow> data_index \<Rightarrow> 'v rb_tree option" where
  "rb_remove_by_index s index =
     (if index = NIL then Some s
      else do {
        s1 \<leftarrow> (if index = rb_max s
              then do { lower \<leftarrow> get_next_lower_index s (rb_max s); Some (s\<lparr>rb_max := lower\<rparr>) }
              else Some s);
        internal \<leftarrow> is_internal s1 index;
        s2 \<leftarrow> (if internal
              then do { successor_index \<leftarrow> get_next_higher_index s1 index;
                        swap_node_with_successor s1 index successor_index }
              else Some s1);
        remove_outer s2 index })"

end
