(* ===== verification/Rb_Shape.thy ===== *)
theory Rb_Shape
  imports Rb_Tree
begin

text \<open>What the pointers of a red-black tree stand for: an ordered tree whose nodes carry their block index, its
  layout in memory, and contexts (the path from a subtree up to the root), so that a rotation or a recolouring is a
  local change of the tree under any context. The descending list of the tree is what the rest of the program
  sees.\<close>

datatype 'v rbt = Lf | Nd "'v rbt" data_index rb_color nat 'v "'v rbt"

datatype 'v frame =
    InL data_index rb_color nat 'v "'v rbt"
  | InR "'v rbt" data_index rb_color nat 'v

fun rix :: "'v rbt \<Rightarrow> data_index" where
  "rix Lf = NIL"
| "rix (Nd l i c k v r) = i"

fun col :: "'v rbt \<Rightarrow> rb_color" where
  "col Lf = Black"
| "col (Nd l i c k v r) = c"

fun desc :: "'v rbt \<Rightarrow> 'v tree" where
  "desc Lf = []"
| "desc (Nd l i c k v r) = desc r @ (i, v) # desc l"

fun ixs :: "'v rbt \<Rightarrow> data_index list" where
  "ixs Lf = []"
| "ixs (Nd l i c k v r) = ixs r @ i # ixs l"

lemma ixs_desc: "map fst (desc t) = ixs t"
  by (induction t) auto

lemma set_ixs: "set (ixs t) = fst ` set (desc t)"
  by (simp flip: ixs_desc)

lemma ixs_of_desc: "desc t = desc t' \<Longrightarrow> ixs t = ixs t'"
  by (metis ixs_desc)

fun plug :: "'v frame list \<Rightarrow> 'v rbt \<Rightarrow> 'v rbt" where
  "plug [] t = t"
| "plug (InL i c k v r # C) t = plug C (Nd t i c k v r)"
| "plug (InR l i c k v # C) t = plug C (Nd l i c k v t)"

fun fix_of :: "'v frame \<Rightarrow> data_index" where
  "fix_of (InL i c k v r) = i"
| "fix_of (InR l i c k v) = i"

fun fcol :: "'v frame \<Rightarrow> rb_color" where
  "fcol (InL i c k v r) = c"
| "fcol (InR l i c k v) = c"

definition cpar :: "'v frame list \<Rightarrow> data_index" where
  "cpar C = (case C of [] \<Rightarrow> NIL | f # _ \<Rightarrow> fix_of f)"

lemma cpar_simps [simp]: "cpar [] = NIL" "cpar (f # C) = fix_of f"
  by (simp_all add: cpar_def)

fun cixs :: "'v frame list \<Rightarrow> data_index list" where
  "cixs [] = []"
| "cixs (InL i c k v r # C) = i # ixs r @ cixs C"
| "cixs (InR l i c k v # C) = i # ixs l @ cixs C"

lemma ixs_plug: "mset (ixs (plug C t)) = mset (ixs t) + mset (cixs C)"
  by (induction C t rule: plug.induct) auto

lemma set_ixs_plug [simp]: "set (ixs (plug C t)) = set (ixs t) \<union> set (cixs C)"
  using arg_cong[OF ixs_plug[of C t], of set_mset] by simp

lemma distinct_ixs_plug: "distinct (ixs (plug C t)) \<longleftrightarrow> distinct (ixs t @ cixs C)"
  using mset_eq_imp_distinct_iff[OF ixs_plug[of C t, folded mset_append]] .

lemma plug_append: "plug (D @ C) t = plug C (plug D t)"
  by (induction D t rule: plug.induct) auto

lemma desc_plug_cong: "desc t = desc t' \<Longrightarrow> desc (plug C t) = desc (plug C t')"
  by (induction C t arbitrary: t' rule: plug.induct) auto

lemma rix_plug: "C \<noteq> [] \<Longrightarrow> rix (plug C t) = rix (plug C t')"
  by (induction C t arbitrary: t' rule: plug.induct) (metis plug.simps rix.simps(2))+

lemma rix_in: "t \<noteq> Lf \<Longrightarrow> rix t \<in> set (ixs t)"
  by (cases t) auto

lemma rix_plug_in: "C \<noteq> [] \<Longrightarrow> rix (plug C t) \<in> set (cixs C)"
proof (induction C arbitrary: t)
  case (Cons f C)
  show ?case
  proof (cases "C = []")
    case True
    then show ?thesis by (cases f) auto
  next
    case False
    then show ?thesis using Cons.IH by (cases f) auto
  qed
qed simp

lemma cpar_in: "C \<noteq> [] \<Longrightarrow> cpar C \<in> set (cixs C)"
  by (cases C; cases "hd C") auto

section \<open>Layout in memory\<close>

definition cell :: "data_index \<Rightarrow> data_index \<Rightarrow> data_index \<Rightarrow> rb_color \<Rightarrow> nat \<Rightarrow> 'v \<Rightarrow> 'v rb_node" where
  "cell l r p c k v = \<lparr> rb_left = l, rb_right = r, rb_parent = p, rb_color = c, rb_payload_type = k, rb_value = v \<rparr>"

lemma cell_simps [simp]:
  "rb_left (cell l r p c k v) = l" "rb_right (cell l r p c k v) = r" "rb_parent (cell l r p c k v) = p"
  "rb_color (cell l r p c k v) = c" "rb_value (cell l r p c k v) = v"
  "(cell l r p c k v)\<lparr>rb_left := x\<rparr> = cell x r p c k v" "(cell l r p c k v)\<lparr>rb_right := x\<rparr> = cell l x p c k v"
  "(cell l r p c k v)\<lparr>rb_parent := x\<rparr> = cell l r x c k v" "(cell l r p c k v)\<lparr>rb_color := d\<rparr> = cell l r p d k v"
  by (simp_all add: cell_def)

fun lay :: "(data_index \<Rightarrow> 'v rb_node option) \<Rightarrow> data_index \<Rightarrow> 'v rbt \<Rightarrow> bool" where
  "lay h p Lf = True"
| "lay h p (Nd l i c k v r) = (h i = Some (cell (rix l) (rix r) p c k v) \<and> lay h i l \<and> lay h i r)"

fun clay :: "(data_index \<Rightarrow> 'v rb_node option) \<Rightarrow> data_index \<Rightarrow> 'v frame list \<Rightarrow> bool" where
  "clay h x [] = True"
| "clay h x (InL i c k v r # C) = (h i = Some (cell x (rix r) (cpar C) c k v) \<and> lay h i r \<and> clay h i C)"
| "clay h x (InR l i c k v # C) = (h i = Some (cell (rix l) x (cpar C) c k v) \<and> lay h i l \<and> clay h i C)"

lemma lay_cong: "(\<And>j. j \<in> set (ixs t) \<Longrightarrow> h' j = h j) \<Longrightarrow> lay h' p t = lay h p t"
  by (induction t arbitrary: p) auto

lemma clay_cong: "(\<And>j. j \<in> set (cixs C) \<Longrightarrow> h' j = h j) \<Longrightarrow> clay h' x C = clay h x C"
proof (induction C arbitrary: x)
  case (Cons f C)
  show ?case
  proof (cases f)
    case (InL i c k v r)
    then have "lay h' i r = lay h i r" using Cons.prems by (intro lay_cong) simp
    then show ?thesis using InL Cons by simp
  next
    case (InR l i c k v)
    then have "lay h' i l = lay h i l" using Cons.prems by (intro lay_cong) simp
    then show ?thesis using InR Cons by simp
  qed
qed simp

lemma lay_upd [simp]: "j \<notin> set (ixs t) \<Longrightarrow> lay (h(j := n)) p t = lay h p t"
  by (rule lay_cong) auto

lemma clay_upd [simp]: "j \<notin> set (cixs C) \<Longrightarrow> clay (h(j := n)) x C = clay h x C"
  by (rule clay_cong) auto

text \<open>The tree \<open>t\<close> stands in the data under the context \<open>C\<close>.\<close>

definition repc :: "'v rb_tree \<Rightarrow> 'v frame list \<Rightarrow> 'v rbt \<Rightarrow> bool" where
  "repc s C t = (rb_root s = rix (plug C t) \<and> lay (rb_data s) (cpar C) t \<and> clay (rb_data s) (rix t) C \<and>
     distinct (ixs t @ cixs C) \<and> NIL \<notin> set (ixs t @ cixs C))"

lemma repc_InL [simp]: "repc s (InL i c k v r # C) t = repc s C (Nd t i c k v r)"
  by (auto simp: repc_def)

lemma repc_InR [simp]: "repc s (InR l i c k v # C) t = repc s C (Nd l i c k v t)"
  by (auto simp: repc_def)

lemma repc_plug: "repc s [] (plug C t) = repc s C t"
  by (induction C t rule: plug.induct) auto

lemma repc_append: "repc s (D @ C) t = repc s C (plug D t)"
  by (induction D t rule: plug.induct) auto

section \<open>Reading a laid out tree\<close>

lemma repc_Nd:
  assumes "repc s C (Nd l i c k v r)"
  shows "i \<noteq> NIL" "rb_data s i = Some (cell (rix l) (rix r) (cpar C) c k v)"
    "get_left_index s i = Some (rix l)" "get_right_index s i = Some (rix r)" "get_parent_index s i = Some (cpar C)"
    "get_color s i = Some c" "i \<notin> set (ixs l)" "i \<notin> set (ixs r)" "i \<notin> set (cixs C)"
  using assms by (auto simp: repc_def get_left_index_def get_right_index_def get_parent_index_def get_color_def)

lemma repc_color:
  assumes "repc s C t"
  shows "get_color s (rix t) = Some (col t)"
proof (cases t)
  case (Nd l i c k v r)
  then show ?thesis using repc_Nd(6)[of s C l i c k v r] assms by simp
qed (simp add: get_color_def)

lemma repc_rix_NIL: "repc s C t \<Longrightarrow> rix t = NIL \<longleftrightarrow> t = Lf"
  by (cases t) (auto dest: repc_Nd(1))

lemma repc_siblings: "repc s C (Nd u g gc gk gv t) \<Longrightarrow> t \<noteq> Lf \<Longrightarrow> rix u \<noteq> rix t"
  using rix_in[of u] rix_in[of t] by (cases u; cases t) (auto simp: repc_def)

lemma repc_root: "repc s C (Nd l i c k v r) \<Longrightarrow> rb_root s = i \<longleftrightarrow> C = []"
  using rix_plug_in[of C "Nd l i c k v r"] by (auto simp: repc_def)

lemma repc_root_Lf: "repc s C Lf \<Longrightarrow> rb_root s = NIL \<longleftrightarrow> C = []"
  using rix_plug_in[of C Lf] by (cases "C = []") (auto simp: repc_def)

lemma repc_is_left:
  assumes "repc s (f # C) (Nd l i c k v r)"
  shows "is_left_child s i = Some (\<exists>j c k v r. f = InL j c k v r)" "is_right_child s i = Some (\<exists>l j c k v. f = InR l j c k v)"
proof -
  have i: "i \<noteq> rb_root s" "get_parent_index s i = Some (fix_of f)"
    using repc_root[OF assms] repc_Nd(5)[OF assms] by auto
  show "is_left_child s i = Some (\<exists>j c k v r. f = InL j c k v r)"
  proof (cases f)
    case (InL j c' k' v' r')
    then have "get_left_index s j = Some i" using assms repc_Nd(3) by fastforce
    then show ?thesis using i InL by (simp add: is_left_child_def)
  next
    case (InR l' j c' k' v')
    then have r: "repc s C (Nd l' j c' k' v' (Nd l i c k v r))" using assms by simp
    then have "rix l' \<noteq> i" using repc_Nd(1)[OF assms] by (cases l') (auto simp: repc_def)
    then show ?thesis using i InR repc_Nd(3)[OF r] by (simp add: is_left_child_def)
  qed
  show "is_right_child s i = Some (\<exists>l j c k v. f = InR l j c k v)"
  proof (cases f)
    case (InR l' j c' k' v')
    then have "get_right_index s j = Some i" using assms repc_Nd(4) by fastforce
    then show ?thesis using i InR by (simp add: is_right_child_def)
  next
    case (InL j c' k' v' r')
    then have r: "repc s C (Nd (Nd l i c k v r) j c' k' v' r')" using assms by simp
    then have "rix r' \<noteq> i" using repc_Nd(1)[OF assms] by (cases r') (auto simp: repc_def)
    then show ?thesis using i InL repc_Nd(4)[OF r] by (simp add: is_right_child_def)
  qed
qed

lemma repc_is_left_root: "repc s [] (Nd l i c k v r) \<Longrightarrow> is_left_child s i = Some False"
  using repc_root by (fastforce simp: is_left_child_def)

section \<open>Writing a laid out tree\<close>

text \<open>What every operation leaves alone: the maximum and all blocks of other owners.\<close>

definition keeps :: "data_index set \<Rightarrow> 'v rb_tree \<Rightarrow> 'v rb_tree \<Rightarrow> bool" where
  "keeps A s s' = (rb_max s' = rb_max s \<and> (\<forall>j. j \<notin> A \<longrightarrow> rb_data s' j = rb_data s j))"

lemma keeps_refl [simp]: "keeps A s s"
  by (simp add: keeps_def)

lemma keeps_trans [trans]: "keeps A s s' \<Longrightarrow> keeps A s' s'' \<Longrightarrow> keeps A s s''"
  by (simp add: keeps_def)

lemma keeps_mono: "keeps A s s' \<Longrightarrow> A \<subseteq> B \<Longrightarrow> keeps B s s'"
  by (auto simp: keeps_def)

lemma write_node_Some:
  "rb_data s i = Some n \<Longrightarrow> write_node s i f = Some (s\<lparr>rb_data := (rb_data s)(i \<mapsto> f n)\<rparr>)"
  by (simp add: write_node_def)

lemma set_color_rep:
  assumes "repc s C (Nd l i c k v r)"
  shows "\<exists>s'. set_color s i c' = Some s' \<and> repc s' C (Nd l i c' k v r) \<and> keeps {i} s s'"
proof -
  let ?s = "s\<lparr>rb_data := (rb_data s)(i \<mapsto> cell (rix l) (rix r) (cpar C) c' k v)\<rparr>"
  have "set_color s i c' = Some ?s"
    using repc_Nd[OF assms] by (simp add: set_color_def write_node_Some)
  moreover have "repc ?s C (Nd l i c' k v r)"
    using assms rix_plug[of C "Nd l i c' k v r" "Nd l i c k v r"] by (cases "C = []") (auto simp: repc_def)
  ultimately show ?thesis by (auto simp: keeps_def)
qed

lemma set_color_left:
  assumes "repc s C (Nd (Nd a i c k v b) g gc gk gv u)"
  shows "\<exists>s'. set_color s i c' = Some s' \<and> repc s' C (Nd (Nd a i c' k v b) g gc gk gv u) \<and> keeps {i} s s'"
  using set_color_rep[of s "InL g gc gk gv u # C"] assms by simp

lemma set_color_right:
  assumes "repc s C (Nd u g gc gk gv (Nd a i c k v b))"
  shows "\<exists>s'. set_color s i c' = Some s' \<and> repc s' C (Nd u g gc gk gv (Nd a i c' k v b)) \<and> keeps {i} s s'"
  using set_color_rep[of s "InR u g gc gk gv # C"] assms by simp

text \<open>Giving the root of a subtree, if there is one, another parent.\<close>

lemma set_parent_lay:
  assumes "lay (rb_data s) p t" "distinct (ixs t)" "NIL \<notin> set (ixs t)"
  shows "\<exists>h. set_parent_index s (rix t) q = Some (s\<lparr>rb_data := h\<rparr>) \<and> lay h q t \<and> (\<forall>j. j \<notin> set (ixs t) \<longrightarrow> h j = rb_data s j)"
proof (cases t)
  case Lf
  then show ?thesis by (intro exI[of _ "rb_data s"]) (simp add: set_parent_index_def)
next
  case (Nd l i c k v r)
  then show ?thesis using assms
    by (intro exI[of _ "(rb_data s)(i \<mapsto> cell (rix l) (rix r) q c k v)"]) (auto simp: set_parent_index_def write_node_Some)
qed

lemma relink_lay:
  assumes "clay (rb_data s) x C" "x \<noteq> NIL" "x \<notin> set (cixs C)" "distinct (cixs C)" "NIL \<notin> set (cixs C)"
  shows "\<exists>h. relink_child s (cpar C) x y = Some (s\<lparr>rb_data := h\<rparr>) \<and> clay h y C \<and> (\<forall>j. j \<notin> set (cixs C) \<longrightarrow> h j = rb_data s j)"
proof (cases C)
  case Nil
  then show ?thesis by (intro exI[of _ "rb_data s"]) (simp add: relink_child_def)
next
  case (Cons f C')
  show ?thesis
  proof (cases f)
    case (InL i c k v r)
    have "rix r \<noteq> x" using assms(2,3) Cons InL by (cases r) auto
    then show ?thesis using assms Cons InL
      by (intro exI[of _ "(rb_data s)(i \<mapsto> cell y (rix r) (cpar C') c k v)"])
        (auto simp: relink_child_def get_left_index_def get_right_index_def set_left_index_def write_node_Some)
  next
    case (InR l i c k v)
    have "rix l \<noteq> x" using assms(2,3) Cons InR by (cases l) auto
    then show ?thesis using assms Cons InR
      by (intro exI[of _ "(rb_data s)(i \<mapsto> cell (rix l) y (cpar C') c k v)"])
        (auto simp: relink_child_def get_left_index_def get_right_index_def set_right_index_def write_node_Some)
  qed
qed

section \<open>Rotations\<close>

text \<open>The blocks of a tree and of the context it stands in.\<close>

definition blocks :: "'v frame list \<Rightarrow> 'v rbt \<Rightarrow> data_index set" where
  "blocks C t = set (ixs t) \<union> set (cixs C)"

lemma blocks_frames [simp]:
  "blocks (InL i c k v r # C) t = blocks C (Nd t i c k v r)" "blocks (InR l i c k v # C) t = blocks C (Nd l i c k v t)"
  by (auto simp: blocks_def)

lemma blocks_desc: "desc t = desc t' \<Longrightarrow> blocks C t = blocks C t'"
  using ixs_of_desc[of t t'] by (simp add: blocks_def)

lemma blocks_plug: "blocks [] (plug C t) = blocks C t"
  by (simp add: blocks_def)

lemma rotate_left_rep:
  assumes "repc s C (Nd u g c1 k1 v1 (Nd y p c2 k2 v2 x))"
  shows "\<exists>s'. rotate_left s g = Some s' \<and> repc s' C (Nd (Nd u g c1 k1 v1 y) p c2 k2 v2 x) \<and>
    keeps (blocks C (Nd u g c1 k1 v1 (Nd y p c2 k2 v2 x))) s s'"
proof -
  let ?h = "rb_data s" and ?gg = "cpar C"
  have l: "?h g = Some (cell (rix u) p ?gg c1 k1 v1)" "?h p = Some (cell (rix y) (rix x) g c2 k2 v2)"
    "lay ?h g u" "lay ?h p y" "lay ?h p x" "clay ?h g C"
    and d: "distinct (ixs u)" "distinct (ixs y)" "distinct (ixs x)" "distinct (cixs C)" "g \<noteq> p" "g \<noteq> NIL" "p \<noteq> NIL"
      "g \<notin> set (ixs u)" "g \<notin> set (ixs y)" "g \<notin> set (ixs x)" "g \<notin> set (cixs C)"
      "p \<notin> set (ixs u)" "p \<notin> set (ixs y)" "p \<notin> set (ixs x)" "p \<notin> set (cixs C)"
      "NIL \<notin> set (ixs u)" "NIL \<notin> set (ixs y)" "NIL \<notin> set (ixs x)" "NIL \<notin> set (cixs C)"
    and dd: "set (ixs y) \<inter> set (ixs u) = {}" "set (ixs y) \<inter> set (ixs x) = {}" "set (ixs y) \<inter> set (cixs C) = {}"
      "set (ixs u) \<inter> set (cixs C) = {}" "set (ixs x) \<inter> set (cixs C) = {}" "set (ixs u) \<inter> set (ixs x) = {}"
    and rt: "rb_root s = rix (plug C (Nd u g c1 k1 v1 (Nd y p c2 k2 v2 x)))"
    using assms by (auto simp: repc_def)
  let ?s1 = "s\<lparr>rb_data := ?h(p \<mapsto> cell g (rix x) ?gg c2 k2 v2)\<rparr>"
  have "lay (rb_data ?s1) p y" using l d by simp
  then obtain h2 where h2: "set_parent_index ?s1 (rix y) g = Some (?s1\<lparr>rb_data := h2\<rparr>)" "lay h2 g y"
    "\<forall>j. j \<notin> set (ixs y) \<longrightarrow> h2 j = rb_data ?s1 j" using set_parent_lay d by blast
  let ?s3 = "s\<lparr>rb_data := h2(g \<mapsto> cell (rix u) (rix y) p c1 k1 v1)\<rparr>"
  have e3: "rb_data ?s3 j = (if j = g then Some (cell (rix u) (rix y) p c1 k1 v1) else if j = p then Some (cell g (rix x) ?gg c2 k2 v2) else ?h j)"
    if "j \<notin> set (ixs y)" for j using h2(3) that d by simp
  have "clay (rb_data ?s3) g C = clay ?h g C"
  proof (rule clay_cong)
    fix j assume "j \<in> set (cixs C)"
    then have "j \<notin> set (ixs y)" "j \<noteq> g" "j \<noteq> p" using d dd by blast+
    then show "rb_data ?s3 j = ?h j" using e3[of j] by simp
  qed
  then obtain h4 where h4: "relink_child ?s3 ?gg g p = Some (?s3\<lparr>rb_data := h4\<rparr>)" "clay h4 p C"
    "\<forall>j. j \<notin> set (cixs C) \<longrightarrow> h4 j = rb_data ?s3 j" using relink_lay l d by blast
  let ?s4 = "s\<lparr>rb_data := h4\<rparr>" and ?s' = "set_root_if (s\<lparr>rb_data := h4\<rparr>) g p"
  have e: "rotate_left s g = Some ?s'"
    using l d h2 h4 by (simp add: rotate_left_def get_right_index_def get_left_index_def get_parent_index_def write_node_Some)
  have r': "rb_root ?s' = rix (plug C (Nd (Nd u g c1 k1 v1 y) p c2 k2 v2 x))"
    using repc_root[OF assms] rt rix_plug[of C "Nd u g c1 k1 v1 (Nd y p c2 k2 v2 x)" "Nd (Nd u g c1 k1 v1 y) p c2 k2 v2 x"] by (cases "C = []") (auto simp: set_root_if_def)
  have q: "rb_data ?s' = h4" "rb_max ?s' = rb_max s" by (simp_all add: set_root_if_def)
  have e4: "h4 j = (if j = g then Some (cell (rix u) (rix y) p c1 k1 v1) else if j = p then Some (cell g (rix x) ?gg c2 k2 v2) else ?h j)"
    if "j \<notin> set (ixs y)" "j \<notin> set (cixs C)" for j using h4(3) e3 that by simp
  have "h4 j = h2 j" if "j \<in> set (ixs y)" for j using h4(3) dd d that by (cases "j = g") auto
  then have "lay h4 g y = lay h2 g y" by (rule lay_cong)
  moreover have f: "h4 j = ?h j" if "j \<in> set (ixs u) \<union> set (ixs x)" for j
  proof -
    have "j \<notin> set (ixs y)" "j \<notin> set (cixs C)" using that dd by auto
    moreover have "j \<noteq> g" "j \<noteq> p" using that d by auto
    ultimately show ?thesis using e4[of j] by simp
  qed
  then have "lay h4 g u = lay ?h g u" "lay h4 p x = lay ?h p x" by (rule lay_cong, simp)+
  ultimately have "repc ?s' C (Nd (Nd u g c1 k1 v1 y) p c2 k2 v2 x)"
    using e4 d dd l h2(2) h4(2) r' q by (auto simp: repc_def)
  then show ?thesis using e e4 q by (auto simp: keeps_def blocks_def)
qed

lemma rotate_right_rep:
  assumes "repc s C (Nd (Nd x p c2 k2 v2 y) g c1 k1 v1 u)"
  shows "\<exists>s'. rotate_right s g = Some s' \<and> repc s' C (Nd x p c2 k2 v2 (Nd y g c1 k1 v1 u)) \<and>
    keeps (blocks C (Nd (Nd x p c2 k2 v2 y) g c1 k1 v1 u)) s s'"
proof -
  let ?h = "rb_data s" and ?gg = "cpar C"
  have l: "?h g = Some (cell p (rix u) ?gg c1 k1 v1)" "?h p = Some (cell (rix x) (rix y) g c2 k2 v2)"
    "lay ?h g u" "lay ?h p y" "lay ?h p x" "clay ?h g C"
    and d: "distinct (ixs u)" "distinct (ixs y)" "distinct (ixs x)" "distinct (cixs C)" "g \<noteq> p" "g \<noteq> NIL" "p \<noteq> NIL"
      "g \<notin> set (ixs u)" "g \<notin> set (ixs y)" "g \<notin> set (ixs x)" "g \<notin> set (cixs C)"
      "p \<notin> set (ixs u)" "p \<notin> set (ixs y)" "p \<notin> set (ixs x)" "p \<notin> set (cixs C)"
      "NIL \<notin> set (ixs u)" "NIL \<notin> set (ixs y)" "NIL \<notin> set (ixs x)" "NIL \<notin> set (cixs C)"
    and dd: "set (ixs y) \<inter> set (ixs u) = {}" "set (ixs y) \<inter> set (ixs x) = {}" "set (ixs y) \<inter> set (cixs C) = {}"
      "set (ixs u) \<inter> set (cixs C) = {}" "set (ixs x) \<inter> set (cixs C) = {}" "set (ixs u) \<inter> set (ixs x) = {}"
    and rt: "rb_root s = rix (plug C (Nd (Nd x p c2 k2 v2 y) g c1 k1 v1 u))"
    using assms by (auto simp: repc_def)
  let ?s1 = "s\<lparr>rb_data := ?h(p \<mapsto> cell (rix x) g ?gg c2 k2 v2)\<rparr>"
  have "lay (rb_data ?s1) p y" using l d by simp
  then obtain h2 where h2: "set_parent_index ?s1 (rix y) g = Some (?s1\<lparr>rb_data := h2\<rparr>)" "lay h2 g y"
    "\<forall>j. j \<notin> set (ixs y) \<longrightarrow> h2 j = rb_data ?s1 j" using set_parent_lay d by blast
  let ?s3 = "s\<lparr>rb_data := h2(g \<mapsto> cell (rix y) (rix u) p c1 k1 v1)\<rparr>"
  have e3: "rb_data ?s3 j = (if j = g then Some (cell (rix y) (rix u) p c1 k1 v1) else if j = p then Some (cell (rix x) g ?gg c2 k2 v2) else ?h j)"
    if "j \<notin> set (ixs y)" for j using h2(3) that d by simp
  have "clay (rb_data ?s3) g C = clay ?h g C"
  proof (rule clay_cong)
    fix j assume "j \<in> set (cixs C)"
    then have "j \<notin> set (ixs y)" "j \<noteq> g" "j \<noteq> p" using d dd by blast+
    then show "rb_data ?s3 j = ?h j" using e3[of j] by simp
  qed
  then obtain h4 where h4: "relink_child ?s3 ?gg g p = Some (?s3\<lparr>rb_data := h4\<rparr>)" "clay h4 p C"
    "\<forall>j. j \<notin> set (cixs C) \<longrightarrow> h4 j = rb_data ?s3 j" using relink_lay l d by blast
  let ?s' = "set_root_if (s\<lparr>rb_data := h4\<rparr>) g p"
  have e: "rotate_right s g = Some ?s'"
    using l d h2 h4 by (simp add: rotate_right_def get_right_index_def get_left_index_def get_parent_index_def write_node_Some)
  have r': "rb_root ?s' = rix (plug C (Nd x p c2 k2 v2 (Nd y g c1 k1 v1 u)))"
    using repc_root[OF assms] rt rix_plug[of C "Nd (Nd x p c2 k2 v2 y) g c1 k1 v1 u" "Nd x p c2 k2 v2 (Nd y g c1 k1 v1 u)"] by (cases "C = []") (auto simp: set_root_if_def)
  have q: "rb_data ?s' = h4" "rb_max ?s' = rb_max s" by (simp_all add: set_root_if_def)
  have e4: "h4 j = (if j = g then Some (cell (rix y) (rix u) p c1 k1 v1) else if j = p then Some (cell (rix x) g ?gg c2 k2 v2) else ?h j)"
    if "j \<notin> set (ixs y)" "j \<notin> set (cixs C)" for j using h4(3) e3 that by simp
  have "h4 j = h2 j" if "j \<in> set (ixs y)" for j using h4(3) dd d that by (cases "j = g") auto
  then have "lay h4 g y = lay h2 g y" by (rule lay_cong)
  moreover have f: "h4 j = ?h j" if "j \<in> set (ixs u) \<union> set (ixs x)" for j
  proof -
    have "j \<notin> set (ixs y)" "j \<notin> set (cixs C)" using that dd by auto
    moreover have "j \<noteq> g" "j \<noteq> p" using that d by auto
    ultimately show ?thesis using e4[of j] by simp
  qed
  then have "lay h4 g u = lay ?h g u" "lay h4 p x = lay ?h p x" by (rule lay_cong, simp)+
  ultimately have "repc ?s' C (Nd x p c2 k2 v2 (Nd y g c1 k1 v1 u))"
    using e4 d dd l h2(2) h4(2) r' q by (auto simp: repc_def)
  then show ?thesis using e e4 q by (auto simp: keeps_def blocks_def)
qed

section \<open>Colours and black heights\<close>

fun bh :: "'v rbt \<Rightarrow> nat" where
  "bh Lf = 0"
| "bh (Nd l i c k v r) = bh l + (if c = Black then 1 else 0)"

fun invh :: "'v rbt \<Rightarrow> bool" where
  "invh Lf = True"
| "invh (Nd l i c k v r) = (bh l = bh r \<and> invh l \<and> invh r)"

fun invc :: "'v rbt \<Rightarrow> bool" where
  "invc Lf = True"
| "invc (Nd l i c k v r) = ((c = Red \<longrightarrow> col l = Black \<and> col r = Black) \<and> invc l \<and> invc r)"

text \<open>The red-black invariants of a whole tree, which is what \<open>verify_rb_tree\<close> asserts, with a black root.\<close>

definition balanced :: "'v rbt \<Rightarrow> bool" where
  "balanced t = (invh t \<and> invc t \<and> col t = Black)"

definition ccol :: "'v frame list \<Rightarrow> rb_color" where
  "ccol C = (case C of [] \<Rightarrow> Red | f # _ \<Rightarrow> fcol f)"

lemma ccol_simps [simp]: "ccol [] = Red" "ccol (f # C) = fcol f"
  by (simp_all add: ccol_def)

text \<open>A context takes subtrees of black height \<open>n\<close>.\<close>

fun takes :: "'v frame list \<Rightarrow> nat \<Rightarrow> bool" where
  "takes [] n = True"
| "takes (InL i c k v r # C) n = (bh r = n \<and> invh r \<and> invc r \<and> (c = Red \<longrightarrow> col r = Black \<and> ccol C = Black) \<and>
     takes C (n + (if c = Black then 1 else 0)))"
| "takes (InR l i c k v # C) n = (bh l = n \<and> invh l \<and> invc l \<and> (c = Red \<longrightarrow> col l = Black \<and> ccol C = Black) \<and>
     takes C (n + (if c = Black then 1 else 0)))"

lemma rb_color_cases [simp]: "c \<noteq> Red \<longleftrightarrow> c = Black" "c \<noteq> Black \<longleftrightarrow> c = Red"
  by (cases c; simp)+

lemma balanced_plug: "balanced (plug C t) \<longleftrightarrow> takes C (bh t) \<and> invh t \<and> invc t \<and> (ccol C = Red \<longrightarrow> col t = Black)"
proof (induction C t rule: plug.induct)
  case (2 i c k v r C t)
  then show ?case by (cases c) auto
next
  case (3 l i c k v C t)
  then show ?case by (cases c) auto
qed (auto simp: balanced_def)

end
