(* ===== verification/Rb_Insert.thy ===== *)
theory Rb_Insert
  imports Rb_Shape
begin

text \<open>Insertion into the red-black tree: the walk down, the repair of a red node below a red one, and the whole
  operation, which adds the value to the descending list behind its equals and keeps the tree balanced.\<close>

section \<open>The walk down\<close>

fun hole :: "('v \<Rightarrow> 'v \<Rightarrow> ordering) \<Rightarrow> 'v \<Rightarrow> 'v rbt \<Rightarrow> 'v frame list \<Rightarrow> 'v frame list" where
  "hole cmp v Lf C = C"
| "hole cmp v (Nd l i c k w r) C =
     (if cmp v w = Greater then hole cmp v r (InR l i c k w # C) else hole cmp v l (InL i c k w r # C))"

lemma plug_hole: "plug (hole cmp v t C) Lf = plug C t"
  by (induction t arbitrary: C) auto

text \<open>The frame on which the new node hangs, and the side it goes to.\<close>

lemma hole_Nd:
  "t \<noteq> Lf \<Longrightarrow> (\<exists>C' l i c k w. hole cmp v t C = InR l i c k w # C' \<and> cmp v w = Greater) \<or>
    (\<exists>C' i c k w r. hole cmp v t C = InL i c k w r # C' \<and> cmp v w \<noteq> Greater)"
proof (induction t arbitrary: C)
  case (Nd l i c k w r)
  then show ?case by (cases "cmp v w = Greater"; cases "l = Lf"; cases "r = Lf") auto
qed simp

lemma descend_rep:
  assumes "repc s C t" "t \<noteq> Lf"
  shows "descend cmp s \<lparr>rb_left = a, rb_right = b, rb_parent = d, rb_color = e, rb_payload_type = k', rb_value = v\<rparr> (rix t)
    = Some (cpar (hole cmp v t C))"
  using assms
proof (induction t arbitrary: C)
  case (Nd l i c k w r)
  have h: "rb_data s i = Some (cell (rix l) (rix r) (cpar C) c k w)" using repc_Nd(2)[OF Nd.prems(1)] .
  have l: "repc s (InL i c k w r # C) l" and r: "repc s (InR l i c k w # C) r" using Nd.prems(1) by simp_all
  note n = repc_rix_NIL[OF l] repc_rix_NIL[OF r]
  show ?case
    by (cases "cmp v w"; cases "l = Lf"; cases "r = Lf"; subst descend.simps)
      (simp_all add: h n Nd.IH(1)[OF l] Nd.IH(2)[OF r])
qed simp

text \<open>The list around the hole.\<close>

fun cpre :: "'v frame list \<Rightarrow> 'v tree" where
  "cpre [] = []"
| "cpre (InL i c k v r # C) = cpre C @ desc r @ [(i, v)]"
| "cpre (InR l i c k v # C) = cpre C"

fun csuf :: "'v frame list \<Rightarrow> 'v tree" where
  "csuf [] = []"
| "csuf (InL i c k v r # C) = csuf C"
| "csuf (InR l i c k v # C) = (i, v) # desc l @ csuf C"

lemma desc_plug: "desc (plug C t) = cpre C @ desc t @ csuf C"
  by (induction C t rule: plug.induct) auto

lemma tree_insert_split:
  assumes "\<And>p. p \<in> set as \<Longrightarrow> cmp v (snd p) \<noteq> Greater" "\<And>p. p \<in> set bs \<Longrightarrow> cmp v (snd p) = Greater"
  shows "tree_insert cmp x v (as @ bs) = as @ (x, v) # bs"
  using assms
proof (induction as)
  case Nil
  then show ?case by (cases bs) force+
next
  case (Cons p as)
  then show ?case using Cons.prems(1)[of p] by (cases p) auto
qed

lemma desc_hole:
  assumes cmp: "total_cmp cmp" and "descending cmp (desc (plug C t))"
    and "\<And>p. p \<in> set (cpre C) \<Longrightarrow> cmp v (snd p) \<noteq> Greater" "\<And>p. p \<in> set (csuf C) \<Longrightarrow> cmp v (snd p) = Greater"
  shows "desc (plug (hole cmp v t C) (Nd Lf x c k v Lf)) = tree_insert cmp x v (desc (plug C t))"
  using assms(2-)
proof (induction t arbitrary: C)
  case Lf
  then show ?case by (simp add: desc_plug tree_insert_split)
next
  case (Nd l i d k' w r)
  have s: "\<And>p q. p \<in> set (desc r) \<Longrightarrow> cmp (snd p) w \<noteq> Less" "\<And>q. q \<in> set (desc l) \<Longrightarrow> cmp w (snd q) \<noteq> Less"
    using Nd.prems(1) by (auto simp: desc_plug descending_def sorted_wrt_append)
  show ?case
  proof (cases "cmp v w = Greater")
    case True
    have "cmp v (snd q) = Greater" if "q \<in> set (desc l)" for q
      using s(2)[OF that] True total_cmp_flip[OF cmp] total_cmp_trans[OF cmp, of w "snd q" v] by auto
    then show ?thesis using Nd.IH(2)[of "InR l i d k' w # C"] Nd.prems True by force
  next
    case False
    have "cmp v (snd q) \<noteq> Greater" if "q \<in> set (desc r)" for q
      using s(1)[OF that] False total_cmp_flip[OF cmp] total_cmp_trans[OF cmp, of "snd q" w v] by auto
    then show ?thesis using Nd.IH(1)[of "InL i d k' w r # C"] Nd.prems False by force
  qed
qed

lemma desc_insert:
  assumes "total_cmp cmp" "descending cmp (desc t)"
  shows "desc (plug (hole cmp v t []) (Nd Lf x c k v Lf)) = tree_insert cmp x v (desc t)"
  using desc_hole[of cmp "[]" t v x c k] assms by simp

section \<open>Hanging the new node\<close>

lemma attach_rep:
  assumes "repc s (f # C) Lf" "x \<noteq> NIL" "x \<notin> set (cixs (f # C))" "rb_data s x \<noteq> None"
    and s1: "s1 = (case f of InR l i c k w \<Rightarrow> set_right_index s i x | InL i c k w r \<Rightarrow> set_left_index s i x)"
  shows "\<exists>s2 s'. s1 = Some s2 \<and> write_node s2 x (\<lambda>_. cell NIL NIL (fix_of f) Red 0 v) = Some s' \<and>
    repc s' (f # C) (Nd Lf x Red 0 v Lf) \<and> keeps (insert x (set (cixs (f # C)))) s s'"
proof -
  have p: "repc s [] (plug (f # C) Lf)" using assms(1) by (simp add: repc_plug)
  let ?n = "cell NIL NIL (fix_of f) Red 0 v" and ?i = "fix_of f"
  have rt: "rb_root s = rix (plug (f # C) (Nd Lf x Red 0 v Lf))"
    using p rix_plug[of "f # C" Lf "Nd Lf x Red 0 v Lf"] by (simp add: repc_def)
  show ?thesis
  proof (cases f)
    case (InL i c k w r)
    let ?s2 = "s\<lparr>rb_data := (rb_data s)(i \<mapsto> cell x (rix r) (cpar C) c k w)\<rparr>"
    let ?s' = "s\<lparr>rb_data := (rb_data s)(i \<mapsto> cell x (rix r) (cpar C) c k w, x \<mapsto> ?n)\<rparr>"
    have "set_left_index s i x = Some ?s2" "write_node ?s2 x (\<lambda>_. ?n) = Some ?s'"
      using assms InL by (auto simp: repc_def set_left_index_def write_node_def)
    moreover have "repc ?s' (f # C) (Nd Lf x Red 0 v Lf)" using assms InL rt by (auto simp: repc_def)
    ultimately show ?thesis using s1 InL by (auto simp: keeps_def)
  next
    case (InR l i c k w)
    let ?s2 = "s\<lparr>rb_data := (rb_data s)(i \<mapsto> cell (rix l) x (cpar C) c k w)\<rparr>"
    let ?s' = "s\<lparr>rb_data := (rb_data s)(i \<mapsto> cell (rix l) x (cpar C) c k w, x \<mapsto> ?n)\<rparr>"
    have "set_right_index s i x = Some ?s2" "write_node ?s2 x (\<lambda>_. ?n) = Some ?s'"
      using assms InR by (auto simp: repc_def set_right_index_def write_node_def)
    moreover have "repc ?s' (f # C) (Nd Lf x Red 0 v Lf)" using assms InR rt by (auto simp: repc_def)
    ultimately show ?thesis using s1 InR by (auto simp: keeps_def)
  qed
qed

lemma insert_node_no_fix_rep:
  assumes cmp: "total_cmp cmp" and r: "repc s [] t" "t \<noteq> Lf" and x: "x \<noteq> NIL" "x \<notin> set (ixs t)" "rb_data s x \<noteq> None"
  shows "\<exists>s'. insert_node_no_fix cmp s (fresh_node Red v) x = Some s' \<and>
    repc s' (hole cmp v t []) (Nd Lf x Red 0 v Lf) \<and> keeps (insert x (set (ixs t))) s s'"
proof -
  let ?C = "hole cmp v t []"
  have c: "plug ?C Lf = t" by (simp add: plug_hole)
  then have r': "repc s ?C Lf" using r(1) by (metis repc_plug)
  have ix: "set (cixs ?C) = set (ixs t)" using set_ixs_plug[of ?C Lf] c by simp
  have d: "descend cmp s (fresh_node Red v) (rb_root s) = Some (cpar ?C)"
    using descend_rep[OF r] r(1) by (simp add: fresh_node_def repc_def)
  have n: "(fresh_node Red v)\<lparr>rb_parent := p\<rparr> = cell NIL NIL p Red 0 v" for p
    by (simp add: fresh_node_def cell_def)
  consider l i e k w C' where "?C = InR l i e k w # C'" "cmp v w = Greater"
    | i e k w q C' where "?C = InL i e k w q # C'" "cmp v w \<noteq> Greater"
    using hole_Nd[OF r(2), of cmp v "[]"] by blast
  then show ?thesis
  proof cases
    case 1
    then have h: "rb_data s i = Some (cell (rix l) NIL (cpar C') e k w)" using repc_Nd(2) r' by fastforce
    have "repc s (InR l i e k w # C') Lf" "x \<notin> set (cixs (InR l i e k w # C'))" using r' x ix 1 by simp_all
    then obtain s2 s' where s: "set_right_index s i x = Some s2" "write_node s2 x (\<lambda>_. cell NIL NIL i Red 0 v) = Some s'"
      "repc s' ?C (Nd Lf x Red 0 v Lf)" "keeps (insert x (set (ixs t))) s s'"
      using attach_rep[OF _ x(1) _ x(3) refl, of "InR l i e k w" C' v] ix 1 by auto
    have "insert_node_no_fix cmp s (fresh_node Red v) x = Some s'"
      using s(1,2) d h 1 n total_cmp_flip[OF cmp] by (simp add: insert_node_no_fix_def) (simp add: fresh_node_def)
    then show ?thesis using s by blast
  next
    case 2
    then have h: "rb_data s i = Some (cell NIL (rix q) (cpar C') e k w)" using repc_Nd(2) r' by fastforce
    have "repc s (InL i e k w q # C') Lf" "x \<notin> set (cixs (InL i e k w q # C'))" using r' x ix 2 by simp_all
    then obtain s2 s' where s: "set_left_index s i x = Some s2" "write_node s2 x (\<lambda>_. cell NIL NIL i Red 0 v) = Some s'"
      "repc s' ?C (Nd Lf x Red 0 v Lf)" "keeps (insert x (set (ixs t))) s s'"
      using attach_rep[OF _ x(1) _ x(3) refl, of "InL i e k w q" C' v] ix 2 by auto
    have "insert_node_no_fix cmp s (fresh_node Red v) x = Some s'"
      using s(1,2) d h 2 n total_cmp_flip[OF cmp] by (simp add: insert_node_no_fix_def) (simp add: fresh_node_def)
    then show ?thesis using s by blast
  qed
qed

section \<open>The repair\<close>

text \<open>A red uncle: parent and uncle turn black, the grandparent red.\<close>

lemma recolour_left:
  assumes "repc s C (Nd (Nd a p c k v b) g gc gk gv (Nd ul ui uc uk uv ur))"
  shows "\<exists>s1 s2 s3. set_color s p Black = Some s1 \<and> set_color s1 ui Black = Some s2 \<and> set_color s2 g Red = Some s3 \<and>
    repc s3 C (Nd (Nd a p Black k v b) g Red gk gv (Nd ul ui Black uk uv ur)) \<and> keeps {p, ui, g} s s3"
proof -
  obtain s1 where s1: "set_color s p Black = Some s1" "repc s1 C (Nd (Nd a p Black k v b) g gc gk gv (Nd ul ui uc uk uv ur))" "keeps {p} s s1"
    using set_color_left[OF assms] by blast
  obtain s2 where s2: "set_color s1 ui Black = Some s2" "repc s2 C (Nd (Nd a p Black k v b) g gc gk gv (Nd ul ui Black uk uv ur))" "keeps {ui} s1 s2"
    using set_color_right[OF s1(2)] by blast
  obtain s3 where s3: "set_color s2 g Red = Some s3" "repc s3 C (Nd (Nd a p Black k v b) g Red gk gv (Nd ul ui Black uk uv ur))" "keeps {g} s2 s3"
    using set_color_rep[OF s2(2)] by blast
  show ?thesis using s1 s2 s3 by (auto simp: keeps_def)
qed

lemma recolour_right:
  assumes "repc s C (Nd (Nd ul ui uc uk uv ur) g gc gk gv (Nd a p c k v b))"
  shows "\<exists>s1 s2 s3. set_color s p Black = Some s1 \<and> set_color s1 ui Black = Some s2 \<and> set_color s2 g Red = Some s3 \<and>
    repc s3 C (Nd (Nd ul ui Black uk uv ur) g Red gk gv (Nd a p Black k v b)) \<and> keeps {p, ui, g} s s3"
proof -
  obtain s1 where s1: "set_color s p Black = Some s1" "repc s1 C (Nd (Nd ul ui uc uk uv ur) g gc gk gv (Nd a p Black k v b))" "keeps {p} s s1"
    using set_color_right[OF assms] by blast
  obtain s2 where s2: "set_color s1 ui Black = Some s2" "repc s2 C (Nd (Nd ul ui Black uk uv ur) g gc gk gv (Nd a p Black k v b))" "keeps {ui} s1 s2"
    using set_color_left[OF s1(2)] by blast
  obtain s3 where s3: "set_color s2 g Red = Some s3" "repc s3 C (Nd (Nd ul ui Black uk uv ur) g Red gk gv (Nd a p Black k v b))" "keeps {g} s2 s3"
    using set_color_rep[OF s2(2)] by blast
  show ?thesis using s1 s2 s3 by (auto simp: keeps_def)
qed

text \<open>The four places of a red node below a red parent. With a red uncle the grandparent is next.\<close>

lemma insert_fix_LL_red:
  assumes "repc s C (Nd (Nd (Nd l x Red xk xv r) p Red k v b) g gc gk gv (Nd ul ui Red uk uv ur))"
  shows "\<exists>s'. insert_fix s x = Some (s', g) \<and>
    repc s' C (Nd (Nd (Nd l x Red xk xv r) p Black k v b) g Red gk gv (Nd ul ui Black uk uv ur)) \<and> keeps {p, ui, g} s s'"
proof -
  have 1: "repc s (InL g gc gk gv (Nd ul ui Red uk uv ur) # C) (Nd (Nd l x Red xk xv r) p Red k v b)"
    and 2: "repc s (InL p Red k v b # InL g gc gk gv (Nd ul ui Red uk uv ur) # C) (Nd l x Red xk xv r)"
    and 3: "repc s (InR (Nd (Nd l x Red xk xv r) p Red k v b) g gc gk gv # C) (Nd ul ui Red uk uv ur)" using assms by simp_all
  show ?thesis using recolour_left[OF assms] repc_root[OF 2] repc_Nd(1)[OF assms]
    by (auto simp: insert_fix_def repc_Nd[OF 1] repc_Nd[OF 2] repc_Nd[OF 3] repc_Nd[OF assms])
qed

lemma insert_fix_LR_red:
  assumes "repc s C (Nd (Nd a p Red k v (Nd l x Red xk xv r)) g gc gk gv (Nd ul ui Red uk uv ur))"
  shows "\<exists>s'. insert_fix s x = Some (s', g) \<and>
    repc s' C (Nd (Nd a p Black k v (Nd l x Red xk xv r)) g Red gk gv (Nd ul ui Black uk uv ur)) \<and> keeps {p, ui, g} s s'"
proof -
  have 1: "repc s (InL g gc gk gv (Nd ul ui Red uk uv ur) # C) (Nd a p Red k v (Nd l x Red xk xv r))"
    and 2: "repc s (InR a p Red k v # InL g gc gk gv (Nd ul ui Red uk uv ur) # C) (Nd l x Red xk xv r)"
    and 3: "repc s (InR (Nd a p Red k v (Nd l x Red xk xv r)) g gc gk gv # C) (Nd ul ui Red uk uv ur)" using assms by simp_all
  show ?thesis using recolour_left[OF assms] repc_root[OF 2] repc_Nd(1)[OF assms]
    by (auto simp: insert_fix_def repc_Nd[OF 1] repc_Nd[OF 2] repc_Nd[OF 3] repc_Nd[OF assms])
qed

lemma insert_fix_RR_red:
  assumes "repc s C (Nd (Nd ul ui Red uk uv ur) g gc gk gv (Nd a p Red k v (Nd l x Red xk xv r)))"
  shows "\<exists>s'. insert_fix s x = Some (s', g) \<and>
    repc s' C (Nd (Nd ul ui Black uk uv ur) g Red gk gv (Nd a p Black k v (Nd l x Red xk xv r))) \<and> keeps {p, ui, g} s s'"
proof -
  have 1: "repc s (InR (Nd ul ui Red uk uv ur) g gc gk gv # C) (Nd a p Red k v (Nd l x Red xk xv r))"
    and 2: "repc s (InR a p Red k v # InR (Nd ul ui Red uk uv ur) g gc gk gv # C) (Nd l x Red xk xv r)"
    and 3: "repc s (InL g gc gk gv (Nd a p Red k v (Nd l x Red xk xv r)) # C) (Nd ul ui Red uk uv ur)" using assms by simp_all
  show ?thesis using recolour_right[OF assms] repc_root[OF 2] repc_Nd(1)[OF assms]
    by (auto simp: insert_fix_def repc_Nd[OF 1] repc_Nd[OF 2] repc_Nd[OF 3] repc_Nd[OF assms])
qed

lemma insert_fix_RL_red:
  assumes "repc s C (Nd (Nd ul ui Red uk uv ur) g gc gk gv (Nd (Nd l x Red xk xv r) p Red k v b))"
  shows "\<exists>s'. insert_fix s x = Some (s', g) \<and>
    repc s' C (Nd (Nd ul ui Black uk uv ur) g Red gk gv (Nd (Nd l x Red xk xv r) p Black k v b)) \<and> keeps {p, ui, g} s s'"
proof -
  have 1: "repc s (InR (Nd ul ui Red uk uv ur) g gc gk gv # C) (Nd (Nd l x Red xk xv r) p Red k v b)"
    and 2: "repc s (InL p Red k v b # InR (Nd ul ui Red uk uv ur) g gc gk gv # C) (Nd l x Red xk xv r)"
    and 3: "repc s (InL g gc gk gv (Nd (Nd l x Red xk xv r) p Red k v b) # C) (Nd ul ui Red uk uv ur)" using assms by simp_all
  show ?thesis using recolour_right[OF assms] repc_root[OF 2] repc_Nd(1)[OF assms]
    by (auto simp: insert_fix_def repc_Nd[OF 1] repc_Nd[OF 2] repc_Nd[OF 3] repc_Nd[OF assms])
qed

text \<open>With a black uncle one or two rotations end the repair.\<close>

lemma insert_fix_LL_black:
  assumes "repc s C (Nd (Nd (Nd l x Red xk xv r) p Red k v b) g gc gk gv u)" "col u = Black"
  shows "\<exists>s'. insert_fix s x = Some (s', NIL) \<and>
    repc s' C (Nd (Nd l x Red xk xv r) p gc k v (Nd b g Red gk gv u)) \<and> keeps (blocks C (Nd (Nd (Nd l x Red xk xv r) p Red k v b) g gc gk gv u)) s s'"
proof -
  have 1: "repc s (InL g gc gk gv u # C) (Nd (Nd l x Red xk xv r) p Red k v b)"
    and 2: "repc s (InL p Red k v b # InL g gc gk gv u # C) (Nd l x Red xk xv r)"
    and 3: "repc s (InR (Nd (Nd l x Red xk xv r) p Red k v b) g gc gk gv # C) u" using assms by simp_all
  obtain s1 where s1: "rotate_right s g = Some s1" "repc s1 C (Nd (Nd l x Red xk xv r) p Red k v (Nd b g gc gk gv u))" "keeps (blocks C (Nd (Nd (Nd l x Red xk xv r) p Red k v b) g gc gk gv u)) s s1"
    using rotate_right_rep[OF assms(1)] by blast
  obtain s2 where s2: "set_color s1 g Red = Some s2" "repc s2 C (Nd (Nd l x Red xk xv r) p Red k v (Nd b g Red gk gv u))" "keeps ({g}) s1 s2"
    using set_color_right[OF s1(2)] by blast
  obtain s3 where s3: "set_color s2 p gc = Some s3" "repc s3 C (Nd (Nd l x Red xk xv r) p gc k v (Nd b g Red gk gv u))" "keeps ({p}) s2 s3"
    using set_color_rep[OF s2(2)] by blast
  have "insert_fix s x = Some (s3, NIL)"
    using repc_root[OF 2] repc_Nd(1)[OF assms(1)] repc_color[OF 3] assms(2) s1(1) s2(1) s3(1)
    by (simp add: insert_fix_def repc_Nd[OF 1] repc_Nd[OF 2] repc_Nd[OF assms(1)] repc_is_left[OF 1] repc_is_left[OF 2])
  moreover have "keeps (blocks C (Nd (Nd (Nd l x Red xk xv r) p Red k v b) g gc gk gv u)) s s3"
    using s1(3) s2(3) s3(3) by (auto simp: keeps_def blocks_def)
  ultimately show ?thesis using s3(2) by blast
qed

lemma insert_fix_LR_black:
  assumes "repc s C (Nd (Nd a p Red k v (Nd l x Red xk xv r)) g gc gk gv u)" "col u = Black"
  shows "\<exists>s'. insert_fix s x = Some (s', NIL) \<and>
    repc s' C (Nd (Nd a p Red k v l) x gc xk xv (Nd r g Red gk gv u)) \<and> keeps (blocks C (Nd (Nd a p Red k v (Nd l x Red xk xv r)) g gc gk gv u)) s s'"
proof -
  have 1: "repc s (InL g gc gk gv u # C) (Nd a p Red k v (Nd l x Red xk xv r))"
    and 2: "repc s (InR a p Red k v # InL g gc gk gv u # C) (Nd l x Red xk xv r)"
    and 3: "repc s (InR (Nd a p Red k v (Nd l x Red xk xv r)) g gc gk gv # C) u" using assms by simp_all
  obtain s1 where s1: "rotate_left s p = Some s1" "repc s1 C (Nd (Nd (Nd a p Red k v l) x Red xk xv r) g gc gk gv u)" "keeps (blocks C (Nd (Nd a p Red k v (Nd l x Red xk xv r)) g gc gk gv u)) s s1"
    using rotate_left_rep[OF 1, simplified] by blast
  obtain s2 where s2: "rotate_right s1 g = Some s2" "repc s2 C (Nd (Nd a p Red k v l) x Red xk xv (Nd r g gc gk gv u))" "keeps (blocks C (Nd (Nd (Nd a p Red k v l) x Red xk xv r) g gc gk gv u)) s1 s2"
    using rotate_right_rep[OF s1(2)] by blast
  obtain s3 where s3: "set_color s2 x gc = Some s3" "repc s3 C (Nd (Nd a p Red k v l) x gc xk xv (Nd r g gc gk gv u))" "keeps ({x}) s2 s3"
    using set_color_rep[OF s2(2)] by blast
  obtain s4 where s4: "set_color s3 g Red = Some s4" "repc s4 C (Nd (Nd a p Red k v l) x gc xk xv (Nd r g Red gk gv u))" "keeps ({g}) s3 s4"
    using set_color_right[OF s3(2)] by blast
  have "insert_fix s x = Some (s4, NIL)"
    using repc_root[OF 2] repc_Nd(1)[OF assms(1)] repc_color[OF 3] assms(2) s1(1) s2(1) s3(1) s4(1)
    by (simp add: insert_fix_def repc_Nd[OF 1] repc_Nd[OF 2] repc_Nd[OF assms(1)] repc_is_left[OF 1] repc_is_left[OF 2])
  moreover have "keeps (blocks C (Nd (Nd a p Red k v (Nd l x Red xk xv r)) g gc gk gv u)) s s4"
    using s1(3) s2(3) s3(3) s4(3) by (auto simp: keeps_def blocks_def)
  ultimately show ?thesis using s4(2) by blast
qed

lemma insert_fix_RR_black:
  assumes "repc s C (Nd u g gc gk gv (Nd a p Red k v (Nd l x Red xk xv r)))" "col u = Black"
  shows "\<exists>s'. insert_fix s x = Some (s', NIL) \<and>
    repc s' C (Nd (Nd u g Red gk gv a) p gc k v (Nd l x Red xk xv r)) \<and> keeps (blocks C (Nd u g gc gk gv (Nd a p Red k v (Nd l x Red xk xv r)))) s s'"
proof -
  have 1: "repc s (InR u g gc gk gv # C) (Nd a p Red k v (Nd l x Red xk xv r))"
    and 2: "repc s (InR a p Red k v # InR u g gc gk gv # C) (Nd l x Red xk xv r)"
    and 3: "repc s (InL g gc gk gv (Nd a p Red k v (Nd l x Red xk xv r)) # C) u" using assms by simp_all
  obtain s1 where s1: "rotate_left s g = Some s1" "repc s1 C (Nd (Nd u g gc gk gv a) p Red k v (Nd l x Red xk xv r))" "keeps (blocks C (Nd u g gc gk gv (Nd a p Red k v (Nd l x Red xk xv r)))) s s1"
    using rotate_left_rep[OF assms(1)] by blast
  obtain s2 where s2: "set_color s1 g Red = Some s2" "repc s2 C (Nd (Nd u g Red gk gv a) p Red k v (Nd l x Red xk xv r))" "keeps ({g}) s1 s2"
    using set_color_left[OF s1(2)] by blast
  obtain s3 where s3: "set_color s2 p gc = Some s3" "repc s3 C (Nd (Nd u g Red gk gv a) p gc k v (Nd l x Red xk xv r))" "keeps ({p}) s2 s3"
    using set_color_rep[OF s2(2)] by blast
  have "insert_fix s x = Some (s3, NIL)"
    using repc_root[OF 2] repc_Nd(1)[OF assms(1)] repc_color[OF 3] assms(2) repc_siblings[OF assms(1)] s1(1) s2(1) s3(1)
    by (simp add: insert_fix_def repc_Nd[OF 1] repc_Nd[OF 2] repc_Nd[OF assms(1)] repc_is_left[OF 1] repc_is_left[OF 2])
  moreover have "keeps (blocks C (Nd u g gc gk gv (Nd a p Red k v (Nd l x Red xk xv r)))) s s3"
    using s1(3) s2(3) s3(3) by (auto simp: keeps_def blocks_def)
  ultimately show ?thesis using s3(2) by blast
qed

lemma insert_fix_RL_black:
  assumes "repc s C (Nd u g gc gk gv (Nd (Nd l x Red xk xv r) p Red k v b))" "col u = Black"
  shows "\<exists>s'. insert_fix s x = Some (s', NIL) \<and>
    repc s' C (Nd (Nd u g Red gk gv l) x gc xk xv (Nd r p Red k v b)) \<and> keeps (blocks C (Nd u g gc gk gv (Nd (Nd l x Red xk xv r) p Red k v b))) s s'"
proof -
  have 1: "repc s (InR u g gc gk gv # C) (Nd (Nd l x Red xk xv r) p Red k v b)"
    and 2: "repc s (InL p Red k v b # InR u g gc gk gv # C) (Nd l x Red xk xv r)"
    and 3: "repc s (InL g gc gk gv (Nd (Nd l x Red xk xv r) p Red k v b) # C) u" using assms by simp_all
  obtain s1 where s1: "rotate_right s p = Some s1" "repc s1 C (Nd u g gc gk gv (Nd l x Red xk xv (Nd r p Red k v b)))" "keeps (blocks C (Nd u g gc gk gv (Nd (Nd l x Red xk xv r) p Red k v b))) s s1"
    using rotate_right_rep[OF 1, simplified] by blast
  obtain s2 where s2: "rotate_left s1 g = Some s2" "repc s2 C (Nd (Nd u g gc gk gv l) x Red xk xv (Nd r p Red k v b))" "keeps (blocks C (Nd u g gc gk gv (Nd l x Red xk xv (Nd r p Red k v b)))) s1 s2"
    using rotate_left_rep[OF s1(2)] by blast
  obtain s3 where s3: "set_color s2 x gc = Some s3" "repc s3 C (Nd (Nd u g gc gk gv l) x gc xk xv (Nd r p Red k v b))" "keeps ({x}) s2 s3"
    using set_color_rep[OF s2(2)] by blast
  obtain s4 where s4: "set_color s3 g Red = Some s4" "repc s4 C (Nd (Nd u g Red gk gv l) x gc xk xv (Nd r p Red k v b))" "keeps ({g}) s3 s4"
    using set_color_left[OF s3(2)] by blast
  have "insert_fix s x = Some (s4, NIL)"
    using repc_root[OF 2] repc_Nd(1)[OF assms(1)] repc_color[OF 3] assms(2) repc_siblings[OF assms(1)] s1(1) s2(1) s3(1) s4(1)
    by (simp add: insert_fix_def repc_Nd[OF 1] repc_Nd[OF 2] repc_Nd[OF assms(1)] repc_is_left[OF 1] repc_is_left[OF 2])
  moreover have "keeps (blocks C (Nd u g gc gk gv (Nd (Nd l x Red xk xv r) p Red k v b))) s s4"
    using s1(3) s2(3) s3(3) s4(3) by (auto simp: keeps_def blocks_def)
  ultimately show ?thesis using s4(2) by blast
qed

section \<open>The loop\<close>

text \<open>One step of the repair, at a red node whose parent is red: it ends, or goes on at a red grandparent.\<close>

definition repaired :: "'v rb_tree \<Rightarrow> data_index \<Rightarrow> 'v frame list \<Rightarrow> 'v rbt \<Rightarrow> bool" where
  "repaired s x C t = (\<exists>s' t'. insert_fix s x = Some (s', if col t' = Red then rix t' else NIL) \<and> repc s' C t' \<and>
     desc t' = desc t \<and> takes C (bh t') \<and> invh t' \<and> invc t' \<and> keeps (blocks C t) s s')"

lemma repairedI:
  "insert_fix s x = Some (s', n) \<Longrightarrow> repc s' C t' \<Longrightarrow> n = (if col t' = Red then rix t' else NIL) \<Longrightarrow> desc t' = desc t \<Longrightarrow>
   takes C (bh t') \<Longrightarrow> invh t' \<Longrightarrow> invc t' \<Longrightarrow> keeps B s s' \<Longrightarrow> B \<subseteq> blocks C t \<Longrightarrow> repaired s x C t"
  using keeps_mono unfolding repaired_def by blast

lemma repair_step:
  assumes r: "repc s (P # G # C) t" and b: "invh t" "invc t" "col t = Red" "takes (P # G # C) (bh t)" "fcol P = Red"
  shows "repaired s (rix t) C (plug [P, G] t)"
proof -
  obtain l x k v r where t: "t = Nd l x Red k v r" using b(3) by (cases t) auto
  have gc: "fcol G = Black" using b(4,5) by (cases P) auto
  consider (LL) p pk pv pb g gk gv u where "P = InL p Red pk pv pb" "G = InL g Black gk gv u"
    | (LR) p pk pv pb g gk gv u where "P = InR pb p Red pk pv" "G = InL g Black gk gv u"
    | (RL) p pk pv pb g gk gv u where "P = InL p Red pk pv pb" "G = InR u g Black gk gv"
    | (RR) p pk pv pb g gk gv u where "P = InR pb p Red pk pv" "G = InR u g Black gk gv"
    using b(5) gc by (cases P; cases G) auto
  then show ?thesis
  proof cases
    case LL
    have a: "repc s C (Nd (Nd (Nd l x Red k v r) p Red pk pv pb) g Black gk gv u)" using r t LL by simp
    show ?thesis
    proof (cases "col u")
      case Black
      obtain s' where s': "insert_fix s x = Some (s', NIL)" "repc s' C (Nd (Nd l x Red k v r) p Black pk pv (Nd pb g Red gk gv u))" "keeps (blocks C (Nd (Nd (Nd l x Red k v r) p Red pk pv pb) g Black gk gv u)) s s'"
        using insert_fix_LL_black[OF a Black] by blast
      show ?thesis by (rule repairedI[OF _ s'(2) _ _ _ _ _ s'(3)]) (use s'(1) b t LL Black in \<open>auto simp: blocks_def\<close>)
    next
      case Red
      then obtain ul ui uk uv ur where u: "u = Nd ul ui Red uk uv ur" by (cases u) auto
      obtain s' where s': "insert_fix s x = Some (s', g)" "repc s' C (Nd (Nd (Nd l x Red k v r) p Black pk pv pb) g Red gk gv (Nd ul ui Black uk uv ur))" "keeps {p, ui, g} s s'"
        using insert_fix_LL_red[OF a[unfolded u]] by blast
      show ?thesis by (rule repairedI[OF _ s'(2) _ _ _ _ _ s'(3)]) (use s'(1) b t u LL in \<open>auto simp: blocks_def\<close>)
    qed
  next
    case LR
    have a: "repc s C (Nd (Nd pb p Red pk pv (Nd l x Red k v r)) g Black gk gv u)" using r t LR by simp
    show ?thesis
    proof (cases "col u")
      case Black
      obtain s' where s': "insert_fix s x = Some (s', NIL)" "repc s' C (Nd (Nd pb p Red pk pv l) x Black k v (Nd r g Red gk gv u))" "keeps (blocks C (Nd (Nd pb p Red pk pv (Nd l x Red k v r)) g Black gk gv u)) s s'"
        using insert_fix_LR_black[OF a Black] by blast
      show ?thesis by (rule repairedI[OF _ s'(2) _ _ _ _ _ s'(3)]) (use s'(1) b t LR Black in \<open>auto simp: blocks_def\<close>)
    next
      case Red
      then obtain ul ui uk uv ur where u: "u = Nd ul ui Red uk uv ur" by (cases u) auto
      obtain s' where s': "insert_fix s x = Some (s', g)" "repc s' C (Nd (Nd pb p Black pk pv (Nd l x Red k v r)) g Red gk gv (Nd ul ui Black uk uv ur))" "keeps {p, ui, g} s s'"
        using insert_fix_LR_red[OF a[unfolded u]] by blast
      show ?thesis by (rule repairedI[OF _ s'(2) _ _ _ _ _ s'(3)]) (use s'(1) b t u LR in \<open>auto simp: blocks_def\<close>)
    qed
  next
    case RL
    have a: "repc s C (Nd u g Black gk gv (Nd (Nd l x Red k v r) p Red pk pv pb))" using r t RL by simp
    show ?thesis
    proof (cases "col u")
      case Black
      obtain s' where s': "insert_fix s x = Some (s', NIL)" "repc s' C (Nd (Nd u g Red gk gv l) x Black k v (Nd r p Red pk pv pb))" "keeps (blocks C (Nd u g Black gk gv (Nd (Nd l x Red k v r) p Red pk pv pb))) s s'"
        using insert_fix_RL_black[OF a Black] by blast
      show ?thesis by (rule repairedI[OF _ s'(2) _ _ _ _ _ s'(3)]) (use s'(1) b t RL Black in \<open>auto simp: blocks_def\<close>)
    next
      case Red
      then obtain ul ui uk uv ur where u: "u = Nd ul ui Red uk uv ur" by (cases u) auto
      obtain s' where s': "insert_fix s x = Some (s', g)" "repc s' C (Nd (Nd ul ui Black uk uv ur) g Red gk gv (Nd (Nd l x Red k v r) p Black pk pv pb))" "keeps {p, ui, g} s s'"
        using insert_fix_RL_red[OF a[unfolded u]] by blast
      show ?thesis by (rule repairedI[OF _ s'(2) _ _ _ _ _ s'(3)]) (use s'(1) b t u RL in \<open>auto simp: blocks_def\<close>)
    qed
  next
    case RR
    have a: "repc s C (Nd u g Black gk gv (Nd pb p Red pk pv (Nd l x Red k v r)))" using r t RR by simp
    show ?thesis
    proof (cases "col u")
      case Black
      obtain s' where s': "insert_fix s x = Some (s', NIL)" "repc s' C (Nd (Nd u g Red gk gv pb) p Black pk pv (Nd l x Red k v r))" "keeps (blocks C (Nd u g Black gk gv (Nd pb p Red pk pv (Nd l x Red k v r)))) s s'"
        using insert_fix_RR_black[OF a Black] by blast
      show ?thesis by (rule repairedI[OF _ s'(2) _ _ _ _ _ s'(3)]) (use s'(1) b t RR Black in \<open>auto simp: blocks_def\<close>)
    next
      case Red
      then obtain ul ui uk uv ur where u: "u = Nd ul ui Red uk uv ur" by (cases u) auto
      obtain s' where s': "insert_fix s x = Some (s', g)" "repc s' C (Nd (Nd ul ui Black uk uv ur) g Red gk gv (Nd pb p Black pk pv (Nd l x Red k v r)))" "keeps {p, ui, g} s s'"
        using insert_fix_RR_red[OF a[unfolded u]] by blast
      show ?thesis by (rule repairedI[OF _ s'(2) _ _ _ _ _ s'(3)]) (use s'(1) b t u RR in \<open>auto simp: blocks_def\<close>)
    qed
  qed
qed

lemma insert_fix_loop_rep:
  assumes "repc s C t" "invh t" "invc t" "col t = Red" "takes C (bh t)"
  shows "\<exists>s' t'. insert_fix_loop s (rix t) = Some s' \<and> repc s' [] t' \<and> balanced t' \<and> desc t' = desc (plug C t) \<and>
    keeps (blocks C t) s s'"
  using assms
proof (induction C arbitrary: s t rule: length_induct)
  case (1 C)
  obtain l x k v r where t: "t = Nd l x Red k v r" using 1(5) by (cases t) auto
  show ?case
  proof (cases C)
    case Nil
    obtain s' where s': "set_color s x Black = Some s'" "repc s' [] (Nd l x Black k v r)" "keeps {x} s s'"
      using set_color_rep[of s "[]" l x Red k v r Black] 1(2) t Nil by auto
    have "insert_fix s x = Some (s', NIL)" using s'(1) repc_root[of s "[]" l x Red k v r] 1(2) t Nil by (simp add: insert_fix_def)
    then have "insert_fix_loop s x = Some s'" by (subst insert_fix_loop.simps) simp
    moreover have "balanced (Nd l x Black k v r)" using 1(3,4) t by (simp add: balanced_def)
    moreover have "keeps (blocks C t) s s'" using s'(3) t by (auto simp: keeps_def blocks_def)
    ultimately show ?thesis using s'(2) t Nil by (intro exI[of _ s'] exI[of _ "Nd l x Black k v r"]) simp
  next
    case (Cons P D)
    have rt: "rb_root s \<noteq> x" using repc_root[of s C l x Red k v r] 1(2) t Cons by simp
    have par: "get_parent_index s x = Some (fix_of P)" using repc_Nd(5)[of s C l x Red k v r] 1(2) t Cons by simp
    have pc: "get_color s (fix_of P) = Some (fcol P)" using 1(2) Cons t by (cases P) (auto dest: repc_Nd(6))
    show ?thesis
    proof (cases "fcol P = Black")
      case True
      then have "insert_fix s x = Some (s, NIL)" using rt par pc by (simp add: insert_fix_def)
      then have "insert_fix_loop s x = Some s" by (subst insert_fix_loop.simps) simp
      moreover have "balanced (plug C t)" using 1(2-) True Cons by (simp add: balanced_plug)
      ultimately show ?thesis using 1(2) t by (intro exI[of _ s] exI[of _ "plug C t"]) (simp add: repc_plug)
    next
      case False
      then have "ccol D = Black" using 1(6) Cons by (cases P) auto
      then obtain G D' where D: "D = G # D'" by (cases D) auto
      then have "repaired s (rix t) D' (plug [P, G] t)" using repair_step[of s P G D' t] 1(2-) Cons False by simp
      then obtain s1 t1 where s1: "insert_fix s (rix t) = Some (s1, if col t1 = Red then rix t1 else NIL)" "repc s1 D' t1"
        "desc t1 = desc (plug [P, G] t)" "takes D' (bh t1)" "invh t1" "invc t1" "keeps (blocks D' (plug [P, G] t)) s s1"
        unfolding repaired_def by blast
      have d: "desc (plug D' t1) = desc (plug C t)"
        using desc_plug_cong[OF s1(3), of D'] Cons D by (cases P; cases G) auto
      have bl: "blocks D' (plug [P, G] t) = blocks C t" "blocks D' t1 = blocks C t"
        using blocks_desc[OF s1(3), of D'] Cons D by (cases P; cases G; simp)+
      show ?thesis
      proof (cases "col t1 = Red")
        case True
        then have "rix t1 \<noteq> NIL" using repc_rix_NIL[OF s1(2)] by auto
        moreover obtain s' t' where s': "insert_fix_loop s1 (rix t1) = Some s'" "repc s' [] t'" "balanced t'"
          "desc t' = desc (plug D' t1)" "keeps (blocks D' t1) s1 s'"
          using 1(1)[rule_format, of D' s1 t1] s1(2,4,5,6) True Cons D by auto
        ultimately have "insert_fix_loop s (rix t) = Some s'" using s1(1) True by (subst insert_fix_loop.simps) simp
        then show ?thesis using s' s1(7) d bl keeps_trans by metis
      next
        case False
        then have "insert_fix_loop s (rix t) = Some s1" using s1(1) by (subst insert_fix_loop.simps) simp
        moreover have "balanced (plug D' t1)" using s1 False by (simp add: balanced_plug)
        ultimately show ?thesis using s1(2,7) d bl by (metis repc_plug)
      qed
    qed
  qed
qed

section \<open>The operation\<close>

text \<open>The tree \<open>t\<close> is what the account holds: laid out, balanced, ordered, and the maximum is up to date when it is kept.\<close>

definition holds :: "('v \<Rightarrow> 'v \<Rightarrow> ordering) \<Rightarrow> 'v rb_tree \<Rightarrow> 'v rbt \<Rightarrow> bool" where
  "holds cmp s t = (repc s [] t \<and> balanced t \<and> tree_ok cmp (desc t) \<and> (rb_max s = NIL \<or> rb_max s = tree_max (desc t)))"

lemma tree_max_insert:
  assumes "total_cmp cmp" "t \<noteq> []"
  shows "tree_max (tree_insert cmp x v t) = (if cmp (snd (hd t)) v = Less then x else tree_max t)"
  using assms(2) total_cmp_flip[OF assms(1)] by (cases t) (auto simp: tree_max_def)

lemma desc_Nil [simp]: "desc t = [] \<longleftrightarrow> t = Lf"
  by (cases t) auto

lemma repc_value:
  assumes "repc s C t" "(i, v) \<in> set (desc t)"
  shows "\<exists>n. rb_data s i = Some n \<and> rb_value n = v"
  using assms
proof (induction t arbitrary: C)
  case (Nd l j c k w r)
  have l: "repc s (InL j c k w r # C) l" and r: "repc s (InR l j c k w # C) r" using Nd.prems(1) by simp_all
  show ?case using Nd.prems(2) Nd.IH(1)[OF l] Nd.IH(2)[OF r] repc_Nd(2)[OF Nd.prems(1)] by auto
qed simp

lemma rb_insert_holds:
  assumes cmp: "total_cmp cmp" and h: "holds cmp s t" and x: "x \<noteq> NIL" "x \<notin> set (ixs t)" "rb_data s x \<noteq> None"
  shows "\<exists>s' t'. rb_insert cmp s x v = Some s' \<and> holds cmp s' t' \<and> desc t' = tree_insert cmp x v (desc t) \<and>
    (\<forall>j. j \<notin> insert x (set (ixs t)) \<longrightarrow> rb_data s' j = rb_data s j) \<and>
    (t \<noteq> Lf \<longrightarrow> rb_max s = NIL \<longrightarrow> rb_max s' = NIL) \<and> (rb_max s = tree_max (desc t) \<longrightarrow> rb_max s' = tree_max (desc t'))"
proof (cases t)
  case Lf
  let ?t = "Nd Lf x Black 0 v Lf"
  obtain n where n: "rb_data s x = Some n" using x(3) by blast
  let ?s = "s\<lparr>rb_root := x, rb_max := x, rb_data := (rb_data s)(x \<mapsto> fresh_node Black v)\<rparr>"
  have "rb_root s = NIL" using h Lf by (simp add: holds_def repc_def)
  then have "rb_insert cmp s x v = Some ?s" using n by (simp add: rb_insert_def write_node_def)
  moreover have "holds cmp ?s ?t"
    using x(1) by (simp add: holds_def repc_def balanced_def tree_ok_def descending_def tree_max_def fresh_node_def cell_def)
  ultimately show ?thesis using Lf by (intro exI[of _ ?s] exI[of _ ?t]) (simp add: tree_max_def)
next
  case (Nd l i c k w r)
  have r: "repc s [] t" and b: "balanced t" and ok: "tree_ok cmp (desc t)"
    and so: "descending cmp (desc t)"
    and m: "rb_max s = NIL \<or> rb_max s = tree_max (desc t)" using h by (simp_all add: holds_def tree_ok_def)
  obtain j u rest where d: "desc t = (j, u) # rest" using Nd desc_Nil[of t] by (cases "desc t") auto
  obtain nm where nm: "rb_data s j = Some nm" "rb_value nm = u" using repc_value[OF r, of j u] d by auto
  let ?m = "if rb_max s \<noteq> NIL \<and> cmp u v = Less then x else rb_max s"
  let ?s1 = "s\<lparr>rb_max := ?m\<rparr>"
  have e1: "(if rb_max s \<noteq> NIL
      then do { max_node \<leftarrow> rb_data s (rb_max s);
                Some (if cmp (rb_value max_node) v = Less then s\<lparr>rb_max := x\<rparr> else s) }
      else Some s) = Some ?s1" using m d nm by (auto simp: tree_max_def)
  have r1: "repc ?s1 [] t" using r by (simp add: repc_def)
  let ?H = "hole cmp v t []" and ?n = "Nd Lf x Red 0 v Lf"
  obtain s2 where s2: "insert_node_no_fix cmp ?s1 (fresh_node Red v) x = Some s2" "repc s2 ?H ?n" "keeps (insert x (set (ixs t))) ?s1 s2"
    using insert_node_no_fix_rep[OF cmp r1, of x v] Nd x by auto
  have "takes ?H 0" using b balanced_plug[of ?H Lf] by (simp add: plug_hole)
  then obtain s' t' where s': "insert_fix_loop s2 x = Some s'" "repc s' [] t'" "balanced t'" "desc t' = desc (plug ?H ?n)"
      "keeps (blocks ?H ?n) s2 s'"
    using insert_fix_loop_rep[OF s2(2)] by auto
  have dt: "desc t' = tree_insert cmp x v (desc t)"
    using s'(4) desc_insert[OF cmp so] by simp
  have bl: "blocks ?H ?n = insert x (set (ixs t))" using set_ixs_plug[of ?H Lf] by (simp add: plug_hole blocks_def)
  have k: "keeps (insert x (set (ixs t))) ?s1 s'" using s2(3) s'(5) bl keeps_trans by metis
  have rt: "rb_root s \<noteq> NIL" using r Nd by (auto simp: repc_def)
  have "x \<notin> set (tree_indices (desc t))" using x(2) ixs_desc[of t] by (simp add: tree_indices_def)
  then have ok': "tree_ok cmp (desc t')" using tree_insert_ok[OF cmp ok _ x(1)] dt by simp
  have mx: "rb_max s' = ?m" using k by (simp add: keeps_def)
  have mt: "rb_max s = tree_max (desc t) \<Longrightarrow> rb_max s' = tree_max (desc t')"
    using mx d dt tree_max_insert[OF cmp, of "desc t" x v] h Nd tree_max_NIL[OF ok] by auto
  have "rb_insert cmp s x v = Some s'" using e1 s2(1) s'(1) rt by (simp add: rb_insert_def)
  moreover have "holds cmp s' t'" using s'(2,3) ok' mx mt m by (auto simp: holds_def)
  ultimately show ?thesis using dt k mx mt by (intro exI[of _ s'] exI[of _ t']) (simp add: keeps_def)
qed

end
