(* ===== verification/Rb_Walk.thy ===== *)
theory Rb_Walk
  imports Rb_Insert
begin

text \<open>The walks over the red-black tree: maximum, predecessor, iteration and lookup, against the descending list.\<close>

lemma tree_max_Cons [simp]: "tree_max ((i, v) # t) = i"
  by (simp add: tree_max_def)

lemma tree_max_Nil [simp]: "tree_max [] = NIL"
  by (simp add: tree_max_def)

lemma tree_max_append: "tree_max (as @ bs) = (if as = [] then tree_max bs else tree_max as)"
  by (cases as) (auto simp: tree_max_def)

lemma rightmost_rep: "repc s C t \<Longrightarrow> t \<noteq> Lf \<Longrightarrow> rightmost s (rix t) = Some (tree_max (desc t))"
proof (induction t arbitrary: C)
  case (Nd l i c k w r)
  have r: "repc s (InR l i c k w # C) r" using Nd.prems(1) by simp
  show ?case using Nd.IH(2)[OF r] repc_rix_NIL[OF r] repc_Nd(4)[OF Nd.prems(1)]
    by (cases "r = Lf") (simp_all add: rightmost.simps[of s i] tree_max_append)
qed simp

lemma leftmost_rep: "repc s C t \<Longrightarrow> t \<noteq> Lf \<Longrightarrow> leftmost s (rix t) = Some (fst (last (desc t)))"
proof (induction t arbitrary: C)
  case (Nd l i c k w r)
  have l: "repc s (InL i c k w r # C) l" using Nd.prems(1) by simp
  show ?case using Nd.IH(1)[OF l] repc_rix_NIL[OF l] repc_Nd(3)[OF Nd.prems(1)]
    by (cases "l = Lf") (simp_all add: leftmost.simps[of s i])
qed simp

lemma climb_left_rep: "repc s C t \<Longrightarrow> t \<noteq> Lf \<Longrightarrow> climb_left s (rix t) = Some (tree_max (csuf C))"
proof (induction C arbitrary: t)
  case Nil
  then obtain l i c k v r where t: "t = Nd l i c k v r" by (cases t) auto
  then show ?case using Nil.prems(1) repc_is_left_root[of s l i c k v r] repc_Nd(5)[of s "[]" l i c k v r]
    by (simp add: climb_left.simps[of s i])
next
  case (Cons f C)
  then obtain l i c k v r where t: "t = Nd l i c k v r" by (cases t) auto
  have p: "get_parent_index s i = Some (fix_of f)" using Cons.prems(1) t repc_Nd(5)[of s "f # C" l i c k v r] by simp
  show ?case
  proof (cases f)
    case (InL j d m u q)
    then have "climb_left s j = Some (tree_max (csuf C))" using Cons.IH[of "Nd t j d m u q"] Cons.prems(1) by simp
    then show ?thesis using InL t p Cons.prems(1) repc_is_left(1)[of s f C l i c k v r] by (simp add: climb_left.simps[of s i])
  next
    case (InR q j d m u)
    then show ?thesis using t p Cons.prems(1) repc_is_left(1)[of s f C l i c k v r] by (simp add: climb_left.simps[of s i])
  qed
qed

lemma next_lower_rep:
  assumes "repc s C (Nd l i c k v r)"
  shows "get_next_lower_index s i = Some (tree_max (desc l @ csuf C))"
proof -
  have l: "repc s (InL i c k v r # C) l" using assms by simp
  show ?thesis
    using rightmost_rep[OF l] climb_left_rep[OF assms] repc_rix_NIL[OF l] repc_Nd(1,3)[OF assms]
    by (auto simp: get_next_lower_index_def tree_max_append)
qed

text \<open>Every pair of the list sits in the tree under some context.\<close>

lemma focus: "(i, v) \<in> set (desc t) \<Longrightarrow> \<exists>C l c k r. t = plug C (Nd l i c k v r)"
proof (induction t)
  case (Nd l j c k w r)
  have grow: "\<exists>D. Nd a j c k w r = plug D b" if e: "\<exists>D. a = plug D b" for a b
  proof -
    obtain D where "a = plug D b" using e by blast
    moreover have "plug (D @ [InL j c k w r]) b = Nd (plug D b) j c k w r" by (induction D b rule: plug.induct) auto
    ultimately show ?thesis by metis
  qed
  have grow': "\<exists>D. Nd l j c k w a = plug D b" if e: "\<exists>D. a = plug D b" for a b
  proof -
    obtain D where "a = plug D b" using e by blast
    moreover have "plug (D @ [InR l j c k w]) b = Nd l j c k w (plug D b)" by (induction D b rule: plug.induct) auto
    ultimately show ?thesis by metis
  qed
  consider "i = j" "v = w" | "(i, v) \<in> set (desc l)" | "(i, v) \<in> set (desc r)" using Nd.prems by auto
  then show ?case
  proof cases
    case 1
    then show ?thesis by (metis plug.simps(1))
  next
    case 2
    then show ?thesis using Nd.IH(1) grow by metis
  next
    case 3
    then show ?thesis using Nd.IH(2) grow' by metis
  qed
qed simp

lemma next_lower_list:
  assumes "repc s [] t" "desc t = as @ (i, v) # bs"
  shows "get_next_lower_index s i = Some (tree_max bs)"
proof -
  have "distinct (map fst (desc t))" using assms(1) ixs_desc[of t] by (simp add: repc_def)
  then have d: "i \<notin> fst ` set as" "i \<notin> fst ` set bs" using assms(2) by auto
  obtain C l c k r where t: "t = plug C (Nd l i c k v r)" using focus[of i v t] assms(2) by auto
  then have r: "repc s C (Nd l i c k v r)" using assms(1) by (simp add: repc_plug)
  have "as @ (i, v) # bs = (cpre C @ desc r) @ (i, v) # (desc l @ csuf C)" using assms(2) t by (simp add: desc_plug)
  moreover have "i \<notin> fst ` set (cpre C @ desc r)"
    using \<open>distinct (map fst (desc t))\<close> t by (auto simp: desc_plug)
  ultimately have "bs = desc l @ csuf C" using d by (auto simp: append_eq_Cons_conv append_eq_append_conv2 Cons_eq_append_conv)
  then show ?thesis using next_lower_rep[OF r] by simp
qed

lemma iter_from_rep:
  assumes "repc s [] t" "desc t = as @ bs"
  shows "iter_from s (tree_max bs) = Some bs"
  using assms(2)
proof (induction bs arbitrary: as)
  case Nil
  then show ?case by (simp add: iter_from.simps[of s NIL] get_next_lower_index_def)
next
  case (Cons p bs)
  obtain i v where p: "p = (i, v)" by force
  have "i \<noteq> NIL" using assms(1) Cons.prems p set_ixs[of t] by (auto simp: repc_def)
  moreover obtain n where "rb_data s i = Some n" "rb_value n = v"
    using repc_value[OF assms(1), of i v] Cons.prems p by auto
  moreover have "iter_from s (tree_max bs) = Some bs" using Cons.IH[of "as @ [p]"] Cons.prems by simp
  ultimately show ?case using next_lower_list[OF assms(1)] Cons.prems p by (simp add: iter_from.simps[of s i])
qed

lemma lookup_max_index_rep: "repc s [] t \<Longrightarrow> lookup_max_index s = Some (tree_max (desc t))"
  using rightmost_rep[of s "[]" t] repc_rix_NIL[of s "[]" t] by (cases "t = Lf") (auto simp: lookup_max_index_def repc_def)

lemma rb_iter_holds: "holds cmp s t \<Longrightarrow> rb_iter s = Some (desc t)"
  using iter_from_rep[of s t "[]" "desc t"] lookup_max_index_rep[of s t] by (auto simp: rb_iter_def holds_def)

section \<open>Lookup\<close>

text \<open>What a lookup may answer for the nodes of a list: a match, or NIL when there is none.\<close>

definition answers :: "('v \<Rightarrow> 'v \<Rightarrow> ordering) \<Rightarrow> ('v \<Rightarrow> 'v \<Rightarrow> bool) \<Rightarrow> 'v \<Rightarrow> (data_index \<times> 'v) set \<Rightarrow> data_index \<Rightarrow> bool" where
  "answers cmp eqv v ps i = (if i = NIL then \<forall>(j, w) \<in> ps. \<not> (cmp w v = Equal \<and> eqv w v)
     else \<exists>w. (i, w) \<in> ps \<and> cmp w v = Equal \<and> eqv w v)"

lemma lookup_loop_rep:
  assumes cmp: "total_cmp cmp"
  shows "(\<forall>t \<in> set ts. \<exists>C. repc s C t) \<Longrightarrow> (\<forall>t \<in> set ts. descending cmp (desc t)) \<Longrightarrow>
    \<exists>i. lookup_loop cmp eqv s v (map rix ts) = Some i \<and> answers cmp eqv v (\<Union>t \<in> set ts. set (desc t)) i"
proof (induction "\<Sum>t\<leftarrow>ts. Suc (2 * length (desc t))" arbitrary: ts rule: less_induct)
  case less
  show ?case
  proof (cases ts)
    case Nil
    then show ?thesis by (simp add: lookup_loop.simps answers_def)
  next
    case (Cons t rest)
    show ?thesis
    proof (cases t)
      case Lf
      have "\<exists>i. lookup_loop cmp eqv s v (map rix rest) = Some i \<and> answers cmp eqv v (\<Union>t \<in> set rest. set (desc t)) i"
        using less(1)[of rest] less(2,3) Cons Lf by simp
      then show ?thesis using Cons Lf by (simp add: lookup_loop.simps[of cmp eqv s v "NIL # _"])
    next
      case (Nd l j c k w r)
      obtain C where t: "repc s C (Nd l j c k w r)" using less(2) Cons Nd by auto
      have sub: "repc s (InL j c k w r # C) l" "repc s (InR l j c k w # C) r" using t by simp_all
      have ex: "\<exists>C. repc s C l" "\<exists>C. repc s C r" using sub by blast+
      have d: "descending cmp (desc l)" "descending cmp (desc r)"
        "\<And>p. p \<in> set (desc r) \<Longrightarrow> cmp (snd p) w \<noteq> Less" "\<And>p. p \<in> set (desc l) \<Longrightarrow> cmp w (snd p) \<noteq> Less"
        using less(3) Cons Nd by (auto simp: descending_def sorted_wrt_append)
      have IH: "\<exists>i. lookup_loop cmp eqv s v (map rix us @ map rix rest) = Some i \<and>
          answers cmp eqv v (\<Union>t \<in> set us \<union> set rest. set (desc t)) i"
        if "us \<in> {[l], [r], [r, l]}" for us
      proof -
        have "(\<Sum>t\<leftarrow>us @ rest. Suc (2 * length (desc t))) < (\<Sum>t\<leftarrow>ts. Suc (2 * length (desc t)))" using that Cons Nd by auto
        moreover have "set us \<subseteq> {l, r}" using that by auto
        then have "\<forall>t \<in> set (us @ rest). \<exists>C. repc s C t" using less(2) Cons ex by fastforce
        moreover have "\<forall>t \<in> set (us @ rest). descending cmp (desc t)" using that less(3) Cons d(1,2) by (auto simp: ball_Un)
        ultimately show ?thesis using less(1)[of "us @ rest"] by simp
      qed
      show ?thesis
      proof (cases "cmp w v")
        case Less
        have "cmp u v \<noteq> Equal" if "(i, u) \<in> set (desc l)" for i u
          using d(4)[OF that] Less total_cmp_trans[OF cmp, of w u v] by auto
        then show ?thesis using IH[of "[r]"] Cons Nd Less repc_Nd[OF t]
          by (fastforce simp: lookup_loop.simps[of cmp eqv s v "j # _"] answers_def split: if_splits)
      next
        case Greater
        have "cmp u v \<noteq> Equal" if "(i, u) \<in> set (desc r)" for i u
          using d(3)[OF that] Greater total_cmp_trans[OF cmp, of v u w] total_cmp_flip[OF cmp, of v u] total_cmp_flip[OF cmp, of v w] 
            total_cmp_flip[OF cmp, of u v] by auto
        then show ?thesis using IH[of "[l]"] Cons Nd Greater repc_Nd[OF t]
          by (fastforce simp: lookup_loop.simps[of cmp eqv s v "j # _"] answers_def split: if_splits)
      next
        case Equal
        then show ?thesis using IH[of "[r, l]"] Cons Nd repc_Nd[OF t]
          by (fastforce simp: lookup_loop.simps[of cmp eqv s v "j # _"] answers_def split: if_splits)
      qed
    qed
  qed
qed

lemma rb_lookup_holds:
  assumes "total_cmp cmp" "holds cmp s t"
  shows "\<exists>i. rb_lookup_index cmp eqv s v = Some i \<and> answers cmp eqv v (set (desc t)) i"
proof (cases t)
  case Lf
  then show ?thesis using assms(2) by (simp add: holds_def repc_def rb_lookup_index_def answers_def)
next
  case (Nd l i c k w r)
  then have "rb_root s = rix t" "rix t \<noteq> NIL" using assms(2) by (auto simp: holds_def repc_def)
  then show ?thesis using lookup_loop_rep[OF assms(1), of "[t]" s eqv v] assms(2)
    by (auto simp: rb_lookup_index_def holds_def tree_ok_def)
qed

end
