(* ===== verification/Rb_Swap.thy ===== *)
theory Rb_Swap
  imports Rb_Walk
begin

text \<open>The two pointer surgeries of a removal from the red-black tree: taking out a node with at most one child, and
  letting a node trade places with its successor.\<close>

section \<open>The parent's pointer\<close>

definition isL :: "'v frame list \<Rightarrow> bool" where
  "isL C = (case C of InL i c k v r # _ \<Rightarrow> True | _ \<Rightarrow> False)"

lemma isL_simps [simp]: "\<not> isL []" "isL (InL i c k v r # C)" "\<not> isL (InR l i c k v # C)"
  by (simp_all add: isL_def)

lemma is_left_clay:
  assumes "clay (rb_data s) x C" "get_parent_index s x = Some (cpar C)" "rb_root s = x \<longleftrightarrow> C = []"
    "x \<noteq> NIL" "x \<notin> set (cixs C)" "NIL \<notin> set (cixs C)"
  shows "is_left_child s x = Some (isL C)"
proof (cases C)
  case Nil
  then show ?thesis using assms(3) by (simp add: is_left_child_def)
next
  case (Cons f C')
  show ?thesis
  proof (cases f)
    case (InL i c k v r)
    then show ?thesis using assms Cons by (auto simp: is_left_child_def get_left_index_def)
  next
    case (InR l i c k v)
    then have "rix l \<noteq> x" using assms(4,5) Cons by (cases l) auto
    then show ?thesis using assms Cons InR by (auto simp: is_left_child_def get_left_index_def)
  qed
qed

lemma reparent_lay:
  assumes "clay (rb_data s) x C" "distinct (cixs C)" "NIL \<notin> set (cixs C)"
  shows "\<exists>h. (if isL C then set_left_index s (cpar C) y else set_right_index s (cpar C) y) = Some (s\<lparr>rb_data := h\<rparr>) \<and>
    clay h y C \<and> (\<forall>j. j \<notin> set (cixs C) \<longrightarrow> h j = rb_data s j)"
proof (cases C)
  case Nil
  then show ?thesis by (intro exI[of _ "rb_data s"]) (simp add: set_right_index_def)
next
  case (Cons f C')
  show ?thesis
  proof (cases f)
    case (InL i c k v r)
    then show ?thesis using assms Cons
      by (intro exI[of _ "(rb_data s)(i \<mapsto> cell y (rix r) (cpar C') c k v)"]) (auto simp: set_left_index_def write_node_Some)
  next
    case (InR l i c k v)
    then show ?thesis using assms Cons
      by (intro exI[of _ "(rb_data s)(i \<mapsto> cell (rix l) y (cpar C') c k v)"]) (auto simp: set_right_index_def write_node_Some)
  qed
qed

text \<open>The only child of a node, or the missing one.\<close>

definition child :: "'v rbt \<Rightarrow> 'v rbt \<Rightarrow> 'v rbt" where
  "child l r = (if l = Lf then r else l)"

lemma update_parent_child_rep:
  assumes r: "repc s C (Nd l x c k v r)" and o: "l = Lf \<or> r = Lf"
  shows "\<exists>s'. update_parent_child s x = Some s' \<and> repc s' C (child l r) \<and> keeps (blocks C (child l r)) s s'"
proof -
  let ?ch = "child l r" and ?h = "rb_data s"
  have lr: "repc s (InL x c k v r # C) l" using r by simp
  have ch: "get_child_index s x = Some (rix ?ch)"
    using repc_Nd[OF r] repc_rix_NIL[OF lr] by (simp add: get_child_index_def child_def)
  have f: "lay ?h x ?ch" "clay ?h x C" "distinct (ixs ?ch)" "distinct (cixs C)" "x \<noteq> NIL" "x \<notin> set (ixs ?ch)" "x \<notin> set (cixs C)"
    "set (ixs ?ch) \<inter> set (cixs C) = {}" "NIL \<notin> set (ixs ?ch)" "NIL \<notin> set (cixs C)"
    using r o by (auto simp: repc_def child_def)
  obtain h1 where h1: "set_parent_index s (rix ?ch) (cpar C) = Some (s\<lparr>rb_data := h1\<rparr>)" "lay h1 (cpar C) ?ch"
    "\<forall>j. j \<notin> set (ixs ?ch) \<longrightarrow> h1 j = ?h j" using set_parent_lay f by blast
  let ?s1 = "s\<lparr>rb_data := h1\<rparr>"
  have c1: "clay h1 x C = clay ?h x C" by (rule clay_cong) (use h1(3) f(8) in auto)
  have "get_parent_index ?s1 x = Some (cpar C)" using h1(3) f repc_Nd[OF r] by (simp add: get_parent_index_def)
  then have il: "is_left_child ?s1 x = Some (isL C)"
    using is_left_clay[of ?s1 x C] c1 f repc_root[OF r] by simp
  obtain h2 where h2: "(if isL C then set_left_index ?s1 (cpar C) (rix ?ch) else set_right_index ?s1 (cpar C) (rix ?ch)) = Some (?s1\<lparr>rb_data := h2\<rparr>)"
    "clay h2 (rix ?ch) C" "\<forall>j. j \<notin> set (cixs C) \<longrightarrow> h2 j = h1 j"
    using reparent_lay[of ?s1 x C "rix ?ch"] c1 f by auto
  let ?s' = "set_root_if (s\<lparr>rb_data := h2\<rparr>) x (rix ?ch)"
  have e: "update_parent_child s x = Some ?s'"
    using repc_Nd[OF r] ch h1(1) il h2(1) by (simp add: update_parent_child_def)
  have "lay h2 (cpar C) ?ch = lay h1 (cpar C) ?ch" by (rule lay_cong) (use h2(3) f(8) in auto)
  moreover have "rb_root ?s' = rix (plug C ?ch)"
    using repc_root[OF r] r rix_plug[of C ?ch "Nd l x c k v r"] by (cases "C = []") (auto simp: set_root_if_def repc_def)
  moreover have q: "rb_data ?s' = h2" "rb_max ?s' = rb_max s" by (simp_all add: set_root_if_def)
  ultimately have "repc ?s' C ?ch" using h1(2) h2(2) f by (auto simp: repc_def)
  moreover have "keeps (blocks C ?ch) s ?s'" using h1(3) h2(3) q by (simp add: keeps_def blocks_def)
  ultimately show ?thesis using e by blast
qed

section \<open>Trading places with the successor\<close>

text \<open>A context that is not at the root: the topmost node has the parent \<open>p\<close>.\<close>

definition sparent :: "data_index \<Rightarrow> 'v frame list \<Rightarrow> data_index" where
  "sparent p D = (if D = [] then p else cpar D)"

fun slay :: "(data_index \<Rightarrow> 'v rb_node option) \<Rightarrow> data_index \<Rightarrow> data_index \<Rightarrow> 'v frame list \<Rightarrow> bool" where
  "slay h x p [] = True"
| "slay h x p (InL i c k v r # D) = (h i = Some (cell x (rix r) (sparent p D) c k v) \<and> lay h i r \<and> slay h i p D)"
| "slay h x p (InR l i c k v # D) = (h i = Some (cell (rix l) x (sparent p D) c k v) \<and> lay h i l \<and> slay h i p D)"

lemma sparent_simps [simp]: "sparent p [] = p" "sparent p (f # D) = fix_of f"
  by (simp_all add: sparent_def)

lemma lay_plug: "lay h p (plug D t) \<longleftrightarrow> lay h (sparent p D) t \<and> slay h (rix t) p D"
  by (induction D t rule: plug.induct) auto

lemma slay_cong: "(\<And>j. j \<in> set (cixs D) \<Longrightarrow> h' j = h j) \<Longrightarrow> slay h' x p D = slay h x p D"
proof (induction D arbitrary: x)
  case (Cons f D)
  show ?case
  proof (cases f)
    case (InL i c k v r)
    then have "lay h' i r = lay h i r" using Cons.prems by (intro lay_cong) simp
    then show ?thesis using InL Cons by simp
  next
    case (InR l i c k v)
    then have "lay h' i l = lay h i l" using Cons.prems by (intro lay_cong) simp
    then show ?thesis using InR Cons by simp
  qed
qed simp

definition top :: "'v frame list \<Rightarrow> data_index" where
  "top D = fix_of (last D)"

lemma top_in: "D \<noteq> [] \<Longrightarrow> top D \<in> set (cixs D)"
proof (induction D)
  case (Cons f D)
  then show ?case by (cases D; cases f) (auto simp: top_def)
qed simp

lemma rix_plug_top: "rix (plug D t) = (if D = [] then rix t else top D)"
proof (induction D t rule: plug.induct)
qed (auto simp: top_def)

lemma slay_top:
  "slay (rb_data s) x p D \<Longrightarrow> D \<noteq> [] \<Longrightarrow> distinct (cixs D) \<Longrightarrow> NIL \<notin> set (cixs D) \<Longrightarrow>
   \<exists>h. set_parent_index s (top D) q = Some (s\<lparr>rb_data := h\<rparr>) \<and> slay h x q D \<and> (\<forall>j. j \<notin> set (cixs D) \<longrightarrow> h j = rb_data s j)"
proof (induction D arbitrary: x)
  case (Cons f D)
  show ?case
  proof (cases "D = []")
    case True
    show ?thesis
    proof (cases f)
      case (InL i c k v r)
      let ?h = "(rb_data s)(i \<mapsto> cell x (rix r) q c k v)"
      have "set_parent_index s (top (f # D)) q = Some (s\<lparr>rb_data := ?h\<rparr>)" "slay ?h x q (f # D)"
        using Cons.prems True InL by (auto simp: top_def set_parent_index_def write_node_Some)
      moreover have "\<forall>j. j \<notin> set (cixs (f # D)) \<longrightarrow> ?h j = rb_data s j" using InL by simp
      ultimately show ?thesis by blast
    next
      case (InR l i c k v)
      let ?h = "(rb_data s)(i \<mapsto> cell (rix l) x q c k v)"
      have "set_parent_index s (top (f # D)) q = Some (s\<lparr>rb_data := ?h\<rparr>)" "slay ?h x q (f # D)"
        using Cons.prems True InR by (auto simp: top_def set_parent_index_def write_node_Some)
      moreover have "\<forall>j. j \<notin> set (cixs (f # D)) \<longrightarrow> ?h j = rb_data s j" using InR by simp
      ultimately show ?thesis by blast
    qed
  next
    case False
    have t: "top (f # D) = top D" using False by (simp add: top_def)
    have sp: "sparent q D = sparent p D" using False by (simp add: sparent_def)
    show ?thesis
    proof (cases f)
      case (InL i c k v r)
      then obtain h where h: "set_parent_index s (top D) q = Some (s\<lparr>rb_data := h\<rparr>)" "slay h i q D"
        "\<forall>j. j \<notin> set (cixs D) \<longrightarrow> h j = rb_data s j" using Cons.IH[of i] Cons.prems False by auto
      have "lay h i r = lay (rb_data s) i r" by (rule lay_cong) (use h(3) Cons.prems(3) InL in auto)
      then show ?thesis using h Cons.prems InL t sp by (intro exI[of _ h]) auto
    next
      case (InR l i c k v)
      then obtain h where h: "set_parent_index s (top D) q = Some (s\<lparr>rb_data := h\<rparr>)" "slay h i q D"
        "\<forall>j. j \<notin> set (cixs D) \<longrightarrow> h j = rb_data s j" using Cons.IH[of i] Cons.prems False by auto
      have "lay h i l = lay (rb_data s) i l" by (rule lay_cong) (use h(3) Cons.prems(3) InR in auto)
      then show ?thesis using h Cons.prems InR t sp by (intro exI[of _ h]) auto
    qed
  qed
qed simp

lemma slay_hole:
  assumes "slay (rb_data s) x p (InL j d m u q # D)" "j \<noteq> NIL" "j \<notin> set (ixs q)" "j \<notin> set (cixs D)"
  shows "\<exists>h. set_left_index s j y = Some (s\<lparr>rb_data := h\<rparr>) \<and> slay h y p (InL j d m u q # D) \<and> (\<forall>i. i \<noteq> j \<longrightarrow> h i = rb_data s i)"
proof -
  have "slay ((rb_data s)(j \<mapsto> n)) j p D = slay (rb_data s) j p D" for n by (rule slay_cong) (use assms(4) in auto)
  then show ?thesis using assms
    by (intro exI[of _ "(rb_data s)(j \<mapsto> cell y (rix q) (sparent p D) d m u)"]) (auto simp: set_left_index_def write_node_Some)
qed

text \<open>Where the two nodes stand: \<open>l\<close> and the path \<open>D\<close> down to the successor hang below the node, \<open>r1\<close> below the successor.\<close>

lemma swap_parts:
  assumes "repc s C (Nd l i0 c0 k0 v0 (plug D (Nd Lf i1 c1 k1 v1 r1)))"
  shows "rb_data s i0 = Some (cell (rix l) (if D = [] then i1 else top D) (cpar C) c0 k0 v0)"
    "rb_data s i1 = Some (cell NIL (rix r1) (sparent i0 D) c1 k1 v1)"
    "lay (rb_data s) i0 l" "lay (rb_data s) i1 r1" "slay (rb_data s) i1 i0 D" "clay (rb_data s) i0 C"
    "distinct (i0 # i1 # ixs l @ ixs r1 @ cixs D @ cixs C)" "NIL \<notin> set (i0 # i1 # ixs l @ ixs r1 @ cixs D @ cixs C)"
    "rb_root s = i0 \<longleftrightarrow> C = []" "rb_root s \<noteq> i1"
proof -
  have d: "distinct (ixs (plug D (Nd Lf i1 c1 k1 v1 r1)))" using assms by (simp add: repc_def)
  show "rb_root s = i0 \<longleftrightarrow> C = []" using repc_root[OF assms] .
  show "rb_root s \<noteq> i1"
    using repc_root[of s "D @ InR l i0 c0 k0 v0 # C" Lf i1 c1 k1 v1 r1] assms by (simp add: repc_append)
qed (use assms in \<open>auto simp: repc_def lay_plug rix_plug_top distinct_ixs_plug\<close>)

lemma set_at:
  assumes "rb_data s i = Some (cell l r p c k v)" "i \<noteq> NIL"
  shows "set_left_index s i x = Some (s\<lparr>rb_data := (rb_data s)(i \<mapsto> cell x r p c k v)\<rparr>)"
    "set_right_index s i x = Some (s\<lparr>rb_data := (rb_data s)(i \<mapsto> cell l x p c k v)\<rparr>)"
    "set_parent_index s i x = Some (s\<lparr>rb_data := (rb_data s)(i \<mapsto> cell l r x c k v)\<rparr>)"
    "set_color s i c' = Some (s\<lparr>rb_data := (rb_data s)(i \<mapsto> cell l r p c' k v)\<rparr>)"
    "get_color s i = Some c"
  using assms by (simp_all add: set_left_index_def set_right_index_def set_parent_index_def set_color_def get_color_def write_node_Some)

lemma set_parent_NIL [simp]: "set_parent_index s NIL x = Some s"
  by (simp add: set_parent_index_def)

lemma swap_deep:
  assumes r: "repc s C (Nd l i0 c0 k0 v0 (plug (InL j d m u q # D) (Nd Lf i1 c1 k1 v1 r1)))"
  shows "\<exists>s'. swap_node_with_successor s i0 i1 = Some s' \<and>
    repc s' C (Nd l i1 c0 k1 v1 (plug (InL j d m u q # D) (Nd Lf i0 c1 k0 v0 r1))) \<and>
    keeps (blocks C (Nd l i0 c0 k0 v0 (plug (InL j d m u q # D) (Nd Lf i1 c1 k1 v1 r1)))) s s'"
proof -
  let ?E = "InL j d m u q # D" and ?h = "rb_data s"
  let ?t = "top ?E"
  note p = swap_parts[OF r]
  have E: "?E \<noteq> []" by simp
  have hi0: "?h i0 = Some (cell (rix l) ?t (cpar C) c0 k0 v0)" and hi1: "?h i1 = Some (cell NIL (rix r1) j c1 k1 v1)"
    using p(1,2) by simp_all
  have n: "i0 \<noteq> NIL" "i1 \<noteq> NIL" "j \<noteq> NIL" "i0 \<noteq> i1" "j \<noteq> i0" "j \<noteq> i1" "j \<notin> set (ixs q)" "j \<notin> set (cixs D)"
    "i0 \<notin> set (ixs l)" "i0 \<notin> set (ixs r1)" "i0 \<notin> set (cixs ?E)" "i0 \<notin> set (cixs C)"
    "i1 \<notin> set (ixs l)" "i1 \<notin> set (ixs r1)" "i1 \<notin> set (cixs ?E)" "i1 \<notin> set (cixs C)"
    "distinct (ixs l)" "distinct (ixs r1)" "distinct (cixs ?E)" "distinct (cixs C)"
    "NIL \<notin> set (ixs l)" "NIL \<notin> set (ixs r1)" "NIL \<notin> set (cixs ?E)" "NIL \<notin> set (cixs C)"
    using p(7,8) by auto
  have dj: "set (ixs l) \<inter> set (ixs r1) = {}" "set (ixs l) \<inter> set (cixs ?E) = {}" "set (ixs l) \<inter> set (cixs C) = {}"
    "set (ixs r1) \<inter> set (cixs ?E) = {}" "set (ixs r1) \<inter> set (cixs C) = {}" "set (cixs ?E) \<inter> set (cixs C) = {}"
    using p(7) by auto
  have jE: "j \<in> set (cixs ?E)" "?t \<in> set (cixs ?E)" using top_in[OF E] by simp_all
  have reads: "get_parent_index s i0 = Some (cpar C)" "get_parent_index s i1 = Some j" "get_left_index s i0 = Some (rix l)"
    "get_left_index s i1 = Some NIL" "get_right_index s i0 = Some ?t" "get_right_index s i1 = Some (rix r1)"
    using hi0 hi1 n by (simp_all add: get_parent_index_def get_left_index_def get_right_index_def)
  have l0: "is_left_child s i0 = Some (isL C)" using is_left_clay[of s i0 C] p(6,9) reads n by simp
  have l1: "is_left_child s i1 = Some True"
    using p(5,10) reads n by (simp add: is_left_child_def get_left_index_def)
  obtain h1 where h1: "(if isL C then set_left_index s (cpar C) i1 else set_right_index s (cpar C) i1) = Some (s\<lparr>rb_data := h1\<rparr>)"
    "clay h1 i1 C" "\<forall>x. x \<notin> set (cixs C) \<longrightarrow> h1 x = ?h x" using reparent_lay[of s i0 C i1] p(6) n by blast
  have "slay h1 i1 i0 ?E = slay ?h i1 i0 ?E" by (rule slay_cong) (use h1(3) dj(6) in auto)
  then obtain h2 where h2: "set_left_index (s\<lparr>rb_data := h1\<rparr>) j i0 = Some (s\<lparr>rb_data := h2\<rparr>)" "slay h2 i0 i0 ?E"
    "\<forall>x. x \<noteq> j \<longrightarrow> h2 x = h1 x" using slay_hole[of "s\<lparr>rb_data := h1\<rparr>" i1 i0 j d m u q D i0] p(5) n by auto
  let ?h4 = "h2(i0 \<mapsto> cell NIL (rix r1) j c0 k0 v0, i1 \<mapsto> cell (rix l) ?t (cpar C) c1 k1 v1)"
  have h2': "h2 i0 = ?h i0" "h2 i1 = ?h i1" using h2(3) h1(3) n by simp_all
  have f4: "?h4 x = ?h x" if "x \<in> set (ixs l) \<union> set (ixs r1)" for x
  proof -
    have "x \<noteq> i0" "x \<noteq> i1" "x \<noteq> j" "x \<notin> set (cixs C)" using that n dj jE by blast+
    then show ?thesis using h2(3) h1(3) by simp
  qed
  have "lay ?h4 i0 l" using p(3) lay_cong[of l ?h4 ?h i0] f4 by blast
  then obtain h5 where h5: "set_parent_index (s\<lparr>rb_data := ?h4\<rparr>) (rix l) i1 = Some (s\<lparr>rb_data := h5\<rparr>)" "lay h5 i1 l"
    "\<forall>x. x \<notin> set (ixs l) \<longrightarrow> h5 x = ?h4 x" using set_parent_lay[of "s\<lparr>rb_data := ?h4\<rparr>" i0 l i1] n by auto
  have "h5 x = h2 x" if "x \<in> set (cixs ?E)" for x
  proof -
    have "x \<noteq> i0" "x \<noteq> i1" "x \<notin> set (ixs l)" using that n dj(2) by blast+
    then show ?thesis using h5(3) by simp
  qed
  then have "slay h5 i0 i0 ?E" using h2(2) slay_cong[of ?E h5 h2 i0 i0] by blast
  then obtain h6 where h6: "set_parent_index (s\<lparr>rb_data := h5\<rparr>) ?t i1 = Some (s\<lparr>rb_data := h6\<rparr>)" "slay h6 i0 i1 ?E"
    "\<forall>x. x \<notin> set (cixs ?E) \<longrightarrow> h6 x = h5 x" using slay_top[of "s\<lparr>rb_data := h5\<rparr>" i0 i0 ?E i1] n E by auto
  have f6: "h6 x = ?h x" if "x \<in> set (ixs r1)" for x
  proof -
    have "x \<notin> set (cixs ?E)" "x \<notin> set (ixs l)" using that dj by blast+
    then show ?thesis using h6(3) h5(3) f4[of x] that by simp
  qed
  have "lay h6 i1 r1" using p(4) lay_cong[of r1 h6 ?h i1] f6 by blast
  then obtain h7 where h7: "set_parent_index (s\<lparr>rb_data := h6\<rparr>) (rix r1) i0 = Some (s\<lparr>rb_data := h7\<rparr>)" "lay h7 i0 r1"
    "\<forall>x. x \<notin> set (ixs r1) \<longrightarrow> h7 x = h6 x" using set_parent_lay[of "s\<lparr>rb_data := h6\<rparr>" i1 r1 i0] n by auto
  have h7': "h7 i0 = Some (cell NIL (rix r1) j c0 k0 v0)" "h7 i1 = Some (cell (rix l) ?t (cpar C) c1 k1 v1)"
    using h7(3) h6(3) h5(3) n by simp_all
  let ?h8 = "h7(i0 \<mapsto> cell NIL (rix r1) j c1 k0 v0, i1 \<mapsto> cell (rix l) ?t (cpar C) c0 k1 v1)"
  let ?s' = "set_root_if (s\<lparr>rb_data := h7\<rparr>) i0 i1\<lparr>rb_data := ?h8\<rparr>"
  have sr: "rb_data (set_root_if z a b) = rb_data z" "rb_max (set_root_if z a b) = rb_max z" for z :: "'a rb_tree" and a b
    by (simp_all add: set_root_if_def)
  have e: "swap_node_with_successor s i0 i1 = Some ?s'"
    using reads l0 l1 h1(1) h2(1) h2' hi0 hi1 n h5(1) h6(1) h7(1) h7'
    by (simp add: swap_node_with_successor_def set_at sr)
  let ?T = "Nd l i0 c0 k0 v0 (plug ?E (Nd Lf i1 c1 k1 v1 r1))" and ?T' = "Nd l i1 c0 k1 v1 (plug ?E (Nd Lf i0 c1 k0 v0 r1))"
  have g: "?h8 x = h5 x" if "x \<in> set (ixs l)" for x
  proof -
    have "x \<noteq> i0" "x \<noteq> i1" "x \<notin> set (ixs r1)" "x \<notin> set (cixs ?E)" using that n dj by blast+
    then show ?thesis using h7(3) h6(3) by simp
  qed
  have g1: "?h8 x = h7 x" if "x \<in> set (ixs r1)" for x
  proof -
    have "x \<noteq> i0" "x \<noteq> i1" using that n by blast+
    then show ?thesis by simp
  qed
  have g2: "?h8 x = h6 x" if "x \<in> set (cixs ?E)" for x
  proof -
    have "x \<noteq> i0" "x \<noteq> i1" "x \<notin> set (ixs r1)" using that n dj by blast+
    then show ?thesis using h7(3) by simp
  qed
  have g3: "?h8 x = h1 x" if "x \<in> set (cixs C)" for x
  proof -
    have "x \<noteq> i0" "x \<noteq> i1" "x \<noteq> j" "x \<notin> set (ixs r1)" "x \<notin> set (ixs l)" "x \<notin> set (cixs ?E)" using that n dj jE by blast+
    then show ?thesis using h7(3) h6(3) h5(3) h2(3) by simp
  qed
  have lays: "lay ?h8 i1 l" "lay ?h8 i0 r1" "slay ?h8 i0 i1 ?E" "clay ?h8 i1 C"
    using lay_cong[of l ?h8 h5 i1] lay_cong[of r1 ?h8 h7 i0] slay_cong[of ?E ?h8 h6 i0 i1] clay_cong[of C ?h8 h1 i1]
      g g1 g2 g3 h5(2) h7(2) h6(2) h1(2) by blast+
  have rt: "rb_root ?s' = rix (plug C ?T')"
    using p(9) r rix_plug[of C ?T' ?T] by (cases "C = []") (auto simp: set_root_if_def repc_def)
  have "distinct (ixs ?T' @ cixs C)" "NIL \<notin> set (ixs ?T' @ cixs C)"
    using p(7,8) distinct_ixs_plug[of ?E "Nd Lf i0 c1 k0 v0 r1"] by auto
  moreover have "rix (plug ?E (Nd Lf i0 c1 k0 v0 r1)) = ?t" by (subst rix_plug_top) simp
  moreover have "lay ?h8 (cpar C) ?T'"
    using lays n(4) lay_plug[of ?h8 i1 ?E "Nd Lf i0 c1 k0 v0 r1"] calculation(3) by (simp add: top_def)
  ultimately have "repc ?s' C ?T'" using rt lays(4) by (simp only: repc_def) (simp add: sr)
  moreover have "keeps (blocks C ?T) s ?s'"
  proof -
    have "?h8 x = ?h x" if "x \<notin> blocks C ?T" for x
    proof -
      have "x \<notin> set (cixs C)" "x \<noteq> i0" "x \<noteq> i1" "x \<noteq> j" "x \<notin> set (ixs l)" "x \<notin> set (ixs r1)" "x \<notin> set (cixs ?E)"
        using that by (auto simp: blocks_def)
      then show ?thesis using h7(3) h6(3) h5(3) h2(3) h1(3) by simp
    qed
    then show ?thesis by (simp add: keeps_def sr)
  qed
  ultimately show ?thesis using e by blast
qed

lemma swap_adjacent:
  assumes r: "repc s C (Nd l i0 c0 k0 v0 (Nd Lf i1 c1 k1 v1 r1))"
  shows "\<exists>s'. swap_node_with_successor s i0 i1 = Some s' \<and>
    repc s' C (Nd l i1 c0 k1 v1 (Nd Lf i0 c1 k0 v0 r1)) \<and> keeps (blocks C (Nd l i0 c0 k0 v0 (Nd Lf i1 c1 k1 v1 r1))) s s'"
proof -
  let ?h = "rb_data s"
  have "repc s C (Nd l i0 c0 k0 v0 (plug [] (Nd Lf i1 c1 k1 v1 r1)))" using r by simp
  note p = swap_parts[OF this, simplified]
  have n: "i0 \<noteq> NIL" "i1 \<noteq> NIL" "i0 \<noteq> i1" "i0 \<notin> set (ixs l)" "i0 \<notin> set (ixs r1)" "i0 \<notin> set (cixs C)"
    "i1 \<notin> set (ixs l)" "i1 \<notin> set (ixs r1)" "i1 \<notin> set (cixs C)"
    "distinct (ixs l)" "distinct (ixs r1)" "distinct (cixs C)"
    "NIL \<notin> set (ixs l)" "NIL \<notin> set (ixs r1)" "NIL \<notin> set (cixs C)"
    and dj: "set (ixs l) \<inter> set (ixs r1) = {}" "set (ixs l) \<inter> set (cixs C) = {}" "set (ixs r1) \<inter> set (cixs C) = {}"
    using p(7,8) by auto
  have reads: "get_parent_index s i0 = Some (cpar C)" "get_parent_index s i1 = Some i0" "get_left_index s i0 = Some (rix l)"
    "get_left_index s i1 = Some NIL" "get_right_index s i0 = Some i1" "get_right_index s i1 = Some (rix r1)"
    using p(1,2) n by (simp_all add: get_parent_index_def get_left_index_def get_right_index_def)
  have l0: "is_left_child s i0 = Some (isL C)" using is_left_clay[of s i0 C] p(6,9) reads n by simp
  have "rix l \<noteq> i1" using n(2,7) by (cases l) auto
  then have l1: "is_left_child s i1 = Some False" using p(10) reads by (simp add: is_left_child_def)
  obtain h1 where h1: "(if isL C then set_left_index s (cpar C) i1 else set_right_index s (cpar C) i1) = Some (s\<lparr>rb_data := h1\<rparr>)"
    "clay h1 i1 C" "\<forall>x. x \<notin> set (cixs C) \<longrightarrow> h1 x = ?h x" using reparent_lay[of s i0 C i1] p(6) n by blast
  have h1': "h1 i0 = ?h i0" "h1 i1 = ?h i1" using h1(3) n by simp_all
  let ?h4 = "h1(i0 \<mapsto> cell NIL (rix r1) i0 c0 k0 v0, i1 \<mapsto> cell (rix l) i1 (cpar C) c1 k1 v1)"
  have f4: "?h4 x = ?h x" if "x \<in> set (ixs l) \<union> set (ixs r1)" for x
  proof -
    have "x \<noteq> i0" "x \<noteq> i1" "x \<notin> set (cixs C)" using that n dj by blast+
    then show ?thesis using h1(3) by simp
  qed
  have "lay ?h4 i0 l" using p(3) lay_cong[of l ?h4 ?h i0] f4 by blast
  then obtain h5 where h5: "set_parent_index (s\<lparr>rb_data := ?h4\<rparr>) (rix l) i1 = Some (s\<lparr>rb_data := h5\<rparr>)" "lay h5 i1 l"
    "\<forall>x. x \<notin> set (ixs l) \<longrightarrow> h5 x = ?h4 x" using set_parent_lay[of "s\<lparr>rb_data := ?h4\<rparr>" i0 l i1] n by auto
  let ?h6 = "h5(i1 \<mapsto> cell (rix l) i1 i1 c1 k1 v1)"
  have f6: "?h6 x = ?h x" if "x \<in> set (ixs r1)" for x
  proof -
    have "x \<noteq> i1" "x \<notin> set (ixs l)" using that n dj by blast+
    then show ?thesis using h5(3) f4[of x] that by simp
  qed
  have "lay ?h6 i1 r1" using p(4) lay_cong[of r1 ?h6 ?h i1] f6 by blast
  then obtain h7 where h7: "set_parent_index (s\<lparr>rb_data := ?h6\<rparr>) (rix r1) i0 = Some (s\<lparr>rb_data := h7\<rparr>)" "lay h7 i0 r1"
    "\<forall>x. x \<notin> set (ixs r1) \<longrightarrow> h7 x = ?h6 x" using set_parent_lay[of "s\<lparr>rb_data := ?h6\<rparr>" i1 r1 i0] n by auto
  have h57: "h5 i1 = Some (cell (rix l) i1 (cpar C) c1 k1 v1)" "h7 i0 = Some (cell NIL (rix r1) i0 c0 k0 v0)"
    "h7 i1 = Some (cell (rix l) i1 i1 c1 k1 v1)" using h7(3) h5(3) n by simp_all
  let ?h8 = "h7(i0 \<mapsto> cell NIL (rix r1) i1 c1 k0 v0, i1 \<mapsto> cell (rix l) i0 (cpar C) c0 k1 v1)"
  let ?s' = "set_root_if (s\<lparr>rb_data := h7\<rparr>) i0 i1\<lparr>rb_data := ?h8\<rparr>"
  have sr: "rb_data (set_root_if z a b) = rb_data z" "rb_max (set_root_if z a b) = rb_max z"
    "set_root_if (z\<lparr>rb_data := h\<rparr>) a b = (set_root_if z a b)\<lparr>rb_data := h\<rparr>" for z :: "'a rb_tree" and a b h
    by (simp_all add: set_root_if_def)
  have e: "swap_node_with_successor s i0 i1 = Some ?s'"
    using reads l0 l1 h1(1) h1' p(1,2) n h5(1) h7(1) h57
    by (simp add: swap_node_with_successor_def set_at sr fun_upd_twist)
  let ?T = "Nd l i0 c0 k0 v0 (Nd Lf i1 c1 k1 v1 r1)" and ?T' = "Nd l i1 c0 k1 v1 (Nd Lf i0 c1 k0 v0 r1)"
  have g: "?h8 x = h5 x" if "x \<in> set (ixs l)" for x
  proof -
    have "x \<noteq> i0" "x \<noteq> i1" "x \<notin> set (ixs r1)" using that n dj by blast+
    then show ?thesis using h7(3) by simp
  qed
  have g1: "?h8 x = h7 x" if "x \<in> set (ixs r1)" for x
  proof -
    have "x \<noteq> i0" "x \<noteq> i1" using that n by blast+
    then show ?thesis by simp
  qed
  have g3: "?h8 x = h1 x" if "x \<in> set (cixs C)" for x
  proof -
    have "x \<noteq> i0" "x \<noteq> i1" "x \<notin> set (ixs r1)" "x \<notin> set (ixs l)" using that n dj by blast+
    then show ?thesis using h7(3) h5(3) by simp
  qed
  have lays: "lay ?h8 i1 l" "lay ?h8 i0 r1" "clay ?h8 i1 C"
    using lay_cong[of l ?h8 h5 i1] lay_cong[of r1 ?h8 h7 i0] clay_cong[of C ?h8 h1 i1] g g1 g3 h5(2) h7(2) h1(2) by blast+
  have rt: "rb_root ?s' = rix (plug C ?T')"
    using p(9) r rix_plug[of C ?T' ?T] by (cases "C = []") (auto simp: set_root_if_def repc_def)
  have "distinct (ixs ?T' @ cixs C)" "NIL \<notin> set (ixs ?T' @ cixs C)" using p(7,8) by auto
  moreover have "lay ?h8 (cpar C) ?T'" using lays n(3) by simp
  ultimately have "repc ?s' C ?T'" using rt lays(3) by (simp only: repc_def) (simp add: sr)
  moreover have "keeps (blocks C ?T) s ?s'"
  proof -
    have "?h8 x = ?h x" if "x \<notin> blocks C ?T" for x
    proof -
      have "x \<notin> set (cixs C)" "x \<noteq> i0" "x \<noteq> i1" "x \<notin> set (ixs l)" "x \<notin> set (ixs r1)" using that by (auto simp: blocks_def)
      then show ?thesis using h7(3) h5(3) h1(3) by simp
    qed
    then show ?thesis by (simp add: keeps_def sr)
  qed
  ultimately show ?thesis using e by blast
qed

text \<open>The successor of a node is the least node of its right subtree.\<close>

fun lefts :: "'v frame list \<Rightarrow> bool" where
  "lefts [] = True"
| "lefts (InL i c k v r # D) = lefts D"
| "lefts (InR l i c k v # D) = False"

lemma least:
  assumes "t \<noteq> Lf"
  shows "\<exists>D i c k v r. t = plug D (Nd Lf i c k v r) \<and> lefts D \<and> fst (last (desc t)) = i"
  using assms
proof (induction t)
  case (Nd l i c k v r)
  show ?case
  proof (cases "l = Lf")
    case True
    then show ?thesis by (intro exI[of _ "[]"]) auto
  next
    case False
    then obtain D j d m u q where l: "l = plug D (Nd Lf j d m u q)" "lefts D" "fst (last (desc l)) = j" using Nd.IH(1) by blast
    have "lefts (D @ [InL i c k v r])" using l(2) by (induction D rule: lefts.induct) auto
    moreover have "desc l \<noteq> []" using False by simp
    ultimately show ?thesis using l by (intro exI[of _ "D @ [InL i c k v r]"]) (auto simp: plug_append)
  qed
qed simp

lemma swap_successor_rep:
  assumes r: "repc s C (Nd l i0 c0 k0 v0 (plug D (Nd Lf i1 c1 k1 v1 r1)))" and D: "lefts D"
  shows "\<exists>s'. swap_node_with_successor s i0 i1 = Some s' \<and> repc s' C (Nd l i1 c0 k1 v1 (plug D (Nd Lf i0 c1 k0 v0 r1))) \<and>
    keeps (blocks C (Nd l i0 c0 k0 v0 (plug D (Nd Lf i1 c1 k1 v1 r1)))) s s'"
proof (cases D)
  case Nil
  then show ?thesis using swap_adjacent r by (metis plug.simps(1))
next
  case (Cons f D')
  then obtain j d m u q where f: "f = InL j d m u q" using D by (cases f) auto
  show ?thesis using swap_deep[OF r[unfolded Cons f]] Cons f by simp
qed

end
