(* ===== verification/Rb_Remove.thy ===== *)
theory Rb_Remove
  imports Rb_Swap
begin

text \<open>Removal from the red-black tree: the node is taken out where it has at most one child, and a missing black is
  repaired upwards. The descending list loses the node and the tree stays balanced.\<close>

section \<open>What the repair reads\<close>

lemma set_color_at:
  assumes "repc s C (plug D (Nd l i c k v r))"
  shows "\<exists>s'. set_color s i c' = Some s' \<and> repc s' C (plug D (Nd l i c' k v r)) \<and> keeps {i} s s'"
  using set_color_rep[of s "D @ C"] assms by (simp add: repc_append)

lemma repc_not_root: "repc s (f # C) t \<Longrightarrow> rb_root s \<noteq> rix t"
  using repc_root_Lf[of s "f # C"] repc_root[of s "f # C"] by (cases t) auto

text \<open>A node \<open>t\<close> that lacks a black, its sibling \<open>w\<close> and its parent \<open>p\<close>, on either side.\<close>

lemma reads_right:
  assumes "repc s C (Nd t p pc pk pv (Nd wl w wc wk wv wr))"
  shows "rb_root s \<noteq> rix t" "get_sibling_index s (rix t) p = Some w" "get_color s w = Some wc" "get_color s p = Some pc"
    "get_left_index s w = Some (rix wl)" "get_right_index s w = Some (rix wr)" "get_color s (rix wl) = Some (col wl)"
    "get_color s (rix wr) = Some (col wr)" "is_left_child s w = Some False" "is_right_child s w = Some True"
    "get_parent_index s p = Some (cpar C)" "p \<noteq> NIL" "w \<noteq> NIL" "rix t \<noteq> w"
proof -
  have w: "repc s (InR t p pc pk pv # C) (Nd wl w wc wk wv wr)" and t: "repc s (InL p pc pk pv (Nd wl w wc wk wv wr) # C) t"
    and l: "repc s (InL w wc wk wv wr # InR t p pc pk pv # C) wl" and r: "repc s (InR wl w wc wk wv # InR t p pc pk pv # C) wr"
    using assms by simp_all
  have "rix t \<noteq> w" using assms repc_Nd(1)[OF w] by (cases t) (auto simp: repc_def)
  then show "rb_root s \<noteq> rix t" "get_sibling_index s (rix t) p = Some w" "get_color s w = Some wc" "get_color s p = Some pc"
    "get_left_index s w = Some (rix wl)" "get_right_index s w = Some (rix wr)" "get_color s (rix wl) = Some (col wl)"
    "get_color s (rix wr) = Some (col wr)" "is_left_child s w = Some False" "is_right_child s w = Some True"
    "get_parent_index s p = Some (cpar C)" "p \<noteq> NIL" "w \<noteq> NIL" "rix t \<noteq> w"
    using repc_not_root[OF t] repc_Nd[OF assms] repc_Nd[OF w] repc_color[OF l] repc_color[OF r] repc_is_left[OF w]
    by (simp_all add: get_sibling_index_def)
qed

lemma reads_left:
  assumes "repc s C (Nd (Nd wl w wc wk wv wr) p pc pk pv t)"
  shows "rb_root s \<noteq> rix t" "get_sibling_index s (rix t) p = Some w" "get_color s w = Some wc" "get_color s p = Some pc"
    "get_left_index s w = Some (rix wl)" "get_right_index s w = Some (rix wr)" "get_color s (rix wl) = Some (col wl)"
    "get_color s (rix wr) = Some (col wr)" "is_left_child s w = Some True" "is_right_child s w = Some False"
    "get_parent_index s p = Some (cpar C)" "p \<noteq> NIL" "w \<noteq> NIL" "rix t \<noteq> w"
proof -
  have w: "repc s (InL p pc pk pv t # C) (Nd wl w wc wk wv wr)" and t: "repc s (InR (Nd wl w wc wk wv wr) p pc pk pv # C) t"
    and l: "repc s (InL w wc wk wv wr # InL p pc pk pv t # C) wl" and r: "repc s (InR wl w wc wk wv # InL p pc pk pv t # C) wr"
    using assms by simp_all
  have "rix t \<noteq> w" using assms repc_Nd(1)[OF w] by (cases t) (auto simp: repc_def)
  then show "rb_root s \<noteq> rix t" "get_sibling_index s (rix t) p = Some w" "get_color s w = Some wc" "get_color s p = Some pc"
    "get_left_index s w = Some (rix wl)" "get_right_index s w = Some (rix wr)" "get_color s (rix wl) = Some (col wl)"
    "get_color s (rix wr) = Some (col wr)" "is_left_child s w = Some True" "is_right_child s w = Some False"
    "get_parent_index s p = Some (cpar C)" "p \<noteq> NIL" "w \<noteq> NIL" "rix t \<noteq> w"
    using repc_not_root[OF t] repc_Nd[OF assms] repc_Nd[OF w] repc_color[OF l] repc_color[OF r] repc_is_left[OF w]
    by (simp_all add: get_sibling_index_def)
qed

section \<open>A sibling with a red child\<close>

lemma nephew_LL:
  assumes "repc s C (Nd (Nd (Nd a z Red zk zv b) w Black wk wv wr) p pc pk pv t)"
  shows "\<exists>s'. remove_fix s (rix t) p = Some (s', NIL, NIL) \<and>
    repc s' C (Nd (Nd a z Black zk zv b) w pc wk wv (Nd wr p Black pk pv t)) \<and> keeps (blocks C (Nd (Nd (Nd a z Red zk zv b) w Black wk wv wr) p pc pk pv t)) s s'"
proof -
  obtain s1 where s1: "set_color s z Black = Some s1" "repc s1 C (Nd (Nd (Nd a z Black zk zv b) w Black wk wv wr) p pc pk pv t)" "keeps ({z}) s s1"
    using set_color_at[of s C "[InL w Black wk wv wr, InL p pc pk pv t]" a z Red zk zv b] assms(1) by auto
  obtain s2 where s2: "set_color s1 p Black = Some s2" "repc s2 C (Nd (Nd (Nd a z Black zk zv b) w Black wk wv wr) p Black pk pv t)" "keeps ({p}) s1 s2"
    using set_color_rep[OF s1(2)] by blast
  obtain s3 where s3: "set_color s2 w pc = Some s3" "repc s3 C (Nd (Nd (Nd a z Black zk zv b) w pc wk wv wr) p Black pk pv t)" "keeps ({w}) s2 s3"
    using set_color_at[of s2 C "[InL p Black pk pv t]" "(Nd a z Black zk zv b)" w Black wk wv "wr"] s2(2) by auto
  obtain s4 where s4: "rotate_right s3 p = Some s4" "repc s4 C (Nd (Nd a z Black zk zv b) w pc wk wv (Nd wr p Black pk pv t))" "keeps (blocks C (Nd (Nd (Nd a z Black zk zv b) w pc wk wv wr) p Black pk pv t)) s3 s4"
    using rotate_right_rep[OF s3(2)] by blast
  have "remove_fix s (rix t) p = Some (s4, NIL, NIL)"
    using s1(1) s2(1) s3(1) s4(1) by (simp add: remove_fix_def remove_fix_red_nephew_def reads_left[OF assms(1), simplified])
  moreover have "keeps (blocks C (Nd (Nd (Nd a z Red zk zv b) w Black wk wv wr) p pc pk pv t)) s s4" using s1(3) s2(3) s3(3) s4(3) by (auto simp: keeps_def blocks_def)
  ultimately show ?thesis using s4(2) by blast
qed

lemma nephew_LR:
  assumes "repc s C (Nd (Nd wl w Black wk wv (Nd a z Red zk zv b)) p pc pk pv t)" "col wl = Black"
  shows "\<exists>s'. remove_fix s (rix t) p = Some (s', NIL, NIL) \<and>
    repc s' C (Nd (Nd wl w Black wk wv a) z pc zk zv (Nd b p Black pk pv t)) \<and> keeps (blocks C (Nd (Nd wl w Black wk wv (Nd a z Red zk zv b)) p pc pk pv t)) s s'"
proof -
  obtain s1 where s1: "set_color s z pc = Some s1" "repc s1 C (Nd (Nd wl w Black wk wv (Nd a z pc zk zv b)) p pc pk pv t)" "keeps ({z}) s s1"
    using set_color_at[of s C "[InR wl w Black wk wv, InL p pc pk pv t]" a z Red zk zv b] assms(1) by auto
  obtain s2 where s2: "set_color s1 p Black = Some s2" "repc s2 C (Nd (Nd wl w Black wk wv (Nd a z pc zk zv b)) p Black pk pv t)" "keeps ({p}) s1 s2"
    using set_color_rep[OF s1(2)] by blast
  obtain s3 where s3: "set_color s2 w Black = Some s3" "repc s3 C (Nd (Nd wl w Black wk wv (Nd a z pc zk zv b)) p Black pk pv t)" "keeps ({w}) s2 s3"
    using set_color_at[of s2 C "[InL p Black pk pv t]" "wl" w Black wk wv "(Nd a z pc zk zv b)"] s2(2) by auto
  have c4: "repc s3 (InL p Black pk pv t # C) (Nd wl w Black wk wv (Nd a z pc zk zv b))" using s3(2) by simp
  obtain s4 where s4: "rotate_left s3 w = Some s4" "repc s4 C (Nd (Nd (Nd wl w Black wk wv a) z pc zk zv b) p Black pk pv t)" "keeps (blocks C (Nd (Nd wl w Black wk wv (Nd a z pc zk zv b)) p Black pk pv t)) s3 s4"
    using rotate_left_rep[OF c4] by auto
  obtain s5 where s5: "rotate_right s4 p = Some s5" "repc s5 C (Nd (Nd wl w Black wk wv a) z pc zk zv (Nd b p Black pk pv t))" "keeps (blocks C (Nd (Nd (Nd wl w Black wk wv a) z pc zk zv b) p Black pk pv t)) s4 s5"
    using rotate_right_rep[OF s4(2)] by blast
  have "remove_fix s (rix t) p = Some (s5, NIL, NIL)"
    using s1(1) s2(1) s3(1) s4(1) s5(1) by (simp add: remove_fix_def remove_fix_red_nephew_def reads_left[OF assms(1), simplified] assms(2))
  moreover have "keeps (blocks C (Nd (Nd wl w Black wk wv (Nd a z Red zk zv b)) p pc pk pv t)) s s5" using s1(3) s2(3) s3(3) s4(3) s5(3) by (auto simp: keeps_def blocks_def)
  ultimately show ?thesis using s5(2) by blast
qed

lemma nephew_RR:
  assumes "repc s C (Nd t p pc pk pv (Nd wl w Black wk wv (Nd a z Red zk zv b)))"
  shows "\<exists>s'. remove_fix s (rix t) p = Some (s', NIL, NIL) \<and>
    repc s' C (Nd (Nd t p Black pk pv wl) w pc wk wv (Nd a z Black zk zv b)) \<and> keeps (blocks C (Nd t p pc pk pv (Nd wl w Black wk wv (Nd a z Red zk zv b)))) s s'"
proof -
  obtain s1 where s1: "set_color s z Black = Some s1" "repc s1 C (Nd t p pc pk pv (Nd wl w Black wk wv (Nd a z Black zk zv b)))" "keeps ({z}) s s1"
    using set_color_at[of s C "[InR wl w Black wk wv, InR t p pc pk pv]" a z Red zk zv b] assms(1) by auto
  obtain s2 where s2: "set_color s1 p Black = Some s2" "repc s2 C (Nd t p Black pk pv (Nd wl w Black wk wv (Nd a z Black zk zv b)))" "keeps ({p}) s1 s2"
    using set_color_rep[OF s1(2)] by blast
  obtain s3 where s3: "set_color s2 w pc = Some s3" "repc s3 C (Nd t p Black pk pv (Nd wl w pc wk wv (Nd a z Black zk zv b)))" "keeps ({w}) s2 s3"
    using set_color_at[of s2 C "[InR t p Black pk pv]" "wl" w Black wk wv "(Nd a z Black zk zv b)"] s2(2) by auto
  obtain s4 where s4: "rotate_left s3 p = Some s4" "repc s4 C (Nd (Nd t p Black pk pv wl) w pc wk wv (Nd a z Black zk zv b))" "keeps (blocks C (Nd t p Black pk pv (Nd wl w pc wk wv (Nd a z Black zk zv b)))) s3 s4"
    using rotate_left_rep[OF s3(2)] by blast
  have "remove_fix s (rix t) p = Some (s4, NIL, NIL)"
    using s1(1) s2(1) s3(1) s4(1) by (simp add: remove_fix_def remove_fix_red_nephew_def reads_right[OF assms(1), simplified])
  moreover have "keeps (blocks C (Nd t p pc pk pv (Nd wl w Black wk wv (Nd a z Red zk zv b)))) s s4" using s1(3) s2(3) s3(3) s4(3) by (auto simp: keeps_def blocks_def)
  ultimately show ?thesis using s4(2) by blast
qed

lemma nephew_RL:
  assumes "repc s C (Nd t p pc pk pv (Nd (Nd a z Red zk zv b) w Black wk wv wr))" "col wr = Black"
  shows "\<exists>s'. remove_fix s (rix t) p = Some (s', NIL, NIL) \<and>
    repc s' C (Nd (Nd t p Black pk pv a) z pc zk zv (Nd b w Black wk wv wr)) \<and> keeps (blocks C (Nd t p pc pk pv (Nd (Nd a z Red zk zv b) w Black wk wv wr))) s s'"
proof -
  obtain s1 where s1: "set_color s z pc = Some s1" "repc s1 C (Nd t p pc pk pv (Nd (Nd a z pc zk zv b) w Black wk wv wr))" "keeps ({z}) s s1"
    using set_color_at[of s C "[InL w Black wk wv wr, InR t p pc pk pv]" a z Red zk zv b] assms(1) by auto
  obtain s2 where s2: "set_color s1 p Black = Some s2" "repc s2 C (Nd t p Black pk pv (Nd (Nd a z pc zk zv b) w Black wk wv wr))" "keeps ({p}) s1 s2"
    using set_color_rep[OF s1(2)] by blast
  obtain s3 where s3: "set_color s2 w Black = Some s3" "repc s3 C (Nd t p Black pk pv (Nd (Nd a z pc zk zv b) w Black wk wv wr))" "keeps ({w}) s2 s3"
    using set_color_at[of s2 C "[InR t p Black pk pv]" "(Nd a z pc zk zv b)" w Black wk wv "wr"] s2(2) by auto
  have c4: "repc s3 (InR t p Black pk pv # C) (Nd (Nd a z pc zk zv b) w Black wk wv wr)" using s3(2) by simp
  obtain s4 where s4: "rotate_right s3 w = Some s4" "repc s4 C (Nd t p Black pk pv (Nd a z pc zk zv (Nd b w Black wk wv wr)))" "keeps (blocks C (Nd t p Black pk pv (Nd (Nd a z pc zk zv b) w Black wk wv wr))) s3 s4"
    using rotate_right_rep[OF c4] by auto
  obtain s5 where s5: "rotate_left s4 p = Some s5" "repc s5 C (Nd (Nd t p Black pk pv a) z pc zk zv (Nd b w Black wk wv wr))" "keeps (blocks C (Nd t p Black pk pv (Nd a z pc zk zv (Nd b w Black wk wv wr)))) s4 s5"
    using rotate_left_rep[OF s4(2)] by blast
  have "remove_fix s (rix t) p = Some (s5, NIL, NIL)"
    using s1(1) s2(1) s3(1) s4(1) s5(1) by (simp add: remove_fix_def remove_fix_red_nephew_def reads_right[OF assms(1), simplified] assms(2))
  moreover have "keeps (blocks C (Nd t p pc pk pv (Nd (Nd a z Red zk zv b) w Black wk wv wr))) s s5" using s1(3) s2(3) s3(3) s4(3) s5(3) by (auto simp: keeps_def blocks_def)
  ultimately show ?thesis using s5(2) by blast
qed

section \<open>A sibling with black children\<close>

lemma recolour_sibling_right:
  assumes "repc s C (Nd t p pc pk pv (Nd wl w Black wk wv wr))" "col wl = Black" "col wr = Black"
  shows "\<exists>s'. remove_fix s (rix t) p = Some (s', if pc = Black then (p, cpar C) else (NIL, NIL)) \<and>
    repc s' C (Nd t p Black pk pv (Nd wl w Red wk wv wr)) \<and> keeps (blocks C (Nd t p pc pk pv (Nd wl w Black wk wv wr))) s s'"
proof -
  obtain s1 where s1: "set_color s w Red = Some s1" "repc s1 C (Nd t p pc pk pv (Nd wl w Red wk wv wr))" "keeps {w} s s1"
    using set_color_at[of s C "[InR t p pc pk pv]" wl w Black wk wv wr] assms(1) by auto
  note rd = reads_right[OF assms(1)] reads_right[OF s1(2)]
  show ?thesis
  proof (cases pc)
    case Black
    then have "remove_fix s (rix t) p = Some (s1, p, cpar C)"
      using s1(1) assms(2,3) rd by (simp add: remove_fix_def)
    then show ?thesis using s1 Black by (auto simp: keeps_def blocks_def)
  next
    case Red
    obtain s2 where s2: "set_color s1 p Black = Some s2" "repc s2 C (Nd t p Black pk pv (Nd wl w Red wk wv wr))" "keeps {p} s1 s2"
      using set_color_rep[OF s1(2)] by blast
    then have "remove_fix s (rix t) p = Some (s2, NIL, NIL)"
      using s1(1) assms(2,3) Red rd by (simp add: remove_fix_def)
    then show ?thesis using s1 s2 Red by (auto simp: keeps_def blocks_def)
  qed
qed

lemma recolour_sibling_left:
  assumes "repc s C (Nd (Nd wl w Black wk wv wr) p pc pk pv t)" "col wl = Black" "col wr = Black"
  shows "\<exists>s'. remove_fix s (rix t) p = Some (s', if pc = Black then (p, cpar C) else (NIL, NIL)) \<and>
    repc s' C (Nd (Nd wl w Red wk wv wr) p Black pk pv t) \<and> keeps (blocks C (Nd (Nd wl w Black wk wv wr) p pc pk pv t)) s s'"
proof -
  obtain s1 where s1: "set_color s w Red = Some s1" "repc s1 C (Nd (Nd wl w Red wk wv wr) p pc pk pv t)" "keeps {w} s s1"
    using set_color_at[of s C "[InL p pc pk pv t]" wl w Black wk wv wr] assms(1) by auto
  note rd = reads_left[OF assms(1)] reads_left[OF s1(2)]
  show ?thesis
  proof (cases pc)
    case Black
    then have "remove_fix s (rix t) p = Some (s1, p, cpar C)"
      using s1(1) assms(2,3) rd by (simp add: remove_fix_def)
    then show ?thesis using s1 Black by (auto simp: keeps_def blocks_def)
  next
    case Red
    obtain s2 where s2: "set_color s1 p Black = Some s2" "repc s2 C (Nd (Nd wl w Red wk wv wr) p Black pk pv t)" "keeps {p} s1 s2"
      using set_color_rep[OF s1(2)] by blast
    then have "remove_fix s (rix t) p = Some (s2, NIL, NIL)"
      using s1(1) assms(2,3) Red rd by (simp add: remove_fix_def)
    then show ?thesis using s1 s2 Red by (auto simp: keeps_def blocks_def)
  qed
qed

section \<open>A red sibling\<close>

lemma red_sibling_right:
  assumes "repc s C (Nd t p pc pk pv (Nd wl w Red wk wv wr))"
  shows "\<exists>s'. remove_fix s (rix t) p = Some (s', rix t, p) \<and>
    repc s' C (Nd (Nd t p Red pk pv wl) w Black wk wv wr) \<and> keeps (blocks C (Nd t p pc pk pv (Nd wl w Red wk wv wr))) s s'"
proof -
  obtain s1 where s1: "rotate_left s p = Some s1" "repc s1 C (Nd (Nd t p pc pk pv wl) w Red wk wv wr)" "keeps (blocks C (Nd t p pc pk pv (Nd wl w Red wk wv wr))) s s1"
    using rotate_left_rep[OF assms] by blast
  obtain s2 where s2: "set_color s1 p Red = Some s2" "repc s2 C (Nd (Nd t p Red pk pv wl) w Red wk wv wr)" "keeps {p} s1 s2"
    using set_color_at[of s1 C "[InL w Red wk wv wr]" t p pc pk pv wl] s1(2) by auto
  obtain s3 where s3: "set_color s2 w Black = Some s3" "repc s3 C (Nd (Nd t p Red pk pv wl) w Black wk wv wr)" "keeps {w} s2 s3"
    using set_color_rep[OF s2(2)] by blast
  have "remove_fix s (rix t) p = Some (s3, rix t, p)"
    using s1(1) s2(1) s3(1) by (simp add: remove_fix_def reads_right[OF assms])
  moreover have "keeps (blocks C (Nd t p pc pk pv (Nd wl w Red wk wv wr))) s s3" using s1(3) s2(3) s3(3) by (auto simp: keeps_def blocks_def)
  ultimately show ?thesis using s3(2) by blast
qed

lemma red_sibling_left:
  assumes "repc s C (Nd (Nd wl w Red wk wv wr) p pc pk pv t)"
  shows "\<exists>s'. remove_fix s (rix t) p = Some (s', rix t, p) \<and>
    repc s' C (Nd wl w Black wk wv (Nd wr p Red pk pv t)) \<and> keeps (blocks C (Nd (Nd wl w Red wk wv wr) p pc pk pv t)) s s'"
proof -
  obtain s1 where s1: "rotate_right s p = Some s1" "repc s1 C (Nd wl w Red wk wv (Nd wr p pc pk pv t))" "keeps (blocks C (Nd (Nd wl w Red wk wv wr) p pc pk pv t)) s s1"
    using rotate_right_rep[OF assms] by blast
  obtain s2 where s2: "set_color s1 p Red = Some s2" "repc s2 C (Nd wl w Red wk wv (Nd wr p Red pk pv t))" "keeps {p} s1 s2"
    using set_color_at[of s1 C "[InR wl w Red wk wv]" wr p pc pk pv t] s1(2) by auto
  obtain s3 where s3: "set_color s2 w Black = Some s3" "repc s3 C (Nd wl w Black wk wv (Nd wr p Red pk pv t))" "keeps {w} s2 s3"
    using set_color_rep[OF s2(2)] by blast
  have "remove_fix s (rix t) p = Some (s3, rix t, p)"
    using s1(1) s2(1) s3(1) by (simp add: remove_fix_def reads_left[OF assms])
  moreover have "keeps (blocks C (Nd (Nd wl w Red wk wv wr) p pc pk pv t)) s s3" using s1(3) s2(3) s3(3) by (auto simp: keeps_def blocks_def)
  ultimately show ?thesis using s3(2) by blast
qed

section \<open>The loop\<close>

text \<open>One step at a node \<open>t\<close> that lacks a black, below \<open>P\<close> with a black sibling: the repair ends, or the
  parent lacks a black.\<close>

definition restored :: "'v rb_tree \<Rightarrow> data_index \<Rightarrow> data_index \<Rightarrow> bool \<Rightarrow> 'v frame list \<Rightarrow> 'v rbt \<Rightarrow> bool" where
  "restored s x y ends C t = (\<exists>s' t' a b. remove_fix s x y = Some (s', a, b) \<and> repc s' C t' \<and> desc t' = desc t \<and>
     invh t' \<and> invc t' \<and> keeps (blocks C t) s s' \<and>
     (a = NIL \<and> b = NIL \<and> takes C (bh t') \<and> (ccol C = Red \<longrightarrow> col t' = Black) \<or>
      \<not> ends \<and> t' \<noteq> Lf \<and> a = rix t' \<and> b = cpar C \<and> col t' = Black \<and> takes C (Suc (bh t'))))"

lemma restoredI:
  assumes "remove_fix s x y = Some (s', NIL, NIL)" "repc s' C t'" "desc t' = desc t" "invh t'" "invc t'"
    "keeps (blocks C t) s s'" "takes C (bh t')" "ccol C = Red \<longrightarrow> col t' = Black"
  shows "restored s x y e C t"
  using assms unfolding restored_def by blast

lemma restored_up:
  assumes "remove_fix s x y = Some (s', rix t', cpar C)" "repc s' C t'" "desc t' = desc t" "invh t'" "invc t'"
    "keeps (blocks C t) s s'" "t' \<noteq> Lf" "col t' = Black" "takes C (Suc (bh t'))"
  shows "restored s x y False C t"
  using assms unfolding restored_def by blast

lemma nephews:
  assumes "invh w" "bh w = Suc n" "col w = Black"
  shows "\<exists>wl i wk wv wr. w = Nd wl i Black wk wv wr \<and> bh wl = n \<and> bh wr = n \<and> invh wl \<and> invh wr"
  using assms by (cases w) auto

lemma restore_step:
  assumes r: "repc s (P # C) t" and b: "invh t" "invc t" "col t = Black" "takes (P # C) (Suc (bh t))"
    and w: "\<exists>j c k v w. (P = InL j c k v w \<or> P = InR w j c k v) \<and> col w = Black"
  shows "restored s (rix t) (fix_of P) (fcol P = Red) C (plug [P] t)"
proof -
  obtain p pc pk pv w where P: "P = InL p pc pk pv w \<or> P = InR w p pc pk pv" "col w = Black" using w by blast
  have bw: "bh w = Suc (bh t)" "invh w" "invc w" and tk: "takes C (Suc (bh t) + (if pc = Black then 1 else 0))"
    and pc: "pc = Red \<longrightarrow> ccol C = Black" using b(4) P(1) by auto
  obtain wl j wk wv wr where wn: "w = Nd wl j Black wk wv wr" "bh wl = bh t" "bh wr = bh t" "invh wl" "invh wr"
    using nephews[OF bw(2) bw(1) P(2)] by blast
  have wi: "invc wl" "invc wr" using bw(3) wn by auto
  from P(1) show ?thesis
  proof
    assume P: "P = InL p pc pk pv w"
    have a: "repc s C (Nd t p pc pk pv (Nd wl j Black wk wv wr))" using r P wn by simp
    show ?thesis
    proof (cases "col wr")
      case Red
      then obtain za z zk zv zb where z: "wr = Nd za z Red zk zv zb" by (cases wr) auto
      obtain s' where s': "remove_fix s (rix t) p = Some (s', NIL, NIL)"
        "repc s' C (Nd (Nd t p Black pk pv wl) j pc wk wv (Nd za z Black zk zv zb))"
        "keeps (blocks C (Nd t p pc pk pv (Nd wl j Black wk wv (Nd za z Red zk zv zb)))) s s'"
        using nephew_RR[OF a[unfolded z]] by blast
      show ?thesis by (rule restoredI[OF _ s'(2)]) (use s'(1,3) P wn wi z b tk pc in auto)
    next
      case wrB: Black
      show ?thesis
      proof (cases "col wl")
        case Red
        then obtain za z zk zv zb where z: "wl = Nd za z Red zk zv zb" by (cases wl) auto
        obtain s' where s': "remove_fix s (rix t) p = Some (s', NIL, NIL)"
          "repc s' C (Nd (Nd t p Black pk pv za) z pc zk zv (Nd zb j Black wk wv wr))"
          "keeps (blocks C (Nd t p pc pk pv (Nd (Nd za z Red zk zv zb) j Black wk wv wr))) s s'"
          using nephew_RL[OF a[unfolded z] wrB] by blast
        show ?thesis by (rule restoredI[OF _ s'(2)]) (use s'(1,3) P wn wi z b tk pc in auto)
      next
        case Black
        obtain s' where s': "remove_fix s (rix t) p = Some (s', if pc = Black then (p, cpar C) else (NIL, NIL))"
          "repc s' C (Nd t p Black pk pv (Nd wl j Red wk wv wr))" "keeps (blocks C (Nd t p pc pk pv (Nd wl j Black wk wv wr))) s s'"
          using recolour_sibling_right[OF a Black wrB] by blast
        show ?thesis
        proof (cases pc)
          case Red
          then show ?thesis by (intro restoredI[OF _ s'(2)]) (use s'(1,3) P wn wi Black wrB b tk pc in auto)
        next
          case pcB: Black
          then have "restored s (rix t) p False C (plug [P] t)"
            by (intro restored_up[OF _ s'(2)]) (use s'(1,3) P wn wi Black wrB b tk in auto)
          then show ?thesis using P pcB by simp
        qed
      qed
    qed
  next
    assume P: "P = InR w p pc pk pv"
    have a: "repc s C (Nd (Nd wl j Black wk wv wr) p pc pk pv t)" using r P wn by simp
    show ?thesis
    proof (cases "col wl")
      case Red
      then obtain za z zk zv zb where z: "wl = Nd za z Red zk zv zb" by (cases wl) auto
      obtain s' where s': "remove_fix s (rix t) p = Some (s', NIL, NIL)"
        "repc s' C (Nd (Nd za z Black zk zv zb) j pc wk wv (Nd wr p Black pk pv t))"
        "keeps (blocks C (Nd (Nd (Nd za z Red zk zv zb) j Black wk wv wr) p pc pk pv t)) s s'"
        using nephew_LL[OF a[unfolded z]] by blast
      show ?thesis by (rule restoredI[OF _ s'(2)]) (use s'(1,3) P wn wi z b tk pc in auto)
    next
      case wlB: Black
      show ?thesis
      proof (cases "col wr")
        case Red
        then obtain za z zk zv zb where z: "wr = Nd za z Red zk zv zb" by (cases wr) auto
        obtain s' where s': "remove_fix s (rix t) p = Some (s', NIL, NIL)"
          "repc s' C (Nd (Nd wl j Black wk wv za) z pc zk zv (Nd zb p Black pk pv t))"
          "keeps (blocks C (Nd (Nd wl j Black wk wv (Nd za z Red zk zv zb)) p pc pk pv t)) s s'"
          using nephew_LR[OF a[unfolded z] wlB] by blast
        show ?thesis by (rule restoredI[OF _ s'(2)]) (use s'(1,3) P wn wi z b tk pc in auto)
      next
        case Black
        obtain s' where s': "remove_fix s (rix t) p = Some (s', if pc = Black then (p, cpar C) else (NIL, NIL))"
          "repc s' C (Nd (Nd wl j Red wk wv wr) p Black pk pv t)" "keeps (blocks C (Nd (Nd wl j Black wk wv wr) p pc pk pv t)) s s'"
          using recolour_sibling_left[OF a wlB Black] by blast
        show ?thesis
        proof (cases pc)
          case Red
          then show ?thesis by (intro restoredI[OF _ s'(2)]) (use s'(1,3) P wn wi Black wlB b tk pc in auto)
        next
          case pcB: Black
          then have "restored s (rix t) p False C (plug [P] t)"
            by (intro restored_up[OF _ s'(2)]) (use s'(1,3) P wn wi Black wlB b tk in auto)
          then show ?thesis using P pcB by simp
        qed
      qed
    qed
  qed
qed

lemma loop_ends:
  assumes "restored s x y True C t"
  shows "\<exists>s' t'. remove_fix_loop s x y = Some s' \<and> repc s' [] t' \<and> balanced t' \<and> desc t' = desc (plug C t) \<and>
    keeps (blocks C t) s s'"
proof -
  obtain s' t' where s': "remove_fix s x y = Some (s', NIL, NIL)" "repc s' C t'" "desc t' = desc t" "invh t'" "invc t'"
    "keeps (blocks C t) s s'" "takes C (bh t')" "ccol C = Red \<longrightarrow> col t' = Black" using assms unfolding restored_def by blast
  have "remove_fix_loop s x y = Some s'" using s'(1) by (simp add: remove_fix_loop.simps[of s x y])
  moreover have "repc s' [] (plug C t')" "balanced (plug C t')" using s' by (simp_all add: repc_plug balanced_plug)
  ultimately show ?thesis using s'(6) desc_plug_cong[OF s'(3), of C] by blast
qed

lemma remove_fix_loop_rep:
  assumes "repc s C t" "takes C (Suc (bh t))" "invh t" "invc t" "col t = Black"
  shows "\<exists>s' t'. remove_fix_loop s (rix t) (cpar C) = Some s' \<and> repc s' [] t' \<and> balanced t' \<and> desc t' = desc (plug C t) \<and>
    keeps (blocks C t) s s'"
  using assms
proof (induction C arbitrary: s t)
  case Nil
  then have "remove_fix s (rix t) NIL = Some (s, NIL, NIL)" by (simp add: remove_fix_def repc_def)
  then have "remove_fix_loop s (rix t) NIL = Some s" by (simp add: remove_fix_loop.simps[of s "rix t"])
  then show ?case using Nil.prems by (intro exI[of _ s] exI[of _ t]) (simp add: balanced_def)
next
  case (Cons P C)
  have bl: "blocks (P # C) t = blocks C (plug [P] t)" "plug (P # C) t = plug C (plug [P] t)" by (cases P; simp)+
  obtain p pc pk pv w where P: "P = InL p pc pk pv w \<or> P = InR w p pc pk pv" by (cases P) auto
  show ?case
  proof (cases "col w")
    case Black
    then have R: "restored s (rix t) (fix_of P) (fcol P = Red) C (plug [P] t)"
      using restore_step[OF Cons.prems(1,3,4,5,2)] P by blast
    then obtain s1 t1 a b where s1: "remove_fix s (rix t) (fix_of P) = Some (s1, a, b)" "repc s1 C t1" "desc t1 = desc (plug [P] t)"
      "invh t1" "invc t1" "keeps (blocks C (plug [P] t)) s s1"
      and o: "a = NIL \<and> b = NIL \<and> takes C (bh t1) \<and> (ccol C = Red \<longrightarrow> col t1 = Black) \<or>
        t1 \<noteq> Lf \<and> a = rix t1 \<and> b = cpar C \<and> col t1 = Black \<and> takes C (Suc (bh t1))" unfolding restored_def by blast
    from o show ?thesis
    proof
      assume "a = NIL \<and> b = NIL \<and> takes C (bh t1) \<and> (ccol C = Red \<longrightarrow> col t1 = Black)"
      then have "restored s (rix t) (fix_of P) True C (plug [P] t)" using s1 by (intro restoredI[of _ _ _ s1 _ t1]) auto
      then show ?thesis using loop_ends bl by simp
    next
      assume u: "t1 \<noteq> Lf \<and> a = rix t1 \<and> b = cpar C \<and> col t1 = Black \<and> takes C (Suc (bh t1))"
      then obtain s' t' where s': "remove_fix_loop s1 (rix t1) (cpar C) = Some s'" "repc s' [] t'" "balanced t'"
        "desc t' = desc (plug C t1)" "keeps (blocks C t1) s1 s'" using Cons.IH[of s1 t1] s1 by blast
      have "rix t1 \<noteq> NIL" using repc_rix_NIL[OF s1(2)] u by blast
      then have "remove_fix_loop s (rix t) (fix_of P) = Some s'" using s1(1) s'(1) u by (simp add: remove_fix_loop.simps[of s "rix t"])
      moreover have "keeps (blocks C (plug [P] t)) s s'" using s1(6) s'(5) blocks_desc[OF s1(3), of C] keeps_trans by metis
      ultimately show ?thesis using s' bl desc_plug_cong[OF s1(3), of C] by auto
    qed
  next
    case Red
    then obtain wl j wk wv wr where wn: "w = Nd wl j Red wk wv wr" by (cases w) auto
    obtain s1 P' G where s1: "remove_fix s (rix t) p = Some (s1, rix t, p)" "repc s1 (P' # G # C) t"
      "keeps (blocks C (plug [P] t)) s s1" "takes (P' # G # C) (Suc (bh t))" "fcol P' = Red" "fix_of P' = p"
      and sb: "\<exists>j c k v w. (P' = InL j c k v w \<or> P' = InR w j c k v) \<and> col w = Black"
      and ds: "desc (plug [P', G] t) = desc (plug [P] t)" and pn: "p \<noteq> NIL"
    proof -
      from P show thesis
      proof
        assume P: "P = InL p pc pk pv w"
        have a: "repc s C (Nd t p pc pk pv (Nd wl j Red wk wv wr))" using Cons.prems(1) P wn by simp
        obtain s1 where s1: "remove_fix s (rix t) p = Some (s1, rix t, p)" "repc s1 C (Nd (Nd t p Red pk pv wl) j Black wk wv wr)"
          "keeps (blocks C (Nd t p pc pk pv (Nd wl j Red wk wv wr))) s s1" using red_sibling_right[OF a] by blast
        show thesis by (rule that[of s1 "InL p Red pk pv wl" "InL j Black wk wv wr"])
          (use s1 Cons.prems(2) P wn repc_Nd(1)[OF a] in auto)
      next
        assume P: "P = InR w p pc pk pv"
        have a: "repc s C (Nd (Nd wl j Red wk wv wr) p pc pk pv t)" using Cons.prems(1) P wn by simp
        obtain s1 where s1: "remove_fix s (rix t) p = Some (s1, rix t, p)" "repc s1 C (Nd wl j Black wk wv (Nd wr p Red pk pv t))"
          "keeps (blocks C (Nd (Nd wl j Red wk wv wr) p pc pk pv t)) s s1" using red_sibling_left[OF a] by blast
        show thesis by (rule that[of s1 "InR wr p Red pk pv" "InR wl j Black wk wv"])
          (use s1 Cons.prems(2) P wn repc_Nd(1)[OF a] in auto)
      qed
    qed
    have "restored s1 (rix t) p True (G # C) (plug [P'] t)"
      using restore_step[OF s1(2) Cons.prems(3,4,5) s1(4) sb] s1(5,6) by simp
    then obtain s' t' where s': "remove_fix_loop s1 (rix t) p = Some s'" "repc s' [] t'" "balanced t'"
      "desc t' = desc (plug (G # C) (plug [P'] t))" "keeps (blocks (G # C) (plug [P'] t)) s1 s'" using loop_ends by blast
    have e: "plug (G # C) (plug [P'] t) = plug C (plug [P', G] t)" "blocks (G # C) (plug [P'] t) = blocks C (plug [P', G] t)"
      by (cases P'; cases G; simp)+
    have "fix_of P = p" using P by auto
    then have "remove_fix_loop s (rix t) (fix_of P) = Some s'" using s1(1) s'(1) pn by (simp add: remove_fix_loop.simps[of s "rix t"])
    moreover have "keeps (blocks C (plug [P] t)) s s'" using s1(3) s'(5) e blocks_desc[OF ds, of C] keeps_trans by metis
    ultimately show ?thesis using s' bl e desc_plug_cong[OF ds, of C] by auto
  qed
qed

section \<open>The operation\<close>

lemma bh_0: "bh t = 0 \<Longrightarrow> col t = Black \<Longrightarrow> t = Lf"
  by (cases t) auto

lemma remove_outer_rep:
  assumes r: "repc s C (Nd l x c k v r)" and o: "l = Lf \<or> r = Lf" and b: "balanced (plug C (Nd l x c k v r))"
  shows "\<exists>s' t'. remove_outer s x = Some s' \<and> repc s' [] t' \<and> balanced t' \<and> desc t' = desc (plug C (child l r)) \<and>
    keeps (blocks C (child l r)) s s'"
proof -
  let ?ch = "child l r"
  have lr: "repc s (InL x c k v r # C) l" "repc s (InR l x c k v # C) r" using r by simp_all
  obtain s1 where s1: "update_parent_child s x = Some s1" "repc s1 C ?ch" "keeps (blocks C ?ch) s s1"
    using update_parent_child_rep[OF r o] by blast
  have inv: "bh l = bh r" "invh l" "invh r" "invc l" "invc r" "c = Red \<longrightarrow> col l = Black \<and> col r = Black"
    "takes C (bh l + (if c = Black then 1 else 0))" "ccol C = Red \<longrightarrow> c = Black"
    using b by (auto simp: balanced_plug)
  have bh: "bh ?ch = 0" "invh ?ch" "invc ?ch" "bh l = 0" using inv o by (auto simp: child_def)
  have gc: "get_child_index s x = Some (rix ?ch)"
    using repc_Nd[OF r] repc_rix_NIL[OF lr(1)] by (simp add: get_child_index_def child_def)
  note reads = repc_Nd[OF r] repc_color[OF lr(1)] repc_color[OF lr(2)]
  show ?thesis
  proof (cases "col ?ch")
    case Red
    then obtain a z zk zv d where ch: "?ch = Nd a z Red zk zv d" by (cases ?ch) auto
    have c: "c = Black" "col l = Red \<or> col r = Red" using Red inv(6) by (auto simp: child_def split: if_splits)
    obtain s2 where s2: "set_color s1 z Black = Some s2" "repc s2 C (Nd a z Black zk zv d)" "keeps {z} s1 s2"
      using set_color_rep s1(2) ch by metis
    have "remove_outer s x = Some s2" using reads gc s1(1) s2(1) ch c by (auto simp: remove_outer_def)
    moreover have "balanced (plug C (Nd a z Black zk zv d))" using bh ch inv(7) c bh(4) by (simp add: balanced_plug)
    moreover have "desc (plug C (Nd a z Black zk zv d)) = desc (plug C ?ch)" using ch by (intro desc_plug_cong) simp
    moreover have "keeps (blocks C ?ch) s s2" using s1(3) s2(3) ch by (auto simp: keeps_def blocks_def)
    ultimately show ?thesis using s2(2) by (metis repc_plug)
  next
    case Black
    then have ch: "?ch = Lf" using bh_0 bh(1) by blast
    then have lf: "l = Lf" "r = Lf" by (auto simp: child_def split: if_splits)
    show ?thesis
    proof (cases c)
      case Red
      have "remove_outer s x = Some s1" using reads gc s1(1) ch Red by (simp add: remove_outer_def set_color_def)
      moreover have "balanced (plug C ?ch)" using inv(7) Red lf ch by (simp add: balanced_plug)
      ultimately show ?thesis using s1 by (metis repc_plug)
    next
      case cB: Black
      obtain s' t' where s': "remove_fix_loop s1 (rix ?ch) (cpar C) = Some s'" "repc s' [] t'" "balanced t'"
        "desc t' = desc (plug C ?ch)" "keeps (blocks C ?ch) s1 s'"
        using remove_fix_loop_rep[OF s1(2)] inv(7) cB lf ch by auto
      have "remove_outer s x = Some s'" using reads gc s1(1) s'(1) cB lf ch by (simp add: remove_outer_def)
      then show ?thesis using s' s1(3) keeps_trans by blast
    qed
  qed
qed

lemma tree_remove_at: "distinct (map fst (as @ (i, v) # bs)) \<Longrightarrow> tree_remove i (as @ (i, v) # bs) = as @ bs"
  using tree_remove_absent[of i as] tree_remove_absent[of i bs]
  by (auto simp: tree_remove_def tree_indices_def)

text \<open>Removal without the maximum: the node is swapped outwards first when it has two children.\<close>

lemma remove_body:
  assumes r: "repc s C (Nd l x c k v r)" and b: "balanced (plug C (Nd l x c k v r))"
  shows "\<exists>s' t'. do { internal \<leftarrow> is_internal s x;
       s2 \<leftarrow> (if internal then do { successor_index \<leftarrow> get_next_higher_index s x; swap_node_with_successor s x successor_index } else Some s);
       remove_outer s2 x } = Some s' \<and> repc s' [] t' \<and> balanced t' \<and>
    desc t' = cpre C @ desc r @ desc l @ csuf C \<and> keeps (blocks C (Nd l x c k v r)) s s'"
proof -
  have lr: "repc s (InL x c k v r # C) l" "repc s (InR l x c k v # C) r" using r by simp_all
  have int: "is_internal s x = Some (l \<noteq> Lf \<and> r \<noteq> Lf)"
    using repc_Nd[OF r] repc_rix_NIL[OF lr(1)] repc_rix_NIL[OF lr(2)] by (simp add: is_internal_def)
  show ?thesis
  proof (cases "l \<noteq> Lf \<and> r \<noteq> Lf")
    case False
    then have o: "l = Lf \<or> r = Lf" by blast
    obtain s' t' where s': "remove_outer s x = Some s'" "repc s' [] t'" "balanced t'" "desc t' = desc (plug C (child l r))"
      "keeps (blocks C (child l r)) s s'" using remove_outer_rep[OF r o b] by blast
    have "blocks C (child l r) \<subseteq> blocks C (Nd l x c k v r)" by (auto simp: blocks_def child_def)
    moreover have "desc t' = cpre C @ desc r @ desc l @ csuf C" using s'(4) o by (auto simp: desc_plug child_def)
    ultimately show ?thesis using s' int False keeps_mono by (intro exI[of _ s'] exI[of _ t']) auto
  next
    case True
    then obtain D i d m u q where D: "r = plug D (Nd Lf i d m u q)" "lefts D" "fst (last (desc r)) = i" using least by blast
    have nh: "get_next_higher_index s x = Some i"
      using leftmost_rep[OF lr(2)] True D(3) repc_Nd[OF r] by (simp add: get_next_higher_index_def)
    obtain s1 where s1: "swap_node_with_successor s x i = Some s1" "repc s1 C (Nd l i c m u (plug D (Nd Lf x d k v q)))"
      "keeps (blocks C (Nd l x c k v r)) s s1" using swap_successor_rep[OF r[unfolded D(1)] D(2)] D(1) by auto
    let ?E = "D @ InR l i c m u # C"
    have r1: "repc s1 ?E (Nd Lf x d k v q)" using s1(2) by (simp add: repc_append)
    have "balanced (plug (D @ InR l x c k v # C) (Nd Lf i d m u q))" using b D(1) by (simp add: plug_append)
    then have tk: "takes (D @ InR l x c k v # C) (bh (Nd Lf i d m u q))" "invh (Nd Lf i d m u q)" "invc (Nd Lf i d m u q)"
      "ccol (D @ InR l x c k v # C) = Red \<longrightarrow> d = Black" by (auto simp: balanced_plug)
    have cc: "ccol (A @ InR l x c k v # C) = ccol (A @ InR l i c m u # C)" for A by (cases A) auto
    have "takes (D @ InR l x c k v # C) n = takes ?E n" for n
      by (induction D n rule: takes.induct) (auto simp: cc)
    moreover have "ccol (D @ InR l x c k v # C) = ccol ?E" by (rule cc)
    ultimately have "balanced (plug ?E (Nd Lf x d k v q))" using tk by (simp add: balanced_plug)
    then obtain s' t' where s': "remove_outer s1 x = Some s'" "repc s' [] t'" "balanced t'" "desc t' = desc (plug ?E q)"
      "keeps (blocks ?E q) s1 s'" using remove_outer_rep[OF r1] by (auto simp: child_def)
    have suf: "csuf D = []" using D(2) by (induction D rule: lefts.induct) auto
    have "desc t' = cpre C @ desc r @ desc l @ csuf C" using s'(4) D(1) suf by (simp add: plug_append desc_plug)
    moreover have "blocks ?E q \<subseteq> blocks C (Nd l x c k v r)"
    proof -
      have "set (cixs (A @ B)) = set (cixs A) \<union> set (cixs B)" for A B :: "'a frame list" by (induction A rule: cixs.induct) auto
      then show ?thesis using D(1) by (auto simp: blocks_def)
    qed
    ultimately show ?thesis using s' int True nh s1 keeps_mono keeps_trans by (intro exI[of _ s'] exI[of _ t']) (simp, blast)
  qed
qed

lemma rb_remove_holds:
  assumes h: "holds cmp s t" and i: "i \<in> set (ixs t)"
  shows "\<exists>s' t'. rb_remove_by_index s i = Some s' \<and> holds cmp s' t' \<and> desc t' = tree_remove i (desc t) \<and>
    (\<forall>j. j \<notin> set (ixs t) \<longrightarrow> rb_data s' j = rb_data s j) \<and>
    (rb_max s = NIL \<longrightarrow> rb_max s' = NIL) \<and> (rb_max s = tree_max (desc t) \<longrightarrow> rb_max s' = tree_max (desc t'))"
proof -
  have r: "repc s [] t" and b: "balanced t" and ok: "tree_ok cmp (desc t)"
    and m: "rb_max s = NIL \<or> rb_max s = tree_max (desc t)" using h by (simp_all add: holds_def)
  obtain v where "(i, v) \<in> set (desc t)" using i by (auto simp: set_ixs)
  then obtain C l c k r' where t: "t = plug C (Nd l i c k v r')" using focus by metis
  have rc: "repc s C (Nd l i c k v r')" using r t by (simp add: repc_plug)
  let ?as = "cpre C @ desc r'" and ?bs = "desc l @ csuf C"
  have d: "desc t = ?as @ (i, v) # ?bs" using t by (simp add: desc_plug)
  have ds: "distinct (map fst (desc t))" using r ixs_desc[of t] by (simp add: repc_def)
  have rm: "tree_remove i (desc t) = ?as @ ?bs" using tree_remove_at[of ?as i v ?bs] ds d by simp
  have iN: "i \<noteq> NIL" using repc_Nd(1)[OF rc] .
  let ?mx = "if i = rb_max s then tree_max ?bs else rb_max s"
  let ?s1 = "s\<lparr>rb_max := ?mx\<rparr>"
  have e1: "(if i = rb_max s then do { lower \<leftarrow> get_next_lower_index s (rb_max s); Some (s\<lparr>rb_max := lower\<rparr>) } else Some s) = Some ?s1"
    using next_lower_list[OF r d] by auto
  have "repc ?s1 C (Nd l i c k v r')" using rc by (simp add: repc_def)
  then obtain s' t' where s': "do { internal \<leftarrow> is_internal ?s1 i;
       s2 \<leftarrow> (if internal then do { successor_index \<leftarrow> get_next_higher_index ?s1 i; swap_node_with_successor ?s1 i successor_index } else Some ?s1);
       remove_outer s2 i } = Some s'" "repc s' [] t'" "balanced t'" "desc t' = ?as @ ?bs" "keeps (blocks C (Nd l i c k v r')) ?s1 s'"
    using remove_body b t by (metis append.assoc)
  have e: "rb_remove_by_index s i = Some s'" using s'(1) e1 iN by (simp add: rb_remove_by_index_def)
  have bl: "blocks C (Nd l i c k v r') = set (ixs t)" using t by (simp add: blocks_def)
  have mx: "rb_max s' = ?mx" using s'(5) by (simp add: keeps_def)
  have "tree_max (?as @ ?bs) = tree_max ?bs" if "i = tree_max (desc t)"
  proof -
    have "?as = []" using that d ds by (cases ?as) (auto simp: tree_max_def)
    then show ?thesis by simp
  qed
  moreover have "tree_max (?as @ ?bs) = tree_max (desc t)" if "i \<noteq> tree_max (desc t)"
  proof -
    have "?as \<noteq> []" using that d by auto
    then show ?thesis using d by (simp add: tree_max_append)
  qed
  ultimately have mt: "rb_max s = tree_max (desc t) \<longrightarrow> rb_max s' = tree_max (desc t')" using mx s'(4) by auto
  have mn: "rb_max s = NIL \<longrightarrow> rb_max s' = NIL" using mx iN by auto
  have "tree_ok cmp (desc t')" using tree_remove_ok[OF ok, of i] rm s'(4) by simp
  then have "holds cmp s' t'" using s'(2,3) mt mn m by (auto simp: holds_def)
  then show ?thesis using e s'(4,5) rm bl mt mn by (intro exI[of _ s'] exI[of _ t']) (simp add: keeps_def)
qed

end
