(* ===== verification/Rb_Refines.thy ===== *)
theory Rb_Refines
  imports Rb_Remove Market_State
begin

text \<open>The red-black tree refines the descending list: an interface for a container in memory, whose operations may
  fail, its interpretation by the pointer code, and the properties of any history of insertions and removals: what
  the tree holds, that the assertions of \<open>verify_rb_tree\<close> pass, and how deep its nodes sit.\<close>

section \<open>Blocks are never lost\<close>

text \<open>No operation moves the bounds of the data: the same blocks can be read before and after.\<close>

definition room :: "'v rb_tree \<Rightarrow> data_index set" where
  "room s = dom (rb_data s)"

definition roomy :: "data_index set \<Rightarrow> 'v rb_tree option \<Rightarrow> bool" where
  "roomy A m = (\<forall>s. m = Some s \<longrightarrow> room s = A)"

lemma roomy_state: "roomy A m \<Longrightarrow> (\<And>s. room s = A \<Longrightarrow> roomy A (f s)) \<Longrightarrow> roomy A (m \<bind> f)"
  by (auto simp: roomy_def bind_eq_Some_conv)

lemma roomy_value: "(\<And>x. roomy A (f x)) \<Longrightarrow> roomy A (m \<bind> f)"
  by (auto simp: roomy_def bind_eq_Some_conv)

lemma roomy_if: "(b \<Longrightarrow> roomy A m) \<Longrightarrow> (\<not> b \<Longrightarrow> roomy A n) \<Longrightarrow> roomy A (if b then m else n)"
  by simp

lemma roomy_Some: "room s = A \<Longrightarrow> roomy A (Some s)"
  by (simp add: roomy_def)

lemma roomy_write_node: "room s = A \<Longrightarrow> roomy A (write_node s i f)"
  by (auto simp: roomy_def room_def write_node_def dom_def split: if_splits)

lemma roomy_setters:
  "room s = A \<Longrightarrow> roomy A (set_color s i c)" "room s = A \<Longrightarrow> roomy A (set_parent_index s i x)"
  "room s = A \<Longrightarrow> roomy A (set_left_index s i x)" "room s = A \<Longrightarrow> roomy A (set_right_index s i x)"
  unfolding set_color_def set_parent_index_def set_left_index_def set_right_index_def
  by (intro roomy_if roomy_Some roomy_write_node; assumption)+

lemma room_updates [simp]: "room (s\<lparr>rb_max := m\<rparr>) = room s" "room (s\<lparr>rb_root := i\<rparr>) = room s" "room (set_root_if s i j) = room s"
  by (simp_all add: room_def set_root_if_def)

lemma roomy_root: "room s = A \<Longrightarrow> roomy A (Some (set_root_if s i j))"
  by (simp add: roomy_Some)

lemmas roomy_intros = roomy_if roomy_root roomy_Some roomy_write_node roomy_setters roomy_state roomy_value

lemma roomy_relink: "room s = A \<Longrightarrow> roomy A (relink_child s g i p)"
  unfolding relink_child_def by (rule roomy_intros | assumption)+

lemma roomy_rotate: "room s = A \<Longrightarrow> roomy A (rotate_left s i)" "room s = A \<Longrightarrow> roomy A (rotate_right s i)"
  unfolding rotate_left_def rotate_right_def by (rule roomy_relink roomy_intros | assumption)+

lemma roomy_surgery:
  "room s = A \<Longrightarrow> roomy A (swap_node_with_successor s i j)" "room s = A \<Longrightarrow> roomy A (update_parent_child s i)"
  unfolding swap_node_with_successor_def update_parent_child_def by (rule roomy_intros | assumption)+

text \<open>Steps that also answer what to repair next.\<close>

definition steps_room :: "data_index set \<Rightarrow> ('v rb_tree \<times> 'a) option \<Rightarrow> bool" where
  "steps_room A m = (\<forall>s x. m = Some (s, x) \<longrightarrow> room s = A)"

lemma steps_room_state: "roomy A m \<Longrightarrow> (\<And>s. room s = A \<Longrightarrow> steps_room A (f s)) \<Longrightarrow> steps_room A (m \<bind> f)"
  by (auto simp: roomy_def steps_room_def bind_eq_Some_conv)

lemma steps_room_value: "(\<And>x. steps_room A (f x)) \<Longrightarrow> steps_room A (m \<bind> f)"
  by (auto simp: steps_room_def bind_eq_Some_conv)

lemma steps_room_if: "(b \<Longrightarrow> steps_room A m) \<Longrightarrow> (\<not> b \<Longrightarrow> steps_room A n) \<Longrightarrow> steps_room A (if b then m else n)"
  by simp

lemma steps_room_Some: "room s = A \<Longrightarrow> steps_room A (Some (s, x))"
  by (simp add: steps_room_def)

lemmas steps_room_intros = steps_room_if steps_room_Some steps_room_state steps_room_value

lemma steps_room_insert_fix: "room s = A \<Longrightarrow> steps_room A (insert_fix s i)"
  unfolding insert_fix_def by (rule steps_room_intros roomy_rotate roomy_intros | assumption)+

lemma roomy_red_nephew: "room s = A \<Longrightarrow> roomy A (remove_fix_red_nephew s p pc w wc)"
  unfolding remove_fix_red_nephew_def by (rule roomy_rotate roomy_intros | assumption)+

lemma steps_room_remove_fix: "room s = A \<Longrightarrow> steps_room A (remove_fix s i j)"
  unfolding remove_fix_def by (rule steps_room_intros roomy_red_nephew roomy_rotate roomy_intros | assumption)+

lemma insert_fix_loop_room: "insert_fix_loop s i = Some s' \<Longrightarrow> room s' = room s"
proof (erule insert_fix_loop.raw_induct[rotated])
  fix loop :: "'a rb_tree \<Rightarrow> data_index \<Rightarrow> 'a rb_tree option" and s i s'
  assume IH: "\<And>s i s'. loop s i = Some s' \<Longrightarrow> room s' = room s"
    and "do { (s', n) \<leftarrow> insert_fix s i; if n = NIL then Some s' else loop s' n } = Some s'"
  then obtain s1 n where s1: "insert_fix s i = Some (s1, n)" "(if n = NIL then Some s1 else loop s1 n) = Some s'"
    by (auto simp: bind_eq_Some_conv)
  have r: "room s1 = room s" using steps_room_insert_fix[OF refl, of s i] s1(1) by (simp add: steps_room_def)
  show "room s' = room s"
  proof (cases "n = NIL")
    case False
    then have "room s' = room s1" using IH[of s1 n s'] s1(2) by simp
    then show ?thesis using r by (rule trans)
  qed (use r s1(2) in simp)
qed

lemma remove_fix_loop_room: "remove_fix_loop s i j = Some s' \<Longrightarrow> room s' = room s"
proof (erule remove_fix_loop.raw_induct[rotated])
  fix loop :: "'a rb_tree \<Rightarrow> data_index \<Rightarrow> data_index \<Rightarrow> 'a rb_tree option" and s i j s'
  assume IH: "\<And>s i j s'. loop s i j = Some s' \<Longrightarrow> room s' = room s"
    and "do { (s', a, b) \<leftarrow> remove_fix s i j; if a = NIL \<and> b = NIL then Some s' else loop s' a b } = Some s'"
  then obtain s1 a b where s1: "remove_fix s i j = Some (s1, a, b)" "(if a = NIL \<and> b = NIL then Some s1 else loop s1 a b) = Some s'"
    by (auto simp: bind_eq_Some_conv)
  have r: "room s1 = room s" using steps_room_remove_fix[OF refl, of s i j] s1(1) by (simp add: steps_room_def)
  show "room s' = room s"
  proof (cases "a = NIL \<and> b = NIL")
    case False
    then have "room s' = room s1" using IH[of s1 a b s'] s1(2) by (simp only: if_False)
    then show ?thesis using r by (rule trans)
  qed (use r s1(2) in simp)
qed

lemma roomy_loops: "room s = A \<Longrightarrow> roomy A (insert_fix_loop s i)" "room s = A \<Longrightarrow> roomy A (remove_fix_loop s i j)"
  unfolding roomy_def using insert_fix_loop_room remove_fix_loop_room by metis+

lemma roomy_insert: "roomy (room s) (rb_insert cmp s i v)"
proof -
  have n: "room x = A \<Longrightarrow> roomy A (insert_node_no_fix cmp x nd i)" for x :: "'a rb_tree" and nd A
    unfolding insert_node_no_fix_def by (rule roomy_intros | assumption)+
  have b: "roomy A (Some (if c then s\<lparr>rb_max := m\<rparr> else s))" "roomy A (write_node (s\<lparr>rb_root := k, rb_max := m\<rparr>) i f)"
    if "room s = A" for A c m k i f using that by (auto intro: roomy_Some roomy_write_node)
  show ?thesis unfolding rb_insert_def by (rule n b roomy_loops roomy_intros refl | assumption)+
qed

lemma roomy_remove: "roomy (room s) (rb_remove_by_index s i)"
proof -
  have o: "room x = A \<Longrightarrow> roomy A (remove_outer x i)" for x :: "'a rb_tree" and A
    unfolding remove_outer_def by (rule roomy_surgery roomy_loops roomy_intros | assumption)+
  have b: "roomy A (Some (s\<lparr>rb_max := m\<rparr>))" if "room s = A" for A m using that by (auto intro: roomy_Some)
  show ?thesis unfolding rb_remove_by_index_def by (rule o b roomy_surgery roomy_intros refl | assumption)+
qed

section \<open>The interface of a container in memory\<close>

text \<open>\<open>repr\<close> is the descending list a well-formed container stands for, \<open>data\<close> its blocks. An operation that is
  used as it is meant to be does not fail, acts on the list, and leaves the blocks of other owners alone.\<close>

locale memory_tree =
  fixes cmp :: "'v \<Rightarrow> 'v \<Rightarrow> ordering"
    and inv :: "'s \<Rightarrow> bool"
    and repr :: "'s \<Rightarrow> 'v tree"
    and data :: "'s \<Rightarrow> data_index \<Rightarrow> 'n option"
    and insert_at :: "'s \<Rightarrow> data_index \<Rightarrow> 'v \<Rightarrow> 's option"
    and remove_at :: "'s \<Rightarrow> data_index \<Rightarrow> 's option"
    and reopen :: "'s \<Rightarrow> 's"
  assumes inv_ok: "inv s \<Longrightarrow> tree_ok cmp (repr s)"
    and insert_law: "inv s \<Longrightarrow> i \<noteq> NIL \<Longrightarrow> i \<in> dom (data s) \<Longrightarrow> i \<notin> set (tree_indices (repr s)) \<Longrightarrow>
      \<exists>s'. insert_at s i v = Some s' \<and> inv s' \<and> repr s' = tree_insert cmp i v (repr s) \<and> dom (data s') = dom (data s) \<and>
        (\<forall>j. j \<notin> insert i (set (tree_indices (repr s))) \<longrightarrow> data s' j = data s j)"
    and remove_law: "inv s \<Longrightarrow> i \<in> set (tree_indices (repr s)) \<Longrightarrow>
      \<exists>s'. remove_at s i = Some s' \<and> inv s' \<and> repr s' = tree_remove i (repr s) \<and> dom (data s') = dom (data s) \<and>
        (\<forall>j. j \<notin> set (tree_indices (repr s)) \<longrightarrow> data s' j = data s j)"
    and reopen_law: "inv s \<Longrightarrow> inv (reopen s) \<and> repr (reopen s) = repr s \<and> data (reopen s) = data s"

text \<open>Histories of a container: insertions into free blocks, removals, and views opened without the maximum.\<close>

datatype 'v tree_op = Ins data_index 'v | Del data_index | Reopen

fun fits :: "data_index set \<Rightarrow> 'v tree_op list \<Rightarrow> data_index set \<Rightarrow> bool" where
  "fits R [] U = True"
| "fits R (Ins i v # ops) U = (i \<noteq> NIL \<and> i \<in> R \<and> i \<notin> U \<and> fits R ops (insert i U))"
| "fits R (Del i # ops) U = (i \<in> U \<and> fits R ops (U - {i}))"
| "fits R (Reopen # ops) U = fits R ops U"

fun list_run :: "('v \<Rightarrow> 'v \<Rightarrow> ordering) \<Rightarrow> 'v tree_op list \<Rightarrow> 'v tree \<Rightarrow> 'v tree" where
  "list_run cmp [] t = t"
| "list_run cmp (Ins i v # ops) t = list_run cmp ops (tree_insert cmp i v t)"
| "list_run cmp (Del i # ops) t = list_run cmp ops (tree_remove i t)"
| "list_run cmp (Reopen # ops) t = list_run cmp ops t"

fun memory_run ::
  "('s \<Rightarrow> data_index \<Rightarrow> 'v \<Rightarrow> 's option) \<Rightarrow> ('s \<Rightarrow> data_index \<Rightarrow> 's option) \<Rightarrow> ('s \<Rightarrow> 's) \<Rightarrow> 'v tree_op list \<Rightarrow> 's \<Rightarrow> 's option" where
  "memory_run ins del re [] s = Some s"
| "memory_run ins del re (Ins i v # ops) s = do { s' \<leftarrow> ins s i v; memory_run ins del re ops s' }"
| "memory_run ins del re (Del i # ops) s = do { s' \<leftarrow> del s i; memory_run ins del re ops s' }"
| "memory_run ins del re (Reopen # ops) s = memory_run ins del re ops (re s)"

fun op_index :: "'v tree_op \<Rightarrow> data_index set" where
  "op_index (Ins i v) = {i}"
| "op_index (Del i) = {i}"
| "op_index Reopen = {}"

context memory_tree begin

text \<open>Every fitting history runs through and ends in a container of the list the history makes.\<close>

lemma run_simulates:
  "inv s \<Longrightarrow> fits (dom (data s)) ops (set (tree_indices (repr s))) \<Longrightarrow>
   \<exists>s'. memory_run insert_at remove_at reopen ops s = Some s' \<and> inv s' \<and> repr s' = list_run cmp ops (repr s) \<and>
     (\<forall>j. j \<notin> set (tree_indices (repr s)) \<union> \<Union> (op_index ` set ops) \<longrightarrow> data s' j = data s j)"
proof (induction ops arbitrary: s)
  case (Cons a ops)
  show ?case
  proof (cases a)
    case (Ins i v)
    then obtain s1 where s1: "insert_at s i v = Some s1" "inv s1" "repr s1 = tree_insert cmp i v (repr s)" "dom (data s1) = dom (data s)"
      "\<forall>j. j \<notin> insert i (set (tree_indices (repr s))) \<longrightarrow> data s1 j = data s j"
      using insert_law[OF Cons.prems(1), of i v] Cons.prems(2) by auto
    then show ?thesis using Cons.IH[of s1] Cons.prems(2) Ins by (auto simp: tree_insert_indices)
  next
    case (Del i)
    then obtain s1 where s1: "remove_at s i = Some s1" "inv s1" "repr s1 = tree_remove i (repr s)" "dom (data s1) = dom (data s)"
      "\<forall>j. j \<notin> set (tree_indices (repr s)) \<longrightarrow> data s1 j = data s j"
      using remove_law[OF Cons.prems(1), of i] Cons.prems(2) by auto
    then show ?thesis using Cons.IH[of s1] Cons.prems(2) Del by (auto simp: tree_remove_indices)
  next
    case Reopen
    then show ?thesis using Cons.IH[of "reopen s"] reopen_law[OF Cons.prems(1)] Cons.prems(2) by auto
  qed
qed simp

end

section \<open>The red-black tree provides it\<close>

definition rb_ok :: "('v \<Rightarrow> 'v \<Rightarrow> ordering) \<Rightarrow> 'v rb_tree \<Rightarrow> bool" where
  "rb_ok cmp s = (\<exists>t. holds cmp s t)"

definition rb_list :: "'v rb_tree \<Rightarrow> 'v tree" where
  "rb_list s = the (rb_iter s)"

text \<open>A view opened with the root of the header but without a maximum.\<close>

definition rb_reopen :: "'v rb_tree \<Rightarrow> 'v rb_tree" where
  "rb_reopen s = s\<lparr>rb_max := NIL\<rparr>"

lemma rb_list_holds: "holds cmp s t \<Longrightarrow> rb_list s = desc t"
  using rb_iter_holds[of cmp s t] by (simp add: rb_list_def)

lemma rb_memory_tree:
  assumes cmp: "total_cmp cmp"
  shows "memory_tree cmp (rb_ok cmp) rb_list rb_data (rb_insert cmp) rb_remove_by_index rb_reopen"
proof
  fix s :: "'a rb_tree" and i v
  assume s: "rb_ok cmp s"
  obtain t where t: "holds cmp s t" using s by (auto simp: rb_ok_def)
  have l: "rb_list s = desc t" "set (tree_indices (rb_list s)) = set (ixs t)"
    using rb_list_holds[OF t] by (simp_all add: tree_indices_def set_ixs)
  show "tree_ok cmp (rb_list s)" using t l by (simp add: holds_def)
  show "rb_ok cmp (rb_reopen s) \<and> rb_list (rb_reopen s) = rb_list s \<and> rb_data (rb_reopen s) = rb_data s"
  proof -
    have "holds cmp (rb_reopen s) t" using t by (simp add: holds_def rb_reopen_def repc_def)
    then show ?thesis using rb_list_holds l(1) by (auto simp: rb_ok_def rb_reopen_def)
  qed
  show "\<exists>s'. rb_insert cmp s i v = Some s' \<and> rb_ok cmp s' \<and> rb_list s' = tree_insert cmp i v (rb_list s) \<and>
      dom (rb_data s') = dom (rb_data s) \<and> (\<forall>j. j \<notin> insert i (set (tree_indices (rb_list s))) \<longrightarrow> rb_data s' j = rb_data s j)"
    if i: "i \<noteq> NIL" "i \<in> dom (rb_data s)" "i \<notin> set (tree_indices (rb_list s))"
  proof -
    obtain s' t' where s': "rb_insert cmp s i v = Some s'" "holds cmp s' t'" "desc t' = tree_insert cmp i v (desc t)"
      "\<forall>j. j \<notin> insert i (set (ixs t)) \<longrightarrow> rb_data s' j = rb_data s j"
      using rb_insert_holds[OF cmp t i(1), of v] i(2,3) l by auto
    moreover have "dom (rb_data s') = dom (rb_data s)" using roomy_insert[of s cmp i v] s'(1) by (simp add: roomy_def room_def)
    ultimately show ?thesis using rb_list_holds[OF s'(2)] l unfolding rb_ok_def by auto
  qed
  show "\<exists>s'. rb_remove_by_index s i = Some s' \<and> rb_ok cmp s' \<and> rb_list s' = tree_remove i (rb_list s) \<and>
      dom (rb_data s') = dom (rb_data s) \<and> (\<forall>j. j \<notin> set (tree_indices (rb_list s)) \<longrightarrow> rb_data s' j = rb_data s j)"
    if i: "i \<in> set (tree_indices (rb_list s))"
  proof -
    obtain s' t' where s': "rb_remove_by_index s i = Some s'" "holds cmp s' t'" "desc t' = tree_remove i (desc t)"
      "\<forall>j. j \<notin> set (ixs t) \<longrightarrow> rb_data s' j = rb_data s j"
      using rb_remove_holds[OF t, of i] i l by auto
    moreover have "dom (rb_data s') = dom (rb_data s)" using roomy_remove[of s i] s'(1) by (simp add: roomy_def room_def)
    ultimately show ?thesis using rb_list_holds[OF s'(2)] l unfolding rb_ok_def by auto
  qed
qed

interpretation rb_bids: memory_tree bid_cmp "rb_ok bid_cmp" rb_list rb_data "rb_insert bid_cmp" rb_remove_by_index rb_reopen
  by (rule rb_memory_tree) (rule bid_cmp_total)

interpretation rb_asks: memory_tree ask_cmp "rb_ok ask_cmp" rb_list rb_data "rb_insert ask_cmp" rb_remove_by_index rb_reopen
  by (rule rb_memory_tree) (rule ask_cmp_total)

interpretation rb_seats: memory_tree claimed_seat_cmp "rb_ok claimed_seat_cmp" rb_list rb_data "rb_insert claimed_seat_cmp"
    rb_remove_by_index rb_reopen
  by (rule rb_memory_tree) (rule claimed_seat_cmp_total)

interpretation rb_loans: memory_tree matched_loan_cmp "rb_ok matched_loan_cmp" rb_list rb_data "rb_insert matched_loan_cmp"
    rb_remove_by_index rb_reopen
  by (rule rb_memory_tree) (rule matched_loan_cmp_total)

section \<open>The assertions of the tests\<close>

partial_function (option) black_nodes :: "'v rb_tree \<Rightarrow> data_index \<Rightarrow> int \<Rightarrow> int option" where
  "black_nodes s current_index num_black_nodes =
     (if current_index = NIL then Some num_black_nodes
      else do { c \<leftarrow> get_color s current_index;
                parent \<leftarrow> get_parent_index s current_index;
                black_nodes s parent (if c = Black then num_black_nodes + 1 else num_black_nodes) })"

definition num_black_nodes_through_root :: "'v rb_tree \<Rightarrow> data_index \<Rightarrow> int option" where
  "num_black_nodes_through_root s index = black_nodes s index 0"

partial_function (option) steps_up :: "'v rb_tree \<Rightarrow> data_index \<Rightarrow> int \<Rightarrow> int option" where
  "steps_up s current_index d =
     (if current_index = NIL then Some d
      else do { parent \<leftarrow> get_parent_index s current_index; steps_up s parent (d + 1) })"

definition rb_depth :: "'v rb_tree \<Rightarrow> data_index \<Rightarrow> int option" where
  "rb_depth s index = steps_up s index (-1)"

fun verify_nodes :: "'v rb_tree \<Rightarrow> (data_index \<times> 'v) list \<Rightarrow> int option \<Rightarrow> unit option" where
  "verify_nodes s [] num_black = Some ()"
| "verify_nodes s ((index, node) # rest) num_black =
     do { c \<leftarrow> get_color s index;
          left \<leftarrow> get_left_index s index;
          right \<leftarrow> get_right_index s index;
          left_color \<leftarrow> get_color s left;
          right_color \<leftarrow> get_color s right;
          if c = Red \<and> (left_color = Red \<or> right_color = Red) then None
          else if left = NIL \<or> right = NIL
          then do { n \<leftarrow> num_black_nodes_through_root s index;
                    (case num_black of
                       Some m \<Rightarrow> if m = n then verify_nodes s rest num_black else None
                     | None \<Rightarrow> verify_nodes s rest (Some n)) }
          else verify_nodes s rest num_black }"

definition verify_rb_tree :: "'v rb_tree \<Rightarrow> unit option" where
  "verify_rb_tree s = do { nodes \<leftarrow> iter_from s (rb_max s); verify_nodes s nodes None }"

fun blacks :: "'v frame list \<Rightarrow> nat" where
  "blacks [] = 0"
| "blacks (f # C) = (if fcol f = Black then 1 else 0) + blacks C"

lemma black_nodes_rep:
  "repc s C t \<Longrightarrow> t \<noteq> Lf \<Longrightarrow> black_nodes s (rix t) n = Some (n + int (blacks C) + (if col t = Black then 1 else 0))"
proof (induction C arbitrary: t n)
  case Nil
  then obtain l i c k v r where t: "t = Nd l i c k v r" by (cases t) auto
  then show ?case using repc_Nd[of s "[]" l i c k v r] Nil.prems(1)
    by (simp add: black_nodes.simps[of s i] black_nodes.simps[of s NIL])
next
  case (Cons f C)
  then obtain l i c k v r where t: "t = Nd l i c k v r" by (cases t) auto
  have u: "repc s C (plug [f] t)" "plug [f] t \<noteq> Lf" "rix (plug [f] t) = fix_of f" "col (plug [f] t) = fcol f"
    using Cons.prems(1) by (cases f; simp)+
  show ?case using repc_Nd[of s "f # C" l i c k v r] Cons.prems(1) t Cons.IH[OF u(1,2)] u(3,4)
    by (simp add: black_nodes.simps[of s i])
qed

lemma steps_up_rep: "repc s C t \<Longrightarrow> t \<noteq> Lf \<Longrightarrow> steps_up s (rix t) d = Some (d + 1 + int (length C))"
proof (induction C arbitrary: t d)
  case Nil
  then obtain l i c k v r where t: "t = Nd l i c k v r" by (cases t) auto
  then show ?case using repc_Nd[of s "[]" l i c k v r] Nil.prems(1)
    by (simp add: steps_up.simps[of s i] steps_up.simps[of s NIL])
next
  case (Cons f C)
  then obtain l i c k v r where t: "t = Nd l i c k v r" by (cases t) auto
  have u: "repc s C (plug [f] t)" "plug [f] t \<noteq> Lf" "rix (plug [f] t) = fix_of f" using Cons.prems(1) by (cases f; simp)+
  show ?case using repc_Nd[of s "f # C" l i c k v r] Cons.prems(1) t Cons.IH[OF u(1,2)] u(3)
    by (simp add: steps_up.simps[of s i])
qed

lemma bh_plug: "takes C (bh t) \<Longrightarrow> bh (plug C t) = bh t + blacks C"
  by (induction C t rule: plug.induct) (auto split: if_splits)

lemma verify_nodes_rep:
  assumes r: "repc s [] t" and b: "balanced t"
  shows "set ps \<subseteq> set (desc t) \<Longrightarrow> nb = None \<or> nb = Some (int (bh t)) \<Longrightarrow> verify_nodes s ps nb = Some ()"
proof (induction ps arbitrary: nb)
  case (Cons p ps)
  obtain i v where p: "p = (i, v)" by force
  then obtain C l c k q where t: "t = plug C (Nd l i c k v q)" using focus[of i v t] Cons.prems(1) by auto
  have rc: "repc s C (Nd l i c k v q)" using r t by (simp add: repc_plug)
  then have lr: "repc s (InL i c k v q # C) l" "repc s (InR l i c k v # C) q" by simp_all
  have inv: "takes C (bh (Nd l i c k v q))" "bh l = bh q" "c = Red \<longrightarrow> col l = Black \<and> col q = Black"
    using b t by (auto simp: balanced_plug)
  have "num_black_nodes_through_root s i = Some (int (bh t))" if "l = Lf \<or> q = Lf"
    using black_nodes_rep[OF rc, of 0] bh_plug[OF inv(1)] that inv(2) t by (auto simp: num_black_nodes_through_root_def)
  then show ?case using Cons.prems Cons.IH[of nb] Cons.IH[of "Some (int (bh t))"] p inv(3) repc_Nd[OF rc]
      repc_color[OF lr(1)] repc_color[OF lr(2)] repc_rix_NIL[OF lr(1)] repc_rix_NIL[OF lr(2)]
    by auto
qed simp

lemma iter_from_NIL [simp]: "iter_from s NIL = Some []"
  by (simp add: iter_from.simps[of s NIL] get_next_lower_index_def)

lemma verify_holds:
  assumes "holds cmp s t"
  shows "verify_rb_tree s = Some ()"
proof -
  have "repc s [] t" "balanced t" "rb_max s = NIL \<or> rb_max s = tree_max (desc t)" using assms by (simp_all add: holds_def)
  then show ?thesis using iter_from_rep[of s t "[]" "desc t"] verify_nodes_rep[of s t "desc t" None] by (auto simp: verify_rb_tree_def)
qed

text \<open>How deep the nodes sit: at least every other node of a path is black, and every path has as many black nodes.\<close>

lemma size_bh: "invh t \<Longrightarrow> 2 ^ bh t \<le> length (desc t) + 1"
  by (induction t) (auto simp: power_add split: if_splits)

lemma path_blacks: "takes C n \<Longrightarrow> length C + (if C \<noteq> [] \<and> ccol C = Black then 1 else 0) \<le> 2 * blacks C"
proof (induction C n rule: takes.induct)
  case (2 i c k v r C n)
  then show ?case by (cases c; cases C) (auto split: if_splits)
next
  case (3 l i c k v C n)
  then show ?case by (cases c; cases C) (auto split: if_splits)
qed simp

lemma depth_holds:
  assumes "holds cmp s t" "(i, v) \<in> set (desc t)"
  shows "\<exists>d. rb_depth s i = Some (int d) \<and> 2 ^ ((d + 2) div 2) \<le> length (desc t) + 1"
proof -
  have r: "repc s [] t" and b: "balanced t" using assms(1) by (simp_all add: holds_def)
  obtain C l c k q where t: "t = plug C (Nd l i c k v q)" using focus[OF assms(2)] by blast
  let ?n = "Nd l i c k v q"
  have rc: "repc s C ?n" using r t by (simp add: repc_plug)
  have inv: "takes C (bh ?n)" "ccol C = Red \<longrightarrow> c = Black" using b t by (auto simp: balanced_plug)
  have "bh t = bh ?n + blacks C" using bh_plug[OF inv(1)] t by simp
  moreover have "length C + 1 \<le> 2 * (blacks C + (if c = Black then 1 else 0))"
    using path_blacks[OF inv(1)] inv(2) by (cases c; cases C) (auto split: if_splits)
  ultimately have "(length C + 2) div 2 \<le> bh t" by auto
  then have "(2::nat) ^ ((length C + 2) div 2) \<le> 2 ^ bh t" by (rule power_increasing) simp
  also have "\<dots> \<le> length (desc t) + 1" using size_bh[of t] b by (simp add: balanced_def)
  finally show ?thesis using steps_up_rep[OF rc, of "-1"] by (intro exI[of _ "length C"]) (simp add: rb_depth_def)
qed

section \<open>Properties\<close>

lemma run_holds:
  assumes "total_cmp cmp" "rb_root s = NIL" "rb_max s = NIL" "fits (dom (rb_data s)) ops {}"
  shows "\<exists>s' t. memory_run (rb_insert cmp) rb_remove_by_index rb_reopen ops s = Some s' \<and> holds cmp s' t \<and>
    desc t = list_run cmp ops [] \<and> (\<forall>j. j \<notin> \<Union> (op_index ` set ops) \<longrightarrow> rb_data s' j = rb_data s j)"
proof -
  have h: "holds cmp s Lf"
    using assms(2,3) by (simp add: holds_def repc_def balanced_def tree_ok_def descending_def)
  have "rb_ok cmp s" "rb_list s = []" using h rb_list_holds[OF h] by (auto simp: rb_ok_def)
  then obtain s' where s': "memory_run (rb_insert cmp) rb_remove_by_index rb_reopen ops s = Some s'" "rb_ok cmp s'"
    "rb_list s' = list_run cmp ops []" "\<forall>j. j \<notin> \<Union> (op_index ` set ops) \<longrightarrow> rb_data s' j = rb_data s j"
    using memory_tree.run_simulates[OF rb_memory_tree[OF assms(1)], of s ops] assms(4) by (auto simp: tree_indices_def)
  obtain t where "holds cmp s' t" using s'(2) by (auto simp: rb_ok_def)
  then show ?thesis using s' rb_list_holds[of cmp s' t] by auto
qed

text \<open>C39. The red-black tree refines the descending list. For any total order, start from an empty tree in a memory
  and run any history of insertions at free blocks, removals of blocks of the tree, and views reopened without the
  maximum. No operation panics or loops; afterwards the iterator yields exactly the list the same history makes on
  descending lists; the stored maximum, when kept, and the looked up one are its first node; each node's predecessor is
  the next of the list; a lookup answers a node that compares equal and is equal, or NIL when there is none; and
  no block is written that the history did not name.\<close>

lemma tree_refines_list:
  assumes "total_cmp cmp" "rb_root s = NIL" "rb_max s = NIL" "fits (dom (rb_data s)) ops {}"
  shows "\<exists>s'. memory_run (rb_insert cmp) rb_remove_by_index rb_reopen ops s = Some s' \<and>
    rb_iter s' = Some (list_run cmp ops []) \<and>
    rb_max s' \<in> {NIL, tree_max (list_run cmp ops [])} \<and> lookup_max_index s' = Some (tree_max (list_run cmp ops [])) \<and>
    (\<forall>i v. (i, v) \<in> set (list_run cmp ops []) \<longrightarrow> get_next_lower_index s' i = Some (tree_next_lower (list_run cmp ops []) i)) \<and>
    (\<forall>v. \<exists>i. rb_lookup_index cmp eqv s' v = Some i \<and> answers cmp eqv v (set (list_run cmp ops [])) i) \<and>
    (\<forall>j. j \<notin> \<Union> (op_index ` set ops) \<longrightarrow> rb_data s' j = rb_data s j)"
proof -
  obtain s' t where s': "memory_run (rb_insert cmp) rb_remove_by_index rb_reopen ops s = Some s'" "holds cmp s' t"
    "desc t = list_run cmp ops []" "\<forall>j. j \<notin> \<Union> (op_index ` set ops) \<longrightarrow> rb_data s' j = rb_data s j"
    using run_holds[OF assms] by blast
  have r: "repc s' [] t" and m: "rb_max s' \<in> {NIL, tree_max (desc t)}" and d: "distinct (map fst (desc t))"
    using s'(2) by (auto simp: holds_def tree_ok_def)
  have "get_next_lower_index s' i = Some (tree_next_lower (desc t) i)" if "(i, v) \<in> set (desc t)" for i v
  proof -
    obtain as bs where s: "desc t = as @ (i, v) # bs" using \<open>(i, v) \<in> set (desc t)\<close> by (meson split_list)
    then show ?thesis using next_lower_list[OF r s] tree_next_lower_eq[OF d s] by simp
  qed
  then show ?thesis
    using s' m rb_iter_holds[OF s'(2)] lookup_max_index_rep[OF r] rb_lookup_holds[OF assms(1) s'(2), of eqv] by auto
qed

definition sample_memory :: "nat rb_tree" where
  "sample_memory = \<lparr> rb_root = NIL, rb_max = NIL, rb_data = (\<lambda>i. if i < 5 then Some (fresh_node Black 0) else None) \<rparr>"

definition sample_history :: "nat tree_op list" where
  "sample_history = [Ins 0 10, Ins 1 20, Ins 2 15, Ins 3 15, Del 1, Reopen, Ins 4 30, Del 2]"

lemma sample_history_fits: "fits (dom (rb_data sample_memory)) sample_history {}"
  by (simp add: sample_memory_def sample_history_def NIL_def dom_def)

lemma sample_history_list: "list_run cmp_nat sample_history [] = [(4, 30), (3, 15), (0, 10)]"
  by (simp add: sample_history_def tree_remove_def cmp_nat_def)

lemma sample_root: "rb_root sample_memory = NIL" "rb_max sample_memory = NIL"
  by (simp_all add: sample_memory_def)

lemma tree_refines_list_witness:
  "\<exists>s'. memory_run (rb_insert cmp_nat) rb_remove_by_index rb_reopen sample_history sample_memory = Some s' \<and>
    rb_iter s' = Some [(4, 30), (3, 15), (0, 10)] \<and> lookup_max_index s' = Some 4"
  using tree_refines_list[OF total_cmp_nat[of "\<lambda>a. a"] sample_root sample_history_fits, of "\<lambda>a b. True"] sample_history_list
  by (simp add: tree_max_def) blast

text \<open>C40. The tree never degenerates. After any such history the assertions of the tests' \<open>verify_rb_tree\<close>
  pass (no red node has a red child, and every node that lacks a child has the same number of black nodes above
  it), and a node at depth \<open>d\<close> of a tree of \<open>n\<close> nodes satisfies \<open>2 ^ ((d + 2) div 2) \<le> n + 1\<close>: lookups,
  insertions and removals walk at most about \<open>2 log (n + 1)\<close> nodes.\<close>

lemma tree_stays_balanced:
  assumes "total_cmp cmp" "rb_root s = NIL" "rb_max s = NIL" "fits (dom (rb_data s)) ops {}"
    and "memory_run (rb_insert cmp) rb_remove_by_index rb_reopen ops s = Some s'"
  shows "verify_rb_tree (s'\<lparr>rb_max := tree_max (list_run cmp ops [])\<rparr>) = Some () \<and>
    (\<forall>i v. (i, v) \<in> set (list_run cmp ops []) \<longrightarrow>
      (\<exists>d. rb_depth s' i = Some (int d) \<and> 2 ^ ((d + 2) div 2) \<le> length (list_run cmp ops []) + 1))"
proof -
  obtain t where t: "holds cmp s' t" "desc t = list_run cmp ops []" using run_holds[OF assms(1-4)] assms(5) by auto
  then have "holds cmp (s'\<lparr>rb_max := tree_max (desc t)\<rparr>) t" by (simp add: holds_def repc_def)
  then have "verify_rb_tree (s'\<lparr>rb_max := tree_max (list_run cmp ops [])\<rparr>) = Some ()" using verify_holds t(2) by metis
  then show ?thesis using depth_holds[OF t(1)] t(2) by simp
qed

lemma tree_stays_balanced_witness:
  "\<exists>s'. memory_run (rb_insert cmp_nat) rb_remove_by_index rb_reopen sample_history sample_memory = Some s' \<and>
    verify_rb_tree (s'\<lparr>rb_max := 4\<rparr>) = Some ()"
proof -
  obtain s' where s': "memory_run (rb_insert cmp_nat) rb_remove_by_index rb_reopen sample_history sample_memory = Some s'"
    using run_holds[OF total_cmp_nat[of "\<lambda>a. a"] sample_root sample_history_fits] by auto
  then show ?thesis
    using tree_stays_balanced[OF total_cmp_nat[of "\<lambda>a. a"] sample_root sample_history_fits, of s'] sample_history_list
    by (simp add: tree_max_def)
qed

end
