(* ===== verification/Sound_Steps.thy ===== *)
theory Sound_Steps
  imports Queue_Widths Vault_History
begin

text \<open>Every instruction keeps a market sound: well formed, with every pledge of collateral backed by locked shares of its
  seat, and the queue within its widths. One lemma per operation of the market, then one per instruction.\<close>

definition market_sound :: "(data_index \<Rightarrow> nat) \<Rightarrow> market \<Rightarrow> bool" where
  "market_sound ext m = (market_ok m \<and> backed ext m \<and> queue_wide m)"

lemma market_soundI: "market_ok m \<and> backed ext m \<Longrightarrow> queue_wide m \<Longrightarrow> market_sound ext m"
  by (simp add: market_sound_def)

lemma market_sound_mono: "market_sound ext m \<Longrightarrow> (\<And>j. ext' j \<le> ext j) \<Longrightarrow> market_sound ext' m"
  using backed_mono by (auto simp: market_sound_def)

text \<open>Fields outside the trees, the allocator and the counters.\<close>

lemma market_sound_fields [simp]:
  "market_sound ext (m\<lparr>mk_fee_config := a\<rparr>) = market_sound ext m" "market_sound ext (m\<lparr>mk_is_paused := b\<rparr>) = market_sound ext m"
  "market_sound ext (m\<lparr>mk_pending_admin := c\<rparr>) = market_sound ext m" "market_sound ext (m\<lparr>mk_admin := c\<rparr>) = market_sound ext m"
  "market_sound ext (m\<lparr>mk_admin := c, mk_pending_admin := d\<rparr>) = market_sound ext m"
  "market_sound ext (m\<lparr>mk_accumulated_protocol_fee_shares := f\<rparr>) = market_sound ext m"
  by (simp_all add: market_sound_def market_ok_def market_blocks_def backed_def bids_sane_def bids_pledged_def loans_pledged_def
      encumbered_of_def queue_wide_def)

lemma expand_sound: "market_sound ext m \<Longrightarrow> market_expand m = Inr m' \<Longrightarrow> market_sound ext m'"
  using expand_keeps[of m ext m'] queue_wide_same[OF _ expand_queue[of m m']] by (auto simp: market_sound_def)

lemma expand_if_needed_sound: "market_sound ext m \<Longrightarrow> expand_market_if_needed m = Inr m' \<Longrightarrow> market_sound ext m'"
  using expand_sound by (auto simp: expand_market_if_needed_def split: if_splits)

lemma expand_to_sound: "expand_market_to_free_blocks m n = Inr m' \<Longrightarrow> market_sound ext m \<Longrightarrow> market_sound ext m'"
proof (induction m n rule: expand_market_to_free_blocks.induct)
  case (1 m n)
  show ?case
  proof (cases "n \<le> count_market_free_blocks m")
    case True
    then show ?thesis using 1(2,3) by (simp add: expand_market_to_free_blocks.simps[of m n])
  next
    case False
    then obtain m1 where "market_expand m = Inr m1" "expand_market_to_free_blocks m1 n = Inr m'"
      using 1(2) by (auto simp: expand_market_to_free_blocks.simps[of m n] elim!: ebind_InrE)
    then show ?thesis using 1(1)[OF False] expand_sound[OF 1(3)] by blast
  qed
qed

lemma claim_sound: "market_sound ext m \<Longrightarrow> claim_seat_with_sub_vault m owner k sv = Inr m' \<Longrightarrow> market_sound ext m'"
  using claim_seat_keeps[of m ext owner k sv m'] queue_wide_same[OF _ claim_queue[of m owner k sv m']] by (auto simp: market_sound_def)

lemma deposit_sound: "market_sound ext m \<Longrightarrow> deposit_to_seat m i n d = Inr m' \<Longrightarrow> market_sound ext m'"
  using deposit_keeps[of m ext i n d m'] queue_wide_same[OF _ deposit_queue[of m i n d m']] by (auto simp: market_sound_def)

lemma withdraw_sound: "market_sound ext m \<Longrightarrow> withdraw_from_seat m i n d = Inr m' \<Longrightarrow> market_sound ext m'"
  using withdraw_keeps[of m ext i n d m'] queue_wide_same[OF _ withdraw_queue[of m i n d m']] by (auto simp: market_sound_def)

lemma match_bid_sound:
  assumes "market_sound ext m" "\<And>v. vault = Some v \<Longrightarrow> vault_ok v" "po_collateral_atoms args < u64_lim"
    "match_borrower_bid m args vault = Inr (m', vault', r)"
  shows "market_sound ext m'"
  using backed_match_borrower_bid[OF _ assms(2) _ assms(3,4), of ext] match_borrower_bid_wide[OF _ assms(2) _ assms(3) _ assms(4), of ext] assms(1)
  by (auto simp: market_sound_def)

lemma cancel_sound:
  assumes "market_sound ext m" "cancel_order_by_index m s i = Inr m'"
  shows "market_sound ext m'"
  using assms cancel_order_ok[of m s i m'] backed_cancel[of m ext s i m'] queue_wide_same[OF _ cancel_queue[OF assms(2)]] by (auto simp: market_sound_def)

lemma update_bid_sound:
  assumes "market_sound ext m" "update_user_bid m s i rate tm ts buf now = Inr (m', sq)"
  shows "market_sound ext m'"
  using assms update_user_bid_ok[of m s i rate tm ts buf now m' sq] backed_update_bid[of m ext s i rate tm ts buf now m' sq]
    queue_wide_same[OF _ update_bid_queue[OF _ assms(2)]] by (auto simp: market_sound_def)

lemma rest_ask_sound:
  assumes "market_sound ext m" "rest_vault_ask m args = Inr (m', sq)"
  shows "market_sound ext m'"
  using assms rest_vault_ask_ok[of m args m' sq] backed_rest_vault_ask[of ext m args m' sq] queue_wide_same[OF _ rest_ask_queue[OF assms(2)]]
  by (auto simp: market_sound_def)

lemma take_bids_sound:
  assumes "market_sound ext m" "vault_ok v" "match_resting_bids m args v = Inr (m', v', r)"
  shows "market_sound ext m' \<and> vault_ok v'"
  using backed_match_resting_bids[OF _ assms(2) _ assms(3), of ext] match_resting_bids_wide[OF _ assms(2) _ _ assms(3), of ext] assms(1)
  by (auto simp: market_sound_def)

section \<open>Each instruction\<close>

lemma process_claim_seat_sound:
  assumes "market_sound ext m" "process_claim_seat gc payer bump key m slot = Inr (m', u)"
  shows "market_sound ext m'"
proof -
  obtain m1 where "expand_market_if_needed m = Inr m1" "claim_seat m1 payer OWNER_KIND_USER = Inr m'"
    using assms(2) unfolding process_claim_seat_def by (elim ebind_InrE) (auto simp: Let_def split: prod.splits elim!: ebind_InrE)
  then show ?thesis using expand_if_needed_sound[OF assms(1)] claim_sound by (auto simp: claim_seat_def)
qed

lemma process_deposit_sound:
  assumes "market_sound ext m" "process_deposit pg ctx gc a hint m slot p = Inr (m', u, p')"
  shows "market_sound ext m'"
proof -
  obtain i n d where "deposit_to_seat m i n d = Inr m'"
    using assms(2) unfolding process_deposit_def Let_def by (elim ebind_InrE) (auto split: prod.splits elim!: ebind_InrE)
  then show ?thesis using deposit_sound[OF assms(1)] by blast
qed

lemma process_withdraw_sound:
  assumes "market_sound ext m" "process_withdraw pg ctx gc a hint all banks m slot p = Inr (m', u, p')"
  shows "market_sound ext m'"
proof -
  obtain i n d where "withdraw_from_seat m i n d = Inr m'"
    using assms(2) unfolding process_withdraw_def by (elim ebind_InrE) (auto split: prod.splits elim!: ebind_InrE)
  then show ?thesis using withdraw_sound[OF assms(1)] by blast
qed

lemma process_cancel_order_sound:
  assumes "market_sound ext m" "process_cancel_order gc payer key sq hint m u = Inr (m', u')"
  shows "market_sound ext m'"
proof -
  obtain s i where "cancel_order_by_index m s i = Inr m'"
    using assms(2) unfolding process_cancel_order_def by (elim ebind_InrE) (auto split: prod.splits elim!: ebind_InrE)
  then show ?thesis using cancel_sound[OF assms(1)] by blast
qed

lemma process_update_order_sound:
  assumes "market_sound ext m" "process_update_order gc payer key params now m u = Inr (m', u')"
  shows "market_sound ext m'"
proof -
  obtain s i rate tm ts buf sq where "update_user_bid m s i rate tm ts buf now = Inr (m', sq)"
    using assms(2) unfolding process_update_order_def by (elim ebind_InrE) (auto split: prod.splits elim!: ebind_InrE)
  then show ?thesis using update_bid_sound[OF assms(1)] by blast
qed

text \<open>The tail of a variable-rate borrow writes the shares of a queue node and credits the seat.\<close>

lemma write_node_sound:
  assumes s: "market_sound ext m" and n: "get_helper_matched_loan m i = Inr n"
  shows "market_sound ext (m\<lparr>mk_matched_loans := tree_update i (\<lambda>_. n\<lparr>ml_borrower_marginfi_borrow_shares := x\<rparr>) (mk_matched_loans m)\<rparr>)"
proof -
  let ?n = "n\<lparr>ml_borrower_marginfi_borrow_shares := x\<rparr>"
  let ?t' = "tree_update i (\<lambda>_. ?n) (mk_matched_loans m)"
  have mem: "(i, n) \<in> set (mk_matched_loans m)" using n tree_get_in by (auto simp: get_helper_matched_loan_def ok_or_Inr)
  have ok: "market_ok m" using s by (simp add: market_sound_def)
  note t = market_trees_ok(4)[OF ok]
  obtain as bs where sp: "mk_matched_loans m = as @ (i, n) # bs" "?t' = as @ (i, ?n) # bs"
    using tree_split[OF _ mem] t by (fastforce simp: tree_ok_def)
  have d: "descending matched_loan_cmp ?t'"
    using tree_update_const_ok[of matched_loan_cmp ?n n, OF _ _ t mem] by (simp add: matched_loan_cmp_def tree_ok_def)
  have "market_ok (m\<lparr>mk_matched_loans := ?t'\<rparr>)"
    using ok d[unfolded sp(2)] unfolding sp(2) market_ok_def market_blocks_def by (simp add: sp(1))
  moreover have "queue_wide (m\<lparr>mk_matched_loans := ?t'\<rparr>)"
    using s unfolding sp(2) by (simp add: market_sound_def queue_wide_def sp(1) tree_values_def)
  moreover have lp: "loan_pledge j ?n = loan_pledge j n" for j by (simp add: loan_pledge_def)
  then have "backed ext (m\<lparr>mk_matched_loans := ?t'\<rparr>)"
    using s unfolding sp(2) by (simp add: market_sound_def backed_def bids_sane_def bids_pledged_def loans_pledged_def encumbered_of_def sp(1)
        tree_values_def)
  ultimately show ?thesis by (simp add: market_sound_def)
qed

lemma p2pool_tail_sound:
  assumes "market_sound ext m" "borrow_p2pool_tail pg ctx hint i a pre m p = Inr (m', p')"
  shows "market_sound ext m'"
proof -
  obtain c j m1 n x where c: "(if 0 < c then ebind (get_seat_index_with_hint m (oc_payer ctx) hint) (\<lambda>j. deposit_to_seat m j c True) else Inr m) = Inr m1"
    and n: "get_helper_matched_loan m1 i = Inr n"
    and m': "m' = m1\<lparr>mk_matched_loans := tree_update i (\<lambda>_. n\<lparr>ml_borrower_marginfi_borrow_shares := x\<rparr>) (mk_matched_loans m1)\<rparr>"
    using assms(2) unfolding borrow_p2pool_tail_def by (elim ebind_InrE) (simp, blast)
  have "market_sound ext m1" using c deposit_sound[OF assms(1)] assms(1) by (auto split: if_splits elim!: ebind_InrE)
  then show ?thesis using write_node_sound[OF _ n] by (simp add: m')
qed

lemma process_place_order_sound:
  assumes s: "market_sound ext m" and v: "\<And>v. vault = Some v \<Longrightarrow> vault_ok v" and c: "pp_collateral_atoms params < u64_lim"
    and r: "process_place_order pg ctx gc dp cp rb rg params now m vault slot p = Inr (m', vault', u, p')"
  shows "market_sound ext m'"
proof -
  obtain m1 args m2 i m3 result where m1: "expand_market_if_needed m = Inr m1"
    and args: "order_args_of pg ctx dp cp rb rg params now p = Inr args"
    and m2: "expand_market_to_free_blocks m1 (count_resting_asks m1 + 1) = Inr m2"
    and m3: "match_borrower_bid m2 (args i) vault = Inr (m3, vault', result)"
    and m': "m' = m3 \<or> (\<exists>a j pre. borrow_p2pool_tail pg ctx (pp_seat_index_hint params) j a pre m3 p = Inr (m', p'))"
    using r unfolding process_place_order_def Let_def
    by (elim result_elims) (hypsubst, rule that[rotated -1], auto split: if_splits)
  have "po_collateral_atoms (args i) < u64_lim"
    using args c unfolding order_args_of_def by (elim ebind_InrE) (auto split: prod.splits elim!: ebind_InrE)
  then have "market_sound ext m3"
    using match_bid_sound[OF expand_to_sound[OF m2 expand_if_needed_sound[OF s m1]] v _ m3] by blast
  then show ?thesis using m' p2pool_tail_sound by blast
qed

section \<open>The instructions of a sub-vault and the crank\<close>

lemma take_pass_sound:
  assumes "market_sound ext m" "vault_ok v" "take_resting_bids ctx dp cp i k rate tm sv now n p m v = Inr (m', v', r)"
  shows "market_sound ext m' \<and> vault_ok v'"
proof (cases "count_resting_bids m = 0")
  case True
  then show ?thesis using assms by (simp add: take_resting_bids_def)
next
  case False
  then obtain m1 args where "expand_market_to_free_blocks m (count_resting_bids m) = Inr m1" "match_resting_bids m1 args v = Inr (m', v', r)"
    using assms(3) unfolding take_resting_bids_def Let_def by (simp, elim ebind_InrE) blast
  then show ?thesis using take_bids_sound[OF expand_to_sound[OF _ assms(1)] assms(2)] by blast
qed

lemma seat_for_ask_sound:
  assumes "market_sound ext m" "seat_for_ask ctx k m = Inr (m', i)"
  shows "market_sound ext m'"
proof -
  obtain n m1 where m1: "expand_market_to_free_blocks m n = Inr m1"
    and m': "m' = m1 \<or> claim_seat_with_sub_vault m1 (ak_vault_key ctx) OWNER_KIND_SUB_VAULT k = Inr m'"
    using assms(2) unfolding seat_for_ask_def Let_def by (elim ebind_InrE) (auto split: if_splits elim!: ebind_InrE)
  then show ?thesis using expand_to_sound[OF m1 assms(1)] claim_sound by blast
qed

lemma withdraw_ask_sound:
  assumes "market_sound ext m" "withdraw_ask ctx k sq m v = Inr (m', v')"
  shows "market_sound ext m'"
proof -
  obtain s i where "cancel_order_by_index m s i = Inr m'"
    using assms(2) unfolding withdraw_ask_def Let_def by (elim result_elims) (hypsubst, simp)
  then show ?thesis by (rule cancel_sound[OF assms(1)])
qed

lemma process_cancel_ask_sound:
  assumes "market_sound ext m" "process_cancel_order_for_sub_vault ctx gc k m v = Inr (m', v')"
  shows "market_sound ext m'"
  using assms(2) withdraw_ask_sound[OF assms(1)] unfolding process_cancel_order_for_sub_vault_def by (elim ebind_InrE)

lemma process_admin_cancel_ask_sound:
  assumes "market_sound ext m" "process_admin_cancel_sub_vault_order payer ctx k m v = Inr (m', v')"
  shows "market_sound ext m'"
  using assms(2) withdraw_ask_sound[OF assms(1)] unfolding process_admin_cancel_sub_vault_order_def by (elim ebind_InrE)

lemma process_place_ask_sound:
  assumes s: "market_sound ext m" and v: "vault_ok v"
    and r: "process_place_order_for_sub_vault pg ctx gc dp cp rb rg k flags now p m v = Inr (m', v')"
  shows "market_sound ext m'"
proof -
  obtain sv m1 i args m2 sq j rate tm n v1 taken where m1: "seat_for_ask ctx k m = Inr (m1, i)"
    and m2: "rest_vault_ask m1 args = Inr (m2, sq)"
    and m3: "take_resting_bids ctx dp cp j k rate tm sv now n p m2 v = Inr (m', v1, taken)"
    using r unfolding process_place_order_for_sub_vault_def Let_def by (elim result_elims) (hypsubst, simp)
  show ?thesis using take_pass_sound[OF rest_ask_sound[OF seat_for_ask_sound[OF s m1] m2] v m3] by blast
qed

lemma process_update_ask_sound:
  assumes s: "market_sound ext m" and v: "vault_ok v"
    and r: "process_update_order_for_sub_vault pg ctx gc dp cp rb rg k flags now p m v = Inr (m', v')"
  shows "market_sound ext m'"
proof -
  obtain sv m1 i j m2 args m3 sq v1 ri v2 at rate tm v3 idx n taken where m1: "expand_market_if_needed m = Inr m1"
    and m2: "cancel_order_by_index m1 i j = Inr m2" and m3: "rest_vault_ask m2 args = Inr (m3, sq)"
    and v1: "remove_sub_vault_order_ref v (ak_market_key ctx) k = Inr (v1, ri)"
    and v2: "(if has_free_node_block v1 then Inr v1 else vault_expand_node_block v1) = Inr v2"
    and v3: "insert_sub_vault_order_ref v2 (ak_market_key ctx) k at rate tm sq now = Inr (v3, idx)"
    and m4: "take_resting_bids ctx dp cp i k rate tm sv now n p m3 v3 = Inr (m', v', taken)"
    using r unfolding process_update_order_for_sub_vault_def Let_def
    by (elim result_elims) (hypsubst, rule that, assumption+, simp)
  have "vault_ok v1" using remove_order_ref_ok[OF v v1] by blast
  then have "vault_ok v2" using v2 expand_node_block_ok by (auto split: if_splits)
  then have "vault_ok v3" using insert_order_ref_ok[OF _ v3] by blast
  then show ?thesis
    using take_pass_sound[OF rest_ask_sound[OF cancel_sound[OF expand_if_needed_sound[OF s m1] m2] m3] _ m4] by blast
qed

lemma crank_asks_sound:
  "crank_asks ctx dp cp fl now p asks budget n m v = Inr (m', v', n') \<Longrightarrow> market_sound ext m \<Longrightarrow> vault_ok v \<Longrightarrow> market_sound ext m'"
proof (induction ctx dp cp fl now p asks budget n m v rule: crank_asks.induct)
  case (2 ctx dp cp fl now p ask asks budget n m v)
  let ?idx = "sub_vault_index v (as_sub_vault_id ask)"
  consider "budget = 0" | "budget \<noteq> 0" "as_rate_bps ask < fl" | "budget \<noteq> 0" "\<not> as_rate_bps ask < fl" "?idx = NIL"
    | "budget \<noteq> 0" "\<not> as_rate_bps ask < fl" "?idx \<noteq> NIL" by blast
  then show ?case
  proof cases
    case 4
    then obtain s m1 v1 taken b n1 where "take_resting_bids ctx dp cp (as_seat_index ask) (as_sub_vault_id ask) (as_rate_bps ask)
        (as_term_seconds ask) s now budget p m v = Inr (m1, v1, taken)"
      and k: "get_sub_vault v ?idx = Inr s"
        "crank_asks ctx dp cp fl now p asks (saturating_sub budget (rr_num_fills taken))
            (saturating_add u32_lim n (rr_num_fills taken)) m1 v1 = Inr (m', v', n')"
      using 2(4) by (simp add: Let_def) (elim result_elims, hypsubst, blast)
    then show ?thesis using 2(3)[OF 4(1,2) refl 4(3) k(1) _ refl refl k(2)] take_pass_sound[OF 2(5,6)] by blast
  qed (use 2 in \<open>simp_all\<close>)
qed simp

lemma process_crank_sound:
  assumes "market_sound ext m" "vault_ok v" "process_match_crank pg ctx gc dp cp rb rg n now p m v = Inr (m', v', k)"
  shows "market_sound ext m'"
  using assms(3) crank_asks_sound[OF _ assms(1,2)] unfolding process_match_crank_def by (elim ebind_InrE)

section \<open>Promotion and close\<close>

lemma promotion_sound:
  assumes s: "market_sound ext m" and r: "process_matched_loan pg ctx gc now sq m v slot p = Inr (m', v', loan, p')"
  shows "market_sound (\<lambda>j. ext j + loan_lock loan j) m' \<and> ln_collateral_atoms loan < u64_lim"
proof -
  obtain node i lt net lender cr os where l: "load_queue_node m sq = Inr (node, i)"
    and net: "net_principal_of node = Inr net" and loan: "loan = promoted_loan ctx now node net lt lender"
    and lv: "leave_queue m node i lt cr os = Inr m'"
    using promotion_Inr[OF r] by metis
  have ok: "market_ok m" and b: "backed ext m" and w: "queue_wide m" using s by (simp_all add: market_sound_def)
  have mem: "(i, node) \<in> set (mk_matched_loans m)" using load_queue_node_Inr[OF ok l] by blast
  have t: "node \<in> set (tree_values (mk_matched_loans m))" using mem by (force simp: tree_values_def)
  have lk: "loan_lock loan j = loan_pledge j node" for j
    unfolding loan loan_lock_def loan_pledge_owed using promoted_loan_fields[OF net] by simp
  note k = leave_queue_keeps[OF ok b mem lv]
  have "queue_wide m'" using w k by (auto simp: queue_wide_def tree_values_def tree_remove_def)
  moreover have "backed (\<lambda>j. ext j + loan_lock loan j) m'" unfolding lk using k by blast
  moreover have "ln_collateral_atoms loan < u64_lim" using w t promoted_loan_fields(6)[OF net] by (simp add: loan queue_wide_def)
  ultimately show ?thesis using k by (simp add: market_sound_def)
qed

lemma credit_lender_queue: "credit_lender m i f c b = Inr m' \<Longrightarrow> mk_matched_loans m' = mk_matched_loans m"
  by (auto simp: credit_lender_def elim!: ebind_InrE split: if_splits)

lemma return_collateral_queue: "return_collateral m i c sn = Inr m' \<Longrightarrow> mk_matched_loans m' = mk_matched_loans m"
  by (auto simp: return_collateral_def release_loan_collateral_def Let_def elim!: ebind_InrE split: if_splits)

lemma retire_borrow_queue: "retire_borrow m i = Inr m' \<Longrightarrow> mk_matched_loans m' = mk_matched_loans m"
  by (auto simp: retire_borrow_def elim!: ebind_InrE)

lemma repay_sound:
  assumes s: "market_sound (\<lambda>j. ext j + loan_lock loan j) m" and c: "ln_collateral_atoms loan < u64_lim"
    and r: "process_repay pg ctx gc rb rg params now m v loan u p = Inr (m', v', slot', u', p')"
  shows "market_sound (\<lambda>j. ext j + slot_lock slot' j) m' \<and> (\<forall>l. slot' = Some l \<longrightarrow> ln_collateral_atoms l < u64_lim)"
proof -
  obtain header where h: "accrue_loan loan now = Inr header"
    and cs: "repay_p2pool pg ctx rb rg params now m v header u p = Inr (m', v', slot', u', p') \<or>
      repay_fixed pg ctx params now m v header u p = Inr (m', v', slot', u', p')"
    using process_repay_Inr[OF r] by metis
  have h': "ln_collateral_atoms header = ln_collateral_atoms loan" using accrue_loan_terms[OF h] by (simp add: same_terms_def)
  have "mk_matched_loans m' = mk_matched_loans m \<and> (\<forall>l. slot' = Some l \<longrightarrow> ln_collateral_atoms l = ln_collateral_atoms header)"
    using cs
  proof
    assume "repay_p2pool pg ctx rb rg params now m v header u p = Inr (m', v', slot', u', p')"
    then show ?thesis unfolding repay_p2pool_def book_p2pool_repay_def Let_def
      by (elim result_elims) (auto dest!: return_collateral_queue retire_borrow_queue split: if_splits elim!: ebind_InrE)
  next
    assume f: "repay_fixed pg ctx params now m v header u p = Inr (m', v', slot', u', p')"
    show ?thesis
    proof (rule repay_fixed_Inr[OF f])
      fix a p1 p2 cr loan1 portions fee m1
      assume "apply_partial_resolution header a = Inr (loan1, portions)"
        and "credit_lender m (ln_lender_seat_index header) fee (cr - fee) (ln_outstanding_debt_atoms loan1 = 0) = Inr m1"
        and "ln_outstanding_debt_atoms loan1 = 0 \<and> slot' = None \<and> (\<exists>m2 v1. return_collateral m1 (ln_borrower_seat_index header) (ln_collateral_atoms header)
          (ln_borrower_collateral_share_price_snapshot_fp48 header) = Inr m2 \<and> retire_borrow m2 (ln_borrower_seat_index header) = Inr m' \<and>
          retire_on_vault v p2 (rp_debt_bank ctx) now header = Inr v1 \<and> v' = Some v1) \<or>
          0 < ln_outstanding_debt_atoms loan1 \<and> slot' = Some loan1 \<and> m' = m1 \<and> v' = v"
      then show ?thesis using resolution_terms[of header a loan1 portions]
        by (auto simp: same_terms_def dest!: credit_lender_queue return_collateral_queue retire_borrow_queue)
    qed
  qed
  then show ?thesis using process_repay_keeps[OF _ _ c r] s h' c queue_wide_same[of m m'] by (auto simp: market_sound_def)
qed

lemma seat_cut_queue:
  "liquidated_seat m i c sn w f = Inr m' \<Longrightarrow> mk_matched_loans m' = mk_matched_loans m"
  "settled_seat m i sn w f = Inr m' \<Longrightarrow> mk_matched_loans m' = mk_matched_loans m"
  by (auto simp: liquidated_seat_def settled_seat_def Let_def elim!: ebind_InrE split: if_splits)

lemma close_out_queue: "keeper_close_out pg ctx lt now dr loan m v p = Inr (m', v') \<Longrightarrow> mk_matched_loans m' = mk_matched_loans m"
  by (auto simp: keeper_close_out_def Let_def dest!: credit_lender_queue elim!: ebind_InrE split: if_splits)

lemma liquidate_sound:
  assumes wd: "withdraws_at_most pg" and s: "market_sound (\<lambda>j. ext j + loan_lock loan j) m" and c: "ln_collateral_atoms loan < u64_lim"
    and r: "process_liquidate_loan pg ctx gc dp cp rmax now m v loan p = Inr (m', v', slot', p')"
  shows "market_sound (\<lambda>j. ext j + slot_lock slot' j) m' \<and> (\<forall>l. slot' = Some l \<longrightarrow> ln_collateral_atoms l < u64_lim)"
proof -
  obtain header lt a full split dr w loan1 where
    pl: "liquidation_plan pg ctx dp cp rmax now m loan p = Inr (header, lt, a, full, split)"
    and bk: "liquidation_booking pg ctx lt a split dr w now m v header p' = Inr (m', v', loan1)"
    and sl: "slot' = (if dr_did_full_repay dr then None else Some loan1)"
    by (rule process_liquidate_loan_Inr[OF r])
  obtain val where h: "accrue_loan loan now = Inr header" using liquidation_plan_Inr[OF pl] by metis
  have h': "ln_collateral_atoms header = ln_collateral_atoms loan" using accrue_loan_terms[OF h] by (simp add: same_terms_def)
  have "mk_matched_loans m' = mk_matched_loans m"
    using bk unfolding liquidation_booking_def by (elim result_elims) (auto dest!: seat_cut_queue close_out_queue)
  moreover have "\<not> dr_did_full_repay dr \<longrightarrow> ln_collateral_atoms loan1 \<le> ln_collateral_atoms loan"
    using booking_collateral(1)[OF _ bk] h' by simp
  ultimately show ?thesis using process_liquidate_loan_keeps[OF wd _ _ c r] s sl c queue_wide_same[of m m']
    by (auto simp: market_sound_def)
qed

lemma settle_sound:
  assumes wd: "withdraws_at_most pg" and s: "market_sound (\<lambda>j. ext j + loan_lock loan j) m" and c: "ln_collateral_atoms loan < u64_lim"
    and r: "process_settle_matured_loan pg ctx gc rmax now m v loan p = Inr (m', v', slot', p')"
  shows "market_sound (\<lambda>j. ext j + slot_lock slot' j) m' \<and> (\<forall>l. slot' = Some l \<longrightarrow> ln_collateral_atoms l < u64_lim)"
proof -
  obtain header lt a full seized dr w loan1 where
    pl: "settlement_plan ctx rmax now m loan p = Inr (header, lt, a, full, seized)"
    and bk: "settlement_booking pg ctx lt a dr w now m v header p' = Inr (m', v', loan1)"
    and sl: "slot' = (if dr_did_full_repay dr then None else Some loan1)"
    by (rule process_settle_matured_loan_Inr[OF r])
  have h: "accrue_loan loan now = Inr header" using settlement_plan_Inr[OF pl] by metis
  have h': "ln_collateral_atoms header = ln_collateral_atoms loan" using accrue_loan_terms[OF h] by (simp add: same_terms_def)
  have "mk_matched_loans m' = mk_matched_loans m"
    using bk unfolding settlement_booking_def by (elim result_elims) (auto dest!: seat_cut_queue close_out_queue)
  moreover have "\<not> dr_did_full_repay dr \<longrightarrow> ln_collateral_atoms loan1 \<le> ln_collateral_atoms loan"
    using booking_collateral(2)[OF _ bk] h' by simp
  ultimately show ?thesis using process_settle_matured_loan_keeps[OF wd _ _ c r] s sl c queue_wide_same[of m m']
    by (auto simp: market_sound_def)
qed

section \<open>Conversion, claims and administration\<close>

lemma add_borrows_keeps:
  assumes "market_sound ext m" "add_borrows m i n = Inr m'"
  shows "market_sound ext m'"
proof -
  obtain s c where s: "get_helper_seat m i = Inr s" "m' = set_seat m i (s\<lparr>cs_open_borrow_count := c\<rparr>)"
    using assms(2) by (auto simp: add_borrows_def elim!: ebind_InrE)
  then show ?thesis
    using set_seat_keeps[OF _ _ s(1), of ext "s\<lparr>cs_open_borrow_count := c\<rparr>"] assms(1) queue_wide_same[of m m']
    by (auto simp: market_sound_def seat_key_def)
qed

lemma conversion_args_terms:
  assumes "conversion_args pg ctx dp cp params fl now m loan z p = Inr args"
  shows "rf_borrower_seat_index args = ln_borrower_seat_index loan \<and> rf_loan_collateral_atoms args = ln_collateral_atoms loan \<and>
    rf_borrower_collateral_share_price_snapshot_fp48 args = ln_borrower_collateral_share_price_snapshot_fp48 loan"
  using assms unfolding conversion_args_def by (elim ebind_InrE) (auto split: prod.splits elim!: ebind_InrE)

lemma convert_sound:
  assumes s: "market_sound (\<lambda>j. ext j + loan_lock loan j) m" and v: "vault_ok v" and c: "ln_collateral_atoms loan < u64_lim"
    and r: "process_convert_p2pool_to_fixed pg ctx gc dp cp rb rg params now m v loan p = Inr (m', v', slot', p')"
  shows "market_sound (\<lambda>j. ext j + slot_lock slot' j) m' \<and> (\<forall>l. slot' = Some l \<longrightarrow> ln_collateral_atoms l < u64_lim)"
proof -
  let ?i = "ln_borrower_seat_index loan" and ?sn = "ln_borrower_collateral_share_price_snapshot_fp48 loan" and ?c = "ln_collateral_atoms loan"
  obtain fl z args m1 m2 vault r0 p1 sh full m3 where args: "conversion_args pg ctx dp cp params fl now m loan z p = Inr args"
    and m1: "expand_market_to_free_blocks m (count_resting_asks m + 1) = Inr m1"
    and m2: "match_p2pool_residual_against_asks m1 args (Some v) = Inr (m2, vault, r0)"
    and m3: "add_borrows m2 ?i (rx_num_fills r0) = Inr m3"
    and m4: "(if full then ebind (close_converted m3 loan (rx_total_filled_collateral_atoms r0)) (\<lambda>m4. Inr (m4, None))
            else ebind (residual_loan ctx loan r0 sh now p1) (\<lambda>loan'. Inr (m3, Some loan'))) = Inr (m', slot')"
    using r unfolding process_convert_p2pool_to_fixed_def by (elim result_elims) (hypsubst, rule that, assumption+, simp)
  have a: "rf_borrower_seat_index args = ?i" "rf_loan_collateral_atoms args = ?c"
    "rf_borrower_collateral_share_price_snapshot_fp48 args = ?sn"
    using conversion_args_terms[OF args] by simp_all
  have s1: "market_sound (\<lambda>j. ext j + loan_lock loan j) m1" by (rule expand_to_sound[OF m1 s])
  let ?rest = "?c - rx_total_filled_collateral_atoms r0"
  have b: "market_ok m2 \<and> rx_total_filled_collateral_atoms r0 \<le> ?c \<and> backed (\<lambda>j. ext j + owed ?i (locked_shares ?rest ?sn) j) m2"
    using backed_refinance[OF _ v _ m2, of ext] s1 a by (simp add: market_sound_def loan_lock_def)
  have "queue_wide m2" by (rule refinance_wide[OF _ v _ _ m2]) (use s1 c a in \<open>simp_all add: market_sound_def\<close>)
  then have "market_sound (\<lambda>j. ext j + owed ?i (locked_shares ?rest ?sn) j) m2"
    unfolding market_sound_def using b by blast
  then have s3: "market_sound (\<lambda>j. ext j + owed ?i (locked_shares ?rest ?sn) j) m3" by (rule add_borrows_keeps[OF _ m3])
  show ?thesis
  proof (cases full)
    case True
    then obtain m5 where m5: "retire_borrow m3 ?i = Inr m5" and m6: "return_collateral m5 ?i ?rest ?sn = Inr m'" and sl: "slot' = None"
      using m4 by (auto simp: close_converted_def saturating_sub_minus elim!: ebind_InrE)
    have s5: "market_ok m5 \<and> backed (\<lambda>j. ext j + owed ?i (locked_shares ?rest ?sn) j) m5"
      by (rule retire_borrow_keeps[OF _ _ m5]) (use s3 in \<open>simp_all add: market_sound_def\<close>)
    have lt: "?rest < u64_lim" using c by simp
    have "market_ok m' \<and> backed ext m'" using return_collateral_keeps[OF _ _ lt m6, of ext] s5 by blast
    moreover have "queue_wide m'" using s3 queue_wide_same return_collateral_queue[OF m6] retire_borrow_queue[OF m5]
      by (simp add: market_sound_def queue_wide_def)
    ultimately show ?thesis using sl by (simp add: market_sound_def)
  next
    case False
    then obtain l where l: "residual_loan ctx loan r0 sh now p1 = Inr l" "slot' = Some l" "m' = m3"
      using m4 by (auto elim!: ebind_InrE)
    then have "loan_lock l = owed ?i (locked_shares ?rest ?sn)" "ln_collateral_atoms l = ?rest"
      by (auto simp: residual_loan_def loan_lock_def ok_or_Inr checked_sub_Some elim!: ebind_InrE)
    then show ?thesis using l s3 c by simp
  qed
qed

lemma claim_repayment_market:
  assumes "process_claim_repayment_for_sub_vault pg ctx gc k m v p = Inr (m', v', p')"
  shows "m' = m \<or> (\<exists>i s n. get_helper_seat m i = Inr s \<and> m' = set_seat m i (s\<lparr>cs_debt_withdrawable_shares := n\<rparr>))"
  using assms unfolding process_claim_repayment_for_sub_vault_def Let_def
  by (elim ebind_InrE) (auto split: if_splits prod.splits elim!: ebind_InrE, blast+)

lemma claim_repayment_sound:
  assumes "market_sound ext m" "process_claim_repayment_for_sub_vault pg ctx gc k m v p = Inr (m', v', p')"
  shows "market_sound ext m'"
proof -
  have "market_sound ext (set_seat m i (s\<lparr>cs_debt_withdrawable_shares := n\<rparr>))" if "get_helper_seat m i = Inr s" for i s n
    using set_seat_keeps[OF _ _ that, of ext "s\<lparr>cs_debt_withdrawable_shares := n\<rparr>"] assms(1)
    by (simp add: market_sound_def seat_key_def queue_wide_def)
  then show ?thesis using claim_repayment_market[OF assms(2)] assms(1) by blast
qed

lemma fee_claim_sound:
  assumes "market_sound ext m" "process_protocol_fee_claim pg ctx gc m p = Inr (m', p')"
  shows "market_sound ext m'"
proof -
  have "m' = m\<lparr>mk_accumulated_protocol_fee_shares := 0\<rparr>"
    using assms(2) unfolding process_protocol_fee_claim_def Let_def
    by (elim result_elims) (auto split: if_splits prod.splits elim!: ebind_InrE)
  then show ?thesis using assms(1) by simp
qed

end
