(* ===== verification/Sample_Run.thy ===== *)
theory Sample_Run
  imports Promotion Order_Instructions Administration "HOL-Library.Code_Target_Nat" "HOL-Library.Code_Target_Int"
begin

text \<open>A short life of a market, evaluated: it is created, a borrower claims a seat, deposits 2000 atoms of collateral
  and borrows 100 atoms at the variable rate against 1000 of them, and the queued loan is promoted. The limits of the
  machine integers and the shifts of the fixed-point routines get code equations with their numbers written out.\<close>

section \<open>Numbers\<close>

lemma numeral_code [code]:
  "u16_lim = 65536" "u32_lim = 4294967296" "u64_lim = 18446744073709551616" "u128_lim = 340282366920938463463374607431768211456" "i64_lim = 9223372036854775808"
  "SCALE = 281474976710656" "u256_lim = 115792089237316195423570985008687907853269984665640564039457584007913129639936" "i128_lim = 170141183460469231731687303715884105728"
  by (simp_all add: lim_defs SCALE_def u256_lim_def i128_lim_def)

lemma narrow_code [code]:
  "u256_to_u128 x = (if x < 340282366920938463463374607431768211456 then Inr x else if x div 340282366920938463463374607431768211456 mod 18446744073709551616 \<noteq> 0 \<or> x div 6277101735386680763835789423207666416102355444464034512896 mod 18446744073709551616 \<noteq> 0
     then Inl (Custom MathOverflow) else Inr (x mod 18446744073709551616 + (x div 18446744073709551616 mod 18446744073709551616) * 18446744073709551616))"
proof (cases "x < 2 ^ 128")
  case True
  then have "x < u256_lim" by (simp add: u256_lim_def)
  then show ?thesis using u256_to_u128_eq[of x] True by (simp add: u128_lim_def)
qed (simp add: u256_to_u128_def)

lemma shift_code [code]:
  "mul_scale a b = ebind (ok_or (checked_mul u256_lim a b) (Custom MathOverflow)) (\<lambda>prod. u256_to_u128 (prod div 281474976710656))"
  "div_scale a b = (if b = 0 then Inl (Custom MathDivisionByZero)
     else let num = a * 281474976710656 in u256_to_u128 ((if num < 115792089237316195423570985008687907853269984665640564039457584007913129639936 then num else num mod 115792089237316195423570985008687907853269984665640564039457584007913129639936) div b))"
  "to_scaled n = (if n div 1208925819614629174706176 \<noteq> 0 then Inl (Custom MathOverflow) else Inr (n * 281474976710656))"
  "from_scaled_floor n = n div 281474976710656"
  "from_atoms n = (let k = n * 281474976710656 in if k < 340282366920938463463374607431768211456 then k else k mod 340282366920938463463374607431768211456)"
  by (simp_all add: mul_scale_def div_scale_def to_scaled_def from_scaled_floor_def from_atoms_def SCALE_BITS_def u256_lim_def u128_lim_def Let_def)

section \<open>The run\<close>

definition life_market :: create_market_context where
  "life_market = \<lparr> mc_payer = 1, mc_market_key = 7,
     mc_debt_mint = \<lparr>mn_key = 11, mn_decimals = 6, mn_extensions = None\<rparr>, mc_collateral_mint = \<lparr>mn_key = 12, mn_decimals = 6, mn_extensions = None\<rparr>,
     mc_group = 13, mc_debt_bank = 14, mc_collateral_bank = 15, mc_lender_account = 16, mc_lender_account_bump = 0,
     mc_borrower_account = 17, mc_borrower_account_bump = 0, mc_market_signer = 18, mc_market_signer_bump = 0 \<rparr>"
definition life_fees :: fee_config_overrides where
  "life_fees = \<lparr> fo_protocol_fee_bps_floor = None, fo_origination_bps = None, fo_curator_split_bps = None, fo_liquidation_keeper_bps = None,
     fo_liquidation_protocol_bps = None, fo_grace_period_seconds = None \<rparr>"
definition life_seat :: seat_context where
  "life_seat = \<lparr> sc_payer = 5, sc_user_bump = 0, sc_market_key = 7, sc_trader_token = 21, sc_vault = 22, sc_is_debt = False, sc_group = 13,
     sc_marginfi_account = 17, sc_bank = 15, sc_liquidity_vault = 23, sc_liquidity_vault_authority = 24, sc_debt_bank = 14,
     sc_collateral_bank = 15, sc_debt_oracles = [], sc_collateral_oracles = [], sc_market_signer = 18, sc_token_program = 25, sc_marginfi_program = 99 \<rparr>"
definition life_order :: order_context where
  "life_order = \<lparr> oc_payer = 5, oc_user_bump = 0, oc_market_key = 7, oc_borrower_account = 17, oc_lender_account = 16, oc_market_debt_vault = 26,
     oc_debt_bank = 14, oc_collateral_bank = 15 \<rparr>"
definition life_params :: place_order_params where
  "life_params = \<lparr> pp_seat_index_hint = None, pp_residual_mode = RESIDUAL_MODE_P2POOL_FALLBACK, pp_last_valid_unix_ts = 0, pp_rate_bps = 500, pp_term_seconds = 86400,
     pp_principal_atoms = 100, pp_collateral_atoms = 1000, pp_ltv_buffer_bps = 0 \<rparr>"
definition life_rates :: raw_rate_bank where
  "life_rates = \<lparr> rw_owner = 99, rw_last_update = 0, rw_asset_share_value = 2 ^ 48, rw_liability_share_value = 2 ^ 48, rw_total_asset_shares = 0,
     rw_total_liability_shares = 0, rw_optimal_utilization_rate = 0, rw_plateau_interest_rate = 0, rw_max_interest_rate = 0, rw_insurance_fee_fixed_apr = 0,
     rw_insurance_ir_fee = 0, rw_protocol_fixed_fee_apr = 0, rw_protocol_ir_fee = 0, rw_zero_util_rate = 0, rw_hundred_util_rate = 0, rw_points = [], rw_curve_type = 0 \<rparr>"
definition life_group :: raw_group where
  "life_group = \<lparr> rg_owner = 99, rg_fees_enabled = False, rg_program_fee_fixed = 0, rg_program_fee_rate = 0 \<rparr>"



definition life_settle :: settle_accounts where
  "life_settle = \<lparr> vs_group = 13, vs_integration_account = 31, vs_vault_signer = 32, vs_staging = 33, vs_liquidity_vault_authority = 24,
     vs_liquidity_vault = 23, vs_token_program = 25, vs_marginfi_program = 99, vs_oracle = 34, vs_market_debt_vault = 26,
     vs_lender_integration_account = 16, vs_market_signer = 18 \<rparr>"
definition life_promotion :: promotion_context where
  "life_promotion = \<lparr> pc_payer = 8, pc_market_key = 7, pc_loan_bump = 0, pc_debt_bank = 14, pc_settle = life_settle \<rparr>"

definition run_created :: "market res" where
  "run_created = process_create_market (\<lambda>_ _. (0, 0)) (Inr ()) (gc_new_empty 1) life_market life_fees"

definition run_seated :: "(market \<times> user_account) res" where
  "run_seated = ebind run_created (\<lambda>m. process_claim_seat (gc_new_empty 1) 5 0 7 m None)"

definition run_funded :: "(market \<times> user_account \<times> pool) res" where
  "run_funded = ebind run_seated (\<lambda>(m, u). process_deposit sample_programs life_seat (gc_new_empty 1) 2000 None m (Some u) sample_pool)"

definition run_ordered :: "(market \<times> global_vault option \<times> user_account \<times> pool) res" where
  "run_ordered = ebind run_funded (\<lambda>(m, u, p).
     process_place_order sample_programs life_order (gc_new_empty 1) (Inr SCALE) (Inr SCALE) life_rates life_group life_params 0 m None (Some u) p)"

definition run_promoted :: "(market \<times> global_vault option \<times> loan_fixed \<times> pool) res" where
  "run_promoted = ebind run_ordered (\<lambda>(m, v, u, p). process_matched_loan sample_programs life_promotion (gc_new_empty 1) 0 0 m None None p)"

definition loan_outcome :: "(market \<times> global_vault option \<times> loan_fixed \<times> pool) res \<Rightarrow> (nat \<times> nat \<times> nat \<times> nat \<times> int) option" where
  "loan_outcome r = (case r of Inl e \<Rightarrow> None
     | Inr (m, v, loan, p) \<Rightarrow> Some (ln_collateral_atoms loan, ln_outstanding_debt_atoms loan, ln_borrower_seat_index loan,
         ln_borrower_collateral_share_price_snapshot_fp48 loan, ln_matures_at_unix loan))"

lemma run_outcome: "loan_outcome run_promoted = Some (1000, 100, 0, SCALE, 86400)"
  by code_simp

text \<open>Every step of the run went through.\<close>

lemma run_steps:
  obtains m0 m1 u1 m2 u2 p2 m3 v3 u3 p3 m4 v4 loan p4 where
    "process_create_market (\<lambda>_ _. (0, 0)) (Inr ()) (gc_new_empty 1) life_market life_fees = Inr m0"
    "process_claim_seat (gc_new_empty 1) 5 0 7 m0 None = Inr (m1, u1)"
    "process_deposit sample_programs life_seat (gc_new_empty 1) 2000 None m1 (Some u1) sample_pool = Inr (m2, u2, p2)"
    "process_place_order sample_programs life_order (gc_new_empty 1) (Inr SCALE) (Inr SCALE) life_rates life_group life_params 0 m2 None
       (Some u2) p2 = Inr (m3, v3, u3, p3)"
    "process_matched_loan sample_programs life_promotion (gc_new_empty 1) 0 0 m3 None None p3 = Inr (m4, v4, loan, p4)"
    "ln_collateral_atoms loan = 1000" "ln_borrower_seat_index loan = 0"
    "ln_borrower_collateral_share_price_snapshot_fp48 loan = SCALE"
proof -
  obtain m4 v4 loan p4 where r: "run_promoted = Inr (m4, v4, loan, p4)"
    and l: "ln_collateral_atoms loan = 1000" "ln_borrower_seat_index loan = 0"
      "ln_borrower_collateral_share_price_snapshot_fp48 loan = SCALE"
    using run_outcome by (auto simp: loan_outcome_def split: sum.splits prod.splits)
  obtain m3 v3 u3 p3 where r3: "run_ordered = Inr (m3, v3, u3, p3)"
    and s4: "process_matched_loan sample_programs life_promotion (gc_new_empty 1) 0 0 m3 None None p3 = Inr (m4, v4, loan, p4)"
    using r unfolding run_promoted_def by (elim ebind_InrE) auto
  obtain m2 u2 p2 where r2: "run_funded = Inr (m2, u2, p2)"
    and s3: "process_place_order sample_programs life_order (gc_new_empty 1) (Inr SCALE) (Inr SCALE) life_rates life_group life_params 0 m2 None
       (Some u2) p2 = Inr (m3, v3, u3, p3)"
    using r3 unfolding run_ordered_def by (elim ebind_InrE) auto
  obtain m1 u1 where r1: "run_seated = Inr (m1, u1)"
    and s2: "process_deposit sample_programs life_seat (gc_new_empty 1) 2000 None m1 (Some u1) sample_pool = Inr (m2, u2, p2)"
    using r2 unfolding run_funded_def by (elim ebind_InrE) auto
  obtain m0 where s0: "run_created = Inr m0" and s1: "process_claim_seat (gc_new_empty 1) 5 0 7 m0 None = Inr (m1, u1)"
    using r1 unfolding run_seated_def by (elim ebind_InrE) auto
  show ?thesis by (rule that[OF s0[unfolded run_created_def] s1 s2 s3 s4 l])
qed

end
