(* ===== verification/Lifecycle.thy ===== *)
theory Lifecycle
  imports Sound_Steps Sample_Run
begin

text \<open>The life of a market: its creation and, in any order and any number, the instructions that act on it
  (\<open>processor/*.rs\<close>), each with any arguments, any accounts and any vault of the program. The state is the
  market and the multiset of its open loan accounts: a promotion opens one, a repayment, a liquidation, a
  settlement or a conversion rewrites or closes one. The collateral of every resting bid, every queued loan and
  every open loan stays locked in the seat of its borrower.\<close>

definition program_vault :: "global_vault \<Rightarrow> bool" where
  "program_vault v = (\<exists>ct. vault_history ct v)"

lemma program_vault_ok: "program_vault v \<Longrightarrow> vault_ok v"
  using vault_history_inv by (auto simp: program_vault_def vault_inv_def vault_inv_off_def)

definition slot_mset :: "loan_fixed option \<Rightarrow> loan_fixed multiset" where
  "slot_mset slot = (case slot of None \<Rightarrow> {#} | Some loan \<Rightarrow> {#loan#})"

definition open_locks :: "loan_fixed multiset \<Rightarrow> data_index \<Rightarrow> nat" where
  "open_locks L j = (\<Sum>loan \<in># L. loan_lock loan j)"

lemma slot_mset_simps [simp]: "slot_mset None = {#}" "slot_mset (Some loan) = {#loan#}"
  by (simp_all add: slot_mset_def)

lemma open_locks_simps [simp]:
  "open_locks {#} j = 0" "open_locks (add_mset loan L) j = open_locks L j + loan_lock loan j"
  "open_locks (slot_mset slot + L) j = open_locks L j + slot_lock slot j"
  by (cases slot; simp add: open_locks_def)+

lemma open_locks_fun:
  "open_locks (add_mset loan L) = (\<lambda>j. open_locks L j + loan_lock loan j)"
  "open_locks (slot_mset slot + L) = (\<lambda>j. open_locks L j + slot_lock slot j)"
  "open_locks {#} = (\<lambda>_. 0)"
  by (simp_all add: fun_eq_iff)

lemma in_slot_mset [simp]: "l \<in># slot_mset slot \<longleftrightarrow> slot = Some l"
  by (cases slot) auto

inductive lifecycle :: "programs \<Rightarrow> market \<Rightarrow> loan_fixed multiset \<Rightarrow> bool" for pg where
  create: "process_create_market vault_of setup gc cm fees = Inr m \<Longrightarrow> lifecycle pg m {#}"
| claim_seat: "lifecycle pg m L \<Longrightarrow>
    process_claim_seat gc payer bump key m slot = Inr (m', u) \<Longrightarrow> lifecycle pg m' L"
| deposit: "lifecycle pg m L \<Longrightarrow>
    process_deposit pg sc gc a hint m slot p = Inr (m', u, p') \<Longrightarrow> lifecycle pg m' L"
| withdraw: "lifecycle pg m L \<Longrightarrow>
    process_withdraw pg sc gc a hint all banks m slot p = Inr (m', u, p') \<Longrightarrow> lifecycle pg m' L"
| place_order: "lifecycle pg m L \<Longrightarrow> pp_collateral_atoms params < u64_lim \<Longrightarrow> (\<And>v. vault = Some v \<Longrightarrow> program_vault v) \<Longrightarrow>
    process_place_order pg oc gc dp cp rb rg params now m vault slot p = Inr (m', vault', u, p') \<Longrightarrow> lifecycle pg m' L"
| cancel_order: "lifecycle pg m L \<Longrightarrow>
    process_cancel_order gc payer key sq hint m ua = Inr (m', ua') \<Longrightarrow> lifecycle pg m' L"
| update_order: "lifecycle pg m L \<Longrightarrow>
    process_update_order gc payer key uq now m ua = Inr (m', ua') \<Longrightarrow> lifecycle pg m' L"
| place_ask: "lifecycle pg m L \<Longrightarrow> program_vault v \<Longrightarrow>
    process_place_order_for_sub_vault pg ac gc dp cp rb rg k flags now p m v = Inr (m', v') \<Longrightarrow> lifecycle pg m' L"
| cancel_ask: "lifecycle pg m L \<Longrightarrow>
    process_cancel_order_for_sub_vault ac gc k m v = Inr (m', v') \<Longrightarrow> lifecycle pg m' L"
| admin_cancel_ask: "lifecycle pg m L \<Longrightarrow>
    process_admin_cancel_sub_vault_order payer ac k m v = Inr (m', v') \<Longrightarrow> lifecycle pg m' L"
| update_ask: "lifecycle pg m L \<Longrightarrow> program_vault v \<Longrightarrow>
    process_update_order_for_sub_vault pg ac gc dp cp rb rg k flags now p m v = Inr (m', v') \<Longrightarrow> lifecycle pg m' L"
| crank: "lifecycle pg m L \<Longrightarrow> program_vault v \<Longrightarrow>
    process_match_crank pg ac gc dp cp rb rg n now p m v = Inr (m', v', k) \<Longrightarrow> lifecycle pg m' L"
| promote: "lifecycle pg m L \<Longrightarrow>
    process_matched_loan pg pc gc now sq m ov slot p = Inr (m', ov', loan, p') \<Longrightarrow> lifecycle pg m' (add_mset loan L)"
| repay: "lifecycle pg m (add_mset loan L) \<Longrightarrow>
    process_repay pg rc gc rb rg rp now m ov loan ua p = Inr (m', ov', slot', ua', p') \<Longrightarrow> lifecycle pg m' (slot_mset slot' + L)"
| liquidate: "lifecycle pg m (add_mset loan L) \<Longrightarrow>
    process_liquidate_loan pg kc gc dp cp rmax now m ov loan p = Inr (m', ov', slot', p') \<Longrightarrow> lifecycle pg m' (slot_mset slot' + L)"
| settle: "lifecycle pg m (add_mset loan L) \<Longrightarrow>
    process_settle_matured_loan pg kc gc rmax now m ov loan p = Inr (m', ov', slot', p') \<Longrightarrow> lifecycle pg m' (slot_mset slot' + L)"
| convert: "lifecycle pg m (add_mset loan L) \<Longrightarrow> program_vault v \<Longrightarrow>
    process_convert_p2pool_to_fixed pg cc gc dp cp rb rg cv now m v loan p = Inr (m', v', slot', p') \<Longrightarrow> lifecycle pg m' (slot_mset slot' + L)"
| sweep: "lifecycle pg m L \<Longrightarrow>
    process_claim_repayment_for_sub_vault pg wc gc k m v p = Inr (m', v', p') \<Longrightarrow> lifecycle pg m' L"
| claim_fees: "lifecycle pg m L \<Longrightarrow>
    process_protocol_fee_claim pg wc gc m p = Inr (m', p') \<Longrightarrow> lifecycle pg m' L"
| set_fees: "lifecycle pg m L \<Longrightarrow>
    process_set_fee_config gc payer fees m = Inr m' \<Longrightarrow> lifecycle pg m' L"
| pause: "lifecycle pg m L \<Longrightarrow>
    process_set_market_pause payer b m = Inr m' \<Longrightarrow> lifecycle pg m' L"
| nominate: "lifecycle pg m L \<Longrightarrow>
    process_transfer_market_admin payer n m = Inr m' \<Longrightarrow> lifecycle pg m' L"
| accept: "lifecycle pg m L \<Longrightarrow>
    process_accept_market_admin payer m = Inr m' \<Longrightarrow> lifecycle pg m' L"

section \<open>A fresh market\<close>

lemma empty_market_sound:
  assumes "mk_bids m = []" "mk_asks m = []" "mk_claimed_seats m = []" "mk_matched_loans m = []" "mk_free_list m = []"
    "mk_num_bytes_allocated m = 0"
  shows "market_sound (\<lambda>_. 0) m"
  using assms
  by (simp add: market_sound_def market_ok_def market_blocks_def backed_def bids_sane_def bids_pledged_def loans_pledged_def
      encumbered_of_def queue_wide_def descending_def tree_values_def u32_lim_def)

lemma new_market_trees [simp]:
  "mk_bids (mk_new_empty f a b c d e) = []" "mk_asks (mk_new_empty f a b c d e) = []" "mk_claimed_seats (mk_new_empty f a b c d e) = []"
  "mk_matched_loans (mk_new_empty f a b c d e) = []" "mk_free_list (mk_new_empty f a b c d e) = []"
  "mk_num_bytes_allocated (mk_new_empty f a b c d e) = 0"
  by (simp_all add: mk_new_empty_def split: prod.splits)

lemma create_market_sound:
  assumes "process_create_market vault_of setup gc cm fees = Inr m"
  shows "market_sound (\<lambda>_. 0) m"
  using assms unfolding process_create_market_def Let_def
  by (elim ebind_InrE) (erule expand_sound[rotated], rule empty_market_sound, simp_all)

lemma admin_sound:
  "process_set_fee_config gc payer fees m = Inr m' \<Longrightarrow> market_sound ext m' = market_sound ext m"
  "process_set_market_pause payer b m = Inr m' \<Longrightarrow> market_sound ext m' = market_sound ext m"
  "process_transfer_market_admin payer n m = Inr m' \<Longrightarrow> market_sound ext m' = market_sound ext m"
  "process_accept_market_admin payer m = Inr m' \<Longrightarrow> market_sound ext m' = market_sound ext m"
  by (auto simp: process_set_fee_config_def process_set_market_pause_def process_transfer_market_admin_def process_accept_market_admin_def
      elim!: ebind_InrE)

section \<open>The invariant\<close>

lemma lifecycle_sound:
  assumes "lifecycle pg m L" "withdraws_at_most pg"
  shows "market_sound (open_locks L) m \<and> (\<forall>loan \<in># L. ln_collateral_atoms loan < u64_lim)"
  using assms
proof (induction rule: lifecycle.induct)
  case create
  then show ?case using create_market_sound by (simp add: open_locks_fun)
next
  case claim_seat
  then show ?case using process_claim_seat_sound by blast
next
  case deposit
  then show ?case using process_deposit_sound by blast
next
  case withdraw
  then show ?case using process_withdraw_sound by blast
next
  case place_order
  then show ?case using process_place_order_sound[OF _ program_vault_ok] by blast
next
  case cancel_order
  then show ?case using process_cancel_order_sound by blast
next
  case update_order
  then show ?case using process_update_order_sound by blast
next
  case place_ask
  then show ?case using process_place_ask_sound program_vault_ok by blast
next
  case cancel_ask
  then show ?case using process_cancel_ask_sound by blast
next
  case admin_cancel_ask
  then show ?case using process_admin_cancel_ask_sound by blast
next
  case update_ask
  then show ?case using process_update_ask_sound program_vault_ok by blast
next
  case crank
  then show ?case using process_crank_sound program_vault_ok by blast
next
  case (promote m L gc pc now sq ov slot p m' ov' loan p')
  then show ?case using promotion_sound[of "open_locks L" m] by (auto simp: open_locks_fun)
next
  case (repay m loan L)
  then show ?case using repay_sound[of "open_locks L" loan m] by (auto simp: open_locks_fun)
next
  case (liquidate m loan L)
  then show ?case using liquidate_sound[OF _ _ _ liquidate(2), of "open_locks L"] by (auto simp: open_locks_fun)
next
  case (settle m loan L)
  then show ?case using settle_sound[OF _ _ _ settle(2), of "open_locks L"] by (auto simp: open_locks_fun)
next
  case (convert m loan L)
  then show ?case using convert_sound[OF _ _ _ convert(3), of "open_locks L"] program_vault_ok by (auto simp: open_locks_fun)
next
  case sweep
  then show ?case using claim_repayment_sound by blast
next
  case claim_fees
  then show ?case using fee_claim_sound by blast
next
  case set_fees
  then show ?case using admin_sound(1) by blast
next
  case pause
  then show ?case using admin_sound(2) by blast
next
  case nominate
  then show ?case using admin_sound(3) by blast
next
  case accept
  then show ?case using admin_sound(4) by blast
qed

text \<open>C1. Over the whole life of a market - any sequence of its instructions, each with any arguments, any accounts and
  any vault - the market stays well formed, and for every seat the collateral pledged by resting bids, by queued loans
  and by open loans is at most what the seat has locked; so no loan ever fails to get its collateral back for want of
  locked shares. The lending program is assumed to pay out at most the atoms it is asked for.\<close>

theorem collateral_stays_locked:
  assumes "lifecycle pg m L" "withdraws_at_most pg"
  shows "market_ok m \<and> (\<forall>i. bids_pledged m i + loans_pledged m i + open_locks L i \<le> encumbered_of m i) \<and>
    (\<forall>loan. loan \<in># L \<longrightarrow>
       return_collateral m (ln_borrower_seat_index loan) (ln_collateral_atoms loan) (ln_borrower_collateral_share_price_snapshot_fp48 loan)
         \<noteq> Inl (Custom InsufficientEncumberedCollateral))"
proof -
  note s = lifecycle_sound[OF assms]
  have "return_collateral m (ln_borrower_seat_index loan) (ln_collateral_atoms loan) (ln_borrower_collateral_share_price_snapshot_fp48 loan)
      \<noteq> Inl (Custom InsufficientEncumberedCollateral)" if l: "loan \<in># L" for loan
  proof -
    obtain L' where "L = add_mset loan L'" using l by (meson multi_member_split)
    then have b: "backed (\<lambda>j. open_locks L' j + loan_lock loan j) m" using s by (simp add: market_sound_def open_locks_fun)
    show ?thesis by (rule return_collateral_never_short[of "open_locks L'"]) (use b s l in \<open>simp_all add: loan_lock_def\<close>)
  qed
  then show ?thesis using s by (simp add: market_sound_def backed_def)
qed

theorem collateral_stays_locked_witness:
  "\<exists>m loan. lifecycle sample_programs m {#loan#} \<and> ln_collateral_atoms loan = 1000 \<and> 1000 * SCALE \<le> encumbered_of m 0"
proof -
  obtain m0 m1 u1 m2 u2 p2 m3 v3 u3 p3 m4 v4 loan p4 where
    "process_create_market (\<lambda>_ _. (0, 0)) (Inr ()) (gc_new_empty 1) life_market life_fees = Inr m0"
    "process_claim_seat (gc_new_empty 1) 5 0 7 m0 None = Inr (m1, u1)"
    "process_deposit sample_programs life_seat (gc_new_empty 1) 2000 None m1 (Some u1) sample_pool = Inr (m2, u2, p2)"
    "process_place_order sample_programs life_order (gc_new_empty 1) (Inr SCALE) (Inr SCALE) life_rates life_group life_params 0 m2 None
       (Some u2) p2 = Inr (m3, v3, u3, p3)"
    "process_matched_loan sample_programs life_promotion (gc_new_empty 1) 0 0 m3 None None p3 = Inr (m4, v4, loan, p4)"
    and l: "ln_collateral_atoms loan = 1000" "ln_borrower_seat_index loan = 0" "ln_borrower_collateral_share_price_snapshot_fp48 loan = SCALE"
    by (rule run_steps)
  then have "lifecycle sample_programs m3 {#}"
    by (intro lifecycle.place_order[OF lifecycle.deposit[OF lifecycle.claim_seat[OF lifecycle.create]]])
      (simp_all add: life_params_def u64_lim_def)
  then have r: "lifecycle sample_programs m4 {#loan#}" by (rule lifecycle.promote) fact
  have "bids_pledged m4 0 + loans_pledged m4 0 + open_locks {#loan#} 0 \<le> encumbered_of m4 0"
    using collateral_stays_locked[OF r sample_withdraws] by blast
  moreover have "open_locks {#loan#} 0 = 1000 * SCALE"
    by (simp add: loan_lock_def l owed_def locked_shares_def from_atoms_def SCALE_def SCALE_BITS_def)
  ultimately show ?thesis using r l by force
qed

end
