(* ===== verification/Spec2Isabelle.thy ===== *)
theory Spec2Isabelle
  imports Prelude Errors Fp48 Free_List Hypertree Loan Ltv Sub_Vault Market_State Matching Fills Orders Resting_Bids Refinance Backing Bid_Walk
    Marginfi Oracles Rate_Calc User_Account Loan_Books Guards Market_Steps Sample_Pool Promotion Repayment Liquidation
    Administration Vault_Funds Vault_Books Vault_History Vault_Value Order_Instructions
    Claims Conversion Queue_Widths Rb_Refines Lifecycle
begin

text \<open>Verification library of yDelta, a lending program on Solana (\<open>src/programs/ydelta\<close>, with the containers of
  \<open>src/lib\<close>). A market matches borrowers' bids with lenders' asks for one pair of mints. Collateral and idle funds sit
  in accounts of the marginfi lending program. Borrowers hold seats of a market; lenders hold shares of sub-vaults, pools
  that a curator manages inside a vault. A match queues a loan; anyone may then promote it to an open loan, which
  ends by repayment, liquidation, settlement after maturity or, for a loan at marginfi's variable rate,
  conversion into fixed loans. What a fixed loan pays back is swept into the vault.

  Values and containers. \<open>Prelude\<close>: results as sums, machine widths, the facts all theories share. \<open>Errors\<close>:
  \<open>program/error.rs\<close>. \<open>Fp48\<close>: \<open>math.rs\<close>. \<open>Free_List\<close>: the linked free list of \<open>lib/src/free_list.rs\<close> as an
  instance of a block allocator. \<open>Hypertree\<close>: the interface of the ordered containers, \<open>lib/src/hypertree.rs\<close>.
  \<open>Rb_Tree\<close>: the red-black tree of \<open>lib/src/red_black_tree.rs\<close> on its blocks and pointers; \<open>Rb_Shape\<close>, \<open>Rb_Insert\<close>,
  \<open>Rb_Walk\<close>, \<open>Rb_Swap\<close>, \<open>Rb_Remove\<close> and \<open>Rb_Refines\<close> show that any history of it runs, is balanced, and yields the
  descending list by which every account of the model carries its trees.

  Loans and prices. \<open>Loan\<close>: \<open>state/loan.rs\<close>, accrual, resolution and conservation. \<open>Ltv\<close>: \<open>state/ltv.rs\<close>, the gates at
  origination, liquidation and maturity. \<open>Marginfi\<close>: the adapter of \<open>protocol/marginfi.rs\<close>. \<open>Rate_Calc\<close>:
  \<open>protocol/marginfi_rate_calc.rs\<close>. \<open>Oracles\<close>: \<open>protocol/oracles.rs\<close> with the bank configuration of
  \<open>src/programs/marginfi-mocks\<close>, down to the bytes.

  The accounts. \<open>Market_State\<close>: \<open>state/market.rs\<close>, seats, bids, asks and the queue of matched loans. \<open>Sub_Vault\<close>:
  \<open>state/vault.rs\<close>, sub-vaults, their accrual, depositors' seats and order references. \<open>User_Account\<close>:
  \<open>state/user_account.rs\<close>. \<open>Guards\<close>: \<open>state/global_config.rs\<close> and the pause switches.

  The engine, \<open>state/market_helpers.rs\<close>. \<open>Matching\<close> and \<open>Fills\<close>: the taking of asks and what a run has done. \<open>Orders\<close>:
  placing, resting, cancelling and repricing. \<open>Resting_Bids\<close> and \<open>Bid_Walk\<close>: an ask that takes bids.
  \<open>Refinance\<close>: a variable-rate loan that crosses asks. \<open>Backing\<close> and \<open>Market_Steps\<close>: the collateral lock of every bid
  and loan, kept by each operation.

  The instructions, \<open>program/processor\<close>, one definition each with its guards in the code's order.
  \<open>Order_Instructions\<close>: seats, deposits, withdrawals, orders and the crank. \<open>Promotion\<close>: \<open>process_matched_loan.rs\<close>.
  \<open>Loan_Books\<close> and \<open>Loan_Closing\<close>: what opening and closing a loan does to the lender's books and to the seats.
  \<open>Repayment\<close>: \<open>repay.rs\<close>. \<open>Liquidation\<close>: \<open>liquidate_loan.rs\<close> and \<open>settle_matured_loan.rs\<close>. \<open>Conversion\<close>:
  \<open>convert_p2pool_to_fixed.rs\<close>. \<open>Claims\<close>: \<open>claim_repayment_for_sub_vault.rs\<close> and \<open>protocol_fee_claim.rs\<close>.
  \<open>Administration\<close>: creation, parameters, pauses and the transfers of control. \<open>Vault_Funds\<close>: deposits into and
  withdrawals from a sub-vault and the curator's fee.

  What is shown. Of single components: the invariants of the accounts under all their operations, the exact effect of
  accrual and resolution, bounds of the fixed-point conversions, the meaning of the gates, and the soundness of a
  price that is read. Of a run of the engine: conservation, the gates every minted loan passed, best rates first,
  no lending beyond the idle atoms, and the end of its walks. Of instructions: what each pays, to whom, and at which price.
  Of whole lives: \<open>Sound_Steps\<close>, \<open>Queue_Widths\<close> and \<open>Lifecycle\<close> follow a market through any sequence of its
  instructions and show all collateral backed by locks; \<open>Vault_Books\<close>, \<open>Vault_History\<close> and \<open>Vault_Value\<close> follow a vault
  and show that shares and holdings agree and what a share is worth. Where the code does not do what it means
  to, a theorem states exactly when: a partial resolution that is refused, claims that stay pending after an early
  sweep, and withdrawals and loans of atoms that are only claims. \<open>Sample_Pool\<close> and \<open>Sample_Run\<close> hold the
  concrete programs and the evaluated market that witnesses run on.

  Interfaces are locales, each interpreted on the model's own definitions: the block allocator of \<open>Free_List\<close>, the ordered
  container of \<open>Hypertree\<close>, the container in memory of \<open>Rb_Refines\<close> and the transfer of control of \<open>Administration\<close>. An
  account is a record; a tree of it is the list of its (block, value) pairs from the greatest to the least, and its free
  blocks are a list. Fallible operations return a sum, \<open>Inl\<close> an error. A 64- or 128-bit integer is a natural number or an integer,
  with the check, wrap or saturation of the code written out; the bytes of oracle accounts are words.

  Loops. The walks of the engine carry fuel, as many rounds as the walked tree has nodes and one more; each is shown equal to
  the structural walk, so the fuel is never exhausted. The loops of the red-black tree are partial functions, None where
  the code would not end; any history from the empty tree is shown to return. All other loops recur
  on a list or on a number that shrinks.

  Parameters. What the marginfi and token programs do in a call is the record \<open>programs\<close>; a theorem that needs it
  assumes that a withdrawal delivers at most the atoms asked for. The outcome of account creation, addresses derived from
  seeds and the decoding of a stake account by the SDK are parameters. Handlers take an oracle's price, or its error, as a
  parameter; \<open>Oracles\<close> models how it is read.

  Not modelled: the encoding and dispatch of instructions, client-side builders, logs, rent, and the checks of owner,
  address and signer on runtime accounts; the records stand for accounts that passed them. The byte views of the program's
  own accounts are not modelled either: reading a block that is not a node of the tree is \<open>Panic\<close> in the model, while the
  code reads whatever record the bytes spell; a hint to a seat is checked by the code against the signer and falls
  back to the lookup, which the model has. The mock of marginfi is modelled only where the program reads a
  bank's oracle configuration.\<close>

end
